(* ===== verification/Prelude.thy ===== *)
theory Prelude
  imports Main "HOL-Library.Sublist"
begin

text \<open>
  What every component shares: the exceptions of Python as values, the result type of code that
  can raise, the sequencing of such code, and the generic facts on lists and finite maps that the
  component proofs use.

  A Python value that may be \<open>None\<close> is an \<open>option\<close>; code that may raise returns
  \<open>py_error + 'a\<close>, \<open>Inl\<close> being the raise.
\<close>

section \<open>Exceptions as values\<close>

datatype py_error =
    ValueError
  | KeyError
  | IndexError
  | TypeError
  | AttributeError
  | UnboundLocalError
  | OverflowError
  | StructError
  | RuntimeError
  | NameError
  | SocketFailure
  | OSFailure
  | AssertionError
  | StopIteration
  | StopReactor

type_synonym 'a res = "py_error + 'a"

text \<open>Statements in sequence: the first exception ends the block.\<close>

definition seq :: "'e + 'a \<Rightarrow> ('a \<Rightarrow> 'e + 'b) \<Rightarrow> 'e + 'b" where
  "seq m f = (case m of Inl e \<Rightarrow> Inl e | Inr x \<Rightarrow> f x)"

lemma seq_simps [simp]:
  "seq (Inl e) f = Inl e"
  "seq (Inr x) f = f x"
  by (simp_all add: seq_def)

lemma seq_eq_Inr_iff: "seq m f = Inr y \<longleftrightarrow> (\<exists>x. m = Inr x \<and> f x = Inr y)"
  by (cases m) auto

lemma seq_eq_Inl_iff: "seq m f = Inl e \<longleftrightarrow> m = Inl e \<or> (\<exists>x. m = Inr x \<and> f x = Inl e)"
  by (cases m) auto

lemma seq_cong [fundef_cong]:
  "m = m' \<Longrightarrow> (\<And>x. m' = Inr x \<Longrightarrow> f x = g x) \<Longrightarrow> seq m f = seq m' g"
  by (cases m') auto

text \<open>The body of a \<open>for\<close> loop whose iterations can raise, threading a state.\<close>

fun for_each :: "('a \<Rightarrow> 's \<Rightarrow> 'e + 's) \<Rightarrow> 'a list \<Rightarrow> 's \<Rightarrow> 'e + 's" where
  "for_each f [] s = Inr s"
| "for_each f (x # xs) s = seq (f x s) (for_each f xs)"

lemma for_each_invariant:
  assumes "for_each f xs s = Inr t" "P s"
    and "\<And>x s s'. x \<in> set xs \<Longrightarrow> P s \<Longrightarrow> f x s = Inr s' \<Longrightarrow> P s'"
  shows "P t"
  using assms by (induction xs arbitrary: s) (auto simp: seq_eq_Inr_iff)

text \<open>A list comprehension whose body can raise.\<close>

fun map_res :: "('a \<Rightarrow> 'e + 'b) \<Rightarrow> 'a list \<Rightarrow> 'e + 'b list" where
  "map_res f [] = Inr []"
| "map_res f (x # xs) = seq (f x) (\<lambda>y. seq (map_res f xs) (\<lambda>ys. Inr (y # ys)))"

lemma map_res_Inr: "(\<And>x. x \<in> set xs \<Longrightarrow> f x = Inr (g x)) \<Longrightarrow> map_res f xs = Inr (map g xs)"
  by (induction xs) auto

lemma map_res_cong [fundef_cong]:
  "xs = ys \<Longrightarrow> (\<And>x. x \<in> set ys \<Longrightarrow> f x = g x) \<Longrightarrow> map_res f xs = map_res g ys"
  by (induction ys arbitrary: xs) auto

lemma length_map_res: "map_res f xs = Inr ys \<Longrightarrow> length ys = length xs"
  by (induction xs arbitrary: ys) (auto simp: seq_eq_Inr_iff)

text \<open>An exception of one kind seen as an exception of a larger kind.\<close>

definition lift_error :: "('e \<Rightarrow> 'f) \<Rightarrow> 'e + 'a \<Rightarrow> 'f + 'a" where
  "lift_error g r = (case r of Inl e \<Rightarrow> Inl (g e) | Inr x \<Rightarrow> Inr x)"

lemma lift_error_simps [simp]:
  "lift_error g (Inl e) = Inl (g e)"
  "lift_error g (Inr x) = Inr x"
  by (simp_all add: lift_error_def)

lemma lift_error_eq_Inr_iff [simp]: "lift_error g r = Inr x \<longleftrightarrow> r = Inr x"
  by (cases r) auto

text \<open>A value that must be there: the exception raised when it is not.\<close>

definition or_raise :: "'e \<Rightarrow> 'a option \<Rightarrow> 'e + 'a" where
  "or_raise e v = (case v of None \<Rightarrow> Inl e | Some x \<Rightarrow> Inr x)"

lemma or_raise_simps [simp]:
  "or_raise e None = Inl e"
  "or_raise e (Some x) = Inr x"
  by (simp_all add: or_raise_def)

lemma or_raise_eq_Inr_iff [simp]: "or_raise e v = Inr x \<longleftrightarrow> v = Some x"
  by (cases v) auto

text \<open>The same sequencing for code that may also not return (\<open>None\<close>).\<close>

definition oseq :: "('e + 'a) option \<Rightarrow> ('a \<Rightarrow> ('e + 'b) option) \<Rightarrow> ('e + 'b) option" where
  "oseq m f = (case m of None \<Rightarrow> None | Some (Inl e) \<Rightarrow> Some (Inl e) | Some (Inr x) \<Rightarrow> f x)"

lemma oseq_simps [simp]:
  "oseq None f = None"
  "oseq (Some (Inl e)) f = Some (Inl e)"
  "oseq (Some (Inr x)) f = f x"
  by (simp_all add: oseq_def)

lemma oseq_cong [fundef_cong]:
  "m = m' \<Longrightarrow> (\<And>x. m' = Some (Inr x) \<Longrightarrow> f x = g x) \<Longrightarrow> oseq m f = oseq m' g"
  by (auto simp: oseq_def split: option.split sum.split)

section \<open>Lists\<close>

text \<open>Python's \<open>xs.remove(x)\<close>: the first occurrence, \<open>ValueError\<close> when there is none.\<close>

definition py_remove :: "'a \<Rightarrow> 'a list \<Rightarrow> 'a list res" where
  "py_remove x xs = (if x \<in> set xs then Inr (remove1 x xs) else Inl ValueError)"

lemma py_remove_simps [simp]:
  "x \<in> set xs \<Longrightarrow> py_remove x xs = Inr (remove1 x xs)"
  "x \<notin> set xs \<Longrightarrow> py_remove x xs = Inl ValueError"
  by (simp_all add: py_remove_def)

text \<open>Python's \<open>xs[0]\<close> and \<open>xs[-1]\<close>.\<close>

definition py_first :: "'a list \<Rightarrow> 'a res" where
  "py_first xs = (case xs of [] \<Rightarrow> Inl IndexError | x # _ \<Rightarrow> Inr x)"

definition py_last :: "'a list \<Rightarrow> 'a res" where
  "py_last xs = (if xs = [] then Inl IndexError else Inr (last xs))"

lemma py_first_simps [simp]:
  "py_first [] = Inl IndexError"
  "py_first (x # xs) = Inr x"
  by (simp_all add: py_first_def)

lemma py_last_simps [simp]:
  "py_last [] = Inl IndexError"
  "xs \<noteq> [] \<Longrightarrow> py_last xs = Inr (last xs)"
  by (simp_all add: py_last_def)

text \<open>Python's slice \<open>xs[a:b]\<close> for indices that are not negative.\<close>

definition py_slice :: "nat \<Rightarrow> nat \<Rightarrow> 'a list \<Rightarrow> 'a list" where
  "py_slice a b xs = drop a (take b xs)"

lemma length_py_slice [simp]: "length (py_slice a b xs) = min b (length xs) - a"
  by (simp add: py_slice_def)

lemma py_slice_append: "a \<le> b \<Longrightarrow> b \<le> c \<Longrightarrow> py_slice a b xs @ py_slice b c xs = py_slice a c xs"
proof -
  assume ab: "a \<le> b" and bc: "b \<le> c"
  have "take c xs = take b xs @ drop b (take c xs)"
    by (metis append_take_drop_id bc min.absorb1 take_take)
  then have "drop a (take c xs) = drop a (take b xs @ drop b (take c xs))" by simp
  also have "\<dots> = drop a (take b xs) @ drop (a - length (take b xs)) (drop b (take c xs))"
    by (rule drop_append)
  also have "drop (a - length (take b xs)) (drop b (take c xs)) = drop b (take c xs)"
  proof (cases "b \<le> length xs")
    case True
    with ab show ?thesis by simp
  next
    case False
    then show ?thesis by simp
  qed
  finally show ?thesis by (simp add: py_slice_def)
qed

text \<open>Python's slices \<open>xs[:i]\<close> and \<open>xs[i:]\<close>: an index below zero counts from the end.\<close>

definition py_index :: "int \<Rightarrow> nat \<Rightarrow> nat" where
  "py_index i len = (if i < 0 then nat (int len + i) else nat i)"

definition py_upto :: "int \<Rightarrow> 'a list \<Rightarrow> 'a list" where
  "py_upto i xs = take (py_index i (length xs)) xs"

definition py_from :: "int \<Rightarrow> 'a list \<Rightarrow> 'a list" where
  "py_from i xs = drop (py_index i (length xs)) xs"

lemma py_upto_nonneg [simp]: "0 \<le> i \<Longrightarrow> py_upto i xs = take (nat i) xs"
  by (simp add: py_upto_def py_index_def)

lemma py_from_nonneg [simp]: "0 \<le> i \<Longrightarrow> py_from i xs = drop (nat i) xs"
  by (simp add: py_from_def py_index_def)

lemma py_upto_from [simp]: "py_upto i xs @ py_from i xs = xs"
  by (simp add: py_upto_def py_from_def)

section \<open>Finite maps\<close>

text \<open>Python's \<open>d.get(k, default)\<close>.\<close>

definition dict_get :: "('k \<rightharpoonup> 'v) \<Rightarrow> 'k \<Rightarrow> 'v \<Rightarrow> 'v" where
  "dict_get m k d = (case m k of None \<Rightarrow> d | Some v \<Rightarrow> v)"

lemma dict_get_simps [simp]:
  "m k = None \<Longrightarrow> dict_get m k d = d"
  "m k = Some v \<Longrightarrow> dict_get m k d = v"
  by (simp_all add: dict_get_def)

end
