(* ===== verification/PyStr.thy ===== *)
theory PyStr
  imports Prelude
begin

text \<open>
  The operations of Python 2's \<open>str\<close> (a sequence of bytes, here \<^typ>\<open>char list\<close>) that the
  program uses: \<open>find\<close>, \<open>in\<close>, \<open>split\<close>, \<open>strip\<close>, \<open>count\<close>, \<open>lower\<close>, \<open>upper\<close>, \<open>isdigit\<close>, \<open>isspace\<close>,
  \<open>join\<close>, \<open>int\<close> and the formatting of numbers, with the facts the parsers rest on.
\<close>

section \<open>Characters\<close>

abbreviation CR :: char where "CR \<equiv> CHR 0x0D"
abbreviation LF :: char where "LF \<equiv> CHR 0x0A"
abbreviation TAB :: char where "TAB \<equiv> CHR 0x09"
abbreviation CRLF :: string where "CRLF \<equiv> [CR, LF]"
abbreviation DQUOTE :: char where "DQUOTE \<equiv> CHR 0x22"
abbreviation BACKSLASH :: char where "BACKSLASH \<equiv> CHR 0x5C"

definition is_space :: "char \<Rightarrow> bool" where
  "is_space c \<longleftrightarrow> c \<in> {CHR '' '', TAB, LF, CHR 0x0B, CHR 0x0C, CR}"

definition is_digit :: "char \<Rightarrow> bool" where
  "is_digit c \<longleftrightarrow> (let n = of_char c :: nat in 48 \<le> n \<and> n \<le> 57)"

definition hexdigits :: string where
  "hexdigits = ''0123456789abcdefABCDEF''"

definition to_lower :: "char \<Rightarrow> char" where
  "to_lower c = (let n = of_char c :: nat in if 65 \<le> n \<and> n \<le> 90 then char_of (n + 32) else c)"

definition to_upper :: "char \<Rightarrow> char" where
  "to_upper c = (let n = of_char c :: nat in if 97 \<le> n \<and> n \<le> 122 then char_of (n - 32) else c)"

definition py_lower :: "string \<Rightarrow> string" where
  "py_lower s = map to_lower s"

definition py_upper :: "string \<Rightarrow> string" where
  "py_upper s = map to_upper s"

definition py_isdigit :: "string \<Rightarrow> bool" where
  "py_isdigit s \<longleftrightarrow> s \<noteq> [] \<and> list_all is_digit s"

definition py_isspace :: "string \<Rightarrow> bool" where
  "py_isspace s \<longleftrightarrow> s \<noteq> [] \<and> list_all is_space s"

section \<open>Stripping\<close>

definition lstrip_in :: "string \<Rightarrow> string \<Rightarrow> string" where
  "lstrip_in cs s = dropWhile (\<lambda>c. c \<in> set cs) s"

definition rstrip_in :: "string \<Rightarrow> string \<Rightarrow> string" where
  "rstrip_in cs s = rev (dropWhile (\<lambda>c. c \<in> set cs) (rev s))"

definition strip_in :: "string \<Rightarrow> string \<Rightarrow> string" where
  "strip_in cs s = rstrip_in cs (lstrip_in cs s)"

definition py_lstrip :: "string \<Rightarrow> string" where
  "py_lstrip s = dropWhile is_space s"

definition py_rstrip :: "string \<Rightarrow> string" where
  "py_rstrip s = rev (dropWhile is_space (rev s))"

definition py_strip :: "string \<Rightarrow> string" where
  "py_strip s = py_rstrip (py_lstrip s)"

lemma strip_in_Nil_iff: "strip_in cs s = [] \<longleftrightarrow> set s \<subseteq> set cs"
proof
  assume "strip_in cs s = []"
  then have all: "\<forall>c \<in> set (lstrip_in cs s). c \<in> set cs"
    by (simp add: strip_in_def rstrip_in_def)
  show "set s \<subseteq> set cs"
  proof (rule ccontr)
    assume "\<not> set s \<subseteq> set cs"
    then have ne: "dropWhile (\<lambda>c. c \<in> set cs) s \<noteq> []" by auto
    then have "hd (dropWhile (\<lambda>c. c \<in> set cs) s) \<notin> set cs" by (rule hd_dropWhile)
    with ne all show False unfolding lstrip_in_def by (metis hd_in_set)
  qed
next
  assume "set s \<subseteq> set cs"
  then have "lstrip_in cs s = []" by (auto simp: lstrip_in_def)
  then show "strip_in cs s = []" by (simp add: strip_in_def rstrip_in_def)
qed

lemma lstrip_in_suffix: "\<exists>p. s = p @ lstrip_in cs s"
  unfolding lstrip_in_def by (metis takeWhile_dropWhile_id)

lemma lstrip_in_id: "s = [] \<or> hd s \<notin> set cs \<Longrightarrow> lstrip_in cs s = s"
  by (cases s) (auto simp: lstrip_in_def)

lemma py_rstrip_id: "s = [] \<or> \<not> is_space (last s) \<Longrightarrow> py_rstrip s = s"
  by (cases s rule: rev_cases) (auto simp: py_rstrip_def)

lemma py_lstrip_id: "s = [] \<or> \<not> is_space (hd s) \<Longrightarrow> py_lstrip s = s"
  by (cases s) (auto simp: py_lstrip_def)

lemma py_strip_id: "s = [] \<or> \<not> is_space (hd s) \<and> \<not> is_space (last s) \<Longrightarrow> py_strip s = s"
  unfolding py_strip_def using py_lstrip_id [of s] py_rstrip_id [of s] by auto

section \<open>Searching\<close>

text \<open>\<open>s.find(p)\<close>, with \<open>None\<close> for \<open>-1\<close>.\<close>

fun py_find :: "string \<Rightarrow> string \<Rightarrow> nat option" where
  "py_find p [] = (if p = [] then Some 0 else None)"
| "py_find p (c # cs) = (if prefix p (c # cs) then Some 0 else map_option Suc (py_find p cs))"

definition py_in :: "string \<Rightarrow> string \<Rightarrow> bool" where
  "py_in p s \<longleftrightarrow> py_find p s \<noteq> None"

lemma py_find_Nil [simp]: "py_find [] s = Some 0"
  by (cases s) auto

lemma py_find_Some_prefix: "py_find p s = Some k \<Longrightarrow> prefix p (drop k s)"
  by (induction p s arbitrary: k rule: py_find.induct) (auto split: if_splits)

lemma py_find_Some_decomp:
  assumes "py_find p s = Some k"
  shows "s = take k s @ p @ drop (k + length p) s"
proof -
  from py_find_Some_prefix [OF assms] obtain zs where zs: "drop k s = p @ zs"
    by (auto simp: prefix_def)
  then have "drop (length p) (drop k s) = zs" by simp
  then have "zs = drop (k + length p) s" by (simp add: add.commute)
  with zs have "drop k s = p @ drop (k + length p) s" by simp
  then show ?thesis by (metis append_take_drop_id)
qed

lemma py_find_Some_le: "py_find p s = Some k \<Longrightarrow> k + length p \<le> length s"
  by (induction p s arbitrary: k rule: py_find.induct)
     (auto split: if_splits dest: prefix_length_le)

lemma py_find_Some_first: "py_find p s = Some k \<Longrightarrow> j < k \<Longrightarrow> \<not> prefix p (drop j s)"
proof (induction p s arbitrary: k j rule: py_find.induct)
  case (2 p c cs)
  then show ?case by (cases j) (auto split: if_splits)
qed (auto split: if_splits)

lemma py_find_None: "py_find p s = None \<longleftrightarrow> \<not> sublist p s"
proof (induction p s rule: py_find.induct)
  case (2 p c cs)
  then show ?case by (auto simp: sublist_Cons_right)
qed auto

lemma py_in_iff_sublist: "py_in p s \<longleftrightarrow> sublist p s"
  by (simp add: py_in_def py_find_None)

lemma py_in_char [simp]: "py_in [c] s \<longleftrightarrow> c \<in> set s"
  by (simp add: py_in_iff_sublist sublist_def) (metis in_set_conv_decomp append_Cons append_Nil)

lemma py_find_append: "py_find p s = Some k \<Longrightarrow> py_find p (s @ t) = Some k"
proof (induction p s arbitrary: k rule: py_find.induct)
  case (1 p)
  then show ?case by (auto split: if_splits)
next
  case (2 p c cs)
  from py_find_Some_le [OF "2.prems"] have len: "length p \<le> length (c # cs)" by linarith
  have "prefix p (c # cs @ t) \<longleftrightarrow> prefix p (c # cs)"
    using len prefix_length_prefix [of p "c # cs @ t" "c # cs"] prefix_prefix [of p "c # cs" t]
    by auto
  with 2 show ?case by (auto split: if_splits)
qed

lemma py_find_char_skip: "c \<notin> set s \<Longrightarrow> py_find [c] (s @ c # t) = Some (length s)"
  by (induction s) (auto simp: prefix_def)

section \<open>Splitting and joining\<close>

text \<open>\<open>s.split(sep, 1)\<close>: the two parts, or \<open>None\<close> when there is no separator.\<close>

definition py_split1 :: "string \<Rightarrow> string \<Rightarrow> (string \<times> string) option" where
  "py_split1 sep s =
     (case py_find sep s of None \<Rightarrow> None | Some k \<Rightarrow> Some (take k s, drop (k + length sep) s))"

lemma py_split1_Some: "py_split1 sep s = Some (a, b) \<Longrightarrow> s = a @ sep @ b"
  by (auto simp: py_split1_def split: option.splits dest: py_find_Some_decomp)

lemma py_split1_None: "py_split1 sep s = None \<longleftrightarrow> \<not> py_in sep s"
  by (auto simp: py_split1_def py_in_def split: option.splits)

lemma py_split1_char [simp]: "c \<notin> set a \<Longrightarrow> py_split1 [c] (a @ c # b) = Some (a, b)"
  by (simp add: py_split1_def py_find_char_skip)

lemma py_split1_char_None [simp]: "c \<notin> set s \<Longrightarrow> py_split1 [c] s = None"
  by (simp add: py_split1_None)

lemma py_split1_char_notin: "py_split1 [c] s = Some (a, b) \<Longrightarrow> c \<notin> set a"
proof -
  assume sp: "py_split1 [c] s = Some (a, b)"
  then obtain k where k: "py_find [c] s = Some k" "a = take k s"
    by (auto simp: py_split1_def split: option.splits)
  show "c \<notin> set a"
  proof
    assume "c \<in> set a"
    then obtain j where j: "j < length a" "a ! j = c" by (auto simp: in_set_conv_nth)
    then have "j < k" "j < length s" "s ! j = c" using k(2) by auto
    then have "drop j s = c # drop (Suc j) s" by (metis Cons_nth_drop_Suc)
    then have "prefix [c] (drop j s)" by simp
    with py_find_Some_first [OF k(1) \<open>j < k\<close>] show False by blast
  qed
qed

text \<open>A separator whose first byte does not occur before it.\<close>

lemma py_find_skip: "c \<notin> set a \<Longrightarrow> py_find (c # p) (a @ c # p @ b) = Some (length a)"
  by (induction a) (auto simp: prefix_def)

lemma py_split1_CRLF: "CR \<notin> set a \<Longrightarrow> py_split1 CRLF (a @ CRLF @ b) = Some (a, b)"
  using py_find_skip [of CR a "[LF]" b] by (simp add: py_split1_def)

text \<open>\<open>s.split(c)\<close> for a separator of one byte: never empty.\<close>

fun split_on :: "char \<Rightarrow> string \<Rightarrow> string list" where
  "split_on c [] = [[]]"
| "split_on c (x # xs) =
     (if x = c then [] # split_on c xs
      else case split_on c xs of [] \<Rightarrow> [[x]] | w # ws \<Rightarrow> (x # w) # ws)"

text \<open>\<open>sep.join(parts)\<close>.\<close>

fun py_join :: "string \<Rightarrow> string list \<Rightarrow> string" where
  "py_join sep [] = []"
| "py_join sep [x] = x"
| "py_join sep (x # y # ys) = x @ sep @ py_join sep (y # ys)"

lemma split_on_not_Nil [simp]: "split_on c s \<noteq> []"
  by (cases s) (auto split: list.split)

lemma py_join_Cons: "ys \<noteq> [] \<Longrightarrow> py_join sep (x # ys) = x @ sep @ py_join sep ys"
  by (cases ys) auto

lemma split_on_notin: "w \<in> set (split_on c s) \<Longrightarrow> c \<notin> set w"
  by (induction c s arbitrary: w rule: split_on.induct) (auto split: if_splits list.splits)

lemma py_join_split_on: "py_join [c] (split_on c s) = s"
proof (induction c s rule: split_on.induct)
  case (2 c x xs)
  show ?case
  proof (cases "x = c")
    case True
    with 2 show ?thesis by (simp add: py_join_Cons)
  next
    case False
    obtain w ws where ws: "split_on c xs = w # ws" by (meson neq_Nil_conv split_on_not_Nil)
    with 2 False show ?thesis by (cases ws) auto
  qed
qed simp

lemma split_on_id: "c \<notin> set s \<Longrightarrow> split_on c s = [s]"
  by (induction s) auto

lemma split_on_append [simp]: "c \<notin> set a \<Longrightarrow> split_on c (a @ c # b) = a # split_on c b"
  by (induction a) auto

lemma split_on_py_join:
  "xs \<noteq> [] \<Longrightarrow> (\<And>x. x \<in> set xs \<Longrightarrow> c \<notin> set x) \<Longrightarrow> split_on c (py_join [c] xs) = xs"
proof (induction xs)
  case (Cons x xs)
  then show ?case by (cases xs) (auto simp: split_on_id)
qed simp

text \<open>\<open>s.split()\<close>: the maximal runs of bytes that are no white space.\<close>

function py_words :: "string \<Rightarrow> string list" where
  "py_words s =
     (let r = py_lstrip s in
      if r = [] then []
      else takeWhile (\<lambda>c. \<not> is_space c) r # py_words (dropWhile (\<lambda>c. \<not> is_space c) r))"
  by pat_completeness auto
termination
proof (relation "measure length")
  fix s r :: string
  assume r: "r = py_lstrip s" and ne: "r \<noteq> []"
  have "length r \<le> length s" by (simp add: r py_lstrip_def length_dropWhile_le)
  moreover have "\<not> is_space (hd r)"
    using ne hd_dropWhile [of is_space s] by (simp add: r py_lstrip_def)
  then have "length (dropWhile (\<lambda>c. \<not> is_space c) r) < length r"
    using ne by (cases r) (auto simp: less_Suc_eq_le length_dropWhile_le)
  ultimately show "(dropWhile (\<lambda>c. \<not> is_space c) r, s) \<in> measure length" by simp
qed simp

declare py_words.simps [simp del]

lemma py_words_Nil [simp]: "py_words [] = []"
  by (simp add: py_words.simps py_lstrip_def)

lemma py_words_space [simp]: "is_space c \<Longrightarrow> py_words (c # s) = py_words s"
  by (subst (1 2) py_words.simps) (simp add: py_lstrip_def)

lemma py_words_word:
  assumes "w \<noteq> []" "list_all (\<lambda>c. \<not> is_space c) w" "s = [] \<or> is_space (hd s)"
  shows "py_words (w @ s) = w # py_words s"
proof -
  have "py_lstrip (w @ s) = w @ s"
    using assms(1,2) by (intro py_lstrip_id) (cases w, auto)
  moreover have "takeWhile (\<lambda>c. \<not> is_space c) (w @ s) = w"
    using assms(2,3) by (cases s) (auto simp: takeWhile_append list_all_iff)
  moreover have "dropWhile (\<lambda>c. \<not> is_space c) (w @ s) = s"
    using assms(2,3) by (cases s) (auto simp: dropWhile_append list_all_iff)
  ultimately show ?thesis using assms(1) by (subst py_words.simps) simp
qed

text \<open>Every part holds bytes of the whole.\<close>

lemma set_py_lstrip: "set (py_lstrip s) \<subseteq> set s"
  by (auto simp: py_lstrip_def dest: set_dropWhileD)

lemma set_py_strip: "set (py_strip s) \<subseteq> set s"
proof -
  have "set (py_strip s) \<subseteq> set (py_lstrip s)"
    by (auto simp: py_strip_def py_rstrip_def dest: set_dropWhileD)
  with set_py_lstrip show ?thesis by fast
qed

lemma set_py_words: "w \<in> set (py_words s) \<Longrightarrow> set w \<subseteq> set s"
proof (induction s rule: py_words.induct)
  case (1 s)
  define r where "r = py_lstrip s"
  have sub: "set r \<subseteq> set s" using set_py_lstrip by (simp add: r_def)
  show ?case
  proof (cases "r = []")
    case True
    with 1 show ?thesis by (simp add: py_words.simps [of s] r_def)
  next
    case False
    then have "w = takeWhile (\<lambda>c. \<not> is_space c) r \<or> w \<in> set (py_words (dropWhile (\<lambda>c. \<not> is_space c) r))"
      using 1(2) by (simp add: py_words.simps [of s] r_def [symmetric] Let_def)
    then show ?thesis using 1(1) [OF r_def False] sub
      by (auto dest: set_takeWhileD set_dropWhileD)
  qed
qed

lemma set_split_on: "w \<in> set (split_on c s) \<Longrightarrow> set w \<subseteq> set s"
proof (induction c s arbitrary: w rule: split_on.induct)
  case (2 c x xs)
  obtain y ys where ys: "split_on c xs = y # ys" by (meson neq_Nil_conv split_on_not_Nil)
  then have sub: "set v \<subseteq> set xs" if "v \<in> set (y # ys)" for v
    using 2(1,2) that by (cases "x = c") auto
  have "set y \<subseteq> set xs" "\<And>v. v \<in> set ys \<Longrightarrow> set v \<subseteq> set xs" using sub by simp_all
  with 2(3) ys show ?case by (cases "x = c"; fastforce)
qed simp

lemma set_py_split1: "py_split1 sep s = Some (a, b) \<Longrightarrow> set a \<subseteq> set s \<and> set b \<subseteq> set s"
  using py_split1_Some by fastforce

section \<open>Replacing one byte\<close>

text \<open>\<open>s.replace(c, r)\<close> for one byte \<open>c\<close>.\<close>

definition replace_char :: "char \<Rightarrow> string \<Rightarrow> string \<Rightarrow> string" where
  "replace_char c r s = concat (map (\<lambda>x. if x = c then r else [x]) s)"

section \<open>Counting\<close>

text \<open>\<open>s.count(p)\<close>: occurrences that do not overlap, from the left.\<close>

function py_count :: "string \<Rightarrow> string \<Rightarrow> nat" where
  "py_count p s =
     (if p = [] then Suc (length s)
      else if s = [] then 0
      else if prefix p s then Suc (py_count p (drop (length p) s))
      else py_count p (tl s))"
  by pat_completeness auto
termination by (relation "measure (\<lambda>(p, s). length s)") auto

declare py_count.simps [simp del]

lemma py_count_Nil [simp]: "p \<noteq> [] \<Longrightarrow> py_count p [] = 0"
  by (simp add: py_count.simps)

lemma py_count_Cons [simp]:
  "p \<noteq> [] \<Longrightarrow> py_count p (c # s) =
     (if prefix p (c # s) then Suc (py_count p (drop (length p) (c # s))) else py_count p s)"
  by (subst py_count.simps) simp

text \<open>The double quotes of a line that no backslash escapes, as the code counts them.\<close>

definition count_quotes :: "string \<Rightarrow> int" where
  "count_quotes line = int (py_count [DQUOTE] line) - int (py_count [BACKSLASH, DQUOTE] line)"

lemma py_count_absent:
  "c \<in> set p \<Longrightarrow> c \<notin> set s \<Longrightarrow> py_count p s = 0"
proof (induction s)
  case (Cons a s)
  from Cons.prems have "p \<noteq> []" by auto
  moreover have "\<not> prefix p (a # s)" using Cons.prems set_mono_prefix by blast
  ultimately show ?case using Cons by simp
next
  case Nil
  then have "p \<noteq> []" by auto
  then show ?case by simp
qed

lemma count_quotes_none [simp]: "DQUOTE \<notin> set s \<Longrightarrow> count_quotes s = 0"
  by (simp add: count_quotes_def py_count_absent [where c = DQUOTE])

section \<open>Numbers\<close>

definition digit_val :: "char \<Rightarrow> nat" where
  "digit_val c = of_char c - 48"

definition digit_char :: "nat \<Rightarrow> char" where
  "digit_char n = char_of (n + 48)"

definition nat_of_dec :: "string \<Rightarrow> nat" where
  "nat_of_dec s = foldl (\<lambda>n c. 10 * n + digit_val c) 0 s"

text \<open>
  Python 2's \<open>int(s)\<close>: white space around, one sign that white space may follow, then digits.
\<close>

definition py_int :: "string \<Rightarrow> int res" where
  "py_int s =
     (let t = py_strip s in
      case t of
        [] \<Rightarrow> Inl ValueError
      | c # cs \<Rightarrow>
          if c = CHR ''-'' then
            if py_isdigit (py_lstrip cs) then Inr (- int (nat_of_dec (py_lstrip cs))) else Inl ValueError
          else if c = CHR ''+'' then
            if py_isdigit (py_lstrip cs) then Inr (int (nat_of_dec (py_lstrip cs))) else Inl ValueError
          else if py_isdigit t then Inr (int (nat_of_dec t)) else Inl ValueError)"

fun show_nat :: "nat \<Rightarrow> string" where
  "show_nat n = (if n < 10 then [digit_char n] else show_nat (n div 10) @ [digit_char (n mod 10)])"

declare show_nat.simps [simp del]

definition show_int :: "int \<Rightarrow> string" where
  "show_int i = (if i < 0 then CHR ''-'' # show_nat (nat (- i)) else show_nat (nat i))"

definition hex_val :: "char \<Rightarrow> nat" where
  "hex_val c = (let n = of_char c in
     if 48 \<le> n \<and> n \<le> 57 then n - 48 else if 65 \<le> n \<and> n \<le> 70 then n - 55 else n - 87)"

definition hex_char :: "nat \<Rightarrow> char" where
  "hex_char n = ''0123456789abcdef'' ! n"

text \<open>\<open>int(s, 16)\<close> on a string of hexadecimal digits, and \<open>'%x' % n\<close>.\<close>

definition nat_of_hex :: "string \<Rightarrow> nat" where
  "nat_of_hex s = foldl (\<lambda>n c. 16 * n + hex_val c) 0 s"

fun show_hex :: "nat \<Rightarrow> string" where
  "show_hex n = (if n < 16 then [hex_char n] else show_hex (n div 16) @ [hex_char (n mod 16)])"

declare show_hex.simps [simp del]

lemma digit_char_props: "n < 10 \<Longrightarrow> digit_val (digit_char n) = n \<and> is_digit (digit_char n)"
  by (simp add: digit_val_def digit_char_def is_digit_def)

lemma hex_char_in: "n < 16 \<Longrightarrow> hex_char n \<in> set hexdigits"
proof -
  assume "n < 16"
  then have "hex_char n \<in> set ''0123456789abcdef''"
    unfolding hex_char_def by (intro nth_mem) simp
  moreover have "hexdigits = ''0123456789abcdef'' @ ''ABCDEF''" by (simp add: hexdigits_def)
  ultimately show ?thesis by (metis UnI1 set_append)
qed

lemma hex_val_hex_char: "n < 16 \<Longrightarrow> hex_val (hex_char n) = n"
proof -
  have "\<forall>k \<in> set [0..<16]. hex_val (hex_char k) = k"
    by (simp add: hex_val_def hex_char_def upt_conv_Cons)
  then show "n < 16 \<Longrightarrow> hex_val (hex_char n) = n" by simp
qed

lemmas hex_char_props = hex_char_in hex_val_hex_char

lemma nat_of_dec_snoc: "nat_of_dec (s @ [c]) = 10 * nat_of_dec s + digit_val c"
  by (simp add: nat_of_dec_def)

lemma nat_of_hex_snoc: "nat_of_hex (s @ [c]) = 16 * nat_of_hex s + hex_val c"
  by (simp add: nat_of_hex_def)

lemma show_nat_digits: "show_nat n \<noteq> [] \<and> list_all is_digit (show_nat n)"
proof (induction n rule: show_nat.induct)
  case (1 n)
  show ?case
    using 1 digit_char_props [of n] digit_char_props [of "n mod 10"]
    by (subst (1 2) show_nat.simps) auto
qed

lemma py_isdigit_show_nat [simp]: "py_isdigit (show_nat n)"
  by (simp add: py_isdigit_def show_nat_digits)

lemma nat_of_dec_show_nat [simp]: "nat_of_dec (show_nat n) = n"
proof (induction n rule: show_nat.induct)
  case (1 n)
  show ?case
  proof (cases "n < 10")
    case True
    then show ?thesis
      using digit_char_props [of n] by (subst show_nat.simps) (simp add: nat_of_dec_def)
  next
    case False
    then show ?thesis
      using 1 digit_char_props [of "n mod 10"] by (subst show_nat.simps) (simp add: nat_of_dec_snoc)
  qed
qed

lemma show_hex_digits: "show_hex n \<noteq> [] \<and> set (show_hex n) \<subseteq> set hexdigits"
proof (induction n rule: show_hex.induct)
  case (1 n)
  show ?case
    using 1 hex_char_props [of n] hex_char_props [of "n mod 16"]
    by (subst (1 2) show_hex.simps) auto
qed

lemma nat_of_hex_show_hex [simp]: "nat_of_hex (show_hex n) = n"
proof (induction n rule: show_hex.induct)
  case (1 n)
  show ?case
  proof (cases "n < 16")
    case True
    then show ?thesis
      using hex_char_props [of n] by (subst show_hex.simps) (simp add: nat_of_hex_def)
  next
    case False
    then show ?thesis
      using 1 hex_char_props [of "n mod 16"] by (subst show_hex.simps) (simp add: nat_of_hex_snoc)
  qed
qed

lemma is_digit_not_space: "is_digit c \<Longrightarrow> \<not> is_space c \<and> c \<noteq> CHR ''-'' \<and> c \<noteq> CHR ''+''"
  by (auto simp: is_digit_def is_space_def)

lemma py_int_digits: "py_isdigit s \<Longrightarrow> py_int s = Inr (int (nat_of_dec s))"
proof -
  assume d: "py_isdigit s"
  then obtain c cs where s: "s = c # cs" by (cases s) (auto simp: py_isdigit_def)
  have all: "\<forall>x \<in> set s. is_digit x" using d by (simp add: py_isdigit_def list_all_iff)
  then have "is_digit c" and "is_digit (last s)" using s by auto
  then have "\<not> is_space (hd s)" "\<not> is_space (last s)"
    using s is_digit_not_space by auto
  then have "py_strip s = s" by (intro py_strip_id) simp
  then show ?thesis
    using d s is_digit_not_space [OF \<open>is_digit c\<close>] by (simp add: py_int_def)
qed

lemma py_int_show_nat [simp]: "py_int (show_nat n) = Inr (int n)"
  by (simp add: py_int_digits)

end
