(* ===== verification/Headers.thy ===== *)
theory Headers
  imports PyStr "HOL-Library.Multiset"
begin

text \<open>
  \<open>lib/exaproxy/http/headers.py\<close>: the class \<open>Headers\<close>, an ordered dictionary of header lines,
  its operations, the parser of a header block with its quoting, folding and hop-by-hop rules, and
  the printer. A header line is kept whole, name included, under its lower-case name.
\<close>

section \<open>The exceptions of the HTTP parser\<close>

datatype http_error = Py py_error | ExpectationFailed | InvalidRequest string

section \<open>State and operations\<close>

text \<open>The attributes \<open>_order\<close>, \<open>_data\<close>, \<open>http_version\<close>, \<open>separator\<close> and \<open>expect\<close>.\<close>

record headers =
  hdr_order :: "string list"
  hdr_data :: "string \<rightharpoonup> string list"
  hdr_version :: string
  hdr_separator :: string
  hdr_expect :: bool

definition Headers_init :: "string \<Rightarrow> string \<Rightarrow> bool \<Rightarrow> headers" where
  "Headers_init http_version separator expect =
     \<lparr>hdr_order = [], hdr_data = Map.empty, hdr_version = http_version,
      hdr_separator = separator, hdr_expect = expect\<rparr>"

definition Headers_get :: "string \<Rightarrow> string list \<Rightarrow> headers \<Rightarrow> string list" where
  "Headers_get key d h = dict_get (hdr_data h) key d"

definition Headers_set :: "string \<Rightarrow> string \<Rightarrow> headers \<Rightarrow> headers" where
  "Headers_set key v h =
     (let h' = (if key \<notin> set (hdr_order h) then h\<lparr>hdr_order := hdr_order h @ [key]\<rparr> else h)
      in h'\<lparr>hdr_data := (hdr_data h')(key \<mapsto> [v])\<rparr>)"

definition Headers_replace :: "string \<Rightarrow> string \<Rightarrow> headers \<Rightarrow> headers" where
  "Headers_replace key v h = h\<lparr>hdr_data := (hdr_data h)(key \<mapsto> [v])\<rparr>"

definition Headers_default :: "string \<Rightarrow> string \<Rightarrow> headers \<Rightarrow> headers" where
  "Headers_default key v h =
     (if hdr_data h key = None then h\<lparr>hdr_data := (hdr_data h)(key \<mapsto> [v])\<rparr> else h)"

definition Headers_extend :: "string \<Rightarrow> string \<Rightarrow> headers \<Rightarrow> headers res" where
  "Headers_extend key v h =
     (if key \<in> set (hdr_order h) then
        (case hdr_data h key of
           None \<Rightarrow> Inl KeyError
         | Some vs \<Rightarrow> Inr (h\<lparr>hdr_data := (hdr_data h)(key \<mapsto> vs @ [v])\<rparr>))
      else Inr (h\<lparr>hdr_order := hdr_order h @ [key], hdr_data := (hdr_data h)(key \<mapsto> [v])\<rparr>))"

text \<open>\<open>pop\<close> returns the lines removed, or the default; \<open>_order.remove\<close> raises when the key is not listed.\<close>

definition Headers_pop :: "string \<Rightarrow> headers \<Rightarrow> (string list option \<times> headers) res" where
  "Headers_pop key h =
     (case hdr_data h key of
        None \<Rightarrow> Inr (None, h)
      | Some v \<Rightarrow>
          seq (py_remove key (hdr_order h)) (\<lambda>order.
          Inr (Some v, h\<lparr>hdr_data := (hdr_data h)(key := None), hdr_order := order\<rparr>)))"

definition Headers_str :: "headers \<Rightarrow> string res" where
  "Headers_str h =
     seq (map_res (\<lambda>key. seq (or_raise KeyError (hdr_data h key))
                           (\<lambda>vs. Inr (py_join (hdr_separator h) vs))) (hdr_order h))
       (\<lambda>lines. Inr (py_join (hdr_separator h) lines))"

section \<open>Parsing\<close>

text \<open>
  The loop over the lines. It carries \<open>key\<close> (the header a folded line belongs to) and \<open>quoted\<close>
  (an odd number of quotes has been seen), and stops at the first empty line. An exception is
  returned with the line it was raised on, which the handler prints.
\<close>

fun parse_lines :: "string list \<Rightarrow> string \<Rightarrow> bool \<Rightarrow> headers \<Rightarrow> (string \<times> py_error) + (bool \<times> headers)" where
  "parse_lines [] key quoted h = Inr (quoted, h)"
| "parse_lines (l # ls) key quoted h =
     (let line = strip_in [CR] l in
      if quoted then
        seq (lift_error (Pair line) (Headers_extend key line h))
          (parse_lines ls key (count_quotes line mod 2 = 0))
      else if line = [] then Inr (quoted, h)
      else
        let quoted' = (count_quotes line mod 2 \<noteq> 0) in
        if is_space (hd line) then
          seq (lift_error (Pair line) (Headers_extend key line h)) (parse_lines ls key quoted')
        else
          (case py_split1 '':'' line of
             None \<Rightarrow> Inl (line, ValueError)
           | Some (k, v) \<Rightarrow>
               let key' = py_lower (py_strip k) in
               seq (lift_error (Pair line) (Headers_extend key' line h))
                 (parse_lines ls key' quoted')))"

definition escape_line_ends :: "string \<Rightarrow> string" where
  "escape_line_ends s =
     replace_char LF [BACKSLASH, CHR ''n'']
       (replace_char CR [BACKSLASH, CHR ''r''] (replace_char TAB [BACKSLASH, CHR ''t''] s))"

text \<open>The value of a header line after its colon: \<open>key, value = line.split(':', 1)\<close>.\<close>

definition line_value :: "string \<Rightarrow> string res" where
  "line_value line = seq (or_raise ValueError (py_split1 '':'' line)) (\<lambda>(_, v). Inr (py_lower (py_strip v)))"

definition upgrade_kept :: "string \<Rightarrow> bool" where
  "upgrade_kept v \<longleftrightarrow> v = ''websocket'' \<or> prefix ''tls/'' v"

text \<open>
  The loop over the \<open>Upgrade\<close> lines. The local list is the list stored in \<open>_data\<close>: removing from
  one removes from the other, as long as the key is still there.
\<close>

fun strip_upgrades :: "string list \<Rightarrow> string list \<Rightarrow> headers \<Rightarrow> (string list \<times> headers) res" where
  "strip_upgrades [] upgrades h = Inr (upgrades, h)"
| "strip_upgrades (u # us) upgrades h =
     seq (line_value u) (\<lambda>value.
     if \<not> upgrade_kept value then
       seq (py_remove u upgrades) (\<lambda>upgrades'.
       seq (Headers_pop (py_lower value)
              (if hdr_data h ''upgrade'' = None then h
               else h\<lparr>hdr_data := (hdr_data h)(''upgrade'' \<mapsto> upgrades')\<rparr>)) (\<lambda>(_, h').
       strip_upgrades us upgrades' h'))
     else strip_upgrades us upgrades h)"

text \<open>The loop over the \<open>Connection\<close> lines.\<close>

fun strip_connections :: "string list \<Rightarrow> bool \<Rightarrow> string list \<Rightarrow> string list res" where
  "strip_connections [] upgrading connections = Inr connections"
| "strip_connections (c # cs) upgrading connections =
     seq (line_value c) (\<lambda>value.
     if value = ''close'' then strip_connections cs upgrading connections
     else if value = ''upgrade'' \<and> upgrading then strip_connections cs upgrading connections
     else seq (py_remove c connections) (strip_connections cs upgrading))"

definition strip_hop_by_hop :: "headers \<Rightarrow> headers res" where
  "strip_hop_by_hop h0 =
     seq (let upgrades = Headers_get ''upgrade'' [] h0 in strip_upgrades upgrades upgrades h0) (\<lambda>(upgrades, h1).
     seq (if upgrades = [] then seq (Headers_pop ''upgrade'' h1) (\<lambda>(_, h). Inr h) else Inr h1) (\<lambda>h2.
     let connections = Headers_get ''connection'' [] h2 in
     seq (strip_connections connections (upgrades \<noteq> []) connections) (\<lambda>connections'.
     let h3 = (if hdr_data h2 ''connection'' = None then h2
               else h2\<lparr>hdr_data := (hdr_data h2)(''connection'' \<mapsto> connections')\<rparr>) in
     if connections' = [] then seq (Headers_pop ''connection'' h3) (\<lambda>(_, h). Inr h) else Inr h3)))"

text \<open>The texts of the rejections.\<close>

definition white_space_message :: string where
  "white_space_message = ''malformed headers, headers starts with a white space''"

definition quoted_message :: string where
  "quoted_message = ''end of headers reached while in quoted content''"

definition colon_message :: string where
  "colon_message = ''malformed headers, line starts with colon (:)''"

definition tokens_message :: string where
  "tokens_message = ''can not remove connection tokens from headers''"

text \<open>The block under \<open>if not transparent\<close>, and the handler around it.\<close>

definition hop_by_hop_guarded :: "headers \<Rightarrow> http_error + headers" where
  "hop_by_hop_guarded h0 =
     (case (seq (if hdr_version h0 = ''1.1'' then strip_hop_by_hop h0 else Inr h0) (\<lambda>h1.
            if hdr_version h1 = ''1.0'' then seq (Headers_pop ''keep-alive'' h1) (\<lambda>(_, h). Inr h)
            else Inr h1)) of
        Inl e \<Rightarrow>
          if e \<in> {KeyError, TypeError, IndexError}
          then Inl (InvalidRequest tokens_message)
          else Inl (Py e)
      | Inr h \<Rightarrow>
          if Headers_get ''expect'' [] h \<noteq> [] \<and> hdr_expect h then Inl ExpectationFailed else Inr h)"

definition Headers_parse :: "bool \<Rightarrow> string \<Rightarrow> headers \<Rightarrow> http_error + headers" where
  "Headers_parse transparent lines h =
     (if py_strip lines \<noteq> [] \<and> is_space (hd lines) then
        Inl (InvalidRequest white_space_message)
      else
        case parse_lines (split_on LF lines) [] False h of
          Inl (line, e) \<Rightarrow>
            if e \<in> {KeyError, TypeError, IndexError} then
              Inl (InvalidRequest (''malformed headers (line : '' @ line @ '') headers '' @ escape_line_ends lines))
            else Inl (Py e)
        | Inr (quoted, h1) \<Rightarrow>
            if quoted then Inl (InvalidRequest quoted_message)
            else
              seq (if transparent then Inr h1 else hop_by_hop_guarded h1) (\<lambda>h2.
              if hdr_data h2 [] \<noteq> None
              then Inl (InvalidRequest colon_message)
              else Inr h2))"


section \<open>Well-formed header sets\<close>

text \<open>
  The order lists every key of the data once; no key has an empty list of lines. The set and its
  order agree in \<open>listed\<close>, which holds also while a list is being emptied.
\<close>

definition listed :: "headers \<Rightarrow> bool" where
  "listed h \<longleftrightarrow> distinct (hdr_order h) \<and> set (hdr_order h) = dom (hdr_data h)"

definition headers_wf :: "headers \<Rightarrow> bool" where
  "headers_wf h \<longleftrightarrow> listed h \<and> (\<forall>k. hdr_data h k \<noteq> Some [])"

lemma listed_init [simp]: "listed (Headers_init v s e)"
  by (simp add: listed_def Headers_init_def)

lemma headers_wf_init [simp]: "headers_wf (Headers_init v s e)"
  by (simp add: headers_wf_def) (simp add: Headers_init_def)

lemma Headers_get_Nil_iff: "headers_wf h \<Longrightarrow> Headers_get k [] h = [] \<longleftrightarrow> hdr_data h k = None"
  by (auto simp: headers_wf_def Headers_get_def dict_get_def split: option.splits)

text \<open>What \<open>extend\<close> does to a set whose order is right: it does not raise.\<close>

definition extended :: "string \<Rightarrow> string \<Rightarrow> headers \<Rightarrow> headers" where
  "extended k v h =
     h\<lparr>hdr_order := (if hdr_data h k = None then hdr_order h @ [k] else hdr_order h),
       hdr_data := (hdr_data h)(k \<mapsto> Headers_get k [] h @ [v])\<rparr>"

lemma extended_fields [simp]:
  "hdr_data (extended k v h) = (hdr_data h)(k \<mapsto> Headers_get k [] h @ [v])"
  "hdr_version (extended k v h) = hdr_version h"
  "hdr_separator (extended k v h) = hdr_separator h"
  "hdr_expect (extended k v h) = hdr_expect h"
  by (simp_all add: extended_def)

lemma extend_listed: "listed h \<Longrightarrow> Headers_extend k v h = Inr (extended k v h)"
  by (cases "hdr_data h k")
     (auto simp: Headers_extend_def extended_def listed_def Headers_get_def domIff)

lemma extended_listed: "listed h \<Longrightarrow> listed (extended k v h)"
  by (cases "hdr_data h k") (auto simp: extended_def listed_def domIff)

lemma extended_wf: "headers_wf h \<Longrightarrow> headers_wf (extended k v h)"
  by (simp add: headers_wf_def extended_listed)

lemma pop_listed:
  assumes "listed h"
  shows "\<exists>h'. Headers_pop k h = Inr (hdr_data h k, h') \<and> listed h' \<and> hdr_data h' = (hdr_data h)(k := None)
    \<and> hdr_version h' = hdr_version h \<and> hdr_expect h' = hdr_expect h"
proof (cases "hdr_data h k")
  case None
  then have "(hdr_data h)(k := None) = hdr_data h" by auto
  with None assms show ?thesis by (simp add: Headers_pop_def)
next
  case (Some v)
  then have "k \<in> set (hdr_order h)" using assms by (auto simp: listed_def)
  with Some assms show ?thesis by (auto simp: Headers_pop_def listed_def)
qed

lemma set_wf: "headers_wf h \<Longrightarrow> headers_wf (Headers_set k v h)"
  by (auto simp: headers_wf_def listed_def Headers_set_def Let_def)

text \<open>
  \<open>replace\<close> and \<open>default\<close> keep the invariant only for a key that is there: for a new key the data
  is stored and the key is not listed.
\<close>

lemma replace_wf_iff:
  assumes "headers_wf h"
  shows "headers_wf (Headers_replace k v h) \<longleftrightarrow> hdr_data h k \<noteq> None"
  using assms by (auto simp: headers_wf_def listed_def Headers_replace_def)

lemma default_wf_iff:
  assumes "headers_wf h"
  shows "headers_wf (Headers_default k v h) \<longleftrightarrow> hdr_data h k \<noteq> None"
  using assms by (auto simp: headers_wf_def listed_def Headers_default_def)


section \<open>The loop over the lines\<close>

text \<open>
  On a well-formed set the loop keeps the set well formed and the version and the flag unchanged;
  the only exception it can raise is the \<open>ValueError\<close> of a line without a colon.
\<close>

definition same_config :: "headers \<Rightarrow> headers \<Rightarrow> bool" where
  "same_config h h' \<longleftrightarrow> hdr_version h' = hdr_version h \<and> hdr_separator h' = hdr_separator h
     \<and> hdr_expect h' = hdr_expect h"

lemma parse_lines_wf:
  assumes "headers_wf h"
  shows "(\<exists>line. parse_lines ls key quoted h = Inl (line, ValueError) \<and> \<not> py_in '':'' line) \<or>
         (\<exists>q h'. parse_lines ls key quoted h = Inr (q, h') \<and> headers_wf h' \<and> same_config h h')"
  using assms
proof (induction ls key quoted h rule: parse_lines.induct)
  case (1 key quoted h)
  then show ?case by (simp add: same_config_def)
next
  case (2 l ls key quoted h)
  define line where "line = strip_in [CR] l"
  have li: "listed h" using "2.prems" by (simp add: headers_wf_def)
  have step: "same_config (extended k v h) h' = same_config h h'" for k v h'
    by (simp add: same_config_def)
  note E = extend_listed [OF li] extended_wf [OF "2.prems"]
  show ?case
  proof (cases "quoted")
    case True
    then show ?thesis using "2.IH"(1) [OF line_def True] E step line_def by auto
  next
    case nq: False
    show ?thesis
    proof (cases "line = []")
      case True
      then have "parse_lines (l # ls) key quoted h = Inr (False, h)" using nq line_def by simp
      with "2.prems" show ?thesis by (auto simp: same_config_def)
    next
      case ne: False
      show ?thesis
      proof (cases "is_space (hd line)")
        case True
        then show ?thesis
          using "2.IH"(2) [OF line_def nq ne refl True] E step line_def nq ne by auto
      next
        case ns: False
        show ?thesis
        proof (cases "py_split1 '':'' line")
          case None
          then show ?thesis using line_def nq ne ns by (auto simp: py_split1_None)
        next
          case (Some kv)
          obtain k v where kv: "kv = (k, v)" by (cases kv)
          show ?thesis
            using "2.IH"(3) [OF line_def nq ne refl ns Some kv [symmetric] refl] E step line_def nq ne ns Some kv
            by auto
        qed
      qed
    qed
  qed
qed

section \<open>Removing the hop-by-hop headers\<close>

lemma line_value_error: "line_value l = Inl e \<Longrightarrow> e = ValueError"
  by (auto simp: line_value_def seq_eq_Inl_iff or_raise_def split: option.splits)

text \<open>What holds of the set while the \<open>Upgrade\<close> lines are removed: its list is the local one.\<close>

definition stripping :: "string list \<Rightarrow> headers \<Rightarrow> bool" where
  "stripping upgrades h \<longleftrightarrow> listed h
     \<and> hdr_data h ''upgrade'' \<in> {None, Some upgrades}
     \<and> (\<forall>k. k \<noteq> ''upgrade'' \<longrightarrow> hdr_data h k \<noteq> Some [])"

lemma stripping_step:
  assumes "stripping upgrades h"
  shows "\<exists>h'. Headers_pop k (if hdr_data h ''upgrade'' = None then h
                 else h\<lparr>hdr_data := (hdr_data h)(''upgrade'' \<mapsto> upgrades')\<rparr>)
              = Inr (hdr_data (if hdr_data h ''upgrade'' = None then h
                 else h\<lparr>hdr_data := (hdr_data h)(''upgrade'' \<mapsto> upgrades')\<rparr>) k, h')
            \<and> stripping upgrades' h' \<and> hdr_version h' = hdr_version h \<and> hdr_expect h' = hdr_expect h
            \<and> (\<forall>j. hdr_data h' j \<in> {None, hdr_data h j, Some upgrades'})
            \<and> (\<forall>j. j \<noteq> ''upgrade'' \<longrightarrow> hdr_data h' j \<in> {None, hdr_data h j})"
proof -
  let ?h = "if hdr_data h ''upgrade'' = None then h
            else h\<lparr>hdr_data := (hdr_data h)(''upgrade'' \<mapsto> upgrades')\<rparr>"
  have li: "listed ?h" using assms by (auto simp: stripping_def listed_def)
  from pop_listed [OF li, of k] obtain h' where h':
    "Headers_pop k ?h = Inr (hdr_data ?h k, h')" "listed h'" "hdr_data h' = (hdr_data ?h)(k := None)"
    "hdr_version h' = hdr_version ?h" "hdr_expect h' = hdr_expect ?h" by blast
  have data: "hdr_data h' j = (if j = k then None
      else if j = ''upgrade'' \<and> hdr_data h ''upgrade'' \<noteq> None then Some upgrades' else hdr_data h j)" for j
    using h'(3) by auto
  have cfg: "hdr_version h' = hdr_version h" "hdr_expect h' = hdr_expect h"
    using h'(4,5) by auto
  have "stripping upgrades' h'"
    using assms h'(2) by (auto simp: stripping_def data)
  then show ?thesis using h'(1) cfg data by auto
qed

text \<open>A loop over a copy of a list that removes some of its elements from the list.\<close>

lemma snapshot_step:
  assumes "mset (u # us) \<subseteq># mset xs"
  shows "u \<in> set xs" "mset us \<subseteq># mset xs" "mset us \<subseteq># mset (remove1 u xs)"
    "mset xs - mset us = add_mset u (mset xs - mset (u # us))"
    "mset (remove1 u xs) - mset us = mset xs - mset (u # us)"
proof -
  obtain M where M: "mset xs = add_mset u (mset us + M)"
    using assms by (auto simp: mset_subset_eq_exists_conv)
  then show "u \<in> set xs" by (metis in_multiset_in_set union_single_eq_member)
  show "mset us \<subseteq># mset xs" "mset us \<subseteq># mset (remove1 u xs)"
    "mset xs - mset us = add_mset u (mset xs - mset (u # us))"
    "mset (remove1 u xs) - mset us = mset xs - mset (u # us)"
    using M by (simp_all add: subset_mset.le_add_same_cancel1 mset_subset_eq_exists_conv)
qed

lemma strip_upgrades_result:
  assumes "stripping upgrades h" "mset us \<subseteq># mset upgrades"
  shows "strip_upgrades us upgrades h = Inl ValueError \<or>
    (\<exists>ups h'. strip_upgrades us upgrades h = Inr (ups, h') \<and> stripping ups h'
      \<and> hdr_version h' = hdr_version h \<and> hdr_expect h' = hdr_expect h
      \<and> (\<forall>k. k \<noteq> ''upgrade'' \<longrightarrow> hdr_data h' k \<in> {None, hdr_data h k}))"
  using assms
proof (induction us arbitrary: upgrades h)
  case (Cons u us)
  show ?case
  proof (cases "line_value u")
    case (Inl e)
    then show ?thesis using line_value_error by simp
  next
    case (Inr w)
    show ?thesis
    proof (cases "upgrade_kept w")
      case True
      from Cons.IH [OF Cons.prems(1) snapshot_step(2) [OF Cons.prems(2)]] Inr True show ?thesis by simp
    next
      case False
      note mem = snapshot_step(1) [OF Cons.prems(2)] and sub = snapshot_step(3) [OF Cons.prems(2)]
      from stripping_step [OF Cons.prems(1), where k = "py_lower w" and upgrades' = "remove1 u upgrades"]
      obtain v h' where h':
        "Headers_pop (py_lower w) (if hdr_data h ''upgrade'' = None then h
           else h\<lparr>hdr_data := (hdr_data h)(''upgrade'' \<mapsto> remove1 u upgrades)\<rparr>) = Inr (v, h')"
        "stripping (remove1 u upgrades) h'" "hdr_version h' = hdr_version h" "hdr_expect h' = hdr_expect h"
        "\<forall>j. j \<noteq> ''upgrade'' \<longrightarrow> hdr_data h' j \<in> {None, hdr_data h j}" by blast
      from Cons.IH [OF h'(2) sub] h' Inr False mem show ?thesis
        by (simp del: insert_iff) fastforce
    qed
  qed
qed simp


text \<open>The lines of a header the loop may leave behind.\<close>

definition connection_allowed :: "string \<Rightarrow> bool" where
  "connection_allowed l \<longleftrightarrow> line_value l \<in> {Inr ''close'', Inr ''upgrade''}"

definition upgrade_allowed :: "string \<Rightarrow> bool" where
  "upgrade_allowed l \<longleftrightarrow> (\<exists>v. line_value l = Inr v \<and> upgrade_kept v)"

text \<open>
  The lists the loops leave: every line of the snapshot was either allowed or removed once, so the
  lines that stay are allowed when the snapshot is the whole list.
\<close>

lemma strip_upgrades_kept:
  assumes "strip_upgrades us upgrades h = Inr (ups, h')" "mset us \<subseteq># mset upgrades"
    and "\<forall>l \<in># mset upgrades - mset us. upgrade_allowed l"
  shows "\<forall>l \<in> set ups. upgrade_allowed l"
  using assms
proof (induction us arbitrary: upgrades h)
  case (Cons u us)
  from Cons.prems(1) obtain v where v: "line_value u = Inr v" by (auto simp: seq_eq_Inr_iff)
  note snap = snapshot_step [OF Cons.prems(2)]
  show ?case
  proof (cases "upgrade_kept v")
    case True
    then have "\<forall>l \<in># mset upgrades - mset us. upgrade_allowed l"
      using Cons.prems(3) v snap(4) by (auto simp: upgrade_allowed_def)
    then show ?thesis using Cons.IH [OF _ snap(2)] Cons.prems(1) v True by simp
  next
    case False
    then show ?thesis using Cons.IH [OF _ snap(3)] Cons.prems(1,3) v snap(1,5)
      by (auto simp: seq_eq_Inr_iff)
  qed
qed simp

lemma strip_connections_kept:
  assumes "strip_connections cs up connections = Inr conns" "mset cs \<subseteq># mset connections"
    and "\<forall>l \<in># mset connections - mset cs. connection_allowed l"
  shows "\<forall>l \<in> set conns. connection_allowed l"
  using assms
proof (induction cs arbitrary: connections)
  case (Cons c cs)
  from Cons.prems(1) obtain v where v: "line_value c = Inr v" by (auto simp: seq_eq_Inr_iff)
  note snap = snapshot_step [OF Cons.prems(2)]
  show ?case
  proof (cases "v = ''close'' \<or> v = ''upgrade'' \<and> up")
    case True
    then have "\<forall>l \<in># mset connections - mset cs. connection_allowed l"
      using Cons.prems(3) v snap(4) by (auto simp: connection_allowed_def)
    then show ?thesis using Cons.IH [OF _ snap(2)] Cons.prems(1) v True by (auto split: if_splits)
  next
    case False
    then show ?thesis using Cons.IH [OF _ snap(3)] Cons.prems(1,3) v snap(1,5)
      by (auto simp: seq_eq_Inr_iff)
  qed
qed simp

lemma strip_connections_error:
  assumes "strip_connections cs up connections = Inl e" "mset cs \<subseteq># mset connections"
  shows "e = ValueError"
  using assms
proof (induction cs arbitrary: connections)
  case (Cons c cs)
  note snap = snapshot_step [OF Cons.prems(2)]
  show ?case
    using Cons.prems(1) snap(1) Cons.IH [OF _ snap(2)] Cons.IH [OF _ snap(3)] line_value_error [of c e]
    by (auto simp: seq_eq_Inl_iff split: if_splits)
qed simp


text \<open>What a set of headers satisfies once the connection headers have been removed.\<close>

definition hop_free :: "headers \<Rightarrow> bool" where
  "hop_free h \<longleftrightarrow> (\<forall>l \<in> set (Headers_get ''upgrade'' [] h). upgrade_allowed l)
     \<and> (\<forall>l \<in> set (Headers_get ''connection'' [] h). connection_allowed l)"

lemma strip_upgrades_phase:
  assumes "headers_wf h0"
    "strip_upgrades (Headers_get ''upgrade'' [] h0) (Headers_get ''upgrade'' [] h0) h0 = Inr (ups, h1)"
  shows "\<exists>h2. (if ups = [] then seq (Headers_pop ''upgrade'' h1) (\<lambda>(_, h). Inr h) else Inr h1) = (Inr h2 :: headers res)
    \<and> headers_wf h2 \<and> hdr_version h2 = hdr_version h0 \<and> hdr_expect h2 = hdr_expect h0
    \<and> (\<forall>l \<in> set (Headers_get ''upgrade'' [] h2). upgrade_allowed l)"
proof -
  have "stripping (Headers_get ''upgrade'' [] h0) h0"
    using assms(1) by (auto simp: stripping_def headers_wf_def Headers_get_def dict_get_def split: option.splits)
  from strip_upgrades_result [OF this subset_mset.order_refl] assms(2)
  have st: "stripping ups h1" "hdr_version h1 = hdr_version h0" "hdr_expect h1 = hdr_expect h0" by auto
  have kept: "\<forall>l \<in> set ups. upgrade_allowed l"
    by (rule strip_upgrades_kept [OF assms(2)]) simp_all
  show ?thesis
  proof (cases "ups = []")
    case True
    have li: "listed h1" using st(1) by (simp add: stripping_def)
    from pop_listed [OF li, of "''upgrade''"] st True show ?thesis
      by (auto simp: headers_wf_def stripping_def Headers_get_def)
  next
    case False
    then have "headers_wf h1" using st(1) unfolding headers_wf_def stripping_def
      by (metis insertE option.inject option.simps(3) singletonD)
    moreover have "set (Headers_get ''upgrade'' [] h1) \<subseteq> set ups"
      using st(1) by (auto simp: stripping_def Headers_get_def)
    ultimately show ?thesis using False st kept by auto
  qed
qed

lemma strip_connections_phase:
  assumes "headers_wf h2"
    "strip_connections (Headers_get ''connection'' [] h2) up (Headers_get ''connection'' [] h2) = Inr conns"
  defines "h3 \<equiv> if hdr_data h2 ''connection'' = None then h2
                 else h2\<lparr>hdr_data := (hdr_data h2)(''connection'' \<mapsto> conns)\<rparr>"
  shows "\<exists>h4. (if conns = [] then seq (Headers_pop ''connection'' h3) (\<lambda>(_, h). Inr h) else Inr h3) = (Inr h4 :: headers res)
    \<and> headers_wf h4 \<and> hdr_version h4 = hdr_version h2 \<and> hdr_expect h4 = hdr_expect h2
    \<and> Headers_get ''upgrade'' [] h4 = Headers_get ''upgrade'' [] h2
    \<and> (\<forall>l \<in> set (Headers_get ''connection'' [] h4). connection_allowed l)"
proof -
  have kept: "\<forall>l \<in> set conns. connection_allowed l"
    by (rule strip_connections_kept [OF assms(2)]) simp_all
  have li: "listed h3" using assms(1) by (auto simp: h3_def headers_wf_def listed_def)
  have same: "hdr_version h3 = hdr_version h2" "hdr_expect h3 = hdr_expect h2" by (simp_all add: h3_def)
  have other: "k \<noteq> ''connection'' \<Longrightarrow> hdr_data h3 k = hdr_data h2 k" for k by (simp add: h3_def)
  have mine: "hdr_data h3 ''connection'' \<in> {None, Some conns}" by (simp add: h3_def)
  show ?thesis
  proof (cases "conns = []")
    case True
    from pop_listed [OF li, of "''connection''"] obtain h' where h':
      "Headers_pop ''connection'' h3 = Inr (hdr_data h3 ''connection'', h')" "listed h'"
      "hdr_data h' = (hdr_data h3)(''connection'' := None)"
      "hdr_version h' = hdr_version h3" "hdr_expect h' = hdr_expect h3" by blast
    have "hdr_data h' k \<noteq> Some []" for k
      using h'(3) other assms(1) by (cases "k = ''connection''") (auto simp: headers_wf_def)
    moreover have "hdr_data h' ''upgrade'' = hdr_data h2 ''upgrade''" using h'(3) other by simp
    ultimately show ?thesis using True h' same
      by (intro exI [of _ h']) (auto simp: headers_wf_def Headers_get_def dict_get_def)
  next
    case False
    have "hdr_data h3 k \<noteq> Some []" for k
      using mine other False assms(1) by (cases "k = ''connection''") (auto simp: headers_wf_def)
    then have "headers_wf h3" using li by (simp add: headers_wf_def)
    moreover have "set (Headers_get ''connection'' [] h3) \<subseteq> set conns"
      using mine by (auto simp: Headers_get_def)
    ultimately show ?thesis using False same kept other by (auto simp: Headers_get_def dict_get_def)
  qed
qed

lemma strip_hop_by_hop_result:
  assumes "headers_wf h0"
  shows "strip_hop_by_hop h0 = Inl ValueError \<or>
    (\<exists>h. strip_hop_by_hop h0 = Inr h \<and> headers_wf h \<and> hop_free h
       \<and> hdr_version h = hdr_version h0 \<and> hdr_expect h = hdr_expect h0)"
proof (cases "strip_upgrades (Headers_get ''upgrade'' [] h0) (Headers_get ''upgrade'' [] h0) h0")
  case (Inl e)
  have "stripping (Headers_get ''upgrade'' [] h0) h0"
    using assms(1) by (auto simp: stripping_def headers_wf_def Headers_get_def dict_get_def split: option.splits)
  from strip_upgrades_result [OF this subset_mset.order_refl] Inl have "e = ValueError" by auto
  then show ?thesis using Inl by (simp add: strip_hop_by_hop_def)
next
  case (Inr r)
  obtain ups h1 where r: "r = (ups, h1)" by (cases r)
  from strip_upgrades_phase [OF assms Inr [unfolded r]] obtain h2 where
    h2: "(if ups = [] then seq (Headers_pop ''upgrade'' h1) (\<lambda>(_, h). Inr h) else Inr h1) = Inr h2"
      "headers_wf h2" "hdr_version h2 = hdr_version h0" "hdr_expect h2 = hdr_expect h0"
      "\<forall>l \<in> set (Headers_get ''upgrade'' [] h2). upgrade_allowed l" by blast
  show ?thesis
  proof (cases "strip_connections (Headers_get ''connection'' [] h2) (ups \<noteq> []) (Headers_get ''connection'' [] h2)")
    case (Inl e)
    then have "e = ValueError" using strip_connections_error by blast
    then show ?thesis using Inr r h2(1) Inl by (simp add: strip_hop_by_hop_def Let_def)
  next
    case conns: (Inr conns)
    from strip_connections_phase [OF h2(2) conns] Inr r h2 conns show ?thesis
      by (auto simp: strip_hop_by_hop_def Let_def hop_free_def)
  qed
qed


section \<open>The parser\<close>

lemma hop_by_hop_guarded_result:
  assumes "headers_wf h0"
  shows "hop_by_hop_guarded h0 \<in> {Inl (Py ValueError), Inl ExpectationFailed} \<or>
    (\<exists>h. hop_by_hop_guarded h0 = Inr h \<and> headers_wf h \<and> hdr_version h = hdr_version h0 \<and> hdr_expect h = hdr_expect h0
       \<and> (hdr_version h = ''1.1'' \<longrightarrow> hop_free h)
       \<and> (hdr_version h = ''1.0'' \<longrightarrow> hdr_data h ''keep-alive'' = None)
       \<and> (hdr_expect h0 \<longrightarrow> hdr_data h ''expect'' = None))"
proof -
  have fin: "Headers_get ''expect'' [] h = [] \<longleftrightarrow> hdr_data h ''expect'' = None" if "headers_wf h" for h
    by (rule Headers_get_Nil_iff [OF that])
  consider "hdr_version h0 = ''1.1''" | "hdr_version h0 = ''1.0''"
    | "hdr_version h0 \<noteq> ''1.1''" "hdr_version h0 \<noteq> ''1.0''" by blast
  then show ?thesis
  proof cases
    case 1
    from strip_hop_by_hop_result [OF assms] show ?thesis
    proof (elim disjE exE conjE)
      assume "strip_hop_by_hop h0 = Inl ValueError"
      with 1 show ?thesis by (simp add: hop_by_hop_guarded_def)
    next
      fix h assume h: "strip_hop_by_hop h0 = Inr h" "headers_wf h" "hop_free h"
        "hdr_version h = hdr_version h0" "hdr_expect h = hdr_expect h0"
      with 1 fin [OF h(2)] show ?thesis
        by (cases "Headers_get ''expect'' [] h = []") (simp_all add: hop_by_hop_guarded_def)
    qed
  next
    case 2
    have li: "listed h0" using assms by (simp add: headers_wf_def)
    from pop_listed [OF li, of "''keep-alive''"] obtain h' where h':
      "Headers_pop ''keep-alive'' h0 = Inr (hdr_data h0 ''keep-alive'', h')" "listed h'"
      "hdr_data h' = (hdr_data h0)(''keep-alive'' := None)"
      "hdr_version h' = hdr_version h0" "hdr_expect h' = hdr_expect h0" by blast
    have "headers_wf h'" using assms h'(2,3) by (auto simp: headers_wf_def)
    then show ?thesis using 2 h' fin [of h']
      by (cases "Headers_get ''expect'' [] h' = []") (simp_all add: hop_by_hop_guarded_def)
  next
    case 3
    then show ?thesis using assms fin [OF assms]
      by (cases "Headers_get ''expect'' [] h0 = []") (simp_all add: hop_by_hop_guarded_def)
  qed
qed

definition parse_failures :: "http_error set" where
  "parse_failures =
     {Py ValueError, ExpectationFailed,
      InvalidRequest white_space_message,
      InvalidRequest quoted_message,
      InvalidRequest colon_message}"

lemma Headers_parse_cases:
  assumes "headers_wf h"
  shows "(\<exists>e \<in> parse_failures. Headers_parse t lines h = Inl e) \<or>
    (\<exists>h'. Headers_parse t lines h = Inr h' \<and> headers_wf h' \<and> hdr_version h' = hdr_version h
       \<and> hdr_expect h' = hdr_expect h \<and> hdr_data h' [] = None
       \<and> (\<not> t \<longrightarrow> (hdr_version h = ''1.1'' \<longrightarrow> hop_free h')
               \<and> (hdr_version h = ''1.0'' \<longrightarrow> hdr_data h' ''keep-alive'' = None)
               \<and> (hdr_expect h \<longrightarrow> hdr_data h' ''expect'' = None)))"
proof (cases "py_strip lines \<noteq> [] \<and> is_space (hd lines)")
  case True
  then show ?thesis by (simp add: Headers_parse_def parse_failures_def)
next
  case start: False
  from parse_lines_wf [OF assms, of "split_on LF lines" "[]" False] show ?thesis
  proof (elim disjE exE conjE)
    fix line assume "parse_lines (split_on LF lines) [] False h = Inl (line, ValueError)"
    with start show ?thesis by (simp add: Headers_parse_def parse_failures_def)
  next
    fix q h1
    assume h1: "parse_lines (split_on LF lines) [] False h = Inr (q, h1)" "headers_wf h1" "same_config h h1"
    show ?thesis
    proof (cases q)
      case True
      with start h1(1) show ?thesis by (simp add: Headers_parse_def parse_failures_def)
    next
      case q: False
      show ?thesis
      proof (cases t)
        case True
        with start h1 q show ?thesis
          by (cases "hdr_data h1 []") (simp_all add: Headers_parse_def parse_failures_def same_config_def)
      next
        case t: False
        have step: "Headers_parse t lines h = seq (hop_by_hop_guarded h1)
            (\<lambda>h2. if hdr_data h2 [] \<noteq> None then Inl (InvalidRequest colon_message) else Inr h2)"
          using start h1(1) q t by (auto simp: Headers_parse_def)
        from hop_by_hop_guarded_result [OF h1(2)] show ?thesis
        proof (elim disjE exE conjE)
          assume "hop_by_hop_guarded h1 \<in> {Inl (Py ValueError), Inl ExpectationFailed}"
          with step show ?thesis by (auto simp: parse_failures_def)
        next
          fix h2 assume h2: "hop_by_hop_guarded h1 = Inr h2" "headers_wf h2"
            "hdr_version h2 = hdr_version h1" "hdr_expect h2 = hdr_expect h1" "hdr_version h2 = ''1.1'' \<longrightarrow> hop_free h2"
            "hdr_version h2 = ''1.0'' \<longrightarrow> hdr_data h2 ''keep-alive'' = None"
            "hdr_expect h1 \<longrightarrow> hdr_data h2 ''expect'' = None"
          with step h1(3) show ?thesis
            by (cases "hdr_data h2 []") (simp_all add: parse_failures_def same_config_def)
        qed
      qed
    qed
  qed
qed


section \<open>Parsing and printing plain headers\<close>

text \<open>A header on one line, without quotes, and the name it is stored under.\<close>

definition plain_line :: "string \<Rightarrow> bool" where
  "plain_line l \<longleftrightarrow> CHR '':'' \<in> set l \<and> CR \<notin> set l \<and> LF \<notin> set l \<and> DQUOTE \<notin> set l \<and> \<not> is_space (hd l)"

definition line_name :: "string \<Rightarrow> string" where
  "line_name l = py_lower (py_strip (takeWhile (\<lambda>c. c \<noteq> CHR '':'') l))"

text \<open>The names in the order of their first line, and the lines brought together by name.\<close>

definition first_names :: "string list \<Rightarrow> string list" where
  "first_names ls = rev (remdups (rev (map line_name ls)))"

definition group_by_name :: "string list \<Rightarrow> string list" where
  "group_by_name ls = concat (map (\<lambda>k. filter (\<lambda>l. line_name l = k) ls) (first_names ls))"

definition stored :: "string \<Rightarrow> string \<Rightarrow> bool \<Rightarrow> string list \<Rightarrow> headers" where
  "stored v s e ls =
     \<lparr>hdr_order = first_names ls,
      hdr_data = (\<lambda>k. if k \<in> set (map line_name ls) then Some (filter (\<lambda>l. line_name l = k) ls) else None),
      hdr_version = v, hdr_separator = s, hdr_expect = e\<rparr>"

lemma set_first_names [simp]: "set (first_names ls) = line_name ` set ls"
  by (simp add: first_names_def)

lemma first_names_snoc:
  "first_names (ls @ [l]) =
     (if line_name l \<in> line_name ` set ls then first_names ls else first_names ls @ [line_name l])"
  by (simp add: first_names_def)

lemma stored_Nil: "stored v s e [] = Headers_init v s e"
  by (simp add: stored_def Headers_init_def first_names_def)

lemma stored_snoc: "extended (line_name l) l (stored v s e ls) = stored v s e (ls @ [l])"
proof -
  have new: "filter (\<lambda>x. line_name x = line_name l) ls = []" if "line_name l \<notin> line_name ` set ls"
    using that by (simp add: filter_empty_conv image_iff) metis
  have "hdr_data (extended (line_name l) l (stored v s e ls)) k = hdr_data (stored v s e (ls @ [l])) k" for k
  proof (cases "k = line_name l")
    case True
    then show ?thesis using new
      by (cases "line_name l \<in> line_name ` set ls") (simp_all add: stored_def Headers_get_def)
  next
    case False
    then have "filter (\<lambda>x. line_name x = k) (ls @ [l]) = filter (\<lambda>x. line_name x = k) ls"
      by simp
    with False show ?thesis by (simp add: stored_def)
  qed
  then have data: "hdr_data (extended (line_name l) l (stored v s e ls)) = hdr_data (stored v s e (ls @ [l]))"
    by blast
  have order: "hdr_order (extended (line_name l) l (stored v s e ls)) = hdr_order (stored v s e (ls @ [l]))"
    by (simp add: extended_def stored_def first_names_snoc)
  show ?thesis using data order by (intro headers.equality) (simp_all add: stored_def)
qed

lemma listed_stored: "listed (stored v s e ls)"
  by (auto simp: listed_def stored_def first_names_def split: if_splits)

lemma strip_CR_plain:
  assumes "CR \<notin> set l"
  shows "strip_in [CR] l = l" "strip_in [CR] (l @ [CR]) = l"
proof -
  have d1: "dropWhile (\<lambda>c. c = CR) l = l" using assms by (cases l) auto
  have d2: "dropWhile (\<lambda>c. c = CR) (rev l) = rev l" using assms by (cases l rule: rev_cases) auto
  note d = d1 d2
  show "strip_in [CR] l = l" by (simp add: strip_in_def rstrip_in_def lstrip_in_def d)
  show "strip_in [CR] (l @ [CR]) = l"
    using assms d by (cases l) (auto simp: strip_in_def rstrip_in_def lstrip_in_def)
qed

lemma plain_line_key:
  assumes "plain_line l"
  obtains k v where "py_split1 '':'' l = Some (k, v)" "py_lower (py_strip k) = line_name l"
proof -
  from assms have "CHR '':'' \<in> set l" by (simp add: plain_line_def)
  then obtain a b where ab: "l = a @ CHR '':'' # b" "CHR '':'' \<notin> set a" by (meson split_list_first)
  then have "takeWhile (\<lambda>c. c \<noteq> CHR '':'') l = a" by (auto simp: takeWhile_append)
  then show ?thesis using that ab by (simp add: line_name_def)
qed

lemma parse_lines_plain:
  assumes "\<forall>l \<in> set ls. plain_line l" "\<forall>l \<in> set ls. f l \<in> {l, l @ [CR]}" "strip_in [CR] r = []"
  shows "\<exists>q. parse_lines (map f ls @ r # rs) key False (stored v s e acc) = Inr (False, stored v s e (acc @ ls))"
  using assms
proof (induction ls arbitrary: key acc)
  case (Cons l ls)
  have l: "plain_line l" using Cons.prems(1) by simp
  then have cr: "CR \<notin> set l" and ne: "l \<noteq> []" and q: "count_quotes l = 0" and sp: "\<not> is_space (hd l)"
    by (auto simp: plain_line_def)
  have st: "strip_in [CR] (f l) = l" using Cons.prems(2) strip_CR_plain [OF cr] by auto
  obtain k w where kw: "py_split1 '':'' l = Some (k, w)" "py_lower (py_strip k) = line_name l"
    using plain_line_key [OF l] .
  have "parse_lines (map f (l # ls) @ r # rs) key False (stored v s e acc)
      = parse_lines (map f ls @ r # rs) (line_name l) False (stored v s e (acc @ [l]))"
    using st ne q sp kw by (simp add: extend_listed [OF listed_stored] stored_snoc)
  then show ?case using Cons.IH [where key = "line_name l" and acc = "acc @ [l]"] Cons.prems by simp
qed simp


lemma py_join_append:
  "xs \<noteq> [] \<Longrightarrow> ys \<noteq> [] \<Longrightarrow> py_join sep (xs @ ys) = py_join sep xs @ sep @ py_join sep ys"
proof (induction xs)
  case (Cons x xs)
  then show ?case by (cases xs) (simp_all add: py_join_Cons)
qed simp

lemma py_join_concat:
  "(\<And>xs. xs \<in> set xss \<Longrightarrow> xs \<noteq> []) \<Longrightarrow> py_join sep (map (py_join sep) xss) = py_join sep (concat xss)"
proof (induction xss)
  case (Cons xs xss)
  show ?case
  proof (cases "xss = []")
    case False
    moreover have "concat xss \<noteq> []" using Cons.prems False by (cases xss) auto
    ultimately show ?thesis using Cons by (simp add: py_join_Cons py_join_append)
  qed simp
qed simp

lemma Headers_str_stored: "Headers_str (stored v s e ls) = Inr (py_join s (group_by_name ls))"
proof -
  define lines_of where "lines_of k = filter (\<lambda>l. line_name l = k) ls" for k
  have "map_res (\<lambda>key. seq (or_raise KeyError (hdr_data (stored v s e ls) key))
          (\<lambda>vs. Inr (py_join s vs))) (first_names ls)
        = (Inr (map (\<lambda>k. py_join s (lines_of k)) (first_names ls)) :: string list res)"
    by (rule map_res_Inr) (auto simp: stored_def lines_of_def)
  moreover have "py_join s (map (\<lambda>k. py_join s (lines_of k)) (first_names ls)) = py_join s (group_by_name ls)"
  proof -
    have "xs \<noteq> []" if "xs \<in> set (map lines_of (first_names ls))" for xs
      using that by (auto simp: lines_of_def filter_empty_conv)
    then have "\<And>xs. xs \<in> set (map lines_of (first_names ls)) \<Longrightarrow> xs \<noteq> []" .
    from py_join_concat [of "map lines_of (first_names ls)" s, OF this] show ?thesis
      by (simp add: group_by_name_def lines_of_def [abs_def] comp_def)
  qed
  ultimately show ?thesis by (simp add: Headers_str_def) (simp add: stored_def)
qed

lemma group_by_name_distinct:
  assumes "distinct (map line_name ls)"
  shows "group_by_name ls = ls"
proof -
  have "filter (\<lambda>x. line_name x = line_name l) ls = [l]" if "l \<in> set ls" for l
  proof -
    obtain a b where ab: "ls = a @ l # b" using \<open>l \<in> set ls\<close> by (meson split_list)
    have "filter (\<lambda>x. line_name x = line_name l) a = []" "filter (\<lambda>x. line_name x = line_name l) b = []"
      using assms ab unfolding filter_empty_conv by (simp_all add: image_iff) metis+
    with ab show ?thesis by simp
  qed
  then have "concat (map (\<lambda>l. filter (\<lambda>x. line_name x = line_name l) ls) ls) = ls"
    by (simp add: concat_eq_concat_iff cong: map_cong)
  moreover have "first_names ls = map line_name ls"
    using assms by (simp add: first_names_def distinct_remdups_id)
  ultimately show ?thesis by (simp add: group_by_name_def comp_def)
qed

text \<open>A header block as it is received: each line with its end, then an empty line.\<close>

definition header_text :: "string \<Rightarrow> string list \<Rightarrow> string" where
  "header_text sep ls = concat (map (\<lambda>l. l @ sep) ls) @ sep"

lemma split_header_text:
  assumes "sep \<in> {CRLF, [LF]}" "\<forall>l \<in> set ls. LF \<notin> set l"
  shows "split_on LF (header_text sep ls @ body) = map (\<lambda>l. l @ butlast sep) ls @ butlast sep # split_on LF body"
  using assms(2)
proof (induction ls)
  case Nil
  then show ?case using assms(1) by (auto simp: header_text_def)
next
  case (Cons l ls)
  have eq: "header_text sep (l # ls) @ body = (l @ butlast sep) @ LF # (header_text sep ls @ body)"
    using assms(1) by (auto simp: header_text_def)
  have "LF \<notin> set (l @ butlast sep)" using Cons.prems assms(1) by auto
  from split_on_append [OF this, of "header_text sep ls @ body"] show ?case
    using Cons by (simp add: eq)
qed


lemma header_text_parsed:
  assumes "sep \<in> {CRLF, [LF]}" "\<forall>l \<in> set ls. plain_line l"
  shows "parse_lines (split_on LF (header_text sep ls @ body)) [] False (Headers_init v s e)
    = Inr (False, stored v s e ls)"
proof -
  have nolf: "\<forall>l \<in> set ls. LF \<notin> set l" using assms(2) by (simp add: plain_line_def)
  have f: "\<forall>l \<in> set ls. l @ butlast sep \<in> {l, l @ [CR]}" "strip_in [CR] (butlast sep) = []"
    using assms(1) by (auto simp: strip_in_Nil_iff)
  from parse_lines_plain [OF assms(2) f, of "split_on LF body" "[]" v s e "[]"] show ?thesis
    by (simp add: split_header_text [OF assms(1) nolf] stored_Nil)
qed

lemma header_text_start:
  assumes "sep \<in> {CRLF, [LF]}" "\<forall>l \<in> set ls. plain_line l"
  shows "\<not> (py_strip (header_text sep ls) \<noteq> [] \<and> is_space (hd (header_text sep ls)))"
proof (cases ls)
  case Nil
  have "list_all is_space sep" using assms(1) by (auto simp: is_space_def)
  then have "py_lstrip sep = []" by (simp add: py_lstrip_def list_all_iff)
  then have "py_strip sep = []" by (simp add: py_strip_def py_rstrip_def)
  then show ?thesis using Nil by (simp add: header_text_def)
next
  case (Cons l ls')
  then have "l \<noteq> []" "\<not> is_space (hd l)" using assms(2) by (auto simp: plain_line_def)
  then show ?thesis using Cons by (simp add: header_text_def)
qed

section \<open>Properties\<close>

text \<open>What the rest of the proxy may rely on once a header block has been parsed.\<close>

definition forwardable :: "bool \<Rightarrow> headers \<Rightarrow> bool" where
  "forwardable transparent h \<longleftrightarrow>
     headers_wf h \<and> hdr_data h [] = None \<and>
     (transparent \<or>
       (hdr_version h = ''1.1'' \<longrightarrow> hop_free h) \<and>
       (hdr_version h = ''1.0'' \<longrightarrow> hdr_data h ''keep-alive'' = None) \<and>
       (hdr_expect h \<longrightarrow> hdr_data h ''expect'' = None))"

text \<open>
  C28: parsing any text into a fresh \<open>Headers\<close> ends in one of five ways of failing (a line without a
  colon is the \<open>ValueError\<close>; the handler around the loop, for \<open>KeyError\<close>, \<open>TypeError\<close> and
  \<open>IndexError\<close>, is never entered) or gives a well-formed set without an empty name; when the proxy
  is not transparent, the only \<open>Connection\<close> lines left in a 1.1 request say \<open>close\<close> or \<open>upgrade\<close>,
  the only \<open>Upgrade\<close> lines left are for websocket or TLS, a 1.0 request has no \<open>Keep-Alive\<close>, and
  no \<open>Expect\<close> is left when the proxy refuses it.
\<close>

theorem Headers_parse_outcome:
  "case Headers_parse transparent lines (Headers_init version sep expect) of
     Inl err \<Rightarrow> err \<in> parse_failures
   | Inr h \<Rightarrow> forwardable transparent h \<and> hdr_version h = version"
proof (cases "Headers_parse transparent lines (Headers_init version sep expect)")
  case (Inl err)
  with Headers_parse_cases [OF headers_wf_init, of transparent lines version sep expect]
  show ?thesis by auto
next
  case (Inr h)
  with Headers_parse_cases [OF headers_wf_init, of transparent lines version sep expect]
  show ?thesis by (auto simp: forwardable_def Headers_init_def)
qed

lemma Headers_parse_plain:
  assumes "sep \<in> {CRLF, [LF]}" "\<forall>l \<in> set ls. plain_line l \<and> line_name l \<noteq> []"
  shows "Headers_parse True (header_text sep ls) (Headers_init version sep expect)
    = Inr (stored version sep expect ls)"
proof -
  have plain: "\<forall>l \<in> set ls. plain_line l" using assms(2) by blast
  have nil: "hdr_data (stored version sep expect ls) [] = None"
    using assms(2) by (auto simp: stored_def)
  have "parse_lines (split_on LF (header_text sep ls)) [] False (Headers_init version sep expect)
        = Inr (False, stored version sep expect ls)"
    using header_text_parsed [OF assms(1) plain, of "[]" version sep expect] by simp
  then show ?thesis
    unfolding Headers_parse_def using header_text_start [OF assms(1) plain] nil by simp
qed

text \<open>
  C29: a block of plain header lines, each ended by the separator, is parsed (by a transparent proxy)
  and printed back as the same lines, brought together by name in the order in which the names first
  appear; so when no name is repeated the printed text is the text that was received.
\<close>

theorem Headers_roundtrip:
  assumes "sep \<in> {CRLF, [LF]}" "\<forall>l \<in> set ls. plain_line l \<and> line_name l \<noteq> []"
  shows "seq (Headers_parse True (header_text sep ls) (Headers_init version sep expect))
           (\<lambda>h. lift_error Py (Headers_str h))
         = Inr (py_join sep (if distinct (map line_name ls) then ls else group_by_name ls))"
  using Headers_parse_plain [OF assms, of version expect] by (simp add: Headers_str_stored group_by_name_distinct)

theorem Headers_roundtrip_witness:
  "seq (Headers_parse True (header_text CRLF [''Host: exa.net'', ''TE:x'', ''Accept: a'', ''accept: b''])
          (Headers_init ''1.1'' CRLF True)) (\<lambda>h. lift_error Py (Headers_str h))
   = Inr (py_join CRLF [''Host: exa.net'', ''TE:x'', ''Accept: a'', ''accept: b''])"
proof -
  let ?ls = "[''Host: exa.net'', ''TE:x'', ''Accept: a'', ''accept: b'']"
  have names: "map line_name ?ls = [''host'', ''te'', ''accept'', ''accept'']"
    by (simp add: line_name_def py_strip_def py_lstrip_def py_rstrip_def is_space_def py_lower_def to_lower_def char_of_def bit_0)
  have "\<forall>l \<in> set ?ls. plain_line l \<and> line_name l \<noteq> []"
    using names by (simp add: plain_line_def is_space_def)
  then have "seq (Headers_parse True (header_text CRLF ?ls) (Headers_init ''1.1'' CRLF True))
       (\<lambda>h. lift_error Py (Headers_str h))
     = Inr (py_join CRLF (if distinct (map line_name ?ls) then ?ls else group_by_name ?ls))"
    by (intro Headers_roundtrip) simp_all
  moreover have "group_by_name ?ls = ?ls"
    using names by (simp add: group_by_name_def first_names_def)
  ultimately show ?thesis by (simp only: if_cancel)
qed

text \<open>
  \<open>replace\<close> on a header that is not there (what the message parser does to announce the proxy
  with \<open>x-proxy-version\<close>) stores the line but never lists the key: the printed headers do not change,
  the set is no longer well formed, and removing the header afterwards raises.
\<close>

theorem Headers_replace_new_not_printed:
  assumes "headers_wf h" "hdr_data h key = None"
  shows "Headers_str (Headers_replace key v h) = Headers_str h
    \<and> Headers_get key [] (Headers_replace key v h) = [v]
    \<and> \<not> headers_wf (Headers_replace key v h)
    \<and> Headers_pop key (Headers_replace key v h) = Inl ValueError"
proof -
  have notin: "key \<notin> set (hdr_order h)" using assms by (auto simp: headers_wf_def listed_def)
  have "map_res (\<lambda>k. seq (or_raise KeyError (hdr_data (Headers_replace key v h) k)) g) (hdr_order h)
      = map_res (\<lambda>k. seq (or_raise KeyError (hdr_data h k)) g) (hdr_order h)" for g :: "string list \<Rightarrow> string res"
    by (rule map_res_cong) (use notin in \<open>auto simp: Headers_replace_def\<close>)
  then have "Headers_str (Headers_replace key v h) = Headers_str h"
    by (simp add: Headers_str_def) (simp add: Headers_replace_def)
  moreover have "\<not> headers_wf (Headers_replace key v h)" using assms replace_wf_iff by simp
  ultimately show ?thesis using notin
    by (simp add: Headers_get_def Headers_pop_def) (simp add: Headers_replace_def)
qed

theorem Headers_replace_new_witness:
  "Headers_str (Headers_replace ''x'' ''x: 1'' (Headers_set ''a'' ''a: 0'' (Headers_init ''1.1'' CRLF True)))
     = Headers_str (Headers_set ''a'' ''a: 0'' (Headers_init ''1.1'' CRLF True))
   \<and> Headers_pop ''x'' (Headers_replace ''x'' ''x: 1'' (Headers_set ''a'' ''a: 0'' (Headers_init ''1.1'' CRLF True)))
     = Inl ValueError"
  using Headers_replace_new_not_printed
    [OF set_wf [OF headers_wf_init, of "''a''" "''a: 0''" "''1.1''" CRLF True], of "''x''" "''x: 1''"]
  by (simp add: Headers_set_def Headers_init_def)

end
