(* ===== verification/Request.thy ===== *)
theory Request
  imports PyStr
begin

text \<open>
  \<open>lib/exaproxy/http/request.py\<close>: the class \<open>Request\<close>, the first line of an HTTP request (with the
  second line of the two-line form), the parser of its URI, and its printer. Every exception it can
  raise is a \<open>ValueError\<close>.
\<close>

section \<open>State and operations\<close>

text \<open>What \<open>__init__\<close> sets, and what \<open>parse\<close> adds.\<close>

record raw_request =
  req_raw :: string
  req_uri :: string
  req_use_raw :: bool
  req_remaining :: string
  req_method :: string
  req_version :: string

record request = raw_request +
  req_protocol :: string
  req_host :: string
  req_path :: string
  req_port :: nat

text \<open>The version after its last slash, each part of a dotted number without leading zeroes.\<close>

definition canonical_version :: "string \<Rightarrow> string" where
  "canonical_version v0 =
     (let v = last (split_on (CHR ''/'') v0) in
      if v \<notin> {''1.1'', ''1.0''} then
        (case py_split1 ''.'' v of
           None \<Rightarrow> v
         | Some (major, minor) \<Rightarrow>
             if py_isdigit major \<and> py_isdigit minor
             then show_nat (nat_of_dec major) @ ''.'' @ show_nat (nat_of_dec minor)
             else v)
      else v)"

definition is_http_line :: "string \<Rightarrow> bool" where
  "is_http_line http \<longleftrightarrow> prefix ''HTTP/'' (take 5 (py_upper http))"

definition Request_init :: "string \<Rightarrow> raw_request res" where
  "Request_init data =
     seq (or_raise ValueError (py_split1 [LF] data)) (\<lambda>(request, remaining).
     case py_words request of
       [method, uri, version] \<Rightarrow>
         Inr \<lparr>req_raw = rstrip_in [CR] request, req_uri = uri, req_use_raw = False,
              req_remaining = remaining, req_method = py_upper method,
              req_version = canonical_version version\<rparr>
     | [method, uri] \<Rightarrow>
         seq (or_raise ValueError (py_split1 [LF] remaining)) (\<lambda>(http, rest).
         if is_http_line http then
           Inr \<lparr>req_raw = request @ [LF] @ http, req_uri = uri, req_use_raw = True,
                req_remaining = rest, req_method = py_upper method,
                req_version = canonical_version
                  (case py_split1 ''/'' (py_strip http) of None \<Rightarrow> py_strip http | Some (_, v) \<Rightarrow> v)\<rparr>
         else
           Inr \<lparr>req_raw = request, req_uri = uri, req_use_raw = True,
                req_remaining = remaining, req_method = py_upper method,
                req_version = canonical_version ''1.0''\<rparr>)
     | _ \<Rightarrow> Inl ValueError)"

text \<open>\<open>_checkport\<close>: an empty string passes the test and is refused by \<open>int\<close>.\<close>

definition Request_checkport :: "string \<Rightarrow> nat res" where
  "Request_checkport port =
     (if port \<noteq> [] \<and> \<not> py_isdigit port then Inl ValueError
      else if port = [] then Inl ValueError
      else Inr (nat_of_dec port))"

text \<open>The protocol of the URI and what follows it.\<close>

definition split_protocol :: "string \<Rightarrow> string \<times> string" where
  "split_protocol u =
     (case py_split1 ''://'' u of
        Some (protocol, uri) \<Rightarrow> if CHR ''/'' \<in> set protocol then (''http'', u) else (protocol, uri)
      | None \<Rightarrow> (''http'', u))"

text \<open>Host, port and path, when the host is an IPv6 address in brackets.\<close>

definition parse_bracketed :: "string \<Rightarrow> (string \<times> nat \<times> string) res" where
  "parse_bracketed uri =
     seq (or_raise ValueError (py_split1 '']'' (tl uri))) (\<lambda>(host, remaining).
     if CHR ''/'' \<in> set remaining then
       (case split_on (CHR ''/'') remaining of
          [port, path] \<Rightarrow>
            if port \<noteq> [] then
              if \<not> prefix '':'' port then Inl ValueError
              else seq (Request_checkport (tl port)) (\<lambda>n. Inr (host, n, CHR ''/'' # path))
            else Inr (host, 80, CHR ''/'' # path)
        | _ \<Rightarrow> Inl ValueError)
     else seq (Request_checkport remaining) (\<lambda>n. Inr (host, n, [])))"

text \<open>Host and port when there are no brackets.\<close>

definition parse_authority :: "string \<Rightarrow> (string \<times> nat) res" where
  "parse_authority s =
     (case py_split1 '':'' s of
        Some (host, port) \<Rightarrow> seq (Request_checkport port) (\<lambda>n. Inr (host, n))
      | None \<Rightarrow> Inr (s, 80))"

definition Request_parse :: "raw_request \<Rightarrow> request res" where
  "Request_parse r =
     (let (protocol, uri) = split_protocol (req_uri r) in
      seq (if prefix ''['' uri \<and> CHR '']'' \<in> set uri then parse_bracketed uri
           else
             case py_split1 ''/'' uri of
               Some (host, path) \<Rightarrow> seq (parse_authority host) (\<lambda>(h, n). Inr (h, n, CHR ''/'' # path))
             | None \<Rightarrow> seq (parse_authority uri) (\<lambda>(h, n). Inr (h, n, ''/''))) (\<lambda>(host, port, path).
      Inr (raw_request.extend r
            \<lparr>req_protocol = protocol, req_host = host, req_path = path, req_port = port\<rparr>)))"

text \<open>\<open>Request(data).parse()\<close>.\<close>

definition Request_open :: "string \<Rightarrow> request res" where
  "Request_open data = seq (Request_init data) Request_parse"

definition Request_str :: "request \<Rightarrow> string" where
  "Request_str r =
     (if req_use_raw r \<or> req_protocol r \<noteq> ''http'' then req_raw r
      else if req_method r = ''CONNECT'' then
        req_method r @ '' '' @ req_host r @ (if req_port r \<noteq> 0 then '':'' @ show_nat (req_port r) else [])
          @ '' HTTP/'' @ req_version r
      else req_method r @ '' '' @ req_path r @ '' HTTP/'' @ req_version r)"


section \<open>Facts on the parser\<close>

lemma Request_checkport_Inr [simp]:
  "Request_checkport p = Inr n \<longleftrightarrow> py_isdigit p \<and> n = nat_of_dec p"
  by (auto simp: Request_checkport_def py_isdigit_def)

lemma Request_checkport_error: "Request_checkport p = Inl e \<Longrightarrow> e = ValueError"
  by (auto simp: Request_checkport_def split: if_splits)

lemma Request_checkport_show_nat [simp]: "Request_checkport (show_nat n) = Inr n"
  by simp

lemma canonical_version_known [simp]:
  "canonical_version ''HTTP/1.1'' = ''1.1''" "canonical_version ''HTTP/1.0'' = ''1.0''"
  by (simp_all add: canonical_version_def)

lemma split_protocol_http: "split_protocol (''http://'' @ u) = (''http'', u)"
  by (simp add: split_protocol_def py_split1_def)

lemma split_protocol_none: "CHR ''/'' \<notin> set u \<Longrightarrow> split_protocol u = (''http'', u)"
proof -
  assume "CHR ''/'' \<notin> set u"
  then have "\<not> sublist ''://'' u" by (auto simp: sublist_def)
  then have "py_split1 ''://'' u = None" by (simp add: py_split1_None py_in_iff_sublist)
  then show ?thesis by (simp add: split_protocol_def)
qed

text \<open>A path that begins with a slash is taken whole: a protocol before \<open>://\<close> has no slash.\<close>

lemma split_protocol_path: "split_protocol (CHR ''/'' # u) = (''http'', CHR ''/'' # u)"
proof (cases "py_split1 ''://'' (CHR ''/'' # u)")
  case None
  then show ?thesis by (simp add: split_protocol_def)
next
  case (Some ab)
  obtain a b where ab: "ab = (a, b)" by (cases ab)
  from Some ab have "CHR ''/'' # u = a @ ''://'' @ b" using py_split1_Some by blast
  then have "CHR ''/'' \<in> set a" by (cases a) auto
  with Some ab show ?thesis by (simp add: split_protocol_def)
qed

text \<open>A token: what a request line holds between its spaces.\<close>

definition token :: "string \<Rightarrow> bool" where
  "token w \<longleftrightarrow> w \<noteq> [] \<and> list_all (\<lambda>c. \<not> is_space c) w"

definition request_line :: "string \<Rightarrow> string \<Rightarrow> string \<Rightarrow> string" where
  "request_line method uri version = method @ '' '' @ uri @ '' '' @ version @ [CR]"

lemma py_words_request_line:
  assumes "token method" "token uri" "token version"
  shows "py_words (request_line method uri version) = [method, uri, version]"
proof -
  have sp: "is_space (CHR '' '')" "is_space CR" by (simp_all add: is_space_def)
  have "py_words (request_line method uri version) = method # py_words ('' '' @ uri @ '' '' @ version @ [CR])"
    unfolding request_line_def using assms(1) sp by (intro py_words_word) (auto simp: token_def)
  also have "py_words ('' '' @ uri @ '' '' @ version @ [CR]) = py_words (uri @ '' '' @ version @ [CR])"
    using sp by simp
  also have "\<dots> = uri # py_words ('' '' @ version @ [CR])"
    using assms(2) sp by (intro py_words_word) (auto simp: token_def)
  also have "py_words ('' '' @ version @ [CR]) = py_words (version @ [CR])" using sp by simp
  also have "\<dots> = version # py_words [CR]"
    using assms(3) sp by (intro py_words_word) (auto simp: token_def)
  also have "py_words [CR] = []" using sp by simp
  finally show ?thesis .
qed

lemma token_no_LF: "token w \<Longrightarrow> LF \<notin> set w"
  by (auto simp: token_def list_all_iff is_space_def)

lemma Request_init_three:
  assumes "token method" "token uri" "token version"
  shows "\<exists>raw. Request_init (request_line method uri version @ LF # rest)
    = Inr \<lparr>req_raw = raw, req_uri = uri, req_use_raw = False, req_remaining = rest,
           req_method = py_upper method, req_version = canonical_version version\<rparr>"
proof -
  have "LF \<notin> set (request_line method uri version)"
    using assms token_no_LF by (auto simp: request_line_def)
  then have "py_split1 [LF] (request_line method uri version @ LF # rest)
      = Some (request_line method uri version, rest)" by simp
  then show ?thesis using py_words_request_line [OF assms] by (simp add: Request_init_def)
qed

lemma show_nat_no: "\<not> is_digit c \<Longrightarrow> c \<notin> set (show_nat n)"
  using show_nat_digits [of n] by (auto simp: list_all_iff)

text \<open>The method and the version of a request have no line end in them.\<close>

lemma canonical_version_no_LF: "LF \<notin> set v \<Longrightarrow> LF \<notin> set (canonical_version v)"
proof -
  assume v: "LF \<notin> set v"
  have "last (split_on (CHR ''/'') v) \<in> set (split_on (CHR ''/'') v)" by simp
  then have "LF \<notin> set (last (split_on (CHR ''/'') v))" using v set_split_on by fast
  moreover have "LF \<notin> set (show_nat n)" for n by (rule show_nat_no) (simp add: is_digit_def)
  ultimately show ?thesis by (auto simp: canonical_version_def Let_def split: option.splits)
qed

lemma to_upper_LF: "to_upper c = LF \<Longrightarrow> c = LF"
proof -
  assume "to_upper c = LF"
  then have "of_char (to_upper c) = (10 :: nat)" by simp
  then have "of_char c = (10 :: nat)" by (auto simp: to_upper_def Let_def split: if_splits)
  then have "c = char_of (10 :: nat)" by (metis char_of_char)
  then show "c = LF" by (simp add: char_of_def bit_0)
qed

lemma py_upper_no_LF: "LF \<notin> set m \<Longrightarrow> LF \<notin> set (py_upper m)"
proof
  assume m: "LF \<notin> set m" and "LF \<in> set (py_upper m)"
  then obtain c where "c \<in> set m" "to_upper c = LF" by (auto simp: py_upper_def)
  with m show False using to_upper_LF by auto
qed

lemma Request_init_no_LF:
  assumes "Request_init data = Inr r"
  shows "LF \<notin> set (req_method r) \<and> LF \<notin> set (req_version r)"
proof -
  from assms obtain a b where ab: "py_split1 [LF] data = Some (a, b)"
    by (auto simp: Request_init_def seq_eq_Inr_iff)
  have a: "LF \<notin> set a" by (rule py_split1_char_notin [OF ab])
  have w: "LF \<notin> set x" if "x \<in> set (py_words a)" for x
    using set_py_words [OF that] a by auto
  note up = py_upper_no_LF and cv = canonical_version_no_LF
  have cases: "(\<exists>m u v. py_words a = [m, u, v]) \<or> (\<exists>m u. py_words a = [m, u])"
    using assms ab by (simp add: Request_init_def split: list.splits)
  show ?thesis
  proof (cases "\<exists>m u v. py_words a = [m, u, v]")
    case True
    then obtain m u v where muv: "py_words a = [m, u, v]" by blast
    then have "LF \<notin> set m" "LF \<notin> set v" using w by simp_all
    moreover have "req_method r = py_upper m" "req_version r = canonical_version v"
      using assms ab muv by (auto simp: Request_init_def)
    ultimately show ?thesis using up cv by simp
  next
    case False
    with cases obtain m u where mu: "py_words a = [m, u]" by blast
    then have m: "LF \<notin> set m" using w by simp
    from assms ab mu obtain http rest where hr: "py_split1 [LF] b = Some (http, rest)"
      by (auto simp: Request_init_def seq_eq_Inr_iff)
    have http: "LF \<notin> set http" by (rule py_split1_char_notin [OF hr])
    define v where "v = (case py_split1 ''/'' (py_strip http) of None \<Rightarrow> py_strip http | Some (_, v) \<Rightarrow> v)"
    have strip: "LF \<notin> set (py_strip http)" using set_py_strip http by fast
    then have v: "LF \<notin> set v"
      unfolding v_def using set_py_split1 by (cases "py_split1 ''/'' (py_strip http)") (simp, fastforce)
    have "Request_init data =
        (if is_http_line http
         then Inr \<lparr>req_raw = a @ [LF] @ http, req_uri = u, req_use_raw = True, req_remaining = rest,
                req_method = py_upper m, req_version = canonical_version v\<rparr>
         else Inr \<lparr>req_raw = a, req_uri = u, req_use_raw = True, req_remaining = b,
                req_method = py_upper m, req_version = canonical_version ''1.0''\<rparr>)"
      by (simp add: Request_init_def ab mu hr v_def)
    then have "req_method r = py_upper m \<and> (req_version r = canonical_version v \<or> req_version r = canonical_version ''1.0'')"
      using assms by (cases "is_http_line http") auto
    moreover have "LF \<notin> set (canonical_version ''1.0'')" by (rule cv) simp
    ultimately show ?thesis using up [OF m] cv [OF v] by metis
  qed
qed

lemma Request_open_no_LF:
  assumes "Request_open data = Inr r"
  shows "LF \<notin> set (req_method r) \<and> LF \<notin> set (req_version r)"
proof -
  from assms obtain q where q: "Request_init data = Inr q" "Request_parse q = Inr r"
    by (auto simp: Request_open_def seq_eq_Inr_iff)
  from q(2) have "req_method r = req_method q \<and> req_version r = req_version q"
    by (auto simp: Request_parse_def raw_request.defs seq_eq_Inr_iff split: prod.splits)
  with Request_init_no_LF [OF q(1)] show ?thesis by simp
qed

definition port_text :: "nat option \<Rightarrow> string" where
  "port_text p = (case p of None \<Rightarrow> [] | Some n \<Rightarrow> '':'' @ show_nat n)"

lemma parse_authority_port:
  assumes "CHR '':'' \<notin> set host"
  shows "parse_authority (host @ port_text p) = Inr (host, case p of None \<Rightarrow> 80 | Some n \<Rightarrow> n)"
  using assms by (cases p) (simp_all add: parse_authority_def port_text_def)

text \<open>The host of a URI: what may stand before the port.\<close>

definition plain_host :: "string \<Rightarrow> bool" where
  "plain_host h \<longleftrightarrow> CHR '':'' \<notin> set h \<and> CHR ''/'' \<notin> set h \<and> \<not> prefix ''['' h"

lemma port_text_chars: "c \<in> set (port_text p) \<Longrightarrow> c = CHR '':'' \<or> is_digit c"
  using show_nat_digits by (auto simp: port_text_def list_all_iff split: option.splits)

lemma slash_bracket_no_digit: "\<not> is_digit (CHR ''/'')" "\<not> is_digit (CHR ''['')"
  by (simp_all add: is_digit_def)

lemma authority_chars:
  assumes "plain_host h"
  shows "CHR ''/'' \<notin> set (h @ port_text p)"
    "s = [] \<or> hd s = CHR ''/'' \<Longrightarrow> \<not> prefix ''['' (h @ port_text p @ s)"
proof -
  show "CHR ''/'' \<notin> set (h @ port_text p)"
    using assms port_text_chars slash_bracket_no_digit by (fastforce simp: plain_host_def)
  show "\<not> prefix ''['' (h @ port_text p @ s)" if "s = [] \<or> hd s = CHR ''/''"
    using assms that port_text_chars [of _ p] slash_bracket_no_digit
    by (cases h; cases "port_text p"; cases s) (auto simp: plain_host_def)
qed

lemma Request_open_absolute:
  assumes "token method" "token host" "plain_host host" "list_all (\<lambda>c. \<not> is_space c) path"
    and "version \<in> {''1.0'', ''1.1''}" "py_upper method \<noteq> ''CONNECT''"
  shows "\<exists>r. Request_open (request_line method (''http://'' @ host @ port_text port @ ''/'' @ path)
                          (''HTTP/'' @ version) @ LF # rest) = Inr r
           \<and> req_host r = host \<and> req_port r = (case port of None \<Rightarrow> 80 | Some n \<Rightarrow> n)
           \<and> req_path r = ''/'' @ path \<and> req_method r = py_upper method \<and> req_version r = version
           \<and> req_remaining r = rest
           \<and> Request_str r = py_upper method @ '' /'' @ path @ '' HTTP/'' @ version"
proof -
  let ?uri = "''http://'' @ host @ port_text port @ ''/'' @ path"
  have "token ?uri"
    using assms(2,4) port_text_chars [of _ port] is_digit_not_space
    by (fastforce simp: token_def list_all_iff is_space_def)
  moreover have "token (''HTTP/'' @ version)" using assms(5) by (auto simp: token_def is_space_def)
  ultimately obtain raw where init:
    "Request_init (request_line method ?uri (''HTTP/'' @ version) @ LF # rest)
       = Inr \<lparr>req_raw = raw, req_uri = ?uri, req_use_raw = False, req_remaining = rest,
              req_method = py_upper method, req_version = canonical_version (''HTTP/'' @ version)\<rparr>"
    using Request_init_three [OF assms(1)] by blast
  have ver: "canonical_version (''HTTP/'' @ version) = version"
    using assms(5) canonical_version_known by auto
  have split: "py_split1 ''/'' (host @ port_text port @ ''/'' @ path) = Some (host @ port_text port, path)"
    using py_split1_char [OF authority_chars(1) [OF assms(3), of port], of path] by simp
  have nb: "\<not> prefix ''['' (host @ port_text port @ ''/'' @ path)"
    by (rule authority_chars(2) [OF assms(3)]) simp
  have auth: "parse_authority (host @ port_text port) = Inr (host, case port of None \<Rightarrow> 80 | Some n \<Rightarrow> n)"
    using parse_authority_port assms(3) by (simp add: plain_host_def)
  have proto: "split_protocol ?uri = (''http'', host @ port_text port @ ''/'' @ path)"
    by (rule split_protocol_http)
  show ?thesis
    unfolding Request_open_def init seq_simps Request_parse_def raw_request.simps proto Let_def prod.case
    using split nb auth ver assms(6) by (simp add: Request_str_def raw_request.defs)
qed


text \<open>A request line in authority form, as \<open>CONNECT\<close> has it.\<close>

lemma Request_open_authority:
  assumes "token method" "token host" "plain_host host" "version \<in> {''1.0'', ''1.1''}"
  shows "\<exists>r. Request_open (request_line method (host @ port_text port) (''HTTP/'' @ version) @ LF # rest) = Inr r
           \<and> req_host r = host \<and> req_port r = (case port of None \<Rightarrow> 80 | Some n \<Rightarrow> n)
           \<and> req_method r = py_upper method \<and> req_version r = version \<and> req_remaining r = rest"
proof -
  let ?uri = "host @ port_text port"
  have "token ?uri"
    using assms(2) port_text_chars [of _ port] is_digit_not_space
    by (fastforce simp: token_def list_all_iff is_space_def)
  moreover have "token (''HTTP/'' @ version)" using assms(4) by (auto simp: token_def is_space_def)
  ultimately obtain raw where init:
    "Request_init (request_line method ?uri (''HTTP/'' @ version) @ LF # rest)
       = Inr \<lparr>req_raw = raw, req_uri = ?uri, req_use_raw = False, req_remaining = rest,
              req_method = py_upper method, req_version = canonical_version (''HTTP/'' @ version)\<rparr>"
    using Request_init_three [OF assms(1)] by blast
  have ver: "canonical_version (''HTTP/'' @ version) = version"
    using assms(4) canonical_version_known by auto
  have slash: "CHR ''/'' \<notin> set ?uri" by (rule authority_chars(1) [OF assms(3)])
  then have "\<not> py_in ''://'' ?uri" by (auto simp: py_in_iff_sublist dest: set_mono_sublist)
  then have proto: "split_protocol ?uri = (''http'', ?uri)"
    by (simp add: split_protocol_def py_split1_None [THEN iffD2])
  have nb: "\<not> prefix ''['' ?uri" using authority_chars(2) [OF assms(3), of "[]" port] by simp
  have auth: "parse_authority ?uri = Inr (host, case port of None \<Rightarrow> 80 | Some n \<Rightarrow> n)"
    using parse_authority_port assms(3) by (simp add: plain_host_def)
  show ?thesis
    unfolding Request_open_def init seq_simps Request_parse_def raw_request.simps proto Let_def prod.case
    using slash nb auth ver by (simp add: raw_request.defs)
qed

section \<open>Properties\<close>

text \<open>
  a three-part request line in absolute form (\<open>http://host[:port]/path\<close>) is taken apart into the
  method, host, port (80 when it is not given), path and version it was written with, the rest of
  the text is kept for the headers, and the request is printed in origin form, as an origin server
  must receive it.
\<close>

theorem Request_absolute_form:
  assumes "token method" "token host" "plain_host host" "list_all (\<lambda>c. \<not> is_space c) path"
    and "version \<in> {''1.0'', ''1.1''}" "py_upper method \<noteq> ''CONNECT''"
  shows "\<exists>r. Request_open (request_line method (''http://'' @ host @ port_text port @ ''/'' @ path)
                          (''HTTP/'' @ version) @ LF # rest) = Inr r
           \<and> req_host r = host \<and> req_port r = (case port of None \<Rightarrow> 80 | Some n \<Rightarrow> n)
           \<and> req_path r = ''/'' @ path \<and> req_method r = py_upper method \<and> req_version r = version
           \<and> req_remaining r = rest
           \<and> Request_str r = py_upper method @ '' /'' @ path @ '' HTTP/'' @ version"
  by (rule Request_open_absolute [OF assms])

theorem Request_absolute_form_witness:
  "\<exists>r. Request_open (request_line ''get'' (''http://'' @ ''exa.net'' @ port_text (Some 8080) @ ''/'' @ ''a?b'')
                     (''HTTP/'' @ ''1.1'') @ LF # ''Host: exa.net'') = Inr r
     \<and> req_host r = ''exa.net'' \<and> req_port r = (case Some 8080 of None \<Rightarrow> 80 | Some n \<Rightarrow> n)
     \<and> req_path r = ''/'' @ ''a?b'' \<and> req_method r = py_upper ''get'' \<and> req_version r = ''1.1''
     \<and> req_remaining r = ''Host: exa.net''
     \<and> Request_str r = py_upper ''get'' @ '' /'' @ ''a?b'' @ '' HTTP/'' @ ''1.1''"
proof (rule Request_absolute_form)
  show "token ''get''" "token ''exa.net''" "plain_host ''exa.net''" "list_all (\<lambda>c. \<not> is_space c) ''a?b''"
    "''1.1'' \<in> {''1.0'', ''1.1''}"
    by (simp_all add: token_def plain_host_def is_space_def)
  show "py_upper ''get'' \<noteq> ''CONNECT''" by (simp add: py_upper_def)
qed

lemma split_on_no: "split_on c s = [a] \<Longrightarrow> c \<notin> set s"
  using py_join_split_on [of c s] split_on_notin [of a c s] by auto

lemma split_on_two: "split_on c s = [a, b] \<longleftrightarrow> s = a @ c # b \<and> c \<notin> set a \<and> c \<notin> set b"
proof
  assume sp: "split_on c s = [a, b]"
  then show "s = a @ c # b \<and> c \<notin> set a \<and> c \<notin> set b"
    using py_join_split_on [of c s] split_on_notin [of a c s] split_on_notin [of b c s] by simp
qed (simp add: split_on_id)

text \<open>The only texts that may follow the bracket of an IPv6 host.\<close>

definition bracket_tail :: "string \<Rightarrow> nat \<Rightarrow> string \<Rightarrow> bool" where
  "bracket_tail rest port path \<longleftrightarrow>
     (py_isdigit rest \<and> port = nat_of_dec rest \<and> path = []) \<or>
     (\<exists>p. CHR ''/'' \<notin> set p \<and> rest = ''/'' @ p \<and> path = ''/'' @ p \<and> port = 80) \<or>
     (\<exists>ds p. CHR ''/'' \<notin> set p \<and> py_isdigit ds \<and> rest = '':'' @ ds @ ''/'' @ p
        \<and> path = ''/'' @ p \<and> port = nat_of_dec ds)"

lemma py_isdigit_no_slash: "py_isdigit ds \<Longrightarrow> CHR ''/'' \<notin> set ds"
  by (auto simp: py_isdigit_def list_all_iff is_digit_def)

text \<open>The same in terms of the parts between slashes.\<close>

lemma bracket_tail_split:
  "bracket_tail rest port path \<longleftrightarrow>
     (py_isdigit rest \<and> port = nat_of_dec rest \<and> path = []) \<or>
     (\<exists>x y. split_on (CHR ''/'') rest = [x, y] \<and> path = CHR ''/'' # y \<and>
        (x = [] \<and> port = 80 \<or> (\<exists>ds. x = CHR '':'' # ds \<and> py_isdigit ds \<and> port = nat_of_dec ds)))"
proof -
  show ?thesis
    unfolding bracket_tail_def split_on_two using py_isdigit_no_slash by auto
qed

lemma parse_bracketed_iff:
  assumes "CHR '']'' \<notin> set a"
  shows "parse_bracketed (''['' @ a @ '']'' @ rest) = Inr (host, port, path)
     \<longleftrightarrow> host = a \<and> bracket_tail rest port path"
proof -
  have split: "py_split1 '']'' (a @ CHR '']'' # rest) = Some (a, rest)" using assms by simp
  show ?thesis
  proof (cases "CHR ''/'' \<in> set rest")
    case False
    then have "split_on (CHR ''/'') rest = [rest]" by (rule split_on_id)
    with False show ?thesis using split
      by (auto simp: parse_bracketed_def seq_eq_Inr_iff bracket_tail_split)
  next
    case True
    then have nd: "\<not> py_isdigit rest" using py_isdigit_no_slash by blast
    show ?thesis
    proof (cases "\<exists>x y. split_on (CHR ''/'') rest = [x, y]")
      case False
      then have "parse_bracketed (''['' @ a @ '']'' @ rest) = Inl ValueError"
        using True split by (auto simp: parse_bracketed_def split: list.split)
      with False nd show ?thesis by (auto simp: bracket_tail_split)
    next
      case two: True
      then obtain x y where xy: "split_on (CHR ''/'') rest = [x, y]" by blast
      then have "parse_bracketed (''['' @ a @ '']'' @ rest) =
         (if x \<noteq> [] then
            if \<not> prefix '':'' x then Inl ValueError
            else seq (Request_checkport (tl x)) (\<lambda>n. Inr (a, n, CHR ''/'' # y))
          else Inr (a, 80, CHR ''/'' # y))"
        using True split by (simp add: parse_bracketed_def)
      then show ?thesis using nd xy
        by (cases x) (auto simp: bracket_tail_split seq_eq_Inr_iff)
    qed
  qed
qed

text \<open>
  the parser accepts a URI with an IPv6 host in brackets exactly when what follows the bracket is
  a path with one slash, a port and such a path, or digits alone; so \<open>[::1]\<close>, \<open>[::1]:443\<close> (every
  CONNECT to an IPv6 address) and a path of two levels are refused.
\<close>

theorem Request_parse_ipv6:
  assumes "CHR '']'' \<notin> set a" "req_uri r = ''http://'' @ ''['' @ a @ '']'' @ rest"
  shows "(\<exists>q. Request_parse r = Inr q \<and> req_host q = a \<and> req_port q = port \<and> req_path q = path)
    \<longleftrightarrow> bracket_tail rest port path"
proof -
  have "split_protocol (req_uri r) = (''http'', ''['' @ a @ '']'' @ rest)"
    using assms(2) split_protocol_http by simp
  then have "Request_parse r = seq (parse_bracketed (''['' @ a @ '']'' @ rest)) (\<lambda>(host, port, path).
      Inr (raw_request.extend r
            \<lparr>req_protocol = ''http'', req_host = host, req_path = path, req_port = port\<rparr>))"
    by (simp add: Request_parse_def)
  then have fields: "(\<exists>q. Request_parse r = Inr q \<and> req_host q = h \<and> req_port q = n \<and> req_path q = w)
      \<longleftrightarrow> parse_bracketed (''['' @ a @ '']'' @ rest) = Inr (h, n, w)" for h n w
    by (auto simp: seq_eq_Inr_iff raw_request.defs)
  show ?thesis unfolding fields using parse_bracketed_iff [OF assms(1)] by simp
qed

text \<open>A CONNECT to an IPv6 address is one of the requests refused.\<close>

theorem Request_parse_ipv6_witness:
  "\<not> (\<exists>q. Request_parse \<lparr>req_raw = [], req_uri = ''http://[::1]:443'', req_use_raw = False, req_remaining = [],
            req_method = ''CONNECT'', req_version = ''1.1''\<rparr> = Inr q
        \<and> req_host q = ''::1'' \<and> req_port q = 443 \<and> req_path q = [])"
  using Request_parse_ipv6 [of "''::1''" "\<lparr>req_raw = [], req_uri = ''http://[::1]:443'', req_use_raw = False,
      req_remaining = [], req_method = ''CONNECT'', req_version = ''1.1''\<rparr>" "'':443''" 443 "[]"]
  by (simp add: bracket_tail_def py_isdigit_def is_digit_def)

end
