(* ===== verification/NetAddr.thy ===== *)
theory NetAddr
  imports PyStr
begin

text \<open>
  \<open>lib/exaproxy/network/functions.py\<close>: the tests of whether a string is an IP address. They call
  \<open>socket.inet_pton\<close>, the C library's readers of dotted and of colon notation, written here as the
  C library has them. A string with a NUL byte is refused by Python before the call (\<open>TypeError\<close>).
\<close>

text \<open>
  The loop of \<open>inet_pton4\<close>: \<open>octets\<close> are those before the current one, \<open>cur\<close> the octet being
  read, \<open>saw\<close> whether it has a digit (and so counts). The result is the octets, \<open>None\<close> a refusal.
\<close>

fun inet_pton4_loop :: "string \<Rightarrow> nat list \<Rightarrow> nat \<Rightarrow> bool \<Rightarrow> nat list option" where
  "inet_pton4_loop [] octets cur saw =
     (if length octets + (if saw then 1 else 0) < 4 then None else Some (octets @ [cur]))"
| "inet_pton4_loop (c # cs) octets cur saw =
     (if is_digit c then
        let new = cur * 10 + digit_val c in
        if saw \<and> cur = 0 then None
        else if new > 255 then None
        else if \<not> saw \<and> length octets + 1 > 4 then None
        else inet_pton4_loop cs octets new True
      else if c = CHR ''.'' \<and> saw then
        if length octets + 1 = 4 then None else inet_pton4_loop cs (octets @ [cur]) 0 False
      else None)"

definition inet_pton4 :: "string \<Rightarrow> nat list option" where
  "inet_pton4 s = inet_pton4_loop s [] 0 False"

definition is_hexdigit :: "char \<Rightarrow> bool" where
  "is_hexdigit c \<longleftrightarrow> c \<in> set hexdigits"

text \<open>
  The loop of \<open>inet_pton6\<close>: \<open>curtok\<close> is where the current group began, \<open>seen\<close> its number of digits and
  \<open>val\<close> their value, \<open>tp\<close> the bytes written and \<open>colonp\<close> how many were written before \<open>::\<close>. At the end
  sixteen bytes must be there, or fewer when \<open>::\<close> fills the rest.
\<close>

definition inet_pton6_end :: "nat list \<Rightarrow> nat option \<Rightarrow> nat \<Rightarrow> nat \<Rightarrow> nat list option" where
  "inet_pton6_end tp colonp seen val =
     (if seen > 0 \<and> length tp + 2 > 16 then None
      else
        let tp' = (if seen > 0 then tp @ [val div 256, val mod 256] else tp) in
        case colonp of
          Some k \<Rightarrow>
            if length tp' = 16 then None
            else Some (take k tp' @ replicate (16 - length tp') 0 @ drop k tp')
        | None \<Rightarrow> if length tp' = 16 then Some tp' else None)"

fun inet_pton6_loop :: "string \<Rightarrow> string \<Rightarrow> nat \<Rightarrow> nat \<Rightarrow> nat list \<Rightarrow> nat option \<Rightarrow> nat list option" where
  "inet_pton6_loop [] curtok seen val tp colonp = inet_pton6_end tp colonp seen val"
| "inet_pton6_loop (c # cs) curtok seen val tp colonp =
     (if is_hexdigit c then
        if seen = 4 then None else inet_pton6_loop cs curtok (seen + 1) (val * 16 + hex_val c) tp colonp
      else if c = CHR '':'' then
        if seen = 0 then
          if colonp \<noteq> None then None else inet_pton6_loop cs cs 0 val tp (Some (length tp))
        else if cs = [] then None
        else if length tp + 2 > 16 then None
        else inet_pton6_loop cs cs 0 0 (tp @ [val div 256, val mod 256]) colonp
      else if c = CHR ''.'' \<and> length tp + 4 \<le> 16 then
        (case inet_pton4 curtok of
           None \<Rightarrow> None
         | Some octets \<Rightarrow> inet_pton6_end (tp @ octets) colonp 0 0)
      else None)"

definition inet_pton6 :: "string \<Rightarrow> nat list option" where
  "inet_pton6 s =
     (case s of
        [] \<Rightarrow> None
      | c # cs \<Rightarrow>
          if c = CHR '':'' then
            (case cs of [] \<Rightarrow> None
             | d # _ \<Rightarrow> if d = CHR '':'' then inet_pton6_loop cs cs 0 0 [] None else None)
          else inet_pton6_loop s s 0 0 [] None)"

definition isipv4 :: "string \<Rightarrow> bool res" where
  "isipv4 address = (if CHR 0x00 \<in> set address then Inl TypeError else Inr (inet_pton4 address \<noteq> None))"

definition isipv6 :: "string \<Rightarrow> bool res" where
  "isipv6 address = (if CHR 0x00 \<in> set address then Inl TypeError else Inr (inet_pton6 address \<noteq> None))"

definition isip :: "string \<Rightarrow> bool res" where
  "isip address = seq (isipv4 address) (\<lambda>v4. if v4 then Inr True else isipv6 address)"

end
