(* ===== verification/Message.thy ===== *)
theory Message
  imports Headers Request NetAddr
begin

text \<open>
  \<open>lib/exaproxy/http/message.py\<close>: the class \<open>HTTP\<close>, a received request: its request line and its
  headers, the checks on them, where the request goes and how its body is framed. \<open>parse\<close> never
  raises: every exception becomes a reply code. What the object holds when an exception is raised
  is kept, so the body of the \<open>try\<close> is a list of steps on the object, each assigning one attribute.
\<close>

section \<open>State\<close>

datatype body_length = Chunked | Length int

text \<open>\<open>None\<close> is an attribute that has not been assigned (or that holds \<open>None\<close>).\<close>

record http_message =
  msg_raw :: string
  msg_client :: string
  msg_proxy_name :: string
  msg_forward :: string
  msg_mask :: bool
  msg_reply_code :: nat
  msg_reply_string :: string
  msg_request :: "request option"
  msg_headers :: "headers option"
  msg_expect :: bool
  msg_validated :: bool
  msg_separator :: string
  msg_headerhost :: "string option"
  msg_host :: "string option"
  msg_port :: "nat option"
  msg_content_length :: "body_length option"
  msg_url :: "string option"
  msg_url_noport :: "string option"
  msg_upgrade :: "string option"
  msg_path :: "string option"

definition HTTP_init :: "string \<Rightarrow> string \<Rightarrow> bool \<Rightarrow> bool \<Rightarrow> string \<Rightarrow> string \<Rightarrow> http_message" where
  "HTTP_init version forward masked expect headers remote_ip =
     \<lparr>msg_raw = headers, msg_client = remote_ip,
      msg_proxy_name = ''X-Proxy-Version: ExaProxy version '' @ version,
      msg_forward = forward, msg_mask = masked, msg_reply_code = 0, msg_reply_string = [],
      msg_request = None, msg_headers = None, msg_expect = expect, msg_validated = False,
      msg_separator = [], msg_headerhost = None, msg_host = None, msg_port = None,
      msg_content_length = None, msg_url = None, msg_url_noport = None, msg_upgrade = None,
      msg_path = None\<rparr>"

text \<open>An attribute that is read before it is assigned.\<close>

definition attribute :: "'a option \<Rightarrow> http_error + 'a" where
  "attribute v = or_raise (Py AttributeError) v"

section \<open>Reading a header\<close>

text \<open>\<open>lines[0].split(':', 1)[1]\<close>.\<close>

definition first_value :: "string list \<Rightarrow> string res" where
  "first_value ls =
     seq (py_first ls) (\<lambda>l.
     case py_split1 '':'' l of None \<Rightarrow> Inl IndexError | Some (_, v) \<Rightarrow> Inr v)"

text \<open>\<open>self.headers.get(key, [default])[0].split(':', 1)[1].strip()\<close>.\<close>

definition header_value :: "string \<Rightarrow> string \<Rightarrow> headers \<Rightarrow> string res" where
  "header_value key d h = seq (first_value (Headers_get key [d] h)) (\<lambda>v. Inr (py_strip v))"

definition HTTP_extractHost :: "headers \<Rightarrow> string res" where
  "HTTP_extractHost h =
     seq (header_value ''host'' '':'' h) (\<lambda>hoststring.
     Inr (if CHR '':'' \<in> set hoststring then
            if prefix ''['' hoststring \<and> CHR '']'' \<in> set hoststring
            then takeWhile (\<lambda>c. c \<noteq> CHR '']'') (tl hoststring)
            else takeWhile (\<lambda>c. c \<noteq> CHR '':'') hoststring
          else hoststring))"

text \<open>
  The address in the header that names the client. The default of this \<open>get\<close> is a string and not a
  list of one string, so \<open>[0]\<close> is its first byte, the colon.
\<close>

definition forwarded_client :: "string \<Rightarrow> headers \<Rightarrow> string res" where
  "forwarded_client key h =
     seq (first_value (case hdr_data h key of Some ls \<Rightarrow> ls | None \<Rightarrow> [[CHR '':'']])) (\<lambda>v.
     Inr (py_strip (last (split_on (CHR '','') v))))"

definition body_framing :: "headers \<Rightarrow> body_length res" where
  "body_framing h =
     seq (header_value ''transfer-encoding'' '':'' h) (\<lambda>te.
     seq (if te = [] then header_value ''te'' '':'' h else Inr te) (\<lambda>encoding.
     seq (header_value ''content-length'' '':0'' h) (\<lambda>cl.
     seq (py_int cl) (\<lambda>content_length.
     Inr (if py_in ''chunked'' encoding then Chunked else Length content_length)))))"

definition upgrade_value :: "headers \<Rightarrow> string res" where
  "upgrade_value h =
     seq (header_value ''connection'' '':'' h) (\<lambda>connection.
     if py_lower connection = ''upgrade'' then header_value ''upgrade'' '':'' h else Inr [])"

section \<open>The body of the try\<close>

type_synonym step = "http_message \<Rightarrow> http_error + http_message"

definition no_host_message :: string where
  "no_host_message = ''can not forward the request, we have no host information''"

definition step_separator :: step where
  "step_separator m =
     Inr (m\<lparr>msg_separator := (if CR \<in> set (msg_raw m) then CRLF else [LF])\<rparr>)"

definition step_request :: step where
  "step_request m = seq (lift_error Py (Request_open (msg_raw m))) (\<lambda>r. Inr (m\<lparr>msg_request := Some r\<rparr>))"

definition step_headers :: "bool \<Rightarrow> step" where
  "step_headers transparent m =
     seq (attribute (msg_request m)) (\<lambda>r.
     seq (Headers_parse transparent (req_remaining r)
            (Headers_init (req_version r) (msg_separator m) (msg_expect m))) (\<lambda>h.
     Inr (m\<lparr>msg_headers := Some h\<rparr>)))"

definition step_headerhost :: step where
  "step_headerhost m =
     seq (attribute (msg_headers m)) (\<lambda>h.
     seq (lift_error Py (HTTP_extractHost h)) (\<lambda>host. Inr (m\<lparr>msg_headerhost := Some host\<rparr>)))"

definition step_host :: step where
  "step_host m =
     seq (attribute (msg_request m)) (\<lambda>r.
     if req_host r \<noteq> [] \<and> req_host r \<noteq> ''*'' then Inr (m\<lparr>msg_host := Some (req_host r)\<rparr>)
     else seq (attribute (msg_headerhost m)) (\<lambda>host. Inr (m\<lparr>msg_host := Some host\<rparr>)))"

definition step_port :: step where
  "step_port m =
     seq (attribute (msg_request m)) (\<lambda>r.
     let m' = m\<lparr>msg_port := Some (req_port r)\<rparr> in Inr m')"

definition step_check_host :: step where
  "step_check_host m =
     seq (attribute (msg_host m)) (\<lambda>host.
     if host = [] then Inl (InvalidRequest no_host_message) else Inr m)"

definition step_announce :: step where
  "step_announce m =
     seq (attribute (msg_headers m)) (\<lambda>h.
     Inr (m\<lparr>msg_headers := Some (Headers_replace ''x-proxy-version'' (msg_proxy_name m) h)\<rparr>))"

definition step_client :: step where
  "step_client m =
     (if msg_forward m = [] then Inr m
      else
        seq (attribute (msg_headers m)) (\<lambda>h.
        seq (lift_error Py (forwarded_client (msg_forward m) h)) (\<lambda>client.
        seq (lift_error Py (isip client)) (\<lambda>ok.
        Inr (if ok then m\<lparr>msg_client := client\<rparr> else m)))))"

definition step_mask :: step where
  "step_mask m =
     (if msg_forward m \<noteq> [] \<and> msg_mask m then
        seq (attribute (msg_headers m)) (\<lambda>h.
        seq (lift_error Py (Headers_pop (msg_forward m) h)) (\<lambda>(_, h').
        Inr (m\<lparr>msg_headers := Some h'\<rparr>)))
      else Inr m)"

definition step_framing :: step where
  "step_framing m =
     seq (attribute (msg_headers m)) (\<lambda>h.
     seq (lift_error Py (body_framing h)) (\<lambda>l. Inr (m\<lparr>msg_content_length := Some l\<rparr>)))"

definition step_url :: step where
  "step_url m =
     seq (attribute (msg_host m)) (\<lambda>host.
     seq (attribute (msg_port m)) (\<lambda>port.
     seq (attribute (msg_request m)) (\<lambda>r.
     Inr (m\<lparr>msg_url := Some (host @ (if port \<noteq> 80 then '':'' @ show_nat port else []) @ req_path r),
            msg_url_noport := Some (host @ req_path r)\<rparr>))))"

definition step_upgrade :: step where
  "step_upgrade m =
     seq (attribute (msg_headers m)) (\<lambda>h.
     seq (lift_error Py (upgrade_value h)) (\<lambda>u. Inr (m\<lparr>msg_upgrade := Some u\<rparr>)))"

text \<open>The steps in order, up to the first exception: the exception and the object as it is then.\<close>

fun run_steps :: "step list \<Rightarrow> http_message \<Rightarrow> http_error option \<times> http_message" where
  "run_steps [] m = (None, m)"
| "run_steps (f # fs) m = (case f m of Inl e \<Rightarrow> (Some e, m) | Inr m' \<Rightarrow> run_steps fs m')"

definition HTTP_steps :: "bool \<Rightarrow> step list" where
  "HTTP_steps transparent =
     [step_separator, step_request, step_headers transparent, step_headerhost, step_host, step_port,
      step_check_host, step_announce, step_client, step_mask, step_framing, step_url, step_upgrade]"

definition problem_message :: string where
  "problem_message = ''problem parsing the request''"

text \<open>The handlers, in the order of the \<open>except\<close> clauses.\<close>

definition HTTP_refuse :: "http_error \<Rightarrow> http_message \<Rightarrow> http_message" where
  "HTTP_refuse e m =
     (case e of
        ExpectationFailed \<Rightarrow> m\<lparr>msg_reply_code := 417\<rparr>
      | Py ValueError \<Rightarrow> m\<lparr>msg_reply_code := 400, msg_reply_string := problem_message\<rparr>
      | InvalidRequest s \<Rightarrow> m\<lparr>msg_reply_code := 400, msg_reply_string := s\<rparr>
      | Py _ \<Rightarrow> m\<lparr>msg_reply_code := 400, msg_reply_string := problem_message\<rparr>)"

text \<open>\<open>parse\<close>: \<open>True\<close> when it returns the object, \<open>False\<close> when it returns \<open>None\<close>.\<close>

definition HTTP_parse :: "bool \<Rightarrow> http_message \<Rightarrow> bool \<times> http_message" where
  "HTTP_parse transparent m =
     (case run_steps (HTTP_steps transparent) m of
        (Some e, m') \<Rightarrow> (False, HTTP_refuse e m')
      | (None, m') \<Rightarrow> (True, m'\<lparr>msg_validated := True\<rparr>))"

section \<open>The other operations\<close>

text \<open>
  \<open>redirect\<close>: the exception, if any, and the object. No operation assigns \<open>self.path\<close> before it, and
  no class defines \<open>self.header\<close>.
\<close>

definition HTTP_redirect :: "string option \<Rightarrow> string option \<Rightarrow> http_message \<Rightarrow> py_error option \<times> http_message" where
  "HTTP_redirect host path m =
     (case (case host of Some h \<Rightarrow> Some h | None \<Rightarrow> msg_host m) of
        None \<Rightarrow> (Some AttributeError, m)
      | Some h \<Rightarrow>
          let m1 = m\<lparr>msg_host := Some h\<rparr> in
          case (case path of Some p \<Rightarrow> Some p | None \<Rightarrow> msg_path m1) of
            None \<Rightarrow> (Some AttributeError, m1)
          | Some p \<Rightarrow>
              let m2 = m1\<lparr>msg_path := Some p\<rparr> in
              case (case path of
                      None \<Rightarrow> Inr m2
                    | Some p \<Rightarrow>
                        seq (or_raise AttributeError (msg_request m2)) (\<lambda>r.
                        seq (Request_open (req_method r @ '' '' @ p @ '' HTTP/'' @ req_version r)) (\<lambda>r'.
                        Inr (m2\<lparr>msg_request := Some r'\<rparr>)))) of
                Inl e \<Rightarrow> (Some e, m2)
              | Inr m3 \<Rightarrow> if host = None then (None, m3) else (Some AttributeError, m3))"

definition HTTP_str :: "http_message \<Rightarrow> string res" where
  "HTTP_str m =
     seq (or_raise AttributeError (msg_request m)) (\<lambda>r.
     if req_version r \<in> {''1.0'', ''1.1''} then
       seq (case msg_headers m of None \<Rightarrow> Inr ''None'' | Some h \<Rightarrow> Headers_str h) (\<lambda>hs.
       Inr (Request_str r @ msg_separator m @ hs @ msg_separator m @ msg_separator m))
     else Inr (msg_raw m))"


section \<open>Facts on the steps\<close>

lemma attribute_simps [simp]:
  "attribute (Some x) = Inr x" "attribute None = Inl (Py AttributeError)"
  "attribute v = Inr x \<longleftrightarrow> v = Some x"
  by (simp_all add: attribute_def)

lemma run_steps_None: "run_steps (f # fs) m = (None, m') \<longleftrightarrow> (\<exists>n. f m = Inr n \<and> run_steps fs n = (None, m'))"
  by (cases "f m") auto

lemma run_steps_preserves:
  assumes "P m" and "\<And>f m m'. f \<in> set fs \<Longrightarrow> f m = Inr m' \<Longrightarrow> P m \<Longrightarrow> P m'"
  shows "P (snd (run_steps fs m))"
  using assms by (induction fs arbitrary: m) (auto split: sum.split)

text \<open>A request that may be handed to the rest of the proxy.\<close>

definition message_ready :: "http_message \<Rightarrow> bool" where
  "message_ready m \<longleftrightarrow> msg_validated m \<and> msg_reply_code m = 0
     \<and> (\<exists>r h host port. msg_request m = Some r \<and> msg_headers m = Some h \<and> msg_host m = Some host \<and> host \<noteq> []
          \<and> msg_port m = Some port \<and> port = req_port r
          \<and> (host = req_host r \<or> req_host r \<in> {[], ''*''} \<and> msg_headerhost m = Some host)
          \<and> msg_url_noport m = Some (host @ req_path r)
          \<and> body_framing h = Inr (the (msg_content_length m))
          \<and> upgrade_value h = Inr (the (msg_upgrade m)))
     \<and> msg_content_length m \<noteq> None \<and> msg_url m \<noteq> None \<and> msg_upgrade m \<noteq> None"

text \<open>The shape of what each step does, for the steps that branch.\<close>

lemma step_host_shape:
  "step_host m = Inr m' \<Longrightarrow> \<exists>r host. msg_request m = Some r \<and> m' = m\<lparr>msg_host := Some host\<rparr>
     \<and> (host = req_host r \<or> req_host r \<in> {[], ''*''} \<and> msg_headerhost m = Some host)"
proof -
  assume st: "step_host m = Inr m'"
  then obtain r where r: "msg_request m = Some r"
    by (auto simp: step_host_def seq_eq_Inr_iff)
  show ?thesis
  proof (cases "req_host r \<in> {[], ''*''}")
    case True
    then have "step_host m = seq (attribute (msg_headerhost m)) (\<lambda>host. Inr (m\<lparr>msg_host := Some host\<rparr>))"
      using r by (auto simp: step_host_def)
    with st r True show ?thesis by (auto simp: seq_eq_Inr_iff)
  next
    case False
    then have "step_host m = Inr (m\<lparr>msg_host := Some (req_host r)\<rparr>)" using r by (simp add: step_host_def)
    with st r show ?thesis by auto
  qed
qed

lemma step_client_shape: "step_client m = Inr m' \<Longrightarrow> \<exists>c. m' = m\<lparr>msg_client := c\<rparr>"
  by (cases m) (auto simp: step_client_def seq_eq_Inr_iff split: if_splits)

lemma step_mask_shape: "step_mask m = Inr m' \<Longrightarrow> \<exists>h. m' = m\<lparr>msg_headers := h\<rparr>"
  by (cases m) (auto simp: step_mask_def seq_eq_Inr_iff split: if_splits)

lemma step_framing_shape:
  "step_framing m = Inr m' \<Longrightarrow>
     \<exists>h l. msg_headers m = Some h \<and> body_framing h = Inr l \<and> m' = m\<lparr>msg_content_length := Some l\<rparr>"
  by (auto simp: step_framing_def seq_eq_Inr_iff)

lemma step_url_shape:
  "step_url m = Inr m' \<Longrightarrow> \<exists>host port r u. msg_host m = Some host \<and> msg_port m = Some port
     \<and> msg_request m = Some r \<and> m' = m\<lparr>msg_url := Some u, msg_url_noport := Some (host @ req_path r)\<rparr>"
  by (auto simp: step_url_def seq_eq_Inr_iff)

lemma step_upgrade_shape:
  "step_upgrade m = Inr m' \<Longrightarrow>
     \<exists>h u. msg_headers m = Some h \<and> upgrade_value h = Inr u \<and> m' = m\<lparr>msg_upgrade := Some u\<rparr>"
  by (auto simp: step_upgrade_def seq_eq_Inr_iff)

lemmas step_shapes = step_host_shape step_client_shape step_mask_shape step_framing_shape step_url_shape
  step_upgrade_shape

definition keeps_reply :: "step \<Rightarrow> bool" where
  "keeps_reply f \<longleftrightarrow> (\<forall>m m'. f m = Inr m' \<longrightarrow>
     msg_reply_code m' = msg_reply_code m \<and> msg_validated m' = msg_validated m \<and> msg_path m' = msg_path m)"

lemma keeps_reply_steps:
  "keeps_reply step_separator" "keeps_reply step_request" "keeps_reply (step_headers t)"
  "keeps_reply step_headerhost" "keeps_reply step_host" "keeps_reply step_port"
  "keeps_reply step_check_host" "keeps_reply step_announce" "keeps_reply step_client"
  "keeps_reply step_mask" "keeps_reply step_framing" "keeps_reply step_url" "keeps_reply step_upgrade"
  by (auto simp: keeps_reply_def step_separator_def step_request_def step_headers_def step_headerhost_def
        step_port_def step_check_host_def step_announce_def Let_def seq_eq_Inr_iff
        split: if_splits dest!: step_shapes)

lemma steps_keep_reply:
  assumes "f \<in> set (HTTP_steps t)" "f m = Inr m'"
  shows "msg_reply_code m' = msg_reply_code m \<and> msg_validated m' = msg_validated m \<and> msg_path m' = msg_path m"
proof -
  have "\<forall>f \<in> set (HTTP_steps t). keeps_reply f"
    unfolding HTTP_steps_def by (simp add: keeps_reply_steps)
  with assms show ?thesis unfolding keeps_reply_def by blast
qed

lemma HTTP_steps_ready:
  assumes "run_steps (HTTP_steps t) m = (None, m')" "msg_reply_code m = 0"
  shows "message_ready (m'\<lparr>msg_validated := True\<rparr>)"
proof -
  have "msg_reply_code (snd (run_steps (HTTP_steps t) m)) = 0"
    by (rule run_steps_preserves) (use assms(2) steps_keep_reply in auto)
  then have code: "msg_reply_code m' = 0" using assms(1) by simp
  from assms(1) obtain m4 m5 m6 m7 m8 m9 m10 m11 m12 where steps:
    "step_host m4 = Inr m5" "step_port m5 = Inr m6" "step_check_host m6 = Inr m7" "step_announce m7 = Inr m8"
    "step_client m8 = Inr m9" "step_mask m9 = Inr m10" "step_framing m10 = Inr m11" "step_url m11 = Inr m12"
    "step_upgrade m12 = Inr m'"
    unfolding HTTP_steps_def run_steps_None by auto
  from step_host_shape [OF steps(1)] obtain r host where
    h: "msg_request m4 = Some r" "m5 = m4\<lparr>msg_host := Some host\<rparr>"
      "host = req_host r \<or> req_host r \<in> {[], ''*''} \<and> msg_headerhost m4 = Some host" by blast
  have m7: "m7 = m5\<lparr>msg_port := Some (req_port r)\<rparr>" "host \<noteq> []"
    using steps(2,3) h(1,2) by (auto simp: step_port_def step_check_host_def Let_def split: if_splits)
  from steps(4) obtain h8 where m8: "m8 = m7\<lparr>msg_headers := Some h8\<rparr>"
    by (auto simp: step_announce_def seq_eq_Inr_iff)
  from step_client_shape [OF steps(5)] obtain c where m9: "m9 = m8\<lparr>msg_client := c\<rparr>" by blast
  from step_mask_shape [OF steps(6)] obtain h10 where m10: "m10 = m9\<lparr>msg_headers := h10\<rparr>" by blast
  from step_framing_shape [OF steps(7)] obtain h11 l where
    m11: "msg_headers m10 = Some h11" "body_framing h11 = Inr l" "m11 = m10\<lparr>msg_content_length := Some l\<rparr>"
    by blast
  from step_url_shape [OF steps(8)] obtain u where
    m12: "m12 = m11\<lparr>msg_url := Some u, msg_url_noport := Some (host @ req_path r)\<rparr>"
    using h m7 m8 m9 m10 m11(3) by auto
  from step_upgrade_shape [OF steps(9)] obtain g where
    m13: "upgrade_value h11 = Inr g" "m' = m12\<lparr>msg_upgrade := Some g\<rparr>"
    using m11 m12 by auto
  show ?thesis
    using h m7 m8 m9 m10 m11 m12 m13 code by (simp add: message_ready_def)
qed

section \<open>Properties\<close>

text \<open>The result of parsing a message that has just been received.\<close>

text \<open>
  C1: \<open>parse\<close> never raises. When it returns the object, the object is validated, has no reply code, and
  the host (never empty) is the one of the request line or, when that gives none, of the \<open>Host\<close>
  header; port, URL, body framing and upgrade are those of its request line and headers. When it
  returns \<open>None\<close> the object is not validated and the reply code is 400 or 417.
\<close>

theorem HTTP_parse_outcome:
  "case HTTP_parse transparent (HTTP_init version forward masked expect text ip) of
     (True, m) \<Rightarrow> message_ready m
   | (False, m) \<Rightarrow> \<not> msg_validated m \<and> msg_reply_code m \<in> {400, 417}"
proof -
  let ?m = "HTTP_init version forward masked expect text ip"
  have init: "msg_reply_code ?m = 0" "\<not> msg_validated ?m" by (simp_all add: HTTP_init_def)
  obtain e m' where run: "run_steps (HTTP_steps transparent) ?m = (e, m')" by fastforce
  have "\<not> msg_validated (snd (run_steps (HTTP_steps transparent) ?m))"
    by (rule run_steps_preserves) (use init(2) steps_keep_reply in auto)
  then have nv: "\<not> msg_validated m'" using run by simp
  show ?thesis
  proof (cases e)
    case None
    then show ?thesis using HTTP_steps_ready [OF _ init(1)] run by (simp add: HTTP_parse_def)
  next
    case (Some err)
    then show ?thesis using run nv
      by (auto simp: HTTP_parse_def HTTP_refuse_def split: http_error.split py_error.split)
  qed
qed


lemma header_value_ok:
  assumes "Headers_get k [d] h \<noteq> []" "\<forall>l \<in> set (Headers_get k [d] h). CHR '':'' \<in> set l"
  shows "\<exists>v. header_value k d h = Inr v"
proof -
  obtain l ls where l: "Headers_get k [d] h = l # ls" using assms(1) by (meson neq_Nil_conv)
  with assms(2) obtain a b where "py_split1 '':'' l = Some (a, b)"
    by (cases "py_split1 '':'' l") (auto simp: py_split1_None)
  with l show ?thesis by (simp add: header_value_def first_value_def)
qed

text \<open>A received set of plain lines, after the proxy has announced itself.\<close>

definition announced :: "string \<Rightarrow> headers \<Rightarrow> headers" where
  "announced name h = Headers_replace ''x-proxy-version'' name h"

lemma announced_get:
  assumes "\<forall>l \<in> set ls. plain_line l" "CHR '':'' \<in> set name" "CHR '':'' \<in> set d"
  shows "Headers_get k [d] (announced name (stored v s e ls)) \<noteq> []
    \<and> (\<forall>l \<in> set (Headers_get k [d] (announced name (stored v s e ls))). CHR '':'' \<in> set l)"
  using assms
  by (auto simp: announced_def Headers_replace_def Headers_get_def dict_get_def stored_def filter_empty_conv
      plain_line_def)

lemma announced_value:
  assumes "\<forall>l \<in> set ls. plain_line l" "CHR '':'' \<in> set name" "CHR '':'' \<in> set d"
  shows "\<exists>v'. header_value k d (announced name (stored v s e ls)) = Inr v'"
  using announced_get [OF assms] by (intro header_value_ok) auto

lemma announced_framing:
  assumes "\<forall>l \<in> set ls. plain_line l" "CHR '':'' \<in> set name" "''content-length'' \<notin> set (map line_name ls)"
  shows "\<exists>l. body_framing (announced name (stored v s e ls)) = Inr l"
proof -
  let ?h = "announced name (stored v s e ls)"
  have val: "\<exists>v'. header_value k '':'' ?h = Inr v'" for k
    by (rule announced_value [OF assms(1,2)]) simp
  from val obtain te where te: "header_value ''transfer-encoding'' '':'' ?h = Inr te" by blast
  from val obtain te2 where te2: "header_value ''te'' '':'' ?h = Inr te2" by blast
  have "hdr_data ?h ''content-length'' = None"
    using assms(3) by (simp add: announced_def Headers_replace_def stored_def)
  then have "header_value ''content-length'' '':0'' ?h = Inr ''0''"
    by (simp add: header_value_def first_value_def Headers_get_def py_split1_def py_strip_id is_space_def)
  moreover have "py_int ''0'' = Inr 0"
    by (simp add: py_int_def py_strip_id is_space_def py_isdigit_def is_digit_def nat_of_dec_def digit_val_def)
  ultimately show ?thesis using te te2 by (cases "te = []") (simp_all add: body_framing_def)
qed

lemma announced_upgrade:
  assumes "\<forall>l \<in> set ls. plain_line l" "CHR '':'' \<in> set name"
  shows "\<exists>u. upgrade_value (announced name (stored v s e ls)) = Inr u"
proof -
  let ?h = "announced name (stored v s e ls)"
  have val: "\<exists>v'. header_value k '':'' ?h = Inr v'" for k
    by (rule announced_value [OF assms]) simp
  from val obtain c where c: "header_value ''connection'' '':'' ?h = Inr c" by blast
  from val obtain u where u: "header_value ''upgrade'' '':'' ?h = Inr u" by blast
  show ?thesis using c u by (cases "py_lower c = ''upgrade''") (simp_all add: upgrade_value_def)
qed

lemma extractHost_stored:
  assumes "\<forall>l \<in> set ls. plain_line l"
  shows "\<exists>x. HTTP_extractHost (stored v s e ls) = Inr x"
proof -
  have "\<exists>v'. header_value ''host'' '':'' (stored v s e ls) = Inr v'"
    by (rule header_value_ok)
       (use assms in \<open>auto simp: Headers_get_def dict_get_def stored_def filter_empty_conv plain_line_def\<close>)
  then show ?thesis by (auto simp: HTTP_extractHost_def)
qed


lemma HTTP_parse_plain:
  assumes "Request_open text = Inr r" "CR \<in> set text" "req_remaining r = header_text CRLF ls"
    and "req_host r \<noteq> []" "req_host r \<noteq> ''*''"
    and "\<forall>l \<in> set ls. plain_line l \<and> line_name l \<noteq> []" "''content-length'' \<notin> set (map line_name ls)"
  shows "\<exists>m name. HTTP_parse True (HTTP_init ver [] masked expect text ip) = (True, m)
    \<and> msg_host m = Some (req_host r) \<and> msg_port m = Some (req_port r) \<and> msg_request m = Some r
    \<and> msg_headers m = Some (announced name (stored (req_version r) CRLF expect ls)) \<and> msg_separator m = CRLF"
proof -
  let ?st = "stored (req_version r) CRLF expect ls"
  define name where "name = ''X-Proxy-Version: ExaProxy version '' @ ver"
  have plain: "\<forall>l \<in> set ls. plain_line l" using assms(6) by blast
  have colon: "CHR '':'' \<in> set name" by (simp add: name_def)
  obtain x where x: "HTTP_extractHost ?st = Inr x" using extractHost_stored [OF plain] by blast
  obtain l where l: "body_framing (announced name ?st) = Inr l"
    using announced_framing [OF plain colon assms(7)] by blast
  obtain u where u: "upgrade_value (announced name ?st) = Inr u"
    using announced_upgrade [OF plain colon] by blast
  have hp: "Headers_parse True (header_text CRLF ls) (Headers_init (req_version r) CRLF expect) = Inr ?st"
    using Headers_parse_plain [OF _ assms(6)] by simp
  have "run_steps (HTTP_steps True) (HTTP_init ver [] masked expect text ip)
    = (None, (HTTP_init ver [] masked expect text ip)
        \<lparr>msg_separator := CRLF, msg_request := Some r, msg_headers := Some (announced name ?st),
         msg_headerhost := Some x, msg_host := Some (req_host r), msg_port := Some (req_port r),
         msg_content_length := Some l,
         msg_url := Some (req_host r @ (if req_port r \<noteq> 80 then '':'' @ show_nat (req_port r) else []) @ req_path r),
         msg_url_noport := Some (req_host r @ req_path r), msg_upgrade := Some u\<rparr>)"
    using assms(1-5) hp x l u
    by (simp add: HTTP_steps_def HTTP_init_def step_separator_def step_request_def step_headers_def
        step_headerhost_def step_host_def step_port_def step_check_host_def step_announce_def step_client_def
        step_mask_def step_framing_def step_url_def step_upgrade_def announced_def name_def Let_def)
  then show ?thesis by (auto simp: HTTP_parse_def)
qed

lemma Headers_str_announced:
  assumes "''x-proxy-version'' \<notin> set (map line_name ls)" "distinct (map line_name ls)"
  shows "Headers_str (announced name (stored v s e ls)) = Inr (py_join s ls)"
proof -
  have "''x-proxy-version'' \<notin> set (hdr_order (stored v s e ls))" using assms(1) by (simp add: stored_def)
  then have "map_res (\<lambda>k. seq (or_raise KeyError (hdr_data (announced name (stored v s e ls)) k)) g) (hdr_order (stored v s e ls))
      = map_res (\<lambda>k. seq (or_raise KeyError (hdr_data (stored v s e ls) k)) g) (hdr_order (stored v s e ls))"
    for g :: "string list \<Rightarrow> string res"
    by (intro map_res_cong) (auto simp: announced_def Headers_replace_def)
  then have "Headers_str (announced name (stored v s e ls)) = Headers_str (stored v s e ls)"
    by (simp add: Headers_str_def) (simp add: announced_def Headers_replace_def)
  then show ?thesis using assms(2) by (simp add: Headers_str_stored group_by_name_distinct)
qed

text \<open>C2: A transparent proxy without a forward header configured, given a request in absolute form (any method but CONNECT, an http URI with a plain host, version 1.0 or 1.1) with plain header lines that end in CRLF, each with a name, no name twice, none of them Content-Length or X-Proxy-Version: the request is validated and forwarded to the host and port of the URI with the same header lines, byte for byte and in order, under the request line in origin form.\<close>

theorem HTTP_forwards:
  assumes "token method" "token host" "plain_host host" "host \<noteq> ''*''"
    and "list_all (\<lambda>c. \<not> is_space c) path" "version \<in> {''1.0'', ''1.1''}" "py_upper method \<noteq> ''CONNECT''"
    and "\<forall>l \<in> set ls. plain_line l \<and> line_name l \<noteq> []" "distinct (map line_name ls)"
    and "set (map line_name ls) \<inter> {''content-length'', ''x-proxy-version''} = {}"
  shows "\<exists>m. HTTP_parse True (HTTP_init ver [] masked expect
            (request_line method (''http://'' @ host @ port_text port @ ''/'' @ path) (''HTTP/'' @ version)
               @ LF # header_text CRLF ls) ip) = (True, m)
         \<and> msg_host m = Some host \<and> msg_port m = Some (case port of None \<Rightarrow> 80 | Some n \<Rightarrow> n)
         \<and> HTTP_str m = Inr (py_upper method @ '' /'' @ path @ '' HTTP/'' @ version @ CRLF
                              @ py_join CRLF ls @ CRLF @ CRLF)"
proof -
  let ?text = "request_line method (''http://'' @ host @ port_text port @ ''/'' @ path) (''HTTP/'' @ version)
                 @ LF # header_text CRLF ls"
  let ?m = "HTTP_init ver [] masked expect ?text ip"
  from Request_open_absolute [OF assms(1,2,3,5,6,7), of port "header_text CRLF ls"] obtain r where
    r: "Request_open ?text = Inr r" "req_host r = host" "req_port r = (case port of None \<Rightarrow> 80 | Some n \<Rightarrow> n)"
      "req_version r = version" "req_remaining r = header_text CRLF ls"
      "Request_str r = py_upper method @ '' /'' @ path @ '' HTTP/'' @ version" by blast
  have cr: "CR \<in> set ?text" by (simp add: request_line_def)
  have host: "req_host r \<noteq> []" "req_host r \<noteq> ''*''" using assms(2,4) r(2) by (simp_all add: token_def)
  have names: "''content-length'' \<notin> set (map line_name ls)" "''x-proxy-version'' \<notin> set (map line_name ls)"
    using assms(10) by auto
  from HTTP_parse_plain [OF r(1) cr r(5) host assms(8) names(1), of ver masked expect ip] obtain m name where
    m: "HTTP_parse True ?m = (True, m)" "msg_host m = Some (req_host r)" "msg_port m = Some (req_port r)"
      "msg_request m = Some r" "msg_headers m = Some (announced name (stored (req_version r) CRLF expect ls))"
      "msg_separator m = CRLF" by blast
  have "HTTP_str m = Inr (Request_str r @ CRLF @ py_join CRLF ls @ CRLF @ CRLF)"
    using m r(4) assms(6) Headers_str_announced [OF names(2) assms(9)] by (auto simp: HTTP_str_def)
  then show ?thesis using m r by simp
qed

theorem HTTP_forwards_witness:
  "\<exists>m. HTTP_parse True (HTTP_init ''1.2'' [] False True
            (request_line ''GET'' (''http://'' @ ''exa.net'' @ port_text None @ ''/'' @ ''a/b'') (''HTTP/'' @ ''1.1'')
               @ LF # header_text CRLF [''Host: exa.net'', ''TE: x'']) ''127.0.0.1'') = (True, m)
         \<and> msg_host m = Some ''exa.net'' \<and> msg_port m = Some (case None of None \<Rightarrow> 80 | Some n \<Rightarrow> n)
         \<and> HTTP_str m = Inr (py_upper ''GET'' @ '' /'' @ ''a/b'' @ '' HTTP/'' @ ''1.1'' @ CRLF
                              @ py_join CRLF [''Host: exa.net'', ''TE: x''] @ CRLF @ CRLF)"
proof (rule HTTP_forwards)
  show "token ''GET''" "token ''exa.net''" "plain_host ''exa.net''" "''exa.net'' \<noteq> ''*''"
    "list_all (\<lambda>c. \<not> is_space c) ''a/b''" "''1.1'' \<in> {''1.0'', ''1.1''}"
    by (simp_all add: token_def plain_host_def is_space_def)
  show "py_upper ''GET'' \<noteq> ''CONNECT''" by (simp add: py_upper_def)
  have names: "map line_name [''Host: exa.net'', ''TE: x''] = [''host'', ''te'']"
    by (simp add: line_name_def py_strip_def py_lstrip_def py_rstrip_def is_space_def py_lower_def to_lower_def
        char_of_def bit_0)
  show "\<forall>l \<in> set [''Host: exa.net'', ''TE: x'']. plain_line l \<and> line_name l \<noteq> []"
    using names by (simp add: plain_line_def is_space_def)
  show "distinct (map line_name [''Host: exa.net'', ''TE: x''])"
    "set (map line_name [''Host: exa.net'', ''TE: x'']) \<inter> {''content-length'', ''x-proxy-version''} = {}"
    unfolding names by simp_all
qed

definition reads_request :: "step \<Rightarrow> bool" where
  "reads_request f \<longleftrightarrow> (\<forall>m m'. f m = Inr m' \<longrightarrow> msg_request m' = msg_request m
     \<or> (\<exists>r. msg_request m' = Some r \<and> Request_open (msg_raw m) = Inr r))"

lemma reads_request_steps:
  "reads_request step_separator" "reads_request step_request" "reads_request (step_headers t)"
  "reads_request step_headerhost" "reads_request step_host" "reads_request step_port"
  "reads_request step_check_host" "reads_request step_announce" "reads_request step_client"
  "reads_request step_mask" "reads_request step_framing" "reads_request step_url" "reads_request step_upgrade"
  by (auto simp: reads_request_def step_separator_def step_request_def step_headers_def step_headerhost_def
        step_port_def step_check_host_def step_announce_def Let_def seq_eq_Inr_iff
        split: if_splits dest!: step_shapes)

lemma request_from_text:
  assumes "f \<in> set (HTTP_steps t)" "f m = Inr m'"
  shows "msg_request m' = msg_request m \<or> (\<exists>r. msg_request m' = Some r \<and> Request_open (msg_raw m) = Inr r)"
proof -
  have "\<forall>f \<in> set (HTTP_steps t). reads_request f"
    unfolding HTTP_steps_def by (simp add: reads_request_steps)
  with assms show ?thesis unfolding reads_request_def by blast
qed

lemma HTTP_parse_request:
  assumes "HTTP_parse t (HTTP_init version forward masked expect text ip) = (True, m)"
  shows "\<exists>r. msg_request m = Some r \<and> LF \<notin> set (req_method r) \<and> LF \<notin> set (req_version r)"
    and "msg_host m \<noteq> None" "msg_path m = None"
proof -
  let ?m = "HTTP_init version forward masked expect text ip"
  from assms obtain m' where m': "run_steps (HTTP_steps t) ?m = (None, m')" "m = m'\<lparr>msg_validated := True\<rparr>"
    by (auto simp: HTTP_parse_def split: prod.splits option.splits)
  have "message_ready m" using HTTP_steps_ready [OF m'(1)] m'(2) by (simp add: HTTP_init_def)
  then show "msg_host m \<noteq> None" by (auto simp: message_ready_def)
  have "msg_path (snd (run_steps (HTTP_steps t) ?m)) = None"
    by (rule run_steps_preserves) (use steps_keep_reply in \<open>auto simp: HTTP_init_def\<close>)
  then show "msg_path m = None" using m' by simp
  have inv: "\<forall>r. msg_request (snd (run_steps (HTTP_steps t) ?m)) = Some r \<longrightarrow>
      LF \<notin> set (req_method r) \<and> LF \<notin> set (req_version r)"
    by (rule run_steps_preserves) (use request_from_text Request_open_no_LF in \<open>fastforce simp: HTTP_init_def\<close>)+
  show "\<exists>r. msg_request m = Some r \<and> LF \<notin> set (req_method r) \<and> LF \<notin> set (req_version r)"
    using inv \<open>message_ready m\<close> m' by (auto simp: message_ready_def)
qed

text \<open>
  \<open>redirect\<close> cannot succeed on a message the parser produced: without a path it reads an
  attribute that is never assigned, and with a path on one line it parses a request line that has no
  line end.
\<close>

theorem HTTP_redirect_raises:
  assumes "HTTP_parse transparent (HTTP_init version forward masked expect text ip) = (True, m)"
    and "case path of None \<Rightarrow> True | Some p \<Rightarrow> LF \<notin> set p"
  shows "fst (HTTP_redirect host path m) = Some (if path = None then AttributeError else ValueError)"
proof -
  from HTTP_parse_request [OF assms(1)] obtain r h where
    r: "msg_request m = Some r" "LF \<notin> set (req_method r)" "LF \<notin> set (req_version r)"
      "msg_host m = Some h" "msg_path m = None" by blast
  obtain h' where h': "(case host of Some h \<Rightarrow> Some h | None \<Rightarrow> msg_host m) = Some h'"
    using r(4) by (cases host) auto
  show ?thesis
  proof (cases path)
    case None
    then show ?thesis using r(5) h' by (simp add: HTTP_redirect_def)
  next
    case (Some p)
    have "Request_open (req_method r @ '' '' @ p @ '' HTTP/'' @ req_version r) = Inl ValueError"
      using assms(2) r(2,3) Some by (simp add: Request_open_def Request_init_def)
    then show ?thesis using Some r h' by (simp add: HTTP_redirect_def)
  qed
qed


theorem HTTP_redirect_raises_witness:
  "\<exists>m. HTTP_parse True (HTTP_init ''1.2'' [] False True
            (request_line ''GET'' (''http://'' @ ''exa.net'' @ port_text None @ ''/'' @ [])  (''HTTP/'' @ ''1.1'')
               @ LF # header_text CRLF []) ''127.0.0.1'') = (True, m)
     \<and> fst (HTTP_redirect None (Some ''/x'') m) = Some ValueError"
proof -
  have req: "token ''GET''" "token ''exa.net''" "plain_host ''exa.net''" "list_all (\<lambda>c. \<not> is_space c) []"
    "''1.1'' \<in> {''1.0'', ''1.1''}" "py_upper ''GET'' \<noteq> ''CONNECT''"
    by (simp_all add: token_def plain_host_def is_space_def py_upper_def)
  let ?text = "request_line ''GET'' (''http://'' @ ''exa.net'' @ port_text None @ ''/'' @ []) (''HTTP/'' @ ''1.1'')
               @ LF # header_text CRLF []"
  from Request_open_absolute [OF req, of None "header_text CRLF []"] obtain r where
    r: "Request_open ?text = Inr r" "req_host r = ''exa.net''" "req_remaining r = header_text CRLF []" by blast
  have "CR \<in> set ?text" by (simp add: request_line_def)
  from HTTP_parse_plain [OF r(1) this r(3), of "''1.2''" False True "''127.0.0.1''"] r(2) obtain m where
    m: "HTTP_parse True (HTTP_init ''1.2'' [] False True ?text ''127.0.0.1'') = (True, m)" by auto
  have "fst (HTTP_redirect None (Some ''/x'') m)
      = Some (if Some ''/x'' = None then AttributeError else ValueError)"
    by (rule HTTP_redirect_raises [OF m]) simp
  with m show ?thesis by auto
qed

end
