(* ===== verification/ProxyProtocol.thy ===== *)
theory ProxyProtocol
  imports NetAddr
begin

text \<open>
  \<open>lib/exaproxy/util/proxy.py\<close>: the reader of the line that a load balancer puts in front of a
  connection (the PROXY protocol), with the address checks it makes. \<open>socket.inet_aton\<close> is written
  as the C library has it: one to four parts, each decimal, octal or hexadecimal, and white space may
  follow.
\<close>

section \<open>Addresses\<close>

definition is_octdigit :: "char \<Rightarrow> bool" where
  "is_octdigit c \<longleftrightarrow> (let n = of_char c :: nat in 48 \<le> n \<and> n \<le> 55)"

text \<open>\<open>strtoul(s, &end, 0)\<close> on a string that begins with a digit: the value and the rest.\<close>

definition strtoul0 :: "string \<Rightarrow> nat \<times> string" where
  "strtoul0 s =
     (case s of
        c # x # d # rest \<Rightarrow>
          if c = CHR ''0'' \<and> x \<in> {CHR ''x'', CHR ''X''} \<and> is_hexdigit d then
            (nat_of_hex (takeWhile is_hexdigit (d # rest)), dropWhile is_hexdigit (d # rest))
          else if c = CHR ''0'' then
            (foldl (\<lambda>n c. 8 * n + digit_val c) 0 (takeWhile is_octdigit s), dropWhile is_octdigit s)
          else (nat_of_dec (takeWhile is_digit s), dropWhile is_digit s)
      | c # rest \<Rightarrow>
          if c = CHR ''0'' then
            (foldl (\<lambda>n c. 8 * n + digit_val c) 0 (takeWhile is_octdigit s), dropWhile is_octdigit s)
          else (nat_of_dec (takeWhile is_digit s), dropWhile is_digit s)
      | [] \<Rightarrow> (0, []))"

text \<open>
  The loop of \<open>inet_aton\<close>; \<open>parts\<close> are the values of the parts before this one, each one byte of the
  address, and the last part fills the bytes that are left.
\<close>

fun inet_aton_loop :: "nat \<Rightarrow> nat list \<Rightarrow> string \<Rightarrow> nat option" where
  "inet_aton_loop 0 parts s = None"
| "inet_aton_loop (Suc left) parts s =
     (if s = [] \<or> \<not> is_digit (hd s) then None
      else
        let (val, rest) = strtoul0 s;
            address = foldr (\<lambda>(i, p) n. p * 256 ^ (3 - i) + n) (enumerate 0 parts) val;
            fits = (val \<le> [0xffffffff, 0xffffff, 0xffff, 0xff] ! length parts)
        in
        if val > 0xffffffff then None
        else
          case rest of
            c # cs \<Rightarrow>
              if c = CHR ''.'' then
                if length parts > 2 \<or> val > 0xff then None else inet_aton_loop left (parts @ [val]) cs
              else if \<not> is_space c then None
              else if fits then Some address else None
          | [] \<Rightarrow> if fits then Some address else None)"

text \<open>A fourth part cannot be followed by another, so four rounds are enough.\<close>

definition inet_aton :: "string \<Rightarrow> nat option" where
  "inet_aton s = inet_aton_loop 4 [] s"

text \<open>
  The validators return the address they are given or \<open>None\<close>. They are called with \<open>None\<close> too, on
  which \<open>socket\<close> raises \<open>TypeError\<close>, as it does on a NUL byte; both are caught.
\<close>

definition validate_ip4 :: "string option \<Rightarrow> string option" where
  "validate_ip4 address =
     (case address of None \<Rightarrow> None
      | Some a \<Rightarrow> if CHR 0x00 \<notin> set a \<and> inet_aton a \<noteq> None then Some a else None)"

definition validate_ip6 :: "string option \<Rightarrow> string option" where
  "validate_ip6 address =
     (case address of None \<Rightarrow> None
      | Some a \<Rightarrow> if CHR 0x00 \<notin> set a \<and> inet_pton6 a \<noteq> None then Some a else None)"

definition invalidate :: "string option \<Rightarrow> string option" where
  "invalidate address = None"

definition ip_validator :: "string option \<Rightarrow> string option \<Rightarrow> string option" where
  "ip_validator fproto =
     (if fproto = Some ''TCP4'' then validate_ip4
      else if fproto = Some ''TCP6'' then validate_ip6
      else invalidate)"

section \<open>The parser\<close>

text \<open>The client address and what follows the line; both are \<open>None\<close> when the line is not valid.\<close>

definition ProxyProtocol_parse :: "string \<Rightarrow> string option \<times> string option" where
  "ProxyProtocol_parse header =
     (let (proxy_line, request) = (case py_split1 CRLF header of Some (l, r) \<Rightarrow> (l, Some r) | None \<Rightarrow> ([], None));
          (magic, fproto, source, request) =
            (case split_on (CHR '' '') proxy_line of
               [magic, fproto, source, destination, sport, dport] \<Rightarrow>
                 (Some magic, Some fproto, Some source, request)
             | _ \<Rightarrow> (None, None, None, None));
          (source, request) = (if magic \<noteq> Some ''PROXY'' then (None, None) else (source, request))
      in (ip_validator fproto source, request))"

section \<open>Facts\<close>

text \<open>The line a balancer sends for an IPv4 connection.\<close>

definition proxy_line4 :: "string \<Rightarrow> string \<Rightarrow> nat \<Rightarrow> nat \<Rightarrow> string" where
  "proxy_line4 source destination sport dport =
     ''PROXY TCP4 '' @ source @ '' '' @ destination @ '' '' @ show_nat sport @ '' '' @ show_nat dport"

definition dotted :: "nat \<Rightarrow> nat \<Rightarrow> nat \<Rightarrow> nat \<Rightarrow> string" where
  "dotted a b c d = show_nat a @ ''.'' @ show_nat b @ ''.'' @ show_nat c @ ''.'' @ show_nat d"

lemma show_nat_head: "n > 0 \<Longrightarrow> hd (show_nat n) \<noteq> CHR ''0''"
proof (induction n rule: show_nat.induct)
  case (1 n)
  show ?case
  proof (cases "n < 10")
    case True
    have "digit_val (digit_char n) \<noteq> 0" using digit_char_props [of n] True 1(2) by simp
    then have "digit_char n \<noteq> CHR ''0''" by (auto simp: digit_val_def)
    with True show ?thesis by (simp add: show_nat.simps [of n])
  next
    case False
    then have "hd (show_nat (n div 10)) \<noteq> CHR ''0''" using 1 by simp
    with False show ?thesis using show_nat_digits by (simp add: show_nat.simps [of n])
  qed
qed

lemma takeWhile_digits:
  assumes "rest = [] \<or> \<not> is_digit (hd rest)"
  shows "takeWhile is_digit (show_nat n @ rest) = show_nat n" "dropWhile is_digit (show_nat n @ rest) = rest"
proof -
  have all: "\<forall>c \<in> set (show_nat n). is_digit c" using show_nat_digits [of n] by (simp add: list_all_iff)
  show "takeWhile is_digit (show_nat n @ rest) = show_nat n"
    using all assms by (cases rest) (auto simp: takeWhile_append)
  show "dropWhile is_digit (show_nat n @ rest) = rest"
    using all assms by (cases rest) (auto simp: dropWhile_append)
qed

lemma strtoul0_show_nat:
  assumes "rest = [] \<or> hd rest = CHR ''.''"
  shows "strtoul0 (show_nat n @ rest) = (n, rest)"
proof (cases "n = 0")
  case True
  have "show_nat 0 = ''0''" by (simp add: show_nat.simps digit_char_def char_of_def bit_0)
  with True assms show ?thesis
    by (cases rest; cases "tl rest") (auto simp: strtoul0_def is_octdigit_def digit_val_def)
next
  case False
  have r: "rest = [] \<or> \<not> is_digit (hd rest)" using assms by (auto simp: is_digit_def)
  obtain c cs where ccs: "show_nat n = c # cs" using show_nat_digits [of n] by (cases "show_nat n") auto
  have "c \<noteq> CHR ''0''" using show_nat_head [of n] False ccs by simp
  then have "strtoul0 (show_nat n @ rest)
      = (nat_of_dec (takeWhile is_digit (show_nat n @ rest)), dropWhile is_digit (show_nat n @ rest))"
    unfolding ccs by (auto simp: strtoul0_def split: list.splits)
  then show ?thesis using takeWhile_digits [OF r] by simp
qed

lemma inet_aton_dotted:
  assumes "a < 256" "b < 256" "c < 256" "d < 256"
  shows "inet_aton (dotted a b c d) = Some (a * 256 ^ 3 + b * 256 ^ 2 + c * 256 + d)"
proof -
  have hd: "is_digit (hd (show_nat n @ rest))" "show_nat n @ rest \<noteq> []" for n rest
    using show_nat_digits [of n] by (cases "show_nat n"; simp)+
  have st: "strtoul0 (show_nat n @ CHR ''.'' # rest) = (n, CHR ''.'' # rest)" for n rest
    by (rule strtoul0_show_nat) simp
  have last: "strtoul0 (show_nat n) = (n, [])" for n using strtoul0_show_nat [of "[]" n] by simp
  have four: "(4::nat) = Suc (Suc (Suc (Suc 0)))" by simp
  have hd': "is_digit (hd (show_nat n))" "show_nat n \<noteq> []" for n using hd [of n "[]"] by auto
  show ?thesis
    using assms unfolding inet_aton_def dotted_def four
    by (simp add: st last hd hd')
qed

lemma dotted_chars: "x \<in> set (dotted a b c d) \<Longrightarrow> x = CHR ''.'' \<or> is_digit x"
  using show_nat_digits by (auto simp: dotted_def list_all_iff)

lemma proxy_line4_split:
  assumes "CHR '' '' \<notin> set source" "CHR '' '' \<notin> set destination"
  shows "split_on (CHR '' '') (proxy_line4 source destination sport dport)
    = [''PROXY'', ''TCP4'', source, destination, show_nat sport, show_nat dport]"
proof -
  have nosp: "CHR '' '' \<notin> set (show_nat n)" for n
    using show_nat_digits [of n] by (auto simp: list_all_iff is_digit_def)
  then show ?thesis using assms by (simp add: proxy_line4_def split_on_id)
qed

section \<open>Properties\<close>

text \<open>
  the line a load balancer sends for an IPv4 connection is recognised: the address of the client
  is the source address it gives, and everything after the line is kept for the HTTP parser.
\<close>

theorem ProxyProtocol_accepts:
  assumes "a < 256" "b < 256" "c < 256" "d < 256"
    and "CHR '' '' \<notin> set destination" "CR \<notin> set destination"
  shows "ProxyProtocol_parse (proxy_line4 (dotted a b c d) destination sport dport @ CRLF @ request)
    = (Some (dotted a b c d), Some request)"
proof -
  have sp: "CHR '' '' \<notin> set (dotted a b c d)" "CHR 0x00 \<notin> set (dotted a b c d)" "CR \<notin> set (dotted a b c d)"
    using dotted_chars by (auto simp: is_digit_def dest!: dotted_chars)
  have "CR \<notin> set (show_nat n)" for n
    using show_nat_digits [of n] by (auto simp: list_all_iff is_digit_def)
  then have "CR \<notin> set (proxy_line4 (dotted a b c d) destination sport dport)"
    using sp(3) assms(6) by (simp add: proxy_line4_def)
  then have split: "py_split1 CRLF (proxy_line4 (dotted a b c d) destination sport dport @ CRLF @ request)
      = Some (proxy_line4 (dotted a b c d) destination sport dport, request)"
    by (rule py_split1_CRLF)
  show ?thesis
    unfolding ProxyProtocol_parse_def split
    using proxy_line4_split [OF sp(1) assms(5)] inet_aton_dotted [OF assms(1-4)] sp(2)
    by (simp add: ip_validator_def validate_ip4_def)
qed

theorem ProxyProtocol_accepts_witness:
  "ProxyProtocol_parse (proxy_line4 (dotted 10 0 0 7) ''192.168.0.1'' 5000 80 @ CRLF @ ''GET / HTTP/1.0'')
    = (Some (dotted 10 0 0 7), Some ''GET / HTTP/1.0'')"
  by (rule ProxyProtocol_accepts) simp_all

end
