(* ===== verification/HTTPClient.thy ===== *)
theory HTTPClient
  imports ProxyProtocol
begin

text \<open>
  \<open>lib/exaproxy/reactor/client/http.py\<close>: the connection of an HTTP client. The framing of what it
  sends (request headers, bodies of a given length or in chunks), the coroutine that reads it and the
  coroutine that writes to it. A coroutine is a state that says where it is suspended, and a
  function that resumes it with the value sent to it and with what the socket answers.
\<close>

section \<open>Framing\<close>

definition ishex :: "string \<Rightarrow> bool" where
  "ishex s \<longleftrightarrow> s \<noteq> [] \<and> strip_in hexdigits s = []"

text \<open>
  The loop of \<open>checkRequest\<close> over the separators: the request found with what follows it and the
  position, or the position at which the next search starts.
\<close>

fun check_separators :: "string list \<Rightarrow> string \<Rightarrow> int \<Rightarrow> (string \<times> string \<times> int) + int" where
  "check_separators [] r_buffer seek = Inr seek"
| "check_separators (e # es) r_buffer seek =
     (case py_find e (py_from seek r_buffer) of
        None \<Rightarrow> check_separators es r_buffer seek
      | Some pos \<Rightarrow>
          let buff = py_upto (seek + int pos) r_buffer in
          if buff = [] then check_separators es r_buffer seek
          else if count_quotes buff mod 2 = 0 then
            Inl (buff @ e, py_from (seek + int pos + int (length e)) r_buffer, seek)
          else check_separators es r_buffer (seek + int pos + int (length e)))"

definition EOR :: "string list" where
  "EOR = [CRLF @ CRLF, [LF, LF]]"

text \<open>\<open>None\<close> for \<open>None,None,None\<close>: the buffer is longer than allowed. A size of 0 is no limit.\<close>

definition checkRequest :: "string \<Rightarrow> nat \<Rightarrow> int \<Rightarrow> (string \<times> string \<times> int) option" where
  "checkRequest r_buffer max_size seek =
     (case check_separators EOR r_buffer seek of
        Inl r \<Rightarrow> Some r
      | Inr seek' \<Rightarrow>
          if max_size \<noteq> 0 \<and> length r_buffer > max_size then None else Some ([], r_buffer, seek'))"

text \<open>
  \<open>checkChunkSize\<close>: whether more chunks are to come, and the length of the chunks at the start of the
  buffer (\<open>None\<close> when they are not valid).
\<close>

definition chunk_header :: "string \<Rightarrow> string \<times> nat" where
  "chunk_header header =
     (let (h, len_eol) = (if suffix [CR] header then (butlast header, 2) else (header, 1));
          h' = (case py_split1 '';'' h of Some (a, _) \<Rightarrow> a | None \<Rightarrow> h)
      in (h', len_eol))"

function checkChunkSize_loop :: "string \<Rightarrow> nat \<Rightarrow> bool \<times> nat option" where
  "checkChunkSize_loop r_buffer total_len =
     (if r_buffer = [] then (True, Some total_len)
      else
        case py_split1 [LF] r_buffer of
          None \<Rightarrow> if length r_buffer > 6 then (True, None) else (True, Some 0)
        | Some (line, rest) \<Rightarrow>
            let len_header = length line + 1;
                (header, len_eol) = chunk_header line
            in
            if \<not> ishex header then (True, None)
            else
              let len_chunk = nat_of_hex header in
              if len_chunk > 0x100000 then (True, None)
              else if len_chunk = 0 then (False, Some (total_len + len_header))
              else
                let total = len_chunk + len_eol in
                checkChunkSize_loop (drop total rest) (total_len + (total + len_header)))"
  by pat_completeness auto
termination by (relation "measure (\<lambda>(b, _). length b)") (auto dest!: py_split1_Some)

declare checkChunkSize_loop.simps [simp del]

definition checkChunkSize :: "string \<Rightarrow> bool \<times> nat option" where
  "checkChunkSize r_buffer = checkChunkSize_loop r_buffer 0"


section \<open>Reading\<close>

text \<open>
  The results of the functions that read a body: the data (\<open>None\<close> to close the connection), the
  buffer, the mode, the number of bytes still to send and the position of the next search.
\<close>

type_synonym read_state = "string option \<times> string \<times> string \<times> int \<times> int"

definition client_transfer :: "string \<Rightarrow> string \<Rightarrow> int \<Rightarrow> read_state" where
  "client_transfer r_buffer mode nb_to_send =
     (let len = min (int (length r_buffer)) nb_to_send;
          nb_to_send' = nb_to_send - len
      in (Some (py_upto len r_buffer), py_from len r_buffer,
          (if nb_to_send' = 0 then ''new-request'' else mode), nb_to_send', 0))"

definition client_chunked :: "string \<Rightarrow> string \<Rightarrow> int \<Rightarrow> read_state" where
  "client_chunked r_buffer mode nb_to_send =
     (let len = min (int (length r_buffer)) nb_to_send;
          data = py_upto len r_buffer;
          r_buffer' = py_from len r_buffer;
          nb1 = nb_to_send - len;
          (chunked, new_to_send) = checkChunkSize (py_from nb1 r_buffer');
          (data', nb2) = (case new_to_send of Some n \<Rightarrow> (Some data, nb1 + int n) | None \<Rightarrow> (None, nb1));
          mode' = (if \<not> chunked then if nb2 > 0 then ''end-chunk'' else ''new-request'' else mode)
      in (data', r_buffer', mode', nb2, 0))"

text \<open>When the header buffer is empty or a lone carriage return, \<open>seek\<close> has no value.\<close>

definition client_endChunk :: "string \<Rightarrow> string \<Rightarrow> int \<Rightarrow> read_state res" where
  "client_endChunk r_buffer mode nb_to_send =
     (let header_buffer = py_from nb_to_send r_buffer in
      if prefix CRLF header_buffer then Inr (Some [], r_buffer, ''new-request'', nb_to_send + 2, 0)
      else if prefix [LF] header_buffer then Inr (Some [], r_buffer, ''new-request'', nb_to_send + 1, 0)
      else if header_buffer \<noteq> [] \<and> header_buffer \<noteq> [CR]
      then Inr (Some [], r_buffer, ''extra-headers'', nb_to_send, nb_to_send)
      else Inl UnboundLocalError)"

text \<open>The triple of \<open>None\<close> that \<open>checkRequest\<close> returns leaves no buffer: the caller stops there.\<close>

definition client_headers :: "string \<Rightarrow> string \<Rightarrow> int \<Rightarrow> nat \<Rightarrow> int \<Rightarrow> read_state" where
  "client_headers r_buffer mode nb_to_send max_buffer seek =
     (case checkRequest r_buffer max_buffer seek of
        None \<Rightarrow> (None, [], mode, nb_to_send, 0)
      | Some (related, r_buffer', seek') \<Rightarrow>
          if related \<noteq> [] then (Some related, r_buffer', ''new-request'', nb_to_send, 0)
          else (Some related, r_buffer', mode, nb_to_send, seek'))"

text \<open>\<open>process\<close>; in its last branch four values are unpacked into five names.\<close>

definition client_process :: "string \<Rightarrow> string \<Rightarrow> int \<Rightarrow> nat \<Rightarrow> int \<Rightarrow> read_state res" where
  "client_process r_buffer mode nb_to_send max_buffer seek =
     (if mode = ''passthrough'' then Inr (Some r_buffer, [], mode, 0, 0)
      else if mode = ''transfer'' then Inr (client_transfer r_buffer mode nb_to_send)
      else if mode = ''chunked'' then Inr (client_chunked r_buffer mode nb_to_send)
      else if mode = ''end-chunk'' then client_endChunk r_buffer mode nb_to_send
      else if mode = ''extra-headers'' then Inr (client_headers r_buffer mode nb_to_send max_buffer seek)
      else Inl ValueError)"

text \<open>
  \<open>processProxyHeader\<close>: the client address (the empty string when the line is not complete yet), the
  buffer and the mode.
\<close>

definition processProxyHeader :: "string \<Rightarrow> string \<Rightarrow> string option \<times> string option \<times> string" where
  "processProxyHeader r_buffer mode =
     (let r_buffer' = lstrip_in CRLF r_buffer in
      if py_in (CRLF @ CRLF) r_buffer' \<or> py_in [LF, LF] r_buffer'
      then let (client_ip, rest) = ProxyProtocol_parse r_buffer' in (client_ip, rest, ''http'')
      else (Some [], Some r_buffer', mode))"

section \<open>The reading coroutine\<close>

datatype recv_result = Received string | WouldBlock | SocketError

text \<open>
  Where \<open>_read\<close> is suspended: at the \<open>yield\<close> of a request (which waits for the mode and the number
  of bytes), at one of the other \<open>yield\<close>s (which ignore what is sent), after the last one, or dead
  after an exception.
\<close>

datatype read_point = AtRequest | AtData | AtEnd | Dead

record reader =
  rd_buffer :: string
  rd_nb_to_send :: int
  rd_seek :: int
  rd_mode :: string
  rd_point :: read_point
  rd_peer :: string
  rd_max_buffer :: nat

text \<open>The state of the coroutine when the constructor has started it.\<close>

definition client_read_init :: "bool \<Rightarrow> string \<Rightarrow> nat \<Rightarrow> reader" where
  "client_read_init proxied peer max_buffer =
     \<lparr>rd_buffer = [], rd_nb_to_send = 0, rd_seek = 0, rd_mode = (if proxied then ''proxy'' else ''http''),
      rd_point = AtData, rd_peer = peer, rd_max_buffer = max_buffer\<rparr>"

text \<open>
  What a resumption gives: the request and the content it yields (\<open>None\<close> for \<open>[None]\<close>), an exception
  that leaves the coroutine, or a need for more answers of the socket than were given.
\<close>

datatype read_result =
    Yielded "string option" "string option" reader
  | Raised py_error reader
  | Starved

definition read_end :: "reader \<Rightarrow> read_result" where
  "read_end r = Yielded None None (r\<lparr>rd_point := AtEnd\<rparr>)"

text \<open>The part of an iteration after the data has been received and the PROXY line dealt with.\<close>

definition read_dispatch :: "reader \<Rightarrow> read_result" where
  "read_dispatch r =
     (if rd_mode r = ''http'' then
        (case checkRequest (lstrip_in CRLF (rd_buffer r)) (rd_max_buffer r) (rd_seek r) of
           None \<Rightarrow> read_end r
         | Some (http_request, buffer, seek) \<Rightarrow>
             let r' = r\<lparr>rd_buffer := buffer, rd_seek := seek\<rparr> in
             if http_request \<noteq> []
             then Yielded (Some http_request) (Some []) (r'\<lparr>rd_seek := 0, rd_point := AtRequest\<rparr>)
             else Yielded (Some []) (Some []) (r'\<lparr>rd_point := AtData\<rparr>))
      else
        case client_process (rd_buffer r) (rd_mode r) (rd_nb_to_send r) (rd_max_buffer r) (rd_seek r) of
          Inl e \<Rightarrow> Raised e (r\<lparr>rd_point := Dead\<rparr>)
        | Inr (data, buffer, mode, nb, seek) \<Rightarrow>
            let r' = r\<lparr>rd_buffer := buffer, rd_mode := mode, rd_nb_to_send := nb, rd_seek := seek\<rparr> in
            (case data of
               None \<Rightarrow> read_end r'
             | Some d \<Rightarrow> Yielded (Some []) (Some d) (r'\<lparr>rd_point := AtData\<rparr>)))"

text \<open>The inner loop. An iteration that goes round has used up an answer of the socket.\<close>

fun read_loop :: "recv_result list \<Rightarrow> reader \<Rightarrow> read_result" where
  "read_loop answers r =
     (if rd_mode r = ''new-request'' then read_dispatch (r\<lparr>rd_mode := ''http''\<rparr>)
      else if rd_mode r = ''transfer'' \<and> rd_buffer r \<noteq> [] then read_dispatch r
      else
        case answers of
          [] \<Rightarrow> Starved
        | WouldBlock # _ \<Rightarrow> Yielded (Some []) (Some []) (r\<lparr>rd_point := AtData\<rparr>)
        | SocketError # _ \<Rightarrow> read_end r
        | Received new_data # rest \<Rightarrow>
            if new_data = [] then read_end r
            else
              let r1 = r\<lparr>rd_buffer := rd_buffer r @ new_data\<rparr> in
              if rd_mode r1 = ''proxy'' then
                (let (masquerade, buffer, mode) = processProxyHeader (rd_buffer r1) (rd_mode r1);
                     r2 = r1\<lparr>rd_buffer := (case buffer of None \<Rightarrow> [] | Some b \<Rightarrow> b), rd_mode := mode\<rparr>
                 in case masquerade of
                      None \<Rightarrow> read_end r2
                    | Some ip \<Rightarrow> if ip = [] then read_loop rest r2 else read_dispatch (r2\<lparr>rd_peer := ip\<rparr>))
              else read_dispatch r1)"

declare read_loop.simps [simp del]

text \<open>
  \<open>reader.send((mode, remaining))\<close> with what the socket answers meanwhile. After the last
  \<open>yield\<close> the coroutine raises \<open>StopIteration\<close>, which no caller expects; it is \<open>RuntimeError\<close> here.
\<close>

definition client_read :: "string \<Rightarrow> int \<Rightarrow> recv_result list \<Rightarrow> reader \<Rightarrow> read_result" where
  "client_read mode remaining answers r =
     (case rd_point r of
        AtRequest \<Rightarrow> read_loop answers (r\<lparr>rd_mode := mode, rd_nb_to_send := remaining\<rparr>)
      | AtData \<Rightarrow> read_loop answers r
      | AtEnd \<Rightarrow> Raised RuntimeError (r\<lparr>rd_point := Dead\<rparr>)
      | Dead \<Rightarrow> Raised RuntimeError r)"

definition client_readData :: "recv_result list \<Rightarrow> reader \<Rightarrow> read_result" where
  "client_readData answers r = client_read ''new-request'' 0 answers r"

definition client_readRelated :: "string \<Rightarrow> int \<Rightarrow> recv_result list \<Rightarrow> reader \<Rightarrow> read_result" where
  "client_readRelated mode remaining answers r =
     client_read (if mode = [] then ''new-request'' else mode) remaining answers r"


section \<open>The writing coroutine\<close>

datatype send_result = Sent nat | SendBlocked | SendError

text \<open>
  Where \<open>_write\<close> is: not started (only \<open>None\<close> can be sent then), suspended at the first \<open>yield\<close> (which waits for a file name), at the one after
  the file has been read (\<open>WaitHeader\<close>), at the one that waits for the first data, in the loop, at
  the \<open>yield None\<close> that closes the connection, and after it.
\<close>

datatype write_point = Unstarted | WaitFile | WaitHeader | WaitFirst | InLoop | Closing | Closed

text \<open>\<open>w_ipv4\<close> is the client's \<open>ipv4\<close>, \<open>w_found\<close> is the local \<open>found\<close> (whether it is the tuple), \<open>w_file\<close> the local \<open>file_data\<close>.\<close>

record writer =
  w_ipv4 :: bool
  w_point :: write_point
  w_buffer :: string
  w_finished :: bool
  w_found :: bool
  w_file :: "string option"

text \<open>
  The tuple yielded: whether data is buffered, whether there was some, and the bytes sent over IPv4
  and over IPv6.
\<close>

type_synonym write_status = "(bool \<times> bool \<times> nat \<times> nat) option"

definition write_status :: "writer \<Rightarrow> bool \<Rightarrow> bool \<Rightarrow> nat \<Rightarrow> write_status" where
  "write_status w buffered had_buffer sent =
     Some (buffered, had_buffer, if w_ipv4 w then sent else 0, if w_ipv4 w then 0 else sent)"

text \<open>\<open>startData\<close> makes a new coroutine; the buffer is the client's and stays.\<close>

definition write_init :: "bool \<Rightarrow> string \<Rightarrow> writer" where
  "write_init ipv4 buffer =
     \<lparr>w_ipv4 = ipv4, w_point = WaitFile, w_buffer = buffer, w_finished = False, w_found = False, w_file = None\<rparr>"

definition found_status :: "writer \<Rightarrow> write_status" where
  "found_status w = (if w_found w then Some (True, False, 0, 0) else None)"

text \<open>
  One iteration of the loop with the data sent to the coroutine. \<open>sock.send\<close> is called with the
  whole buffer, when there was none or the data is empty.
\<close>

definition write_iteration :: "string option \<Rightarrow> send_result \<Rightarrow> writer \<Rightarrow> (write_status \<times> nat \<times> writer) res" where
  "write_iteration data answer w =
     (let had_buffer = (w_buffer w \<noteq> []);
          buffer = (case data of Some d \<Rightarrow> w_buffer w @ d | None \<Rightarrow> w_buffer w);
          finished = (w_finished w \<or> data = None);
          w1 = w\<lparr>w_finished := finished\<rparr>
      in if finished \<and> buffer = [] then Inr (None, 0, w1\<lparr>w_point := Closing\<rparr>)
         else if \<not> had_buffer \<or> data = Some [] then
           (case answer of
              Sent n \<Rightarrow>
                let left = drop n buffer in
                Inr (write_status w (left \<noteq> [] \<or> finished) had_buffer n, min n (length buffer),
                     w1\<lparr>w_buffer := left, w_point := InLoop\<rparr>)
            | SendBlocked \<Rightarrow>
                if data = None then Inl TypeError
                else Inr (write_status w (buffer \<noteq> [] \<or> finished) had_buffer 0, 0,
                          w1\<lparr>w_buffer := buffer, w_point := InLoop\<rparr>)
            | SendError \<Rightarrow> Inr (None, 0, w1\<lparr>w_buffer := buffer, w_point := Closing\<rparr>))
         else Inr (write_status w True had_buffer 0, 0, w1\<lparr>w_buffer := buffer, w_point := InLoop\<rparr>))"

text \<open>
  \<open>writer.send(data)\<close>: what is yielded, the number of bytes the socket took, and the state. The file
  is read when its name is sent: \<open>file\<close> is its content, \<open>None\<close> when it cannot be read, and then
  \<open>file_data\<close> has no value. \<open>StopIteration\<close> is \<open>RuntimeError\<close>, as for reading.
\<close>

definition write_send :: "string option \<Rightarrow> string option \<Rightarrow> send_result \<Rightarrow> writer \<Rightarrow> (write_status \<times> nat \<times> writer) res" where
  "write_send file data answer w =
     (case w_point w of
        Unstarted \<Rightarrow>
          (case data of None \<Rightarrow> Inr (None, 0, w\<lparr>w_point := WaitFile\<rparr>) | Some _ \<Rightarrow> Inl TypeError)
      | WaitFile \<Rightarrow>
          (case data of
             None \<Rightarrow> Inr (None, 0, w\<lparr>w_point := WaitFirst, w_found := False\<rparr>)
           | Some filename \<Rightarrow>
               let w' = w\<lparr>w_point := WaitHeader, w_found := (file \<noteq> None), w_file := file\<rparr> in
               Inr (found_status w', 0, w'))
      | WaitHeader \<Rightarrow>
          (case data of
             None \<Rightarrow> Inl (if w_file w = None then UnboundLocalError else TypeError)
           | Some header \<Rightarrow>
               seq (or_raise UnboundLocalError (w_file w)) (\<lambda>content.
               let w' = w\<lparr>w_point := WaitFirst, w_buffer := w_buffer w @ header @ content, w_file := Some []\<rparr> in
               Inr (found_status w', 0, w')))
      | WaitFirst \<Rightarrow> write_iteration data answer (w\<lparr>w_finished := False\<rparr>)
      | InLoop \<Rightarrow> write_iteration data answer w
      | Closing \<Rightarrow> Inr (None, 0, w\<lparr>w_point := Closed\<rparr>)
      | Closed \<Rightarrow> Inl RuntimeError)"

datatype start_command = Stream "string option" | Close "string option" | File string string | OtherCommand

text \<open>
  \<open>startData\<close>, with the answer of the socket to the first write: the result of the write, the bytes
  taken and the new coroutine.
\<close>

definition client_startData :: "start_command \<Rightarrow> string option \<Rightarrow> send_result \<Rightarrow> bool \<Rightarrow> string \<Rightarrow> (write_status \<times> nat \<times> writer) res" where
  "client_startData command file answer ipv4 buffer =
     (let w0 = write_init ipv4 buffer in
      case command of
        Stream data \<Rightarrow>
          seq (write_send file None answer w0) (\<lambda>(_, _, w1). write_send file data answer w1)
      | Close data \<Rightarrow>
          seq (write_send file None answer w0) (\<lambda>(_, _, w1).
          seq (write_send file data answer w1) (\<lambda>(res, sent, w2).
          seq (write_send file None answer w2) (\<lambda>(_, sent', w3).
          Inr (res, sent + sent', w3))))
      | File header filename \<Rightarrow>
          seq (write_send file (Some filename) answer w0) (\<lambda>(res, _, w1).
          seq (write_send file (Some header) answer w1) (\<lambda>(_, _, w2).
          seq (write_send file None answer w2) (\<lambda>(_, sent, w3).
          Inr (res, sent, w3))))
      | OtherCommand \<Rightarrow> Inr (None, 0, w0))"


section \<open>Facts on the framing\<close>

lemma ishex_iff: "ishex s \<longleftrightarrow> s \<noteq> [] \<and> set s \<subseteq> set hexdigits"
  by (simp add: ishex_def strip_in_Nil_iff)

lemma hexdigits_plain: "LF \<notin> set hexdigits" "CR \<notin> set hexdigits" "CHR '';'' \<notin> set hexdigits"
  by (simp_all add: hexdigits_def)

lemma show_hex_plain: "LF \<notin> set (show_hex n)" "CR \<notin> set (show_hex n)" "CHR '';'' \<notin> set (show_hex n)"
  using show_hex_digits [of n] hexdigits_plain by blast+

text \<open>A chunk as it is sent, and the last chunk.\<close>

definition encode_chunk :: "string \<Rightarrow> string" where
  "encode_chunk d = show_hex (length d) @ CRLF @ d @ CRLF"

definition last_chunk :: string where
  "last_chunk = ''0'' @ CRLF"

lemma chunk_header_show_hex [simp]: "chunk_header (show_hex n @ [CR]) = (show_hex n, 2)"
  using show_hex_plain [of n] by (simp add: chunk_header_def suffix_def)

lemma ishex_show_hex [simp]: "ishex (show_hex n)"
  by (simp add: ishex_iff show_hex_digits)

lemma split_chunk: "py_split1 [LF] (show_hex n @ CRLF @ b) = Some (show_hex n @ [CR], b)"
proof -
  have "LF \<notin> set (show_hex n @ [CR])" using show_hex_plain by simp
  from py_split1_char [OF this, of b] show ?thesis by simp
qed

lemma checkChunkSize_line:
  assumes "k \<noteq> 0" "k \<le> 0x100000"
  shows "checkChunkSize_loop (show_hex k @ CRLF @ r) n
    = checkChunkSize_loop (drop (k + 2) r) (n + (k + 2 + (length (show_hex k) + 2)))"
proof -
  have ne: "show_hex k @ CRLF @ r \<noteq> []" by simp
  have len: "length (show_hex k @ [CR]) + 1 = length (show_hex k) + 2" by simp
  have "\<not> k > 0x100000" using assms(2) by linarith
  then show ?thesis
    unfolding checkChunkSize_loop.simps [of "show_hex k @ CRLF @ r" n] split_chunk option.case prod.case
      if_not_P [OF ne] chunk_header_show_hex Let_def len nat_of_hex_show_hex
    using assms(1) by simp
qed

lemma checkChunkSize_chunk:
  assumes "d \<noteq> []" "length d \<le> 0x100000"
  shows "checkChunkSize_loop (encode_chunk d @ b) n = checkChunkSize_loop b (n + length (encode_chunk d))"
proof -
  have eq: "encode_chunk d @ b = show_hex (length d) @ CRLF @ (d @ CRLF @ b)" by (simp add: encode_chunk_def)
  have rest: "drop (length d + 2) (d @ CRLF @ b) = b" by simp
  have len: "length d + 2 + (length (show_hex (length d)) + 2) = length (encode_chunk d)"
    by (simp add: encode_chunk_def)
  have "length d \<noteq> 0" using assms(1) by simp
  from checkChunkSize_line [OF this assms(2), of "d @ CRLF @ b" n] show ?thesis
    unfolding eq rest len .
qed

lemma checkChunkSize_last: "checkChunkSize_loop (last_chunk @ b) n = (False, Some (n + length last_chunk))"
proof -
  have "show_hex 0 = ''0''" by (simp add: show_hex.simps hex_char_def)
  then have "last_chunk @ b = show_hex 0 @ CRLF @ b" by (simp add: last_chunk_def)
  then show ?thesis
    using split_chunk [of 0 b] by (subst checkChunkSize_loop.simps) (simp add: last_chunk_def)
qed

lemma checkChunkSize_chunks:
  assumes "\<forall>d \<in> set ds. d \<noteq> [] \<and> length d \<le> 0x100000"
  shows "checkChunkSize_loop (concat (map encode_chunk ds) @ b) n
    = checkChunkSize_loop b (n + length (concat (map encode_chunk ds)))"
  using assms by (induction ds arbitrary: n) (simp_all add: checkChunkSize_chunk add.assoc)

section \<open>Facts on the writer\<close>

text \<open>The bytes given to the coroutine by what is sent to it.\<close>

definition bytes_given :: "string option \<Rightarrow> string" where
  "bytes_given data = (case data of None \<Rightarrow> [] | Some d \<Rightarrow> d)"

text \<open>
  An iteration neither loses nor duplicates a byte: what the socket took, followed by what is kept,
  is what was kept followed by the new data. It never raises.
\<close>

lemma write_iteration_conserves:
  "\<exists>res sent w'. write_iteration data answer w = Inr (res, sent, w')
     \<and> take sent (w_buffer w @ bytes_given data) @ w_buffer w' = w_buffer w @ bytes_given data
     \<and> w_point w' \<in> {InLoop, Closing}"
  by (cases data; cases answer)
     (auto simp: write_iteration_def Let_def bytes_given_def write_status_def min_def)


text \<open>
  A run of the coroutine over the data sent to it and the answers of the socket: the bytes that went
  out, the bytes that were given, and the state; it ends when the connection is to be closed.
\<close>

fun write_run :: "(string option \<times> send_result) list \<Rightarrow> writer \<Rightarrow> (string \<times> string \<times> writer) res" where
  "write_run [] w = Inr ([], [], w)"
| "write_run ((data, answer) # es) w =
     (if w_point w \<notin> {WaitFirst, InLoop} then Inr ([], [], w)
      else
        seq (write_send None data answer w) (\<lambda>(_, sent, w').
        seq (write_run es w') (\<lambda>(out, given, w'').
        Inr (take sent (w_buffer w @ bytes_given data) @ out, bytes_given data @ given, w''))))"

lemma write_run_conserves:
  "\<exists>out given w'. write_run es w = Inr (out, given, w') \<and> out @ w_buffer w' = w_buffer w @ given"
proof (induction es arbitrary: w)
  case (Cons e es)
  obtain data answer where e: "e = (data, answer)" by (cases e)
  show ?case
  proof (cases "w_point w \<in> {WaitFirst, InLoop}")
    case False
    then show ?thesis by (simp add: e)
  next
    case True
    obtain v where v: "write_send None data answer w = write_iteration data answer v" "w_buffer v = w_buffer w"
      using True by (cases "w_point w") (auto simp: write_send_def)
    from write_iteration_conserves [of data answer v] obtain res sent w' where
      w': "write_iteration data answer v = Inr (res, sent, w')"
        "take sent (w_buffer w @ bytes_given data) @ w_buffer w' = w_buffer w @ bytes_given data"
      unfolding v(2) by blast
    from Cons.IH [of w'] obtain out given w'' where
      run: "write_run es w' = Inr (out, given, w'')" "out @ w_buffer w'' = w_buffer w' @ given" by blast
    have "write_run (e # es) w
        = Inr (take sent (w_buffer w @ bytes_given data) @ out, bytes_given data @ given, w'')"
      using True v(1) w'(1) run(1) by (simp add: e)
    moreover have "(take sent (w_buffer w @ bytes_given data) @ out) @ w_buffer w''
        = w_buffer w @ (bytes_given data @ given)"
      using run(2) w'(2) by (metis append.assoc)
    ultimately show ?thesis by blast
  qed
qed simp

section \<open>Facts on the reader\<close>

lemma read_loop_receive:
  assumes "rd_mode r \<notin> {''new-request'', ''proxy''}" "rd_mode r \<noteq> ''transfer'' \<or> rd_buffer r = []" "c \<noteq> []"
  shows "read_loop (Received c # as) r = read_dispatch (r\<lparr>rd_buffer := rd_buffer r @ c\<rparr>)"
  using assms by (subst read_loop.simps) auto

lemma client_transfer_pos:
  assumes "0 < n"
  shows "client_transfer b mode n
    = (Some (take (nat n) b), drop (nat n) b,
       (if n \<le> int (length b) then ''new-request'' else mode), n - min (int (length b)) n, 0)"
proof (cases "n \<le> int (length b)")
  case True
  with assms show ?thesis by (simp add: client_transfer_def)
next
  case False
  with assms show ?thesis by (simp add: client_transfer_def)
qed

lemma read_dispatch_transfer:
  assumes "rd_mode r = ''transfer''" "0 < rd_nb_to_send r"
  shows "read_dispatch r = Yielded (Some []) (Some (take (nat (rd_nb_to_send r)) (rd_buffer r)))
    (r\<lparr>rd_buffer := drop (nat (rd_nb_to_send r)) (rd_buffer r),
       rd_mode := (if rd_nb_to_send r \<le> int (length (rd_buffer r)) then ''new-request'' else ''transfer''),
       rd_nb_to_send := rd_nb_to_send r - min (int (length (rd_buffer r))) (rd_nb_to_send r),
       rd_seek := 0, rd_point := AtData\<rparr>)"
  using assms by (simp add: read_dispatch_def client_process_def client_transfer_pos)

text \<open>A run of the coroutine over the answers of the socket to each resumption: the contents yielded.\<close>

fun read_run :: "string \<Rightarrow> int \<Rightarrow> recv_result list list \<Rightarrow> reader \<Rightarrow> (string list \<times> reader) option" where
  "read_run mode n [] r = Some ([], r)"
| "read_run mode n (as # ass) r =
     (case client_readRelated mode n as r of
        Yielded (Some []) (Some content) r' \<Rightarrow>
          map_option (\<lambda>(cs, r''). (content # cs, r'')) (read_run mode n ass r')
      | _ \<Rightarrow> None)"

text \<open>What is left to deliver of a body of \<open>n\<close> bytes, received in pieces of which the last completes it.\<close>

lemma transfer_run:
  assumes "\<forall>c \<in> set cs. c \<noteq> []" "cs \<noteq> []" "0 < n"
    and "length (concat (butlast cs)) < nat n" "nat n \<le> length (concat cs)"
    and "rd_point r = AtData" "rd_mode r = ''transfer''" "rd_nb_to_send r = n" "rd_buffer r = []"
  shows "\<exists>out r'. read_run m k (map (\<lambda>c. [Received c]) cs) r = Some (out, r')
    \<and> concat out = take (nat n) (concat cs) \<and> rd_buffer r' = drop (nat n) (concat cs)
    \<and> rd_mode r' = ''new-request'' \<and> rd_point r' = AtData"
  using assms
proof (induction cs arbitrary: r n)
  case (Cons c cs)
  define r1 where "r1 = r\<lparr>rd_buffer := c\<rparr>"
  have c: "c \<noteq> []" using Cons.prems(1) by simp
  have step: "client_readRelated m k [Received c] r = read_dispatch r1"
    using Cons.prems(6-9) c read_loop_receive [of r c "[]"]
    by (simp add: client_readRelated_def client_read_def r1_def)
  have disp: "read_dispatch r1 = Yielded (Some []) (Some (take (nat n) c))
      (r1\<lparr>rd_buffer := drop (nat n) c, rd_mode := (if n \<le> int (length c) then ''new-request'' else ''transfer''),
        rd_nb_to_send := n - min (int (length c)) n, rd_seek := 0, rd_point := AtData\<rparr>)"
    using read_dispatch_transfer [of r1] Cons.prems by (simp add: r1_def)
  show ?case
  proof (cases "cs = []")
    case True
    then have "n \<le> int (length c)" using Cons.prems(3,5) by simp
    with True step disp show ?thesis by simp
  next
    case False
    then have short: "int (length c) < n" using Cons.prems(4) by (cases cs) auto
    define r2 where "r2 = r1\<lparr>rd_buffer := [], rd_mode := ''transfer'', rd_nb_to_send := n - int (length c),
        rd_seek := 0, rd_point := AtData\<rparr>"
    have y: "client_readRelated m k [Received c] r = Yielded (Some []) (Some c) r2"
      using step disp short by (simp add: r2_def)
    have n': "nat (n - int (length c)) = nat n - length c" by simp
    have "\<exists>out r'. read_run m k (map (\<lambda>c. [Received c]) cs) r2 = Some (out, r')
        \<and> concat out = take (nat (n - int (length c))) (concat cs)
        \<and> rd_buffer r' = drop (nat (n - int (length c))) (concat cs)
        \<and> rd_mode r' = ''new-request'' \<and> rd_point r' = AtData"
      by (rule Cons.IH) (use Cons.prems short False in \<open>auto simp: r2_def n'\<close>)
    then obtain out r' where o: "read_run m k (map (\<lambda>c. [Received c]) cs) r2 = Some (out, r')"
      "concat out = take (nat n - length c) (concat cs)" "rd_buffer r' = drop (nat n - length c) (concat cs)"
      "rd_mode r' = ''new-request''" "rd_point r' = AtData" unfolding n' by blast
    have "length c \<le> nat n" using short by linarith
    then show ?thesis using y o by simp
  qed
qed simp


lemma read_dispatch_point [simp]: "read_dispatch (r\<lparr>rd_point := p\<rparr>) = read_dispatch r"
  by (cases r) (auto simp: read_dispatch_def read_end_def Let_def split: option.splits sum.splits prod.splits)

lemma check_separators_sound:
  assumes "check_separators es b seek = Inl (req, rest, s)" "0 \<le> seek"
  shows "req @ rest = b \<and> (\<exists>e \<in> set es. \<exists>h. req = h @ e \<and> h \<noteq> [] \<and> count_quotes h mod 2 = 0)"
  using assms
proof (induction es b seek rule: check_separators.induct)
  case (2 e es b seek)
  show ?case
  proof (cases "py_find e (py_from seek b)")
    case None
    with 2 show ?thesis by auto
  next
    case (Some pos)
    define buff where "buff = py_upto (seek + int pos) b"
    have nn: "0 \<le> seek + int pos" "0 \<le> seek + int pos + int (length e)" using "2.prems"(2) by linarith+
    show ?thesis
    proof (cases "buff \<noteq> [] \<and> count_quotes buff mod 2 = 0")
      case True
      then have eq: "req = buff @ e" "rest = py_from (seek + int pos + int (length e)) b"
        using "2.prems"(1) Some by (auto simp: buff_def)
      have pf: "prefix e (drop pos (drop (nat seek) b))"
        using py_find_Some_prefix [OF Some] "2.prems"(2) by simp
      then obtain z where z: "drop (pos + nat seek) b = e @ z" by (auto simp: prefix_def)
      have n1: "nat (seek + int pos) = pos + nat seek" using "2.prems"(2) by simp
      have n2: "nat (seek + int pos + int (length e)) = length e + (pos + nat seek)" using "2.prems"(2) by simp
      have "rest = drop (length e) (drop (pos + nat seek) b)"
        using eq(2) nn n2 by simp
      then have "e @ rest = drop (pos + nat seek) b" using z by simp
      moreover have "buff = take (pos + nat seek) b" using nn n1 by (simp add: buff_def)
      ultimately have "req @ rest = b" using eq(1) by simp
      then show ?thesis using eq(1) True by auto
    next
      case False
      show ?thesis
      proof (cases "buff = []")
        case True
        with 2(2) Some "2.prems" buff_def show ?thesis by auto
      next
        case ne: False
        with False have "count_quotes buff mod 2 \<noteq> 0" by simp
        with 2(3) [OF Some buff_def ne] Some "2.prems"(1) nn(2) ne buff_def show ?thesis by auto
      qed
    qed
  qed
qed simp

section \<open>Properties\<close>

text \<open>
  what \<open>checkRequest\<close> takes for a request is the beginning of the buffer up to and including an
  empty line, with a balanced number of quotes before it, and what it leaves is the rest, byte for
  byte; it gives up only on a buffer longer than allowed.
\<close>

theorem checkRequest_splits:
  assumes "0 \<le> seek"
  shows "case checkRequest b max_size seek of
      None \<Rightarrow> 0 < max_size \<and> max_size < length b
    | Some (req, rest, seek') \<Rightarrow>
        req @ rest = b \<and>
        (req = [] \<or> (\<exists>h. req \<in> {h @ CRLF @ CRLF, h @ [LF, LF]} \<and> h \<noteq> [] \<and> count_quotes h mod 2 = 0))"
proof (cases "check_separators EOR b seek")
  case (Inl t)
  obtain req rest s where t: "t = (req, rest, s)" by (cases t)
  from check_separators_sound [OF Inl [unfolded t] assms] show ?thesis
    using Inl t by (auto simp: checkRequest_def EOR_def)
next
  case (Inr s)
  then show ?thesis by (simp add: checkRequest_def)
qed

theorem checkRequest_splits_witness:
  "case checkRequest ''GET /'' 64 0 of
      None \<Rightarrow> 0 < (64 :: nat) \<and> 64 < length ''GET /''
    | Some (req, rest, seek') \<Rightarrow>
        req @ rest = ''GET /'' \<and>
        (req = [] \<or> (\<exists>h. req \<in> {h @ CRLF @ CRLF, h @ [LF, LF]} \<and> h \<noteq> [] \<and> count_quotes h mod 2 = 0))"
  by (rule checkRequest_splits) simp

text \<open>
  a body in chunks, of at most 0x100000 bytes each, is measured exactly: the length of all chunks
  and of the line of the last one, and no more chunks to come, whatever follows in the buffer.
\<close>

theorem checkChunkSize_exact:
  assumes "\<forall>d \<in> set ds. d \<noteq> [] \<and> length d \<le> 0x100000"
  shows "checkChunkSize (concat (map encode_chunk ds) @ last_chunk @ b)
    = (False, Some (length (concat (map encode_chunk ds)) + length last_chunk))"
  using assms by (simp add: checkChunkSize_def checkChunkSize_chunks checkChunkSize_last)

theorem checkChunkSize_exact_witness:
  "checkChunkSize (concat (map encode_chunk [''hello'', ''world'']) @ last_chunk @ CRLF)
    = (False, Some (length (concat (map encode_chunk [''hello'', ''world''])) + length last_chunk))"
  by (rule checkChunkSize_exact) simp

text \<open>
  C27: the body of a request of length \<open>n\<close> is delivered whole and nothing else is: whatever pieces
  it is received in (the first of them may already be in the buffer), the contents yielded are its
  first \<open>n\<close> bytes and the bytes after it stay in the buffer for the next request.
\<close>

theorem reader_delivers_body:
  assumes "rd_point r = AtRequest" "\<forall>c \<in> set cs. c \<noteq> []" "cs \<noteq> []" "0 < n"
    and "length (concat (butlast cs)) < nat n" "nat n \<le> length (concat cs)"
    and "rd_buffer r = [] \<and> answers = map (\<lambda>c. [Received c]) cs
         \<or> rd_buffer r = hd cs \<and> answers = [] # map (\<lambda>c. [Received c]) (tl cs)"
  shows "\<exists>out r'. read_run ''transfer'' n answers r = Some (out, r')
    \<and> concat out = take (nat n) (concat cs) \<and> rd_buffer r' = drop (nat n) (concat cs)
    \<and> rd_mode r' = ''new-request'' \<and> rd_point r' = AtData"
proof -
  obtain c cs' where cs: "cs = c # cs'" using assms(3) by (cases cs) auto
  have c: "c \<noteq> []" using assms(2) cs by simp
  define r0 where "r0 = r\<lparr>rd_mode := ''transfer'', rd_nb_to_send := n, rd_buffer := [], rd_point := AtData\<rparr>"
  define r1 where "r1 = r\<lparr>rd_mode := ''transfer'', rd_nb_to_send := n, rd_buffer := c\<rparr>"
  have d: "read_dispatch (r0\<lparr>rd_buffer := c\<rparr>) = read_dispatch r1"
  proof -
    have "r0\<lparr>rd_buffer := c\<rparr> = r1\<lparr>rd_point := AtData\<rparr>" by (simp add: r0_def r1_def)
    then show ?thesis by simp
  qed
  have s0: "client_readRelated ''transfer'' n [Received c] r0 = read_dispatch r1"
    using read_loop_receive [of r0 c "[]"] c d by (simp add: client_readRelated_def client_read_def r0_def)
  have "client_readRelated ''transfer'' n (hd answers) r = read_dispatch r1"
    using assms(7)
  proof
    assume a: "rd_buffer r = [] \<and> answers = map (\<lambda>c. [Received c]) cs"
    then show ?thesis
      using read_loop_receive [of "r\<lparr>rd_mode := ''transfer'', rd_nb_to_send := n\<rparr>" c "[]"] c cs assms(1)
      by (simp add: client_readRelated_def client_read_def r1_def)
  next
    assume a: "rd_buffer r = hd cs \<and> answers = [] # map (\<lambda>c. [Received c]) (tl cs)"
    have "r\<lparr>rd_mode := ''transfer'', rd_nb_to_send := n\<rparr> = r1" using a cs by (simp add: r1_def)
    then show ?thesis
      using a c cs assms(1) by (simp add: client_readRelated_def client_read_def read_loop.simps) (simp add: r1_def)
  qed
  moreover have "tl answers = map (\<lambda>c. [Received c]) cs'" "answers \<noteq> []" using assms(7) cs by auto
  ultimately have "read_run ''transfer'' n answers r
      = read_run ''transfer'' n (map (\<lambda>c. [Received c]) cs) r0"
    using s0 cs by (cases answers) simp_all
  then show ?thesis
    using transfer_run [OF assms(2-6), of r0 "''transfer''" n] by (simp add: r0_def)
qed


theorem reader_delivers_body_witness:
  "\<exists>out r'. read_run ''transfer'' 6 [[], [Received ''lo!next'']]
        ((client_read_init False ''10.0.0.1'' 0)\<lparr>rd_point := AtRequest, rd_buffer := ''hel''\<rparr>) = Some (out, r')
    \<and> concat out = take (nat 6) (concat [''hel'', ''lo!next'']) \<and> rd_buffer r' = drop (nat 6) (concat [''hel'', ''lo!next''])
    \<and> rd_mode r' = ''new-request'' \<and> rd_point r' = AtData"
  by (rule reader_delivers_body) simp_all

text \<open>
  the end of a body in chunks is not handled. When the chunks and the line of the last one are
  in the buffer, nothing is delivered until more is received; if that is the end of line that
  completes the body, the whole body is kept in the buffer, undelivered, and the reader turns to
  reading a new request from it; if it is the first byte of that end of line alone, the coroutine
  raises \<open>UnboundLocalError\<close>, which nothing catches.
\<close>

theorem reader_chunk_end:
  assumes "\<forall>d \<in> set ds. d \<noteq> [] \<and> length d \<le> 0x100000" "rd_point r = AtRequest" "rd_buffer r = []"
    and "body = concat (map encode_chunk ds) @ last_chunk"
  shows "\<exists>r1. client_readRelated ''chunked'' 0 [Received body] r = Yielded (Some []) (Some []) r1
    \<and> (\<exists>r2. client_readRelated [] 0 [Received (CRLF @ rest)] r1 = Yielded (Some []) (Some []) r2
         \<and> rd_mode r2 = ''new-request'' \<and> rd_buffer r2 = body @ CRLF @ rest)
    \<and> (\<exists>r2. client_readRelated [] 0 [Received [CR]] r1 = Raised UnboundLocalError r2)"
proof -
  have ne: "body \<noteq> []" "length body > 0" using assms(4) by (simp_all add: last_chunk_def)
  define r0 where "r0 = r\<lparr>rd_mode := ''chunked'', rd_nb_to_send := 0, rd_buffer := body\<rparr>"
  define r1 where "r1 = r0\<lparr>rd_mode := ''end-chunk'', rd_nb_to_send := int (length body), rd_seek := 0,
      rd_point := AtData\<rparr>"
  have size: "checkChunkSize body = (False, Some (length body))"
    using assms(1,4) checkChunkSize_chunks [OF assms(1), of last_chunk 0] checkChunkSize_last [of "[]"]
    by (simp add: checkChunkSize_def)
  have "client_readRelated ''chunked'' 0 [Received body] r = read_dispatch r0"
    using read_loop_receive [of "r\<lparr>rd_mode := ''chunked'', rd_nb_to_send := 0\<rparr>" body "[]"] assms(2,3) ne
    by (simp add: client_readRelated_def client_read_def r0_def)
  also have "\<dots> = Yielded (Some []) (Some []) r1"
    using size ne by (simp add: read_dispatch_def client_process_def client_chunked_def r0_def r1_def Let_def)
  finally have first: "client_readRelated ''chunked'' 0 [Received body] r = Yielded (Some []) (Some []) r1" .
  have next_step: "client_readRelated [] 0 [Received c] r1 = read_dispatch (r1\<lparr>rd_buffer := body @ c\<rparr>)" if "c \<noteq> []" for c
    using read_loop_receive [of r1 c "[]"] that
    by (simp add: client_readRelated_def client_read_def) (simp add: r1_def r0_def)
  have "client_readRelated [] 0 [Received (CRLF @ rest)] r1 =
      Yielded (Some []) (Some []) (r1\<lparr>rd_buffer := body @ CRLF @ rest, rd_mode := ''new-request'',
        rd_nb_to_send := int (length body) + 2, rd_seek := 0, rd_point := AtData\<rparr>)"
    using next_step [of "CRLF @ rest"]
    by (simp add: read_dispatch_def client_process_def client_endChunk_def) (simp add: r1_def)
  moreover have "client_readRelated [] 0 [Received [CR]] r1 =
      Raised UnboundLocalError (r1\<lparr>rd_buffer := body @ [CR], rd_point := Dead\<rparr>)"
    using next_step [of "[CR]"]
    by (simp add: read_dispatch_def client_process_def client_endChunk_def) (simp add: r1_def)
  ultimately show ?thesis using first by auto
qed

theorem reader_chunk_end_witness:
  "\<exists>r1. client_readRelated ''chunked'' 0 [Received (concat (map encode_chunk [''hello'']) @ last_chunk)]
          ((client_read_init False ''10.0.0.1'' 0)\<lparr>rd_point := AtRequest\<rparr>) = Yielded (Some []) (Some []) r1
    \<and> (\<exists>r2. client_readRelated [] 0 [Received (CRLF @ [])] r1 = Yielded (Some []) (Some []) r2
         \<and> rd_mode r2 = ''new-request''
         \<and> rd_buffer r2 = (concat (map encode_chunk [''hello'']) @ last_chunk) @ CRLF @ [])
    \<and> (\<exists>r2. client_readRelated [] 0 [Received [CR]] r1 = Raised UnboundLocalError r2)"
  by (rule reader_chunk_end [OF _ _ _ refl, where ds = "[''hello'']"]) (simp_all add: client_read_init_def)


lemma client_startData_local:
  "client_startData (File header filename) file answer ipv4 buffer =
     (case file of
        None \<Rightarrow> Inl UnboundLocalError
      | Some content \<Rightarrow>
          Inr (Some (True, False, 0, 0), 0,
               (write_init ipv4 (buffer @ header @ content))
                 \<lparr>w_point := (if buffer @ header @ content = [] then Closing else InLoop),
                  w_finished := True, w_found := True, w_file := Some []\<rparr>))"
  by (cases "file")
     (auto simp: client_startData_def write_send_def write_init_def found_status_def write_iteration_def
        write_status_def Let_def)

text \<open>
  answering with a local file puts the header and the content of the file after what was
  buffered, sends nothing yet and marks the end; when the file cannot be read, \<open>file_data\<close> has no
  value and the write raises \<open>UnboundLocalError\<close>.
\<close>

theorem startData_file:
  "client_startData (File header filename) file answer ipv4 buffer =
     (case file of
        None \<Rightarrow> Inl UnboundLocalError
      | Some content \<Rightarrow>
          Inr (Some (True, False, 0, 0), 0,
               (write_init ipv4 (buffer @ header @ content))
                 \<lparr>w_point := (if buffer @ header @ content = [] then Closing else InLoop),
                  w_finished := True, w_found := True, w_file := Some []\<rparr>))"
  by (rule client_startData_local)

end
