(* ===== verification/DnsConvert.thy ===== *)
theory DnsConvert
  imports ProxyProtocol
begin

text \<open>
  \<open>lib/exaproxy/dns/convert.py\<close>: numbers, names and addresses as they are in DNS packets. A packet is
  a string of bytes. Reading a name may not end (the pointers of a packet can form a circle), so it is
  a partial function whose value is \<open>None\<close> when it does not return.
\<close>

section \<open>Numbers\<close>

definition u8 :: "char \<Rightarrow> nat" where
  "u8 c = of_char c"

text \<open>\<open>struct.unpack\<close> and \<open>struct.pack\<close> in network order; a wrong length or range is \<open>struct.error\<close>.\<close>

definition u16 :: "string \<Rightarrow> nat res" where
  "u16 s = (case s of [a, b] \<Rightarrow> Inr (u8 a * 256 + u8 b) | _ \<Rightarrow> Inl StructError)"

definition u32 :: "string \<Rightarrow> nat res" where
  "u32 s = (case s of [a, b, c, d] \<Rightarrow> Inr (((u8 a * 256 + u8 b) * 256 + u8 c) * 256 + u8 d)
            | _ \<Rightarrow> Inl StructError)"

definition pack16 :: "int \<Rightarrow> string res" where
  "pack16 n = (if 0 \<le> n \<and> n < 65536 then Inr [char_of (nat n div 256), char_of (nat n mod 256)]
               else Inl StructError)"

definition pack32 :: "int \<Rightarrow> string res" where
  "pack32 n =
     (if 0 \<le> n \<and> n < 4294967296 then
        Inr [char_of (nat n div 16777216), char_of (nat n div 65536 mod 256),
             char_of (nat n div 256 mod 256), char_of (nat n mod 256)]
      else Inl StructError)"

section \<open>Names\<close>

text \<open>
  The loop of \<open>dns_string\<close>: the bytes read, the name and the pointer that ends it. The count of what
  remains, kept by the code, is the length of the rest less the label. A label that is not followed
  by anything gives no byte count and an empty name.
\<close>

function dns_string_loop :: "string \<Rightarrow> nat \<Rightarrow> string list \<Rightarrow> (nat option \<times> string \<times> nat option) res" where
  "dns_string_loop s bytes_read parts =
     (if s = [] then Inr (Some bytes_read, [], None)
      else
        let len = u8 (hd s) in
        if len \<ge> 0xc0 then
          (case tl s of
             [] \<Rightarrow> Inl IndexError
           | c # _ \<Rightarrow> Inr (Some (bytes_read + 2), py_join ''.'' parts, Some ((len - 0xc0) * 256 + u8 c)))
        else if len = 0 then Inr (Some (bytes_read + 1), py_join ''.'' parts, None)
        else if length s \<le> len + 1 then Inr (None, [], None)
        else dns_string_loop (drop (1 + len) s) (bytes_read + (len + 1)) (parts @ [py_slice 1 (1 + len) s]))"
  by pat_completeness auto
termination by (relation "measure (\<lambda>(s, _, _). length s)") auto

declare dns_string_loop.simps [simp del]

definition dns_string :: "string \<Rightarrow> (nat option \<times> string \<times> nat option) res" where
  "dns_string s = dns_string_loop s 0 []"

text \<open>The loop over the pointers: the parts of the name, \<open>None\<close> when they are longer than 500 bytes.\<close>

partial_function (option) follow_pointers :: "string \<Rightarrow> nat option \<Rightarrow> string list \<Rightarrow> string list option res option" where
  "follow_pointers packet ptr parts =
     (case ptr of
        None \<Rightarrow> Some (Inr (Some parts))
      | Some p \<Rightarrow>
          (case dns_string (drop p packet) of
             Inl e \<Rightarrow> Some (Inl e)
           | Inr (_, v, ptr') \<Rightarrow>
               let parts' = (if v \<noteq> [] then parts @ [v] else parts) in
               if sum_list (map length parts') > 500 then Some (Inr None)
               else follow_pointers packet ptr' parts'))"

definition dns_to_string_info :: "string \<Rightarrow> string \<Rightarrow> (nat option \<times> string option) res option" where
  "dns_to_string_info s packet =
     (case dns_string s of
        Inl e \<Rightarrow> Some (Inl e)
      | Inr (bytes_read, v, ptr) \<Rightarrow>
          map_option (\<lambda>r. seq r (\<lambda>parts. Inr (bytes_read, map_option (py_join ''.'') parts)))
            (follow_pointers packet ptr (if v \<noteq> [] then [v] else [])))"

definition dns_to_string :: "string \<Rightarrow> string \<Rightarrow> string option res option" where
  "dns_to_string s packet = map_option (\<lambda>r. seq r (\<lambda>(_, v). Inr v)) (dns_to_string_info s packet)"

text \<open>
  \<open>'%c%s'\<close> for each part, the empty part after the last dot being the end of the name; a part of 256
  bytes or more is the \<open>OverflowError\<close> that makes the result \<open>None\<close>.
\<close>

definition string_to_dns :: "string \<Rightarrow> string option" where
  "string_to_dns s =
     (let parts = split_on (CHR ''.'') (rstrip_in ''.'' s @ ''.'') in
      if list_all (\<lambda>p. length p < 256) parts
      then Some (concat (map (\<lambda>p. char_of (length p) # p) parts))
      else None)"

section \<open>Addresses\<close>

definition bytes_of :: "nat list \<Rightarrow> string" where
  "bytes_of ns = map char_of ns"

text \<open>\<open>inet_ntoa\<close> and \<open>inet_ntop\<close> on the bytes of an address, and the converse.\<close>

definition dns_to_ipv4 :: "string \<Rightarrow> string res" where
  "dns_to_ipv4 ip =
     (if length ip = 4 then Inr (py_join ''.'' (map (\<lambda>c. show_nat (u8 c)) ip)) else Inl SocketFailure)"

definition ipv4_to_dns :: "string \<Rightarrow> string res" where
  "ipv4_to_dns ip =
     (if CHR 0x00 \<in> set ip then Inl TypeError
      else
        case inet_aton ip of
          None \<Rightarrow> Inl SocketFailure
        | Some n \<Rightarrow> Inr (bytes_of [n div 16777216, n div 65536 mod 256, n div 256 mod 256, n mod 256]))"

fun words_of :: "string \<Rightarrow> nat list" where
  "words_of (a # b # s) = (u8 a * 256 + u8 b) # words_of s"
| "words_of _ = []"

text \<open>The longest run of zero words (the first of the longest): where it begins and its length.\<close>

fun zero_runs :: "nat \<Rightarrow> nat list \<Rightarrow> (nat \<times> nat) option \<Rightarrow> (nat \<times> nat) list" where
  "zero_runs i [] cur = (case cur of None \<Rightarrow> [] | Some r \<Rightarrow> [r])"
| "zero_runs i (w # ws) cur =
     (if w = 0 then
        zero_runs (i + 1) ws (case cur of None \<Rightarrow> Some (i, 1) | Some (b, n) \<Rightarrow> Some (b, n + 1))
      else (case cur of None \<Rightarrow> [] | Some r \<Rightarrow> [r]) @ zero_runs (i + 1) ws None)"

definition best_run :: "nat list \<Rightarrow> (nat \<times> nat) option" where
  "best_run ws =
     (case foldl (\<lambda>best r. case best of None \<Rightarrow> Some r | Some b \<Rightarrow> if snd r > snd b then Some r else Some b)
             None (zero_runs 0 ws None) of
        None \<Rightarrow> None
      | Some (b, n) \<Rightarrow> if n < 2 then None else Some (b, n))"

text \<open>The loop of \<open>inet_ntop6\<close> over the eight words; the last two may be written in dotted form.\<close>

fun ntop6_words :: "nat \<Rightarrow> nat list \<Rightarrow> (nat \<times> nat) option \<Rightarrow> bool \<Rightarrow> string \<Rightarrow> string" where
  "ntop6_words i [] best embedded dotted4 = []"
| "ntop6_words i (w # ws) best embedded dotted4 =
     (case best of
        Some (b, n) \<Rightarrow>
          if b \<le> i \<and> i < b + n then
            (if i = b then '':'' else []) @ ntop6_words (i + 1) ws best embedded dotted4
          else (if i \<noteq> 0 then '':'' else []) @
            (if i = 6 \<and> embedded then dotted4 else show_hex w @ ntop6_words (i + 1) ws best embedded dotted4)
      | None \<Rightarrow> (if i \<noteq> 0 then '':'' else []) @ show_hex w @ ntop6_words (i + 1) ws best embedded dotted4)"

definition dns_to_ipv6 :: "string \<Rightarrow> string res" where
  "dns_to_ipv6 ip =
     (if length ip = 16 then
        let ws = words_of ip;
            best = best_run ws;
            embedded = (best = Some (0, 6) \<or> (best = Some (0, 5) \<and> ws ! 5 = 0xffff));
            dotted4 = py_join ''.'' (map (\<lambda>c. show_nat (u8 c)) (drop 12 ip));
            closing = (case best of Some (b, n) \<Rightarrow> if b + n = 8 then '':'' else [] | None \<Rightarrow> [])
        in Inr (ntop6_words 0 ws best embedded dotted4 @ closing)
      else Inl ValueError)"

definition ipv6_to_dns :: "string \<Rightarrow> string res" where
  "ipv6_to_dns s =
     (if CHR 0x00 \<in> set s then Inl TypeError
      else case inet_pton6 s of None \<Rightarrow> Inl SocketFailure | Some octets \<Rightarrow> Inr (bytes_of octets))"


section \<open>Facts on names\<close>

lemma u8_char_of [simp]: "n < 256 \<Longrightarrow> u8 (char_of n) = n"
  by (simp add: u8_def)

lemma u8_less [simp]: "u8 c < 256"
  by (simp add: u8_def)

text \<open>A label that can be written: not empty, short enough not to be taken for a pointer, no dot.\<close>

definition label :: "string \<Rightarrow> bool" where
  "label l \<longleftrightarrow> l \<noteq> [] \<and> length l < 192 \<and> CHR ''.'' \<notin> set l"

definition labels_bytes :: "string list \<Rightarrow> string" where
  "labels_bytes ls = concat (map (\<lambda>p. char_of (length p) # p) ls)"

lemma labels_bytes_simps [simp]:
  "labels_bytes [] = []"
  "labels_bytes (l # ls) = char_of (length l) # l @ labels_bytes ls"
  by (simp_all add: labels_bytes_def)

lemma dns_string_loop_labels:
  assumes "\<forall>l \<in> set ls. label l" "t \<noteq> []"
  shows "dns_string_loop (labels_bytes ls @ t) n parts
    = dns_string_loop t (n + length (labels_bytes ls)) (parts @ ls)"
  using assms(1)
proof (induction ls arbitrary: n parts)
  case (Cons l ls)
  have l: "l \<noteq> []" "length l < 192" using Cons.prems by (simp_all add: label_def)
  have len: "u8 (char_of (length l)) = length l" using l by simp
  let ?s = "char_of (length l) # l @ labels_bytes ls @ t"
  have long: "\<not> length ?s \<le> length l + 1" using assms(2) by simp
  have dr: "drop (1 + length l) ?s = labels_bytes ls @ t" "py_slice 1 (1 + length l) ?s = l"
    by (simp_all add: py_slice_def)
  have "dns_string_loop ?s n parts = dns_string_loop (labels_bytes ls @ t) (n + (length l + 1)) (parts @ [l])"
    using l long dr assms(2)
    by (subst dns_string_loop.simps) (auto simp add: len Let_def simp del: drop_Suc_Cons length_Cons)
  then show ?case using Cons.IH [of "n + (length l + 1)" "parts @ [l]"] Cons.prems by (simp add: add.assoc)
qed simp

lemma dns_string_loop_end: "dns_string_loop (char_of (0::nat) # t) n parts = Inr (Some (n + 1), py_join ''.'' parts, None)"
  by (subst dns_string_loop.simps) simp

text \<open>The two bytes of a pointer.\<close>

definition pointer_bytes :: "nat \<Rightarrow> string" where
  "pointer_bytes p = [char_of (0xc0 + p div 256), char_of (p mod 256)]"

lemma dns_string_loop_pointer:
  assumes "p < 16384"
  shows "dns_string_loop (pointer_bytes p @ t) n parts = Inr (Some (n + 2), py_join ''.'' parts, Some p)"
proof -
  have "0xc0 + p div 256 < 256" using assms by auto
  moreover have "u8 (char_of (p mod 256)) = p mod 256" by (rule u8_char_of) simp
  ultimately show ?thesis
    by (subst dns_string_loop.simps) (simp add: pointer_bytes_def del: char_of_mod_256)
qed

lemma py_join_Nil_iff: "\<forall>l \<in> set ls. l \<noteq> [] \<Longrightarrow> py_join sep ls = [] \<longleftrightarrow> ls = []"
  by (cases ls; cases "tl ls") auto

lemma rstrip_dot_name:
  assumes "\<forall>l \<in> set ls. label l"
  shows "rstrip_in ''.'' (py_join ''.'' ls) = py_join ''.'' ls"
proof (cases "ls = []")
  case False
  then have "last (py_join ''.'' ls) = last (last ls) \<and> py_join ''.'' ls \<noteq> []"
    using assms
  proof (induction ls)
    case (Cons l ls)
    then show ?case by (cases "ls = []") (auto simp: py_join_Cons label_def)
  qed simp
  moreover have "label (last ls)" using False assms by simp
  then have "last (last ls) \<noteq> CHR ''.''" by (metis label_def last_in_set)
  ultimately obtain w c where "py_join ''.'' ls = w @ [c]" "c \<noteq> CHR ''.''"
    by (metis append_butlast_last_id)
  then show ?thesis by (simp add: rstrip_in_def)
qed (simp add: rstrip_in_def)

lemma string_to_dns_labels:
  assumes "ls \<noteq> []" "\<forall>l \<in> set ls. label l"
  shows "string_to_dns (py_join ''.'' ls) = Some (labels_bytes ls @ [char_of (0::nat)])"
proof -
  have "split_on (CHR ''.'') (py_join ''.'' ls @ ''.'') = ls @ [[]]"
  proof -
    have "py_join ''.'' ls @ ''.'' = py_join ''.'' (ls @ [[]])"
      using assms(1)
    proof (induction ls)
      case (Cons a ls)
      then show ?case by (cases ls) (auto simp: py_join_Cons)
    qed simp
    moreover have "split_on (CHR ''.'') (py_join ''.'' (ls @ [[]])) = ls @ [[]]"
      by (rule split_on_py_join) (use assms(2) in \<open>auto simp: label_def\<close>)
    ultimately show ?thesis by simp
  qed
  moreover have "list_all (\<lambda>p. length p < 256) (ls @ [[]])"
    using assms(2) by (auto simp: label_def list_all_iff)
  ultimately show ?thesis
    using rstrip_dot_name [OF assms(2)] by (simp add: string_to_dns_def labels_bytes_def)
qed

lemma follow_pointers_None [simp]: "follow_pointers packet None parts = Some (Inr (Some parts))"
  by (subst follow_pointers.simps) simp

lemma dns_to_string_info_labels:
  assumes "ls \<noteq> []" "\<forall>l \<in> set ls. label l"
  shows "dns_to_string_info (labels_bytes ls @ char_of (0::nat) # t) packet
    = Some (Inr (Some (length (labels_bytes ls) + 1), Some (py_join ''.'' ls)))"
proof -
  have "dns_string (labels_bytes ls @ char_of (0::nat) # t)
      = Inr (Some (length (labels_bytes ls) + 1), py_join ''.'' ls, None)"
    using dns_string_loop_labels [OF assms(2)] dns_string_loop_end by (simp add: dns_string_def)
  moreover have "py_join ''.'' ls \<noteq> []"
    using assms py_join_Nil_iff [of ls "''.''"] by (auto simp: label_def)
  ultimately show ?thesis by (simp add: dns_to_string_info_def)
qed


lemma dns_string_pointer:
  assumes "\<forall>l \<in> set ls. label l" "p < 16384"
  shows "dns_string (labels_bytes ls @ pointer_bytes p @ u)
    = Inr (Some (length (labels_bytes ls) + 2), py_join ''.'' ls, Some p)"
  using dns_string_loop_labels [OF assms(1), of "pointer_bytes p @ u" 0 "[]"]
    dns_string_loop_pointer [OF assms(2), of u]
  by (simp add: dns_string_def) (simp add: pointer_bytes_def)

lemma dns_string_plain:
  assumes "\<forall>l \<in> set ls. label l"
  shows "dns_string (labels_bytes ls @ char_of (0::nat) # t)
    = Inr (Some (length (labels_bytes ls) + 1), py_join ''.'' ls, None)"
  using dns_string_loop_labels [OF assms] dns_string_loop_end by (simp add: dns_string_def)

text \<open>A pointer that is reached from a place is read at a smaller place.\<close>

definition pointers_decrease :: "string \<Rightarrow> bool" where
  "pointers_decrease packet \<longleftrightarrow>
     (\<forall>p n v q. dns_string (drop p packet) = Inr (n, v, Some q) \<longrightarrow> q < p)"

lemma follow_pointers_decreasing:
  assumes "pointers_decrease packet"
  shows "follow_pointers packet (Some p) parts \<noteq> None"
proof (induction p arbitrary: parts rule: less_induct)
  case (less p)
  show ?case
  proof (cases "dns_string (drop p packet)")
    case (Inl e)
    then show ?thesis by (subst follow_pointers.simps) simp
  next
    case (Inr r)
    obtain n v q where r: "r = (n, v, q)" by (cases r)
    show ?thesis
    proof (cases q)
      case None
      then show ?thesis using Inr r by (subst follow_pointers.simps) (simp add: Let_def)
    next
      case (Some q')
      then have "q' < p" using assms Inr r by (simp add: pointers_decrease_def)
      then have "follow_pointers packet (Some q') w \<noteq> None" for w using less.IH by blast
      then show ?thesis using Inr r Some by (subst follow_pointers.simps) (simp add: Let_def)
    qed
  qed
qed

lemma follow_pointers_circle_aux:
  assumes "follow_pointers packet' ptr' parts' = Some r"
    and "dns_string (drop p packet) = Inr (n, [], Some p)" "sum_list (map length parts) \<le> 500"
  shows "\<not> (packet' = packet \<and> ptr' = Some p \<and> parts' = parts)"
proof (rule follow_pointers.raw_induct [OF _ assms(1)])
  fix f packet' ptr' parts' r
  assume IH: "\<And>packet' ptr' parts' r. f packet' ptr' parts' = Some r \<Longrightarrow>
      \<not> (packet' = packet \<and> ptr' = Some p \<and> parts' = parts)"
    and body: "(case ptr' of None \<Rightarrow> Some (Inr (Some parts'))
      | Some p \<Rightarrow>
          (case dns_string (drop p packet') of
             Inl e \<Rightarrow> Some (Inl e)
           | Inr (_, v, ptr') \<Rightarrow>
               let parts' = (if v \<noteq> [] then parts' @ [v] else parts') in
               if sum_list (map length parts') > 500 then Some (Inr None)
               else f packet' ptr' parts')) = Some r"
  show "\<not> (packet' = packet \<and> ptr' = Some p \<and> parts' = parts)"
  proof
    assume eq: "packet' = packet \<and> ptr' = Some p \<and> parts' = parts"
    then have "f packet (Some p) parts = Some r" using body assms(2,3) by (simp add: Let_def)
    from IH [OF this] show False by simp
  qed
qed

lemma follow_pointers_circle:
  assumes "dns_string (drop p packet) = Inr (n, [], Some p)" "sum_list (map length parts) \<le> 500"
  shows "follow_pointers packet (Some p) parts = None"
  using follow_pointers_circle_aux [OF _ assms] by (cases "follow_pointers packet (Some p) parts") blast+

section \<open>Properties\<close>

text \<open>
  a name written by \<open>string_to_dns\<close>, whatever follows it, is read back as the same name with the
  number of bytes it takes, and so is a name whose end is a pointer to labels elsewhere in the packet
  (as long as the whole is not longer than 500 bytes).
\<close>

theorem dns_name_roundtrip:
  assumes "ls \<noteq> []" "\<forall>l \<in> set ls. label l" "\<forall>l \<in> set ls'. label l"
    and "p < 16384" "drop p packet = labels_bytes ls @ char_of (0::nat) # t"
    and "length (py_join ''.'' ls') + length (py_join ''.'' ls) \<le> 500"
  shows "\<exists>bytes. string_to_dns (py_join ''.'' ls) = Some bytes
      \<and> dns_to_string_info (bytes @ u) packet = Some (Inr (Some (length bytes), Some (py_join ''.'' ls)))
      \<and> dns_to_string_info (labels_bytes ls' @ pointer_bytes p @ u) packet
          = Some (Inr (Some (length (labels_bytes ls') + 2), Some (py_join ''.'' (ls' @ ls))))"
proof -
  have ne: "py_join ''.'' ls \<noteq> []" using assms(1,2) py_join_Nil_iff [of ls "''.''"] by (auto simp: label_def)
  have nil: "py_join ''.'' ls' = [] \<longleftrightarrow> ls' = []" using assms(3) py_join_Nil_iff [of ls' "''.''"] by (auto simp: label_def)
  have join: "ls' \<noteq> [] \<Longrightarrow> py_join ''.'' (ls' @ ls) = py_join ''.'' ls' @ ''.'' @ py_join ''.'' ls"
    using assms(1)
  proof (induction ls')
    case (Cons a as)
    then show ?case by (cases "as = []") (auto simp: py_join_Cons)
  qed simp
  have "follow_pointers packet (Some p) (if ls' = [] then [] else [py_join ''.'' ls'])
      = Some (Inr (Some ((if ls' = [] then [] else [py_join ''.'' ls']) @ [py_join ''.'' ls])))"
    using dns_string_plain [OF assms(2), of t] assms(5,6) ne
    by (subst follow_pointers.simps) (auto simp: Let_def)
  then have "dns_to_string_info (labels_bytes ls' @ pointer_bytes p @ u) packet
      = Some (Inr (Some (length (labels_bytes ls') + 2), Some (py_join ''.'' (ls' @ ls))))"
    using dns_string_pointer [OF assms(3,4), of u] nil join by (auto simp: dns_to_string_info_def)
  then show ?thesis
    using string_to_dns_labels [OF assms(1,2)] dns_to_string_info_labels [OF assms(1,2), of u packet] by simp
qed

theorem dns_name_roundtrip_witness:
  "\<exists>bytes. string_to_dns (py_join ''.'' [''exa'', ''net'']) = Some bytes
      \<and> dns_to_string_info (bytes @ ''zz'') (labels_bytes [''exa'', ''net''] @ char_of (0::nat) # [])
          = Some (Inr (Some (length bytes), Some (py_join ''.'' [''exa'', ''net''])))
      \<and> dns_to_string_info (labels_bytes [''www''] @ pointer_bytes 0 @ ''zz'')
          (labels_bytes [''exa'', ''net''] @ char_of (0::nat) # [])
          = Some (Inr (Some (length (labels_bytes [''www'']) + 2),
                    Some (py_join ''.'' ([''www''] @ [''exa'', ''net'']))))"
  by (rule dns_name_roundtrip) (simp_all add: label_def)

text \<open>
  C36: reading a name returns whenever every pointer of the packet points before the place it is read
  from; but a pointer to itself, which a peer may send, makes the loop run for ever.
\<close>

theorem dns_name_termination:
  "(pointers_decrease packet \<longrightarrow> follow_pointers packet (Some p) parts \<noteq> None)
   \<and> (p < 16384 \<longrightarrow> prefix (pointer_bytes p) (drop p packet)
        \<longrightarrow> dns_to_string_info (pointer_bytes p @ u) packet = None)"
proof (intro conjI impI)
  show "follow_pointers packet (Some p) parts \<noteq> None" if "pointers_decrease packet"
    using that by (rule follow_pointers_decreasing)
next
  assume p: "p < 16384" and "prefix (pointer_bytes p) (drop p packet)"
  then obtain t where t: "drop p packet = pointer_bytes p @ t" by (auto simp: prefix_def)
  have str: "dns_string (pointer_bytes p @ v) = Inr (Some 2, [], Some p)" for v
    using dns_string_pointer [of "[]" p v] p by simp
  then have "follow_pointers packet (Some p) [] = None"
    by (intro follow_pointers_circle [where n = "Some 2"]) (simp_all add: t)
  then show "dns_to_string_info (pointer_bytes p @ u) packet = None"
    using str by (simp add: dns_to_string_info_def)
qed

theorem dns_name_termination_witness:
  "follow_pointers (char_of (0::nat) # pointer_bytes 0) (Some 1) [] \<noteq> None
   \<and> dns_to_string_info (pointer_bytes 12 @ []) (replicate 12 (CHR 0x00) @ pointer_bytes 12) = None"
proof -
  let ?packet = "char_of (0::nat) # pointer_bytes 0"
  have "dns_string (drop 1 ?packet) = Inr (Some 2, [], Some 0)" using dns_string_pointer [of "[]" 0 "[]"] by simp
  moreover have "dns_string (drop p ?packet) = (if p \<in> {0, 2} then Inr (Some 1, [], None) else Inr (Some 0, [], None))" if "p \<noteq> 1" for p
    using that
    by (cases p; cases "p - 1"; cases "p - 2") (simp_all add: pointer_bytes_def dns_string_def dns_string_loop.simps u8_def)
  ultimately have "pointers_decrease ?packet" unfolding pointers_decrease_def by (metis Pair_inject One_nat_def option.distinct(1) option.inject sum.inject(2) zero_less_one)
  moreover have "prefix (pointer_bytes 12) (drop 12 (replicate 12 (CHR 0x00) @ pointer_bytes 12))" by simp
  ultimately show ?thesis
    using dns_name_termination [of ?packet 1 "[]" "[]"]
      dns_name_termination [of "replicate 12 (CHR 0x00) @ pointer_bytes 12" 12 "[]" "[]"] by simp
qed

end
