(* ===== verification/DnsCodec.thy ===== *)
theory DnsCodec
  imports DnsConvert
begin

text \<open>
  \<open>lib/exaproxy/dns/dnstype.py\<close>, \<open>codec.py\<close> and \<open>factory.py\<close>: the record types of the
  configuration file, the reader and the writer of DNS packets, and their framing over TCP. A function
  that reads names may not return; its value is then \<open>None\<close>.
\<close>

unbundle bit_operations_syntax

section \<open>Record types\<close>

datatype conversion = Ipv4 | Ipv6 | Str | Unimplemented

definition conversion_of :: "string \<Rightarrow> conversion option" where
  "conversion_of s =
     (if s = ''ipv4'' then Some Ipv4 else if s = ''ipv6'' then Some Ipv6
      else if s = ''string'' then Some Str else if s = ''unimplemented'' then Some Unimplemented
      else None)"

record dns_types =
  byname :: "string \<rightharpoonup> int \<times> conversion"
  byvalue :: "int \<rightharpoonup> string \<times> conversion"

record dns_query =
  dq_class :: int
  dq_type :: "string option"
  dq_question :: "string option"

record dns_resource =
  dr_class :: int
  dr_type :: "string option"
  dr_question :: "string option"
  dr_response :: "string option"
  dr_ttl :: int

definition createQuery :: "string option \<Rightarrow> string option \<Rightarrow> dns_query" where
  "createQuery name question = \<lparr>dq_class = 1, dq_type = name, dq_question = question\<rparr>"

definition createResource :: "string option \<Rightarrow> string option \<Rightarrow> string option \<Rightarrow> int \<Rightarrow> dns_resource" where
  "createResource name question response ttl =
     \<lparr>dr_class = 1, dr_type = name, dr_question = question, dr_response = response, dr_ttl = ttl\<rparr>"

text \<open>
  One line of the definition file. The text before the first \<open>#\<close> never begins with one, so the test
  that should skip comments is never true.
\<close>

definition parse_type_line :: "string \<Rightarrow> dns_types \<Rightarrow> dns_types res" where
  "parse_type_line line0 t =
     (let line = hd (split_on (CHR ''#'') (py_strip line0)) in
      if prefix ''#'' line then Inr t
      else
        case py_words line of
          [name, value0, querytype] \<Rightarrow>
            seq (py_int value0) (\<lambda>value'.
            if byname t name \<noteq> None then Inl ValueError
            else if byvalue t value' \<noteq> None then Inl ValueError
            else
              case conversion_of querytype of
                None \<Rightarrow> Inl ValueError
              | Some c \<Rightarrow> Inr (t\<lparr>byname := (byname t)(name \<mapsto> (value', c)),
                                 byvalue := (byvalue t)(value' \<mapsto> (name, c))\<rparr>))
        | _ \<Rightarrow> Inl ValueError)"

text \<open>The lines of the file (\<open>None\<close> when it cannot be read); every failure is a \<open>RuntimeError\<close>.\<close>

definition parseConfiguration :: "string list option \<Rightarrow> dns_types res" where
  "parseConfiguration lines =
     (case lines of
        None \<Rightarrow> Inl RuntimeError
      | Some ls \<Rightarrow>
          (case for_each parse_type_line ls \<lparr>byname = Map.empty, byvalue = Map.empty\<rparr> of
             Inl _ \<Rightarrow> Inl RuntimeError
           | Inr t \<Rightarrow> Inr t))"

definition decodeQuery :: "dns_types \<Rightarrow> nat \<Rightarrow> string \<Rightarrow> dns_query" where
  "decodeQuery t v question = createQuery (map_option fst (byvalue t (int v))) (Some question)"

definition encodeQuery :: "dns_types \<Rightarrow> dns_query \<Rightarrow> int option \<times> string option" where
  "encodeQuery t q =
     (let v = (case dq_type q of None \<Rightarrow> None | Some n \<Rightarrow> map_option fst (byname t n))
      in (v, if v \<noteq> None then dq_question q else None))"

definition decode_response :: "conversion \<Rightarrow> string \<Rightarrow> string \<Rightarrow> string option res option" where
  "decode_response c response packet =
     (case c of
        Ipv4 \<Rightarrow> Some (seq (dns_to_ipv4 response) (\<lambda>v. Inr (Some v)))
      | Ipv6 \<Rightarrow> Some (seq (dns_to_ipv6 response) (\<lambda>v. Inr (Some v)))
      | Str \<Rightarrow> dns_to_string response packet
      | Unimplemented \<Rightarrow> Some (Inr None))"

definition decodeResource :: "dns_types \<Rightarrow> nat \<Rightarrow> string \<Rightarrow> string \<Rightarrow> nat \<Rightarrow> string \<Rightarrow> dns_resource res option" where
  "decodeResource t v question response ttl packet =
     (case byvalue t (int v) of
        None \<Rightarrow> Some (Inr (createResource None (Some question) None (int ttl)))
      | Some (name, c) \<Rightarrow>
          oseq (decode_response c response packet) (\<lambda>decoded.
          Some (Inr (createResource (Some name) (Some question) decoded (int ttl)))))"

text \<open>The encoders, on a response that may be \<open>None\<close>.\<close>

definition encode_response :: "conversion \<Rightarrow> string option \<Rightarrow> string option res" where
  "encode_response c response =
     (case c of
        Unimplemented \<Rightarrow> Inl TypeError
      | Ipv4 \<Rightarrow> (case response of None \<Rightarrow> Inl TypeError | Some r \<Rightarrow> seq (ipv4_to_dns r) (\<lambda>v. Inr (Some v)))
      | Ipv6 \<Rightarrow> (case response of None \<Rightarrow> Inl TypeError | Some r \<Rightarrow> seq (ipv6_to_dns r) (\<lambda>v. Inr (Some v)))
      | Str \<Rightarrow> (case response of None \<Rightarrow> Inl AttributeError | Some r \<Rightarrow> Inr (string_to_dns r)))"

definition encodeResource :: "dns_types \<Rightarrow> dns_resource \<Rightarrow> (int option \<times> string option \<times> string option \<times> int) res" where
  "encodeResource t r =
     (case (case dr_type r of None \<Rightarrow> None | Some n \<Rightarrow> byname t n) of
        None \<Rightarrow> Inr (None, dr_question r, None, dr_ttl r)
      | Some (v, c) \<Rightarrow>
          seq (encode_response c (dr_response r)) (\<lambda>encoded. Inr (Some v, dr_question r, encoded, dr_ttl r)))"

section \<open>Reading packets\<close>

record dns_header =
  h_identifier :: nat
  h_qr :: nat
  h_opcode :: nat
  h_aa :: nat
  h_tc :: nat
  h_rd :: nat
  h_ra :: nat
  h_z :: nat
  h_ad :: nat
  h_cd :: nat
  h_rcode :: nat
  h_query_len :: nat
  h_response_len :: nat
  h_authority_len :: nat
  h_additional_len :: nat

definition DNSHeader :: "string \<Rightarrow> dns_header res" where
  "DNSHeader p =
     seq (u16 (py_slice 0 2 p)) (\<lambda>identifier.
     seq (u16 (py_slice 2 4 p)) (\<lambda>flags.
     seq (u16 (py_slice 4 6 p)) (\<lambda>query_len.
     seq (u16 (py_slice 6 8 p)) (\<lambda>response_len.
     seq (u16 (py_slice 8 10 p)) (\<lambda>authority_len.
     seq (u16 (py_slice 10 12 p)) (\<lambda>additional_len.
     Inr \<lparr>h_identifier = identifier, h_qr = drop_bit 15 flags, h_opcode = drop_bit 11 flags AND 15,
          h_aa = drop_bit 10 flags AND 1, h_tc = drop_bit 9 flags AND 1, h_rd = drop_bit 8 flags AND 1,
          h_ra = drop_bit 7 flags AND 1, h_z = drop_bit 6 flags AND 1, h_ad = drop_bit 5 flags AND 1,
          h_cd = drop_bit 4 flags AND 1, h_rcode = flags AND 1, h_query_len = query_len,
          h_response_len = response_len, h_authority_len = authority_len,
          h_additional_len = additional_len\<rparr>))))))"

text \<open>
  A question or a resource as it is in the packet; \<open>None\<close> is the record whose \<open>question\<close> is \<open>None\<close>,
  the mark of a failure. The last component is \<open>__len__\<close>.
\<close>

record wire_record =
  wr_question :: string
  wr_type :: nat
  wr_class :: nat
  wr_ttl :: nat
  wr_rdata :: string
  wr_len :: nat

definition DNSQuery :: "string \<Rightarrow> string \<Rightarrow> wire_record option res option" where
  "DNSQuery data packet =
     oseq (dns_to_string_info data packet) (\<lambda>(total_read, name). Some (
     case (total_read, name) of
       (Some n, Some (c # cs)) \<Rightarrow>
         let rest = drop n data in
         if length rest \<ge> 4 then
           seq (u16 (take 2 rest)) (\<lambda>t.
           seq (u16 (py_slice 2 4 rest)) (\<lambda>k.
           Inr (Some \<lparr>wr_question = c # cs, wr_type = t, wr_class = k, wr_ttl = 0, wr_rdata = [], wr_len = n + 4\<rparr>)))
         else Inr None
     | _ \<Rightarrow> Inr None))"

definition DNSResource :: "string \<Rightarrow> string \<Rightarrow> wire_record option res option" where
  "DNSResource data packet =
     oseq (if prefix [CHR 0x00] data then Some (Inr (Some 1, Some ''.''))
           else dns_to_string_info data packet) (\<lambda>(total_read, name). Some (
     case (total_read, name) of
       (Some n, Some (c # cs)) \<Rightarrow>
         let rest = drop n data in
         seq (u16 (py_slice 8 10 rest)) (\<lambda>rdata_len.
         if length rest \<ge> 10 + rdata_len then
           seq (u16 (take 2 rest)) (\<lambda>t.
           seq (u16 (py_slice 2 4 rest)) (\<lambda>k.
           seq (u32 (py_slice 4 8 rest)) (\<lambda>ttl.
           Inr (Some \<lparr>wr_question = c # cs, wr_type = t, wr_class = k, wr_ttl = ttl,
                      wr_rdata = py_slice 10 (10 + rdata_len) rest, wr_len = n + 10 + rdata_len\<rparr>))))
         else Inr None)
     | _ \<Rightarrow> Inr None))"

text \<open>
  \<open>_decodeRecords\<close>: the records (\<open>None\<close> after a failure), the data left, the names met so far by their
  place in the packet, and the next place.
\<close>

fun decodeRecords :: "(string \<Rightarrow> string \<Rightarrow> wire_record option res option) \<Rightarrow> nat \<Rightarrow> string \<Rightarrow> string \<Rightarrow>
    (nat \<rightharpoonup> string) \<Rightarrow> nat \<Rightarrow> wire_record list \<Rightarrow>
    (wire_record list option \<times> string \<times> (nat \<rightharpoonup> string) \<times> nat) res option" where
  "decodeRecords decoder 0 data packet names offset records = Some (Inr (Some records, data, names, offset))"
| "decodeRecords decoder (Suc count) data packet names offset records =
     oseq (decoder data packet) (\<lambda>record.
     case record of
       None \<Rightarrow> Some (Inr (None, [], names, offset))
     | Some r \<Rightarrow>
         decodeRecords decoder count (drop (wr_len r) data) packet (names(offset \<mapsto> wr_question r))
           (offset + wr_len r) (records @ [r]))"

definition decodeQueries :: "dns_types \<Rightarrow> string \<Rightarrow> nat \<Rightarrow> string \<Rightarrow> (nat \<rightharpoonup> string) \<Rightarrow> nat \<Rightarrow>
    (dns_query list option \<times> string \<times> (nat \<rightharpoonup> string) \<times> nat) res option" where
  "decodeQueries t data count packet names offset =
     oseq (decodeRecords DNSQuery count data packet names offset []) (\<lambda>(queries, data', names', offset').
     Some (Inr (map_option (map (\<lambda>q. decodeQuery t (wr_type q) (wr_question q))) queries, data', names', offset')))"

fun decode_resources :: "dns_types \<Rightarrow> wire_record list \<Rightarrow> string \<Rightarrow> dns_resource list res option" where
  "decode_resources t [] packet = Some (Inr [])"
| "decode_resources t (r # rs) packet =
     oseq (decodeResource t (wr_type r) (wr_question r) (wr_rdata r) (wr_ttl r) packet) (\<lambda>x.
     oseq (decode_resources t rs packet) (\<lambda>xs. Some (Inr (x # xs))))"

definition decodeResources :: "dns_types \<Rightarrow> string \<Rightarrow> nat \<Rightarrow> string \<Rightarrow> (nat \<rightharpoonup> string) \<Rightarrow> nat \<Rightarrow>
    (dns_resource list option \<times> string \<times> (nat \<rightharpoonup> string) \<times> nat) res option" where
  "decodeResources t data count packet names offset =
     oseq (decodeRecords DNSResource count data packet names offset []) (\<lambda>(resources, data', names', offset').
     case resources of
       None \<Rightarrow> Some (Inr (None, data', names', offset'))
     | Some rs \<Rightarrow>
         oseq (decode_resources t rs packet) (\<lambda>xs. Some (Inr (Some xs, data', names', offset'))))"

section \<open>Requests and responses\<close>

record dns_request =
  rq_identifier :: int
  rq_queries :: "dns_query list"
  rq_flags :: int

definition DNSRequestType :: "int \<Rightarrow> dns_query list \<Rightarrow> dns_request" where
  "DNSRequestType identifier queries = \<lparr>rq_identifier = identifier, rq_queries = queries, rq_flags = 256\<rparr>"

definition addQuestion :: "string \<Rightarrow> string \<Rightarrow> dns_request \<Rightarrow> dns_request" where
  "addQuestion querytype question r =
     r\<lparr>rq_queries := rq_queries r @ [createQuery (Some querytype) (Some question)]\<rparr>"

record dns_response =
  rs_identifier :: nat
  rs_complete :: bool
  rs_queries :: "dns_query list"
  rs_responses :: "dns_resource list"
  rs_authorities :: "dns_resource list"
  rs_additionals :: "dns_resource list"
  rs_qtype :: "string option"
  rs_qhost :: "string option"

definition DNSResponseType :: "nat \<Rightarrow> bool \<Rightarrow> dns_query list option \<Rightarrow> dns_resource list option \<Rightarrow>
    dns_resource list option \<Rightarrow> dns_resource list option \<Rightarrow> dns_response" where
  "DNSResponseType identifier complete queries responses authorities additionals =
     (let ok = (complete \<and> queries \<noteq> None \<and> responses \<noteq> None \<and> authorities \<noteq> None \<and> additionals \<noteq> None);
          qs = (if ok then the queries else [])
      in \<lparr>rs_identifier = identifier, rs_complete = complete, rs_queries = qs,
          rs_responses = (if ok then the responses else []),
          rs_authorities = (if ok then the authorities else []),
          rs_additionals = (if ok then the additionals else []),
          rs_qtype = (case qs of [] \<Rightarrow> None | q # _ \<Rightarrow> dq_type q),
          rs_qhost = (case qs of [] \<Rightarrow> None | q # _ \<Rightarrow> dq_question q)\<rparr>)"

text \<open>\<open>names\<close> is the dictionary that is the default argument of \<open>_decodeQueries\<close>, kept between calls.\<close>

definition decodeRequest :: "dns_types \<Rightarrow> (nat \<rightharpoonup> string) \<Rightarrow> string \<Rightarrow> (dns_request option \<times> (nat \<rightharpoonup> string)) res option" where
  "decodeRequest t names request_s =
     oseq (Some (DNSHeader request_s)) (\<lambda>header.
     if h_qr header = 0 then
       oseq (decodeQueries t (drop 12 request_s) (h_query_len header) request_s names 12) (\<lambda>(queries, _, names', _).
       Some (Inr (case queries of
                    Some (q # qs) \<Rightarrow> Some (DNSRequestType (int (h_identifier header)) (q # qs))
                  | _ \<Rightarrow> None, names')))
     else Some (Inr (None, names)))"

definition createResponse :: "dns_header \<Rightarrow> dns_query list option \<Rightarrow> dns_resource list option \<Rightarrow>
    dns_resource list option \<Rightarrow> dns_resource list option \<Rightarrow> dns_response" where
  "createResponse header queries responses authorities additionals =
     DNSResponseType (h_identifier header) (h_tc header = 0) queries responses authorities additionals"

definition decodeResponse :: "dns_types \<Rightarrow> (nat \<rightharpoonup> string) \<Rightarrow> string \<Rightarrow> (dns_response \<times> (nat \<rightharpoonup> string)) res option" where
  "decodeResponse t names response_s =
     oseq (Some (DNSHeader response_s)) (\<lambda>header.
     if h_qr header = 1 then
       oseq (decodeQueries t (drop 12 response_s) (h_query_len header) response_s names 12) (\<lambda>(queries, d1, n1, o1).
       oseq (decodeResources t d1 (h_response_len header) response_s n1 o1) (\<lambda>(responses, d2, n2, o2).
       oseq (decodeResources t d2 (h_authority_len header) response_s n2 o2) (\<lambda>(authorities, d3, n3, o3).
       oseq (decodeResources t d3 (h_additional_len header) response_s n3 o3) (\<lambda>(additionals, _, n4, _).
       Some (Inr (createResponse header queries responses authorities additionals, n4))))))
     else Some (Inr (createResponse header None None None None, names)))"

section \<open>Writing packets\<close>

text \<open>\<open>name + struct.pack('>HH', dnstype, dnsclass)\<close> for one question.\<close>

definition encode_question :: "dns_types \<Rightarrow> dns_query \<Rightarrow> string res" where
  "encode_question t q =
     (let (dnstype, question) = encodeQuery t q in
      seq (or_raise AttributeError question) (\<lambda>qn.
      seq (or_raise StructError dnstype) (\<lambda>v.
      seq (pack16 v) (\<lambda>tb.
      seq (pack16 (dq_class q)) (\<lambda>cb.
      seq (or_raise TypeError (string_to_dns qn)) (\<lambda>name. Inr (name @ tb @ cb)))))))"

definition encodeRequest :: "dns_types \<Rightarrow> dns_request \<Rightarrow> string res" where
  "encodeRequest t r =
     seq (pack16 (rq_identifier r)) (\<lambda>ib.
     seq (pack16 (rq_flags r)) (\<lambda>fb.
     seq (pack16 (int (length (rq_queries r)))) (\<lambda>qb.
     seq (map_res (encode_question t) (rq_queries r)) (\<lambda>qs.
     Inr (ib @ fb @ qb @ replicate 6 (CHR 0x00) @ concat qs)))))"

definition encode_answer :: "dns_types \<Rightarrow> dns_resource \<Rightarrow> string res" where
  "encode_answer t r =
     seq (encodeResource t r) (\<lambda>(dnstype, question, decoded, ttl).
     seq (or_raise AttributeError question) (\<lambda>qn.
     seq (or_raise TypeError decoded) (\<lambda>rdata.
     seq (or_raise StructError dnstype) (\<lambda>v.
     seq (pack16 v) (\<lambda>tb.
     seq (pack16 (dr_class r)) (\<lambda>cb.
     seq (pack32 ttl) (\<lambda>lb.
     seq (pack16 (int (length rdata))) (\<lambda>nb.
     seq (or_raise TypeError (string_to_dns qn)) (\<lambda>name. Inr (name @ tb @ cb @ lb @ nb @ rdata))))))))))"

definition encodeResponse :: "dns_types \<Rightarrow> dns_response \<Rightarrow> string res" where
  "encodeResponse t r =
     seq (pack16 (int (rs_identifier r))) (\<lambda>ib.
     seq (pack16 32768) (\<lambda>fb.
     seq (pack16 (int (length (rs_queries r)))) (\<lambda>qb.
     seq (pack16 (int (length (rs_responses r)))) (\<lambda>rb.
     seq (pack16 (int (length (rs_authorities r)))) (\<lambda>ab.
     seq (pack16 (int (length (rs_additionals r)))) (\<lambda>db.
     seq (map_res (encode_question t) (rs_queries r)) (\<lambda>qs.
     seq (map_res (encode_answer t) (rs_responses r @ rs_authorities r @ rs_additionals r)) (\<lambda>rs.
     Inr (ib @ fb @ qb @ rb @ ab @ db @ concat qs @ concat rs)))))))))"

section \<open>Framing\<close>

text \<open>
  \<open>factory.py\<close>: over TCP (\<open>extended\<close>) a packet is preceded by its length. Only \<open>OverflowError\<close> is
  caught when a request is written.
\<close>

definition add_length :: "bool \<Rightarrow> string \<Rightarrow> string res" where
  "add_length extended encoded =
     (if extended then seq (pack16 (int (length encoded))) (\<lambda>lb. Inr (lb @ encoded)) else Inr encoded)"

definition serializeRequest :: "dns_types \<Rightarrow> dns_request \<Rightarrow> bool \<Rightarrow> string option res" where
  "serializeRequest t r extended =
     (case encodeRequest t r of
        Inl OverflowError \<Rightarrow> Inr None
      | Inl e \<Rightarrow> Inl e
      | Inr encoded \<Rightarrow> seq (add_length extended encoded) (\<lambda>s. Inr (Some s)))"

definition createRequestString :: "dns_types \<Rightarrow> int \<Rightarrow> string \<Rightarrow> string \<Rightarrow> bool \<Rightarrow> string option res" where
  "createRequestString t identifier request_type request_name extended =
     serializeRequest t (addQuestion request_type request_name (DNSRequestType identifier [])) extended"

definition serializeResponse :: "dns_types \<Rightarrow> dns_response \<Rightarrow> bool \<Rightarrow> string res" where
  "serializeResponse t r extended = seq (encodeResponse t r) (add_length extended)"

text \<open>The packet without its length, or the empty string when the length is not the right one.\<close>

definition remove_length :: "bool \<Rightarrow> string \<Rightarrow> string" where
  "remove_length extended s =
     (if extended then
        (case u16 (take 2 (s @ [CHR 0x00, CHR 0x00])) of
           Inr n \<Rightarrow> if n = length (drop 2 s) then drop 2 s else []
         | Inl _ \<Rightarrow> [])
      else s)"

definition normalizeRequest :: "dns_types \<Rightarrow> (nat \<rightharpoonup> string) \<Rightarrow> string \<Rightarrow> bool \<Rightarrow>
    (bool \<times> dns_request option \<times> (nat \<rightharpoonup> string)) res option" where
  "normalizeRequest t names request_s extended =
     (let s = remove_length extended request_s in
      if s \<noteq> [] then oseq (decodeRequest t names s) (\<lambda>(r, names'). Some (Inr (True, r, names')))
      else Some (Inr (False, None, names)))"

definition normalizeResponse :: "dns_types \<Rightarrow> (nat \<rightharpoonup> string) \<Rightarrow> string \<Rightarrow> bool \<Rightarrow>
    (bool \<times> dns_response option \<times> (nat \<rightharpoonup> string)) res option" where
  "normalizeResponse t names response_s extended =
     (let s = remove_length extended response_s in
      if s \<noteq> [] then oseq (decodeResponse t names s) (\<lambda>(r, names'). Some (Inr (True, Some r, names')))
      else Some (Inr (False, None, names)))"


section \<open>Facts\<close>

text \<open>The two tables of the configuration are inverse to each other.\<close>

definition types_wf :: "dns_types \<Rightarrow> bool" where
  "types_wf t \<longleftrightarrow> (\<forall>n v c. byname t n = Some (v, c) \<longleftrightarrow> byvalue t v = Some (n, c))"

lemma parse_type_line_wf:
  assumes "types_wf t" "parse_type_line line t = Inr t'"
  shows "types_wf t'"
proof (cases "prefix ''#'' (hd (split_on (CHR ''#'') (py_strip line)))")
  case True
  then show ?thesis using assms by (simp add: parse_type_line_def)
next
  case False
  obtain name v0 ty where w: "py_words (hd (split_on (CHR ''#'') (py_strip line))) = [name, v0, ty]"
    using assms(2) False by (auto simp: parse_type_line_def Let_def split: list.splits)
  from assms(2) False w obtain v c where v: "py_int v0 = Inr v" "byname t name = None" "byvalue t v = None"
    "conversion_of ty = Some c"
    "t' = t\<lparr>byname := (byname t)(name \<mapsto> (v, c)), byvalue := (byvalue t)(v \<mapsto> (name, c))\<rparr>"
    by (auto simp: parse_type_line_def Let_def seq_eq_Inr_iff simp del: not_None_eq split: if_splits option.splits)
  have "byvalue t v' \<noteq> Some (name, c')" "byname t n' \<noteq> Some (v, c')" for v' n' c'
    using assms(1) v(2,3) unfolding types_wf_def by (metis option.distinct(1))+
  then show ?thesis using assms(1) v(5) unfolding types_wf_def by auto
qed

lemma parseConfiguration_wf:
  assumes "parseConfiguration lines = Inr t"
  shows "types_wf t"
proof -
  from assms obtain ls where ls: "for_each parse_type_line ls \<lparr>byname = Map.empty, byvalue = Map.empty\<rparr> = Inr t"
    by (auto simp: parseConfiguration_def split: option.splits sum.splits)
  show ?thesis
    by (rule for_each_invariant [OF ls, where P = types_wf])
       (use parse_type_line_wf in \<open>auto simp: types_wf_def\<close>)
qed

lemma pack16_ok:
  assumes "n < 65536"
  shows "pack16 (int n) = Inr [char_of (n div 256), char_of (n mod 256)]"
    "u16 [char_of (n div 256), char_of (n mod 256)] = Inr n"
proof -
  have "n div 256 < 256" "n mod 256 < 256" using assms by auto
  then have "u8 (char_of (n div 256)) = n div 256" "u8 (char_of (n mod 256)) = n mod 256"
    by (simp_all only: u8_char_of)
  then show "u16 [char_of (n div 256), char_of (n mod 256)] = Inr n" by (simp add: u16_def del: char_of_mod_256)
  show "pack16 (int n) = Inr [char_of (n div 256), char_of (n mod 256)]"
    using assms by (simp add: pack16_def del: char_of_mod_256)
qed

text \<open>The packet of a request with one question.\<close>

definition request_packet :: "nat \<Rightarrow> nat \<Rightarrow> string list \<Rightarrow> string" where
  "request_packet identifier v ls =
     [char_of (identifier div 256), char_of (identifier mod 256), CHR 0x01, CHR 0x00, CHR 0x00, CHR 0x01]
     @ [CHR 0x00, CHR 0x00, CHR 0x00, CHR 0x00, CHR 0x00, CHR 0x00] @ labels_bytes ls @ char_of (0::nat) #
       [char_of (v div 256), char_of (v mod 256), CHR 0x00, CHR 0x01]"

lemma char_00 [simp]: "char_of (0 :: nat) = CHR 0x00" "char_of (Suc 0) = CHR 0x01"
  by (simp_all add: char_of_def bit_0)

lemma encodeRequest_packet:
  assumes "byname t n = Some (int v, c)" "identifier < 65536" "v < 65536" "ls \<noteq> []" "\<forall>l \<in> set ls. label l"
  shows "encodeRequest t (addQuestion n (py_join ''.'' ls) (DNSRequestType (int identifier) []))
    = Inr (request_packet identifier v ls)"
proof -
  have p: "pack16 256 = Inr [CHR 0x01, CHR 0x00]" "pack16 1 = Inr [CHR 0x00, CHR 0x01]"
    using pack16_ok [of 256] pack16_ok [of 1] by simp_all
  have six: "replicate 6 (CHR 0x00) = [CHR 0x00, CHR 0x00, CHR 0x00, CHR 0x00, CHR 0x00, CHR 0x00]"
    by (simp add: numeral_eq_Suc)
  show ?thesis
    using assms(1) six pack16_ok(1) [OF assms(2)] pack16_ok(1) [OF assms(3)] p string_to_dns_labels [OF assms(4,5)]
    by (simp add: encodeRequest_def addQuestion_def DNSRequestType_def createQuery_def encode_question_def
        encodeQuery_def request_packet_def del: char_of_mod_256)
qed

lemma request_header:
  assumes "identifier < 65536"
  shows "\<exists>h. DNSHeader (request_packet identifier v ls) = Inr h \<and> h_identifier h = identifier \<and> h_qr h = 0
    \<and> h_query_len h = 1"
proof -
  have u: "u16 [CHR 0x01, CHR 0x00] = Inr 256" "u16 [CHR 0x00, CHR 0x01] = Inr 1" "u16 [CHR 0x00, CHR 0x00] = Inr 0"
    by (simp_all add: u16_def u8_def)
  have sl: "py_slice 0 2 (request_packet identifier v ls) = [char_of (identifier div 256), char_of (identifier mod 256)]"
    "py_slice 2 4 (request_packet identifier v ls) = [CHR 0x01, CHR 0x00]"
    "py_slice 4 6 (request_packet identifier v ls) = [CHR 0x00, CHR 0x01]"
    "py_slice 6 8 (request_packet identifier v ls) = [CHR 0x00, CHR 0x00]"
    "py_slice 8 10 (request_packet identifier v ls) = [CHR 0x00, CHR 0x00]"
    "py_slice 10 12 (request_packet identifier v ls) = [CHR 0x00, CHR 0x00]"
    by (simp_all add: py_slice_def request_packet_def)
  show ?thesis using pack16_ok(2) [OF assms] unfolding DNSHeader_def sl u
    by (simp del: char_of_mod_256 add: drop_bit_nat_def)
qed

lemma decodeRequest_packet:
  assumes "byvalue t (int v) = Some (n, c)" "identifier < 65536" "v < 65536" "ls \<noteq> []" "\<forall>l \<in> set ls. label l"
  shows "decodeRequest t names (request_packet identifier v ls) =
    Some (Inr (Some (DNSRequestType (int identifier) [createQuery (Some n) (Some (py_join ''.'' ls))]),
               names(12 \<mapsto> py_join ''.'' ls)))"
proof -
  from request_header [OF assms(2)] obtain h where
    h: "DNSHeader (request_packet identifier v ls) = Inr h" "h_identifier h = identifier" "h_qr h = 0" "h_query_len h = 1"
    by blast
  let ?tail = "[char_of (v div 256), char_of (v mod 256), CHR 0x00, CHR 0x01]"
  have data: "drop 12 (request_packet identifier v ls) = labels_bytes ls @ char_of (0::nat) # ?tail"
    by (simp add: request_packet_def)
  have ne: "py_join ''.'' ls \<noteq> []" using assms(4,5) py_join_Nil_iff [of ls "''.''"] by (auto simp: label_def)
  then obtain a as where as: "py_join ''.'' ls = a # as" by (cases "py_join ''.'' ls") auto
  have rest: "drop (length (labels_bytes ls) + 1) (labels_bytes ls @ char_of (0::nat) # ?tail) = ?tail" by simp
  have u: "u16 [CHR 0x00, CHR 0x01] = Inr 1" by (simp add: u16_def u8_def)
  have q: "DNSQuery (labels_bytes ls @ char_of (0::nat) # ?tail) packet
    = Some (Inr (Some \<lparr>wr_question = py_join ''.'' ls, wr_type = v, wr_class = 1, wr_ttl = 0, wr_rdata = [],
                       wr_len = length (labels_bytes ls) + 1 + 4\<rparr>))" for packet
    unfolding DNSQuery_def dns_to_string_info_labels [OF assms(4,5)] oseq_simps prod.case as option.case list.case
      rest Let_def
    using pack16_ok(2) [OF assms(3)] u by (simp add: py_slice_def del: char_of_mod_256)
  show ?thesis
    unfolding decodeRequest_def oseq_simps h(1) data
    using h q assms(1) by (simp add: decodeQueries_def decodeQuery_def)
qed


lemma py_slice_at:
  assumes "i + 2 \<le> length p"
  shows "py_slice i (i + 2) p = [p ! i, p ! Suc i]"
proof -
  have "take (i + 2) p = take i p @ [p ! i, p ! Suc i]"
    using assms by (simp add: take_Suc_conv_app_nth)
  then show ?thesis using assms by (simp add: py_slice_def)
qed

lemma u16_pair [simp]: "u16 [a, b] = Inr (u8 a * 256 + u8 b)"
  by (simp add: u16_def)

lemma u16_short: "length s < 2 \<Longrightarrow> u16 s = Inl StructError"
  by (auto simp: u16_def split: list.split)

lemma seq_u16_error: "seq (u16 s) (\<lambda>_. Inl StructError) = Inl StructError"
  by (auto simp: u16_def split: list.split)

lemma DNSHeader_short:
  assumes "length p < 12"
  shows "DNSHeader p = Inl StructError"
proof -
  have "u16 (py_slice 10 12 p) = Inl StructError" by (rule u16_short) (use assms in simp)
  then show ?thesis by (simp add: DNSHeader_def seq_u16_error)
qed

lemma remove_length_add:
  assumes "add_length extended s = Inr framed" "s \<noteq> []"
  shows "remove_length extended framed = s"
proof (cases extended)
  case False
  with assms show ?thesis by (simp add: add_length_def remove_length_def)
next
  case True
  have len: "length s < 65536"
    using assms(1) True by (auto simp: add_length_def pack16_def seq_eq_Inr_iff split: if_splits)
  then show ?thesis
    using assms True pack16_ok [OF len] by (auto simp: add_length_def remove_length_def simp del: u16_pair char_of_mod_256)
qed

section \<open>Properties\<close>

text \<open>
  C35: with a configuration that was read from a file, a question that is written as a packet (over
  UDP, or over TCP with its length in front) is read back as the same question under the same
  identifier, whatever packets were read before.
\<close>

theorem dns_request_roundtrip:
  assumes "parseConfiguration lines = Inr t" "byname t n = Some (int v, c)"
    and "identifier < 65536" "v < 65536" "ls \<noteq> []" "\<forall>l \<in> set ls. label l"
    and "length (request_packet identifier v ls) < 65536"
  shows "\<exists>s. createRequestString t (int identifier) n (py_join ''.'' ls) extended = Inr (Some s)
    \<and> normalizeRequest t names s extended =
        Some (Inr (True, Some (DNSRequestType (int identifier) [createQuery (Some n) (Some (py_join ''.'' ls))]),
                   names(12 \<mapsto> py_join ''.'' ls)))"
proof -
  have byvalue: "byvalue t (int v) = Some (n, c)"
    using parseConfiguration_wf [OF assms(1)] assms(2) by (simp add: types_wf_def)
  let ?p = "request_packet identifier v ls"
  have ne: "?p \<noteq> []" by (simp add: request_packet_def)
  obtain framed where f: "add_length extended ?p = Inr framed"
    using assms(7) pack16_ok(1) [OF assms(7)] by (cases extended) (simp_all add: add_length_def)
  have "createRequestString t (int identifier) n (py_join ''.'' ls) extended = Inr (Some framed)"
    using encodeRequest_packet [OF assms(2-6)] f by (simp add: createRequestString_def serializeRequest_def)
  moreover have "normalizeRequest t names framed extended =
      Some (Inr (True, Some (DNSRequestType (int identifier) [createQuery (Some n) (Some (py_join ''.'' ls))]),
                 names(12 \<mapsto> py_join ''.'' ls)))"
    using remove_length_add [OF f ne] ne decodeRequest_packet [OF byvalue assms(3-6), of names]
    by (simp add: normalizeRequest_def)
  ultimately show ?thesis by blast
qed

theorem dns_request_roundtrip_witness:
  "\<exists>t s. parseConfiguration (Some [''A 1 ipv4'']) = Inr t
    \<and> createRequestString t (int 7) ''A'' (py_join ''.'' [''exa'', ''net'']) True = Inr (Some s)
    \<and> normalizeRequest t Map.empty s True =
        Some (Inr (True, Some (DNSRequestType (int 7) [createQuery (Some ''A'') (Some (py_join ''.'' [''exa'', ''net'']))]),
                   Map.empty(12 \<mapsto> py_join ''.'' [''exa'', ''net''])))"
proof -
  let ?t = "\<lparr>byname = [''A'' \<mapsto> (1, Ipv4)], byvalue = [1 \<mapsto> (''A'', Ipv4)]\<rparr>"
  have w: "py_words ''A 1 ipv4'' = [''A'', ''1'', ''ipv4'']"
    by (simp add: py_words.simps [of "CHR ''A'' # _"] py_words.simps [of "CHR ''1'' # _"]
        py_words.simps [of "CHR ''i'' # _"] py_lstrip_def is_space_def)
  have s: "py_strip ''A 1 ipv4'' = ''A 1 ipv4''" by (rule py_strip_id) (simp add: is_space_def)
  have i: "py_int ''1'' = Inr 1"
    by (simp add: py_int_digits py_isdigit_def is_digit_def nat_of_dec_def digit_val_def)
  have cfg: "parseConfiguration (Some [''A 1 ipv4'']) = Inr ?t"
    using w s i by (simp add: parseConfiguration_def parse_type_line_def conversion_of_def)
  have "\<exists>s. createRequestString ?t (int 7) ''A'' (py_join ''.'' [''exa'', ''net'']) True = Inr (Some s)
    \<and> normalizeRequest ?t Map.empty s True =
        Some (Inr (True, Some (DNSRequestType (int 7) [createQuery (Some ''A'') (Some (py_join ''.'' [''exa'', ''net'']))]),
                   Map.empty(12 \<mapsto> py_join ''.'' [''exa'', ''net''])))"
    by (rule dns_request_roundtrip [OF cfg, where v = 1 and c = Ipv4]) (simp_all add: label_def request_packet_def)
  with cfg show ?thesis by blast
qed

text \<open>
  a packet of fewer than twelve bytes is not refused: reading it as a request or as a response
  raises \<open>struct.error\<close>, which no caller catches. The return code of a longer one is the lowest bit
  of the four: NXDOMAIN (3) is read as 1 and a server failure (2) as success.
\<close>

theorem dns_header_reading:
  "if length p < 12
   then DNSHeader p = Inl StructError \<and> decodeRequest t names p = Some (Inl StructError)
        \<and> decodeResponse t names p = Some (Inl StructError)
   else \<exists>h. DNSHeader p = Inr h \<and> h_identifier h = u8 (p ! 0) * 256 + u8 (p ! 1)
          \<and> h_rcode h = u8 (p ! 3) mod 2"
proof (cases "length p < 12")
  case True
  then show ?thesis using DNSHeader_short [OF True] by (simp add: decodeRequest_def decodeResponse_def)
next
  case False
  have sl: "py_slice 0 2 p = [p ! 0, p ! 1]" "py_slice 2 4 p = [p ! 2, p ! 3]" "py_slice 4 6 p = [p ! 4, p ! 5]"
    "py_slice 6 8 p = [p ! 6, p ! 7]" "py_slice 8 10 p = [p ! 8, p ! 9]" "py_slice 10 12 p = [p ! 10, p ! 11]"
    using False py_slice_at [of 0 p] py_slice_at [of 2 p] py_slice_at [of 4 p] py_slice_at [of 6 p]
      py_slice_at [of 8 p] py_slice_at [of 10 p] by (simp_all add: eval_nat_numeral)
  have "(u8 (p ! 2) * 256 + u8 (p ! 3)) AND 1 = u8 (p ! 3) mod 2"
    by (simp add: and_one_eq) presburger
  then show ?thesis using False unfolding DNSHeader_def sl u16_pair seq_simps by simp
qed

end
