(* ===== verification/DnsAnswer.thy ===== *)
theory DnsAnswer
  imports DnsCodec
begin

text \<open>
  \<open>lib/exaproxy/dns/definition.py\<close>: how the answer to a question is taken out of a response, CNAME
  records being followed. The choice among several records is \<open>random.choice\<close>, a parameter
  \<open>pick k xs\<close> that gives the \<open>k\<close>-th choice made, from the list \<open>xs\<close>.
\<close>

type_synonym dns_info = "string option \<rightharpoonup> (string option \<rightharpoonup> string option list)"

text \<open>\<open>info.setdefault(question, {}).setdefault(querytype, []).append(response)\<close>.\<close>

definition info_add :: "dns_resource \<Rightarrow> dns_info \<Rightarrow> dns_info" where
  "info_add r info =
     (let by_type = dict_get info (dr_question r) Map.empty
      in info(dr_question r \<mapsto>
           by_type(dr_type r \<mapsto> dict_get by_type (dr_type r) [] @ [dr_response r])))"

definition resources :: "dns_response \<Rightarrow> dns_resource list" where
  "resources r = rs_responses r @ rs_authorities r @ rs_additionals r"

definition getResponse :: "dns_response \<Rightarrow> dns_info" where
  "getResponse r = fold info_add (resources r) Map.empty"

type_synonym chooser = "nat \<Rightarrow> string option list \<Rightarrow> string option"

definition dns_extract :: "chooser \<Rightarrow> nat \<Rightarrow> string option \<Rightarrow> string option \<Rightarrow> dns_info \<Rightarrow> string option" where
  "dns_extract pick k hostname rdtype info =
     (case info hostname of
        None \<Rightarrow> None
      | Some data \<Rightarrow> (case data rdtype of None \<Rightarrow> None | Some values \<Rightarrow> pick k values))"

definition getValue :: "chooser \<Rightarrow> nat \<Rightarrow> string option \<Rightarrow> string option \<Rightarrow> dns_response \<Rightarrow>
    string option \<times> string option" where
  "getValue pick k question0 qtype0 r =
     (let question = (case rs_queries r of q # _ \<Rightarrow> if question0 = None then dq_question q else question0
                      | [] \<Rightarrow> question0);
          qtype = (case rs_queries r of q # _ \<Rightarrow> if qtype0 = None then dq_type q else qtype0 | [] \<Rightarrow> qtype0)
      in (qtype, dns_extract pick k question qtype (getResponse r)))"

text \<open>The loop of \<open>getChainedValue\<close>: the last name of the chain, and the choices made.\<close>

partial_function (option) chain_loop :: "chooser \<Rightarrow> nat \<Rightarrow> dns_response \<Rightarrow> string option \<Rightarrow> string option \<Rightarrow> string option \<Rightarrow>
    (nat \<times> string option) option" where
  "chain_loop pick k r cname qtype question =
     (if question \<noteq> None \<and> qtype = Some ''CNAME'' then
        (case getValue pick k question qtype r of
           (qtype', question') \<Rightarrow> chain_loop pick (Suc k) r question qtype' question')
      else Some (k, cname))"

definition getChainedValue :: "chooser \<Rightarrow> dns_response \<Rightarrow> (string option \<times> string option) option" where
  "getChainedValue pick r =
     map_option (\<lambda>(k, cname). getValue pick k cname None r)
       (case rs_queries r of
          [] \<Rightarrow> Some (0, None)
        | q # _ \<Rightarrow> chain_loop pick 0 r None (Some ''CNAME'') (dq_question q))"

definition getRelated :: "dns_response \<Rightarrow> string option" where
  "getRelated r =
     (case filter (\<lambda>x. dr_type x = Some ''CNAME'') (rs_responses r) of [] \<Rightarrow> None | x # _ \<Rightarrow> dr_response x)"

section \<open>Facts\<close>

text \<open>What the dictionary holds is what the records say, in their order.\<close>

definition answers :: "string option \<Rightarrow> string option \<Rightarrow> dns_resource list \<Rightarrow> string option list" where
  "answers q ty rs = map dr_response (filter (\<lambda>r. dr_question r = q \<and> dr_type r = ty) rs)"

definition info_list :: "dns_info \<Rightarrow> string option \<Rightarrow> string option \<Rightarrow> string option list" where
  "info_list info q ty = dict_get (dict_get info q Map.empty) ty []"

lemma info_list_add:
  "info_list (info_add r info) q ty =
     info_list info q ty @ (if dr_question r = q \<and> dr_type r = ty then [dr_response r] else [])"
  by (auto simp: info_list_def info_add_def Let_def dict_get_def)

lemma info_list_fold: "info_list (fold info_add rs info) q ty = info_list info q ty @ answers q ty rs"
  by (induction rs arbitrary: info) (auto simp: info_list_add answers_def)

definition info_wf :: "dns_info \<Rightarrow> bool" where
  "info_wf info \<longleftrightarrow> (\<forall>q m ty vs. info q = Some m \<longrightarrow> m ty = Some vs \<longrightarrow> vs \<noteq> [])"

lemma info_wf_fold: "info_wf info \<Longrightarrow> info_wf (fold info_add rs info)"
proof (induction rs arbitrary: info)
  case (Cons r rs)
  have "info_wf (info_add r info)"
    using Cons.prems unfolding info_wf_def info_add_def Let_def
    by (auto simp: dict_get_def split: if_splits option.splits)
  with Cons.IH show ?case by simp
qed simp

lemma getResponse_extract:
  "dns_extract pick k q ty (getResponse r) =
     (if answers q ty (resources r) = [] then None else pick k (answers q ty (resources r)))"
proof -
  have l: "info_list (getResponse r) q ty = answers q ty (resources r)"
    by (simp add: getResponse_def info_list_fold) (simp add: info_list_def)
  have "info_wf Map.empty" by (simp add: info_wf_def)
  then have wf: "info_wf (getResponse r)" by (simp add: getResponse_def info_wf_fold)
  show ?thesis
  proof (cases "getResponse r q")
    case None
    with l show ?thesis by (simp add: dns_extract_def info_list_def)
  next
    case (Some m)
    with l wf show ?thesis
      by (cases "m ty") (auto simp: dns_extract_def info_list_def info_wf_def)
  qed
qed

lemma getValue_given: "getValue pick k (Some q) (Some ty) r = (Some ty, dns_extract pick k (Some q) (Some ty) (getResponse r))"
  by (simp add: getValue_def Let_def split: list.split)

text \<open>A measure that every CNAME record of the response decreases: the records form no circle.\<close>

definition acyclic :: "(string \<Rightarrow> nat) \<Rightarrow> dns_response \<Rightarrow> bool" where
  "acyclic rank r \<longleftrightarrow>
     (\<forall>x \<in> set (resources r). \<forall>a b. dr_type x = Some ''CNAME'' \<longrightarrow> dr_question x = Some a \<longrightarrow>
        dr_response x = Some b \<longrightarrow> rank b < rank a)"

definition fair :: "chooser \<Rightarrow> bool" where
  "fair pick \<longleftrightarrow> (\<forall>k xs. xs \<noteq> [] \<longrightarrow> pick k xs \<in> set xs)"

lemma chain_loop_returns:
  assumes "acyclic rank r" "fair pick"
  shows "chain_loop pick k r c (Some ''CNAME'') question \<noteq> None"
proof (induction "case question of None \<Rightarrow> 0 | Some q \<Rightarrow> Suc (rank q)" arbitrary: question c k rule: less_induct)
  case less
  show ?case
  proof (cases question)
    case None
    then show ?thesis by (subst chain_loop.simps) simp
  next
    case (Some q)
    let ?next = "dns_extract pick k (Some q) (Some ''CNAME'') (getResponse r)"
    have "(case ?next of None \<Rightarrow> 0 | Some q \<Rightarrow> Suc (rank q)) < Suc (rank q)"
    proof (cases ?next)
      case None
      then show ?thesis by simp
    next
      case nb: (Some b)
      then have ne: "answers (Some q) (Some ''CNAME'') (resources r) \<noteq> []"
        by (auto simp: getResponse_extract split: if_splits)
      then have "Some b \<in> set (answers (Some q) (Some ''CNAME'') (resources r))"
        using nb assms(2) by (metis fair_def getResponse_extract)
      then have "rank b < rank q" using assms(1) by (auto simp: answers_def acyclic_def)
      with nb show ?thesis by simp
    qed
    then have "chain_loop pick (Suc k) r question (Some ''CNAME'') ?next \<noteq> None"
      by (intro less) (simp add: Some)
    then show ?thesis by (subst chain_loop.simps) (simp add: Some getValue_given)
  qed
qed


lemma chain_loop_circle_aux:
  assumes "chain_loop pick' k' r' c' qtype' question' = Some res"
    and "\<And>k. dns_extract pick k (Some q) (Some ''CNAME'') (getResponse r) = Some q"
  shows "\<not> (pick' = pick \<and> r' = r \<and> qtype' = Some ''CNAME'' \<and> question' = Some q)"
proof (rule chain_loop.raw_induct [OF _ assms(1)])
  fix f pick' k' r' c' qtype' question' res
  assume IH: "\<And>pick' k' r' c' qtype' question' res. f pick' k' r' c' qtype' question' = Some res \<Longrightarrow>
      \<not> (pick' = pick \<and> r' = r \<and> qtype' = Some ''CNAME'' \<and> question' = Some q)"
    and body: "(if question' \<noteq> None \<and> qtype' = Some ''CNAME'' then
        (case getValue pick' k' question' qtype' r' of
           (qtype', question'') \<Rightarrow> f pick' (Suc k') r' question' qtype' question'')
      else Some (k', c')) = Some res"
  show "\<not> (pick' = pick \<and> r' = r \<and> qtype' = Some ''CNAME'' \<and> question' = Some q)"
  proof
    assume eq: "pick' = pick \<and> r' = r \<and> qtype' = Some ''CNAME'' \<and> question' = Some q"
    then have "f pick (Suc k') r (Some q) (Some ''CNAME'') (Some q) = Some res"
      using body assms(2) by (simp add: getValue_given)
    from IH [OF this] show False by simp
  qed
qed

section \<open>Properties\<close>

text \<open>
  following the CNAME records of a response returns when the records form no circle, and what it
  returns is one of the values the response gives for the name at the end; when the only alias a
  response gives for the name asked is that name, it never returns.
\<close>

theorem dns_chained_value:
  assumes "fair pick" "rs_queries r = q # qs" "dq_question q = Some host" "dq_type q = Some ty"
  shows "(acyclic rank r \<longrightarrow>
       (\<exists>name v. getChainedValue pick r = Some (Some ty, v) \<and>
          (v = None \<or> v \<in> set (answers name (Some ty) (resources r)))))
    \<and> (answers (Some host) (Some ''CNAME'') (resources r) = [Some host] \<longrightarrow> getChainedValue pick r = None)"
proof (intro conjI impI)
  assume "acyclic rank r"
  from chain_loop_returns [OF this assms(1)] obtain k name where
    k: "chain_loop pick 0 r None (Some ''CNAME'') (Some host) = Some (k, name)" by fastforce
  define question where "question = (if name = None then dq_question q else name)"
  have "getChainedValue pick r = Some (Some ty, dns_extract pick k question (Some ty) (getResponse r))"
    using k assms(2-4) by (simp add: getChainedValue_def getValue_def question_def Let_def)
  moreover have "dns_extract pick k question (Some ty) (getResponse r) = None
      \<or> dns_extract pick k question (Some ty) (getResponse r) \<in> set (answers question (Some ty) (resources r))"
    using assms(1) by (simp add: getResponse_extract fair_def)
  ultimately show "\<exists>name v. getChainedValue pick r = Some (Some ty, v) \<and>
          (v = None \<or> v \<in> set (answers name (Some ty) (resources r)))" by blast
next
  assume self: "answers (Some host) (Some ''CNAME'') (resources r) = [Some host]"
  have "dns_extract pick k (Some host) (Some ''CNAME'') (getResponse r) = Some host" for k
  proof -
    have "pick k [Some host] \<in> set [Some host]" using assms(1) unfolding fair_def by blast
    then show ?thesis using self by (simp add: getResponse_extract)
  qed
  then have "chain_loop pick 0 r None (Some ''CNAME'') (Some host) = None"
    using chain_loop_circle_aux by (metis not_Some_eq)
  then show "getChainedValue pick r = None" using assms(2,3) by (simp add: getChainedValue_def)
qed

theorem dns_chained_value_witness:
  "\<exists>name v. getChainedValue (\<lambda>_. hd) (DNSResponseType 1 True (Some [createQuery (Some ''A'') (Some ''a'')])
       (Some [createResource (Some ''CNAME'') (Some ''a'') (Some ''b'') 60,
              createResource (Some ''A'') (Some ''b'') (Some ''10.0.0.1'') 60]) (Some []) (Some []))
     = Some (Some ''A'', v) \<and>
     (v = None \<or> v \<in> set (answers name (Some ''A'') (resources (DNSResponseType 1 True
       (Some [createQuery (Some ''A'') (Some ''a'')])
       (Some [createResource (Some ''CNAME'') (Some ''a'') (Some ''b'') 60,
              createResource (Some ''A'') (Some ''b'') (Some ''10.0.0.1'') 60]) (Some []) (Some [])))))"
proof -
  let ?r = "DNSResponseType 1 True (Some [createQuery (Some ''A'') (Some ''a'')])
       (Some [createResource (Some ''CNAME'') (Some ''a'') (Some ''b'') 60,
              createResource (Some ''A'') (Some ''b'') (Some ''10.0.0.1'') 60]) (Some []) (Some [])"
  have "fair (\<lambda>_. hd)" by (simp add: fair_def)
  moreover have "acyclic (\<lambda>n. if n = ''a'' then 1 else 0) ?r"
    by (simp add: acyclic_def resources_def DNSResponseType_def createResource_def)
  ultimately show ?thesis
    using dns_chained_value [of "\<lambda>_. hd" ?r "createQuery (Some ''A'') (Some ''a'')" "[]" "''a''" "''A''"
      "\<lambda>n. if n = ''a'' then 1 else 0"]
    by (simp add: DNSResponseType_def createQuery_def)
qed

end
