(* ===== verification/Poller.thy ===== *)
theory Poller
  imports Prelude "HOL-Library.AList"
begin

text \<open>
  \<open>lib/exaproxy/network/async/epoll.py\<close>, \<open>kqueue.py\<close> and \<open>selectpoll.py\<close>: the three pollers, which watch
  sockets for named events. A socket is an object (a number); \<open>fileno\<close> gives its descriptor, \<open>None\<close>
  when it is closed (\<open>socket.error\<close>). The kernel's interest lists are part of the state. What the three
  have in common is the locale \<open>poller\<close>, interpreted on each.
\<close>

type_synonym sock = nat
type_synonym fd = nat
type_synonym event_name = string

datatype interest = EventIn | EventOut

section \<open>epoll\<close>

text \<open>
  The four objects made for an event by \<open>setupRead\<close>. They are shared between \<open>self.sockets\<close> (by name)
  and \<open>self.pollers\<close> (by descriptor of the poller), so they are kept once, under that descriptor.
\<close>

record watch_entry =
  we_name :: event_name
  we_sockets :: "sock set"
  we_fdtosock :: "fd \<rightharpoonup> sock"
  we_corked :: "sock set"
  we_kernel :: "fd \<rightharpoonup> interest"

record epoller =
  ep_sockets :: "event_name \<rightharpoonup> fd"
  ep_pollers :: "fd \<rightharpoonup> watch_entry"
  ep_master :: "fd set"
  ep_errors :: "sock \<rightharpoonup> event_name"

definition EPoller_init :: epoller where
  "EPoller_init = \<lparr>ep_sockets = Map.empty, ep_pollers = Map.empty, ep_master = {}, ep_errors = Map.empty\<rparr>"

text \<open>\<open>self.sockets[name]\<close>, and storing what the operation did to the objects.\<close>

definition ep_entry :: "event_name \<Rightarrow> epoller \<Rightarrow> (fd \<times> watch_entry) res" where
  "ep_entry name p =
     seq (or_raise KeyError (ep_sockets p name)) (\<lambda>i.
     seq (or_raise KeyError (ep_pollers p i)) (\<lambda>w. Inr (i, w)))"

definition ep_store :: "fd \<Rightarrow> watch_entry \<Rightarrow> epoller \<Rightarrow> epoller" where
  "ep_store i w p = p\<lparr>ep_pollers := (ep_pollers p)(i \<mapsto> w)\<rparr>"

definition note_error :: "sock \<Rightarrow> event_name \<Rightarrow> (sock \<rightharpoonup> event_name) \<Rightarrow> sock \<rightharpoonup> event_name" where
  "note_error sock name errors = (if errors sock = None then errors(sock \<mapsto> name) else errors)"

text \<open>
  \<open>poller.register(sock, ...)\<close> and \<open>poller.unregister(sock)\<close>: the descriptor of a closed socket is a
  \<open>socket.error\<close>; registering twice, or removing what is not there, an \<open>IOError\<close>.
\<close>

definition kernel_register :: "fd option \<Rightarrow> interest \<Rightarrow> watch_entry \<Rightarrow> watch_entry res" where
  "kernel_register fileno ev w =
     seq (or_raise SocketFailure fileno) (\<lambda>n.
     if we_kernel w n \<noteq> None then Inl OSFailure else Inr (w\<lparr>we_kernel := (we_kernel w)(n \<mapsto> ev)\<rparr>))"

definition kernel_unregister :: "fd option \<Rightarrow> watch_entry \<Rightarrow> watch_entry res" where
  "kernel_unregister fileno w =
     seq (or_raise SocketFailure fileno) (\<lambda>n.
     if we_kernel w n = None then Inl OSFailure else Inr (w\<lparr>we_kernel := (we_kernel w)(n := None)\<rparr>))"

text \<open>\<open>addReadSocket\<close> and \<open>addWriteSocket\<close> differ in the interest only.\<close>

definition EPoller_add :: "interest \<Rightarrow> (sock \<Rightarrow> fd option) \<Rightarrow> event_name \<Rightarrow> sock \<Rightarrow> epoller \<Rightarrow> (bool \<times> epoller) res" where
  "EPoller_add ev fileno name sock p =
     seq (ep_entry name p) (\<lambda>(i, w).
     if sock \<notin> we_sockets w then
       (case kernel_register (fileno sock) ev w of
          Inl SocketFailure \<Rightarrow> Inr (False, p\<lparr>ep_errors := note_error sock name (ep_errors p)\<rparr>)
        | Inl e \<Rightarrow> Inl e
        | Inr w' \<Rightarrow>
            Inr (True, ep_store i (w'\<lparr>we_sockets := insert sock (we_sockets w'),
                                     we_fdtosock := (we_fdtosock w')(the (fileno sock) \<mapsto> sock)\<rparr>) p))
     else Inr (False, p))"

definition EPoller_addReadSocket :: "(sock \<Rightarrow> fd option) \<Rightarrow> event_name \<Rightarrow> sock \<Rightarrow> epoller \<Rightarrow> (bool \<times> epoller) res" where
  "EPoller_addReadSocket = EPoller_add EventIn"

definition EPoller_addWriteSocket :: "(sock \<Rightarrow> fd option) \<Rightarrow> event_name \<Rightarrow> sock \<Rightarrow> epoller \<Rightarrow> (bool \<times> epoller) res" where
  "EPoller_addWriteSocket = EPoller_add EventOut"

text \<open>\<open>removeReadSocket\<close> and \<open>removeWriteSocket\<close>. The descriptor lookup is guarded, \<open>unregister\<close> is not.\<close>

definition forget_error :: "sock \<Rightarrow> epoller \<Rightarrow> epoller" where
  "forget_error sock p = p\<lparr>ep_errors := (ep_errors p)(sock := None)\<rparr>"

definition EPoller_remove :: "(sock \<Rightarrow> fd option) \<Rightarrow> event_name \<Rightarrow> sock \<Rightarrow> epoller \<Rightarrow> epoller res" where
  "EPoller_remove fileno name sock p =
     seq (ep_entry name p) (\<lambda>(i, w).
     seq (if sock \<in> we_sockets w then
            let w1 = w\<lparr>we_fdtosock := (case fileno sock of None \<Rightarrow> we_fdtosock w | Some n \<Rightarrow> (we_fdtosock w)(n := None)),
                       we_sockets := we_sockets w - {sock}\<rparr>
            in seq (if sock \<notin> we_corked w1 then kernel_unregister (fileno sock) w1
                    else Inr (w1\<lparr>we_corked := we_corked w1 - {sock}\<rparr>)) (\<lambda>w2. Inr (ep_store i w2 p))
          else Inr p) (\<lambda>p'. Inr (forget_error sock p')))"

definition EPoller_removeReadSocket :: "(sock \<Rightarrow> fd option) \<Rightarrow> event_name \<Rightarrow> sock \<Rightarrow> epoller \<Rightarrow> epoller res" where
  "EPoller_removeReadSocket = EPoller_remove"

definition EPoller_removeWriteSocket :: "(sock \<Rightarrow> fd option) \<Rightarrow> event_name \<Rightarrow> sock \<Rightarrow> epoller \<Rightarrow> epoller res" where
  "EPoller_removeWriteSocket = EPoller_remove"

definition EPoller_cork :: "(sock \<Rightarrow> fd option) \<Rightarrow> event_name \<Rightarrow> sock \<Rightarrow> epoller \<Rightarrow> (bool \<times> epoller) res" where
  "EPoller_cork fileno name sock p =
     seq (ep_entry name p) (\<lambda>(i, w).
     if sock \<in> we_sockets w \<and> sock \<notin> we_corked w then
       seq (kernel_unregister (fileno sock) w) (\<lambda>w'.
       Inr (True, ep_store i (w'\<lparr>we_corked := insert sock (we_corked w')\<rparr>) p))
     else Inr (False, p))"

definition EPoller_corkReadSocket :: "(sock \<Rightarrow> fd option) \<Rightarrow> event_name \<Rightarrow> sock \<Rightarrow> epoller \<Rightarrow> (bool \<times> epoller) res" where
  "EPoller_corkReadSocket = EPoller_cork"

definition EPoller_corkWriteSocket :: "(sock \<Rightarrow> fd option) \<Rightarrow> event_name \<Rightarrow> sock \<Rightarrow> epoller \<Rightarrow> (bool \<times> epoller) res" where
  "EPoller_corkWriteSocket = EPoller_cork"

definition EPoller_uncork :: "interest \<Rightarrow> (sock \<Rightarrow> fd option) \<Rightarrow> event_name \<Rightarrow> sock \<Rightarrow> epoller \<Rightarrow> (bool \<times> epoller) res" where
  "EPoller_uncork ev fileno name sock p =
     seq (ep_entry name p) (\<lambda>(i, w).
     if sock \<in> we_sockets w \<and> sock \<in> we_corked w then
       let w1 = w\<lparr>we_corked := we_corked w - {sock}\<rparr> in
       (case kernel_register (fileno sock) ev w1 of
          Inl SocketFailure \<Rightarrow>
            Inr (False, (ep_store i (w1\<lparr>we_sockets := we_sockets w1 - {sock}\<rparr>) p)
                          \<lparr>ep_errors := note_error sock name (ep_errors p)\<rparr>)
        | Inl e \<Rightarrow> Inl e
        | Inr w2 \<Rightarrow> Inr (True, ep_store i w2 p))
     else Inr (False, p))"

definition EPoller_uncorkReadSocket :: "(sock \<Rightarrow> fd option) \<Rightarrow> event_name \<Rightarrow> sock \<Rightarrow> epoller \<Rightarrow> (bool \<times> epoller) res" where
  "EPoller_uncorkReadSocket = EPoller_uncork EventIn"

definition EPoller_uncorkWriteSocket :: "(sock \<Rightarrow> fd option) \<Rightarrow> event_name \<Rightarrow> sock \<Rightarrow> epoller \<Rightarrow> (bool \<times> epoller) res" where
  "EPoller_uncorkWriteSocket = EPoller_uncork EventOut"

text \<open>\<open>new\<close> is the descriptor the kernel gives to the poller that is made.\<close>

definition EPoller_setup :: "fd \<Rightarrow> event_name \<Rightarrow> epoller \<Rightarrow> epoller" where
  "EPoller_setup new name p =
     (if ep_sockets p name = None then
        p\<lparr>ep_sockets := (ep_sockets p)(name \<mapsto> new),
          ep_pollers := (ep_pollers p)(new \<mapsto>
            \<lparr>we_name = name, we_sockets = {}, we_fdtosock = Map.empty, we_corked = {}, we_kernel = Map.empty\<rparr>),
          ep_master := insert new (ep_master p)\<rparr>
      else p)"

definition EPoller_setupRead :: "fd \<Rightarrow> event_name \<Rightarrow> epoller \<Rightarrow> epoller" where
  "EPoller_setupRead = EPoller_setup"

definition EPoller_setupWrite :: "fd \<Rightarrow> event_name \<Rightarrow> epoller \<Rightarrow> epoller" where
  "EPoller_setupWrite = EPoller_setup"

text \<open>
  \<open>clearRead\<close> and \<open>clearWrite\<close>: the event is taken out first, and set up again only when sockets were
  being watched for it.
\<close>

definition EPoller_clear :: "fd \<Rightarrow> event_name \<Rightarrow> epoller \<Rightarrow> epoller" where
  "EPoller_clear new name p =
     (case ep_sockets p name of
        None \<Rightarrow> p
      | Some i \<Rightarrow>
          let p1 = p\<lparr>ep_sockets := (ep_sockets p)(name := None)\<rparr> in
          case ep_pollers p i of
            None \<Rightarrow> p1
          | Some w \<Rightarrow>
              if we_sockets w \<noteq> {} then
                EPoller_setup new name
                  (p1\<lparr>ep_master := ep_master p1 - {i}, ep_pollers := (ep_pollers p1)(i := None)\<rparr>)
              else p1)"

definition EPoller_clearRead :: "fd \<Rightarrow> event_name \<Rightarrow> epoller \<Rightarrow> epoller" where
  "EPoller_clearRead = EPoller_clear"

definition EPoller_clearWrite :: "fd \<Rightarrow> event_name \<Rightarrow> epoller \<Rightarrow> epoller" where
  "EPoller_clearWrite = EPoller_clear"

text \<open>
  \<open>poll\<close>: \<open>ready\<close> are the pollers the master reports (\<open>Inr None\<close> when the call was interrupted, \<open>Inl\<close>
  when it fails otherwise) and
  \<open>events i\<close> the descriptors poller \<open>i\<close> reports. Every event that is set up is in the answer, unless
  the call was interrupted; the sockets that could not be watched are reported too.
\<close>

definition report_errors :: "(sock \<times> event_name) list \<Rightarrow> (event_name \<rightharpoonup> sock list) \<Rightarrow> event_name \<rightharpoonup> sock list" where
  "report_errors errors response =
     fold (\<lambda>(s, name) r. r(name \<mapsto> dict_get r name [] @ [s])) errors response"

fun poll_ready :: "(fd \<Rightarrow> fd list) \<Rightarrow> (fd \<rightharpoonup> watch_entry) \<Rightarrow> fd list \<Rightarrow> (event_name \<rightharpoonup> sock list) \<Rightarrow>
    (event_name \<rightharpoonup> sock list) res" where
  "poll_ready events pollers [] response = Inr response"
| "poll_ready events pollers (i # is) response =
     seq (or_raise KeyError (pollers i)) (\<lambda>w.
     seq (map_res (\<lambda>n. or_raise KeyError (we_fdtosock w n)) (events i)) (\<lambda>socks.
     poll_ready events pollers is (response(we_name w \<mapsto> socks))))"

definition EPoller_poll :: "fd list option res \<Rightarrow> (fd \<Rightarrow> fd list) \<Rightarrow> (sock \<times> event_name) list \<Rightarrow> epoller \<Rightarrow>
    (event_name \<rightharpoonup> sock list) res" where
  "EPoller_poll ready events errors p =
     seq ready (\<lambda>reported.
     seq (case reported of
            None \<Rightarrow> Inr Map.empty
          | Some is \<Rightarrow>
              poll_ready events (ep_pollers p) is
                (\<lambda>name. if \<exists>i \<in> dom (ep_pollers p). we_name (the (ep_pollers p i)) = name then Some [] else None))
       (\<lambda>response. Inr (report_errors errors response)))"


section \<open>kqueue\<close>

text \<open>
  The state is that of the epoll poller. Adding a socket asserts that its descriptor is not in
  \<open>fdtosock\<close>, which it enters before the kernel is told; when the socket is closed the handler uses
  \<open>fileno\<close>, which has not been assigned. The kernel accepts a filter that is already there.
\<close>

definition kqueue_control :: "fd option \<Rightarrow> interest option \<Rightarrow> watch_entry \<Rightarrow> watch_entry res" where
  "kqueue_control fileno ev w =
     seq (or_raise SocketFailure fileno) (\<lambda>n.
     if ev = None \<and> we_kernel w n = None then Inl OSFailure
     else Inr (w\<lparr>we_kernel := (we_kernel w)(n := ev)\<rparr>))"

definition KQueue_add :: "interest \<Rightarrow> (sock \<Rightarrow> fd option) \<Rightarrow> event_name \<Rightarrow> sock \<Rightarrow> epoller \<Rightarrow> (bool \<times> epoller) res" where
  "KQueue_add ev fileno name sock p =
     seq (ep_entry name p) (\<lambda>(i, w).
     if sock \<notin> we_sockets w then
       (case fileno sock of
          None \<Rightarrow> Inl UnboundLocalError
        | Some n \<Rightarrow>
            if we_fdtosock w n \<noteq> None then Inl AssertionError
            else
              seq (kqueue_control (Some n) (Some ev)
                     (w\<lparr>we_sockets := insert sock (we_sockets w), we_fdtosock := (we_fdtosock w)(n \<mapsto> sock)\<rparr>))
                (\<lambda>w'. Inr (True, ep_store i w' p)))
     else Inr (False, p))"

definition KQueue_addReadSocket :: "(sock \<Rightarrow> fd option) \<Rightarrow> event_name \<Rightarrow> sock \<Rightarrow> epoller \<Rightarrow> (bool \<times> epoller) res" where
  "KQueue_addReadSocket = KQueue_add EventIn"

definition KQueue_addWriteSocket :: "(sock \<Rightarrow> fd option) \<Rightarrow> event_name \<Rightarrow> sock \<Rightarrow> epoller \<Rightarrow> (bool \<times> epoller) res" where
  "KQueue_addWriteSocket = KQueue_add EventOut"

definition KQueue_remove :: "(sock \<Rightarrow> fd option) \<Rightarrow> event_name \<Rightarrow> sock \<Rightarrow> epoller \<Rightarrow> epoller res" where
  "KQueue_remove fileno name sock p =
     seq (ep_entry name p) (\<lambda>(i, w).
     seq (if sock \<in> we_sockets w then
            let w1 = w\<lparr>we_fdtosock := (case fileno sock of None \<Rightarrow> we_fdtosock w | Some n \<Rightarrow> (we_fdtosock w)(n := None)),
                       we_sockets := we_sockets w - {sock}\<rparr>
            in seq (if sock \<notin> we_corked w1 then kqueue_control (fileno sock) None w1
                    else Inr (w1\<lparr>we_corked := we_corked w1 - {sock}\<rparr>)) (\<lambda>w2. Inr (ep_store i w2 p))
          else Inr p) (\<lambda>p'. Inr (forget_error sock p')))"

definition KQueue_removeReadSocket :: "(sock \<Rightarrow> fd option) \<Rightarrow> event_name \<Rightarrow> sock \<Rightarrow> epoller \<Rightarrow> epoller res" where
  "KQueue_removeReadSocket = KQueue_remove"

definition KQueue_removeWriteSocket :: "(sock \<Rightarrow> fd option) \<Rightarrow> event_name \<Rightarrow> sock \<Rightarrow> epoller \<Rightarrow> epoller res" where
  "KQueue_removeWriteSocket = KQueue_remove"

definition KQueue_cork :: "(sock \<Rightarrow> fd option) \<Rightarrow> event_name \<Rightarrow> sock \<Rightarrow> epoller \<Rightarrow> (bool \<times> epoller) res" where
  "KQueue_cork fileno name sock p =
     seq (ep_entry name p) (\<lambda>(i, w).
     if sock \<in> we_sockets w \<and> sock \<notin> we_corked w then
       seq (kqueue_control (fileno sock) None (w\<lparr>we_corked := insert sock (we_corked w)\<rparr>)) (\<lambda>w'.
       Inr (True, ep_store i w' p))
     else Inr (False, p))"

definition KQueue_corkReadSocket :: "(sock \<Rightarrow> fd option) \<Rightarrow> event_name \<Rightarrow> sock \<Rightarrow> epoller \<Rightarrow> (bool \<times> epoller) res" where
  "KQueue_corkReadSocket = KQueue_cork"

definition KQueue_corkWriteSocket :: "(sock \<Rightarrow> fd option) \<Rightarrow> event_name \<Rightarrow> sock \<Rightarrow> epoller \<Rightarrow> (bool \<times> epoller) res" where
  "KQueue_corkWriteSocket = KQueue_cork"

definition KQueue_uncork :: "interest \<Rightarrow> (sock \<Rightarrow> fd option) \<Rightarrow> event_name \<Rightarrow> sock \<Rightarrow> epoller \<Rightarrow> (bool \<times> epoller) res" where
  "KQueue_uncork ev fileno name sock p =
     seq (ep_entry name p) (\<lambda>(i, w).
     if sock \<in> we_sockets w \<and> sock \<in> we_corked w then
       let w1 = w\<lparr>we_corked := we_corked w - {sock}\<rparr> in
       (case kqueue_control (fileno sock) (Some ev) w1 of
          Inl SocketFailure \<Rightarrow>
            Inr (False, (ep_store i (w1\<lparr>we_sockets := we_sockets w1 - {sock}\<rparr>) p)
                          \<lparr>ep_errors := note_error sock name (ep_errors p)\<rparr>)
        | Inl e \<Rightarrow> Inl e
        | Inr w2 \<Rightarrow> Inr (True, ep_store i w2 p))
     else Inr (False, p))"

definition KQueue_uncorkReadSocket :: "(sock \<Rightarrow> fd option) \<Rightarrow> event_name \<Rightarrow> sock \<Rightarrow> epoller \<Rightarrow> (bool \<times> epoller) res" where
  "KQueue_uncorkReadSocket = KQueue_uncork EventIn"

definition KQueue_uncorkWriteSocket :: "(sock \<Rightarrow> fd option) \<Rightarrow> event_name \<Rightarrow> sock \<Rightarrow> epoller \<Rightarrow> (bool \<times> epoller) res" where
  "KQueue_uncorkWriteSocket = KQueue_uncork EventOut"

text \<open>Setting up and clearing are as for epoll; clearing a write event sets up a read event of its name.\<close>

definition KQueue_setupRead :: "fd \<Rightarrow> event_name \<Rightarrow> epoller \<Rightarrow> epoller" where
  "KQueue_setupRead new name p = EPoller_setup new name p"

definition KQueue_setupWrite :: "fd \<Rightarrow> event_name \<Rightarrow> epoller \<Rightarrow> epoller" where
  "KQueue_setupWrite new name p = EPoller_setup new name p"

definition KQueue_clearRead :: "fd \<Rightarrow> event_name \<Rightarrow> epoller \<Rightarrow> epoller" where
  "KQueue_clearRead new name p = EPoller_clear new name p"

definition KQueue_clearWrite :: "fd \<Rightarrow> event_name \<Rightarrow> epoller \<Rightarrow> epoller" where
  "KQueue_clearWrite new name p = EPoller_clear new name p"

section \<open>select\<close>

text \<open>
  What is stored for an event: the list made by \<open>setupRead\<close>, or the empty dictionary that \<open>clearRead\<close>
  puts in its place (which has no \<open>append\<close>). The dictionaries are lists of pairs in insertion order.
\<close>

datatype select_socks = SockList "sock list" | EmptyDict

record select_poller =
  sp_read :: "(event_name \<times> select_socks) list"
  sp_write :: "(event_name \<times> select_socks) list"
  sp_read_modified :: "event_name set"
  sp_write_modified :: "event_name set"
  sp_read_all :: "sock list"
  sp_write_all :: "sock list"

definition SelectPoller_init :: select_poller where
  "SelectPoller_init = \<lparr>sp_read = [], sp_write = [], sp_read_modified = {}, sp_write_modified = {},
                        sp_read_all = [], sp_write_all = []\<rparr>"

text \<open>The operations on one dictionary and the set of names modified in it.\<close>

type_synonym select_side = "(event_name \<times> select_socks) list \<times> event_name set"

definition select_add :: "event_name \<Rightarrow> sock \<Rightarrow> select_side \<Rightarrow> select_side res" where
  "select_add name s side =
     (case map_of (fst side) name of
        None \<Rightarrow> Inl KeyError
      | Some EmptyDict \<Rightarrow> Inl AttributeError
      | Some (SockList xs) \<Rightarrow>
          if s \<notin> set xs then Inr (AList.update name (SockList (xs @ [s])) (fst side), insert name (snd side))
          else Inr side)"

definition select_remove :: "event_name \<Rightarrow> sock \<Rightarrow> select_side \<Rightarrow> select_side res" where
  "select_remove name s side =
     (case map_of (fst side) name of
        None \<Rightarrow> Inl KeyError
      | Some EmptyDict \<Rightarrow> Inr side
      | Some (SockList xs) \<Rightarrow>
          if s \<in> set xs then Inr (AList.update name (SockList (remove1 s xs)) (fst side), insert name (snd side))
          else Inr side)"

definition select_setup :: "event_name \<Rightarrow> select_side \<Rightarrow> select_side" where
  "select_setup name side =
     (if map_of (fst side) name = None then (AList.update name (SockList []) (fst side), snd side) else side)"

definition select_clear :: "event_name \<Rightarrow> select_side \<Rightarrow> select_side res" where
  "select_clear name side =
     (case map_of (fst side) name of
        None \<Rightarrow> Inl KeyError
      | Some socks \<Rightarrow>
          Inr (AList.update name EmptyDict (fst side),
               if socks \<noteq> SockList [] \<and> socks \<noteq> EmptyDict then insert name (snd side) else snd side))"

definition on_read :: "(select_side \<Rightarrow> select_side res) \<Rightarrow> select_poller \<Rightarrow> select_poller res" where
  "on_read f p = seq (f (sp_read p, sp_read_modified p)) (\<lambda>(d, m). Inr (p\<lparr>sp_read := d, sp_read_modified := m\<rparr>))"

definition on_write :: "(select_side \<Rightarrow> select_side res) \<Rightarrow> select_poller \<Rightarrow> select_poller res" where
  "on_write f p = seq (f (sp_write p, sp_write_modified p)) (\<lambda>(d, m). Inr (p\<lparr>sp_write := d, sp_write_modified := m\<rparr>))"

definition SelectPoller_addReadSocket :: "event_name \<Rightarrow> sock \<Rightarrow> select_poller \<Rightarrow> select_poller res" where
  "SelectPoller_addReadSocket name s = on_read (select_add name s)"

definition SelectPoller_removeReadSocket :: "event_name \<Rightarrow> sock \<Rightarrow> select_poller \<Rightarrow> select_poller res" where
  "SelectPoller_removeReadSocket name s = on_read (select_remove name s)"

definition SelectPoller_setupRead :: "event_name \<Rightarrow> select_poller \<Rightarrow> select_poller res" where
  "SelectPoller_setupRead name = on_read (\<lambda>side. Inr (select_setup name side))"

definition SelectPoller_clearRead :: "event_name \<Rightarrow> select_poller \<Rightarrow> select_poller res" where
  "SelectPoller_clearRead name = on_read (select_clear name)"

definition SelectPoller_addWriteSocket :: "event_name \<Rightarrow> sock \<Rightarrow> select_poller \<Rightarrow> select_poller res" where
  "SelectPoller_addWriteSocket name s = on_write (select_add name s)"

definition SelectPoller_removeWriteSocket :: "event_name \<Rightarrow> sock \<Rightarrow> select_poller \<Rightarrow> select_poller res" where
  "SelectPoller_removeWriteSocket name s = on_write (select_remove name s)"

definition SelectPoller_setupWrite :: "event_name \<Rightarrow> select_poller \<Rightarrow> select_poller res" where
  "SelectPoller_setupWrite name = on_write (\<lambda>side. Inr (select_setup name side))"

definition SelectPoller_clearWrite :: "event_name \<Rightarrow> select_poller \<Rightarrow> select_poller res" where
  "SelectPoller_clearWrite name = on_write (select_clear name)"

text \<open>Corking is removing and uncorking is adding.\<close>

definition SelectPoller_corkReadSocket :: "event_name \<Rightarrow> sock \<Rightarrow> select_poller \<Rightarrow> select_poller res" where
  "SelectPoller_corkReadSocket = SelectPoller_removeReadSocket"

definition SelectPoller_uncorkReadSocket :: "event_name \<Rightarrow> sock \<Rightarrow> select_poller \<Rightarrow> select_poller res" where
  "SelectPoller_uncorkReadSocket = SelectPoller_addReadSocket"

definition SelectPoller_corkWriteSocket :: "event_name \<Rightarrow> sock \<Rightarrow> select_poller \<Rightarrow> select_poller res" where
  "SelectPoller_corkWriteSocket = SelectPoller_removeWriteSocket"

definition SelectPoller_uncorkWriteSocket :: "event_name \<Rightarrow> sock \<Rightarrow> select_poller \<Rightarrow> select_poller res" where
  "SelectPoller_uncorkWriteSocket = SelectPoller_addWriteSocket"


text \<open>
  What \<open>select.select\<close> answers is the parameter \<open>sel\<close>, of the number of the call and the two lists;
  \<open>None\<close> is a failure of the block kind (three empty lists). A dictionary cannot be added to a list:
  \<open>read + write\<close> raises \<open>TypeError\<close>, which is logged and raised again.
\<close>

type_synonym select_oracle = "nat \<Rightarrow> sock list \<Rightarrow> sock list \<Rightarrow> (sock list \<times> sock list) option res"

definition poll_select :: "select_oracle \<Rightarrow> nat \<Rightarrow> select_socks \<Rightarrow> select_socks \<Rightarrow> (sock list \<times> sock list) res" where
  "poll_select sel k rd wr =
     (case (rd, wr) of
        (SockList r, SockList w) \<Rightarrow>
          seq (sel k r w) (\<lambda>answer. Inr (case answer of None \<Rightarrow> ([], []) | Some x \<Rightarrow> x))
      | _ \<Rightarrow> Inl TypeError)"

fun poll_reads :: "select_oracle \<Rightarrow> nat \<Rightarrow> (event_name \<times> select_socks) list \<Rightarrow> (event_name \<rightharpoonup> sock list) \<Rightarrow>
    (nat \<times> (event_name \<rightharpoonup> sock list)) res" where
  "poll_reads sel k [] found = Inr (k, found)"
| "poll_reads sel k ((name, socks) # xs) found =
     seq (poll_select sel k socks (SockList [])) (\<lambda>(r, _).
     poll_reads sel (Suc k) xs (if r \<noteq> [] then found(name \<mapsto> r) else found))"

text \<open>The loop over the write events; after the wait every event is given a list, even an empty one.\<close>

fun poll_writes :: "bool \<Rightarrow> select_oracle \<Rightarrow> nat \<Rightarrow> (event_name \<times> select_socks) list \<Rightarrow> (event_name \<rightharpoonup> sock list) \<Rightarrow>
    (nat \<times> (event_name \<rightharpoonup> sock list)) res" where
  "poll_writes always sel k [] found = Inr (k, found)"
| "poll_writes always sel k ((name, socks) # xs) found =
     seq (poll_select sel k (SockList []) socks) (\<lambda>(r, w).
     let found1 = (if always \<or> w \<noteq> [] then found(name \<mapsto> w) else found);
         found2 = (if always \<and> r \<noteq> [] then found1(name \<mapsto> r) else found1)
     in poll_writes always sel (Suc k) xs found2)"

text \<open>\<open>sum(d.values(), [])\<close>.\<close>

fun sum_socks :: "(event_name \<times> select_socks) list \<Rightarrow> sock list res" where
  "sum_socks [] = Inr []"
| "sum_socks ((_, SockList xs) # rest) = seq (sum_socks rest) (\<lambda>ys. Inr (xs @ ys))"
| "sum_socks ((_, EmptyDict) # rest) = Inl TypeError"

definition SelectPoller_poll :: "select_oracle \<Rightarrow> select_poller \<Rightarrow> ((event_name \<rightharpoonup> sock list) \<times> select_poller) res" where
  "SelectPoller_poll sel p =
     seq (poll_reads sel 0 (sp_read p) Map.empty) (\<lambda>(k1, found1).
     seq (poll_writes False sel k1 (sp_write p) found1) (\<lambda>(k2, found2).
     if found2 \<noteq> Map.empty then Inr (found2, p)
     else
       seq (if sp_read_modified p \<noteq> {} then sum_socks (sp_read p) else Inr (sp_read_all p)) (\<lambda>read_all.
       seq (if sp_write_modified p \<noteq> {} then sum_socks (sp_write p) else Inr (sp_write_all p)) (\<lambda>write_all.
       let p' = p\<lparr>sp_read_all := read_all, sp_read_modified := {},
                 sp_write_all := write_all, sp_write_modified := {}\<rparr> in
       seq (poll_select sel k2 (SockList read_all) (SockList write_all)) (\<lambda>_.
       seq (poll_reads sel (Suc k2) (sp_read p') found2) (\<lambda>(k3, found3).
       seq (poll_writes True sel k3 (sp_write p') found3) (\<lambda>(_, found4). Inr (found4, p'))))))))"

text \<open>
  The \<open>poll\<close> of the kqueue poller: a descriptor that is not in \<open>fdtosock\<close> is skipped, and a socket with
  an error is taken out and reported from then on.
\<close>

fun kqueue_events :: "event_name \<Rightarrow> (fd \<times> bool) list \<Rightarrow> watch_entry \<Rightarrow> (sock \<rightharpoonup> event_name) \<Rightarrow> sock list \<Rightarrow>
    (watch_entry \<times> (sock \<rightharpoonup> event_name) \<times> sock list) res" where
  "kqueue_events name [] w errors found = Inr (w, errors, found)"
| "kqueue_events name ((n, err) # es) w errors found =
     (case we_fdtosock w n of
        None \<Rightarrow> kqueue_events name es w errors found
      | Some s \<Rightarrow>
          if err then
            seq (kqueue_control (Some n) None (w\<lparr>we_fdtosock := (we_fdtosock w)(n := None)\<rparr>)) (\<lambda>w1.
            if s \<notin> we_sockets w1 then Inl KeyError
            else kqueue_events name es (w1\<lparr>we_sockets := we_sockets w1 - {s}\<rparr>)
                   (note_error s name errors) (found @ [s]))
          else kqueue_events name es w errors (found @ [s]))"

fun kqueue_ready :: "(fd \<Rightarrow> (fd \<times> bool) list) \<Rightarrow> fd list \<Rightarrow> epoller \<Rightarrow> (event_name \<rightharpoonup> sock list) \<Rightarrow>
    ((event_name \<rightharpoonup> sock list) \<times> epoller) res" where
  "kqueue_ready events [] p response = Inr (response, p)"
| "kqueue_ready events (i # is) p response =
     seq (or_raise KeyError (ep_pollers p i)) (\<lambda>w.
     seq (kqueue_events (we_name w) (events i) w (ep_errors p) (dict_get response (we_name w) []))
       (\<lambda>(w', errors, found).
     kqueue_ready events is ((ep_store i w' p)\<lparr>ep_errors := errors\<rparr>) (response(we_name w \<mapsto> found))))"

definition KQueue_poll :: "fd list option res \<Rightarrow> (fd \<Rightarrow> (fd \<times> bool) list) \<Rightarrow> ((sock \<rightharpoonup> event_name) \<Rightarrow> (sock \<times> event_name) list) \<Rightarrow>
    epoller \<Rightarrow> ((event_name \<rightharpoonup> sock list) \<times> epoller) res" where
  "KQueue_poll ready events errors_list p =
     seq ready (\<lambda>reported.
     seq (case reported of
            None \<Rightarrow> Inr (Map.empty, p)
          | Some is \<Rightarrow>
              kqueue_ready events is p
                (\<lambda>name. if \<exists>i \<in> dom (ep_pollers p). we_name (the (ep_pollers p i)) = name then Some [] else None))
       (\<lambda>(response, p'). Inr (report_errors (errors_list (ep_errors p')) response, p')))"

section \<open>The interface\<close>

type_synonym 'p poller_op = "event_name \<Rightarrow> sock \<Rightarrow> 'p \<Rightarrow> 'p res"

text \<open>
  What the servers, the clients and the content manager rely on. \<open>watched name p\<close> are the sockets whose
  events are reported under a name, \<open>member name p\<close> those that have been added and not removed.
\<close>

locale poller =
  fixes add remove cork uncork :: "event_name \<Rightarrow> sock \<Rightarrow> 'p \<Rightarrow> 'p res"
    and known :: "event_name \<Rightarrow> 'p \<Rightarrow> bool"
    and watched :: "event_name \<Rightarrow> 'p \<Rightarrow> sock set"
    and corked :: "event_name \<Rightarrow> sock \<Rightarrow> 'p \<Rightarrow> bool"
    and usable :: "event_name \<Rightarrow> sock set \<Rightarrow> 'p \<Rightarrow> bool"
    and inv :: "'p \<Rightarrow> bool"
  assumes add_law: "inv p \<Longrightarrow> known name p \<Longrightarrow> usable name S p \<Longrightarrow> s \<in> S \<Longrightarrow>
      \<exists>p'. add name s p = Inr p' \<and> inv p' \<and> known name p' \<and> watched name p' = insert s (watched name p)
        \<and> usable name (S - {s}) p'"
    and remove_law: "inv p \<Longrightarrow> known name p \<Longrightarrow> s \<in> watched name p \<Longrightarrow> usable name S p \<Longrightarrow>
      \<exists>p'. remove name s p = Inr p' \<and> inv p' \<and> known name p' \<and> watched name p' = watched name p - {s}
        \<and> usable name (insert s S) p'"
    and remove_idle: "inv p \<Longrightarrow> known name p \<Longrightarrow> usable name S p \<Longrightarrow> s \<in> S \<Longrightarrow>
      \<exists>p'. remove name s p = Inr p' \<and> inv p' \<and> known name p' \<and> watched name p' = watched name p
        \<and> usable name S p'"
    and usable_none: "known name p \<Longrightarrow> usable name {} p"
    and cork_law: "inv p \<Longrightarrow> known name p \<Longrightarrow> s \<in> watched name p \<Longrightarrow>
      \<exists>p'. cork name s p = Inr p' \<and> inv p' \<and> known name p' \<and> watched name p' = watched name p - {s}
        \<and> corked name s p'"
    and uncork_law: "inv p \<Longrightarrow> known name p \<Longrightarrow> corked name s p \<Longrightarrow>
      \<exists>p'. uncork name s p = Inr p' \<and> inv p' \<and> known name p' \<and> watched name p' = insert s (watched name p)"
begin

lemma cork_uncork:
  assumes "inv p" "known name p" "s \<in> watched name p"
  shows "\<exists>p'. seq (cork name s p) (uncork name s) = Inr p' \<and> inv p' \<and> watched name p' = watched name p"
proof -
  from cork_law [OF assms] obtain q where q: "cork name s p = Inr q" "inv q" "known name q"
    "watched name q = watched name p - {s}" "corked name s q" by blast
  from uncork_law [OF q(2,3,5)] q assms(3) show ?thesis by auto
qed

lemma add_all:
  assumes "inv p" "known name p" "distinct ss" "usable name S p" "set ss \<subseteq> S"
  shows "\<exists>p'. for_each (add name) ss p = Inr p' \<and> inv p' \<and> known name p'
    \<and> watched name p' = watched name p \<union> set ss \<and> usable name (S - set ss) p'"
  using assms
proof (induction ss arbitrary: p S)
  case (Cons s ss)
  from add_law [OF Cons.prems(1,2,4), of s] Cons.prems(5) obtain q where
    q: "add name s p = Inr q" "inv q" "known name q" "watched name q = insert s (watched name p)" "usable name (S - {s}) q"
    by auto
  from Cons.IH [OF q(2,3) _ q(5)] Cons.prems(3,5) have
    "\<exists>p'. for_each (add name) ss q = Inr p' \<and> inv p' \<and> known name p'
      \<and> watched name p' = watched name q \<union> set ss \<and> usable name (S - {s} - set ss) p'" by auto
  moreover have "S - {s} - set ss = S - set (s # ss)" by auto
  ultimately show ?case using q by auto
qed auto

lemma remove_all:
  assumes "inv p" "known name p" "distinct ss" "usable name S p" "set ss \<subseteq> watched name p"
  shows "\<exists>p'. for_each (remove name) ss p = Inr p' \<and> inv p' \<and> known name p'
    \<and> watched name p' = watched name p - set ss \<and> usable name (S \<union> set ss) p'"
  using assms
proof (induction ss arbitrary: p S)
  case (Cons s ss)
  from remove_law [OF Cons.prems(1,2) _ Cons.prems(4), of s] Cons.prems(5) obtain q where
    q: "remove name s p = Inr q" "inv q" "known name q" "watched name q = watched name p - {s}" "usable name (insert s S) q"
    by auto
  from Cons.IH [OF q(2,3) _ q(5)] Cons.prems(3,5) q(4) have
    "\<exists>p'. for_each (remove name) ss q = Inr p' \<and> inv p' \<and> known name p'
      \<and> watched name p' = watched name q - set ss \<and> usable name (insert s S \<union> set ss) p'" by auto
  moreover have "watched name q - set ss = watched name p - set (s # ss)" "insert s S \<union> set ss = S \<union> set (s # ss)"
    using q(4) by auto
  ultimately show ?case using q by auto
qed auto

lemma remove_all_idle:
  assumes "inv p" "known name p" "usable name S p" "set ss \<subseteq> S"
  shows "\<exists>p'. for_each (remove name) ss p = Inr p' \<and> inv p' \<and> known name p'
    \<and> watched name p' = watched name p \<and> usable name S p'"
  using assms
proof (induction ss arbitrary: p)
  case (Cons s ss)
  from remove_idle [OF Cons.prems(1-3), of s] Cons.prems(4) obtain q where
    q: "remove name s p = Inr q" "inv q" "known name q" "watched name q = watched name p" "usable name S q"
    by auto
  from Cons.IH [OF q(2,3,5)] Cons.prems(4) q show ?case by auto
qed auto

lemma remove_add:
  assumes "inv p" "known name p" "s \<in> watched name p"
  shows "\<exists>p'. seq (remove name s p) (add name s) = Inr p' \<and> inv p' \<and> watched name p' = watched name p"
proof -
  from remove_law [OF assms usable_none [OF assms(2)]] obtain q where q: "remove name s p = Inr q" "inv q" "known name q"
    "watched name q = watched name p - {s}" "usable name {s} q" by blast
  from add_law [OF q(2,3,5), of s] q assms(3) show ?thesis by auto
qed

end


section \<open>The pollers provide it\<close>

text \<open>
  While every socket is open: a watched socket is one whose descriptor the kernel has and every
  descriptor in \<open>fdtosock\<close> is that of a member.
\<close>

definition entry_ok :: "(sock \<Rightarrow> fd option) \<Rightarrow> watch_entry \<Rightarrow> bool" where
  "entry_ok fileno w \<longleftrightarrow> we_corked w \<subseteq> we_sockets w
     \<and> (\<forall>s \<in> we_sockets w. fileno s \<noteq> None) \<and> inj_on fileno (we_sockets w)
     \<and> (\<forall>n. we_kernel w n \<noteq> None \<longleftrightarrow> (\<exists>s \<in> we_sockets w - we_corked w. fileno s = Some n))
     \<and> (\<forall>n. we_fdtosock w n \<noteq> None \<longleftrightarrow> (\<exists>s \<in> we_sockets w. fileno s = Some n))"

definition epoller_ok :: "(sock \<Rightarrow> fd option) \<Rightarrow> epoller \<Rightarrow> bool" where
  "epoller_ok fileno p \<longleftrightarrow> (\<forall>i w. ep_pollers p i = Some w \<longrightarrow> entry_ok fileno w)"

definition ep_known :: "event_name \<Rightarrow> epoller \<Rightarrow> bool" where
  "ep_known name p \<longleftrightarrow> (\<exists>i w. ep_entry name p = Inr (i, w))"

definition ep_watched :: "event_name \<Rightarrow> epoller \<Rightarrow> sock set" where
  "ep_watched name p = (case ep_entry name p of Inl _ \<Rightarrow> {} | Inr (_, w) \<Rightarrow> we_sockets w - we_corked w)"

definition ep_corked :: "event_name \<Rightarrow> sock \<Rightarrow> epoller \<Rightarrow> bool" where
  "ep_corked name s p = (case ep_entry name p of Inl _ \<Rightarrow> False | Inr (_, w) \<Rightarrow> s \<in> we_corked w)"

definition ep_usable :: "(sock \<Rightarrow> fd option) \<Rightarrow> event_name \<Rightarrow> sock set \<Rightarrow> epoller \<Rightarrow> bool" where
  "ep_usable fileno name S p =
     (case ep_entry name p of Inl _ \<Rightarrow> False
      | Inr (_, w) \<Rightarrow> (\<forall>s \<in> S. fileno s \<noteq> None \<and> fileno s \<notin> fileno ` we_sockets w) \<and> inj_on fileno S)"

lemma ep_entry_Inr: "ep_entry name p = Inr (i, w) \<longleftrightarrow> ep_sockets p name = Some i \<and> ep_pollers p i = Some w"
  by (auto simp: ep_entry_def seq_eq_Inr_iff)

lemma ep_store_entry:
  assumes "ep_entry name p = Inr (i, w)"
  shows "ep_entry name (ep_store i w' p) = Inr (i, w')"
    "ep_entry name ((ep_store i w' p)\<lparr>ep_errors := e\<rparr>) = Inr (i, w')"
  using assms by (simp_all add: ep_entry_Inr ep_store_def)

lemma ep_store_ok:
  assumes "epoller_ok fileno p" "entry_ok fileno w'"
  shows "epoller_ok fileno (ep_store i w' p)" "epoller_ok fileno ((ep_store i w' p)\<lparr>ep_errors := e\<rparr>)"
  using assms by (simp_all add: epoller_ok_def ep_store_def)

lemma entry_ok_of: "epoller_ok fileno p \<Longrightarrow> ep_entry name p = Inr (i, w) \<Longrightarrow> entry_ok fileno w"
  by (auto simp: epoller_ok_def ep_entry_Inr)

text \<open>The entries an operation leaves: a socket added, taken out, corked and uncorked.\<close>

lemma entry_added:
  assumes "entry_ok fileno w" "fileno s = Some n" "Some n \<notin> fileno ` we_sockets w"
  shows "entry_ok fileno (w\<lparr>we_sockets := insert s (we_sockets w), we_fdtosock := (we_fdtosock w)(n \<mapsto> s),
      we_kernel := (we_kernel w)(n \<mapsto> ev)\<rparr>)"
    and "we_kernel w n = None" "we_fdtosock w n = None" "s \<notin> we_sockets w" "s \<notin> we_corked w"
proof -
  show s: "s \<notin> we_sockets w" using assms(2,3) by force
  then show c: "s \<notin> we_corked w" using assms(1) by (auto simp: entry_ok_def)
  show "we_kernel w n = None" "we_fdtosock w n = None"
    using assms(1,3) unfolding entry_ok_def by (metis DiffD1 imageI, metis imageI)
  have eq: "insert s (we_sockets w) - we_corked w = insert s (we_sockets w - we_corked w)" using c by blast
  show "entry_ok fileno (w\<lparr>we_sockets := insert s (we_sockets w), we_fdtosock := (we_fdtosock w)(n \<mapsto> s),
      we_kernel := (we_kernel w)(n \<mapsto> ev)\<rparr>)"
    using assms s c unfolding entry_ok_def by (simp add: eq) (metis (no_types, opaque_lifting) subset_insertI2)
qed


lemma entry_ok_fileno:
  assumes "entry_ok fileno w" "s \<in> we_sockets w"
  obtains n where "fileno s = Some n"
  using assms by (auto simp: entry_ok_def)

lemma entry_ok_inj:
  "entry_ok fileno w \<Longrightarrow> s \<in> we_sockets w \<Longrightarrow> t \<in> we_sockets w \<Longrightarrow> fileno s = fileno t \<Longrightarrow> s = t"
  unfolding entry_ok_def inj_on_def by blast

lemma entry_okI:
  assumes "we_corked w \<subseteq> we_sockets w" "\<And>s. s \<in> we_sockets w \<Longrightarrow> fileno s \<noteq> None" "inj_on fileno (we_sockets w)"
    and "\<And>m. (we_kernel w m = None) = (\<forall>s \<in> we_sockets w - we_corked w. fileno s \<noteq> Some m)"
    and "\<And>m. (we_fdtosock w m = None) = (\<forall>s \<in> we_sockets w. fileno s \<noteq> Some m)"
  shows "entry_ok fileno w"
  unfolding entry_ok_def
  by (intro conjI ballI allI) (use assms in \<open>simp_all del: not_None_eq not_Some_eq\<close>)

lemma entry_okD:
  assumes "entry_ok fileno w"
  shows "we_corked w \<subseteq> we_sockets w" "s \<in> we_sockets w \<Longrightarrow> fileno s \<noteq> None" "inj_on fileno (we_sockets w)"
    "(we_kernel w m = None) = (\<forall>s \<in> we_sockets w - we_corked w. fileno s \<noteq> Some m)"
    "(we_fdtosock w m = None) = (\<forall>s \<in> we_sockets w. fileno s \<noteq> Some m)"
  using assms unfolding entry_ok_def by blast+

lemma entry_removed:
  assumes "entry_ok fileno w" "s \<in> we_sockets w - we_corked w" "fileno s = Some n"
  shows "entry_ok fileno (w\<lparr>we_fdtosock := (we_fdtosock w)(n := None), we_sockets := we_sockets w - {s},
      we_kernel := (we_kernel w)(n := None)\<rparr>)"
    and "we_kernel w n \<noteq> None" and "Some n \<notin> fileno ` (we_sockets w - {s})"
proof -
  have other: "t \<in> we_sockets w \<Longrightarrow> fileno t = Some n \<Longrightarrow> t = s" for t
    using entry_ok_inj [OF assms(1), of t s] assms(2,3) by auto
  show "we_kernel w n \<noteq> None" using assms unfolding entry_ok_def by blast
  show "Some n \<notin> fileno ` (we_sockets w - {s})" using other by (auto simp: image_iff)
  show "entry_ok fileno (w\<lparr>we_fdtosock := (we_fdtosock w)(n := None), we_sockets := we_sockets w - {s},
      we_kernel := (we_kernel w)(n := None)\<rparr>)" (is "entry_ok fileno ?w")
  proof (rule entry_okI)
    show "we_corked ?w \<subseteq> we_sockets ?w" using entry_okD(1) [OF assms(1)] assms(2) by auto
    show "t \<in> we_sockets ?w \<Longrightarrow> fileno t \<noteq> None" for t using entry_okD(2) [OF assms(1), of t] by simp
    show "inj_on fileno (we_sockets ?w)" using entry_okD(3) [OF assms(1)] by (simp add: inj_on_diff)
    show "(we_kernel ?w m = None) = (\<forall>t \<in> we_sockets ?w - we_corked ?w. fileno t \<noteq> Some m)" for m
      using entry_okD(4) [OF assms(1), of m] other assms(3) by (cases "m = n") auto
    show "(we_fdtosock ?w m = None) = (\<forall>t \<in> we_sockets ?w. fileno t \<noteq> Some m)" for m
      using entry_okD(5) [OF assms(1), of m] other assms(3) by (cases "m = n") auto
  qed
qed

lemma entry_corked:
  assumes "entry_ok fileno w" "s \<in> we_sockets w - we_corked w" "fileno s = Some n"
  shows "entry_ok fileno (w\<lparr>we_kernel := (we_kernel w)(n := None), we_corked := insert s (we_corked w)\<rparr>)"
    and "we_kernel w n \<noteq> None"
proof -
  have other: "t \<in> we_sockets w \<Longrightarrow> fileno t = Some n \<Longrightarrow> t = s" for t
    using entry_ok_inj [OF assms(1), of t s] assms(2,3) by auto
  show "we_kernel w n \<noteq> None" using assms unfolding entry_ok_def by blast
  show "entry_ok fileno (w\<lparr>we_kernel := (we_kernel w)(n := None), we_corked := insert s (we_corked w)\<rparr>)"
    (is "entry_ok fileno ?w")
  proof (rule entry_okI)
    show "we_corked ?w \<subseteq> we_sockets ?w" using entry_okD(1) [OF assms(1)] assms(2) by auto
    show "t \<in> we_sockets ?w \<Longrightarrow> fileno t \<noteq> None" for t using entry_okD(2) [OF assms(1), of t] by simp
    show "inj_on fileno (we_sockets ?w)" using entry_okD(3) [OF assms(1)] by simp
    show "(we_kernel ?w m = None) = (\<forall>t \<in> we_sockets ?w - we_corked ?w. fileno t \<noteq> Some m)" for m
      using entry_okD(4) [OF assms(1), of m] other assms(3) by (cases "m = n") auto
    show "(we_fdtosock ?w m = None) = (\<forall>t \<in> we_sockets ?w. fileno t \<noteq> Some m)" for m
      using entry_okD(5) [OF assms(1), of m] by simp
  qed
qed

lemma entry_uncorked:
  assumes "entry_ok fileno w" "s \<in> we_corked w" "fileno s = Some n"
  shows "entry_ok fileno (w\<lparr>we_corked := we_corked w - {s}, we_kernel := (we_kernel w)(n \<mapsto> ev)\<rparr>)"
    and "we_kernel w n = None" and "s \<in> we_sockets w"
proof -
  show s: "s \<in> we_sockets w" using assms(1,2) by (auto simp: entry_ok_def)
  have other: "t \<in> we_sockets w \<Longrightarrow> fileno t = Some n \<Longrightarrow> t = s" for t
    using entry_ok_inj [OF assms(1), of t s] assms(3) s by auto
  show "we_kernel w n = None" using entry_okD(4) [OF assms(1), of n] other assms(2) by auto
  show "entry_ok fileno (w\<lparr>we_corked := we_corked w - {s}, we_kernel := (we_kernel w)(n \<mapsto> ev)\<rparr>)"
    (is "entry_ok fileno ?w")
  proof (rule entry_okI)
    show "we_corked ?w \<subseteq> we_sockets ?w" using entry_okD(1) [OF assms(1)] by auto
    show "t \<in> we_sockets ?w \<Longrightarrow> fileno t \<noteq> None" for t using entry_okD(2) [OF assms(1), of t] by simp
    show "inj_on fileno (we_sockets ?w)" using entry_okD(3) [OF assms(1)] by simp
    show "(we_kernel ?w m = None) = (\<forall>t \<in> we_sockets ?w - we_corked ?w. fileno t \<noteq> Some m)" for m
    proof (cases "m = n")
      case True
      then show ?thesis using s assms(3) by auto
    next
      case False
      then have "(\<forall>t \<in> we_sockets w - (we_corked w - {s}). fileno t \<noteq> Some m)
          = (\<forall>t \<in> we_sockets w - we_corked w. fileno t \<noteq> Some m)" using assms(3) by auto
      with False entry_okD(4) [OF assms(1), of m] show ?thesis by simp
    qed
    show "(we_fdtosock ?w m = None) = (\<forall>t \<in> we_sockets ?w. fileno t \<noteq> Some m)" for m
      using entry_okD(5) [OF assms(1), of m] by simp
  qed
qed

text \<open>The operations of the interface: what is changed is the state, the boolean result is dropped.\<close>

definition state_of :: "(bool \<times> 'p) res \<Rightarrow> 'p res" where
  "state_of r = seq r (\<lambda>(_, p). Inr p)"

lemma state_of_Inr [simp]: "state_of (Inr (b, p)) = Inr p"
  by (simp add: state_of_def)

lemma EPoller_add_law:
  assumes "epoller_ok fileno p" "ep_known name p" "ep_usable fileno name S p" "s \<in> S"
  shows "\<exists>p'. state_of (EPoller_add ev fileno name s p) = Inr p' \<and> epoller_ok fileno p' \<and> ep_known name p'
    \<and> ep_watched name p' = insert s (ep_watched name p) \<and> ep_usable fileno name (S - {s}) p'"
proof -
  from assms(2) obtain i w where iw: "ep_entry name p = Inr (i, w)" by (auto simp: ep_known_def)
  note ok = entry_ok_of [OF assms(1) iw]
  from assms(3,4) iw obtain n where n: "fileno s = Some n" "Some n \<notin> fileno ` we_sockets w"
    by (auto simp: ep_usable_def)
  have rest: "fileno t \<noteq> Some n" "fileno t \<noteq> None" "fileno t \<notin> fileno ` we_sockets w" "inj_on fileno (S - {s})"
    if "t \<in> S - {s}" for t
    using assms(3,4) iw n(1) that by (auto simp: ep_usable_def inj_on_def)
  note e = entry_added [OF ok n]
  have "state_of (EPoller_add ev fileno name s p)
      = Inr (ep_store i (w\<lparr>we_sockets := insert s (we_sockets w), we_fdtosock := (we_fdtosock w)(n \<mapsto> s),
          we_kernel := (we_kernel w)(n \<mapsto> ev)\<rparr>) p)"
    using iw n e(2-4) by (cases w) (simp add: EPoller_add_def kernel_register_def)
  then show ?thesis
    using ep_store_entry [OF iw] ep_store_ok(1) [OF assms(1) e(1)] e(4,5) iw rest n(1) assms(3)
    by (auto simp: ep_known_def ep_watched_def ep_usable_def intro: inj_on_subset)
qed

lemma EPoller_remove_law:
  assumes "epoller_ok fileno p" "ep_known name p" "s \<in> ep_watched name p" "ep_usable fileno name S p"
  shows "\<exists>p'. EPoller_remove fileno name s p = Inr p' \<and> epoller_ok fileno p' \<and> ep_known name p'
    \<and> ep_watched name p' = ep_watched name p - {s} \<and> ep_usable fileno name (insert s S) p'"
proof -
  from assms(2) obtain i w where iw: "ep_entry name p = Inr (i, w)" by (auto simp: ep_known_def)
  note ok = entry_ok_of [OF assms(1) iw]
  have s: "s \<in> we_sockets w - we_corked w" using assms(3) iw by (simp add: ep_watched_def)
  then obtain n where n: "fileno s = Some n" using entry_ok_fileno [OF ok] by blast
  note e = entry_removed [OF ok s n]
  let ?w = "w\<lparr>we_fdtosock := (we_fdtosock w)(n := None), we_sockets := we_sockets w - {s},
      we_kernel := (we_kernel w)(n := None)\<rparr>"
  have "EPoller_remove fileno name s p = Inr (forget_error s (ep_store i ?w p))"
    using iw n s e(2) by (auto simp: EPoller_remove_def kernel_unregister_def)
  moreover have "epoller_ok fileno (forget_error s (ep_store i ?w p))"
    using ep_store_ok [OF assms(1) e(1)] by (simp add: forget_error_def)
  moreover have "ep_entry name (forget_error s (ep_store i ?w p)) = Inr (i, ?w)"
    using ep_store_entry(2) [OF iw] by (simp add: forget_error_def)
  moreover have "fileno t \<noteq> Some n" if "t \<in> S" for t
  proof -
    have "fileno t \<notin> fileno ` we_sockets w" using assms(4) iw that by (simp add: ep_usable_def)
    then show ?thesis using s n by (metis DiffD1 image_eqI)
  qed
  ultimately show ?thesis using iw n e(3) assms(4)
    by (auto simp: ep_known_def ep_watched_def ep_usable_def inj_on_insert)
qed

lemma ep_usable_none: "ep_known name p \<Longrightarrow> ep_usable fileno name {} p"
  by (auto simp: ep_known_def ep_usable_def)

lemma ep_remove_idle:
  assumes "epoller_ok fileno p" "ep_known name p" "ep_usable fileno name S p" "s \<in> S"
  shows "\<exists>p'. EPoller_remove fileno name s p = Inr p' \<and> epoller_ok fileno p' \<and> ep_known name p'
      \<and> ep_watched name p' = ep_watched name p \<and> ep_usable fileno name S p'"
    and "KQueue_remove fileno name s p = EPoller_remove fileno name s p"
proof -
  from assms(2) obtain i w where iw: "ep_entry name p = Inr (i, w)" by (auto simp: ep_known_def)
  then have s: "s \<notin> we_sockets w" using assms(3,4) by (auto simp: ep_usable_def)
  have e: "ep_entry name (forget_error s p) = ep_entry name p" by (simp add: forget_error_def ep_entry_def)
  have "EPoller_remove fileno name s p = Inr (forget_error s p)" using iw s by (simp add: EPoller_remove_def)
  moreover have "epoller_ok fileno (forget_error s p)" using assms(1) by (simp add: forget_error_def epoller_ok_def)
  ultimately show "\<exists>p'. EPoller_remove fileno name s p = Inr p' \<and> epoller_ok fileno p' \<and> ep_known name p'
      \<and> ep_watched name p' = ep_watched name p \<and> ep_usable fileno name S p'"
    using assms(2,3) e by (simp add: ep_known_def ep_watched_def ep_usable_def)
  show "KQueue_remove fileno name s p = EPoller_remove fileno name s p"
    using iw s by (simp add: KQueue_remove_def EPoller_remove_def)
qed

lemma EPoller_cork_law:
  assumes "epoller_ok fileno p" "ep_known name p" "s \<in> ep_watched name p"
  shows "\<exists>p'. state_of (EPoller_cork fileno name s p) = Inr p' \<and> epoller_ok fileno p' \<and> ep_known name p'
    \<and> ep_watched name p' = ep_watched name p - {s} \<and> ep_corked name s p'"
proof -
  from assms(2) obtain i w where iw: "ep_entry name p = Inr (i, w)" by (auto simp: ep_known_def)
  note ok = entry_ok_of [OF assms(1) iw]
  have s: "s \<in> we_sockets w - we_corked w" using assms(3) iw by (simp add: ep_watched_def)
  then obtain n where n: "fileno s = Some n" using entry_ok_fileno [OF ok] by blast
  note e = entry_corked [OF ok s n]
  have "state_of (EPoller_cork fileno name s p)
      = Inr (ep_store i (w\<lparr>we_kernel := (we_kernel w)(n := None), we_corked := insert s (we_corked w)\<rparr>) p)"
    using iw n s e(2) by (auto simp: EPoller_cork_def kernel_unregister_def)
  then show ?thesis
    using ep_store_entry [OF iw] ep_store_ok(1) [OF assms(1) e(1)] iw
    by (auto simp: ep_known_def ep_watched_def ep_corked_def)
qed

lemma EPoller_uncork_law:
  assumes "epoller_ok fileno p" "ep_known name p" "ep_corked name s p"
  shows "\<exists>p'. state_of (EPoller_uncork ev fileno name s p) = Inr p' \<and> epoller_ok fileno p' \<and> ep_known name p'
    \<and> ep_watched name p' = insert s (ep_watched name p)"
proof -
  from assms(2) obtain i w where iw: "ep_entry name p = Inr (i, w)" by (auto simp: ep_known_def)
  note ok = entry_ok_of [OF assms(1) iw]
  have s: "s \<in> we_corked w" using assms(3) iw by (simp add: ep_corked_def)
  then have "s \<in> we_sockets w" using ok by (auto simp: entry_ok_def)
  then obtain n where n: "fileno s = Some n" using entry_ok_fileno [OF ok] by blast
  note e = entry_uncorked [OF ok s n]
  have "state_of (EPoller_uncork ev fileno name s p)
      = Inr (ep_store i (w\<lparr>we_corked := we_corked w - {s}, we_kernel := (we_kernel w)(n \<mapsto> ev)\<rparr>) p)"
    using iw n s e(2,3) by (simp add: EPoller_uncork_def kernel_register_def)
  then show ?thesis
    using ep_store_entry [OF iw] ep_store_ok(1) [OF assms(1) e(1)] iw e(3)
    by (auto simp: ep_known_def ep_watched_def)
qed


lemma KQueue_add_law:
  assumes "epoller_ok fileno p" "ep_known name p" "ep_usable fileno name S p" "s \<in> S"
  shows "\<exists>p'. state_of (KQueue_add ev fileno name s p) = Inr p' \<and> epoller_ok fileno p' \<and> ep_known name p'
    \<and> ep_watched name p' = insert s (ep_watched name p) \<and> ep_usable fileno name (S - {s}) p'"
proof -
  from assms(2) obtain i w where iw: "ep_entry name p = Inr (i, w)" by (auto simp: ep_known_def)
  note ok = entry_ok_of [OF assms(1) iw]
  from assms(3,4) iw obtain n where n: "fileno s = Some n" "Some n \<notin> fileno ` we_sockets w"
    by (auto simp: ep_usable_def)
  have rest: "fileno t \<noteq> Some n" "fileno t \<noteq> None" "fileno t \<notin> fileno ` we_sockets w" "inj_on fileno (S - {s})"
    if "t \<in> S - {s}" for t
    using assms(3,4) iw n(1) that by (auto simp: ep_usable_def inj_on_def)
  note e = entry_added [OF ok n]
  have "state_of (KQueue_add ev fileno name s p)
      = Inr (ep_store i (w\<lparr>we_sockets := insert s (we_sockets w), we_fdtosock := (we_fdtosock w)(n \<mapsto> s),
          we_kernel := (we_kernel w)(n \<mapsto> ev)\<rparr>) p)"
    using iw n e(2-4) by (simp add: KQueue_add_def kqueue_control_def)
  then show ?thesis
    using ep_store_entry [OF iw] ep_store_ok(1) [OF assms(1) e(1)] e(4,5) iw rest n(1) assms(3)
    by (auto simp: ep_known_def ep_watched_def ep_usable_def intro: inj_on_subset)
qed

text \<open>On a socket that the kernel has, taking it out and corking it are as for epoll.\<close>

lemma KQueue_remove_EPoller:
  assumes "epoller_ok fileno p" "s \<in> ep_watched name p"
  shows "KQueue_remove fileno name s p = EPoller_remove fileno name s p"
    "KQueue_cork fileno name s p = EPoller_cork fileno name s p"
proof -
  obtain i w where iw: "ep_entry name p = Inr (i, w)" "s \<in> we_sockets w - we_corked w"
    using assms(2) by (auto simp: ep_watched_def split: sum.splits)
  note ok = entry_ok_of [OF assms(1) iw(1)]
  obtain n where n: "fileno s = Some n" using entry_ok_fileno [OF ok] iw(2) by blast
  have k: "we_kernel w n \<noteq> None" using entry_removed(2) [OF ok iw(2) n] .
  show "KQueue_remove fileno name s p = EPoller_remove fileno name s p"
    using iw n k by (simp add: KQueue_remove_def EPoller_remove_def kqueue_control_def kernel_unregister_def Let_def)
  show "KQueue_cork fileno name s p = EPoller_cork fileno name s p"
    using iw n k by (cases w) (simp add: KQueue_cork_def EPoller_cork_def kqueue_control_def kernel_unregister_def)
qed

lemma KQueue_uncork_EPoller:
  assumes "epoller_ok fileno p" "ep_corked name s p"
  shows "KQueue_uncork ev fileno name s p = EPoller_uncork ev fileno name s p"
proof -
  obtain i w where iw: "ep_entry name p = Inr (i, w)" "s \<in> we_corked w"
    using assms(2) by (auto simp: ep_corked_def split: sum.splits)
  note ok = entry_ok_of [OF assms(1) iw(1)]
  have s: "s \<in> we_sockets w" using entry_okD(1) [OF ok] iw(2) by blast
  then obtain n where n: "fileno s = Some n" using entry_ok_fileno [OF ok] by blast
  have k: "we_kernel w n = None" using entry_uncorked(2) [OF ok iw(2) n] .
  show ?thesis
    using iw n k s by (simp add: KQueue_uncork_def EPoller_uncork_def kqueue_control_def kernel_register_def Let_def)
qed

interpretation ep_in: poller "\<lambda>name s p. state_of (EPoller_addReadSocket fileno name s p)"
    "EPoller_removeReadSocket fileno" "\<lambda>name s p. state_of (EPoller_corkReadSocket fileno name s p)"
    "\<lambda>name s p. state_of (EPoller_uncorkReadSocket fileno name s p)"
    ep_known ep_watched ep_corked "ep_usable fileno" "epoller_ok fileno" for fileno
  by unfold_locales
     (simp_all only: EPoller_addReadSocket_def EPoller_removeReadSocket_def EPoller_corkReadSocket_def
        EPoller_uncorkReadSocket_def EPoller_add_law EPoller_remove_law ep_remove_idle ep_usable_none
        EPoller_cork_law EPoller_uncork_law)

interpretation ep_out: poller "\<lambda>name s p. state_of (EPoller_addWriteSocket fileno name s p)"
    "EPoller_removeWriteSocket fileno" "\<lambda>name s p. state_of (EPoller_corkWriteSocket fileno name s p)"
    "\<lambda>name s p. state_of (EPoller_uncorkWriteSocket fileno name s p)"
    ep_known ep_watched ep_corked "ep_usable fileno" "epoller_ok fileno" for fileno
  by unfold_locales
     (simp_all only: EPoller_addWriteSocket_def EPoller_removeWriteSocket_def EPoller_corkWriteSocket_def
        EPoller_uncorkWriteSocket_def EPoller_add_law EPoller_remove_law ep_remove_idle ep_usable_none
        EPoller_cork_law EPoller_uncork_law)

interpretation kq_in: poller "\<lambda>name s p. state_of (KQueue_addReadSocket fileno name s p)"
    "KQueue_removeReadSocket fileno" "\<lambda>name s p. state_of (KQueue_corkReadSocket fileno name s p)"
    "\<lambda>name s p. state_of (KQueue_uncorkReadSocket fileno name s p)"
    ep_known ep_watched ep_corked "ep_usable fileno" "epoller_ok fileno" for fileno
  by unfold_locales
     (simp_all only: KQueue_addReadSocket_def KQueue_removeReadSocket_def KQueue_corkReadSocket_def
        KQueue_uncorkReadSocket_def KQueue_add_law KQueue_remove_EPoller KQueue_uncork_EPoller
        ep_remove_idle ep_usable_none EPoller_remove_law EPoller_cork_law EPoller_uncork_law)

interpretation kq_out: poller "\<lambda>name s p. state_of (KQueue_addWriteSocket fileno name s p)"
    "KQueue_removeWriteSocket fileno" "\<lambda>name s p. state_of (KQueue_corkWriteSocket fileno name s p)"
    "\<lambda>name s p. state_of (KQueue_uncorkWriteSocket fileno name s p)"
    ep_known ep_watched ep_corked "ep_usable fileno" "epoller_ok fileno" for fileno
  by unfold_locales
     (simp_all only: KQueue_addWriteSocket_def KQueue_removeWriteSocket_def KQueue_corkWriteSocket_def
        KQueue_uncorkWriteSocket_def KQueue_add_law KQueue_remove_EPoller KQueue_uncork_EPoller
        ep_remove_idle ep_usable_none EPoller_remove_law EPoller_cork_law EPoller_uncork_law)

text \<open>For the select poller: an event is known while its list is a list, and nothing is twice in it.\<close>

definition side_ok :: "(event_name \<times> select_socks) list \<Rightarrow> bool" where
  "side_ok d \<longleftrightarrow> (\<forall>name xs. map_of d name = Some (SockList xs) \<longrightarrow> distinct xs)"

definition side_known :: "event_name \<Rightarrow> (event_name \<times> select_socks) list \<Rightarrow> bool" where
  "side_known name d \<longleftrightarrow> (\<exists>xs. map_of d name = Some (SockList xs))"

definition side_watched :: "event_name \<Rightarrow> (event_name \<times> select_socks) list \<Rightarrow> sock set" where
  "side_watched name d = (case map_of d name of Some (SockList xs) \<Rightarrow> set xs | _ \<Rightarrow> {})"

lemma select_add_law:
  assumes "side_ok d" "side_known name d"
  shows "\<exists>d' m'. select_add name s (d, m) = Inr (d', m') \<and> side_ok d' \<and> side_known name d'
    \<and> side_watched name d' = insert s (side_watched name d)"
  using assms
  by (auto simp: select_add_def side_known_def side_watched_def side_ok_def update_conv')

lemma select_remove_law:
  assumes "side_ok d" "side_known name d" "s \<in> side_watched name d"
  shows "\<exists>d' m'. select_remove name s (d, m) = Inr (d', m') \<and> side_ok d' \<and> side_known name d'
    \<and> side_watched name d' = side_watched name d - {s}"
  using assms
  by (auto simp: select_remove_def side_known_def side_watched_def side_ok_def update_conv')

lemma select_remove_idle:
  assumes "side_ok d" "side_known name d" "s \<notin> side_watched name d"
  shows "select_remove name s (d, m) = Inr (d, m)"
  using assms by (auto simp: select_remove_def side_known_def side_watched_def)

text \<open>The operation on the poller from that on one of its dictionaries.\<close>

lemma on_side_law:
  "f (sp_read p, sp_read_modified p) = Inr (d, m) \<Longrightarrow> on_read f p = Inr (p\<lparr>sp_read := d, sp_read_modified := m\<rparr>)"
  "f (sp_write p, sp_write_modified p) = Inr (d, m) \<Longrightarrow> on_write f p = Inr (p\<lparr>sp_write := d, sp_write_modified := m\<rparr>)"
  by (simp_all add: on_read_def on_write_def)

lemmas select_in_ops = SelectPoller_addReadSocket_def SelectPoller_removeReadSocket_def
  SelectPoller_corkReadSocket_def SelectPoller_uncorkReadSocket_def

lemmas select_out_ops = SelectPoller_addWriteSocket_def SelectPoller_removeWriteSocket_def
  SelectPoller_corkWriteSocket_def SelectPoller_uncorkWriteSocket_def


interpretation select_in: poller SelectPoller_addReadSocket SelectPoller_removeReadSocket
    SelectPoller_corkReadSocket SelectPoller_uncorkReadSocket
    "\<lambda>name p. side_known name (sp_read p)" "\<lambda>name p. side_watched name (sp_read p)"
    "\<lambda>name s p. side_known name (sp_read p)" "\<lambda>name S p. S \<inter> side_watched name (sp_read p) = {}"
    "\<lambda>p. side_ok (sp_read p)"
proof unfold_locales
  fix p :: select_poller and name s and S :: "sock set"
  assume p: "side_ok (sp_read p)" "side_known name (sp_read p)"
  obtain d m where a: "select_add name s (sp_read p, sp_read_modified p) = Inr (d, m)" "side_ok d" "side_known name d"
    "side_watched name d = insert s (side_watched name (sp_read p))" using select_add_law [OF p] by blast
  note add = on_side_law(1) [where f = "select_add name s", OF a(1)]
  show "\<exists>p'. SelectPoller_uncorkReadSocket name s p = Inr p' \<and> side_ok (sp_read p') \<and> side_known name (sp_read p')
      \<and> side_watched name (sp_read p') = insert s (side_watched name (sp_read p))"
    using add a(2-4) by (simp add: select_in_ops)
  {
    assume S: "S \<inter> side_watched name (sp_read p) = {}" "s \<in> S"
    then show "\<exists>p'. SelectPoller_addReadSocket name s p = Inr p' \<and> side_ok (sp_read p') \<and> side_known name (sp_read p')
      \<and> side_watched name (sp_read p') = insert s (side_watched name (sp_read p))
      \<and> (S - {s}) \<inter> side_watched name (sp_read p') = {}"
      using add a(2-4) by (simp add: select_in_ops) blast
    from S have "s \<notin> side_watched name (sp_read p)" by blast
    note idle = on_side_law(1) [where f = "select_remove name s", OF select_remove_idle [OF p this, where m = "sp_read_modified p"]]
    then show "\<exists>p'. SelectPoller_removeReadSocket name s p = Inr p' \<and> side_ok (sp_read p') \<and> side_known name (sp_read p')
      \<and> side_watched name (sp_read p') = side_watched name (sp_read p) \<and> S \<inter> side_watched name (sp_read p') = {}"
      using p S by (simp add: select_in_ops)
  next
    assume s: "s \<in> side_watched name (sp_read p)"
    obtain d m where a: "select_remove name s (sp_read p, sp_read_modified p) = Inr (d, m)" "side_ok d" "side_known name d"
      "side_watched name d = side_watched name (sp_read p) - {s}" using select_remove_law [OF p s] by blast
    note remove = on_side_law(1) [where f = "select_remove name s", OF a(1)]
    show "\<exists>p'. SelectPoller_corkReadSocket name s p = Inr p' \<and> side_ok (sp_read p') \<and> side_known name (sp_read p')
      \<and> side_watched name (sp_read p') = side_watched name (sp_read p) - {s} \<and> side_known name (sp_read p')"
      using remove a(2-4) by (simp add: select_in_ops)
    assume "S \<inter> side_watched name (sp_read p) = {}"
    then show "\<exists>p'. SelectPoller_removeReadSocket name s p = Inr p' \<and> side_ok (sp_read p') \<and> side_known name (sp_read p')
      \<and> side_watched name (sp_read p') = side_watched name (sp_read p) - {s}
      \<and> insert s S \<inter> side_watched name (sp_read p') = {}"
      using remove a(2-4) by (simp add: select_in_ops) blast
  }
qed simp

interpretation select_out: poller SelectPoller_addWriteSocket SelectPoller_removeWriteSocket
    SelectPoller_corkWriteSocket SelectPoller_uncorkWriteSocket
    "\<lambda>name p. side_known name (sp_write p)" "\<lambda>name p. side_watched name (sp_write p)"
    "\<lambda>name s p. side_known name (sp_write p)" "\<lambda>name S p. S \<inter> side_watched name (sp_write p) = {}"
    "\<lambda>p. side_ok (sp_write p)"
proof unfold_locales
  fix p :: select_poller and name s and S :: "sock set"
  assume p: "side_ok (sp_write p)" "side_known name (sp_write p)"
  obtain d m where a: "select_add name s (sp_write p, sp_write_modified p) = Inr (d, m)" "side_ok d" "side_known name d"
    "side_watched name d = insert s (side_watched name (sp_write p))" using select_add_law [OF p] by blast
  note add = on_side_law(2) [where f = "select_add name s", OF a(1)]
  show "\<exists>p'. SelectPoller_uncorkWriteSocket name s p = Inr p' \<and> side_ok (sp_write p') \<and> side_known name (sp_write p')
      \<and> side_watched name (sp_write p') = insert s (side_watched name (sp_write p))"
    using add a(2-4) by (simp add: select_out_ops)
  {
    assume S: "S \<inter> side_watched name (sp_write p) = {}" "s \<in> S"
    then show "\<exists>p'. SelectPoller_addWriteSocket name s p = Inr p' \<and> side_ok (sp_write p') \<and> side_known name (sp_write p')
      \<and> side_watched name (sp_write p') = insert s (side_watched name (sp_write p))
      \<and> (S - {s}) \<inter> side_watched name (sp_write p') = {}"
      using add a(2-4) by (simp add: select_out_ops) blast
    from S have "s \<notin> side_watched name (sp_write p)" by blast
    note idle = on_side_law(2) [where f = "select_remove name s", OF select_remove_idle [OF p this, where m = "sp_write_modified p"]]
    then show "\<exists>p'. SelectPoller_removeWriteSocket name s p = Inr p' \<and> side_ok (sp_write p') \<and> side_known name (sp_write p')
      \<and> side_watched name (sp_write p') = side_watched name (sp_write p) \<and> S \<inter> side_watched name (sp_write p') = {}"
      using p S by (simp add: select_out_ops)
  next
    assume s: "s \<in> side_watched name (sp_write p)"
    obtain d m where a: "select_remove name s (sp_write p, sp_write_modified p) = Inr (d, m)" "side_ok d" "side_known name d"
      "side_watched name d = side_watched name (sp_write p) - {s}" using select_remove_law [OF p s] by blast
    note remove = on_side_law(2) [where f = "select_remove name s", OF a(1)]
    show "\<exists>p'. SelectPoller_corkWriteSocket name s p = Inr p' \<and> side_ok (sp_write p') \<and> side_known name (sp_write p')
      \<and> side_watched name (sp_write p') = side_watched name (sp_write p) - {s} \<and> side_known name (sp_write p')"
      using remove a(2-4) by (simp add: select_out_ops)
    assume "S \<inter> side_watched name (sp_write p) = {}"
    then show "\<exists>p'. SelectPoller_removeWriteSocket name s p = Inr p' \<and> side_ok (sp_write p') \<and> side_known name (sp_write p')
      \<and> side_watched name (sp_write p') = side_watched name (sp_write p) - {s}
      \<and> insert s S \<inter> side_watched name (sp_write p') = {}"
      using remove a(2-4) by (simp add: select_out_ops) blast
  }
qed simp

section \<open>Properties\<close>

text \<open>Which sockets an answer of \<open>poll\<close> may hold.\<close>

lemma report_errors_subset:
  assumes "report_errors errors response name = Some ss" "s \<in> set ss"
  shows "(s, name) \<in> set errors \<or> (\<exists>ss'. response name = Some ss' \<and> s \<in> set ss')"
  using assms unfolding report_errors_def
proof (induction errors arbitrary: response)
  case (Cons x errors)
  obtain t n where x: "x = (t, n)" by (cases x)
  let ?r = "response(n \<mapsto> dict_get response n [] @ [t])"
  have "fold (\<lambda>(s, name) r. r(name \<mapsto> dict_get r name [] @ [s])) errors ?r name = Some ss"
    using Cons.prems(1) unfolding x fold.simps comp_def prod.case .
  from Cons.IH [OF this Cons.prems(2)] x show ?case
    by (cases "n = name"; cases "response n") auto
qed simp

definition reports :: "epoller \<Rightarrow> (event_name \<rightharpoonup> sock list) \<Rightarrow> bool" where
  "reports p response \<longleftrightarrow> (\<forall>name ss s. response name = Some ss \<longrightarrow> s \<in> set ss \<longrightarrow>
     (\<exists>i w. ep_pollers p i = Some w \<and> we_name w = name \<and> s \<in> we_sockets w))"

text \<open>What the kernel may answer: pollers that are registered, and descriptors they watch.\<close>

definition kernel_answer :: "epoller \<Rightarrow> fd list \<Rightarrow> (fd \<Rightarrow> fd list) \<Rightarrow> bool" where
  "kernel_answer p is events \<longleftrightarrow>
     (\<forall>i \<in> set is. \<exists>w. ep_pollers p i = Some w \<and> (\<forall>n \<in> set (events i). we_kernel w n \<noteq> None))"

text \<open>\<open>fdtosock\<close> leads to the member with that descriptor; the operations keep this.\<close>

definition fds_ok :: "(sock \<Rightarrow> fd option) \<Rightarrow> watch_entry \<Rightarrow> bool" where
  "fds_ok fileno w \<longleftrightarrow> (\<forall>n s. we_fdtosock w n = Some s \<longrightarrow> s \<in> we_sockets w \<and> fileno s = Some n)"

lemma map_res_or_raise:
  assumes "\<And>n. n \<in> set ns \<Longrightarrow> m n \<noteq> None"
  shows "map_res (\<lambda>n. or_raise KeyError (m n)) ns = Inr (map (the \<circ> m) ns)"
proof (rule trans [OF map_res_Inr])
  fix n assume "n \<in> set ns"
  from assms [OF this] show "or_raise KeyError (m n) = Inr ((the \<circ> m) n)" by auto
qed simp

lemma poll_ready_ok:
  assumes "epoller_ok fileno p" "\<And>i w. ep_pollers p i = Some w \<Longrightarrow> fds_ok fileno w"
    and "kernel_answer p is events" "reports p response"
  shows "\<exists>response'. poll_ready events (ep_pollers p) is response = Inr response' \<and> reports p response'"
  using assms(3,4)
proof (induction "is" arbitrary: response)
  case (Cons i "is")
  from Cons.prems(1) obtain w where w: "ep_pollers p i = Some w" and k: "\<And>n. n \<in> set (events i) \<Longrightarrow> we_kernel w n \<noteq> None"
    by (auto simp: kernel_answer_def)
  have ok: "entry_ok fileno w" using assms(1) w by (auto simp: epoller_ok_def)
  have f: "we_fdtosock w n \<noteq> None" if "n \<in> set (events i)" for n
    using k [OF that] ok unfolding entry_ok_def by blast
  have s: "s \<in> we_sockets w" if "s \<in> set (map (the \<circ> we_fdtosock w) (events i))" for s
    using that f assms(2) [OF w] by (fastforce simp: fds_ok_def)
  have "reports p (response(we_name w \<mapsto> map (the \<circ> we_fdtosock w) (events i)))"
    unfolding reports_def
  proof (intro allI impI)
    fix name ss t
    assume a: "(response(we_name w \<mapsto> map (the \<circ> we_fdtosock w) (events i))) name = Some ss" "t \<in> set ss"
    show "\<exists>i w. ep_pollers p i = Some w \<and> we_name w = name \<and> t \<in> we_sockets w"
    proof (cases "name = we_name w")
      case True
      then show ?thesis using a s [of t] w by auto
    next
      case False
      then show ?thesis using a Cons.prems(2) by (auto simp: reports_def)
    qed
  qed
  moreover have "kernel_answer p is events" using Cons.prems(1) by (simp add: kernel_answer_def)
  moreover have "map_res (\<lambda>n. or_raise KeyError (we_fdtosock w n)) (events i)
      = Inr (map (the \<circ> we_fdtosock w) (events i))" using f by (rule map_res_or_raise)
  ultimately show ?case using Cons.IH w by simp
qed simp

lemma reports_empty: "reports p (\<lambda>name. if P name then Some [] else None)" "reports p Map.empty"
  by (auto simp: reports_def split: if_splits)

lemma EPoller_poll_reports:
  assumes "epoller_ok fileno p" "\<And>i w. ep_pollers p i = Some w \<Longrightarrow> fds_ok fileno w"
    and "ready = None \<or> kernel_answer p (the ready) events"
  shows "\<exists>response. EPoller_poll (Inr ready) events errors p = Inr response
    \<and> (\<forall>name ss s. response name = Some ss \<longrightarrow> s \<in> set ss \<longrightarrow>
         (s, name) \<in> set errors \<or> (\<exists>i w. ep_pollers p i = Some w \<and> we_name w = name \<and> s \<in> we_sockets w))"
proof (cases ready)
  case None
  then show ?thesis using report_errors_subset [of errors Map.empty] by (auto simp: EPoller_poll_def)
next
  case (Some js)
  from poll_ready_ok [OF assms(1,2) _ reports_empty(1)] assms(3) Some obtain response where
    "poll_ready events (ep_pollers p) js
       (\<lambda>name. if \<exists>i \<in> dom (ep_pollers p). we_name (the (ep_pollers p i)) = name then Some [] else None) = Inr response"
    "reports p response" by fastforce
  then show ?thesis using Some report_errors_subset [of errors response]
    by (simp add: EPoller_poll_def reports_def) blast
qed

text \<open>A watched socket that is corked and uncorked, or taken out and added again, is watched as before, by the epoll and the kqueue poller alike, while the sockets are open.\<close>

theorem poller_cork_uncork:
  assumes "epoller_ok fileno p" "ep_known name p" "s \<in> ep_watched name p"
  shows "(\<exists>p'. seq (state_of (EPoller_corkReadSocket fileno name s p))
                 (\<lambda>q. state_of (EPoller_uncorkReadSocket fileno name s q)) = Inr p'
            \<and> epoller_ok fileno p' \<and> ep_watched name p' = ep_watched name p)
    \<and> (\<exists>p'. seq (EPoller_removeReadSocket fileno name s p)
                 (\<lambda>q. state_of (EPoller_addReadSocket fileno name s q)) = Inr p'
            \<and> epoller_ok fileno p' \<and> ep_watched name p' = ep_watched name p)
    \<and> (\<exists>p'. seq (state_of (KQueue_corkWriteSocket fileno name s p))
                 (\<lambda>q. state_of (KQueue_uncorkWriteSocket fileno name s q)) = Inr p'
            \<and> epoller_ok fileno p' \<and> ep_watched name p' = ep_watched name p)
    \<and> (\<exists>p'. seq (KQueue_removeWriteSocket fileno name s p)
                 (\<lambda>q. state_of (KQueue_addWriteSocket fileno name s q)) = Inr p'
            \<and> epoller_ok fileno p' \<and> ep_watched name p' = ep_watched name p)"
  using ep_in.cork_uncork [OF assms] ep_in.remove_add [OF assms]
    kq_out.cork_uncork [OF assms] kq_out.remove_add [OF assms] by blast

definition example_poller :: epoller where
  "example_poller = \<lparr>ep_sockets = [''read_client'' \<mapsto> 5],
     ep_pollers = [5 \<mapsto> \<lparr>we_name = ''read_client'', we_sockets = {1, 2}, we_fdtosock = [11 \<mapsto> 1, 12 \<mapsto> 2],
                          we_corked = {2}, we_kernel = [11 \<mapsto> EventIn]\<rparr>],
     ep_master = {5}, ep_errors = Map.empty\<rparr>"

lemma example_poller_ok:
  "epoller_ok (\<lambda>s. Some (s + 10)) example_poller" "ep_known ''read_client'' example_poller"
  "ep_watched ''read_client'' example_poller = {1}"
  "ep_pollers example_poller i = Some w \<Longrightarrow> fds_ok (\<lambda>s. Some (s + 10)) w"
  by (auto simp: epoller_ok_def entry_ok_def example_poller_def ep_known_def ep_watched_def ep_entry_def fds_ok_def
      split: if_splits)

theorem poller_cork_uncork_witness:
  "\<exists>p'. seq (state_of (EPoller_corkReadSocket (\<lambda>s. Some (s + 10)) ''read_client'' 1 example_poller))
         (\<lambda>q. state_of (EPoller_uncorkReadSocket (\<lambda>s. Some (s + 10)) ''read_client'' 1 q)) = Inr p'
       \<and> ep_watched ''read_client'' p' = {1}"
  using poller_cork_uncork [OF example_poller_ok(1,2), of 1] example_poller_ok(3) by auto

text \<open>When the kernel reports only descriptors that are watched, polling does not raise, and every socket it reports is a member of an event of that name or one that could not be watched.\<close>

theorem EPoller_poll_members:
  assumes "epoller_ok fileno p" "\<forall>i w. ep_pollers p i = Some w \<longrightarrow> fds_ok fileno w"
    and "ready = None \<or> kernel_answer p (the ready) events"
  shows "\<exists>response. EPoller_poll (Inr ready) events errors p = Inr response
    \<and> (\<forall>name ss s. response name = Some ss \<longrightarrow> s \<in> set ss \<longrightarrow>
         (s, name) \<in> set errors \<or> (\<exists>i w. ep_pollers p i = Some w \<and> we_name w = name \<and> s \<in> we_sockets w))"
  using EPoller_poll_reports [OF assms(1) _ assms(3)] assms(2) by blast

theorem EPoller_poll_members_witness:
  "\<exists>response. EPoller_poll (Inr (Some [5])) (\<lambda>_. [11]) [(7, ''write_client'')] example_poller = Inr response
    \<and> (\<forall>name ss s. response name = Some ss \<longrightarrow> s \<in> set ss \<longrightarrow> (s, name) \<in> set [(7, ''write_client'')] \<or>
         (\<exists>i w. ep_pollers example_poller i = Some w \<and> we_name w = name \<and> s \<in> we_sockets w))"
  by (rule EPoller_poll_members [OF example_poller_ok(1)])
     (use example_poller_ok(4) in \<open>auto simp: kernel_answer_def example_poller_def\<close>)

text \<open>A dictionary in the place of a list makes every poll fail.\<close>

lemma poll_reads_dict:
  assumes "\<And>k r w. \<exists>a. sel k r w = Inr a" "(name, EmptyDict) \<in> set xs"
  shows "poll_reads sel k xs found = Inl TypeError"
  using assms(2)
proof (induction xs arbitrary: k found)
  case (Cons x xs)
  obtain n socks where x: "x = (n, socks)" by (cases x)
  show ?case
  proof (cases socks)
    case (SockList ys)
    obtain a where "sel k ys [] = Inr a" using assms(1) by blast
    with Cons SockList x show ?thesis by (simp add: poll_select_def split: prod.split)
  qed (simp add: x poll_select_def)
qed simp

lemma select_clear_leaves_dict:
  assumes "SelectPoller_clearRead name p = Inr p'"
  shows "map_of (sp_read p') name = Some EmptyDict"
  using assms by (auto simp: SelectPoller_clearRead_def on_read_def select_clear_def seq_eq_Inr_iff update_conv' split: option.splits)

text \<open>Clearing an event sets it up afresh when it has sockets; when it has none the event is lost, and adding a socket to it raises \<open>KeyError\<close>. With the select poller every clear leaves a dictionary in the place of the list: adding then raises \<open>AttributeError\<close> and polling \<open>TypeError\<close>.\<close>

theorem poller_clear:
  assumes "ep_entry name p = Inr (i, w)" "SelectPoller_clearRead name sp = Inr sp'"
    and "\<forall>k r w. \<exists>a. sel k r w = Inr a"
  shows "ep_entry name (EPoller_clearRead new name p)
      = (if we_sockets w = {} then Inl KeyError
         else Inr (new, \<lparr>we_name = name, we_sockets = {}, we_fdtosock = Map.empty, we_corked = {}, we_kernel = Map.empty\<rparr>))
    \<and> EPoller_addReadSocket fileno name s (EPoller_clearRead new name (ep_store i (w\<lparr>we_sockets := {}\<rparr>) p)) = Inl KeyError
    \<and> SelectPoller_addReadSocket name s sp' = Inl AttributeError
    \<and> SelectPoller_poll sel sp' = Inl TypeError"
proof -
  note d = select_clear_leaves_dict [OF assms(2)]
  have "poll_reads sel 0 (sp_read sp') Map.empty = Inl TypeError"
    using poll_reads_dict assms(3) map_of_SomeD [OF d] by blast
  moreover have "SelectPoller_addReadSocket name s sp' = Inl AttributeError"
    using d by (simp add: SelectPoller_addReadSocket_def on_read_def select_add_def)
  moreover have "ep_sockets p name = Some i" "ep_pollers p i = Some w" using assms(1) by (simp_all add: ep_entry_Inr)
  ultimately show ?thesis
    by (simp add: SelectPoller_poll_def EPoller_clearRead_def EPoller_clear_def EPoller_setup_def ep_entry_def
        EPoller_addReadSocket_def EPoller_add_def ep_store_def)
qed

theorem poller_clear_witness:
  "EPoller_addReadSocket (\<lambda>s. Some s) ''read_client'' 3
      (EPoller_clearRead 6 ''read_client''
        (ep_store 5 (the (ep_pollers example_poller 5)\<lparr>we_sockets := {}\<rparr>) example_poller)) = Inl KeyError
   \<and> SelectPoller_poll (\<lambda>_ _ _. Inr (Some ([], [])))
      \<lparr>sp_read = [(''read_client'', EmptyDict)], sp_write = [], sp_read_modified = {''read_client''},
        sp_write_modified = {}, sp_read_all = [], sp_write_all = []\<rparr> = Inl TypeError"
proof -
  have "SelectPoller_clearRead ''read_client''
      \<lparr>sp_read = [(''read_client'', SockList [1])], sp_write = [], sp_read_modified = {},
        sp_write_modified = {}, sp_read_all = [], sp_write_all = []\<rparr>
    = Inr \<lparr>sp_read = [(''read_client'', EmptyDict)], sp_write = [], sp_read_modified = {''read_client''},
        sp_write_modified = {}, sp_read_all = [], sp_write_all = []\<rparr>"
    by (simp add: SelectPoller_clearRead_def on_read_def select_clear_def)
  moreover have "ep_entry ''read_client'' example_poller = Inr (5, the (ep_pollers example_poller 5))"
    by (simp add: example_poller_def ep_entry_def)
  ultimately show ?thesis
    using poller_clear [where sel = "\<lambda>_ _ _. Inr (Some ([], []))" and new = 6 and s = 3 and fileno = "\<lambda>s. Some s"] by blast
qed

end
