(* ===== verification/Server.thy ===== *)
theory Server
  imports NetAddr Poller
begin

text \<open>
  \<open>lib/exaproxy/network/functions.py\<close> (\<open>listen\<close>, \<open>listen_intercept\<close>, \<open>connect\<close>) and
  \<open>lib/exaproxy/network/server.py\<close> (the listening servers). What the operating system answers to each
  call on a socket is a parameter; a server is given the operations of its poller.
\<close>

section \<open>Making sockets\<close>

datatype family = INET4 | INET6

datatype sock_call =
    C_socket
  | C_reuseaddr
  | C_reuseport
  | C_transparent
  | C_nodelay
  | C_bind
  | C_timeout
  | C_listen
  | C_connect

text \<open>
  A call succeeds, raises \<open>socket.error\<close> (with \<open>EINPROGRESS\<close> or an error of \<open>errno_block\<close>, or another),
  or uses a constant that the \<open>socket\<close> module of this platform does not have (\<open>AttributeError\<close>).
\<close>

datatype os_answer = OsOk | OsBlocks | OsError | OsMissing

type_synonym os = "sock_call \<Rightarrow> os_answer"

record net_sock =
  ns_family :: family
  ns_options :: "sock_call list"
  ns_timeout :: int

text \<open>The options are set one after the other in one \<open>try\<close>: the first that fails ends them all, silently.\<close>

fun set_options :: "os \<Rightarrow> sock_call list \<Rightarrow> sock_call list" where
  "set_options os [] = []"
| "set_options os (c # cs) = (if os c = OsOk then c # set_options os cs else [])"

definition address_family :: "string \<Rightarrow> family option res" where
  "address_family ip =
     seq (isipv6 ip) (\<lambda>v6. if v6 then Inr (Some INET6)
     else seq (isipv4 ip) (\<lambda>v4. Inr (if v4 then Some INET4 else None)))"

text \<open>An address with a port that is not of 16 bits is an \<open>OverflowError\<close>, not a \<open>socket.error\<close>.\<close>

definition port_ok :: "int \<Rightarrow> bool" where
  "port_ok port \<longleftrightarrow> 0 \<le> port \<and> port \<le> 65535"

definition listen_with :: "sock_call list \<Rightarrow> os \<Rightarrow> string \<Rightarrow> int \<Rightarrow> int \<Rightarrow> net_sock option res" where
  "listen_with options os ip port timeout =
     seq (address_family ip) (\<lambda>family. case family of
       None \<Rightarrow> Inr None
     | Some f \<Rightarrow>
         if os C_socket \<noteq> OsOk then Inr None
         else if \<not> port_ok port then Inl OverflowError
         else if os C_bind \<noteq> OsOk then Inr None
         else if timeout \<noteq> 0 \<and> os C_timeout \<noteq> OsOk then Inr None
         else if os C_listen \<noteq> OsOk then Inr None
         else Inr (Some \<lparr>ns_family = f, ns_options = set_options os options, ns_timeout = timeout\<rparr>))"

definition net_listen :: "os \<Rightarrow> string \<Rightarrow> int \<Rightarrow> int \<Rightarrow> net_sock option res" where
  "net_listen = listen_with [C_reuseaddr, C_reuseport]"

definition listen_intercept :: "os \<Rightarrow> string \<Rightarrow> int \<Rightarrow> int \<Rightarrow> net_sock option res" where
  "listen_intercept = listen_with [C_reuseaddr, C_reuseport, C_transparent]"

text \<open>
  \<open>connect\<close>: \<open>TCP_NODELAY\<close> is guarded against a missing constant only, so a \<open>socket.error\<close> there is
  raised. A connection in progress, or that would block, is a success.
\<close>

definition net_connect :: "os \<Rightarrow> string \<Rightarrow> int \<Rightarrow> string \<Rightarrow> bool \<Rightarrow> net_sock option res" where
  "net_connect os ip port bind immediate =
     seq (address_family ip) (\<lambda>family. case family of
       None \<Rightarrow> Inr None
     | Some f \<Rightarrow>
         if os C_socket \<noteq> OsOk then Inr None
         else if immediate \<and> os C_nodelay \<in> {OsBlocks, OsError} then Inl SocketFailure
         else
           let options = (if immediate then set_options os [C_nodelay] else [])
             @ (if bind \<notin> {''0.0.0.0'', ''::''} then set_options os [C_bind] else []) in
           if \<not> port_ok port then Inl OverflowError
           else if os C_connect \<in> {OsOk, OsBlocks}
             then Inr (Some \<lparr>ns_family = f, ns_options = options, ns_timeout = 0\<rparr>)
           else Inr None)"

section \<open>The server\<close>

type_synonym binding = "string \<times> int \<times> int \<times> int"

record 'p server =
  sv_socks :: "(sock \<times> (string \<times> int)) list"
  sv_read_name :: event_name
  sv_max_clients :: int
  sv_client_count :: int
  sv_saturated :: bool
  sv_binding :: "binding list"
  sv_serving :: bool
  sv_poller :: 'p

definition Server_init :: "'p \<Rightarrow> event_name \<Rightarrow> int \<Rightarrow> bool \<Rightarrow> 'p server" where
  "Server_init p read_name connections enable =
     \<lparr>sv_socks = [], sv_read_name = read_name, sv_max_clients = connections, sv_client_count = 0,
      sv_saturated = False, sv_binding = [], sv_serving = enable, sv_poller = p\<rparr>"

text \<open>A poller operation on every listening socket.\<close>

definition on_listening :: "'p poller_op \<Rightarrow> 'p server \<Rightarrow> 'p server res" where
  "on_listening f sv =
     seq (for_each (f (sv_read_name sv)) (map fst (sv_socks sv)) (sv_poller sv)) (\<lambda>p.
     Inr (sv\<lparr>sv_poller := p\<rparr>))"

text \<open>\<open>made\<close> is what \<open>self._listen\<close> returns. The set of bindings is kept as a list without repetition.\<close>

definition Server_listen :: "'p poller_op \<Rightarrow> (binding \<Rightarrow> sock option res) \<Rightarrow> binding \<Rightarrow> 'p server \<Rightarrow>
    (sock option \<times> 'p server) res" where
  "Server_listen add made b sv =
     seq (made b) (\<lambda>s. case s of
       None \<Rightarrow> Inr (None, sv)
     | Some s \<Rightarrow>
         let sv1 = sv\<lparr>sv_binding := List.insert b (sv_binding sv),
                      sv_socks := AList.update s (fst b, fst (snd b)) (sv_socks sv)\<rparr> in
         if sv_client_count sv1 < sv_max_clients sv1 then
           seq (add (sv_read_name sv1) s (sv_poller sv1)) (\<lambda>p. Inr (Some s, sv1\<lparr>sv_poller := p\<rparr>))
         else Inr (Some s, sv1))"

text \<open>
  \<open>accepting\<close>: the loop over the bindings, which a \<open>socket.error\<close> ends with \<open>False\<close>. \<open>listen\<close> answers
  \<open>None\<close> rather than raising it, and its answer is not looked at.
\<close>

fun relisten :: "'p poller_op \<Rightarrow> (binding \<Rightarrow> sock option res) \<Rightarrow> binding list \<Rightarrow> 'p server \<Rightarrow> (bool \<times> 'p server) res" where
  "relisten add made [] sv = Inr (True, sv\<lparr>sv_serving := True\<rparr>)"
| "relisten add made (b # bs) sv =
     (case Server_listen add made b sv of
        Inl SocketFailure \<Rightarrow> Inr (False, sv)
      | Inl e \<Rightarrow> Inl e
      | Inr (_, sv') \<Rightarrow> relisten add made bs sv')"

definition Server_accepting :: "'p poller_op \<Rightarrow> (binding \<Rightarrow> sock option res) \<Rightarrow> 'p server \<Rightarrow> (bool \<times> 'p server) res" where
  "Server_accepting add made sv =
     (if sv_serving sv then Inr (True, sv) else relisten add made (sv_binding sv) sv)"

definition Server_rejecting :: "'p poller_op \<Rightarrow> 'p server \<Rightarrow> 'p server res" where
  "Server_rejecting remove sv =
     (if sv_serving sv then
        seq (on_listening remove sv) (\<lambda>sv1. Inr (sv1\<lparr>sv_socks := [], sv_serving := False\<rparr>))
      else Inr sv)"

definition Server_saturation :: "'p server \<Rightarrow> 'p server" where
  "Server_saturation sv = (if \<not> sv_saturated sv then sv else sv\<lparr>sv_saturated := False\<rparr>)"

text \<open>
  \<open>accept\<close> is a generator. \<open>got\<close> says whether \<open>sock.accept()\<close> gave a connection, which is then the value
  of the one iteration; the statements after the \<open>yield\<close> run when the caller asks for the next.
\<close>

definition Server_accept :: "'p poller_op \<Rightarrow> bool \<Rightarrow> 'p server \<Rightarrow> 'p server res" where
  "Server_accept remove got sv =
     (let sv1 = (if got then sv\<lparr>sv_client_count := sv_client_count sv + 1\<rparr> else sv) in
      if sv_client_count sv1 \<ge> sv_max_clients sv1
      then on_listening remove (sv1\<lparr>sv_saturated := True\<rparr>)
      else Inr sv1)"

definition Server_notifyClose :: "'p poller_op \<Rightarrow> int \<Rightarrow> 'p server \<Rightarrow> 'p server res" where
  "Server_notifyClose add count sv =
     (let paused = (sv_client_count sv \<ge> sv_max_clients sv);
          sv1 = sv\<lparr>sv_client_count := sv_client_count sv - count\<rparr> in
      if paused \<and> sv_client_count sv1 < sv_max_clients sv1 then on_listening add sv1 else Inr sv1)"

definition Server_stop :: "(event_name \<Rightarrow> 'p \<Rightarrow> 'p res) \<Rightarrow> 'p server \<Rightarrow> 'p server res" where
  "Server_stop clear sv =
     seq (clear (sv_read_name sv) (sv_poller sv)) (\<lambda>p. Inr (sv\<lparr>sv_socks := [], sv_poller := p\<rparr>))"

section \<open>Admission\<close>

text \<open>
  The contract of a server with its poller: its listening sockets are watched exactly while it has room
  for a client; otherwise they can be added again.
\<close>

definition admits :: "(event_name \<Rightarrow> 'p \<Rightarrow> bool) \<Rightarrow> (event_name \<Rightarrow> 'p \<Rightarrow> sock set) \<Rightarrow>
    (event_name \<Rightarrow> sock set \<Rightarrow> 'p \<Rightarrow> bool) \<Rightarrow> ('p \<Rightarrow> bool) \<Rightarrow> 'p server \<Rightarrow> bool" where
  "admits known watched usable ok sv \<longleftrightarrow> ok (sv_poller sv) \<and> known (sv_read_name sv) (sv_poller sv)
     \<and> distinct (map fst (sv_socks sv))
     \<and> (if sv_client_count sv < sv_max_clients sv
        then fst ` set (sv_socks sv) \<subseteq> watched (sv_read_name sv) (sv_poller sv)
        else usable (sv_read_name sv) (fst ` set (sv_socks sv)) (sv_poller sv)
          \<and> fst ` set (sv_socks sv) \<inter> watched (sv_read_name sv) (sv_poller sv) = {})"

context poller
begin

lemma accept_admits:
  assumes "admits known watched usable inv sv"
  shows "\<exists>sv'. Server_accept remove got sv = Inr sv' \<and> admits known watched usable inv sv'
    \<and> sv_client_count sv' = sv_client_count sv + (if got then 1 else 0) \<and> sv_socks sv' = sv_socks sv
    \<and> (sv_client_count sv' \<ge> sv_max_clients sv' \<longrightarrow> sv_saturated sv')"
proof -
  let ?name = "sv_read_name sv" and ?p = "sv_poller sv" and ?ss = "map fst (sv_socks sv)"
  note a = assms [unfolded admits_def]
  have l: "inv ?p" "known ?name ?p" "distinct ?ss" using a by auto
  show ?thesis
  proof (cases "sv_client_count sv + (if got then 1 else 0) < sv_max_clients sv")
    case True
    then show ?thesis using a by (auto simp: Server_accept_def Let_def admits_def)
  next
    case False
    have "\<exists>p'. for_each (remove ?name) ?ss ?p = Inr p' \<and> inv p' \<and> known ?name p' \<and> usable ?name (set ?ss) p'
      \<and> set ?ss \<inter> watched ?name p' = {}"
    proof (cases "sv_client_count sv < sv_max_clients sv")
      case True
      then have "set ?ss \<subseteq> watched ?name ?p" using a by simp
      from remove_all [OF l usable_none [OF l(2)] this] show ?thesis by auto
    next
      case False
      then have "usable ?name (set ?ss) ?p" "set ?ss \<inter> watched ?name ?p = {}" using a by simp_all
      from remove_all_idle [OF l(1,2) this(1) subset_refl] this(2) show ?thesis by auto
    qed
    then obtain p' where "for_each (remove ?name) ?ss ?p = Inr p'" "inv p'" "known ?name p'"
      "usable ?name (set ?ss) p'" "set ?ss \<inter> watched ?name p' = {}" by blast
    then show ?thesis using False l(3)
      by (cases got) (simp_all add: Server_accept_def Let_def on_listening_def admits_def)
  qed
qed

lemma notifyClose_admits:
  assumes "admits known watched usable inv sv" "0 \<le> count"
  shows "\<exists>sv'. Server_notifyClose add count sv = Inr sv' \<and> admits known watched usable inv sv'
    \<and> sv_client_count sv' = sv_client_count sv - count \<and> sv_socks sv' = sv_socks sv"
proof -
  let ?name = "sv_read_name sv" and ?p = "sv_poller sv" and ?ss = "map fst (sv_socks sv)"
  note a = assms(1) [unfolded admits_def]
  have l: "inv ?p" "known ?name ?p" "distinct ?ss" using a by auto
  show ?thesis
  proof (cases "sv_client_count sv \<ge> sv_max_clients sv \<and> sv_client_count sv - count < sv_max_clients sv")
    case True
    then have "usable ?name (set ?ss) ?p" using a by simp
    from add_all [OF l this subset_refl] obtain p' where "for_each (add ?name) ?ss ?p = Inr p'" "inv p'"
      "known ?name p'" "watched ?name p' = watched ?name ?p \<union> set ?ss" by blast
    with True l(3) show ?thesis by (simp add: Server_notifyClose_def Let_def on_listening_def admits_def)
  next
    case False
    then show ?thesis using a assms(2)
      by (simp add: Server_notifyClose_def Let_def on_listening_def admits_def split: if_splits)
  qed
qed

lemma rejecting_admits:
  assumes "admits known watched usable inv sv" "sv_serving sv"
  shows "\<exists>sv'. Server_rejecting remove sv = Inr sv' \<and> admits known watched usable inv sv'
    \<and> \<not> sv_serving sv' \<and> sv_socks sv' = []
    \<and> fst ` set (sv_socks sv) \<inter> watched (sv_read_name sv) (sv_poller sv') = {}"
proof -
  let ?name = "sv_read_name sv" and ?p = "sv_poller sv" and ?ss = "map fst (sv_socks sv)"
  note a = assms(1) [unfolded admits_def]
  have l: "inv ?p" "known ?name ?p" "distinct ?ss" using a by auto
  have "\<exists>p'. for_each (remove ?name) ?ss ?p = Inr p' \<and> inv p' \<and> known ?name p' \<and> set ?ss \<inter> watched ?name p' = {}"
  proof (cases "sv_client_count sv < sv_max_clients sv")
    case True
    then have "set ?ss \<subseteq> watched ?name ?p" using a by simp
    from remove_all [OF l usable_none [OF l(2)] this] show ?thesis by auto
  next
    case False
    then have "usable ?name (set ?ss) ?p" "set ?ss \<inter> watched ?name ?p = {}" using a by simp_all
    from remove_all_idle [OF l(1,2) this(1) subset_refl] this(2) show ?thesis by auto
  qed
  then obtain p' where "for_each (remove ?name) ?ss ?p = Inr p'" "inv p'" "known ?name p'"
    "set ?ss \<inter> watched ?name p' = {}" by blast
  then show ?thesis using assms(2) usable_none
    by (simp add: Server_rejecting_def on_listening_def admits_def)
qed

lemma listen_admits:
  assumes "admits known watched usable inv sv" "made b = Inr (Some s)"
    and "s \<notin> fst ` set (sv_socks sv)" "s \<notin> watched (sv_read_name sv) (sv_poller sv)"
    and "usable (sv_read_name sv) (if sv_client_count sv < sv_max_clients sv then {s} else insert s (fst ` set (sv_socks sv)))
           (sv_poller sv)"
  shows "\<exists>sv'. Server_listen add made b sv = Inr (Some s, sv') \<and> admits known watched usable inv sv'
    \<and> fst ` set (sv_socks sv') = insert s (fst ` set (sv_socks sv)) \<and> b \<in> set (sv_binding sv')"
proof -
  let ?name = "sv_read_name sv" and ?p = "sv_poller sv" and ?ss = "map fst (sv_socks sv)"
  note a = assms(1) [unfolded admits_def]
  have l: "inv ?p" "known ?name ?p" "distinct ?ss" using a by auto
  have s: "s \<notin> set ?ss" using assms(3) by simp
  note k = update_keys [of s "(fst b, fst (snd b))" "sv_socks sv"] distinct_update [OF l(3), of s "(fst b, fst (snd b))"]
  have keys: "fst ` set (AList.update s (fst b, fst (snd b)) (sv_socks sv)) = insert s (set ?ss)"
    using s by (simp add: dom_update)
  show ?thesis
  proof (cases "sv_client_count sv < sv_max_clients sv")
    case True
    then have "usable ?name {s} ?p" using assms(5) by simp
    from add_law [OF l(1,2) this, of s] obtain p' where "add ?name s ?p = Inr p'" "inv p'" "known ?name p'"
      "watched ?name p' = insert s (watched ?name ?p)" by blast
    with True assms(2) keys k(2) a show ?thesis by (simp add: Server_listen_def admits_def) blast
  next
    case False
    then show ?thesis using assms(2,4,5) keys k(2) a
      by (simp add: Server_listen_def admits_def)
  qed
qed

end

text \<open>C30: With the epoll poller, a server watches its listening sockets exactly while it has room for a client: accepting a connection, refusing one, closing clients and ceasing to listen keep this and do not raise.\<close>

theorem Server_admission:
  assumes "admits ep_known ep_watched (ep_usable fileno) (epoller_ok fileno) sv" "0 \<le> count"
  shows "(\<exists>sv'. Server_accept (EPoller_removeReadSocket fileno) got sv = Inr sv'
        \<and> admits ep_known ep_watched (ep_usable fileno) (epoller_ok fileno) sv'
        \<and> sv_client_count sv' = sv_client_count sv + (if got then 1 else 0))
    \<and> (\<exists>sv'. Server_notifyClose (\<lambda>name s p. state_of (EPoller_addReadSocket fileno name s p)) count sv = Inr sv'
        \<and> admits ep_known ep_watched (ep_usable fileno) (epoller_ok fileno) sv'
        \<and> sv_client_count sv' = sv_client_count sv - count)
    \<and> (\<exists>sv'. Server_rejecting (EPoller_removeReadSocket fileno) (sv\<lparr>sv_serving := True\<rparr>) = Inr sv'
        \<and> sv_socks sv' = [] \<and> fst ` set (sv_socks sv) \<inter> ep_watched (sv_read_name sv) (sv_poller sv') = {})"
proof (intro conjI)
  show "\<exists>sv'. Server_accept (EPoller_removeReadSocket fileno) got sv = Inr sv'
      \<and> admits ep_known ep_watched (ep_usable fileno) (epoller_ok fileno) sv'
      \<and> sv_client_count sv' = sv_client_count sv + (if got then 1 else 0)"
    using ep_in.accept_admits [OF assms(1), of got] by blast
  show "\<exists>sv'. Server_notifyClose (\<lambda>name s p. state_of (EPoller_addReadSocket fileno name s p)) count sv = Inr sv'
      \<and> admits ep_known ep_watched (ep_usable fileno) (epoller_ok fileno) sv'
      \<and> sv_client_count sv' = sv_client_count sv - count"
    using ep_in.notifyClose_admits [OF assms] by blast
  have "admits ep_known ep_watched (ep_usable fileno) (epoller_ok fileno) (sv\<lparr>sv_serving := True\<rparr>)"
    using assms(1) by (simp add: admits_def)
  from ep_in.rejecting_admits [OF this]
  show "\<exists>sv'. Server_rejecting (EPoller_removeReadSocket fileno) (sv\<lparr>sv_serving := True\<rparr>) = Inr sv'
      \<and> sv_socks sv' = [] \<and> fst ` set (sv_socks sv) \<inter> ep_watched (sv_read_name sv) (sv_poller sv') = {}"
    by auto
qed

definition example_server :: "epoller server" where
  "example_server = \<lparr>sv_socks = [(1, (''127.0.0.1'', 3128))], sv_read_name = ''read_client'', sv_max_clients = 1,
     sv_client_count = 0, sv_saturated = False, sv_binding = [(''127.0.0.1'', 3128, 5, 200)], sv_serving = True,
     sv_poller = example_poller\<rparr>"

lemma example_server_admits:
  "admits ep_known ep_watched (ep_usable (\<lambda>s. Some (s + 10))) (epoller_ok (\<lambda>s. Some (s + 10))) example_server"
  using example_poller_ok(1-3) by (simp add: admits_def example_server_def)

theorem Server_admission_witness:
  "\<exists>sv'. Server_accept (EPoller_removeReadSocket (\<lambda>s. Some (s + 10))) True example_server = Inr sv'
     \<and> sv_client_count sv' = 1
     \<and> admits ep_known ep_watched (ep_usable (\<lambda>s. Some (s + 10))) (epoller_ok (\<lambda>s. Some (s + 10))) sv'"
  using Server_admission [OF example_server_admits, of 0 True] by (auto simp: example_server_def)

lemma relisten_none:
  assumes "\<And>b. b \<in> set bs \<Longrightarrow> made b = Inr None"
  shows "relisten add made bs sv = Inr (True, sv\<lparr>sv_serving := True\<rparr>)"
  using assms by (induction bs) (auto simp: Server_listen_def)

text \<open>A server that ceased to listen says that it accepts again whatever becomes of its bindings: when none can be listened on it answers \<open>True\<close>, counts as serving, and has no socket.\<close>

theorem Server_accepting_unchecked:
  assumes "Server_rejecting remove sv = Inr sv1" "sv_serving sv"
    and "\<forall>b \<in> set (sv_binding sv). made b = Inr None"
  shows "\<exists>sv2. Server_accepting add made sv1 = Inr (True, sv2) \<and> sv_serving sv2 \<and> sv_socks sv2 = []"
proof -
  from assms(1,2) have s: "\<not> sv_serving sv1" "sv_socks sv1 = []" "sv_binding sv1 = sv_binding sv"
    by (auto simp: Server_rejecting_def on_listening_def seq_eq_Inr_iff)
  then have "relisten add made (sv_binding sv1) sv1 = Inr (True, sv1\<lparr>sv_serving := True\<rparr>)"
    using assms(3) by (simp add: relisten_none)
  with s show ?thesis by (simp add: Server_accepting_def)
qed

theorem Server_accepting_unchecked_witness:
  "\<exists>sv1 sv2. Server_rejecting (EPoller_removeReadSocket (\<lambda>s. Some (s + 10))) example_server = Inr sv1
     \<and> Server_accepting (\<lambda>name s p. state_of (EPoller_addReadSocket (\<lambda>s. Some (s + 10)) name s p)) (\<lambda>_. Inr None) sv1
       = Inr (True, sv2) \<and> sv_socks sv2 = []"
proof -
  obtain sv1 where sv1: "Server_rejecting (EPoller_removeReadSocket (\<lambda>s. Some (s + 10))) example_server = Inr sv1"
    using ep_in.rejecting_admits [OF example_server_admits] by (auto simp: example_server_def)
  from Server_accepting_unchecked [OF sv1, of "\<lambda>_. Inr None"] sv1 show ?thesis
    by (fastforce simp: example_server_def)
qed

lemma intercept_options:
  "C_transparent \<in> set (set_options os [C_reuseaddr, C_reuseport, C_transparent])
     \<longleftrightarrow> os C_reuseaddr = OsOk \<and> os C_reuseport = OsOk \<and> os C_transparent = OsOk"
  by simp

lemma listen_with_Some:
  assumes "listen_with options os ip port timeout = Inr (Some s)"
  shows "address_family ip = Inr (Some (ns_family s)) \<and> ns_options s = set_options os options"
proof -
  from assms obtain family where family: "address_family ip = Inr family"
    by (cases "address_family ip") (simp_all add: listen_with_def)
  with assms obtain f where f: "family = Some f" by (cases family) (simp_all add: listen_with_def)
  have "\<lparr>ns_family = f, ns_options = set_options os options, ns_timeout = timeout\<rparr> = s"
    using assms family f unfolding listen_with_def
    by (simp only: seq_simps option.case split: if_split_asm) (simp_all only: sum.inject sum.distinct option.inject option.distinct)
  with family f show ?thesis by auto
qed

text \<open>Making a socket: an address that is not an IP gives none, a port beyond 16 bits is an \<open>OverflowError\<close>, and any refusal of the system is \<open>None\<close> except when \<open>TCP_NODELAY\<close> fails. The socket that intercepts connections is made although the option for it was not set when one of the two options before it is refused.\<close>

theorem sockets_made:
  "(address_family ip = Inr None \<longrightarrow> net_listen os ip port timeout = Inr None \<and> net_connect os ip port bind imm = Inr None)
    \<and> (address_family ip = Inr (Some f) \<longrightarrow> os C_socket = OsOk \<longrightarrow> os C_nodelay = OsOk \<longrightarrow> \<not> port_ok port \<longrightarrow>
         net_listen os ip port timeout = Inl OverflowError \<and> net_connect os ip port bind imm = Inl OverflowError)
    \<and> (net_connect os ip port bind imm = Inr (Some s) \<longrightarrow> port_ok port \<and> os C_connect \<in> {OsOk, OsBlocks})
    \<and> (listen_intercept os ip port timeout = Inr (Some s) \<longrightarrow> address_family ip = Inr (Some (ns_family s)) \<and>
         (C_transparent \<in> set (ns_options s)
            \<longleftrightarrow> os C_reuseaddr = OsOk \<and> os C_reuseport = OsOk \<and> os C_transparent = OsOk))"
proof (intro conjI impI)
  assume "address_family ip = Inr None"
  then show "net_listen os ip port timeout = Inr None" "net_connect os ip port bind imm = Inr None"
    by (simp_all add: net_listen_def listen_with_def net_connect_def)
next
  assume "address_family ip = Inr (Some f)" "os C_socket = OsOk" "os C_nodelay = OsOk" "\<not> port_ok port"
  then show "net_listen os ip port timeout = Inl OverflowError" "net_connect os ip port bind imm = Inl OverflowError"
    by (simp_all add: net_listen_def listen_with_def net_connect_def Let_def)
next
  assume "net_connect os ip port bind imm = Inr (Some s)"
  then show "port_ok port" "os C_connect \<in> {OsOk, OsBlocks}"
    by (auto simp: net_connect_def seq_eq_Inr_iff Let_def simp del: insert_iff split: option.splits if_splits)
next
  assume l: "listen_intercept os ip port timeout = Inr (Some s)"
  note made = listen_with_Some [OF l [unfolded listen_intercept_def]]
  show "address_family ip = Inr (Some (ns_family s))" using made by blast
  from made have "ns_options s = set_options os [C_reuseaddr, C_reuseport, C_transparent]" by blast
  then show "C_transparent \<in> set (ns_options s)
      \<longleftrightarrow> os C_reuseaddr = OsOk \<and> os C_reuseport = OsOk \<and> os C_transparent = OsOk"
    by (simp only: intercept_options)
qed

theorem sockets_made_witness:
  "net_connect (\<lambda>_. OsOk) ''1.2.3.4'' 99999 ''0.0.0.0'' True = Inl OverflowError
    \<and> (\<exists>s. listen_intercept (\<lambda>c. if c = C_reuseport then OsMissing else OsOk) ''1.2.3.4'' 80 0 = Inr (Some s)
         \<and> C_transparent \<notin> set (ns_options s))"
proof -
  have f: "address_family ''1.2.3.4'' = Inr (Some INET4)"
    by (simp add: address_family_def isipv6_def isipv4_def inet_pton6_def inet_pton4_def inet_pton6_end_def is_hexdigit_def hexdigits_def
        is_digit_def digit_val_def)
  from sockets_made [where ip = "''1.2.3.4''" and f = INET4 and port = 99999 and os = "\<lambda>_. OsOk"
      and bind = "''0.0.0.0''" and imm = True] f
  have "net_connect (\<lambda>_. OsOk) ''1.2.3.4'' 99999 ''0.0.0.0'' True = Inl OverflowError" by (simp add: port_ok_def)
  moreover
  let ?os = "\<lambda>c. if c = C_reuseport then OsMissing else OsOk"
  have "listen_intercept ?os ''1.2.3.4'' 80 0 = Inr (Some \<lparr>ns_family = INET4, ns_options = [C_reuseaddr], ns_timeout = 0\<rparr>)"
    using f by (simp add: listen_intercept_def listen_with_def port_ok_def)
  with sockets_made [where ip = "''1.2.3.4''" and os = ?os and port = 80 and timeout = 0
      and s = "\<lparr>ns_family = INET4, ns_options = [C_reuseaddr], ns_timeout = 0\<rparr>"]
  have "\<exists>s. listen_intercept ?os ''1.2.3.4'' 80 0 = Inr (Some s) \<and> C_transparent \<notin> set (ns_options s)" by auto
  ultimately show ?thesis by blast
qed

end
