(* ===== verification/HttpResponse.thy ===== *)
theory HttpResponse
  imports HTTPClient
begin

text \<open>
  \<open>lib/exaproxy/http/response.py\<close>: the answers the proxy makes itself. The date, the version of the
  proxy and the name of the platform are read from the environment and are a parameter.
\<close>

record server_info =
  si_date :: string
  si_version :: string
  si_platform :: string

text \<open>
  The code is a string, or (\<open>http(501, ...)\<close> in the content manager) an integer, which is not a key of
  the table of names.
\<close>

datatype status_code = StrCode string | IntCode nat

definition code_text :: "status_code \<Rightarrow> string" where
  "code_text c = (case c of StrCode s \<Rightarrow> s | IntCode n \<Rightarrow> show_nat n)"

definition HTTP_NAMES :: "(string \<times> string) list" where
  "HTTP_NAMES =
     [(''100'', ''CONTINUE''), (''101'', ''SWITCHING PROTOCOLS''), (''200'', ''OK''), (''201'', ''CREATED''),
      (''202'', ''ACCEPTED''), (''203'', ''NON-AUTHORITATIVE INFORMATION''), (''204'', ''NO CONTENT''),
      (''205'', ''RESET CONTENT''), (''206'', ''PARTIAL CONTENT''), (''226'', ''IM USED''),
      (''300'', ''MULTIPLE CHOICES''), (''301'', ''MOVED PERMANENTLY''), (''302'', ''FOUND''),
      (''303'', ''SEE OTHER''), (''304'', ''NOT MODIFIED''), (''305'', ''USE PROXY''), (''306'', ''RESERVED''),
      (''307'', ''TEMPORARY REDIRECT''), (''400'', ''BAD REQUEST''), (''401'', ''UNAUTHORIZED''),
      (''402'', ''PAYMENT REQUIRED''), (''403'', ''FORBIDDEN''), (''404'', ''NOT FOUND''),
      (''405'', ''METHOD NOT ALLOWED''), (''406'', ''NOT ACCEPTABLE''), (''407'', ''PROXY AUTHENTICATION REQUIRED''),
      (''408'', ''REQUEST TIMEOUT''), (''409'', ''CONFLICT''), (''410'', ''GONE''), (''411'', ''LENGTH REQUIRED''),
      (''412'', ''PRECONDITION FAILED''), (''413'', ''REQUEST ENTITY TOO LARGE''), (''414'', ''REQUEST-URI TOO LONG''),
      (''415'', ''UNSUPPORTED MEDIA TYPE''), (''416'', ''REQUESTED RANGE NOT SATISFIABLE''),
      (''417'', ''EXPECTATION FAILED''), (''500'', ''INTERNAL SERVER ERROR''), (''501'', ''NOT IMPLEMENTED''),
      (''502'', ''BAD GATEWAY''), (''503'', ''SERVICE UNAVAILABLE''), (''504'', ''GATEWAY TIMEOUT''),
      (''505'', ''HTTP VERSION NOT SUPPORTED'')]"

definition code_name :: "status_code \<Rightarrow> string" where
  "code_name c =
     (case c of IntCode _ \<Rightarrow> ''-''
      | StrCode s \<Rightarrow> (case map_of HTTP_NAMES s of None \<Rightarrow> ''-'' | Some n \<Rightarrow> n))"

definition status_lines :: "server_info \<Rightarrow> string \<Rightarrow> status_code \<Rightarrow> nat \<Rightarrow> string list" where
  "status_lines si protocol code len =
     [''HTTP/'' @ protocol @ '' '' @ code_text code @ '' '' @ code_name code,
      ''Date: '' @ si_date si,
      ''Server: exaproxy/'' @ si_version si @ '' ('' @ si_platform si @ '')'',
      ''Content-Length: '' @ show_nat len]"

definition file_header :: "server_info \<Rightarrow> status_code \<Rightarrow> nat \<Rightarrow> string \<Rightarrow> string" where
  "file_header si code len protocol =
     py_join CRLF (status_lines si protocol code len @
       [''Connection: close'', ''Content-Type: text/html'', ''Cache-Control: no-store'', ''Pragma: no-cache'', []])"

definition http_reply :: "server_info \<Rightarrow> status_code \<Rightarrow> string \<Rightarrow> string \<Rightarrow> string" where
  "http_reply si code message protocol =
     (let encoding = (if prefix ''<html'' (py_lower (take 5 message)) then ''html'' else ''plain'') in
      py_join CRLF (status_lines si protocol code (length message) @
        [''Content-Type: text/'' @ encoding, ''Cache-Control: no-store'', ''Pragma: no-cache'', [], message]))"

section \<open>Properties\<close>

text \<open>A header line as a recipient reads it: not empty and on one line.\<close>

definition header_line :: "string \<Rightarrow> bool" where
  "header_line l \<longleftrightarrow> l \<noteq> [] \<and> LF \<notin> set l"

text \<open>Lines, each with its line end.\<close>

definition lines_text :: "string list \<Rightarrow> string" where
  "lines_text ls = concat (map (\<lambda>l. l @ CRLF) ls)"

lemma py_join_last: "py_join CRLF (ls @ [x]) = lines_text ls @ x"
  by (induction ls) (auto simp: lines_text_def py_join_Cons)

definition info_lines :: "server_info \<Rightarrow> string \<Rightarrow> status_code \<Rightarrow> bool" where
  "info_lines si protocol code \<longleftrightarrow> LF \<notin> set (si_date si) \<and> LF \<notin> set (si_version si) \<and> LF \<notin> set (si_platform si)
     \<and> LF \<notin> set protocol \<and> LF \<notin> set (code_text code)"

lemma show_nat_no_LF: "LF \<notin> set (show_nat n)"
  using show_nat_digits [of n] by (auto simp: list_all_iff is_digit_def Let_def)

lemma code_name_no_LF: "LF \<notin> set (code_name c)"
proof -
  have "\<forall>(k, n) \<in> set HTTP_NAMES. LF \<notin> set n" by (simp add: HTTP_NAMES_def)
  then show ?thesis by (auto simp: code_name_def split: status_code.split option.split dest!: map_of_SomeD)
qed

lemma status_lines_ok:
  assumes "info_lines si protocol code"
  shows "list_all header_line (status_lines si protocol code len)"
  using assms show_nat_no_LF [of len] code_name_no_LF [of code]
  by (simp add: status_lines_def header_line_def info_lines_def)

text \<open>C38: An answer that \<open>http()\<close> makes is well framed: lines that are not empty, among them the length of the body, then one empty line, then the body.\<close>

theorem http_reply_framed:
  assumes "info_lines si protocol code"
  shows "\<exists>ls. http_reply si code message protocol = lines_text ls @ CRLF @ message
    \<and> list_all header_line ls \<and> ''Content-Length: '' @ show_nat (length message) \<in> set ls"
proof -
  let ?enc = "''Content-Type: text/'' @ (if prefix ''<html'' (py_lower (take 5 message)) then ''html'' else ''plain'')"
  let ?ls = "status_lines si protocol code (length message) @ [?enc, ''Cache-Control: no-store'', ''Pragma: no-cache'']"
  have "http_reply si code message protocol = py_join CRLF ((?ls @ [[]]) @ [message])"
    by (simp add: http_reply_def Let_def)
  also have "\<dots> = lines_text ?ls @ CRLF @ message"
    unfolding py_join_last by (simp add: lines_text_def)
  finally have "http_reply si code message protocol = lines_text ?ls @ CRLF @ message" .
  moreover have "list_all header_line ?ls" using status_lines_ok [OF assms] by (simp add: header_line_def)
  moreover have "''Content-Length: '' @ show_nat (length message) \<in> set ?ls" by (simp add: status_lines_def)
  ultimately show ?thesis by blast
qed

definition example_info :: server_info where
  "example_info = \<lparr>si_date = ''Mon Jan  6 10:00:00 2014 UTC'', si_version = ''1.2'', si_platform = ''linux2''\<rparr>"

theorem http_reply_framed_witness:
  "\<exists>ls. http_reply example_info (StrCode ''501'') ''CONNECT NOT ALLOWED'' ''1.1'' = lines_text ls @ CRLF @ ''CONNECT NOT ALLOWED''
    \<and> list_all header_line ls \<and> ''Content-Length: '' @ show_nat (length ''CONNECT NOT ALLOWED'') \<in> set ls"
  by (rule http_reply_framed) (simp add: info_lines_def example_info_def code_text_def)

text \<open>The headers that are sent before a local file have no empty line after them: the client is sent the header lines and then, at once, the first byte of the file.\<close>

theorem local_file_unframed:
  assumes "info_lines si ''1.1'' code"
  shows "\<exists>ls sent w. client_startData (File (file_header si code len ''1.1'') filename) (Some content) answer ipv4 [] = Inr (Some (True, False, 0, 0), sent, w)
    \<and> list_all header_line ls \<and> w_buffer w = lines_text ls @ content"
proof -
  let ?ls = "status_lines si ''1.1'' code len @
    [''Connection: close'', ''Content-Type: text/html'', ''Cache-Control: no-store'', ''Pragma: no-cache'']"
  have "file_header si code len ''1.1'' = py_join CRLF (?ls @ [[]])" by (simp add: file_header_def)
  then have h: "file_header si code len ''1.1'' = lines_text ?ls" by (simp only: py_join_last) simp
  have "list_all header_line ?ls" using status_lines_ok [OF assms] by (simp add: header_line_def)
  moreover have "client_startData (File (lines_text ?ls) filename) (Some content) answer ipv4 [] =
      Inr (Some (True, False, 0, 0), 0, (write_init ipv4 (lines_text ?ls @ content))
             \<lparr>w_point := InLoop, w_finished := True, w_found := True, w_file := Some []\<rparr>)"
    by (simp add: client_startData_local lines_text_def status_lines_def)
  moreover have "w_buffer ((write_init ipv4 (lines_text ?ls @ content))
             \<lparr>w_point := InLoop, w_finished := True, w_found := True, w_file := Some []\<rparr>) = lines_text ?ls @ content"
    by (simp add: write_init_def)
  ultimately show ?thesis unfolding h by blast
qed

theorem local_file_unframed_witness:
  "\<exists>ls sent w. client_startData (File (file_header example_info (StrCode ''200'') 21 ''1.1'') ''deny.html'')
       (Some ''<html>Denied</html>'') SendBlocked True [] = Inr (Some (True, False, 0, 0), sent, w)
    \<and> list_all header_line ls \<and> w_buffer w = lines_text ls @ ''<html>Denied</html>''"
  by (rule local_file_unframed) (simp add: info_lines_def example_info_def code_text_def)

end
