(* ===== verification/RedirectorResponse.thy ===== *)
theory RedirectorResponse
  imports Message HttpResponse
begin

text \<open>
  \<open>lib/exaproxy/reactor/redirector/response.py\<close>: how a decision on a request is encoded for the proxy
  process, and how the verdict on a request becomes a decision.
\<close>

section \<open>Encoding\<close>

text \<open>
  A decision is a tuple of strings, one string, the message kept for later (\<open>'m\<close>) or \<open>None\<close>. The
  command is \<open>None\<close> for an error.
\<close>

datatype 'm decision = Fields "string list" | Text string | Deferred 'm | NoDecision

type_synonym 'm response = "string \<times> string option \<times> 'm decision"

definition respond_icap :: "string \<Rightarrow> string \<Rightarrow> string \<Rightarrow> 'm response" where
  "respond_icap client_id response len = (client_id, Some ''icap'', Fields [response, len])"

definition respond_download :: "string \<Rightarrow> string \<Rightarrow> string \<Rightarrow> string \<Rightarrow> string \<Rightarrow> string \<Rightarrow> 'm response" where
  "respond_download client_id ip port upgrade len message =
     (client_id, Some ''download'', Fields [ip, port, upgrade, len, message])"

definition respond_connect :: "string \<Rightarrow> string \<Rightarrow> string \<Rightarrow> string \<Rightarrow> 'm response" where
  "respond_connect client_id host port message = (client_id, Some ''connect'', Fields [host, port, message])"

definition respond_intercept :: "string \<Rightarrow> string \<Rightarrow> string \<Rightarrow> string \<Rightarrow> 'm response" where
  "respond_intercept client_id host port message = (client_id, Some ''intercept'', Fields [host, port, message])"

definition respond_file :: "string \<Rightarrow> string \<Rightarrow> string \<Rightarrow> 'm response" where
  "respond_file client_id code reason = (client_id, Some ''file'', Fields [code, reason])"

definition respond_rewrite :: "string \<Rightarrow> string \<Rightarrow> string \<Rightarrow> string \<Rightarrow> http_message \<Rightarrow> 'm response res" where
  "respond_rewrite client_id code reason comment m =
     seq (or_raise AttributeError (msg_request m)) (\<lambda>r.
     seq (or_raise AttributeError (msg_url m)) (\<lambda>url.
     seq (or_raise AttributeError (msg_host m)) (\<lambda>host.
     Inr (client_id, Some ''rewrite'', Fields [code, reason, comment, req_protocol r, url, host, msg_client m]))))"

definition respond_http :: "string \<Rightarrow> string \<Rightarrow> 'm response" where
  "respond_http client_id data = (client_id, Some ''http'', Text data)"

definition respond_monitor :: "string \<Rightarrow> string \<Rightarrow> 'm response" where
  "respond_monitor client_id path = (client_id, Some ''monitor'', Text path)"

definition respond_redirect :: "string \<Rightarrow> string \<Rightarrow> 'm response" where
  "respond_redirect client_id url = (client_id, Some ''redirect'', Text url)"

definition respond_hangup :: "string \<Rightarrow> 'm response" where
  "respond_hangup wid = ([], Some ''close'', Text wid)"

definition respond_close :: "string \<Rightarrow> 'm response" where
  "respond_close client_id = (client_id, Some ''close'', Text [])"

definition respond_defer :: "string \<Rightarrow> 'm \<Rightarrow> 'm response" where
  "respond_defer client_id message = (client_id, Some ''defer'', Deferred message)"

definition respond_error :: "string \<Rightarrow> 'm response" where
  "respond_error client_id = (client_id, None, NoDecision)"

section \<open>From a verdict to a decision\<close>

text \<open>\<open>splithost\<close>; \<open>str\<close> of the port is taken here, as the encoder does at once.\<close>

definition splithost :: "string \<Rightarrow> nat \<Rightarrow> string \<times> string" where
  "splithost data default_port =
     (case py_split1 '':'' data of
        None \<Rightarrow> (data, show_nat default_port)
      | Some (host, port) \<Rightarrow> (host, if py_isdigit port then port else show_nat default_port))"

text \<open>The classification, with the data and the comment that go with it.\<close>

datatype classification =
    Permit
  | Rewrite string
  | ServeFile string string
  | Redirect string
  | Intercept string
  | Http string
  | OtherClass

definition show_length :: "body_length \<Rightarrow> string" where
  "show_length l = (case l of Chunked \<Rightarrow> ''chunked'' | Length n \<Rightarrow> show_int n)"

text \<open>\<open>self.encoder.download(client_id, host, port, upgrade, message.content_length, message)\<close>.\<close>

definition download_message :: "string \<Rightarrow> string \<Rightarrow> string \<Rightarrow> string \<Rightarrow> http_message \<Rightarrow> 'm response res" where
  "download_message client_id host port upgrade m =
     seq (or_raise AttributeError (msg_content_length m)) (\<lambda>len.
     seq (HTTP_str m) (\<lambda>text.
     Inr (respond_download client_id host port upgrade (show_length len) text)))"

text \<open>The operation and its destination, for the log, and the response.\<close>

type_synonym 'm verdict = "(string \<times> string) \<times> 'm response"

definition permit_download :: "string \<Rightarrow> http_message \<Rightarrow> 'm verdict res" where
  "permit_download client_id m =
     seq (or_raise AttributeError (msg_host m)) (\<lambda>host.
     seq (or_raise AttributeError (msg_port m)) (\<lambda>port.
     seq (or_raise AttributeError (msg_upgrade m)) (\<lambda>upgrade.
     seq (download_message client_id host (show_nat port) upgrade m) (\<lambda>r. Inr ((''PERMIT'', host), r)))))"

definition contentResponse :: "string \<Rightarrow> http_message \<Rightarrow> classification \<Rightarrow> 'm verdict res" where
  "contentResponse client_id m c =
     (case c of
        Permit \<Rightarrow> permit_download client_id m
      | Rewrite data \<Rightarrow>
          (case HTTP_redirect None (Some data) m of
             (Some e, _) \<Rightarrow> Inl e
           | (None, m') \<Rightarrow>
               seq (or_raise AttributeError (msg_host m')) (\<lambda>host.
               seq (or_raise AttributeError (msg_port m')) (\<lambda>port.
               seq (download_message client_id host (show_nat port) [] m') (\<lambda>r. Inr ((''REWRITE'', data), r)))))
      | ServeFile data comment \<Rightarrow>
          seq (respond_rewrite client_id ''200'' data comment m) (\<lambda>r. Inr ((''FILE'', data), r))
      | Redirect data \<Rightarrow> Inr ((''REDIRECT'', data), respond_redirect client_id data)
      | Intercept data \<Rightarrow>
          seq (or_raise AttributeError (msg_port m)) (\<lambda>default_port.
          let (host, port) = splithost data default_port in
          seq (download_message client_id host port [] m) (\<lambda>r. Inr ((''INTERCEPT'', data), r)))
      | Http data \<Rightarrow> Inr ((''LOCAL'', []), respond_http client_id data)
      | OtherClass \<Rightarrow> permit_download client_id m)"

definition permit_connect :: "string \<Rightarrow> http_message \<Rightarrow> 'm verdict res" where
  "permit_connect client_id m =
     seq (or_raise AttributeError (msg_host m)) (\<lambda>host.
     seq (or_raise AttributeError (msg_port m)) (\<lambda>port.
     Inr ((''PERMIT'', host), respond_connect client_id host (show_nat port) [])))"

definition connectResponse :: "string \<Rightarrow> http_message \<Rightarrow> classification \<Rightarrow> 'm verdict res" where
  "connectResponse client_id m c =
     (case c of
        Permit \<Rightarrow> permit_connect client_id m
      | Redirect data \<Rightarrow> Inr ((''REDIRECT'', data), respond_redirect client_id data)
      | Intercept data \<Rightarrow>
          seq (or_raise AttributeError (msg_port m)) (\<lambda>default_port.
          let (host, port) = splithost data default_port in
          seq (HTTP_str m) (\<lambda>text. Inr ((''INTERCEPT'', data), respond_intercept client_id host port text)))
      | ServeFile data comment \<Rightarrow>
          seq (respond_rewrite client_id ''200'' data comment m) (\<lambda>r. Inr ((''FILE'', data), r))
      | Http data \<Rightarrow> Inr ((''LOCAL'', []), respond_http client_id data)
      | _ \<Rightarrow> permit_connect client_id m)"

text \<open>The host and the port of a destination given as \<open>host:port\<close>.\<close>

lemma splithost_port:
  assumes "CHR '':'' \<notin> set host"
  shows "splithost (host @ '':'' @ show_nat port) d = (host, show_nat port)" "splithost host d = (host, show_nat d)"
  using assms by (simp_all add: splithost_def)

end
