(* ===== verification/TLSHello.thy ===== *)
theory TLSHello
  imports PyStr
begin

text \<open>
  \<open>lib/exaproxy/tls/\<close>: \<open>decode.py\<close> (the host name in a TLS ClientHello), \<open>parser.py\<close>, \<open>request.py\<close> and
  \<open>response.py\<close>. A slice never raises, so the exceptions are those of \<open>ord(data[0])\<close> on an empty string
  (\<open>IndexError\<close>, which \<open>parse_hello\<close> catches) and of \<open>unpack\<close> on less than two bytes (\<open>struct.error\<close>).
\<close>

definition TLS_HEADER_LEN :: nat where "TLS_HEADER_LEN = 5"

definition TLS_HANDSHAKE_CONTENT_TYPE :: nat where "TLS_HANDSHAKE_CONTENT_TYPE = 22"

definition TLS_HANDSHAKE_TYPE_CLIENT_HELLO :: nat where "TLS_HANDSHAKE_TYPE_CLIENT_HELLO = 1"

text \<open>\<open>data[i:j]\<close> and \<open>ord(data[i])\<close>.\<close>

definition slice :: "nat \<Rightarrow> nat \<Rightarrow> 'a list \<Rightarrow> 'a list" where
  "slice i j xs = take (j - i) (drop i xs)"

definition byte_at :: "nat \<Rightarrow> string \<Rightarrow> nat res" where
  "byte_at i data = (if i < length data then Inr (of_char (data ! i)) else Inl IndexError)"

definition short :: "string \<Rightarrow> nat res" where
  "short data = (case data of [a, b] \<Rightarrow> Inr (of_char a * 256 + of_char b) | _ \<Rightarrow> Inl StructError)"

definition get_tls_hello_size :: "string \<Rightarrow> nat res" where
  "get_tls_hello_size data = seq (short (slice 3 5 data)) (\<lambda>n. Inr (n + TLS_HEADER_LEN))"

text \<open>The loop over the extensions: the data of the first of type 0, without its outer length.\<close>

function find_sni :: "string \<Rightarrow> string res" where
  "find_sni data =
     (if data = [] then Inr []
      else
        seq (short (slice 2 4 data)) (\<lambda>n.
        seq (short (slice 0 2 data)) (\<lambda>type.
        if type = 0 then Inr (slice 6 (n + 4) data)
        else find_sni (drop (n + 4) data))))"
  by pat_completeness auto
termination by (relation "measure length") auto

text \<open>The loop over the names of that extension.\<close>

function find_name :: "string \<Rightarrow> string option res" where
  "find_name data =
     (if data = [] then Inr None
      else
        seq (short (slice 1 3 data)) (\<lambda>n.
        seq (byte_at 0 data) (\<lambda>type.
        if type = 0 then Inr (Some (slice 3 (n + 3) data))
        else find_name (drop (n + 3) data))))"
  by pat_completeness auto
termination by (relation "measure length") auto

declare find_sni.simps [simp del] find_name.simps [simp del]

text \<open>The variable parts of the handshake, after the 38 bytes of fixed ones.\<close>

definition parse_variable :: "nat \<Rightarrow> nat \<Rightarrow> string \<Rightarrow> string option res" where
  "parse_variable major minor data =
     seq (byte_at 0 data) (\<lambda>sid.
     let data1 = drop (sid + 1) data in
     seq (short (take 2 data1)) (\<lambda>ciphers.
     let data2 = drop (ciphers + 2) data1 in
     seq (byte_at 0 data2) (\<lambda>compression.
     let data3 = drop (compression + 1) data2 in
     if data3 = [] \<and> major = 3 \<and> minor = 0 then Inr None
     else if data3 = [] then Inr None
     else
       seq (short (take 2 data3)) (\<lambda>n.
       seq (find_sni (take n (drop 2 data3))) (\<lambda>sni.
       if sni = [] then Inr None else find_name sni)))))"

text \<open>The body of the \<open>try\<close>.\<close>

definition parse_hello_body :: "string \<Rightarrow> string option res" where
  "parse_hello_body data =
     (if length data < TLS_HEADER_LEN + 1 then Inr None
      else
        seq (byte_at 0 data) (\<lambda>content_type.
        if content_type \<noteq> TLS_HANDSHAKE_CONTENT_TYPE then Inr None
        else
          seq (byte_at 1 data) (\<lambda>major.
          seq (byte_at 2 data) (\<lambda>minor.
          if content_type div 128 mod 2 = 1 \<and> minor = 1 then Inr None
          else if major < 3 then Inr None
          else
            seq (short (slice 3 5 data)) (\<lambda>n.
            let data1 = take (n + TLS_HEADER_LEN) (drop TLS_HEADER_LEN data) in
            seq (byte_at 0 data1) (\<lambda>type.
            if type \<noteq> TLS_HANDSHAKE_TYPE_CLIENT_HELLO then Inr None
            else parse_variable major minor (drop 38 data1)))))))"

definition parse_hello :: "string \<Rightarrow> string option res" where
  "parse_hello data = (case parse_hello_body data of Inl IndexError \<Rightarrow> Inr None | r \<Rightarrow> r)"

text \<open>\<open>TLSParser.parseClientHello\<close>: a request holds the host name only.\<close>

definition createClientHello :: "string \<Rightarrow> string" where
  "createClientHello hostname = hostname"

definition parseClientHello :: "string \<Rightarrow> string option res" where
  "parseClientHello tls_header =
     seq (parse_hello tls_header) (\<lambda>hostname.
     Inr (case hostname of None \<Rightarrow> None | Some h \<Rightarrow> if h = [] then None else Some (createClientHello h)))"

section \<open>Answers\<close>

record tls_failure =
  tf_version :: nat
  tf_reason :: nat

definition getHandshakeFailure :: tls_failure where
  "getHandshakeFailure = \<lparr>tf_version = 3, tf_reason = 40\<rparr>"

text \<open>
  \<open>encodeFailureResponse\<close> is declared with \<open>reason\<close> as its only parameter and uses \<open>self\<close>: called on an
  instance it is given two arguments. \<open>TLSParser.encodeFailureResponse\<close> calls \<open>createResponse\<close>, which the
  factory does not have.
\<close>

definition TLSResponseFactory_encodeFailureResponse :: "nat \<Rightarrow> string res" where
  "TLSResponseFactory_encodeFailureResponse reason = Inl TypeError"

definition TLSParser_encodeFailureResponse :: "tls_failure \<Rightarrow> string res" where
  "TLSParser_encodeFailureResponse response = Inl AttributeError"

section \<open>A hello as a client writes it\<close>

definition be16 :: "nat \<Rightarrow> string" where
  "be16 n = [char_of (n div 256), char_of (n mod 256)]"

definition extension :: "nat \<Rightarrow> string \<Rightarrow> string" where
  "extension type body = be16 type @ be16 (length body) @ body"

definition server_name :: "string \<Rightarrow> string" where
  "server_name host = extension 0 (be16 (length host + 3) @ char_of (0::nat) # be16 (length host) @ host)"

text \<open>The parts that are skipped: \<open>fixed\<close> is the length, the version and the random bytes.\<close>

record hello_parts =
  hp_minor :: nat
  hp_fixed :: string
  hp_session :: string
  hp_ciphers :: string
  hp_compression :: string
  hp_before :: "(nat \<times> string) list"
  hp_after :: string

definition hello_ok :: "hello_parts \<Rightarrow> bool" where
  "hello_ok p \<longleftrightarrow> length (hp_fixed p) = 37 \<and> length (hp_session p) < 256 \<and> length (hp_ciphers p) < 65536
     \<and> length (hp_compression p) < 256 \<and> hp_minor p < 256
     \<and> (\<forall>(t, b) \<in> set (hp_before p). 0 < t \<and> t < 65536 \<and> length b < 65536)"

definition extensions :: "hello_parts \<Rightarrow> string \<Rightarrow> string" where
  "extensions p host = concat (map (\<lambda>(t, b). extension t b) (hp_before p)) @ server_name host @ hp_after p"

definition handshake :: "hello_parts \<Rightarrow> string \<Rightarrow> string" where
  "handshake p host =
     char_of (1::nat) # hp_fixed p @ char_of (length (hp_session p)) # hp_session p
       @ be16 (length (hp_ciphers p)) @ hp_ciphers p
       @ char_of (length (hp_compression p)) # hp_compression p
       @ be16 (length (extensions p host)) @ extensions p host"

definition client_hello :: "hello_parts \<Rightarrow> string \<Rightarrow> string" where
  "client_hello p host =
     char_of (22::nat) # char_of (3::nat) # char_of (hp_minor p) # be16 (length (handshake p host)) @ handshake p host"

section \<open>Facts\<close>

lemma byte_at_simps [simp]:
  "byte_at 0 (c # s) = Inr (of_char c)" "byte_at 0 [] = Inl IndexError"
  "byte_at (Suc 0) (c # d # s) = Inr (of_char d)" "byte_at 2 (c # d # e # s) = Inr (of_char e)"
  by (simp_all add: byte_at_def)

lemma short_be16 [simp]: "n < 65536 \<Longrightarrow> short (be16 n) = Inr n"
  by (simp add: short_def be16_def)

lemma length_be16 [simp]: "length (be16 n) = 2"
  by (simp add: be16_def)

lemma take_be16 [simp]: "take 2 (be16 n @ s) = be16 n" "drop 2 (be16 n @ s) = s"
  by (simp_all add: be16_def)

lemma be16_pair:
  obtains a b where "be16 n = [a, b]"
  by (simp add: be16_def)

text \<open>The slices the loops take of two lengths and what follows them.\<close>

lemma slices:
  "slice 0 2 (be16 m @ be16 n @ s) = be16 m" "slice 2 4 (be16 m @ be16 n @ s) = be16 n"
  "drop (k + 4) (be16 m @ be16 n @ s) = drop k s"
  "slice 6 (k + 4) (be16 m @ be16 n @ be16 l @ s) = take (k - 2) s"
  "slice (Suc 0) 3 (c # be16 n @ s) = be16 n" "slice 3 (k + 3) (c # be16 n @ s) = take k s"
  "be16 m \<noteq> []"
proof -
  obtain a b where m: "be16 m = [a, b]" by (rule be16_pair)
  obtain c d where n: "be16 n = [c, d]" by (rule be16_pair)
  obtain e f where l: "be16 l = [e, f]" by (rule be16_pair)
  show "slice 0 2 (be16 m @ be16 n @ s) = be16 m" "slice 2 4 (be16 m @ be16 n @ s) = be16 n"
    "drop (k + 4) (be16 m @ be16 n @ s) = drop k s"
    "slice 6 (k + 4) (be16 m @ be16 n @ be16 l @ s) = take (k - 2) s"
    "be16 m \<noteq> []"
    unfolding m n l by (simp_all add: slice_def flip: drop_drop)
  show "slice (Suc 0) 3 (c # be16 n @ s) = be16 n" "slice 3 (k + 3) (c # be16 n @ s) = take k s" for c
    unfolding n by (simp_all add: slice_def)
qed

lemma find_sni_step:
  assumes "0 < t" "t < 65536" "length b < 65536"
  shows "find_sni (extension t b @ s) = find_sni s"
  using assms by (subst find_sni.simps) (simp add: extension_def slices)

lemma find_sni_skip:
  assumes "\<forall>(t, b) \<in> set es. 0 < t \<and> t < 65536 \<and> length b < 65536"
  shows "find_sni (concat (map (\<lambda>(t, b). extension t b) es) @ s) = find_sni s"
  using assms by (induction es) (auto simp: find_sni_step)

lemma find_sni_server_name:
  assumes "length host + 5 < 65536"
  shows "find_sni (server_name host @ s) = Inr (char_of (0::nat) # be16 (length host) @ host)"
  using assms by (subst find_sni.simps) (simp add: server_name_def extension_def slices)

lemma find_name_first:
  assumes "length host < 65536"
  shows "find_name (char_of (0::nat) # be16 (length host) @ host) = Inr (Some host)"
  using assms by (subst find_name.simps) (simp add: slices)

lemma parse_variable_hello:
  assumes "hello_ok p" "length (extensions p host) < 65536"
  shows "parse_variable 3 minor (char_of (length (hp_session p)) # hp_session p
       @ be16 (length (hp_ciphers p)) @ hp_ciphers p
       @ char_of (length (hp_compression p)) # hp_compression p
       @ be16 (length (extensions p host)) @ extensions p host) = Inr (Some host)"
proof -
  have b: "length (hp_session p) < 256" "length (hp_compression p) < 256" "length (hp_ciphers p) < 65536"
    "\<forall>(t, b) \<in> set (hp_before p). 0 < t \<and> t < 65536 \<and> length b < 65536" using assms(1) by (auto simp: hello_ok_def)
  have "length host + 5 < 65536" using assms(2) by (simp add: extensions_def server_name_def extension_def)
  then have sni: "find_sni (extensions p host) = Inr (char_of (0::nat) # be16 (length host) @ host)"
    using find_sni_skip [OF b(4)] find_sni_server_name by (simp add: extensions_def)
  have name: "find_name (char_of (0::nat) # be16 (length host) @ host) = Inr (Some host)"
    using \<open>length host + 5 < 65536\<close> by (intro find_name_first) simp
  have ne: "be16 n @ s \<noteq> []" for n s by (simp add: be16_def)
  show ?thesis
    using b(1-3) assms(2) sni name ne by (simp add: parse_variable_def Let_def)
qed

section \<open>Properties\<close>

lemma parse_hello_client_hello:
  assumes "hello_ok p" "length (handshake p host) < 65536"
  shows "parse_hello (client_hello p host) = Inr (Some host)"
    and "get_tls_hello_size (client_hello p host) = Inr (length (client_hello p host))"
proof -
  let ?h = "handshake p host"
  obtain a b where l: "be16 (length ?h) = [a, b]" by (rule be16_pair)
  have s: "short [a, b] = Inr (length ?h)" using assms(2) l short_be16 by metis
  have ext: "length (extensions p host) < 65536" using assms(2) by (simp add: handshake_def)
  have minor: "hp_minor p < 256" "length (hp_fixed p) = 37" using assms(1) by (simp_all add: hello_ok_def)
  have data: "client_hello p host = char_of (22::nat) # char_of (3::nat) # char_of (hp_minor p) # a # b # ?h"
    by (simp add: client_hello_def l)
  obtain rest where h: "?h = char_of (1::nat) # hp_fixed p @ rest"
    and v: "parse_variable 3 m rest = Inr (Some host)" for m
    using parse_variable_hello [OF assms(1) ext] by (simp add: handshake_def)
  have slice: "slice 3 5 (x # y # z # a # b # w) = [a, b]" for x y z :: char and w by (simp add: slice_def)
  have "parse_hello_body (client_hello p host) = Inr (Some host)"
    using minor s v
    by (simp add: data parse_hello_body_def slice TLS_HEADER_LEN_def TLS_HANDSHAKE_CONTENT_TYPE_def
        TLS_HANDSHAKE_TYPE_CLIENT_HELLO_def h Let_def)
  then show "parse_hello (client_hello p host) = Inr (Some host)" by (simp add: parse_hello_def)
  show "get_tls_hello_size (client_hello p host) = Inr (length (client_hello p host))"
    using s by (simp add: data get_tls_hello_size_def slice TLS_HEADER_LEN_def)
qed

lemma short_error: "short d = Inl e \<Longrightarrow> e = StructError"
  by (auto simp: short_def split: list.splits)

lemma byte_at_error: "byte_at i d = Inl e \<Longrightarrow> e = IndexError"
  by (auto simp: byte_at_def split: if_splits)

lemma find_sni_error: "find_sni d = Inl e \<Longrightarrow> e = StructError"
proof (induction d rule: find_sni.induct)
  case (1 data)
  from 1(2) show ?case
    by (subst (asm) find_sni.simps)
       (auto simp: seq_eq_Inl_iff split: if_splits dest: short_error intro: 1(1))
qed

lemma find_name_error: "find_name d = Inl e \<Longrightarrow> e \<in> {StructError, IndexError}"
proof (induction d rule: find_name.induct)
  case (1 data)
  from 1(2) show ?case
    by (subst (asm) find_name.simps)
       (auto simp: seq_eq_Inl_iff split: if_splits dest: short_error byte_at_error 1(1))
qed

lemma parse_hello_body_error: "parse_hello_body d = Inl e \<Longrightarrow> e \<in> {StructError, IndexError}"
  by (auto simp: parse_hello_body_def parse_variable_def Let_def seq_eq_Inl_iff split: if_splits
      dest: short_error byte_at_error find_sni_error find_name_error)

text \<open>A hello that ends with its session identifier.\<close>

definition short_hello :: string where
  "short_hello = char_of (22::nat) # char_of (3::nat) # char_of (1::nat) # be16 39 @ char_of (1::nat) # replicate 38 (char_of (0::nat))"

text \<open>C37: The host name that a client announces in its ClientHello, after any other extensions, is the one that is found, and the size read from the record is that of the whole hello.\<close>

theorem tls_hello_name:
  assumes "hello_ok p" "length (handshake p host) < 65536"
  shows "parseClientHello (client_hello p host) = Inr (if host = [] then None else Some host)
    \<and> get_tls_hello_size (client_hello p host) = Inr (length (client_hello p host))"
  using parse_hello_client_hello [OF assms] by (simp add: parseClientHello_def createClientHello_def)

definition example_hello :: hello_parts where
  "example_hello = \<lparr>hp_minor = 1, hp_fixed = replicate 37 CHR ''r'', hp_session = ''s'', hp_ciphers = ''ab'',
     hp_compression = ''c'', hp_before = [(65281, ''x'')], hp_after = ''yz''\<rparr>"

theorem tls_hello_name_witness:
  "parseClientHello (client_hello example_hello ''exa.net'')
      = Inr (if ''exa.net'' = [] then None else Some ''exa.net'')
    \<and> get_tls_hello_size (client_hello example_hello ''exa.net'') = Inr (length (client_hello example_hello ''exa.net''))"
  by (rule tls_hello_name)
     (simp_all add: hello_ok_def example_hello_def handshake_def extensions_def server_name_def extension_def)

text \<open>Decoding a hello, which always ends, raises \<open>struct.error\<close> or nothing; and it does raise it, on a hello that is cut after its session identifier. Neither way of encoding a failure for the client works.\<close>

theorem tls_hello_errors:
  "(parseClientHello data = Inl e \<longrightarrow> e = StructError) \<and> parseClientHello short_hello = Inl StructError
    \<and> TLSResponseFactory_encodeFailureResponse (tf_reason getHandshakeFailure) = Inl TypeError
    \<and> TLSParser_encodeFailureResponse getHandshakeFailure = Inl AttributeError"
proof (intro conjI impI)
  assume "parseClientHello data = Inl e"
  then have "parse_hello data = Inl e" by (cases "parse_hello data") (simp_all add: parseClientHello_def)
  then have "parse_hello_body data = Inl e" "e \<noteq> IndexError"
    by (auto simp: parse_hello_def split: sum.splits py_error.splits)
  then show "e = StructError" using parse_hello_body_error by blast
next
  have r: "replicate 38 z = replicate 37 z @ [z]" for z :: char
    using replicate_append_same [of 37 z] replicate_Suc [of 37 z] by simp
  obtain a b where l: "be16 39 = [a, b]" by (rule be16_pair)
  have s: "short [a, b] = Inr 39" using l short_be16 [of 39] by simp
  have v: "parse_variable 3 m [char_of (0::nat)] = Inl StructError" for m
    by (simp add: parse_variable_def short_def)
  have "parse_hello_body short_hello = Inl StructError"
    using s v by (simp add: parse_hello_body_def short_hello_def l slice_def
        TLS_HEADER_LEN_def TLS_HANDSHAKE_CONTENT_TYPE_def TLS_HANDSHAKE_TYPE_CLIENT_HELLO_def Let_def r)
  then show "parseClientHello short_hello = Inl StructError"
    by (simp add: parseClientHello_def parse_hello_def)
qed (simp_all add: TLSResponseFactory_encodeFailureResponse_def TLSParser_encodeFailureResponse_def)

theorem tls_hello_errors_witness:
  "\<exists>e. parseClientHello short_hello = Inl e \<and> e = StructError"
  using tls_hello_errors [of short_hello StructError] by blast

end
