(* ===== verification/IcapParser.thy ===== *)
theory IcapParser
  imports PyStr
begin

text \<open>
  \<open>lib/exaproxy/icap/\<close>: the requests and responses of ICAP (\<open>parser.py\<close>, \<open>request.py\<close>, \<open>header.py\<close>,
  \<open>response.py\<close>), as the ICAP redirector parses them.
\<close>

section \<open>Lines\<close>

text \<open>\<open>s.split(sep)\<close> for a separator that is not empty.\<close>

function split_str :: "string \<Rightarrow> string \<Rightarrow> string list" where
  "split_str sep s =
     (case py_split1 sep s of
        None \<Rightarrow> [s]
      | Some (a, b) \<Rightarrow> if sep = [] then [s] else a # split_str sep b)"
  by pat_completeness auto
termination
  by (relation "measure (\<lambda>(_, s). length s)") (auto dest!: py_split1_Some)

declare split_str.simps [simp del]

text \<open>\<open>p for ss in s.split('\r\n') for p in ss.split('\n')\<close>: there is always a first line.\<close>

definition text_lines :: "string \<Rightarrow> string list" where
  "text_lines s = concat (map (split_on LF) (split_str CRLF s))"

section \<open>Headers\<close>

text \<open>A value is a string or, for \<open>pragma\<close> only, a dictionary.\<close>

datatype icap_header_value = Single string | Pragmas "string \<rightharpoonup> string"

type_synonym icap_headers = "string \<rightharpoonup> icap_header_value"

definition icap_versions :: "string list" where
  "icap_versions = [''ICAP/1.0'']"

definition icap_methods :: "string list" where
  "icap_methods = [''REQMOD'', ''OPTIONS'']"

definition icap_known :: "string list" where
  "icap_known =
     [''cache-control'', ''connection'', ''date'', ''trailer'', ''upgrade'', ''via'',
      ''authorization'', ''allow'', ''from'', ''host'', ''referer'', ''user-agent'', ''preview'',
      ''encapsulated'', ''proxy-authenticate'', ''proxy-authorization'', ''istag'']"

definition single :: "string \<Rightarrow> icap_headers \<Rightarrow> string" where
  "single key h = (case h key of Some (Single v) \<Rightarrow> v | _ \<Rightarrow> [])"

definition pragmas :: "icap_headers \<Rightarrow> string \<rightharpoonup> string" where
  "pragmas h = (case h ''pragma'' of Some (Pragmas p) \<Rightarrow> p | _ \<Rightarrow> Map.empty)"

text \<open>The method, the URL and the version: all \<open>None\<close>, or none.\<close>

definition parseRequestLine :: "string \<Rightarrow> (string \<times> string \<times> string) option" where
  "parseRequestLine request_line =
     (case py_words request_line of
        [method, url, version] \<Rightarrow> Some (py_upper method, url, py_upper version)
      | _ \<Rightarrow> None)"

text \<open>\<open>response_line.split(' ', 2)\<close> in three parts.\<close>

definition parseResponseLine :: "string \<Rightarrow> (string \<times> nat \<times> string) option" where
  "parseResponseLine response_line =
     (case py_split1 '' '' response_line of
        None \<Rightarrow> None
      | Some (version, rest) \<Rightarrow>
          (case py_split1 '' '' rest of
             None \<Rightarrow> None
           | Some (code, status) \<Rightarrow> if py_isdigit code then Some (version, nat_of_dec code, status) else None))"

definition read_header :: "string \<Rightarrow> string \<Rightarrow> icap_headers \<Rightarrow> icap_headers" where
  "read_header key v h =
     (let h1 = (if key \<in> set icap_known \<or> prefix ''x-'' key then h(key \<mapsto> Single v) else h) in
      if key = ''pragma'' then
        (case py_split1 '':'' v of
           None \<Rightarrow> h1
         | Some (pkey, pvalue) \<Rightarrow> h1(key \<mapsto> Pragmas ((pragmas h1)(py_strip (py_lower pkey) \<mapsto> py_strip pvalue))))
      else h1)"

text \<open>\<open>readHeaders\<close>: up to the first empty line; a line without a colon gives \<open>None\<close>.\<close>

fun readHeaders :: "string list \<Rightarrow> icap_headers \<Rightarrow> icap_headers option" where
  "readHeaders [] h = Some h"
| "readHeaders (line # rest) h =
     (if line = [] then Some h
      else case py_split1 '':'' line of
        None \<Rightarrow> None
      | Some (key, v) \<Rightarrow> readHeaders rest (read_header (py_strip (py_lower key)) (py_strip v) h))"

section \<open>Encapsulation\<close>

text \<open>
  \<open>getOffsets\<close>. The comparison of the sort says that equal offsets are in order one way and the other;
  the sort of Python only asks whether one is less, so it is the stable sort.
\<close>

definition offset_of :: "string \<Rightarrow> (string \<times> nat) option" where
  "offset_of p =
     (case py_split1 ''='' p of
        None \<Rightarrow> None
      | Some (k, v) \<Rightarrow> if py_isdigit v then Some (k, nat_of_dec v) else None)"

definition getOffsets :: "icap_headers \<Rightarrow> (string \<times> nat) list" where
  "getOffsets h =
     sort_key snd (List.map_filter offset_of
       (map py_strip (filter (\<lambda>p. CHR ''='' \<in> set p) (split_on CHR '','' (single ''encapsulated'' h)))))"

definition getBodyLength :: "(string \<times> nat) list \<Rightarrow> nat \<times> bool" where
  "getBodyLength offsets =
     (if offsets = [] then (0, True) else (snd (last offsets), fst (last offsets) = ''null-body''))"

text \<open>\<open>dict(pairs)\<close>: the last value of a key counts.\<close>

definition py_dict :: "('k \<times> 'v) list \<Rightarrow> 'k \<rightharpoonup> 'v" where
  "py_dict pairs = map_of (rev pairs)"

section \<open>Requests\<close>

record icap_request =
  ir_method :: string
  ir_url :: string
  ir_version :: string
  ir_headers :: icap_headers
  ir_icap_header :: string
  ir_http_header :: string
  ir_offsets :: "string \<rightharpoonup> nat"
  ir_content_length :: nat
  ir_complete :: bool

definition contains_headers :: "icap_request \<Rightarrow> bool" where
  "contains_headers q \<longleftrightarrow> ir_offsets q ''req-hdr'' \<noteq> None \<and> ir_content_length q > 0"

definition contains_body :: "icap_request \<Rightarrow> bool" where
  "contains_body q \<longleftrightarrow> ir_offsets q ''req-body'' \<noteq> None"

text \<open>\<open>url.rsplit(',', 1)[-1] if ',' in url else 'default'\<close>.\<close>

definition site_name :: "string \<Rightarrow> string" where
  "site_name url = (if CHR '','' \<in> set url then last (split_on CHR '','' url) else ''default'')"

text \<open>\<open>parseRequest\<close>. Assigning to the headers when they are \<open>None\<close> raises \<open>TypeError\<close>.\<close>

definition parseRequest :: "string \<Rightarrow> string \<Rightarrow> icap_request option res" where
  "parseRequest icap_string http_string =
     (let ls = text_lines icap_string in
      case parseRequestLine (hd ls) of
        None \<Rightarrow> Inr None
      | Some (method, url, version) \<Rightarrow>
          if method \<in> set icap_methods \<and> version \<in> set icap_versions then
            seq (or_raise TypeError (readHeaders (tl ls) Map.empty)) (\<lambda>h0.
            let headers = h0(''x-customer-name'' \<mapsto> Single (site_name url));
                offsets = getOffsets headers; (len, complete) = getBodyLength offsets in
            Inr (if fst ` set offsets \<inter> {''res-hdr'', ''res-body''} \<noteq> {} then None
                 else Some \<lparr>ir_method = method, ir_url = url, ir_version = version, ir_headers = headers,
                   ir_icap_header = icap_string, ir_http_header = http_string, ir_offsets = py_dict offsets,
                   ir_content_length = len, ir_complete = complete\<rparr>))
          else Inr None)"

section \<open>Responses\<close>

text \<open>\<open>rh_info\<close> are the version, the code and the status, \<open>None\<close> together.\<close>

record response_header =
  rh_info :: "(string \<times> nat \<times> string) option"
  rh_headers :: icap_headers
  rh_header_string :: string
  rh_offsets :: "(string \<times> nat) list"
  rh_content_length :: nat
  rh_body_complete :: bool

definition parseResponseHeader :: "string option \<Rightarrow> response_header res" where
  "parseResponseHeader header_string =
     seq (or_raise AttributeError header_string) (\<lambda>s.
     let ls = text_lines s; info = parseResponseLine (hd ls) in
     seq (if (case info of None \<Rightarrow> False | Some (version, _, _) \<Rightarrow> version \<in> set icap_versions)
          then seq (or_raise TypeError (readHeaders (tl ls) Map.empty)) (\<lambda>h. Inr (h(''server'' \<mapsto> Single ''EXA Proxy 1.0'')))
          else Inr Map.empty) (\<lambda>headers.
     let offsets = getOffsets headers; (len, complete) = getBodyLength offsets in
     Inr \<lparr>rh_info = info, rh_headers = headers, rh_header_string = s, rh_offsets = offsets, rh_content_length = len,
       rh_body_complete = complete\<rparr>))"

definition splitResponseParts :: "(string \<times> nat) list \<Rightarrow> string \<Rightarrow> string \<rightharpoonup> string" where
  "splitResponseParts offsets body =
     (let offsets' = (if offsets = [] \<or> fst (last offsets) \<noteq> ''null-body'' then offsets @ [(''null-body'', length body)] else offsets);
          names = map fst offsets'; positions = map snd offsets';
          strings = map (\<lambda>(a, b). py_slice a b body) (zip positions (tl positions))
      in py_dict (zip names strings))"

definition splitResponse :: "string \<Rightarrow> string \<times> string" where
  "splitResponse response_string =
     (case py_split1 [LF, LF] response_string of
        Some x \<Rightarrow> x
      | None \<Rightarrow> (case py_split1 [CR, LF, CR, LF] response_string of Some x \<Rightarrow> x | None \<Rightarrow> (response_string, [])))"

text \<open>
  A response: what the child answered as one string (\<open>response_view\<close>) and where the parts begin and end,
  for \<open>memoryview\<close>s are slices; the class, which for a modified request may hold an intercepted header.
\<close>

datatype response_class = Request_modification "string option" | Response_modification

record icap_response =
  irs_info :: "(string \<times> nat \<times> string) option"
  irs_headers :: icap_headers
  irs_view :: string
  irs_icap_end :: nat
  irs_header :: "nat \<times> nat"
  irs_body :: "nat \<times> nat"
  irs_class :: response_class

definition ICAPResponse_init :: "(string \<times> nat \<times> string) option \<Rightarrow> icap_headers \<Rightarrow> string \<Rightarrow> string \<Rightarrow> string option \<Rightarrow>
    response_class \<Rightarrow> icap_response" where
  "ICAPResponse_init info headers icap_header http_header http_body cls =
     (let icap_end = length icap_header;
          (http_string, header_end, body_start, body_end) =
            (if http_header \<noteq> [] then
               let (len_string, rest, body) =
                 (case http_body of
                    None \<Rightarrow> ([], [], [])
                  | Some body \<Rightarrow>
                      if body \<noteq> [] then (show_hex (length body) @ CRLF, show_hex (length body) @ CRLF @ body @ CRLF @ ''0'' @ CRLF, body)
                      else (''0'' @ CRLF, ''0'' @ CRLF, []));
                 header_end = icap_end + length http_header;
                 body_start = header_end + length len_string
               in (http_header @ rest, header_end, body_start, body_start + length body)
             else (http_header, icap_end, icap_end, icap_end))
      in \<lparr>irs_info = info, irs_headers = headers, irs_view = icap_header @ http_string, irs_icap_end = icap_end,
          irs_header = (icap_end, header_end), irs_body = (body_start, body_end), irs_class = cls\<rparr>)"

definition view_part :: "nat \<times> nat \<Rightarrow> icap_response \<Rightarrow> string" where
  "view_part ab rs = py_slice (fst ab) (snd ab) (irs_view rs)"

definition response_string :: "icap_response \<Rightarrow> string" where
  "response_string rs = irs_view rs"

definition response_icap_header :: "icap_response \<Rightarrow> string" where
  "response_icap_header rs = view_part (0, irs_icap_end rs) rs"

definition http_response :: "icap_response \<Rightarrow> string" where
  "http_response rs = view_part (irs_header rs) rs @ view_part (irs_body rs) rs"

definition irs_code :: "icap_response \<Rightarrow> nat option" where
  "irs_code rs = map_option (fst \<circ> snd) (irs_info rs)"

definition is_permit :: "icap_response \<Rightarrow> bool" where
  "is_permit rs = (case irs_class rs of Request_modification _ \<Rightarrow> irs_code rs = Some 204 | Response_modification \<Rightarrow> False)"

definition is_modify :: "icap_response \<Rightarrow> bool" where
  "is_modify rs = (case irs_class rs of Request_modification i \<Rightarrow> irs_code rs = Some 200 \<and> i = None | Response_modification \<Rightarrow> False)"

definition is_intercept :: "icap_response \<Rightarrow> bool" where
  "is_intercept rs = (case irs_class rs of Request_modification i \<Rightarrow> irs_code rs = Some 200 \<and> i \<noteq> None | Response_modification \<Rightarrow> False)"

definition is_content :: "icap_response \<Rightarrow> bool" where
  "is_content rs = (case irs_class rs of Request_modification _ \<Rightarrow> False | Response_modification \<Rightarrow> irs_code rs = Some 200)"

definition intercept_header :: "icap_response \<Rightarrow> string option" where
  "intercept_header rs = (case irs_class rs of Request_modification i \<Rightarrow> i | Response_modification \<Rightarrow> None)"

definition create_response :: "(string \<times> nat \<times> string) option \<Rightarrow> icap_headers \<Rightarrow> string \<Rightarrow> string \<Rightarrow> string \<Rightarrow> string option \<Rightarrow>
    string option \<Rightarrow> icap_response" where
  "create_response info headers icap_header request_header response_header body intercepted =
     (if response_header \<noteq> [] then ICAPResponse_init info headers icap_header response_header body Response_modification
      else ICAPResponse_init info headers icap_header request_header body (Request_modification intercepted))"

definition continueResponse :: "response_header \<Rightarrow> string \<Rightarrow> icap_response" where
  "continueResponse rh body_string =
     (let parts = splitResponseParts (rh_offsets rh) body_string;
          response = dict_get parts ''res-hdr'' []; request = dict_get parts ''req-hdr'' [];
          (intercepted, request') =
            (if prefix ''CONNECT'' request then
               let (first, rest) = splitResponse request in
               if single ''x-intercept'' (rh_headers rh) \<noteq> ''active'' \<and> rest = [] then (None, request) else (Some first, rest)
             else (None, request));
          body = (if response \<noteq> [] then parts ''res-body'' else parts ''req-body'')
      in create_response (rh_info rh) (rh_headers rh) (rh_header_string rh) request' response body intercepted)"

section \<open>Lines of a text\<close>

text \<open>A line that ends in a line feed, or in a carriage return and a line feed.\<close>

definition one_line :: "string \<Rightarrow> bool" where
  "one_line l \<longleftrightarrow> CR \<notin> set l \<and> LF \<notin> set l"

lemma split_str_not_Nil [simp]: "split_str sep s \<noteq> []"
  by (subst split_str.simps) (auto split: option.split)

lemma split_str_CRLF: "CR \<notin> set l \<Longrightarrow> split_str CRLF (l @ CRLF @ rest) = l # split_str CRLF rest"
  by (subst split_str.simps) (simp add: py_split1_CRLF del: append.simps)

lemma py_find_CRLF_LF: "CR \<notin> set l \<Longrightarrow> py_find CRLF (l @ LF # rest) = map_option (\<lambda>k. k + Suc (length l)) (py_find CRLF rest)"
  by (induction l) (auto simp: prefix_def option.map_comp comp_def)

lemma split_str_LF:
  assumes "CR \<notin> set l"
  shows "split_str CRLF (l @ LF # rest) = (l @ LF # hd (split_str CRLF rest)) # tl (split_str CRLF rest)"
proof (cases "py_find CRLF rest")
  case None
  then show ?thesis using py_find_CRLF_LF [OF assms, of rest] by (simp add: split_str.simps py_split1_def)
next
  case (Some k)
  then have "py_split1 CRLF (l @ LF # rest) = Some (l @ LF # take k rest, drop (k + 2) rest)"
    "py_split1 CRLF rest = Some (take k rest, drop (k + 2) rest)"
    using py_find_CRLF_LF [OF assms, of rest] by (simp_all add: py_split1_def eval_nat_numeral)
  then show ?thesis by (simp add: split_str.simps [of _ "l @ LF # rest"] split_str.simps [of _ rest])
qed

lemma text_lines_CRLF: "one_line l \<Longrightarrow> text_lines (l @ CRLF @ rest) = l # text_lines rest"
  unfolding one_line_def text_lines_def by (simp add: split_str_CRLF split_on_id del: append.simps)

lemma text_lines_LF: "one_line l \<Longrightarrow> text_lines (l @ LF # rest) = l # text_lines rest"
  unfolding one_line_def text_lines_def split_str_LF by (cases "split_str CRLF rest") (simp_all add: split_str_LF)

lemma py_find_CRLF_None: "CR \<notin> set l \<Longrightarrow> py_find CRLF l = None"
  by (induction l) (auto simp: prefix_def)

lemma text_lines_one: "one_line l \<Longrightarrow> text_lines l = [l]"
  by (simp add: one_line_def text_lines_def split_str.simps [of CRLF l] py_split1_def py_find_CRLF_None split_on_id)

text \<open>The HTTP message of a response is its header and its body, without the framing of the body.\<close>

lemma response_parts:
  "http_response (ICAPResponse_init info h icap_header http_header body cls)
     = http_header @ (if http_header = [] then [] else case body of None \<Rightarrow> [] | Some b \<Rightarrow> b)"
  "response_icap_header (ICAPResponse_init info h icap_header http_header body cls) = icap_header"
  by (auto simp: http_response_def response_icap_header_def view_part_def ICAPResponse_init_def Let_def py_slice_def split: option.split)

end
