(* ===== verification/RedirectorWorker.thy ===== *)
theory RedirectorWorker
  imports RedirectorResponse TLSHello IcapParser
begin

text \<open>
  \<open>lib/exaproxy/reactor/redirector/worker.py\<close>: the class \<open>Redirector\<close>, which turns the headers of a
  request into a decision, with the help of a child process when one is enabled. What the child does
  is a parameter; the log of requests is not modelled.
\<close>

section \<open>State\<close>

record redirector_config =
  rc_version :: string
  rc_forward :: string
  rc_mask :: bool
  rc_expect :: bool
  rc_transparent :: bool
  rc_connect :: bool
  rc_security_connect :: "nat list"
  rc_enabled :: bool
  rc_proxy :: string
  rc_info :: server_info

text \<open>
  The child: whether there is a process and whether \<open>poll()\<close> says it still runs, what a write to it
  does and what each \<open>readline()\<close> returns (the empty string at the end of its output).
\<close>

record child =
  ch_process :: bool
  ch_running :: bool
  ch_write :: "string \<Rightarrow> unit res"
  ch_readline :: "nat \<Rightarrow> string res"

text \<open>What is kept for a deferred request; the last three are kept by the ICAP redirector only.\<close>

datatype kept =
    KeptMessage http_message
  | KeptHostname string
  | KeptICAP icap_request
  | KeptHello "string option"
  | KeptHeader string

type_synonym answer = "kept response"

section \<open>The child\<close>

definition checkChild :: "redirector_config \<Rightarrow> child \<Rightarrow> bool" where
  "checkChild cfg ch = (if \<not> rc_enabled cfg then True else ch_process ch \<and> ch_running ch)"

definition writeChild :: "child \<Rightarrow> string \<Rightarrow> bool res" where
  "writeChild ch request_string =
     (if \<not> ch_process ch then Inl AttributeError
      else case ch_write ch request_string of Inl ValueError \<Rightarrow> Inr False | Inl e \<Rightarrow> Inl e | Inr _ \<Rightarrow> Inr True)"

text \<open>
  \<open>readChildResponse\<close>: lines are read until one is not empty. \<open>None\<close> is never returning; otherwise the
  result is the stripped line, or Python's \<open>None\<close> after any exception.
\<close>

partial_function (option) read_lines :: "(nat \<Rightarrow> string res) \<Rightarrow> nat \<Rightarrow> string option option" where
  "read_lines readline k =
     (case readline k of
        Inl _ \<Rightarrow> Some None
      | Inr line \<Rightarrow> if line = [] then read_lines readline (Suc k) else Some (Some (py_strip line)))"

definition readChildResponse :: "child \<Rightarrow> string option option" where
  "readChildResponse ch = (if \<not> ch_process ch then Some None else read_lines (ch_readline ch) 0)"

text \<open>\<open>'%s %s - %s -\n' % (message.url_noport, peer, message.request.method)\<close>.\<close>

definition child_line :: "string \<Rightarrow> string \<Rightarrow> string \<Rightarrow> string" where
  "child_line url peer method = url @ '' '' @ peer @ '' - '' @ method @ '' -'' @ [LF]"

definition createChildRequest :: "string \<Rightarrow> http_message \<Rightarrow> string res" where
  "createChildRequest peer m =
     seq (or_raise AttributeError (msg_url_noport m)) (\<lambda>url.
     seq (or_raise AttributeError (msg_request m)) (\<lambda>r. Inr (child_line url peer (req_method r))))"

text \<open>
  \<open>classifyURL\<close>, which is given \<open>message.request\<close>. A \<open>Request\<close> has no attribute \<open>url_noport\<close> (the message
  has it), so nothing after the comparison with it in the branch of \<open>http://\<close> is reached.
\<close>

definition classifyURL :: "string \<Rightarrow> classification res" where
  "classifyURL url_response =
     (if url_response = [] then Inr Permit
      else if prefix ''http://'' url_response then Inl AttributeError
      else if prefix ''file://'' url_response then Inr (ServeFile (drop 7 url_response) [])
      else if prefix ''intercept://'' url_response then Inr (Intercept (drop 12 url_response))
      else if prefix ''redirect://'' url_response then Inr (Redirect (drop 11 url_response))
      else Inr (ServeFile ''internal_error.html'' []))"

section \<open>Requests\<close>

definition addHeaders :: "redirector_config \<Rightarrow> string \<Rightarrow> http_message \<Rightarrow> http_message res" where
  "addHeaders cfg peer m =
     seq (or_raise AttributeError (msg_headers m)) (\<lambda>h.
     seq (Headers_pop ''proxy-connection'' h) (\<lambda>(_, h1).
     if rc_transparent cfg then Inr (m\<lparr>msg_headers := Some h1\<rparr>)
     else
       seq (or_raise AttributeError (msg_request m)) (\<lambda>r.
       seq (Headers_extend ''via'' (''Via: '' @ req_version r @ '' '' @ rc_proxy cfg) h1) (\<lambda>h2.
       seq (Headers_extend ''x_forwarded_for'' (''X-Forwarded-For: '' @ peer) h2) (\<lambda>h3.
       seq (Headers_pop ''proxy-authenticate'' h3) (\<lambda>(_, h4).
       Inr (m\<lparr>msg_headers := Some h4\<rparr>)))))))"

text \<open>\<open>parseHTTP\<close> and, in the ICAP redirector, \<open>HTTPRequestFactory.parseRequest\<close>.\<close>

definition parseHTTP :: "redirector_config \<Rightarrow> string \<Rightarrow> string \<Rightarrow> http_message" where
  "parseHTTP cfg peer http_header =
     snd (HTTP_parse (rc_transparent cfg)
       (HTTP_init (rc_version cfg) (rc_forward cfg) (rc_mask cfg) (rc_expect cfg) http_header peer))"

definition clean_header :: "string \<Rightarrow> string" where
  "clean_header raw =
     replace_char LF (CHR 0x5C # ''n'' @ [LF])
       (replace_char CR (CHR 0x5C # ''r'') (replace_char CHR 0x09 (CHR 0x5C # ''t'') raw))"

definition validateHTTP :: "redirector_config \<Rightarrow> string \<Rightarrow> http_message \<Rightarrow> answer option" where
  "validateHTTP cfg client_id m =
     (if msg_reply_code m = 0 then None
      else
        let version = (case msg_request m of None \<Rightarrow> ''1.0'' | Some r \<Rightarrow> req_version r);
            code = StrCode (show_nat (msg_reply_code m))
        in if msg_reply_string m \<noteq> [] then
             Some (respond_http client_id (http_reply (rc_info cfg) code
               (msg_reply_string m @ ''<br/>'' @ LF # ''<!--'' @ LF # LF # ''<![CDATA['' @ clean_header (msg_raw m)
                  @ '']]>'' @ LF # LF # ''-->'' @ [LF]) version))
           else Some (respond_http client_id (http_reply (rc_info cfg) code [] version)))"

text \<open>
  The child is asked and the request deferred. \<open>None\<close> is the Python value when the write failed.
\<close>

definition ask_child :: "child \<Rightarrow> string \<Rightarrow> string \<Rightarrow> kept \<Rightarrow> answer option res" where
  "ask_child ch client_id request_string kept =
     seq (writeChild ch request_string) (\<lambda>status.
     Inr (if status then Some (respond_defer client_id kept) else None))"

text \<open>\<open>child_request\<close> is \<open>self.createChildRequest\<close>, which the ICAP redirector overrides.\<close>

definition doHTTPRequest :: "redirector_config \<Rightarrow> child \<Rightarrow> string \<Rightarrow> (http_message \<Rightarrow> string res) \<Rightarrow> http_message \<Rightarrow> answer option res" where
  "doHTTPRequest cfg ch client_id child_request m =
     (if rc_enabled cfg then
        seq (child_request m) (\<lambda>request_string.
        ask_child ch client_id request_string (KeptMessage m))
      else seq (permit_download client_id m) (\<lambda>(_, r). Inr (Some r)))"

definition doHTTPConnect :: "redirector_config \<Rightarrow> child \<Rightarrow> string \<Rightarrow> (http_message \<Rightarrow> string res) \<Rightarrow> http_message \<Rightarrow> answer option res" where
  "doHTTPConnect cfg ch client_id child_request m =
     seq (or_raise AttributeError (msg_port m)) (\<lambda>port.
     if \<not> rc_connect cfg \<or> port \<notin> set (rc_security_connect cfg) then
       Inr (Some (respond_http client_id
         (http_reply (rc_info cfg) (StrCode ''501'') (''CONNECT NOT ALLOWED'' @ [LF]) ''1.1'')))
     else if rc_enabled cfg then
       seq (child_request m) (\<lambda>request_string.
       ask_child ch client_id request_string (KeptMessage m))
     else seq (permit_connect client_id m) (\<lambda>(_, r). Inr (Some r)))"

text \<open>\<open>Respond.download(client_id, message.headerhost, message.port, ...)\<close>.\<close>

definition download_headerhost :: "string \<Rightarrow> http_message \<Rightarrow> answer option res" where
  "download_headerhost client_id m =
     seq (or_raise AttributeError (msg_headerhost m)) (\<lambda>host.
     seq (or_raise AttributeError (msg_port m)) (\<lambda>port.
     seq (or_raise AttributeError (msg_upgrade m)) (\<lambda>upgrade.
     seq (download_message client_id host (show_nat port) upgrade m) (\<lambda>r. Inr (Some r)))))"

definition doHTTPOptions :: "redirector_config \<Rightarrow> string \<Rightarrow> http_message \<Rightarrow> answer option res" where
  "doHTTPOptions cfg client_id m =
     seq (or_raise AttributeError (msg_headers m)) (\<lambda>h.
     case Headers_get ''max-forwards'' [] h of
       [] \<Rightarrow> download_headerhost client_id m
     | ls \<Rightarrow>
         let v = py_strip (last (split_on (CHR '':'') (last ls))) in
         if \<not> py_isdigit v then
           Inr (Some (respond_http client_id
             (http_reply (rc_info cfg) (StrCode ''400'') (''INVALID MAX-FORWARDS'' @ [LF]) ''1.1'')))
         else if nat_of_dec v = 0 then
           Inr (Some (respond_http client_id (http_reply (rc_info cfg) (StrCode ''200'') [] ''1.1'')))
         else
           download_headerhost client_id
             (m\<lparr>msg_headers := Some (Headers_set ''max-forwards''
                  (''Max-Forwards: '' @ show_nat (nat_of_dec v - 1)) h)\<rparr>))"

definition content_methods :: "string list" where
  "content_methods = [''GET'', ''PUT'', ''POST'', ''HEAD'', ''DELETE'', ''PATCH'']"

definition webdav_methods :: "string list" where
  "webdav_methods =
     [''BCOPY'', ''BDELETE'', ''BMOVE'', ''BPROPFIND'', ''BPROPPATCH'', ''COPY'', ''DELETE'', ''LOCK'', ''MKCOL'',
      ''MOVE'', ''NOTIFY'', ''POLL'', ''PROPFIND'', ''PROPPATCH'', ''SEARCH'', ''SUBSCRIBE'', ''UNLOCK'',
      ''UNSUBSCRIBE'', ''X-MS-ENUMATTS'']"

text \<open>
  The test for the configured extensions compares the request object with strings, so it is false.
\<close>

definition is_extension :: "request \<Rightarrow> bool" where
  "is_extension r = False"

definition doHTTP :: "redirector_config \<Rightarrow> child \<Rightarrow> (http_message \<Rightarrow> string res) \<Rightarrow> string \<Rightarrow> string \<Rightarrow> string \<Rightarrow> answer option res" where
  "doHTTP cfg ch child_request client_id peer http_header =
     (let m = parseHTTP cfg peer http_header;
          response = validateHTTP cfg client_id m
      in if msg_validated m then
           seq (addHeaders cfg peer m) (\<lambda>m1.
           seq (or_raise AttributeError (msg_request m1)) (\<lambda>r.
           let method = req_method r in
           if method \<in> set content_methods then doHTTPRequest cfg ch client_id child_request m1
           else if method = ''CONNECT'' then doHTTPConnect cfg ch client_id child_request m1
           else if method \<in> {''OPTIONS'', ''TRACE''} then doHTTPOptions cfg client_id m1
           else if method \<in> set webdav_methods then download_headerhost client_id m1
           else if is_extension r then download_headerhost client_id m1
           else Inr (Some (respond_http client_id (http_reply (rc_info cfg) (StrCode ''405'') [] ''1.1'')))))
         else Inr (Some (case response of None \<Rightarrow> respond_hangup client_id | Some r \<Rightarrow> r)))"

definition doTLS :: "redirector_config \<Rightarrow> child \<Rightarrow> string \<Rightarrow> string \<Rightarrow> string \<Rightarrow> answer option res" where
  "doTLS cfg ch client_id peer tls_header =
     seq (parseClientHello tls_header) (\<lambda>tls_hello. case tls_hello of
       None \<Rightarrow> Inr (Some (respond_hangup client_id))
     | Some hostname \<Rightarrow>
         if rc_enabled cfg then
           ask_child ch client_id (child_line hostname peer ''TLS'') (KeptHostname hostname)
         else Inr (Some (respond_intercept client_id hostname (show_nat 443) tls_header)))"

definition doMonitor :: "redirector_config \<Rightarrow> string \<Rightarrow> string \<Rightarrow> string \<Rightarrow> answer option res" where
  "doMonitor cfg client_id peer http_header =
     seq (or_raise AttributeError (msg_request (parseHTTP cfg peer http_header))) (\<lambda>r.
     Inr (Some (respond_monitor client_id (req_path r))))"

definition Redirector_decide :: "redirector_config \<Rightarrow> child \<Rightarrow> string \<Rightarrow> string \<Rightarrow> string \<Rightarrow> string \<Rightarrow> answer option res" where
  "Redirector_decide cfg ch client_id peer header source =
     (if checkChild cfg ch then
        if source = ''proxy'' then doHTTP cfg ch (createChildRequest peer) client_id peer header
        else if source = ''web'' then doMonitor cfg client_id peer header
        else if source = ''tls'' then doTLS cfg ch client_id peer header
        else Inr (Some (respond_hangup client_id))
      else Inr (Some (respond_error client_id)))"

text \<open>The verdict of the child on a message.\<close>

definition decision_for :: "string \<Rightarrow> http_message \<Rightarrow> classification \<Rightarrow> answer option res" where
  "decision_for client_id m c =
     seq (or_raise AttributeError (msg_request m)) (\<lambda>r.
     if req_method r \<in> set content_methods then
       seq (contentResponse client_id m c) (\<lambda>(_, decision). Inr (Some decision))
     else if req_method r = ''CONNECT'' then
       seq (connectResponse client_id m c) (\<lambda>(_, decision). Inr (Some decision))
     else Inr None)"

text \<open>\<open>progress\<close>: \<open>None\<close> is never returning.\<close>

definition Redirector_progress :: "redirector_config \<Rightarrow> child \<Rightarrow> string \<Rightarrow> kept \<Rightarrow> string \<Rightarrow> answer res option" where
  "Redirector_progress cfg ch client_id kept source =
     (case (if checkChild cfg ch then readChildResponse ch else Some None) of
        None \<Rightarrow> None
      | Some response_s \<Rightarrow>
          Some (if source = ''tls'' then Inr (respond_hangup client_id)
           else
             case response_s of
               None \<Rightarrow> Inr (respond_error client_id)
             | Some s \<Rightarrow>
                 (case kept of
                    KeptMessage m \<Rightarrow>
                      seq (classifyURL s) (\<lambda>c.
                      if source = ''proxy'' then
                        seq (decision_for client_id m c) (\<lambda>decision.
                        Inr (case decision of None \<Rightarrow> respond_error client_id | Some d \<Rightarrow> d))
                      else Inr (respond_error client_id))
                  | _ \<Rightarrow> Inl AttributeError)))"

section \<open>A validated message can be printed and forwarded\<close>

text \<open>
  The headers of a validated message: the order lists keys that are there, once; the only key that may
  be there and not listed is that of the header with which the proxy announces itself.
\<close>

definition announce_key :: string where
  "announce_key = ''x-proxy-version''"

definition printable :: "headers \<Rightarrow> bool" where
  "printable h \<longleftrightarrow> distinct (hdr_order h) \<and> set (hdr_order h) \<subseteq> dom (hdr_data h)
     \<and> dom (hdr_data h) \<subseteq> insert announce_key (set (hdr_order h))"

lemma printable_wf: "headers_wf h \<Longrightarrow> printable h"
  by (auto simp: printable_def headers_wf_def listed_def)

lemma printable_announced: "headers_wf h \<Longrightarrow> printable (Headers_replace announce_key v h)"
  by (auto simp: printable_def headers_wf_def listed_def Headers_replace_def)

lemma printable_removed:
  assumes "printable h" "k \<in> set (hdr_order h)"
  shows "printable (h\<lparr>hdr_data := (hdr_data h)(k := None), hdr_order := remove1 k (hdr_order h)\<rparr>)"
  using assms by (auto simp: printable_def)

lemma printable_pop:
  assumes "printable h" "Headers_pop k h = Inr (l, h')"
  shows "printable h'"
proof (cases "hdr_data h k")
  case None
  with assms show ?thesis by (simp add: Headers_pop_def)
next
  case (Some v)
  show ?thesis
  proof (cases "k \<in> set (hdr_order h)")
    case True
    with assms Some printable_removed [OF assms(1) True] show ?thesis by (auto simp: Headers_pop_def)
  qed (use assms Some in \<open>simp add: Headers_pop_def\<close>)
qed

lemma printable_pop_ok:
  assumes "printable h" "k \<noteq> announce_key"
  shows "\<exists>l h'. Headers_pop k h = Inr (l, h') \<and> printable h'"
proof (cases "hdr_data h k")
  case None
  with assms show ?thesis by (simp add: Headers_pop_def)
next
  case (Some v)
  then have "k \<in> set (hdr_order h)" using assms by (auto simp: printable_def)
  with Some printable_removed [OF assms(1) this] show ?thesis by (auto simp: Headers_pop_def)
qed

lemma printable_extend:
  "printable h \<Longrightarrow> \<exists>h'. Headers_extend k v h = Inr h' \<and> printable h'"
  by (cases "hdr_data h k") (auto simp: printable_def Headers_extend_def)

lemma printable_set: "printable h \<Longrightarrow> printable (Headers_set k v h)"
  by (auto simp: printable_def Headers_set_def Let_def)

lemma printable_str:
  assumes "printable h"
  shows "\<exists>s. Headers_str h = Inr s"
proof -
  have "map_res (\<lambda>k. seq (or_raise KeyError (hdr_data h k)) (\<lambda>ls. Inr (py_join (hdr_separator h) ls))) (hdr_order h)
      = Inr (map (\<lambda>k. py_join (hdr_separator h) (the (hdr_data h k))) (hdr_order h))"
    by (rule map_res_Inr) (use assms in \<open>auto simp: printable_def\<close>)
  then show ?thesis by (simp add: Headers_str_def)
qed

definition servable :: "http_message \<Rightarrow> bool" where
  "servable m \<longleftrightarrow> (\<exists>r h host port len upgrade hh. msg_request m = Some r \<and> msg_headers m = Some h \<and> printable h
     \<and> msg_host m = Some host \<and> msg_port m = Some port \<and> msg_content_length m = Some len \<and> msg_upgrade m = Some upgrade
     \<and> msg_headerhost m = Some hh \<and> msg_url_noport m \<noteq> None \<and> msg_url m \<noteq> None)"

lemma HTTP_steps_servable:
  assumes "run_steps (HTTP_steps t) (HTTP_init v f mk ex text ip) = (None, m')"
  shows "servable (m'\<lparr>msg_validated := True\<rparr>)"
proof -
  have ready: "message_ready (m'\<lparr>msg_validated := True\<rparr>)"
    by (rule HTTP_steps_ready [OF assms]) (simp add: HTTP_init_def)
  from assms obtain m1 m2 m3 m4 m5 m6 m7 m8 m9 m10 m11 m12 where steps:
    "step_separator (HTTP_init v f mk ex text ip) = Inr m1" "step_request m1 = Inr m2" "step_headers t m2 = Inr m3"
    "step_headerhost m3 = Inr m4"
    "step_host m4 = Inr m5" "step_port m5 = Inr m6" "step_check_host m6 = Inr m7" "step_announce m7 = Inr m8"
    "step_client m8 = Inr m9" "step_mask m9 = Inr m10" "step_framing m10 = Inr m11" "step_url m11 = Inr m12"
    "step_upgrade m12 = Inr m'"
    unfolding HTTP_steps_def run_steps_None by auto
  from steps(3) obtain r h where p: "msg_request m2 = Some r" "Headers_parse t (req_remaining r)
        (Headers_init (req_version r) (msg_separator m2) (msg_expect m2)) = Inr h" and h1: "m3 = m2\<lparr>msg_headers := Some h\<rparr>"
    unfolding step_headers_def seq_eq_Inr_iff by auto
  from Headers_parse_cases [OF headers_wf_init, of t "req_remaining r" "req_version r" "msg_separator m2" "msg_expect m2"] p(2)
  have "headers_wf h" by auto
  note h = h1 this
  from steps(4) h(1) obtain hh where m4: "m4 = m3\<lparr>msg_headerhost := Some hh\<rparr>"
    by (auto simp: step_headerhost_def seq_eq_Inr_iff)
  from step_host_shape [OF steps(5)] obtain host where m5: "m5 = m4\<lparr>msg_host := Some host\<rparr>" by blast
  from steps(6) obtain port where m6: "m6 = m5\<lparr>msg_port := port\<rparr>" by (auto simp: step_port_def seq_eq_Inr_iff Let_def)
  from steps(7) have m7: "m7 = m6" by (auto simp: step_check_host_def seq_eq_Inr_iff split: if_splits)
  have h7: "msg_headers m7 = Some h" "msg_headerhost m7 = Some hh" using m7 m6 m5 m4 h(1) by simp_all
  define h8 where "h8 = Headers_replace announce_key (msg_proxy_name m7) h"
  from steps(8) h7(1) have m8: "m8 = m7\<lparr>msg_headers := Some h8\<rparr>"
    by (auto simp: step_announce_def seq_eq_Inr_iff h8_def announce_key_def)
  have p8: "printable h8" unfolding h8_def by (rule printable_announced [OF h(2)])
  from step_client_shape [OF steps(9)] obtain c where m9: "m9 = m8\<lparr>msg_client := c\<rparr>" by blast
  have "\<exists>h10. msg_headers m10 = Some h10 \<and> printable h10 \<and> msg_headerhost m10 = Some hh"
    using steps(10) m9 m8 h7 p8
    by (auto simp: step_mask_def seq_eq_Inr_iff split: if_splits dest: printable_pop)
  then obtain h10 where h10: "msg_headers m10 = Some h10" "printable h10" "msg_headerhost m10 = Some hh" by blast
  from step_framing_shape [OF steps(11)] obtain l where m11: "m11 = m10\<lparr>msg_content_length := Some l\<rparr>" by blast
  from step_url_shape [OF steps(12)] obtain u w where m12: "m12 = m11\<lparr>msg_url := Some u, msg_url_noport := Some w\<rparr>" by blast
  from step_upgrade_shape [OF steps(13)] obtain g where m13: "m' = m12\<lparr>msg_upgrade := Some g\<rparr>" by blast
  from ready obtain r host port where
    "msg_request m' = Some r" "msg_host m' = Some host" "msg_port m' = Some port"
    by (auto simp: message_ready_def)
  then show ?thesis using h10 by (simp add: servable_def m11 m12 m13)
qed

lemma parseHTTP_cases:
  "msg_validated (parseHTTP cfg peer text) \<and> servable (parseHTTP cfg peer text) \<and> msg_reply_code (parseHTTP cfg peer text) = 0
   \<or> \<not> msg_validated (parseHTTP cfg peer text) \<and> msg_reply_code (parseHTTP cfg peer text) \<in> {400, 417}"
proof -
  let ?m = "HTTP_init (rc_version cfg) (rc_forward cfg) (rc_mask cfg) (rc_expect cfg) text peer"
  let ?t = "rc_transparent cfg"
  have init: "msg_reply_code ?m = 0" "\<not> msg_validated ?m" by (simp_all add: HTTP_init_def)
  obtain e m' where run: "run_steps (HTTP_steps ?t) ?m = (e, m')" by fastforce
  have "msg_reply_code (snd (run_steps (HTTP_steps ?t) ?m)) = 0 \<and> \<not> msg_validated (snd (run_steps (HTTP_steps ?t) ?m))"
    by (rule run_steps_preserves) (use init steps_keep_reply in auto)
  then have m': "msg_reply_code m' = 0" "\<not> msg_validated m'" using run by simp_all
  show ?thesis
  proof (cases e)
    case None
    then show ?thesis using HTTP_steps_servable run m' by (simp add: parseHTTP_def HTTP_parse_def)
  next
    case (Some err)
    then show ?thesis using run m'
      by (auto simp: parseHTTP_def HTTP_parse_def HTTP_refuse_def split: http_error.split py_error.split)
  qed
qed

lemma servable_str:
  assumes "servable m"
  shows "\<exists>s. HTTP_str m = Inr s"
  using assms printable_str by (fastforce simp: servable_def HTTP_str_def)

lemma download_message_ok:
  assumes "servable m"
  obtains len body where "download_message client_id host port upgrade m = Inr (respond_download client_id host port upgrade len body)"
proof -
  obtain s where "HTTP_str m = Inr s" using servable_str [OF assms] by blast
  moreover obtain l where "msg_content_length m = Some l" using assms by (auto simp: servable_def)
  ultimately show thesis using that by (simp add: download_message_def)
qed

lemma servable_fields:
  assumes "servable m"
  obtains host port upgrade hh where "msg_host m = Some host" "msg_port m = Some port" "msg_upgrade m = Some upgrade"
    "msg_headerhost m = Some hh"
  using assms by (auto simp: servable_def)

lemma permit_download_ok:
  assumes "servable m"
  obtains host port upgrade len body where "permit_download client_id m
      = Inr ((''PERMIT'', host), respond_download client_id host (show_nat port) upgrade len body :: answer)"
    "msg_host m = Some host" "msg_port m = Some port"
proof -
  obtain host port upgrade hh where a: "msg_host m = Some host" "msg_port m = Some port" "msg_upgrade m = Some upgrade"
    by (rule servable_fields [OF assms])
  obtain len body where "download_message client_id host (show_nat port) upgrade m
      = Inr (respond_download client_id host (show_nat port) upgrade len body :: answer)"
    by (rule download_message_ok [OF assms])
  with a that show thesis by (simp add: permit_download_def)
qed

lemma download_headerhost_ok:
  assumes "servable m"
  obtains host port upgrade len body where "download_headerhost client_id m
      = Inr (Some (respond_download client_id host (show_nat port) upgrade len body))"
proof -
  obtain host port upgrade hh where a: "msg_port m = Some port" "msg_upgrade m = Some upgrade" "msg_headerhost m = Some hh"
    by (rule servable_fields [OF assms])
  obtain len body where "download_message client_id hh (show_nat port) upgrade m
      = Inr (respond_download client_id hh (show_nat port) upgrade len body :: answer)"
    by (rule download_message_ok [OF assms])
  with a that show thesis by (simp add: download_headerhost_def)
qed

lemma permit_connect_ok:
  assumes "servable m"
  obtains host port where "permit_connect client_id m
      = Inr ((''PERMIT'', host), respond_connect client_id host (show_nat port) [])" "msg_port m = Some port"
proof -
  obtain host port upgrade hh where a: "msg_host m = Some host" "msg_port m = Some port"
    by (rule servable_fields [OF assms])
  with that show thesis by (simp add: permit_connect_def)
qed

lemma addHeaders_servable:
  assumes "servable m"
  shows "\<exists>m'. addHeaders cfg peer m = Inr m' \<and> servable m' \<and> msg_request m' = msg_request m \<and> msg_port m' = msg_port m"
proof -
  obtain r h where rh: "msg_request m = Some r" "msg_headers m = Some h" "printable h" using assms by (auto simp: servable_def)
  obtain l1 h1 where h1: "Headers_pop ''proxy-connection'' h = Inr (l1, h1)" "printable h1"
    using printable_pop_ok [OF rh(3), of "''proxy-connection''"] by (auto simp: announce_key_def)
  obtain h2 where h2: "Headers_extend ''via'' (''Via: '' @ req_version r @ '' '' @ rc_proxy cfg) h1 = Inr h2" "printable h2"
    using printable_extend [OF h1(2)] by blast
  obtain h3 where h3: "Headers_extend ''x_forwarded_for'' (''X-Forwarded-For: '' @ peer) h2 = Inr h3" "printable h3"
    using printable_extend [OF h2(2)] by blast
  obtain l4 h4 where h4: "Headers_pop ''proxy-authenticate'' h3 = Inr (l4, h4)" "printable h4"
    using printable_pop_ok [OF h3(2), of "''proxy-authenticate''"] by (auto simp: announce_key_def)
  have "servable (m\<lparr>msg_headers := Some k\<rparr>)" if "printable k" for k
    using that assms by (auto simp: servable_def)
  then show ?thesis using rh h1 h2 h3 h4 by (cases "rc_transparent cfg") (auto simp: addHeaders_def)
qed

section \<open>Answers\<close>

text \<open>The answers that are sent on for a client: a download, a connection or a page.\<close>

definition answers_client :: "string \<Rightarrow> answer option res \<Rightarrow> bool" where
  "answers_client client_id r \<longleftrightarrow>
     (\<exists>command d. r = Inr (Some (client_id, Some command, d)) \<and> command \<in> {''download'', ''connect'', ''http''})"

lemma answers_client_intros:
  "answers_client client_id (Inr (Some (respond_download client_id a b c d e)))"
  "answers_client client_id (Inr (Some (respond_connect client_id a b c)))"
  "answers_client client_id (Inr (Some (respond_http client_id a)))"
  by (simp_all add: answers_client_def respond_download_def respond_connect_def respond_http_def)

lemma doHTTPRequest_answers:
  "servable m \<Longrightarrow> \<not> rc_enabled cfg \<Longrightarrow> answers_client client_id (doHTTPRequest cfg ch client_id child_request m)"
  by (erule permit_download_ok [of m client_id]) (simp add: doHTTPRequest_def answers_client_intros)

lemma doHTTPConnect_answers:
  assumes "servable m" "\<not> rc_enabled cfg"
  shows "answers_client client_id (doHTTPConnect cfg ch client_id child_request m)"
proof -
  obtain host port where c: "permit_connect client_id m
      = Inr ((''PERMIT'', host), respond_connect client_id host (show_nat port) [] :: answer)" "msg_port m = Some port"
    by (rule permit_connect_ok [OF assms(1)])
  with assms(2) show ?thesis by (simp add: doHTTPConnect_def answers_client_intros)
qed

lemma download_headerhost_answers:
  "servable m \<Longrightarrow> answers_client client_id (download_headerhost client_id m)"
  by (erule download_headerhost_ok [of m client_id]) (simp add: answers_client_intros)

lemma doHTTPOptions_answers:
  assumes "servable m"
  shows "answers_client client_id (doHTTPOptions cfg client_id m)"
proof -
  obtain h where h: "msg_headers m = Some h" using assms by (auto simp: servable_def)
  have "servable (m\<lparr>msg_headers := Some (Headers_set k v h)\<rparr>)" for k v
    using assms h printable_set by (fastforce simp: servable_def)
  then show ?thesis using h download_headerhost_answers assms
    by (auto simp: doHTTPOptions_def Let_def answers_client_intros split: list.split)
qed

lemma doHTTP_answers:
  assumes "\<not> rc_enabled cfg"
  shows "answers_client client_id (doHTTP cfg ch child_request client_id peer header)"
  using parseHTTP_cases [of cfg peer header]
proof (elim disjE conjE)
  let ?m = "parseHTTP cfg peer header"
  assume v: "msg_validated ?m" "servable ?m"
  obtain m1 where m1: "addHeaders cfg peer ?m = Inr m1" "servable m1"
    using addHeaders_servable [OF v(2)] by blast
  obtain r where r: "msg_request m1 = Some r" using m1(2) by (auto simp: servable_def)
  show ?thesis
    using v(1) m1 r assms doHTTPRequest_answers doHTTPConnect_answers doHTTPOptions_answers download_headerhost_answers
    by (simp add: doHTTP_def Let_def answers_client_intros)
next
  let ?m = "parseHTTP cfg peer header"
  assume n: "\<not> msg_validated ?m" "msg_reply_code ?m \<in> {400, 417}"
  then have "msg_reply_code ?m \<noteq> 0" by auto
  then obtain data where "validateHTTP cfg client_id ?m = Some (respond_http client_id data)"
    by (cases "msg_reply_string ?m = []") (simp_all add: validateHTTP_def Let_def)
  then show ?thesis using n(1) by (simp add: doHTTP_def Let_def answers_client_intros)
qed

text \<open>C15: Without a redirector program every request of a client of the HTTP proxy (the source proxy; not those of the web, ICAP, TLS and passthrough servers) is answered: whatever its bytes, deciding on it does not raise, and gives this client a download, a connection or a page.\<close>

theorem Redirector_answers_all:
  assumes "\<not> rc_enabled cfg"
  shows "\<exists>command d. Redirector_decide cfg ch client_id peer header ''proxy'' = Inr (Some (client_id, Some command, d))
    \<and> command \<in> {''download'', ''connect'', ''http''}"
  using doHTTP_answers [OF assms, of client_id ch "createChildRequest peer" peer header] assms
  by (simp add: Redirector_decide_def checkChild_def answers_client_def)

definition example_config :: redirector_config where
  "example_config = \<lparr>rc_version = ''1.2'', rc_forward = ''x-forwarded-for'', rc_mask = False, rc_expect = False,
     rc_transparent = False, rc_connect = True, rc_security_connect = [443], rc_enabled = False,
     rc_proxy = ''ExaProxy-1.2-id-1'', rc_info = example_info\<rparr>"

definition silent_child :: child where
  "silent_child = \<lparr>ch_process = True, ch_running = True, ch_write = (\<lambda>_. Inr ()), ch_readline = (\<lambda>_. Inr [])\<rparr>"

theorem Redirector_answers_all_witness:
  "\<exists>command d. Redirector_decide example_config silent_child ''7'' ''10.0.0.1'' ''junk'' ''proxy'' = Inr (Some (''7'', Some command, d))
    \<and> command \<in> {''download'', ''connect'', ''http''}"
  by (rule Redirector_answers_all) (simp add: example_config_def)

text \<open>A request that is let through or deferred by the method \<open>CONNECT\<close>.\<close>

lemma ask_child_response:
  "ask_child ch client_id s kept = Inr (Some r) \<Longrightarrow> r = respond_defer client_id kept"
  by (auto simp: ask_child_def seq_eq_Inr_iff split: if_splits)

lemma doHTTPConnect_allowed:
  assumes "doHTTPConnect cfg ch client_id child_request m = Inr (Some (c, Some command, d))" "command \<in> {''connect'', ''defer''}"
  shows "rc_connect cfg \<and> (\<exists>port. msg_port m = Some port \<and> port \<in> set (rc_security_connect cfg)
    \<and> (d = Deferred (KeptMessage m) \<or> (\<exists>host. d = Fields [host, show_nat port, []])))"
proof -
  from assms(1) obtain port where port: "msg_port m = Some port" by (auto simp: doHTTPConnect_def seq_eq_Inr_iff)
  have ok: "rc_connect cfg \<and> port \<in> set (rc_security_connect cfg)"
  proof (rule ccontr)
    assume "\<not> ?thesis"
    then have "doHTTPConnect cfg ch client_id child_request m = Inr (Some (respond_http client_id
         (http_reply (rc_info cfg) (StrCode ''501'') (''CONNECT NOT ALLOWED'' @ [LF]) ''1.1'')))"
      using port by (auto simp: doHTTPConnect_def)
    with assms show False by (auto simp: respond_http_def)
  qed
  show ?thesis
  proof (cases "rc_enabled cfg")
    case True
    with assms(1) port ok have "(c, Some command, d) = respond_defer client_id (KeptMessage m)"
      by (auto simp: doHTTPConnect_def seq_eq_Inr_iff dest!: ask_child_response)
    with ok port show ?thesis by (simp add: respond_defer_def)
  next
    case False
    with assms(1) port ok have "\<exists>host. d = Fields [host, show_nat port, []]"
      by (auto simp: doHTTPConnect_def seq_eq_Inr_iff permit_connect_def respond_connect_def)
    with ok port show ?thesis by blast
  qed
qed

lemma other_methods_no_connect:
  "download_headerhost client_id m = Inr (Some (c, Some command, d)) \<Longrightarrow> command = ''download''"
  "doHTTPRequest cfg ch client_id child_request m = Inr (Some (c, Some command, d)) \<Longrightarrow>
     command \<in> {''download'', ''defer''} \<and> (command = ''defer'' \<longrightarrow> d = Deferred (KeptMessage m))"
proof -
  show "download_headerhost client_id m = Inr (Some (c, Some command, d)) \<Longrightarrow> command = ''download''"
    by (auto simp: download_headerhost_def download_message_def respond_download_def seq_eq_Inr_iff)
  show "doHTTPRequest cfg ch client_id child_request m = Inr (Some (c, Some command, d)) \<Longrightarrow>
     command \<in> {''download'', ''defer''} \<and> (command = ''defer'' \<longrightarrow> d = Deferred (KeptMessage m))"
    by (cases "rc_enabled cfg")
       (auto simp: doHTTPRequest_def permit_download_def download_message_def respond_download_def respond_defer_def
          seq_eq_Inr_iff dest!: ask_child_response)
qed

lemma doHTTPOptions_no_connect:
  assumes "doHTTPOptions cfg client_id m = Inr (Some (c, Some command, d))"
  shows "command \<in> {''download'', ''http''}"
proof -
  obtain h where h: "msg_headers m = Some h" using assms by (auto simp: doHTTPOptions_def seq_eq_Inr_iff)
  show ?thesis
  proof (cases "Headers_get ''max-forwards'' [] h")
    case Nil
    with assms h show ?thesis by (auto simp: doHTTPOptions_def dest: other_methods_no_connect(1))
  next
    case (Cons l ls)
    define v where "v = py_strip (last (split_on (CHR '':'') (last (l # ls))))"
    define m' where "m' = m\<lparr>msg_headers := Some (Headers_set ''max-forwards'' (''Max-Forwards: '' @ show_nat (nat_of_dec v - 1)) h)\<rparr>"
    have "doHTTPOptions cfg client_id m =
      (if \<not> py_isdigit v then
         Inr (Some (respond_http client_id (http_reply (rc_info cfg) (StrCode ''400'') (''INVALID MAX-FORWARDS'' @ [LF]) ''1.1'')))
       else if nat_of_dec v = 0 then
         Inr (Some (respond_http client_id (http_reply (rc_info cfg) (StrCode ''200'') [] ''1.1'')))
       else download_headerhost client_id m')"
      unfolding doHTTPOptions_def h using Cons by (simp add: v_def m'_def Let_def)
    with assms show ?thesis
      by (auto simp: respond_http_def split: if_split_asm dest: other_methods_no_connect(1))
  qed
qed

lemma doHTTP_connect:
  assumes "doHTTP cfg ch child_request client_id peer header = Inr (Some (c, Some command, d))" "command \<in> {''connect'', ''defer''}"
  shows "command = ''defer'' \<and> (\<exists>m. d = Deferred (KeptMessage m) \<and> (\<exists>r. msg_request m = Some r \<and> req_method r \<noteq> ''CONNECT''))
    \<or> rc_connect cfg \<and> (\<exists>m port. msg_port m = Some port \<and> port \<in> set (rc_security_connect cfg)
        \<and> (d = Deferred (KeptMessage m) \<or> (\<exists>host. d = Fields [host, show_nat port, []])))"
proof -
  let ?m = "parseHTTP cfg peer header"
  have v: "msg_validated ?m"
  proof (rule ccontr)
    assume "\<not> ?thesis"
    with assms show False
      by (auto simp: doHTTP_def validateHTTP_def Let_def respond_http_def respond_hangup_def split: option.splits if_splits)
  qed
  with assms(1) obtain m1 r where m1: "addHeaders cfg peer ?m = Inr m1" "msg_request m1 = Some r"
    by (auto simp: doHTTP_def Let_def seq_eq_Inr_iff)
  consider (content) "req_method r \<in> set content_methods" "req_method r \<noteq> ''CONNECT''"
      "doHTTPRequest cfg ch client_id child_request m1 = Inr (Some (c, Some command, d))"
    | (connect) "doHTTPConnect cfg ch client_id child_request m1 = Inr (Some (c, Some command, d))"
    | (options) "doHTTPOptions cfg client_id m1 = Inr (Some (c, Some command, d))"
    | (download) "download_headerhost client_id m1 = Inr (Some (c, Some command, d))"
    | (refused) "command = ''http''"
    using assms(1) v m1
    by (auto simp: doHTTP_def Let_def respond_http_def content_methods_def split: if_split_asm)
  then show ?thesis
  proof cases
    case content
    with other_methods_no_connect(2) [OF content(3)] assms(2) m1(2) show ?thesis by auto
  next
    case connect
    with doHTTPConnect_allowed [OF connect assms(2)] show ?thesis by blast
  next
    case options
    from doHTTPOptions_no_connect [OF options] assms(2) show ?thesis by auto
  next
    case download
    from other_methods_no_connect(1) [OF download] assms(2) show ?thesis by auto
  next
    case refused
    with assms(2) show ?thesis by auto
  qed
qed

text \<open>C16: A tunnel is opened for a client, or a \<open>CONNECT\<close> deferred to the redirector program, only when the configuration allows the method and the port of the message is one of those it lists; any other deferred message is not a \<open>CONNECT\<close>.\<close>

theorem Redirector_connect_policy:
  assumes "Redirector_decide cfg ch client_id peer header ''proxy'' = Inr (Some (c, Some command, d))"
    and "command \<in> {''connect'', ''defer''}"
  shows "command = ''defer'' \<and> (\<exists>m. d = Deferred (KeptMessage m) \<and> (\<exists>r. msg_request m = Some r \<and> req_method r \<noteq> ''CONNECT''))
    \<or> rc_connect cfg \<and> (\<exists>m port. msg_port m = Some port \<and> port \<in> set (rc_security_connect cfg)
        \<and> (d = Deferred (KeptMessage m) \<or> (\<exists>host. d = Fields [host, show_nat port, []])))"
  using assms doHTTP_connect [of cfg ch "createChildRequest peer" client_id peer header c command d]
  by (auto simp: Redirector_decide_def respond_error_def split: if_split_asm)

theorem Redirector_connect_policy_witness:
  "\<exists>d. Redirector_decide (example_config\<lparr>rc_transparent := True, rc_forward := []\<rparr>) silent_child ''7'' ''10.0.0.1''
         (request_line ''CONNECT'' (''exa.net'' @ port_text (Some 443)) (''HTTP/'' @ ''1.1'') @ LF # header_text CRLF []) ''proxy''
       = Inr (Some (''7'', Some ''connect'', d))
     \<and> (\<exists>port host. port \<in> set [443] \<and> d = Fields [host, show_nat port, []])"
proof -
  let ?cfg = "example_config\<lparr>rc_transparent := True, rc_forward := []\<rparr>"
  let ?text = "request_line ''CONNECT'' (''exa.net'' @ port_text (Some 443)) (''HTTP/'' @ ''1.1'') @ LF # header_text CRLF []"
  have "token ''CONNECT''" "token ''exa.net''" "plain_host ''exa.net''" "''1.1'' \<in> {''1.0'', ''1.1''}"
    by (simp_all add: token_def plain_host_def is_space_def)
  from Request_open_authority [OF this, of "Some 443" "header_text CRLF []"] obtain r where
    r: "Request_open ?text = Inr r" "req_host r = ''exa.net''" "req_port r = 443" "req_remaining r = header_text CRLF []"
      "req_method r = ''CONNECT''"
    by (auto simp: py_upper_def to_upper_def)
  have cr: "CR \<in> set ?text" by (simp add: request_line_def)
  from HTTP_parse_plain [OF r(1) cr r(4), of "''1.2''" False False "''10.0.0.1''"] r(2) obtain m where
    m: "HTTP_parse True (HTTP_init ''1.2'' [] False False ?text ''10.0.0.1'') = (True, m)" "msg_request m = Some r"
      "msg_port m = Some 443" "msg_host m = Some ''exa.net''"
    using r(3) by auto
  then have p: "parseHTTP ?cfg ''10.0.0.1'' ?text = m" by (simp add: parseHTTP_def example_config_def)
  have v: "msg_validated m" "servable m"
    using m(1) HTTP_steps_servable by (auto simp: HTTP_parse_def split: prod.splits option.splits)
  obtain h where h: "msg_headers m = Some h" "printable h" using v(2) by (auto simp: servable_def)
  obtain l h' where "Headers_pop ''proxy-connection'' h = Inr (l, h')"
    using printable_pop_ok [OF h(2), of "''proxy-connection''"] by (auto simp: announce_key_def)
  then have a: "addHeaders ?cfg ''10.0.0.1'' m = Inr (m\<lparr>msg_headers := Some h'\<rparr>)"
    using h(1) by (simp add: addHeaders_def example_config_def)
  have "doHTTP ?cfg silent_child (createChildRequest ''10.0.0.1'') ''7'' ''10.0.0.1'' ?text
      = doHTTPConnect ?cfg silent_child ''7'' (createChildRequest ''10.0.0.1'') (m\<lparr>msg_headers := Some h'\<rparr>)"
    using p v a m(2) r(5) by (simp add: doHTTP_def Let_def content_methods_def)
  then have d: "Redirector_decide ?cfg silent_child ''7'' ''10.0.0.1'' ?text ''proxy''
      = Inr (Some (''7'', Some ''connect'', Fields [''exa.net'', show_nat 443, []]))"
    using m(3,4) by (simp add: Redirector_decide_def checkChild_def doHTTPConnect_def permit_connect_def
        respond_connect_def example_config_def silent_child_def)
  from Redirector_connect_policy [OF d] have "\<exists>port. port \<in> set [443] \<and> (\<exists>host. Fields [''exa.net'', show_nat 443, []] = (Fields [host, show_nat port, []] :: kept decision))"
    by (fastforce simp: example_config_def)
  with d show ?thesis by blast
qed

lemma read_lines_returns:
  assumes "read_lines readline k = Some r"
  shows "\<exists>j. readline j \<noteq> Inr []"
proof (rule read_lines.raw_induct [OF _ assms])
  fix f readline k r
  assume IH: "\<And>readline k r. f readline k = Some r \<Longrightarrow> \<exists>j. readline j \<noteq> Inr []"
    and body: "(case readline k of
        Inl _ \<Rightarrow> Some None
      | Inr line \<Rightarrow> if line = [] then f readline (Suc k) else Some (Some (py_strip line))) = Some r"
  show "\<exists>j. readline j \<noteq> Inr []"
  proof (cases "readline k")
    case (Inl e)
    then have "readline k \<noteq> Inr []" by simp
    then show ?thesis by blast
  next
    case (Inr line)
    show ?thesis
    proof (cases "line = []")
      case True
      then show ?thesis using IH body Inr by simp
    next
      case False
      with Inr have "readline k \<noteq> Inr []" by simp
      then show ?thesis by blast
    qed
  qed
qed

lemma read_lines_eof: "(\<And>k. readline k = Inr []) \<Longrightarrow> read_lines readline k = None"
  using read_lines_returns [of readline k] by (cases "read_lines readline k") auto

lemma read_lines_first: "readline k = Inr line \<Longrightarrow> line \<noteq> [] \<Longrightarrow> read_lines readline k = Some (Some (py_strip line))"
  by (subst read_lines.simps) simp

text \<open>What the redirector program answers: when its output has ended, reading it never returns; an answer that begins with \<open>http://\<close>, the way to rewrite a request, raises \<open>AttributeError\<close>; and a blank line permits the request, which is then downloaded from its own host.\<close>

theorem Redirector_program_answers:
  assumes "ch_process ch" "ch_running ch"
  shows "((\<forall>k. ch_readline ch k = Inr []) \<longrightarrow> Redirector_progress cfg ch client_id kept source = None)
    \<and> (ch_readline ch 0 = Inr line \<longrightarrow> line \<noteq> [] \<longrightarrow> prefix ''http://'' (py_strip line) \<longrightarrow>
         Redirector_progress cfg ch client_id kept ''proxy'' = Some (Inl AttributeError))
    \<and> (ch_readline ch 0 = Inr line \<longrightarrow> line \<noteq> [] \<longrightarrow> py_strip line = [] \<longrightarrow> servable m \<longrightarrow>
         msg_request m = Some r \<longrightarrow> req_method r \<in> set content_methods \<longrightarrow>
         (\<exists>host port upgrade len body. msg_host m = Some host \<and> msg_port m = Some port
            \<and> Redirector_progress cfg ch client_id (KeptMessage m) ''proxy''
                = Some (Inr (respond_download client_id host (show_nat port) upgrade len body))))"
proof (intro conjI impI)
  have c: "checkChild cfg ch" using assms by (simp add: checkChild_def)
  {
    assume "\<forall>k. ch_readline ch k = Inr []"
    then show "Redirector_progress cfg ch client_id kept source = None"
      using assms c by (simp add: Redirector_progress_def readChildResponse_def read_lines_eof)
  }
  assume l: "ch_readline ch 0 = Inr line" "line \<noteq> []"
  from l have r0: "readChildResponse ch = Some (Some (py_strip line))"
    using assms by (simp add: readChildResponse_def read_lines_first)
  {
    assume "prefix ''http://'' (py_strip line)"
    then have "classifyURL (py_strip line) = Inl AttributeError" by (auto simp: classifyURL_def)
    then show "Redirector_progress cfg ch client_id kept ''proxy'' = Some (Inl AttributeError)"
      using c r0 by (cases kept) (simp_all add: Redirector_progress_def)
  }
  assume m: "py_strip line = []" "servable m" "msg_request m = Some r" "req_method r \<in> set content_methods"
  obtain host port upgrade len body where d: "permit_download client_id m
      = Inr ((''PERMIT'', host), respond_download client_id host (show_nat port) upgrade len body :: answer)"
    "msg_host m = Some host" "msg_port m = Some port"
    by (rule permit_download_ok [OF m(2)])
  have "Redirector_progress cfg ch client_id (KeptMessage m) ''proxy''
      = Some (Inr (respond_download client_id host (show_nat port) upgrade len body))"
    using c r0 m d by (simp add: Redirector_progress_def classifyURL_def decision_for_def contentResponse_def)
  with d show "\<exists>host port upgrade len body. msg_host m = Some host \<and> msg_port m = Some port
      \<and> Redirector_progress cfg ch client_id (KeptMessage m) ''proxy''
          = Some (Inr (respond_download client_id host (show_nat port) upgrade len body))" by blast
qed

theorem Redirector_program_answers_witness:
  "Redirector_progress example_config silent_child ''7'' (KeptHostname ''exa.net'') ''proxy'' = None
    \<and> Redirector_progress example_config (silent_child\<lparr>ch_readline := (\<lambda>_. Inr (''http://exa.net/x'' @ [LF]))\<rparr>) ''7''
        (KeptHostname ''exa.net'') ''proxy'' = Some (Inl AttributeError)"
proof -
  have s: "py_strip (''http://exa.net/x'' @ [LF]) = ''http://exa.net/x''"
    by (simp add: py_strip_def py_lstrip_def py_rstrip_def is_space_def)
  have "Redirector_progress example_config silent_child ''7'' (KeptHostname ''exa.net'') ''proxy'' = None"
    using Redirector_program_answers [of silent_child example_config "''7''" "KeptHostname ''exa.net''" "''proxy''"]
    by (simp add: silent_child_def)
  moreover have "Redirector_progress example_config (silent_child\<lparr>ch_readline := (\<lambda>_. Inr (''http://exa.net/x'' @ [LF]))\<rparr>) ''7''
        (KeptHostname ''exa.net'') ''proxy'' = Some (Inl AttributeError)"
    using Redirector_program_answers [of "silent_child\<lparr>ch_readline := (\<lambda>_. Inr (''http://exa.net/x'' @ [LF]))\<rparr>" example_config "''7''"
        "KeptHostname ''exa.net''" "''proxy''" "''http://exa.net/x'' @ [LF]"] s
    by (simp add: silent_child_def)
  ultimately show ?thesis ..
qed

end
