(* ===== verification/RedirectorPool.thy ===== *)
theory RedirectorPool
  imports RedirectorResponse Poller
begin

text \<open>
  \<open>lib/exaproxy/reactor/redirector/manager.py\<close>: the pool of redirector workers, the queue of the
  requests no worker is free for, and the path of a request through a worker. The workers are made by
  a parameter \<open>create\<close>; what they decide is a parameter too.
\<close>

section \<open>State\<close>

text \<open>\<open>wk_process\<close> is the output of the child, which is polled, when there is one.\<close>

record worker =
  wk_wid :: nat
  wk_process :: "sock option"
  wk_creation :: nat

record request_args =
  ra_client_id :: string
  ra_accept_addr :: string
  ra_accept_port :: int
  ra_peer :: string
  ra_header :: string
  ra_subheader :: string
  ra_source :: string

text \<open>
  The identifiers are the decimal forms of numbers and are kept as numbers. The dictionary of the
  workers is a list in the order in which it is iterated over, the set of available workers a list
  without repetition.
\<close>

record ('m, 'p) pool =
  pl_low :: int
  pl_high :: int
  pl_queue :: "(request_args \<times> bool) list"
  pl_nextid :: nat
  pl_worker :: "(nat \<times> worker) list"
  pl_processes :: "sock \<rightharpoonup> worker"
  pl_available :: "nat list"
  pl_active :: "nat \<rightharpoonup> request_args \<times> 'm decision \<times> bool"
  pl_stopping :: "nat set"
  pl_poller :: 'p

definition RedirectorManager_init :: "int \<Rightarrow> int \<Rightarrow> 'p \<Rightarrow> ('m, 'p) pool" where
  "RedirectorManager_init low high p =
     \<lparr>pl_low = low, pl_high = high, pl_queue = [], pl_nextid = 1, pl_worker = [], pl_processes = Map.empty,
      pl_available = [], pl_active = Map.empty, pl_stopping = {}, pl_poller = p\<rparr>"

definition pool_size :: "('m, 'p) pool \<Rightarrow> int" where
  "pool_size m = int (length (pl_worker m))"

definition read_workers :: event_name where
  "read_workers = ''read_workers''"

definition maxint :: nat where
  "maxint = 9223372036854775807"

section \<open>Workers\<close>

definition pool_getid :: "('m, 'p) pool \<Rightarrow> nat \<times> ('m, 'p) pool" where
  "pool_getid m = (pl_nextid m, m\<lparr>pl_nextid := (pl_nextid m + 1) mod maxint\<rparr>)"

text \<open>\<open>_spawn\<close>: a protocol the factory does not know gives no worker.\<close>

definition pool_spawn1 :: "'p poller_op \<Rightarrow> (nat \<Rightarrow> worker option) \<Rightarrow> ('m, 'p) pool \<Rightarrow> ('m, 'p) pool res" where
  "pool_spawn1 add create m =
     (let (wid, m1) = pool_getid m in
      seq (or_raise AttributeError (create wid)) (\<lambda>w.
      let m2 = m1\<lparr>pl_worker := AList.update wid w (pl_worker m1),
                  pl_available := List.insert wid (pl_available m1)\<rparr> in
      case wk_process w of
        None \<Rightarrow> Inr m2
      | Some identifier \<Rightarrow>
          seq (add read_workers identifier (pl_poller m2)) (\<lambda>p.
          Inr (m2\<lparr>pl_processes := (pl_processes m2)(identifier \<mapsto> w), pl_poller := p\<rparr>))))"

definition pool_spawn :: "'p poller_op \<Rightarrow> (nat \<Rightarrow> worker option) \<Rightarrow> int \<Rightarrow> ('m, 'p) pool \<Rightarrow> ('m, 'p) pool res" where
  "pool_spawn add create number m = for_each (\<lambda>_. pool_spawn1 add create) [0..<nat number] m"

definition pool_reap :: "'p poller_op \<Rightarrow> nat \<Rightarrow> ('m, 'p) pool \<Rightarrow> ('m, 'p) pool res" where
  "pool_reap remove wid m =
     (case map_of (pl_worker m) wid of
        None \<Rightarrow> Inr m
      | Some w \<Rightarrow>
          let m1 = m\<lparr>pl_active := (pl_active m)(wid := None),
                    pl_stopping := pl_stopping m - {wid},
                    pl_available := remove1 wid (pl_available m),
                    pl_worker := AList.delete wid (pl_worker m)\<rparr> in
          case wk_process w of
            None \<Rightarrow> Inr m1
          | Some identifier \<Rightarrow>
              seq (remove read_workers identifier (pl_poller m1)) (\<lambda>p.
              if pl_processes m1 identifier = None then Inl KeyError
              else Inr (m1\<lparr>pl_poller := p, pl_processes := (pl_processes m1)(identifier := None)\<rparr>)))"

definition pool_stopWorker :: "'p poller_op \<Rightarrow> nat \<Rightarrow> ('m, 'p) pool \<Rightarrow> ('m, 'p) pool res" where
  "pool_stopWorker remove wid m =
     (if pl_active m wid = None then pool_reap remove wid m
      else Inr (m\<lparr>pl_stopping := insert wid (pl_stopping m)\<rparr>))"

definition pool_respawn :: "'p poller_op \<Rightarrow> 'p poller_op \<Rightarrow> (nat \<Rightarrow> worker option) \<Rightarrow> ('m, 'p) pool \<Rightarrow> ('m, 'p) pool res" where
  "pool_respawn add remove create m =
     (let number = max (min (pool_size m) (pl_high m)) (pl_low m) in
      seq (for_each (pool_stopWorker remove) (map fst (pl_worker m)) m) (pool_spawn add create number))"

definition pool_kill_workers :: "'p poller_op \<Rightarrow> ('m, 'p) pool \<Rightarrow> ('m, 'p) pool res" where
  "pool_kill_workers remove m = for_each (pool_reap remove) (map fst (pl_worker m)) m"

text \<open>\<open>_oldest\<close>: \<open>now\<close> is the time of the call.\<close>

definition pool_oldest :: "nat \<Rightarrow> ('m, 'p) pool \<Rightarrow> nat option" where
  "pool_oldest now m =
     fst (fold (\<lambda>(wid, w) (oldest, past).
            if wk_creation w < past \<and> wid \<notin> pl_stopping m then (Some wid, wk_creation w) else (oldest, past))
          (pl_worker m) (None, now))"

definition pool_stop_oldest :: "'p poller_op \<Rightarrow> nat \<Rightarrow> ('m, 'p) pool \<Rightarrow> ('m, 'p) pool res" where
  "pool_stop_oldest remove now m =
     (case pool_oldest now m of None \<Rightarrow> Inr m | Some wid \<Rightarrow> pool_stopWorker remove wid m)"

definition pool_decrease1 :: "'p poller_op \<Rightarrow> nat \<Rightarrow> ('m, 'p) pool \<Rightarrow> ('m, 'p) pool res" where
  "pool_decrease1 remove now m =
     (if pl_low m < pool_size m then pool_stop_oldest remove now m else Inr m)"

definition pool_increase1 :: "'p poller_op \<Rightarrow> (nat \<Rightarrow> worker option) \<Rightarrow> ('m, 'p) pool \<Rightarrow> ('m, 'p) pool res" where
  "pool_increase1 add create m = (if pool_size m < pl_high m then pool_spawn add create 1 m else Inr m)"

definition pool_decrease :: "'p poller_op \<Rightarrow> nat list \<Rightarrow> ('m, 'p) pool \<Rightarrow> ('m, 'p) pool res" where
  "pool_decrease remove nows m = for_each (pool_decrease1 remove) nows m"

definition pool_increase :: "'p poller_op \<Rightarrow> (nat \<Rightarrow> worker option) \<Rightarrow> nat \<Rightarrow> ('m, 'p) pool \<Rightarrow> ('m, 'p) pool res" where
  "pool_increase add create number m = for_each (\<lambda>_. pool_increase1 add create) [0..<number] m"

definition pool_start :: "'p poller_op \<Rightarrow> (nat \<Rightarrow> worker option) \<Rightarrow> ('m, 'p) pool \<Rightarrow> ('m, 'p) pool res" where
  "pool_start add create m = pool_spawn add create (max 0 (pl_low m - pool_size m)) m"

definition pool_startup :: "'p poller_op \<Rightarrow> (nat \<Rightarrow> worker option) \<Rightarrow> ('m, 'p) pool \<Rightarrow> ('m, 'p) pool res" where
  "pool_startup add create m = pool_spawn add create (pl_low m) m"

text \<open>
  \<open>stop\<close> iterates over the dictionary itself while \<open>reap\<close> takes its entries out: after the first, asking
  for the next key raises \<open>RuntimeError\<close> (the size changed). The exception and the state it leaves.
\<close>

definition pool_stop :: "'p poller_op \<Rightarrow> ('m, 'p) pool \<Rightarrow> py_error option \<times> ('m, 'p) pool" where
  "pool_stop remove m =
     (case pl_worker m of
        [] \<Rightarrow> (None, m)
      | (wid, _) # _ \<Rightarrow>
          (case pool_reap remove wid m of Inl e \<Rightarrow> (Some e, m) | Inr m' \<Rightarrow> (Some RuntimeError, m')))"

text \<open>\<open>number_to_add\<close>: the division of integers rounds down.\<close>

definition number_to_add :: "int \<Rightarrow> int \<Rightarrow> int \<Rightarrow> int" where
  "number_to_add low high num_workers = min (max 1 (min low ((high - low) div 4))) (high - num_workers)"

definition pool_provision :: "'p poller_op \<Rightarrow> (nat \<Rightarrow> worker option) \<Rightarrow> ('m, 'p) pool \<Rightarrow> ('m, 'p) pool res" where
  "pool_provision add create m =
     (let size = int (length (pl_queue m)); num_workers = pool_size m in
      seq (if num_workers < pl_low m then pool_spawn add create (pl_low m - num_workers) m else Inr m) (\<lambda>m1.
      if size \<ge> num_workers then
        if num_workers \<ge> pl_high m then Inr m1
        else pool_spawn add create (number_to_add (pl_low m) (pl_high m) num_workers) m1
      else Inr m1))"

definition pool_deprovision :: "'p poller_op \<Rightarrow> nat \<Rightarrow> ('m, 'p) pool \<Rightarrow> ('m, 'p) pool res" where
  "pool_deprovision remove now m =
     (if pl_queue m = [] \<and> pool_size m > pl_low m then pool_stop_oldest remove now m else Inr m)"

section \<open>Requests\<close>

text \<open>
  \<open>set.pop()\<close> takes an element of its choice: \<open>pick\<close> is any function that chooses a position.
\<close>

definition set_pop :: "(nat list \<Rightarrow> nat) \<Rightarrow> nat list \<Rightarrow> nat \<times> nat list" where
  "set_pop pick xs = (let x = xs ! (pick xs mod length xs) in (x, remove1 x xs))"

function acquire_loop :: "(nat list \<Rightarrow> nat) \<Rightarrow> (nat \<times> worker) list \<Rightarrow> nat list \<Rightarrow> worker option \<times> nat list" where
  "acquire_loop pick workers available =
     (if available = [] then (None, [])
      else
        let (identifier, rest) = set_pop pick available in
        case map_of workers identifier of
          Some w \<Rightarrow> (Some w, rest)
        | None \<Rightarrow> acquire_loop pick workers rest)"
  by pat_completeness auto
termination
  by (relation "measure (\<lambda>(_, _, xs). length xs)") (auto simp: set_pop_def Let_def length_remove1)

declare acquire_loop.simps [simp del]

definition pool_acquire :: "(nat list \<Rightarrow> nat) \<Rightarrow> ('m, 'p) pool \<Rightarrow> worker option \<times> ('m, 'p) pool" where
  "pool_acquire pick m =
     (let (w, available) = acquire_loop pick (pl_worker m) (pl_available m) in (w, m\<lparr>pl_available := available\<rparr>))"

definition pool_release :: "'p poller_op \<Rightarrow> nat \<Rightarrow> ('m, 'p) pool \<Rightarrow> ('m, 'p) pool res" where
  "pool_release remove wid m =
     (if map_of (pl_worker m) wid = None then Inr m
      else if wid \<in> pl_stopping m then pool_reap remove wid m
      else Inr (m\<lparr>pl_available := List.insert wid (pl_available m)\<rparr>))"

definition pool_persist :: "nat \<Rightarrow> request_args \<Rightarrow> 'm decision \<Rightarrow> bool \<Rightarrow> ('m, 'p) pool \<Rightarrow> ('m, 'p) pool" where
  "pool_persist wid args data tainted m = m\<lparr>pl_active := (pl_active m)(wid \<mapsto> (args, data, tainted))\<rparr>"

definition pool_progress :: "nat \<Rightarrow> ('m, 'p) pool \<Rightarrow> ((request_args \<times> 'm decision \<times> bool) \<times> ('m, 'p) pool) res" where
  "pool_progress wid m =
     seq (or_raise KeyError (pl_active m wid)) (\<lambda>job. Inr (job, m\<lparr>pl_active := (pl_active m)(wid := None)\<rparr>))"

text \<open>
  What a worker answers: \<open>None\<close> when it raises, or returns something that is not a triple, both of which
  the bare \<open>except\<close> turns into no command.
\<close>

type_synonym 'm verdict_of = "(string option \<times> 'm decision) option"

definition command_of :: "'m verdict_of \<Rightarrow> string option \<times> 'm decision" where
  "command_of v = (case v of None \<Rightarrow> (None, NoDecision) | Some cd \<Rightarrow> cd)"

text \<open>\<open>request\<close>: a worker that fails is killed, and the request is tried once more, as tainted.\<close>

function pool_request :: "'p poller_op \<Rightarrow> (nat list \<Rightarrow> nat) \<Rightarrow> (worker \<Rightarrow> request_args \<Rightarrow> 'm verdict_of) \<Rightarrow>
    request_args \<Rightarrow> bool \<Rightarrow> ('m, 'p) pool \<Rightarrow> ('m response \<times> ('m, 'p) pool) res" where
  "pool_request remove pick decide args tainted m =
     (case pool_acquire pick m of
        (None, m1) \<Rightarrow>
          Inr ((ra_client_id args, None, NoDecision), m1\<lparr>pl_queue := pl_queue m1 @ [(args, tainted)]\<rparr>)
      | (Some w, m1) \<Rightarrow>
          let (command, decision) = command_of (decide w args) in
          seq (if command = None then
                 seq (pool_reap remove (wk_wid w) m1) (\<lambda>m2.
                 if \<not> tainted then
                   seq (pool_request remove pick decide args True m2) (\<lambda>((_, c, d), m3). Inr (c, d, m3))
                 else Inr (Some ''close'', Text [], m2))
               else Inr (command, decision, m1))
            (\<lambda>(command, decision, m3).
          if command = Some ''defer'' then
            Inr ((ra_client_id args, None, NoDecision), pool_persist (wk_wid w) args decision tainted m3)
          else
            seq (pool_release remove (wk_wid w) m3) (\<lambda>m4.
            Inr ((ra_client_id args, command, decision), m4))))"
  by pat_completeness auto
termination by (relation "measure (\<lambda>(_, _, _, _, tainted, _). if tainted then 0 else 1)") auto

declare pool_request.simps [simp del]

definition pool_doqueue :: "'p poller_op \<Rightarrow> (nat list \<Rightarrow> nat) \<Rightarrow> (worker \<Rightarrow> request_args \<Rightarrow> 'm verdict_of) \<Rightarrow>
    ('m, 'p) pool \<Rightarrow> ((string option \<times> string option \<times> 'm decision) \<times> ('m, 'p) pool) res" where
  "pool_doqueue remove pick decide m =
     (case pl_queue m of
        (args, tainted) # queue \<Rightarrow>
          if pl_available m \<noteq> [] then
            seq (pool_request remove pick decide args tainted (m\<lparr>pl_queue := queue\<rparr>)) (\<lambda>((_, c, d), m').
            Inr ((Some (ra_client_id args), c, d), m'))
          else Inr ((None, None, NoDecision), m)
      | [] \<Rightarrow> Inr ((None, None, NoDecision), m))"

definition pool_getDecision :: "'p poller_op \<Rightarrow> (nat list \<Rightarrow> nat) \<Rightarrow> (worker \<Rightarrow> request_args \<Rightarrow> 'm verdict_of) \<Rightarrow>
    (worker \<Rightarrow> request_args \<Rightarrow> 'm decision \<Rightarrow> 'm verdict_of) \<Rightarrow> sock \<Rightarrow>
    ('m, 'p) pool \<Rightarrow> ((string option \<times> string option \<times> 'm decision) \<times> ('m, 'p) pool) res" where
  "pool_getDecision remove pick decide progress pipe_in m =
     (case pl_processes m pipe_in of
        None \<Rightarrow> Inr ((None, None, NoDecision), m)
      | Some w \<Rightarrow>
          if pl_active m (wk_wid w) = None then
            seq (pool_reap remove (wk_wid w) m) (\<lambda>m1. Inr ((None, None, NoDecision), m1))
          else
            seq (pool_progress (wk_wid w) m) (\<lambda>((args, data, tainted), m1).
            let (command, decision) = command_of (progress w args data) in
            seq (pool_release remove (wk_wid w) m1) (\<lambda>m2.
            if command = None then
              seq (pool_reap remove (wk_wid w) m2) (\<lambda>m3.
              if \<not> tainted then
                seq (pool_request remove pick decide args True m3) (\<lambda>((_, c, d), m4).
                Inr ((Some (ra_client_id args), c, d), m4))
              else Inr ((Some (ra_client_id args), Some ''close'', Text []), m3))
            else Inr ((Some (ra_client_id args), command, decision), m2))))"

definition pool_showInternalError :: "string \<times> string list" where
  "pool_showInternalError = (''file'', [''200'', ''internal_error.html''])"

section \<open>The pool is consistent\<close>

text \<open>
  \<open>held\<close> are the workers taken out of the pool by an operation that is under way. Every worker is
  available, active or held, and no two of these; only an active (or held) one is to be stopped; a
  worker is known by the output of its child, which is polled.
\<close>

definition pool_ids :: "('m, 'p) pool \<Rightarrow> nat set" where
  "pool_ids m = fst ` set (pl_worker m)"

definition pool_ok :: "(event_name \<Rightarrow> 'p \<Rightarrow> bool) \<Rightarrow> (event_name \<Rightarrow> 'p \<Rightarrow> sock set) \<Rightarrow> ('p \<Rightarrow> bool) \<Rightarrow>
    nat set \<Rightarrow> ('m, 'p) pool \<Rightarrow> bool" where
  "pool_ok known watched ok held m \<longleftrightarrow>
     distinct (map fst (pl_worker m)) \<and> (\<forall>(wid, w) \<in> set (pl_worker m). wk_wid w = wid)
     \<and> distinct (pl_available m)
     \<and> pool_ids m = set (pl_available m) \<union> dom (pl_active m) \<union> held
     \<and> set (pl_available m) \<inter> dom (pl_active m) = {} \<and> held \<inter> set (pl_available m) = {} \<and> held \<inter> dom (pl_active m) = {}
     \<and> pl_stopping m \<subseteq> dom (pl_active m) \<union> held
     \<and> (\<forall>i w. pl_processes m i = Some w \<longleftrightarrow> (w \<in> snd ` set (pl_worker m) \<and> wk_process w = Some i))
     \<and> ok (pl_poller m) \<and> known read_workers (pl_poller m) \<and> dom (pl_processes m) \<subseteq> watched read_workers (pl_poller m)"

lemma pool_okD:
  assumes "pool_ok known watched ok held m"
  shows "distinct (map fst (pl_worker m))" "(wid, w) \<in> set (pl_worker m) \<Longrightarrow> wk_wid w = wid" "distinct (pl_available m)"
    "pool_ids m = set (pl_available m) \<union> dom (pl_active m) \<union> held"
    "set (pl_available m) \<inter> dom (pl_active m) = {}" "held \<inter> set (pl_available m) = {}" "held \<inter> dom (pl_active m) = {}"
    "pl_stopping m \<subseteq> dom (pl_active m) \<union> held"
    "pl_processes m i = Some w \<longleftrightarrow> (w \<in> snd ` set (pl_worker m) \<and> wk_process w = Some i)"
    "ok (pl_poller m)" "known read_workers (pl_poller m)" "dom (pl_processes m) \<subseteq> watched read_workers (pl_poller m)"
proof -
  note a = assms [unfolded pool_ok_def]
  show "distinct (map fst (pl_worker m))" "distinct (pl_available m)"
    "pool_ids m = set (pl_available m) \<union> dom (pl_active m) \<union> held"
    "set (pl_available m) \<inter> dom (pl_active m) = {}" "held \<inter> set (pl_available m) = {}" "held \<inter> dom (pl_active m) = {}"
    "pl_stopping m \<subseteq> dom (pl_active m) \<union> held" "ok (pl_poller m)" "known read_workers (pl_poller m)"
    "dom (pl_processes m) \<subseteq> watched read_workers (pl_poller m)"
    using a by (simp_all only: simp_thms)
  show "wk_wid w = wid" if "(wid, w) \<in> set (pl_worker m)" using a that by (elim conjE) auto
  show "pl_processes m i = Some w \<longleftrightarrow> (w \<in> snd ` set (pl_worker m) \<and> wk_process w = Some i)"
    using a by (elim conjE) simp
qed

lemma pool_ids_map_of: "wid \<in> pool_ids m \<longleftrightarrow> map_of (pl_worker m) wid \<noteq> None"
  by (simp add: pool_ids_def map_of_eq_None_iff)

text \<open>What an operation leaves alone.\<close>

definition same_pool :: "('m, 'p) pool \<Rightarrow> ('m, 'p) pool \<Rightarrow> bool" where
  "same_pool m m' \<longleftrightarrow> pl_low m' = pl_low m \<and> pl_high m' = pl_high m \<and> pl_nextid m' = pl_nextid m"

lemma worker_mem:
  assumes "\<forall>(wid, w) \<in> set ws. wk_wid w = wid"
  shows "x \<in> snd ` set ws \<longleftrightarrow> (wk_wid x, x) \<in> set ws"
proof
  assume "x \<in> snd ` set ws"
  then obtain i where i: "(i, x) \<in> set ws" by auto
  with assms have "wk_wid x = i" by blast
  with i show "(wk_wid x, x) \<in> set ws" by simp
qed force

lemma pool_removed:
  assumes "pool_ok known watched ok held m" "map_of (pl_worker m) wid = Some w"
    and m': "pl_active m' = (pl_active m)(wid := None)" "pl_stopping m' = pl_stopping m - {wid}"
      "pl_available m' = remove1 wid (pl_available m)" "pl_worker m' = AList.delete wid (pl_worker m)"
    and procs': "\<And>i. pl_processes m' i = (if wk_process w = Some i then None else pl_processes m i)"
    and p': "ok (pl_poller m')" "known read_workers (pl_poller m')" "dom (pl_processes m') \<subseteq> watched read_workers (pl_poller m')"
  shows "pool_ok known watched ok (held - {wid}) m' \<and> pool_ids m' = pool_ids m - {wid}"
proof -
  note D = pool_okD [OF assms(1)]
  have ids: "pool_ids m' = pool_ids m - {wid}"
    using m'(4) by (auto simp: pool_ids_def AList.delete_eq)
  have mem: "x \<in> snd ` set (pl_worker m') \<longleftrightarrow> x \<in> snd ` set (pl_worker m) \<and> wk_wid x \<noteq> wid" for x
  proof -
    have a: "\<forall>(wid, w) \<in> set (pl_worker m). wk_wid w = wid" using D(2) by blast
    then have "\<forall>(wid, w) \<in> set (pl_worker m'). wk_wid w = wid" using m'(4) by (auto simp: AList.delete_eq)
    from worker_mem [OF a] worker_mem [OF this] show ?thesis using m'(4) by (auto simp: AList.delete_eq)
  qed
  have w: "w \<in> snd ` set (pl_worker m)" "wk_wid w = wid" using assms(2) D(2) by (force dest: map_of_SomeD)+
  have uniq: "x = w" if "x \<in> snd ` set (pl_worker m)" "wk_wid x = wid" for x
    using that D(1,2) assms(2) by (fastforce dest: map_of_is_SomeI)
  have procs: "pl_processes m' i = Some x \<longleftrightarrow> x \<in> snd ` set (pl_worker m') \<and> wk_process x = Some i" for i x
  proof (cases "wk_process w = Some i")
    case True
    have "pl_processes m i = Some w" using D(9) w(1) True by blast
    then have "x = w" if "x \<in> snd ` set (pl_worker m)" "wk_process x = Some i"
      using that D(9) [of i x] by simp
    with True procs' mem w(2) show ?thesis by auto
  next
    case False
    then have "pl_processes m' i = pl_processes m i" using procs' by simp
    then show ?thesis using False D(9) [of i x] mem [of x] uniq [of x] by metis
  qed
  have "pool_ok known watched ok (held - {wid}) m'"
    unfolding pool_ok_def
  proof (intro conjI)
    show "distinct (map fst (pl_worker m'))" using D(1) m'(4) by (simp add: distinct_delete)
    show "\<forall>(wid, w) \<in> set (pl_worker m'). wk_wid w = wid" using D(2) m'(4) by (auto simp: AList.delete_eq)
    show "distinct (pl_available m')" using D(3) m'(3) by simp
    show "pool_ids m' = set (pl_available m') \<union> dom (pl_active m') \<union> (held - {wid})"
      using ids D(3,4) m'(1,3) by auto
    show "\<forall>i w. pl_processes m' i = Some w \<longleftrightarrow> (w \<in> snd ` set (pl_worker m') \<and> wk_process w = Some i)"
      using procs by blast
    show "set (pl_available m') \<inter> dom (pl_active m') = {}" "(held - {wid}) \<inter> set (pl_available m') = {}"
      "(held - {wid}) \<inter> dom (pl_active m') = {}" "pl_stopping m' \<subseteq> dom (pl_active m') \<union> (held - {wid})"
      using D(3,5-8) m'(1-3) by auto
  qed (use p' in auto)
  with ids show ?thesis by blast
qed

context poller
begin

abbreviation (input) pok where "pok \<equiv> pool_ok known watched inv"

lemma reap_ok:
  assumes "pok held m" "wid \<in> pool_ids m"
  shows "\<exists>m'. pool_reap remove wid m = Inr m' \<and> pok (held - {wid}) m' \<and> pool_ids m' = pool_ids m - {wid}
    \<and> pl_active m' = (pl_active m)(wid := None) \<and> pl_queue m' = pl_queue m \<and> same_pool m m'"
proof -
  note D = pool_okD [OF assms(1)]
  obtain w where w: "map_of (pl_worker m) wid = Some w" using assms(2) by (auto simp: pool_ids_map_of)
  show ?thesis
  proof (cases "wk_process w")
    case None
    let ?m = "m\<lparr>pl_active := (pl_active m)(wid := None), pl_stopping := pl_stopping m - {wid},
               pl_available := remove1 wid (pl_available m), pl_worker := AList.delete wid (pl_worker m)\<rparr>"
    have "pok (held - {wid}) ?m \<and> pool_ids ?m = pool_ids m - {wid}"
      by (rule pool_removed [OF assms(1) w]) (use None D(10-12) in auto)
    then show ?thesis using w None by (simp add: pool_reap_def Let_def same_pool_def)
  next
    case (Some i)
    have "w \<in> snd ` set (pl_worker m)" using w by (force dest: map_of_SomeD)
    then have pi: "pl_processes m i = Some w" using D(9) Some by blast
    then have "i \<in> watched read_workers (pl_poller m)" using D(12) by blast
    from remove_law [OF D(10,11) this usable_none [OF D(11)]] obtain p where
      p: "remove read_workers i (pl_poller m) = Inr p" "inv p" "known read_workers p"
        "watched read_workers p = watched read_workers (pl_poller m) - {i}" by blast
    let ?m = "m\<lparr>pl_active := (pl_active m)(wid := None), pl_stopping := pl_stopping m - {wid},
               pl_available := remove1 wid (pl_available m), pl_worker := AList.delete wid (pl_worker m),
               pl_poller := p, pl_processes := (pl_processes m)(i := None)\<rparr>"
    have "dom ((pl_processes m)(i := None)) \<subseteq> watched read_workers p" using D(12) p(4) by auto
    then have "pok (held - {wid}) ?m \<and> pool_ids ?m = pool_ids m - {wid}"
      by (intro pool_removed [OF assms(1) w]) (use Some p(2,3) in auto)
    then show ?thesis using w Some pi p(1) by (simp add: pool_reap_def Let_def same_pool_def)
  qed
qed

lemma pok_cong:
  assumes "pok held m" "pl_worker m' = pl_worker m" "pl_processes m' = pl_processes m" "pl_poller m' = pl_poller m"
    and "distinct (pl_available m')" "pool_ids m = set (pl_available m') \<union> dom (pl_active m') \<union> held'"
    and "set (pl_available m') \<inter> dom (pl_active m') = {}" "held' \<inter> set (pl_available m') = {}" "held' \<inter> dom (pl_active m') = {}"
    and "pl_stopping m' \<subseteq> dom (pl_active m') \<union> held'"
  shows "pok held' m'"
  using assms(1,5-10) unfolding pool_ok_def pool_ids_def assms(2-4) by (elim conjE, intro conjI) assumption+

lemma acquire_ok:
  assumes "pok {} m" "pool_acquire pick m = (r, m1)"
  shows "case r of None \<Rightarrow> m1 = m \<and> pl_available m = []
    | Some w \<Rightarrow> wk_wid w \<in> set (pl_available m) \<and> w \<in> snd ` set (pl_worker m)
        \<and> pok {wk_wid w} m1 \<and> m1 = m\<lparr>pl_available := remove1 (wk_wid w) (pl_available m)\<rparr>"
proof (cases "pl_available m = []")
  case True
  then have "acquire_loop pick (pl_worker m) (pl_available m) = (None, [])" by (simp add: acquire_loop.simps)
  then have "r = None" "m1 = m\<lparr>pl_available := []\<rparr>" using assms(2) by (simp_all add: pool_acquire_def)
  with True show ?thesis by simp
next
  case False
  note D = pool_okD [OF assms(1)]
  define x where "x = pl_available m ! (pick (pl_available m) mod length (pl_available m))"
  have x: "x \<in> set (pl_available m)" using False by (simp add: x_def)
  then have "x \<in> pool_ids m" using D(4) by blast
  then obtain w where w: "map_of (pl_worker m) x = Some w" by (auto simp: pool_ids_map_of)
  then have wx: "wk_wid w = x" "w \<in> snd ` set (pl_worker m)" using D(2) by (force dest: map_of_SomeD)+
  have "acquire_loop pick (pl_worker m) (pl_available m) = (Some w, remove1 x (pl_available m))"
    using False w by (subst acquire_loop.simps) (simp add: set_pop_def Let_def x_def)
  then have r: "r = Some w" "m1 = m\<lparr>pl_available := remove1 x (pl_available m)\<rparr>"
    using assms(2) by (simp_all add: pool_acquire_def)
  have "pok {x} m1"
    by (rule pok_cong [OF assms(1)]) (use D(3-8) x in \<open>auto simp: r(2)\<close>)
  with r x wx show ?thesis by simp
qed

text \<open>A held worker is given back, kept busy, or killed.\<close>

lemma persist_ok:
  assumes "pok {wid} m"
  shows "pok {} (pool_persist wid args d t m)"
  by (rule pok_cong [OF assms]) (use pool_okD(3-8) [OF assms] in \<open>auto simp: pool_persist_def\<close>)

lemma release_held:
  assumes "pok {wid} m"
  shows "\<exists>m'. pool_release remove wid m = Inr m' \<and> pok {} m' \<and> pool_ids m' \<subseteq> pool_ids m
    \<and> pool_ids m - pool_ids m' \<subseteq> {wid} \<and> pl_active m' = pl_active m \<and> pl_queue m' = pl_queue m"
proof -
  note D = pool_okD [OF assms]
  have wid: "wid \<in> pool_ids m" "pl_active m wid = None" using D(4,7) by auto
  show ?thesis
  proof (cases "wid \<in> pl_stopping m")
    case True
    from reap_ok [OF assms wid(1)] obtain m' where "pool_reap remove wid m = Inr m'" "pok {} m'"
      "pool_ids m' = pool_ids m - {wid}" "pl_active m' = (pl_active m)(wid := None)" "pl_queue m' = pl_queue m"
      by auto
    moreover have "(pl_active m)(wid := None) = pl_active m" using wid(2) by auto
    moreover have "pool_release remove wid m = pool_reap remove wid m"
      using True wid(1) by (auto simp: pool_release_def pool_ids_map_of)
    ultimately show ?thesis by (metis Diff_Diff_Int Diff_subset inf_le2)
  next
    case False
    let ?m = "m\<lparr>pl_available := List.insert wid (pl_available m)\<rparr>"
    have "pok {} ?m" by (rule pok_cong [OF assms]) (use D(3-8) False in auto)
    moreover have "pool_release remove wid m = Inr ?m" using False wid(1) by (auto simp: pool_release_def pool_ids_map_of)
    moreover have "pool_ids ?m = pool_ids m" by (simp add: pool_ids_def)
    ultimately show ?thesis by simp
  qed
qed

lemma release_gone: "wid \<notin> pool_ids m \<Longrightarrow> pool_release remove wid m = Inr m"
  by (simp add: pool_release_def pool_ids_map_of)

text \<open>Where a request is after it has been handed to the pool.\<close>

end

definition request_kept :: "request_args \<Rightarrow> ('m, 'p) pool \<Rightarrow> ('m, 'p) pool \<Rightarrow> bool" where
  "request_kept args m m' \<longleftrightarrow>
     (\<exists>t. pl_queue m' = pl_queue m @ [(args, t)] \<and> pl_available m' = [] \<and> pl_active m' = pl_active m)
     \<or> pl_queue m' = pl_queue m
       \<and> (\<exists>wid d t. pl_active m wid = None \<and> pl_active m' = (pl_active m)(wid \<mapsto> (args, d, t)))"

text \<open>The outcome of handing a request to the pool: \<open>n\<close> is the number of workers it may cost.\<close>

definition request_done :: "nat \<Rightarrow> request_args \<Rightarrow> ('m, 'p) pool \<Rightarrow> 'm response \<Rightarrow> ('m, 'p) pool \<Rightarrow> bool" where
  "request_done n args m r m' \<longleftrightarrow> fst r = ra_client_id args \<and> fst (snd r) \<noteq> Some ''defer''
     \<and> pool_ids m' \<subseteq> pool_ids m \<and> card (pool_ids m - pool_ids m') \<le> n
     \<and> (if fst (snd r) = None then snd (snd r) = NoDecision \<and> request_kept args m m'
        else pl_queue m' = pl_queue m \<and> pl_active m' = pl_active m)"

lemma finite_pool_ids [simp]: "finite (pool_ids m)"
  by (simp add: pool_ids_def)

context poller
begin

lemma request_done_mono: "request_done n args m r m' \<Longrightarrow> n \<le> k \<Longrightarrow> request_done k args m r m'"
  by (auto simp: request_done_def)

lemma request_queued:
  assumes "pok {} m" and a: "pool_acquire pick m = (None, m1)"
  shows "\<exists>r m'. pool_request remove pick decide args t m = Inr (r, m') \<and> pok {} m' \<and> request_done 0 args m r m'"
proof -
  from acquire_ok [OF assms(1) a] have m1: "m1 = m" "pl_available m = []" by simp_all
  let ?m = "m\<lparr>pl_queue := pl_queue m @ [(args, t)]\<rparr>"
  have "pok {} ?m" by (rule pok_cong [OF assms(1)]) (use pool_okD(3-8) [OF assms(1)] in auto)
  moreover have "request_done 0 args m (ra_client_id args, None, NoDecision) ?m"
    using m1(2) by (auto simp: request_done_def request_kept_def pool_ids_def)
  ultimately show ?thesis using a m1(1) by (subst pool_request.simps) simp
qed

lemma request_answered:
  assumes "pok {} m" and a: "pool_acquire pick m = (Some x, m1)" and c: "command_of (decide x args) = (Some command, decision)"
  shows "\<exists>r m'. pool_request remove pick decide args t m = Inr (r, m') \<and> pok {} m' \<and> request_done 1 args m r m'"
proof -
  let ?wid = "wk_wid x"
  from acquire_ok [OF assms(1) a] have x: "?wid \<in> set (pl_available m)" "pok {?wid} m1"
    "m1 = m\<lparr>pl_available := remove1 ?wid (pl_available m)\<rparr>" unfolding option.case by blast+
  have same: "pool_ids m1 = pool_ids m" "pl_queue m1 = pl_queue m" "pl_active m1 = pl_active m"
    using x(3) by (simp_all add: pool_ids_def)
  have wid: "?wid \<in> pool_ids m" "pl_active m ?wid = None" using pool_okD(4,5) [OF assms(1)] x(1) by auto
  show ?thesis
  proof (cases "command = ''defer''")
    case True
    let ?m = "pool_persist ?wid args decision t m1"
    have "pool_request remove pick decide args t m = Inr ((ra_client_id args, None, NoDecision), ?m)"
      using a c True by (subst pool_request.simps) simp
    moreover have "request_done 1 args m (ra_client_id args, None, NoDecision) ?m"
      using same wid(2) by (auto simp: request_done_def request_kept_def pool_persist_def pool_ids_def)
    ultimately show ?thesis using persist_ok [OF x(2)] by blast
  next
    case False
    from release_held [OF x(2)] same obtain m4 where m4: "pool_release remove ?wid m1 = Inr m4" "pok {} m4"
      "pool_ids m4 \<subseteq> pool_ids m" "pool_ids m - pool_ids m4 \<subseteq> {?wid}" "pl_active m4 = pl_active m" "pl_queue m4 = pl_queue m"
      by auto
    have "pool_request remove pick decide args t m = Inr ((ra_client_id args, Some command, decision), m4)"
      using a c False m4(1) by (subst pool_request.simps) simp
    moreover have "request_done 1 args m (ra_client_id args, Some command, decision) m4"
      using m4(3-6) card_mono [OF _ m4(4)] False by (simp add: request_done_def)
    ultimately show ?thesis using m4(2) by blast
  qed
qed

text \<open>A worker that fails is killed, and nothing else changes.\<close>

lemma failed_reap:
  assumes "pok {} m" and a: "pool_acquire pick m = (Some x, m1)"
  shows "\<exists>m2. pool_reap remove (wk_wid x) m1 = Inr m2 \<and> pok {} m2 \<and> wk_wid x \<in> pool_ids m
    \<and> pool_ids m2 = pool_ids m - {wk_wid x} \<and> pl_active m2 = pl_active m \<and> pl_queue m2 = pl_queue m"
proof -
  let ?wid = "wk_wid x"
  from acquire_ok [OF assms(1) a] have x: "?wid \<in> set (pl_available m)" "pok {?wid} m1"
    "m1 = m\<lparr>pl_available := remove1 ?wid (pl_available m)\<rparr>" unfolding option.case by blast+
  have same: "pool_ids m1 = pool_ids m" "pl_queue m1 = pl_queue m" "pl_active m1 = pl_active m"
    using x(3) by (simp_all add: pool_ids_def)
  have wid: "?wid \<in> pool_ids m" "pl_active m ?wid = None" using pool_okD(4,5) [OF assms(1)] x(1) by auto
  from reap_ok [OF x(2), of ?wid] wid(1) same obtain m2 where m2: "pool_reap remove ?wid m1 = Inr m2" "pok {} m2"
    "pool_ids m2 = pool_ids m - {?wid}" "pl_active m2 = (pl_active m)(?wid := None)" "pl_queue m2 = pl_queue m" by auto
  moreover have "pl_active m2 = pl_active m" using m2(4) wid(2) by auto
  ultimately show ?thesis using wid(1) by simp
qed

lemma request_tainted_ok:
  assumes "pok {} m"
  shows "\<exists>r m'. pool_request remove pick decide args True m = Inr (r, m') \<and> pok {} m' \<and> request_done 1 args m r m'"
proof -
  obtain w m1 where a: "pool_acquire pick m = (w, m1)" by fastforce
  show ?thesis
  proof (cases w)
    case None
    with request_queued [OF assms] a request_done_mono show ?thesis by (metis zero_le)
  next
    case (Some x)
    obtain command decision where c: "command_of (decide x args) = (command, decision)" by fastforce
    show ?thesis
    proof (cases command)
      case None
      from failed_reap [OF assms] a Some obtain m2 where m2: "pool_reap remove (wk_wid x) m1 = Inr m2" "pok {} m2"
        "wk_wid x \<in> pool_ids m" "pool_ids m2 = pool_ids m - {wk_wid x}" "pl_active m2 = pl_active m" "pl_queue m2 = pl_queue m"
        by blast
      have "pool_release remove (wk_wid x) m2 = Inr m2" by (rule release_gone) (simp add: m2(4))
      then have "pool_request remove pick decide args True m = Inr ((ra_client_id args, Some ''close'', Text []), m2)"
        using a Some c None m2(1) by (subst pool_request.simps) simp
      moreover have "request_done 1 args m (ra_client_id args, Some ''close'', Text []) m2"
        using m2(3-6) by (simp add: request_done_def Diff_Diff_Int)
      ultimately show ?thesis using m2(2) by blast
    next
      case (Some command)
      with request_answered [OF assms] a c \<open>w = Some x\<close> show ?thesis by blast
    qed
  qed
qed

lemma request_fresh_ok:
  assumes "pok {} m"
  shows "\<exists>r m'. pool_request remove pick decide args False m = Inr (r, m') \<and> pok {} m' \<and> request_done 2 args m r m'"
proof -
  obtain w m1 where a: "pool_acquire pick m = (w, m1)" by fastforce
  show ?thesis
  proof (cases w)
    case None
    with request_queued [OF assms] a request_done_mono show ?thesis by (metis zero_le)
  next
    case (Some x)
    obtain command decision where c: "command_of (decide x args) = (command, decision)" by fastforce
    show ?thesis
    proof (cases command)
      case None
      from failed_reap [OF assms] a Some obtain m2 where m2: "pool_reap remove (wk_wid x) m1 = Inr m2" "pok {} m2"
        "wk_wid x \<in> pool_ids m" "pool_ids m2 = pool_ids m - {wk_wid x}" "pl_active m2 = pl_active m" "pl_queue m2 = pl_queue m"
        by blast
      from request_tainted_ok [OF m2(2)] obtain c' d' m3 where
        r: "pool_request remove pick decide args True m2 = Inr ((ra_client_id args, c', d'), m3)" "pok {} m3"
          "request_done 1 args m2 (ra_client_id args, c', d') m3" by (force simp: request_done_def)
      have sub: "pool_ids m3 \<subseteq> pool_ids m2" using r(3) by (simp add: request_done_def)
      have "wk_wid x \<notin> pool_ids m3" using sub m2(4) by blast
      then have "pool_release remove (wk_wid x) m3 = Inr m3" by (rule release_gone)
      then have "pool_request remove pick decide args False m = Inr ((ra_client_id args, c', d'), m3)"
        using a Some c None m2(1) r(1,3) by (subst pool_request.simps) (simp add: request_done_def)
      moreover have "card (pool_ids m - pool_ids m3) \<le> 2"
      proof -
        have "pool_ids m - pool_ids m3 = insert (wk_wid x) (pool_ids m2 - pool_ids m3)" using m2(3,4) sub by auto
        then show ?thesis using r(3) by (simp add: request_done_def card_insert_if)
      qed
      moreover have "pool_ids m3 \<subseteq> pool_ids m" using sub m2(4) by blast
      ultimately have "request_done 2 args m (ra_client_id args, c', d') m3"
        using r(3) m2(5,6) unfolding request_done_def request_kept_def fst_conv snd_conv by (cases c') simp_all
      with \<open>pool_request remove pick decide args False m = _\<close> r(2) show ?thesis by blast
    next
      case (Some command)
      with request_answered [OF assms] a c \<open>w = Some x\<close> request_done_mono [of 1] show ?thesis by (metis one_le_numeral)
    qed
  qed
qed

lemma request_ok:
  assumes "pok {} m"
  shows "\<exists>r m'. pool_request remove pick decide args tainted m = Inr (r, m') \<and> pok {} m' \<and> request_done 2 args m r m'"
proof (cases tainted)
  case True
  from request_tainted_ok [OF assms, of pick decide args] obtain r m' where
    "pool_request remove pick decide args True m = Inr (r, m')" "pok {} m'" "request_done 1 args m r m'" by blast
  moreover from this(3) have "request_done 2 args m r m'" by (rule request_done_mono) simp
  ultimately show ?thesis unfolding eqTrueI [OF True] by blast
next
  case False
  then show ?thesis using request_fresh_ok [OF assms, of pick decide args] by simp
qed

text \<open>Taking up the answer of a busy worker: it is held until it is released.\<close>

lemma progress_ok:
  assumes "pok {} m" "pl_active m wid = Some job"
  shows "pool_progress wid m = Inr (job, m\<lparr>pl_active := (pl_active m)(wid := None)\<rparr>)"
    "pok {wid} (m\<lparr>pl_active := (pl_active m)(wid := None)\<rparr>)"
proof -
  show "pool_progress wid m = Inr (job, m\<lparr>pl_active := (pl_active m)(wid := None)\<rparr>)"
    using assms(2) by (simp add: pool_progress_def)
  have "wid \<in> dom (pl_active m)" using assms(2) by auto
  then show "pok {wid} (m\<lparr>pl_active := (pl_active m)(wid := None)\<rparr>)"
    by (intro pok_cong [OF assms(1)]) (use pool_okD(3-8) [OF assms(1)] in auto)
qed

lemma reap_any:
  assumes "pok {} m" "pl_active m wid = None"
  shows "\<exists>m'. pool_reap remove wid m = Inr m' \<and> pok {} m' \<and> pool_ids m' = pool_ids m - {wid}
    \<and> pl_active m' = pl_active m \<and> pl_queue m' = pl_queue m"
proof (cases "wid \<in> pool_ids m")
  case True
  from reap_ok [OF assms(1) True] obtain m' where "pool_reap remove wid m = Inr m'" "pok {} m'"
    "pool_ids m' = pool_ids m - {wid}" "pl_active m' = (pl_active m)(wid := None)" "pl_queue m' = pl_queue m" by auto
  moreover have "(pl_active m)(wid := None) = pl_active m" using assms(2) by auto
  ultimately show ?thesis by simp
next
  case False
  then have "map_of (pl_worker m) wid = None" by (auto simp: pool_ids_map_of)
  with False assms(1) show ?thesis by (simp add: pool_reap_def)
qed

end

text \<open>The state in which the answer of a worker is taken up.\<close>

definition job_taken :: "nat \<Rightarrow> ('m, 'p) pool \<Rightarrow> ('m, 'p) pool" where
  "job_taken wid m = m\<lparr>pl_active := (pl_active m)(wid := None)\<rparr>"

context poller
begin

lemma getDecision_ok:
  assumes "pok {} m" "pl_processes m i = Some w" "pl_active m (wk_wid w) = Some (args, data, tainted)"
  shows "\<exists>c d m'. pool_getDecision remove pick decide progress i m = Inr ((Some (ra_client_id args), c, d), m') \<and> pok {} m'
    \<and> pool_ids m' \<subseteq> pool_ids m \<and> card (pool_ids m - pool_ids m') \<le> 2
    \<and> (if c = None then \<not> tainted \<and> d = NoDecision \<and> request_kept args (job_taken (wk_wid w) m) m'
       else pl_queue m' = pl_queue m \<and> pl_active m' = (pl_active m)(wk_wid w := None))"
proof -
  let ?wid = "wk_wid w"
  note p = progress_ok [OF assms(1,3)]
  define m1 where "m1 = m\<lparr>pl_active := (pl_active m)(?wid := None)\<rparr>"
  have same: "pool_ids m1 = pool_ids m" "pl_queue m1 = pl_queue m" "pl_active m1 = (pl_active m)(?wid := None)"
    by (simp_all add: m1_def pool_ids_def)
  from release_held [OF p(2)] obtain m2 where m2: "pool_release remove ?wid m1 = Inr m2" "pok {} m2"
    "pool_ids m2 \<subseteq> pool_ids m" "pool_ids m - pool_ids m2 \<subseteq> {?wid}" "pl_active m2 = pl_active m1" "pl_queue m2 = pl_queue m"
    unfolding m1_def [symmetric] same by blast
  obtain command decision where c: "command_of (progress w args data) = (command, decision)" by fastforce
  show ?thesis
  proof (cases command)
    case (Some x)
    have "pool_getDecision remove pick decide progress i m = Inr ((Some (ra_client_id args), command, decision), m2)"
      using assms(2,3) p(1) m2(1) c Some by (simp add: pool_getDecision_def m1_def)
    moreover have "card (pool_ids m - pool_ids m2) \<le> 2" using card_mono [OF _ m2(4)] by simp
    ultimately show ?thesis using m2 same Some by auto
  next
    case None
    have "pl_active m2 ?wid = None" using m2(5) same by simp
    from reap_any [OF m2(2) this] obtain m3 where m3: "pool_reap remove ?wid m2 = Inr m3" "pok {} m3"
      "pool_ids m3 = pool_ids m2 - {?wid}" "pl_active m3 = pl_active m2" "pl_queue m3 = pl_queue m2" by blast
    have lost: "pool_ids m - pool_ids m3 \<subseteq> {?wid}" using m3(3) m2(4) by blast
    show ?thesis
    proof (cases tainted)
      case True
      have "pool_getDecision remove pick decide progress i m = Inr ((Some (ra_client_id args), Some ''close'', Text []), m3)"
        using assms(2,3) p(1) m2(1) m3(1) c None True by (simp add: pool_getDecision_def m1_def)
      moreover have "card (pool_ids m - pool_ids m3) \<le> 2" using card_mono [OF _ lost] by simp
      ultimately show ?thesis using m2 m3 same by auto
    next
      case False
      from request_tainted_ok [OF m3(2), of pick decide args] obtain c' d' m4 where
        r: "pool_request remove pick decide args True m3 = Inr ((ra_client_id args, c', d'), m4)" "pok {} m4"
          "request_done 1 args m3 (ra_client_id args, c', d') m4" by (force simp: request_done_def)
      have sub: "pool_ids m4 \<subseteq> pool_ids m3" using r(3) by (simp add: request_done_def)
      have "pool_getDecision remove pick decide progress i m = Inr ((Some (ra_client_id args), c', d'), m4)"
        using assms(2,3) p(1) m2(1) m3(1) c None False r(1) by (simp add: pool_getDecision_def m1_def)
      moreover have "card (pool_ids m - pool_ids m4) \<le> 2"
      proof -
        have "pool_ids m - pool_ids m4 \<subseteq> insert ?wid (pool_ids m3 - pool_ids m4)" using lost by blast
        then have "card (pool_ids m - pool_ids m4) \<le> card (insert ?wid (pool_ids m3 - pool_ids m4))" by (rule card_mono [rotated]) simp
        then show ?thesis using r(3) card_insert_le_m1 [of 2 "pool_ids m3 - pool_ids m4" ?wid] by (simp add: request_done_def)
      qed
      moreover have "pool_ids m4 \<subseteq> pool_ids m" using sub m3(3) m2(3) by blast
      moreover have "if c' = None then d' = NoDecision \<and> request_kept args (job_taken ?wid m) m4
          else pl_queue m4 = pl_queue m \<and> pl_active m4 = (pl_active m)(?wid := None)"
        using r(3) m2(5,6) m3(4,5) same unfolding request_done_def request_kept_def fst_conv snd_conv job_taken_def
        by (cases c') simp_all
      ultimately show ?thesis using r(2) False by (auto split: if_splits)
    qed
  qed
qed

lemma length_update: "k \<notin> fst ` set xs \<Longrightarrow> length (AList.update k v xs) = Suc (length xs)"
  by (induction xs) auto

lemma for_each_snoc: "for_each f (xs @ [x]) s = seq (for_each f xs s) (f x)"
  by (induction xs arbitrary: s) (simp_all add: seq_def split: sum.split)

end

text \<open>
  Making workers: the factory gives worker \<open>i\<close> a child whose output is \<open>g i\<close>, and the poller can still
  watch the outputs of the workers to come.
\<close>

definition child_maker :: "(nat \<Rightarrow> sock) \<Rightarrow> (nat \<Rightarrow> nat) \<Rightarrow> nat \<Rightarrow> worker option" where
  "child_maker g t i = Some \<lparr>wk_wid = i, wk_process = Some (g i), wk_creation = t i\<rparr>"

definition spawnable :: "('p \<Rightarrow> bool) \<Rightarrow> (event_name \<Rightarrow> 'p \<Rightarrow> bool) \<Rightarrow> (event_name \<Rightarrow> sock set \<Rightarrow> 'p \<Rightarrow> bool) \<Rightarrow>
    (nat \<Rightarrow> sock) \<Rightarrow> ('m, 'p) pool \<Rightarrow> bool" where
  "spawnable ok known usable g m \<longleftrightarrow> ok (pl_poller m) \<and> known read_workers (pl_poller m)
     \<and> usable read_workers (g ` {pl_nextid m..}) (pl_poller m) \<and> inj g \<and> pool_ids m \<subseteq> {..<pl_nextid m}"

context poller
begin

abbreviation (input) sok where "sok \<equiv> spawnable inv known usable"

lemma spawn1_ok:
  assumes "sok g m" "Suc (pl_nextid m) < maxint"
  shows "\<exists>m'. pool_spawn1 add (child_maker g t) m = Inr m' \<and> sok g m' \<and> pl_nextid m' = Suc (pl_nextid m)
    \<and> pool_size m' = pool_size m + 1 \<and> pl_low m' = pl_low m \<and> pl_high m' = pl_high m"
proof -
  note a = assms(1) [unfolded spawnable_def]
  have nxt: "Suc (pl_nextid m) mod maxint = Suc (pl_nextid m)" using assms(2) by simp
  have fresh: "pl_nextid m \<notin> fst ` set (pl_worker m)" using a by (auto simp: pool_ids_def)
  then have size: "length (AList.update (pl_nextid m) w (pl_worker m)) = Suc (length (pl_worker m))" for w
    by (simp add: length_update)
  have "g (pl_nextid m) \<in> g ` {pl_nextid m..}" by simp
  with add_law [of "pl_poller m" read_workers "g ` {pl_nextid m..}"] a obtain p where
    p: "add read_workers (g (pl_nextid m)) (pl_poller m) = Inr p" "inv p" "known read_workers p"
      "usable read_workers (g ` {pl_nextid m..} - {g (pl_nextid m)}) p" by blast
  have "{pl_nextid m..} - {pl_nextid m} = {Suc (pl_nextid m)..}" by auto
  with image_set_diff [of g "{pl_nextid m..}" "{pl_nextid m}"] a
  have "g ` {pl_nextid m..} - {g (pl_nextid m)} = g ` {Suc (pl_nextid m)..}" by simp
  with p(4) have us: "usable read_workers (g ` {Suc (pl_nextid m)..}) p" by simp
  show ?thesis
    using p(1-3) us a nxt size
    by (simp add: pool_spawn1_def pool_getid_def child_maker_def spawnable_def pool_ids_def pool_size_def
        dom_update lessThan_Suc subset_insertI2)
qed

lemma spawn_ok:
  assumes "sok g m" "int (pl_nextid m) + n < int maxint" "0 \<le> n"
  shows "\<exists>m'. pool_spawn add (child_maker g t) n m = Inr m' \<and> sok g m' \<and> int (pl_nextid m') = int (pl_nextid m) + n
    \<and> pool_size m' = pool_size m + n \<and> pl_low m' = pl_low m \<and> pl_high m' = pl_high m"
proof -
  have "pl_nextid m + k < maxint \<Longrightarrow> \<exists>m'. for_each (\<lambda>_. pool_spawn1 add (child_maker g t)) [0..<k] m = Inr m' \<and> sok g m'
    \<and> pl_nextid m' = pl_nextid m + k \<and> pool_size m' = pool_size m + int k \<and> pl_low m' = pl_low m \<and> pl_high m' = pl_high m" for k
  proof (induction k)
    case (Suc k)
    then obtain m' where m': "for_each (\<lambda>_. pool_spawn1 add (child_maker g t)) [0..<k] m = Inr m'" "sok g m'"
      "pl_nextid m' = pl_nextid m + k" "pool_size m' = pool_size m + int k" "pl_low m' = pl_low m" "pl_high m' = pl_high m" by auto
    from spawn1_ok [OF m'(2), of t] m' Suc.prems show ?case by (auto simp: for_each_snoc)
  qed (use assms(1) in simp)
  from this [of "nat n"] assms(2,3) show ?thesis by (simp add: pool_spawn_def) fastforce
qed

lemma provision_ok:
  assumes "sok g m" "0 \<le> pl_low m" "pl_low m \<le> pl_high m" "int (pl_nextid m) + 2 * pl_high m < int maxint"
  shows "\<exists>m'. pool_provision add (child_maker g t) m = Inr m'
    \<and> pool_size m' = pool_size m + max 0 (pl_low m - pool_size m)
        + (if pool_size m \<le> int (length (pl_queue m)) \<and> pool_size m < pl_high m
           then number_to_add (pl_low m) (pl_high m) (pool_size m) else 0)"
proof -
  have pos: "0 \<le> pool_size m" by (simp add: pool_size_def)
  let ?n = "max 0 (pl_low m - pool_size m)"
  from spawn_ok [OF assms(1), of ?n t] assms(2-4) pos obtain m1 where m1:
    "pool_spawn add (child_maker g t) ?n m = Inr m1" "sok g m1" "int (pl_nextid m1) = int (pl_nextid m) + ?n"
    "pool_size m1 = pool_size m + ?n" by fastforce
  have first: "(if pool_size m < pl_low m then pool_spawn add (child_maker g t) (pl_low m - pool_size m) m else Inr m) = Inr m1"
    using m1(1) by (cases "pool_size m < pl_low m") (simp_all add: pool_spawn_def)
  show ?thesis
  proof (cases "pool_size m \<le> int (length (pl_queue m)) \<and> pool_size m < pl_high m")
    case True
    let ?k = "number_to_add (pl_low m) (pl_high m) (pool_size m)"
    have k: "0 \<le> ?k" "?k \<le> pl_high m - pool_size m" using True by (auto simp: number_to_add_def)
    from spawn_ok [OF m1(2), of ?k t] m1(3) k assms(2-4) pos obtain m2 where m2:
      "pool_spawn add (child_maker g t) ?k m1 = Inr m2" "pool_size m2 = pool_size m1 + ?k" by fastforce
    with True first m1(4) show ?thesis by (simp add: pool_provision_def Let_def)
  next
    case False
    with first m1(4) show ?thesis by (auto simp: pool_provision_def Let_def)
  qed
qed

text \<open>\<open>stop\<close> kills one worker and raises.\<close>

lemma stop_ok:
  assumes "pok {} m" "pl_worker m = (wid, w) # ws"
  shows "\<exists>m'. pool_stop remove m = (Some RuntimeError, m') \<and> pok {} m' \<and> pool_ids m' = pool_ids m - {wid}"
proof -
  have "wid \<in> pool_ids m" using assms(2) by (simp add: pool_ids_def)
  from reap_ok [OF assms(1) this] show ?thesis using assms(2) by (auto simp: pool_stop_def)
qed

end

section \<open>Properties\<close>

abbreviation ep_read_add :: "(sock \<Rightarrow> fd option) \<Rightarrow> epoller poller_op" where
  "ep_read_add fileno \<equiv> \<lambda>name s p. state_of (EPoller_addReadSocket fileno name s p)"

abbreviation ep_pool_ok :: "(sock \<Rightarrow> fd option) \<Rightarrow> ('m, epoller) pool \<Rightarrow> bool" where
  "ep_pool_ok fileno \<equiv> pool_ok ep_known ep_watched (epoller_ok fileno) {}"

text \<open>C17: Handing a request to the pool keeps the pool consistent and never raises, whatever the workers do: a request that gets no command at once is in the queue or kept with a busy worker, one that gets a command is in neither, and at most two workers are lost to it.\<close>

theorem pool_request_ok:
  assumes "ep_pool_ok fileno m"
  shows "\<exists>c d m'. pool_request (EPoller_removeReadSocket fileno) pick decide args tainted m
      = Inr ((ra_client_id args, c, d), m') \<and> ep_pool_ok fileno m' \<and> c \<noteq> Some ''defer''
    \<and> pool_ids m' \<subseteq> pool_ids m \<and> card (pool_ids m - pool_ids m') \<le> 2
    \<and> (if c = None then
         (\<exists>t. pl_queue m' = pl_queue m @ [(args, t)] \<and> pl_available m' = [] \<and> pl_active m' = pl_active m)
         \<or> pl_queue m' = pl_queue m
           \<and> (\<exists>wid d t. pl_active m wid = None \<and> pl_active m' = (pl_active m)(wid \<mapsto> (args, d, t)))
       else pl_queue m' = pl_queue m \<and> pl_active m' = pl_active m)"
proof -
  from ep_in.request_ok [OF assms, of pick decide args tainted] obtain c d m' where
    r: "pool_request (EPoller_removeReadSocket fileno) pick decide args tainted m = Inr ((ra_client_id args, c, d), m')"
      "ep_pool_ok fileno m'" "request_done 2 args m (ra_client_id args, c, d) m'" by (force simp: request_done_def)
  then show ?thesis unfolding request_done_def request_kept_def fst_conv snd_conv by (cases c) simp_all
qed

text \<open>A pool of two workers, one of them busy, over a poller that watches the output of both.\<close>

definition example_args :: request_args where
  "example_args = \<lparr>ra_client_id = ''1'', ra_accept_addr = ''10.0.0.1'', ra_accept_port = 3128, ra_peer = ''10.0.0.2'',
     ra_header = ''GET http://a/ HTTP/1.1'', ra_subheader = [], ra_source = ''proxy''\<rparr>"

definition example_pool :: "(string, epoller) pool" where
  "example_pool = \<lparr>pl_low = 2, pl_high = 4, pl_queue = [], pl_nextid = 3,
     pl_worker = [(1, \<lparr>wk_wid = 1, wk_process = Some 21, wk_creation = 5\<rparr>),
                  (2, \<lparr>wk_wid = 2, wk_process = Some 22, wk_creation = 6\<rparr>)],
     pl_processes = [21 \<mapsto> \<lparr>wk_wid = 1, wk_process = Some 21, wk_creation = 5\<rparr>,
                     22 \<mapsto> \<lparr>wk_wid = 2, wk_process = Some 22, wk_creation = 6\<rparr>],
     pl_available = [1], pl_active = [2 \<mapsto> (example_args, NoDecision, False)], pl_stopping = {},
     pl_poller = \<lparr>ep_sockets = [''read_workers'' \<mapsto> 5],
       ep_pollers = [5 \<mapsto> \<lparr>we_name = ''read_workers'', we_sockets = {21, 22}, we_fdtosock = [21 \<mapsto> 21, 22 \<mapsto> 22],
                            we_corked = {}, we_kernel = [21 \<mapsto> EventIn, 22 \<mapsto> EventIn]\<rparr>],
       ep_master = {5}, ep_errors = Map.empty\<rparr>\<rparr>"

lemma example_pool_ok: "ep_pool_ok Some example_pool"
  unfolding pool_ok_def
  by (intro conjI)
     (auto simp: example_pool_def pool_ids_def read_workers_def epoller_ok_def entry_ok_def ep_known_def ep_watched_def
        ep_entry_def split: if_splits)

theorem pool_request_ok_witness:
  "\<exists>c d m'. pool_request (EPoller_removeReadSocket Some) (\<lambda>_. 0) (\<lambda>w a. Some (Some ''defer'', NoDecision)) example_args False example_pool
     = Inr ((''1'', c, d), m') \<and> ep_pool_ok Some m'"
  using pool_request_ok [OF example_pool_ok, of "\<lambda>_. 0" "\<lambda>w a. Some (Some ''defer'', NoDecision)" example_args False]
  by (auto simp: example_args_def)

text \<open>C18: When a busy worker answers, its request is taken up and answered, queued again or kept by another worker, never lost and never with a second retry; the pool stays consistent. Output of a worker that is not busy gets the worker killed.\<close>

theorem pool_getDecision_ok:
  assumes "ep_pool_ok fileno m" "pl_processes m i = Some w"
  shows "case pl_active m (wk_wid w) of
      None \<Rightarrow> \<exists>m'. pool_getDecision (EPoller_removeReadSocket fileno) pick decide progress i m = Inr ((None, None, NoDecision), m')
        \<and> ep_pool_ok fileno m' \<and> pool_ids m' = pool_ids m - {wk_wid w} \<and> pl_queue m' = pl_queue m \<and> pl_active m' = pl_active m
    | Some (args, data, tainted) \<Rightarrow>
        \<exists>c d m'. pool_getDecision (EPoller_removeReadSocket fileno) pick decide progress i m
            = Inr ((Some (ra_client_id args), c, d), m')
          \<and> ep_pool_ok fileno m' \<and> pool_ids m' \<subseteq> pool_ids m \<and> card (pool_ids m - pool_ids m') \<le> 2
          \<and> (if c = None then \<not> tainted \<and> d = NoDecision \<and> request_kept args (job_taken (wk_wid w) m) m'
             else pl_queue m' = pl_queue m \<and> pl_active m' = (pl_active m)(wk_wid w := None))"
proof (cases "pl_active m (wk_wid w)")
  case None
  with ep_in.reap_any [OF assms(1) None] assms(2) show ?thesis by (auto simp: pool_getDecision_def)
next
  case (Some job)
  obtain args data tainted where job: "job = (args, data, tainted)" by (cases job)
  show ?thesis
    using ep_in.getDecision_ok [OF assms, of args data tainted pick decide progress] Some job by simp
qed

theorem pool_getDecision_ok_witness:
  "\<exists>c d m'. pool_getDecision (EPoller_removeReadSocket Some) (\<lambda>_. 0) (\<lambda>w a. None) (\<lambda>w a q. None) 22 example_pool
     = Inr ((Some ''1'', c, d), m') \<and> ep_pool_ok Some m' \<and> card (pool_ids example_pool - pool_ids m') \<le> 2"
  using pool_getDecision_ok [OF example_pool_ok, of 22 "\<lparr>wk_wid = 2, wk_process = Some 22, wk_creation = 6\<rparr>"
      "\<lambda>_. 0" "\<lambda>w a. None" "\<lambda>w a q. None"]
  by (auto simp: example_pool_def example_args_def)


definition empty_pool :: "(string, epoller) pool" where
  "empty_pool = RedirectorManager_init 5 5 \<lparr>ep_sockets = [''read_workers'' \<mapsto> 5],
       ep_pollers = [5 \<mapsto> \<lparr>we_name = ''read_workers'', we_sockets = {}, we_fdtosock = Map.empty, we_corked = {}, we_kernel = Map.empty\<rparr>],
       ep_master = {5}, ep_errors = Map.empty\<rparr>"

lemma empty_pool_spawnable: "spawnable (epoller_ok Some) ep_known (ep_usable Some) (\<lambda>i. i) empty_pool"
  by (auto simp: spawnable_def empty_pool_def RedirectorManager_init_def pool_ids_def read_workers_def epoller_ok_def entry_ok_def
      ep_known_def ep_usable_def ep_entry_def split: if_splits)


text \<open>Asked to stop, the pool kills the first of its workers and raises: the others, and their children, are left running.\<close>

theorem pool_stop_raises:
  assumes "ep_pool_ok fileno m" "pl_worker m = (wid, w) # ws"
  shows "\<exists>m'. pool_stop (EPoller_removeReadSocket fileno) m = (Some RuntimeError, m') \<and> ep_pool_ok fileno m'
    \<and> pool_ids m' = fst ` set ws"
proof -
  from ep_in.stop_ok [OF assms] obtain m' where "pool_stop (EPoller_removeReadSocket fileno) m = (Some RuntimeError, m')"
    "ep_pool_ok fileno m'" "pool_ids m' = pool_ids m - {wid}" by blast
  moreover have "pool_ids m - {wid} = fst ` set ws" using pool_okD(1) [OF assms(1)] assms(2) by (auto simp: pool_ids_def)
  ultimately show ?thesis by simp
qed

theorem pool_stop_raises_witness:
  "\<exists>m'. pool_stop (EPoller_removeReadSocket Some) example_pool = (Some RuntimeError, m') \<and> pool_ids m' = {2}"
  using pool_stop_raises [OF example_pool_ok] by (force simp: example_pool_def)

end
