(* ===== verification/StreamClient.thy ===== *)
theory StreamClient
  imports HTTPClient TLSHello
begin

text \<open>
  \<open>lib/exaproxy/reactor/client/tls.py\<close> and \<open>passthrough.py\<close>: the connections of a TLS client, of which
  the ClientHello is read and the rest relayed, and of a client of which everything is relayed. The
  loops of their writing coroutines are, line for line, the one of \<open>client/http.py\<close>
  (\<open>write_iteration\<close>); there is no local file to send.
\<close>

section \<open>The reading coroutine of a TLS client\<close>

text \<open>
  \<open>st_size\<close> is the local \<open>size\<close>: \<open>Some 0\<close> when the length of the ClientHello is not known, \<open>None\<close> for
  the \<open>None\<close> that \<open>checkRequest\<close> returns when it has too little data to know.
\<close>

record stream_reader =
  st_buffer :: string
  st_size :: "int option"
  st_mode :: string
  st_point :: read_point
  st_peer :: string
  st_max_buffer :: int

text \<open>What a resumption yields (\<open>None\<close> for \<open>[None]\<close>), raises, or waits for.\<close>

datatype stream_result =
    Stream_yields "string option" "string option" stream_reader
  | Stream_raises py_error stream_reader
  | Stream_starved

definition stream_end :: "stream_reader \<Rightarrow> stream_result" where
  "stream_end r = Stream_yields None None (r\<lparr>st_point := AtEnd\<rparr>)"

definition TLSClient_read_init :: "bool \<Rightarrow> string \<Rightarrow> int \<Rightarrow> stream_reader" where
  "TLSClient_read_init proxied peer max_buffer =
     \<lparr>st_buffer = [], st_size = Some 0, st_mode = (if proxied then ''proxy'' else ''tls''), st_point = AtData,
      st_peer = peer, st_max_buffer = max_buffer\<rparr>"

text \<open>
  The header (empty when it is not complete), what follows it and the size; \<open>None\<close> for the triple of
  \<open>None\<close>. In Python 2 \<open>None\<close> is less than every number.
\<close>

definition TLSClient_checkRequest :: "string \<Rightarrow> int \<Rightarrow> int option \<Rightarrow> (string \<times> string \<times> int option) option res" where
  "TLSClient_checkRequest r_buffer max_length sz =
     (if sz = Some 0 \<and> length r_buffer < TLS_HEADER_LEN then Inr (Some ([], r_buffer, None))
      else
        seq (if sz = Some 0 then seq (get_tls_hello_size r_buffer) (\<lambda>n. Inr (Some (int n))) else Inr sz) (\<lambda>sz'.
        case sz' of
          None \<Rightarrow> Inr None
        | Some n \<Rightarrow>
            if n \<le> 0 \<or> n > max_length then Inr None
            else if int (length r_buffer) \<ge> n then Inr (Some (take (nat n) r_buffer, drop (nat n) r_buffer, Some n))
            else Inr (Some ([], r_buffer, Some n))))"

text \<open>\<open>processProxyHeader\<close>: an end of line of either kind is one with a line feed.\<close>

definition TLSClient_processProxyHeader :: "string \<Rightarrow> string \<Rightarrow> string option \<times> string option \<times> string" where
  "TLSClient_processProxyHeader r_buffer mode =
     (let r_buffer' = lstrip_in CRLF r_buffer in
      if py_in CRLF r_buffer' \<or> py_in [LF] r_buffer'
      then let (client_ip, rest) = ProxyProtocol_parse r_buffer' in (client_ip, rest, ''tls'')
      else (Some [], Some r_buffer', mode))"

text \<open>\<open>process\<close>: the data, the buffer and the mode; \<open>None\<close> closes the connection.\<close>

definition TLSClient_process :: "string \<Rightarrow> string \<Rightarrow> (string \<times> string \<times> string) option" where
  "TLSClient_process r_buffer mode = (if mode = ''passthrough'' then Some (r_buffer, [], mode) else None)"

text \<open>The part of an iteration after the data has been received and the PROXY line dealt with.\<close>

definition TLSClient_dispatch :: "stream_reader \<Rightarrow> stream_result" where
  "TLSClient_dispatch r =
     (if st_mode r = ''tls'' then
        (case TLSClient_checkRequest (st_buffer r) (st_max_buffer r) (st_size r) of
           Inl e \<Rightarrow> Stream_raises e (r\<lparr>st_point := Dead\<rparr>)
         | Inr None \<Rightarrow> stream_end r
         | Inr (Some (tls_header, buffer, sz)) \<Rightarrow>
             if tls_header \<noteq> []
             then Stream_yields (Some tls_header) (Some []) (r\<lparr>st_buffer := buffer, st_size := Some 0, st_point := AtRequest\<rparr>)
             else Stream_yields (Some []) (Some []) (r\<lparr>st_buffer := buffer, st_size := sz, st_point := AtData\<rparr>))
      else
        case TLSClient_process (st_buffer r) (st_mode r) of
          None \<Rightarrow> stream_end r
        | Some (data, buffer, mode) \<Rightarrow>
            Stream_yields (Some []) (Some data) (r\<lparr>st_buffer := buffer, st_mode := mode, st_point := AtData\<rparr>))"

text \<open>The loops. An iteration that goes round has used up an answer of the socket.\<close>

fun TLSClient_read_loop :: "recv_result list \<Rightarrow> stream_reader \<Rightarrow> stream_result" where
  "TLSClient_read_loop answers r =
     (if st_mode r = ''passthrough'' \<and> st_buffer r \<noteq> [] then TLSClient_dispatch r
      else
        case answers of
          [] \<Rightarrow> Stream_starved
        | WouldBlock # _ \<Rightarrow> Stream_yields (Some []) (Some []) (r\<lparr>st_point := AtData\<rparr>)
        | SocketError # _ \<Rightarrow> stream_end r
        | Received new_data # rest \<Rightarrow>
            if new_data = [] then stream_end r
            else
              let r1 = r\<lparr>st_buffer := st_buffer r @ new_data\<rparr> in
              if st_mode r1 = ''proxy'' then
                (let (masquerade, buffer, mode) = TLSClient_processProxyHeader (st_buffer r1) (st_mode r1);
                     r2 = r1\<lparr>st_buffer := (case buffer of None \<Rightarrow> [] | Some b \<Rightarrow> b), st_mode := mode\<rparr>
                 in case masquerade of
                      None \<Rightarrow> stream_end r2
                    | Some ip \<Rightarrow>
                        if ip = [] then TLSClient_read_loop rest r2
                        else TLSClient_dispatch (r2\<lparr>st_peer := ip\<rparr>))
              else TLSClient_dispatch r1)"

declare TLSClient_read_loop.simps [simp del]

text \<open>\<open>reader.send((mode, remaining))\<close>; \<open>StopIteration\<close> is \<open>RuntimeError\<close>.\<close>

definition TLSClient_read :: "string \<Rightarrow> recv_result list \<Rightarrow> stream_reader \<Rightarrow> stream_result" where
  "TLSClient_read mode answers r =
     (case st_point r of
        AtRequest \<Rightarrow> TLSClient_read_loop answers (r\<lparr>st_mode := mode\<rparr>)
      | AtData \<Rightarrow> TLSClient_read_loop answers r
      | AtEnd \<Rightarrow> Stream_raises RuntimeError (r\<lparr>st_point := Dead\<rparr>)
      | Dead \<Rightarrow> Stream_raises RuntimeError r)"

definition TLSClient_readData :: "recv_result list \<Rightarrow> stream_reader \<Rightarrow> stream_result" where
  "TLSClient_readData answers r = TLSClient_read ''new-request'' answers r"

definition TLSClient_readRelated :: "string \<Rightarrow> recv_result list \<Rightarrow> stream_reader \<Rightarrow> stream_result" where
  "TLSClient_readRelated mode answers r = TLSClient_read (if mode = [] then ''new-request'' else mode) answers r"


section \<open>The reading coroutine of a passthrough client\<close>

definition PassthroughClient_read_init :: "bool \<Rightarrow> string \<Rightarrow> int \<Rightarrow> stream_reader" where
  "PassthroughClient_read_init proxied peer max_buffer =
     \<lparr>st_buffer = [], st_size = Some 0, st_mode = (if proxied then ''proxy'' else ''passthrough''), st_point = AtData,
      st_peer = peer, st_max_buffer = max_buffer\<rparr>"

text \<open>The class has no \<open>eol\<close>: reading \<open>self.eol\<close> raises.\<close>

definition PassthroughClient_processProxyHeader :: "string \<Rightarrow> string \<Rightarrow> (string option \<times> string option \<times> string) res" where
  "PassthroughClient_processProxyHeader r_buffer mode = Inl AttributeError"

definition PassthroughClient_process :: "string \<Rightarrow> string \<Rightarrow> (string \<times> string \<times> string) option" where
  "PassthroughClient_process r_buffer mode = (if mode = ''passthrough'' then Some (r_buffer, [], mode) else None)"

definition PassthroughClient_dispatch :: "stream_reader \<Rightarrow> stream_result" where
  "PassthroughClient_dispatch r =
     (if st_mode r = ''passthrough'' then
        (case PassthroughClient_process (st_buffer r) (st_mode r) of
           None \<Rightarrow> stream_end r
         | Some (data, buffer, mode) \<Rightarrow>
             Stream_yields (Some []) (Some data) (r\<lparr>st_buffer := buffer, st_mode := mode, st_point := AtData\<rparr>))
      else Stream_yields (Some []) (Some []) (r\<lparr>st_point := AtData\<rparr>))"

fun PassthroughClient_read_loop :: "recv_result list \<Rightarrow> stream_reader \<Rightarrow> stream_result" where
  "PassthroughClient_read_loop answers r =
     (if st_mode r = ''passthrough'' \<and> st_buffer r \<noteq> [] then PassthroughClient_dispatch r
      else
        case answers of
          [] \<Rightarrow> Stream_starved
        | WouldBlock # _ \<Rightarrow> Stream_yields (Some []) (Some []) (r\<lparr>st_point := AtData\<rparr>)
        | SocketError # _ \<Rightarrow> stream_end r
        | Received new_data # rest \<Rightarrow>
            if new_data = [] then stream_end r
            else
              let r1 = r\<lparr>st_buffer := st_buffer r @ new_data\<rparr> in
              if st_mode r1 = ''proxy'' then
                (case PassthroughClient_processProxyHeader (st_buffer r1) (st_mode r1) of
                   Inl e \<Rightarrow> Stream_raises e (r1\<lparr>st_point := Dead\<rparr>)
                 | Inr (masquerade, buffer, mode) \<Rightarrow>
                     let r2 = r1\<lparr>st_buffer := (case buffer of None \<Rightarrow> [] | Some b \<Rightarrow> b), st_mode := mode\<rparr> in
                     case masquerade of
                       None \<Rightarrow> stream_end r2
                     | Some ip \<Rightarrow>
                         if ip = [] then PassthroughClient_read_loop rest r2
                         else PassthroughClient_dispatch (r2\<lparr>st_peer := ip\<rparr>))
              else PassthroughClient_dispatch r1)"

declare PassthroughClient_read_loop.simps [simp del]

text \<open>No \<open>yield\<close> of this coroutine uses what is sent to it: there is no \<open>AtRequest\<close>.\<close>

definition PassthroughClient_read :: "recv_result list \<Rightarrow> stream_reader \<Rightarrow> stream_result" where
  "PassthroughClient_read answers r =
     (case st_point r of
        AtEnd \<Rightarrow> Stream_raises RuntimeError (r\<lparr>st_point := Dead\<rparr>)
      | Dead \<Rightarrow> Stream_raises RuntimeError r
      | _ \<Rightarrow> PassthroughClient_read_loop answers r)"

definition PassthroughClient_readData :: "recv_result list \<Rightarrow> stream_reader \<Rightarrow> stream_result" where
  "PassthroughClient_readData answers r = PassthroughClient_read answers r"

definition PassthroughClient_readRelated :: "string \<Rightarrow> recv_result list \<Rightarrow> stream_reader \<Rightarrow> stream_result" where
  "PassthroughClient_readRelated mode answers r = PassthroughClient_read answers r"


section \<open>Writing\<close>

definition TLSClient_write_init :: "bool \<Rightarrow> string \<Rightarrow> writer" where
  "TLSClient_write_init ipv4 buffer =
     \<lparr>w_ipv4 = ipv4, w_point = WaitFirst, w_buffer = buffer, w_finished = False, w_found = False, w_file = None\<rparr>"

definition TLSClient_writeData :: "string option \<Rightarrow> send_result \<Rightarrow> writer \<Rightarrow> (write_status \<times> nat \<times> writer) res" where
  "TLSClient_writeData data answer w =
     (case w_point w of
        Unstarted \<Rightarrow>
          (case data of None \<Rightarrow> Inr (None, 0, w\<lparr>w_point := WaitFirst\<rparr>) | Some _ \<Rightarrow> Inl TypeError)
      | WaitFirst \<Rightarrow> write_iteration data answer (w\<lparr>w_finished := False\<rparr>)
      | InLoop \<Rightarrow> write_iteration data answer w
      | Closing \<Rightarrow> Inr (None, 0, w\<lparr>w_point := Closed\<rparr>)
      | _ \<Rightarrow> Inl RuntimeError)"

text \<open>
  \<open>startData\<close>: a command that is neither of the two starts the coroutine and sends nothing. \<open>answer\<close> is
  what the socket answers when it is sent the first data.
\<close>

definition TLSClient_startData :: "start_command \<Rightarrow> send_result \<Rightarrow> bool \<Rightarrow> string \<Rightarrow> (write_status \<times> nat \<times> writer) res" where
  "TLSClient_startData command answer ipv4 buffer =
     (let w0 = TLSClient_write_init ipv4 buffer in
      case command of
        Stream data \<Rightarrow> TLSClient_writeData data answer w0
      | Close data \<Rightarrow>
          seq (TLSClient_writeData data answer w0) (\<lambda>(_, sent, w1).
          seq (TLSClient_writeData None answer w1) (\<lambda>(res, sent', w2). Inr (res, sent + sent', w2)))
      | _ \<Rightarrow> Inr (None, 0, w0))"

definition PassthroughClient_write_init :: "bool \<Rightarrow> string \<Rightarrow> writer" where
  "PassthroughClient_write_init ipv4 buffer =
     \<lparr>w_ipv4 = ipv4, w_point = WaitFirst, w_buffer = buffer, w_finished = False, w_found = False, w_file = None\<rparr>"

definition PassthroughClient_writeData :: "string option \<Rightarrow> send_result \<Rightarrow> writer \<Rightarrow> (write_status \<times> nat \<times> writer) res" where
  "PassthroughClient_writeData data answer w =
     (case w_point w of
        Unstarted \<Rightarrow>
          (case data of None \<Rightarrow> Inr (None, 0, w\<lparr>w_point := WaitFirst\<rparr>) | Some _ \<Rightarrow> Inl TypeError)
      | WaitFirst \<Rightarrow> write_iteration data answer (w\<lparr>w_finished := False\<rparr>)
      | InLoop \<Rightarrow> write_iteration data answer w
      | Closing \<Rightarrow> Inr (None, 0, w\<lparr>w_point := Closed\<rparr>)
      | _ \<Rightarrow> Inl RuntimeError)"

definition PassthroughClient_startData :: "start_command \<Rightarrow> send_result \<Rightarrow> bool \<Rightarrow> string \<Rightarrow> (write_status \<times> nat \<times> writer) res" where
  "PassthroughClient_startData command answer ipv4 buffer =
     (let w0 = PassthroughClient_write_init ipv4 buffer in
      case command of
        Stream data \<Rightarrow> PassthroughClient_writeData data answer w0
      | Close data \<Rightarrow>
          seq (PassthroughClient_writeData data answer w0) (\<lambda>(_, sent, w1).
          seq (PassthroughClient_writeData None answer w1) (\<lambda>(res, sent', w2). Inr (res, sent + sent', w2)))
      | _ \<Rightarrow> Inr (None, 0, w0))"


section \<open>Facts on reading\<close>

lemma TLS_loop_receive:
  assumes "st_mode r \<noteq> ''proxy''" "st_mode r \<noteq> ''passthrough'' \<or> st_buffer r = []" "c \<noteq> []"
  shows "TLSClient_read_loop (Received c # as) r = TLSClient_dispatch (r\<lparr>st_buffer := st_buffer r @ c\<rparr>)"
  using assms by (subst TLSClient_read_loop.simps) (auto simp: Let_def)

lemma get_tls_hello_size_prefix:
  assumes "TLS_HEADER_LEN \<le> length c"
  shows "get_tls_hello_size (c @ d) = get_tls_hello_size c"
  using assms by (simp add: get_tls_hello_size_def slice_def TLS_HEADER_LEN_def)

text \<open>The state while the ClientHello, whose length is \<open>n\<close>, is not complete, and what the next piece does.\<close>

definition hello_pending :: "int \<Rightarrow> nat \<Rightarrow> string \<Rightarrow> stream_reader \<Rightarrow> bool" where
  "hello_pending limit n b r \<longleftrightarrow> st_buffer r = b \<and> st_mode r = ''tls'' \<and> st_point r = AtData \<and> st_max_buffer r = limit
     \<and> (st_size r = Some (int n) \<or> st_size r = Some 0 \<and> b = [])"

lemma hello_piece:
  assumes "hello_pending limit n b r" "get_tls_hello_size (b @ c) = Inr n" "TLS_HEADER_LEN \<le> length (b @ c)"
    and "0 < n" "int n \<le> limit" "c \<noteq> []"
  shows "if n \<le> length (b @ c)
    then \<exists>r'. TLSClient_readData [Received c] r = Stream_yields (Some (take n (b @ c))) (Some []) r'
      \<and> st_point r' = AtRequest \<and> st_buffer r' = drop n (b @ c)
    else \<exists>r'. TLSClient_readData [Received c] r = Stream_yields (Some []) (Some []) r' \<and> hello_pending limit n (b @ c) r'"
proof -
  have "TLSClient_readData [Received c] r = TLSClient_dispatch (r\<lparr>st_buffer := b @ c\<rparr>)"
    using assms(1,6) TLS_loop_receive [of r c "[]"]
    by (simp add: TLSClient_readData_def TLSClient_read_def hello_pending_def)
  moreover have "TLSClient_checkRequest (b @ c) limit (st_size r)
    = Inr (Some (if n \<le> length (b @ c) then (take n (b @ c), drop n (b @ c), Some (int n)) else ([], b @ c, Some (int n))))"
    using assms by (auto simp: TLSClient_checkRequest_def hello_pending_def)
  moreover have "take n (b @ c) \<noteq> []" using assms(4,6) by simp
  ultimately show ?thesis using assms(1) by (simp add: TLSClient_dispatch_def hello_pending_def)
qed

text \<open>A run over the answers to each resumption: what is yielded.\<close>

fun stream_run :: "(recv_result list \<Rightarrow> stream_reader \<Rightarrow> stream_result) \<Rightarrow> recv_result list list \<Rightarrow> stream_reader \<Rightarrow>
    ((string \<times> string) list \<times> stream_reader) option" where
  "stream_run read [] r = Some ([], r)"
| "stream_run read (as # ass) r =
     (case read as r of
        Stream_yields (Some header) (Some content) r' \<Rightarrow>
          map_option (\<lambda>(ys, r''). ((header, content) # ys, r'')) (stream_run read ass r')
      | _ \<Rightarrow> None)"

abbreviation receiving :: "string list \<Rightarrow> recv_result list list" where
  "receiving cs \<equiv> map (\<lambda>c. [Received c]) cs"

lemma hello_run:
  assumes "hello_pending limit n b r" "cs \<noteq> []" "\<forall>c \<in> set cs. c \<noteq> []" "0 < n" "int n \<le> limit"
    and "get_tls_hello_size (b @ hd cs) = Inr n" "TLS_HEADER_LEN \<le> length (b @ hd cs)"
    and "length (b @ concat (butlast cs)) < n" "n \<le> length (b @ concat cs)"
  shows "\<exists>r'. stream_run TLSClient_readData (receiving cs) r
      = Some (replicate (length cs - 1) ([], []) @ [(take n (b @ concat cs), [])], r')
    \<and> st_point r' = AtRequest \<and> st_buffer r' = drop n (b @ concat cs)"
  using assms
proof (induction cs arbitrary: b r)
  case (Cons c cs)
  note piece = hello_piece [OF Cons.prems(1) _ _ Cons.prems(4,5), of c]
  show ?case
  proof (cases "cs = []")
    case True
    with Cons.prems piece show ?thesis by auto
  next
    case False
    then have "length (b @ c) < n" using Cons.prems(8) by auto
    with Cons.prems piece obtain r1 where
      r1: "TLSClient_readData [Received c] r = Stream_yields (Some []) (Some []) r1" "hello_pending limit n (b @ c) r1"
      by auto
    have len: "TLS_HEADER_LEN \<le> length (b @ c)" using Cons.prems(7) by simp
    have "get_tls_hello_size (b @ c) = Inr n" using Cons.prems(6) by simp
    with get_tls_hello_size_prefix [OF len, of "hd cs"] have "get_tls_hello_size ((b @ c) @ hd cs) = Inr n" by simp
    from Cons.IH [OF r1(2) False _ Cons.prems(4,5) this] Cons.prems(3,8,9) False len obtain r' where
      "stream_run TLSClient_readData (receiving cs) r1
        = Some (replicate (length cs - 1) ([], []) @ [(take n (b @ c @ concat cs), [])], r')"
      "st_point r' = AtRequest" "st_buffer r' = drop n (b @ c @ concat cs)" by auto
    moreover have "replicate (length cs) ([] :: string, [] :: string) = ([], []) # replicate (length cs - 1) ([], [])"
      using False by (cases cs) auto
    ultimately show ?thesis using r1(1) by simp
  qed
qed simp

text \<open>Once it relays, each piece is passed on as it is.\<close>

lemma relay_run:
  assumes "st_mode r = ''passthrough''" "st_point r = AtData" "st_buffer r = []" "\<forall>d \<in> set ds. d \<noteq> []"
  shows "\<exists>r'. stream_run (TLSClient_readRelated m) (receiving ds) r = Some (map (\<lambda>d. ([], d)) ds, r') \<and> st_buffer r' = []"
  using assms
proof (induction ds arbitrary: r)
  case (Cons d ds)
  have "TLSClient_readRelated m [Received d] r
      = Stream_yields (Some []) (Some d) (r\<lparr>st_buffer := [], st_mode := ''passthrough'', st_point := AtData\<rparr>)"
    using Cons.prems TLS_loop_receive [of r d "[]"]
    by (simp add: TLSClient_readRelated_def TLSClient_read_def TLSClient_dispatch_def TLSClient_process_def)
  with Cons.IH [of "r\<lparr>st_buffer := [], st_mode := ''passthrough'', st_point := AtData\<rparr>"] Cons.prems(4) show ?case by auto
qed simp

lemma relay_start:
  assumes "st_point r = AtRequest" "st_buffer r \<noteq> [] \<and> d = [] \<or> st_buffer r = [] \<and> d \<noteq> []"
  shows "\<exists>r'. TLSClient_readRelated ''passthrough'' (if d = [] then [] else [Received d]) r
      = Stream_yields (Some []) (Some (st_buffer r @ d)) r'
    \<and> st_mode r' = ''passthrough'' \<and> st_point r' = AtData \<and> st_buffer r' = []"
  using assms TLS_loop_receive [of "r\<lparr>st_mode := ''passthrough''\<rparr>" d "[]"]
  by (auto simp: TLSClient_readRelated_def TLSClient_read_def TLSClient_dispatch_def TLSClient_process_def
      TLSClient_read_loop.simps [of "[]"])

text \<open>The relay after a ClientHello with which more has come, or not.\<close>

lemma relay_rest:
  assumes "st_point r = AtRequest" "st_buffer r = drop n b" "\<forall>d \<in> set ds. d \<noteq> []"
  shows "\<exists>ys r2. stream_run (TLSClient_readRelated ''passthrough'')
      (if n < length b then [] # receiving ds else receiving ds) r = Some (ys, r2)
    \<and> (\<forall>y \<in> set ys. fst y = []) \<and> concat (map snd ys) = drop n b @ concat ds"
proof (cases "n < length b")
  case True
  with relay_start [of r "[]"] assms(1,2) obtain r' where
    r': "TLSClient_readRelated ''passthrough'' [] r = Stream_yields (Some []) (Some (drop n b)) r'"
      "st_mode r' = ''passthrough''" "st_point r' = AtData" "st_buffer r' = []" by auto
  from relay_run [OF r'(2-4) assms(3)] obtain r2 where
    "stream_run (TLSClient_readRelated ''passthrough'') (receiving ds) r' = Some (map (\<lambda>d. ([], d)) ds, r2)" by blast
  with True r'(1) show ?thesis by (auto simp: comp_def)
next
  case False
  then have nil: "drop n b = []" by simp
  show ?thesis
  proof (cases ds)
    case Nil
    with False nil show ?thesis by simp
  next
    case (Cons d ds')
    with assms(3) relay_start [of r d] assms(1,2) nil obtain r' where
      r': "TLSClient_readRelated ''passthrough'' [Received d] r = Stream_yields (Some []) (Some d) r'"
        "st_mode r' = ''passthrough''" "st_point r' = AtData" "st_buffer r' = []" by auto
    from relay_run [OF r'(2-4), of ds'] assms(3) Cons obtain r2 where
      "stream_run (TLSClient_readRelated ''passthrough'') (receiving ds') r' = Some (map (\<lambda>d. ([], d)) ds', r2)" by auto
    with False nil Cons r'(1) show ?thesis by (auto simp: comp_def)
  qed
qed

section \<open>Properties\<close>

text \<open>C34: A ClientHello that arrives in pieces of which the first has at least five bytes and the last completes it, its announced size being within the limit, is read whole, by as many reads as there are pieces, and everything after it is relayed unchanged: what had come with it first, then each piece as it comes.\<close>

theorem TLSClient_relays:
  assumes "cs \<noteq> []" "\<forall>c \<in> set cs. c \<noteq> []" "TLS_HEADER_LEN \<le> length (hd cs)" "get_tls_hello_size (hd cs) = Inr n"
    and "int n \<le> limit" "length (concat (butlast cs)) < n" "n \<le> length (concat cs)"
    and "\<forall>d \<in> set ds. d \<noteq> []"
  shows "\<exists>r1. stream_run TLSClient_readData (receiving cs) (TLSClient_read_init False peer limit)
      = Some (replicate (length cs - 1) ([], []) @ [(take n (concat cs), [])], r1)
    \<and> (\<exists>ys r2. stream_run (TLSClient_readRelated ''passthrough'')
          (if n < length (concat cs) then [] # receiving ds else receiving ds) r1 = Some (ys, r2)
        \<and> (\<forall>y \<in> set ys. fst y = []) \<and> take n (concat cs) @ concat (map snd ys) = concat cs @ concat ds)"
proof -
  have "hello_pending limit n [] (TLSClient_read_init False peer limit)"
    by (simp add: hello_pending_def TLSClient_read_init_def)
  moreover have "0 < n" using assms(4) by (auto simp: get_tls_hello_size_def TLS_HEADER_LEN_def seq_eq_Inr_iff)
  ultimately obtain r1 where r1: "stream_run TLSClient_readData (receiving cs) (TLSClient_read_init False peer limit)
      = Some (replicate (length cs - 1) ([], []) @ [(take n (concat cs), [])], r1)"
    "st_point r1 = AtRequest" "st_buffer r1 = drop n (concat cs)"
    using hello_run [of limit n "[]" _ cs] assms(1-7) by auto
  from relay_rest [OF r1(2,3) assms(8)] obtain ys r2 where "stream_run (TLSClient_readRelated ''passthrough'')
          (if n < length (concat cs) then [] # receiving ds else receiving ds) r1 = Some (ys, r2)"
        "\<forall>y \<in> set ys. fst y = []" "concat (map snd ys) = drop n (concat cs) @ concat ds" by blast
  then have "take n (concat cs) @ concat (map snd ys) = concat cs @ concat ds" by simp
  with r1(1) \<open>stream_run (TLSClient_readRelated ''passthrough'') _ r1 = Some (ys, r2)\<close> \<open>\<forall>y \<in> set ys. fst y = []\<close>
  show ?thesis by blast
qed

definition short_hello :: string where
  "short_hello = map char_of [22 :: nat, 3, 1, 0, 4, 1, 0, 0, 0]"

theorem TLSClient_relays_witness:
  "\<exists>r1. stream_run TLSClient_readData (receiving [take 6 short_hello, drop 6 short_hello @ ''early''])
        (TLSClient_read_init False ''10.0.0.1'' 100)
        = Some (replicate (2 - 1) ([], []) @ [(take 9 (concat [take 6 short_hello, drop 6 short_hello @ ''early'']), [])], r1)
    \<and> (\<exists>ys r2. stream_run (TLSClient_readRelated ''passthrough'')
          (if 9 < length (concat [take 6 short_hello, drop 6 short_hello @ ''early''])
           then [] # receiving [''late''] else receiving [''late'']) r1 = Some (ys, r2)
        \<and> (\<forall>y \<in> set ys. fst y = [])
        \<and> take 9 (concat [take 6 short_hello, drop 6 short_hello @ ''early'']) @ concat (map snd ys)
            = concat [take 6 short_hello, drop 6 short_hello @ ''early''] @ concat [''late''])"
  using TLSClient_relays [of "[take 6 short_hello, drop 6 short_hello @ ''early'']" 9 100 "[''late'']" "''10.0.0.1''"]
  by (simp add: get_tls_hello_size_def short_def slice_def TLS_HEADER_LEN_def short_hello_def
      del: stream_run.simps)

text \<open>When the first piece of a ClientHello is shorter than the five bytes of the record header, the connection is closed when the next arrives, whatever it is.\<close>

theorem TLSClient_short_read_closes:
  assumes "0 < length c" "length c < TLS_HEADER_LEN" "d \<noteq> []"
  shows "\<exists>r1 r2. TLSClient_readData [Received c] (TLSClient_read_init False peer limit) = Stream_yields (Some []) (Some []) r1
    \<and> TLSClient_readData [Received d] r1 = Stream_yields None None r2"
proof -
  let ?r = "TLSClient_read_init False peer limit"
  let ?r1 = "?r\<lparr>st_buffer := c, st_size := None\<rparr>"
  have "c \<noteq> []" using assms(1) by simp
  then have "TLSClient_readData [Received c] ?r = Stream_yields (Some []) (Some []) ?r1"
    using assms(2) TLS_loop_receive [of ?r c "[]"]
    by (simp add: TLSClient_readData_def TLSClient_read_def TLSClient_read_init_def TLSClient_dispatch_def TLSClient_checkRequest_def)
  moreover have "TLSClient_readData [Received d] ?r1 = stream_end (?r1\<lparr>st_buffer := c @ d\<rparr>)"
    using assms(3) TLS_loop_receive [of ?r1 d "[]"]
    by (simp add: TLSClient_readData_def TLSClient_read_def TLSClient_read_init_def TLSClient_dispatch_def TLSClient_checkRequest_def)
  ultimately show ?thesis by (simp add: stream_end_def)
qed

theorem TLSClient_short_read_closes_witness:
  "\<exists>r1 r2. TLSClient_readData [Received (take 3 short_hello)] (TLSClient_read_init False ''10.0.0.1'' 100)
        = Stream_yields (Some []) (Some []) r1
    \<and> TLSClient_readData [Received (drop 3 short_hello)] r1 = Stream_yields None None r2"
  by (rule TLSClient_short_read_closes) (simp_all add: short_hello_def TLS_HEADER_LEN_def)

text \<open>A passthrough client behind a balancer never gets as far as its first data.\<close>

lemma PassthroughClient_proxied_raises:
  assumes "c \<noteq> []"
  shows "\<exists>r. PassthroughClient_readData [Received c] (PassthroughClient_read_init True peer limit) = Stream_raises AttributeError r"
  using assms
  by (simp add: PassthroughClient_readData_def PassthroughClient_read_def PassthroughClient_read_init_def
      PassthroughClient_read_loop.simps PassthroughClient_processProxyHeader_def Let_def)

end
