(* ===== verification/ICAPClient.thy ===== *)
theory ICAPClient
  imports HTTPClient
begin

text \<open>
  \<open>lib/exaproxy/reactor/client/icap.py\<close>: the connection of an ICAP client. The functions \<open>ishex\<close>,
  \<open>count_quotes\<close> and \<open>checkChunkSize\<close> are, line for line, those of \<open>client/http.py\<close>, and so is the loop
  of the writing coroutine (\<open>write_iteration\<close>).
\<close>

section \<open>Framing\<close>

text \<open>
  \<open>findEOR\<close>: the loop looks for \<open>eor\<close>, the separator found so far (at first the empty string), not for
  the separator of the iteration.
\<close>

fun findEOR_loop :: "string list \<Rightarrow> string \<Rightarrow> string \<Rightarrow> int \<Rightarrow> string \<times> int" where
  "findEOR_loop [] tail eor pos = (eor, pos)"
| "findEOR_loop (m # ms) tail eor pos =
     (case py_find eor tail of
        None \<Rightarrow> findEOR_loop ms tail eor pos
      | Some found \<Rightarrow>
          if pos = -1 \<or> int found < pos then findEOR_loop ms tail m (int found + int (length m))
          else findEOR_loop ms tail eor pos)"

definition findEOR :: "string \<Rightarrow> int \<Rightarrow> string \<times> int" where
  "findEOR r_buffer seek =
     (let seek_pos = max 0 (seek - 4 + 1);
          (eor, pos) = findEOR_loop [CRLF @ CRLF, [LF, LF]] (py_from seek_pos r_buffer) [] (-1)
      in (eor, if eor \<noteq> [] then seek + pos else -1))"

text \<open>The loop of \<open>checkRequest\<close>: \<open>None\<close> when it never ends.\<close>

partial_function (option) icap_separators :: "string \<Rightarrow> int \<Rightarrow> string \<Rightarrow> int \<Rightarrow> ((string \<times> string \<times> int) + int) option" where
  "icap_separators r_buffer seek eor seek_pos =
     (if eor \<noteq> [] then
        (let buff = py_upto seek_pos r_buffer in
         if count_quotes buff mod 2 = 0 then Some (Inl (buff, py_from seek_pos r_buffer, 0))
         else icap_separators r_buffer seek_pos (fst (findEOR r_buffer seek_pos)) (snd (findEOR r_buffer seek_pos)))
      else Some (Inr seek))"

text \<open>The inner \<open>None\<close> is the triple of \<open>None\<close>: the buffer is longer than allowed.\<close>

definition icap_checkRequest :: "string \<Rightarrow> nat \<Rightarrow> int \<Rightarrow> (string \<times> string \<times> int) option option" where
  "icap_checkRequest r_buffer max_size seek =
     (let (eor, seek_pos) = findEOR r_buffer seek in
      map_option (\<lambda>r. case r of
          Inl t \<Rightarrow> Some t
        | Inr seek' \<Rightarrow> if max_size \<noteq> 0 \<and> length r_buffer > max_size then None else Some ([], r_buffer, seek'))
        (icap_separators r_buffer seek eor seek_pos))"

definition icap_processProxyHeader :: "string \<Rightarrow> string \<Rightarrow> string option \<times> string option \<times> string" where
  "icap_processProxyHeader r_buffer mode =
     (let r_buffer' = lstrip_in CRLF r_buffer in
      if py_in (CRLF @ CRLF) r_buffer' \<or> py_in [LF, LF] r_buffer'
      then let (client_ip, rest) = ProxyProtocol_parse r_buffer' in (client_ip, rest, ''icap'')
      else (Some [], Some r_buffer', mode))"

text \<open>The mode for a request that has been read.\<close>

definition icap_mode :: "string \<Rightarrow> string" where
  "icap_mode icap_request =
     (let preview = py_upper (take 8 (py_lstrip icap_request));
          preview' = (if CHR '' '' \<in> set preview
                      then (case py_split1 '' '' icap_request of Some (a, _) \<Rightarrow> a | None \<Rightarrow> icap_request) else [])
      in if preview' = ''OPTIONS'' then ''options''
         else if preview' = ''REQMOD'' \<or> preview' = ''RESPMOD'' then ''http'' else ''bad'')"

text \<open>The request, the buffer, the mode and the position.\<close>

definition processICAPRequest :: "string \<Rightarrow> string \<Rightarrow> nat \<Rightarrow> int \<Rightarrow> (string \<times> string \<times> string \<times> int) option option" where
  "processICAPRequest r_buffer mode max_buffer seek =
     map_option (map_option (\<lambda>(icap_request, buffer, seek').
         if icap_request \<noteq> [] then (icap_request, buffer, icap_mode icap_request, 0) else (icap_request, buffer, mode, seek')))
       (icap_checkRequest (lstrip_in CRLF r_buffer) max_buffer seek)"

definition icap_transfer :: "string \<Rightarrow> string \<Rightarrow> int \<Rightarrow> read_state" where
  "icap_transfer r_buffer mode nb_to_send =
     (let len = min (int (length r_buffer)) nb_to_send;
          nb_to_send' = nb_to_send - len
      in (Some (py_upto len r_buffer), py_from len r_buffer,
          (if nb_to_send' = 0 then ''new-request'' else mode), nb_to_send', 0))"

definition icap_chunked :: "string \<Rightarrow> string \<Rightarrow> int \<Rightarrow> read_state" where
  "icap_chunked r_buffer mode nb_to_send =
     (let len = min (int (length r_buffer)) nb_to_send;
          data = py_upto len r_buffer;
          r_buffer' = py_from len r_buffer;
          nb1 = nb_to_send - len;
          (chunked, new_to_send) = checkChunkSize (py_from nb1 r_buffer');
          (data', nb2) = (case new_to_send of Some n \<Rightarrow> (Some data, nb1 + int n) | None \<Rightarrow> (None, nb1));
          mode' = (if \<not> chunked then if nb2 > 0 then ''transfer'' else ''new-request'' else mode)
      in (data', r_buffer', mode', nb2, 0))"

text \<open>\<open>process\<close>: a body is read and dropped; \<open>None\<close> closes the connection.\<close>

definition icap_process :: "string \<Rightarrow> string \<Rightarrow> int \<Rightarrow> (string \<times> string \<times> int \<times> int) option" where
  "icap_process r_buffer mode nb_to_send =
     (if mode = ''transfer'' then
        (let (_, buffer, new_mode, nb, seek) = icap_transfer r_buffer mode nb_to_send in Some (buffer, new_mode, nb, seek))
      else if mode = ''chunked'' then
        (let (_, buffer, new_mode, nb, seek) = icap_chunked r_buffer mode nb_to_send in
         if new_mode = ''transfer'' then
           (let (_, buffer', new_mode', nb', seek') = icap_transfer buffer new_mode nb in Some (buffer', new_mode', nb', seek'))
         else Some (buffer, new_mode, nb, seek))
      else None)"


section \<open>The reading coroutine\<close>

record icap_reader =
  ir_buffer :: string
  ir_nb_to_send :: int
  ir_seek :: int
  ir_mode :: string
  ir_icap_request :: string
  ir_point :: read_point
  ir_peer :: string
  ir_max_buffer :: nat

definition icap_read_init :: "bool \<Rightarrow> string \<Rightarrow> nat \<Rightarrow> icap_reader" where
  "icap_read_init proxied peer max_buffer =
     \<lparr>ir_buffer = [], ir_nb_to_send = 0, ir_seek = 0, ir_mode = (if proxied then ''proxy'' else ''icap''),
      ir_icap_request = [], ir_point = AtData, ir_peer = peer, ir_max_buffer = max_buffer\<rparr>"

text \<open>The ICAP header, the HTTP header and the content it yields.\<close>

datatype icap_result =
    Icap_yields "string option" "string option" "string option" icap_reader
  | Icap_raises py_error icap_reader
  | Icap_starved

definition icap_end :: "icap_reader \<Rightarrow> icap_result" where
  "icap_end r = Icap_yields None None None (r\<lparr>ir_point := AtEnd\<rparr>)"

definition icap_nothing :: "icap_reader \<Rightarrow> icap_result" where
  "icap_nothing r = Icap_yields (Some []) (Some []) (Some []) (r\<lparr>ir_point := AtData\<rparr>)"

text \<open>
  The three steps of an iteration after the data has been received and the PROXY line dealt with.
  The outer \<open>None\<close>: a loop in it never ends.
\<close>

definition icap_emit :: "string \<Rightarrow> icap_reader \<Rightarrow> icap_result" where
  "icap_emit http_request r =
     (if (ir_mode r = ''http'' \<and> http_request \<noteq> []) \<or> ir_mode r = ''options''
      then Icap_yields (Some (ir_icap_request r)) (Some http_request) (Some [])
             (r\<lparr>ir_icap_request := [], ir_seek := 0, ir_point := AtRequest\<rparr>)
      else icap_nothing r)"

definition icap_body :: "icap_reader \<Rightarrow> icap_result option" where
  "icap_body r =
     (if ir_mode r = ''http'' then
        map_option (\<lambda>t. case t of
            None \<Rightarrow> icap_end r
          | Some (http_request, buffer, seek) \<Rightarrow> icap_emit http_request (r\<lparr>ir_buffer := buffer, ir_seek := seek\<rparr>))
          (icap_checkRequest (ir_buffer r) (ir_max_buffer r) (ir_seek r))
      else if ir_mode r = ''icap'' \<or> ir_mode r = ''options'' then Some (icap_emit [] r)
      else
        Some (case icap_process (ir_buffer r) (ir_mode r) (ir_nb_to_send r) of
            None \<Rightarrow> icap_end r
          | Some (buffer, mode, nb, seek) \<Rightarrow>
              icap_emit [] (r\<lparr>ir_buffer := buffer, ir_mode := mode, ir_nb_to_send := nb, ir_seek := seek\<rparr>)))"

definition icap_dispatch :: "icap_reader \<Rightarrow> icap_result option" where
  "icap_dispatch r =
     (if ir_mode r = ''icap'' then
        (case processICAPRequest (ir_buffer r) (ir_mode r) (ir_max_buffer r) (ir_seek r) of
           None \<Rightarrow> None
         | Some None \<Rightarrow> Some (icap_end r)
         | Some (Some (icap_request, buffer, mode, seek)) \<Rightarrow>
             icap_body (r\<lparr>ir_buffer := buffer, ir_mode := mode, ir_seek := seek, ir_icap_request := icap_request\<rparr>))
      else icap_body r)"

fun icap_read_loop :: "recv_result list \<Rightarrow> icap_reader \<Rightarrow> icap_result option" where
  "icap_read_loop answers r =
     (if ir_mode r = ''new-request'' then icap_dispatch (r\<lparr>ir_mode := ''icap''\<rparr>)
      else
        case answers of
          [] \<Rightarrow> Some Icap_starved
        | WouldBlock # _ \<Rightarrow> Some (icap_nothing r)
        | SocketError # _ \<Rightarrow> Some (icap_end r)
        | Received new_data # rest \<Rightarrow>
            if new_data = [] then Some (icap_end r)
            else
              let r1 = r\<lparr>ir_buffer := ir_buffer r @ new_data\<rparr> in
              if ir_mode r1 = ''proxy'' then
                (let (masquerade, buffer, mode) = icap_processProxyHeader (ir_buffer r1) (ir_mode r1);
                     r2 = r1\<lparr>ir_buffer := (case buffer of None \<Rightarrow> [] | Some b \<Rightarrow> b), ir_mode := mode\<rparr>
                 in case masquerade of
                      None \<Rightarrow> Some (icap_end r2)
                    | Some ip \<Rightarrow> if ip = [] then icap_read_loop rest r2 else icap_dispatch (r2\<lparr>ir_peer := ip\<rparr>))
              else icap_dispatch r1)"

declare icap_read_loop.simps [simp del]

definition icap_read :: "string \<Rightarrow> int \<Rightarrow> recv_result list \<Rightarrow> icap_reader \<Rightarrow> icap_result option" where
  "icap_read mode remaining answers r =
     (case ir_point r of
        AtRequest \<Rightarrow> icap_read_loop answers (r\<lparr>ir_mode := mode, ir_nb_to_send := remaining\<rparr>)
      | AtData \<Rightarrow> icap_read_loop answers r
      | AtEnd \<Rightarrow> Some (Icap_raises RuntimeError (r\<lparr>ir_point := Dead\<rparr>))
      | Dead \<Rightarrow> Some (Icap_raises RuntimeError r))"

definition icap_readData :: "recv_result list \<Rightarrow> icap_reader \<Rightarrow> icap_result option" where
  "icap_readData answers r = icap_read [] 0 answers r"

definition icap_readRelated :: "string \<Rightarrow> int \<Rightarrow> recv_result list \<Rightarrow> icap_reader \<Rightarrow> icap_result option" where
  "icap_readRelated mode remaining answers r = icap_read (if mode = [] then ''new-request'' else mode) remaining answers r"


section \<open>Writing\<close>

text \<open>
  The file is appended to the buffer when its name is sent and what is sent next goes in front of the
  buffer, that is in front of what was buffered before too.
\<close>

definition icap_write_send :: "string option \<Rightarrow> string option \<Rightarrow> send_result \<Rightarrow> writer \<Rightarrow> (write_status \<times> nat \<times> writer) res" where
  "icap_write_send file data answer w =
     (case w_point w of
        Unstarted \<Rightarrow>
          (case data of None \<Rightarrow> Inr (None, 0, w\<lparr>w_point := WaitFile\<rparr>) | Some _ \<Rightarrow> Inl TypeError)
      | WaitFile \<Rightarrow>
          (case data of
             None \<Rightarrow> Inr (None, 0, w\<lparr>w_point := WaitFirst, w_found := False\<rparr>)
           | Some filename \<Rightarrow>
               let w' = w\<lparr>w_point := WaitHeader, w_found := (file \<noteq> None),
                          w_buffer := w_buffer w @ (case file of None \<Rightarrow> [] | Some content \<Rightarrow> content)\<rparr> in
               Inr (found_status w', 0, w'))
      | WaitHeader \<Rightarrow>
          seq (or_raise TypeError data) (\<lambda>header.
          Inr (found_status w, 0, w\<lparr>w_point := WaitFirst, w_buffer := header @ w_buffer w\<rparr>))
      | WaitFirst \<Rightarrow> write_iteration data answer (w\<lparr>w_finished := False\<rparr>)
      | InLoop \<Rightarrow> write_iteration data answer w
      | Closing \<Rightarrow> Inr (None, 0, w\<lparr>w_point := Closed\<rparr>)
      | Closed \<Rightarrow> Inl RuntimeError)"

definition icap_startData :: "start_command \<Rightarrow> string option \<Rightarrow> send_result \<Rightarrow> bool \<Rightarrow> string \<Rightarrow> (write_status \<times> nat \<times> writer) res" where
  "icap_startData command file answer ipv4 buffer =
     (let w0 = write_init ipv4 buffer in
      case command of
        Stream data \<Rightarrow>
          seq (icap_write_send file None answer w0) (\<lambda>(_, _, w1). icap_write_send file data answer w1)
      | Close data \<Rightarrow>
          seq (icap_write_send file None answer w0) (\<lambda>(_, _, w1).
          seq (icap_write_send file data answer w1) (\<lambda>(_, sent, w2).
          seq (icap_write_send file None answer w2) (\<lambda>(res, sent', w3).
          Inr (res, sent + sent', w3))))
      | File header filename \<Rightarrow>
          seq (icap_write_send file (Some filename) answer w0) (\<lambda>(res, _, w1).
          seq (icap_write_send file (Some header) answer w1) (\<lambda>(_, _, w2).
          seq (icap_write_send file None answer w2) (\<lambda>(_, sent, w3).
          Inr (res, sent, w3))))
      | OtherCommand \<Rightarrow> Inr (None, 0, w0))"


section \<open>No request is ever read\<close>

text \<open>\<open>findEOR\<close> finds a separator in any buffer, two to five bytes after where it starts.\<close>

lemma findEOR_any:
  obtains e p where "findEOR b seek = (e, seek + p)" "e \<noteq> []" "2 \<le> p" "p \<le> 5"
proof -
  obtain tail where t: "py_from (max 0 (seek - 4 + 1)) b = tail" by blast
  show ?thesis
  proof (cases "py_find (CRLF @ CRLF) tail")
    case None
    then have "findEOR b seek = (CRLF @ CRLF, seek + 4)" using t by (simp add: findEOR_def)
    then show ?thesis by (rule that) simp_all
  next
    case (Some found)
    show ?thesis
    proof (cases "found < 4")
      case True
      then have "findEOR b seek = ([LF, LF], seek + (int found + 2))" using t Some by (simp add: findEOR_def)
      then show ?thesis by (rule that) (use True in simp_all)
    next
      case False
      then have "findEOR b seek = (CRLF @ CRLF, seek + 4)" using t Some by (simp add: findEOR_def)
      then show ?thesis by (rule that) simp_all
    qed
  qed
qed

lemma icap_separators_induct:
  assumes "icap_separators b seek e sp = Some x"
  shows "e \<noteq> [] \<longrightarrow> 0 \<le> sp \<longrightarrow>
    (\<exists>q. q \<ge> sp \<and> x = Inl (py_upto q b, py_from q b, 0) \<and> (q = sp \<or> count_quotes (py_upto sp b) \<noteq> 0))"
proof (rule icap_separators.raw_induct [OF _ assms])
  fix f b seek e sp x
  assume IH: "\<And>b seek e sp x. f b seek e sp = Some x \<Longrightarrow> e \<noteq> [] \<longrightarrow> 0 \<le> sp \<longrightarrow>
      (\<exists>q. q \<ge> sp \<and> x = Inl (py_upto q b, py_from q b, 0) \<and> (q = sp \<or> count_quotes (py_upto sp b) \<noteq> 0))"
    and body: "(if e \<noteq> [] then let buff = py_upto sp b in
          if count_quotes buff mod 2 = 0 then Some (Inl (buff, py_from sp b, 0))
          else f b sp (fst (findEOR b sp)) (snd (findEOR b sp)) else Some (Inr seek)) = Some x"
  obtain e' p where f: "findEOR b sp = (e', sp + p)" "e' \<noteq> []" "2 \<le> p" by (rule findEOR_any) blast
  show "e \<noteq> [] \<longrightarrow> 0 \<le> sp \<longrightarrow>
    (\<exists>q. q \<ge> sp \<and> x = Inl (py_upto q b, py_from q b, 0) \<and> (q = sp \<or> count_quotes (py_upto sp b) \<noteq> 0))"
  proof (intro impI)
    assume e: "e \<noteq> []" "0 \<le> sp"
    show "\<exists>q. q \<ge> sp \<and> x = Inl (py_upto q b, py_from q b, 0) \<and> (q = sp \<or> count_quotes (py_upto sp b) \<noteq> 0)"
    proof (cases "count_quotes (py_upto sp b) mod 2 = 0")
      case True
      with body e show ?thesis by auto
    next
      case False
      with body e f have "f b sp e' (sp + p) = Some x" by (simp add: Let_def)
      from IH [OF this] e f(2,3) obtain q where "q \<ge> sp + p" "x = Inl (py_upto q b, py_from q b, 0)"
        by (metis add_increasing2 order.trans zero_le_numeral)
      moreover have "count_quotes (py_upto sp b) \<noteq> 0" using False by auto
      ultimately show ?thesis using f(3) by (intro exI [of _ q]) simp
    qed
  qed
qed

text \<open>
  What \<open>checkRequest\<close> takes for a request at the start of a buffer is a piece of at most five bytes,
  or one with a quote in its first five bytes.
\<close>

lemma icap_checkRequest_Some:
  assumes "icap_checkRequest b limit 0 = Some t"
  shows "\<exists>q k. 2 \<le> k \<and> k \<le> 5 \<and> k \<le> q \<and> t = Some (take q b, drop q b, 0) \<and> (q = k \<or> DQUOTE \<in> set (take k b))"
proof -
  obtain e p where f: "findEOR b 0 = (e, p)" "e \<noteq> []" "2 \<le> p" "p \<le> 5"
    using findEOR_any [of b 0] by auto
  with assms obtain x where x: "icap_separators b 0 e p = Some x"
    "t = (case x of Inl t \<Rightarrow> Some t | Inr seek' \<Rightarrow> if limit \<noteq> 0 \<and> length b > limit then None else Some ([], b, seek'))"
    by (auto simp: icap_checkRequest_def simp del: neq0_conv)
  from icap_separators_induct [OF x(1)] f obtain q where
    q: "q \<ge> p" "x = Inl (py_upto q b, py_from q b, 0)" "q = p \<or> count_quotes (py_upto p b) \<noteq> 0"
    by (metis order.trans zero_le_numeral)
  have nn: "0 \<le> p" "0 \<le> q" using f(3) q(1) by simp_all
  then have "t = Some (take (nat q) b, drop (nat q) b, 0)" using x(2) q(2) by simp
  moreover have "q = p \<or> DQUOTE \<in> set (take (nat p) b)" using q(3) nn(1) count_quotes_none by auto
  ultimately show ?thesis using f(3,4) q(1) nn by (intro exI [of _ "nat q"] exI [of _ "nat p"]) auto
qed

lemma icap_mode_bad:
  assumes "2 \<le> k" "k \<le> 5" "k \<le> q" "q = k \<or> DQUOTE \<in> set (take k b)"
  shows "icap_mode (take q b) = ''bad''"
proof (rule ccontr)
  assume "icap_mode (take q b) \<noteq> ''bad''"
  then obtain word rest where m: "word \<in> {''OPTIONS'', ''REQMOD'', ''RESPMOD''}" "py_split1 '' '' (take q b) = Some (word, rest)
      \<or> py_split1 '' '' (take q b) = None \<and> take q b = word"
    by (auto simp: icap_mode_def Let_def split: if_splits option.splits)
  then have pre: "prefix word (take q b)" by (auto dest: py_split1_Some)
  moreover have len: "5 < length word" "DQUOTE \<notin> set word" using m(1) by auto
  ultimately have "k < q" using assms(2) by (auto dest!: prefix_length_le)
  then have "DQUOTE \<in> set (take k b)" using assms(4) by auto
  moreover have "take k b = take k word"
  proof -
    from pre obtain z where "take q b = word @ z" by (auto simp: prefix_def)
    then have "take k (take q b) = take k (word @ z)" by simp
    then show ?thesis using len(1) assms(2,3) by (simp add: min_absorb1)
  qed
  ultimately show False using len(2) by (metis in_set_takeD)
qed

text \<open>A piece of data whose only quote is its first byte sends the loop round for ever.\<close>

lemma icap_separators_returns:
  assumes "DQUOTE \<notin> set s" "icap_separators b seek e sp = Some x"
  shows "e \<noteq> [] \<longrightarrow> 0 < sp \<longrightarrow> b \<noteq> DQUOTE # s"
proof (rule icap_separators.raw_induct [OF _ assms(2)])
    fix f b seek e sp x
    assume IH: "\<And>b seek e sp x. f b seek e sp = Some x \<Longrightarrow> e \<noteq> [] \<longrightarrow> 0 < sp \<longrightarrow> b \<noteq> DQUOTE # s"
      and body: "(if e \<noteq> [] then let buff = py_upto sp b in
          if count_quotes buff mod 2 = 0 then Some (Inl (buff, py_from sp b, 0))
          else f b sp (fst (findEOR b sp)) (snd (findEOR b sp)) else Some (Inr seek)) = Some x"
    obtain e' p where f: "findEOR b sp = (e', sp + p)" "e' \<noteq> []" "2 \<le> p" by (rule findEOR_any) blast
    show "e \<noteq> [] \<longrightarrow> 0 < sp \<longrightarrow> b \<noteq> DQUOTE # s"
    proof (intro impI notI)
      assume a: "e \<noteq> []" "0 < sp" "b = DQUOTE # s"
      obtain k where "nat sp = Suc k" using a(2) by (cases "nat sp") auto
      then have "py_upto sp b = DQUOTE # take k s" using a(2,3) by simp
      moreover have "DQUOTE \<notin> set (take k s)" using assms(1) by (meson in_set_takeD)
      ultimately have "count_quotes (py_upto sp b) = 1"
        by (simp add: count_quotes_def py_count_absent [where c = DQUOTE])
      with body a(1) f have "f b sp e' (sp + p) = Some x" by (simp add: Let_def)
      with IH [OF this] f a show False by auto
    qed
  qed

lemma icap_separators_diverges:
  "DQUOTE \<notin> set s \<Longrightarrow> e \<noteq> [] \<Longrightarrow> 0 < sp \<Longrightarrow> icap_separators (DQUOTE # s) seek e sp = None"
  using icap_separators_returns by (cases "icap_separators (DQUOTE # s) seek e sp") blast+

text \<open>The state before a request has been read, in which the connection stays, and how it can leave it.\<close>

definition icap_waiting :: "icap_reader \<Rightarrow> bool" where
  "icap_waiting r \<longleftrightarrow> ir_mode r \<in> {''proxy'', ''icap''} \<and> ir_seek r = 0 \<and> ir_point r = AtData"

definition icap_useless :: "icap_result option \<Rightarrow> bool" where
  "icap_useless res \<longleftrightarrow>
     res = None \<or> res = Some Icap_starved
     \<or> (\<exists>r. res = Some (Icap_yields (Some []) (Some []) (Some []) r) \<and> icap_waiting r)
     \<or> (\<exists>r. res = Some (Icap_yields None None None r) \<and> ir_point r = AtEnd)"

lemma icap_useless_end [simp]: "icap_useless (Some (icap_end r))"
  by (simp add: icap_useless_def icap_end_def)

lemma icap_useless_nothing: "icap_waiting r \<Longrightarrow> icap_useless (Some (icap_nothing r))"
  by (simp add: icap_useless_def icap_nothing_def icap_waiting_def)

lemma icap_dispatch_useless:
  assumes "ir_mode r = ''icap''" "ir_seek r = 0"
  shows "icap_useless (icap_dispatch r)"
proof (cases "icap_checkRequest (lstrip_in CRLF (ir_buffer r)) (ir_max_buffer r) 0")
  case None
  with assms show ?thesis by (simp add: icap_dispatch_def processICAPRequest_def icap_useless_def)
next
  case (Some t)
  from icap_checkRequest_Some [OF this] obtain q k where
    t: "2 \<le> k" "k \<le> 5" "k \<le> q" "q = k \<or> DQUOTE \<in> set (take k (lstrip_in CRLF (ir_buffer r)))"
      "t = Some (take q (lstrip_in CRLF (ir_buffer r)), drop q (lstrip_in CRLF (ir_buffer r)), 0)" by blast
  note bad = icap_mode_bad [OF t(1-4)]
  show ?thesis
  proof (cases "take q (lstrip_in CRLF (ir_buffer r)) = []")
    case True
    let ?r = "r\<lparr>ir_buffer := drop q (lstrip_in CRLF (ir_buffer r)), ir_mode := ''icap'', ir_seek := 0, ir_icap_request := []\<rparr>"
    have "icap_dispatch r = Some (icap_nothing ?r)"
      using assms Some t(5) True by (simp add: icap_dispatch_def processICAPRequest_def icap_body_def icap_emit_def)
    then show ?thesis
      by (simp add: icap_useless_def icap_nothing_def icap_waiting_def)
  next
    case False
    then have "\<exists>r'. icap_dispatch r = Some (icap_end r')"
      using assms Some t(5) bad by (simp add: icap_dispatch_def processICAPRequest_def icap_body_def icap_process_def) blast
    then show ?thesis by auto
  qed
qed

lemma icap_read_loop_useless:
  "icap_waiting r \<Longrightarrow> icap_useless (icap_read_loop answers r)"
proof (induction answers arbitrary: r)
  case Nil
  then show ?case by (subst icap_read_loop.simps) (auto simp: icap_waiting_def icap_useless_def)
next
  case (Cons a answers)
  have new: "ir_mode r \<noteq> ''new-request''" using Cons.prems by (auto simp: icap_waiting_def)
  show ?case
  proof (cases a)
    case (Received new_data)
    define r1 where "r1 = r\<lparr>ir_buffer := ir_buffer r @ new_data\<rparr>"
    show ?thesis
    proof (cases "new_data = []")
      case True
      with new Received show ?thesis by (subst icap_read_loop.simps) simp
    next
      case False
      show ?thesis
      proof (cases "ir_mode r = ''proxy''")
        case True
        obtain masquerade buffer mode where p: "icap_processProxyHeader (ir_buffer r1) (ir_mode r1) = (masquerade, buffer, mode)"
          by (cases "icap_processProxyHeader (ir_buffer r1) (ir_mode r1)") auto
        then have m: "mode = ''icap'' \<or> masquerade = Some [] \<and> mode = ''proxy''"
          using True by (auto simp: icap_processProxyHeader_def Let_def r1_def split: if_splits prod.splits)
        define r2 where "r2 = r1\<lparr>ir_buffer := (case buffer of None \<Rightarrow> [] | Some b \<Rightarrow> b), ir_mode := mode\<rparr>"
        have r2: "icap_waiting r2" using m Cons.prems by (auto simp: icap_waiting_def r1_def r2_def)
        have "icap_read_loop (a # answers) r = (case masquerade of None \<Rightarrow> Some (icap_end r2)
            | Some ip \<Rightarrow> if ip = [] then icap_read_loop answers r2 else icap_dispatch (r2\<lparr>ir_peer := ip\<rparr>))"
          using Received False True p unfolding r2_def r1_def by (subst icap_read_loop.simps) (simp add: Let_def split: option.split)
        moreover have "icap_useless (icap_read_loop answers r2)" using r2 by (rule Cons.IH)
        moreover have "icap_useless (icap_dispatch (r2\<lparr>ir_peer := ip\<rparr>))" if "masquerade = Some ip" "ip \<noteq> []" for ip
          using m that r2 by (intro icap_dispatch_useless) (auto simp: icap_waiting_def r2_def)
        ultimately show ?thesis by (auto split: option.split)
      next
        case icap: False
        then have "icap_read_loop (a # answers) r = icap_dispatch r1"
          using Received False new by (subst icap_read_loop.simps) (simp add: r1_def Let_def)
        then show ?thesis using icap Cons.prems by (auto simp: icap_waiting_def r1_def intro: icap_dispatch_useless)
      qed
    qed
  next
    case WouldBlock
    with new icap_useless_nothing [OF Cons.prems] show ?thesis by (subst icap_read_loop.simps) simp
  next
    case SocketError
    with new show ?thesis by (subst icap_read_loop.simps) simp
  qed
qed

section \<open>Properties\<close>

text \<open>An ICAP connection never delivers a request, whatever it is sent: each read gives nothing and leaves the connection waiting, closes it, or never returns, as for any data whose only quote is its first byte.\<close>

theorem ICAPClient_never_reads:
  assumes "DQUOTE \<notin> set s"
  shows "icap_waiting (icap_read_init proxied peer limit)
    \<and> (icap_waiting r \<longrightarrow> icap_useless (icap_readData answers r))
    \<and> icap_readData [Received (DQUOTE # s)] (icap_read_init False peer limit) = None"
proof (intro conjI impI)
  show "icap_waiting (icap_read_init proxied peer limit)" by (simp add: icap_waiting_def icap_read_init_def)
  show "icap_useless (icap_readData answers r)" if "icap_waiting r"
    using icap_read_loop_useless [OF that] that by (simp add: icap_readData_def icap_read_def icap_waiting_def)
  obtain e p where f: "findEOR (DQUOTE # s) 0 = (e, p)" "e \<noteq> []" "2 \<le> p" by (rule findEOR_any [of "DQUOTE # s" 0]) simp
  then have "icap_checkRequest (DQUOTE # s) limit 0 = None"
    using icap_separators_diverges [OF assms f(2)] by (simp add: icap_checkRequest_def)
  then show "icap_readData [Received (DQUOTE # s)] (icap_read_init False peer limit) = None"
    by (simp add: icap_readData_def icap_read_def icap_read_init_def icap_read_loop.simps icap_dispatch_def
        processICAPRequest_def lstrip_in_def)
qed

theorem ICAPClient_never_reads_witness:
  "icap_useless (icap_readData [Received ''OPTIONS icap://a/ ICAP/1.0''] (icap_read_init False ''10.0.0.1'' 0))
   \<and> icap_readData [Received (DQUOTE # ''a'')] (icap_read_init False ''10.0.0.1'' 0) = None"
  using ICAPClient_never_reads [of "''a''" False "''10.0.0.1''" 0 "icap_read_init False ''10.0.0.1'' 0"
      "[Received ''OPTIONS icap://a/ ICAP/1.0'']"] by simp

end
