(* ===== verification/SteadyPoller.thy ===== *)
theory SteadyPoller
  imports Poller
begin

text \<open>
  The poller as the managers of connections use it: the six operations on their events, the contract
  that these never raise (locale \<open>steady_poller\<close>), and the proof that \<open>EPoller\<close> (\<open>lib/exaproxy/network/async/epoll.py\<close>)
  keeps it while the sockets are open.
\<close>

record 'p poller_ops =
  po_addRead :: "'p poller_op"
  po_removeRead :: "'p poller_op"
  po_corkRead :: "'p poller_op"
  po_uncorkRead :: "'p poller_op"
  po_addWrite :: "'p poller_op"
  po_removeWrite :: "'p poller_op"

text \<open>A poller whose operations on the given events never raise.\<close>

locale steady_poller =
  fixes events :: "event_name set" and po :: "'p poller_ops" and good :: "'p \<Rightarrow> bool"
  assumes steady: "good p \<Longrightarrow> name \<in> events \<Longrightarrow>
    f \<in> {po_addRead po, po_removeRead po, po_corkRead po, po_uncorkRead po, po_addWrite po, po_removeWrite po} \<Longrightarrow>
    \<exists>p'. f name s p = Inr p' \<and> good p'"

definition ep_ops :: "(sock \<Rightarrow> fd option) \<Rightarrow> epoller poller_ops" where
  "ep_ops fileno =
     \<lparr>po_addRead = (\<lambda>name s p. state_of (EPoller_addReadSocket fileno name s p)),
      po_removeRead = EPoller_removeReadSocket fileno,
      po_corkRead = (\<lambda>name s p. state_of (EPoller_corkReadSocket fileno name s p)),
      po_uncorkRead = (\<lambda>name s p. state_of (EPoller_uncorkReadSocket fileno name s p)),
      po_addWrite = (\<lambda>name s p. state_of (EPoller_addWriteSocket fileno name s p)),
      po_removeWrite = EPoller_removeWriteSocket fileno\<rparr>"

text \<open>The sockets are open, each with a descriptor of its own, and the events are set up.\<close>

definition ep_good :: "event_name set \<Rightarrow> (sock \<Rightarrow> fd option) \<Rightarrow> epoller \<Rightarrow> bool" where
  "ep_good events fileno p \<longleftrightarrow> inj fileno \<and> (\<forall>s. fileno s \<noteq> None) \<and> epoller_ok fileno p \<and> (\<forall>name \<in> events. ep_known name p)"

lemma ep_known_store: "ep_known n p \<Longrightarrow> ep_known n (ep_store i w p)" "ep_known n p \<Longrightarrow> ep_known n (p\<lparr>ep_errors := e\<rparr>)"
  by (auto simp: ep_known_def ep_entry_Inr ep_store_def)

lemma ep_good_store:
  "ep_good events fileno p \<Longrightarrow> entry_ok fileno w \<Longrightarrow> ep_good events fileno (ep_store i w p)"
  "ep_good events fileno p \<Longrightarrow> ep_good events fileno (forget_error s p)"
proof -
  show "ep_good events fileno p \<Longrightarrow> entry_ok fileno w \<Longrightarrow> ep_good events fileno (ep_store i w p)"
    by (auto simp: ep_good_def ep_known_store ep_store_ok)
  show "ep_good events fileno p \<Longrightarrow> ep_good events fileno (forget_error s p)"
    by (auto simp: ep_good_def forget_error_def ep_known_store epoller_ok_def)
qed

lemma ep_good_entry:
  assumes "ep_good events fileno p" "name \<in> events"
  obtains i w n where "ep_entry name p = Inr (i, w)" "entry_ok fileno w" "fileno s = Some n"
    "s \<notin> we_sockets w \<Longrightarrow> Some n \<notin> fileno ` we_sockets w"
proof -
  from assms obtain i w where iw: "ep_entry name p = Inr (i, w)" by (auto simp: ep_good_def ep_known_def)
  obtain n where n: "fileno s = Some n" using assms(1) by (auto simp: ep_good_def)
  have "Some n \<notin> fileno ` we_sockets w" if "s \<notin> we_sockets w"
  proof
    assume "Some n \<in> fileno ` we_sockets w"
    then obtain x where x: "x \<in> we_sockets w" "fileno x = fileno s" using n by auto
    moreover have "inj fileno" using assms(1) by (simp add: ep_good_def)
    ultimately show False using that by (metis injD)
  qed
  then show ?thesis using that iw n entry_ok_of [OF _ iw] assms(1) by (auto simp: ep_good_def)
qed

lemma entry_remove_corked:
  assumes "entry_ok fileno w" "s \<in> we_corked w" "fileno s = Some n"
  shows "entry_ok fileno (w\<lparr>we_fdtosock := (we_fdtosock w)(n := None), we_sockets := we_sockets w - {s},
      we_corked := we_corked w - {s}\<rparr>)" (is "entry_ok fileno ?w")
proof (rule entry_okI)
  have s: "s \<in> we_sockets w" using entry_okD(1) [OF assms(1)] assms(2) by blast
  have other: "t \<in> we_sockets w \<Longrightarrow> fileno t = Some n \<Longrightarrow> t = s" for t
    using entry_ok_inj [OF assms(1), of t s] assms(3) s by auto
  show "we_corked ?w \<subseteq> we_sockets ?w" using entry_okD(1) [OF assms(1)] by auto
  show "t \<in> we_sockets ?w \<Longrightarrow> fileno t \<noteq> None" for t using entry_okD(2) [OF assms(1), of t] by simp
  show "inj_on fileno (we_sockets ?w)" using entry_okD(3) [OF assms(1)] by (simp add: inj_on_diff)
  have "we_sockets w - {s} - (we_corked w - {s}) = we_sockets w - we_corked w" using assms(2) by auto
  then show "(we_kernel ?w m = None) = (\<forall>t \<in> we_sockets ?w - we_corked ?w. fileno t \<noteq> Some m)" for m
    using entry_okD(4) [OF assms(1), of m] by simp
  show "(we_fdtosock ?w m = None) = (\<forall>t \<in> we_sockets ?w. fileno t \<noteq> Some m)" for m
    using entry_okD(5) [OF assms(1), of m] other assms(3) by (cases "m = n") auto
qed

lemma ep_add_steady:
  assumes "ep_good events fileno p" "name \<in> events"
  shows "\<exists>p'. state_of (EPoller_add ev fileno name s p) = Inr p' \<and> ep_good events fileno p'"
proof -
  obtain i w n where e: "ep_entry name p = Inr (i, w)" "entry_ok fileno w" "fileno s = Some n"
    "s \<notin> we_sockets w \<Longrightarrow> Some n \<notin> fileno ` we_sockets w" using ep_good_entry [OF assms] by blast
  show ?thesis
  proof (cases "s \<in> we_sockets w")
    case True
    then show ?thesis using e assms(1) by (simp add: EPoller_add_def)
  next
    case False
    note add = entry_added [OF e(2,3) e(4) [OF False]]
    have "state_of (EPoller_add ev fileno name s p)
      = Inr (ep_store i (w\<lparr>we_kernel := (we_kernel w)(n \<mapsto> ev), we_sockets := insert s (we_sockets w),
          we_fdtosock := (we_fdtosock w)(n \<mapsto> s)\<rparr>) p)"
      using e False add(2) by (simp add: EPoller_add_def kernel_register_def)
    moreover have "entry_ok fileno (w\<lparr>we_kernel := (we_kernel w)(n \<mapsto> ev), we_sockets := insert s (we_sockets w),
          we_fdtosock := (we_fdtosock w)(n \<mapsto> s)\<rparr>)" using add(1) [of ev] by (simp add: entry_ok_def)
    ultimately show ?thesis using ep_good_store(1) [OF assms(1)] by blast
  qed
qed

lemma ep_remove_steady:
  assumes "ep_good events fileno p" "name \<in> events"
  shows "\<exists>p'. EPoller_remove fileno name s p = Inr p' \<and> ep_good events fileno p'"
proof -
  obtain i w n where e: "ep_entry name p = Inr (i, w)" "entry_ok fileno w" "fileno s = Some n"
    using ep_good_entry [OF assms] by metis
  consider (absent) "s \<notin> we_sockets w" | (corked) "s \<in> we_corked w" | (watched) "s \<in> we_sockets w - we_corked w" by blast
  then show ?thesis
  proof cases
    case absent
    then show ?thesis using e ep_good_store(2) [OF assms(1)] by (simp add: EPoller_remove_def)
  next
    case corked
    then have s: "s \<in> we_sockets w" using entry_okD(1) [OF e(2)] by blast
    have "EPoller_remove fileno name s p = Inr (forget_error s (ep_store i (w\<lparr>we_fdtosock := (we_fdtosock w)(n := None),
        we_sockets := we_sockets w - {s}, we_corked := we_corked w - {s}\<rparr>) p))"
      using e(1,3) corked s by (simp add: EPoller_remove_def)
    then show ?thesis
      using ep_good_store(2) [OF ep_good_store(1) [OF assms(1) entry_remove_corked [OF e(2) corked e(3)]]] by blast
  next
    case watched
    note r = entry_removed [OF e(2) watched e(3)]
    have "EPoller_remove fileno name s p = Inr (forget_error s (ep_store i (w\<lparr>we_fdtosock := (we_fdtosock w)(n := None),
        we_sockets := we_sockets w - {s}, we_kernel := (we_kernel w)(n := None)\<rparr>) p))"
      using e(1,3) watched r(2) by (auto simp: EPoller_remove_def kernel_unregister_def Let_def)
    then show ?thesis using ep_good_store(2) [OF ep_good_store(1) [OF assms(1) r(1)]] by blast
  qed
qed

lemma ep_cork_steady:
  assumes "ep_good events fileno p" "name \<in> events"
  shows "\<exists>p'. state_of (EPoller_cork fileno name s p) = Inr p' \<and> ep_good events fileno p'"
proof -
  obtain i w n where e: "ep_entry name p = Inr (i, w)" "entry_ok fileno w" "fileno s = Some n"
    using ep_good_entry [OF assms] by metis
  show ?thesis
  proof (cases "s \<in> we_sockets w - we_corked w")
    case True
    note c = entry_corked [OF e(2) True e(3)]
    have "state_of (EPoller_cork fileno name s p)
      = Inr (ep_store i (w\<lparr>we_kernel := (we_kernel w)(n := None), we_corked := insert s (we_corked w)\<rparr>) p)"
      using e(1,3) True c(2) by (auto simp: EPoller_cork_def kernel_unregister_def)
    then show ?thesis using ep_good_store(1) [OF assms(1) c(1)] by blast
  qed (use e assms(1) in \<open>auto simp: EPoller_cork_def\<close>)
qed

lemma ep_uncork_steady:
  assumes "ep_good events fileno p" "name \<in> events"
  shows "\<exists>p'. state_of (EPoller_uncork ev fileno name s p) = Inr p' \<and> ep_good events fileno p'"
proof -
  obtain i w n where e: "ep_entry name p = Inr (i, w)" "entry_ok fileno w" "fileno s = Some n"
    using ep_good_entry [OF assms] by metis
  show ?thesis
  proof (cases "s \<in> we_corked w")
    case True
    note u = entry_uncorked [OF e(2) True e(3)]
    have "state_of (EPoller_uncork ev fileno name s p)
      = Inr (ep_store i (w\<lparr>we_corked := we_corked w - {s}, we_kernel := (we_kernel w)(n \<mapsto> ev)\<rparr>) p)"
      using e(1,3) True u(2,3) by (simp add: EPoller_uncork_def kernel_register_def)
    then show ?thesis using ep_good_store(1) [OF assms(1) u(1)] by blast
  qed (use e assms(1) in \<open>auto simp: EPoller_uncork_def\<close>)
qed

lemma ep_steady: "steady_poller events (ep_ops fileno) (ep_good events fileno)"
  by unfold_locales
     (auto simp: ep_ops_def EPoller_addReadSocket_def EPoller_removeReadSocket_def EPoller_corkReadSocket_def
        EPoller_uncorkReadSocket_def EPoller_addWriteSocket_def EPoller_removeWriteSocket_def
        ep_add_steady ep_remove_steady ep_cork_steady ep_uncork_steady)

interpretation epoll_ops: steady_poller events "ep_ops fileno" "ep_good events fileno" for events fileno
  by (rule ep_steady)

end
