(* ===== verification/ClientManager.thy ===== *)
theory ClientManager
  imports StreamClient SteadyPoller
begin

text \<open>
  \<open>lib/exaproxy/util/cache.py\<close> and \<open>lib/exaproxy/reactor/client/manager.py\<close>: the table of the client
  connections, from the opening of a connection to its cleaning up. The connections themselves
  (\<open>http.py\<close>, \<open>icap.py\<close>, \<open>tls.py\<close>, \<open>passthrough.py\<close>) are used through their operations, whose contract is
  the locale \<open>client_connection\<close>, and so is the poller (locale \<open>steady_poller\<close>).
\<close>

section \<open>The cache of util/cache.py\<close>

text \<open>\<open>tc_time\<close> is an \<open>OrderedDict\<close>: in order of insertion, and a key that is set again keeps its place.\<close>

record ('k, 'v) time_cache =
  tc_timeout :: int
  tc_last :: "('k \<times> int) option"
  tc_time :: "('k \<times> int) list"
  tc_dict :: "'k \<rightharpoonup> 'v"

definition TimeCache_init :: "int \<Rightarrow> ('k, 'v) time_cache" where
  "TimeCache_init timeout = \<lparr>tc_timeout = timeout, tc_last = None, tc_time = [], tc_dict = Map.empty\<rparr>"

definition TimeCache_setitem :: "int \<Rightarrow> 'k \<Rightarrow> 'v \<Rightarrow> ('k, 'v) time_cache \<Rightarrow> ('k, 'v) time_cache" where
  "TimeCache_setitem now k v c =
     c\<lparr>tc_dict := (tc_dict c)(k \<mapsto> v),
       tc_time := (if tc_timeout c > 0 then AList.update k now (tc_time c) else tc_time c)\<rparr>"

definition TimeCache_delitem :: "'k \<Rightarrow> ('k, 'v) time_cache \<Rightarrow> ('k, 'v) time_cache res" where
  "TimeCache_delitem k c =
     (if tc_dict c k = None then Inl KeyError
      else Inr (c\<lparr>tc_time := AList.delete k (tc_time c), tc_dict := (tc_dict c)(k := None)\<rparr>))"

text \<open>\<open>pop\<close> with a default never raises.\<close>

definition TimeCache_pop :: "'k \<Rightarrow> ('k, 'v) time_cache \<Rightarrow> ('k, 'v) time_cache" where
  "TimeCache_pop k c = c\<lparr>tc_time := AList.delete k (tc_time c), tc_dict := (tc_dict c)(k := None)\<rparr>"

text \<open>
  \<open>expired\<close> is a generator. Its loop up to the next \<open>yield\<close>: the key yielded (\<open>None\<close> at the end), what
  is left of \<open>maximum\<close>, and the cache.
\<close>

function expired_loop :: "int \<Rightarrow> int \<Rightarrow> ('k, 'v) time_cache \<Rightarrow> 'k option \<times> int \<times> ('k, 'v) time_cache" where
  "expired_loop expire maximum c =
     (case tc_time c of
        [] \<Rightarrow> (None, maximum, c)
      | (k, t) # rest \<Rightarrow>
          if maximum = 0 then (None, maximum, c)
          else
            let c1 = c\<lparr>tc_time := rest\<rparr> in
            if t > expire then (None, maximum, c1\<lparr>tc_last := Some (k, t)\<rparr>)
            else if tc_dict c1 k \<noteq> None then (Some k, maximum - 1, c1)
            else expired_loop expire maximum c1)"
  by pat_completeness auto
termination by (relation "measure (\<lambda>(_, _, c). length (tc_time c))") auto

declare expired_loop.simps [simp del]

text \<open>
  What comes before the loop: whether the generator ends there, and the key it yields first.
\<close>

datatype 'k expired_first = Ends | Yields_last 'k | Goes_on

definition expired_first :: "int \<Rightarrow> ('k, 'v) time_cache \<Rightarrow> 'k expired_first" where
  "expired_first expire c =
     (case tc_last c of
        None \<Rightarrow> Goes_on
      | Some (k, t) \<Rightarrow> if t > expire then Ends else if tc_dict c k \<noteq> None then Yields_last k else Goes_on)"

section \<open>The client manager\<close>

record 'c connection =
  cn_name :: string
  cn_sock :: sock
  cn_state :: 'c

record ('c, 'p) clients =
  cm_total_sent4 :: int
  cm_total_sent6 :: int
  cm_total_requested :: int
  cm_norequest :: "(sock, 'c connection \<times> string) time_cache"
  cm_bysock :: "sock \<rightharpoonup> 'c connection \<times> string"
  cm_byname :: "string \<rightharpoonup> sock"
  cm_buffered :: "sock list"
  cm_nextid :: nat
  cm_poller :: 'p

definition ClientManager_init :: "int \<Rightarrow> 'p \<Rightarrow> ('c, 'p) clients" where
  "ClientManager_init idle_connect p =
     \<lparr>cm_total_sent4 = 0, cm_total_sent6 = 0, cm_total_requested = 0, cm_norequest = TimeCache_init idle_connect,
      cm_bysock = Map.empty, cm_byname = Map.empty, cm_buffered = [], cm_nextid = 0, cm_poller = p\<rparr>"

text \<open>
  What \<open>readData\<close> and \<open>readRelated\<close> return, \<open>None\<close> being what a connection that has ended yields. The
  operations of a connection depend on an environment \<open>'e\<close> (what the socket and the files answer), and
  those that write return the status of the writing coroutine.
\<close>

record client_read =
  cr_accept_addr :: string
  cr_accept_port :: int
  cr_peer :: string
  cr_request :: "string option"
  cr_subrequest :: "string option"
  cr_content :: "string option"

record ('e, 'c, 'd) client_ops =
  co_readData :: "'e \<Rightarrow> 'c \<Rightarrow> (client_read \<times> 'c) res"
  co_readRelated :: "'e \<Rightarrow> string \<Rightarrow> int \<Rightarrow> 'c \<Rightarrow> (client_read \<times> 'c) res"
  co_writeData :: "'e \<Rightarrow> string option \<Rightarrow> 'c \<Rightarrow> (write_status \<times> 'c) res"
  co_startData :: "'e \<Rightarrow> string \<Rightarrow> 'd \<Rightarrow> 'c \<Rightarrow> (write_status \<times> 'c) res"

definition read_client :: event_name where "read_client = ''read_client''"
definition opening_client :: event_name where "opening_client = ''opening_client''"
definition write_client :: event_name where "write_client = ''write_client''"

definition cm_contains :: "sock \<Rightarrow> ('c, 'p) clients \<Rightarrow> bool" where
  "cm_contains sock m \<longleftrightarrow> cm_bysock m sock \<noteq> None"

definition cm_lookupSocket :: "string \<Rightarrow> ('c, 'p) clients \<Rightarrow> sock option" where
  "cm_lookupSocket name m = cm_byname m name"

definition cm_getnextid :: "('c, 'p) clients \<Rightarrow> string \<times> ('c, 'p) clients" where
  "cm_getnextid m = (show_nat (cm_nextid m + 1), m\<lparr>cm_nextid := cm_nextid m + 1\<rparr>)"

text \<open>An operation of the poller on behalf of the manager.\<close>

definition on_poller :: "('p \<Rightarrow> 'p res) \<Rightarrow> ('c, 'p) clients \<Rightarrow> ('c, 'p) clients res" where
  "on_poller f m = seq (f (cm_poller m)) (\<lambda>p. Inr (m\<lparr>cm_poller := p\<rparr>))"

text \<open>
  A new connection that has to send a request first. \<open>new_client\<close> is the constructor of the class, which is
  what the three kinds differ in, and \<open>now\<close> the time.
\<close>

definition opening_connection :: "'p poller_ops \<Rightarrow> (string \<Rightarrow> 'c) \<Rightarrow> int \<Rightarrow> sock \<Rightarrow> string \<Rightarrow> ('c, 'p) clients \<Rightarrow>
    ('c, 'p) clients res" where
  "opening_connection po new_client now sock source m =
     (let (name, m1) = cm_getnextid m;
          client = \<lparr>cn_name = name, cn_sock = sock, cn_state = new_client name\<rparr>;
          m2 = m1\<lparr>cm_norequest := TimeCache_setitem now sock (client, source) (cm_norequest m1),
                  cm_byname := (cm_byname m1)(name \<mapsto> sock)\<rparr>
      in on_poller (po_addRead po opening_client (cn_sock client)) m2)"

definition cm_httpConnection :: "'p poller_ops \<Rightarrow> (string \<Rightarrow> 'c) \<Rightarrow> int \<Rightarrow> sock \<Rightarrow> string \<Rightarrow> ('c, 'p) clients \<Rightarrow>
    ('c, 'p) clients res" where
  "cm_httpConnection = opening_connection"

definition cm_icapConnection :: "'p poller_ops \<Rightarrow> (string \<Rightarrow> 'c) \<Rightarrow> int \<Rightarrow> sock \<Rightarrow> string \<Rightarrow> ('c, 'p) clients \<Rightarrow>
    ('c, 'p) clients res" where
  "cm_icapConnection = opening_connection"

definition cm_tlsConnection :: "'p poller_ops \<Rightarrow> (string \<Rightarrow> 'c) \<Rightarrow> int \<Rightarrow> sock \<Rightarrow> string \<Rightarrow> ('c, 'p) clients \<Rightarrow>
    ('c, 'p) clients res" where
  "cm_tlsConnection = opening_connection"

definition cm_passthroughConnection :: "'p poller_ops \<Rightarrow> (string \<Rightarrow> 'c) \<Rightarrow> sock \<Rightarrow> string \<Rightarrow> ('c, 'p) clients \<Rightarrow>
    (string \<times> ('c, 'p) clients) res" where
  "cm_passthroughConnection po new_client sock source m =
     (let (name, m1) = cm_getnextid m;
          client = \<lparr>cn_name = name, cn_sock = sock, cn_state = new_client name\<rparr>;
          m2 = m1\<lparr>cm_bysock := (cm_bysock m1)(sock \<mapsto> (client, source)), cm_byname := (cm_byname m1)(name \<mapsto> sock)\<rparr>
      in seq (on_poller (po_addRead po read_client (cn_sock client)) m2) (\<lambda>m3. Inr (name, m3)))"

definition cm_client :: "sock \<Rightarrow> ('c, 'p) clients \<Rightarrow> 'c connection option" where
  "cm_client sock m =
     (case cm_bysock m sock of Some (c, _) \<Rightarrow> Some c | None \<Rightarrow> map_option fst (tc_dict (cm_norequest m) sock))"

definition cm_cleanup :: "'p poller_ops \<Rightarrow> sock \<Rightarrow> string \<Rightarrow> ('c, 'p) clients \<Rightarrow> ('c, 'p) clients res" where
  "cm_cleanup po sock name m =
     (let m1 = m\<lparr>cm_bysock := (cm_bysock m)(sock := None), cm_norequest := TimeCache_pop sock (cm_norequest m),
                 cm_byname := (cm_byname m)(name := None)\<rparr> in
      seq (case cm_client sock m of
             Some c \<Rightarrow>
               seq (on_poller (po_removeWrite po write_client (cn_sock c)) m1) (\<lambda>m2.
               seq (on_poller (po_removeRead po read_client (cn_sock c)) m2) (\<lambda>m3.
               on_poller (po_removeRead po opening_client (cn_sock c)) m3))
           | None \<Rightarrow> Inr m1) (\<lambda>m4.
      Inr (m4\<lparr>cm_buffered := remove1 sock (cm_buffered m4)\<rparr>)))"

text \<open>The object of a connection is changed in place.\<close>

definition opening_changed :: "sock \<Rightarrow> 'c connection \<times> string \<Rightarrow> ('c, 'p) clients \<Rightarrow> ('c, 'p) clients" where
  "opening_changed sock entry m =
     m\<lparr>cm_norequest := (cm_norequest m)\<lparr>tc_dict := (tc_dict (cm_norequest m))(sock \<mapsto> entry)\<rparr>\<rparr>"

definition active_changed :: "sock \<Rightarrow> 'c connection \<times> string \<Rightarrow> ('c, 'p) clients \<Rightarrow> ('c, 'p) clients" where
  "active_changed sock entry m = m\<lparr>cm_bysock := (cm_bysock m)(sock \<mapsto> entry)\<rparr>"

text \<open>\<open>readRequest\<close>: the name, what was read and the source; \<open>None\<close> when there is no such client.\<close>

definition cm_readRequest :: "'p poller_ops \<Rightarrow> ('e, 'c, 'd) client_ops \<Rightarrow> 'e \<Rightarrow> sock \<Rightarrow> ('c, 'p) clients \<Rightarrow>
    ((string \<times> client_read \<times> string) option \<times> ('c, 'p) clients) res" where
  "cm_readRequest po co e sock m =
     (case tc_dict (cm_norequest m) sock of
        None \<Rightarrow> Inr (None, m)
      | Some (client, source) \<Rightarrow>
          seq (co_readData co e (cn_state client)) (\<lambda>(d, st).
          let client' = client\<lparr>cn_state := st\<rparr> in
          seq (case cr_request d of
                 None \<Rightarrow> cm_cleanup po sock (cn_name client) m
               | Some request \<Rightarrow>
                   if request \<noteq> [] then
                     let m1 = m\<lparr>cm_total_requested := cm_total_requested m + 1,
                                cm_norequest := TimeCache_pop sock (cm_norequest m),
                                cm_bysock := (cm_bysock m)(sock \<mapsto> (client', source))\<rparr> in
                     seq (on_poller (po_addRead po read_client (cn_sock client)) m1) (\<lambda>m2.
                     seq (on_poller (po_removeRead po opening_client (cn_sock client)) m2) (\<lambda>m3.
                     on_poller (po_corkRead po read_client sock) m3))
                   else Inr (opening_changed sock (client', source) m)) (\<lambda>m'.
          Inr (Some (cn_name client, d, source), m'))))"

definition cm_readData :: "'p poller_ops \<Rightarrow> ('e, 'c, 'd) client_ops \<Rightarrow> 'e \<Rightarrow> sock \<Rightarrow> ('c, 'p) clients \<Rightarrow>
    ((string \<times> client_read \<times> string) option \<times> ('c, 'p) clients) res" where
  "cm_readData po co e sock m =
     (case cm_bysock m sock of
        None \<Rightarrow> Inr (None, m)
      | Some (client, source) \<Rightarrow>
          seq (co_readData co e (cn_state client)) (\<lambda>(d, st).
          let m1 = active_changed sock (client\<lparr>cn_state := st\<rparr>, source) m in
          seq (case cr_request d of
                 None \<Rightarrow> cm_cleanup po sock (cn_name client) m1
               | Some request \<Rightarrow>
                   if request \<noteq> [] then
                     on_poller (po_corkRead po read_client sock) (m1\<lparr>cm_total_requested := cm_total_requested m1 + 1\<rparr>)
                   else Inr m1) (\<lambda>m'.
          Inr (Some (cn_name client, d, source), m'))))"

text \<open>\<open>sendData\<close>: \<open>result\<close>, \<open>buffer_change\<close>, the name and the source.\<close>

definition cm_sendData :: "'p poller_ops \<Rightarrow> ('e, 'c, 'd) client_ops \<Rightarrow> 'e \<Rightarrow> sock \<Rightarrow> string option \<Rightarrow> ('c, 'p) clients \<Rightarrow>
    ((bool option \<times> bool option \<times> string option \<times> string option) \<times> ('c, 'p) clients) res" where
  "cm_sendData po co e sock data m =
     (case cm_bysock m sock of
        None \<Rightarrow> Inr ((None, None, None, None), m)
      | Some (client, source) \<Rightarrow>
          seq (co_writeData co e data (cn_state client)) (\<lambda>(res, st).
          let m1 = active_changed sock (client\<lparr>cn_state := st\<rparr>, source) m in
          case res of
            None \<Rightarrow>
              seq (cm_cleanup po sock (cn_name client) m1) (\<lambda>m2.
              Inr ((None, Some False, Some (cn_name client), Some source), m2))
          | Some (buffered, had_buffer, sent4, sent6) \<Rightarrow>
              let m2 = m1\<lparr>cm_total_sent4 := cm_total_sent4 m1 + int sent4, cm_total_sent6 := cm_total_sent6 m1 + int sent6\<rparr> in
              if buffered then
                if sock \<notin> set (cm_buffered m2) then
                  seq (on_poller (po_addWrite po write_client (cn_sock client))
                         (m2\<lparr>cm_buffered := cm_buffered m2 @ [sock]\<rparr>)) (\<lambda>m3.
                  Inr ((Some buffered, Some True, Some (cn_name client), Some source), m3))
                else Inr ((Some buffered, Some False, Some (cn_name client), Some source), m2)
              else if had_buffer \<and> sock \<in> set (cm_buffered m2) then
                seq (on_poller (po_removeWrite po write_client (cn_sock client))
                       (m2\<lparr>cm_buffered := remove1 sock (cm_buffered m2)\<rparr>)) (\<lambda>m3.
                Inr ((Some buffered, Some True, Some (cn_name client), Some source), m3))
              else Inr ((Some buffered, Some False, Some (cn_name client), Some source), m2)))"

text \<open>
  \<open>parseRemaining\<close>: what a decision says about the rest of the request. In Python 2 \<open>None\<close> is less than
  every number.
\<close>

datatype remaining = RemainingText string | RemainingBytes int | RemainingNone

definition cm_parseRemaining :: "remaining \<Rightarrow> string \<times> int" where
  "cm_parseRemaining r =
     (case r of
        RemainingText s \<Rightarrow> (if s = ''chunked'' then ''chunked'' else ''passthrough'', 0)
      | RemainingBytes n \<Rightarrow> if n > 0 then (''transfer'', n) else if n = 0 then ([], 0) else (''passthrough'', 0)
      | RemainingNone \<Rightarrow> (''passthrough'', 0))"

text \<open>
  The end of \<open>startData\<close>: the socket enters or leaves the list of those with data to send. Taking out
  of the list what is not in it raises \<open>ValueError\<close>.
\<close>

definition start_buffered :: "'p poller_ops \<Rightarrow> sock \<Rightarrow> bool \<Rightarrow> bool \<Rightarrow> ('c, 'p) clients \<Rightarrow> ('c, 'p) clients res" where
  "start_buffered po sock buffered had_buffer m =
     (if buffered \<and> \<not> had_buffer then
        on_poller (po_addWrite po write_client sock) (m\<lparr>cm_buffered := cm_buffered m @ [sock]\<rparr>)
      else if \<not> buffered \<and> had_buffer then
        (if sock \<in> set (cm_buffered m)
         then on_poller (po_removeWrite po write_client sock) (m\<lparr>cm_buffered := remove1 sock (cm_buffered m)\<rparr>)
         else Inl ValueError)
      else Inr m)"

text \<open>
  \<open>startData\<close>: \<open>data\<close> is the pair of the command and its data; \<open>None\<close> is what is no pair, whose
  exception is caught. The content and the source.
\<close>

definition cm_startData :: "'p poller_ops \<Rightarrow> ('e, 'c, 'd) client_ops \<Rightarrow> 'e \<Rightarrow> sock \<Rightarrow> (string option \<times> 'd) option \<Rightarrow>
    remaining \<Rightarrow> ('c, 'p) clients \<Rightarrow> ((string option \<times> string option) \<times> ('c, 'p) clients) res" where
  "cm_startData po co e sock data remaining m =
     (case (cm_bysock m sock, data) of
        (Some (client, source), Some (Some command, d)) \<Rightarrow>
          let (mode, nb_to_read) = cm_parseRemaining remaining in
          seq (co_startData co e command d (cn_state client)) (\<lambda>(res, st1).
          case res of
            None \<Rightarrow>
              seq (cm_cleanup po (cn_sock client) (cn_name client) m) (\<lambda>m'. Inr ((None, Some source), m'))
          | Some (buffered, had_buffer, sent4, sent6) \<Rightarrow>
              seq (co_readRelated co e mode nb_to_read st1) (\<lambda>(r, st2).
              seq (on_poller (po_uncorkRead po read_client (cn_sock client))
                     (active_changed sock (client\<lparr>cn_state := st2\<rparr>, source) m)) (\<lambda>m1.
              let m2 = m1\<lparr>cm_total_sent4 := cm_total_sent4 m1 + int sent4, cm_total_sent6 := cm_total_sent6 m1 + int sent6\<rparr> in
              case cr_request r of
                None \<Rightarrow>
                  seq (cm_cleanup po (cn_sock client) (cn_name client) m2) (\<lambda>m3. Inr ((None, Some source), m3))
              | Some request \<Rightarrow>
                  if request \<noteq> [] then
                    seq (cm_cleanup po (cn_sock client) (cn_name client)
                           (m2\<lparr>cm_total_requested := cm_total_requested m2 + 1\<rparr>)) (\<lambda>m3.
                    Inr ((None, Some source), m3))
                  else
                    seq (start_buffered po (cn_sock client) buffered had_buffer m2) (\<lambda>m3.
                    Inr ((cr_content r, Some source), m3)))))
      | (entry, _) \<Rightarrow> Inr ((None, map_option snd entry), m))"

definition cm_corkUpload :: "'p poller_ops \<Rightarrow> sock \<Rightarrow> ('c, 'p) clients \<Rightarrow> ('c, 'p) clients res" where
  "cm_corkUpload po sock m = (if cm_contains sock m then on_poller (po_corkRead po read_client sock) m else Inr m)"

definition cm_uncorkUpload :: "'p poller_ops \<Rightarrow> sock \<Rightarrow> ('c, 'p) clients \<Rightarrow> ('c, 'p) clients res" where
  "cm_uncorkUpload po sock m = (if cm_contains sock m then on_poller (po_uncorkRead po read_client sock) m else Inr m)"

definition cm_softstop :: "('c, 'p) clients \<Rightarrow> bool" where
  "cm_softstop m \<longleftrightarrow> dom (cm_byname m) = {} \<and> dom (tc_dict (cm_norequest m)) = {}"

text \<open>
  \<open>stop\<close>, with the effect of the clears on the poller. \<open>norequest\<close> becomes a plain dictionary, which has
  no \<open>expired\<close>; the operations below are those of a manager that has not been stopped.
\<close>

definition cm_stop :: "(event_name \<Rightarrow> 'p \<Rightarrow> 'p res) \<Rightarrow> (event_name \<Rightarrow> 'p \<Rightarrow> 'p res) \<Rightarrow> ('c, 'p) clients \<Rightarrow> ('c, 'p) clients res" where
  "cm_stop clearRead clearWrite m =
     seq (on_poller (clearRead read_client) m) (\<lambda>m1.
     seq (on_poller (clearRead opening_client) m1) (\<lambda>m2.
     seq (on_poller (clearWrite write_client) m2) (\<lambda>m3.
     Inr (m3\<lparr>cm_bysock := Map.empty, cm_norequest := (cm_norequest m3)\<lparr>tc_dict := Map.empty, tc_time := [], tc_last := None\<rparr>,
             cm_byname := Map.empty, cm_buffered := []\<rparr>))))"


text \<open>
  \<open>expire\<close>: every key the generator yields is cleaned up before the generator goes on; the loop of the
  generator takes an entry out of the times at each step and cleaning up puts none in.
\<close>

lemma expired_loop_time:
  "expired_loop expire maximum c = (Some k, maximum', c') \<Longrightarrow> length (tc_time c') < length (tc_time c)"
proof (induction expire maximum c rule: expired_loop.induct)
  case (1 expire maximum c)
  show ?case
  proof (cases "tc_time c")
    case Nil
    with "1.prems" show ?thesis by (simp add: expired_loop.simps)
  next
    case (Cons x rest)
    obtain k' t where x: "x = (k', t)" by (cases x)
    let ?c = "c\<lparr>tc_time := rest\<rparr>"
    from "1.prems" Cons x have
      "maximum \<noteq> 0" "\<not> t > expire" "if tc_dict c k' \<noteq> None then c' = ?c else expired_loop expire maximum ?c = (Some k, maximum', c')"
      by (auto simp: expired_loop.simps [of expire maximum c] Let_def split: if_splits)
    with "1.IH" [OF Cons x [symmetric]] Cons show ?thesis by (auto split: if_splits)
  qed
qed

lemma on_poller_Inr: "on_poller f m = Inr m' \<Longrightarrow> \<exists>p. f (cm_poller m) = Inr p \<and> m' = m\<lparr>cm_poller := p\<rparr>"
  by (auto simp: on_poller_def seq_eq_Inr_iff)

lemma cm_cleanup_Inr:
  assumes "cm_cleanup po sock name m = Inr m'"
  shows "cm_bysock m' = (cm_bysock m)(sock := None) \<and> cm_norequest m' = TimeCache_pop sock (cm_norequest m)
    \<and> cm_byname m' = (cm_byname m)(name := None) \<and> cm_buffered m' = remove1 sock (cm_buffered m) \<and> cm_nextid m' = cm_nextid m"
  using assms by (auto simp: cm_cleanup_def seq_eq_Inr_iff Let_def split: option.splits dest!: on_poller_Inr)

lemma cm_cleanup_time: "cm_cleanup po sock name m = Inr m' \<Longrightarrow> length (tc_time (cm_norequest m')) \<le> length (tc_time (cm_norequest m))"
  by (drule cm_cleanup_Inr) (simp add: TimeCache_pop_def AList.delete_eq)

definition expire_client :: "'p poller_ops \<Rightarrow> sock \<Rightarrow> (string \<rightharpoonup> nat) \<Rightarrow> ('c, 'p) clients \<Rightarrow>
    ((string \<rightharpoonup> nat) \<times> ('c, 'p) clients) res" where
  "expire_client po sock counts m =
     (case tc_dict (cm_norequest m) sock of
        None \<Rightarrow> Inr (counts, m)
      | Some (client, source) \<Rightarrow>
          seq (cm_cleanup po sock (cn_name client) m) (\<lambda>m'.
          Inr (counts(source \<mapsto> dict_get counts source 0 + 1), m')))"

lemma expire_client_time:
  "expire_client po sock counts m = Inr (counts', m') \<Longrightarrow> length (tc_time (cm_norequest m')) \<le> length (tc_time (cm_norequest m))"
  by (auto simp: expire_client_def seq_eq_Inr_iff split: option.splits dest: cm_cleanup_time)

function expire_run :: "'p poller_ops \<Rightarrow> int \<Rightarrow> int \<Rightarrow> (string \<rightharpoonup> nat) \<Rightarrow> ('c, 'p) clients \<Rightarrow>
    ((string \<rightharpoonup> nat) \<times> ('c, 'p) clients) res" where
  "expire_run po expire maximum counts m =
     (case expired_loop expire maximum (cm_norequest m) of
        (None, _, c) \<Rightarrow> Inr (counts, m\<lparr>cm_norequest := c\<rparr>)
      | (Some sock, maximum', c) \<Rightarrow>
          (case expire_client po sock counts (m\<lparr>cm_norequest := c\<rparr>) of
             Inl e \<Rightarrow> Inl e
           | Inr (counts', m') \<Rightarrow> expire_run po expire maximum' counts' m'))"
  by pat_completeness auto
termination
  by (relation "measure (\<lambda>(_, _, _, _, m). length (tc_time (cm_norequest m)))")
     (auto dest!: expired_loop_time [OF sym] expire_client_time)

declare expire_run.simps [simp del]

definition cm_expire :: "'p poller_ops \<Rightarrow> int \<Rightarrow> int \<Rightarrow> ('c, 'p) clients \<Rightarrow> ((string \<rightharpoonup> nat) \<times> ('c, 'p) clients) res" where
  "cm_expire po now number m =
     (let expire = now - tc_timeout (cm_norequest m);
          forget = (\<lambda>m :: ('c, 'p) clients. m\<lparr>cm_norequest := (cm_norequest m)\<lparr>tc_last := None\<rparr>\<rparr>) in
      case expired_first expire (cm_norequest m) of
        Ends \<Rightarrow> Inr (Map.empty, m)
      | Yields_last sock \<Rightarrow>
          seq (expire_client po sock Map.empty m) (\<lambda>(counts, m'). expire_run po expire (number - 1) counts (forget m'))
      | Goes_on \<Rightarrow> expire_run po expire number Map.empty (forget m))"


section \<open>The contracts\<close>

text \<open>
  A connection: the
  status of a write says that data is buffered whenever there is some, and \<open>startData\<close> says that there
  was some only when there was; reading does not change what is to be written.
\<close>

definition client_events :: "event_name set" where
  "client_events = {read_client, opening_client, write_client}"

lemma client_events_in [simp]:
  "read_client \<in> client_events" "opening_client \<in> client_events" "write_client \<in> client_events"
  by (simp_all add: client_events_def)

locale client_connection =
  fixes co :: "('e, 'c, 'd) client_ops" and holds :: "'c \<Rightarrow> bool"
  assumes write_law: "co_writeData co e data c = Inr (Some (b, h, n4, n6), c') \<Longrightarrow> holds c' \<Longrightarrow> b"
    and start_law: "co_startData co e command d c = Inr (Some (b, h, n4, n6), c') \<Longrightarrow> (holds c' \<longrightarrow> b) \<and> (h \<longrightarrow> holds c)"
    and read_law: "co_readData co e c = Inr (r, c') \<Longrightarrow> holds c' = holds c"
    and related_law: "co_readRelated co e mode n c = Inr (r, c') \<Longrightarrow> holds c' = holds c"

locale client_manager = steady_poller client_events po good + client_connection co holds
  for po :: "'p poller_ops" and good and co :: "('e, 'c, 'd) client_ops" and holds

section \<open>The table of the connections\<close>

text \<open>
  Which connection is behind a socket, by name, and the invariant of the table, over these views: a
  socket is active or opening, not both; names and sockets match; a name has been given out.
\<close>

definition who :: "'c connection \<times> string \<Rightarrow> string \<times> sock" where
  "who entry = (cn_name (fst entry), cn_sock (fst entry))"

definition actives :: "('c, 'p) clients \<Rightarrow> sock \<rightharpoonup> string \<times> sock" where
  "actives m = (\<lambda>s. map_option who (cm_bysock m s))"

definition openings :: "('c, 'p) clients \<Rightarrow> sock \<rightharpoonup> string \<times> sock" where
  "openings m = (\<lambda>s. map_option who (tc_dict (cm_norequest m) s))"

definition table_ok :: "(sock \<rightharpoonup> string \<times> sock) \<Rightarrow> (sock \<rightharpoonup> string \<times> sock) \<Rightarrow> (string \<rightharpoonup> sock) \<Rightarrow> nat \<Rightarrow> bool" where
  "table_ok act opn byname k \<longleftrightarrow>
     (\<forall>s. act s = None \<or> opn s = None)
     \<and> (\<forall>s n s'. act s = Some (n, s') \<or> opn s = Some (n, s') \<longrightarrow> s' = s \<and> byname n = Some s)
     \<and> (\<forall>n s. byname n = Some s \<longrightarrow> (act s = Some (n, s) \<or> opn s = Some (n, s)) \<and> (\<exists>j \<le> k. n = show_nat j))"

text \<open>What the table is for: the name of each connection, its socket and whether it has sent its request.\<close>

datatype phase = Opening | Active

type_synonym connections = "nat \<times> (string \<rightharpoonup> sock \<times> phase)"

definition table_abs :: "(sock \<rightharpoonup> string \<times> sock) \<Rightarrow> (string \<rightharpoonup> sock) \<Rightarrow> nat \<Rightarrow> connections" where
  "table_abs act byname k = (k, \<lambda>n. map_option (\<lambda>s. (s, if act s = None then Opening else Active)) (byname n))"

inductive connections_step :: "connections \<Rightarrow> connections \<Rightarrow> bool" where
  connect: "t (show_nat (k + 1)) = None \<Longrightarrow> connections_step (k, t) (k + 1, t(show_nat (k + 1) \<mapsto> (s, phase)))"
| request: "t n = Some (s, Opening) \<Longrightarrow> connections_step (k, t) (k, t(n \<mapsto> (s, Active)))"
| drop: "t n = Some x \<Longrightarrow> connections_step (k, t) (k, t(n := None))"

inductive_cases connections_stepE: "connections_step c c'"

lemma table_okD:
  assumes "table_ok act opn byname k"
  shows "act s = None \<or> opn s = None" "act s = Some (n, s') \<Longrightarrow> s' = s" "opn s = Some (n, s') \<Longrightarrow> s' = s"
    "act s = Some (n, s') \<Longrightarrow> byname n = Some s" "opn s = Some (n, s') \<Longrightarrow> byname n = Some s"
    "byname n = Some s \<Longrightarrow> act s = Some (n, s) \<or> opn s = Some (n, s)" "byname n = Some s \<Longrightarrow> \<exists>j \<le> k. n = show_nat j"
proof -
  note a = assms [unfolded table_ok_def]
  show "act s = None \<or> opn s = None" by (rule spec [OF conjunct1 [OF a]])
  show "act s = Some (n, s') \<Longrightarrow> s' = s" "opn s = Some (n, s') \<Longrightarrow> s' = s"
    "act s = Some (n, s') \<Longrightarrow> byname n = Some s" "opn s = Some (n, s') \<Longrightarrow> byname n = Some s"
    using conjunct1 [OF conjunct2 [OF a]] by metis+
  show "byname n = Some s \<Longrightarrow> act s = Some (n, s) \<or> opn s = Some (n, s)" "byname n = Some s \<Longrightarrow> \<exists>j \<le> k. n = show_nat j"
    using conjunct2 [OF conjunct2 [OF a]] by metis+
qed

lemma table_okI:
  assumes "\<And>s. act s = None \<or> opn s = None" "\<And>s n s'. act s = Some (n, s') \<Longrightarrow> s' = s \<and> byname n = Some s"
    and "\<And>s n s'. opn s = Some (n, s') \<Longrightarrow> s' = s \<and> byname n = Some s"
    and "\<And>n s. byname n = Some s \<Longrightarrow> (act s = Some (n, s) \<or> opn s = Some (n, s)) \<and> (\<exists>j \<le> k. n = show_nat j)"
  shows "table_ok act opn byname k"
  unfolding table_ok_def using assms by blast

lemma show_nat_inj: "show_nat a = show_nat b \<longleftrightarrow> a = b"
  by (metis nat_of_dec_show_nat)

lemma fresh_name: "table_ok act opn byname k \<Longrightarrow> byname (show_nat (Suc k)) = None"
  unfolding table_ok_def by (metis Suc_n_not_le_n not_None_eq show_nat_inj)

lemma table_connect:
  assumes t: "table_ok act opn byname k" and s: "act s = None" "opn s = None"
  shows "table_ok act (opn(s \<mapsto> (show_nat (Suc k), s))) (byname(show_nat (Suc k) \<mapsto> s)) (Suc k)"
    "table_ok (act(s \<mapsto> (show_nat (Suc k), s))) opn (byname(show_nat (Suc k) \<mapsto> s)) (Suc k)"
    "connections_step (table_abs act byname k) (table_abs act (byname(show_nat (Suc k) \<mapsto> s)) (Suc k))"
    "connections_step (table_abs act byname k)
      (table_abs (act(s \<mapsto> (show_nat (Suc k), s))) (byname(show_nat (Suc k) \<mapsto> s)) (Suc k))"
proof -
  let ?n = "show_nat (Suc k)"
  note f = fresh_name [OF t]
  have old: "byname n \<noteq> Some s" for n using t s unfolding table_ok_def by (metis option.distinct(1))
  have up: "\<exists>j \<le> Suc k. n = show_nat j" if "byname n = Some s'" for n s'
    using t that unfolding table_ok_def by (meson le_SucI)
  note D = table_okD [OF t]
  have other: "s' \<noteq> s" if "byname n = Some s'" for n s' using old that by blast
  show "table_ok act (opn(s \<mapsto> (?n, s))) (byname(?n \<mapsto> s)) (Suc k)"
    by (rule table_okI) (use D(1-6) f up s in \<open>auto split: if_splits dest: other\<close>)
  show "table_ok (act(s \<mapsto> (?n, s))) opn (byname(?n \<mapsto> s)) (Suc k)"
    by (rule table_okI) (use D(1-6) f up s in \<open>auto split: if_splits dest: other\<close>)
  let ?t = "\<lambda>n. map_option (\<lambda>s. (s, if act s = None then Opening else Active)) (byname n)"
  have "connections_step (k, ?t) (k + 1, ?t(show_nat (k + 1) \<mapsto> (s, ph)))" for ph
    using f by (intro connect) simp
  moreover have "table_abs act (byname(?n \<mapsto> s)) (Suc k) = (k + 1, ?t(show_nat (k + 1) \<mapsto> (s, Opening)))"
    using s(1) by (auto simp: table_abs_def)
  moreover have "table_abs (act(s \<mapsto> (?n, s))) (byname(?n \<mapsto> s)) (Suc k) = (k + 1, ?t(show_nat (k + 1) \<mapsto> (s, Active)))"
    using old by (auto simp: table_abs_def fun_eq_iff map_option_case split: option.split)
  ultimately show "connections_step (table_abs act byname k) (table_abs act (byname(?n \<mapsto> s)) (Suc k))"
    "connections_step (table_abs act byname k) (table_abs (act(s \<mapsto> (?n, s))) (byname(?n \<mapsto> s)) (Suc k))"
    by (simp_all add: table_abs_def)
qed

lemma table_request:
  assumes t: "table_ok act opn byname k" and s: "opn s = Some (n, s)"
  shows "table_ok (act(s \<mapsto> (n, s))) (opn(s := None)) byname k"
    "connections_step (table_abs act byname k) (table_abs (act(s \<mapsto> (n, s))) byname k)"
proof -
  note D = table_okD [OF t]
  have e: "byname n = Some s" "act s = None" using D(1,5) s by force+
  have uniq: "m = n" if "byname m = Some s" for m using D(6) [OF that] s e(2) by simp
  show "table_ok (act(s \<mapsto> (n, s))) (opn(s := None)) byname k"
  proof (rule table_okI)
    show "(act(s \<mapsto> (n, s))) x = None \<or> (opn(s := None)) x = None" for x using D(1) [of x] by simp
    show "s' = x \<and> byname m = Some x" if "(act(s \<mapsto> (n, s))) x = Some (m, s')" for x m s'
      using that D(2,4) [of x m s'] e by (auto split: if_splits)
    show "s' = x \<and> byname m = Some x" if "(opn(s := None)) x = Some (m, s')" for x m s'
      using that D(3,5) [of x m s'] by (auto split: if_splits)
    show "((act(s \<mapsto> (n, s))) x = Some (m, x) \<or> (opn(s := None)) x = Some (m, x)) \<and> (\<exists>j \<le> k. m = show_nat j)"
      if "byname m = Some x" for m x
      using D(6,7) [OF that] uniq [of m] that by auto
  qed
  let ?t = "\<lambda>n. map_option (\<lambda>s. (s, if act s = None then Opening else Active)) (byname n)"
  have "connections_step (k, ?t) (k, ?t(n \<mapsto> (s, Active)))" using e by (intro request) simp
  moreover have "table_abs (act(s \<mapsto> (n, s))) byname k = (k, ?t(n \<mapsto> (s, Active)))"
    unfolding table_abs_def prod.inject
  proof (intro conjI ext refl)
    fix m
    show "map_option (\<lambda>x. (x, if (act(s \<mapsto> (n, s))) x = None then Opening else Active)) (byname m)
        = (?t(n \<mapsto> (s, Active))) m"
    proof (cases "m = n")
      case False
      then have "byname m \<noteq> Some s" using uniq by blast
      with False show ?thesis by (cases "byname m") auto
    qed (simp add: e)
  qed
  ultimately show "connections_step (table_abs act byname k) (table_abs (act(s \<mapsto> (n, s))) byname k)"
    by (simp add: table_abs_def)
qed

lemma table_drop:
  assumes t: "table_ok act opn byname k" and s: "act s = Some (n, s) \<or> opn s = Some (n, s)"
  shows "table_ok (act(s := None)) (opn(s := None)) (byname(n := None)) k"
    "connections_step (table_abs act byname k) (table_abs (act(s := None)) (byname(n := None)) k)"
proof -
  note D = table_okD [OF t]
  have e: "byname n = Some s" using D(4,5) s by metis
  have uniq: "m = n" if "byname m = Some s" for m using D(6) [OF that] D(1) [of s] s by auto
  show "table_ok (act(s := None)) (opn(s := None)) (byname(n := None)) k"
  proof (rule table_okI)
    show "(act(s := None)) x = None \<or> (opn(s := None)) x = None" for x using D(1) [of x] by simp
    show "s' = x \<and> (byname(n := None)) m = Some x" if "(act(s := None)) x = Some (m, s')" for x m s'
      using that D(2,4) [of x m s'] e by (auto split: if_splits)
    show "s' = x \<and> (byname(n := None)) m = Some x" if "(opn(s := None)) x = Some (m, s')" for x m s'
      using that D(3,5) [of x m s'] e by (auto split: if_splits)
    show "((act(s := None)) x = Some (m, x) \<or> (opn(s := None)) x = Some (m, x)) \<and> (\<exists>j \<le> k. m = show_nat j)"
      if "(byname(n := None)) m = Some x" for m x
      using that D(6,7) [of m x] uniq [of m] by (auto split: if_splits)
  qed
  let ?t = "\<lambda>n. map_option (\<lambda>s. (s, if act s = None then Opening else Active)) (byname n)"
  have "connections_step (k, ?t) (k, ?t(n := None))" using e by (intro drop) simp
  moreover have "table_abs (act(s := None)) (byname(n := None)) k = (k, ?t(n := None))"
    unfolding table_abs_def prod.inject
  proof (intro conjI ext refl)
    fix m
    show "map_option (\<lambda>x. (x, if (act(s := None)) x = None then Opening else Active)) ((byname(n := None)) m)
        = (?t(n := None)) m"
    proof (cases "m = n")
      case False
      then have "byname m \<noteq> Some s" using uniq by blast
      with False show ?thesis by (cases "byname m") auto
    qed (simp add: e)
  qed
  ultimately show "connections_step (table_abs act byname k) (table_abs (act(s := None)) (byname(n := None)) k)"
    by (simp add: table_abs_def)
qed


section \<open>The operations keep the table\<close>

text \<open>
  The invariant adds to that of the table that an active connection with data to send is in the list
  of those, and that an opening one has none. \<open>kept\<close> is what every operation gives: a consistent state that follows, for the table, or an
  exception out of \<open>R\<close>, which for an operation on a connection are those its connection raises.
\<close>

definition writes_ok :: "('c \<Rightarrow> bool) \<Rightarrow> ('c, 'p) clients \<Rightarrow> bool" where
  "writes_ok holds m \<longleftrightarrow>
     (\<forall>s c source. cm_bysock m s = Some (c, source) \<longrightarrow> holds (cn_state c) \<longrightarrow> s \<in> set (cm_buffered m))
     \<and> (\<forall>s c source. tc_dict (cm_norequest m) s = Some (c, source) \<longrightarrow> \<not> holds (cn_state c))"

definition clients_ok :: "('p \<Rightarrow> bool) \<Rightarrow> ('c \<Rightarrow> bool) \<Rightarrow> ('c, 'p) clients \<Rightarrow> bool" where
  "clients_ok good holds m \<longleftrightarrow>
     table_ok (actives m) (openings m) (cm_byname m) (cm_nextid m)
     \<and> writes_ok holds m \<and> good (cm_poller m)"

definition clients_abs :: "('c, 'p) clients \<Rightarrow> connections" where
  "clients_abs m = table_abs (actives m) (cm_byname m) (cm_nextid m)"

definition kept :: "('p \<Rightarrow> bool) \<Rightarrow> ('c \<Rightarrow> bool) \<Rightarrow> (py_error \<Rightarrow> bool) \<Rightarrow> ('c, 'p) clients \<Rightarrow> ('c, 'p) clients res \<Rightarrow> bool" where
  "kept good holds R m r \<longleftrightarrow>
     (case r of Inl err \<Rightarrow> R err
      | Inr m' \<Rightarrow> clients_ok good holds m' \<and> connections_step\<^sup>*\<^sup>* (clients_abs m) (clients_abs m'))"

lemma clients_okD:
  assumes "clients_ok good holds m"
  shows "table_ok (actives m) (openings m) (cm_byname m) (cm_nextid m)"
    "writes_ok holds m" "good (cm_poller m)"
  using assms unfolding clients_ok_def by blast+

lemma writes_okD:
  "writes_ok holds m \<Longrightarrow> cm_bysock m s = Some (c, source) \<Longrightarrow> holds (cn_state c) \<Longrightarrow> s \<in> set (cm_buffered m)"
  "writes_ok holds m \<Longrightarrow> tc_dict (cm_norequest m) s = Some (c, source) \<Longrightarrow> \<not> holds (cn_state c)"
  unfolding writes_ok_def by blast+

lemma remove1_others: "set xs - {s} \<subseteq> set (remove1 s xs)"
  by (induction xs) auto

text \<open>The state that goes with a result.\<close>

lemma seq_result [simp]: "seq (seq x (\<lambda>m'. Inr (y, m'))) (\<lambda>(_, m'). Inr m') = x"
  by (cases x) simp_all

lemma actives_simps [simp]:
  "actives (m\<lparr>cm_bysock := b\<rparr>) = (\<lambda>s. map_option who (b s))" "openings (m\<lparr>cm_bysock := b\<rparr>) = openings m"
  "actives (m\<lparr>cm_norequest := c\<rparr>) = actives m" "openings (m\<lparr>cm_norequest := c\<rparr>) = (\<lambda>s. map_option who (tc_dict c s))"
  "actives (m\<lparr>cm_byname := n\<rparr>) = actives m" "openings (m\<lparr>cm_byname := n\<rparr>) = openings m"
  "actives (m\<lparr>cm_buffered := l\<rparr>) = actives m" "openings (m\<lparr>cm_buffered := l\<rparr>) = openings m"
  "actives (m\<lparr>cm_poller := p\<rparr>) = actives m" "openings (m\<lparr>cm_poller := p\<rparr>) = openings m"
  "actives (m\<lparr>cm_nextid := k\<rparr>) = actives m" "openings (m\<lparr>cm_nextid := k\<rparr>) = openings m"
  "actives (m\<lparr>cm_total_sent4 := i\<rparr>) = actives m" "openings (m\<lparr>cm_total_sent4 := i\<rparr>) = openings m"
  "actives (m\<lparr>cm_total_sent6 := i\<rparr>) = actives m" "openings (m\<lparr>cm_total_sent6 := i\<rparr>) = openings m"
  "actives (m\<lparr>cm_total_requested := i\<rparr>) = actives m" "openings (m\<lparr>cm_total_requested := i\<rparr>) = openings m"
  by (simp_all add: actives_def openings_def)

lemma map_option_upd: "(\<lambda>s. map_option f ((g(k := v)) s)) = (\<lambda>s. map_option f (g s))(k := map_option f v)"
  by auto

text \<open>The fields of a state, and the invariant in terms of them.\<close>

lemma kept_intro:
  assumes "clients_ok good holds m"
    and "table_ok (actives m') (openings m') (cm_byname m') (cm_nextid m')" "connections_step\<^sup>*\<^sup>* (clients_abs m) (clients_abs m')"
    and "writes_ok holds m'" "good (cm_poller m')"
  shows "kept good holds R m (Inr m')"
  using assms by (simp add: kept_def clients_ok_def)

lemma kept_same:
  assumes "clients_ok good holds m" "actives m' = actives m" "openings m' = openings m" "cm_byname m' = cm_byname m"
    "cm_nextid m' = cm_nextid m" "good (cm_poller m')"
    and "writes_ok holds m'"
  shows "kept good holds R m (Inr m')"
  using assms by (intro kept_intro) (auto simp: clients_okD clients_abs_def)

lemma kept_trans:
  "kept good holds R m (Inr m') \<Longrightarrow> (clients_ok good holds m' \<Longrightarrow> kept good holds R m' r) \<Longrightarrow> kept good holds R m r"
  by (auto simp: kept_def split: sum.splits)

lemma kept_seq:
  assumes "kept good holds R m r" "\<And>m'. kept good holds R m (Inr m') \<Longrightarrow> r = Inr m' \<Longrightarrow> kept good holds R m (f m')"
  shows "kept good holds R m (seq r f)"
  using assms by (cases r) (auto simp: kept_def)

lemma kept_ok: "kept good holds R m (Inr m') \<Longrightarrow> clients_ok good holds m'"
  by (simp add: kept_def)

lemma kept_raise: "R err \<Longrightarrow> kept good holds R m (Inl err)"
  by (simp add: kept_def)

lemma kept_self: "clients_ok good holds m \<Longrightarrow> kept good holds R m (Inr m)"
  by (simp add: kept_def)

text \<open>Counting the bytes and the requests changes nothing of the table.\<close>

lemma kept_counted:
  assumes "kept good holds R m (Inr m')" "actives m'' = actives m'" "openings m'' = openings m'" "cm_byname m'' = cm_byname m'"
    "cm_nextid m'' = cm_nextid m'" "cm_poller m'' = cm_poller m'" "cm_bysock m'' = cm_bysock m'"
    "cm_norequest m'' = cm_norequest m'" "set (cm_buffered m') \<subseteq> set (cm_buffered m'')"
  shows "kept good holds R m (Inr m'')"
proof (rule kept_trans [OF assms(1)])
  assume "clients_ok good holds m'"
  then show "kept good holds R m' (Inr m'')"
    by (rule kept_same) (use assms clients_okD [OF kept_ok [OF assms(1)]] in \<open>auto simp: writes_ok_def\<close>)
qed

text \<open>
  What a connection raises: nothing when its coroutine returns. \<open>startData\<close> reads on, in the state it has
  been left in, once the writing has not ended it.
\<close>

definition raised :: "'a res \<Rightarrow> py_error option" where
  "raised r = (case r of Inl err \<Rightarrow> Some err | Inr _ \<Rightarrow> None)"

definition start_raise :: "('e, 'c, 'd) client_ops \<Rightarrow> 'e \<Rightarrow> string \<Rightarrow> 'd \<Rightarrow> string \<times> int \<Rightarrow> 'c \<Rightarrow> py_error option" where
  "start_raise co e command d mode_nb c =
     (case co_startData co e command d c of
        Inl err \<Rightarrow> Some err
      | Inr (None, _) \<Rightarrow> None
      | Inr (Some _, c') \<Rightarrow> raised (co_readRelated co e (fst mode_nb) (snd mode_nb) c'))"

lemma raised_simps [simp]: "raised (Inl err) = Some err" "raised (Inr x) = None"
  by (simp_all add: raised_def)

context client_manager
begin

lemma on_poller_steady:
  assumes "good (cm_poller m)" "name \<in> client_events"
    "f \<in> {po_addRead po, po_removeRead po, po_corkRead po, po_uncorkRead po, po_addWrite po, po_removeWrite po}"
  shows "\<exists>p. on_poller (f name s) m = Inr (m\<lparr>cm_poller := p\<rparr>) \<and> good p"
  using steady [OF assms, of s] by (auto simp: on_poller_def)

lemma on_poller_kept:
  assumes "clients_ok good holds m" "name \<in> client_events"
    "f \<in> {po_addRead po, po_removeRead po, po_corkRead po, po_uncorkRead po, po_addWrite po, po_removeWrite po}"
  shows "kept good holds R m (on_poller (f name s) m)"
proof -
  from on_poller_steady [OF _ assms(2,3)] clients_okD(3) [OF assms(1)] obtain p where
    "on_poller (f name s) m = Inr (m\<lparr>cm_poller := p\<rparr>)" "good p" by blast
  then show ?thesis using clients_okD [OF assms(1)] by (auto intro!: kept_same [OF assms(1)] simp: writes_ok_def)
qed

lemma kept_poller:
  assumes "kept good holds R m (Inr m')" "name \<in> client_events"
    "f \<in> {po_addRead po, po_removeRead po, po_corkRead po, po_uncorkRead po, po_addWrite po, po_removeWrite po}"
  shows "kept good holds R m (on_poller (f name s) m')"
  by (rule kept_trans [OF assms(1)]) (rule on_poller_kept [OF _ assms(2,3)])

text \<open>Cleaning up is possible also when the connection has data to send and is not in the list of those yet.\<close>

lemma cleanup_almost:
  assumes "clients_ok good holds m0" "table_ok (actives m) (openings m) (cm_byname m) (cm_nextid m)"
    "clients_abs m = clients_abs m0" "writes_ok (\<lambda>c. holds c) (m\<lparr>cm_bysock := (cm_bysock m)(s := None)\<rparr>)" "good (cm_poller m)"
    and assms2: "actives m s = Some (n, s) \<or> openings m s = Some (n, s)"
  shows "kept good holds R m0 (cm_cleanup po s n m)"
proof -
  note D = assms(2,4,5)
  let ?m1 = "m\<lparr>cm_bysock := (cm_bysock m)(s := None), cm_norequest := TimeCache_pop s (cm_norequest m),
      cm_byname := (cm_byname m)(n := None)\<rparr>"
  obtain c where c: "cm_client s m = Some c"
    using assms2 by (cases "cm_bysock m s") (auto simp: cm_client_def actives_def openings_def)
  obtain p1 where p1: "on_poller (po_removeWrite po write_client (cn_sock c)) ?m1 = Inr (?m1\<lparr>cm_poller := p1\<rparr>)" "good p1"
    using on_poller_steady [of ?m1 write_client "po_removeWrite po"] D(3) by auto
  obtain p2 where p2: "on_poller (po_removeRead po read_client (cn_sock c)) (?m1\<lparr>cm_poller := p1\<rparr>) = Inr (?m1\<lparr>cm_poller := p2\<rparr>)" "good p2"
    using on_poller_steady [of "?m1\<lparr>cm_poller := p1\<rparr>" read_client "po_removeRead po"] p1(2) by auto
  obtain p3 where p3: "on_poller (po_removeRead po opening_client (cn_sock c)) (?m1\<lparr>cm_poller := p2\<rparr>) = Inr (?m1\<lparr>cm_poller := p3\<rparr>)" "good p3"
    using on_poller_steady [of "?m1\<lparr>cm_poller := p2\<rparr>" opening_client "po_removeRead po"] p2(2) by auto
  let ?m' = "?m1\<lparr>cm_poller := p3, cm_buffered := remove1 s (cm_buffered m)\<rparr>"
  have "cm_cleanup po s n m = Inr ?m'" using c p1(1) p2(1) p3(1) by (simp add: cm_cleanup_def Let_def)
  moreover have "actives ?m' = (actives m)(s := None)" "openings ?m' = (openings m)(s := None)"
    by (auto simp: actives_def openings_def TimeCache_pop_def)
  then have "kept good holds R m0 (Inr ?m')"
    using table_drop [OF D(1) assms2] D(2) p3(2) assms(3)
    by (intro kept_intro [OF assms(1)]) (auto simp: clients_abs_def writes_ok_def TimeCache_pop_def split: if_splits)
  ultimately show ?thesis by simp
qed

lemma cleanup_kept:
  assumes "clients_ok good holds m" "actives m s = Some (n, s) \<or> openings m s = Some (n, s)"
  shows "kept good holds R m (cm_cleanup po s n m)"
  using clients_okD [OF assms(1)] by (intro cleanup_almost [OF assms(1)] assms(2)) (auto simp: writes_ok_def)

lemma entry_active:
  assumes "clients_ok good holds m" "cm_bysock m s = Some (c, source)"
  shows "actives m s = Some (cn_name c, s)" "cn_sock c = s"
proof -
  have "actives m s = Some (cn_name c, cn_sock c)" using assms(2) by (simp add: actives_def who_def)
  moreover from table_okD(2) [OF clients_okD(1) [OF assms(1)] this] show "cn_sock c = s" .
  ultimately show "actives m s = Some (cn_name c, s)" by simp
qed

lemma entry_opening:
  assumes "clients_ok good holds m" "tc_dict (cm_norequest m) s = Some (c, source)"
  shows "openings m s = Some (cn_name c, s)" "cn_sock c = s"
proof -
  have "openings m s = Some (cn_name c, cn_sock c)" using assms(2) by (simp add: openings_def who_def)
  moreover from table_okD(3) [OF clients_okD(1) [OF assms(1)] this] show "cn_sock c = s" .
  ultimately show "openings m s = Some (cn_name c, s)" by simp
qed

lemma active_changed_kept:
  assumes "clients_ok good holds m" "cm_bysock m s = Some (c, source)" "holds st \<longrightarrow> s \<in> set (cm_buffered m)"
  shows "kept good holds R m (Inr (active_changed s (c\<lparr>cn_state := st\<rparr>, source) m))"
proof (rule kept_same [OF assms(1)])
  show "actives (active_changed s (c\<lparr>cn_state := st\<rparr>, source) m) = actives m"
    using assms(2) by (auto simp: active_changed_def actives_def who_def)
qed (use clients_okD [OF assms(1)] assms(3) in \<open>auto simp: active_changed_def writes_ok_def split: if_splits\<close>)

lemma opening_kept:
  assumes "clients_ok good holds m" "actives m s = None" "openings m s = None" "\<And>n. \<not> holds (new_client n)"
  shows "kept good holds R m (opening_connection po new_client now s source m)"
proof -
  note D = clients_okD [OF assms(1)]
  let ?n = "show_nat (Suc (cm_nextid m))"
  let ?c = "\<lparr>cn_name = ?n, cn_sock = s, cn_state = new_client ?n\<rparr>"
  let ?m1 = "m\<lparr>cm_nextid := Suc (cm_nextid m), cm_norequest := TimeCache_setitem now s (?c, source) (cm_norequest m),
      cm_byname := (cm_byname m)(?n \<mapsto> s)\<rparr>"
  have "actives ?m1 = actives m" "openings ?m1 = (openings m)(s \<mapsto> (?n, s))"
    by (auto simp: actives_def openings_def TimeCache_setitem_def who_def)
  then have k: "kept good holds R m (Inr ?m1)"
    using table_connect [OF D(1) assms(2,3)] D(2,3) assms(4) by (intro kept_intro [OF assms(1)]) (auto simp: clients_abs_def writes_ok_def TimeCache_setitem_def)
  moreover have "opening_connection po new_client now s source m = on_poller (po_addRead po opening_client s) ?m1"
    by (simp add: opening_connection_def cm_getnextid_def Let_def)
  ultimately show ?thesis by (simp add: kept_poller)
qed

lemma passthrough_kept:
  assumes "clients_ok good holds m" "actives m s = None" "openings m s = None" "\<And>n. \<not> holds (new_client n)"
  shows "kept good holds R m (seq (cm_passthroughConnection po new_client s source m) (\<lambda>(_, m'). Inr m'))"
proof -
  note D = clients_okD [OF assms(1)]
  let ?n = "show_nat (Suc (cm_nextid m))"
  let ?c = "\<lparr>cn_name = ?n, cn_sock = s, cn_state = new_client ?n\<rparr>"
  let ?m1 = "m\<lparr>cm_nextid := Suc (cm_nextid m), cm_bysock := (cm_bysock m)(s \<mapsto> (?c, source)),
      cm_byname := (cm_byname m)(?n \<mapsto> s)\<rparr>"
  have "actives ?m1 = (actives m)(s \<mapsto> (?n, s))" "openings ?m1 = openings m"
    by (auto simp: actives_def openings_def who_def)
  then have "kept good holds R m (Inr ?m1)"
    using table_connect [OF D(1) assms(2,3)] D(2,3) assms(4)
    by (intro kept_intro [OF assms(1)]) (auto simp: clients_abs_def writes_ok_def TimeCache_pop_def split: if_splits)
  moreover have "seq (cm_passthroughConnection po new_client s source m) (\<lambda>(_, m'). Inr m')
      = on_poller (po_addRead po read_client s) ?m1"
    by (cases "on_poller (po_addRead po read_client s) ?m1") (simp_all add: cm_passthroughConnection_def cm_getnextid_def Let_def)
  ultimately show ?thesis by (simp add: kept_poller)
qed

text \<open>The state of \<open>readRequest\<close> when a request has come.\<close>

lemma request_kept:
  assumes "clients_ok good holds m" "tc_dict (cm_norequest m) s = Some (c, source)" "\<not> holds st"
  shows "kept good holds R m (Inr (m\<lparr>cm_total_requested := k, cm_norequest := TimeCache_pop s (cm_norequest m),
      cm_bysock := (cm_bysock m)(s \<mapsto> (c\<lparr>cn_state := st\<rparr>, source))\<rparr>))" (is "kept _ _ _ _ (Inr ?m1)")
proof -
  note D = clients_okD [OF assms(1)] and E = entry_opening [OF assms(1,2)]
  have "actives ?m1 = (actives m)(s \<mapsto> (cn_name c, s))" "openings ?m1 = (openings m)(s := None)"
    using E(2) by (auto simp: actives_def openings_def TimeCache_pop_def who_def)
  then show ?thesis
    using table_request [OF D(1) E(1)] D(2,3) assms(3)
    by (intro kept_intro [OF assms(1)]) (auto simp: clients_abs_def writes_ok_def TimeCache_pop_def split: if_splits)
qed

lemma readRequest_kept:
  assumes "clients_ok good holds m"
    and raises: "\<And>c source err. tc_dict (cm_norequest m) s = Some (c, source) \<Longrightarrow> co_readData co e (cn_state c) = Inl err \<Longrightarrow> R err"
  shows "kept good holds R m (seq (cm_readRequest po co e s m) (\<lambda>(_, m'). Inr m'))"
proof (cases "tc_dict (cm_norequest m) s")
  case None
  then show ?thesis using kept_self [OF assms(1)] by (simp add: cm_readRequest_def)
next
  case (Some entry)
  obtain c source where c: "tc_dict (cm_norequest m) s = Some (c, source)" using Some by (cases entry) auto
  note E = entry_opening [OF assms(1) c]
  have idle: "\<not> holds (cn_state c)" using writes_okD(2) [OF clients_okD(2) [OF assms(1)] c] .
  show ?thesis
  proof (cases "co_readData co e (cn_state c)")
    case (Inl err)
    then have "R err" by (rule raises [OF c])
    with Inl c show ?thesis by (simp add: cm_readRequest_def kept_raise)
  next
    case (Inr r)
    obtain d st where r: "co_readData co e (cn_state c) = Inr (d, st)" using Inr by (cases r) auto
    have st: "\<not> holds st" using read_law [OF r] idle by simp
    let ?m1 = "m\<lparr>cm_total_requested := cm_total_requested m + 1, cm_norequest := TimeCache_pop s (cm_norequest m),
        cm_bysock := (cm_bysock m)(s \<mapsto> (c\<lparr>cn_state := st\<rparr>, source))\<rparr>"
    have "kept good holds R m (cm_cleanup po s (cn_name c) m)" using cleanup_kept [OF assms(1)] E(1) by blast
    moreover have "kept good holds R m
        (seq (on_poller (po_addRead po read_client (cn_sock c)) ?m1) (\<lambda>m2.
         seq (on_poller (po_removeRead po opening_client (cn_sock c)) m2) (\<lambda>m3.
         on_poller (po_corkRead po read_client s) m3)))"
      by (intro kept_seq kept_poller request_kept [OF assms(1) c st]) simp_all
    moreover have "kept good holds R m (Inr (opening_changed s (c\<lparr>cn_state := st\<rparr>, source) m))"
      using E st c clients_okD [OF assms(1)]
      by (intro kept_same [OF assms(1)])
         (auto simp: opening_changed_def actives_def openings_def who_def writes_ok_def split: if_splits)
    ultimately show ?thesis using c r by (simp add: cm_readRequest_def Let_def split: option.split)
  qed
qed

lemma readData_kept:
  assumes "clients_ok good holds m"
    and raises: "\<And>c source err. cm_bysock m s = Some (c, source) \<Longrightarrow> co_readData co e (cn_state c) = Inl err \<Longrightarrow> R err"
  shows "kept good holds R m (seq (cm_readData po co e s m) (\<lambda>(_, m'). Inr m'))"
proof (cases "cm_bysock m s")
  case None
  then show ?thesis using kept_self [OF assms(1)] by (simp add: cm_readData_def)
next
  case (Some entry)
  obtain c source where c: "cm_bysock m s = Some (c, source)" using Some by (cases entry) auto
  show ?thesis
  proof (cases "co_readData co e (cn_state c)")
    case (Inl err)
    then have "R err" by (rule raises [OF c])
    with Inl c show ?thesis by (simp add: cm_readData_def kept_raise)
  next
    case (Inr r)
    obtain d st where r: "co_readData co e (cn_state c) = Inr (d, st)" using Inr by (cases r) auto
    let ?m1 = "active_changed s (c\<lparr>cn_state := st\<rparr>, source) m"
    have "holds st \<longrightarrow> s \<in> set (cm_buffered m)"
      using read_law [OF r] writes_okD(1) [OF clients_okD(2) [OF assms(1)] c] by simp
    then have k: "kept good holds R m (Inr ?m1)" by (rule active_changed_kept [OF assms(1) c])
    have "actives ?m1 s = Some (cn_name c, s)" using entry_active [OF assms(1) c] by (simp add: active_changed_def who_def)
    then have "kept good holds R m (cm_cleanup po s (cn_name c) ?m1)"
      by (intro kept_trans [OF k] cleanup_kept) simp_all
    moreover have "kept good holds R m (on_poller (po_corkRead po read_client s)
        (?m1\<lparr>cm_total_requested := cm_total_requested ?m1 + 1\<rparr>))"
      by (intro kept_poller kept_counted [OF k]) simp_all
    ultimately show ?thesis using c r k by (simp add: cm_readData_def Let_def split: option.split)
  qed
qed

text \<open>A connection whose state has changed is cleaned up.\<close>

lemma cleanup_changed:
  assumes "clients_ok good holds m" "cm_bysock m s = Some (c, source)"
    and m': "cm_bysock m' = (cm_bysock m)(s \<mapsto> (c\<lparr>cn_state := st\<rparr>, source))" "cm_norequest m' = cm_norequest m"
      "cm_byname m' = cm_byname m" "cm_nextid m' = cm_nextid m" "cm_buffered m' = cm_buffered m" "good (cm_poller m')"
  shows "kept good holds R m (cm_cleanup po s (cn_name c) m')"
proof -
  have v: "actives m' = actives m" "openings m' = openings m"
    using assms(2) m'(1,2) by (auto simp: actives_def openings_def who_def)
  show ?thesis
    using clients_okD [OF assms(1)] entry_active [OF assms(1,2)] m' v
    by (intro cleanup_almost [OF assms(1)]) (auto simp: clients_abs_def writes_ok_def split: if_splits)
qed

lemma sendData_kept:
  assumes "clients_ok good holds m"
    and raises: "\<And>c source err. cm_bysock m s = Some (c, source) \<Longrightarrow> co_writeData co e data (cn_state c) = Inl err \<Longrightarrow> R err"
  shows "kept good holds R m (seq (cm_sendData po co e s data m) (\<lambda>(_, m'). Inr m'))"
proof (cases "cm_bysock m s")
  case None
  then show ?thesis using kept_self [OF assms(1)] by (simp add: cm_sendData_def)
next
  case (Some entry)
  obtain c source where c: "cm_bysock m s = Some (c, source)" using Some by (cases entry) auto
  note D = clients_okD [OF assms(1)]
  show ?thesis
  proof (cases "co_writeData co e data (cn_state c)")
    case (Inl err)
    then have "R err" by (rule raises [OF c])
    with Inl c show ?thesis by (simp add: cm_sendData_def kept_raise)
  next
    case (Inr r)
    obtain res st where r: "co_writeData co e data (cn_state c) = Inr (res, st)" using Inr by (cases r) auto
    let ?m1 = "active_changed s (c\<lparr>cn_state := st\<rparr>, source) m"
    show ?thesis
    proof (cases res)
      case None
      have "kept good holds R m (cm_cleanup po s (cn_name c) ?m1)"
        using D(3) by (intro cleanup_changed [OF assms(1) c]) (simp_all add: active_changed_def)
      then show ?thesis using c r None by (simp add: cm_sendData_def Let_def)
    next
      case (Some x)
      obtain b h n4 n6 where x: "x = (b, h, n4, n6)" by (cases x)
      have law: "holds st \<longrightarrow> b" using write_law r Some x by metis
      let ?m2 = "?m1\<lparr>cm_total_sent4 := cm_total_sent4 ?m1 + int n4, cm_total_sent6 := cm_total_sent6 ?m1 + int n6\<rparr>"
      have acts: "actives (active_changed s (c\<lparr>cn_state := st\<rparr>, source) m) = actives m"
        using c by (auto simp: active_changed_def actives_def who_def)
      have with_list: "kept good holds R m (Inr (?m2\<lparr>cm_buffered := l\<rparr>))"
        if "holds st \<longrightarrow> s \<in> set l" "set (cm_buffered m) - {s} \<subseteq> set l" for l
        using that D acts
        by (intro kept_same [OF assms(1)]) (auto simp: active_changed_def writes_ok_def openings_def split: if_splits)
      have self: "?m2 = ?m2\<lparr>cm_buffered := cm_buffered m\<rparr>" by (simp add: active_changed_def)
      have others: "set (cm_buffered m) - {s} \<subseteq> set (remove1 s (cm_buffered m))" by (rule remove1_others)
      consider (enters) "b" "s \<notin> set (cm_buffered m)" | (stays) "b" "s \<in> set (cm_buffered m)"
        | (leaves) "\<not> b" "h" "s \<in> set (cm_buffered m)" | (other) "\<not> b" "\<not> (h \<and> s \<in> set (cm_buffered m))" by blast
      then show ?thesis
      proof cases
        case enters
        have "kept good holds R m (on_poller (po_addWrite po write_client (cn_sock c))
            (?m2\<lparr>cm_buffered := cm_buffered m @ [s]\<rparr>))"
          by (intro kept_poller with_list) auto
        then show ?thesis using c r Some x enters by (simp add: cm_sendData_def Let_def active_changed_def)
      next
        case stays
        have "kept good holds R m (Inr ?m2)" using stays with_list [of "cm_buffered m"] self by auto
        then show ?thesis using c r Some x stays by (simp add: cm_sendData_def Let_def active_changed_def)
      next
        case leaves
        have "kept good holds R m (on_poller (po_removeWrite po write_client (cn_sock c))
            (?m2\<lparr>cm_buffered := remove1 s (cm_buffered m)\<rparr>))"
          using leaves(1) law others by (intro kept_poller with_list) auto
        then show ?thesis using c r Some x leaves by (simp add: cm_sendData_def Let_def active_changed_def)
      next
        case other
        have "kept good holds R m (Inr ?m2)" using other(1) law with_list [of "cm_buffered m"] self by auto
        then show ?thesis using c r Some x other by (auto simp: cm_sendData_def Let_def active_changed_def)
      qed
    qed
  qed
qed

text \<open>The end of \<open>startData\<close>.\<close>

lemma start_buffered_kept:
  assumes "clients_ok good holds m" "cm_bysock m s = Some (c, source)"
    and m': "cm_bysock m' = (cm_bysock m)(s \<mapsto> (c\<lparr>cn_state := st\<rparr>, source))" "cm_norequest m' = cm_norequest m"
      "cm_byname m' = cm_byname m" "cm_nextid m' = cm_nextid m" "cm_buffered m' = cm_buffered m" "good (cm_poller m')"
    and law: "holds st \<longrightarrow> b" "h \<longrightarrow> holds (cn_state c)"
  shows "kept good holds R m (start_buffered po s b h m')"
proof -
  note D = clients_okD [OF assms(1)]
  have v: "actives m' = actives m" "openings m' = openings m"
    using assms(2) m'(1,2) by (auto simp: actives_def openings_def who_def)
  have with_list: "kept good holds R m (Inr (m'\<lparr>cm_buffered := l\<rparr>))"
    if "holds st \<longrightarrow> s \<in> set l" "set (cm_buffered m) - {s} \<subseteq> set l" for l
    using that D m' v by (intro kept_same [OF assms(1)]) (auto simp: writes_ok_def split: if_splits)
  have held: "h \<longrightarrow> s \<in> set (cm_buffered m)" using law(2) writes_okD(1) [OF D(2) assms(2)] by blast
  have self: "m' = m'\<lparr>cm_buffered := cm_buffered m\<rparr>" using m'(5) by simp
  have others: "set (cm_buffered m) - {s} \<subseteq> set (remove1 s (cm_buffered m))" by (rule remove1_others)
  consider (enters) "b" "\<not> h" | (leaves) "\<not> b" "h" | (other) "b = h" by blast
  then show ?thesis
  proof cases
    case enters
    have "kept good holds R m (on_poller (po_addWrite po write_client s) (m'\<lparr>cm_buffered := cm_buffered m' @ [s]\<rparr>))"
      using m'(5) by (intro kept_poller with_list) auto
    with enters show ?thesis by (simp add: start_buffered_def)
  next
    case leaves
    have "kept good holds R m (on_poller (po_removeWrite po write_client s) (m'\<lparr>cm_buffered := remove1 s (cm_buffered m')\<rparr>))"
      using m'(5) leaves(1) law(1) others by (intro kept_poller with_list) auto
    with leaves held m'(5) show ?thesis by (simp add: start_buffered_def)
  next
    case other
    have "kept good holds R m (Inr m')" using other law(1) held with_list [of "cm_buffered m"] self by auto
    with other show ?thesis by (simp add: start_buffered_def)
  qed
qed

lemma startData_kept:
  assumes "clients_ok good holds m"
    and raises: "\<And>c source command d err. cm_bysock m s = Some (c, source) \<Longrightarrow> data = Some (Some command, d) \<Longrightarrow>
      start_raise co e command d (cm_parseRemaining remaining) (cn_state c) = Some err \<Longrightarrow> R err"
  shows "kept good holds R m (seq (cm_startData po co e s data remaining m) (\<lambda>(_, m'). Inr m'))"
proof -
  note D = clients_okD [OF assms(1)]
  show ?thesis
  proof (cases "cm_bysock m s")
    case None
    then show ?thesis using kept_self [OF assms(1)] by (simp add: cm_startData_def)
  next
    case (Some entry)
    obtain c source where c: "cm_bysock m s = Some (c, source)" using Some by (cases entry) auto
    note E = entry_active [OF assms(1) c]
    show ?thesis
    proof (cases "\<exists>command d. data = Some (Some command, d)")
      case False
      then show ?thesis using kept_self [OF assms(1)] c by (auto simp: cm_startData_def split: option.split prod.split)
    next
      case True
      then obtain command d where d: "data = Some (Some command, d)" by blast
      obtain mode nb where rem: "cm_parseRemaining remaining = (mode, nb)" by fastforce
      show ?thesis
      proof (cases "co_startData co e command d (cn_state c)")
        case (Inl err)
        then have "R err" using raises [OF c d] by (simp add: start_raise_def)
        with Inl c d rem show ?thesis by (simp add: cm_startData_def kept_raise)
      next
        case (Inr r)
        obtain res st1 where r: "co_startData co e command d (cn_state c) = Inr (res, st1)" using Inr by (cases r) auto
        show ?thesis
        proof (cases res)
          case None
          have "kept good holds R m (cm_cleanup po s (cn_name c) m)" using cleanup_kept [OF assms(1)] E(1) by blast
          then show ?thesis using c d rem r None E(2) by (simp add: cm_startData_def)
        next
          case (Some x)
          obtain b h n4 n6 where x: "x = (b, h, n4, n6)" by (cases x)
          show ?thesis
          proof (cases "co_readRelated co e mode nb st1")
            case (Inl err)
            then have "R err" using raises [OF c d, of err] r Some x rem by (simp add: start_raise_def)
            with Inl c d rem r Some x show ?thesis by (simp add: cm_startData_def kept_raise)
          next
            case (Inr y)
            obtain rd st2 where y: "co_readRelated co e mode nb st1 = Inr (rd, st2)" using Inr by (cases y) auto
            have law: "holds st2 \<longrightarrow> b" "h \<longrightarrow> holds (cn_state c)"
              using start_law related_law [OF y] r Some x by metis+
            let ?m1 = "active_changed s (c\<lparr>cn_state := st2\<rparr>, source) m"
            obtain p where p: "on_poller (po_uncorkRead po read_client s) ?m1 = Inr (?m1\<lparr>cm_poller := p\<rparr>)" "good p"
              using on_poller_steady [of ?m1 read_client "po_uncorkRead po" s] D(3) by (auto simp: active_changed_def)
            let ?m2 = "?m1\<lparr>cm_poller := p, cm_total_sent4 := cm_total_sent4 m + int n4, cm_total_sent6 := cm_total_sent6 m + int n6\<rparr>"
            have "kept good holds R m (cm_cleanup po s (cn_name c) ?m2)"
              "kept good holds R m (cm_cleanup po s (cn_name c) (?m2\<lparr>cm_total_requested := cm_total_requested m + 1\<rparr>))"
              using p(2) by (intro cleanup_changed [OF assms(1) c]; simp add: active_changed_def)+
            moreover have "kept good holds R m (start_buffered po s b h ?m2)"
              using p(2) law by (intro start_buffered_kept [OF assms(1) c]) (simp_all add: active_changed_def)
            ultimately show ?thesis using c d rem r Some x y p(1) E(2)
              by (simp add: cm_startData_def active_changed_def Let_def split: option.split)
          qed
        qed
      qed
    qed
  qed
qed

lemma upload_kept:
  assumes "clients_ok good holds m"
  shows "kept good holds R m (cm_corkUpload po s m)" "kept good holds R m (cm_uncorkUpload po s m)"
  by (simp_all add: cm_corkUpload_def cm_uncorkUpload_def kept_self [OF assms] on_poller_kept [OF assms])

lemma cache_kept:
  assumes "clients_ok good holds m" "tc_dict c = tc_dict (cm_norequest m)"
  shows "kept good holds R m (Inr (m\<lparr>cm_norequest := c\<rparr>))"
  using clients_okD [OF assms(1)] assms(2)
  by (intro kept_same [OF assms(1)]) (auto simp: openings_def writes_ok_def)

lemma expire_client_kept:
  assumes "clients_ok good holds m"
  shows "kept good holds R m (seq (expire_client po s counts m) (\<lambda>(_, m'). Inr m'))"
proof (cases "tc_dict (cm_norequest m) s")
  case None
  then show ?thesis using kept_self [OF assms] by (simp add: expire_client_def)
next
  case (Some entry)
  obtain c source where c: "tc_dict (cm_norequest m) s = Some (c, source)" using Some by (cases entry) auto
  have "kept good holds R m (cm_cleanup po s (cn_name c) m)"
    using cleanup_kept [OF assms] entry_opening [OF assms c] by blast
  then show ?thesis using c by (simp add: expire_client_def)
qed

lemma expired_loop_dict:
  "expired_loop expire maximum c = (r, maximum', c') \<Longrightarrow> tc_dict c' = tc_dict c"
proof (induction expire maximum c rule: expired_loop.induct)
  case (1 expire maximum c)
  show ?case
  proof (cases "tc_time c")
    case Nil
    with "1.prems" show ?thesis by (simp add: expired_loop.simps)
  next
    case (Cons x rest)
    obtain k t where x: "x = (k, t)" by (cases x)
    let ?c = "c\<lparr>tc_time := rest\<rparr>"
    from "1.prems" Cons x have
      "c' = c \<or> c' = ?c\<lparr>tc_last := Some (k, t)\<rparr> \<or> c' = ?c
        \<or> maximum \<noteq> 0 \<and> \<not> t > expire \<and> tc_dict c k = None \<and> expired_loop expire maximum ?c = (r, maximum', c')"
      by (auto simp: expired_loop.simps [of expire maximum c] Let_def split: if_splits)
    with "1.IH" [OF Cons x [symmetric], of ?c] show ?thesis by auto
  qed
qed

lemma expire_run_kept:
  "clients_ok good holds m \<Longrightarrow> kept good holds R m (seq (expire_run po expire maximum counts m) (\<lambda>(_, m'). Inr m'))"
proof (induction "length (tc_time (cm_norequest m))" arbitrary: m maximum counts rule: less_induct)
  case less
  obtain r maximum' c where loop: "expired_loop expire maximum (cm_norequest m) = (r, maximum', c)"
    by (cases "expired_loop expire maximum (cm_norequest m)") auto
  have k: "kept good holds R m (Inr (m\<lparr>cm_norequest := c\<rparr>))"
    by (rule cache_kept [OF less.prems expired_loop_dict [OF loop]])
  show ?case
  proof (cases r)
    case None
    with loop k show ?thesis by (simp add: expire_run.simps)
  next
    case (Some s)
    have e: "kept good holds R m (seq (expire_client po s counts (m\<lparr>cm_norequest := c\<rparr>)) (\<lambda>(_, m'). Inr m'))"
      by (rule kept_trans [OF k]) (rule expire_client_kept)
    show ?thesis
    proof (cases "expire_client po s counts (m\<lparr>cm_norequest := c\<rparr>)")
      case (Inl err)
      with loop Some e show ?thesis by (simp add: expire_run.simps)
    next
      case (Inr x)
      obtain counts' m' where x: "expire_client po s counts (m\<lparr>cm_norequest := c\<rparr>) = Inr (counts', m')"
        using Inr by (cases x) auto
      have km: "kept good holds R m (Inr m')" using e x by simp
      have "length (tc_time (cm_norequest m')) < length (tc_time (cm_norequest m))"
        using expire_client_time [OF x] expired_loop_time [OF loop [unfolded Some]] by simp
      then have "kept good holds R m' (seq (expire_run po expire maximum' counts' m') (\<lambda>(_, m'). Inr m'))"
        by (rule less.hyps) (rule kept_ok [OF km])
      then show ?thesis using loop Some x by (simp add: expire_run.simps [of po expire maximum counts m] kept_trans [OF km])
    qed
  qed
qed

lemma expire_kept:
  assumes "clients_ok good holds m"
  shows "kept good holds R m (seq (cm_expire po now number m) (\<lambda>(_, m'). Inr m'))"
proof -
  let ?forget = "\<lambda>m :: ('c, 'p) clients. m\<lparr>cm_norequest := (cm_norequest m)\<lparr>tc_last := None\<rparr>\<rparr>"
  let ?expire = "now - tc_timeout (cm_norequest m)"
  have forget: "kept good holds R m' (Inr (?forget m'))" if "clients_ok good holds m'" for m'
    by (rule cache_kept [OF that]) simp
  have run: "kept good holds R m' (seq (expire_run po ?expire k counts (?forget m')) (\<lambda>(_, m'). Inr m'))"
    if "clients_ok good holds m'" for m' k counts
    by (rule kept_trans [OF forget [OF that]]) (rule expire_run_kept)
  show ?thesis
  proof (cases "expired_first ?expire (cm_norequest m)")
    case Ends
    then show ?thesis by (simp add: cm_expire_def kept_self [OF assms])
  next
    case Goes_on
    then show ?thesis by (simp add: cm_expire_def run [OF assms])
  next
    case (Yields_last s)
    have e: "kept good holds R m (seq (expire_client po s Map.empty m) (\<lambda>(_, m'). Inr m'))"
      by (rule expire_client_kept [OF assms])
    show ?thesis
    proof (cases "expire_client po s Map.empty m")
      case (Inl err)
      with Yields_last e show ?thesis by (simp add: cm_expire_def)
    next
      case (Inr x)
      obtain counts m' where x: "x = (counts, m')" by (cases x)
      have km: "kept good holds R m (Inr m')" using e Inr x by simp
      from Yields_last Inr x show ?thesis by (simp add: cm_expire_def kept_trans [OF km] run)
    qed
  qed
qed

end

section \<open>The manager as a whole\<close>

datatype ('e, 'c, 'd) client_op =
    Connect "string \<Rightarrow> 'c" int sock string
  | ConnectPassthrough "string \<Rightarrow> 'c" sock string
  | ReadRequest 'e sock
  | ReadData 'e sock
  | SendData 'e sock "string option"
  | StartData 'e sock "(string option \<times> 'd) option" remaining
  | CorkUpload sock
  | UncorkUpload sock
  | CleanUp sock string
  | Expire int int

definition cm_apply :: "'p poller_ops \<Rightarrow> ('e, 'c, 'd) client_ops \<Rightarrow> ('e, 'c, 'd) client_op \<Rightarrow> ('c, 'p) clients \<Rightarrow> ('c, 'p) clients res" where
  "cm_apply po co op m =
     (case op of
        Connect new_client now sock source \<Rightarrow> cm_httpConnection po new_client now sock source m
      | ConnectPassthrough new_client sock source \<Rightarrow>
          seq (cm_passthroughConnection po new_client sock source m) (\<lambda>(_, m'). Inr m')
      | ReadRequest e sock \<Rightarrow> seq (cm_readRequest po co e sock m) (\<lambda>(_, m'). Inr m')
      | ReadData e sock \<Rightarrow> seq (cm_readData po co e sock m) (\<lambda>(_, m'). Inr m')
      | SendData e sock data \<Rightarrow> seq (cm_sendData po co e sock data m) (\<lambda>(_, m'). Inr m')
      | StartData e sock data remaining \<Rightarrow> seq (cm_startData po co e sock data remaining m) (\<lambda>(_, m'). Inr m')
      | CorkUpload sock \<Rightarrow> cm_corkUpload po sock m
      | UncorkUpload sock \<Rightarrow> cm_uncorkUpload po sock m
      | CleanUp sock name \<Rightarrow> cm_cleanup po sock name m
      | Expire now number \<Rightarrow> seq (cm_expire po now number m) (\<lambda>(_, m'). Inr m'))"

text \<open>
  What the connection that an operation is for raises, if anything: what its own coroutine raises, in its
  state, on what the socket answers now. The other operations do not run a connection.
\<close>

definition op_raise :: "('e, 'c, 'd) client_ops \<Rightarrow> ('e, 'c, 'd) client_op \<Rightarrow> ('c, 'p) clients \<Rightarrow> py_error option" where
  "op_raise co op m =
     (case op of
        ReadRequest e sock \<Rightarrow>
          (case tc_dict (cm_norequest m) sock of None \<Rightarrow> None | Some (c, _) \<Rightarrow> raised (co_readData co e (cn_state c)))
      | ReadData e sock \<Rightarrow>
          (case cm_bysock m sock of None \<Rightarrow> None | Some (c, _) \<Rightarrow> raised (co_readData co e (cn_state c)))
      | SendData e sock data \<Rightarrow>
          (case cm_bysock m sock of None \<Rightarrow> None | Some (c, _) \<Rightarrow> raised (co_writeData co e data (cn_state c)))
      | StartData e sock data remaining \<Rightarrow>
          (case (cm_bysock m sock, data) of
             (Some (c, _), Some (Some command, d)) \<Rightarrow>
               start_raise co e command d (cm_parseRemaining remaining) (cn_state c)
           | _ \<Rightarrow> None)
      | _ \<Rightarrow> None)"

lemma apply_raise: "op_raise co op m = Some err \<Longrightarrow> cm_apply po co op m = Inl err"
  by (cases op) (auto simp: op_raise_def cm_apply_def cm_readRequest_def cm_readData_def cm_sendData_def cm_startData_def
      start_raise_def raised_def Let_def split: option.splits sum.splits prod.splits)

text \<open>
  How the rest of the program uses the manager: a new connection has a new socket and nothing to send,
  and a connection is cleaned up under its name.
\<close>

definition op_allowed :: "('c \<Rightarrow> bool) \<Rightarrow> ('e, 'c, 'd) client_op \<Rightarrow> ('c, 'p) clients \<Rightarrow> bool" where
  "op_allowed holds op m =
     (case op of
        Connect new_client _ sock _ \<Rightarrow> cm_client sock m = None \<and> (\<forall>n. \<not> holds (new_client n))
      | ConnectPassthrough new_client sock _ \<Rightarrow> cm_client sock m = None \<and> (\<forall>n. \<not> holds (new_client n))
      | CleanUp sock name \<Rightarrow> (\<exists>c. cm_client sock m = Some c \<and> cn_name c = name)
      | _ \<Rightarrow> True)"

inductive cm_reachable :: "'p poller_ops \<Rightarrow> ('e, 'c, 'd) client_ops \<Rightarrow> ('c \<Rightarrow> bool) \<Rightarrow> ('c, 'p) clients \<Rightarrow> ('c, 'p) clients \<Rightarrow> bool"
  for po co holds m0 where
  start: "cm_reachable po co holds m0 m0"
| step: "cm_reachable po co holds m0 m \<Longrightarrow> op_allowed holds op m \<Longrightarrow> cm_apply po co op m = Inr m' \<Longrightarrow>
    cm_reachable po co holds m0 m'"

context client_manager
begin

lemma apply_kept:
  assumes "clients_ok good holds m" "op_allowed holds op m"
  shows "kept good holds (\<lambda>err. op_raise co op m = Some err) m (cm_apply po co op m)"
proof -
  have none: "actives m s = None \<and> openings m s = None" if "cm_client s m = None" for s
    using that by (auto simp: cm_client_def actives_def openings_def split: option.splits)
  have some: "actives m s = Some (cn_name c, s) \<or> openings m s = Some (cn_name c, s)" if "cm_client s m = Some c" for s c
    using that entry_active(1) [OF assms(1)] entry_opening(1) [OF assms(1)]
    by (auto simp: cm_client_def split: option.splits)
  show ?thesis
  proof (cases op)
    case (Connect new_client now s source)
    with assms none [of s] show ?thesis by (simp add: cm_apply_def op_allowed_def cm_httpConnection_def opening_kept)
  next
    case (ConnectPassthrough new_client s source)
    with assms none [of s] show ?thesis by (simp add: cm_apply_def op_allowed_def passthrough_kept)
  next
    case (CleanUp s n)
    with assms(2) obtain c where "cm_client s m = Some c" "cn_name c = n" by (auto simp: op_allowed_def)
    with some CleanUp show ?thesis by (auto simp: cm_apply_def cleanup_kept [OF assms(1)])
  qed (auto simp: cm_apply_def op_raise_def upload_kept expire_kept assms(1)
      intro!: readRequest_kept readData_kept sendData_kept startData_kept)
qed

lemma reachable_kept:
  assumes "cm_reachable po co holds m0 m" "clients_ok good holds m0"
  shows "clients_ok good holds m \<and> connections_step\<^sup>*\<^sup>* (clients_abs m0) (clients_abs m)"
  using assms
proof induction
  case (step m op m')
  then have "kept good holds (\<lambda>err. op_raise co op m = Some err) m (Inr m')" using apply_kept [of m op] by simp
  with step show ?case by (auto simp: kept_def)
qed simp

end


section \<open>The epoll poller and the HTTP connection provide the contracts\<close>

text \<open>
  The connection of an HTTP client: its two coroutines. The environment is what the socket answers to
  the reads (then it would block) and to a write, and what is in the local file. A command goes with
  the data it takes.
\<close>

record http_client =
  hc_accept_addr :: string
  hc_accept_port :: int
  hc_reader :: reader
  hc_writer :: writer

record http_env =
  he_recv :: "recv_result list"
  he_send :: send_result
  he_file :: "string option"

datatype http_data = Data "string option" | LocalFile string string

definition http_command :: "string \<Rightarrow> http_data \<Rightarrow> start_command res" where
  "http_command command d =
     (case d of
        Data s \<Rightarrow>
          if command = ''stream'' then Inr (Stream s) else if command = ''close'' then Inr (Close s)
          else if command = ''file'' then Inl TypeError else Inr OtherCommand
      | LocalFile header filename \<Rightarrow>
          if command = ''file'' then Inr (File header filename)
          else if command = ''stream'' \<or> command = ''close'' then Inl TypeError else Inr OtherCommand)"

definition http_read :: "http_client \<Rightarrow> read_result \<Rightarrow> (client_read \<times> http_client) res" where
  "http_read c r =
     (case r of
        Yielded request content rd \<Rightarrow>
          Inr (\<lparr>cr_accept_addr = hc_accept_addr c, cr_accept_port = hc_accept_port c, cr_peer = rd_peer rd,
                cr_request = request, cr_subrequest = Some [], cr_content = content\<rparr>, c\<lparr>hc_reader := rd\<rparr>)
      | Raised err _ \<Rightarrow> Inl err
      | Starved \<Rightarrow> Inl AssertionError)"

definition http_ops :: "(http_env, http_client, http_data) client_ops" where
  "http_ops =
     \<lparr>co_readData = (\<lambda>e c. http_read c (client_readData (he_recv e @ [WouldBlock]) (hc_reader c))),
      co_readRelated = (\<lambda>e mode n c. http_read c (client_readRelated mode n (he_recv e @ [WouldBlock]) (hc_reader c))),
      co_writeData = (\<lambda>e data c.
        seq (write_send (he_file e) data (he_send e) (hc_writer c)) (\<lambda>(res, _, w). Inr (res, c\<lparr>hc_writer := w\<rparr>))),
      co_startData = (\<lambda>e command d c.
        seq (http_command command d) (\<lambda>cmd.
        seq (client_startData cmd (he_file e) (he_send e) (w_ipv4 (hc_writer c)) (w_buffer (hc_writer c))) (\<lambda>(res, _, w).
        Inr (res, c\<lparr>hc_writer := w\<rparr>))))\<rparr>"

definition http_holds :: "http_client \<Rightarrow> bool" where
  "http_holds c \<longleftrightarrow> w_buffer (hc_writer c) \<noteq> []"

text \<open>The answers end with one that makes every read return.\<close>

lemma read_loop_returns: "read_loop (answers @ [WouldBlock]) r \<noteq> Starved"
proof (induction answers arbitrary: r)
  case Nil
  have "read_dispatch r' \<noteq> Starved" for r'
    by (auto simp: read_dispatch_def read_end_def Let_def split: option.split sum.split prod.split)
  then show ?case by (subst read_loop.simps) simp
next
  case (Cons a answers)
  have d: "read_dispatch r' \<noteq> Starved" for r'
    by (auto simp: read_dispatch_def read_end_def Let_def split: option.split sum.split prod.split)
  show ?case
    using Cons.IH d by (subst read_loop.simps) (auto simp: read_end_def Let_def split: recv_result.split option.split prod.split)
qed

lemma write_iteration_status:
  assumes "write_iteration data answer w = Inr (Some (b, h, n4, n6), n, w')"
  shows "(w_buffer w' \<noteq> [] \<longrightarrow> b) \<and> (h \<longrightarrow> w_buffer w \<noteq> [])"
  using assms by (auto simp: write_iteration_def write_status_def Let_def split: if_splits send_result.splits)

lemma write_send_status:
  assumes "write_send file data answer w = Inr (Some (b, h, n4, n6), n, w')"
  shows "(w_buffer w' \<noteq> [] \<longrightarrow> b) \<and> (h \<longrightarrow> w_buffer w \<noteq> [])"
  using assms write_iteration_status [of data answer _ b h n4 n6 n w']
  by (cases "w_point w") (fastforce simp: write_send_def found_status_def Let_def seq_eq_Inr_iff split: if_splits option.splits)+

text \<open>After data has been sent, the end mark sends nothing.\<close>

lemma end_mark_keeps:
  assumes "write_iteration None answer w = Inr (res, n, w')"
  shows "w_buffer w' = w_buffer w"
  using assms by (auto simp: write_iteration_def Let_def split: if_splits)

lemma startData_status:
  assumes "client_startData cmd file answer ipv4 buffer = Inr (Some (b, h, n4, n6), n, w')"
  shows "(w_buffer w' \<noteq> [] \<longrightarrow> b) \<and> (h \<longrightarrow> buffer \<noteq> [])"
proof (cases cmd)
  case (Stream data)
  let ?w = "(write_init ipv4 buffer)\<lparr>w_point := WaitFirst, w_found := False\<rparr>"
  have "write_iteration data answer (?w\<lparr>w_finished := False\<rparr>) = Inr (Some (b, h, n4, n6), n, w')"
    using assms Stream by (simp add: client_startData_def write_send_def write_init_def Let_def)
  from write_iteration_status [OF this] show ?thesis by (simp add: write_init_def)
next
  case (Close data)
  let ?w = "(write_init ipv4 buffer)\<lparr>w_point := WaitFirst, w_found := False, w_finished := False\<rparr>"
  obtain w2 n2 n3 res3 where s: "write_iteration data answer ?w = Inr (Some (b, h, n4, n6), n2, w2)"
    "write_send file None answer w2 = Inr (res3, n3, w')"
    using assms Close by (auto simp: client_startData_def write_send_def write_init_def Let_def seq_eq_Inr_iff)
  have "w_point w2 = InLoop"
    using s(1) by (auto simp: write_iteration_def Let_def write_status_def split: if_splits send_result.splits)
  then have "w_buffer w' = w_buffer w2" using s(2) end_mark_keeps by (simp add: write_send_def)
  with write_iteration_status [OF s(1)] show ?thesis by (simp add: write_init_def)
next
  case (File header filename)
  with assms show ?thesis
    by (cases "file") (simp_all add: client_startData_local)
next
  case OtherCommand
  with assms show ?thesis by (simp add: client_startData_def)
qed

lemma http_connection: "client_connection http_ops http_holds"
proof unfold_locales
  fix e data c b h n4 n6 c'
  assume "co_writeData http_ops e data c = Inr (Some (b, h, n4, n6), c')" "http_holds c'"
  then show b by (auto simp: http_ops_def http_holds_def seq_eq_Inr_iff dest: write_send_status)
next
  fix e command d c b h n4 n6 c'
  assume "co_startData http_ops e command d c = Inr (Some (b, h, n4, n6), c')"
  then show "(http_holds c' \<longrightarrow> b) \<and> (h \<longrightarrow> http_holds c)"
    by (auto simp: http_ops_def http_holds_def seq_eq_Inr_iff dest: startData_status)
qed (auto simp: http_ops_def http_holds_def http_read_def split: read_result.splits)

interpretation http_clients: client_manager "ep_ops fileno" "ep_good client_events fileno" http_ops http_holds for fileno
  unfolding client_manager_def using ep_steady http_connection by blast


section \<open>Properties\<close>

lemma clients_ok_init:
  assumes "good p"
  shows "clients_ok good holds (ClientManager_init idle p)" "clients_abs (ClientManager_init idle p) = (0, Map.empty)"
  using assms
  by (auto simp: clients_ok_def table_ok_def writes_ok_def clients_abs_def table_abs_def ClientManager_init_def
      TimeCache_init_def actives_def openings_def)

text \<open>C4: Whatever the clients send and whatever the manager is asked, a new connection having a new socket and a connection being cleaned up under its name, the table of the HTTP clients stays consistent: no socket is both waiting for its request and active, names and sockets match, a connection with data to send is watched for it. An operation raises exactly when the coroutine it runs, that of the connection it is for, raises in its present state, and then that exception; the poller and the tables raise none.\<close>

theorem clients_stay_consistent:
  assumes "ep_good client_events fileno p" "cm_reachable (ep_ops fileno) http_ops http_holds (ClientManager_init idle p) m"
    and "op_allowed http_holds op m"
  shows "clients_ok (ep_good client_events fileno) http_holds m
    \<and> (case cm_apply (ep_ops fileno) http_ops op m of
         Inl err \<Rightarrow> op_raise http_ops op m = Some err
       | Inr m' \<Rightarrow> op_raise http_ops op m = None \<and> clients_ok (ep_good client_events fileno) http_holds m')"
proof -
  from http_clients.reachable_kept [OF assms(2)] clients_ok_init(1) [of "ep_good client_events fileno", OF assms(1)]
  have ok: "clients_ok (ep_good client_events fileno) http_holds m" by blast
  note k = http_clients.apply_kept [OF ok assms(3)]
  show ?thesis
  proof (cases "cm_apply (ep_ops fileno) http_ops op m")
    case (Inl err)
    with k ok show ?thesis by (simp add: kept_def)
  next
    case (Inr m')
    then have "op_raise http_ops op m = None" using apply_raise [of http_ops op m] by (cases "op_raise http_ops op m") auto
    with Inr k ok show ?thesis by (simp add: kept_def)
  qed
qed

definition three_events :: epoller where
  "three_events = \<lparr>ep_sockets = [''read_client'' \<mapsto> 5, ''opening_client'' \<mapsto> 6, ''write_client'' \<mapsto> 7],
     ep_pollers = (\<lambda>i. if i \<in> {5, 6, 7} then
         Some \<lparr>we_name = (if i = 5 then ''read_client'' else if i = 6 then ''opening_client'' else ''write_client''),
               we_sockets = {}, we_fdtosock = Map.empty, we_corked = {}, we_kernel = Map.empty\<rparr>
       else None),
     ep_master = {5, 6, 7}, ep_errors = Map.empty\<rparr>"

lemma three_events_good: "ep_good client_events Some three_events"
  by (auto simp: ep_good_def epoller_ok_def entry_ok_def three_events_def client_events_def ep_known_def ep_entry_def
      read_client_def opening_client_def write_client_def split: if_splits)

definition new_http_client :: "string \<Rightarrow> http_client" where
  "new_http_client name = \<lparr>hc_accept_addr = ''10.0.0.1'', hc_accept_port = 3128,
     hc_reader = client_read_init False ''10.0.0.2'' 0, hc_writer = (write_init True [])\<lparr>w_point := Unstarted\<rparr>\<rparr>"

lemma connect_allowed:
  "op_allowed http_holds (Connect new_http_client 0 3 ''proxy'') (ClientManager_init 5 three_events)"
  by (simp add: op_allowed_def http_holds_def new_http_client_def write_init_def cm_client_def ClientManager_init_def TimeCache_init_def)

theorem clients_stay_consistent_witness:
  "clients_ok (ep_good client_events Some) http_holds (ClientManager_init 5 three_events)
    \<and> (case cm_apply (ep_ops Some) http_ops (Connect new_http_client 0 3 ''proxy'') (ClientManager_init 5 three_events) of
         Inl err \<Rightarrow> op_raise http_ops (Connect new_http_client 0 3 ''proxy'') (ClientManager_init 5 three_events) = Some err
       | Inr m' \<Rightarrow> op_raise http_ops (Connect new_http_client 0 3 ''proxy'') (ClientManager_init 5 three_events) = None
           \<and> clients_ok (ep_good client_events Some) http_holds m')"
  by (rule clients_stay_consistent [OF three_events_good cm_reachable.start connect_allowed])

text \<open>C5: The manager implements the life of a connection: it is given a name that was never given before, it is opening until its first request has been read and active from then on, and it is forgotten. Every operation is a sequence of such steps, of any connections, for the table.\<close>

theorem clients_refine_connections:
  assumes "ep_good client_events fileno p" "cm_reachable (ep_ops fileno) http_ops http_holds (ClientManager_init idle p) m"
    and "op_allowed http_holds op m" "cm_apply (ep_ops fileno) http_ops op m = Inr m'"
  shows "connections_step\<^sup>*\<^sup>* (0, Map.empty) (clients_abs m)
    \<and> connections_step\<^sup>*\<^sup>* (clients_abs m) (clients_abs m')"
proof -
  note init = clients_ok_init [of "ep_good client_events fileno", OF assms(1)]
  from http_clients.reachable_kept [OF assms(2) init(1)] have
    m: "clients_ok (ep_good client_events fileno) http_holds m" "connections_step\<^sup>*\<^sup>* (0, Map.empty) (clients_abs m)"
    unfolding init(2) by simp_all
  from http_clients.apply_kept [OF m(1) assms(3)] assms(4) m(2) show ?thesis by (simp add: kept_def)
qed

theorem clients_refine_connections_witness:
  "\<exists>m'. cm_apply (ep_ops Some) http_ops (Connect new_http_client 0 3 ''proxy'') (ClientManager_init 5 three_events) = Inr m'
     \<and> connections_step\<^sup>*\<^sup>* (0, Map.empty) (clients_abs m')"
proof -
  have "cm_apply (ep_ops Some) http_ops (Connect new_http_client 0 3 ''proxy'') (ClientManager_init 5 three_events) \<noteq> Inl err" for err
    by (auto simp: cm_apply_def cm_httpConnection_def opening_connection_def cm_getnextid_def ClientManager_init_def
        on_poller_def ep_ops_def EPoller_addReadSocket_def EPoller_add_def ep_entry_def three_events_def opening_client_def
        kernel_register_def)
  then obtain m' where m': "cm_apply (ep_ops Some) http_ops (Connect new_http_client 0 3 ''proxy'') (ClientManager_init 5 three_events) = Inr m'"
    by (metis sum.exhaust)
  from clients_refine_connections [OF three_events_good cm_reachable.start connect_allowed m']
    clients_ok_init(2) [of "ep_good client_events Some", OF three_events_good]
  show ?thesis using m' by auto
qed

end
