(* ===== verification/Content.thy ===== *)
theory Content
  imports NetAddr HTTPClient
begin

text \<open>
  \<open>lib/exaproxy/reactor/content/worker.py\<close>: the connection to a web server. What \<open>connect\<close> and the
  socket answer is a parameter.
\<close>

record downloader =
  dl_client :: nat
  dl_sock :: nat
  dl_host :: string
  dl_port :: int
  dl_kind :: string
  dl_w_buffer :: string
  dl_ipv4 :: bool

text \<open>
  The constructor. One whose connection cannot be made has no socket; \<open>getDownloader\<close> drops it at once,
  and it is \<open>None\<close> here.
\<close>

type_synonym connecting = "string \<Rightarrow> int \<Rightarrow> string \<Rightarrow> nat option res"

definition Content_new :: "connecting \<Rightarrow> nat \<Rightarrow> string \<Rightarrow> int \<Rightarrow> string \<Rightarrow> string \<Rightarrow> string \<Rightarrow> downloader option res" where
  "Content_new connect client host port bind kind request =
     seq (connect host port bind) (\<lambda>sock.
     seq (isipv4 host) (\<lambda>v4.
     Inr (map_option (\<lambda>s. \<lparr>dl_client = client, dl_sock = s, dl_host = host, dl_port = port, dl_kind = kind,
            dl_w_buffer = request, dl_ipv4 = v4\<rparr>) sock)))"

text \<open>\<open>writeData\<close>: whether data is left, \<open>None\<close> for an error, and the bytes sent over IPv4 and over IPv6.\<close>

definition Content_writeData :: "send_result \<Rightarrow> string \<Rightarrow> downloader \<Rightarrow> (bool option \<times> nat \<times> nat) \<times> downloader" where
  "Content_writeData answer data d =
     (let w_buffer = dl_w_buffer d @ data;
          (res, sent, left) =
            (case answer of
               Sent n \<Rightarrow> (Some (drop n w_buffer \<noteq> []), n, drop n w_buffer)
             | SendBlocked \<Rightarrow> (Some (w_buffer \<noteq> []), 0, w_buffer)
             | SendError \<Rightarrow> (None, 0, w_buffer))
      in ((res, if dl_ipv4 d then sent else 0, if dl_ipv4 d then 0 else sent), d\<lparr>dl_w_buffer := left\<rparr>))"

definition Content_startConversation :: "send_result \<Rightarrow> downloader \<Rightarrow> (nat \<times> bool \<times> string) \<times> downloader" where
  "Content_startConversation answer d =
     (let ((res, _, _), d') = Content_writeData answer [] d
      in ((dl_client d, res \<noteq> None,
           if dl_kind d = ''connect'' then ''HTTP/1.1 200 Connection Established'' @ CRLF @ CRLF else []), d'))"

definition Content_readData :: "recv_result \<Rightarrow> string option" where
  "Content_readData answer =
     (case answer of
        Received data \<Rightarrow> if data = [] then None else Some data
      | WouldBlock \<Rightarrow> Some []
      | SocketError \<Rightarrow> None)"

definition Content_bufferData :: "string \<Rightarrow> downloader \<Rightarrow> bool \<times> downloader" where
  "Content_bufferData data d =
     (let w_buffer = dl_w_buffer d @ data in (w_buffer \<noteq> [], d\<lparr>dl_w_buffer := w_buffer\<rparr>))"

section \<open>Lemmas\<close>

text \<open>Only the buffer of a connection ever changes.\<close>

lemma Content_writeData_same: "Content_writeData answer data d = (r, d') \<Longrightarrow> \<exists>b. d' = d\<lparr>dl_w_buffer := b\<rparr>"
  by (auto simp: Content_writeData_def Let_def split: send_result.splits)

lemma Content_startConversation_same: "Content_startConversation answer d = (r, d') \<Longrightarrow> \<exists>b. d' = d\<lparr>dl_w_buffer := b\<rparr>"
  by (auto simp: Content_startConversation_def Let_def split: prod.splits dest: Content_writeData_same)

lemma Content_bufferData_same: "Content_bufferData data d = (r, d') \<Longrightarrow> \<exists>b. d' = d\<lparr>dl_w_buffer := b\<rparr>"
  by (auto simp: Content_bufferData_def Let_def)

text \<open>What the socket took, then what is kept, is what was kept, then the data.\<close>

definition took :: "send_result \<Rightarrow> nat" where
  "took answer = (case answer of Sent n \<Rightarrow> n | _ \<Rightarrow> 0)"

lemma Content_writeData_bytes:
  "Content_writeData answer data d = ((res, n4, n6), d') \<Longrightarrow>
    take (took answer) (dl_w_buffer d @ data) @ dl_w_buffer d' = dl_w_buffer d @ data
    \<and> n4 + n6 = took answer \<and> (if dl_ipv4 d then n6 else n4) = 0
    \<and> (res = None \<longleftrightarrow> answer = SendError) \<and> (res = Some True \<longleftrightarrow> answer \<noteq> SendError \<and> dl_w_buffer d' \<noteq> [])"
  by (cases answer) (auto simp: Content_writeData_def took_def Let_def simp del: drop_append take_append)

end
