(* ===== verification/PyPath.thy ===== *)
theory PyPath
  imports PyStr
begin

text \<open>
  What the proxy uses of \<open>os.path\<close> (the \<open>posixpath\<close> of Python 2): \<open>join\<close> of two paths and \<open>normpath\<close>,
  with the lemma that a normalised absolute path has no component \<open>..\<close>; and the \<open>%\<close> of a string and a
  dictionary.
\<close>

section \<open>Paths\<close>

abbreviation SEP :: char where "SEP \<equiv> CHR ''/''"

definition path_join :: "string \<Rightarrow> string \<Rightarrow> string" where
  "path_join a b =
     (if prefix [SEP] b then b
      else if a = [] \<or> suffix [SEP] a then a @ b
      else a @ SEP # b)"

text \<open>
  The loop of \<open>normpath\<close>: \<open>root\<close> is whether the path begins with a slash, \<open>comps\<close> the components kept so
  far, the last one first.
\<close>

fun normpath_loop :: "bool \<Rightarrow> string list \<Rightarrow> string list \<Rightarrow> string list" where
  "normpath_loop root comps [] = comps"
| "normpath_loop root comps (c # cs) =
     (if c = [] \<or> c = ''.'' then normpath_loop root comps cs
      else if c \<noteq> ''..'' \<or> (\<not> root \<and> comps = []) \<or> (comps \<noteq> [] \<and> hd comps = ''..'') then normpath_loop root (c # comps) cs
      else normpath_loop root (tl comps) cs)"

definition path_slashes :: "string \<Rightarrow> string" where
  "path_slashes p =
     (if \<not> prefix ''/'' p then []
      else if prefix ''//'' p \<and> \<not> prefix ''///'' p then ''//''
      else ''/'')"

definition normpath :: "string \<Rightarrow> string" where
  "normpath p =
     (if p = [] then ''.''
      else
        let q = path_slashes p @ py_join ''/'' (rev (normpath_loop (prefix ''/'' p) [] (split_on SEP p))) in
        if q = [] then ''.'' else q)"

text \<open>Below a root, no component \<open>..\<close> is kept, and those kept are components of the path.\<close>

lemma normpath_loop_root:
  "c \<in> set (normpath_loop True comps cs) \<Longrightarrow> ''..'' \<notin> set comps \<Longrightarrow>
    (c \<in> set comps \<or> c \<in> set cs) \<and> c \<noteq> ''..'' \<and> (c \<in> set comps \<or> c \<noteq> [])"
proof (induction True comps cs rule: normpath_loop.induct)
  case (2 comps d cs)
  have "set (tl comps) \<subseteq> set comps" by (cases comps) auto
  moreover have "hd comps \<noteq> ''..''" if "comps \<noteq> []" using that "2.prems"(2) by (cases comps) auto
  ultimately show ?case using 2 by (auto split: if_splits)
qed auto

lemma split_on_join:
  assumes "\<And>w. w \<in> set ws \<Longrightarrow> c \<notin> set w"
  shows "set (split_on c (py_join [c] ws)) \<subseteq> insert [] (set ws)"
  using assms
proof (induction ws)
  case (Cons w ws)
  then show ?case by (cases ws) (auto simp: split_on_id)
qed simp

text \<open>The components of a normalised absolute path.\<close>

lemma normpath_absolute:
  assumes "prefix ''/'' p"
  shows "''..'' \<notin> set (split_on SEP (normpath p))" "prefix ''/'' (normpath p)"
proof -
  let ?ws = "rev (normpath_loop True [] (split_on SEP p))"
  have w: "w \<in> set ?ws \<Longrightarrow> SEP \<notin> set w \<and> w \<noteq> ''..''" for w
    using normpath_loop_root [of w "[]" "split_on SEP p"] split_on_notin [of w SEP p] by simp
  obtain s where s: "path_slashes p = s" "s = ''/'' \<or> s = ''//''" using assms by (auto simp: path_slashes_def)
  have n: "normpath p = s @ py_join ''/'' ?ws" using assms s by (auto simp: normpath_def Let_def)
  have "set (split_on SEP (py_join ''/'' ?ws)) \<subseteq> insert [] (set ?ws)" by (rule split_on_join) (use w in blast)
  then have "''..'' \<notin> set (split_on SEP (py_join ''/'' ?ws))" using w by blast
  then show "''..'' \<notin> set (split_on SEP (normpath p))" using s(2) n by auto
  show "prefix ''/'' (normpath p)" using s(2) n by auto
qed

lemma path_join_absolute: "prefix ''/'' a \<Longrightarrow> prefix ''/'' (path_join a b)"
  by (auto simp: path_join_def)

text \<open>What follows a component of a path has components of the path only.\<close>

lemma split_on_suffix: "''..'' \<notin> set (split_on SEP (a @ SEP # b)) \<Longrightarrow> ''..'' \<notin> set (split_on SEP b)"
proof (induction a rule: length_induct)
  case (1 a)
  show ?case
  proof (cases "SEP \<in> set a")
    case True
    then obtain u v where a: "a = u @ SEP # v" "SEP \<notin> set u" by (metis split_list_first)
    with 1 show ?thesis by auto
  next
    case False
    with 1 show ?thesis by simp
  qed
qed

section \<open>Formatting with a dictionary\<close>

text \<open>
  \<open>body % data\<close> for a dictionary of strings: \<open>%%\<close> and \<open>%(key)s\<close>. Every other use of \<open>%\<close> is given to
  \<open>other\<close>, what Python's formatting makes of the text after the \<open>%\<close>: the text produced and what is left, which is
  always shorter.
\<close>

type_synonym format_other = "string \<Rightarrow> (string \<rightharpoonup> string) \<Rightarrow> (string \<times> string) res"

definition format_key :: "string \<Rightarrow> (string \<times> string) option" where
  "format_key s =
     (case s of
        c # cs \<Rightarrow>
          if c = CHR ''('' then
            (case py_split1 '')'' cs of
               Some (key, d # rest) \<Rightarrow> if d = CHR ''s'' \<and> CHR ''('' \<notin> set key then Some (key, rest) else None
             | _ \<Rightarrow> None)
          else None
      | [] \<Rightarrow> None)"

lemma format_key_length: "format_key s = Some (key, rest) \<Longrightarrow> length rest < length s"
  by (auto simp: format_key_def split: list.splits option.splits if_splits dest: py_split1_Some)

function py_format :: "format_other \<Rightarrow> (string \<rightharpoonup> string) \<Rightarrow> string \<Rightarrow> string res" where
  "py_format other data s =
     (case s of
        [] \<Rightarrow> Inr []
      | c # cs \<Rightarrow>
          if c \<noteq> CHR ''%'' then seq (py_format other data cs) (\<lambda>t. Inr (c # t))
          else if prefix ''%'' cs then seq (py_format other data (tl cs)) (\<lambda>t. Inr (CHR ''%'' # t))
          else
            (case format_key cs of
               Some (key, rest) \<Rightarrow>
                 seq (or_raise KeyError (data key)) (\<lambda>v. seq (py_format other data rest) (\<lambda>t. Inr (v @ t)))
             | None \<Rightarrow>
                 seq (other cs data) (\<lambda>(u, rest).
                 if length rest < length s then seq (py_format other data rest) (\<lambda>t. Inr (u @ t)) else Inl ValueError)))"
  by pat_completeness auto
termination
  by (relation "measure (\<lambda>(_, _, s). length s)") (auto dest: format_key_length)

declare py_format.simps [simp del]

lemma py_format_plain: "CHR ''%'' \<notin> set s \<Longrightarrow> py_format other data s = Inr s"
proof (induction s)
  case (Cons c s)
  then have "py_format other data s = Inr s" "c \<noteq> CHR ''%''" by auto
  then show ?case by (simp add: py_format.simps [of other data "c # s"])
qed (simp add: py_format.simps)

end
