(* ===== verification/ContentManager.thy ===== *)
theory ContentManager
  imports Complex_Main Content PyPath RedirectorResponse ClientManager
begin

text \<open>
  \<open>lib/exaproxy/reactor/content/manager.py\<close>: the connections to the web servers and the local content
  that is served instead. The connections are objects that three dictionaries share: they live in a
  store and the dictionaries hold their places in it.
\<close>

section \<open>State\<close>

datatype port_pattern = AnyPort | OnPort int

record content_conf =
  cc_location :: string
  cc_bind4 :: string
  cc_bind6 :: string
  cc_deny :: "(nat \<times> nat \<times> nat) list"
  cc_local :: "(string \<times> port_pattern) list"

text \<open>
  What the file system says of a path: whether it is a regular file, its size and time of
  modification (\<open>None\<close>: \<open>os.stat\<close> raises) and what reading it gives (\<open>None\<close>: \<open>IOError\<close>).
\<close>

record file_state =
  fs_isfile :: bool
  fs_stat :: "(nat \<times> rat) option"
  fs_read :: "string option"

text \<open>
  What surrounds an operation: \<open>connect\<close>, what a socket answers to a read and to a write, the files, what
  Python formats other than \<open>%(key)s\<close>, the page of the monitor, the addresses of this machine
  (\<open>supervisor.local\<close>) and what the answers tell of the proxy.
\<close>

record content_env =
  ce_connect :: connecting
  ce_send :: send_result
  ce_recv :: recv_result
  ce_files :: "string \<Rightarrow> file_state"
  ce_other :: format_other
  ce_page :: "string \<Rightarrow> string res"
  ce_local :: "string set"
  ce_info :: server_info

record 'p contents =
  ct_total_sent4 :: nat
  ct_total_sent6 :: nat
  ct_store :: "downloader list"
  ct_opening :: "sock \<rightharpoonup> nat"
  ct_established :: "sock \<rightharpoonup> nat"
  ct_byclient :: "sock \<rightharpoonup> nat"
  ct_buffered :: "sock list"
  ct_header :: "string \<rightharpoonup> nat \<times> string"
  ct_shut :: "sock set"
  ct_poller :: 'p

definition ContentManager_init :: "'p \<Rightarrow> 'p contents" where
  "ContentManager_init p =
     \<lparr>ct_total_sent4 = 0, ct_total_sent6 = 0, ct_store = [], ct_opening = Map.empty, ct_established = Map.empty,
      ct_byclient = Map.empty, ct_buffered = [], ct_header = Map.empty, ct_shut = {}, ct_poller = p\<rparr>"

definition read_download :: event_name where "read_download = ''read_download''"
definition write_download :: event_name where "write_download = ''write_download''"
definition opening_download :: event_name where "opening_download = ''opening_download''"

definition ct_on_poller :: "('p \<Rightarrow> 'p res) \<Rightarrow> 'p contents \<Rightarrow> 'p contents res" where
  "ct_on_poller f m = seq (f (ct_poller m)) (\<lambda>p. Inr (m\<lparr>ct_poller := p\<rparr>))"

abbreviation ct_at :: "'p contents \<Rightarrow> nat \<Rightarrow> downloader" where
  "ct_at m o' \<equiv> ct_store m ! o'"

definition ct_set :: "nat \<Rightarrow> downloader \<Rightarrow> 'p contents \<Rightarrow> 'p contents" where
  "ct_set o' d m = m\<lparr>ct_store := (ct_store m)[o' := d]\<rparr>"

definition ct_hasClient :: "sock \<Rightarrow> 'p contents \<Rightarrow> bool" where
  "ct_hasClient client m \<longleftrightarrow> ct_byclient m client \<noteq> None"

section \<open>Local content\<close>

text \<open>
  The path of a file below the location, empty for one that is not; and whether it is a file:
  \<open>os.path.isfile\<close> raises \<open>TypeError\<close> for a path with a NUL byte.
\<close>

definition local_filename :: "content_conf \<Rightarrow> string \<Rightarrow> string" where
  "local_filename cf name =
     (let filename = normpath (path_join (cc_location cf) name)
      in if prefix (cc_location cf @ [SEP]) filename then filename else [])"

definition py_isfile :: "content_env \<Rightarrow> string \<Rightarrow> bool res" where
  "py_isfile ce filename =
     (if filename = [] then Inr False
      else if CHR 0x00 \<in> set filename then Inl TypeError
      else Inr (fs_isfile (ce_files ce filename)))"

text \<open>The command for the client and its data.\<close>

type_synonym content = "(string option \<times> http_data) option"

definition close_with :: "string \<Rightarrow> content" where
  "close_with s = Some (Some ''close'', Data (Some s))"

definition fresh_header :: "nat \<times> rat \<Rightarrow> (nat \<times> string) option \<Rightarrow> bool" where
  "fresh_header stat cached = (case cached of None \<Rightarrow> False | Some (cache_time, _) \<Rightarrow> \<not> of_nat cache_time < snd stat)"

definition getLocalContent :: "content_conf \<Rightarrow> content_env \<Rightarrow> string \<Rightarrow> string \<Rightarrow> 'p contents \<Rightarrow> (content \<times> 'p contents) res" where
  "getLocalContent cf ce code name m =
     (let filename = local_filename cf name in
      seq (py_isfile ce filename) (\<lambda>isfile.
      if isfile then
        seq (or_raise OSFailure (fs_stat (ce_files ce filename))) (\<lambda>stat.
        if fresh_header stat (ct_header m filename) then
          Inr (Some (Some ''file'', LocalFile (snd (the (ct_header m filename))) filename), m)
        else
          let header = file_header (ce_info ce) (StrCode code) (fst stat) ''1.1'' in
          Inr (Some (Some ''file'', LocalFile header filename),
               m\<lparr>ct_header := (ct_header m)(filename \<mapsto> (fst stat, header))\<rparr>))
      else
        Inr (close_with (http_reply (ce_info ce) (IntCode 501) (''could not serve missing file '' @ filename) ''1.1''), m)))"

definition missing_file :: "content_env \<Rightarrow> string \<Rightarrow> content" where
  "missing_file ce reason =
     close_with (http_reply (ce_info ce) (IntCode 501) (''could not serve missing file  '' @ reason) ''1.1'')"

definition readLocalContent :: "content_conf \<Rightarrow> content_env \<Rightarrow> string \<Rightarrow> string \<Rightarrow> (string \<rightharpoonup> string) \<Rightarrow> content res" where
  "readLocalContent cf ce code reason data =
     (let filename = local_filename cf reason in
      seq (py_isfile ce filename) (\<lambda>isfile.
      if isfile then
        (case fs_read (ce_files ce filename) of
           None \<Rightarrow> Inr (missing_file ce reason)
         | Some bytes \<Rightarrow>
             seq (py_format (ce_other ce) data bytes) (\<lambda>body.
             Inr (close_with (http_reply (ce_info ce) (StrCode code) body ''1.1''))))
      else Inr (missing_file ce reason)))"

section \<open>The connections\<close>

text \<open>\<open>_terminate\<close>: of an established connection, or else of an opening one.\<close>

definition ct_drop :: "'p poller_ops \<Rightarrow> sock \<Rightarrow> sock \<Rightarrow> nat \<Rightarrow> 'p contents \<Rightarrow> 'p contents res" where
  "ct_drop po sock client o' m =
     (let m1 = m\<lparr>ct_established := (ct_established m)(sock := None), ct_opening := (ct_opening m)(sock := None),
                 ct_byclient := (ct_byclient m)(client := None)\<rparr> in
      seq (if sock \<in> set (ct_buffered m1) then
             ct_on_poller (po_removeWrite po write_download (dl_sock (ct_at m o')))
               (m1\<lparr>ct_buffered := remove1 sock (ct_buffered m1)\<rparr>)
           else Inr m1) (\<lambda>m2.
      Inr (m2\<lparr>ct_shut := insert (dl_sock (ct_at m o')) (ct_shut m2)\<rparr>)))"

definition ct_terminate :: "'p poller_ops \<Rightarrow> sock \<Rightarrow> sock \<Rightarrow> 'p contents \<Rightarrow> (bool \<times> 'p contents) res" where
  "ct_terminate po sock client m =
     (case ct_established m sock of
        Some o' \<Rightarrow>
          seq (ct_on_poller (po_removeRead po read_download (dl_sock (ct_at m o'))) m) (\<lambda>m1.
          seq (ct_drop po sock client o' m1) (\<lambda>m2. Inr (True, m2)))
      | None \<Rightarrow>
          (case ct_opening m sock of
             Some o' \<Rightarrow>
               seq (ct_on_poller (po_removeWrite po opening_download (dl_sock (ct_at m o'))) m) (\<lambda>m1.
               seq (ct_drop po sock client o' m1) (\<lambda>m2. Inr (True, m2)))
           | None \<Rightarrow> Inr (False, m)))"

definition ct_endClientDownload :: "'p poller_ops \<Rightarrow> sock \<Rightarrow> 'p contents \<Rightarrow> (bool \<times> 'p contents) res" where
  "ct_endClientDownload po client m =
     (case ct_byclient m client of
        None \<Rightarrow> Inr (False, m)
      | Some o' \<Rightarrow> ct_terminate po (dl_sock (ct_at m o')) client m)"

text \<open>The address as a number, and the lists of the configuration: what is denied, and the local services that are not.\<close>

definition number_of_bytes :: "nat list \<Rightarrow> nat" where
  "number_of_bytes bs = foldl (\<lambda>n b. n * 256 + b) 0 bs"

definition host_number :: "string \<Rightarrow> (nat \<times> nat) res" where
  "host_number host =
     (if CHR '':'' \<in> set host then
        seq (or_raise SocketFailure (inet_pton6 host)) (\<lambda>bs.
        Inr (6, number_of_bytes (take 8 bs) * 2 ^ 64 + number_of_bytes (drop 8 bs)))
      else
        seq (or_raise SocketFailure (inet_pton4 host)) (\<lambda>bs. Inr (4, number_of_bytes bs)))"

definition denied :: "(nat \<times> nat \<times> nat) list \<Rightarrow> string \<Rightarrow> bool res" where
  "denied deny host =
     (if deny = [] then Inr False
      else seq (host_number host) (\<lambda>(pr, ip). Inr (\<exists>(proto, start, stop) \<in> set deny. pr = proto \<and> start \<le> ip \<and> ip \<le> stop)))"

definition local_refused :: "content_conf \<Rightarrow> content_env \<Rightarrow> string \<Rightarrow> int \<Rightarrow> bool" where
  "local_refused cf ce host port \<longleftrightarrow>
     host \<in> ce_local ce
     \<and> \<not> (\<exists>(h, p) \<in> set (cc_local cf). (h = ''*'' \<or> h = host) \<and> (p = AnyPort \<or> p = OnPort port))"

text \<open>
  \<open>getDownloader\<close>: the connection to use, as its place in the store, and whether it is new. The first step
  is what is left of the connection the client has: it is ended when it is to another site.
\<close>

definition current_download :: "'p poller_ops \<Rightarrow> sock \<Rightarrow> string \<Rightarrow> int \<Rightarrow> 'p contents \<Rightarrow> (nat option \<times> 'p contents) res" where
  "current_download po client host port m =
     (case ct_byclient m client of
        None \<Rightarrow> Inr (None, m)
      | Some o' \<Rightarrow>
          if host \<noteq> dl_host (ct_at m o') \<or> port \<noteq> dl_port (ct_at m o') then
            seq (ct_endClientDownload po client m) (\<lambda>(_, m1). Inr (None, m1))
          else Inr (Some o', m))"

definition getDownloader :: "'p poller_ops \<Rightarrow> content_conf \<Rightarrow> content_env \<Rightarrow> sock \<Rightarrow> string \<Rightarrow> int \<Rightarrow> string \<Rightarrow> string \<Rightarrow>
    'p contents \<Rightarrow> ((nat option \<times> bool) \<times> 'p contents) res" where
  "getDownloader po cf ce client host port command request m =
     seq (current_download po client host port m) (\<lambda>(current, m1).
     seq (isipv4 host) (\<lambda>v4.
     seq (if v4 then Inr (Some (cc_bind4 cf))
          else seq (isipv6 host) (\<lambda>v6. Inr (if v6 then Some (cc_bind6 cf) else None))) (\<lambda>bind.
     case bind of
       None \<Rightarrow> Inr ((None, False), m1)
     | Some b \<Rightarrow>
         (case current of
            Some o' \<Rightarrow> Inr ((Some o', False), m1)
          | None \<Rightarrow>
              seq (denied (cc_deny cf) host) (\<lambda>deny.
              if deny then Inr ((None, False), m1)
              else if local_refused cf ce host port then Inr ((None, False), m1)
              else
                seq (Content_new (ce_connect ce) client host port b command request) (\<lambda>new.
                case new of
                  None \<Rightarrow> Inr ((None, False), m1)
                | Some d \<Rightarrow> Inr ((Some (length (ct_store m1)), True), m1\<lparr>ct_store := ct_store m1 @ [d]\<rparr>)))))))"

text \<open>
  A write to a connection, with the totals; the socket enters or leaves the list of those with data to
  send. \<open>again\<close> is the change reported for one that is in the list and stays.
\<close>

definition ct_write :: "'p poller_ops \<Rightarrow> content_env \<Rightarrow> bool \<Rightarrow> sock \<Rightarrow> nat \<Rightarrow> string \<Rightarrow> 'p contents \<Rightarrow>
    ((bool option \<times> bool option) \<times> 'p contents) res" where
  "ct_write po ce again sock o' data m =
     (let ((buffered, sent4, sent6), d) = Content_writeData (ce_send ce) data (ct_at m o');
          m1 = (ct_set o' d m)\<lparr>ct_total_sent4 := ct_total_sent4 m + sent4, ct_total_sent6 := ct_total_sent6 m + sent6\<rparr> in
      if buffered = Some True then
        if sock \<notin> set (ct_buffered m1) then
          seq (ct_on_poller (po_addWrite po write_download sock) (m1\<lparr>ct_buffered := ct_buffered m1 @ [sock]\<rparr>)) (\<lambda>m2.
          Inr ((buffered, Some True), m2))
        else Inr ((buffered, Some again), m1)
      else if sock \<in> set (ct_buffered m1) then
        seq (ct_on_poller (po_removeWrite po write_download sock) (m1\<lparr>ct_buffered := remove1 sock (ct_buffered m1)\<rparr>)) (\<lambda>m2.
        Inr ((buffered, Some True), m2))
      else Inr ((buffered, Some False), m1))"

section \<open>Enacting a decision\<close>

text \<open>
  What the branch of a command leaves for the end of \<open>getContent\<close>. \<open>request\<close> is not assigned by the branch
  of \<open>connect\<close> and \<open>intercept\<close> (\<open>None\<close> here): its use is then an \<open>UnboundLocalError\<close>.
\<close>

record content_plan =
  pl_downloader :: "nat option"
  pl_new :: bool
  pl_request :: "string option"
  pl_content :: content
  pl_length :: remaining

definition local_plan :: "content \<Rightarrow> remaining \<Rightarrow> content_plan" where
  "local_plan content len =
     \<lparr>pl_downloader = None, pl_new = False, pl_request = Some [], pl_content = content, pl_length = len\<rparr>"

definition stream_with :: "string \<Rightarrow> content" where
  "stream_with s = Some (Some ''stream'', Data (Some s))"

text \<open>
  \<open>a, b, c = args\<close>: a string is a sequence of its characters; \<open>ValueError\<close> and \<open>TypeError\<close> both become
  \<open>ParsingError\<close> (\<open>None\<close>). Where the code takes \<open>args\<close> for a string, the encoder has made it one.
\<close>

definition unpack :: "nat \<Rightarrow> 'm decision \<Rightarrow> string list option" where
  "unpack n args =
     (case args of
        Fields xs \<Rightarrow> if length xs = n then Some xs else None
      | Text s \<Rightarrow> if length s = n then Some (map (\<lambda>c. [c]) s) else None
      | _ \<Rightarrow> None)"

definition decision_text :: "'m decision \<Rightarrow> string res" where
  "decision_text args = (case args of Text s \<Rightarrow> Inr s | _ \<Rightarrow> Inl TypeError)"

definition given_length :: "string \<Rightarrow> remaining res" where
  "given_length len = (if py_isdigit len then seq (py_int len) (\<lambda>n. Inr (RemainingBytes n)) else Inr (RemainingText len))"

definition parsing_failed :: content_plan where
  "parsing_failed = local_plan None (RemainingBytes 0)"

definition plan_local_file :: "content_conf \<Rightarrow> content_env \<Rightarrow> string \<Rightarrow> string \<Rightarrow> 'p contents \<Rightarrow> (content_plan \<times> 'p contents) res" where
  "plan_local_file cf ce code name m =
     seq (getLocalContent cf ce code name m) (\<lambda>(content, m1). Inr (local_plan content (RemainingBytes 0), m1))"

definition plan_download :: "'p poller_ops \<Rightarrow> content_conf \<Rightarrow> content_env \<Rightarrow> sock \<Rightarrow> string list \<Rightarrow> 'p contents \<Rightarrow>
    (content_plan \<times> 'p contents) res" where
  "plan_download po cf ce client args m =
     (let host = args ! 0; port = args ! 1; upgrade = args ! 2; len = args ! 3; request = args ! 4 in
      seq (py_int port) (\<lambda>p.
      seq (getDownloader po cf ce client host p ''download'' request m) (\<lambda>((downloader, new), m1).
      case downloader of
        None \<Rightarrow> plan_local_file cf ce ''400'' ''noconnect.html'' m1
      | Some o' \<Rightarrow>
          seq (if upgrade \<in> {[], ''http/1.0'', ''http/1.1''} then given_length len else Inr (RemainingBytes (-1))) (\<lambda>l.
          Inr (\<lparr>pl_downloader = Some o', pl_new = new, pl_request = Some request, pl_content = stream_with [],
                pl_length = l\<rparr>, m1)))))"

definition plan_connect :: "'p poller_ops \<Rightarrow> content_conf \<Rightarrow> content_env \<Rightarrow> sock \<Rightarrow> string \<Rightarrow> string list \<Rightarrow> 'p contents \<Rightarrow>
    (content_plan \<times> 'p contents) res" where
  "plan_connect po cf ce client command args m =
     (let host = args ! 0; port = args ! 1; data = args ! 2 in
      seq (py_int port) (\<lambda>p.
      seq (getDownloader po cf ce client host p command data m) (\<lambda>((downloader, new), m1).
      case downloader of
        Some o' \<Rightarrow>
          Inr (\<lparr>pl_downloader = Some o', pl_new = new, pl_request = None, pl_content = stream_with [],
                pl_length = RemainingBytes (-1)\<rparr>, m1)
      | None \<Rightarrow>
          if command = ''connect'' then plan_local_file cf ce ''400'' ''noconnect.html'' m1
          else Inr (local_plan (close_with []) (RemainingBytes 0), m1))))"

definition redirect_headers :: "string \<Rightarrow> string" where
  "redirect_headers url =
     ''HTTP/1.1 302 Surfprotected'' @ CRLF @ ''Cache-Control: no-store'' @ CRLF @ ''Location: '' @ url @ CRLF @ CRLF @ CRLF"

definition plan_content :: "'p poller_ops \<Rightarrow> content_conf \<Rightarrow> content_env \<Rightarrow> sock \<Rightarrow> string option \<Rightarrow> 'm decision \<Rightarrow> 'p contents \<Rightarrow>
    (content_plan \<times> 'p contents) res" where
  "plan_content po cf ce client command args m =
     (let unpacked = (\<lambda>n f. case unpack n args of None \<Rightarrow> Inr (parsing_failed, m) | Some xs \<Rightarrow> f xs) in
      if command = Some ''download'' then unpacked 5 (\<lambda>xs. plan_download po cf ce client xs m)
      else if command = Some ''connect'' then unpacked 3 (\<lambda>xs. plan_connect po cf ce client ''connect'' xs m)
      else if command = Some ''intercept'' then unpacked 3 (\<lambda>xs. plan_connect po cf ce client ''intercept'' xs m)
      else if command = Some ''redirect'' then
        seq (decision_text args) (\<lambda>url. Inr (local_plan (close_with (redirect_headers url)) (RemainingBytes 0), m))
      else if command = Some ''http'' then
        seq (decision_text args) (\<lambda>s. Inr (local_plan (close_with s) (RemainingBytes 0), m))
      else if command = Some ''icap'' then
        unpacked 2 (\<lambda>xs. seq (given_length (xs ! 1)) (\<lambda>l. Inr (local_plan (stream_with (xs ! 0)) l, m)))
      else if command = Some ''file'' then unpacked 2 (\<lambda>xs. plan_local_file cf ce (xs ! 0) (xs ! 1) m)
      else if command = Some ''rewrite'' then
        unpacked 7 (\<lambda>xs.
          seq (readLocalContent cf ce (xs ! 0) (xs ! 1)
                 [''url'' \<mapsto> xs ! 4, ''host'' \<mapsto> xs ! 5, ''client_ip'' \<mapsto> xs ! 6, ''protocol'' \<mapsto> xs ! 3, ''comment'' \<mapsto> xs ! 2])
            (\<lambda>content. Inr (local_plan content (RemainingBytes 0), m)))
      else if command = Some ''monitor'' then
        seq (decision_text args) (\<lambda>path.
        seq (ce_page ce path) (\<lambda>page.
        Inr (local_plan (close_with (http_reply (ce_info ce) (StrCode ''200'') page ''1.1'')) (RemainingBytes 0), m)))
      else if command = Some ''close'' then
        Inr (local_plan (Some (Some ''close'', Data None)) (RemainingBytes 0), m)
      else Inr (local_plan None (RemainingBytes 0), m))"

text \<open>\<open>getContent\<close>: the content, the length, \<open>buffered\<close> and \<open>buffer_change\<close>.\<close>

definition getContent :: "'p poller_ops \<Rightarrow> content_conf \<Rightarrow> content_env \<Rightarrow> sock \<Rightarrow> string option \<Rightarrow> 'm decision \<Rightarrow> 'p contents \<Rightarrow>
    ((content \<times> remaining \<times> bool option \<times> bool option) \<times> 'p contents) res" where
  "getContent po cf ce client command args m =
     seq (plan_content po cf ce client command args m) (\<lambda>(p, m1).
     case pl_downloader p of
       Some o' \<Rightarrow>
         if pl_new p then
           let d = ct_at m1 o';
               m2 = m1\<lparr>ct_opening := (ct_opening m1)(dl_sock d \<mapsto> o'), ct_byclient := (ct_byclient m1)(dl_client d \<mapsto> o')\<rparr> in
           seq (ct_on_poller (po_addWrite po opening_download (dl_sock d)) m2) (\<lambda>m3.
           Inr ((pl_content p, pl_length p, None, None), m3))
         else
           seq (or_raise UnboundLocalError (pl_request p)) (\<lambda>request.
           seq (ct_write po ce False (dl_sock (ct_at m1 o')) o' request m1) (\<lambda>((buffered, change), m2).
           Inr ((pl_content p, pl_length p, buffered, change), m2)))
     | None \<Rightarrow>
         if ct_hasClient client m1 then
           seq (ct_endClientDownload po client m1) (\<lambda>(_, m2). Inr ((pl_content p, pl_length p, None, None), m2))
         else Inr ((pl_content p, pl_length p, None, None), m1))"

section \<open>The events\<close>

text \<open>\<open>startDownload\<close>: the client, the response for it and whether data is waiting to be sent.\<close>

definition ct_startDownload :: "'p poller_ops \<Rightarrow> content_conf \<Rightarrow> content_env \<Rightarrow> sock \<Rightarrow> 'p contents \<Rightarrow>
    ((sock option \<times> string option \<times> bool option) \<times> 'p contents) res" where
  "ct_startDownload po cf ce sock m =
     (case ct_opening m sock of
        None \<Rightarrow> Inr ((None, None, None), m)
      | Some o' \<Rightarrow>
          let s = dl_sock (ct_at m o') in
          seq (ct_on_poller (po_removeWrite po write_download s) (m\<lparr>ct_opening := (ct_opening m)(sock := None)\<rparr>)) (\<lambda>m1.
          let ((client, res, response), d) = Content_startConversation (ce_send ce) (ct_at m1 o');
              m2 = ct_set o' d (m1\<lparr>ct_established := (ct_established m1)(sock \<mapsto> o')\<rparr>) in
          seq (if res then Inr (Some response)
               else if dl_kind d = ''intercept'' then Inr None
               else seq (readLocalContent cf ce ''400'' ''noconnect.html'' Map.empty) (\<lambda>content.
                 Inr (case content of Some (_, Data r) \<Rightarrow> r | _ \<Rightarrow> None))) (\<lambda>answer.
          seq (ct_on_poller (po_removeWrite po opening_download s) m2) (\<lambda>m3.
          seq (ct_on_poller (po_addRead po read_download s) m3) (\<lambda>m4.
          seq (if s \<in> set (ct_buffered m4) then ct_on_poller (po_addWrite po write_download s) m4 else Inr m4) (\<lambda>m5.
          Inr ((Some client, answer, Some (s \<in> set (ct_buffered m5))), m5)))))))"

definition ct_readData :: "'p poller_ops \<Rightarrow> content_env \<Rightarrow> sock \<Rightarrow> 'p contents \<Rightarrow> ((sock option \<times> string option) \<times> 'p contents) res" where
  "ct_readData po ce sock m =
     (case ct_established m sock of
        None \<Rightarrow> Inr ((None, None), m)
      | Some o' \<Rightarrow>
          let client = dl_client (ct_at m o') in
          (case Content_readData (ce_recv ce) of
             None \<Rightarrow> seq (ct_terminate po sock client m) (\<lambda>(_, m1). Inr ((Some client, None), m1))
           | Some data \<Rightarrow> Inr ((Some client, Some data), m)))"

definition ct_sendSocketData :: "'p poller_ops \<Rightarrow> content_env \<Rightarrow> sock \<Rightarrow> string \<Rightarrow> 'p contents \<Rightarrow>
    ((bool option \<times> bool option \<times> sock option) \<times> 'p contents) res" where
  "ct_sendSocketData po ce sock data m =
     (case ct_established m sock of
        None \<Rightarrow> Inr ((None, None, None), m)
      | Some o' \<Rightarrow>
          seq (ct_write po ce False sock o' data m) (\<lambda>((buffered, change), m1).
          Inr ((buffered, change, Some (dl_client (ct_at m1 o'))), m1)))"

definition ct_sendClientData :: "'p poller_ops \<Rightarrow> content_env \<Rightarrow> sock \<Rightarrow> string \<Rightarrow> 'p contents \<Rightarrow>
    ((bool option \<times> bool option) \<times> 'p contents) res" where
  "ct_sendClientData po ce client data m =
     (case ct_byclient m client of
        None \<Rightarrow> Inr ((None, None), m)
      | Some o' \<Rightarrow>
          let s = dl_sock (ct_at m o') in
          if ct_established m s \<noteq> None then ct_write po ce True s o' data m
          else if ct_opening m s \<noteq> None then
            let (buffered, d) = Content_bufferData data (ct_at m o'); m1 = ct_set o' d m in
            if s \<notin> set (ct_buffered m1) then Inr ((Some buffered, Some True), m1\<lparr>ct_buffered := ct_buffered m1 @ [s]\<rparr>)
            else Inr ((Some buffered, Some False), m1)
          else seq (ct_terminate po s client m) (\<lambda>(_, m1). Inr ((None, None), m1)))"

definition ct_corkClientDownload :: "'p poller_ops \<Rightarrow> sock \<Rightarrow> 'p contents \<Rightarrow> 'p contents res" where
  "ct_corkClientDownload po client m =
     (case ct_byclient m client of
        None \<Rightarrow> Inr m
      | Some o' \<Rightarrow> ct_on_poller (po_corkRead po read_download (dl_sock (ct_at m o'))) m)"

definition ct_uncorkClientDownload :: "'p poller_ops \<Rightarrow> sock \<Rightarrow> 'p contents \<Rightarrow> 'p contents res" where
  "ct_uncorkClientDownload po client m =
     (case ct_byclient m client of
        None \<Rightarrow> Inr m
      | Some o' \<Rightarrow>
          if ct_established m (dl_sock (ct_at m o')) \<noteq> None
          then ct_on_poller (po_uncorkRead po read_download (dl_sock (ct_at m o'))) m else Inr m)"

definition ct_stop :: "(event_name \<Rightarrow> 'p \<Rightarrow> 'p res) \<Rightarrow> (event_name \<Rightarrow> 'p \<Rightarrow> 'p res) \<Rightarrow> 'p contents \<Rightarrow> 'p contents res" where
  "ct_stop clearRead clearWrite m =
     (let socks = (\<lambda>table. {dl_sock (ct_at m o') | o'. o' \<in> ran table});
          m1 = m\<lparr>ct_shut := ct_shut m \<union> socks (ct_opening m) \<union> socks (ct_established m),
                 ct_established := Map.empty, ct_opening := Map.empty, ct_byclient := Map.empty, ct_buffered := []\<rparr> in
      seq (ct_on_poller (clearRead read_download) m1) (\<lambda>m2.
      seq (ct_on_poller (clearWrite write_download) m2) (\<lambda>m3.
      ct_on_poller (clearWrite opening_download) m3)))"

section \<open>The tables\<close>

text \<open>
  The invariant, over the tables and the client and socket of each object: a socket is opening or
  established, not both; the tables by socket and by client hold the same objects, each under its own
  socket and client; only sockets in the tables wait to send, and none of them has been shut down.
\<close>

definition download_events :: "event_name set" where
  "download_events = {read_download, write_download, opening_download}"

lemma download_events_in [simp]:
  "read_download \<in> download_events" "write_download \<in> download_events" "opening_download \<in> download_events"
  by (simp_all add: download_events_def)

definition ends :: "downloader \<Rightarrow> sock \<times> sock" where
  "ends d = (dl_client d, dl_sock d)"

definition tables_ok :: "(sock \<rightharpoonup> nat) \<Rightarrow> (sock \<rightharpoonup> nat) \<Rightarrow> (sock \<rightharpoonup> nat) \<Rightarrow> (sock \<times> sock) list \<Rightarrow> bool" where
  "tables_ok opn est byc tg \<longleftrightarrow>
     (\<forall>s. opn s = None \<or> est s = None)
     \<and> (\<forall>s k. opn s = Some k \<or> est s = Some k \<longrightarrow> k < length tg \<and> snd (tg ! k) = s \<and> byc (fst (tg ! k)) = Some k)
     \<and> (\<forall>c k. byc c = Some k \<longrightarrow> k < length tg \<and> fst (tg ! k) = c \<and> (opn (snd (tg ! k)) = Some k \<or> est (snd (tg ! k)) = Some k))"

definition waiting_ok :: "sock set \<Rightarrow> sock list \<Rightarrow> sock set \<Rightarrow> bool" where
  "waiting_ok socks buffered shut \<longleftrightarrow> distinct buffered \<and> set buffered \<subseteq> socks \<and> shut \<inter> socks = {}"

definition ct_socks :: "'p contents \<Rightarrow> sock set" where
  "ct_socks m = dom (ct_opening m) \<union> dom (ct_established m)"

definition contents_ok :: "('p \<Rightarrow> bool) \<Rightarrow> 'p contents \<Rightarrow> bool" where
  "contents_ok good m \<longleftrightarrow>
     tables_ok (ct_opening m) (ct_established m) (ct_byclient m) (map ends (ct_store m))
     \<and> waiting_ok (ct_socks m) (ct_buffered m) (ct_shut m) \<and> good (ct_poller m)"

lemma tables_okD:
  assumes "tables_ok opn est byc tg"
  shows "opn s = None \<or> est s = None"
    "opn s = Some k \<or> est s = Some k \<Longrightarrow> k < length tg \<and> snd (tg ! k) = s \<and> byc (fst (tg ! k)) = Some k"
    "byc c = Some k \<Longrightarrow> k < length tg \<and> fst (tg ! k) = c \<and> (opn (snd (tg ! k)) = Some k \<or> est (snd (tg ! k)) = Some k)"
proof -
  note a = assms [unfolded tables_ok_def]
  show "opn s = None \<or> est s = None" by (rule spec [OF conjunct1 [OF a]])
  show "opn s = Some k \<or> est s = Some k \<Longrightarrow> k < length tg \<and> snd (tg ! k) = s \<and> byc (fst (tg ! k)) = Some k"
    by (rule mp [OF spec [OF spec [OF conjunct1 [OF conjunct2 [OF a]]]]])
  show "byc c = Some k \<Longrightarrow> k < length tg \<and> fst (tg ! k) = c \<and> (opn (snd (tg ! k)) = Some k \<or> est (snd (tg ! k)) = Some k)"
    by (rule mp [OF spec [OF spec [OF conjunct2 [OF conjunct2 [OF a]]]]])
qed

lemma tables_okI:
  assumes "\<And>s. opn s = None \<or> est s = None"
    and "\<And>s k. opn s = Some k \<or> est s = Some k \<Longrightarrow> k < length tg \<and> snd (tg ! k) = s \<and> byc (fst (tg ! k)) = Some k"
    and "\<And>c k. byc c = Some k \<Longrightarrow> k < length tg \<and> fst (tg ! k) = c \<and> (opn (snd (tg ! k)) = Some k \<or> est (snd (tg ! k)) = Some k)"
  shows "tables_ok opn est byc tg"
  unfolding tables_ok_def using assms by blast

text \<open>Entering, starting and leaving.\<close>

lemma tables_enter:
  assumes ok: "tables_ok opn est byc tg" and fresh: "opn s = None" "est s = None" "byc c = None"
    and n: "n < length tg" "tg ! n = (c, s)"
  shows "tables_ok (opn(s \<mapsto> n)) est (byc(c \<mapsto> n)) tg" (is "tables_ok ?o _ ?b _")
proof (rule tables_okI)
  show "?o x = None \<or> est x = None" for x using tables_okD(1) [OF ok, of x] fresh by auto
next
  fix x k assume k: "?o x = Some k \<or> est x = Some k"
  show "k < length tg \<and> snd (tg ! k) = x \<and> ?b (fst (tg ! k)) = Some k"
  proof (cases "x = s")
    case True
    with k fresh n show ?thesis by auto
  next
    case False
    with k tables_okD(2) [OF ok, of x k] have o: "k < length tg" "snd (tg ! k) = x" "byc (fst (tg ! k)) = Some k" by auto
    then have "fst (tg ! k) \<noteq> c" using fresh by auto
    with o show ?thesis by auto
  qed
next
  fix x k assume k: "?b x = Some k"
  show "k < length tg \<and> fst (tg ! k) = x \<and> (?o (snd (tg ! k)) = Some k \<or> est (snd (tg ! k)) = Some k)"
  proof (cases "x = c")
    case True
    with k n show ?thesis by auto
  next
    case False
    with k tables_okD(3) [OF ok, of x k] have o: "k < length tg" "fst (tg ! k) = x"
      "opn (snd (tg ! k)) = Some k \<or> est (snd (tg ! k)) = Some k" by auto
    then have "snd (tg ! k) \<noteq> s" using fresh by auto
    with o show ?thesis by auto
  qed
qed

lemma tables_more:
  assumes "tables_ok opn est byc tg"
  shows "tables_ok opn est byc (tg @ new)"
proof (rule tables_okI)
  show "opn s = None \<or> est s = None" for s by (rule tables_okD(1) [OF assms])
  show "opn s = Some k \<or> est s = Some k \<Longrightarrow> k < length (tg @ new) \<and> snd ((tg @ new) ! k) = s \<and> byc (fst ((tg @ new) ! k)) = Some k" for s k
    using tables_okD(2) [OF assms, of s k] by (simp add: nth_append)
  show "byc c = Some k \<Longrightarrow> k < length (tg @ new) \<and> fst ((tg @ new) ! k) = c \<and>
      (opn (snd ((tg @ new) ! k)) = Some k \<or> est (snd ((tg @ new) ! k)) = Some k)" for c k
    using tables_okD(3) [OF assms, of c k] by (simp add: nth_append)
qed

lemma tables_start:
  assumes ok: "tables_ok opn est byc tg" and s: "opn s = Some k"
  shows "tables_ok (opn(s := None)) (est(s \<mapsto> k)) byc tg"
proof -
  have k: "k < length tg" "snd (tg ! k) = s" "byc (fst (tg ! k)) = Some k" using tables_okD(2) [OF ok, of s k] s by auto
  show ?thesis
  proof (rule tables_okI)
    show "(opn(s := None)) x = None \<or> (est(s \<mapsto> k)) x = None" for x using tables_okD(1) [OF ok, of x] by auto
    show "(opn(s := None)) x = Some j \<or> (est(s \<mapsto> k)) x = Some j \<Longrightarrow> j < length tg \<and> snd (tg ! j) = x \<and> byc (fst (tg ! j)) = Some j" for x j
      using tables_okD(2) [OF ok, of x j] k by (cases "x = s") auto
    show "byc x = Some j \<Longrightarrow> j < length tg \<and> fst (tg ! j) = x \<and>
        ((opn(s := None)) (snd (tg ! j)) = Some j \<or> (est(s \<mapsto> k)) (snd (tg ! j)) = Some j)" for x j
      using tables_okD(3) [OF ok, of x j] tables_okD(1) [OF ok, of s] s by (cases "snd (tg ! j) = s") auto
  qed
qed

lemma tables_leave:
  assumes ok: "tables_ok opn est byc tg" and c: "byc c = Some k" and s: "snd (tg ! k) = s"
  shows "tables_ok (opn(s := None)) (est(s := None)) (byc(c := None)) tg"
proof (rule tables_okI)
  show "(opn(s := None)) x = None \<or> (est(s := None)) x = None" for x using tables_okD(1) [OF ok, of x] by auto
next
  fix x j assume j: "(opn(s := None)) x = Some j \<or> (est(s := None)) x = Some j"
  then have x: "x \<noteq> s" by auto
  with j tables_okD(2) [OF ok, of x j] have o: "j < length tg" "snd (tg ! j) = x" "byc (fst (tg ! j)) = Some j" by auto
  have "fst (tg ! j) \<noteq> c" using o c s x by auto
  with o show "j < length tg \<and> snd (tg ! j) = x \<and> (byc(c := None)) (fst (tg ! j)) = Some j" by simp
next
  fix x j assume j: "(byc(c := None)) x = Some j"
  then have x: "x \<noteq> c" by auto
  with j tables_okD(3) [OF ok, of x j] have o: "j < length tg" "fst (tg ! j) = x"
    "opn (snd (tg ! j)) = Some j \<or> est (snd (tg ! j)) = Some j" by auto
  have "snd (tg ! j) \<noteq> s"
  proof
    assume e: "snd (tg ! j) = s"
    have "opn s = Some k \<or> est s = Some k" using tables_okD(3) [OF ok c] s by simp
    with o e tables_okD(1) [OF ok, of s] have "j = k" by auto
    with o c tables_okD(3) [OF ok c] x show False by simp
  qed
  with o show "j < length tg \<and> fst (tg ! j) = x \<and> ((opn(s := None)) (snd (tg ! j)) = Some j \<or> (est(s := None)) (snd (tg ! j)) = Some j)"
    by auto
qed

text \<open>The fields of a consistent state.\<close>

lemma contents_okD:
  assumes "contents_ok good m"
  shows "tables_ok (ct_opening m) (ct_established m) (ct_byclient m) (map ends (ct_store m))"
    "waiting_ok (ct_socks m) (ct_buffered m) (ct_shut m)" "good (ct_poller m)"
  using assms unfolding contents_ok_def by blast+

lemma contents_entry:
  assumes "contents_ok good m"
  shows "ct_opening m s = Some k \<or> ct_established m s = Some k \<Longrightarrow>
      k < length (ct_store m) \<and> dl_sock (ct_at m k) = s \<and> ct_byclient m (dl_client (ct_at m k)) = Some k"
    and "ct_byclient m c = Some k \<Longrightarrow> k < length (ct_store m) \<and> dl_client (ct_at m k) = c
      \<and> (ct_opening m (dl_sock (ct_at m k)) = Some k \<or> ct_established m (dl_sock (ct_at m k)) = Some k)"
  using tables_okD(2) [OF contents_okD(1) [OF assms], of s k] tables_okD(3) [OF contents_okD(1) [OF assms], of c k]
  by (auto simp: ends_def)

lemma ct_socks_simps [simp]:
  "ct_socks (m\<lparr>ct_store := st\<rparr>) = ct_socks m" "ct_socks (m\<lparr>ct_byclient := b\<rparr>) = ct_socks m"
  "ct_socks (m\<lparr>ct_buffered := l\<rparr>) = ct_socks m" "ct_socks (m\<lparr>ct_poller := p\<rparr>) = ct_socks m"
  "ct_socks (m\<lparr>ct_shut := sh\<rparr>) = ct_socks m" "ct_socks (m\<lparr>ct_header := h\<rparr>) = ct_socks m"
  "ct_socks (m\<lparr>ct_total_sent4 := i\<rparr>) = ct_socks m" "ct_socks (m\<lparr>ct_total_sent6 := i\<rparr>) = ct_socks m"
  by (simp_all add: ct_socks_def)

text \<open>A state with the same tables, and whose list of waiting sockets is still one of them.\<close>

lemma contents_same:
  assumes "contents_ok good m" "ct_opening m' = ct_opening m" "ct_established m' = ct_established m"
    "ct_byclient m' = ct_byclient m" "map ends (ct_store m') = map ends (ct_store m)" "ct_shut m' = ct_shut m"
    "good (ct_poller m')" "distinct (ct_buffered m')" "set (ct_buffered m') \<subseteq> ct_socks m"
  shows "contents_ok good m'"
  using assms contents_okD [OF assms(1)] by (simp add: contents_ok_def waiting_ok_def ct_socks_def)

lemma contents_buffered: "contents_ok good m \<Longrightarrow> distinct (ct_buffered m) \<and> set (ct_buffered m) \<subseteq> ct_socks m \<and> ct_shut m \<inter> ct_socks m = {}"
  using contents_okD(2) by (auto simp: waiting_ok_def)

lemma ends_update: "ends d = ends (st ! k) \<Longrightarrow> map ends (st[k := d]) = map ends st"
  by (metis list_update_id map_update)

lemma ends_buffer [simp]: "ends (d\<lparr>dl_w_buffer := b\<rparr>) = ends d"
  by (simp add: ends_def)

text \<open>Leaving the tables.\<close>

definition left_tables :: "('p \<Rightarrow> bool) \<Rightarrow> sock \<Rightarrow> sock \<Rightarrow> 'p contents \<Rightarrow> 'p contents \<Rightarrow> bool" where
  "left_tables good s c m m' \<longleftrightarrow> contents_ok good m' \<and> ct_byclient m' = (ct_byclient m)(c := None)
     \<and> ct_socks m' = ct_socks m - {s} \<and> ct_shut m' = insert s (ct_shut m) \<and> ct_store m' = ct_store m
     \<and> ct_header m' = ct_header m"

text \<open>The sockets that \<open>connect\<close> makes are new ones.\<close>

definition fresh_connect :: "content_env \<Rightarrow> 'p contents \<Rightarrow> bool" where
  "fresh_connect ce m \<longleftrightarrow>
     (\<forall>host port bind s. ce_connect ce host port bind = Inr (Some s) \<longrightarrow> s \<notin> ct_socks m \<union> ct_shut m)"

text \<open>
  Where a new connection may go: to an address, not in the deny list, and to this machine only for a
  service that is allowed. The kind is the command.
\<close>

definition admitted :: "content_conf \<Rightarrow> content_env \<Rightarrow> downloader \<Rightarrow> bool" where
  "admitted cf ce d \<longleftrightarrow>
     (isipv4 (dl_host d) = Inr True \<or> isipv6 (dl_host d) = Inr True)
     \<and> denied (cc_deny cf) (dl_host d) = Inr False \<and> \<not> local_refused cf ce (dl_host d) (dl_port d)"

text \<open>What a decision on a connection may be, given the state it leaves.\<close>

definition chosen :: "content_conf \<Rightarrow> content_env \<Rightarrow> sock \<Rightarrow> nat option \<times> bool \<Rightarrow> 'p contents \<Rightarrow> bool" where
  "chosen cf ce client choice m \<longleftrightarrow>
     (case choice of
        (None, new) \<Rightarrow> \<not> new
      | (Some k, False) \<Rightarrow> ct_byclient m client = Some k
      | (Some k, True) \<Rightarrow> k < length (ct_store m) \<and> dl_client (ct_at m k) = client \<and> dl_sock (ct_at m k) \<notin> ct_socks m \<union> ct_shut m
          \<and> ct_byclient m client = None \<and> admitted cf ce (ct_at m k))"

lemma getDownloader_cases:
  assumes r: "getDownloader po cf ce client host port command request m = Inr (choice, m')"
  obtains (none) current m1 where "current_download po client host port m = Inr (current, m1)" "choice = (None, False)" "m' = m1"
  | (old) k m1 where "current_download po client host port m = Inr (Some k, m1)" "choice = (Some k, False)" "m' = m1"
  | (new) d m1 b where "current_download po client host port m = Inr (None, m1)" "choice = (Some (length (ct_store m1)), True)"
      "m' = m1\<lparr>ct_store := ct_store m1 @ [d]\<rparr>" "isipv4 host = Inr True \<or> isipv6 host = Inr True"
      "denied (cc_deny cf) host = Inr False" "\<not> local_refused cf ce host port"
      "Content_new (ce_connect ce) client host port b command request = Inr (Some d)"
proof -
  obtain current m1 v4 bind where c: "current_download po client host port m = Inr (current, m1)" and v4: "isipv4 host = Inr v4"
    and b: "(if v4 then Inr (Some (cc_bind4 cf)) else seq (isipv6 host) (\<lambda>v6. Inr (if v6 then Some (cc_bind6 cf) else None))) = Inr bind"
    using r unfolding getDownloader_def by (auto simp: seq_eq_Inr_iff)
  have ip: "bind \<noteq> None \<Longrightarrow> isipv4 host = Inr True \<or> isipv6 host = Inr True"
    using b v4 by (auto simp: seq_eq_Inr_iff split: if_splits)
  show thesis
  proof (cases bind)
    case None
    then show thesis using r c v4 b none [OF c] unfolding getDownloader_def by simp
  next
    case (Some a)
    show thesis
    proof (cases current)
      case None
      with r c v4 b Some have rest: "seq (denied (cc_deny cf) host) (\<lambda>deny.
          if deny then Inr ((None, False), m1)
          else if local_refused cf ce host port then Inr ((None, False), m1)
          else seq (Content_new (ce_connect ce) client host port a command request) (\<lambda>new.
            case new of None \<Rightarrow> Inr ((None, False), m1)
            | Some d \<Rightarrow> Inr ((Some (length (ct_store m1)), True), m1\<lparr>ct_store := ct_store m1 @ [d]\<rparr>))) = Inr (choice, m')"
        unfolding getDownloader_def by simp
      then consider "choice = (None, False)" "m' = m1"
        | d where "denied (cc_deny cf) host = Inr False" "\<not> local_refused cf ce host port"
          "Content_new (ce_connect ce) client host port a command request = Inr (Some d)"
          "choice = (Some (length (ct_store m1)), True)" "m' = m1\<lparr>ct_store := ct_store m1 @ [d]\<rparr>"
        by (auto simp: seq_eq_Inr_iff simp del: not_None_eq split: if_splits option.splits)
      then show thesis by cases (use none [OF c] new c None ip Some in blast)+
    next
      case (Some k)
      with r c v4 b \<open>bind = Some a\<close> have "choice = (Some k, False)" "m' = m1" unfolding getDownloader_def by simp_all
      then show thesis using old c Some by blast
    qed
  qed
qed

lemma plan_download_cases:
  assumes "plan_download po cf ce client args m = Inr (p, m')"
  obtains q dl new m1 where "getDownloader po cf ce client (args ! 0) q ''download'' (args ! 4) m = Inr ((dl, new), m1)"
    and "dl = None \<Longrightarrow> plan_local_file cf ce ''400'' ''noconnect.html'' m1 = Inr (p, m')"
    and "\<And>k. dl = Some k \<Longrightarrow> pl_downloader p = dl \<and> pl_new p = new \<and> m' = m1"
  using assms unfolding plan_download_def
  by (fastforce simp: seq_eq_Inr_iff Let_def simp del: not_None_eq split: option.splits)

lemma plan_connect_cases:
  assumes "plan_connect po cf ce client command args m = Inr (p, m')"
  obtains q dl new m1 where "getDownloader po cf ce client (args ! 0) q command (args ! 2) m = Inr ((dl, new), m1)"
    and "dl = None \<Longrightarrow> (command = ''connect'' \<longrightarrow> plan_local_file cf ce ''400'' ''noconnect.html'' m1 = Inr (p, m'))
      \<and> (command \<noteq> ''connect'' \<longrightarrow> p = local_plan (close_with []) (RemainingBytes 0) \<and> m' = m1)"
    and "\<And>k. dl = Some k \<Longrightarrow> pl_downloader p = dl \<and> pl_new p = new \<and> m' = m1"
  using assms unfolding plan_connect_def
  by (fastforce simp: seq_eq_Inr_iff Let_def simp del: not_None_eq split: option.splits if_splits)

text \<open>The four kinds of branch of \<open>getContent\<close>.\<close>

lemma plan_content_cases:
  assumes "plan_content po cf ce client command args m = Inr (p, m')"
  obtains content len where "p = local_plan content len" "m' = m"
    | xs where "plan_download po cf ce client xs m = Inr (p, m')"
    | cmd xs where "plan_connect po cf ce client cmd xs m = Inr (p, m')"
    | code name where "plan_local_file cf ce code name m = Inr (p, m')"
  using assms unfolding plan_content_def parsing_failed_def
  by (auto simp: seq_eq_Inr_iff Let_def simp del: not_None_eq split: option.splits if_splits)

locale content_manager = steady_poller download_events po good for po :: "'p poller_ops" and good
begin

lemma on_poller_steady:
  assumes "contents_ok good m" "name \<in> download_events"
    "f \<in> {po_addRead po, po_removeRead po, po_corkRead po, po_uncorkRead po, po_addWrite po, po_removeWrite po}"
  shows "\<exists>p. ct_on_poller (f name s) m = Inr (m\<lparr>ct_poller := p\<rparr>) \<and> good p"
  using steady [OF contents_okD(3) [OF assms(1)] assms(2,3), of s] by (auto simp: ct_on_poller_def)

lemma on_poller_good:
  assumes "good (ct_poller m)" "name \<in> download_events"
    "f \<in> {po_addRead po, po_removeRead po, po_corkRead po, po_uncorkRead po, po_addWrite po, po_removeWrite po}"
  shows "\<exists>p. ct_on_poller (f name s) m = Inr (m\<lparr>ct_poller := p\<rparr>) \<and> good p"
  using steady [OF assms, of s] by (auto simp: ct_on_poller_def)

lemma drop_left:
  assumes ok: "contents_ok good m" and c: "ct_byclient m c = Some k" and s: "dl_sock (ct_at m k) = s"
  shows "\<exists>m'. ct_drop po s c k m = Inr m' \<and> left_tables good s c m m'"
proof -
  let ?t = "\<lambda>m'. tables_ok (ct_opening m') (ct_established m') (ct_byclient m') (map ends (ct_store m'))"
  let ?m = "m\<lparr>ct_established := (ct_established m)(s := None), ct_opening := (ct_opening m)(s := None),
      ct_byclient := (ct_byclient m)(c := None)\<rparr>"
  have k: "k < length (ct_store m)" using contents_entry(2) [OF ok c] by blast
  have t: "tables_ok ((ct_opening m)(s := None)) ((ct_established m)(s := None)) ((ct_byclient m)(c := None)) (map ends (ct_store m))"
    by (rule tables_leave [OF contents_okD(1) [OF ok] c]) (use k s in \<open>simp add: ends_def\<close>)
  have socks: "ct_socks ?m = ct_socks m - {s}" by (auto simp: ct_socks_def)
  note b = contents_buffered [OF ok]
  show ?thesis
  proof (cases "s \<in> set (ct_buffered m)")
    case True
    obtain p where p: "ct_on_poller (po_removeWrite po write_download s) (?m\<lparr>ct_buffered := remove1 s (ct_buffered m)\<rparr>)
        = Inr (?m\<lparr>ct_buffered := remove1 s (ct_buffered m), ct_poller := p\<rparr>)" "good p"
      using on_poller_good [of "?m\<lparr>ct_buffered := remove1 s (ct_buffered m)\<rparr>" write_download "po_removeWrite po" s]
        contents_okD(3) [OF ok] by auto
    then have "ct_drop po s c k m = Inr (?m\<lparr>ct_buffered := remove1 s (ct_buffered m), ct_poller := p, ct_shut := insert s (ct_shut m)\<rparr>)"
      using True s by (simp add: ct_drop_def Let_def)
    moreover have "left_tables good s c m (?m\<lparr>ct_buffered := remove1 s (ct_buffered m), ct_poller := p, ct_shut := insert s (ct_shut m)\<rparr>)"
      using t socks b p(2) by (auto simp: left_tables_def contents_ok_def waiting_ok_def)
    ultimately show ?thesis by blast
  next
    case False
    then have "ct_drop po s c k m = Inr (?m\<lparr>ct_shut := insert s (ct_shut m)\<rparr>)" using s by (simp add: ct_drop_def Let_def)
    moreover have "left_tables good s c m (?m\<lparr>ct_shut := insert s (ct_shut m)\<rparr>)"
      using t socks b False contents_okD(3) [OF ok] by (auto simp: left_tables_def contents_ok_def waiting_ok_def)
    ultimately show ?thesis by blast
  qed
qed

lemma terminate_left:
  assumes ok: "contents_ok good m" and c: "ct_byclient m c = Some k" and s: "dl_sock (ct_at m k) = s"
  shows "\<exists>m'. ct_terminate po s c m = Inr (True, m') \<and> left_tables good s c m m'"
proof -
  have same: "ct_poller m' = p \<Longrightarrow> good p \<Longrightarrow> m' = m\<lparr>ct_poller := p\<rparr> \<Longrightarrow> contents_ok good m'" for m' p
    by (rule contents_same [OF ok]) (use contents_buffered [OF ok] in auto)
  have later: "\<exists>m'. ct_drop po s c k (m\<lparr>ct_poller := p\<rparr>) = Inr m' \<and> left_tables good s c m m'" if "good p" for p
    using drop_left [of "m\<lparr>ct_poller := p\<rparr>" c k s] same [of _ p] that c s by (auto simp: left_tables_def)
  have e: "ct_opening m s = Some k \<or> ct_established m s = Some k" using contents_entry(2) [OF ok c] s by blast
  show ?thesis
  proof (cases "ct_established m s")
    case (Some j)
    then have "j = k" using e tables_okD(1) [OF contents_okD(1) [OF ok], of s] by auto
    obtain p where p: "ct_on_poller (po_removeRead po read_download s) m = Inr (m\<lparr>ct_poller := p\<rparr>)" "good p"
      using on_poller_steady [OF ok, of read_download "po_removeRead po" s] by auto
    with later [OF p(2)] Some s \<open>j = k\<close> show ?thesis by (auto simp: ct_terminate_def)
  next
    case None
    obtain p where p: "ct_on_poller (po_removeWrite po opening_download s) m = Inr (m\<lparr>ct_poller := p\<rparr>)" "good p"
      using on_poller_steady [OF ok, of opening_download "po_removeWrite po" s] by auto
    with later [OF p(2)] None e s show ?thesis by (auto simp: ct_terminate_def)
  qed
qed

lemma end_left:
  assumes ok: "contents_ok good m"
  shows "\<exists>b m'. ct_endClientDownload po c m = Inr (b, m')
    \<and> (case ct_byclient m c of None \<Rightarrow> m' = m | Some k \<Rightarrow> left_tables good (dl_sock (ct_at m k)) c m m')"
proof (cases "ct_byclient m c")
  case (Some k)
  with terminate_left [OF ok Some refl] show ?thesis by (auto simp: ct_endClientDownload_def)
qed (auto simp: ct_endClientDownload_def)

text \<open>What ending the connection of a client leaves: nothing of it, and nothing new.\<close>

lemma end_result:
  assumes ok: "contents_ok good m" and e: "ct_endClientDownload po c m = Inr (b, m')"
  shows "contents_ok good m'" "ct_byclient m' c = None" "ct_socks m' \<subseteq> ct_socks m"
    "ct_shut m' \<subseteq> ct_shut m \<union> ct_socks m" "ct_store m' = ct_store m"
  using end_left [OF ok, of c] e contents_entry(2) [OF ok, of c] ok
  by (auto simp: left_tables_def ct_socks_def split: option.splits)

lemma write_kept:
  assumes ok: "contents_ok good m" and k: "ct_opening m s = Some k \<or> ct_established m s = Some k"
  shows "\<exists>r m'. ct_write po ce again s k data m = Inr (r, m') \<and> contents_ok good m' \<and> ct_socks m' = ct_socks m
    \<and> ct_byclient m' = ct_byclient m \<and> ct_store m' = (ct_store m)[k := snd (Content_writeData (ce_send ce) data (ct_at m k))]"
proof -
  obtain r d where w: "Content_writeData (ce_send ce) data (ct_at m k) = (r, d)" by fastforce
  obtain buffered n4 n6 where r: "r = (buffered, n4, n6)" by (cases r) auto
  let ?m = "\<lambda>b p. m\<lparr>ct_store := (ct_store m)[k := d], ct_total_sent4 := ct_total_sent4 m + n4,
      ct_total_sent6 := ct_total_sent6 m + n6, ct_buffered := b, ct_poller := p\<rparr>"
  have e: "map ends ((ct_store m)[k := d]) = map ends (ct_store m)"
    by (rule ends_update) (use Content_writeData_same [OF w] in auto)
  have live: "s \<in> ct_socks m" using k by (auto simp: ct_socks_def)
  have same: "contents_ok good (?m b p)" if "good p" "distinct b" "set b \<subseteq> ct_socks m" for b p
    by (rule contents_same [OF ok]) (use e that in auto)
  note b = contents_buffered [OF ok] and g = contents_okD(3) [OF ok]
  have poll: "\<exists>p. ct_on_poller (f write_download s) (?m b (ct_poller m)) = Inr (?m b p) \<and> good p"
    if "f \<in> {po_addWrite po, po_removeWrite po}" for f b
    using on_poller_good [of "?m b (ct_poller m)" write_download f s] g that by auto
  consider (enter) "buffered = Some True" "s \<notin> set (ct_buffered m)"
    | (leave) "buffered \<noteq> Some True" "s \<in> set (ct_buffered m)"
    | (stay) "(buffered = Some True) = (s \<in> set (ct_buffered m))" by blast
  then show ?thesis
  proof cases
    case enter
    obtain p where p: "ct_on_poller (po_addWrite po write_download s) (?m (ct_buffered m @ [s]) (ct_poller m))
      = Inr (?m (ct_buffered m @ [s]) p)" "good p" using poll [of "po_addWrite po"] by auto
    have "ct_write po ce again s k data m = Inr ((buffered, Some True), ?m (ct_buffered m @ [s]) p)"
      using p(1) enter w r by (simp add: ct_write_def ct_set_def)
    moreover have "contents_ok good (?m (ct_buffered m @ [s]) p)" by (rule same) (use b p(2) live enter in auto)
    ultimately show ?thesis using w by (auto simp: ct_socks_def)
  next
    case leave
    obtain p where p: "ct_on_poller (po_removeWrite po write_download s) (?m (remove1 s (ct_buffered m)) (ct_poller m))
      = Inr (?m (remove1 s (ct_buffered m)) p)" "good p" using poll [of "po_removeWrite po"] by auto
    have "ct_write po ce again s k data m = Inr ((buffered, Some True), ?m (remove1 s (ct_buffered m)) p)"
      using p(1) leave w r by (simp add: ct_write_def ct_set_def)
    moreover have "contents_ok good (?m (remove1 s (ct_buffered m)) p)" by (rule same) (use b p(2) in auto)
    ultimately show ?thesis using w by (auto simp: ct_socks_def)
  next
    case stay
    then have "\<exists>c. ct_write po ce again s k data m = Inr ((buffered, c), ?m (ct_buffered m) (ct_poller m))"
      using w r by (auto simp: ct_write_def ct_set_def)
    moreover have "contents_ok good (?m (ct_buffered m) (ct_poller m))" by (rule same) (use b g in auto)
    ultimately show ?thesis using w by (auto simp: ct_socks_def)
  qed
qed

lemma sendSocketData_kept:
  assumes "contents_ok good m"
  shows "\<exists>r m'. ct_sendSocketData po ce s data m = Inr (r, m') \<and> contents_ok good m'"
proof (cases "ct_established m s")
  case (Some k)
  with write_kept [OF assms, of s k ce False data] show ?thesis by (auto simp: ct_sendSocketData_def)
qed (use assms in \<open>simp add: ct_sendSocketData_def\<close>)

lemma sendClientData_kept:
  assumes ok: "contents_ok good m"
  shows "\<exists>r m'. ct_sendClientData po ce c data m = Inr (r, m') \<and> contents_ok good m'"
proof (cases "ct_byclient m c")
  case (Some k)
  let ?s = "dl_sock (ct_at m k)"
  have e: "ct_opening m ?s = Some k \<or> ct_established m ?s = Some k" using contents_entry(2) [OF ok Some] by blast
  show ?thesis
  proof (cases "ct_established m ?s")
    case (Some j)
    with \<open>ct_byclient m c = Some k\<close> write_kept [OF ok e, of ce True data] show ?thesis by (auto simp: ct_sendClientData_def)
  next
    case None
    obtain b d where d: "Content_bufferData data (ct_at m k) = (b, d)" by fastforce
    have same: "contents_ok good ((ct_set k d m)\<lparr>ct_buffered := l\<rparr>)" if "distinct l" "set l \<subseteq> ct_socks m" for l
      by (rule contents_same [OF ok])
        (use that contents_okD(3) [OF ok] ends_update [of d "ct_store m" k] Content_bufferData_same [OF d] in \<open>auto simp: ct_set_def\<close>)
    have "?s \<in> ct_socks m" using e by (auto simp: ct_socks_def)
    then have "contents_ok good (ct_set k d m)" "?s \<notin> set (ct_buffered m) \<Longrightarrow> contents_ok good ((ct_set k d m)\<lparr>ct_buffered := ct_buffered m @ [?s]\<rparr>)"
      using same [of "ct_buffered m"] same [of "ct_buffered m @ [?s]"] contents_buffered [OF ok] by (auto simp: ct_set_def)
    with \<open>ct_byclient m c = Some k\<close> None e d show ?thesis by (simp add: ct_sendClientData_def ct_set_def Let_def)
  qed
qed (use ok in \<open>simp add: ct_sendClientData_def\<close>)

lemma readData_kept:
  assumes ok: "contents_ok good m"
  shows "\<exists>r m'. ct_readData po ce s m = Inr (r, m') \<and> contents_ok good m'"
proof (cases "ct_established m s")
  case (Some k)
  then have k: "dl_sock (ct_at m k) = s" "ct_byclient m (dl_client (ct_at m k)) = Some k"
    using contents_entry(1) [OF ok, of s k] by auto
  with terminate_left [OF ok k(2,1)] Some ok show ?thesis
    by (auto simp: ct_readData_def left_tables_def Let_def split: option.split)
qed (use ok in \<open>simp add: ct_readData_def\<close>)

lemma cork_kept:
  assumes ok: "contents_ok good m"
  shows "\<exists>m'. ct_corkClientDownload po c m = Inr m' \<and> contents_ok good m'"
    and "\<exists>m'. ct_uncorkClientDownload po c m = Inr m' \<and> contents_ok good m'"
proof -
  have "contents_ok good (m\<lparr>ct_poller := p\<rparr>)" if "good p" for p
    by (rule contents_same [OF ok]) (use contents_buffered [OF ok] that in auto)
  then have poll: "\<exists>m'. ct_on_poller (f read_download s) m = Inr m' \<and> contents_ok good m'"
    if "f \<in> {po_corkRead po, po_uncorkRead po}" for f s
    using on_poller_steady [OF ok, of read_download f s] that by auto
  show "\<exists>m'. ct_corkClientDownload po c m = Inr m' \<and> contents_ok good m'"
    using poll [of "po_corkRead po"] ok by (auto simp: ct_corkClientDownload_def split: option.split)
  show "\<exists>m'. ct_uncorkClientDownload po c m = Inr m' \<and> contents_ok good m'"
    using poll [of "po_uncorkRead po"] ok by (auto simp: ct_uncorkClientDownload_def split: option.split)
qed

text \<open>Starting a download: only the answer of the local file can raise.\<close>

lemma start_kept:
  assumes ok: "contents_ok good m" and r: "ct_startDownload po cf ce s m = Inr (r, m')"
  shows "contents_ok good m'"
proof (cases "ct_opening m s")
  case None
  with ok r show ?thesis by (simp add: ct_startDownload_def)
next
  case (Some k)
  have k: "k < length (ct_store m)" "dl_sock (ct_at m k) = s" using contents_entry(1) [OF ok, of s k] Some by auto
  obtain x d where d: "Content_startConversation (ce_send ce) (ct_at m k) = (x, d)" by fastforce
  let ?m = "\<lambda>p. m\<lparr>ct_opening := (ct_opening m)(s := None), ct_established := (ct_established m)(s \<mapsto> k),
      ct_store := (ct_store m)[k := d], ct_poller := p\<rparr>"
  have e: "map ends ((ct_store m)[k := d]) = map ends (ct_store m)"
    by (rule ends_update) (use Content_startConversation_same [OF d] in auto)
  have socks: "ct_socks (?m p) = ct_socks m" for p using Some by (auto simp: ct_socks_def)
  have same: "contents_ok good (?m p)" if "good p" for p
    using tables_start [OF contents_okD(1) [OF ok] Some] contents_buffered [OF ok] socks [of p] e that
    by (simp add: contents_ok_def waiting_ok_def)
  obtain p where p: "ct_on_poller (po_removeWrite po write_download s) (m\<lparr>ct_opening := (ct_opening m)(s := None)\<rparr>)
      = Inr (m\<lparr>ct_opening := (ct_opening m)(s := None), ct_poller := p\<rparr>)" "good p"
    using on_poller_good [of "m\<lparr>ct_opening := (ct_opening m)(s := None)\<rparr>" write_download "po_removeWrite po" s] contents_okD(3) [OF ok] by auto
  have poll: "\<exists>p'. ct_on_poller (f name s) (?m p) = Inr (?m p') \<and> good p'" if "good p" "name \<in> download_events"
    "f \<in> {po_addRead po, po_removeRead po, po_corkRead po, po_uncorkRead po, po_addWrite po, po_removeWrite po}" for f name p
    using on_poller_good [of "?m p" name f s] that by auto
  obtain p1 where p1: "ct_on_poller (po_removeWrite po opening_download s) (m\<lparr>ct_opening := (ct_opening m)(s := None),
      ct_poller := p, ct_established := (ct_established m)(s \<mapsto> k), ct_store := (ct_store m)[k := d]\<rparr>) = Inr (?m p1)" "good p1"
    using on_poller_good [of "m\<lparr>ct_opening := (ct_opening m)(s := None), ct_poller := p,
      ct_established := (ct_established m)(s \<mapsto> k), ct_store := (ct_store m)[k := d]\<rparr>" opening_download "po_removeWrite po" s] p(2) by auto
  obtain p2 where p2: "ct_on_poller (po_addRead po read_download s) (?m p1) = Inr (?m p2)" "good p2"
    using poll [OF p1(2), of read_download "po_addRead po"] by auto
  obtain p3 where p3: "ct_on_poller (po_addWrite po write_download s) (?m p2) = Inr (?m p3)" "good p3"
    using poll [OF p2(2), of write_download "po_addWrite po"] by auto
  have "m' = ?m p2 \<or> m' = ?m p3"
    using r Some k d p(1) p1(1) p2(1) p3(1)
    by (auto simp: ct_startDownload_def ct_set_def Let_def seq_eq_Inr_iff split: prod.splits if_splits)
  with same [OF p2(2)] same [OF p3(2)] show ?thesis by blast
qed

lemma current_result:
  assumes ok: "contents_ok good m" and r: "current_download po client host port m = Inr (current, m1)"
  shows "contents_ok good m1" "ct_socks m1 \<subseteq> ct_socks m" "ct_shut m1 \<subseteq> ct_shut m \<union> ct_socks m" "ct_byclient m1 client = current"
  using end_result [OF ok, of client] ok r
  by (auto simp: current_download_def seq_eq_Inr_iff split: option.splits if_splits)

lemma getDownloader_result:
  assumes ok: "contents_ok good m" and fresh: "fresh_connect ce m"
    and r: "getDownloader po cf ce client host port command request m = Inr (choice, m')"
  shows "contents_ok good m' \<and> chosen cf ce client choice m'"
  using r
proof (cases rule: getDownloader_cases)
  case (none current m1)
  then show ?thesis using current_result [OF ok none(1)] by (simp add: chosen_def)
next
  case (old k m1)
  then show ?thesis using current_result [OF ok old(1)] by (simp add: chosen_def)
next
  case (new d m1 b)
  note m1 = current_result [OF ok new(1)]
  obtain s where s: "ce_connect ce host port b = Inr (Some s)" and d: "dl_sock d = s" "dl_client d = client" "dl_host d = host" "dl_port d = port"
    using new(7) by (auto simp: Content_new_def seq_eq_Inr_iff)
  have "s \<notin> ct_socks m \<union> ct_shut m" using fresh s unfolding fresh_connect_def by blast
  then have "s \<notin> ct_socks m1 \<union> ct_shut m1" using m1(2,3) by blast
  moreover have "contents_ok good m'"
    using tables_more [OF contents_okD(1) [OF m1(1)]] contents_okD [OF m1(1)] new(3) by (simp add: contents_ok_def waiting_ok_def ct_socks_def)
  ultimately show ?thesis using new d m1 by (auto simp: chosen_def admitted_def ct_socks_def)
qed

lemma getLocalContent_tables:
  assumes "contents_ok good m" "getLocalContent cf ce code name m = Inr (content, m')"
  shows "contents_ok good m'"
proof (rule contents_same [OF assms(1)])
  show "good (ct_poller m')" using assms contents_okD(3) [OF assms(1)]
    by (auto simp: getLocalContent_def Let_def seq_eq_Inr_iff split: if_splits)
qed (use assms contents_buffered [OF assms(1)] in \<open>auto simp: getLocalContent_def Let_def seq_eq_Inr_iff split: if_splits\<close>)

lemma plan_local_file_result:
  assumes "contents_ok good m" "plan_local_file cf ce code name m = Inr (p, m')"
  shows "contents_ok good m' \<and> chosen cf ce client (pl_downloader p, pl_new p) m'"
  using assms getLocalContent_tables [OF assms(1)]
  by (auto simp: plan_local_file_def local_plan_def chosen_def seq_eq_Inr_iff)

lemma local_plan_result:
  "contents_ok good m \<Longrightarrow> contents_ok good m \<and> chosen cf ce client (pl_downloader (local_plan content len), pl_new (local_plan content len)) m"
  by (simp add: local_plan_def chosen_def)

lemma plan_download_result:
  assumes ok: "contents_ok good m" "fresh_connect ce m" and r: "plan_download po cf ce client args m = Inr (p, m')"
  shows "contents_ok good m' \<and> chosen cf ce client (pl_downloader p, pl_new p) m'"
proof -
  from r obtain q dl new m1 where g: "getDownloader po cf ce client (args ! 0) q ''download'' (args ! 4) m = Inr ((dl, new), m1)"
    and n: "dl = None \<Longrightarrow> plan_local_file cf ce ''400'' ''noconnect.html'' m1 = Inr (p, m')"
    and s: "\<And>k. dl = Some k \<Longrightarrow> pl_downloader p = dl \<and> pl_new p = new \<and> m' = m1"
    by (rule plan_download_cases) blast
  show ?thesis
    using getDownloader_result [OF ok g] plan_local_file_result [of m1 cf ce _ _ p m' client] n s by (cases dl) auto
qed

lemma plan_connect_result:
  assumes ok: "contents_ok good m" "fresh_connect ce m" and r: "plan_connect po cf ce client command args m = Inr (p, m')"
  shows "contents_ok good m' \<and> chosen cf ce client (pl_downloader p, pl_new p) m'"
proof -
  from r obtain q dl new m1 where g: "getDownloader po cf ce client (args ! 0) q command (args ! 2) m = Inr ((dl, new), m1)"
    and n: "dl = None \<Longrightarrow> (command = ''connect'' \<longrightarrow> plan_local_file cf ce ''400'' ''noconnect.html'' m1 = Inr (p, m'))
      \<and> (command \<noteq> ''connect'' \<longrightarrow> p = local_plan (close_with []) (RemainingBytes 0) \<and> m' = m1)"
    and s: "\<And>k. dl = Some k \<Longrightarrow> pl_downloader p = dl \<and> pl_new p = new \<and> m' = m1"
    by (rule plan_connect_cases) blast
  show ?thesis
    using getDownloader_result [OF ok g] plan_local_file_result [of m1 cf ce _ _ p m' client]
      local_plan_result [of m1 cf ce client "close_with []" "RemainingBytes 0"] n s
    by (cases dl; cases "command = ''connect''") auto
qed

lemma plan_content_result:
  assumes ok: "contents_ok good m" "fresh_connect ce m" and r: "plan_content po cf ce client command args m = Inr (p, m')"
  shows "contents_ok good m' \<and> chosen cf ce client (pl_downloader p, pl_new p) m'"
proof -
  from r show ?thesis
    by (rule plan_content_cases) (use plan_download_result [OF ok] plan_connect_result [OF ok] plan_local_file_result [OF ok(1)]
      local_plan_result [OF ok(1)] in \<open>simp_all\<close>)
qed

lemma getContent_kept:
  assumes ok: "contents_ok good m" "fresh_connect ce m" and r: "getContent po cf ce client command args m = Inr (x, m')"
  shows "contents_ok good m'"
proof -
  obtain p m1 where p: "plan_content po cf ce client command args m = Inr (p, m1)"
    using r by (auto simp: getContent_def seq_eq_Inr_iff)
  have m1: "contents_ok good m1" "chosen cf ce client (pl_downloader p, pl_new p) m1"
    using plan_content_result [OF ok p] by auto
  consider (local) "pl_downloader p = None" | (old) k where "pl_downloader p = Some k" "\<not> pl_new p"
    | (new) k where "pl_downloader p = Some k" "pl_new p" by (cases "pl_downloader p") auto
  then show ?thesis
  proof cases
    case local
    with r p end_left [OF m1(1), of client] end_result(1) [OF m1(1), of client] m1(1) show ?thesis
      by (auto simp: getContent_def seq_eq_Inr_iff split: if_splits)
  next
    case old
    then have "ct_byclient m1 client = Some k" using m1(2) by (simp add: chosen_def)
    then have e: "ct_opening m1 (dl_sock (ct_at m1 k)) = Some k \<or> ct_established m1 (dl_sock (ct_at m1 k)) = Some k"
      using contents_entry(2) [OF m1(1)] by blast
    from r p old obtain request y where "ct_write po ce False (dl_sock (ct_at m1 k)) k request m1 = Inr (y, m')"
      by (auto simp: getContent_def seq_eq_Inr_iff)
    with write_kept [OF m1(1) e, of ce False request] show ?thesis by auto
  next
    case new
    let ?s = "dl_sock (ct_at m1 k)" and ?c = "dl_client (ct_at m1 k)"
    have k: "k < length (ct_store m1)" "?c = client" "?s \<notin> ct_socks m1 \<union> ct_shut m1" "ct_byclient m1 client = None"
      using m1(2) new by (simp_all add: chosen_def)
    let ?m = "\<lambda>p. m1\<lparr>ct_opening := (ct_opening m1)(?s \<mapsto> k), ct_byclient := (ct_byclient m1)(?c \<mapsto> k), ct_poller := p\<rparr>"
    obtain q where q: "ct_on_poller (po_addWrite po opening_download ?s) (?m (ct_poller m1)) = Inr (?m q)" "good q"
      using on_poller_good [of "?m (ct_poller m1)" opening_download "po_addWrite po" ?s] contents_okD(3) [OF m1(1)] by auto
    then have m': "m' = ?m q" using r p new by (auto simp: getContent_def seq_eq_Inr_iff Let_def)
    have "tables_ok ((ct_opening m1)(?s \<mapsto> k)) (ct_established m1) ((ct_byclient m1)(?c \<mapsto> k)) (map ends (ct_store m1))"
      by (rule tables_enter [OF contents_okD(1) [OF m1(1)]]) (use k in \<open>auto simp: ct_socks_def ends_def\<close>)
    moreover have "waiting_ok (ct_socks (?m q)) (ct_buffered m1) (ct_shut m1)"
      using contents_buffered [OF m1(1)] k(3) by (auto simp: waiting_ok_def ct_socks_def)
    ultimately show ?thesis unfolding m' using q(2) by (simp add: contents_ok_def)
  qed
qed

end

section \<open>What the operations raise\<close>

text \<open>
  The exception of an operation, in terms of the decision, the site it names, the local files and the
  surroundings, without the poller and the tables, which raise none. A local file that is served
  (\<open>getLocalContent\<close>) and one that is read and formatted (\<open>readLocalContent\<close>):
\<close>

definition local_fault :: "content_conf \<Rightarrow> content_env \<Rightarrow> string \<Rightarrow> py_error option" where
  "local_fault cf ce name =
     (let filename = local_filename cf name in
      case py_isfile ce filename of
        Inl err \<Rightarrow> Some err
      | Inr isfile \<Rightarrow> if isfile \<and> fs_stat (ce_files ce filename) = None then Some OSFailure else None)"

definition page_fault :: "content_conf \<Rightarrow> content_env \<Rightarrow> string \<Rightarrow> (string \<rightharpoonup> string) \<Rightarrow> py_error option" where
  "page_fault cf ce name data =
     (let filename = local_filename cf name in
      case py_isfile ce filename of
        Inl err \<Rightarrow> Some err
      | Inr isfile \<Rightarrow>
          (case fs_read (ce_files ce filename) of
             Some bytes \<Rightarrow> if isfile then raised (py_format (ce_other ce) data bytes) else None
           | None \<Rightarrow> None))"

text \<open>
  Whether there is a connection to the site of a decision: none may be made, the client has one to that
  site, or one is being made.
\<close>

datatype site = Refused | Reused nat | Connected

definition new_site :: "content_conf \<Rightarrow> content_env \<Rightarrow> string \<Rightarrow> int \<Rightarrow> site res" where
  "new_site cf ce host port =
     (if denied (cc_deny cf) host = Inr True \<or> local_refused cf ce host port then Inr Refused
      else case ce_connect ce host port (if isipv4 host = Inr True then cc_bind4 cf else cc_bind6 cf) of
        Inl err \<Rightarrow> Inl err
      | Inr None \<Rightarrow> Inr Refused
      | Inr (Some _) \<Rightarrow> Inr Connected)"

definition current_site :: "sock \<Rightarrow> string \<Rightarrow> int \<Rightarrow> 'p contents \<Rightarrow> nat option" where
  "current_site client host port m =
     (case ct_byclient m client of
        Some k \<Rightarrow> if host = dl_host (ct_at m k) \<and> port = dl_port (ct_at m k) then Some k else None
      | None \<Rightarrow> None)"

definition site_of :: "content_conf \<Rightarrow> content_env \<Rightarrow> sock \<Rightarrow> string \<Rightarrow> int \<Rightarrow> 'p contents \<Rightarrow> site res" where
  "site_of cf ce client host port m =
     (case isip host of
        Inl err \<Rightarrow> Inl err
      | Inr ip \<Rightarrow>
          if \<not> ip then Inr Refused
          else case current_site client host port m of Some k \<Rightarrow> Inr (Reused k) | None \<Rightarrow> new_site cf ce host port)"

definition site_fault :: "content_conf \<Rightarrow> content_env \<Rightarrow> sock \<Rightarrow> string \<Rightarrow> string list \<Rightarrow> 'p contents \<Rightarrow> py_error option" where
  "site_fault cf ce client command xs m =
     (case py_int (xs ! 1) of
        Inl err \<Rightarrow> Some err
      | Inr port \<Rightarrow>
          (case site_of cf ce client (xs ! 0) port m of
             Inl err \<Rightarrow> Some err
           | Inr Refused \<Rightarrow> if command = ''intercept'' then None else local_fault cf ce ''noconnect.html''
           | Inr (Reused _) \<Rightarrow> if command = ''download'' then None else Some UnboundLocalError
           | Inr Connected \<Rightarrow> None))"

text \<open>A decision whose fields cannot be taken apart raises nothing: that exception is caught.\<close>

definition decision_fault :: "content_conf \<Rightarrow> content_env \<Rightarrow> sock \<Rightarrow> string option \<Rightarrow> 'm decision \<Rightarrow> 'p contents \<Rightarrow> py_error option" where
  "decision_fault cf ce client command args m =
     (let fields = (\<lambda>n f. case unpack n args of None \<Rightarrow> None | Some xs \<Rightarrow> f xs);
          path = (\<lambda>f. case args of Text s \<Rightarrow> f s | _ \<Rightarrow> Some TypeError) in
      if command = Some ''download'' then fields 5 (\<lambda>xs. site_fault cf ce client ''download'' xs m)
      else if command = Some ''connect'' then fields 3 (\<lambda>xs. site_fault cf ce client ''connect'' xs m)
      else if command = Some ''intercept'' then fields 3 (\<lambda>xs. site_fault cf ce client ''intercept'' xs m)
      else if command \<in> {Some ''redirect'', Some ''http''} then path (\<lambda>_. None)
      else if command = Some ''file'' then fields 2 (\<lambda>xs. local_fault cf ce (xs ! 1))
      else if command = Some ''rewrite'' then
        fields 7 (\<lambda>xs. page_fault cf ce (xs ! 1)
          [''url'' \<mapsto> xs ! 4, ''host'' \<mapsto> xs ! 5, ''client_ip'' \<mapsto> xs ! 6, ''protocol'' \<mapsto> xs ! 3, ''comment'' \<mapsto> xs ! 2])
      else if command = Some ''monitor'' then path (\<lambda>s. raised (ce_page ce s))
      else None)"

text \<open>Starting a download raises only when the connection could not be made and the page that says so cannot be formatted.\<close>

definition start_fault :: "content_conf \<Rightarrow> content_env \<Rightarrow> sock \<Rightarrow> 'p contents \<Rightarrow> py_error option" where
  "start_fault cf ce s m =
     (case ct_opening m s of
        None \<Rightarrow> None
      | Some k \<Rightarrow>
          if ce_send ce = SendError \<and> dl_kind (ct_at m k) \<noteq> ''intercept''
          then page_fault cf ce ''noconnect.html'' Map.empty else None)"

lemma getLocalContent_fault: "raised (getLocalContent cf ce code name m) = local_fault cf ce name"
  by (auto simp: getLocalContent_def local_fault_def Let_def or_raise_def split: sum.split option.split)

lemma plan_local_file_fault: "raised (plan_local_file cf ce code name m) = local_fault cf ce name"
  using getLocalContent_fault [of cf ce code name m]
  by (cases "getLocalContent cf ce code name m") (auto simp: plan_local_file_def)

lemma readLocalContent_fault: "raised (readLocalContent cf ce code name data) = page_fault cf ce name data"
proof -
  have "raised (seq r (\<lambda>body. Inr (close_with (http_reply (ce_info ce) (StrCode code) body ''1.1'')))) = raised r" for r
    by (cases r) simp_all
  then show ?thesis by (auto simp: readLocalContent_def page_fault_def Let_def split: sum.split option.split)
qed

text \<open>An address is read again without trouble for the deny list.\<close>

lemma pton4_no_colon: "inet_pton4_loop s octets cur saw = Some r \<Longrightarrow> CHR '':'' \<notin> set s"
  by (induction s octets cur saw rule: inet_pton4_loop.induct) (auto simp: is_digit_def Let_def split: if_splits)

lemma pton4_length: "inet_pton4_loop s octets cur saw = Some r \<Longrightarrow> length octets \<le> 3 \<Longrightarrow> length r \<le> 4"
  by (induction s octets cur saw rule: inet_pton4_loop.induct) (auto simp: Let_def split: if_splits)

lemma pton6_colon: "CHR '':'' \<notin> set s \<Longrightarrow> inet_pton6_loop s curtok seen val [] None = None"
proof (induction s arbitrary: seen val)
  case (Cons c s)
  have "length octets \<le> 4" if "inet_pton4 curtok = Some octets" for octets
    using pton4_length [OF that [unfolded inet_pton4_def]] by simp
  with Cons show ?case by (auto simp: inet_pton6_end_def Let_def split: option.split)
qed (simp add: inet_pton6_end_def)

lemma ip_number:
  assumes "isip host = Inr True"
  shows "\<exists>n. host_number host = Inr n"
proof -
  from assms have ip: "inet_pton4 host \<noteq> None \<or> inet_pton6 host \<noteq> None"
    by (auto simp: isip_def isipv4_def isipv6_def split: if_splits)
  have "inet_pton4 host \<noteq> None \<Longrightarrow> CHR '':'' \<notin> set host" using pton4_no_colon [of host "[]" 0 False] by (auto simp: inet_pton4_def)
  moreover have "CHR '':'' \<notin> set host \<Longrightarrow> inet_pton6 host = None"
    using pton6_colon [of host host 0 0] by (cases host) (auto simp add: inet_pton6_def simp del: inet_pton6_loop.simps)
  ultimately show ?thesis using ip by (auto simp: host_number_def or_raise_def)
qed

lemma ip_denied: "isip host = Inr True \<Longrightarrow> \<exists>b. denied deny host = Inr b"
  using ip_number [of host] by (auto simp: denied_def)

context content_manager
begin

lemma current_site_found:
  assumes "contents_ok good m"
  shows "\<exists>m1. current_download po client host port m = Inr (current_site client host port m, m1)"
proof (cases "ct_byclient m client")
  case (Some k)
  obtain b m1 where "ct_endClientDownload po client m = Inr (b, m1)" using end_left [OF assms, of client] by blast
  with Some show ?thesis by (simp add: current_download_def current_site_def)
qed (simp add: current_download_def current_site_def)

lemma getDownloader_site:
  assumes ok: "contents_ok good m"
  shows "case site_of cf ce client host port m of
      Inl err \<Rightarrow> getDownloader po cf ce client host port command request m = Inl err
    | Inr Refused \<Rightarrow> (\<exists>m1. getDownloader po cf ce client host port command request m = Inr ((None, False), m1))
    | Inr (Reused k) \<Rightarrow> (\<exists>m1. getDownloader po cf ce client host port command request m = Inr ((Some k, False), m1))
    | Inr Connected \<Rightarrow> (\<exists>k m1. getDownloader po cf ce client host port command request m = Inr ((Some k, True), m1))"
proof -
  obtain m1 where c: "current_download po client host port m = Inr (current_site client host port m, m1)"
    using current_site_found [OF ok] by blast
  show ?thesis
  proof (cases "isip host")
    case (Inl err)
    with c show ?thesis
      by (auto simp: getDownloader_def site_of_def isip_def isipv4_def isipv6_def split: if_splits)
  next
    case (Inr ip)
    obtain v4 v6 where v: "isipv4 host = Inr v4" "isipv6 host = Inr v6" "ip = (v4 \<or> v6)"
      using Inr by (auto simp: isip_def isipv4_def isipv6_def split: if_splits)
    show ?thesis
    proof (cases "ip \<and> current_site client host port m = None")
      case False
      with c v Inr show ?thesis by (auto simp: getDownloader_def site_of_def split: option.split)
    next
      case True
      then obtain b where b: "denied (cc_deny cf) host = Inr b" using ip_denied [of host] Inr by auto
      from True v have "v4 \<or> v6" by simp
      with c v b Inr True show ?thesis
        by (cases v4; cases "ce_connect ce host port (if v4 then cc_bind4 cf else cc_bind6 cf)")
           (auto simp: getDownloader_def site_of_def new_site_def Content_new_def split: option.split)
    qed
  qed
qed

lemma getDownloader_outcome:
  assumes "contents_ok good m"
  shows "site_of cf ce client host port m = Inl err \<Longrightarrow> getDownloader po cf ce client host port command request m = Inl err"
    "site_of cf ce client host port m = Inr Refused \<Longrightarrow> \<exists>m1. getDownloader po cf ce client host port command request m = Inr ((None, False), m1)"
    "site_of cf ce client host port m = Inr (Reused k) \<Longrightarrow> \<exists>m1. getDownloader po cf ce client host port command request m = Inr ((Some k, False), m1)"
    "site_of cf ce client host port m = Inr Connected \<Longrightarrow> \<exists>k m1. getDownloader po cf ce client host port command request m = Inr ((Some k, True), m1)"
  using getDownloader_site [OF assms, of cf ce client host port command request] by simp_all

text \<open>What a decision on a site raises at once, and what it leaves for the end of \<open>getContent\<close>.\<close>

lemma plan_site_fault:
  assumes ok: "contents_ok good m" and plan: "plan = plan_download po cf ce client \<and> command = ''download''
    \<or> plan = plan_connect po cf ce client command \<and> command \<in> {''connect'', ''intercept''}"
  shows "(\<exists>err. plan xs m = Inl err \<and> site_fault cf ce client command xs m = Some err)
    \<or> (\<exists>p m1. plan xs m = Inr (p, m1) \<and> site_fault cf ce client command xs m = None \<and> (pl_downloader p = None \<or> pl_new p \<or> pl_request p \<noteq> None))
    \<or> (\<exists>p m1. plan xs m = Inr (p, m1) \<and> site_fault cf ce client command xs m = Some UnboundLocalError
         \<and> pl_downloader p \<noteq> None \<and> \<not> pl_new p \<and> pl_request p = None)"
proof (cases "py_int (xs ! 1)")
  case (Inl err)
  with plan show ?thesis by (auto simp: plan_download_def plan_connect_def site_fault_def)
next
  case port: (Inr port)
  define request where "request = (if command = ''download'' then xs ! 4 else xs ! 2)"
  let ?g = "getDownloader po cf ce client (xs ! 0) port command request m"
  note outcome = getDownloader_outcome [OF ok, where cf = cf and ce = ce and client = client and host = "xs ! 0" and port = port and command = command and request = request]
  have failed: "plan xs m = Inl err" if "?g = Inl err" for err
    using that plan port by (auto simp: plan_download_def plan_connect_def request_def)
  have refused: "plan xs m = (if command = ''intercept'' then Inr (local_plan (close_with []) (RemainingBytes 0), m1)
      else plan_local_file cf ce ''400'' ''noconnect.html'' m1)" if "?g = Inr ((None, False), m1)" for m1
    using that plan port by (auto simp: plan_download_def plan_connect_def request_def)
  have found: "\<exists>p. plan xs m = Inr (p, m1) \<and> pl_downloader p = Some k \<and> pl_new p = new \<and> (pl_request p = None \<longleftrightarrow> command \<noteq> ''download'')"
    if "?g = Inr ((Some k, new), m1)" for k new m1
    using that plan port py_int_digits [of "xs ! 3"]
    by (auto simp: plan_download_def plan_connect_def request_def given_length_def Let_def)
  show ?thesis
  proof (cases "site_of cf ce client (xs ! 0) port m")
    case (Inl err)
    with failed outcome(1) port show ?thesis by (simp add: site_fault_def)
  next
    case (Inr site)
    show ?thesis
    proof (cases site)
      case Refused
      then obtain m1 where "?g = Inr ((None, False), m1)" using outcome(2) Inr by blast
      from refused [OF this] Refused Inr port plan_local_file_fault [of cf ce "''400''" "''noconnect.html''" m1] show ?thesis
        by (cases "plan_local_file cf ce ''400'' ''noconnect.html'' m1")
           (auto simp: site_fault_def local_plan_def plan_local_file_def seq_eq_Inr_iff)
    next
      case (Reused k)
      then obtain m1 where "?g = Inr ((Some k, False), m1)" using outcome(3) Inr by blast
      from found [OF this] Reused Inr port show ?thesis by (auto simp: site_fault_def)
    next
      case Connected
      then obtain k m1 where "?g = Inr ((Some k, True), m1)" using outcome(4) Inr by blast
      from found [OF this] Connected Inr port show ?thesis by (auto simp: site_fault_def)
    qed
  qed
qed

lemma getContent_plan:
  assumes ok: "contents_ok good m" "fresh_connect ce m"
  shows "plan_content po cf ce client command args m = Inl err \<Longrightarrow> getContent po cf ce client command args m = Inl err"
    and "plan_content po cf ce client command args m = Inr (p, m1) \<Longrightarrow> raised (getContent po cf ce client command args m)
      = (if pl_downloader p \<noteq> None \<and> \<not> pl_new p \<and> pl_request p = None then Some UnboundLocalError else None)"
proof -
  show "plan_content po cf ce client command args m = Inl err \<Longrightarrow> getContent po cf ce client command args m = Inl err"
    by (simp add: getContent_def)
  assume p: "plan_content po cf ce client command args m = Inr (p, m1)"
  have m1: "contents_ok good m1" "chosen cf ce client (pl_downloader p, pl_new p) m1"
    using plan_content_result [OF ok p] by auto
  show "raised (getContent po cf ce client command args m)
      = (if pl_downloader p \<noteq> None \<and> \<not> pl_new p \<and> pl_request p = None then Some UnboundLocalError else None)"
  proof (cases "pl_downloader p")
    case None
    with p end_left [OF m1(1), of client] show ?thesis by (auto simp: getContent_def)
  next
    case (Some k)
    show ?thesis
    proof (cases "pl_new p")
      case True
      obtain q where "ct_on_poller (po_addWrite po opening_download (dl_sock (ct_at m1 k)))
          (m1\<lparr>ct_opening := (ct_opening m1)(dl_sock (ct_at m1 k) \<mapsto> k), ct_byclient := (ct_byclient m1)(dl_client (ct_at m1 k) \<mapsto> k)\<rparr>) = Inr q"
        using on_poller_good [of "m1\<lparr>ct_opening := (ct_opening m1)(dl_sock (ct_at m1 k) \<mapsto> k), ct_byclient := (ct_byclient m1)(dl_client (ct_at m1 k) \<mapsto> k)\<rparr>"
            opening_download "po_addWrite po" "dl_sock (ct_at m1 k)"] contents_okD(3) [OF m1(1)] by auto
      with p Some True show ?thesis by (simp add: getContent_def Let_def)
    next
      case False
      then have "ct_byclient m1 client = Some k" using m1(2) Some by (simp add: chosen_def)
      then have e: "ct_opening m1 (dl_sock (ct_at m1 k)) = Some k \<or> ct_established m1 (dl_sock (ct_at m1 k)) = Some k"
        using contents_entry(2) [OF m1(1)] by blast
      show ?thesis
      proof (cases "pl_request p")
        case request: (Some request)
        obtain r m' where "ct_write po ce False (dl_sock (ct_at m1 k)) k request m1 = Inr (r, m')"
          using write_kept [OF m1(1) e, of ce False request] by blast
        with p Some False request show ?thesis by (cases r) (simp add: getContent_def)
      qed (use p Some False in \<open>simp add: getContent_def\<close>)
    qed
  qed
qed

text \<open>The other decisions leave no connection to be used.\<close>

lemma getContent_local:
  assumes ok: "contents_ok good m" "fresh_connect ce m"
    and r: "raised (plan_content po cf ce client command args m) = fault"
      "\<And>p m1. plan_content po cf ce client command args m = Inr (p, m1) \<Longrightarrow> pl_downloader p = None"
  shows "raised (getContent po cf ce client command args m) = fault"
proof (cases "plan_content po cf ce client command args m")
  case (Inl err)
  with getContent_plan(1) [OF ok Inl] r(1) show ?thesis by simp
next
  case (Inr x)
  obtain p m1 where "x = (p, m1)" by (cases x)
  with getContent_plan(2) [OF ok, of cf client command args p m1] Inr r show ?thesis by simp
qed

lemma getContent_site:
  assumes ok: "contents_ok good m" "fresh_connect ce m" and plan: "plan = plan_download po cf ce client \<and> command = ''download''
      \<or> plan = plan_connect po cf ce client command \<and> command \<in> {''connect'', ''intercept''}"
    and c: "plan_content po cf ce client (Some command) args m = plan xs m"
  shows "raised (getContent po cf ce client (Some command) args m) = site_fault cf ce client command xs m"
proof -
  consider err where "plan xs m = Inl err" "site_fault cf ce client command xs m = Some err"
    | p m1 where "plan xs m = Inr (p, m1)" "site_fault cf ce client command xs m = None"
        "pl_downloader p = None \<or> pl_new p \<or> pl_request p \<noteq> None"
    | p m1 where "plan xs m = Inr (p, m1)" "site_fault cf ce client command xs m = Some UnboundLocalError"
         "pl_downloader p \<noteq> None" "\<not> pl_new p" "pl_request p = None"
    using plan_site_fault [OF ok(1) plan, of xs] by blast
  then show ?thesis
    by cases (use getContent_plan [OF ok, of cf client "Some command" args] c in auto)
qed

lemma getContent_fault:
  assumes ok: "contents_ok good m" "fresh_connect ce m"
  shows "raised (getContent po cf ce client command args m) = decision_fault cf ce client command args m"
proof -
  have site: "raised (getContent po cf ce client (Some c) args m)
      = (case unpack n args of None \<Rightarrow> None | Some xs \<Rightarrow> site_fault cf ce client c xs m)"
    if "plan = plan_download po cf ce client \<and> c = ''download'' \<or> plan = plan_connect po cf ce client c \<and> c \<in> {''connect'', ''intercept''}"
      "plan_content po cf ce client (Some c) args m = (case unpack n args of None \<Rightarrow> Inr (parsing_failed, m) | Some xs \<Rightarrow> plan xs m)"
    for plan c n
  proof (cases "unpack n args")
    case None
    with that(2) show ?thesis by (intro getContent_local [OF ok]) (simp_all add: parsing_failed_def local_plan_def)
  next
    case (Some xs)
    with that(2) show ?thesis using getContent_site [OF ok that(1), of args xs] by simp
  qed
  consider (download) "command = Some ''download''" | (connect) "command = Some ''connect''" | (intercept) "command = Some ''intercept''"
    | (local) "command = Some ''file''" | (rewrite) "command = Some ''rewrite''" | (monitor) "command = Some ''monitor''"
    | (other) "command \<noteq> Some ''download''" "command \<noteq> Some ''connect''" "command \<noteq> Some ''intercept''"
        "command \<noteq> Some ''file''" "command \<noteq> Some ''rewrite''" "command \<noteq> Some ''monitor''"
    by blast
  then show ?thesis
  proof cases
    case download
    with site [of "plan_download po cf ce client" "''download''" 5] show ?thesis by (simp add: plan_content_def decision_fault_def)
  next
    case connect
    with site [of "plan_connect po cf ce client ''connect''" "''connect''" 3] show ?thesis by (simp add: plan_content_def decision_fault_def)
  next
    case intercept
    with site [of "plan_connect po cf ce client ''intercept''" "''intercept''" 3] show ?thesis by (simp add: plan_content_def decision_fault_def)
  next
    case local
    show ?thesis
      by (rule getContent_local [OF ok])
         (use local plan_local_file_fault in \<open>auto simp: plan_content_def decision_fault_def parsing_failed_def local_plan_def
            plan_local_file_def seq_eq_Inr_iff split: option.splits\<close>)
  next
    case rewrite
    have r: "raised (seq r (\<lambda>content. Inr (local_plan content len, m))) = raised r" for r :: "content res" and len by (cases r) simp_all
    show ?thesis
      by (rule getContent_local [OF ok])
         (use rewrite readLocalContent_fault r in \<open>auto simp: plan_content_def decision_fault_def parsing_failed_def local_plan_def
            seq_eq_Inr_iff split: option.splits\<close>)
  next
    case monitor
    have r: "raised (seq r (\<lambda>page. Inr (f page, m))) = raised r" for r :: "string res" and f :: "string \<Rightarrow> content_plan" by (cases r) simp_all
    show ?thesis
      by (rule getContent_local [OF ok])
         (use monitor r in \<open>auto simp: plan_content_def decision_fault_def decision_text_def local_plan_def
            seq_eq_Inr_iff split: decision.splits\<close>)
  next
    case other
    show ?thesis
      by (rule getContent_local [OF ok])
         (use other py_int_digits in \<open>auto simp: plan_content_def decision_fault_def decision_text_def parsing_failed_def local_plan_def
            given_length_def seq_eq_Inr_iff split: decision.splits option.splits if_splits\<close>)
  qed
qed

lemma startDownload_fault:
  assumes ok: "contents_ok good m"
  shows "raised (ct_startDownload po cf ce s m) = start_fault cf ce s m"
proof (cases "ct_opening m s")
  case (Some k)
  have k: "dl_sock (ct_at m k) = s" using contents_entry(1) [OF ok, of s k] Some by auto
  let ?m = "m\<lparr>ct_opening := (ct_opening m)(s := None)\<rparr>"
  obtain p where p: "ct_on_poller (po_removeWrite po write_download s) ?m = Inr (?m\<lparr>ct_poller := p\<rparr>)" "good p"
    using on_poller_good [of ?m write_download "po_removeWrite po" s] contents_okD(3) [OF ok] by auto
  obtain client res response d where d: "Content_startConversation (ce_send ce) (ct_at m k) = ((client, res, response), d)"
    by (metis surj_pair)
  then have d2: "res = (ce_send ce \<noteq> SendError)" "dl_kind d = dl_kind (ct_at m k)"
    by (auto simp: Content_startConversation_def Content_writeData_def Let_def split: send_result.splits prod.splits)
  define answer where "answer = (if res then Inr (Some response) else if dl_kind d = ''intercept'' then Inr None
      else seq (readLocalContent cf ce ''400'' ''noconnect.html'' Map.empty) (\<lambda>content.
        Inr (case content of Some (_, Data r) \<Rightarrow> r | _ \<Rightarrow> None)))"
  let ?m2 = "ct_set k d (?m\<lparr>ct_poller := p, ct_established := (ct_established m)(s \<mapsto> k)\<rparr>)"
  define rest where "rest = (\<lambda>answer :: string option. seq (ct_on_poller (po_removeWrite po opening_download s) ?m2) (\<lambda>m3.
      seq (ct_on_poller (po_addRead po read_download s) m3) (\<lambda>m4.
      seq (if s \<in> set (ct_buffered m4) then ct_on_poller (po_addWrite po write_download s) m4 else Inr m4) (\<lambda>m5.
      Inr ((Some client, answer, Some (s \<in> set (ct_buffered m5))), m5)))))"
  have good: "good (ct_poller ?m2)" using p(2) by (simp add: ct_set_def)
  have poll: "\<exists>m'. ct_on_poller (f name s) n = Inr m' \<and> good (ct_poller m')" if "good (ct_poller n)" "name \<in> download_events"
    "f \<in> {po_addRead po, po_removeRead po, po_corkRead po, po_uncorkRead po, po_addWrite po, po_removeWrite po}" for f name n
    using on_poller_good [OF that, of s] by auto
  obtain m3 where m3: "ct_on_poller (po_removeWrite po opening_download s) ?m2 = Inr m3" "good (ct_poller m3)"
    using poll [OF good, of opening_download "po_removeWrite po"] by auto
  obtain m4 where m4: "ct_on_poller (po_addRead po read_download s) m3 = Inr m4" "good (ct_poller m4)"
    using poll [OF m3(2), of read_download "po_addRead po"] by auto
  obtain m5 where m5: "ct_on_poller (po_addWrite po write_download s) m4 = Inr m5"
    using poll [OF m4(2), of write_download "po_addWrite po"] by auto
  have r: "raised (rest x) = None" for x
    using m3(1) m4(1) m5 by (simp add: rest_def)
  have "ct_startDownload po cf ce s m = seq answer rest"
    using Some k p(1) d by (simp add: ct_startDownload_def answer_def rest_def Let_def)
  then have "raised (ct_startDownload po cf ce s m) = raised answer"
    using r by (cases answer) simp_all
  moreover have "raised answer = start_fault cf ce s m"
    using Some d2 readLocalContent_fault [of cf ce "''400''" "''noconnect.html''" Map.empty]
    by (cases "readLocalContent cf ce ''400'' ''noconnect.html'' Map.empty") (simp_all add: answer_def start_fault_def)
  ultimately show ?thesis by simp
qed (simp add: ct_startDownload_def start_fault_def)

end

section \<open>The manager as a whole\<close>

text \<open>The operations, and the states that a sequence of them reaches.\<close>

datatype 'm content_op =
    GetContent sock "string option" "'m decision"
  | StartDownload sock
  | ReadData sock
  | SendSocketData sock string
  | SendClientData sock string
  | EndClientDownload sock
  | Cork sock
  | Uncork sock

definition state_in :: "('x \<times> 's) res \<Rightarrow> 's res" where
  "state_in r = (case r of Inl e \<Rightarrow> Inl e | Inr (_, s) \<Rightarrow> Inr s)"

lemma state_in_simps [simp]:
  "state_in (Inl e) = Inl e" "state_in (Inr (x, s)) = Inr s"
  by (simp_all add: state_in_def)

lemma state_in_Inr: "state_in r = Inr s \<longleftrightarrow> (\<exists>x. r = Inr (x, s))"
  by (auto simp: state_in_def split: sum.splits)

definition ct_apply :: "'p poller_ops \<Rightarrow> content_conf \<Rightarrow> content_env \<Rightarrow> 'm content_op \<Rightarrow> 'p contents \<Rightarrow> 'p contents res" where
  "ct_apply po cf ce op m =
     (case op of
        GetContent client command args \<Rightarrow> state_in (getContent po cf ce client command args m)
      | StartDownload s \<Rightarrow> state_in (ct_startDownload po cf ce s m)
      | ReadData s \<Rightarrow> state_in (ct_readData po ce s m)
      | SendSocketData s data \<Rightarrow> state_in (ct_sendSocketData po ce s data m)
      | SendClientData client data \<Rightarrow> state_in (ct_sendClientData po ce client data m)
      | EndClientDownload client \<Rightarrow> state_in (ct_endClientDownload po client m)
      | Cork client \<Rightarrow> ct_corkClientDownload po client m
      | Uncork client \<Rightarrow> ct_uncorkClientDownload po client m)"

text \<open>What an operation raises: those that neither enact a decision nor start a download raise nothing.\<close>

definition content_fault :: "content_conf \<Rightarrow> content_env \<Rightarrow> 'm content_op \<Rightarrow> 'p contents \<Rightarrow> py_error option" where
  "content_fault cf ce op m =
     (case op of
        GetContent client command args \<Rightarrow> decision_fault cf ce client command args m
      | StartDownload s \<Rightarrow> start_fault cf ce s m
      | _ \<Rightarrow> None)"

inductive ct_reachable :: "'p poller_ops \<Rightarrow> content_conf \<Rightarrow> 'p contents \<Rightarrow> 'p contents \<Rightarrow> bool"
  for po cf m0 where
  start: "ct_reachable po cf m0 m0"
| step: "ct_reachable po cf m0 m \<Longrightarrow> fresh_connect ce m \<Longrightarrow> ct_apply po cf ce (op :: unit content_op) m = Inr m' \<Longrightarrow> ct_reachable po cf m0 m'"

context content_manager
begin

lemma apply_kept:
  assumes ok: "contents_ok good m" "fresh_connect ce m"
  shows "case ct_apply po cf ce op m of Inl err \<Rightarrow> content_fault cf ce op m = Some err
    | Inr m' \<Rightarrow> content_fault cf ce op m = None \<and> contents_ok good m'"
proof (cases op)
  case (GetContent client command args)
  then show ?thesis using getContent_kept [OF ok, of cf client command args] getContent_fault [OF ok, of cf client command args]
    by (auto simp: ct_apply_def content_fault_def state_in_def split: sum.splits)
next
  case (StartDownload s)
  then show ?thesis using start_kept [OF ok(1), of cf ce s] startDownload_fault [OF ok(1), of cf ce s]
    by (auto simp: ct_apply_def content_fault_def state_in_def split: sum.splits)
next
  case (ReadData s)
  then show ?thesis using readData_kept [OF ok(1), of ce s] by (auto simp: ct_apply_def content_fault_def)
next
  case (SendSocketData s data)
  then show ?thesis using sendSocketData_kept [OF ok(1), of ce s data] by (auto simp: ct_apply_def content_fault_def)
next
  case (SendClientData client data)
  then show ?thesis using sendClientData_kept [OF ok(1), of ce client data] by (auto simp: ct_apply_def content_fault_def)
next
  case (EndClientDownload client)
  obtain b m' where e: "ct_endClientDownload po client m = Inr (b, m')" using end_left [OF ok(1), of client] by blast
  show ?thesis using EndClientDownload e end_result(1) [OF ok(1) e] by (simp add: ct_apply_def content_fault_def)
next
  case (Cork client)
  then show ?thesis using cork_kept(1) [OF ok(1), of client] by (auto simp: ct_apply_def content_fault_def)
next
  case (Uncork client)
  then show ?thesis using cork_kept(2) [OF ok(1), of client] by (auto simp: ct_apply_def content_fault_def)
qed

text \<open>
  \<open>stop\<close> forgets every connection, each of which has been shut down. It takes the events away from the poller
  that have no socket, so the manager is not used any more: the states above are those of one that has not been
  stopped.
\<close>

lemma stop_forgets:
  assumes "contents_ok good m"
  shows "\<exists>m'. ct_stop (\<lambda>name p. Inr (clr name p)) (\<lambda>name p. Inr (clw name p)) m = Inr m'
    \<and> ct_socks m' = {} \<and> ct_byclient m' = Map.empty \<and> ct_buffered m' = [] \<and> ct_shut m' = ct_shut m \<union> ct_socks m"
proof -
  have "dl_sock (ct_at m k) = s" if "ct_opening m s = Some k \<or> ct_established m s = Some k" for s k
    using contents_entry(1) [OF assms that] by blast
  then have "{dl_sock (ct_at m k) |k. k \<in> ran (ct_opening m)} = dom (ct_opening m)"
    "{dl_sock (ct_at m k) |k. k \<in> ran (ct_established m)} = dom (ct_established m)"
    by (force simp: ran_def dom_def)+
  then show ?thesis by (auto simp: ct_stop_def ct_on_poller_def ct_socks_def Let_def)
qed

lemma reachable_kept: "ct_reachable po cf m0 m \<Longrightarrow> contents_ok good m0 \<Longrightarrow> contents_ok good m"
proof (induction rule: ct_reachable.induct)
  case (step m ce op m')
  with apply_kept [where m = m and ce = ce and cf = cf and op = op] show ?case by simp
qed

end

interpretation contents: content_manager "ep_ops fileno" "ep_good download_events fileno" for fileno
  unfolding content_manager_def by (rule ep_steady)

lemma contents_ok_init: "good p \<Longrightarrow> contents_ok good (ContentManager_init p)"
  by (simp add: contents_ok_def ContentManager_init_def tables_ok_def waiting_ok_def ct_socks_def)

section \<open>What the operations do\<close>

text \<open>A decision opens at most one connection, and only where the configuration lets it.\<close>

text \<open>Nothing else makes a connection that is opening.\<close>

lemma ct_on_poller_Inr: "ct_on_poller f m = Inr m' \<Longrightarrow> \<exists>p. m' = m\<lparr>ct_poller := p\<rparr>"
  by (auto simp: ct_on_poller_def seq_eq_Inr_iff)

definition opened :: "'p contents \<Rightarrow> (sock \<times> nat) set" where
  "opened m = {(s, k). ct_opening m s = Some k}"

lemma opened_simps [simp]:
  "opened (m\<lparr>ct_poller := p\<rparr>) = opened m" "opened (m\<lparr>ct_store := st\<rparr>) = opened m"
  "opened (m\<lparr>ct_header := h\<rparr>) = opened m"
  by (simp_all add: opened_def)

lemma drop_opening: "ct_drop po s c k m = Inr m' \<Longrightarrow> opened m' \<subseteq> opened m"
  by (auto simp: ct_drop_def Let_def seq_eq_Inr_iff opened_def split: if_splits dest!: ct_on_poller_Inr)

lemma terminate_opening:
  assumes "ct_terminate po s c m = Inr (b, m')"
  shows "opened m' \<subseteq> opened m"
proof -
  have "m' = m \<or> (\<exists>k p. ct_drop po s c k (m\<lparr>ct_poller := p\<rparr>) = Inr m')"
    using assms unfolding ct_terminate_def
    by (auto simp: seq_eq_Inr_iff split: option.splits dest!: ct_on_poller_Inr)
  then show ?thesis using drop_opening [of po s c _ "m\<lparr>ct_poller := _\<rparr>" m'] by fastforce
qed

lemma end_opening: "ct_endClientDownload po c m = Inr (b, m') \<Longrightarrow> opened m' \<subseteq> opened m"
  using terminate_opening by (fastforce simp: ct_endClientDownload_def split: option.splits)

lemma write_opening: "ct_write po ce again s k data m = Inr (r, m') \<Longrightarrow> opened m' = opened m"
  by (auto simp: ct_write_def ct_set_def Let_def seq_eq_Inr_iff opened_def split: prod.splits if_splits dest!: ct_on_poller_Inr)

lemma getDownloader_opening:
  assumes "getDownloader po cf ce client host port command request m = Inr (x, m')"
  shows "opened m' \<subseteq> opened m"
proof -
  have c: "opened m1 \<subseteq> opened m" if "current_download po client host port m = Inr (current, m1)" for current m1
    using that by (auto simp: current_download_def seq_eq_Inr_iff split: option.splits if_splits dest: subsetD [OF end_opening])
  show ?thesis using assms
    by (cases rule: getDownloader_cases) (use c in \<open>simp_all\<close>)
qed

lemma plan_local_file_opening: "plan_local_file cf ce code name m = Inr (p, m') \<Longrightarrow> opened m' = opened m"
  by (auto simp: plan_local_file_def getLocalContent_def Let_def seq_eq_Inr_iff split: if_splits)

lemma plan_download_opening: "plan_download po cf ce client xs m = Inr (p, m') \<Longrightarrow> opened m' \<subseteq> opened m"
proof (erule plan_download_cases)
  fix q dl new m1
  assume g: "getDownloader po cf ce client (xs ! 0) q ''download'' (xs ! 4) m = Inr ((dl, new), m1)"
    and "dl = None \<Longrightarrow> plan_local_file cf ce ''400'' ''noconnect.html'' m1 = Inr (p, m')"
    "\<And>k. dl = Some k \<Longrightarrow> pl_downloader p = dl \<and> pl_new p = new \<and> m' = m1"
  then have "opened m' = opened m1" by (cases dl) (auto dest: plan_local_file_opening)
  with getDownloader_opening [OF g] show "opened m' \<subseteq> opened m" by simp
qed

lemma plan_connect_opening: "plan_connect po cf ce client cmd xs m = Inr (p, m') \<Longrightarrow> opened m' \<subseteq> opened m"
proof (erule plan_connect_cases)
  fix q dl new m1
  assume g: "getDownloader po cf ce client (xs ! 0) q cmd (xs ! 2) m = Inr ((dl, new), m1)"
    and "dl = None \<Longrightarrow> (cmd = ''connect'' \<longrightarrow> plan_local_file cf ce ''400'' ''noconnect.html'' m1 = Inr (p, m'))
      \<and> (cmd \<noteq> ''connect'' \<longrightarrow> p = local_plan (close_with []) (RemainingBytes 0) \<and> m' = m1)"
    "\<And>k. dl = Some k \<Longrightarrow> pl_downloader p = dl \<and> pl_new p = new \<and> m' = m1"
  then have "opened m' = opened m1" by (cases dl; cases "cmd = ''connect''") (auto dest: plan_local_file_opening)
  with getDownloader_opening [OF g] show "opened m' \<subseteq> opened m" by simp
qed

lemma plan_content_opening: "plan_content po cf ce client command args m = Inr (p, m') \<Longrightarrow> opened m' \<subseteq> opened m"
  by (erule plan_content_cases, simp, erule plan_download_opening, erule plan_connect_opening, simp add: plan_local_file_opening)

lemma getContent_old_opening:
  assumes "getContent po cf ce client command args m = Inr (x, m')" "plan_content po cf ce client command args m = Inr (p, m1)"
    and "\<not> (\<exists>n. pl_downloader p = Some n \<and> pl_new p)"
  shows "opened m' \<subseteq> opened m1"
  using assms write_opening end_opening
  by (fastforce simp: getContent_def seq_eq_Inr_iff split: option.splits if_splits)

context content_manager
begin

lemma getContent_new:
  assumes ok: "contents_ok good m" "fresh_connect ce m" and r: "getContent po cf ce client command args m = Inr (x, m')"
    and s: "ct_opening m' s = Some k" "ct_opening m s = None"
  shows "dl_client (ct_at m' k) = client \<and> admitted cf ce (ct_at m' k)"
proof -
  obtain p m1 where p: "plan_content po cf ce client command args m = Inr (p, m1)"
    using r by (auto simp: getContent_def seq_eq_Inr_iff)
  have m1: "contents_ok good m1" "chosen cf ce client (pl_downloader p, pl_new p) m1"
    using plan_content_result [OF ok p] by auto
  have sub: "ct_opening m1 t = Some j \<Longrightarrow> ct_opening m t = Some j" for t j
    using plan_content_opening [OF p] by (auto simp: opened_def)
  show ?thesis
  proof (cases "\<exists>n. pl_downloader p = Some n \<and> pl_new p")
    case True
    then obtain n where n: "pl_downloader p = Some n" "pl_new p" by blast
    then have "ct_opening m' = (ct_opening m1)(dl_sock (ct_at m1 n) \<mapsto> n)" "ct_store m' = ct_store m1"
      using r p by (auto simp: getContent_def seq_eq_Inr_iff Let_def ct_on_poller_def)
    with s sub have "k = n" "ct_store m' = ct_store m1" by (auto split: if_splits)
    with m1(2) n show ?thesis by (simp add: chosen_def)
  next
    case False
    then have "ct_opening m1 s = Some k"
      using getContent_old_opening [OF r p] s(1) by (auto simp: opened_def)
    with sub s(2) show ?thesis by auto
  qed
qed

text \<open>Data for a download: what the socket took and what is kept is what was kept and the data.\<close>

lemma sendClientData_result:
  assumes ok: "contents_ok good m" and c: "ct_byclient m client = Some k"
    and r: "ct_sendClientData po ce client data m = Inr ((buffered, change), m')"
  shows "take (if ct_opening m (dl_sock (ct_at m k)) = None then took (ce_send ce) else 0) (dl_w_buffer (ct_at m k) @ data)
      @ dl_w_buffer (ct_at m' k) = dl_w_buffer (ct_at m k) @ data"
proof -
  let ?s = "dl_sock (ct_at m k)"
  have k: "k < length (ct_store m)" and e: "ct_opening m ?s = Some k \<or> ct_established m ?s = Some k"
    using contents_entry(2) [OF ok c] by auto
  show ?thesis
  proof (cases "ct_opening m ?s")
    case None
    with e have est: "ct_established m ?s = Some k" by simp
    obtain x m'' where w: "ct_write po ce True ?s k data m = Inr (x, m'')"
      "ct_store m'' = (ct_store m)[k := snd (Content_writeData (ce_send ce) data (ct_at m k))]"
      using write_kept [OF ok e, of ce True data] by blast
    then have "ct_at m' k = snd (Content_writeData (ce_send ce) data (ct_at m k))"
      using r c est k by (simp add: ct_sendClientData_def)
    then show ?thesis using None Content_writeData_bytes [of "ce_send ce" data "ct_at m k"]
      by (cases "Content_writeData (ce_send ce) data (ct_at m k)") (auto simp del: take_append)
  next
    case (Some j)
    then have "ct_established m ?s = None" using tables_okD(1) [OF contents_okD(1) [OF ok], of ?s] by auto
    then have "dl_w_buffer (ct_at m' k) = dl_w_buffer (ct_at m k) @ data"
      using r c Some k by (auto simp: ct_sendClientData_def Content_bufferData_def ct_set_def Let_def split: if_splits)
    with Some show ?thesis by simp
  qed
qed

text \<open>A connection that has just been made and takes a part of the request: the rest is not watched for.\<close>

lemma start_rest:
  assumes ok: "contents_ok good m" and s: "ct_opening m s = Some k" "s \<notin> set (ct_buffered m)"
    and n: "ce_send ce = Sent n" "n < length (dl_w_buffer (ct_at m k))"
  shows "\<exists>client answer m'. ct_startDownload po cf ce s m = Inr ((client, answer, Some False), m')
    \<and> ct_established m' s = Some k \<and> dl_w_buffer (ct_at m' k) = drop n (dl_w_buffer (ct_at m k)) \<and> s \<notin> set (ct_buffered m')"
proof -
  have k: "k < length (ct_store m)" "dl_sock (ct_at m k) = s" using contents_entry(1) [OF ok, of s k] s(1) by auto
  obtain x d where d: "Content_startConversation (ce_send ce) (ct_at m k) = (x, d)" by fastforce
  then have x: "\<exists>c a. x = (c, True, a)" "dl_w_buffer d = drop n (dl_w_buffer (ct_at m k))"
    using n by (auto simp: Content_startConversation_def Content_writeData_def Let_def)
  let ?o = "m\<lparr>ct_opening := (ct_opening m)(s := None)\<rparr>"
  obtain p where p: "ct_on_poller (po_removeWrite po write_download s) ?o = Inr (?o\<lparr>ct_poller := p\<rparr>)" "good p"
    using on_poller_good [of ?o write_download "po_removeWrite po" s] contents_okD(3) [OF ok] by auto
  let ?e = "ct_set k d (?o\<lparr>ct_poller := p, ct_established := (ct_established m)(s \<mapsto> k)\<rparr>)"
  obtain p1 where p1: "ct_on_poller (po_removeWrite po opening_download s) ?e = Inr (?e\<lparr>ct_poller := p1\<rparr>)" "good p1"
    using on_poller_good [of ?e opening_download "po_removeWrite po" s] p(2) by (auto simp: ct_set_def)
  obtain p2 where p2: "ct_on_poller (po_addRead po read_download s) (?e\<lparr>ct_poller := p1\<rparr>) = Inr (?e\<lparr>ct_poller := p2\<rparr>)" "good p2"
    using on_poller_good [of "?e\<lparr>ct_poller := p1\<rparr>" read_download "po_addRead po" s] p1(2) by (auto simp: ct_set_def)
  have "\<exists>client answer. ct_startDownload po cf ce s m = Inr ((client, answer, Some False), ?e\<lparr>ct_poller := p2\<rparr>)"
    using s k d x(1) p(1) p1(1) p2(1) by (auto simp: ct_startDownload_def ct_set_def Let_def)
  then show ?thesis using k x(2) s(2) by (auto simp: ct_set_def)
qed

end

section \<open>Properties\<close>

text \<open>
  An example: a download for the client 4 over the socket 9, opening or established, whose request is
  not sent yet, and the surroundings in which nothing else exists.
\<close>

definition download_watch :: epoller where
  "download_watch = \<lparr>ep_sockets = [''read_download'' \<mapsto> 5, ''opening_download'' \<mapsto> 6, ''write_download'' \<mapsto> 7],
     ep_pollers = (\<lambda>i. if i \<in> {5, 6, 7} then
         Some \<lparr>we_name = (if i = 5 then ''read_download'' else if i = 6 then ''opening_download'' else ''write_download''),
               we_sockets = {}, we_fdtosock = Map.empty, we_corked = {}, we_kernel = Map.empty\<rparr>
       else None),
     ep_master = {5, 6, 7}, ep_errors = Map.empty\<rparr>"

definition example_download :: downloader where
  "example_download = \<lparr>dl_client = 4, dl_sock = 9, dl_host = ''10.0.0.1'', dl_port = 80, dl_kind = ''download'',
     dl_w_buffer = ''GET / HTTP/1.1'', dl_ipv4 = True\<rparr>"

definition one_download :: "bool \<Rightarrow> epoller contents" where
  "one_download established = (ContentManager_init download_watch)
     \<lparr>ct_store := [example_download], ct_byclient := [4 \<mapsto> 0],
      ct_opening := if established then Map.empty else [9 \<mapsto> 0], ct_established := if established then [9 \<mapsto> 0] else Map.empty\<rparr>"

definition example_conf :: content_conf where
  "example_conf = \<lparr>cc_location = ''/var/html'', cc_bind4 = ''0.0.0.0'', cc_bind6 = ''::'', cc_deny = [(4, 2130706432, 2147483647)],
     cc_local = []\<rparr>"

definition example_env :: "send_result \<Rightarrow> content_env" where
  "example_env answer = \<lparr>ce_connect = (\<lambda>_ _ _. Inr (Some 12)), ce_send = answer, ce_recv = WouldBlock,
     ce_files = (\<lambda>f. if f = ''/var/html/noconnect.html'' then \<lparr>fs_isfile = True, fs_stat = Some (21, 7), fs_read = Some ''<html>''\<rparr>
       else \<lparr>fs_isfile = False, fs_stat = None, fs_read = None\<rparr>),
     ce_other = (\<lambda>_ _. Inl ValueError), ce_page = (\<lambda>_. Inr []), ce_local = {''192.0.2.1''}, ce_info = example_info\<rparr>"

lemma download_watch_good: "ep_good download_events Some download_watch"
  by (auto simp: ep_good_def epoller_ok_def entry_ok_def download_watch_def download_events_def ep_known_def ep_entry_def
      read_download_def opening_download_def write_download_def split: if_splits)

lemma one_download_ok: "contents_ok (ep_good download_events Some) (one_download established)"
  using download_watch_good
  by (auto simp: contents_ok_def one_download_def ContentManager_init_def tables_ok_def waiting_ok_def ct_socks_def ends_def
      example_download_def split: if_splits)

lemma example_fresh: "fresh_connect (example_env answer) (one_download established)"
  "fresh_connect (example_env answer) (ContentManager_init download_watch)"
  by (auto simp: fresh_connect_def example_env_def one_download_def ContentManager_init_def ct_socks_def split: if_splits)

text \<open>C6: The tables of the downloads stay consistent under every operation of a manager that has not been stopped, the sockets that connect gives being new: a socket is opening or established, never both; the tables by socket and by client hold the same connections; only live sockets wait to send and none of these has been shut down. An operation raises exactly when, and then what, the decision, the site it names, the local files or the surroundings make it raise, never because of the tables or of the poller; stopping raises nothing, shuts every connection down and leaves none.\<close>

theorem contents_stay_consistent:
  assumes "ep_good download_events fileno p" "ct_reachable (ep_ops fileno) cf (ContentManager_init p) m" "fresh_connect ce m"
  shows "contents_ok (ep_good download_events fileno) m
    \<and> (case ct_apply (ep_ops fileno) cf ce op m of
         Inl err \<Rightarrow> content_fault cf ce op m = Some err
       | Inr m' \<Rightarrow> content_fault cf ce op m = None \<and> contents_ok (ep_good download_events fileno) m')
    \<and> (\<exists>m'. ct_stop (\<lambda>name p. Inr (EPoller_clearRead (new_fd name) name p)) (\<lambda>name p. Inr (EPoller_clearWrite (new_fd name) name p)) m
           = Inr m'
         \<and> ct_socks m' = {} \<and> ct_byclient m' = Map.empty \<and> ct_buffered m' = [] \<and> ct_shut m' = ct_shut m \<union> ct_socks m)"
proof -
  have ok: "contents_ok (ep_good download_events fileno) m"
    by (rule contents.reachable_kept [OF assms(2) contents_ok_init [of "ep_good download_events fileno", OF assms(1)]])
  with contents.apply_kept [OF ok assms(3)] contents.stop_forgets [OF ok] show ?thesis by simp
qed

definition bad_port :: "unit content_op" where
  "bad_port = GetContent 4 (Some ''download'') (Fields [''10.0.0.1'', ''http'', [], ''0'', ''GET''])"

theorem contents_stay_consistent_witness:
  "contents_ok (ep_good download_events Some) (ContentManager_init download_watch)
    \<and> ct_apply (ep_ops Some) example_conf (example_env (Sent 3)) bad_port (ContentManager_init download_watch) = Inl ValueError"
proof -
  have "py_int ''http'' = Inl ValueError" by code_simp
  then have "content_fault example_conf (example_env (Sent 3)) bad_port (ContentManager_init download_watch) = Some ValueError"
    by (simp add: bad_port_def content_fault_def decision_fault_def unpack_def site_fault_def)
  note fault = this and kept = contents_stay_consistent [OF download_watch_good
    ct_reachable.start [of "ep_ops Some" example_conf] example_fresh(2) [of "Sent 3"], of bad_port]
  show ?thesis
    by (rule conjI [OF conjunct1 [OF kept]], cases "ct_apply (ep_ops Some) example_conf (example_env (Sent 3)) bad_port
        (ContentManager_init download_watch)") (use conjunct1 [OF conjunct2 [OF kept]] fault in auto)
qed

text \<open>C7: A decision opens a connection only to an IP address that is not in the deny list and, on this machine, only to a service that is allowed; it is the connection of the client the decision is for.\<close>

theorem getContent_policy:
  assumes "contents_ok (ep_good download_events fileno) m" "fresh_connect ce m"
    and "getContent (ep_ops fileno) cf ce client command args m = Inr (x, m')"
    and "ct_opening m' s = Some k" "ct_opening m s = None"
  shows "dl_client (ct_at m' k) = client \<and> admitted cf ce (ct_at m' k)"
  using assms by (rule contents.getContent_new)

lemma example_opens:
  "\<exists>x m'. getContent (ep_ops Some) example_conf (example_env (Sent 3)) 4 (Some ''download'')
       (Fields [''10.0.0.1'', ''80'', [], ''0'', ''GET''] :: unit decision) (ContentManager_init download_watch) = Inr (x, m')
     \<and> ct_opening m' 12 = Some 0"
proof -
  have v: "py_int ''80'' = Inr 80" "isipv4 ''10.0.0.1'' = Inr True" "given_length ''0'' = Inr (RemainingBytes 0)"
    "inet_pton4 ''10.0.0.1'' = Some [10, 0, 0, 1]"
    by code_simp+
  have h: "host_number ''10.0.0.1'' = Inr (4, 167772161)"
    using v(4) by (simp add: host_number_def number_of_bytes_def)
  then have w: "denied (cc_deny example_conf) ''10.0.0.1'' = Inr False" by (simp add: denied_def example_conf_def)
  have l: "\<not> local_refused example_conf (example_env (Sent 3)) ''10.0.0.1'' 80"
    by (simp add: local_refused_def example_env_def)
  let ?d = "\<lparr>dl_client = 4, dl_sock = 12, dl_host = ''10.0.0.1'', dl_port = 80, dl_kind = ''download'', dl_w_buffer = ''GET'', dl_ipv4 = True\<rparr>"
  have n: "Content_new (ce_connect (example_env (Sent 3))) 4 ''10.0.0.1'' 80 (cc_bind4 example_conf) ''download'' ''GET'' = Inr (Some ?d)"
    using v(2) by (simp add: Content_new_def example_env_def)
  let ?m = "(ContentManager_init download_watch)\<lparr>ct_store := [?d], ct_opening := [12 \<mapsto> 0], ct_byclient := [4 \<mapsto> 0]\<rparr>"
  obtain p where p: "ct_on_poller (po_addWrite (ep_ops Some) opening_download 12) ?m = Inr (?m\<lparr>ct_poller := p\<rparr>)"
    using contents.on_poller_good [of Some ?m opening_download "po_addWrite (ep_ops Some)" 12] download_watch_good
    by (auto simp: ContentManager_init_def)
  have "plan_content (ep_ops Some) example_conf (example_env (Sent 3)) 4 (Some ''download'')
       (Fields [''10.0.0.1'', ''80'', [], ''0'', ''GET''] :: unit decision) (ContentManager_init download_watch)
    = Inr (\<lparr>pl_downloader = Some 0, pl_new = True, pl_request = Some ''GET'', pl_content = stream_with [],
            pl_length = RemainingBytes 0\<rparr>, (ContentManager_init download_watch)\<lparr>ct_store := [?d]\<rparr>)"
    using v w l n by (simp add: plan_content_def unpack_def plan_download_def getDownloader_def current_download_def ContentManager_init_def Let_def)
  then show ?thesis using p by (simp add: getContent_def ContentManager_init_def)
qed

theorem getContent_policy_witness:
  "\<exists>x m'. getContent (ep_ops Some) example_conf (example_env (Sent 3)) 4 (Some ''download'')
       (Fields [''10.0.0.1'', ''80'', [], ''0'', ''GET''] :: unit decision) (ContentManager_init download_watch) = Inr (x, m')
     \<and> dl_client (ct_at m' 0) = 4 \<and> admitted example_conf (example_env (Sent 3)) (ct_at m' 0)"
proof -
  from example_opens obtain x m' where r: "getContent (ep_ops Some) example_conf (example_env (Sent 3)) 4 (Some ''download'')
       (Fields [''10.0.0.1'', ''80'', [], ''0'', ''GET''] :: unit decision) (ContentManager_init download_watch) = Inr (x, m')" "ct_opening m' 12 = Some 0"
    by blast
  have "ct_opening (ContentManager_init download_watch) 12 = None" by (simp add: ContentManager_init_def)
  note c = getContent_policy [OF contents_ok_init [of "ep_good download_events Some", OF download_watch_good] example_fresh(2) r this]
  show ?thesis by (rule exI, rule exI, rule conjI [OF r(1) c])
qed

text \<open>C9: Data for a download: what the socket took, then what is kept, is what was kept, then the data. Nothing is sent while the connection is opening.\<close>

theorem sendClientData_conserves:
  assumes "contents_ok (ep_good download_events fileno) m" "ct_byclient m client = Some k"
    and "ct_sendClientData (ep_ops fileno) ce client data m = Inr ((buffered, change), m')"
  shows "take (if ct_opening m (dl_sock (ct_at m k)) = None then took (ce_send ce) else 0) (dl_w_buffer (ct_at m k) @ data)
      @ dl_w_buffer (ct_at m' k) = dl_w_buffer (ct_at m k) @ data"
  using assms by (rule contents.sendClientData_result)

theorem sendClientData_conserves_witness:
  "\<exists>r m'. ct_sendClientData (ep_ops Some) (example_env (Sent 3)) 4 ''abc'' (one_download True) = Inr (r, m')
    \<and> take 3 (''GET / HTTP/1.1'' @ ''abc'') @ dl_w_buffer (ct_at m' 0) = ''GET / HTTP/1.1'' @ ''abc''"
proof -
  obtain buffered change m' where r: "ct_sendClientData (ep_ops Some) (example_env (Sent 3)) 4 ''abc'' (one_download True) = Inr ((buffered, change), m')"
    using contents.sendClientData_kept [OF one_download_ok, of "example_env (Sent 3)" 4 "''abc''" True] by auto
  have k: "ct_byclient (one_download True) 4 = Some 0" by (simp add: one_download_def)
  have "ct_at (one_download True) 0 = example_download" "ct_opening (one_download True) = Map.empty"
    by (simp_all add: one_download_def)
  with sendClientData_conserves [OF one_download_ok k r] r show ?thesis
    by (simp add: example_download_def example_env_def took_def del: take_append)
qed

text \<open>C10: A file that is served instead of a page is a regular file below the location of the local pages: no component of its path after the location is \<open>..\<close>, whatever the name in the decision.\<close>

theorem local_file_confined:
  assumes "getLocalContent cf ce code name m = Inr (Some (command, LocalFile header filename), m')" "prefix ''/'' (cc_location cf)"
  shows "\<exists>rest. filename = cc_location cf @ SEP # rest \<and> ''..'' \<notin> set (split_on SEP rest) \<and> fs_isfile (ce_files ce filename)"
proof -
  have f: "filename = local_filename cf name" "py_isfile ce filename = Inr True"
    using assms(1) by (auto simp: getLocalContent_def close_with_def Let_def seq_eq_Inr_iff split: if_splits)
  then have i: "filename \<noteq> []" "fs_isfile (ce_files ce filename)" by (auto simp: py_isfile_def split: if_splits)
  then obtain rest where r: "filename = cc_location cf @ SEP # rest" "filename = normpath (path_join (cc_location cf) name)"
    using f(1) by (auto simp: local_filename_def Let_def prefix_def split: if_splits)
  have "''..'' \<notin> set (split_on SEP filename)"
    using normpath_absolute(1) [OF path_join_absolute [OF assms(2)], of name] r(2) by simp
  then show ?thesis using split_on_suffix [of "cc_location cf" rest] r(1) i(2) by simp
qed

theorem local_file_confined_witness:
  "\<exists>header m'. getLocalContent example_conf (example_env (Sent 3)) ''400'' ''../html//noconnect.html'' (one_download True)
       = Inr (Some (Some ''file'', LocalFile header ''/var/html/noconnect.html''), m')
    \<and> (\<exists>rest. ''/var/html/noconnect.html'' = cc_location example_conf @ SEP # rest \<and> ''..'' \<notin> set (split_on SEP rest)
         \<and> fs_isfile (ce_files (example_env (Sent 3)) ''/var/html/noconnect.html''))"
proof -
  have "normpath (path_join ''/var/html'' ''../html//noconnect.html'') = ''/var/html/noconnect.html''" by code_simp
  then have f: "local_filename example_conf ''../html//noconnect.html'' = ''/var/html/noconnect.html''"
    by (simp add: local_filename_def example_conf_def)
  obtain header m' where r: "getLocalContent example_conf (example_env (Sent 3)) ''400'' ''../html//noconnect.html'' (one_download True)
       = Inr (Some (Some ''file'', LocalFile header ''/var/html/noconnect.html''), m')"
    using f by (auto simp: getLocalContent_def py_isfile_def example_env_def Let_def fresh_header_def one_download_def ContentManager_init_def)
  from local_file_confined [OF this] show ?thesis using r by (auto simp: example_conf_def)
qed

text \<open>When a connection is made and takes only a part of the request, the rest stays in its buffer and the manager reports that no data waits: the socket is not among those it writes to when they can be written to, so the rest leaves only with the next data of the client.\<close>

theorem startDownload_forgets_rest:
  assumes "contents_ok (ep_good download_events fileno) m" "ct_opening m s = Some k" "s \<notin> set (ct_buffered m)"
    and "ce_send ce = Sent n" "n < length (dl_w_buffer (ct_at m k))"
  shows "\<exists>client answer m'. ct_startDownload (ep_ops fileno) cf ce s m = Inr ((client, answer, Some False), m')
    \<and> ct_established m' s = Some k \<and> dl_w_buffer (ct_at m' k) = drop n (dl_w_buffer (ct_at m k)) \<and> s \<notin> set (ct_buffered m')"
  using assms by (rule contents.start_rest)

theorem startDownload_forgets_rest_witness:
  "\<exists>client answer m'. ct_startDownload (ep_ops Some) example_conf (example_env (Sent 3)) 9 (one_download False) = Inr ((client, answer, Some False), m')
    \<and> ct_established m' 9 = Some 0 \<and> dl_w_buffer (ct_at m' 0) = drop 3 (dl_w_buffer (ct_at (one_download False) 0))
    \<and> 9 \<notin> set (ct_buffered m')"
  by (rule startDownload_forgets_rest [OF one_download_ok])
     (simp_all add: one_download_def example_download_def example_env_def ContentManager_init_def)

text \<open>A decision to connect for a client that already has a connection to that host and port ends in an exception: the branch of \<open>connect\<close> does not assign the request that is then written.\<close>

theorem connect_again_raises:
  assumes "ct_byclient m client = Some k" "dl_host (ct_at m k) = host" "dl_port (ct_at m k) = q"
    and "isipv4 host = Inr True" "py_int port = Inr q"
  shows "getContent po cf ce client (Some ''connect'') (Fields [host, port, data]) m = Inl UnboundLocalError"
  using assms by (simp add: getContent_def plan_content_def unpack_def plan_connect_def getDownloader_def current_download_def Let_def)

theorem connect_again_raises_witness:
  "getContent (ep_ops Some) example_conf (example_env (Sent 3)) 4 (Some ''connect'') (Fields [''10.0.0.1'', ''80'', []]) (one_download True)
    = Inl UnboundLocalError"
proof (rule connect_again_raises [where k = 0])
  show "py_int ''80'' = Inr 80" by code_simp
  show "isipv4 ''10.0.0.1'' = Inr True" by code_simp
qed (simp_all add: one_download_def example_download_def)

end
