(* ===== verification/Resolver.thy ===== *)
theory Resolver
  imports Complex_Main SteadyPoller RedirectorResponse DnsAnswer
begin

text \<open>
  \<open>lib/exaproxy/reactor/resolver/worker.py\<close> and \<open>resolver/manager.py\<close>: the DNS clients (one over UDP, the
  others over TCP) and the table of the names being resolved for the clients of the proxy, with the
  cache of what they resolved to.
\<close>

section \<open>The clients of the DNS servers\<close>

text \<open>The identifiers of \<open>next_identifier\<close>: from 1 to 65534 and again; \<open>n\<close> is the next one.\<close>

definition following_identifier :: "nat \<Rightarrow> nat" where
  "following_identifier n = (if n + 1 \<ge> 65535 then 1 else n + 1)"

text \<open>
  The two generators of a TCP client. The reader has the data received so far, and has just yielded at
  the end of the stream, or has ended. The writer has data left to send, or has ended.
\<close>

datatype tcp_reader = Reading string | AtEof | ReaderEnded

datatype tcp_writer = Writing string | WriterEnded

record dns_worker =
  dw_id :: nat
  dw_tcp :: bool
  dw_following :: nat
  dw_socket :: sock
  dw_reader :: "tcp_reader option"
  dw_writer :: "tcp_writer option"

definition DNSClient_init :: "nat \<Rightarrow> bool \<Rightarrow> sock \<Rightarrow> dns_worker" where
  "DNSClient_init w_id tcp s =
     \<lparr>dw_id = w_id, dw_tcp = tcp, dw_following = 1, dw_socket = s, dw_reader = None, dw_writer = None\<rparr>"

text \<open>
  \<open>_read\<close>: what \<open>next\<close> yields, given what the socket replies. An error of another kind than one that
  would block is ignored and the socket is asked again: \<open>None\<close> when the answers run out.
\<close>

fun tcp_read_more :: "recv_result list \<Rightarrow> string \<Rightarrow> (string \<times> tcp_reader) option" where
  "tcp_read_more [] data = None"
| "tcp_read_more (Received s # _) data = Some (data @ s, if s = [] then AtEof else Reading (data @ s))"
| "tcp_read_more (WouldBlock # _) data = Some ([], Reading data)"
| "tcp_read_more (SocketError # replies) data = tcp_read_more replies data"

definition tcp_read_next :: "recv_result list \<Rightarrow> tcp_reader \<Rightarrow> (string option \<times> tcp_reader) res option" where
  "tcp_read_next replies r =
     (case r of
        Reading data \<Rightarrow> map_option (\<lambda>(s, r'). Inr (Some s, r')) (tcp_read_more replies data)
      | AtEof \<Rightarrow> Some (Inr (None, ReaderEnded))
      | ReaderEnded \<Rightarrow> Some (Inl StopIteration))"

text \<open>\<open>_write\<close>: whether data is left, \<open>None\<close> when the socket would block.\<close>

definition tcp_write_next :: "send_result \<Rightarrow> tcp_writer \<Rightarrow> (bool option \<times> tcp_writer) res" where
  "tcp_write_next answer w =
     (case w of
        WriterEnded \<Rightarrow> Inl StopIteration
      | Writing data \<Rightarrow>
          if data = [] then Inr (Some False, WriterEnded)
          else
            (case answer of
               Sent n \<Rightarrow> Inr (Some (drop n data \<noteq> []), Writing (drop n data))
             | SendBlocked \<Rightarrow> Inr (None, Writing data)
             | SendError \<Rightarrow> Inr (Some False, WriterEnded)))"

definition TCPClient_continueSending :: "send_result \<Rightarrow> dns_worker \<Rightarrow> (bool option \<times> dns_worker) res" where
  "TCPClient_continueSending answer w =
     (case dw_writer w of
        None \<Rightarrow> Inr (None, w)
      | Some wr \<Rightarrow> seq (tcp_write_next answer wr) (\<lambda>(res, wr'). Inr (res, w\<lparr>dw_writer := Some wr'\<rparr>)))"

text \<open>
  What surrounds an operation: the time, what the sockets answer, \<open>connect\<close>, and the choices among the
  records of a response, one chooser for each question put to it.
\<close>

record resolver_conf =
  rc_types :: dns_types
  rc_out4 :: bool
  rc_out6 :: bool
  rc_ttl :: rat
  rc_timeout :: rat
  rc_retries :: nat
  rc_fqdn :: bool
  rc_max_workers :: nat

record resolver_env =
  re_now :: rat
  re_recv :: "recv_result list"
  re_send :: send_result
  re_connect :: "sock option res"
  re_pick :: "nat \<Rightarrow> chooser"

definition default_qtype :: "resolver_conf \<Rightarrow> string" where
  "default_qtype cf = (if rc_out4 cf then ''A'' else ''AAAA'')"

text \<open>\<open>resolveHost\<close>: the identifier and whether all of the request has been sent.\<close>

definition UDPClient_resolveHost :: "resolver_conf \<Rightarrow> string \<Rightarrow> string option \<Rightarrow> nat option \<Rightarrow> dns_worker \<Rightarrow>
    ((nat \<times> bool) \<times> dns_worker) res" where
  "UDPClient_resolveHost cf hostname qtype identifier w =
     (let q = (case qtype of None \<Rightarrow> default_qtype cf | Some q \<Rightarrow> q);
          (n, w') = (case identifier of Some i \<Rightarrow> (i, w)
                     | None \<Rightarrow> (dw_following w, w\<lparr>dw_following := following_identifier (dw_following w)\<rparr>))
      in seq (createRequestString (rc_types cf) (int n) q hostname False) (\<lambda>_. Inr ((n, True), w')))"

definition TCPClient_resolveHost :: "resolver_conf \<Rightarrow> send_result \<Rightarrow> string \<Rightarrow> string option \<Rightarrow> dns_worker \<Rightarrow>
    ((nat \<times> bool) \<times> dns_worker) res" where
  "TCPClient_resolveHost cf answer hostname qtype w =
     (let q = (case qtype of None \<Rightarrow> default_qtype cf | Some q \<Rightarrow> q);
          n = dw_following w; w' = w\<lparr>dw_following := following_identifier n\<rparr>
      in seq (createRequestString (rc_types cf) (int n) q hostname True) (\<lambda>request.
         case request of
           Some (c # cs) \<Rightarrow>
             seq (tcp_write_next answer (Writing (c # cs))) (\<lambda>(res, wr).
             Inr ((n, res = Some False), w'\<lparr>dw_writer := Some wr, dw_reader := Some (Reading [])\<rparr>))
         | _ \<Rightarrow> Inr ((n, True), w')))"

definition DNSClient_resolveHost :: "resolver_conf \<Rightarrow> send_result \<Rightarrow> string \<Rightarrow> string option \<Rightarrow> dns_worker \<Rightarrow>
    ((nat \<times> bool) \<times> dns_worker) res" where
  "DNSClient_resolveHost cf answer hostname qtype w =
     (if dw_tcp w then TCPClient_resolveHost cf answer hostname qtype w
      else UDPClient_resolveHost cf hostname qtype None w)"

definition DNSClient_readResponse :: "recv_result list \<Rightarrow> dns_worker \<Rightarrow> (string option \<times> dns_worker) res option" where
  "DNSClient_readResponse replies w =
     (if dw_tcp w then
        (case dw_reader w of
           None \<Rightarrow> Some (Inl AttributeError)
         | Some r \<Rightarrow> oseq (tcp_read_next replies r) (\<lambda>(s, r'). Some (Inr (s, w\<lparr>dw_reader := Some r'\<rparr>))))
      else
        Some (case replies of Received s # _ \<Rightarrow> Inr (Some s, w) | _ \<Rightarrow> Inl SocketFailure))"

text \<open>What \<open>getResponse\<close> of a client returns, and what it makes of a response.\<close>

record dns_result =
  dn_identifier :: "nat option"
  dn_forhost :: "string option"
  dn_ip :: "string option"
  dn_completed :: bool
  dn_newidentifier :: "nat option"
  dn_newhost :: "string option"
  dn_newcomplete :: bool

definition partial_result :: dns_result where
  "partial_result = \<lparr>dn_identifier = None, dn_forhost = None, dn_ip = None, dn_completed = True, dn_newidentifier = None,
     dn_newhost = None, dn_newcomplete = False\<rparr>"

definition result_of :: "dns_response \<Rightarrow> string option \<Rightarrow> dns_result" where
  "result_of r v = \<lparr>dn_identifier = Some (rs_identifier r), dn_forhost = rs_qhost r, dn_ip = v, dn_completed = rs_complete r,
     dn_newidentifier = None, dn_newhost = None, dn_newcomplete = True\<rparr>"

text \<open>Another query, whose answer is awaited in the place of this one.\<close>

definition follow :: "resolver_conf \<Rightarrow> send_result \<Rightarrow> dns_response \<Rightarrow> string option \<Rightarrow> string option \<Rightarrow> dns_worker \<Rightarrow>
    (dns_result \<times> dns_worker) res" where
  "follow cf answer r host qtype w =
     seq (or_raise AttributeError host) (\<lambda>h.
     seq (DNSClient_resolveHost cf answer h qtype w) (\<lambda>((n, complete), w').
     Inr ((result_of r None)\<lparr>dn_newidentifier := Some n, dn_newhost := Some h, dn_newcomplete := complete\<rparr>, w')))"

definition next_query :: "resolver_conf \<Rightarrow> resolver_env \<Rightarrow> dns_response \<Rightarrow> string option \<Rightarrow> dns_worker \<Rightarrow>
    (dns_result \<times> dns_worker) res" where
  "next_query cf re r v w =
     (case v of
        None \<Rightarrow>
          if rs_qtype r = Some ''A'' \<and> getRelated r \<noteq> None then follow cf (re_send re) r (getRelated r) None w
          else if rs_qtype r = Some ''A'' \<and> rc_out6 cf then
            (case snd (getValue (re_pick re 2) 0 None (Some ''AAAA'') r) of
               None \<Rightarrow> follow cf (re_send re) r (rs_qhost r) (Some ''AAAA'') w
             | Some v' \<Rightarrow> Inr (result_of r (Some v'), w))
          else if rs_qtype r = Some ''AAAA'' then
            (case snd (getValue (re_pick re 2) 0 None (Some ''CNAME'') r) of
               Some cname \<Rightarrow> follow cf (re_send re) r (Some cname) None w
             | None \<Rightarrow> follow cf (re_send re) r (rs_qhost r) (Some ''CNAME'') w)
          else Inr (result_of r None, w)
      | Some v' \<Rightarrow>
          if rs_qtype r = Some ''CNAME'' then follow cf (re_send re) r (Some v') None w
          else Inr (result_of r (Some v'), w))"

definition DNSClient_getResponse :: "resolver_conf \<Rightarrow> resolver_env \<Rightarrow> (nat \<rightharpoonup> nat) \<Rightarrow> (nat \<rightharpoonup> string) \<Rightarrow> dns_worker \<Rightarrow>
    (dns_result option \<times> dns_worker \<times> (nat \<rightharpoonup> string)) res option" where
  "DNSClient_getResponse cf re chained names w =
     oseq (DNSClient_readResponse (re_recv re) w) (\<lambda>(response_s, w1).
     case response_s of
       None \<Rightarrow> Some (Inr (None, w1, names))
     | Some s \<Rightarrow>
         oseq (normalizeResponse (rc_types cf) names s (dw_tcp w)) (\<lambda>(completed, response, names1).
         if \<not> completed then Some (Inr (Some partial_result, w1, names1))
         else
           (case response of
              None \<Rightarrow> Some (Inr (None, w1, names1))
            | Some r \<Rightarrow>
                Option.bind (case snd (getValue (re_pick re 0) 0 None None r) of
                    None \<Rightarrow> map_option snd (getChainedValue (re_pick re 1) r)
                  | Some v \<Rightarrow> Some (Some v))
                (\<lambda>v. Some (
                  if dict_get chained (rs_identifier r) 0 < 10 then
                    seq (next_query cf re r v w1) (\<lambda>(res, w2). Inr (Some res, w2, names1))
                  else Inr (Some (result_of r v), w1, names1))))))"

section \<open>The manager\<close>

text \<open>
  A query is kept with the client it is for, the name first asked for and the name now asked for, the
  command and the decision. \<open>rm_udp\<close> is the socket of the UDP client, which is one of the workers, and
  \<open>rm_names\<close> what the decoder of packets keeps between two of them. The server for the workers' numbers
  counts as the clients' identifiers do.
\<close>

type_synonym 'm query = "sock \<times> string \<times> string \<times> string \<times> 'm decision"

record ('m, 'p) resolver =
  rm_udp :: sock
  rm_workers :: "sock \<rightharpoonup> dns_worker"
  rm_following :: nat
  rm_clients :: "sock \<rightharpoonup> nat \<times> nat \<times> rat \<times> nat"
  rm_resolving :: "nat \<times> nat \<rightharpoonup> 'm query"
  rm_sending :: "sock \<rightharpoonup> 'm query"
  rm_active :: "(rat \<times> sock \<times> sock) list"
  rm_cache :: "string \<rightharpoonup> string"
  rm_cached :: "(rat \<times> string list) list"
  rm_worker_count :: int
  rm_waiting :: "(sock \<times> string \<times> 'm decision \<times> nat) list"
  rm_chained :: "nat \<rightharpoonup> nat"
  rm_names :: "nat \<rightharpoonup> string"
  rm_closed :: "sock set"
  rm_poller :: 'p

definition read_resolver :: event_name where "read_resolver = ''read_resolver''"
definition write_resolver :: event_name where "write_resolver = ''write_resolver''"

definition rm_on_poller :: "('p \<Rightarrow> 'p res) \<Rightarrow> ('m, 'p) resolver \<Rightarrow> ('m, 'p) resolver res" where
  "rm_on_poller f m = seq (f (rm_poller m)) (\<lambda>p. Inr (m\<lparr>rm_poller := p\<rparr>))"

text \<open>The manager with a UDP client over the socket \<open>s\<close>.\<close>

definition ResolverManager_init :: "'p poller_ops \<Rightarrow> sock \<Rightarrow> 'p \<Rightarrow> ('m, 'p) resolver res" where
  "ResolverManager_init po s p =
     seq (po_addRead po read_resolver s p) (\<lambda>p'.
     Inr \<lparr>rm_udp = s, rm_workers = [s \<mapsto> DNSClient_init 0 False s], rm_following = 1, rm_clients = Map.empty,
          rm_resolving = Map.empty, rm_sending = Map.empty, rm_active = [], rm_cache = Map.empty, rm_cached = [],
          rm_worker_count = 1, rm_waiting = [], rm_chained = Map.empty, rm_names = Map.empty, rm_closed = {}, rm_poller = p'\<rparr>)"

subsection \<open>The cache\<close>

definition max_entries :: nat where "max_entries = 1024 * 20"

text \<open>The time a name is forgotten at, by steps of five seconds.\<close>

definition cache_expiry :: "rat \<Rightarrow> rat \<Rightarrow> rat" where
  "cache_expiry now ttl = (let t = now + ttl in t - (t - 5 * of_int \<lfloor>t / 5\<rfloor>))"

definition cacheDestination :: "resolver_conf \<Rightarrow> rat \<Rightarrow> string \<Rightarrow> string \<Rightarrow> ('m, 'p) resolver \<Rightarrow> ('m, 'p) resolver res" where
  "cacheDestination cf now hostname ip m =
     (if rm_cache m hostname \<noteq> None then Inr m
      else
        let expire_time = cache_expiry now (rc_ttl cf);
            latest_time = (if rm_cached m = [] then -1 else fst (last (rm_cached m)));
            m1 = m\<lparr>rm_cache := (rm_cache m)(hostname \<mapsto> ip)\<rparr> in
        if expire_time > latest_time then Inr (m1\<lparr>rm_cached := rm_cached m @ [(expire_time, [hostname])]\<rparr>)
        else if rm_cached m = [] then Inl AttributeError
        else Inr (m1\<lparr>rm_cached := butlast (rm_cached m) @ [(fst (last (rm_cached m)), snd (last (rm_cached m)) @ [hostname])]\<rparr>))"

definition expireCache :: "rat \<Rightarrow> ('m, 'p) resolver \<Rightarrow> ('m, 'p) resolver" where
  "expireCache now m =
     (case rm_cached m of
        [] \<Rightarrow> m
      | (expire_time, hosts) # rest \<Rightarrow>
          if now \<ge> expire_time \<or> card (dom (rm_cache m)) > max_entries
          then m\<lparr>rm_cached := rest, rm_cache := (rm_cache m) |` (- set hosts)\<rparr>
          else m)"

subsection \<open>Decisions with a name in the place of an address\<close>

text \<open>
  An answer for the reactor: the client, the command and the decision. \<open>decision[0]\<close> and
  \<open>(ip,) + decision[1:]\<close> of what is not a tuple of strings raise or are made of characters.
\<close>

type_synonym dns_answer = "sock \<times> string \<times> string list"

definition resolvable :: "string \<Rightarrow> bool" where
  "resolvable command \<longleftrightarrow> command = ''download'' \<or> command = ''connect'' \<or> command = ''intercept''"

definition decision_host :: "'m decision \<Rightarrow> string res" where
  "decision_host decision =
     (case decision of
        Fields (h # _) \<Rightarrow> Inr h
      | Fields [] \<Rightarrow> Inl IndexError
      | Text (c # _) \<Rightarrow> Inr [c]
      | Text [] \<Rightarrow> Inl IndexError
      | _ \<Rightarrow> Inl TypeError)"

definition resolves :: "string \<Rightarrow> 'm decision \<Rightarrow> bool res" where
  "resolves command decision =
     (if resolvable command then seq (decision_host decision) (\<lambda>h. seq (isip h) (\<lambda>ip. Inr (\<not> ip))) else Inr False)"

definition extractHostname :: "string \<Rightarrow> 'm decision \<Rightarrow> string option res" where
  "extractHostname command decision =
     (if resolvable command then seq (decision_host decision) (\<lambda>h. Inr (Some h)) else Inr None)"

definition resolveDecision :: "string \<Rightarrow> 'm decision \<Rightarrow> string \<Rightarrow> string list res" where
  "resolveDecision command decision ip =
     (if resolvable command then (case decision of Fields (_ # args) \<Rightarrow> Inr (ip # args) | _ \<Rightarrow> Inl TypeError)
      else Inl TypeError)"

definition dns_page :: "sock \<Rightarrow> string \<Rightarrow> string \<Rightarrow> string \<Rightarrow> dns_answer" where
  "dns_page client code comment hostname = (client, ''rewrite'', [code, ''dns.html'', comment, [], [], hostname, ''peer''])"

subsection \<open>Starting\<close>

text \<open>A query sent by the UDP client, as \<open>self.worker\<close> is always.\<close>

definition send_query :: "resolver_conf \<Rightarrow> resolver_env \<Rightarrow> sock \<Rightarrow> string \<Rightarrow> string \<Rightarrow> 'm decision \<Rightarrow> nat \<Rightarrow> nat option \<Rightarrow>
    ('m, 'p) resolver \<Rightarrow> (nat \<times> ('m, 'p) resolver) res" where
  "send_query cf re client hostname command decision resolve_count identifier m =
     seq (or_raise KeyError (rm_workers m (rm_udp m))) (\<lambda>w.
     seq (UDPClient_resolveHost cf hostname None identifier w) (\<lambda>((n, _), w').
     Inr (n, m\<lparr>rm_workers := (rm_workers m)(rm_udp m \<mapsto> w'),
               rm_resolving := (rm_resolving m)((dw_id w, n) \<mapsto> (client, hostname, hostname, command, decision)),
               rm_clients := (rm_clients m)(client \<mapsto> (dw_id w, n, re_now re, resolve_count)),
               rm_active := rm_active m @ [(re_now re, client, rm_udp m)]\<rparr>)))"

definition startResolving :: "resolver_conf \<Rightarrow> resolver_env \<Rightarrow> sock \<Rightarrow> string \<Rightarrow> 'm decision \<Rightarrow> nat \<Rightarrow> nat option \<Rightarrow>
    ('m, 'p) resolver \<Rightarrow> ((nat option \<times> dns_answer option) \<times> ('m, 'p) resolver) res" where
  "startResolving cf re client command decision resolve_count identifier m =
     seq (extractHostname command decision) (\<lambda>hostname.
     if hostname \<noteq> None \<and> hostname \<noteq> Some [] then
       let h = the hostname in
       if rm_cache m h \<noteq> None \<and> identifier = None then
         seq (resolveDecision command decision (the (rm_cache m h))) (\<lambda>resolved.
         Inr ((None, Some (client, command, resolved)), m))
       else if rc_fqdn cf \<and> CHR ''.'' \<notin> set h then Inr ((None, Some (dns_page client ''200'' ''http'' h)), m)
       else if \<exists>p \<in> set (split_on (CHR ''.'') h). length p > 255 then Inr ((None, Some (dns_page client ''503'' ''http'' h)), m)
       else
         seq (send_query cf re client h command decision resolve_count identifier m) (\<lambda>(n, m1).
         Inr ((Some n, None), m1))
     else Inr ((None, None), m))"

text \<open>
  \<open>newTCPResolver\<close>: a connection that cannot be made has no socket, and the first write to it raises.
  The socket noted with the start of the query is the one of the UDP client.
\<close>

definition newTCPResolver :: "'p poller_ops \<Rightarrow> resolver_conf \<Rightarrow> resolver_env \<Rightarrow> sock \<Rightarrow> string \<Rightarrow> 'm decision \<Rightarrow> nat \<Rightarrow>
    ('m, 'p) resolver \<Rightarrow> (nat option \<times> ('m, 'p) resolver) res" where
  "newTCPResolver po cf re client command decision resolve_count m =
     seq (extractHostname command decision) (\<lambda>hostname.
     if hostname \<noteq> None \<and> hostname \<noteq> Some [] then
       let h = the hostname; q = (client, h, h, command, decision); w_id = rm_following m in
       seq (re_connect re) (\<lambda>conn.
       seq (or_raise AttributeError conn) (\<lambda>s.
       seq (TCPClient_resolveHost cf (re_send re) h None (DNSClient_init w_id True s)) (\<lambda>((n, all_sent), w).
       let m1 = m\<lparr>rm_following := following_identifier w_id, rm_workers := (rm_workers m)(s \<mapsto> w),
                 rm_resolving := (rm_resolving m)((w_id, n) \<mapsto> q),
                 rm_clients := (rm_clients m)(client \<mapsto> (w_id, n, re_now re, resolve_count)),
                 rm_active := rm_active m @ [(re_now re, client, rm_udp m)]\<rparr> in
       if all_sent then
         seq (rm_on_poller (po_addRead po read_resolver s) m1) (\<lambda>m2. Inr (Some n, m2))
       else
         seq (rm_on_poller (po_addWrite po write_resolver s) m1) (\<lambda>m2.
         Inr (Some n, m2\<lparr>rm_sending := (rm_sending m2)(s \<mapsto> q)\<rparr>)))))
     else Inr (None, m))"

definition beginResolvingTCP :: "'p poller_ops \<Rightarrow> resolver_conf \<Rightarrow> resolver_env \<Rightarrow> sock \<Rightarrow> string \<Rightarrow> 'm decision \<Rightarrow> nat \<Rightarrow>
    ('m, 'p) resolver \<Rightarrow> (nat option \<times> ('m, 'p) resolver) res" where
  "beginResolvingTCP po cf re client command decision resolve_count m =
     (if rm_worker_count m < int (rc_max_workers cf) then
        seq (newTCPResolver po cf re client command decision resolve_count m) (\<lambda>(n, m1).
        Inr (n, m1\<lparr>rm_worker_count := rm_worker_count m1 + 1\<rparr>))
      else Inr (None, m\<lparr>rm_waiting := rm_waiting m @ [(client, command, decision, resolve_count)]\<rparr>))"

text \<open>\<open>notifyClose\<close>: a client that has ended makes place for the queries that wait.\<close>

fun start_waiting :: "'p poller_ops \<Rightarrow> resolver_conf \<Rightarrow> resolver_env \<Rightarrow> nat \<Rightarrow> ('m, 'p) resolver \<Rightarrow> ('m, 'p) resolver res" where
  "start_waiting po cf re 0 m = Inr m"
| "start_waiting po cf re (Suc n) m =
     (case rm_waiting m of
        [] \<Rightarrow> start_waiting po cf re n m
      | (client, command, decision, resolve_count) # rest \<Rightarrow>
          seq (newTCPResolver po cf re client command decision resolve_count (m\<lparr>rm_waiting := rest\<rparr>)) (\<lambda>(_, m1).
          start_waiting po cf re n (m1\<lparr>rm_worker_count := rm_worker_count m1 + 1\<rparr>)))"

definition resolver_notifyClose :: "'p poller_ops \<Rightarrow> resolver_conf \<Rightarrow> resolver_env \<Rightarrow> ('m, 'p) resolver \<Rightarrow> ('m, 'p) resolver res" where
  "resolver_notifyClose po cf re m =
     (let most = int (rc_max_workers cf);
          paused = (rm_worker_count m \<ge> most);
          m1 = m\<lparr>rm_worker_count := rm_worker_count m - 1\<rparr> in
      if paused \<and> rm_worker_count m1 < most then start_waiting po cf re (nat (most - rm_worker_count m1)) m1 else Inr m1)"

subsection \<open>Responses\<close>

text \<open>The end of a TCP client.\<close>

definition drop_worker :: "'p poller_ops \<Rightarrow> resolver_conf \<Rightarrow> resolver_env \<Rightarrow> sock \<Rightarrow> ('m, 'p) resolver \<Rightarrow> ('m, 'p) resolver res" where
  "drop_worker po cf re s m =
     (if s = rm_udp m then Inr m
      else
        seq (rm_on_poller (po_removeRead po read_resolver s) m) (\<lambda>m1.
        seq (rm_on_poller (po_removeWrite po write_resolver s) m1) (\<lambda>m2.
        resolver_notifyClose po cf re
          (m2\<lparr>rm_workers := (rm_workers m2)(s := None), rm_closed := insert s (rm_closed m2)\<rparr>))))"

text \<open>A query goes on: under another identifier of the same client, or under the same one.\<close>

definition await_answer :: "resolver_env \<Rightarrow> sock \<Rightarrow> nat \<Rightarrow> nat \<Rightarrow> nat \<Rightarrow> 'm query \<Rightarrow> ('m, 'p) resolver \<Rightarrow> ('m, 'p) resolver" where
  "await_answer re s w_id n resolve_count q m =
     m\<lparr>rm_resolving := (rm_resolving m)((w_id, n) \<mapsto> q),
       rm_clients := (rm_clients m)(fst q \<mapsto> (w_id, n, re_now re, resolve_count)),
       rm_active := rm_active m @ [(re_now re, fst q, s)]\<rparr>"

text \<open>A result for a query that is known, without what is common to all of them.\<close>

definition answer_query :: "'p poller_ops \<Rightarrow> resolver_conf \<Rightarrow> resolver_env \<Rightarrow> sock \<Rightarrow> nat \<Rightarrow> nat \<Rightarrow> dns_result \<Rightarrow> 'm query \<Rightarrow>
    (nat \<times> nat \<times> rat \<times> nat) option \<Rightarrow> ('m, 'p) resolver \<Rightarrow> (dns_answer option \<times> ('m, 'p) resolver) res" where
  "answer_query po cf re s w_id identifier d q clidata m =
     (case q of (client, original, hostname, command, decision) \<Rightarrow>
        if \<not> dn_completed d then
          seq (beginResolvingTCP po cf re client command decision 1 m) (\<lambda>(_, m1). Inr (None, m1))
        else
          (case dn_newidentifier d of
             Some n \<Rightarrow>
               seq (or_raise TypeError (dn_newhost d)) (\<lambda>newhost.
               let m1 = await_answer re s w_id n 1 (client, original, newhost, command, decision) m in
               if dn_newcomplete d then seq (rm_on_poller (po_addRead po read_resolver s) m1) (\<lambda>m2. Inr (None, m2))
               else
                 seq (rm_on_poller (po_addWrite po write_resolver s) m1) (\<lambda>m2.
                 Inr (None, m2\<lparr>rm_sending := (rm_sending m2)(s \<mapsto> (client, original, hostname, command, decision))\<rparr>)))
           | None \<Rightarrow>
               if dn_forhost d \<noteq> Some hostname then
                 seq (or_raise TypeError clidata) (\<lambda>(_, _, _, resolve_count).
                 Inr (None, await_answer re s w_id identifier resolve_count q m))
               else
                 (case dn_ip d of
                    Some ip \<Rightarrow>
                      seq (resolveDecision command decision ip) (\<lambda>resolved.
                      seq (cacheDestination cf (re_now re) original ip m) (\<lambda>m1.
                      Inr (Some (client, command, resolved), m1)))
                  | None \<Rightarrow> Inr (Some (dns_page client ''503'' ''http'' hostname), m))))"

text \<open>Taking the query out of the tables, and counting the queries that follow one another.\<close>

definition take_query :: "sock \<Rightarrow> nat \<Rightarrow> dns_result \<Rightarrow> ('m, 'p) resolver \<Rightarrow>
    ('m query \<times> (nat \<times> nat \<times> rat \<times> nat) option) option \<times> ('m, 'p) resolver" where
  "take_query s w_id d m =
     (let chain_count = (case dn_identifier d of None \<Rightarrow> 0 | Some i \<Rightarrow> dict_get (rm_chained m) i 0);
          chained = (case dn_identifier d of None \<Rightarrow> rm_chained m | Some i \<Rightarrow> (rm_chained m)(i := None));
          m1 = m\<lparr>rm_chained := (case dn_newidentifier d of None \<Rightarrow> chained | Some n \<Rightarrow> chained(n \<mapsto> chain_count + 1))\<rparr> in
      case dn_identifier d of
        None \<Rightarrow> (None, m1)
      | Some i \<Rightarrow>
          (case rm_resolving m1 (w_id, i) of
             None \<Rightarrow> (None, m1)
           | Some q \<Rightarrow>
               let clidata = rm_clients m1 (fst q) in
               (Some (q, clidata),
                m1\<lparr>rm_resolving := (rm_resolving m1)((w_id, i) := None), rm_clients := (rm_clients m1)(fst q := None),
                   rm_active := (case clidata of None \<Rightarrow> rm_active m1 | Some (_, _, t, _) \<Rightarrow> remove1 (t, fst q, s) (rm_active m1))\<rparr>)))"

definition resolver_getResponse :: "'p poller_ops \<Rightarrow> resolver_conf \<Rightarrow> resolver_env \<Rightarrow> sock \<Rightarrow> ('m, 'p) resolver \<Rightarrow>
    (dns_answer option \<times> ('m, 'p) resolver) res option" where
  "resolver_getResponse po cf re s m =
     (case rm_workers m s of
        None \<Rightarrow> Some (Inr (None, m))
      | Some worker \<Rightarrow>
          oseq (DNSClient_getResponse cf re (rm_chained m) (rm_names m) worker) (\<lambda>(result, w, names).
          let m1 = m\<lparr>rm_workers := (rm_workers m)(s \<mapsto> w), rm_names := names\<rparr> in Some (
          case result of
            None \<Rightarrow> seq (drop_worker po cf re s m1) (\<lambda>m2. Inr (None, m2))
          | Some d \<Rightarrow>
              (case take_query s (dw_id worker) d m1 of
                 (None, m2) \<Rightarrow> Inr (None, m2)
               | (Some (q, clidata), m2) \<Rightarrow>
                   seq (or_raise KeyError (dn_identifier d)) (\<lambda>i.
                   seq (answer_query po cf re s (dw_id worker) i d q clidata m2) (\<lambda>(response, m3).
                   if response \<noteq> None then seq (drop_worker po cf re s m3) (\<lambda>m4. Inr (response, m4))
                   else Inr (response, m3)))))))"

definition resolver_continueSending :: "'p poller_ops \<Rightarrow> resolver_env \<Rightarrow> sock \<Rightarrow> ('m, 'p) resolver \<Rightarrow> ('m, 'p) resolver res" where
  "resolver_continueSending po re s m =
     seq (or_raise KeyError (rm_workers m s)) (\<lambda>worker.
     if \<not> dw_tcp worker then Inl AttributeError
     else
       seq (TCPClient_continueSending (re_send re) worker) (\<lambda>(res, w).
       let m1 = m\<lparr>rm_workers := (rm_workers m)(s \<mapsto> w)\<rparr> in
       if res = Some False then
         seq (rm_on_poller (po_removeWrite po write_resolver s) m1) (\<lambda>m2.
         (case rm_sending m2 s of
            None \<Rightarrow> Inr m2
          | Some q \<Rightarrow>
              (case rm_clients m2 (fst q) of
                 None \<Rightarrow> Inr m2
               | Some (w_id, identifier, _, _) \<Rightarrow>
                   rm_on_poller (po_addRead po read_resolver s)
                     (m2\<lparr>rm_sending := (rm_sending m2)(s := None),
                         rm_resolving := (rm_resolving m2)((w_id, identifier) \<mapsto> q)\<rparr>))))
       else Inr m1))"

subsection \<open>Timeouts\<close>

definition expired_query :: "nat \<Rightarrow> nat \<Rightarrow> sock \<Rightarrow> ('m, 'p) resolver \<Rightarrow> 'm query option \<times> ('m, 'p) resolver" where
  "expired_query w_id identifier s m =
     (case rm_resolving m (w_id, identifier) of
        Some q \<Rightarrow> (Some q, m\<lparr>rm_resolving := (rm_resolving m)((w_id, identifier) := None)\<rparr>)
      | None \<Rightarrow> (rm_sending m s, m\<lparr>rm_sending := (rm_sending m)(s := None)\<rparr>))"

definition close_timed_out :: "sock \<Rightarrow> ('m, 'p) resolver \<Rightarrow> ('m, 'p) resolver" where
  "close_timed_out s m =
     (if rm_workers m s \<noteq> None \<and> s \<noteq> rm_udp m
      then m\<lparr>rm_workers := (rm_workers m)(s := None), rm_closed := insert s (rm_closed m)\<rparr> else m)"

definition cleanup_entry :: "resolver_conf \<Rightarrow> resolver_env \<Rightarrow> sock \<Rightarrow> sock \<Rightarrow> ('m, 'p) resolver \<Rightarrow>
    (dns_answer list \<times> ('m, 'p) resolver) res" where
  "cleanup_entry cf re client s m =
     (case rm_clients m client of
        None \<Rightarrow> Inr ([], close_timed_out s m)
      | Some (w_id, identifier, _, resolve_count) \<Rightarrow>
          (case expired_query w_id identifier s (m\<lparr>rm_clients := (rm_clients m)(client := None)\<rparr>) of
             (None, m1) \<Rightarrow> Inr ([], close_timed_out s m1)
           | (Some (client', original, hostname, command, decision), m1) \<Rightarrow>
               if resolve_count < rc_retries cf \<and> s = rm_udp m1 then
                 seq (startResolving cf re client' command decision (resolve_count + 1) (Some identifier) m1) (\<lambda>(_, m2).
                 Inr ([], m2))
               else Inr ([dns_page client' ''503'' [] hostname], close_timed_out s m1)))"

text \<open>The loop of \<open>cleanup\<close> goes over a list that the queries sent again are put at the end of.\<close>

partial_function (option) cleanup_loop :: "resolver_conf \<Rightarrow> resolver_env \<Rightarrow> rat \<Rightarrow> (rat \<times> sock \<times> sock) list \<Rightarrow> nat \<Rightarrow> dns_answer list \<Rightarrow>
    ('m, 'p) resolver \<Rightarrow> ((nat \<times> dns_answer list \<times> ('m, 'p) resolver) res) option" where
  "cleanup_loop cf re cutoff entries n yielded m =
     (case entries of
        [] \<Rightarrow> Some (Inr (n, yielded, m))
      | (timestamp, client, s) # rest \<Rightarrow>
          if timestamp > cutoff then Some (Inr (n, yielded, m))
          else
            (case cleanup_entry cf re client s m of
               Inl e \<Rightarrow> Some (Inl e)
             | Inr (ys, m1) \<Rightarrow>
                 cleanup_loop cf re cutoff (rest @ drop (length (rm_active m)) (rm_active m1)) (n + 1) (yielded @ ys) m1))"

definition resolver_cleanup :: "resolver_conf \<Rightarrow> resolver_env \<Rightarrow> ('m, 'p) resolver \<Rightarrow>
    ((dns_answer list \<times> ('m, 'p) resolver) res) option" where
  "resolver_cleanup cf re m =
     oseq (cleanup_loop cf re (re_now re - rc_timeout cf) (rm_active m) 0 [] m) (\<lambda>(n, yielded, m1).
     Some (Inr (yielded, m1\<lparr>rm_active := drop n (rm_active m1)\<rparr>)))"

section \<open>Facts\<close>

text \<open>What the operations leave alone.\<close>

lemma rm_on_poller_Inr: "rm_on_poller f m = Inr m' \<Longrightarrow> \<exists>p. m' = m\<lparr>rm_poller := p\<rparr>"
  by (auto simp: rm_on_poller_def seq_eq_Inr_iff)

definition same_cache :: "('m, 'p) resolver \<Rightarrow> ('m, 'p) resolver \<Rightarrow> bool" where
  "same_cache m m' \<longleftrightarrow> rm_cache m' = rm_cache m \<and> rm_cached m' = rm_cached m \<and> rm_chained m' = rm_chained m \<and> rm_udp m' = rm_udp m"

lemma same_cache_refl [simp]: "same_cache m m"
  by (simp add: same_cache_def)

lemma same_cache_trans: "same_cache m m1 \<Longrightarrow> same_cache m1 m2 \<Longrightarrow> same_cache m m2"
  by (simp add: same_cache_def)

lemma newTCPResolver_same: "newTCPResolver po cf re client command decision c m = Inr (n, m') \<Longrightarrow> same_cache m m'"
  by (auto simp: newTCPResolver_def same_cache_def seq_eq_Inr_iff Let_def split: if_splits dest!: rm_on_poller_Inr)

lemma start_waiting_same: "start_waiting po cf re n m = Inr m' \<Longrightarrow> same_cache m m'"
proof (induction n arbitrary: m)
  case (Suc n)
  show ?case
  proof (cases "rm_waiting m")
    case Nil
    with Suc show ?thesis by simp
  next
    case (Cons x rest)
    obtain client command decision c where x: "x = (client, command, decision, c)" by (cases x) auto
    from Suc.prems Cons x obtain k m1 where r:
      "newTCPResolver po cf re client command decision c (m\<lparr>rm_waiting := rest\<rparr>) = Inr (k, m1)"
      "start_waiting po cf re n (m1\<lparr>rm_worker_count := rm_worker_count m1 + 1\<rparr>) = Inr m'"
      by (auto simp: seq_eq_Inr_iff)
    from newTCPResolver_same [OF r(1)] Suc.IH [OF r(2)] show ?thesis by (simp add: same_cache_def)
  qed
qed simp

lemma notifyClose_same: "resolver_notifyClose po cf re m = Inr m' \<Longrightarrow> same_cache m m'"
  by (auto simp: resolver_notifyClose_def Let_def same_cache_def split: if_splits dest!: start_waiting_same)

lemma drop_worker_same:
  assumes "drop_worker po cf re s m = Inr m'"
  shows "same_cache m m'"
proof (cases "s = rm_udp m")
  case False
  with assms obtain m1 m2 where "rm_on_poller (po_removeRead po read_resolver s) m = Inr m1"
    "rm_on_poller (po_removeWrite po write_resolver s) m1 = Inr m2"
    and n: "resolver_notifyClose po cf re (m2\<lparr>rm_workers := (rm_workers m2)(s := None), rm_closed := insert s (rm_closed m2)\<rparr>) = Inr m'"
    by (auto simp: drop_worker_def seq_eq_Inr_iff)
  then have "same_cache m m2" by (auto simp: same_cache_def dest!: rm_on_poller_Inr)
  with notifyClose_same [OF n] show ?thesis by (simp add: same_cache_def)
qed (use assms in \<open>simp add: drop_worker_def\<close>)

lemma beginResolvingTCP_same: "beginResolvingTCP po cf re client command decision c m = Inr (n, m') \<Longrightarrow> same_cache m m'"
  by (auto simp: beginResolvingTCP_def same_cache_def seq_eq_Inr_iff split: if_splits dest!: newTCPResolver_same)

text \<open>The cases of an answered query.\<close>

lemma answer_query_cases:
  assumes "answer_query po cf re s w_id identifier d (client, original, hostname, command, decision) clidata m = Inr (r, m')"
  obtains (nothing) "r = None" "same_cache m m'"
  | (address) h args ip where "dn_completed d" "dn_forhost d = Some hostname" "dn_ip d = Some ip" "decision = Fields (h # args)"
      "r = Some (client, command, ip # args)" "cacheDestination cf (re_now re) original ip m = Inr m'"
  | (page) "dn_completed d" "dn_forhost d = Some hostname" "dn_ip d = None" "r = Some (dns_page client ''503'' ''http'' hostname)" "m' = m"
proof (cases "dn_completed d")
  case False
  with assms have "r = None" "same_cache m m'"
    by (auto simp: answer_query_def seq_eq_Inr_iff dest: beginResolvingTCP_same)
  then show thesis by (rule nothing)
next
  case True
  show thesis
  proof (cases "dn_newidentifier d")
    case (Some n)
    with assms True have "r = None" "same_cache m m'"
      by (auto simp: answer_query_def await_answer_def same_cache_def seq_eq_Inr_iff Let_def split: if_splits dest!: rm_on_poller_Inr)
    then show thesis by (rule nothing)
  next
    case None
    show thesis
    proof (cases "dn_forhost d = Some hostname")
      case False
      with assms True None have "r = None" "same_cache m m'"
        by (auto simp: answer_query_def await_answer_def same_cache_def seq_eq_Inr_iff)
      then show thesis by (rule nothing)
    next
      case host: True
      show thesis
      proof (cases "dn_ip d")
        case None
        with assms True \<open>dn_newidentifier d = None\<close> host page show thesis by (simp add: answer_query_def)
      next
        case (Some ip)
        with assms True None host obtain resolved where
          "resolveDecision command decision ip = Inr resolved" "cacheDestination cf (re_now re) original ip m = Inr m'"
          "r = Some (client, command, resolved)"
          by (auto simp: answer_query_def seq_eq_Inr_iff)
        moreover from this obtain h args where "decision = Fields (h # args)" "resolved = ip # args"
          by (auto simp: resolveDecision_def split: if_splits decision.splits list.splits)
        ultimately show thesis using address [of ip h args] True host Some by blast
      qed
    qed
  qed
qed

lemma take_query_Some:
  assumes "take_query s w_id d m = (Some (q, clidata), m')"
  shows "\<exists>i. dn_identifier d = Some i \<and> rm_resolving m (w_id, i) = Some q \<and> rm_cache m' = rm_cache m \<and> rm_cached m' = rm_cached m"
  using assms by (auto simp: take_query_def Let_def split: option.splits)

text \<open>The steps of \<open>getResponse\<close>.\<close>

lemma resolver_getResponse_cases:
  assumes "resolver_getResponse po cf re s m = Some (Inr (r, m'))"
  obtains (unknown) "r = None" "m' = m"
  | (failed) worker w names where "rm_workers m s = Some worker"
      "DNSClient_getResponse cf re (rm_chained m) (rm_names m) worker = Some (Inr (None, w, names))"
      "r = None" "same_cache m m'"
  | (ignored) worker d w names where "rm_workers m s = Some worker"
      "DNSClient_getResponse cf re (rm_chained m) (rm_names m) worker = Some (Inr (Some d, w, names))"
      "take_query s (dw_id worker) d (m\<lparr>rm_workers := (rm_workers m)(s \<mapsto> w), rm_names := names\<rparr>) = (None, m')" "r = None"
  | (query) worker d w names q clidata i m2 m3 where "rm_workers m s = Some worker"
      "DNSClient_getResponse cf re (rm_chained m) (rm_names m) worker = Some (Inr (Some d, w, names))"
      "take_query s (dw_id worker) d (m\<lparr>rm_workers := (rm_workers m)(s \<mapsto> w), rm_names := names\<rparr>) = (Some (q, clidata), m2)"
      "dn_identifier d = Some i" "answer_query po cf re s (dw_id worker) i d q clidata m2 = Inr (r, m3)" "same_cache m3 m'"
proof (cases "rm_workers m s")
  case None
  with assms unknown show thesis by (simp add: resolver_getResponse_def)
next
  case (Some worker)
  obtain res where g: "DNSClient_getResponse cf re (rm_chained m) (rm_names m) worker = Some (Inr res)"
    using assms Some by (auto simp: resolver_getResponse_def oseq_def split: option.splits sum.splits)
  obtain result w names where res: "res = (result, w, names)" by (cases res) auto
  let ?m = "m\<lparr>rm_workers := (rm_workers m)(s \<mapsto> w), rm_names := names\<rparr>"
  show thesis
  proof (cases result)
    case None
    then have "drop_worker po cf re s ?m = Inr m'" "r = None"
      using assms Some g res by (auto simp: resolver_getResponse_def seq_eq_Inr_iff)
    with drop_worker_same have "same_cache ?m m'" by blast
    then have "same_cache m m'" by (simp add: same_cache_def)
    with failed [OF Some] g res None \<open>r = None\<close> show thesis by blast
  next
    case d: (Some d)
    obtain taken m2 where t: "take_query s (dw_id worker) d ?m = (taken, m2)" by fastforce
    show thesis
    proof (cases taken)
      case None
      then have "r = None" "m' = m2" using assms Some g res d t by (auto simp: resolver_getResponse_def)
      with ignored [OF Some] g res d t None show thesis by blast
    next
      case q: (Some x)
      obtain q clidata where x: "x = (q, clidata)" by fastforce
      obtain i m3 where "dn_identifier d = Some i" "answer_query po cf re s (dw_id worker) i d q clidata m2 = Inr (r, m3)"
        and m': "(if r \<noteq> None then drop_worker po cf re s m3 = Inr m' else m' = m3)"
        using assms Some g res d t q x by (auto simp: resolver_getResponse_def seq_eq_Inr_iff split: if_splits)
      moreover have "same_cache m3 m'" using m' drop_worker_same by (auto split: if_splits)
      ultimately show thesis using query [OF Some] g res d t q x by blast
    qed
  qed
qed

text \<open>A client goes on to another query only below the limit.\<close>

lemma follow_identifier: "follow cf answer r host qtype w = Inr (d, w') \<Longrightarrow> dn_identifier d = Some (rs_identifier r)"
  by (auto simp: follow_def result_of_def seq_eq_Inr_iff)

lemma next_query_identifier: "next_query cf re r v w = Inr (d, w') \<Longrightarrow> dn_identifier d = Some (rs_identifier r)"
  by (auto simp: next_query_def result_of_def split: option.splits if_splits dest: follow_identifier)

lemma getResponse_limit:
  assumes "DNSClient_getResponse cf re chained names w = Some (Inr (Some d, w', names'))" "dn_newidentifier d \<noteq> None"
  shows "\<exists>i. dn_identifier d = Some i \<and> dict_get chained i 0 < 10"
proof -
  obtain response_s w1 where "DNSClient_readResponse (re_recv re) w = Some (Inr (Some response_s, w1))"
    and rest: "oseq (normalizeResponse (rc_types cf) names response_s (dw_tcp w)) (\<lambda>(completed, response, names1).
         if \<not> completed then Some (Inr (Some partial_result, w1, names1))
         else (case response of None \<Rightarrow> Some (Inr (None, w1, names1))
            | Some r \<Rightarrow> Option.bind (case snd (getValue (re_pick re 0) 0 None None r) of
                    None \<Rightarrow> map_option snd (getChainedValue (re_pick re 1) r)
                  | Some v \<Rightarrow> Some (Some v))
                (\<lambda>v. Some (if dict_get chained (rs_identifier r) 0 < 10 then
                    seq (next_query cf re r v w1) (\<lambda>(res, w2). Inr (Some res, w2, names1))
                  else Inr (Some (result_of r v), w1, names1))))) = Some (Inr (Some d, w', names'))"
    using assms(1) unfolding DNSClient_getResponse_def
    by (auto simp: oseq_def split: option.splits sum.splits)
  obtain completed response names1 where "normalizeResponse (rc_types cf) names response_s (dw_tcp w) = Some (Inr (completed, response, names1))"
    using rest by (auto simp: oseq_def split: option.splits sum.splits)
  with rest have x: "(if \<not> completed then Some (Inr (Some partial_result, w1, names1))
         else (case response of None \<Rightarrow> Some (Inr (None, w1, names1))
            | Some r \<Rightarrow> Option.bind (case snd (getValue (re_pick re 0) 0 None None r) of
                    None \<Rightarrow> map_option snd (getChainedValue (re_pick re 1) r)
                  | Some v \<Rightarrow> Some (Some v))
                (\<lambda>v. Some (if dict_get chained (rs_identifier r) 0 < 10 then
                    seq (next_query cf re r v w1) (\<lambda>(res, w2). Inr (Some res, w2, names1))
                  else Inr (Some (result_of r v), w1, names1))))) = Some (Inr (Some d, w', names'))" by simp
  have c: "completed" using x assms(2) by (auto simp: partial_result_def split: if_splits)
  obtain r where r: "response = Some r" using x c by (cases response) auto
  obtain v where v: "(if dict_get chained (rs_identifier r) 0 < 10 then
        seq (next_query cf re r v w1) (\<lambda>(res, w2). Inr (Some res, w2, names1))
      else Inr (Some (result_of r v), w1, names1)) = Inr (Some d, w', names')"
    using x c r by (auto simp: bind_eq_Some_conv)
  then have l: "dict_get chained (rs_identifier r) 0 < 10" using assms(2) by (auto simp: result_of_def split: if_splits)
  with v have "dn_identifier d = Some (rs_identifier r)" by (auto simp: seq_eq_Inr_iff dest: next_query_identifier)
  with l show ?thesis by blast
qed

text \<open>The cache: its names are those of the buckets, each once, and the buckets are in order of time.\<close>

definition cache_ok :: "('m, 'p) resolver \<Rightarrow> bool" where
  "cache_ok m \<longleftrightarrow> distinct (concat (map snd (rm_cached m))) \<and> set (concat (map snd (rm_cached m))) = dom (rm_cache m)
     \<and> sorted_wrt (<) (map fst (rm_cached m))"

lemma cacheDestination_ok:
  assumes "cache_ok m" "cacheDestination cf now hostname ip m = Inr m'"
  shows "cache_ok m'"
proof (cases "rm_cache m hostname")
  case (Some x)
  with assms show ?thesis by (simp add: cacheDestination_def)
next
  case None
  then have fresh: "hostname \<notin> set (concat (map snd (rm_cached m)))" using assms(1) unfolding cache_ok_def by blast
  let ?t = "cache_expiry now (rc_ttl cf)"
  have ok: "distinct (concat (map snd (rm_cached m)))" "set (concat (map snd (rm_cached m))) = dom (rm_cache m)"
    "sorted_wrt (<) (map fst (rm_cached m))" using assms(1) unfolding cache_ok_def by auto
  consider (new) "?t > (if rm_cached m = [] then -1 else fst (last (rm_cached m)))"
      "m' = m\<lparr>rm_cache := (rm_cache m)(hostname \<mapsto> ip), rm_cached := rm_cached m @ [(?t, [hostname])]\<rparr>"
    | (old) xs e hs where "rm_cached m = xs @ [(e, hs)]"
      "m' = m\<lparr>rm_cache := (rm_cache m)(hostname \<mapsto> ip), rm_cached := xs @ [(e, hs @ [hostname])]\<rparr>"
    using assms(2) None by (cases "rm_cached m" rule: rev_cases) (auto simp: cacheDestination_def Let_def split: if_splits)
  then show ?thesis
  proof cases
    case new
    have "sorted_wrt (<) (map fst (rm_cached m) @ [?t])"
    proof (cases "rm_cached m" rule: rev_cases)
      case (snoc xs x)
      then have l: "fst x < ?t" and s: "sorted_wrt (<) (map fst xs @ [fst x])" using new(1) ok(3) by auto
      have "y < ?t" if "y \<in> set (map fst xs)" for y using s that l by (force simp: sorted_wrt_append)
      with s l snoc show ?thesis by (auto simp: sorted_wrt_append)
    qed simp
    with ok fresh new(2) show ?thesis by (auto simp: cache_ok_def)
  next
    case old
    with ok fresh show ?thesis by (auto simp: cache_ok_def)
  qed
qed

lemma expireCache_ok:
  assumes "cache_ok m"
  shows "cache_ok (expireCache now m)"
proof (cases "rm_cached m")
  case (Cons b rest)
  obtain e hosts where b: "b = (e, hosts)" by fastforce
  have d: "distinct (concat (map snd (rm_cached m)))" and s: "set (concat (map snd (rm_cached m))) = dom (rm_cache m)"
    and o: "sorted_wrt (<) (map fst (rm_cached m))" using assms unfolding cache_ok_def by auto
  have "cache_ok (m\<lparr>rm_cached := rest, rm_cache := (rm_cache m) |` (- set hosts)\<rparr>)"
    unfolding cache_ok_def
  proof (intro conjI)
    show "distinct (concat (map snd (rm_cached (m\<lparr>rm_cached := rest, rm_cache := (rm_cache m) |` (- set hosts)\<rparr>))))"
      using d Cons b by simp
    have "set (concat (map snd rest)) = dom (rm_cache m) - set hosts" using d s Cons b by auto
    then show "set (concat (map snd (rm_cached (m\<lparr>rm_cached := rest, rm_cache := (rm_cache m) |` (- set hosts)\<rparr>))))
        = dom (rm_cache (m\<lparr>rm_cached := rest, rm_cache := (rm_cache m) |` (- set hosts)\<rparr>))" by (auto simp: restrict_map_def split: if_splits)
    show "sorted_wrt (<) (map fst (rm_cached (m\<lparr>rm_cached := rest, rm_cache := (rm_cache m) |` (- set hosts)\<rparr>)))"
      using o Cons by simp
  qed
  with assms Cons b show ?thesis by (simp add: expireCache_def)
qed (use assms in \<open>simp add: expireCache_def\<close>)

lemma cacheDestination_lookup:
  assumes "cacheDestination cf now hostname ip m = Inr m'"
  shows "rm_cache m' = (if rm_cache m hostname = None then (rm_cache m)(hostname \<mapsto> ip) else rm_cache m)"
  using assms by (auto simp: cacheDestination_def Let_def split: if_splits)

text \<open>Timeouts end: the queries sent again have been sent now.\<close>

lemma send_query_active: "send_query cf re client h command decision c i m = Inr (n, m') \<Longrightarrow> rm_active m' = rm_active m @ [(re_now re, client, rm_udp m)]"
  by (auto simp: send_query_def seq_eq_Inr_iff)

lemma startResolving_active:
  "startResolving cf re client command decision c i m = Inr (r, m') \<Longrightarrow> \<exists>new. rm_active m' = rm_active m @ new \<and> (\<forall>x \<in> set new. fst x = re_now re)"
  by (auto simp: startResolving_def seq_eq_Inr_iff Let_def split: if_splits dest!: send_query_active)

lemma close_timed_out_active [simp]: "rm_active (close_timed_out s m) = rm_active m"
  by (simp add: close_timed_out_def)

lemma expired_query_active: "expired_query w_id i s m = (q, m') \<Longrightarrow> rm_active m' = rm_active m \<and> rm_udp m' = rm_udp m"
  by (auto simp: expired_query_def split: option.splits)

lemma cleanup_entry_active:
  assumes "cleanup_entry cf re client s m = Inr (ys, m')"
  shows "\<exists>new. rm_active m' = rm_active m @ new \<and> (\<forall>x \<in> set new. fst x = re_now re)"
proof (cases "rm_clients m client")
  case None
  with assms show ?thesis by (auto simp: cleanup_entry_def)
next
  case (Some x)
  obtain w_id i t c where x: "x = (w_id, i, t, c)" by (cases x) auto
  obtain q m1 where e: "expired_query w_id i s (m\<lparr>rm_clients := (rm_clients m)(client := None)\<rparr>) = (q, m1)" by fastforce
  have a: "rm_active m1 = rm_active m" using expired_query_active [OF e] by simp
  show ?thesis
  proof (cases q)
    case None
    with assms Some x e a show ?thesis by (auto simp: cleanup_entry_def)
  next
    case q: (Some y)
    obtain client' original hostname command decision where y: "y = (client', original, hostname, command, decision)" by (cases y) auto
    show ?thesis
    proof (cases "c < rc_retries cf \<and> s = rm_udp m1")
      case True
      then obtain r where "startResolving cf re client' command decision (c + 1) (Some i) m1 = Inr (r, m')"
        using assms Some x e q y by (auto simp: cleanup_entry_def seq_eq_Inr_iff)
      from startResolving_active [OF this] a show ?thesis by simp
    next
      case False
      then have "m' = close_timed_out s m1" using assms Some x e q y by (auto simp: cleanup_entry_def)
      with a show ?thesis by simp
    qed
  qed
qed

text \<open>What was sent by the UDP client is not a reason to close a connection.\<close>

lemma cleanup_udp_keeps:
  assumes "cleanup_entry cf re client (rm_udp m) m = Inr (ys, m')"
  shows "rm_worker_count m' = rm_worker_count m \<and> rm_closed m' = rm_closed m \<and> dom (rm_workers m) \<subseteq> dom (rm_workers m')"
proof (cases "rm_clients m client")
  case None
  with assms show ?thesis by (auto simp: cleanup_entry_def close_timed_out_def)
next
  case (Some x)
  obtain w_id i t c where x: "x = (w_id, i, t, c)" by (cases x) auto
  obtain q m1 where e: "expired_query w_id i (rm_udp m) (m\<lparr>rm_clients := (rm_clients m)(client := None)\<rparr>) = (q, m1)" by fastforce
  have a: "rm_udp m1 = rm_udp m" "rm_worker_count m1 = rm_worker_count m" "rm_closed m1 = rm_closed m" "rm_workers m1 = rm_workers m"
    using e by (auto simp: expired_query_def split: option.splits)
  have closing: "close_timed_out (rm_udp m) m1 = m1" using a by (simp add: close_timed_out_def)
  show ?thesis
  proof (cases q)
    case None
    with assms Some x e a closing show ?thesis by (auto simp: cleanup_entry_def)
  next
    case q: (Some y)
    obtain client' original hostname command decision where y: "y = (client', original, hostname, command, decision)" by (cases y) auto
    show ?thesis
    proof (cases "c < rc_retries cf")
      case True
      with assms Some x e q y a obtain r where "startResolving cf re client' command decision (c + 1) (Some i) m1 = Inr (r, m')"
        by (auto simp: cleanup_entry_def seq_eq_Inr_iff)
      then have "rm_worker_count m' = rm_worker_count m1 \<and> rm_closed m' = rm_closed m1 \<and> dom (rm_workers m1) \<subseteq> dom (rm_workers m')"
        by (auto simp: startResolving_def send_query_def seq_eq_Inr_iff Let_def split: if_splits)
      with a show ?thesis by simp
    next
      case False
      with assms Some x e q y a closing show ?thesis by (auto simp: cleanup_entry_def)
    qed
  qed
qed

lemma cleanup_loop_returns:
  assumes "\<forall>x \<in> set new. cutoff < fst x" "cutoff < re_now re"
  shows "cleanup_loop cf re cutoff (old @ new) n yielded m \<noteq> None"
  using assms(1)
proof (induction old arbitrary: new n yielded m)
  case Nil
  then show ?case by (cases new) (auto simp: cleanup_loop.simps)
next
  case (Cons x old)
  obtain t client s where x: "x = (t, client, s)" by (cases x) auto
  show ?case
  proof (cases "cleanup_entry cf re client s m")
    case (Inl e)
    with x show ?thesis by (subst cleanup_loop.simps) simp
  next
    case (Inr r)
    then obtain ys m1 where r: "cleanup_entry cf re client s m = Inr (ys, m1)" by (cases r) auto
    from cleanup_entry_active [OF r] obtain fresh where f: "rm_active m1 = rm_active m @ fresh" "\<forall>x \<in> set fresh. fst x = re_now re" by blast
    have "cleanup_loop cf re cutoff (old @ (new @ fresh)) (n + 1) (yielded @ ys) m1 \<noteq> None"
      by (rule Cons.IH) (use Cons.prems f(2) assms(2) in auto)
    with x r f(1) show ?thesis by (subst cleanup_loop.simps) simp
  qed
qed

section \<open>A response\<close>

text \<open>A response with one question and the address it asks for.\<close>

definition address_packet :: "nat \<Rightarrow> nat \<Rightarrow> string list \<Rightarrow> string \<Rightarrow> string" where
  "address_packet identifier v ls address =
     [char_of (identifier div 256), char_of (identifier mod 256), CHR 0x80, CHR 0x00, CHR 0x00, CHR 0x01, CHR 0x00, CHR 0x01,
      CHR 0x00, CHR 0x00, CHR 0x00, CHR 0x00]
     @ labels_bytes ls @ char_of (0::nat) # [char_of (v div 256), char_of (v mod 256), CHR 0x00, CHR 0x01]
     @ labels_bytes ls @ char_of (0::nat) # [char_of (v div 256), char_of (v mod 256), CHR 0x00, CHR 0x01,
        CHR 0x00, CHR 0x00, CHR 0x00, CHR 0x3C, CHR 0x00, CHR 0x04] @ address"

lemma address_header:
  assumes "identifier < 65536"
  shows "\<exists>h. DNSHeader (address_packet identifier v ls address) = Inr h \<and> h_identifier h = identifier \<and> h_qr h = 1 \<and> h_tc h = 0
    \<and> h_query_len h = 1 \<and> h_response_len h = 1 \<and> h_authority_len h = 0 \<and> h_additional_len h = 0"
proof -
  let ?p = "address_packet identifier v ls address"
  have u: "u16 [CHR 0x80, CHR 0x00] = Inr 32768" "u16 [CHR 0x00, CHR 0x01] = Inr 1" "u16 [CHR 0x00, CHR 0x00] = Inr 0"
    by (simp_all add: u8_def)
  have sl: "py_slice 0 2 ?p = [char_of (identifier div 256), char_of (identifier mod 256)]"
    "py_slice 2 4 ?p = [CHR 0x80, CHR 0x00]" "py_slice 4 6 ?p = [CHR 0x00, CHR 0x01]" "py_slice 6 8 ?p = [CHR 0x00, CHR 0x01]"
    "py_slice 8 10 ?p = [CHR 0x00, CHR 0x00]" "py_slice 10 12 ?p = [CHR 0x00, CHR 0x00]"
    by (simp_all add: py_slice_def address_packet_def)
  show ?thesis using pack16_ok(2) [OF assms] unfolding DNSHeader_def sl u
    by (simp del: char_of_mod_256 add: drop_bit_nat_def)
qed


lemma DNSQuery_labels:
  assumes "v < 65536" "ls \<noteq> []" "\<forall>l \<in> set ls. label l"
  shows "DNSQuery (labels_bytes ls @ char_of (0::nat) # [char_of (v div 256), char_of (v mod 256), CHR 0x00, CHR 0x01] @ x) packet
    = Some (Inr (Some \<lparr>wr_question = py_join ''.'' ls, wr_type = v, wr_class = 1, wr_ttl = 0, wr_rdata = [],
                       wr_len = length (labels_bytes ls) + 1 + 4\<rparr>))"
proof -
  let ?tail = "[char_of (v div 256), char_of (v mod 256), CHR 0x00, CHR 0x01] @ x"
  have "py_join ''.'' ls \<noteq> []" using assms(2,3) py_join_Nil_iff [of ls "''.''"] by (auto simp: label_def)
  then obtain a as where as: "py_join ''.'' ls = a # as" by (cases "py_join ''.'' ls") auto
  have rest: "drop (length (labels_bytes ls) + 1) (labels_bytes ls @ char_of (0::nat) # ?tail) = ?tail" by simp
  have u: "u16 [CHR 0x00, CHR 0x01] = Inr 1" by (simp add: u8_def)
  show ?thesis
    unfolding DNSQuery_def dns_to_string_info_labels [OF assms(2,3)] oseq_simps prod.case as option.case list.case rest Let_def
    using pack16_ok(2) [OF assms(1)] u by (simp add: py_slice_def del: char_of_mod_256 u16_pair)
qed

lemma DNSResource_labels:
  assumes "v < 65536" "ls \<noteq> []" "\<forall>l \<in> set ls. label l" "length address = 4"
  shows "DNSResource (labels_bytes ls @ char_of (0::nat) # [char_of (v div 256), char_of (v mod 256), CHR 0x00, CHR 0x01,
        CHR 0x00, CHR 0x00, CHR 0x00, CHR 0x3C, CHR 0x00, CHR 0x04] @ address) packet
    = Some (Inr (Some \<lparr>wr_question = py_join ''.'' ls, wr_type = v, wr_class = 1, wr_ttl = 60, wr_rdata = address,
                       wr_len = length (labels_bytes ls) + 1 + 10 + 4\<rparr>))"
proof -
  let ?tail = "[char_of (v div 256), char_of (v mod 256), CHR 0x00, CHR 0x01,
        CHR 0x00, CHR 0x00, CHR 0x00, CHR 0x3C, CHR 0x00, CHR 0x04] @ address"
  have "py_join ''.'' ls \<noteq> []" using assms(2,3) py_join_Nil_iff [of ls "''.''"] by (auto simp: label_def)
  then obtain a as where as: "py_join ''.'' ls = a # as" by (cases "py_join ''.'' ls") auto
  have rest: "drop (length (labels_bytes ls) + 1) (labels_bytes ls @ char_of (0::nat) # ?tail) = ?tail" by simp
  have u: "u16 [CHR 0x00, CHR 0x01] = Inr 1" "u16 [CHR 0x00, CHR 0x04] = Inr 4" "u32 [CHR 0x00, CHR 0x00, CHR 0x00, CHR 0x3C] = Inr 60"
    by (simp_all add: u8_def u32_def)
  obtain l ls' where l: "ls = l # ls'" using assms(2) by (cases ls) auto
  then have "0 < length l" "length l < 256" using assms(3) by (auto simp: label_def)
  then have "char_of (length l) \<noteq> CHR 0x00" by (metis char_00(1) neq0_conv u8_char_of zero_less_numeral)
  then have np: "\<not> prefix [CHR 0x00] (labels_bytes ls @ char_of (0::nat) # ?tail)" using l by auto
  show ?thesis
    unfolding DNSResource_def dns_to_string_info_labels [OF assms(2,3)] if_not_P [OF np] oseq_simps prod.case as option.case list.case rest Let_def
    using pack16_ok(2) [OF assms(1)] u assms(4) by (simp add: py_slice_def del: char_of_mod_256 u16_pair)
qed

lemma decodeResponse_address:
  assumes "byvalue t (int v) = Some (n, Ipv4)" "identifier < 65536" "v < 65536" "ls \<noteq> []" "\<forall>l \<in> set ls. label l"
    and "length address = 4" "dns_to_ipv4 address = Inr ip"
  shows "\<exists>names'. decodeResponse t names (address_packet identifier v ls address) =
    Some (Inr (DNSResponseType identifier True (Some [createQuery (Some n) (Some (py_join ''.'' ls))])
      (Some [createResource (Some n) (Some (py_join ''.'' ls)) (Some ip) 60]) (Some []) (Some []), names'))"
proof -
  obtain h where h: "DNSHeader (address_packet identifier v ls address) = Inr h" "h_identifier h = identifier" "h_qr h = 1" "h_tc h = 0"
    "h_query_len h = 1" "h_response_len h = 1" "h_authority_len h = 0" "h_additional_len h = 0"
    using address_header [OF assms(2)] by blast
  let ?r = "labels_bytes ls @ char_of (0::nat) # [char_of (v div 256), char_of (v mod 256), CHR 0x00, CHR 0x01,
        CHR 0x00, CHR 0x00, CHR 0x00, CHR 0x3C, CHR 0x00, CHR 0x04] @ address"
  have data: "drop 12 (address_packet identifier v ls address)
    = labels_bytes ls @ char_of (0::nat) # [char_of (v div 256), char_of (v mod 256), CHR 0x00, CHR 0x01] @ ?r"
    by (simp add: address_packet_def)
  have next': "drop (length (labels_bytes ls) + 1 + 4)
      (labels_bytes ls @ char_of (0::nat) # [char_of (v div 256), char_of (v mod 256), CHR 0x00, CHR 0x01] @ ?r) = ?r" by simp
  show ?thesis
    unfolding decodeResponse_def oseq_simps h(1) data
    using h next' DNSQuery_labels [OF assms(3-5), of ?r] DNSResource_labels [OF assms(3-6)] assms(1,7)
    by (simp add: decodeQueries_def decodeQuery_def decodeResources_def decodeResource_def decode_response_def createResponse_def
       del: drop_append)
qed

lemma cache_ok_same: "cache_ok m \<Longrightarrow> rm_cache m' = rm_cache m \<Longrightarrow> rm_cached m' = rm_cached m \<Longrightarrow> cache_ok m'"
  by (simp add: cache_ok_def)

lemma getResponse_cache_ok:
  assumes "resolver_getResponse po cf re s m = Some (Inr (r, m'))" "cache_ok m"
  shows "cache_ok m'"
  using assms(1)
proof (cases rule: resolver_getResponse_cases)
  case (ignored worker d w names)
  then have "rm_cache m' = rm_cache m" "rm_cached m' = rm_cached m"
    by (auto simp: take_query_def Let_def split: option.splits)
  then show ?thesis by (rule cache_ok_same [OF assms(2)])
next
  case (query worker d w names q clidata i m2 m3)
  obtain client original hostname command decision where q: "q = (client, original, hostname, command, decision)" by (cases q) auto
  have m2: "cache_ok m2" using take_query_Some [OF query(3)] assms(2) by (auto intro: cache_ok_same)
  from query(5) [unfolded q] have "cache_ok m3"
  proof (cases rule: answer_query_cases)
    case nothing
    then show ?thesis by (intro cache_ok_same [OF m2]) (simp_all add: same_cache_def)
  next
    case (address h args ip)
    then show ?thesis using cacheDestination_ok [OF m2] by blast
  qed (use m2 in simp)
  then show ?thesis by (rule cache_ok_same) (use query(6) in \<open>simp_all add: same_cache_def\<close>)
qed (use assms(2) in \<open>simp_all add: same_cache_def cache_ok_def\<close>)

section \<open>Properties\<close>

text \<open>C12: The resolver answers a client only with the response to a query that is under way for it, of the DNS client and the identifier the response comes with: the decision with the address of the response in the place of the name, when the response is for the name asked, or the page for a name with no address. The address is then in the cache under the name first asked for, unless there was one.\<close>

theorem resolver_answers:
  assumes "resolver_getResponse po cf re s m = Some (Inr (Some answer, m'))"
  shows "\<exists>worker d w names i client original hostname command decision.
    rm_workers m s = Some worker \<and> DNSClient_getResponse cf re (rm_chained m) (rm_names m) worker = Some (Inr (Some d, w, names))
    \<and> dn_identifier d = Some i \<and> rm_resolving m (dw_id worker, i) = Some (client, original, hostname, command, decision)
    \<and> dn_completed d \<and> dn_forhost d = Some hostname
    \<and> (dn_ip d = None \<and> answer = dns_page client ''503'' ''http'' hostname \<and> rm_cache m' = rm_cache m
       \<or> (\<exists>h args ip. dn_ip d = Some ip \<and> decision = Fields (h # args) \<and> answer = (client, command, ip # args)
            \<and> rm_cache m' = (if rm_cache m original = None then (rm_cache m)(original \<mapsto> ip) else rm_cache m)))"
  using assms
proof (cases rule: resolver_getResponse_cases)
  case (query worker d w names q clidata i m2 m3)
  obtain client original hostname command decision where q: "q = (client, original, hostname, command, decision)" by (cases q) auto
  have t: "rm_resolving m (dw_id worker, i) = Some q" "rm_cache m2 = rm_cache m"
    using take_query_Some [OF query(3)] query(4) by auto
  have c: "rm_cache m' = rm_cache m3" using query(6) by (simp add: same_cache_def)
  from query(5) [unfolded q] show ?thesis
  proof (cases rule: answer_query_cases)
    case nothing
    then show ?thesis by simp
  next
    case (address h args ip)
    then have "rm_cache m' = (if rm_cache m original = None then (rm_cache m)(original \<mapsto> ip) else rm_cache m)"
      using cacheDestination_lookup t(2) c by fastforce
    then show ?thesis using query(1,2,4) t(1) address(1-5) unfolding q by blast
  next
    case page
    then have "rm_cache m' = rm_cache m" using t(2) c by simp
    then show ?thesis using query(1,2,4) t(1) page(1-4) unfolding q by blast
  qed
qed simp_all

definition example_resolver :: "(unit, epoller) resolver" where
  "example_resolver = \<lparr>rm_udp = 3, rm_workers = [3 \<mapsto> DNSClient_init 0 False 3], rm_following = 1,
     rm_clients = [9 \<mapsto> (0, 7, 100, 1)],
     rm_resolving = [(0, 7) \<mapsto> (9, ''exa.net'', ''exa.net'', ''connect'', Fields [''exa.net'', ''443'', []])],
     rm_sending = Map.empty, rm_active = [(100, 9, 3)], rm_cache = Map.empty, rm_cached = [], rm_worker_count = 1,
     rm_waiting = [], rm_chained = Map.empty, rm_names = Map.empty, rm_closed = {}, rm_poller = EPoller_setupWrite 9 write_resolver (EPoller_setupRead 8 read_resolver EPoller_init)\<rparr>"

definition example_resolver_conf :: resolver_conf where
  "example_resolver_conf = \<lparr>rc_types = \<lparr>byname = [''A'' \<mapsto> (1, Ipv4)], byvalue = [1 \<mapsto> (''A'', Ipv4)]\<rparr>, rc_out4 = True, rc_out6 = False,
     rc_ttl = 900, rc_timeout = 2, rc_retries = 3, rc_fqdn = True, rc_max_workers = 10\<rparr>"

definition example_resolver_env :: "recv_result list \<Rightarrow> resolver_env" where
  "example_resolver_env replies = \<lparr>re_now = 101, re_recv = replies, re_send = SendBlocked, re_connect = Inr (Some 5), re_pick = \<lambda>_ _. hd\<rparr>"

definition example_reply :: string where
  "example_reply = address_packet 7 1 [''exa'', ''net''] [CHR 0x0A, CHR 0x00, CHR 0x00, CHR 0x01]"

lemma example_client_chained:
  "\<exists>names. DNSClient_getResponse example_resolver_conf (example_resolver_env [Received example_reply]) chained Map.empty (DNSClient_init 0 False 3)
    = Some (Inr (Some \<lparr>dn_identifier = Some 7, dn_forhost = Some ''exa.net'', dn_ip = Some ''10.0.0.1'', dn_completed = True,
        dn_newidentifier = None, dn_newhost = None, dn_newcomplete = True\<rparr>, DNSClient_init 0 False 3, names))"
proof -
  have ip: "dns_to_ipv4 [CHR 0x0A, CHR 0x00, CHR 0x00, CHR 0x01] = Inr ''10.0.0.1''"
    by (simp add: dns_to_ipv4_def u8_def show_nat.simps digit_char_def) code_simp
  let ?r = "DNSResponseType 7 True (Some [createQuery (Some ''A'') (Some (py_join ''.'' [''exa'', ''net'']))])
      (Some [createResource (Some ''A'') (Some (py_join ''.'' [''exa'', ''net''])) (Some ''10.0.0.1'') 60]) (Some []) (Some [])"
  obtain names where d: "decodeResponse (rc_types example_resolver_conf) Map.empty example_reply = Some (Inr (?r, names))"
    using decodeResponse_address [of "rc_types example_resolver_conf" 1 "''A''" 7 "[''exa'', ''net'']"
        "[CHR 0x0A, CHR 0x00, CHR 0x00, CHR 0x01]" "''10.0.0.1''" Map.empty] ip
    by (auto simp: example_reply_def example_resolver_conf_def label_def)
  have "example_reply \<noteq> []" by (simp add: example_reply_def address_packet_def)
  then have n: "normalizeResponse (rc_types example_resolver_conf) Map.empty example_reply False = Some (Inr (True, Some ?r, names))"
    using d by (simp add: normalizeResponse_def remove_length_def)
  have v: "getValue (\<lambda>_. hd) 0 None None ?r = (Some ''A'', Some ''10.0.0.1'')"
    by (simp add: getValue_def DNSResponseType_def createQuery_def createResource_def dns_extract_def getResponse_def
        resources_def info_add_def)
  show ?thesis using n v
    by (simp add: DNSClient_getResponse_def DNSClient_readResponse_def DNSClient_init_def example_resolver_env_def next_query_def
        result_of_def DNSResponseType_def createQuery_def)
qed

lemma example_tcp:
  "\<exists>m'. newTCPResolver (ep_ops Some) example_resolver_conf (example_resolver_env []) 9 ''connect'' (Fields [''exa.net'', ''443'', []]) 1 example_resolver = Inr (Some 1, m')
    \<and> rm_workers m' 5 \<noteq> None"
proof -
  have e: "encodeRequest (rc_types example_resolver_conf) (addQuestion ''A'' ''exa.net'' (DNSRequestType 1 []))
      = Inr (request_packet 1 1 [''exa'', ''net''])"
    using encodeRequest_packet [of "rc_types example_resolver_conf" "''A''" 1 Ipv4 1 "[''exa'', ''net'']"]
    by (simp add: example_resolver_conf_def label_def)
  obtain c cs where "add_length True (request_packet 1 1 [''exa'', ''net'']) = Inr (c # cs)"
    using pack16_ok(1) [of "length (request_packet 1 1 [''exa'', ''net''])"] by (simp add: add_length_def request_packet_def)
  with e have r: "createRequestString (rc_types example_resolver_conf) 1 ''A'' ''exa.net'' True = Inr (Some (c # cs))"
    by (simp add: createRequestString_def serializeRequest_def)
  show ?thesis using r
    by (simp add: newTCPResolver_def extractHostname_def resolvable_def decision_host_def TCPClient_resolveHost_def DNSClient_init_def
       default_qtype_def example_resolver_conf_def example_resolver_env_def tcp_write_next_def example_resolver_def
       rm_on_poller_def ep_ops_def EPoller_addWriteSocket_def EPoller_add_def ep_entry_def kernel_register_def EPoller_setupWrite_def
       EPoller_setupRead_def EPoller_setup_def EPoller_init_def read_resolver_def write_resolver_def Let_def)
qed

theorem resolver_answers_witness:
  "\<exists>m'. resolver_getResponse (ep_ops Some) example_resolver_conf (example_resolver_env [Received example_reply]) 3 example_resolver
      = Some (Inr (Some (9, ''connect'', [''10.0.0.1'', ''443'', []]), m'))
    \<and> rm_cache m' ''exa.net'' = Some ''10.0.0.1''"
proof -
  obtain names where g: "DNSClient_getResponse example_resolver_conf (example_resolver_env [Received example_reply]) Map.empty Map.empty (DNSClient_init 0 False 3)
    = Some (Inr (Some \<lparr>dn_identifier = Some 7, dn_forhost = Some ''exa.net'', dn_ip = Some ''10.0.0.1'', dn_completed = True,
        dn_newidentifier = None, dn_newhost = None, dn_newcomplete = True\<rparr>, DNSClient_init 0 False 3, names))"
    using example_client_chained by blast
  have e: "cache_expiry 101 900 = 1000"
  proof -
    have "\<lfloor>(1001 / 5) :: rat\<rfloor> = 200" by (simp add: floor_eq_iff)
    then show ?thesis by (simp add: cache_expiry_def Let_def)
  qed
  obtain m' where r: "resolver_getResponse (ep_ops Some) example_resolver_conf (example_resolver_env [Received example_reply]) 3 example_resolver
      = Some (Inr (Some (9, ''connect'', [''10.0.0.1'', ''443'', []]), m'))"
    using g e by (simp add: resolver_getResponse_def example_resolver_def take_query_def answer_query_def resolveDecision_def
        resolvable_def cacheDestination_def drop_worker_def DNSClient_init_def example_resolver_conf_def example_resolver_env_def)
  have "rm_cache m' ''exa.net'' = Some ''10.0.0.1''"
    using resolver_answers [OF r] by (auto simp: example_resolver_def dns_page_def split: if_splits)
  with r show ?thesis by blast
qed

text \<open>The count that is kept for the identifier of a query never passes ten, whatever the responses are. It is no bound on the length of a chain: the counts are shared by the clients of the name servers, and a query that is tried again over TCP begins anew.\<close>

theorem chain_bounded:
  assumes "resolver_getResponse po cf re s m = Some (Inr (r, m'))" "\<And>i n. rm_chained m i = Some n \<Longrightarrow> n \<le> 10"
    and "rm_chained m' i = Some n"
  shows "n \<le> 10"
proof -
  have taken: "rm_chained m2 i = Some n \<Longrightarrow> n \<le> 10"
    if t: "take_query s w_id d m1 = (q, m2)" and same: "rm_chained m1 = rm_chained m"
      and l: "dn_newidentifier d \<noteq> None \<Longrightarrow> \<exists>i. dn_identifier d = Some i \<and> dict_get (rm_chained m) i 0 < 10" for w_id d q m1 m2
  proof -
    have "rm_chained m2 = (let chained = (case dn_identifier d of None \<Rightarrow> rm_chained m | Some i \<Rightarrow> (rm_chained m)(i := None)) in
        case dn_newidentifier d of None \<Rightarrow> chained
        | Some k \<Rightarrow> chained(k \<mapsto> (case dn_identifier d of None \<Rightarrow> 0 | Some i \<Rightarrow> dict_get (rm_chained m) i 0) + 1))"
      using t same by (auto simp: take_query_def Let_def split: option.splits)
    then show "rm_chained m2 i = Some n \<Longrightarrow> n \<le> 10"
      using assms(2) [of i n] l by (auto simp: Let_def split: option.splits if_splits)
  qed
  have ans: "rm_chained m3 = rm_chained m2" if "answer_query po cf re s w_id k d q clidata m2 = Inr (r, m3)" for w_id k d q clidata m2 m3
  proof -
    obtain client original hostname command decision where q: "q = (client, original, hostname, command, decision)" by (cases q) auto
    from that [unfolded q] show ?thesis
      by (cases rule: answer_query_cases) (auto simp: same_cache_def cacheDestination_def Let_def split: if_splits)
  qed
  from assms(1) show ?thesis
  proof (cases rule: resolver_getResponse_cases)
    case unknown
    with assms(2,3) show ?thesis by blast
  next
    case (failed worker w names)
    then show ?thesis using assms(2) [of i n] assms(3) by (simp add: same_cache_def)
  next
    case (ignored worker d w names)
    show ?thesis
      by (rule taken [OF ignored(3) _ getResponse_limit [OF ignored(2)] assms(3)]) auto
  next
    case (query worker d w names q clidata k m2 m3)
    have "rm_chained m' = rm_chained m2" using query(6) ans [OF query(5)] by (simp add: same_cache_def)
    with assms(3) have "rm_chained m2 i = Some n" by simp
    then show ?thesis by (rule taken [OF query(3) _ getResponse_limit [OF query(2)], rotated 2]) auto
  qed
qed


theorem chain_bounded_witness:
  "\<exists>r m'. resolver_getResponse (ep_ops Some) example_resolver_conf (example_resolver_env [Received example_reply]) 3
        (example_resolver\<lparr>rm_chained := [7 \<mapsto> 10, 8 \<mapsto> 2]\<rparr>) = Some (Inr (r, m'))
      \<and> (\<forall>i n. rm_chained m' i = Some n \<longrightarrow> n \<le> 10)"
proof -
  let ?m = "example_resolver\<lparr>rm_chained := [7 \<mapsto> 10, 8 \<mapsto> 2]\<rparr>"
  obtain names where g: "DNSClient_getResponse example_resolver_conf (example_resolver_env [Received example_reply]) [7 \<mapsto> 10, 8 \<mapsto> 2] Map.empty (DNSClient_init 0 False 3)
    = Some (Inr (Some \<lparr>dn_identifier = Some 7, dn_forhost = Some ''exa.net'', dn_ip = Some ''10.0.0.1'', dn_completed = True,
        dn_newidentifier = None, dn_newhost = None, dn_newcomplete = True\<rparr>, DNSClient_init 0 False 3, names))"
    using example_client_chained by blast
  have e: "cache_expiry 101 900 = 1000"
  proof -
    have "\<lfloor>(1001 / 5) :: rat\<rfloor> = 200" by (simp add: floor_eq_iff)
    then show ?thesis by (simp add: cache_expiry_def Let_def)
  qed
  obtain r m' where r: "resolver_getResponse (ep_ops Some) example_resolver_conf (example_resolver_env [Received example_reply]) 3 ?m
      = Some (Inr (r, m'))"
    using g e by (simp add: resolver_getResponse_def example_resolver_def take_query_def answer_query_def resolveDecision_def
        resolvable_def cacheDestination_def drop_worker_def DNSClient_init_def example_resolver_conf_def example_resolver_env_def)
  have "n \<le> 10" if "rm_chained ?m i = Some n" for i n using that by (auto split: if_splits)
  with r chain_bounded [OF r] show ?thesis by blast
qed

text \<open>C13: What the cache holds stays consistent: the names of the cache are those of the buckets that forget them, each in one bucket, and the buckets are in order of time. Reading a response, whatever it is, and expiring a bucket keep this, and expiring makes room: a bucket whose time has come goes with all its names.\<close>

theorem resolver_cache_consistent:
  assumes "cache_ok m"
  shows "(\<forall>r m'. resolver_getResponse po cf re s m = Some (Inr (r, m')) \<longrightarrow> cache_ok m') \<and> cache_ok (expireCache now m)
    \<and> (\<forall>t hosts rest. rm_cached m = (t, hosts) # rest \<longrightarrow> t \<le> now
          \<longrightarrow> dom (rm_cache (expireCache now m)) = dom (rm_cache m) - set hosts)"
  using assms expireCache_ok [OF assms] getResponse_cache_ok by (auto simp: expireCache_def restrict_map_def split: if_splits)

lemma example_cache_ok: "cache_ok (example_resolver\<lparr>rm_cache := [''exa.net'' \<mapsto> ''10.0.0.1''], rm_cached := [(5, [''exa.net''])]\<rparr>)"
  by (simp add: cache_ok_def)

theorem resolver_cache_consistent_witness:
  "rm_cache (expireCache 7 (example_resolver\<lparr>rm_cache := [''exa.net'' \<mapsto> ''10.0.0.1''], rm_cached := [(5, [''exa.net''])]\<rparr>)) = Map.empty"
  using resolver_cache_consistent [OF example_cache_ok, of "ep_ops Some" example_resolver_conf "example_resolver_env []" 3 7] by simp

text \<open>The clean-up of the queries that have timed out ends, although the queries that it sends again are put at the end of the list it goes over.\<close>

theorem resolver_cleanup_ends:
  assumes "0 < rc_timeout cf"
  shows "resolver_cleanup cf re m \<noteq> None"
proof -
  have "cleanup_loop cf re (re_now re - rc_timeout cf) (rm_active m @ []) 0 [] m \<noteq> None"
    by (rule cleanup_loop_returns) (use assms in auto)
  then show ?thesis by (auto simp: resolver_cleanup_def oseq_def split: sum.splits)
qed

theorem resolver_cleanup_ends_witness:
  "resolver_cleanup example_resolver_conf (example_resolver_env []) example_resolver \<noteq> None"
  by (rule resolver_cleanup_ends) (simp add: example_resolver_conf_def)

text \<open>A query over TCP that times out is not cleaned up: what is noted of it is the socket of the UDP client, so its connection is neither closed nor counted out, and its query is sent again over UDP under the identifier of the TCP client while tries are left.\<close>

theorem tcp_timeout_leaks:
  assumes "newTCPResolver po cf re client command decision c m = Inr (Some n, m')"
  shows "last (rm_active m') = (re_now re, client, rm_udp m)
    \<and> (\<forall>cf re' ys m''. cleanup_entry cf re' client (rm_udp m) m' = Inr (ys, m'')
        \<longrightarrow> rm_worker_count m'' = rm_worker_count m' \<and> rm_closed m'' = rm_closed m' \<and> dom (rm_workers m') \<subseteq> dom (rm_workers m''))"
proof -
  have "last (rm_active m') = (re_now re, client, rm_udp m)"
    using assms by (auto simp: newTCPResolver_def seq_eq_Inr_iff Let_def split: if_splits dest!: rm_on_poller_Inr)
  moreover have "rm_udp m' = rm_udp m" using newTCPResolver_same [OF assms] by (simp add: same_cache_def)
  ultimately show ?thesis using cleanup_udp_keeps [of _ _ client m'] by simp
qed

theorem tcp_timeout_leaks_witness:
  "\<exists>m'. newTCPResolver (ep_ops Some) example_resolver_conf (example_resolver_env []) 9 ''connect'' (Fields [''exa.net'', ''443'', []]) 1 example_resolver = Inr (Some 1, m')
    \<and> last (rm_active m') = (101, 9, 3) \<and> rm_workers m' 5 \<noteq> None"
proof -
  obtain m' where m': "newTCPResolver (ep_ops Some) example_resolver_conf (example_resolver_env []) 9 ''connect'' (Fields [''exa.net'', ''443'', []]) 1 example_resolver = Inr (Some 1, m')"
      "rm_workers m' 5 \<noteq> None"
    using example_tcp by blast
  with tcp_timeout_leaks [OF m'(1)] show ?thesis by (simp add: example_resolver_def example_resolver_env_def)
qed

end
