(* ===== verification/MessageBox.thy ===== *)
theory MessageBox
  imports PyStr
begin

text \<open>
  \<open>lib/exaproxy/util/messagebox.py\<close> and \<open>util/control.py\<close>: the messages between the proxy and the process
  of the redirectors, as bytes on a pipe. Pickling is a parameter. The pipe is what is still to be read
  before the other end closes it; a read gives fewer bytes than asked for only at that end.
\<close>

section \<open>Framing\<close>

definition pipe_read :: "nat \<Rightarrow> string \<Rightarrow> string \<times> string" where
  "pipe_read n pipe = (take n pipe, drop n pipe)"

text \<open>The two loops of \<open>read\<close>: neither looks for the end of the pipe, and a loop that reads nothing goes on.\<close>

partial_function (option) read_size :: "string \<Rightarrow> string \<Rightarrow> (string \<times> string) option" where
  "read_size message pipe =
     (if py_isdigit message then
        (case pipe_read 1 pipe of (c, rest) \<Rightarrow> read_size (message @ c) rest)
      else Some (message, pipe))"

partial_function (option) read_rest :: "int \<Rightarrow> string \<Rightarrow> string \<Rightarrow> (string \<times> string) option" where
  "read_rest remaining pickled pipe =
     (if remaining > 0 then
        (case pipe_read (nat remaining) pipe of (data, rest) \<Rightarrow>
           read_rest (remaining - int (length data)) (pickled @ data) rest)
      else Some (pickled, pipe))"

definition read_finish :: "string \<Rightarrow> string option" where
  "read_finish pickled = (if suffix '','' pickled then Some (butlast pickled) else None)"

text \<open>\<open>read\<close>: the bytes of a message (\<open>None\<close> for what is none) and what is left on the pipe; the outer \<open>None\<close> is no return.\<close>

definition MessageReader_read :: "string \<Rightarrow> (string option \<times> string) option" where
  "MessageReader_read pipe =
     (case pipe_read 3 pipe of (start, pipe1) \<Rightarrow>
        (case read_size start pipe1 of
           None \<Rightarrow> None
         | Some (message, pipe2) \<Rightarrow>
             (case py_split1 '':'' message of
                None \<Rightarrow> Some (None, pipe2)
              | Some (digits, pickled) \<Rightarrow>
                  if py_isdigit digits then
                    (case read_rest (int (nat_of_dec digits) + 1 - int (length pickled)) pickled pipe2 of
                       None \<Rightarrow> None
                     | Some (all, pipe3) \<Rightarrow> Some (read_finish all, pipe3))
                  else Some (None, pipe2))))"

definition put_bytes :: "string \<Rightarrow> string" where
  "put_bytes pickled = show_nat (length pickled) @ '':'' @ pickled @ '',''"

text \<open>\<open>get\<close>: \<open>loads\<close> is the reader of pickled bytes, \<open>None\<close> where it raises one of the four exceptions caught.\<close>

definition MessageBox_get :: "(string \<Rightarrow> 'm option) \<Rightarrow> string \<Rightarrow> ('m option \<times> string) option" where
  "MessageBox_get loads pipe =
     map_option (\<lambda>(pickled, rest). (Option.bind pickled loads, rest)) (MessageReader_read pipe)"

definition MessageBox_put :: "('m \<Rightarrow> string) \<Rightarrow> 'm \<Rightarrow> string \<Rightarrow> string" where
  "MessageBox_put dumps message pipe = pipe @ put_bytes (dumps message)"

section \<open>Control messages\<close>

text \<open>The identifiers of \<open>ControlBox\<close>: \<open>n\<close> is the next one, counting from 0 to 65534 and again.\<close>

definition cycle_identifier :: "nat \<Rightarrow> nat" where
  "cycle_identifier n = (if n + 1 = 65535 then 0 else n + 1)"

type_synonym 'd control = "nat \<times> string \<times> 'd list"

definition ControlBox_send :: "('d control \<Rightarrow> string) \<Rightarrow> string \<Rightarrow> 'd list \<Rightarrow> nat \<times> string \<Rightarrow> nat \<times> (nat \<times> string)" where
  "ControlBox_send dumps command args s =
     (case s of (n, pipe) \<Rightarrow> (n, (cycle_identifier n, MessageBox_put dumps (n, command, args) pipe)))"

text \<open>\<open>receive\<close>: the command and the data, which are dropped for an answer to another request.\<close>

definition ControlBox_receive :: "(string \<Rightarrow> 'd control option) \<Rightarrow> nat option \<Rightarrow> string \<Rightarrow>
    ((string option \<times> 'd option list option) \<times> string) option" where
  "ControlBox_receive loads identifier pipe =
     map_option (\<lambda>(message, rest).
       (let (ack, command, data) = (case message of
              Some (ack, command, data) \<Rightarrow> (Some ack, Some command, map Some data)
            | None \<Rightarrow> (None, None, [None]))
        in ((command, if identifier \<noteq> None \<and> ack \<noteq> identifier then None else Some data), rest)))
       (MessageBox_get loads pipe)"

definition ControlBox_wait_stop :: "(string \<Rightarrow> 'd control option) \<Rightarrow> string \<Rightarrow> (bool \<times> string) res option" where
  "ControlBox_wait_stop loads pipe =
     map_option (\<lambda>(message, rest). case message of None \<Rightarrow> Inr (True, rest) | Some _ \<Rightarrow> Inl RuntimeError)
       (MessageBox_get loads pipe)"

definition SlaveBox_receive :: "(string \<Rightarrow> 'd control option) \<Rightarrow> string \<Rightarrow> ('d control option \<times> string) option" where
  "SlaveBox_receive = MessageBox_get"

definition SlaveBox_respond :: "('d control \<Rightarrow> string) \<Rightarrow> nat \<Rightarrow> string \<Rightarrow> 'd list \<Rightarrow> string \<Rightarrow> string" where
  "SlaveBox_respond dumps identifier command args = MessageBox_put dumps (identifier, command, args)"

section \<open>Properties\<close>

lemma digits_not_colon: "list_all is_digit ds \<Longrightarrow> CHR '':'' \<notin> set ds"
  by (auto simp: list_all_iff is_digit_def)

lemma py_isdigit_iff: "py_isdigit s \<longleftrightarrow> s \<noteq> [] \<and> list_all is_digit s"
  by (auto simp: py_isdigit_def list_all_iff)

lemma read_size_stop: "\<not> py_isdigit m \<Longrightarrow> read_size m pipe = Some (m, pipe)"
  by (subst read_size.simps) simp

lemma read_size_digits:
  assumes "list_all is_digit m" "m \<noteq> []" "list_all is_digit ds"
  shows "read_size m (ds @ CHR '':'' # rest) = Some (m @ ds @ '':'', rest)"
  using assms
proof (induction ds arbitrary: m)
  case Nil
  have "\<not> py_isdigit (m @ '':'')" by (simp add: py_isdigit_iff is_digit_def)
  with Nil show ?case by (subst read_size.simps) (simp add: py_isdigit_iff pipe_read_def read_size_stop)
next
  case (Cons d ds)
  with Cons.IH [of "m @ [d]"] show ?case
    by (subst read_size.simps) (simp add: py_isdigit_iff pipe_read_def)
qed

text \<open>The beginning of a message whose length is written with the digits \<open>ds\<close>.\<close>

lemma read_size_start:
  assumes "list_all is_digit ds" "ds \<noteq> []"
  shows "read_size (take 3 (ds @ CHR '':'' # x)) (drop 3 (ds @ CHR '':'' # x))
    = Some (ds @ CHR '':'' # take (2 - length ds) x, drop (2 - length ds) x)"
proof (cases "length ds < 3")
  case True
  then have t: "take 3 (ds @ CHR '':'' # x) = ds @ CHR '':'' # take (2 - length ds) x"
    "drop 3 (ds @ CHR '':'' # x) = drop (2 - length ds) x"
    by (auto simp: take_Cons' drop_Cons' numeral_eq_Suc)
  have "\<not> py_isdigit (ds @ CHR '':'' # take (2 - length ds) x)" by (simp add: py_isdigit_iff is_digit_def)
  then show ?thesis unfolding t by (rule read_size_stop)
next
  case False
  then have "read_size (take 3 ds) (drop 3 ds @ CHR '':'' # x) = Some (take 3 ds @ drop 3 ds @ '':'', x)"
    using assms by (intro read_size_digits) (auto simp: list_all_iff dest: in_set_takeD in_set_dropD)
  moreover have "take 3 ds @ drop 3 ds @ '':'' = ds @ '':''" by (metis append_assoc append_take_drop_id)
  ultimately show ?thesis using False by simp
qed

lemma read_rest_exact: "r \<le> int (length pipe) \<Longrightarrow> 0 \<le> r \<Longrightarrow> read_rest r pickled pipe = Some (pickled @ take (nat r) pipe, drop (nat r) pipe)"
  by (subst read_rest.simps) (auto simp: pipe_read_def read_rest.simps [of 0])

lemma message_step:
  assumes "list_all is_digit ds" "ds \<noteq> []"
  shows "MessageReader_read (ds @ CHR '':'' # x) =
     (case read_rest (int (nat_of_dec ds) + 1 - int (length (take (2 - length ds) x))) (take (2 - length ds) x) (drop (2 - length ds) x) of
        None \<Rightarrow> None | Some (all, rest) \<Rightarrow> Some (read_finish all, rest))"
  using read_size_start [OF assms, of x] assms
  by (simp add: MessageReader_read_def pipe_read_def digits_not_colon py_isdigit_iff del: take_append drop_append)

lemma put_bytes_step:
  "MessageReader_read (show_nat (length p) @ CHR '':'' # x) =
     (case read_rest (int (length p) + 1 - int (length (take (2 - length (show_nat (length p))) x)))
        (take (2 - length (show_nat (length p))) x) (drop (2 - length (show_nat (length p))) x) of
        None \<Rightarrow> None | Some (all, rest) \<Rightarrow> Some (read_finish all, rest))"
  using message_step [of "show_nat (length p)" x] show_nat_digits [of "length p"] by simp

lemma show_nat_length: "1 \<le> length (show_nat n)"
  by (metis One_nat_def Suc_leI length_greater_0_conv show_nat_digits)

lemma message_read_back: "MessageReader_read (put_bytes p @ rest) = Some (Some p, rest)"
proof -
  let ?x = "p @ CHR '','' # rest" and ?k = "2 - length (show_nat (length p))"
  have k: "?k \<le> 1" using show_nat_length [of "length p"] by simp
  then have l: "length (take ?k ?x) = ?k" by simp
  let ?r = "int (length p) + 1 - int (length (take ?k ?x))"
  have "read_rest ?r (take ?k ?x) (drop ?k ?x) = Some (take ?k ?x @ take (nat ?r) (drop ?k ?x), drop (nat ?r) (drop ?k ?x))"
    by (rule read_rest_exact) (use k l in auto)
  moreover have "?k + nat ?r = Suc (length p)" using k unfolding l by linarith
  then have "take ?k ?x @ take (nat ?r) (drop ?k ?x) = take (Suc (length p)) ?x"
    "drop (nat ?r) (drop ?k ?x) = drop (Suc (length p)) ?x"
    by (simp_all only: take_add [symmetric] drop_drop add.commute)
  moreover have "take (Suc (length p)) ?x = p @ '',''" "drop (Suc (length p)) ?x = rest" by simp_all
  ultimately show ?thesis
    using put_bytes_step [of p ?x] by (simp add: put_bytes_def read_finish_def del: take_append drop_append)
qed

text \<open>C31: A message that has been put is what is read next, whatever its bytes and whatever follows it.\<close>

theorem message_roundtrip: "MessageReader_read (put_bytes p @ rest) = Some (Some p, rest)"
  by (rule message_read_back)

lemma read_size_forever:
  assumes "list_all is_digit m" "m \<noteq> []" "list_all is_digit pipe"
  shows "read_size m pipe = None"
proof (rule ccontr)
  assume "read_size m pipe \<noteq> None"
  then obtain res where r: "read_size m pipe = Some res" by blast
  have "\<not> (list_all is_digit m \<and> m \<noteq> [] \<and> list_all is_digit pipe)"
  proof (rule read_size.raw_induct [OF _ r])
    fix f m pipe res
    assume IH: "\<And>m pipe res. f m pipe = Some res \<Longrightarrow> \<not> (list_all is_digit m \<and> m \<noteq> [] \<and> list_all is_digit pipe)"
      and body: "(if py_isdigit m then (case pipe_read 1 pipe of (c, rest) \<Rightarrow> f (m @ c) rest) else Some (m, pipe)) = Some res"
    show "\<not> (list_all is_digit m \<and> m \<noteq> [] \<and> list_all is_digit pipe)"
    proof
      assume d: "list_all is_digit m \<and> m \<noteq> [] \<and> list_all is_digit pipe"
      then have "f (m @ take 1 pipe) (drop 1 pipe) = Some res" using body by (simp add: py_isdigit_iff pipe_read_def)
      from IH [OF this] d show False by (auto simp: list_all_iff dest: in_set_takeD in_set_dropD)
    qed
  qed
  with assms show False by simp
qed

lemma read_rest_forever:
  assumes "int (length pipe) < r"
  shows "read_rest r pickled pipe = None"
proof (rule ccontr)
  assume "read_rest r pickled pipe \<noteq> None"
  then obtain res where s: "read_rest r pickled pipe = Some res" by blast
  have "\<not> int (length pipe) < r"
  proof (rule read_rest.raw_induct [OF _ s])
    fix f r pickled pipe res
    assume IH: "\<And>r pickled pipe res. f r pickled pipe = Some res \<Longrightarrow> \<not> int (length pipe) < r"
      and body: "(if r > 0 then (case pipe_read (nat r) pipe of (data, rest) \<Rightarrow> f (r - int (length data)) (pickled @ data) rest)
        else Some (pickled, pipe)) = Some res"
    show "\<not> int (length pipe) < r"
    proof
      assume l: "int (length pipe) < r"
      then have "take (nat r) pipe = pipe" "drop (nat r) pipe = []" by simp_all
      with l body have "f (r - int (length pipe)) (pickled @ pipe) [] = Some res" by (simp add: pipe_read_def)
      from IH [OF this] l show False by simp
    qed
  qed
  with assms show False by simp
qed

text \<open>When the other end closes the pipe between two messages, the reader says that there is none; when it closes it within a message, the reader never returns: the process that reads hangs.\<close>

theorem message_cut:
  assumes "j < length (put_bytes p)"
  shows "MessageReader_read (take j (put_bytes p)) = (if j = 0 then Some (None, []) else None)"
proof -
  let ?ds = "show_nat (length p)"
  have ds: "list_all is_digit ?ds" "?ds \<noteq> []" using show_nat_digits [of "length p"] by auto
  consider (nothing) "j = 0" | (digits) "0 < j" "j \<le> length ?ds" | (body) "length ?ds < j" by linarith
  then show ?thesis
  proof cases
    case nothing
    then show ?thesis
      by (simp add: MessageReader_read_def pipe_read_def read_size_stop py_isdigit_iff py_split1_char_None)
  next
    case digits
    then have t: "take j (put_bytes p) = take j ?ds" by (simp add: put_bytes_def)
    have "read_size (take 3 (take j ?ds)) (drop 3 (take j ?ds)) = None"
      using ds digits by (intro read_size_forever) (auto simp: list_all_iff dest: in_set_takeD in_set_dropD)
    then show ?thesis using digits by (simp add: t MessageReader_read_def pipe_read_def)
  next
    case body
    let ?y = "take (j - Suc (length ?ds)) (p @ '','')" and ?k = "2 - length ?ds"
    have t: "take j (put_bytes p) = ?ds @ CHR '':'' # ?y"
      using body by (simp add: put_bytes_def take_Cons')
    have y: "length ?y < length p + 1" using assms body by (simp add: put_bytes_def)
    have "read_rest (int (length p) + 1 - int (length (take ?k ?y))) (take ?k ?y) (drop ?k ?y) = None"
      by (rule read_rest_forever) (use y in auto)
    then show ?thesis using body unfolding t put_bytes_step by simp
  qed
qed

theorem message_cut_witness: "MessageReader_read (take 4 (put_bytes ''abc'')) = None \<and> put_bytes ''abc'' = ''3:abc,''"
  using message_cut [of 4 "''abc''"] by (simp add: put_bytes_def show_nat.simps digit_char_def) code_simp

end
