(* ===== verification/Reactor.thy ===== *)
theory Reactor
  imports Server ContentManager Resolver
begin

text \<open>
  \<open>lib/exaproxy/reactor/reactor.py\<close>: the handlers of the events, which pass what they read from one
  component to the others, and the loop over what the poller reports.
\<close>

section \<open>State\<close>

text \<open>
  The five servers are found by the source their connections are given (\<open>self.proxy\<close> by
  \<open>'proxy'\<close>, and so on). The components share one poller: the operation of a component is given it, and
  gives it back. \<open>rx_sent\<close> is what has been put in the queue of the dispatcher of the redirector
  (\<open>redirector/dispatch.py\<close>).
\<close>

type_synonym decider_request = "string \<times> string \<times> int \<times> string \<times> string \<times> string option \<times> string"

record ('c, 'm, 'p) reactor =
  rx_server :: "string \<Rightarrow> 'p server"
  rx_client :: "('c, 'p) clients"
  rx_content :: "'p contents"
  rx_resolver :: "('m, 'p) resolver"
  rx_sent :: "decider_request list"
  rx_nb_events :: nat
  rx_nb_loops :: nat
  rx_poller :: 'p

definition sources :: "string set" where
  "sources = {''proxy'', ''icap'', ''passthrough'', ''tls'', ''web''}"

text \<open>
  What the classes of connections and the configuration give, and what surrounds the handling of one
  socket: the time, what \<open>accept\<close> answers, what the redirector sends, and what the sockets answer to the
  first, the second \<dots> operation of a component. \<open>xc_new\<close> is the constructor of the class of a source.
\<close>

record ('e, 'c, 'p) reactor_conf =
  xc_poller :: "'p poller_ops"
  xc_client :: "('e, 'c, http_data) client_ops"
  xc_new :: "string \<Rightarrow> string \<Rightarrow> string \<Rightarrow> 'c"
  xc_content :: content_conf
  xc_resolver :: resolver_conf

record ('e, 'm) reactor_env =
  ev_now :: int
  ev_accept :: "(sock \<times> string) option"
  ev_address :: "string \<times> int"
  ev_decision :: "string option \<times> string option \<times> 'm decision"
  ev_client :: "nat \<Rightarrow> 'e"
  ev_content :: "nat \<Rightarrow> content_env"
  ev_resolver :: resolver_env

text \<open>An operation of one component.\<close>

definition on_server :: "string \<Rightarrow> ('p server \<Rightarrow> 'p server res) \<Rightarrow> ('c, 'm, 'p) reactor \<Rightarrow> ('c, 'm, 'p) reactor res" where
  "on_server source f r =
     seq (f ((rx_server r source)\<lparr>sv_poller := rx_poller r\<rparr>)) (\<lambda>sv.
     Inr (r\<lparr>rx_server := (rx_server r)(source := sv), rx_poller := sv_poller sv\<rparr>))"

definition on_client :: "(('c, 'p) clients \<Rightarrow> ('x \<times> ('c, 'p) clients) res) \<Rightarrow> ('c, 'm, 'p) reactor \<Rightarrow>
    ('x \<times> ('c, 'm, 'p) reactor) res" where
  "on_client f r =
     seq (f ((rx_client r)\<lparr>cm_poller := rx_poller r\<rparr>)) (\<lambda>(x, c).
     Inr (x, r\<lparr>rx_client := c, rx_poller := cm_poller c\<rparr>))"

definition on_content :: "('p contents \<Rightarrow> ('x \<times> 'p contents) res) \<Rightarrow> ('c, 'm, 'p) reactor \<Rightarrow>
    ('x \<times> ('c, 'm, 'p) reactor) res" where
  "on_content f r =
     seq (f ((rx_content r)\<lparr>ct_poller := rx_poller r\<rparr>)) (\<lambda>(x, c).
     Inr (x, r\<lparr>rx_content := c, rx_poller := ct_poller c\<rparr>))"

definition on_resolver :: "(('m, 'p) resolver \<Rightarrow> ('x \<times> ('m, 'p) resolver) res) \<Rightarrow> ('c, 'm, 'p) reactor \<Rightarrow>
    ('x \<times> ('c, 'm, 'p) reactor) res" where
  "on_resolver f r =
     seq (f ((rx_resolver r)\<lparr>rm_poller := rx_poller r\<rparr>)) (\<lambda>(x, c).
     Inr (x, r\<lparr>rx_resolver := c, rx_poller := rm_poller c\<rparr>))"

text \<open>An operation that returns nothing.\<close>

definition silent :: "('s \<Rightarrow> 's res) \<Rightarrow> 's \<Rightarrow> (unit \<times> 's) res" where
  "silent f s = seq (f s) (\<lambda>s'. Inr ((), s'))"

definition sendRequest :: "decider_request \<Rightarrow> ('c, 'm, 'p) reactor \<Rightarrow> ('c, 'm, 'p) reactor" where
  "sendRequest q r = r\<lparr>rx_sent := rx_sent r @ [q]\<rparr>"

section \<open>New connections\<close>

text \<open>
  The body of the loop of the five handlers of listening sockets: what \<open>accept\<close> yields is handed over
  before the server counts it.
\<close>

definition connect_client :: "('e, 'c, 'p) reactor_conf \<Rightarrow> string \<Rightarrow> ('e, 'm) reactor_env \<Rightarrow> sock \<Rightarrow> string \<Rightarrow>
    ('c, 'p) clients \<Rightarrow> ('c, 'p) clients res" where
  "connect_client xc source re s peer =
     (if source = ''icap'' then cm_icapConnection (xc_poller xc) (xc_new xc source peer) (ev_now re) s source
      else if source = ''tls'' then cm_tlsConnection (xc_poller xc) (xc_new xc source peer) (ev_now re) s source
      else cm_httpConnection (xc_poller xc) (xc_new xc source peer) (ev_now re) s source)"

definition accept_one :: "('e, 'c, 'p) reactor_conf \<Rightarrow> string \<Rightarrow> ('e, 'm) reactor_env \<Rightarrow> ('c, 'm, 'p) reactor \<Rightarrow>
    ('c, 'm, 'p) reactor res" where
  "accept_one xc source re r =
     (case ev_accept re of
        None \<Rightarrow> on_server source (Server_accept (po_removeRead (xc_poller xc)) False) r
      | Some (s, peer) \<Rightarrow>
          seq (if source = ''passthrough'' then
                 seq (on_client (cm_passthroughConnection (xc_poller xc) (xc_new xc source peer) s source) r) (\<lambda>(name, r1).
                 Inr (sendRequest (name, fst (ev_address re), snd (ev_address re), peer, [], Some [], ''passthrough'') r1))
               else
                 seq (on_client (silent (connect_client xc source re s peer)) r) (\<lambda>(_, r1). Inr r1))
              (on_server source (Server_accept (po_removeRead (xc_poller xc)) True)))"


definition closeClient :: "('e, 'c, 'p) reactor_conf \<Rightarrow> string option \<Rightarrow> ('c, 'm, 'p) reactor \<Rightarrow> ('c, 'm, 'p) reactor res" where
  "closeClient xc source r =
     (case source of
        Some s \<Rightarrow> if s \<in> sources then on_server s (Server_notifyClose (po_addRead (xc_poller xc)) 1) r else Inr r
      | None \<Rightarrow> Inr r)"

text \<open>The handlers of the downloads count fewer of the sources.\<close>

definition count_disconnect :: "('e, 'c, 'p) reactor_conf \<Rightarrow> string option \<Rightarrow> ('c, 'm, 'p) reactor \<Rightarrow> ('c, 'm, 'p) reactor res" where
  "count_disconnect xc source r =
     (case source of
        Some s \<Rightarrow>
          if s \<in> {''proxy'', ''tls'', ''passthrough''} then on_server s (Server_notifyClose (po_addRead (xc_poller xc)) 1) r
          else Inr r
      | None \<Rightarrow> Inr r)"

text \<open>What the five handlers that look at the buffers do with \<open>status\<close> and \<open>buffer_change\<close>.\<close>

definition adjust_upload :: "('e, 'c, 'p) reactor_conf \<Rightarrow> sock \<Rightarrow> bool option \<Rightarrow> bool option \<Rightarrow> ('c, 'm, 'p) reactor \<Rightarrow>
    ('c, 'm, 'p) reactor res" where
  "adjust_upload xc client status change r =
     (if change = Some True then
        seq (on_client (silent (if status = Some True then cm_corkUpload (xc_poller xc) client else cm_uncorkUpload (xc_poller xc) client)) r)
          (\<lambda>(_, r1). Inr r1)
      else Inr r)"

definition adjust_download :: "('e, 'c, 'p) reactor_conf \<Rightarrow> sock \<Rightarrow> bool option \<Rightarrow> bool option \<Rightarrow> ('c, 'm, 'p) reactor \<Rightarrow>
    ('c, 'm, 'p) reactor res" where
  "adjust_download xc client status change r =
     (if change = Some True then
        seq (on_content (silent (if status = Some True then ct_corkClientDownload (xc_poller xc) client
                                 else ct_uncorkClientDownload (xc_poller xc) client)) r) (\<lambda>(_, r1). Inr r1)
      else Inr r)"

definition end_download :: "('e, 'c, 'p) reactor_conf \<Rightarrow> sock \<Rightarrow> ('c, 'm, 'p) reactor \<Rightarrow> ('c, 'm, 'p) reactor res" where
  "end_download xc client r = seq (on_content (ct_endClientDownload (xc_poller xc) client) r) (\<lambda>(_, r1). Inr r1)"

section \<open>The clients\<close>

definition new_request :: "string \<times> client_read \<times> string \<Rightarrow> ('c, 'm, 'p) reactor \<Rightarrow> ('c, 'm, 'p) reactor" where
  "new_request x r =
     (case x of (name, d, source) \<Rightarrow>
        (case cr_request d of
           Some (c # cs) \<Rightarrow> sendRequest (name, cr_accept_addr d, cr_accept_port d, cr_peer d, c # cs, cr_subrequest d, source) r
         | _ \<Rightarrow> r))"

definition incomingRequest :: "('e, 'c, 'p) reactor_conf \<Rightarrow> ('e, 'm) reactor_env \<Rightarrow> sock \<Rightarrow> ('c, 'm, 'p) reactor \<Rightarrow>
    ('c, 'm, 'p) reactor res" where
  "incomingRequest xc re client r =
     seq (on_client (cm_readRequest (xc_poller xc) (xc_client xc) (ev_client re 0) client) r) (\<lambda>(read, r1).
     case read of
       None \<Rightarrow> Inr r1
     | Some (name, d, source) \<Rightarrow>
         if cr_request d = None then closeClient xc (Some source) r1 else Inr (new_request (name, d, source) r1))"

definition incomingClientData :: "('e, 'c, 'p) reactor_conf \<Rightarrow> ('e, 'm) reactor_env \<Rightarrow> sock \<Rightarrow> ('c, 'm, 'p) reactor \<Rightarrow>
    ('c, 'm, 'p) reactor res" where
  "incomingClientData xc re client r =
     seq (on_client (cm_readData (xc_poller xc) (xc_client xc) (ev_client re 0) client) r) (\<lambda>(read, r1).
     case read of
       None \<Rightarrow> Inr r1
     | Some (name, d, source) \<Rightarrow>
         let r2 = new_request (name, d, source) r1 in
         (case cr_content d of
            None \<Rightarrow> seq (end_download xc client r2) (closeClient xc (Some source))
          | Some data \<Rightarrow>
              if data = [] then Inr r2
              else
                seq (on_content (ct_sendClientData (xc_poller xc) (ev_content re 0) client data) r2) (\<lambda>((status, change), r3).
                adjust_upload xc client status change r3)))"

definition flushClientOutput :: "('e, 'c, 'p) reactor_conf \<Rightarrow> ('e, 'm) reactor_env \<Rightarrow> sock \<Rightarrow> ('c, 'm, 'p) reactor \<Rightarrow>
    ('c, 'm, 'p) reactor res" where
  "flushClientOutput xc re client r =
     seq (on_client (cm_sendData (xc_poller xc) (xc_client xc) (ev_client re 0) client (Some [])) r) (\<lambda>((status, change, name, source), r1).
     seq (if status = None \<and> name \<noteq> None then seq (end_download xc client r1) (closeClient xc source) else Inr r1)
       (adjust_download xc client status change))"

section \<open>The downloads\<close>

definition completeWebConnection :: "('e, 'c, 'p) reactor_conf \<Rightarrow> ('e, 'm) reactor_env \<Rightarrow> sock \<Rightarrow> ('c, 'm, 'p) reactor \<Rightarrow>
    ('c, 'm, 'p) reactor res" where
  "completeWebConnection xc re fetcher r =
     seq (on_content (ct_startDownload (xc_poller xc) (xc_content xc) (ev_content re 0) fetcher) r) (\<lambda>((client, response, change), r1).
     case client of
       None \<Rightarrow> Inr r1
     | Some client \<Rightarrow>
         seq (adjust_upload xc client (Some False) change r1) (\<lambda>r2.
         if cm_contains client (rx_client r2) \<and> response \<noteq> None \<and> response \<noteq> Some [] then
           seq (on_client (cm_sendData (xc_poller xc) (xc_client xc) (ev_client re 0) client response) r2) (\<lambda>((status, change, name, source), r3).
           if status = None then seq (count_disconnect xc source r3) (end_download xc client)
           else adjust_download xc client status change r3)
         else Inr r2))"

definition incomingWebData :: "('e, 'c, 'p) reactor_conf \<Rightarrow> ('e, 'm) reactor_env \<Rightarrow> sock \<Rightarrow> ('c, 'm, 'p) reactor \<Rightarrow>
    ('c, 'm, 'p) reactor res" where
  "incomingWebData xc re fetcher r =
     seq (on_content (ct_readData (xc_poller xc) (ev_content re 0) fetcher) r) (\<lambda>((client, page_data), r1).
     case client of
       None \<Rightarrow> Inr r1
     | Some client \<Rightarrow>
         seq (on_client (cm_sendData (xc_poller xc) (xc_client xc) (ev_client re 0) client page_data) r1) (\<lambda>((status, change, name, source), r2).
         if status = None then
           seq (count_disconnect xc source r2) (\<lambda>r3. if page_data \<noteq> None then end_download xc client r3 else Inr r3)
         else if status = Some True then adjust_download xc client status change r2
         else Inr r2))"

definition flushWebOutput :: "('e, 'c, 'p) reactor_conf \<Rightarrow> ('e, 'm) reactor_env \<Rightarrow> sock \<Rightarrow> ('c, 'm, 'p) reactor \<Rightarrow>
    ('c, 'm, 'p) reactor res" where
  "flushWebOutput xc re fetcher r =
     seq (on_content (ct_sendSocketData (xc_poller xc) (ev_content re 0) fetcher []) r) (\<lambda>((status, change, client), r1).
     case client of None \<Rightarrow> Inr r1 | Some client \<Rightarrow> adjust_upload xc client status change r1)"

section \<open>Decisions\<close>

text \<open>
  \<open>readRedirector\<close> is a generator, as are the other handlers that decide: what it yields is enacted before
  it goes on. The dispatcher has no \<open>showInternalError\<close>.
\<close>

type_synonym 'm enactment = "sock \<times> string option \<times> 'm decision"

definition resolved_decision :: "dns_answer \<Rightarrow> 'm enactment" where
  "resolved_decision answer = (case answer of (client, command, given) \<Rightarrow> (client, Some command, Fields given))"

definition readRedirector :: "('e, 'c, 'p) reactor_conf \<Rightarrow> ('e, 'm) reactor_env \<Rightarrow> ('c, 'm, 'p) reactor \<Rightarrow>
    ('m enactment option \<times> ('c, 'm, 'p) reactor) res" where
  "readRedirector xc re r =
     (case ev_decision re of
        (_, None, _) \<Rightarrow> Inl StopReactor
      | (name, Some command, decision) \<Rightarrow>
          (case Option.bind name (\<lambda>n. cm_lookupSocket n (rx_client r)) of
             None \<Rightarrow> Inr (None, r)
           | Some client \<Rightarrow>
               seq (resolves command decision) (\<lambda>needed.
               if needed then
                 seq (on_resolver (startResolving (xc_resolver xc) (ev_resolver re) client command decision 1 None) r)
                   (\<lambda>((identifier, response), r1).
                   case response of
                     Some (_, command', given) \<Rightarrow> Inr (Some (resolved_decision (client, command', given)), r1)
                   | None \<Rightarrow> if identifier = None then Inl AttributeError else Inr (None, r1))
               else Inr (Some (client, Some command, decision), r))))"

definition readResolver :: "('e, 'c, 'p) reactor_conf \<Rightarrow> ('e, 'm) reactor_env \<Rightarrow> sock \<Rightarrow> ('c, 'm, 'p) reactor \<Rightarrow>
    ('m enactment option \<times> ('c, 'm, 'p) reactor) res option" where
  "readResolver xc re s r =
     oseq (resolver_getResponse (xc_poller xc) (xc_resolver xc) (ev_resolver re) s ((rx_resolver r)\<lparr>rm_poller := rx_poller r\<rparr>)) (\<lambda>(answer, m).
     Some (Inr (map_option resolved_decision answer, r\<lparr>rx_resolver := m, rx_poller := rm_poller m\<rparr>)))"

definition flushResolver :: "('e, 'c, 'p) reactor_conf \<Rightarrow> ('e, 'm) reactor_env \<Rightarrow> sock \<Rightarrow> ('c, 'm, 'p) reactor \<Rightarrow>
    ('c, 'm, 'p) reactor res" where
  "flushResolver xc re s r =
     seq (on_resolver (silent (resolver_continueSending (xc_poller xc) (ev_resolver re) s)) r) (\<lambda>(_, r1). Inr r1)"

definition enactDecision :: "('e, 'c, 'p) reactor_conf \<Rightarrow> ('e, 'm) reactor_env \<Rightarrow> 'm enactment \<Rightarrow> ('c, 'm, 'p) reactor \<Rightarrow>
    ('c, 'm, 'p) reactor res" where
  "enactDecision xc re enactment r =
     (case enactment of (client, command, decision) \<Rightarrow>
        seq (on_content (getContent (xc_poller xc) (xc_content xc) (ev_content re 1) client command decision) r)
          (\<lambda>((response, len, status, change), r1).
        seq (adjust_upload xc client status change r1) (\<lambda>r2.
        seq (on_client (cm_startData (xc_poller xc) (xc_client xc) (ev_client re 1) client response len) r2) (\<lambda>((data, source), r3).
        case data of
          None \<Rightarrow> seq (end_download xc client r3) (closeClient xc source)
        | Some data \<Rightarrow>
            if data = [] then Inr r3
            else
              seq (on_content (ct_sendClientData (xc_poller xc) (ev_content re 2) client data) r3) (\<lambda>((status, change), r4).
              adjust_upload xc client status change r4)))))"

definition enact :: "('e, 'c, 'p) reactor_conf \<Rightarrow> ('e, 'm) reactor_env \<Rightarrow> 'm enactment option \<times> ('c, 'm, 'p) reactor \<Rightarrow>
    ('c, 'm, 'p) reactor res" where
  "enact xc re x = (case x of (None, r) \<Rightarrow> Inr r | (Some d, r) \<Rightarrow> enactDecision xc re d r)"

text \<open>
  \<open>timeoutResolver\<close>: every decision that the clean-up of the resolver yields is enacted before the clean-up
  goes on.
\<close>

partial_function (option) timeout_loop :: "('e, 'c, 'p) reactor_conf \<Rightarrow> ('e, 'm) reactor_env \<Rightarrow> rat \<Rightarrow> (rat \<times> sock \<times> sock) list \<Rightarrow> nat \<Rightarrow>
    ('c, 'm, 'p) reactor \<Rightarrow> ((nat \<times> ('c, 'm, 'p) reactor) res) option" where
  "timeout_loop xc re cutoff entries n r =
     (case entries of
        [] \<Rightarrow> Some (Inr (n, r))
      | (timestamp, client, s) # rest \<Rightarrow>
          if timestamp > cutoff then Some (Inr (n, r))
          else
            (case seq (cleanup_entry (xc_resolver xc) (ev_resolver re) client s (rx_resolver r)) (\<lambda>(answers, m).
                  for_each (\<lambda>a. enactDecision xc re (resolved_decision a)) answers (r\<lparr>rx_resolver := m\<rparr>)) of
               Inl e \<Rightarrow> Some (Inl e)
             | Inr r1 \<Rightarrow>
                 timeout_loop xc re cutoff (rest @ drop (length (rm_active (rx_resolver r))) (rm_active (rx_resolver r1))) (n + 1) r1))"

definition timeoutResolver :: "('e, 'c, 'p) reactor_conf \<Rightarrow> ('e, 'm) reactor_env \<Rightarrow> ('c, 'm, 'p) reactor \<Rightarrow>
    ('c, 'm, 'p) reactor res option" where
  "timeoutResolver xc re r =
     oseq (timeout_loop xc re (re_now (ev_resolver re) - rc_timeout (xc_resolver xc)) (rm_active (rx_resolver r)) 0 r) (\<lambda>(n, r1).
     Some (Inr (r1\<lparr>rx_resolver := (rx_resolver r1)\<lparr>rm_active := drop n (rm_active (rx_resolver r1))\<rparr>\<rparr>)))"

section \<open>The loop\<close>

text \<open>
  \<open>handle\<close>: an event that has no handler is ignored. An event comes with the sockets it is for, each here
  with what surrounds its handling.
\<close>

definition handle_one :: "('e, 'c, 'p) reactor_conf \<Rightarrow> event_name \<Rightarrow> sock \<times> ('e, 'm) reactor_env \<Rightarrow> ('c, 'm, 'p) reactor \<Rightarrow>
    ('c, 'm, 'p) reactor res option" where
  "handle_one xc event i r =
     (case i of (s, re) \<Rightarrow>
        if event = ''read_proxy'' then Some (accept_one xc ''proxy'' re r)
        else if event = ''read_icap'' then Some (accept_one xc ''icap'' re r)
        else if event = ''read_tls'' then Some (accept_one xc ''tls'' re r)
        else if event = ''read_passthrough'' then Some (accept_one xc ''passthrough'' re r)
        else if event = ''read_web'' then Some (accept_one xc ''web'' re r)
        else if event = opening_client then Some (incomingRequest xc re s r)
        else if event = read_client then Some (incomingClientData xc re s r)
        else if event = write_client then Some (flushClientOutput xc re s r)
        else if event = opening_download then Some (completeWebConnection xc re s r)
        else if event = read_download then Some (incomingWebData xc re s r)
        else if event = write_download then Some (flushWebOutput xc re s r)
        else if event = ''read_redirector'' then Some (seq (readRedirector xc re r) (enact xc re))
        else if event = read_resolver then oseq (readResolver xc re s r) (\<lambda>x. Some (enact xc re x))
        else if event = write_resolver then Some (flushResolver xc re s r)
        else Some (Inr r))"

fun each_socket :: "('a \<Rightarrow> 's \<Rightarrow> 's res option) \<Rightarrow> 'a list \<Rightarrow> 's \<Rightarrow> 's res option" where
  "each_socket f [] s = Some (Inr s)"
| "each_socket f (x # xs) s = oseq (f x s) (each_socket f xs)"

type_synonym ('e, 'm) events = "(event_name \<times> (sock \<times> ('e, 'm) reactor_env) list) list"

definition reactor_turn :: "('e, 'c, 'p) reactor_conf \<Rightarrow> ('e, 'm) events \<Rightarrow> ('c, 'm, 'p) reactor \<Rightarrow> ('c, 'm, 'p) reactor res option" where
  "reactor_turn xc events r =
     each_socket (\<lambda>(event, interfaces) r1.
       each_socket (handle_one xc event) interfaces (r1\<lparr>rx_nb_events := rx_nb_events r1 + length interfaces\<rparr>))
       events (r\<lparr>rx_nb_loops := rx_nb_loops r + 1\<rparr>)"

definition interrupts :: "('e, 'm) events \<Rightarrow> event_name set" where
  "interrupts events = {k \<in> {''read_interrupt'', ''read_control''}. \<exists>interfaces. map_of events k = Some interfaces \<and> interfaces \<noteq> []}"

text \<open>
  \<open>run\<close>: what the poller answers to each call is a list, and the loop is still running when it is over.
  A \<open>StopReactor\<close> ends the run; the state it leaves is not part of the value.
\<close>

datatype ('c, 'm, 'p) run_result = Stopped | Interrupted "event_name set" "('c, 'm, 'p) reactor" | Running "('c, 'm, 'p) reactor"

fun reactor_loop :: "('e, 'c, 'p) reactor_conf \<Rightarrow> ('e, 'm) events list \<Rightarrow> ('c, 'm, 'p) reactor \<Rightarrow> ('c, 'm, 'p) run_result res option" where
  "reactor_loop xc [] r = Some (Inr (Running r))"
| "reactor_loop xc (events # polls) r =
     (case reactor_turn xc events r of
        None \<Rightarrow> None
      | Some (Inl e) \<Rightarrow> if e = StopReactor then Some (Inr Stopped) else Some (Inl e)
      | Some (Inr r1) \<Rightarrow>
          if interrupts events \<noteq> {} then Some (Inr (Interrupted (interrupts events) r1)) else reactor_loop xc polls r1)"

definition reactor_run :: "('e, 'c, 'p) reactor_conf \<Rightarrow> ('e, 'm) reactor_env \<Rightarrow> ('e, 'm) events list \<Rightarrow> ('c, 'm, 'p) reactor \<Rightarrow>
    ('c, 'm, 'p) run_result res option" where
  "reactor_run xc re polls r =
     oseq (timeoutResolver xc re r) (\<lambda>r1.
     reactor_loop xc polls (r1\<lparr>rx_resolver := expireCache (re_now (ev_resolver re)) (rx_resolver r1)\<rparr>))"

end
