(* ===== verification/Connections.thy ===== *)
theory Connections
  imports ClientManager StreamClient
begin

text \<open>
  The connections of the client manager by class: the TLS and passthrough connections
  (\<open>lib/exaproxy/reactor/client/tls.py\<close> and \<open>passthrough.py\<close>) as objects with the four operations, and the
  dispatch of an operation on the class of the object. Each class keeps the contract of a connection, and so
  does the dispatch.
\<close>

section \<open>TLS and passthrough connections\<close>

record stream_client =
  sc_accept_addr :: string
  sc_accept_port :: int
  sc_reader :: stream_reader
  sc_writer :: writer

definition TLSClient_init :: "string \<Rightarrow> int \<Rightarrow> string \<Rightarrow> int \<Rightarrow> bool \<Rightarrow> bool \<Rightarrow> stream_client" where
  "TLSClient_init addr port peer max_buffer proxied ipv4 =
     \<lparr>sc_accept_addr = addr, sc_accept_port = port, sc_reader = TLSClient_read_init proxied peer max_buffer,
      sc_writer = (TLSClient_write_init ipv4 [])\<lparr>w_point := Unstarted\<rparr>\<rparr>"

definition PassthroughClient_init :: "string \<Rightarrow> int \<Rightarrow> string \<Rightarrow> int \<Rightarrow> bool \<Rightarrow> bool \<Rightarrow> stream_client" where
  "PassthroughClient_init addr port peer max_buffer proxied ipv4 =
     \<lparr>sc_accept_addr = addr, sc_accept_port = port, sc_reader = PassthroughClient_read_init proxied peer max_buffer,
      sc_writer = (PassthroughClient_write_init ipv4 [])\<lparr>w_point := Unstarted\<rparr>\<rparr>"

definition getAcceptAddress :: "stream_client \<Rightarrow> string \<times> int" where
  "getAcceptAddress c = (sc_accept_addr c, sc_accept_port c)"

definition stream_read :: "stream_client \<Rightarrow> stream_result \<Rightarrow> (client_read \<times> stream_client) res" where
  "stream_read c r =
     (case r of
        Stream_yields request content rd \<Rightarrow>
          Inr (\<lparr>cr_accept_addr = sc_accept_addr c, cr_accept_port = sc_accept_port c, cr_peer = st_peer rd,
                cr_request = request, cr_subrequest = Some [], cr_content = content\<rparr>, c\<lparr>sc_reader := rd\<rparr>)
      | Stream_raises err _ \<Rightarrow> Inl err
      | Stream_starved \<Rightarrow> Inl AssertionError)"

definition stream_written :: "stream_client \<Rightarrow> (write_status \<times> nat \<times> writer) res \<Rightarrow> (write_status \<times> stream_client) res" where
  "stream_written c r = seq r (\<lambda>(res, _, w). Inr (res, c\<lparr>sc_writer := w\<rparr>))"

text \<open>As for the HTTP connection, the answers of the socket end with one that makes every read return.\<close>

definition tls_ops :: "(http_env, stream_client, http_data) client_ops" where
  "tls_ops =
     \<lparr>co_readData = (\<lambda>e c. stream_read c (TLSClient_readData (he_recv e @ [WouldBlock]) (sc_reader c))),
      co_readRelated = (\<lambda>e mode n c. stream_read c (TLSClient_readRelated mode (he_recv e @ [WouldBlock]) (sc_reader c))),
      co_writeData = (\<lambda>e data c. stream_written c (TLSClient_writeData data (he_send e) (sc_writer c))),
      co_startData = (\<lambda>e command d c.
        seq (http_command command d) (\<lambda>cmd.
        stream_written c (TLSClient_startData cmd (he_send e) (w_ipv4 (sc_writer c)) (w_buffer (sc_writer c)))))\<rparr>"

definition passthrough_ops :: "(http_env, stream_client, http_data) client_ops" where
  "passthrough_ops =
     \<lparr>co_readData = (\<lambda>e c. stream_read c (PassthroughClient_readData (he_recv e @ [WouldBlock]) (sc_reader c))),
      co_readRelated = (\<lambda>e mode n c. stream_read c (PassthroughClient_readRelated mode (he_recv e @ [WouldBlock]) (sc_reader c))),
      co_writeData = (\<lambda>e data c. stream_written c (PassthroughClient_writeData data (he_send e) (sc_writer c))),
      co_startData = (\<lambda>e command d c.
        seq (http_command command d) (\<lambda>cmd.
        stream_written c (PassthroughClient_startData cmd (he_send e) (w_ipv4 (sc_writer c)) (w_buffer (sc_writer c)))))\<rparr>"

definition stream_holds :: "stream_client \<Rightarrow> bool" where
  "stream_holds c \<longleftrightarrow> w_buffer (sc_writer c) \<noteq> []"

section \<open>The class of a connection\<close>

datatype any_client = OfHTTP http_client | OfTLS stream_client | OfPassthrough stream_client

definition on_class :: "('a \<Rightarrow> any_client) \<Rightarrow> ('x \<times> 'a) res \<Rightarrow> ('x \<times> any_client) res" where
  "on_class C r = seq r (\<lambda>(x, c). Inr (x, C c))"

definition any_ops :: "(http_env, any_client, http_data) client_ops" where
  "any_ops =
     \<lparr>co_readData = (\<lambda>e c. case c of
        OfHTTP h \<Rightarrow> on_class OfHTTP (co_readData http_ops e h)
      | OfTLS s \<Rightarrow> on_class OfTLS (co_readData tls_ops e s)
      | OfPassthrough s \<Rightarrow> on_class OfPassthrough (co_readData passthrough_ops e s)),
      co_readRelated = (\<lambda>e mode n c. case c of
        OfHTTP h \<Rightarrow> on_class OfHTTP (co_readRelated http_ops e mode n h)
      | OfTLS s \<Rightarrow> on_class OfTLS (co_readRelated tls_ops e mode n s)
      | OfPassthrough s \<Rightarrow> on_class OfPassthrough (co_readRelated passthrough_ops e mode n s)),
      co_writeData = (\<lambda>e data c. case c of
        OfHTTP h \<Rightarrow> on_class OfHTTP (co_writeData http_ops e data h)
      | OfTLS s \<Rightarrow> on_class OfTLS (co_writeData tls_ops e data s)
      | OfPassthrough s \<Rightarrow> on_class OfPassthrough (co_writeData passthrough_ops e data s)),
      co_startData = (\<lambda>e command d c. case c of
        OfHTTP h \<Rightarrow> on_class OfHTTP (co_startData http_ops e command d h)
      | OfTLS s \<Rightarrow> on_class OfTLS (co_startData tls_ops e command d s)
      | OfPassthrough s \<Rightarrow> on_class OfPassthrough (co_startData passthrough_ops e command d s))\<rparr>"

section \<open>The contract of closing\<close>

text \<open>
  What the account of the connections takes of them: reading gives no request exactly when it gives no
  content, and then the connection is closed; the rest of a request, when there is no other request, is some
  content.
\<close>

definition agree :: "'a option \<Rightarrow> 'b option \<Rightarrow> bool" where
  "agree request content \<longleftrightarrow> (request = None) = (content = None)"

lemma agree_simps [simp]: "agree None None" "agree (Some x) (Some y)" "\<not> agree None (Some y)" "\<not> agree (Some x) None"
  by (simp_all add: agree_def)

locale closing_connection =
  fixes co :: "('e, 'c, 'd) client_ops"
  assumes read_law: "co_readData co e st = Inr (d, st') \<Longrightarrow> agree (cr_request d) (cr_content d)"
    and related_law: "co_readRelated co e mode n st = Inr (d, st') \<Longrightarrow> agree (cr_request d) (cr_content d)"

lemma stream_read_Inr:
  "stream_read c r = Inr (d, c') \<longleftrightarrow>
    (\<exists>request content rd. r = Stream_yields request content rd \<and> c' = c\<lparr>sc_reader := rd\<rparr>
      \<and> d = \<lparr>cr_accept_addr = sc_accept_addr c, cr_accept_port = sc_accept_port c, cr_peer = st_peer rd,
             cr_request = request, cr_subrequest = Some [], cr_content = content\<rparr>)"
  by (auto simp: stream_read_def split: stream_result.splits)

lemma TLS_dispatch_yields: "TLSClient_dispatch r = Stream_yields request content rd \<Longrightarrow> agree request content"
  by (auto simp: TLSClient_dispatch_def stream_end_def TLSClient_process_def split: if_splits sum.splits option.splits)

lemma TLS_loop_yields: "TLSClient_read_loop replies r = Stream_yields request content rd \<Longrightarrow> agree request content"
proof (induction replies arbitrary: r)
  case Nil
  then show ?case by (subst (asm) TLSClient_read_loop.simps) (auto split: if_splits dest: TLS_dispatch_yields)
next
  case (Cons a replies)
  from Cons.prems show ?case
    by (subst (asm) TLSClient_read_loop.simps)
       (auto simp: stream_end_def Let_def split: if_splits recv_result.splits prod.splits option.splits dest: TLS_dispatch_yields Cons.IH)
qed

lemma Passthrough_dispatch_yields:
  "PassthroughClient_dispatch r = Stream_yields request content rd \<Longrightarrow> agree request content"
  by (auto simp: PassthroughClient_dispatch_def PassthroughClient_process_def stream_end_def split: if_splits)

lemma Passthrough_loop_yields:
  "PassthroughClient_read_loop replies r = Stream_yields request content rd \<Longrightarrow> agree request content"
  by (cases replies; subst (asm) PassthroughClient_read_loop.simps)
     (auto simp: stream_end_def Let_def PassthroughClient_processProxyHeader_def split: if_splits recv_result.splits dest: Passthrough_dispatch_yields)

interpretation tls_closing: closing_connection tls_ops
  by unfold_locales
     (auto simp: tls_ops_def stream_read_Inr TLSClient_readData_def TLSClient_readRelated_def TLSClient_read_def
       split: read_point.splits dest: TLS_loop_yields)

interpretation passthrough_closing: closing_connection passthrough_ops
  by unfold_locales
     (auto simp: passthrough_ops_def stream_read_Inr PassthroughClient_readData_def PassthroughClient_readRelated_def PassthroughClient_read_def
       split: read_point.splits dest: Passthrough_loop_yields)

text \<open>The HTTP connection.\<close>

lemma read_dispatch_yields: "read_dispatch r = Yielded request content rd \<Longrightarrow> agree request content"
  by (auto simp: read_dispatch_def read_end_def Let_def split: if_splits option.splits sum.splits prod.splits)

lemma read_loop_yields: "read_loop replies r = Yielded request content rd \<Longrightarrow> agree request content"
proof (induction replies arbitrary: r)
  case Nil
  then show ?case by (subst (asm) read_loop.simps) (auto split: if_splits dest: read_dispatch_yields)
next
  case (Cons a replies)
  from Cons.prems show ?case
    by (subst (asm) read_loop.simps)
       (auto simp: read_end_def Let_def split: if_splits recv_result.splits prod.splits option.splits dest: read_dispatch_yields Cons.IH)
qed

lemma http_read_Inr:
  "http_read c r = Inr (d, c') \<longleftrightarrow>
    (\<exists>request content rd. r = Yielded request content rd \<and> c' = c\<lparr>hc_reader := rd\<rparr>
      \<and> d = \<lparr>cr_accept_addr = hc_accept_addr c, cr_accept_port = hc_accept_port c, cr_peer = rd_peer rd,
             cr_request = request, cr_subrequest = Some [], cr_content = content\<rparr>)"
  by (auto simp: http_read_def split: read_result.splits)

interpretation http_closing: closing_connection http_ops
  by unfold_locales
     (auto simp: http_ops_def http_read_Inr client_readData_def client_readRelated_def client_read_def
       split: read_point.splits dest: read_loop_yields)

lemma on_class_Inr: "on_class C r = Inr (x, c') \<longleftrightarrow> (\<exists>c. r = Inr (x, c) \<and> c' = C c)"
  by (auto simp: on_class_def seq_eq_Inr_iff)

interpretation any_closing: closing_connection any_ops
  by unfold_locales
     (auto simp: any_ops_def on_class_Inr split: any_client.splits
       dest: http_closing.read_law http_closing.related_law tls_closing.read_law tls_closing.related_law
             passthrough_closing.read_law passthrough_closing.related_law)

section \<open>Closing with data left to send\<close>

lemma tls_close_status:
  assumes "d \<noteq> []" "w_buffer (sc_writer c) = []" "he_send e = SendBlocked"
  shows "\<exists>c'. co_startData tls_ops e ''close'' (Data (Some d)) c = Inr (Some (True, True, 0, 0), c') \<and> w_buffer (sc_writer c') = d
    \<and> sc_reader c' = sc_reader c"
  using assms
  by (simp add: tls_ops_def http_command_def stream_written_def TLSClient_startData_def TLSClient_writeData_def TLSClient_write_init_def
      write_iteration_def write_status_def Let_def)

text \<open>A TLS connection that is told to close while the data for it cannot all be sent is never flushed: the status that \<open>startData\<close> returns is that of the end mark, which finds the buffer there, so the manager does not watch the socket for writing and the connection stays with the data.\<close>

theorem tls_close_stuck:
  assumes "cm_startData po any_ops e s (Some (Some ''close'', Data (Some d))) len c = Inr ((Some content, src), c')"
    and "cm_bysock c s = Some (x, source)" "cn_state x = OfTLS st" "cn_sock x = s"
    and "w_buffer (sc_writer st) = []" "d \<noteq> []" "he_send e = SendBlocked" "s \<notin> set (cm_buffered c)"
  shows "s \<notin> set (cm_buffered c') \<and> (\<exists>st'. cm_bysock c' s = Some (x\<lparr>cn_state := OfTLS st'\<rparr>, source) \<and> w_buffer (sc_writer st') = d)"
proof -
  obtain st1 where st1: "co_startData tls_ops e ''close'' (Data (Some d)) st = Inr (Some (True, True, 0, 0), st1)" "w_buffer (sc_writer st1) = d"
    using tls_close_status [OF assms(6,5,7)] by blast
  obtain mode n where mode: "cm_parseRemaining len = (mode, n)" by fastforce
  have w: "co_startData any_ops e ''close'' (Data (Some d)) (OfTLS st) = Inr (Some (True, True, 0, 0), OfTLS st1)"
    using st1(1) by (simp add: any_ops_def on_class_def)
  obtain r st2 where r: "co_readRelated any_ops e mode n (OfTLS st1) = Inr (r, st2)"
    using assms(1-3) mode w by (auto simp: cm_startData_def seq_eq_Inr_iff)
  then obtain rd where st2: "st2 = OfTLS (st1\<lparr>sc_reader := rd\<rparr>)"
    by (auto simp: any_ops_def on_class_Inr tls_ops_def stream_read_Inr)
  let ?m = "active_changed s (x\<lparr>cn_state := st2\<rparr>, source) c"
  obtain p where p: "on_poller (po_uncorkRead po read_client s) ?m = Inr (?m\<lparr>cm_poller := p\<rparr>)"
    using assms(1-4) mode w r on_poller_Inr by (fastforce simp: cm_startData_def seq_eq_Inr_iff)
  have "cr_request r = Some [] \<and> c' = ?m\<lparr>cm_poller := p, cm_total_sent4 := cm_total_sent4 ?m, cm_total_sent6 := cm_total_sent6 ?m\<rparr>"
    using assms(1-4) mode w r p
    by (auto simp: cm_startData_def seq_eq_Inr_iff Let_def start_buffered_def split: option.splits if_splits)
  then show ?thesis using st1(2) st2 assms(8) by (auto simp: active_changed_def intro!: exI [of _ "st1\<lparr>sc_reader := rd\<rparr>"])
qed

definition blocked_tls :: stream_client where
  "blocked_tls = (TLSClient_init ''10.0.0.1'' 443 ''10.0.0.2'' 65536 False True)
     \<lparr>sc_reader := (TLSClient_read_init False ''10.0.0.2'' 65536)\<lparr>st_point := AtRequest\<rparr>\<rparr>"

definition blocked_clients :: "(any_client, epoller) clients" where
  "blocked_clients = (ClientManager_init 5 three_events)
     \<lparr>cm_bysock := [3 \<mapsto> (\<lparr>cn_name = ''1'', cn_sock = 3, cn_state = OfTLS blocked_tls\<rparr>, ''tls'')]\<rparr>"

theorem tls_close_stuck_witness:
  "\<exists>c'. cm_startData (ep_ops Some) any_ops \<lparr>he_recv = [], he_send = SendBlocked, he_file = None\<rparr> 3 (Some (Some ''close'', Data (Some ''denied'')))
      (RemainingBytes 0) blocked_clients = Inr ((Some [], Some ''tls''), c') \<and> 3 \<notin> set (cm_buffered c')"
proof -
  let ?e = "\<lparr>he_recv = [], he_send = SendBlocked, he_file = None\<rparr>"
  obtain st1 where st1: "co_startData tls_ops ?e ''close'' (Data (Some ''denied'')) blocked_tls = Inr (Some (True, True, 0, 0), st1)"
    "sc_reader st1 = sc_reader blocked_tls"
    using tls_close_status [of "''denied''" blocked_tls ?e] by (auto simp: blocked_tls_def TLSClient_init_def TLSClient_write_init_def)
  have "\<exists>c'. cm_startData (ep_ops Some) any_ops ?e 3 (Some (Some ''close'', Data (Some ''denied''))) (RemainingBytes 0) blocked_clients
      = Inr ((Some [], Some ''tls''), c')"
    using st1
    by (simp add: cm_startData_def blocked_clients_def cm_parseRemaining_def any_ops_def on_class_def tls_ops_def TLSClient_readRelated_def
        TLSClient_read_def TLSClient_read_loop.simps stream_read_def blocked_tls_def TLSClient_init_def TLSClient_read_init_def on_poller_def
        ep_ops_def EPoller_uncorkReadSocket_def EPoller_uncork_def ep_entry_def three_events_def read_client_def ClientManager_init_def active_changed_def
        start_buffered_def Let_def)
  then obtain c' where c': "cm_startData (ep_ops Some) any_ops ?e 3 (Some (Some ''close'', Data (Some ''denied''))) (RemainingBytes 0) blocked_clients
      = Inr ((Some [], Some ''tls''), c')" by blast
  have "3 \<notin> set (cm_buffered c')"
    using tls_close_stuck [OF c', of "\<lparr>cn_name = ''1'', cn_sock = 3, cn_state = OfTLS blocked_tls\<rparr>" "''tls''" blocked_tls]
    by (simp add: blocked_clients_def blocked_tls_def TLSClient_init_def TLSClient_write_init_def ClientManager_init_def)
  with c' show ?thesis by blast
qed

end
