(* ===== verification/ReactorCount.thy ===== *)
theory ReactorCount
  imports Reactor Connections
begin

text \<open>
  The account of the connections: each server has counted exactly the connections of its clients. The
  facts follow the source of every client through the operations of the client manager, then the count
  through the handlers of the reactor.
\<close>

section \<open>The source of every client\<close>

definition table_source :: "(sock \<rightharpoonup> 'a \<times> string) \<Rightarrow> (sock \<rightharpoonup> 'a \<times> string) \<Rightarrow> sock \<rightharpoonup> string" where
  "table_source active opening s = map_option snd (case active s of Some x \<Rightarrow> Some x | None \<Rightarrow> opening s)"

lemma table_source_simps [simp]:
  "table_source (b(s := Some (x, source))) d = (table_source b d)(s := Some source)"
  "b s = None \<Longrightarrow> table_source b (d(s := Some (x, source))) = (table_source b d)(s := Some source)"
  "table_source (b(s := None)) (d(s := None)) = (table_source b d)(s := None)"
  "table_source (b(s := Some (x, source))) (d(s := None)) = (table_source b d)(s := Some source)"
  "(table_source b (d(s := None)))(s := y) = (table_source b d)(s := y)"
  by (auto simp: table_source_def fun_eq_iff split: option.splits)

text \<open>A socket is in one of the tables, as the socket of its connection.\<close>

definition tables_apart :: "(sock \<rightharpoonup> 'c connection \<times> string) \<Rightarrow> (sock \<rightharpoonup> 'c connection \<times> string) \<Rightarrow> bool" where
  "tables_apart b d \<longleftrightarrow> (\<forall>s. b s = None \<or> d s = None)
     \<and> (\<forall>s x source. b s = Some (x, source) \<longrightarrow> cn_sock x = s) \<and> (\<forall>s x source. d s = Some (x, source) \<longrightarrow> cn_sock x = s)"

lemma tables_apart_upd:
  assumes "tables_apart b d"
  shows "d s = None \<Longrightarrow> cn_sock x = s \<Longrightarrow> tables_apart (b(s := Some (x, source))) d"
    and "b s = None \<Longrightarrow> cn_sock x = s \<Longrightarrow> tables_apart b (d(s := Some (x, source)))"
    and "cn_sock x = s \<Longrightarrow> tables_apart (b(s := Some (x, source))) (d(s := None))"
    and "tables_apart (b(s := None)) (d(s := None))"
  using assms by (auto simp: tables_apart_def)

lemma tables_apartD:
  assumes "tables_apart b d"
  shows "b s = Some (x, source) \<Longrightarrow> d s = None \<and> cn_sock x = s" "d s = Some (x, source) \<Longrightarrow> b s = None \<and> cn_sock x = s"
  using assms unfolding tables_apart_def by (metis option.distinct(1))+

definition client_source :: "('c, 'p) clients \<Rightarrow> sock \<rightharpoonup> string" where
  "client_source c = table_source (cm_bysock c) (tc_dict (cm_norequest c))"

lemma client_source_at:
  "cm_bysock c s = Some (x, source) \<Longrightarrow> client_source c s = Some source"
  "cm_bysock c s = None \<Longrightarrow> tc_dict (cm_norequest c) s = Some (x, source) \<Longrightarrow> client_source c s = Some source"
  "client_source c s = None \<longleftrightarrow> cm_bysock c s = None \<and> tc_dict (cm_norequest c) s = None"
  by (auto simp: client_source_def table_source_def split: option.splits)

definition tabled :: "('c, 'p) clients \<Rightarrow> bool" where
  "tabled c \<longleftrightarrow> tables_apart (cm_bysock c) (tc_dict (cm_norequest c))"

text \<open>An operation that leaves the tables as they are, but for the poller, the counters and the state of connections.\<close>

lemma client_source_poller [simp]: "client_source (c\<lparr>cm_poller := p\<rparr>) = client_source c" "tabled (c\<lparr>cm_poller := p\<rparr>) = tabled c"
  by (simp_all add: client_source_def tabled_def)

lemma client_source_counters [simp]:
  "client_source (c\<lparr>cm_total_requested := n\<rparr>) = client_source c" "tabled (c\<lparr>cm_total_requested := n\<rparr>) = tabled c"
  "client_source (c\<lparr>cm_total_sent4 := k, cm_total_sent6 := l\<rparr>) = client_source c" "tabled (c\<lparr>cm_total_sent4 := k, cm_total_sent6 := l\<rparr>) = tabled c"
  "client_source (c\<lparr>cm_buffered := xs\<rparr>) = client_source c" "tabled (c\<lparr>cm_buffered := xs\<rparr>) = tabled c"
  by (simp_all add: client_source_def tabled_def)

lemma on_poller_source:
  assumes "on_poller f c = Inr c'"
  shows "client_source c' = client_source c \<and> tabled c' = tabled c"
  using on_poller_Inr [OF assms] by auto

lemma client_source_active:
  assumes "cm_bysock c s = Some (x, source)"
  shows "client_source (active_changed s (x\<lparr>cn_state := st\<rparr>, source) c) = client_source c"
    and "tabled c \<Longrightarrow> tabled (active_changed s (x\<lparr>cn_state := st\<rparr>, source) c)"
proof -
  show "client_source (active_changed s (x\<lparr>cn_state := st\<rparr>, source) c) = client_source c"
    using client_source_at(1) [OF assms] by (simp add: client_source_def active_changed_def fun_upd_idem_iff)
  assume t: "tabled c"
  then have "tc_dict (cm_norequest c) s = None \<and> cn_sock x = s" using assms by (auto simp: tabled_def dest: tables_apartD)
  with t show "tabled (active_changed s (x\<lparr>cn_state := st\<rparr>, source) c)"
    by (simp add: active_changed_def tabled_def tables_apart_upd)
qed

lemma cm_cleanup_source:
  assumes "cm_cleanup po s name c = Inr c'"
  shows "client_source c' = (client_source c)(s := None)" and "tabled c \<Longrightarrow> tabled c'"
  using cm_cleanup_Inr [OF assms] by (auto simp: client_source_def TimeCache_pop_def tabled_def intro: tables_apart_upd)

lemma opening_connection_source:
  assumes "opening_connection po new_client now s source c = Inr c'" "client_source c s = None"
  shows "client_source c' = (client_source c)(s \<mapsto> source)" and "tabled c \<Longrightarrow> tabled c'"
proof -
  from assms(1) obtain p name st where c': "c' = c\<lparr>cm_nextid := cm_nextid c + 1,
      cm_norequest := TimeCache_setitem now s (\<lparr>cn_name = name, cn_sock = s, cn_state = st\<rparr>, source) (cm_norequest c),
      cm_byname := (cm_byname c)(name \<mapsto> s), cm_poller := p\<rparr>"
    by (auto simp: opening_connection_def cm_getnextid_def dest!: on_poller_Inr)
  have fresh: "cm_bysock c s = None" using assms(2) by (simp add: client_source_at)
  show "client_source c' = (client_source c)(s \<mapsto> source)"
    using fresh unfolding c' by (auto simp: client_source_def TimeCache_setitem_def)
  show "tabled c \<Longrightarrow> tabled c'"
    using fresh unfolding c' by (auto simp: tabled_def TimeCache_setitem_def intro: tables_apart_upd)
qed

lemma passthroughConnection_source:
  assumes "cm_passthroughConnection po new_client s source c = Inr (name, c')" "client_source c s = None"
  shows "client_source c' = (client_source c)(s \<mapsto> source)" and "tabled c \<Longrightarrow> tabled c'"
proof -
  from assms(1) obtain p st where c': "c' = c\<lparr>cm_nextid := cm_nextid c + 1,
      cm_bysock := (cm_bysock c)(s \<mapsto> (\<lparr>cn_name = name, cn_sock = s, cn_state = st\<rparr>, source)),
      cm_byname := (cm_byname c)(name \<mapsto> s), cm_poller := p\<rparr>"
    by (auto simp: cm_passthroughConnection_def cm_getnextid_def seq_eq_Inr_iff dest!: on_poller_Inr)
  have fresh: "tc_dict (cm_norequest c) s = None" using assms(2) by (simp add: client_source_at)
  show "client_source c' = (client_source c)(s \<mapsto> source)"
    unfolding c' by (auto simp: client_source_def)
  show "tabled c \<Longrightarrow> tabled c'"
    using fresh unfolding c' by (auto simp: tabled_def intro: tables_apart_upd)
qed

text \<open>What a reading leaves, by what was read.\<close>

definition after_read :: "(string \<times> client_read \<times> string) option \<Rightarrow> sock \<Rightarrow> (sock \<rightharpoonup> string) \<Rightarrow> (sock \<rightharpoonup> string)" where
  "after_read result s t =
     (case result of None \<Rightarrow> t | Some (_, d, _) \<Rightarrow> if cr_request d = None then t(s := None) else t)"

lemma cm_readRequest_source:
  assumes "cm_readRequest po co e s c = Inr (result, c')" "tabled c"
  shows "client_source c' = after_read result s (client_source c) \<and> tabled c'
    \<and> (\<forall>name d source. result = Some (name, d, source) \<longrightarrow> client_source c s = Some source)"
proof (cases "tc_dict (cm_norequest c) s")
  case None
  with assms show ?thesis by (auto simp: cm_readRequest_def after_read_def)
next
  case (Some x)
  obtain client source where x: "x = (client, source)" by (cases x)
  have off: "cm_bysock c s = None" and sock: "cn_sock client = s" using assms(2) Some x by (auto simp: tabled_def dest: tables_apartD)
  have src: "client_source c s = Some source" using Some x off by (simp add: client_source_at)
  obtain d st where d: "co_readData co e (cn_state client) = Inr (d, st)" and r: "result = Some (cn_name client, d, source)"
    using assms(1) Some x by (auto simp: cm_readRequest_def seq_eq_Inr_iff Let_def)
  show ?thesis
  proof (cases "cr_request d")
    case None
    then have "cm_cleanup po s (cn_name client) c = Inr c'"
      using assms(1) Some x d by (auto simp: cm_readRequest_def seq_eq_Inr_iff)
    from cm_cleanup_source [OF this] show ?thesis using None r src assms(2) by (simp add: after_read_def)
  next
    case req: (Some request)
    show ?thesis
    proof (cases "request = []")
      case True
      then have "c' = opening_changed s (client\<lparr>cn_state := st\<rparr>, source) c"
        using assms(1) Some x d req by (auto simp: cm_readRequest_def seq_eq_Inr_iff)
      then show ?thesis using Some x off req r src assms(2) sock
        by (auto simp: client_source_def opening_changed_def after_read_def tabled_def fun_upd_idem_iff intro: tables_apart_upd)
    next
      case False
      let ?m = "c\<lparr>cm_total_requested := cm_total_requested c + 1, cm_norequest := TimeCache_pop s (cm_norequest c),
                    cm_bysock := (cm_bysock c)(s \<mapsto> (client\<lparr>cn_state := st\<rparr>, source))\<rparr>"
      from assms(1) Some x d req False have "client_source c' = client_source ?m \<and> tabled c' = tabled ?m"
        by (auto simp: cm_readRequest_def seq_eq_Inr_iff dest!: on_poller_source)
      then show ?thesis using Some x off req r src assms(2) sock
        by (auto simp: client_source_def TimeCache_pop_def after_read_def tabled_def fun_upd_idem_iff intro: tables_apart_upd)
    qed
  qed
qed

lemma cm_readData_source:
  assumes "cm_readData po co e s c = Inr (result, c')" "tabled c"
  shows "client_source c' = after_read result s (client_source c) \<and> tabled c'
    \<and> (\<forall>name d source. result = Some (name, d, source) \<longrightarrow> client_source c s = Some source \<and> (\<exists>st st'. co_readData co e st = Inr (d, st')))"
proof (cases "cm_bysock c s")
  case None
  with assms show ?thesis by (auto simp: cm_readData_def after_read_def)
next
  case (Some x)
  obtain client source where x: "x = (client, source)" by (cases x)
  have src: "client_source c s = Some source" using Some x by (simp add: client_source_at)
  obtain d st where d: "co_readData co e (cn_state client) = Inr (d, st)" and r: "result = Some (cn_name client, d, source)"
    using assms(1) Some x by (auto simp: cm_readData_def seq_eq_Inr_iff Let_def)
  let ?m = "active_changed s (client\<lparr>cn_state := st\<rparr>, source) c"
  note m = client_source_active [OF Some [unfolded x], of st] 
  show ?thesis
  proof (cases "cr_request d")
    case None
    then have "cm_cleanup po s (cn_name client) ?m = Inr c'"
      using assms(1) Some x d by (auto simp: cm_readData_def seq_eq_Inr_iff)
    from cm_cleanup_source [OF this] show ?thesis using None r src assms(2) m d by (auto simp: after_read_def)
  next
    case req: (Some request)
    with assms(1) Some x d have "client_source c' = client_source ?m \<and> tabled c' = tabled ?m"
      by (auto simp: cm_readData_def seq_eq_Inr_iff Let_def split: if_splits dest!: on_poller_source)
    then show ?thesis using req r src assms(2) m d by (auto simp: after_read_def)
  qed
qed


lemma cm_sendData_source:
  assumes "cm_sendData po co e s data c = Inr ((status, change, name, source), c')" "tabled c"
  shows "client_source c' = (if status = None \<and> name \<noteq> None then (client_source c)(s := None) else client_source c) \<and> tabled c'
    \<and> (name = None \<longrightarrow> source = None \<and> status = None) \<and> (name \<noteq> None \<longrightarrow> source = client_source c s \<and> source \<noteq> None)
    \<and> (cm_contains s c \<longrightarrow> name \<noteq> None)"
proof (cases "cm_bysock c s")
  case None
  with assms show ?thesis by (auto simp: cm_sendData_def cm_contains_def)
next
  case (Some x)
  obtain client src where x: "x = (client, src)" by (cases x)
  have src: "client_source c s = Some src" using Some x by (simp add: client_source_at)
  obtain res st where w: "co_writeData co e data (cn_state client) = Inr (res, st)"
    using assms(1) Some x by (auto simp: cm_sendData_def seq_eq_Inr_iff)
  let ?m = "active_changed s (client\<lparr>cn_state := st\<rparr>, src) c"
  note m = client_source_active [OF Some [unfolded x], of st]
  show ?thesis
  proof (cases res)
    case None
    then have "cm_cleanup po s (cn_name client) ?m = Inr c'" "status = None" "name = Some (cn_name client)" "source = Some src"
      using assms(1) Some x w by (auto simp: cm_sendData_def seq_eq_Inr_iff)
    with cm_cleanup_source [OF this(1)] src assms(2) m show ?thesis by simp
  next
    case (Some q)
    obtain buffered had_buffer sent4 sent6 where q: "q = (buffered, had_buffer, sent4, sent6)" by (cases q)
    have r: "status = Some buffered" "name = Some (cn_name client)" "source = Some src"
      and c': "client_source c' = client_source ?m \<and> tabled c' = tabled ?m"
      using assms(1) \<open>cm_bysock c s = Some x\<close> x w Some q
      by (auto simp: cm_sendData_def seq_eq_Inr_iff Let_def split: if_splits dest!: on_poller_source)
    with src assms(2) m show ?thesis by simp
  qed
qed

text \<open>
  \<open>startData\<close> closes the connection when it returns no content, unless what it is given is no pair: then the
  connection stays. This takes a connection that, when it has no request to give, gives some content.
\<close>

lemma cm_startData_source:
  assumes "cm_startData po co e s data remaining c = Inr ((content, source), c')" "tabled c"
    and "\<And>e mode n st d st'. co_readRelated co e mode n st = Inr (d, st') \<Longrightarrow> cr_request d = Some [] \<Longrightarrow> cr_content d \<noteq> None"
    and "\<exists>command d. data = Some (Some command, d)"
  shows "client_source c' = (if content = None then (client_source c)(s := None) else client_source c) \<or> cm_bysock c s = None \<and> c' = c \<and> source = None"
    and "tabled c' \<and> (cm_bysock c s \<noteq> None \<longrightarrow> source = client_source c s \<and> source \<noteq> None)"
proof -
  obtain command d where data: "data = Some (Some command, d)" using assms(4) by blast
  have "(client_source c' = (if content = None then (client_source c)(s := None) else client_source c) \<or> cm_bysock c s = None \<and> c' = c \<and> source = None)
    \<and> tabled c' \<and> (cm_bysock c s \<noteq> None \<longrightarrow> source = client_source c s \<and> source \<noteq> None)"
  proof (cases "cm_bysock c s")
    case None
    with assms(1,2) data show ?thesis by (auto simp: cm_startData_def)
  next
    case (Some x)
    obtain client src where x: "x = (client, src)" by (cases x)
    have src: "client_source c s = Some src" using Some x by (simp add: client_source_at)
    have sock: "cn_sock client = s" using assms(2) Some x by (auto simp: tabled_def dest: tables_apartD)
    obtain mode n where mode: "cm_parseRemaining remaining = (mode, n)" by fastforce
    obtain res st1 where w: "co_startData co e command d (cn_state client) = Inr (res, st1)"
      using assms(1) Some x data mode by (auto simp: cm_startData_def seq_eq_Inr_iff)
    show ?thesis
    proof (cases res)
      case None
      then have "cm_cleanup po s (cn_name client) c = Inr c'" "content = None" "source = Some src"
        using assms(1) Some x data mode w sock by (auto simp: cm_startData_def seq_eq_Inr_iff)
      with cm_cleanup_source [OF this(1)] src assms(2) show ?thesis by simp
    next
      case q: (Some q)
      obtain buffered had_buffer sent4 sent6 where q': "q = (buffered, had_buffer, sent4, sent6)" by (cases q)
      obtain r st2 where rr: "co_readRelated co e mode n st1 = Inr (r, st2)"
        using assms(1) Some x data mode w q q' by (auto simp: cm_startData_def seq_eq_Inr_iff)
      let ?m = "active_changed s (client\<lparr>cn_state := st2\<rparr>, src) c"
      obtain m1 where m1: "on_poller (po_uncorkRead po read_client s) ?m = Inr m1"
        using assms(1) Some x data mode w q q' rr sock by (auto simp: cm_startData_def seq_eq_Inr_iff)
      have m1': "client_source m1 = client_source c" "tabled m1"
        using on_poller_source [OF m1] client_source_active [OF Some [unfolded x], of st2] assms(2) by auto
      let ?m2 = "m1\<lparr>cm_total_sent4 := cm_total_sent4 m1 + int sent4, cm_total_sent6 := cm_total_sent6 m1 + int sent6\<rparr>"
      have source: "source = Some src"
        using assms(1) Some x data mode w q q' rr m1 sock
        by (auto simp: cm_startData_def seq_eq_Inr_iff Let_def split: option.splits if_splits)
      show ?thesis
      proof (cases "cr_request r = Some []")
        case True
        then have "start_buffered po s buffered had_buffer ?m2 = Inr c'" "content = cr_content r"
          using assms(1) Some x data mode w q q' rr m1 sock by (auto simp: cm_startData_def seq_eq_Inr_iff Let_def)
        moreover have "content \<noteq> None" using assms(3) [OF rr True] calculation(2) by simp
        ultimately show ?thesis using m1' src source
          by (auto simp: start_buffered_def split: if_splits dest!: on_poller_source)
      next
        case False
        then obtain m where "cm_cleanup po s (cn_name client) m = Inr c'" "client_source m = client_source c" "tabled m" "content = None"
          using assms(1) Some x data mode w q q' rr m1 sock m1'
          by (cases "cr_request r") (auto simp: cm_startData_def seq_eq_Inr_iff Let_def)
        with cm_cleanup_source [OF this(1)] src source show ?thesis by simp
      qed
    qed
  qed
  then show "client_source c' = (if content = None then (client_source c)(s := None) else client_source c) \<or> cm_bysock c s = None \<and> c' = c \<and> source = None"
    "tabled c' \<and> (cm_bysock c s \<noteq> None \<longrightarrow> source = client_source c s \<and> source \<noteq> None)" by blast+
qed


section \<open>The account\<close>

text \<open>Every client has a source of \<open>S\<close>, whose server has counted as many connections as there are such clients.\<close>

definition account :: "string set \<Rightarrow> (string \<Rightarrow> int) \<Rightarrow> (sock \<rightharpoonup> string) \<Rightarrow> bool" where
  "account S k t \<longleftrightarrow> finite (dom t) \<and> ran t \<subseteq> S \<and> (\<forall>source \<in> S. k source = int (card {s. t s = Some source}))"

lemma account_finite: "account S k t \<Longrightarrow> finite {s. t s = Some source}"
  unfolding account_def by (rule finite_subset [of _ "dom t"]) auto

lemma account_add:
  assumes "account S k t" "t s = None" "source \<in> S"
  shows "account S (k(source := k source + 1)) (t(s \<mapsto> source))"
proof -
  have "{x. (t(s \<mapsto> source)) x = Some src} = (if src = source then insert s {x. t x = Some src} else {x. t x = Some src})" for src
    using assms(2) by auto
  moreover have "ran (t(s \<mapsto> source)) \<subseteq> S" using assms by (auto simp: account_def ran_def split: if_splits)
  ultimately show ?thesis using assms account_finite [OF assms(1)] by (auto simp: account_def)
qed

lemma account_drop:
  assumes "account S k t" "t s = Some source"
  shows "account S (k(source := k source - 1)) (t(s := None))"
proof -
  have e: "{x. (t(s := None)) x = Some src} = (if src = source then {x. t x = Some src} - {s} else {x. t x = Some src})" for src
    using assms(2) by auto
  have "ran (t(s := None)) \<subseteq> S" using assms(1) by (auto simp: account_def ran_def)
  moreover have "source \<in> S" using assms by (auto simp: account_def ran_def)
  moreover have "int (card ({x. t x = Some source} - {s})) = int (card {x. t x = Some source}) - 1"
  proof -
    have "0 < card {x. t x = Some source}" using account_finite [OF assms(1), of source] assms(2) by (auto simp: card_gt_0_iff)
    then show ?thesis using assms(2) by (subst card_Diff_singleton) auto
  qed
  ultimately show ?thesis using assms(1) unfolding account_def e by auto
qed

definition counts :: "('c, 'm, 'p) reactor \<Rightarrow> string \<Rightarrow> int" where
  "counts r source = sv_client_count (rx_server r source)"

definition counted :: "string set \<Rightarrow> ('c, 'm, 'p) reactor \<Rightarrow> bool" where
  "counted S r \<longleftrightarrow> tabled (rx_client r) \<and> account S (counts r) (client_source (rx_client r))"

text \<open>What does not concern the account.\<close>

definition same_account :: "('c, 'm, 'p) reactor \<Rightarrow> ('c, 'm, 'p) reactor \<Rightarrow> bool" where
  "same_account r r' \<longleftrightarrow> counts r' = counts r \<and> client_source (rx_client r') = client_source (rx_client r)
     \<and> tabled (rx_client r') = tabled (rx_client r) \<and> dom (cm_bysock (rx_client r')) = dom (cm_bysock (rx_client r))"

lemma same_account_refl [simp]: "same_account r r"
  by (simp add: same_account_def)

lemma same_account_trans: "same_account r r1 \<Longrightarrow> same_account r1 r2 \<Longrightarrow> same_account r r2"
  by (simp add: same_account_def)

lemma same_account_counted: "same_account r r' \<Longrightarrow> counted S r' = counted S r"
  by (simp add: same_account_def counted_def)

lemma same_account_upd [simp]:
  "same_account r (r\<lparr>rx_content := c, rx_poller := p\<rparr>)" "same_account r (r\<lparr>rx_resolver := m, rx_poller := p\<rparr>)"
  "same_account r (r\<lparr>rx_resolver := m\<rparr>)" "same_account r (r\<lparr>rx_nb_events := n\<rparr>)" "same_account r (r\<lparr>rx_nb_loops := n\<rparr>)"
  "same_account r (sendRequest q r)" "same_account r (new_request x r)"
  by (auto simp: same_account_def counts_def [abs_def] sendRequest_def new_request_def split: prod.splits option.splits list.splits)

lemma on_content_same: "on_content f r = Inr (x, r') \<Longrightarrow> same_account r r'"
  by (auto simp: on_content_def seq_eq_Inr_iff)

lemma on_resolver_same: "on_resolver f r = Inr (x, r') \<Longrightarrow> same_account r r'"
  by (auto simp: on_resolver_def seq_eq_Inr_iff)

lemma end_download_same: "end_download xc client r = Inr r' \<Longrightarrow> same_account r r'"
  by (auto simp: end_download_def seq_eq_Inr_iff dest: on_content_same)

lemma adjust_download_same: "adjust_download xc client status change r = Inr r' \<Longrightarrow> same_account r r'"
  by (auto simp: adjust_download_def seq_eq_Inr_iff split: if_splits dest: on_content_same)

lemma cork_source:
  assumes "cm_corkUpload po s c = Inr c' \<or> cm_uncorkUpload po s c = Inr c'"
  shows "client_source c' = client_source c \<and> tabled c' = tabled c \<and> cm_bysock c' = cm_bysock c"
  using assms by (auto simp: cm_corkUpload_def cm_uncorkUpload_def split: if_splits dest!: on_poller_Inr)

lemma adjust_upload_same:
  assumes "adjust_upload xc client status change r = Inr r'"
  shows "same_account r r'"
proof (cases "change = Some True")
  case True
  then obtain c where c: "(if status = Some True then cm_corkUpload (xc_poller xc) client else cm_uncorkUpload (xc_poller xc) client)
      ((rx_client r)\<lparr>cm_poller := rx_poller r\<rparr>) = Inr c" and r': "r' = r\<lparr>rx_client := c, rx_poller := cm_poller c\<rparr>"
    using assms by (auto simp: adjust_upload_def on_client_def silent_def seq_eq_Inr_iff)
  have "client_source c = client_source (rx_client r) \<and> tabled c = tabled (rx_client r) \<and> cm_bysock c = cm_bysock (rx_client r)"
    using cork_source [of "xc_poller xc" client "(rx_client r)\<lparr>cm_poller := rx_poller r\<rparr>" c] c by (simp split: if_splits)
  with r' show ?thesis by (simp add: same_account_def counts_def [abs_def])
qed (use assms in \<open>simp add: adjust_upload_def\<close>)

text \<open>A server counts.\<close>

lemma on_listening_count: "on_listening f sv = Inr sv' \<Longrightarrow> sv_client_count sv' = sv_client_count sv"
  by (auto simp: on_listening_def seq_eq_Inr_iff)

lemma notifyClose_count: "Server_notifyClose add n sv = Inr sv' \<Longrightarrow> sv_client_count sv' = sv_client_count sv - n"
  by (auto simp: Server_notifyClose_def Let_def split: if_splits dest!: on_listening_count)

lemma accept_count: "Server_accept remove got sv = Inr sv' \<Longrightarrow> sv_client_count sv' = sv_client_count sv + (if got then 1 else 0)"
  by (auto simp: Server_accept_def Let_def split: if_splits dest!: on_listening_count)

lemma on_server_count:
  assumes "on_server source f r = Inr r'" "\<And>sv sv'. f sv = Inr sv' \<Longrightarrow> sv_client_count sv' = sv_client_count sv + k"
  shows "counts r' = (counts r)(source := counts r source + k) \<and> rx_client r' = rx_client r"
  using assms by (fastforce simp: on_server_def seq_eq_Inr_iff counts_def fun_eq_iff)

lemma closeClient_count:
  assumes "closeClient xc (Some source) r = Inr r'" "source \<in> sources"
  shows "counts r' = (counts r)(source := counts r source - 1) \<and> rx_client r' = rx_client r"
  using assms on_server_count [of source "Server_notifyClose (po_addRead (xc_poller xc)) 1" r r' "-1"]
  by (auto simp: closeClient_def dest: notifyClose_count)

lemma count_disconnect_count:
  assumes "count_disconnect xc (Some source) r = Inr r'"
  shows "rx_client r' = rx_client r
    \<and> counts r' = (if source \<in> {''proxy'', ''tls'', ''passthrough''} then (counts r)(source := counts r source - 1) else counts r)"
  using assms on_server_count [of source "Server_notifyClose (po_addRead (xc_poller xc)) 1" r r' "-1"]
  by (auto simp: count_disconnect_def dest: notifyClose_count split: if_splits)

text \<open>A client that is gone and counted out.\<close>

lemma counted_drop:
  assumes "counted S r" "client_source (rx_client r) s = Some source"
    and "client_source (rx_client r') = (client_source (rx_client r))(s := None)" "tabled (rx_client r')"
    and "counts r' = (counts r)(source := counts r source - 1)"
  shows "counted S r'"
  using assms account_drop by (auto simp: counted_def)

lemma counted_source: "counted S r \<Longrightarrow> client_source (rx_client r) s = Some source \<Longrightarrow> source \<in> S"
  by (auto simp: counted_def account_def ran_def)


section \<open>Decisions that are enacted\<close>

text \<open>The decisions that \<open>getContent\<close> knows, with as many arguments as it takes.\<close>

definition plain_commands :: "string set" where
  "plain_commands = {''redirect'', ''http'', ''monitor'', ''close''}"

definition command_arity :: "(string \<times> nat) set" where
  "command_arity = {(''download'', 5), (''connect'', 3), (''intercept'', 3), (''icap'', 2), (''file'', 2), (''rewrite'', 7)}"

lemma command_arity_cases:
  assumes "(command, n) \<in> command_arity"
  obtains "command = ''download''" "n = 5" | "command = ''connect''" "n = 3" | "command = ''intercept''" "n = 3"
    | "command = ''icap''" "n = 2" | "command = ''file''" "n = 2" | "command = ''rewrite''" "n = 7"
  using assms unfolding command_arity_def by (elim insertE emptyE) simp_all

definition decision_ok :: "string \<Rightarrow> 'm decision \<Rightarrow> bool" where
  "decision_ok command decision \<longleftrightarrow> command \<in> plain_commands \<or> (\<exists>n. (command, n) \<in> command_arity \<and> unpack n decision \<noteq> None)"

definition is_pair :: "content \<Rightarrow> bool" where
  "is_pair content \<longleftrightarrow> (\<exists>c d. content = Some (Some c, d))"

lemma is_pair_simps [simp]: "is_pair (Some (Some c, d))" "is_pair (close_with s)" "is_pair (stream_with s)" "is_pair (missing_file ce reason)"
  by (simp_all add: is_pair_def close_with_def stream_with_def missing_file_def)

lemma getLocalContent_pair: "getLocalContent cf ce code name m = Inr (content, m') \<Longrightarrow> is_pair content"
  by (auto simp: getLocalContent_def Let_def seq_eq_Inr_iff split: if_splits)

lemma readLocalContent_pair: "readLocalContent cf ce code name m = Inr content \<Longrightarrow> is_pair content"
  by (auto simp: readLocalContent_def Let_def seq_eq_Inr_iff split: if_splits option.splits)

lemma plan_local_file_pair: "plan_local_file cf ce code name m = Inr (plan, m') \<Longrightarrow> is_pair (pl_content plan)"
  by (auto simp: plan_local_file_def local_plan_def seq_eq_Inr_iff dest: getLocalContent_pair)

lemma plan_download_pair:
  assumes "plan_download po cf ce client args m = Inr (plan, m')"
  shows "is_pair (pl_content plan)"
  using assms unfolding plan_download_def
  by (fastforce simp: seq_eq_Inr_iff Let_def simp del: not_None_eq split: option.splits dest: plan_local_file_pair)

lemma plan_connect_pair:
  assumes "plan_connect po cf ce client command args m = Inr (plan, m')"
  shows "is_pair (pl_content plan)"
  using assms unfolding plan_connect_def local_plan_def
  by (fastforce simp: seq_eq_Inr_iff Let_def simp del: not_None_eq split: option.splits if_splits dest: plan_local_file_pair)

lemma plan_content_pair:
  assumes "plan_content po cf ce client (Some command) decision m = Inr (plan, m')" "decision_ok command decision"
  shows "is_pair (pl_content plan)"
proof (cases "command \<in> plain_commands")
  case True
  then consider "command = ''redirect''" | "command = ''http''" | "command = ''monitor''" | "command = ''close''"
    unfolding plain_commands_def by blast
  then show ?thesis by cases (use assms(1) in \<open>auto simp: plan_content_def local_plan_def seq_eq_Inr_iff simp del: not_None_eq\<close>)
next
  case False
  with assms(2) obtain n xs where n': "(command, n) \<in> command_arity" and n: "unpack n decision = Some xs"
    unfolding decision_ok_def by blast
  from n' show ?thesis
  proof (cases rule: command_arity_cases)
    case 1
    with assms(1) n show ?thesis by (auto simp: plan_content_def dest: plan_download_pair)
  next
    case 2
    with assms(1) n show ?thesis by (auto simp: plan_content_def dest: plan_connect_pair)
  next
    case 3
    with assms(1) n show ?thesis by (auto simp: plan_content_def dest: plan_connect_pair)
  next
    case 4
    with assms(1) n show ?thesis by (auto simp: plan_content_def local_plan_def seq_eq_Inr_iff)
  next
    case 5
    with assms(1) n show ?thesis by (auto simp: plan_content_def dest: plan_local_file_pair)
  next
    case 6
    with assms(1) n show ?thesis by (auto simp: plan_content_def local_plan_def seq_eq_Inr_iff dest: readLocalContent_pair)
  qed
qed

lemma getContent_pair:
  assumes "getContent po cf ce client (Some command) decision m = Inr ((content, x), m')" "decision_ok command decision"
  shows "is_pair content"
proof (cases "plan_content po cf ce client (Some command) decision m")
  case (Inl e)
  with assms(1) show ?thesis by (simp add: getContent_def)
next
  case (Inr y)
  obtain plan m1 where p: "plan_content po cf ce client (Some command) decision m = Inr (plan, m1)" using Inr by (cases y) auto
  have "content = pl_content plan"
  proof (cases "pl_downloader plan")
    case None
    with assms(1) p show ?thesis by (auto simp: getContent_def seq_eq_Inr_iff split: if_splits)
  next
    case (Some o')
    with assms(1) p show ?thesis by (auto simp: getContent_def seq_eq_Inr_iff Let_def split: if_splits)
  qed
  with plan_content_pair [OF p assms(2)] show ?thesis by simp
qed

subsection \<open>The queries of the resolver\<close>

text \<open>The queries are for decisions that can be enacted, and so are the replies.\<close>

definition query_ok :: "'m query \<Rightarrow> bool" where
  "query_ok q = (case q of (_, _, _, command, decision) \<Rightarrow> decision_ok command decision)"

definition all_ok :: "('k \<rightharpoonup> 'm query) \<Rightarrow> bool" where
  "all_ok f \<longleftrightarrow> (\<forall>k q. f k = Some q \<longrightarrow> query_ok q)"

definition queries_ok :: "('m, 'p) resolver \<Rightarrow> bool" where
  "queries_ok m \<longleftrightarrow> all_ok (rm_resolving m) \<and> all_ok (rm_sending m)
     \<and> list_all (\<lambda>(client, command, decision, c). decision_ok command decision) (rm_waiting m)"

lemma query_ok_simps [simp]: "query_ok (client, original, hostname, command, decision) = decision_ok command decision"
  by (simp add: query_ok_def)

lemma all_ok_upd [simp]: "all_ok f \<Longrightarrow> query_ok x \<Longrightarrow> all_ok (f(k := Some x))" "all_ok f \<Longrightarrow> all_ok (f(k := None))"
  by (auto simp: all_ok_def)

lemma all_okD: "f k = Some q \<Longrightarrow> all_ok f \<Longrightarrow> query_ok q"
  unfolding all_ok_def by blast

definition answer_ok :: "dns_answer \<Rightarrow> bool" where
  "answer_ok a = (case a of (_, command, given) \<Rightarrow> decision_ok command (Fields given :: unit decision))"

lemma decision_ok_Fields: "decision_ok command (Fields xs :: 'm decision) = decision_ok command (Fields xs :: 'n decision)"
  by (simp add: decision_ok_def unpack_def)

lemma dns_page_ok [simp]: "answer_ok (dns_page client code comment hostname)"
  by (simp add: answer_ok_def dns_page_def decision_ok_def command_arity_def unpack_def)

lemma resolveDecision_ok:
  assumes "resolveDecision command decision ip = Inr given" "decision_ok command decision"
  shows "answer_ok (client, command, given)"
proof -
  obtain h args where "decision = Fields (h # args)" "given = ip # args"
    using assms(1) by (auto simp: resolveDecision_def split: if_splits decision.splits list.splits)
  with assms(2) show ?thesis by (auto simp: answer_ok_def decision_ok_def unpack_def split: if_splits)
qed

lemma queries_ok_poller [simp]: "queries_ok (m\<lparr>rm_poller := p\<rparr>) = queries_ok m"
  by (simp add: queries_ok_def)

lemma queries_ok_same:
  "queries_ok m \<Longrightarrow> rm_resolving m' = rm_resolving m \<Longrightarrow> rm_sending m' = rm_sending m \<Longrightarrow> rm_waiting m' = rm_waiting m \<Longrightarrow> queries_ok m'"
  by (simp add: queries_ok_def)

lemma close_timed_out_ok [simp]: "queries_ok (close_timed_out s m) = queries_ok m"
  by (simp add: close_timed_out_def queries_ok_def)

lemma startResolving_ok:
  assumes "startResolving cf re client command decision c i m = Inr ((n, response), m')" "decision_ok command decision" "queries_ok m"
  shows "queries_ok m' \<and> pred_option answer_ok response"
proof -
  have "queries_ok m1" if "send_query cf re client h command decision c i m = Inr (k, m1)" for h k m1
    using that assms(2,3) by (auto simp: send_query_def seq_eq_Inr_iff queries_ok_def)
  then show ?thesis using assms resolveDecision_ok
    by (auto simp: startResolving_def seq_eq_Inr_iff Let_def simp del: not_None_eq split: if_splits)
qed

lemma newTCPResolver_ok:
  assumes "newTCPResolver po cf re client command decision c m = Inr (n, m')" "decision_ok command decision" "queries_ok m"
  shows "queries_ok m'"
  using assms
  by (auto simp: newTCPResolver_def seq_eq_Inr_iff Let_def queries_ok_def simp del: not_None_eq split: if_splits
      dest!: rm_on_poller_Inr)

lemma start_waiting_ok: "start_waiting po cf re n m = Inr m' \<Longrightarrow> queries_ok m \<Longrightarrow> queries_ok m'"
proof (induction n arbitrary: m)
  case (Suc n)
  show ?case
  proof (cases "rm_waiting m")
    case Nil
    with Suc show ?thesis by simp
  next
    case (Cons x rest)
    obtain client command decision c where x: "x = (client, command, decision, c)" by (cases x) auto
    from Suc.prems(1) Cons x obtain k m1 where r:
      "newTCPResolver po cf re client command decision c (m\<lparr>rm_waiting := rest\<rparr>) = Inr (k, m1)"
      "start_waiting po cf re n (m1\<lparr>rm_worker_count := rm_worker_count m1 + 1\<rparr>) = Inr m'"
      by (auto simp: seq_eq_Inr_iff)
    have "decision_ok command decision" "queries_ok (m\<lparr>rm_waiting := rest\<rparr>)" using Suc.prems(2) Cons x by (auto simp: queries_ok_def)
    from newTCPResolver_ok [OF r(1) this] have "queries_ok (m1\<lparr>rm_worker_count := rm_worker_count m1 + 1\<rparr>)" by (simp add: queries_ok_def)
    with Suc.IH [OF r(2)] show ?thesis by blast
  qed
qed simp

lemma notifyClose_ok: "resolver_notifyClose po cf re m = Inr m' \<Longrightarrow> queries_ok m \<Longrightarrow> queries_ok m'"
  using start_waiting_ok queries_ok_same [of m "m\<lparr>rm_worker_count := rm_worker_count m - 1\<rparr>"]
  by (auto simp: resolver_notifyClose_def Let_def split: if_splits)

lemma drop_worker_ok:
  assumes "drop_worker po cf re s m = Inr m'" "queries_ok m"
  shows "queries_ok m'"
proof (cases "s = rm_udp m")
  case False
  with assms(1) obtain m1 m2 where "rm_on_poller (po_removeRead po read_resolver s) m = Inr m1"
    "rm_on_poller (po_removeWrite po write_resolver s) m1 = Inr m2"
    and n: "resolver_notifyClose po cf re (m2\<lparr>rm_workers := (rm_workers m2)(s := None), rm_closed := insert s (rm_closed m2)\<rparr>) = Inr m'"
    by (auto simp: drop_worker_def seq_eq_Inr_iff)
  then have "queries_ok (m2\<lparr>rm_workers := (rm_workers m2)(s := None), rm_closed := insert s (rm_closed m2)\<rparr>)"
    using assms(2) by (auto simp: queries_ok_def dest!: rm_on_poller_Inr)
  with notifyClose_ok [OF n] show ?thesis by blast
qed (use assms in \<open>simp add: drop_worker_def\<close>)

lemma beginResolvingTCP_ok:
  assumes "beginResolvingTCP po cf re client command decision c m = Inr (n, m')" "decision_ok command decision" "queries_ok m"
  shows "queries_ok m'"
proof (cases "rm_worker_count m < int (rc_max_workers cf)")
  case True
  with assms(1) obtain m1 where "newTCPResolver po cf re client command decision c m = Inr (n, m1)"
    "m' = m1\<lparr>rm_worker_count := rm_worker_count m1 + 1\<rparr>"
    by (auto simp: beginResolvingTCP_def seq_eq_Inr_iff)
  with newTCPResolver_ok [OF this(1) assms(2,3)] show ?thesis by (simp add: queries_ok_def)
next
  case False
  with assms show ?thesis by (auto simp: beginResolvingTCP_def queries_ok_def)
qed

lemma cacheDestination_ok_queries:
  assumes "cacheDestination cf now hostname ip m = Inr m'" "queries_ok m"
  shows "queries_ok m'"
proof -
  have "rm_resolving m' = rm_resolving m \<and> rm_sending m' = rm_sending m \<and> rm_waiting m' = rm_waiting m"
    using assms(1) by (auto simp: cacheDestination_def Let_def split: if_splits)
  with assms(2) show ?thesis by (simp add: queries_ok_def)
qed

lemma answer_query_ok:
  assumes "answer_query po cf re s w_id i d (client, original, hostname, command, decision) clidata m = Inr (r, m')"
    and "decision_ok command decision" "queries_ok m"
  shows "queries_ok m' \<and> pred_option answer_ok r"
proof (cases "dn_completed d")
  case False
  with assms(1) obtain k where "beginResolvingTCP po cf re client command decision 1 m = Inr (k, m')" "r = None"
    by (auto simp: answer_query_def seq_eq_Inr_iff)
  with beginResolvingTCP_ok [OF this(1) assms(2,3)] show ?thesis by simp
next
  case True
  show ?thesis
  proof (cases "dn_newidentifier d")
    case (Some n)
    with assms True show ?thesis
      by (auto simp: answer_query_def await_answer_def seq_eq_Inr_iff Let_def queries_ok_def simp del: not_None_eq split: if_splits
          dest!: rm_on_poller_Inr)
  next
    case None
    show ?thesis
    proof (cases "dn_forhost d = Some hostname")
      case False
      with assms True None show ?thesis
        by (auto simp: answer_query_def await_answer_def seq_eq_Inr_iff queries_ok_def simp del: not_None_eq)
    next
      case host: True
      show ?thesis
      proof (cases "dn_ip d")
        case None
        with assms True \<open>dn_newidentifier d = None\<close> host
        have "m' = m" "r = Some (dns_page client ''503'' ''http'' hostname)" by (simp_all add: answer_query_def)
        with assms(3) show ?thesis by simp
      next
        case (Some ip)
        with assms(1) True None host obtain resolved where
          "resolveDecision command decision ip = Inr resolved" "cacheDestination cf (re_now re) original ip m = Inr m'"
          "r = Some (client, command, resolved)"
          by (auto simp: answer_query_def seq_eq_Inr_iff)
        with resolveDecision_ok [OF this(1) assms(2)] cacheDestination_ok_queries [OF this(2) assms(3)] show ?thesis by simp
      qed
    qed
  qed
qed

lemma resolver_getResponse_ok:
  assumes "resolver_getResponse po cf re s m = Some (Inr (r, m'))" "queries_ok m"
  shows "queries_ok m' \<and> pred_option answer_ok r"
proof (cases "rm_workers m s")
  case None
  with assms show ?thesis by (simp add: resolver_getResponse_def)
next
  case (Some worker)
  obtain result w names where g: "DNSClient_getResponse cf re (rm_chained m) (rm_names m) worker = Some (Inr (result, w, names))"
    using assms(1) Some by (auto simp: resolver_getResponse_def oseq_def split: option.splits sum.splits)
  let ?m = "m\<lparr>rm_workers := (rm_workers m)(s \<mapsto> w), rm_names := names\<rparr>"
  have m: "queries_ok ?m" using assms(2) by (simp add: queries_ok_def)
  show ?thesis
  proof (cases result)
    case None
    then have "drop_worker po cf re s ?m = Inr m'" "r = None"
      using assms(1) Some g by (auto simp: resolver_getResponse_def seq_eq_Inr_iff)
    with drop_worker_ok [OF this(1) m] show ?thesis by simp
  next
    case d: (Some d)
    obtain taken m2 where t: "take_query s (dw_id worker) d ?m = (taken, m2)" by fastforce
    have m2: "queries_ok m2" using t m
      by (auto simp: take_query_def Let_def queries_ok_def split: option.splits)
    show ?thesis
    proof (cases taken)
      case None
      then have "r = None" "m' = m2" using assms(1) Some g d t by (auto simp: resolver_getResponse_def)
      with m2 show ?thesis by simp
    next
      case q: (Some x)
      obtain client original hostname command decision clidata where x: "x = ((client, original, hostname, command, decision), clidata)"
        by (cases x) auto
      have ok: "decision_ok command decision"
        using take_query_Some [OF t [unfolded q x]] m by (auto simp: queries_ok_def dest: all_okD)
      obtain i m3 where a: "answer_query po cf re s (dw_id worker) i d (client, original, hostname, command, decision) clidata m2 = Inr (r, m3)"
        and m': "(if r \<noteq> None then drop_worker po cf re s m3 = Inr m' else m' = m3)"
        using assms(1) Some g d t q x by (auto simp: resolver_getResponse_def seq_eq_Inr_iff split: if_splits)
      from answer_query_ok [OF a ok m2] m' show ?thesis using drop_worker_ok by (auto split: if_splits)
    qed
  qed
qed

lemma resolver_continueSending_ok:
  assumes "resolver_continueSending po re s m = Inr m'" "queries_ok m"
  shows "queries_ok m'"
proof -
  obtain worker res w where w: "rm_workers m s = Some worker" "dw_tcp worker"
    "TCPClient_continueSending (re_send re) worker = Inr (res, w)"
    using assms(1) by (auto simp: resolver_continueSending_def seq_eq_Inr_iff split: if_splits)
  let ?m = "m\<lparr>rm_workers := (rm_workers m)(s \<mapsto> w)\<rparr>"
  have m: "queries_ok ?m" using assms(2) by (simp add: queries_ok_def)
  show ?thesis
  proof (cases "res = Some False")
    case False
    with assms(1) w m show ?thesis by (simp add: resolver_continueSending_def)
  next
    case True
    with assms(1) w obtain m2 where m2: "rm_on_poller (po_removeWrite po write_resolver s) ?m = Inr m2"
      and rest: "(case rm_sending m2 s of None \<Rightarrow> Inr m2 | Some q \<Rightarrow> (case rm_clients m2 (fst q) of None \<Rightarrow> Inr m2
          | Some (w_id, identifier, _, _) \<Rightarrow> rm_on_poller (po_addRead po read_resolver s)
              (m2\<lparr>rm_sending := (rm_sending m2)(s := None), rm_resolving := (rm_resolving m2)((w_id, identifier) \<mapsto> q)\<rparr>))) = Inr m'"
      by (auto simp: resolver_continueSending_def seq_eq_Inr_iff)
    have ok: "queries_ok m2" using m rm_on_poller_Inr [OF m2] by auto
    show ?thesis
    proof (cases "rm_sending m2 s")
      case None
      with rest ok show ?thesis by simp
    next
      case (Some q)
      have q: "query_ok q" using ok Some by (auto simp: queries_ok_def intro: all_okD)
      show ?thesis
      proof (cases "rm_clients m2 (fst q)")
        case None
        with rest ok Some show ?thesis by simp
      next
        case c: (Some x)
        obtain w_id i t n where x: "x = (w_id, i, t, n)" by (cases x) auto
        let ?q = "m2\<lparr>rm_sending := (rm_sending m2)(s := None), rm_resolving := (rm_resolving m2)((w_id, i) \<mapsto> q)\<rparr>"
        have "rm_on_poller (po_addRead po read_resolver s) ?q = Inr m'" using rest Some c x by simp
        moreover have "queries_ok ?q" using ok q by (simp add: queries_ok_def)
        ultimately show ?thesis using rm_on_poller_Inr by fastforce
      qed
    qed
  qed
qed

lemma cleanup_entry_ok:
  assumes "cleanup_entry cf re client s m = Inr (replies, m')" "queries_ok m"
  shows "queries_ok m' \<and> (\<forall>a \<in> set replies. answer_ok a)"
proof (cases "rm_clients m client")
  case None
  with assms show ?thesis by (auto simp: cleanup_entry_def)
next
  case (Some x)
  obtain w_id i t c where x: "x = (w_id, i, t, c)" by (cases x) auto
  obtain q m1 where e: "expired_query w_id i s (m\<lparr>rm_clients := (rm_clients m)(client := None)\<rparr>) = (q, m1)" by fastforce
  have m1: "queries_ok m1" and q_ok: "\<And>y. q = Some y \<Longrightarrow> query_ok y"
    using e assms(2) by (auto simp: expired_query_def queries_ok_def split: option.splits dest: all_okD)
  have closed: "queries_ok (close_timed_out s m1)" using m1 by simp
  show ?thesis
  proof (cases q)
    case None
    with assms(1) Some x e closed show ?thesis by (auto simp: cleanup_entry_def)
  next
    case q: (Some y)
    obtain client' original hostname command decision where y: "y = (client', original, hostname, command, decision)" by (cases y) auto
    have ok: "decision_ok command decision" using q_ok q y by (simp add: query_ok_def)
    show ?thesis
    proof (cases "c < rc_retries cf \<and> s = rm_udp m1")
      case True
      with assms(1) Some x e q y obtain r where "startResolving cf re client' command decision (c + 1) (Some i) m1 = Inr (r, m')" "replies = []"
        by (auto simp: cleanup_entry_def seq_eq_Inr_iff)
      with startResolving_ok [of cf re client' command decision "c + 1" "Some i" m1 "fst r" "snd r" m'] ok m1 show ?thesis by simp
    next
      case False
      with assms(1) Some x e q y have "m' = close_timed_out s m1" "replies = [dns_page client' ''503'' [] hostname]"
        by (auto simp: cleanup_entry_def)
      with closed show ?thesis by simp
    qed
  qed
qed

text \<open>Only the handlers of the resolver and of the redirector change what the resolver keeps.\<close>

definition keeps :: "('m, 'p) resolver \<Rightarrow> ('x \<times> ('c, 'm, 'p) reactor) res \<Rightarrow> bool" where
  "keeps m result \<longleftrightarrow> (\<forall>x r'. result = Inr (x, r') \<longrightarrow> rx_resolver r' = m)"

definition keeps1 :: "('m, 'p) resolver \<Rightarrow> ('c, 'm, 'p) reactor res \<Rightarrow> bool" where
  "keeps1 m result \<longleftrightarrow> (\<forall>r'. result = Inr r' \<longrightarrow> rx_resolver r' = m)"

lemma keeps_seq:
  "keeps m result \<Longrightarrow> (\<And>x r'. rx_resolver r' = m \<Longrightarrow> keeps1 m (f (x, r'))) \<Longrightarrow> keeps1 m (seq result f)"
  "keeps1 m result' \<Longrightarrow> (\<And>r'. rx_resolver r' = m \<Longrightarrow> keeps1 m (g r')) \<Longrightarrow> keeps1 m (seq result' g)"
  by (auto simp: keeps_def keeps1_def seq_eq_Inr_iff)

lemma keeps1_value: "keeps1 m (Inl e)" "keeps1 m (Inr r) \<longleftrightarrow> rx_resolver r = m"
  by (auto simp: keeps1_def)

lemma keeps_on:
  "rx_resolver r = m \<Longrightarrow> keeps1 m (on_server source f r)"
  "rx_resolver r = m \<Longrightarrow> keeps m (on_client g r)"
  "rx_resolver r = m \<Longrightarrow> keeps m (on_content h r)"
  by (auto simp: keeps_def keeps1_def on_server_def on_client_def on_content_def seq_eq_Inr_iff)

lemma request_resolver [simp]: "rx_resolver (sendRequest q r) = rx_resolver r" "rx_resolver (new_request x r) = rx_resolver r"
  by (auto simp: sendRequest_def new_request_def split: prod.splits option.splits list.splits)

lemmas keeps_basic = keeps_seq keeps_on keeps1_value keeps1_value(2) [THEN iffD2]

lemma keeps_small:
  "rx_resolver r = m \<Longrightarrow> keeps1 m (closeClient xc o1 r)"
  "rx_resolver r = m \<Longrightarrow> keeps1 m (count_disconnect xc o1 r)"
  "rx_resolver r = m \<Longrightarrow> keeps1 m (adjust_upload xc client status change r)"
  "rx_resolver r = m \<Longrightarrow> keeps1 m (adjust_download xc client status change r)"
  "rx_resolver r = m \<Longrightarrow> keeps1 m (end_download xc client r)"
  by (auto simp: closeClient_def count_disconnect_def adjust_upload_def adjust_download_def end_download_def split: option.split
      intro!: keeps_basic)

lemma keeps_handlers:
  "rx_resolver r = m \<Longrightarrow> keeps1 m (accept_one xc source re r)"
  "rx_resolver r = m \<Longrightarrow> keeps1 m (incomingRequest xc re s r)"
  "rx_resolver r = m \<Longrightarrow> keeps1 m (incomingClientData xc re s r)"
  "rx_resolver r = m \<Longrightarrow> keeps1 m (flushClientOutput xc re s r)"
  "rx_resolver r = m \<Longrightarrow> keeps1 m (completeWebConnection xc re s r)"
  "rx_resolver r = m \<Longrightarrow> keeps1 m (incomingWebData xc re s r)"
  "rx_resolver r = m \<Longrightarrow> keeps1 m (flushWebOutput xc re s r)"
  "rx_resolver r = m \<Longrightarrow> keeps1 m (enactDecision xc re (client, command, decision) r)"
  by (auto simp: accept_one_def incomingRequest_def incomingClientData_def flushClientOutput_def completeWebConnection_def
      incomingWebData_def flushWebOutput_def enactDecision_def Let_def split: option.split intro!: keeps_basic keeps_small)

lemma enactDecision_resolver: "enactDecision xc re (client, command, decision) r = Inr r' \<Longrightarrow> rx_resolver r' = rx_resolver r"
  using keeps_handlers(8) [OF refl] by (fastforce simp: keeps1_def)

section \<open>The states of the reactor\<close>

text \<open>The sources whose clients every handler counts out.\<close>

definition counted_sources :: "string set" where
  "counted_sources = {''proxy'', ''tls'', ''passthrough''}"

text \<open>
  What may come: a new connection has a socket of its own, the redirector sends decisions that can be
  enacted, and neither the web server nor the ICAP server accepts anyone.
\<close>

definition event_allowed :: "event_name \<Rightarrow> sock \<times> ('e, 'm) reactor_env \<Rightarrow> ('c, 'm, 'p) reactor \<Rightarrow> bool" where
  "event_allowed event i r \<longleftrightarrow> event \<notin> {''read_web'', ''read_icap''}
     \<and> (\<forall>s peer. ev_accept (snd i) = Some (s, peer) \<longrightarrow> client_source (rx_client r) s = None)
     \<and> (\<forall>command. fst (snd (ev_decision (snd i))) = Some command \<longrightarrow> decision_ok command (snd (snd (ev_decision (snd i)))))"

text \<open>The states the loop goes through, from one handling of a socket to the next.\<close>

inductive reactor_reachable :: "('e, 'c, 'p) reactor_conf \<Rightarrow> ('c, 'm, 'p) reactor \<Rightarrow> ('c, 'm, 'p) reactor \<Rightarrow> bool" for xc r0 where
  start: "reactor_reachable xc r0 r0"
| handled: "reactor_reachable xc r0 r \<Longrightarrow> event_allowed event (s, re) r \<Longrightarrow> handle_one xc event (s, re) r = Some (Inr r')
    \<Longrightarrow> reactor_reachable xc r0 r'"
| timed_out: "reactor_reachable xc r0 r \<Longrightarrow> timeoutResolver xc re r = Some (Inr r') \<Longrightarrow> reactor_reachable xc r0 r'"
| forgotten: "reactor_reachable xc r0 r \<Longrightarrow> reactor_reachable xc r0 (r\<lparr>rx_resolver := expireCache now (rx_resolver r)\<rparr>)"
| tallied: "reactor_reachable xc r0 r \<Longrightarrow> reactor_reachable xc r0 (r\<lparr>rx_nb_events := n, rx_nb_loops := k\<rparr>)"

section \<open>The handlers keep the account\<close>

locale counted_reactor = closing_connection "xc_client xc" for xc :: "('e, 'c, 'p) reactor_conf"
begin

lemma read_closes: "co_readData (xc_client xc) e st = Inr (d, st') \<Longrightarrow> (cr_request d = None) = (cr_content d = None)"
  using read_law by (auto simp: agree_def)

lemma related_content: "co_readRelated (xc_client xc) e mode n st = Inr (d, st') \<Longrightarrow> cr_request d = Some [] \<Longrightarrow> cr_content d \<noteq> None"
  using related_law by (fastforce simp: agree_def)

lemma on_client_counted:
  assumes "on_client f r = Inr (x, r')" "counted S r"
  obtains c where "f ((rx_client r)\<lparr>cm_poller := rx_poller r\<rparr>) = Inr (x, c)" "rx_client r' = c" "counts r' = counts r"
    "tabled ((rx_client r)\<lparr>cm_poller := rx_poller r\<rparr>)" "client_source ((rx_client r)\<lparr>cm_poller := rx_poller r\<rparr>) = client_source (rx_client r)"
  using assms by (auto simp: on_client_def seq_eq_Inr_iff counts_def [abs_def] counted_def)

lemma incomingRequest_counted:
  assumes "incomingRequest xc re s r = Inr r'" "counted S r" "S \<subseteq> sources"
  shows "counted S r'"
proof -
  obtain read r1 where r1: "on_client (cm_readRequest (xc_poller xc) (xc_client xc) (ev_client re 0) s) r = Inr (read, r1)"
    and r': "(case read of None \<Rightarrow> Inr r1 | Some (name, d, source) \<Rightarrow>
       if cr_request d = None then closeClient xc (Some source) r1 else Inr (new_request (name, d, source) r1)) = Inr r'"
    using assms(1) by (auto simp: incomingRequest_def seq_eq_Inr_iff)
  from r1 assms(2) obtain c where c: "cm_readRequest (xc_poller xc) (xc_client xc) (ev_client re 0) s ((rx_client r)\<lparr>cm_poller := rx_poller r\<rparr>) = Inr (read, c)"
    "rx_client r1 = c" "counts r1 = counts r" "tabled ((rx_client r)\<lparr>cm_poller := rx_poller r\<rparr>)"
    by (rule on_client_counted)
  note src = cm_readRequest_source [OF c(1,4)]
  show ?thesis
  proof (cases read)
    case None
    then show ?thesis using src c r' assms(2) by (simp add: counted_def after_read_def)
  next
    case (Some x)
    obtain name d source where x: "x = (name, d, source)" by (cases x)
    have at: "client_source (rx_client r) s = Some source" using src Some x by simp
    show ?thesis
    proof (cases "cr_request d")
      case None
      then have "counts r' = (counts r1)(source := counts r1 source - 1) \<and> rx_client r' = rx_client r1"
        using r' Some x closeClient_count [of xc source r1 r'] counted_source [OF assms(2) at] assms(3) by auto
      then show ?thesis using counted_drop [OF assms(2) at, of r'] src c Some x None by (simp add: after_read_def)
    next
      case (Some request)
      then have "same_account r1 r'" using r' \<open>read = Some x\<close> x by auto
      then show ?thesis using same_account_counted [of r1 r' S] src c \<open>read = Some x\<close> x Some assms(2)
        by (simp add: counted_def after_read_def)
    qed
  qed
qed

lemma incomingClientData_counted:
  assumes "incomingClientData xc re s r = Inr r'" "counted S r" "S \<subseteq> sources"
  shows "counted S r'"
proof -
  obtain read r1 where r1: "on_client (cm_readData (xc_poller xc) (xc_client xc) (ev_client re 0) s) r = Inr (read, r1)"
    and r': "(case read of None \<Rightarrow> Inr r1 | Some (name, d, source) \<Rightarrow>
         let r2 = new_request (name, d, source) r1 in
         (case cr_content d of
            None \<Rightarrow> seq (end_download xc s r2) (closeClient xc (Some source))
          | Some data \<Rightarrow>
              if data = [] then Inr r2
              else
                seq (on_content (ct_sendClientData (xc_poller xc) (ev_content re 0) s data) r2) (\<lambda>((status, change), r3).
                adjust_upload xc s status change r3))) = Inr r'"
    using assms(1) by (auto simp: incomingClientData_def seq_eq_Inr_iff)
  from r1 assms(2) obtain c where c: "cm_readData (xc_poller xc) (xc_client xc) (ev_client re 0) s ((rx_client r)\<lparr>cm_poller := rx_poller r\<rparr>) = Inr (read, c)"
    "rx_client r1 = c" "counts r1 = counts r" "tabled ((rx_client r)\<lparr>cm_poller := rx_poller r\<rparr>)"
    by (rule on_client_counted)
  note src = cm_readData_source [OF c(1,4)]
  show ?thesis
  proof (cases read)
    case None
    then show ?thesis using src c r' assms(2) by (simp add: counted_def after_read_def)
  next
    case (Some x)
    obtain name d source where x: "x = (name, d, source)" by (cases x)
    have at: "client_source (rx_client r) s = Some source" and law: "(cr_request d = None) = (cr_content d = None)"
      using src Some x read_closes by auto
    let ?r2 = "new_request x r1"
    have same: "counts ?r2 = counts r1" "client_source (rx_client ?r2) = client_source (rx_client r1)" "tabled (rx_client ?r2) = tabled (rx_client r1)"
      using same_account_upd(7) [of r1 x] by (simp_all add: same_account_def)
    show ?thesis
    proof (cases "cr_content d")
      case None
      then obtain r3 where r3: "end_download xc s ?r2 = Inr r3" "closeClient xc (Some source) r3 = Inr r'"
        using r' Some x by (auto simp: seq_eq_Inr_iff)
      have "counts r' = (counts r3)(source := counts r3 source - 1) \<and> rx_client r' = rx_client r3"
        using closeClient_count [OF r3(2)] counted_source [OF assms(2) at] assms(3) by auto
      moreover have "same_account ?r2 r3" using end_download_same [OF r3(1)] .
      ultimately show ?thesis using counted_drop [OF assms(2) at, of r'] src c Some x None law same
        by (simp add: after_read_def same_account_def)
    next
      case data: (Some data)
      then have "same_account ?r2 r'" using r' Some x
        by (auto simp: seq_eq_Inr_iff Let_def split: if_splits dest!: on_content_same adjust_upload_same intro: same_account_trans)
      then show ?thesis using same_account_counted [of ?r2 r' S] same src c Some x data law assms(2)
        by (simp add: counted_def after_read_def)
    qed
  qed
qed


text \<open>Data for a client: it is dropped, or stays.\<close>

lemma sendData_counted:
  assumes "on_client (cm_sendData (xc_poller xc) (xc_client xc) e s data) r = Inr ((status, change, name, source), r')" "counted S r"
  shows "counts r' = counts r \<and> tabled (rx_client r')
    \<and> (if status = None \<and> name \<noteq> None
       then client_source (rx_client r') = (client_source (rx_client r))(s := None) \<and> client_source (rx_client r) s = source \<and> source \<noteq> None
       else counted S r')
    \<and> (name = None \<longrightarrow> source = None) \<and> (cm_contains s (rx_client r) \<longrightarrow> name \<noteq> None)"
proof -
  from assms obtain c where c: "cm_sendData (xc_poller xc) (xc_client xc) e s data ((rx_client r)\<lparr>cm_poller := rx_poller r\<rparr>)
      = Inr ((status, change, name, source), c)" "rx_client r' = c" "counts r' = counts r"
    "tabled ((rx_client r)\<lparr>cm_poller := rx_poller r\<rparr>)"
    by (rule on_client_counted)
  from cm_sendData_source [OF c(1,4)] c assms(2) show ?thesis
    by (auto simp: counted_def cm_contains_def)
qed

lemma drop_counted:
  assumes "counted S r" "S \<subseteq> sources" "client_source (rx_client r) s = source" "source \<noteq> None"
    and "client_source (rx_client r1) = (client_source (rx_client r))(s := None)" "tabled (rx_client r1)" "counts r1 = counts r"
    and "same_account r1 r2" "closeClient xc source r2 = Inr r3"
  shows "counted S r3"
proof -
  obtain src where src: "source = Some src" using assms(4) by blast
  have "counts r3 = (counts r2)(src := counts r2 src - 1) \<and> rx_client r3 = rx_client r2"
    using closeClient_count assms(9) counted_source [OF assms(1) assms(3) [unfolded src]] assms(2) src by blast
  then show ?thesis using counted_drop [OF assms(1) assms(3) [unfolded src], of r3] assms(5-8) by (simp add: same_account_def)
qed

lemma flushClientOutput_counted:
  assumes "flushClientOutput xc re s r = Inr r'" "counted S r" "S \<subseteq> sources"
  shows "counted S r'"
proof -
  obtain status change name source r1 r2 where
    r1: "on_client (cm_sendData (xc_poller xc) (xc_client xc) (ev_client re 0) s (Some [])) r = Inr ((status, change, name, source), r1)"
    and r2: "(if status = None \<and> name \<noteq> None then seq (end_download xc s r1) (closeClient xc source) else Inr r1) = Inr r2"
    and r': "adjust_download xc s status change r2 = Inr r'"
    using assms(1) by (auto simp: flushClientOutput_def seq_eq_Inr_iff)
  note sent = sendData_counted [OF r1 assms(2)]
  have "counted S r2"
  proof (cases "status = None \<and> name \<noteq> None")
    case True
    with r2 obtain r3 where r3: "end_download xc s r1 = Inr r3" "closeClient xc source r3 = Inr r2" by (auto simp: seq_eq_Inr_iff)
    show ?thesis
      by (rule drop_counted [OF assms(2,3) _ _ _ _ _ end_download_same [OF r3(1)] r3(2)]) (use sent True in auto)
  next
    case False
    with r2 sent show ?thesis by (auto split: if_splits)
  qed
  then show ?thesis using same_account_counted [OF adjust_download_same [OF r']] by simp
qed

text \<open>The handlers of the downloads count out the clients of three servers only.\<close>

lemma count_disconnect_closeClient:
  "source \<in> Some ` {''proxy'', ''tls'', ''passthrough''} \<Longrightarrow> count_disconnect xc source r = closeClient xc source r"
  by (auto simp: count_disconnect_def closeClient_def sources_def)

lemma count_disconnect_None [simp]: "count_disconnect xc None r = Inr r"
  by (simp add: count_disconnect_def)

lemma drop_disconnect:
  assumes "counted S r" "S \<subseteq> {''proxy'', ''tls'', ''passthrough''}" "client_source (rx_client r) s = source" "source \<noteq> None"
    and "client_source (rx_client r1) = (client_source (rx_client r))(s := None)" "tabled (rx_client r1)" "counts r1 = counts r"
    and "count_disconnect xc source r1 = Inr r2"
  shows "counted S r2"
proof -
  have "source \<in> Some ` {''proxy'', ''tls'', ''passthrough''}" using assms(2-4) counted_source [OF assms(1)] by blast
  from count_disconnect_closeClient [OF this] assms(8) have "closeClient xc source r1 = Inr r2" by metis
  moreover have "S \<subseteq> sources" using assms(2) by (auto simp: sources_def)
  ultimately show ?thesis using drop_counted [OF assms(1) _ assms(3-7) same_account_refl] by blast
qed

lemma incomingWebData_counted:
  assumes "incomingWebData xc re s r = Inr r'" "counted S r" "S \<subseteq> {''proxy'', ''tls'', ''passthrough''}"
  shows "counted S r'"
proof -
  obtain client page_data r1 where r1: "on_content (ct_readData (xc_poller xc) (ev_content re 0) s) r = Inr ((client, page_data), r1)"
    and rest: "(case client of None \<Rightarrow> Inr r1 | Some client \<Rightarrow>
         seq (on_client (cm_sendData (xc_poller xc) (xc_client xc) (ev_client re 0) client page_data) r1) (\<lambda>((status, change, name, source), r2).
         if status = None then seq (count_disconnect xc source r2) (\<lambda>r3. if page_data \<noteq> None then end_download xc client r3 else Inr r3)
         else if status = Some True then adjust_download xc client status change r2 else Inr r2)) = Inr r'"
    using assms(1) by (auto simp: incomingWebData_def seq_eq_Inr_iff)
  have k1: "counted S r1" using same_account_counted [OF on_content_same [OF r1]] assms(2) by simp
  show ?thesis
  proof (cases client)
    case None
    with rest k1 show ?thesis by simp
  next
    case (Some c)
    with rest obtain status change name source r2 where
      r2: "on_client (cm_sendData (xc_poller xc) (xc_client xc) (ev_client re 0) c page_data) r1 = Inr ((status, change, name, source), r2)"
      and r': "(if status = None then seq (count_disconnect xc source r2) (\<lambda>r3. if page_data \<noteq> None then end_download xc c r3 else Inr r3)
         else if status = Some True then adjust_download xc c status change r2 else Inr r2) = Inr r'"
      by (auto simp: seq_eq_Inr_iff)
    note sent = sendData_counted [OF r2 k1]
    show ?thesis
    proof (cases "status = None")
      case True
      with r' obtain r3 where r3: "count_disconnect xc source r2 = Inr r3" and "page_data \<noteq> None \<and> end_download xc c r3 = Inr r' \<or> r' = r3"
        by (auto simp: seq_eq_Inr_iff split: if_splits)
      then have same: "same_account r3 r'" using end_download_same by auto
      have "counted S r3"
      proof (cases "name = None")
        case True
        with sent r3 \<open>status = None\<close> show ?thesis by (auto split: if_splits)
      next
        case False
        with True sent show ?thesis using drop_disconnect [OF k1 assms(3) _ _ _ _ _ r3] by auto
      qed
      with same_account_counted [OF same] show ?thesis by simp
    next
      case False
      then have "counted S r2" "same_account r2 r'" using sent r' by (auto split: if_splits dest: adjust_download_same)
      then show ?thesis using same_account_counted by blast
    qed
  qed
qed


lemma completeWebConnection_counted:
  assumes "completeWebConnection xc re s r = Inr r'" "counted S r" "S \<subseteq> {''proxy'', ''tls'', ''passthrough''}"
  shows "counted S r'"
proof -
  obtain client response change r1 where
    r1: "on_content (ct_startDownload (xc_poller xc) (xc_content xc) (ev_content re 0) s) r = Inr ((client, response, change), r1)"
    and rest: "(case client of None \<Rightarrow> Inr r1 | Some client \<Rightarrow>
         seq (adjust_upload xc client (Some False) change r1) (\<lambda>r2.
         if cm_contains client (rx_client r2) \<and> response \<noteq> None \<and> response \<noteq> Some [] then
           seq (on_client (cm_sendData (xc_poller xc) (xc_client xc) (ev_client re 0) client response) r2) (\<lambda>((status, change, name, source), r3).
           if status = None then seq (count_disconnect xc source r3) (end_download xc client)
           else adjust_download xc client status change r3)
         else Inr r2)) = Inr r'"
    using assms(1) by (auto simp: completeWebConnection_def seq_eq_Inr_iff)
  have k1: "counted S r1" using same_account_counted [OF on_content_same [OF r1]] assms(2) by simp
  show ?thesis
  proof (cases client)
    case None
    with rest k1 show ?thesis by simp
  next
    case (Some c)
    with rest obtain r2 where r2: "adjust_upload xc c (Some False) change r1 = Inr r2"
      and rest2: "(if cm_contains c (rx_client r2) \<and> response \<noteq> None \<and> response \<noteq> Some [] then
           seq (on_client (cm_sendData (xc_poller xc) (xc_client xc) (ev_client re 0) c response) r2) (\<lambda>((status, change, name, source), r3).
           if status = None then seq (count_disconnect xc source r3) (end_download xc c)
           else adjust_download xc c status change r3)
         else Inr r2) = Inr r'"
      by (auto simp: seq_eq_Inr_iff)
    have k2: "counted S r2" using same_account_counted [OF adjust_upload_same [OF r2]] k1 by simp
    show ?thesis
    proof (cases "cm_contains c (rx_client r2) \<and> response \<noteq> None \<and> response \<noteq> Some []")
      case False
      with rest2 k2 show ?thesis by (simp split: if_splits)
    next
      case True
      with rest2 obtain status change' name source r3 where
        r3: "on_client (cm_sendData (xc_poller xc) (xc_client xc) (ev_client re 0) c response) r2 = Inr ((status, change', name, source), r3)"
        and r': "(if status = None then seq (count_disconnect xc source r3) (end_download xc c) else adjust_download xc c status change' r3) = Inr r'"
        by (auto simp: seq_eq_Inr_iff)
      note sent = sendData_counted [OF r3 k2]
      show ?thesis
      proof (cases "status = None")
        case status: True
        with r' obtain r4 where r4: "count_disconnect xc source r3 = Inr r4" "end_download xc c r4 = Inr r'" by (auto simp: seq_eq_Inr_iff)
        have "counted S r4" using True status sent drop_disconnect [OF k2 assms(3) _ _ _ _ _ r4(1), of c] by auto
        with same_account_counted [OF end_download_same [OF r4(2)]] show ?thesis by simp
      next
        case False
        then have "counted S r3" "same_account r3 r'" using sent r' by (auto dest: adjust_download_same)
        then show ?thesis using same_account_counted by blast
      qed
    qed
  qed
qed

lemma flushWebOutput_counted: "flushWebOutput xc re s r = Inr r' \<Longrightarrow> counted S r' = counted S r"
  by (auto simp: flushWebOutput_def seq_eq_Inr_iff split: option.splits
      dest!: on_content_same adjust_upload_same same_account_counted [of _ _ S])

lemma flushResolver_counted: "flushResolver xc re s r = Inr r' \<Longrightarrow> counted S r' = counted S r"
  by (auto simp: flushResolver_def seq_eq_Inr_iff dest!: on_resolver_same same_account_counted [of _ _ S])

text \<open>A new connection, on a socket that is not in the tables.\<close>

lemma accept_counted:
  assumes "accept_one xc source re r = Inr r'" "counted S r" "source \<in> S"
    and "\<And>s peer. ev_accept re = Some (s, peer) \<Longrightarrow> client_source (rx_client r) s = None"
  shows "counted S r'"
proof (cases "ev_accept re")
  case None
  then have "on_server source (Server_accept (po_removeRead (xc_poller xc)) False) r = Inr r'"
    using assms(1) by (simp add: accept_one_def)
  from on_server_count [OF this, of 0] accept_count [of "po_removeRead (xc_poller xc)" False] assms(2) show ?thesis
    by (force simp: counted_def fun_upd_triv)
next
  case (Some x)
  obtain s peer where x: "x = (s, peer)" by (cases x)
  have fresh: "client_source (rx_client r) s = None" using assms(4) Some x by blast
  have "\<exists>r1. client_source (rx_client r1) = (client_source (rx_client r))(s \<mapsto> source) \<and> tabled (rx_client r1) \<and> counts r1 = counts r
      \<and> on_server source (Server_accept (po_removeRead (xc_poller xc)) True) r1 = Inr r'"
  proof (cases "source = ''passthrough''")
    case True
    with assms(1) Some x obtain name r1 where r1: "on_client (cm_passthroughConnection (xc_poller xc) (xc_new xc source peer) s source) r = Inr (name, r1)"
      and r': "on_server source (Server_accept (po_removeRead (xc_poller xc)) True) (sendRequest (name, fst (ev_address re), snd (ev_address re), peer, [], Some [], ''passthrough'') r1) = Inr r'"
      by (auto simp: accept_one_def seq_eq_Inr_iff)
    from r1 assms(2) obtain c where c: "cm_passthroughConnection (xc_poller xc) (xc_new xc source peer) s source ((rx_client r)\<lparr>cm_poller := rx_poller r\<rparr>) = Inr (name, c)"
      "rx_client r1 = c" "counts r1 = counts r" "tabled ((rx_client r)\<lparr>cm_poller := rx_poller r\<rparr>)"
      by (rule on_client_counted)
    from passthroughConnection_source [OF c(1)] fresh c r' show ?thesis
      using same_account_upd(6) [of r1 "(name, fst (ev_address re), snd (ev_address re), peer, [], Some [], ''passthrough'')"]
      by (auto simp: same_account_def intro!: exI [of _ "sendRequest (name, fst (ev_address re), snd (ev_address re), peer, [], Some [], ''passthrough'') r1"])
  next
    case False
    with assms(1) Some x obtain r1 where r1: "on_client (silent (connect_client xc source re s peer)) r = Inr ((), r1)"
      and r': "on_server source (Server_accept (po_removeRead (xc_poller xc)) True) r1 = Inr r'"
      by (auto simp: accept_one_def seq_eq_Inr_iff)
    from r1 assms(2) obtain c where c: "silent (connect_client xc source re s peer) ((rx_client r)\<lparr>cm_poller := rx_poller r\<rparr>) = Inr ((), c)"
      "rx_client r1 = c" "counts r1 = counts r" "tabled ((rx_client r)\<lparr>cm_poller := rx_poller r\<rparr>)"
      by (rule on_client_counted)
    have "opening_connection (xc_poller xc) (xc_new xc source peer) (ev_now re) s source ((rx_client r)\<lparr>cm_poller := rx_poller r\<rparr>) = Inr c"
      using c(1) by (auto simp: silent_def connect_client_def seq_eq_Inr_iff cm_icapConnection_def cm_tlsConnection_def cm_httpConnection_def split: if_splits)
    from opening_connection_source [OF this] fresh c r' show ?thesis by auto
  qed
  then obtain r1 where r1: "client_source (rx_client r1) = (client_source (rx_client r))(s \<mapsto> source)" "tabled (rx_client r1)" "counts r1 = counts r"
    and r': "on_server source (Server_accept (po_removeRead (xc_poller xc)) True) r1 = Inr r'" by blast
  have "counts r' = (counts r1)(source := counts r1 source + 1) \<and> rx_client r' = rx_client r1"
    using on_server_count [OF r', of 1] accept_count [of "po_removeRead (xc_poller xc)" True] by simp
  then show ?thesis using account_add [of S "counts r" "client_source (rx_client r)" s source] assms(2,3) fresh r1
    by (simp add: counted_def)
qed

text \<open>A decision that is a pair for the client manager.\<close>

lemma enactDecision_counted:
  assumes "enactDecision xc re (client, command, decision) r = Inr r'" "counted S r" "S \<subseteq> sources"
    and "\<And>ce m content x m'. getContent (xc_poller xc) (xc_content xc) ce client command decision m = Inr ((content, x), m') \<Longrightarrow> \<exists>c d. content = Some (Some c, d)"
  shows "counted S r'"
proof -
  obtain response len status change r1 r2 data source r3 where
    r1: "on_content (getContent (xc_poller xc) (xc_content xc) (ev_content re 1) client command decision) r = Inr ((response, len, status, change), r1)"
    and r2: "adjust_upload xc client status change r1 = Inr r2"
    and r3: "on_client (cm_startData (xc_poller xc) (xc_client xc) (ev_client re 1) client response len) r2 = Inr ((data, source), r3)"
    and r': "(case data of None \<Rightarrow> seq (end_download xc client r3) (closeClient xc source)
        | Some data \<Rightarrow> if data = [] then Inr r3
            else seq (on_content (ct_sendClientData (xc_poller xc) (ev_content re 2) client data) r3) (\<lambda>((status, change), r4).
              adjust_upload xc client status change r4)) = Inr r'"
    using assms(1) by (auto simp: enactDecision_def seq_eq_Inr_iff)
  have response: "\<exists>c d. response = Some (Some c, d)" using r1 assms(4) by (auto simp: on_content_def seq_eq_Inr_iff)
  have k2: "counted S r2"
    using same_account_counted [OF adjust_upload_same [OF r2]] same_account_counted [OF on_content_same [OF r1]] assms(2) by simp
  from r3 k2 obtain c where c: "cm_startData (xc_poller xc) (xc_client xc) (ev_client re 1) client response len ((rx_client r2)\<lparr>cm_poller := rx_poller r2\<rparr>) = Inr ((data, source), c)"
    "rx_client r3 = c" "counts r3 = counts r2" "tabled ((rx_client r2)\<lparr>cm_poller := rx_poller r2\<rparr>)"
    by (rule on_client_counted)
  have started: "client_source c = (if data = None then (client_source (rx_client r2))(client := None) else client_source (rx_client r2))
      \<or> cm_bysock (rx_client r2) client = None \<and> c = (rx_client r2)\<lparr>cm_poller := rx_poller r2\<rparr> \<and> source = None"
    "tabled c \<and> (cm_bysock (rx_client r2) client \<noteq> None \<longrightarrow> source = client_source (rx_client r2) client \<and> source \<noteq> None)"
    using cm_startData_source [OF c(1,4) _ response, unfolded client_source_poller] related_content by auto
  have kept: "client_source (rx_client r3) = client_source (rx_client r2) \<Longrightarrow> counted S r3"
    using started(2) c k2 by (simp add: counted_def)
  show ?thesis
  proof (cases data)
    case None
    with r' obtain r4 where r4: "end_download xc client r3 = Inr r4" "closeClient xc source r4 = Inr r'" by (auto simp: seq_eq_Inr_iff)
    show ?thesis
    proof (cases "cm_bysock (rx_client r2) client")
      case bs: None
      then have "c = (rx_client r2)\<lparr>cm_poller := rx_poller r2\<rparr> \<and> source = None"
        using c(1) response by (auto simp: cm_startData_def)
      then have "counted S r3" "r' = r4" using kept c(2) r4(2) by (auto simp: closeClient_def)
      then show ?thesis using same_account_counted [OF end_download_same [OF r4(1)]] by simp
    next
      case (Some y)
      then have "source = client_source (rx_client r2) client" "source \<noteq> None" "tabled (rx_client r3)"
        "client_source (rx_client r3) = (client_source (rx_client r2))(client := None)"
        using started None c(2) by auto
      then show ?thesis using drop_counted [OF k2 assms(3) _ _ _ _ c(3) end_download_same [OF r4(1)] r4(2)] by simp
    qed
  next
    case (Some content)
    then have "counted S r3" using kept started(1) c(2) by auto
    moreover have "same_account r3 r'" using r' Some
      by (auto simp: seq_eq_Inr_iff split: if_splits dest!: on_content_same adjust_upload_same intro: same_account_trans)
    ultimately show ?thesis using same_account_counted by blast
  qed
qed


lemma answer_enacted:
  assumes "enactDecision xc re (resolved_decision a) r = Inr r'" "counted S r" "S \<subseteq> sources" "answer_ok a"
  shows "counted S r'"
proof -
  obtain client command given where a: "a = (client, command, given)" by (cases a)
  have ok: "decision_ok command (Fields given)" using assms(4) decision_ok_Fields by (auto simp: a answer_ok_def)
  from assms(1) show ?thesis unfolding a resolved_decision_def prod.case
    by (rule enactDecision_counted [OF _ assms(2,3)]) (use getContent_pair [OF _ ok] in \<open>simp add: is_pair_def\<close>)
qed

text \<open>The redirector: a decision that comes is passed on or looked up, and can be enacted.\<close>

lemma readRedirector_counted:
  assumes "seq (readRedirector xc re r) (enact xc re) = Inr r'" "counted S r" "S \<subseteq> sources" "queries_ok (rx_resolver r)"
    and ok: "\<And>command. fst (snd (ev_decision re)) = Some command \<Longrightarrow> decision_ok command (snd (snd (ev_decision re)))"
  shows "counted S r' \<and> queries_ok (rx_resolver r')"
proof -
  obtain d r1 where d: "readRedirector xc re r = Inr (d, r1)" and r': "enact xc re (d, r1) = Inr r'"
    using assms(1) by (auto simp: seq_eq_Inr_iff)
  obtain name command decision where e: "ev_decision re = (name, Some command, decision)"
    using d by (cases "ev_decision re") (auto simp: readRedirector_def split: option.splits)
  have dec: "decision_ok command decision" using ok e by simp
  show ?thesis
  proof (cases "Option.bind name (\<lambda>n. cm_lookupSocket n (rx_client r))")
    case None
    with d r' e assms(2,4) show ?thesis by (auto simp: readRedirector_def enact_def)
  next
    case (Some client)
    then consider (direct) "d = Some (client, Some command, decision)" "r1 = r"
      | (resolved) n response where "on_resolver (startResolving (xc_resolver xc) (ev_resolver re) client command decision 1 None) r = Inr ((n, response), r1)"
          "d = map_option (\<lambda>(_, command', given). resolved_decision (client, command', given)) response"
      using d e by (auto simp: readRedirector_def seq_eq_Inr_iff simp del: not_None_eq split: if_splits option.splits)
    then show ?thesis
    proof cases
      case direct
      with r' have en: "enactDecision xc re (client, Some command, decision) r = Inr r'" by (simp add: enact_def)
      have "counted S r'"
        by (rule enactDecision_counted [OF en assms(2,3)]) (use getContent_pair [OF _ dec] in \<open>simp add: is_pair_def\<close>)
      with enactDecision_resolver [OF en] assms(4) show ?thesis by simp
    next
      case resolved
      from resolved(1) obtain m where m: "startResolving (xc_resolver xc) (ev_resolver re) client command decision 1 None ((rx_resolver r)\<lparr>rm_poller := rx_poller r\<rparr>) = Inr ((n, response), m)"
        "r1 = r\<lparr>rx_resolver := m, rx_poller := rm_poller m\<rparr>" by (auto simp: on_resolver_def seq_eq_Inr_iff)
      from startResolving_ok [OF m(1) dec] assms(4) have q: "queries_ok m" "pred_option answer_ok response" by simp_all
      have k1: "counted S r1" using same_account_counted [OF on_resolver_same [OF resolved(1)]] assms(2) by simp
      show ?thesis
      proof (cases response)
        case None
        with resolved(2) r' have "r' = r1" by (simp add: enact_def)
        with k1 q m(2) show ?thesis by simp
      next
        case (Some a)
        obtain c' command' given where a: "a = (c', command', given)" by (cases a)
        have en: "enactDecision xc re (resolved_decision (client, command', given)) r1 = Inr r'"
          using resolved(2) Some a r' by (simp add: enact_def)
        have "answer_ok (client, command', given)" using q(2) Some a by (simp add: answer_ok_def)
        from answer_enacted [OF en k1 assms(3) this] enactDecision_resolver [OF en [unfolded resolved_decision_def prod.case]] q(1) m(2)
        show ?thesis by simp
      qed
    qed
  qed
qed

lemma readResolver_counted:
  assumes "oseq (readResolver xc re s r) (\<lambda>x. Some (enact xc re x)) = Some (Inr r')" "counted S r" "S \<subseteq> sources" "queries_ok (rx_resolver r)"
  shows "counted S r' \<and> queries_ok (rx_resolver r')"
proof -
  obtain answer m where m: "resolver_getResponse (xc_poller xc) (xc_resolver xc) (ev_resolver re) s ((rx_resolver r)\<lparr>rm_poller := rx_poller r\<rparr>) = Some (Inr (answer, m))"
    and r': "enact xc re (map_option resolved_decision answer, r\<lparr>rx_resolver := m, rx_poller := rm_poller m\<rparr>) = Inr r'"
    using assms(1) by (auto simp: readResolver_def oseq_def split: option.splits sum.splits)
  let ?r = "r\<lparr>rx_resolver := m, rx_poller := rm_poller m\<rparr>"
  have q: "queries_ok m" "pred_option answer_ok answer" using resolver_getResponse_ok [OF m] assms(4) by simp_all
  have k: "counted S ?r" using same_account_counted [of r ?r S] assms(2) by simp
  show ?thesis
  proof (cases answer)
    case None
    with r' have "r' = ?r" by (simp add: enact_def)
    with k q show ?thesis by simp
  next
    case (Some a)
    then have en: "enactDecision xc re (resolved_decision a) ?r = Inr r'" using r' by (simp add: enact_def)
    have "rx_resolver r' = m" using enactDecision_resolver en by (cases a) (fastforce simp: resolved_decision_def)
    moreover have "answer_ok a" using q(2) Some by simp
    ultimately show ?thesis using answer_enacted [OF en k assms(3)] q(1) by simp
  qed
qed


lemma enact_all_counted:
  assumes "for_each (\<lambda>a. enactDecision xc re (resolved_decision a)) replies r = Inr r'" "counted S r" "S \<subseteq> sources" "\<forall>a \<in> set replies. answer_ok a"
  shows "counted S r' \<and> rx_resolver r' = rx_resolver r"
  using assms(1,2,4)
proof (induction replies arbitrary: r)
  case (Cons a replies)
  from Cons.prems(1) obtain r1 where r1: "enactDecision xc re (resolved_decision a) r = Inr r1"
    "for_each (\<lambda>a. enactDecision xc re (resolved_decision a)) replies r1 = Inr r'" by (auto simp: seq_eq_Inr_iff)
  have "counted S r1" using answer_enacted [OF r1(1) Cons.prems(2) assms(3)] Cons.prems(3) by simp
  moreover have "rx_resolver r1 = rx_resolver r" using r1(1) enactDecision_resolver by (cases a) (fastforce simp: resolved_decision_def)
  ultimately show ?case using Cons.IH [OF r1(2)] Cons.prems(3) by simp
qed simp

lemma timeout_loop_step:
  assumes "timeout_loop xc' re cutoff entries n r = Some result" "S \<subseteq> sources"
  shows "xc' = xc \<longrightarrow> counted S r \<longrightarrow> queries_ok (rx_resolver r)
    \<longrightarrow> (\<forall>k q. result = Inr (k, q) \<longrightarrow> counted S q \<and> queries_ok (rx_resolver q))"
proof (rule timeout_loop.raw_induct [OF _ assms(1)])
  fix f xc' re cutoff entries n r result
  assume IH: "\<And>xc' re cutoff entries n r result. f xc' re cutoff entries n r = Some result \<Longrightarrow>
      xc' = xc \<longrightarrow> counted S r \<longrightarrow> queries_ok (rx_resolver r) \<longrightarrow> (\<forall>k q. result = Inr (k, q) \<longrightarrow> counted S q \<and> queries_ok (rx_resolver q))"
    and body: "(case entries of [] \<Rightarrow> Some (Inr (n, r))
      | (timestamp, client, s) # rest \<Rightarrow>
          if timestamp > cutoff then Some (Inr (n, r))
          else
            (case seq (cleanup_entry (xc_resolver xc') (ev_resolver re) client s (rx_resolver r)) (\<lambda>(replies, m).
                  for_each (\<lambda>a. enactDecision xc' re (resolved_decision a)) replies (r\<lparr>rx_resolver := m\<rparr>)) of
               Inl e \<Rightarrow> Some (Inl e)
             | Inr r1 \<Rightarrow> f xc' re cutoff (rest @ drop (length (rm_active (rx_resolver r))) (rm_active (rx_resolver r1))) (n + 1) r1)) = Some result"
  show "xc' = xc \<longrightarrow> counted S r \<longrightarrow> queries_ok (rx_resolver r) \<longrightarrow> (\<forall>k q. result = Inr (k, q) \<longrightarrow> counted S q \<and> queries_ok (rx_resolver q))"
  proof (intro impI)
    assume xc: "xc' = xc" and k: "counted S r" and q: "queries_ok (rx_resolver r)"
    show "\<forall>k q. result = Inr (k, q) \<longrightarrow> counted S q \<and> queries_ok (rx_resolver q)"
    proof (cases entries)
      case Nil
      with body k q show ?thesis by auto
    next
      case (Cons x rest)
      obtain t client s where x: "x = (t, client, s)" by (cases x)
      let ?step = "seq (cleanup_entry (xc_resolver xc) (ev_resolver re) client s (rx_resolver r)) (\<lambda>(replies, m).
          for_each (\<lambda>a. enactDecision xc re (resolved_decision a)) replies (r\<lparr>rx_resolver := m\<rparr>))"
      show ?thesis
      proof (cases "t > cutoff")
        case True
        with body Cons x k q show ?thesis by auto
      next
        case False
        show ?thesis
        proof (cases ?step)
          case (Inl e)
          with body Cons x False xc show ?thesis by auto
        next
          case (Inr r1)
          then obtain replies m where m: "cleanup_entry (xc_resolver xc) (ev_resolver re) client s (rx_resolver r) = Inr (replies, m)"
            "for_each (\<lambda>a. enactDecision xc re (resolved_decision a)) replies (r\<lparr>rx_resolver := m\<rparr>) = Inr r1"
            by (auto simp: seq_eq_Inr_iff)
          have ok: "queries_ok m" "\<forall>a \<in> set replies. answer_ok a" using cleanup_entry_ok [OF m(1) q] by simp_all
          have "counted S (r\<lparr>rx_resolver := m\<rparr>)" using same_account_counted [of r "r\<lparr>rx_resolver := m\<rparr>" S] k by simp
          from enact_all_counted [OF m(2) this assms(2) ok(2)] ok(1) have "counted S r1" "queries_ok (rx_resolver r1)" by simp_all
          moreover have "f xc' re cutoff (rest @ drop (length (rm_active (rx_resolver r))) (rm_active (rx_resolver r1))) (n + 1) r1 = Some result"
            using body Cons x False xc Inr by simp
          ultimately show ?thesis using IH xc by blast
        qed
      qed
    qed
  qed
qed

lemma timeoutResolver_counted:
  assumes "timeoutResolver xc re r = Some (Inr r')" "counted S r" "S \<subseteq> sources" "queries_ok (rx_resolver r)"
  shows "counted S r' \<and> queries_ok (rx_resolver r')"
proof -
  obtain n r1 where t: "timeout_loop xc re (re_now (ev_resolver re) - rc_timeout (xc_resolver xc)) (rm_active (rx_resolver r)) 0 r = Some (Inr (n, r1))"
    and r': "r' = r1\<lparr>rx_resolver := (rx_resolver r1)\<lparr>rm_active := drop n (rm_active (rx_resolver r1))\<rparr>\<rparr>"
    using assms(1) by (auto simp: timeoutResolver_def oseq_def split: option.splits sum.splits)
  from timeout_loop_step [OF t assms(3)] assms(2,4) have "counted S r1" "queries_ok (rx_resolver r1)" by auto
  then show ?thesis unfolding r'
    using same_account_counted [OF same_account_upd(3) [where r = r1 and m = "(rx_resolver r1)\<lparr>rm_active := drop n (rm_active (rx_resolver r1))\<rparr>"], of S]
    by (simp add: queries_ok_def)
qed


lemma handle_one_counted:
  assumes "handle_one xc event (s, re) r = Some (Inr r')" "event_allowed event (s, re) r"
    and "counted counted_sources r" "queries_ok (rx_resolver r)"
  shows "counted counted_sources r' \<and> queries_ok (rx_resolver r')"
proof -
  have sub: "counted_sources \<subseteq> sources" "counted_sources \<subseteq> {''proxy'', ''tls'', ''passthrough''}" by (auto simp: counted_sources_def sources_def)
  have fresh: "\<And>s' peer. ev_accept re = Some (s', peer) \<Longrightarrow> client_source (rx_client r) s' = None"
    and dec: "\<And>command. fst (snd (ev_decision re)) = Some command \<Longrightarrow> decision_ok command (snd (snd (ev_decision re)))"
    using assms(2) by (auto simp: event_allowed_def)
  have keep: "keeps1 (rx_resolver r) result \<Longrightarrow> result = Inr r' \<Longrightarrow> queries_ok (rx_resolver r')" for result
    using assms(4) by (simp add: keeps1_def)
  note k = keep [OF keeps_handlers(1) [OF refl]] keep [OF keeps_handlers(2) [OF refl]] keep [OF keeps_handlers(3) [OF refl]]
    keep [OF keeps_handlers(4) [OF refl]] keep [OF keeps_handlers(5) [OF refl]] keep [OF keeps_handlers(6) [OF refl]] keep [OF keeps_handlers(7) [OF refl]]
  have "event = ''read_proxy'' \<and> accept_one xc ''proxy'' re r = Inr r' \<or> event = ''read_icap'' \<or> event = ''read_web''
    \<or> event = ''read_tls'' \<and> accept_one xc ''tls'' re r = Inr r' \<or> event = ''read_passthrough'' \<and> accept_one xc ''passthrough'' re r = Inr r'
    \<or> incomingRequest xc re s r = Inr r' \<or> incomingClientData xc re s r = Inr r' \<or> flushClientOutput xc re s r = Inr r'
    \<or> completeWebConnection xc re s r = Inr r' \<or> incomingWebData xc re s r = Inr r' \<or> flushWebOutput xc re s r = Inr r'
    \<or> seq (readRedirector xc re r) (enact xc re) = Inr r' \<or> oseq (readResolver xc re s r) (\<lambda>x. Some (enact xc re x)) = Some (Inr r')
    \<or> flushResolver xc re s r = Inr r' \<or> r' = r"
    using assms(1) unfolding handle_one_def prod.case
    by (simp only: option.inject sum.inject split: if_split_asm) simp_all
  moreover have "event \<noteq> ''read_icap''" "event \<noteq> ''read_web''" using assms(2) by (simp_all add: event_allowed_def)
  ultimately consider (accept) source where "source \<in> {''proxy'', ''tls'', ''passthrough''}" "accept_one xc source re r = Inr r'"
    | (request) "incomingRequest xc re s r = Inr r'" | (reading) "incomingClientData xc re s r = Inr r'"
    | (writing) "flushClientOutput xc re s r = Inr r'" | (complete) "completeWebConnection xc re s r = Inr r'"
    | (web) "incomingWebData xc re s r = Inr r'" | (flush) "flushWebOutput xc re s r = Inr r'"
    | (decide) "seq (readRedirector xc re r) (enact xc re) = Inr r'"
    | (resolve) "oseq (readResolver xc re s r) (\<lambda>x. Some (enact xc re x)) = Some (Inr r')"
    | (resolving) "flushResolver xc re s r = Inr r'" | (other) "r' = r"
    unfolding insert_iff by blast
  then show ?thesis
  proof cases
    case (accept source)
    have "counted counted_sources r'" by (rule accept_counted [OF accept(2) assms(3) accept(1) [folded counted_sources_def]]) (rule fresh)
    with k(1) [OF accept(2)] show ?thesis by blast
  next
    case request
    from incomingRequest_counted [OF request assms(3) sub(1)] k(2) [OF request] show ?thesis by blast
  next
    case reading
    from incomingClientData_counted [OF reading assms(3) sub(1)] k(3) [OF reading] show ?thesis by blast
  next
    case writing
    from flushClientOutput_counted [OF writing assms(3) sub(1)] k(4) [OF writing] show ?thesis by blast
  next
    case complete
    from completeWebConnection_counted [OF complete assms(3) sub(2)] k(5) [OF complete] show ?thesis by blast
  next
    case web
    from incomingWebData_counted [OF web assms(3) sub(2)] k(6) [OF web] show ?thesis by blast
  next
    case flush
    from flushWebOutput_counted [OF flush] k(7) [OF flush] assms(3) show ?thesis by blast
  next
    case decide
    show ?thesis by (rule readRedirector_counted [OF decide assms(3) sub(1) assms(4)]) (rule dec)
  next
    case resolve
    from readResolver_counted [OF resolve assms(3) sub(1) assms(4)] show ?thesis by blast
  next
    case resolving
    then obtain m where "resolver_continueSending (xc_poller xc) (ev_resolver re) s ((rx_resolver r)\<lparr>rm_poller := rx_poller r\<rparr>) = Inr m" "rx_resolver r' = m"
      by (auto simp: flushResolver_def on_resolver_def silent_def seq_eq_Inr_iff)
    with resolver_continueSending_ok [OF this(1)] assms(3,4) flushResolver_counted [OF resolving] show ?thesis by simp
  next
    case other
    with assms(3,4) show ?thesis by simp
  qed
qed

lemma reachable_counted:
  assumes "reactor_reachable xc r0 r" "counted counted_sources r0" "queries_ok (rx_resolver r0)"
  shows "counted counted_sources r \<and> queries_ok (rx_resolver r)"
  using assms
proof (induction rule: reactor_reachable.induct)
  case (handled r event s re r')
  then show ?case using handle_one_counted by blast
next
  case (timed_out r re r')
  moreover have "counted_sources \<subseteq> sources" by (auto simp: counted_sources_def sources_def)
  ultimately show ?case using timeoutResolver_counted by blast
next
  case (forgotten r now)
  then show ?case using same_account_counted [OF same_account_upd(3) [where r = r and m = "expireCache now (rx_resolver r)"], of counted_sources]
    by (auto simp: queries_ok_def expireCache_def split: list.splits)
next
  case (tallied r n k)
  then show ?case by (simp add: counted_def counts_def [abs_def])
qed simp

end

interpretation any_reactor: counted_reactor "xc\<lparr>xc_client := any_ops\<rparr>" for xc
  unfolding counted_reactor_def by (simp add: any_closing.closing_connection_axioms)

end
