(* ===== verification/ReactorFacts.thy ===== *)
theory ReactorFacts
  imports ReactorCount
begin

text \<open>
  What the reactor keeps and what it loses: the account of the connections over every run, the clients that
  are forgotten without being counted out or counted out without being forgotten, the decisions that raise,
  and the clean-up of the resolver, whose decisions are enacted while it goes on.
\<close>

section \<open>Enacting does not see the resolver\<close>

definition indifferent :: "(('c, 'm, 'p) reactor \<Rightarrow> ('c, 'm, 'p) reactor res) \<Rightarrow> bool" where
  "indifferent f \<longleftrightarrow> (\<forall>r m. f (r\<lparr>rx_resolver := m\<rparr>) = seq (f r) (\<lambda>r1. Inr (r1\<lparr>rx_resolver := m\<rparr>)))"

definition indifferent_to :: "(('c, 'm, 'p) reactor \<Rightarrow> ('x \<times> ('c, 'm, 'p) reactor) res) \<Rightarrow> bool" where
  "indifferent_to f \<longleftrightarrow> (\<forall>r m. f (r\<lparr>rx_resolver := m\<rparr>) = seq (f r) (\<lambda>(x, r1). Inr (x, r1\<lparr>rx_resolver := m\<rparr>)))"

lemma seq_map: "seq (seq f g) h = seq f (\<lambda>x. seq (g x) h)"
  by (cases f) simp_all

lemma indifferent_to_seq:
  assumes "indifferent_to f" "\<And>x. indifferent (\<lambda>r. g (x, r))"
  shows "indifferent (\<lambda>r. seq (f r) g)"
  unfolding indifferent_def
proof (intro allI)
  fix r m
  show "seq (f (r\<lparr>rx_resolver := m\<rparr>)) g = seq (seq (f r) g) (\<lambda>r1. Inr (r1\<lparr>rx_resolver := m\<rparr>))"
    using assms by (cases "f r") (auto simp: indifferent_to_def indifferent_def split: prod.split)
qed

lemma indifferent_seq:
  assumes "indifferent f" "indifferent g"
  shows "indifferent (\<lambda>r. seq (f r) g)"
  unfolding indifferent_def
proof (intro allI)
  fix r m
  show "seq (f (r\<lparr>rx_resolver := m\<rparr>)) g = seq (seq (f r) g) (\<lambda>r1. Inr (r1\<lparr>rx_resolver := m\<rparr>))"
    using assms by (cases "f r") (auto simp: indifferent_def)
qed

lemma indifferent_components:
  "indifferent_to (on_client f)" "indifferent_to (on_content g)" "indifferent (on_server source h)"
  unfolding indifferent_to_def indifferent_def on_client_def on_content_def on_server_def
  by (auto simp: seq_map split_beta intro!: arg_cong2 [where f = seq])

lemma indifferent_Inr: "indifferent Inr"
  by (simp add: indifferent_def)

lemma indifferent_handlers:
  "indifferent (adjust_upload xc client status change)" "indifferent (end_download xc client)" "indifferent (closeClient xc source)"
proof -
  have "indifferent (\<lambda>r. seq (on_client f r) (\<lambda>(_, r1). Inr r1))" "indifferent (\<lambda>r. seq (on_content g r) (\<lambda>(_, r1). Inr r1))" for f g
    by (rule indifferent_to_seq [OF indifferent_components(1)] indifferent_to_seq [OF indifferent_components(2)], simp add: indifferent_Inr)+
  note steps = this
  show "indifferent (adjust_upload xc client status change)"
    unfolding adjust_upload_def [abs_def] by (cases "change = Some True") (simp_all add: steps indifferent_Inr)
  show "indifferent (end_download xc client)"
    unfolding end_download_def [abs_def] by (rule steps)
  show "indifferent (closeClient xc source)"
    unfolding closeClient_def [abs_def] 
    by (cases source; cases "the source \<in> sources") (simp_all add: indifferent_components indifferent_Inr)
qed

lemma enactDecision_indifferent: "indifferent (enactDecision xc re d)"
proof -
  obtain client command decision where d: "d = (client, command, decision)" by (cases d)
  have last: "indifferent (\<lambda>r3. case data of
        None \<Rightarrow> seq (end_download xc client r3) (closeClient xc source)
      | Some data \<Rightarrow> if data = [] then Inr r3
          else seq (on_content (ct_sendClientData (xc_poller xc) (ev_content re 2) client data) r3) (\<lambda>((status, change), r4).
               adjust_upload xc client status change r4))" for data source
  proof (cases data)
    case None
    then show ?thesis by (simp add: indifferent_seq indifferent_handlers)
  next
    case (Some bytes)
    have "indifferent (\<lambda>r3. seq (on_content (ct_sendClientData (xc_poller xc) (ev_content re 2) client bytes) r3)
        (\<lambda>((status, change), r4). adjust_upload xc client status change r4))"
      by (rule indifferent_to_seq [OF indifferent_components(2)]) (simp add: indifferent_handlers split: prod.split)
    with Some show ?thesis by (cases "bytes = []") (simp_all add: indifferent_Inr)
  qed
  show ?thesis
    unfolding d enactDecision_def [abs_def] prod.case
    by (rule indifferent_to_seq [OF indifferent_components(2)], simp only: split_paired_all prod.case,
        rule indifferent_seq [OF indifferent_handlers(1)], rule indifferent_to_seq [OF indifferent_components(1)],
        simp only: split_paired_all prod.case, rule last)
qed

lemma for_each_indifferent: "(\<And>x. indifferent (f x)) \<Longrightarrow> indifferent (for_each f xs)"
  by (induction xs) (simp_all add: indifferent_Inr indifferent_seq [unfolded indifferent_def] indifferent_def seq_map)


section \<open>The clean-up of the resolver\<close>

lemma for_each_append: "for_each f (xs @ ys) s = seq (for_each f xs s) (for_each f ys)"
proof (induction xs arbitrary: s)
  case (Cons x xs)
  then show ?case by (cases "f x s") simp_all
qed simp

lemma timeout_loop_enacts:
  fixes m m' :: "('m, 'p) resolver"
  assumes "cleanup_loop cf env cutoff entries n yielded m = Some result"
    and "cf = xc_resolver xc" "env = ev_resolver re" "result = Inr (k, found, m')"
  shows "\<exists>ys. found = yielded @ ys \<and> (\<forall>r. timeout_loop xc re cutoff entries n (r\<lparr>rx_resolver := m\<rparr>) =
      Some (seq (for_each (\<lambda>a. enactDecision xc re (resolved_decision a)) ys r) (\<lambda>r1. Inr (k, r1\<lparr>rx_resolver := m'\<rparr>))))"
  using assms(2-)
proof (induction rule: cleanup_loop.raw_induct [OF _ assms(1), consumes 0, case_names step])
  case (step loop cf env cutoff entries n yielded m result)
  let ?each = "\<lambda>ys. for_each (\<lambda>a. enactDecision xc re (resolved_decision a)) ys"
  note IH = step.IH and body = step.hyps and eqs = step.prems
  show ?case
  proof (cases entries)
    case Nil
    with body eqs show ?thesis by (simp add: timeout_loop.simps)
  next
    case (Cons x rest)
    obtain timestamp client s where x: "x = (timestamp, client, s)" by (cases x)
    show ?thesis
    proof (cases "timestamp > cutoff")
      case True
      with body eqs Cons x show ?thesis by (simp add: timeout_loop.simps)
    next
      case False
      with body eqs Cons x obtain ys m1 where e: "cleanup_entry (xc_resolver xc) (ev_resolver re) client s m = Inr (ys, m1)"
        and l: "loop cf env cutoff (rest @ drop (length (rm_active m)) (rm_active m1)) (n + 1) (yielded @ ys) m1 = Some result"
        by (auto split: sum.splits)
      from IH [OF l eqs] obtain zs where zs: "found = (yielded @ ys) @ zs"
        "\<And>r. timeout_loop xc re cutoff (rest @ drop (length (rm_active m)) (rm_active m1)) (n + 1) (r\<lparr>rx_resolver := m1\<rparr>) =
          Some (seq (?each zs r) (\<lambda>r1. Inr (k, r1\<lparr>rx_resolver := m'\<rparr>)))" by blast
      have each: "?each ys (r\<lparr>rx_resolver := m1\<rparr>) = seq (?each ys r) (\<lambda>r1. Inr (r1\<lparr>rx_resolver := m1\<rparr>))" for r
        using for_each_indifferent [of "\<lambda>a. enactDecision xc re (resolved_decision a)" ys, OF enactDecision_indifferent]
        by (simp add: indifferent_def)
      have "timeout_loop xc re cutoff entries n (r\<lparr>rx_resolver := m\<rparr>) =
          Some (seq (?each (ys @ zs) r) (\<lambda>r1. Inr (k, r1\<lparr>rx_resolver := m'\<rparr>)))" for r
        using False Cons x e zs(2) by (subst timeout_loop.simps) (cases "?each ys r"; simp add: each for_each_append)
      with zs(1) show ?thesis by auto
    qed
  qed
qed

text \<open>C14: The clean-up of the resolver is a generator whose decisions are enacted before it goes on; this is the same as letting it finish and then enacting what it found, in order: the two never disturb each other.\<close>

theorem timeouts_enacted:
  assumes "resolver_cleanup (xc_resolver xc) (ev_resolver re) (rx_resolver r) = Some (Inr (found, m))"
  shows "timeoutResolver xc re r =
    Some (for_each (\<lambda>a. enactDecision xc re (resolved_decision a)) found (r\<lparr>rx_resolver := m\<rparr>))"
proof -
  let ?each = "\<lambda>ys. for_each (\<lambda>a. enactDecision xc re (resolved_decision a)) ys"
  obtain k m1 where l: "cleanup_loop (xc_resolver xc) (ev_resolver re) (re_now (ev_resolver re) - rc_timeout (xc_resolver xc))
      (rm_active (rx_resolver r)) 0 [] (rx_resolver r) = Some (Inr (k, found, m1))" and m: "m = m1\<lparr>rm_active := drop k (rm_active m1)\<rparr>"
    using assms by (auto simp: resolver_cleanup_def oseq_def split: option.splits sum.splits)
  have each: "?each found (r\<lparr>rx_resolver := m\<rparr>) = seq (?each found r) (\<lambda>r1. Inr (r1\<lparr>rx_resolver := m\<rparr>))"
    using for_each_indifferent [of "\<lambda>a. enactDecision xc re (resolved_decision a)" found, OF enactDecision_indifferent]
    by (simp add: indifferent_def)
  from timeout_loop_enacts [OF l refl refl refl] have "\<forall>r0. timeout_loop xc re (re_now (ev_resolver re) - rc_timeout (xc_resolver xc))
      (rm_active (rx_resolver r)) 0 (r0\<lparr>rx_resolver := rx_resolver r\<rparr>) =
      Some (seq (?each found r0) (\<lambda>r1. Inr (k, r1\<lparr>rx_resolver := m1\<rparr>)))" by simp
  from this [THEN spec, of r] have "timeout_loop xc re (re_now (ev_resolver re) - rc_timeout (xc_resolver xc))
      (rm_active (rx_resolver r)) 0 r = Some (seq (?each found r) (\<lambda>r1. Inr (k, r1\<lparr>rx_resolver := m1\<rparr>)))" by simp
  then show ?thesis
    using each unfolding m by (cases "?each found r") (simp_all add: timeoutResolver_def)
qed

definition example_reactor :: "(any_client, unit, epoller) reactor" where
  "example_reactor = \<lparr>rx_server = (\<lambda>source. Server_init three_events source 10 True), rx_client = ClientManager_init 5 three_events,
     rx_content = ContentManager_init three_events,
     rx_resolver = example_resolver\<lparr>rm_clients := Map.empty, rm_resolving := Map.empty, rm_active := []\<rparr>, rx_sent = [],
     rx_nb_events = 0, rx_nb_loops = 0, rx_poller = three_events\<rparr>"

definition example_reactor_conf :: "(http_env, any_client, epoller) reactor_conf" where
  "example_reactor_conf = \<lparr>xc_poller = ep_ops Some, xc_client = any_ops, xc_new = (\<lambda>_ _ name. OfHTTP (new_http_client name)),
     xc_content = example_conf, xc_resolver = example_resolver_conf\<rparr>"

definition example_reactor_env :: "(http_env, unit) reactor_env" where
  "example_reactor_env = \<lparr>ev_now = 0, ev_accept = Some (4, ''10.0.0.2''), ev_address = (''10.0.0.1'', 3128),
     ev_decision = (Some ''0'', Some ''download'', Fields []),
     ev_client = (\<lambda>_. \<lparr>he_recv = [], he_send = SendError, he_file = None\<rparr>), ev_content = (\<lambda>_. example_env (Sent 3)),
     ev_resolver = example_resolver_env []\<rparr>"

lemma example_reactor_counted: "counted counted_sources example_reactor \<and> queries_ok (rx_resolver example_reactor)"
  by (auto simp: counted_def tabled_def tables_apart_def account_def counts_def client_source_def table_source_def queries_ok_def all_ok_def
      example_reactor_def example_resolver_def ClientManager_init_def TimeCache_init_def Server_init_def dom_def ran_def)

lemma example_fields [simp]:
  "xc_poller example_reactor_conf = ep_ops Some" "xc_client example_reactor_conf = any_ops"
  "xc_resolver example_reactor_conf = example_resolver_conf" "xc_content example_reactor_conf = example_conf"
  "ev_resolver example_reactor_env = example_resolver_env []" "ev_content example_reactor_env n = example_env (Sent 3)"
  by (simp_all add: example_reactor_conf_def example_reactor_env_def)

lemma for_each_one: "for_each f [x] s = f x s"
  by (cases "f x s") simp_all

theorem timeouts_enacted_witness:
  "timeoutResolver example_reactor_conf example_reactor_env
      (example_reactor\<lparr>rx_resolver := example_resolver\<lparr>rm_active := [(90, 9, 3)], rm_clients := [9 \<mapsto> (0, 7, 90, 3)]\<rparr>\<rparr>) =
    Some (enactDecision example_reactor_conf example_reactor_env
      (9, Some ''rewrite'', Fields [''503'', ''dns.html'', [], [], [], ''exa.net'', ''peer''])
      (example_reactor\<lparr>rx_resolver := example_resolver\<lparr>rm_active := [], rm_clients := Map.empty, rm_resolving := Map.empty\<rparr>\<rparr>))"
proof -
  let ?m = "example_resolver\<lparr>rm_active := [(90, 9, 3)], rm_clients := [9 \<mapsto> (0, 7, 90, 3)]\<rparr>"
  have "resolver_cleanup example_resolver_conf (example_resolver_env []) ?m =
      Some (Inr ([dns_page 9 ''503'' [] ''exa.net''], example_resolver\<lparr>rm_active := [], rm_clients := Map.empty, rm_resolving := Map.empty\<rparr>))"
    by (simp add: resolver_cleanup_def cleanup_loop.simps cleanup_entry_def expired_query_def close_timed_out_def example_resolver_def
        example_resolver_conf_def example_resolver_env_def)
  then have "resolver_cleanup (xc_resolver example_reactor_conf) (ev_resolver example_reactor_env) (rx_resolver (example_reactor\<lparr>rx_resolver := ?m\<rparr>)) =
      Some (Inr ([dns_page 9 ''503'' [] ''exa.net''], example_resolver\<lparr>rm_active := [], rm_clients := Map.empty, rm_resolving := Map.empty\<rparr>))"
    by simp
  from timeouts_enacted [OF this] show ?thesis
    unfolding for_each_one by (simp add: dns_page_def resolved_decision_def)
qed

section \<open>The account\<close>

definition example_accept :: "(http_env, unit) reactor_env" where
  "example_accept = example_reactor_env\<lparr>ev_decision := (None, None, Text [])\<rparr>"

lemma example_accepts:
  "\<exists>r. handle_one example_reactor_conf ''read_proxy'' (1, example_accept) example_reactor = Some (Inr r)
     \<and> reactor_reachable example_reactor_conf example_reactor r"
proof -
  have allowed: "event_allowed ''read_proxy'' (1, example_accept) example_reactor"
    by (simp add: event_allowed_def example_accept_def example_reactor_def example_reactor_env_def client_source_def table_source_def
        ClientManager_init_def TimeCache_init_def)
  have "\<exists>r. handle_one example_reactor_conf ''read_proxy'' (1, example_accept) example_reactor = Some (Inr r)"
    by (simp add: handle_one_def accept_one_def example_reactor_conf_def example_accept_def example_reactor_env_def example_reactor_def on_client_def silent_def
        connect_client_def cm_httpConnection_def opening_connection_def cm_getnextid_def ClientManager_init_def on_poller_def ep_ops_def
        EPoller_addReadSocket_def EPoller_add_def ep_entry_def three_events_def opening_client_def kernel_register_def on_server_def
        Server_accept_def Server_init_def Let_def)
  with reactor_reachable.handled [OF reactor_reachable.start allowed] show ?thesis by blast
qed

text \<open>However the loop runs, as long as no connection comes from the web or ICAP servers and the decisions are well formed, every client comes from the proxy, TLS or passthrough server, and each of these has counted exactly the connections that the manager holds for it.\<close>

theorem clients_counted:
  assumes "reactor_reachable (xc\<lparr>xc_client := any_ops\<rparr>) r0 r" "counted counted_sources r0" "queries_ok (rx_resolver r0)"
  shows "ran (client_source (rx_client r)) \<subseteq> {''proxy'', ''tls'', ''passthrough''}
    \<and> (\<forall>source \<in> {''proxy'', ''tls'', ''passthrough''}.
         sv_client_count (rx_server r source) = int (card {s. client_source (rx_client r) s = Some source}))"
  using any_reactor.reachable_counted [OF assms] by (simp add: counted_def account_def counts_def counted_sources_def)

theorem clients_counted_witness:
  "\<exists>r. handle_one example_reactor_conf ''read_proxy'' (1, example_accept) example_reactor = Some (Inr r)
     \<and> sv_client_count (rx_server r ''proxy'') = int (card {s. client_source (rx_client r) s = Some ''proxy''})"
proof -
  have conf: "example_reactor_conf\<lparr>xc_client := any_ops\<rparr> = example_reactor_conf" by (simp add: example_reactor_conf_def)
  from example_accepts obtain r where r: "handle_one example_reactor_conf ''read_proxy'' (1, example_accept) example_reactor = Some (Inr r)"
    "reactor_reachable example_reactor_conf example_reactor r" by blast
  from clients_counted [of example_reactor_conf, unfolded conf, OF r(2)] example_reactor_counted r(1) show ?thesis by auto
qed

section \<open>What is lost\<close>

text \<open>When a download sends data to a client that comes from the web or ICAP server and is gone, the client is forgotten while the server goes on counting its connection: no later event of the client can bring the count down, and enough of them close the server.\<close>

theorem web_disconnect_uncounted:
  assumes "ct_established (rx_content r) fetcher = Some o'" "dl_client (ct_at (rx_content r) o') = client"
    and "ce_recv (ev_content re 0) = Received (c # cs)"
    and "cm_bysock (rx_client r) client = Some (x, source)" "source \<in> {''web'', ''icap''}"
    and "co_writeData (xc_client xc) (ev_client re 0) (Some (c # cs)) (cn_state x) = Inr (None, st)"
    and "incomingWebData xc re fetcher r = Inr r'"
  shows "cm_bysock (rx_client r') client = None \<and> tc_dict (cm_norequest (rx_client r')) client = None
    \<and> sv_client_count (rx_server r' source) = sv_client_count (rx_server r source)"
proof -
  have read: "on_content (ct_readData (xc_poller xc) (ev_content re 0) fetcher) r =
      Inr ((Some client, Some (c # cs)), r\<lparr>rx_content := (rx_content r)\<lparr>ct_poller := rx_poller r\<rparr>, rx_poller := rx_poller r\<rparr>)"
    (is "_ = Inr (_, ?r1)")
    using assms(1-3) by (simp add: on_content_def ct_readData_def Content_readData_def)
  let ?send = "on_client (cm_sendData (xc_poller xc) (xc_client xc) (ev_client re 0) client (Some (c # cs))) ?r1"
  from assms(7) obtain status change name src r2 where send: "?send = Inr ((status, change, name, src), r2)"
    by (auto simp: incomingWebData_def read seq_eq_Inr_iff)
  from send assms(4,6) have sent: "status = None" "src = Some source" "rx_server r2 = rx_server r"
    "cm_bysock (rx_client r2) client = None" "tc_dict (cm_norequest (rx_client r2)) client = None"
    by (auto simp: on_client_def cm_sendData_def seq_eq_Inr_iff TimeCache_pop_def dest!: cm_cleanup_Inr)
  have "count_disconnect xc src r2 = Inr r2" using sent(2) assms(5) by (auto simp: count_disconnect_def)
  then have "end_download xc client r2 = Inr r'"
    using assms(7) send sent(1) by (simp add: incomingWebData_def read)
  then have "rx_server r' = rx_server r2 \<and> rx_client r' = rx_client r2"
    by (auto simp: end_download_def on_content_def seq_eq_Inr_iff)
  with sent show ?thesis by simp
qed

definition gone_client :: "any_client connection" where
  "gone_client = \<lparr>cn_name = ''1'', cn_sock = 4, cn_state = OfHTTP ((new_http_client ''1'')\<lparr>hc_writer := (write_init True [])\<lparr>w_point := InLoop\<rparr>\<rparr>)\<rparr>"

definition web_reactor :: "(any_client, unit, epoller) reactor" where
  "web_reactor = example_reactor\<lparr>rx_client := (ClientManager_init 5 three_events)\<lparr>cm_bysock := [4 \<mapsto> (gone_client, ''web'')]\<rparr>,
     rx_content := one_download True, rx_server := (\<lambda>source. (Server_init three_events source 10 True)\<lparr>sv_client_count := 1\<rparr>),
     rx_poller := EPoller_setupRead 8 read_download three_events\<rparr>"

definition web_env :: "(http_env, unit) reactor_env" where
  "web_env = example_reactor_env\<lparr>ev_content := (\<lambda>_. (example_env (Sent 3))\<lparr>ce_recv := Received ''data''\<rparr>)\<rparr>"

theorem web_disconnect_uncounted_witness:
  "\<exists>r. incomingWebData example_reactor_conf web_env 9 web_reactor = Inr r
     \<and> cm_bysock (rx_client r) 4 = None \<and> sv_client_count (rx_server r ''web'') = 1"
proof -
  have "\<exists>r. incomingWebData example_reactor_conf web_env 9 web_reactor = Inr r"
    by (simp add: incomingWebData_def on_content_def ct_readData_def web_reactor_def one_download_def example_download_def web_env_def
        Content_readData_def on_client_def cm_sendData_def gone_client_def any_ops_def on_class_def http_ops_def write_send_def
        write_iteration_def write_init_def example_reactor_env_def cm_cleanup_def active_changed_def ClientManager_init_def TimeCache_init_def
        TimeCache_pop_def cm_client_def on_poller_def ep_ops_def EPoller_removeReadSocket_def EPoller_removeWriteSocket_def EPoller_remove_def
        ep_entry_def EPoller_setupRead_def EPoller_setup_def three_events_def write_client_def read_client_def opening_client_def
        read_download_def forget_error_def count_disconnect_def end_download_def ct_endClientDownload_def ct_terminate_def ct_drop_def
        ct_on_poller_def ContentManager_init_def new_http_client_def Let_def)
  then obtain r where r: "incomingWebData example_reactor_conf web_env 9 web_reactor = Inr r" by blast
  have "\<exists>st. co_writeData any_ops (ev_client web_env 0) (Some ''data'') (cn_state gone_client) = Inr (None, st)"
    by (simp add: gone_client_def any_ops_def on_class_def http_ops_def write_send_def write_iteration_def write_init_def web_env_def
        example_reactor_env_def new_http_client_def)
  then obtain st where st: "co_writeData any_ops (ev_client web_env 0) (Some ''data'') (cn_state gone_client) = Inr (None, st)" by blast
  show ?thesis
    using web_disconnect_uncounted [OF _ refl _ _ _ _ r, of 0 "CHR ''d''" "''ata''" gone_client "''web''" st] r st
    by (simp add: web_reactor_def web_env_def one_download_def example_download_def)
qed

text \<open>A decision with the wrong number of arguments for its command counts the connection of its client out, but the manager keeps the client: the count of its server is from then on one less than its connections, and the server admits more than its maximum.\<close>

theorem bad_decision_counted_out:
  assumes "(command, n) \<in> command_arity" "unpack n decision = None"
    and "cm_bysock (rx_client r) client = Some (x, source)" "source \<in> sources"
    and "enactDecision xc re (client, Some command, decision) r = Inr r'"
  shows "cm_bysock (rx_client r') client = Some (x, source)
    \<and> sv_client_count (rx_server r' source) = sv_client_count (rx_server r source) - 1"
proof -
  have plan: "plan_content po cf ce client (Some command) decision m = Inr (parsing_failed, m)" for po cf ce m
    using assms(1) by (cases rule: command_arity_cases) (use assms(2) in \<open>simp_all add: plan_content_def\<close>)
  obtain response len status change r1 r2 data src r3 where
    r1: "on_content (getContent (xc_poller xc) (xc_content xc) (ev_content re 1) client (Some command) decision) r = Inr ((response, len, status, change), r1)"
    and r2: "adjust_upload xc client status change r1 = Inr r2"
    and r3: "on_client (cm_startData (xc_poller xc) (xc_client xc) (ev_client re 1) client response len) r2 = Inr ((data, src), r3)"
    and r': "(case data of None \<Rightarrow> seq (end_download xc client r3) (closeClient xc src)
        | Some data \<Rightarrow> if data = [] then Inr r3
            else seq (on_content (ct_sendClientData (xc_poller xc) (ev_content re 2) client data) r3) (\<lambda>((status, change), r4).
              adjust_upload xc client status change r4)) = Inr r'"
    using assms(5) by (auto simp: enactDecision_def seq_eq_Inr_iff)
  from r1 have content: "response = None" "change = None" "rx_server r1 = rx_server r" "rx_client r1 = rx_client r"
    by (auto simp: on_content_def getContent_def plan parsing_failed_def local_plan_def seq_eq_Inr_iff split: if_splits)
  then have "r2 = r1" using r2 by (simp add: adjust_upload_def)
  with r3 content assms(3) have started: "data = None" "src = Some source" "rx_server r3 = rx_server r" "cm_bysock (rx_client r3) = cm_bysock (rx_client r)"
    by (auto simp: on_client_def cm_startData_def seq_eq_Inr_iff)
  then obtain r4 where r4: "end_download xc client r3 = Inr r4" "closeClient xc (Some source) r4 = Inr r'"
    using r' by (auto simp: seq_eq_Inr_iff)
  from r4(1) have "rx_server r4 = rx_server r3" "rx_client r4 = rx_client r3"
    by (auto simp: end_download_def on_content_def seq_eq_Inr_iff)
  with closeClient_count [OF r4(2) assms(4)] started assms(3) show ?thesis by (auto simp: counts_def fun_eq_iff)
qed

theorem bad_decision_counted_out_witness:
  "\<exists>r. enactDecision example_reactor_conf web_env (4, Some ''download'', Fields []) (web_reactor\<lparr>rx_content := ContentManager_init three_events\<rparr>) = Inr r
     \<and> cm_bysock (rx_client r) 4 = Some (gone_client, ''web'') \<and> sv_client_count (rx_server r ''web'') = 0"
proof -
  let ?r = "web_reactor\<lparr>rx_content := ContentManager_init three_events\<rparr>"
  have "\<exists>r. enactDecision example_reactor_conf web_env (4, Some ''download'', Fields []) ?r = Inr r"
    by (simp add: enactDecision_def on_content_def getContent_def plan_content_def unpack_def parsing_failed_def local_plan_def ct_hasClient_def
        adjust_upload_def on_client_def cm_startData_def web_reactor_def end_download_def ct_endClientDownload_def ContentManager_init_def
        ClientManager_init_def closeClient_def on_server_def sources_def Server_notifyClose_def Server_init_def)
  then obtain r where r: "enactDecision example_reactor_conf web_env (4, Some ''download'', Fields []) ?r = Inr r" by blast
  have "(''download'', 5) \<in> command_arity" by (simp add: command_arity_def)
  from bad_decision_counted_out [OF this _ _ _ r, of gone_client "''web''"] r show ?thesis
    by (simp add: unpack_def web_reactor_def sources_def)
qed

text \<open>A decision whose host is empty raises when the redirector's answer is read, as the dispatcher has no \<open>showInternalError\<close>: the exception ends the loop of the reactor, whatever else there was to do.\<close>

theorem empty_host_raises:
  assumes "resolvable command" "cm_lookupSocket name (rx_client r) = Some client"
    and "ev_decision re = (Some name, Some command, Fields ([] # args))"
  shows "reactor_loop xc ([(''read_redirector'', (s, re) # others)] # polls) r = Some (Inl AttributeError)"
proof -
  let ?r = "r\<lparr>rx_nb_loops := rx_nb_loops r + 1, rx_nb_events := rx_nb_events r + length ((s, re) # others)\<rparr>"
  have "readRedirector xc re ?r = Inl AttributeError"
    using assms by (simp add: readRedirector_def resolves_def decision_host_def isip_def isipv4_def isipv6_def inet_pton4_def inet_pton6_def
        on_resolver_def startResolving_def extractHostname_def)
  then show ?thesis by (simp add: reactor_turn_def handle_one_def opening_client_def read_client_def write_client_def opening_download_def
      read_download_def write_download_def)
qed

theorem empty_host_raises_witness:
  "reactor_loop example_reactor_conf [[(''read_redirector'', [(3, example_reactor_env\<lparr>ev_decision := (Some ''1'', Some ''connect'', Fields [[], ''443'', []])\<rparr>)])]]
    (web_reactor\<lparr>rx_client := (rx_client web_reactor)\<lparr>cm_byname := [''1'' \<mapsto> 4]\<rparr>\<rparr>) = Some (Inl AttributeError)"
  by (rule empty_host_raises) (simp_all add: resolvable_def cm_lookupSocket_def)

end
