(* ===== verification/RedirectorProcess.thy ===== *)
theory RedirectorProcess
  imports RedirectorPool
begin

text \<open>
  \<open>lib/exaproxy/reactor/redirector/reactor.py\<close> and \<open>supervisor.py\<close>: the process of the redirectors, which
  reads requests from one pipe, hands them to the pool, writes the decisions to another, and obeys the
  commands of the proxy.
\<close>

section \<open>State\<close>

text \<open>
  \<open>rp_read\<close> is what has been read from the pipe of the requests and \<open>rp_sent\<close> what has been written to that
  of the decisions; \<open>rp_stats\<close> are the answers to the commands: the identifier, \<open>forked\<close>, \<open>min\<close>, \<open>max\<close> and
  \<open>queue\<close>.
\<close>

record ('m, 'p) process =
  rp_pool :: "('m, 'p) pool"
  rp_read :: "request_args list"
  rp_sent :: "(string option \<times> string \<times> 'm decision) list"
  rp_stats :: "(nat \<times> int \<times> int \<times> int \<times> int) list"
  rp_respawn :: bool

record 'p process_conf =
  pc_add :: "'p poller_op"
  pc_remove :: "'p poller_op"
  pc_create :: "nat \<Rightarrow> worker option"

text \<open>What the set of the available workers and the children answer during a turn.\<close>

record 'm children =
  ch_pick :: "nat list \<Rightarrow> nat"
  ch_decide :: "worker \<Rightarrow> request_args \<Rightarrow> 'm verdict_of"
  ch_progress :: "worker \<Rightarrow> request_args \<Rightarrow> 'm decision \<Rightarrow> 'm verdict_of"

text \<open>
  What the poller reports: whether a command has come, the request to be read (\<open>Some None\<close> is a message
  that cannot be read) and the outputs of the workers.
\<close>

record process_events =
  pr_control :: bool
  pr_request :: "request_args option option"
  pr_workers :: "sock list"

section \<open>The reactor\<close>

definition send_decision :: "string option \<times> string option \<times> 'm decision \<Rightarrow> ('m, 'p) process \<Rightarrow> ('m, 'p) process" where
  "send_decision d st =
     (case d of
        (client_id, Some command, decision) \<Rightarrow> st\<lparr>rp_sent := rp_sent st @ [(client_id, command, decision)]\<rparr>
      | _ \<Rightarrow> st)"

definition process_doqueue :: "'p process_conf \<Rightarrow> 'm children \<Rightarrow> ('m, 'p) process \<Rightarrow> (bool \<times> ('m, 'p) process) res" where
  "process_doqueue cf ch st =
     seq (pool_doqueue (pc_remove cf) (ch_pick ch) (ch_decide ch) (rp_pool st)) (\<lambda>((client_id, command, decision), m).
     Inr (command \<noteq> None, send_decision (client_id, command, decision) (st\<lparr>rp_pool := m\<rparr>)))"

text \<open>The first loop of \<open>run\<close>: it goes on while the queue gives commands.\<close>

partial_function (option) drain_queue :: "'p process_conf \<Rightarrow> 'm children \<Rightarrow> ('m, 'p) process \<Rightarrow> ('m, 'p) process res option" where
  "drain_queue cf ch st =
     (case process_doqueue cf ch st of
        Inl e \<Rightarrow> Some (Inl e)
      | Inr (go, st') \<Rightarrow> if go then drain_queue cf ch st' else Some (Inr st'))"

definition process_request :: "'p process_conf \<Rightarrow> 'm children \<Rightarrow> request_args \<Rightarrow> ('m, 'p) process \<Rightarrow> ('m, 'p) process res" where
  "process_request cf ch args st =
     seq (pool_request (pc_remove cf) (ch_pick ch) (ch_decide ch) args False (rp_pool st)) (\<lambda>((_, command, decision), m).
     Inr (send_decision (Some (ra_client_id args), command, decision) (st\<lparr>rp_pool := m, rp_read := rp_read st @ [args]\<rparr>)))"

definition process_decision :: "'p process_conf \<Rightarrow> 'm children \<Rightarrow> sock \<Rightarrow> ('m, 'p) process \<Rightarrow> ('m, 'p) process res" where
  "process_decision cf ch pipe_in st =
     seq (pool_getDecision (pc_remove cf) (ch_pick ch) (ch_decide ch) (ch_progress ch) pipe_in (rp_pool st)) (\<lambda>(d, m).
     Inr (send_decision d (st\<lparr>rp_pool := m\<rparr>)))"

text \<open>A turn of the second loop: what \<open>run\<close> returns, when it returns in this turn, and the state.\<close>

definition process_turn :: "'p process_conf \<Rightarrow> 'm children \<Rightarrow> process_events \<Rightarrow> ('m, 'p) process \<Rightarrow>
    (bool option \<times> ('m, 'p) process) res" where
  "process_turn cf ch events st =
     (if pr_control events then Inr (Some True, st)
      else if pr_request events = Some None then Inr (Some False, st)
      else
        seq (case pr_request events of Some (Some args) \<Rightarrow> process_request cf ch args st | _ \<Rightarrow> Inr st) (\<lambda>st1.
        seq (for_each (process_decision cf ch) (pr_workers events) st1) (\<lambda>st2.
        seq (for_each (\<lambda>_ s. seq (process_doqueue cf ch s) (\<lambda>(_, s'). Inr s')) (pr_workers events) st2) (\<lambda>st3.
        Inr (None, st3)))))"

text \<open>
  The second loop, which ends by itself or when the alarm of the supervisor clears \<open>running\<close>: the list is
  what the poller reports until then.
\<close>

fun process_loop :: "'p process_conf \<Rightarrow> ('m children \<times> process_events) list \<Rightarrow> ('m, 'p) process \<Rightarrow>
    (bool \<times> ('m, 'p) process) res" where
  "process_loop cf [] st = Inr (True, st)"
| "process_loop cf ((ch, events) # polls) st =
     seq (process_turn cf ch events st) (\<lambda>(status, st').
     case status of Some b \<Rightarrow> Inr (b, st') | None \<Rightarrow> process_loop cf polls st')"

definition process_run :: "'p process_conf \<Rightarrow> 'm children \<Rightarrow> ('m children \<times> process_events) list \<Rightarrow> ('m, 'p) process \<Rightarrow>
    (bool \<times> ('m, 'p) process) res option" where
  "process_run cf ch polls st = oseq (drain_queue cf ch st) (\<lambda>st'. Some (process_loop cf polls st'))"

section \<open>The supervisor\<close>

definition on_pool :: "(('m, 'p) pool \<Rightarrow> ('m, 'p) pool res) \<Rightarrow> ('m, 'p) process \<Rightarrow> ('m, 'p) process res" where
  "on_pool f st = seq (f (rp_pool st)) (\<lambda>m. Inr (st\<lparr>rp_pool := m\<rparr>))"

text \<open>\<open>xrange\<close> of a number below zero is empty. \<open>nows\<close> are the times of the calls.\<close>

definition increase_spawn_limit :: "'p process_conf \<Rightarrow> int \<Rightarrow> ('m, 'p) pool \<Rightarrow> ('m, 'p) pool res" where
  "increase_spawn_limit cf n m =
     (let low = pl_low m + n; m1 = m\<lparr>pl_low := low, pl_high := max low (pl_high m)\<rparr>
      in pool_increase (pc_add cf) (pc_create cf) (nat n) m1)"

definition decrease_spawn_limit :: "'p process_conf \<Rightarrow> (nat \<Rightarrow> nat) \<Rightarrow> int \<Rightarrow> ('m, 'p) pool \<Rightarrow> ('m, 'p) pool res" where
  "decrease_spawn_limit cf nows n m =
     (let high = max 1 (pl_high m - n); m1 = m\<lparr>pl_high := high, pl_low := min high (pl_low m)\<rparr>
      in pool_decrease (pc_remove cf) (map nows [0..<nat n]) m1)"

definition send_stats :: "nat \<Rightarrow> ('m, 'p) process \<Rightarrow> ('m, 'p) process" where
  "send_stats identifier st =
     st\<lparr>rp_stats := rp_stats st @ [(identifier, pool_size (rp_pool st), pl_low (rp_pool st), pl_high (rp_pool st),
        int (length (pl_queue (rp_pool st))))]\<rparr>"

text \<open>\<open>control\<close>: the message that was received, and whether the process goes on.\<close>

definition process_control :: "'p process_conf \<Rightarrow> (nat \<Rightarrow> nat) \<Rightarrow> (nat \<times> string \<times> int list) option \<Rightarrow> ('m, 'p) process \<Rightarrow>
    (bool \<times> ('m, 'p) process) res" where
  "process_control cf nows message st =
     (case message of
        None \<Rightarrow> Inr (False, st)
      | Some (identifier, command, data) \<Rightarrow>
          seq (if command = ''STATS'' then Inr (send_stats identifier st)
               else if command = ''INCREASE'' then
                 seq (py_first data) (\<lambda>n. on_pool (increase_spawn_limit cf n) st)
               else if command = ''DECREASE'' then
                 seq (py_first data) (\<lambda>n. on_pool (decrease_spawn_limit cf nows n) st)
               else if command = ''RESPAWN'' then Inr (st\<lparr>rp_respawn := True\<rparr>)
               else Inr st) (\<lambda>st1.
          Inr (\<not> (command = ''STOP'' \<or> command = []), st1)))"

fun process_controls :: "'p process_conf \<Rightarrow> (nat \<Rightarrow> nat) \<Rightarrow> (nat \<times> string \<times> int list) option list \<Rightarrow> ('m, 'p) process \<Rightarrow>
    (bool \<times> ('m, 'p) process) res" where
  "process_controls cf nows [] st = Inr (True, st)"
| "process_controls cf nows (message # messages) st =
     seq (process_control cf nows message st) (\<lambda>(go, st').
     if go then process_controls cf nows messages st' else Inr (False, st'))"

text \<open>
  A round of the loop of \<open>run\<close>: the counters, what the reactor's run returned and, when it goes on, the
  work of the supervisor. The alarm comes every second: workers are added every 5 and removed every 60.
\<close>

record 'm round =
  rd_drain :: "'m children"
  rd_polls :: "('m children \<times> process_events) list"
  rd_nows :: "nat \<Rightarrow> nat"
  rd_messages :: "(nat \<times> string \<times> int list) option list"

definition process_upkeep :: "'p process_conf \<Rightarrow> (nat \<Rightarrow> nat) \<Rightarrow> nat \<Rightarrow> nat \<Rightarrow> ('m, 'p) process \<Rightarrow> ('m, 'p) process res" where
  "process_upkeep cf nows count_increase count_decrease st =
     seq (if count_increase = 0 then on_pool (pool_provision (pc_add cf) (pc_create cf)) st else Inr st) (\<lambda>st1.
     seq (if count_decrease = 0 then on_pool (pool_deprovision (pc_remove cf) (nows 0)) st1 else Inr st1) (\<lambda>st2.
     if rp_respawn st2 then
       on_pool (pool_respawn (pc_add cf) (pc_remove cf) (pc_create cf)) (st2\<lparr>rp_respawn := False\<rparr>)
     else Inr st2))"

definition process_round :: "'p process_conf \<Rightarrow> 'm round \<Rightarrow> nat \<times> nat \<times> ('m, 'p) process \<Rightarrow>
    (bool \<times> nat \<times> nat \<times> ('m, 'p) process) res option" where
  "process_round cf rd s =
     (case s of (count_increase, count_decrease, st) \<Rightarrow>
        let i = (count_increase + 1) mod 5; d = (count_decrease + 1) mod 60 in
        oseq (process_run cf (rd_drain rd) (rd_polls rd) st) (\<lambda>(status, st1).
        if \<not> status then Some (Inr (False, i, d, st1))
        else
          Some (seq (process_upkeep cf (rd_nows rd) i d st1) (\<lambda>st2.
          seq (process_controls cf (rd_nows rd) (rd_messages rd) st2) (\<lambda>(go, st3).
          Inr (go, i, d, st3))))))"

text \<open>\<open>run\<close>: the process kills its workers before it ends; \<open>True\<close> when it is still running.\<close>

fun process_rounds :: "'p process_conf \<Rightarrow> 'm round list \<Rightarrow> nat \<times> nat \<times> ('m, 'p) process \<Rightarrow>
    (bool \<times> ('m, 'p) process) res option" where
  "process_rounds cf [] s = Some (Inr (True, snd (snd s)))"
| "process_rounds cf (rd # rds) s =
     oseq (process_round cf rd s) (\<lambda>(go, s').
     if go then process_rounds cf rds s'
     else Some (seq (on_pool (pool_kill_workers (pc_remove cf)) (snd (snd s'))) (\<lambda>st. Inr (False, st))))"

definition process_start :: "'p process_conf \<Rightarrow> int \<Rightarrow> int \<Rightarrow> 'p \<Rightarrow> ('m, 'p) process res" where
  "process_start cf low high p =
     seq (pool_startup (pc_add cf) (pc_create cf) (RedirectorManager_init low high p)) (\<lambda>m.
     Inr \<lparr>rp_pool = m, rp_read = [], rp_sent = [], rp_stats = [], rp_respawn = False\<rparr>)"

section \<open>No request is lost\<close>

text \<open>The requests that are with the pool, by their client: those in the queue and those of busy workers.\<close>

definition with_pool :: "('m, 'p) pool \<Rightarrow> string multiset" where
  "with_pool m = image_mset (\<lambda>(args, t). ra_client_id args) (mset (pl_queue m))
     + image_mset (\<lambda>wid. ra_client_id (fst (the (pl_active m wid)))) (mset_set (dom (pl_active m)))"

definition answered :: "('m, 'p) process \<Rightarrow> string multiset" where
  "answered st = mset (map (\<lambda>(client_id, _). the client_id) (rp_sent st))"

definition accounted :: "('m, 'p) process \<Rightarrow> bool" where
  "accounted st \<longleftrightarrow> image_mset ra_client_id (mset (rp_read st)) = with_pool (rp_pool st) + answered st"

lemma with_pool_cong: "pl_queue m' = pl_queue m \<Longrightarrow> pl_active m' = pl_active m \<Longrightarrow> with_pool m' = with_pool m"
  by (simp add: with_pool_def)

lemma with_pool_queue:
  "pl_queue m = (args, t) # queue \<Longrightarrow> with_pool m = add_mset (ra_client_id args) (with_pool (m\<lparr>pl_queue := queue\<rparr>))"
  by (simp add: with_pool_def)

lemma with_pool_busy:
  assumes "pl_active m wid = None" "finite (dom (pl_active m))"
    and "pl_active m' = (pl_active m)(wid \<mapsto> (args, d, t))" "pl_queue m' = pl_queue m"
  shows "with_pool m' = add_mset (ra_client_id args) (with_pool m)"
proof -
  have "wid \<notin> dom (pl_active m)" using assms(1) by auto
  moreover from this have "image_mset (\<lambda>x. ra_client_id (fst (the (((pl_active m)(wid \<mapsto> (args, d, t))) x)))) (mset_set (dom (pl_active m)))
      = image_mset (\<lambda>x. ra_client_id (fst (the (pl_active m x)))) (mset_set (dom (pl_active m)))"
    using assms(2) by (intro image_mset_cong) auto
  ultimately show ?thesis using assms(2-) by (simp add: with_pool_def)
qed

lemma with_pool_kept:
  assumes "request_kept args m m'" "finite (dom (pl_active m))"
  shows "with_pool m' = add_mset (ra_client_id args) (with_pool m)"
  using assms(1) unfolding request_kept_def
proof (elim disjE exE conjE)
  fix t
  assume "pl_queue m' = pl_queue m @ [(args, t)]" "pl_active m' = pl_active m"
  then show ?thesis by (simp add: with_pool_def)
qed (use with_pool_busy [OF _ assms(2)] in blast)

lemma with_pool_taken:
  assumes "pl_active m wid = Some (args, d, t)" "finite (dom (pl_active m))"
  shows "with_pool m = add_mset (ra_client_id args) (with_pool (job_taken wid m))"
  by (rule with_pool_busy [of _ wid _ _ d t]) (use assms in \<open>auto simp: job_taken_def dom_fun_upd\<close>)

lemma pool_ok_finite: "pool_ok known watched ok held m \<Longrightarrow> finite (dom (pl_active m))"
  by (rule finite_subset [OF _ finite_pool_ids]) (auto dest: pool_okD(4))

lemma answered_send:
  "answered (send_decision (Some c, Some command, d) st) = add_mset c (answered st)"
  "answered (send_decision (c', None, d) st) = answered st"
  "answered (st\<lparr>rp_pool := m\<rparr>) = answered st" "answered (st\<lparr>rp_pool := m, rp_read := xs\<rparr>) = answered st"
  by (simp_all add: answered_def send_decision_def split: option.split)

lemma send_decision_pool [simp]: "rp_pool (send_decision d st) = rp_pool st" "rp_read (send_decision d st) = rp_read st"
  by (simp_all add: send_decision_def split: prod.split option.split)

definition process_ok :: "(event_name \<Rightarrow> 'p \<Rightarrow> bool) \<Rightarrow> (event_name \<Rightarrow> 'p \<Rightarrow> sock set) \<Rightarrow> ('p \<Rightarrow> bool) \<Rightarrow> ('m, 'p) process \<Rightarrow> bool" where
  "process_ok known watched ok st \<longleftrightarrow> pool_ok known watched ok {} (rp_pool st) \<and> accounted st"

lemma accounted_send:
  assumes "accounted st" "with_pool (rp_pool st) = add_mset client (with_pool m0)"
    and "if c = None then with_pool m' = add_mset client (with_pool m0) else with_pool m' = with_pool m0"
  shows "accounted (send_decision (Some client, c, d) (st\<lparr>rp_pool := m'\<rparr>))"
  using assms by (cases c) (auto simp: accounted_def answered_send)

context poller
begin

lemma request_done_with:
  assumes "pok {} m" "request_done n args m (client, c, d) m'"
  shows "client = ra_client_id args
    \<and> (if c = None then with_pool m' = add_mset (ra_client_id args) (with_pool m) else with_pool m' = with_pool m)"
  using assms(2) with_pool_kept [OF _ pool_ok_finite [OF assms(1)]] with_pool_cong [of m' m]
  by (auto simp: request_done_def)

lemma doqueue_kept:
  assumes "process_ok known watched inv st" "pc_remove cf = remove"
  shows "\<exists>go st'. process_doqueue cf ch st = Inr (go, st') \<and> process_ok known watched inv st'
    \<and> (go \<longrightarrow> length (pl_queue (rp_pool st')) < length (pl_queue (rp_pool st)))"
proof -
  let ?m = "rp_pool st"
  have ok: "pok {} ?m" and acc: "accounted st" using assms(1) by (simp_all add: process_ok_def)
  show ?thesis
  proof (cases "pl_queue ?m = [] \<or> pl_available ?m = []")
    case True
    then have "pool_doqueue remove (ch_pick ch) (ch_decide ch) ?m = Inr ((None, None, NoDecision), ?m)"
      by (auto simp: pool_doqueue_def split: list.split)
    then show ?thesis using assms by (intro exI [of _ False] exI [of _ st]) (simp add: process_doqueue_def send_decision_def)
  next
    case False
    then obtain args t queue where q: "pl_queue ?m = (args, t) # queue" using False by (cases "pl_queue ?m") auto
    let ?mq = "?m\<lparr>pl_queue := queue\<rparr>"
    have m0: "pok {} ?mq" by (rule pok_cong [OF ok]) (use pool_okD(3-8) [OF ok] in auto)
    have w: "with_pool ?m = add_mset (ra_client_id args) (with_pool ?mq)" by (rule with_pool_queue [OF q])
    from request_ok [OF m0, of "ch_pick ch" "ch_decide ch" args t] obtain client c d m' where
      r: "pool_request remove (ch_pick ch) (ch_decide ch) args t ?mq = Inr ((client, c, d), m')" "pok {} m'"
        "request_done 2 args ?mq (client, c, d) m'" by (metis prod_cases3)
    have "process_doqueue cf ch st = Inr (c \<noteq> None, send_decision (Some (ra_client_id args), c, d) (st\<lparr>rp_pool := m'\<rparr>))"
      using False q r(1) assms(2) by (simp add: process_doqueue_def pool_doqueue_def)
    moreover have "accounted (send_decision (Some (ra_client_id args), c, d) (st\<lparr>rp_pool := m'\<rparr>))"
      by (rule accounted_send [OF acc w]) (use request_done_with [OF m0 r(3)] in simp)
    moreover have "c \<noteq> None \<longrightarrow> length (pl_queue m') < length (pl_queue ?m)" using r(3) q by (simp add: request_done_def)
    ultimately show ?thesis using r(2) by (simp add: process_ok_def)
  qed
qed

lemma drain_kept:
  assumes "process_ok known watched inv st" "pc_remove cf = remove"
  shows "\<exists>st'. drain_queue cf ch st = Some (Inr st') \<and> process_ok known watched inv st'"
  using assms
proof (induction "length (pl_queue (rp_pool st))" arbitrary: st rule: less_induct)
  case less
  from doqueue_kept [OF less.prems, of ch] obtain go st' where
    d: "process_doqueue cf ch st = Inr (go, st')" "process_ok known watched inv st'"
      "go \<longrightarrow> length (pl_queue (rp_pool st')) < length (pl_queue (rp_pool st))" by blast
  show ?case
  proof (cases go)
    case True
    with less.hyps [of st'] d less.prems(2) show ?thesis by (subst drain_queue.simps) simp
  next
    case False
    with d show ?thesis by (subst drain_queue.simps) simp
  qed
qed

lemma process_request_kept:
  assumes "process_ok known watched inv st" "pc_remove cf = remove"
  shows "\<exists>st'. process_request cf ch args st = Inr st' \<and> process_ok known watched inv st'"
proof -
  let ?m = "rp_pool st"
  have ok: "pok {} ?m" and acc: "accounted st" using assms(1) by (simp_all add: process_ok_def)
  from request_ok [OF ok, of "ch_pick ch" "ch_decide ch" args False] obtain client c d m' where
    r: "pool_request remove (ch_pick ch) (ch_decide ch) args False ?m = Inr ((client, c, d), m')" "pok {} m'"
      "request_done 2 args ?m (client, c, d) m'" by (metis prod_cases3)
  let ?st = "send_decision (Some (ra_client_id args), c, d) (st\<lparr>rp_pool := m', rp_read := rp_read st @ [args]\<rparr>)"
  have "accounted ?st"
    using acc request_done_with [OF ok r(3)] by (cases c) (auto simp: accounted_def answered_send)
  with r assms(2) show ?thesis by (simp add: process_request_def process_ok_def)
qed

lemma process_decision_kept:
  assumes "process_ok known watched inv st" "pc_remove cf = remove"
  shows "\<exists>st'. process_decision cf ch i st = Inr st' \<and> process_ok known watched inv st'"
proof -
  let ?m = "rp_pool st"
  have ok: "pok {} ?m" and acc: "accounted st" using assms(1) by (simp_all add: process_ok_def)
  have idle: "?thesis" if "pool_getDecision remove (ch_pick ch) (ch_decide ch) (ch_progress ch) i ?m = Inr ((None, None, NoDecision), m')"
    "pok {} m'" "pl_active m' = pl_active ?m" "pl_queue m' = pl_queue ?m" for m'
    using that assms(2) acc with_pool_cong [of m' ?m]
    by (simp add: process_decision_def process_ok_def send_decision_def accounted_def answered_send)
  show ?thesis
  proof (cases "pl_processes ?m i")
    case None
    then show ?thesis by (intro idle [OF _ ok]) (simp_all add: pool_getDecision_def)
  next
    case (Some w)
    show ?thesis
    proof (cases "pl_active ?m (wk_wid w)")
      case None
      with reap_any [OF ok None] Some obtain m' where "pool_getDecision remove (ch_pick ch) (ch_decide ch) (ch_progress ch) i ?m = Inr ((None, None, NoDecision), m')"
        "pok {} m'" "pl_active m' = pl_active ?m" "pl_queue m' = pl_queue ?m" by (auto simp: pool_getDecision_def)
      then show ?thesis by (rule idle)
    next
      case active: (Some job)
      obtain args data t where job: "job = (args, data, t)" by (cases job)
      from getDecision_ok [OF ok Some active [unfolded job], of "ch_pick ch" "ch_decide ch" "ch_progress ch"] obtain c d m' where
        r: "pool_getDecision remove (ch_pick ch) (ch_decide ch) (ch_progress ch) i ?m = Inr ((Some (ra_client_id args), c, d), m')" "pok {} m'"
          "if c = None then \<not> t \<and> d = NoDecision \<and> request_kept args (job_taken (wk_wid w) ?m) m'
           else pl_queue m' = pl_queue ?m \<and> pl_active m' = (pl_active ?m)(wk_wid w := None)" by blast
      have fin: "finite (dom (pl_active (job_taken (wk_wid w) ?m)))"
        using pool_ok_finite [OF ok] by (simp add: job_taken_def dom_fun_upd)
      have "accounted (send_decision (Some (ra_client_id args), c, d) (st\<lparr>rp_pool := m'\<rparr>))"
        by (rule accounted_send [OF acc with_pool_taken [OF active [unfolded job] pool_ok_finite [OF ok]]])
           (use r(3) with_pool_kept [OF _ fin] with_pool_cong [of m' "job_taken (wk_wid w) ?m"] in \<open>auto simp: job_taken_def\<close>)
      with r assms(2) show ?thesis by (simp add: process_decision_def process_ok_def)
    qed
  qed
qed

lemma for_each_kept:
  assumes "\<And>x st. process_ok known watched inv st \<Longrightarrow> \<exists>st'. f x st = Inr st' \<and> process_ok known watched inv st'"
    and "process_ok known watched inv st"
  shows "\<exists>st'. for_each f xs st = Inr st' \<and> process_ok known watched inv st'"
  using assms(2)
proof (induction xs arbitrary: st)
  case (Cons x xs)
  from assms(1) [OF Cons.prems, of x] Cons.IH show ?case by fastforce
qed simp

lemma process_turn_kept:
  assumes "process_ok known watched inv st" "pc_remove cf = remove"
  shows "\<exists>b st'. process_turn cf ch events st = Inr (b, st') \<and> process_ok known watched inv st'"
proof (cases "pr_control events \<or> pr_request events = Some None")
  case True
  with assms(1) show ?thesis by (auto simp: process_turn_def)
next
  case False
  have "\<exists>st1. (case pr_request events of Some (Some args) \<Rightarrow> process_request cf ch args st | _ \<Rightarrow> Inr st) = Inr st1
    \<and> process_ok known watched inv st1"
    using process_request_kept [OF assms] assms(1) by (auto split: option.split)
  then obtain st1 where st1: "(case pr_request events of Some (Some args) \<Rightarrow> process_request cf ch args st | _ \<Rightarrow> Inr st) = Inr st1"
    "process_ok known watched inv st1" by blast
  have "\<exists>st'. process_decision cf ch i st = Inr st' \<and> process_ok known watched inv st'" if "process_ok known watched inv st" for i st
    by (rule process_decision_kept [OF that assms(2)])
  from for_each_kept [where f = "process_decision cf ch" and xs = "pr_workers events", OF this st1(2)] obtain st2 where
    st2: "for_each (process_decision cf ch) (pr_workers events) st1 = Inr st2" "process_ok known watched inv st2" by blast
  have "\<exists>st'. seq (process_doqueue cf ch st) (\<lambda>(_, s'). Inr s') = Inr st' \<and> process_ok known watched inv st'"
    if "process_ok known watched inv st" for st
    using doqueue_kept [OF that assms(2), of ch] by auto
  from for_each_kept [where f = "\<lambda>_ s. seq (process_doqueue cf ch s) (\<lambda>(_, s'). Inr s')" and xs = "pr_workers events", OF this st2(2)] obtain st3 where
    st3: "for_each (\<lambda>_ s. seq (process_doqueue cf ch s) (\<lambda>(_, s'). Inr s')) (pr_workers events) st2 = Inr st3"
      "process_ok known watched inv st3" by blast
  show ?thesis using False st1 st2 st3 by (auto simp: process_turn_def)
qed

lemma process_run_kept:
  assumes "process_ok known watched inv st" "pc_remove cf = remove"
  shows "\<exists>b st'. process_run cf ch polls st = Some (Inr (b, st')) \<and> process_ok known watched inv st'"
proof -
  have loop: "\<exists>b st'. process_loop cf polls st = Inr (b, st') \<and> process_ok known watched inv st'"
    if "process_ok known watched inv st" for st
    using that
  proof (induction polls arbitrary: st)
    case (Cons x polls)
    obtain ch events where x: "x = (ch, events)" by (cases x)
    from process_turn_kept [OF Cons.prems assms(2), of ch events] obtain b st' where
      "process_turn cf ch events st = Inr (b, st')" "process_ok known watched inv st'" by blast
    with Cons.IH [of st'] x show ?case by (cases b) auto
  qed (use assms in auto)
  from drain_kept [OF assms, of ch] obtain st1 where "drain_queue cf ch st = Some (Inr st1)" "process_ok known watched inv st1" by blast
  with loop [of st1] show ?thesis by (auto simp: process_run_def)
qed

end

section \<open>The limits\<close>

definition limits :: "('m, 'p) pool \<Rightarrow> int \<times> int" where
  "limits m = (pl_low m, pl_high m)"

definition limits_ok :: "int \<times> int \<Rightarrow> bool" where
  "limits_ok l \<longleftrightarrow> 1 \<le> fst l \<and> fst l \<le> snd l"

lemma limits_for_each:
  assumes "for_each f xs m = Inr m'" "\<And>x m m'. f x m = Inr m' \<Longrightarrow> limits m' = limits m"
  shows "limits m' = limits m"
  using assms(1) by (rule for_each_invariant [where P = "\<lambda>n. limits n = limits m"]) (auto dest: assms(2))

lemma limits_reap: "pool_reap remove wid m = Inr m' \<Longrightarrow> limits m' = limits m"
  by (auto simp: pool_reap_def limits_def seq_eq_Inr_iff Let_def split: option.splits if_splits)

lemma limits_stop: "pool_stopWorker remove wid m = Inr m' \<Longrightarrow> limits m' = limits m"
  by (auto simp: pool_stopWorker_def limits_def [of "_\<lparr>pl_stopping := _\<rparr>"] split: if_splits dest: limits_reap) (simp add: limits_def)

lemma limits_release: "pool_release remove wid m = Inr m' \<Longrightarrow> limits m' = limits m"
  by (auto simp: pool_release_def split: if_splits dest: limits_reap) (simp add: limits_def)

lemma limits_spawn: "pool_spawn add create n m = Inr m' \<Longrightarrow> limits m' = limits m"
  unfolding pool_spawn_def
  by (erule limits_for_each) (auto simp: pool_spawn1_def pool_getid_def limits_def seq_eq_Inr_iff Let_def split: option.splits)

lemma limits_oldest: "pool_stop_oldest remove now m = Inr m' \<Longrightarrow> limits m' = limits m"
  by (auto simp: pool_stop_oldest_def split: option.splits dest: limits_stop)

lemma limits_acquire: "pool_acquire pick m = (w, m') \<Longrightarrow> limits m' = limits m"
  by (auto simp: pool_acquire_def limits_def split: prod.splits)

lemma limits_request:
  "pool_request remove pick decide args tainted m = Inr (r, m') \<Longrightarrow> limits m' = limits m"
proof (induction remove pick decide args tainted m arbitrary: r m' rule: pool_request.induct)
  case (1 remove pick decide args tainted m)
  obtain w m1 where a: "pool_acquire pick m = (w, m1)" by fastforce
  note l = limits_acquire [OF a]
  note u = 1(2) [unfolded pool_request.simps [of remove pick decide args tainted m]]
  have persist: "limits (pool_persist wid args d t n) = limits n" for wid d t n by (simp add: pool_persist_def limits_def)
  show ?case
  proof (cases w)
    case None
    with u a l show ?thesis by (auto simp: limits_def)
  next
    case (Some x)
    obtain command decision where c: "command_of (decide x args) = (command, decision)" by fastforce
    have final: "limits m' = limits n"
      if "(if command = Some ''defer'' then Inr ((ra_client_id args, None, NoDecision), pool_persist (wk_wid x) args decision tainted n)
           else seq (pool_release remove (wk_wid x) n) (\<lambda>m4. Inr ((ra_client_id args, command, decision), m4))) = Inr (r, m')"
      for command decision and n :: "('a, 'b) pool"
      using that by (auto simp: persist seq_eq_Inr_iff split: if_splits dest: limits_release)
    show ?thesis
    proof (cases command)
      case None
      with u a Some c obtain m2 where m2: "pool_reap remove (wk_wid x) m1 = Inr m2"
        by (auto simp: seq_eq_Inr_iff)
      show ?thesis
      proof (cases tainted)
        case True
        with u a Some c None m2 l limits_reap [OF m2] show ?thesis
          by (auto simp: seq_eq_Inr_iff dest: limits_release)
      next
        case False
        with u a Some c None m2 obtain client command' decision' m3 where
          r1: "pool_request remove pick decide args True m2 = Inr ((client, command', decision'), m3)"
          by (auto simp: seq_eq_Inr_iff)
        have r2: "(if command' = Some ''defer'' then Inr ((ra_client_id args, None, NoDecision), pool_persist (wk_wid x) args decision' tainted m3)
           else seq (pool_release remove (wk_wid x) m3) (\<lambda>m4. Inr ((ra_client_id args, command', decision'), m4))) = Inr (r, m')"
          using u a Some c None m2 r1 False by simp
        have "limits m3 = limits m2" 
          by (rule 1(1) [OF a [symmetric] Some refl c [symmetric] None m2 _ r1]) (use False in simp)
        with final [OF r2] limits_reap [OF m2] l show ?thesis by simp
      qed
    next
      case (Some y)
      with u a \<open>w = Some x\<close> c have "(if command = Some ''defer'' then Inr ((ra_client_id args, None, NoDecision), pool_persist (wk_wid x) args decision tainted m1)
           else seq (pool_release remove (wk_wid x) m1) (\<lambda>m4. Inr ((ra_client_id args, command, decision), m4))) = Inr (r, m')"
        by (simp split: if_splits)
      from final [OF this] l show ?thesis by simp
    qed
  qed
qed

lemma limits_doqueue: "pool_doqueue remove pick decide m = Inr (r, m') \<Longrightarrow> limits m' = limits m"
  by (auto simp: pool_doqueue_def seq_eq_Inr_iff split: list.splits if_splits dest!: limits_request) (simp add: limits_def)

lemma limits_getDecision:
  assumes "pool_getDecision remove pick decide progress i m = Inr (r, m')"
  shows "limits m' = limits m"
proof -
  have progress: "pool_progress wid m = Inr (job, m1) \<Longrightarrow> limits m1 = limits m" for wid job m1
    by (auto simp: pool_progress_def limits_def seq_eq_Inr_iff)
  show ?thesis
  proof (cases "pl_processes m i")
    case None
    with assms show ?thesis by (simp add: pool_getDecision_def)
  next
    case (Some w)
    show ?thesis
    proof (cases "pl_active m (wk_wid w)")
      case None
      with assms Some show ?thesis by (auto simp: pool_getDecision_def seq_eq_Inr_iff dest: limits_reap)
    next
      case active: (Some job)
      obtain args data tainted where job: "job = (args, data, tainted)" by (cases job)
      obtain command decision where c: "command_of (progress w args data) = (command, decision)" by fastforce
      have p: "pool_progress (wk_wid w) m = Inr (job, m\<lparr>pl_active := (pl_active m)(wk_wid w := None)\<rparr>)"
        using active by (simp add: pool_progress_def)
      have u: "seq (pool_release remove (wk_wid w) (m\<lparr>pl_active := (pl_active m)(wk_wid w := None)\<rparr>)) (\<lambda>m2.
          if command = None then
            seq (pool_reap remove (wk_wid w) m2) (\<lambda>m3.
            if \<not> tainted then
              seq (pool_request remove pick decide args True m3) (\<lambda>((_, c, d), m4). Inr ((Some (ra_client_id args), c, d), m4))
            else Inr ((Some (ra_client_id args), Some ''close'', Text []), m3))
          else Inr ((Some (ra_client_id args), command, decision), m2)) = Inr (r, m')"
        using assms Some active p job c by (simp add: pool_getDecision_def)
      show ?thesis
        using u progress [OF p] by (cases command) (auto simp: seq_eq_Inr_iff split: if_splits dest!: limits_request limits_release limits_reap)
    qed
  qed
qed

lemma limits_send [simp]: "limits (rp_pool (send_decision d st)) = limits (rp_pool st)"
  by simp

lemma limits_turn:
  assumes "process_turn cf ch events st = Inr (b, st')"
  shows "limits (rp_pool st') = limits (rp_pool st)"
proof -
  let ?same = "\<lambda>s. limits (rp_pool s) = limits (rp_pool st)"
  have each: "?same t" if "for_each f xs s = Inr t" "?same s" "\<And>x s s'. f x s = Inr s' \<Longrightarrow> limits (rp_pool s') = limits (rp_pool s)"
    for f :: "'x \<Rightarrow> ('a, 'b) process \<Rightarrow> ('a, 'b) process res" and xs s t
    using that(1,2) by (rule for_each_invariant) (simp add: that(3))
  have doq: "process_doqueue cf ch s = Inr (go, s') \<Longrightarrow> limits (rp_pool s') = limits (rp_pool s)" for s go s'
    by (auto simp: process_doqueue_def seq_eq_Inr_iff dest!: limits_doqueue)
  have dec: "process_decision cf ch i s = Inr s' \<Longrightarrow> limits (rp_pool s') = limits (rp_pool s)" for i s s'
    by (auto simp: process_decision_def seq_eq_Inr_iff dest!: limits_getDecision)
  have req: "process_request cf ch args s = Inr s' \<Longrightarrow> limits (rp_pool s') = limits (rp_pool s)" for args s s'
    by (auto simp: process_request_def seq_eq_Inr_iff dest!: limits_request)
  show ?thesis
  proof (cases "pr_control events \<or> pr_request events = Some None")
    case True
    with assms show ?thesis by (auto simp: process_turn_def split: if_splits)
  next
    case False
    with assms obtain st1 st2 where
      st1: "(case pr_request events of Some (Some args) \<Rightarrow> process_request cf ch args st | _ \<Rightarrow> Inr st) = Inr st1"
      and st2: "for_each (process_decision cf ch) (pr_workers events) st1 = Inr st2"
      and st3: "for_each (\<lambda>_ s. seq (process_doqueue cf ch s) (\<lambda>(_, s'). Inr s')) (pr_workers events) st2 = Inr st'"
      by (auto simp: process_turn_def seq_eq_Inr_iff)
    have "?same st1" using st1 by (auto split: option.splits dest: req)
    from each [OF st2 this dec] have "?same st2" .
    then show ?thesis by (rule each [OF st3]) (auto simp: seq_eq_Inr_iff dest: doq)
  qed
qed

lemma limits_loop: "process_loop cf polls st = Inr (b, st') \<Longrightarrow> limits (rp_pool st') = limits (rp_pool st)"
proof (induction polls arbitrary: st)
  case (Cons x polls)
  obtain ch events where x: "x = (ch, events)" by (cases x)
  from Cons.prems x obtain status st1 where "process_turn cf ch events st = Inr (status, st1)"
    "(case status of Some b \<Rightarrow> Inr (b, st1) | None \<Rightarrow> process_loop cf polls st1) = Inr (b, st')"
    by (auto simp: seq_eq_Inr_iff)
  with limits_turn [OF this(1)] Cons.IH [of st1] show ?case by (cases status) auto
qed simp

lemma limits_drain:
  assumes "drain_queue cf ch st = Some result" "result = Inr st'"
  shows "limits (rp_pool st') = limits (rp_pool st)"
  using assms(2)
proof (induction rule: drain_queue.raw_induct [OF _ assms(1), consumes 0, case_names step])
  case (step loop cf ch st result)
  from step.hyps step.prems obtain go st1 where d: "process_doqueue cf ch st = Inr (go, st1)" by (cases "process_doqueue cf ch st") auto
  have same: "limits (rp_pool st1) = limits (rp_pool st)"
    using d by (auto simp: process_doqueue_def seq_eq_Inr_iff dest!: limits_doqueue)
  show ?case
  proof (cases go)
    case True
    with step.hyps d have "loop cf ch st1 = Some result" by simp
    from step.IH [OF this step.prems] same show ?thesis by simp
  next
    case False
    with step.hyps step.prems d same show ?thesis by simp
  qed
qed

lemma limits_run: "process_run cf ch polls st = Some (Inr (b, st')) \<Longrightarrow> limits (rp_pool st') = limits (rp_pool st)"
  by (auto simp: process_run_def oseq_def split: option.splits sum.splits dest!: limits_drain limits_loop)

lemma limits_upkeep:
  assumes "process_upkeep cf nows i d st = Inr st'"
  shows "limits (rp_pool st') = limits (rp_pool st)"
proof -
  have provision: "pool_provision add create m = Inr m' \<Longrightarrow> limits m' = limits m" for add create and m m' :: "('a, 'b) pool"
    by (auto simp: pool_provision_def Let_def seq_eq_Inr_iff split: if_splits dest!: limits_spawn)
  have deprovision: "pool_deprovision remove now m = Inr m' \<Longrightarrow> limits m' = limits m" for remove now and m m' :: "('a, 'b) pool"
    by (auto simp: pool_deprovision_def split: if_splits dest: limits_oldest)
  have respawn: "pool_respawn add remove create m = Inr m' \<Longrightarrow> limits m' = limits m" for add remove create and m m' :: "('a, 'b) pool"
    by (auto simp: pool_respawn_def Let_def seq_eq_Inr_iff dest!: limits_spawn limits_for_each [OF _ limits_stop])
  show ?thesis
    using assms by (auto simp: process_upkeep_def on_pool_def seq_eq_Inr_iff split: if_splits dest!: provision deprovision respawn)
qed

text \<open>A command that changes the limits, with a count that is not negative.\<close>

definition count_ok :: "(nat \<times> string \<times> int list) option \<Rightarrow> bool" where
  "count_ok message = (case message of Some (_, command, n # _) \<Rightarrow> 0 \<le> n | _ \<Rightarrow> True)"

lemma limits_control:
  assumes "process_control cf nows message st = Inr (go, st')" "count_ok message" "limits_ok (limits (rp_pool st))"
  shows "limits_ok (limits (rp_pool st'))"
proof -
  have inc: "limits m' = (pl_low m + n, max (pl_low m + n) (pl_high m))" if "increase_spawn_limit cf n m = Inr m'" for n and m m' :: "('a, 'b) pool"
  proof -
    have "limits m' = limits (m\<lparr>pl_low := pl_low m + n, pl_high := max (pl_low m + n) (pl_high m)\<rparr>)"
      using that unfolding increase_spawn_limit_def Let_def pool_increase_def
      by (rule limits_for_each) (auto simp: pool_increase1_def split: if_splits dest: limits_spawn)
    then show ?thesis by (simp add: limits_def)
  qed
  have dec: "limits m' = (min (max 1 (pl_high m - n)) (pl_low m), max 1 (pl_high m - n))" if "decrease_spawn_limit cf nows n m = Inr m'" for n and m m' :: "('a, 'b) pool"
  proof -
    have "limits m' = limits (m\<lparr>pl_high := max 1 (pl_high m - n), pl_low := min (max 1 (pl_high m - n)) (pl_low m)\<rparr>)"
      using that unfolding decrease_spawn_limit_def Let_def pool_decrease_def
      by (rule limits_for_each) (auto simp: pool_decrease1_def split: if_splits dest: limits_oldest)
    then show ?thesis by (simp add: limits_def)
  qed
  show ?thesis
  proof (cases message)
    case None
    with assms show ?thesis by (simp add: process_control_def)
  next
    case (Some x)
    obtain ack command data where x: "x = (ack, command, data)" by (cases x)
    consider (stats) "command = ''STATS''" | (increase) "command = ''INCREASE''" | (decrease) "command = ''DECREASE''"
      | (respawn) "command = ''RESPAWN''" | (other) "command \<notin> {''STATS'', ''INCREASE'', ''DECREASE'', ''RESPAWN''}" by blast
    then show ?thesis
    proof cases
      case increase
      with assms(1) Some x obtain n ns m' where n: "data = n # ns" "increase_spawn_limit cf n (rp_pool st) = Inr m'" "rp_pool st' = m'"
        by (cases data) (auto simp: process_control_def on_pool_def seq_eq_Inr_iff)
      with inc [OF n(2)] assms(2,3) Some x show ?thesis by (simp add: limits_ok_def count_ok_def limits_def)
    next
      case decrease
      with assms(1) Some x obtain n ns m' where n: "data = n # ns" "decrease_spawn_limit cf nows n (rp_pool st) = Inr m'" "rp_pool st' = m'"
        by (cases data) (auto simp: process_control_def on_pool_def seq_eq_Inr_iff)
      with dec [OF n(2)] assms(2,3) Some x show ?thesis by (simp add: limits_ok_def limits_def)
    qed (use assms(1,3) Some x in \<open>auto simp: process_control_def send_stats_def seq_eq_Inr_iff\<close>)
  qed
qed

lemma limits_controls:
  assumes "process_controls cf nows messages st = Inr (go, st')" "list_all count_ok messages" "limits_ok (limits (rp_pool st))"
  shows "limits_ok (limits (rp_pool st'))"
  using assms
proof (induction messages arbitrary: st)
  case (Cons message messages)
  from Cons.prems(1) obtain b st1 where c: "process_control cf nows message st = Inr (b, st1)"
    "(if b then process_controls cf nows messages st1 else Inr (False, st1)) = Inr (go, st')" by (auto simp: seq_eq_Inr_iff)
  from limits_control [OF c(1)] Cons.prems have "limits_ok (limits (rp_pool st1))" by simp
  with c(2) Cons.IH [of st1] Cons.prems(2) show ?case by (auto split: if_splits)
qed simp

section \<open>Properties\<close>

abbreviation ep_process_ok :: "(sock \<Rightarrow> fd option) \<Rightarrow> ('m, epoller) process \<Rightarrow> bool" where
  "ep_process_ok fileno \<equiv> process_ok ep_known ep_watched (epoller_ok fileno)"

text \<open>C22: A run of the process of the redirectors always ends, without raising, whatever the workers do and whatever requests and answers come: the draining of the queue stops, the pool stays consistent, and every request that was ever read is in the queue, with one busy worker, or answered, exactly once.\<close>

theorem requests_conserved:
  assumes "ep_pool_ok fileno (rp_pool st)" "accounted st" "pc_remove cf = EPoller_removeReadSocket fileno"
  shows "\<exists>b st'. process_run cf ch polls st = Some (Inr (b, st')) \<and> ep_pool_ok fileno (rp_pool st')
    \<and> image_mset ra_client_id (mset (rp_read st')) = with_pool (rp_pool st') + answered st'"
  using ep_in.process_run_kept [of fileno st cf ch polls] assms by (auto simp: process_ok_def accounted_def)

definition example_process :: "(string, epoller) process" where
  "example_process = \<lparr>rp_pool = example_pool, rp_read = [example_args], rp_sent = [], rp_stats = [], rp_respawn = False\<rparr>"

definition example_process_conf :: "epoller process_conf" where
  "example_process_conf = \<lparr>pc_add = ep_read_add Some, pc_remove = EPoller_removeReadSocket Some, pc_create = child_maker (\<lambda>i. i + 20) (\<lambda>_. 0)\<rparr>"

definition silent_children :: "string children" where
  "silent_children = \<lparr>ch_pick = (\<lambda>_. 0), ch_decide = (\<lambda>w a. None), ch_progress = (\<lambda>w a d. Some (Some ''http'', Text []))\<rparr>"

theorem requests_conserved_witness:
  "\<exists>b st'. process_run example_process_conf silent_children
      [(silent_children, \<lparr>pr_control = False, pr_request = Some (Some (example_args\<lparr>ra_client_id := ''2''\<rparr>)), pr_workers = [22]\<rparr>)] example_process
    = Some (Inr (b, st')) \<and> image_mset ra_client_id (mset (rp_read st')) = with_pool (rp_pool st') + answered st'"
proof -
  have "accounted example_process"
    by (simp add: accounted_def example_process_def with_pool_def answered_def example_pool_def)
  with requests_conserved [of Some example_process example_process_conf] example_pool_ok show ?thesis
    by (simp add: example_process_def example_process_conf_def) blast
qed

text \<open>The loop that is to empty the queue stops at the first request that its worker defers, although other workers are free and other requests wait: they wait for an answer of a worker or the next alarm.\<close>

theorem drain_stops_early:
  assumes "ep_pool_ok fileno (rp_pool st)" "pc_remove cf = EPoller_removeReadSocket fileno"
    and "pl_queue (rp_pool st) = (args, t) # queue" "2 \<le> length (pl_available (rp_pool st))"
    and "\<And>w. ch_decide ch w args = Some (Some ''defer'', d)"
  shows "\<exists>st'. drain_queue cf ch st = Some (Inr st') \<and> pl_queue (rp_pool st') = queue \<and> pl_available (rp_pool st') \<noteq> []
    \<and> rp_sent st' = rp_sent st"
proof -
  let ?m = "(rp_pool st)\<lparr>pl_queue := queue\<rparr>"
  have ok: "ep_pool_ok fileno ?m" by (rule ep_in.pok_cong [OF assms(1)]) (use pool_okD(3-8) [OF assms(1)] in auto)
  obtain x m1 where a: "pool_acquire (ch_pick ch) ?m = (x, m1)" by fastforce
  have "pl_available ?m \<noteq> []" using assms(4) by auto
  with ep_in.acquire_ok [OF ok a] obtain w where w: "x = Some w" "m1 = ?m\<lparr>pl_available := remove1 (wk_wid w) (pl_available ?m)\<rparr>"
    by (cases x) auto
  have "pool_request (pc_remove cf) (ch_pick ch) (ch_decide ch) args t ?m = Inr ((ra_client_id args, None, NoDecision), pool_persist (wk_wid w) args d t m1)"
    using a w(1) assms(5) by (subst pool_request.simps) (simp add: command_of_def)
  then have "process_doqueue cf ch st = Inr (False, st\<lparr>rp_pool := pool_persist (wk_wid w) args d t m1\<rparr>)"
    using assms(3) \<open>pl_available ?m \<noteq> []\<close> by (simp add: process_doqueue_def pool_doqueue_def send_decision_def)
  moreover have "length (remove1 (wk_wid w) (pl_available (rp_pool st))) \<noteq> 0" using assms(4) by (auto simp: length_remove1)
  ultimately show ?thesis using w(2) by (subst drain_queue.simps) (auto simp: pool_persist_def)
qed

text \<open>Two free workers and two requests in the queue: one of each is left.\<close>

theorem drain_stops_early_witness:
  "\<exists>st'. drain_queue example_process_conf (silent_children\<lparr>ch_decide := (\<lambda>w a. Some (Some ''defer'', NoDecision))\<rparr>)
      (example_process\<lparr>rp_pool := example_pool\<lparr>pl_active := Map.empty, pl_available := [1, 2], pl_queue := [(example_args, False), (example_args, True)]\<rparr>\<rparr>)
    = Some (Inr st') \<and> pl_queue (rp_pool st') = [(example_args, True)] \<and> pl_available (rp_pool st') \<noteq> []"
proof -
  let ?st = "example_process\<lparr>rp_pool := example_pool\<lparr>pl_active := Map.empty, pl_available := [1, 2], pl_queue := [(example_args, False), (example_args, True)]\<rparr>\<rparr>"
  have "ep_pool_ok Some (rp_pool ?st)"
    by simp (rule ep_in.pok_cong [OF example_pool_ok]; auto simp: example_pool_def pool_ids_def)
  from drain_stops_early [OF this, of example_process_conf example_args False "[(example_args, True)]"
      "silent_children\<lparr>ch_decide := (\<lambda>w a. Some (Some ''defer'', NoDecision))\<rparr>" NoDecision]
  show ?thesis by (simp add: example_process_conf_def) blast
qed

text \<open>C23: Whatever the process does and whatever commands it is given, as long as none adds a negative number, its minimum is at least one and at most its maximum.\<close>

theorem spawn_limits:
  assumes "process_rounds cf rounds (i, d, st) = Some (Inr (b, st'))"
    and "list_all (\<lambda>rd. list_all count_ok (rd_messages rd)) rounds"
    and "1 \<le> pl_low (rp_pool st)" "pl_low (rp_pool st) \<le> pl_high (rp_pool st)"
  shows "1 \<le> pl_low (rp_pool st') \<and> pl_low (rp_pool st') \<le> pl_high (rp_pool st')"
proof -
  have "limits_ok (limits (rp_pool st'))" if "limits_ok (limits (rp_pool st))"
    using assms(1,2) that
  proof (induction rounds arbitrary: i d st)
    case (Cons rd rounds)
    from Cons.prems(1) obtain go i' d' st1 where r: "process_round cf rd (i, d, st) = Some (Inr (go, i', d', st1))"
      "(if go then process_rounds cf rounds (i', d', st1)
        else Some (seq (on_pool (pool_kill_workers (pc_remove cf)) st1) (\<lambda>st. Inr (False, st)))) = Some (Inr (b, st'))"
      by (auto simp: oseq_def split: option.splits sum.splits cong: if_cong)
    from r(1) obtain status st2 where run: "process_run cf (rd_drain rd) (rd_polls rd) st = Some (Inr (status, st2))"
      and rest: "(\<not> status \<and> st1 = st2)
        \<or> (\<exists>i d st3. process_upkeep cf (rd_nows rd) i d st2 = Inr st3 \<and> process_controls cf (rd_nows rd) (rd_messages rd) st3 = Inr (go, st1))"
      by (fastforce simp: process_round_def Let_def oseq_def seq_eq_Inr_iff split: option.splits sum.splits if_splits)
    have l2: "limits_ok (limits (rp_pool st2))" using limits_run [OF run] Cons.prems(3) by simp
    have l1: "limits_ok (limits (rp_pool st1))"
      using rest limits_upkeep limits_controls l2 Cons.prems(2) by fastforce
    have kill: "pool_kill_workers remove m = Inr m' \<Longrightarrow> limits m' = limits m" for remove and m m' :: "('a, 'b) pool"
      by (auto simp: pool_kill_workers_def dest!: limits_for_each [OF _ limits_reap])
    show ?case
    proof (cases go)
      case True
      with r(2) Cons.IH [of i' d' st1] l1 Cons.prems(2) show ?thesis by simp
    next
      case False
      with r(2) l1 show ?thesis by (auto simp: on_pool_def seq_eq_Inr_iff dest!: kill)
    qed
  qed simp
  then show ?thesis using assms(3,4) by (simp add: limits_ok_def limits_def)
qed

text \<open>A pool of two to four workers is told to have one less.\<close>

theorem spawn_limits_witness:
  "\<exists>st'. process_rounds example_process_conf
      [\<lparr>rd_drain = silent_children, rd_polls = [], rd_nows = (\<lambda>_. 0), rd_messages = [Some (0, ''DECREASE'', [1])]\<rparr>] (0, 0, example_process)
    = Some (Inr (True, st')) \<and> 1 \<le> pl_low (rp_pool st') \<and> pl_low (rp_pool st') \<le> pl_high (rp_pool st')"
proof -
  have "drain_queue example_process_conf silent_children example_process = Some (Inr example_process)"
    by (subst drain_queue.simps) (simp add: process_doqueue_def pool_doqueue_def example_process_def example_pool_def send_decision_def)
  then have "\<exists>st'. process_rounds example_process_conf
      [\<lparr>rd_drain = silent_children, rd_polls = [], rd_nows = (\<lambda>_. 0), rd_messages = [Some (0, ''DECREASE'', [1])]\<rparr>] (0, 0, example_process)
    = Some (Inr (True, st'))"
    by (simp add: process_round_def process_run_def process_upkeep_def process_control_def on_pool_def decrease_spawn_limit_def pool_decrease_def
        pool_decrease1_def pool_stop_oldest_def pool_oldest_def pool_size_def example_process_def example_pool_def Let_def)
  then obtain st' where st': "process_rounds example_process_conf
      [\<lparr>rd_drain = silent_children, rd_polls = [], rd_nows = (\<lambda>_. 0), rd_messages = [Some (0, ''DECREASE'', [1])]\<rparr>] (0, 0, example_process)
    = Some (Inr (True, st'))" by blast
  with spawn_limits [OF st'] show ?thesis by (simp add: count_ok_def example_process_def example_pool_def)
qed

end
