(* ===== verification/Supervisor.thy ===== *)
theory Supervisor
  imports ReactorFacts RedirectorProcess MessageBox
begin

text \<open>
  \<open>lib/exaproxy/supervisor.py\<close> and \<open>monitor.py\<close>: the main loop of the proxy around the runs of the reactor,
  the signals, the statistics, and the start and the end.
\<close>

section \<open>The monitor\<close>

text \<open>The statistics are a dictionary; what was never saved of the pid is \<open>None\<close>.\<close>

type_synonym statistics = "string \<rightharpoonup> int option"

record monitor =
  mo_seconds :: "statistics list"
  mo_minutes :: "statistics list"

definition monitor_init :: monitor where
  "monitor_init = \<lparr>mo_seconds = [], mo_minutes = []\<rparr>"

definition nb_recorded :: nat where
  "nb_recorded = 60"

definition record_last :: "'a \<Rightarrow> 'a list \<Rightarrow> 'a list" where
  "record_last x xs = (if length (xs @ [x]) > nb_recorded then tl (xs @ [x]) else xs @ [x])"

definition monitor_zero :: "statistics \<Rightarrow> monitor \<Rightarrow> bool \<times> monitor" where
  "monitor_zero stats mo =
     (dom stats \<noteq> {}, if dom stats \<noteq> {} then mo\<lparr>mo_seconds := mo_seconds mo @ [stats], mo_minutes := mo_minutes mo @ [stats]\<rparr> else mo)"

definition monitor_second :: "statistics \<Rightarrow> monitor \<Rightarrow> bool \<times> monitor" where
  "monitor_second stats mo = (True, mo\<lparr>mo_seconds := record_last stats (mo_seconds mo)\<rparr>)"

definition monitor_minute :: "statistics \<Rightarrow> monitor \<Rightarrow> bool \<times> monitor" where
  "monitor_minute stats mo = (True, mo\<lparr>mo_minutes := record_last stats (mo_minutes mo)\<rparr>)"

text \<open>What the process of the redirectors answers: \<open>forked\<close>, \<open>min\<close>, \<open>max\<close> and \<open>queue\<close>.\<close>

type_synonym redirector_stats = "int \<times> int \<times> int \<times> int"

definition monitor_statistics :: "int option \<Rightarrow> redirector_stats option \<Rightarrow> ('c, 'm, 'p) reactor \<Rightarrow> statistics" where
  "monitor_statistics pid stats r =
     (let content = rx_content r; client = rx_client r; n = (\<lambda>k. Some k);
          own = [''pid.saved'' \<mapsto> pid,
            ''clients.silent'' \<mapsto> n (int (card (dom (tc_dict (cm_norequest client))))),
            ''clients.speaking'' \<mapsto> n (int (card (dom (cm_byname client)))),
            ''clients.requests'' \<mapsto> n (cm_total_requested client),
            ''servers.opening'' \<mapsto> n (int (card (dom (ct_opening content)))),
            ''servers.established'' \<mapsto> n (int (card (dom (ct_established content)))),
            ''transfer.client4'' \<mapsto> n (cm_total_sent4 client),
            ''transfer.client6'' \<mapsto> n (cm_total_sent6 client),
            ''transfer.client'' \<mapsto> n (cm_total_sent4 client + cm_total_sent6 client),
            ''transfer.content4'' \<mapsto> n (int (ct_total_sent4 content)),
            ''transfer.content6'' \<mapsto> n (int (ct_total_sent6 content)),
            ''transfer.content'' \<mapsto> n (int (ct_total_sent4 content) + int (ct_total_sent6 content)),
            ''load.loops'' \<mapsto> n (int (rx_nb_loops r)),
            ''load.events'' \<mapsto> n (int (rx_nb_events r))];
          (forked, low, high, queue) = (case stats of Some s \<Rightarrow> s | None \<Rightarrow> (0, 0, 0, 0))
      in own(''queue.size'' \<mapsto> n queue, ''processes.forked'' \<mapsto> n forked, ''processes.min'' \<mapsto> n low, ''processes.max'' \<mapsto> n high))"

section \<open>State\<close>

text \<open>
  \<open>su_ok\<close> is the local \<open>ok\<close> of \<open>run\<close>, without a value until the first statistics; \<open>su_sent\<close> are the commands
  sent to the process of the redirectors; the four counters are those of \<open>run\<close>.
\<close>

record supervisor =
  su_monitor :: monitor
  su_shutdown :: bool
  su_softstop :: bool
  su_reload :: bool
  su_refork :: bool
  su_toggle_debug :: bool
  su_pdb :: bool
  su_listen :: "bool option"
  su_decrease :: nat
  su_increase :: nat
  su_local :: "string set"
  su_ok :: "bool option"
  su_second :: nat
  su_minute :: nat
  su_saturation :: nat
  su_interface :: nat
  su_sent :: "(string \<times> nat list) list"

record ('e, 'c, 'p) supervisor_conf =
  sc_reactor :: "('e, 'c, 'p) reactor_conf"
  sc_made :: "string \<Rightarrow> binding \<Rightarrow> sock option res"
  sc_clearRead :: "event_name \<Rightarrow> 'p \<Rightarrow> 'p res"
  sc_clearWrite :: "event_name \<Rightarrow> 'p \<Rightarrow> 'p res"
  sc_poll_interfaces :: bool

text \<open>
  What surrounds a turn: what is read of the control pipe, the time, the interfaces (whether they are of
  the internet, and the address), and what \<open>wait_stop\<close> gives when the process of the redirectors is stopped.
\<close>

record supervisor_env =
  se_response :: "string option \<times> redirector_stats option"
  se_now :: int
  se_pid :: "int option"
  se_interfaces :: "(bool \<times> string) list"
  se_stopped :: "bool res"

section \<open>Signals\<close>

datatype signal = SIGQUIT | SIGTERM | SIGTRAP | SIGUSR1 | SIGUSR2 | SIGTTOU | SIGTTIN

text \<open>\<open>pdb\<close>: whether \<open>PDB\<close> is set in the environment.\<close>

definition on_signal :: "bool \<Rightarrow> signal \<Rightarrow> supervisor \<Rightarrow> supervisor" where
  "on_signal pdb sig su =
     (case sig of
        SIGQUIT \<Rightarrow> if su_softstop su then su\<lparr>su_shutdown := True\<rparr> else su\<lparr>su_softstop := True, su_listen := Some False\<rparr>
      | SIGTERM \<Rightarrow> if pdb then su\<lparr>su_pdb := True\<rparr> else su\<lparr>su_shutdown := True\<rparr>
      | SIGTRAP \<Rightarrow> su\<lparr>su_toggle_debug := True\<rparr>
      | SIGUSR1 \<Rightarrow> su\<lparr>su_decrease := su_decrease su + 1\<rparr>
      | SIGUSR2 \<Rightarrow> su\<lparr>su_increase := su_increase su + 1\<rparr>
      | SIGTTOU \<Rightarrow> su\<lparr>su_listen := Some False\<rparr>
      | SIGTTIN \<Rightarrow> su\<lparr>su_listen := Some True\<rparr>)"

section \<open>Operations\<close>

definition read_interfaces :: "(bool \<times> string) list \<Rightarrow> supervisor \<Rightarrow> supervisor" where
  "read_interfaces found su =
     su\<lparr>su_local := {''127.0.0.1'', ''::1''} \<union> snd ` {i \<in> set found. fst i}\<rparr>"

definition send_command :: "string \<Rightarrow> nat list \<Rightarrow> supervisor \<Rightarrow> supervisor" where
  "send_command command args su = su\<lparr>su_sent := su_sent su @ [(command, args)]\<rparr>"

definition doStats :: "int option \<Rightarrow> redirector_stats option \<Rightarrow> ('c, 'm, 'p) reactor \<Rightarrow> supervisor \<Rightarrow> bool \<times> supervisor" where
  "doStats pid data r su =
     (let stats = monitor_statistics pid data r;
          (ok, mo) = (if su_second su = 0 then monitor_second stats (su_monitor su) else (True, su_monitor su));
          (ok', mo') = (if ok \<and> su_minute su = 0 then monitor_minute stats mo else (ok, mo))
      in (ok', su\<lparr>su_monitor := mo'\<rparr>))"

text \<open>A change of the servers that can fail.\<close>

definition proxy_listening :: "('e, 'c, 'p) supervisor_conf \<Rightarrow> bool \<Rightarrow> ('c, 'm, 'p) reactor \<Rightarrow> (bool \<times> ('c, 'm, 'p) reactor) res" where
  "proxy_listening sc accepting r =
     (let po = xc_poller (sc_reactor sc); sv = (rx_server r ''proxy'')\<lparr>sv_poller := rx_poller r\<rparr> in
      seq (if accepting then Server_accepting (po_addRead po) (sc_made sc ''proxy'') sv
           else seq (Server_rejecting (po_removeRead po) sv) (\<lambda>sv'. Inr (True, sv')))
        (\<lambda>(ok, sv'). Inr (ok, r\<lparr>rx_server := (rx_server r)(''proxy'' := sv'), rx_poller := sv_poller sv'\<rparr>)))"

text \<open>Idle connections: the sources that have some expired, in any order, are told of how many.\<close>

definition source_list :: "string list" where
  "source_list = [''proxy'', ''icap'', ''passthrough'', ''tls'', ''web'']"

definition count_expired :: "('e, 'c, 'p) reactor_conf \<Rightarrow> (string \<rightharpoonup> nat) \<Rightarrow> string \<Rightarrow> ('c, 'm, 'p) reactor \<Rightarrow> ('c, 'm, 'p) reactor res" where
  "count_expired xc expired source r =
     (case expired source of
        None \<Rightarrow> Inr r
      | Some n \<Rightarrow> on_server source (Server_notifyClose (po_addRead (xc_poller xc)) (int n)) r)"

definition expire_idle :: "('e, 'c, 'p) reactor_conf \<Rightarrow> int \<Rightarrow> ('c, 'm, 'p) reactor \<Rightarrow> ('c, 'm, 'p) reactor res" where
  "expire_idle xc now r =
     seq (on_client (cm_expire (xc_poller xc) now 100) r) (\<lambda>(expired, r1).
     for_each (count_expired xc expired) source_list r1)"

definition report_saturation :: "('c, 'm, 'p) reactor \<Rightarrow> ('c, 'm, 'p) reactor" where
  "report_saturation r =
     r\<lparr>rx_server := (rx_server r)(''proxy'' := Server_saturation (rx_server r ''proxy''), ''web'' := Server_saturation (rx_server r ''web''))\<rparr>"

text \<open>\<open>shutdown\<close>: two of the five servers are stopped; the process of the redirectors may raise.\<close>

definition supervisor_shutdown :: "('e, 'c, 'p) supervisor_conf \<Rightarrow> supervisor_env \<Rightarrow> supervisor \<times> ('c, 'm, 'p) reactor \<Rightarrow>
    (supervisor \<times> ('c, 'm, 'p) reactor) res" where
  "supervisor_shutdown sc se x =
     (case x of (su, r) \<Rightarrow>
        seq (on_server ''web'' (Server_stop (sc_clearRead sc)) r) (\<lambda>r1.
        seq (on_server ''proxy'' (Server_stop (sc_clearRead sc)) r1) (\<lambda>r2.
        seq (se_stopped se) (\<lambda>_.
        seq (on_content (silent (ct_stop (sc_clearRead sc) (sc_clearWrite sc))) r2) (\<lambda>(_, r3).
        seq (on_client (silent (cm_stop (sc_clearRead sc) (sc_clearWrite sc))) r3) (\<lambda>(_, r4).
        Inr (send_command ''STOP'' [] su, r4)))))))"

section \<open>A turn of the loop\<close>

text \<open>The counters at the beginning of a turn.\<close>

definition tick :: "supervisor \<Rightarrow> supervisor" where
  "tick su =
     su\<lparr>su_second := (su_second su + 1) mod 10, su_minute := (su_minute su + 1) mod 600,
        su_saturation := (su_saturation su + 1) mod 200, su_interface := (su_interface su + 1) mod 3000\<rparr>"

text \<open>A message on the control pipe: \<open>ok\<close> has no value before the first statistics.\<close>

definition read_control :: "supervisor_env \<Rightarrow> ('c, 'm, 'p) reactor \<Rightarrow> supervisor \<Rightarrow> supervisor res" where
  "read_control se r su =
     (let (command, data) = se_response se;
          su1 = (if command = Some ''STATS'' then (case doStats (se_pid se) data r su of (ok, su') \<Rightarrow> su'\<lparr>su_ok := Some ok\<rparr>) else su)
      in seq (or_raise UnboundLocalError (su_ok su1)) (\<lambda>ok.
         Inr (if \<not> ok then su1\<lparr>su_shutdown := True\<rparr> else su1)))"

text \<open>The end of the listening, or its beginning, and the soft stop.\<close>

definition change_listening :: "('e, 'c, 'p) supervisor_conf \<Rightarrow> supervisor \<times> ('c, 'm, 'p) reactor \<Rightarrow> (supervisor \<times> ('c, 'm, 'p) reactor) res" where
  "change_listening sc x =
     (case x of (su, r) \<Rightarrow>
        if su_softstop su then
          seq (if su_listen su = Some False then seq (proxy_listening sc False r) (\<lambda>(_, r1). Inr (su\<lparr>su_listen := None\<rparr>, r1)) else Inr (su, r))
            (\<lambda>(su1, r1). Inr (if cm_softstop (rx_client r1) then su1\<lparr>su_shutdown := True\<rparr> else su1, r1))
        else
          (case su_listen su of
             None \<Rightarrow> Inr (su, r)
           | Some accepting \<Rightarrow>
               seq (proxy_listening sc accepting r) (\<lambda>(ok, r1).
               Inr (su\<lparr>su_shutdown := (if accepting then \<not> ok else su_shutdown su), su_listen := None\<rparr>, r1))))"

definition change_spawning :: "supervisor \<Rightarrow> supervisor" where
  "change_spawning su =
     (let su1 = (if su_decrease su > 0 then (send_command ''DECREASE'' [su_decrease su] su)\<lparr>su_decrease := 0\<rparr> else su) in
      if su_increase su1 > 0 then (send_command ''INCREASE'' [su_increase su1] su1)\<lparr>su_increase := 0\<rparr> else su1)"

definition supervisor_upkeep :: "('e, 'c, 'p) supervisor_conf \<Rightarrow> supervisor_env \<Rightarrow> supervisor \<times> ('c, 'm, 'p) reactor \<Rightarrow>
    (supervisor \<times> ('c, 'm, 'p) reactor) res" where
  "supervisor_upkeep sc se x =
     (case x of (su, r) \<Rightarrow>
        seq (change_listening sc (send_command ''STATS'' [] su, r)) (\<lambda>(su1, r1).
        let su2 = change_spawning (su1\<lparr>su_toggle_debug := False\<rparr>) in
        seq (expire_idle (sc_reactor sc) (se_now se) r1) (\<lambda>r2.
        Inr (if sc_poll_interfaces sc \<and> su_interface su2 = 0 then read_interfaces (se_interfaces se) su2 else su2,
             if su_saturation su2 = 0 then report_saturation r2 else r2))))"

text \<open>
  A turn, from what the run of the reactor returned (its status, the interrupts and the state it left):
  whether the loop goes on. A \<open>reload\<close> or \<open>refork\<close> that is asked for precedes the rest of the turn.
\<close>

definition supervisor_turn :: "('e, 'c, 'p) supervisor_conf \<Rightarrow> supervisor_env \<Rightarrow> bool \<Rightarrow> event_name set \<Rightarrow>
    supervisor \<times> ('c, 'm, 'p) reactor \<Rightarrow> (bool \<times> supervisor \<times> ('c, 'm, 'p) reactor) res" where
  "supervisor_turn sc se status events x =
     (case x of (su, r) \<Rightarrow>
        let su1 = (tick su)\<lparr>su_pdb := False\<rparr>; su2 = (if status then su1 else su1\<lparr>su_shutdown := True\<rparr>) in
        seq (if ''read_control'' \<in> events then read_control se r su2 else Inr su2) (\<lambda>su3.
        if ''read_control'' \<in> events \<and> ''read_interrupt'' \<notin> events then Inr (True, su3, r)
        else if su_shutdown su3 then
          seq (supervisor_shutdown sc se (su3\<lparr>su_shutdown := False\<rparr>, r)) (\<lambda>x'. Inr (False, x'))
        else
          let su4 = (if su_reload su3 then send_command ''RESPAWN'' [] (su3\<lparr>su_reload := False\<rparr>)
                     else if su_refork su3 then su3\<lparr>su_refork := False\<rparr> else su3) in
          seq (supervisor_upkeep sc se (su4, r)) (\<lambda>x'. Inr (True, x'))))"

section \<open>The start\<close>

record listen_conf =
  lc_has_ipv6 :: bool
  lc_tcp4_listen :: bool
  lc_tcp4_out :: bool
  lc_tcp4 :: binding
  lc_tcp6_listen :: bool
  lc_tcp6_out :: bool
  lc_tcp6 :: binding
  lc_enable :: "string \<Rightarrow> bool"
  lc_host :: "string \<Rightarrow> string"
  lc_ipv6 :: "string \<Rightarrow> string"
  lc_port :: "string \<Rightarrow> int"

text \<open>
  The listens that \<open>initialise\<close> asks for in order, each with its condition; the first that fails is the
  last. The ICAP, TLS and passthrough servers take the timeout and backlog of IPv4.
\<close>

definition effective_listen :: "listen_conf \<Rightarrow> listen_conf" where
  "effective_listen lc =
     (if \<not> lc_has_ipv6 lc \<and> (lc_tcp6_listen lc \<or> lc_tcp6_out lc \<or> lc_ipv6 lc ''icap'' \<noteq> [] \<or> lc_ipv6 lc ''passthrough'' \<noteq> [])
      then lc\<lparr>lc_tcp6_listen := False, lc_tcp6_out := False\<rparr> else lc)"

definition wanted_listens :: "listen_conf \<Rightarrow> (bool \<times> string \<times> binding) list" where
  "wanted_listens lc =
     (let b = (\<lambda>host source. (host, lc_port lc source, snd (snd (lc_tcp4 lc)))) in
      [(lc_tcp4_listen lc, ''proxy'', lc_tcp4 lc),
       (lc_tcp6_listen lc, ''proxy'', lc_tcp6 lc),
       (lc_enable lc ''icap'', ''icap'', b (lc_host lc ''icap'') ''icap''),
       (lc_enable lc ''icap'' \<and> lc_tcp6_listen lc, ''icap'', b (lc_ipv6 lc ''icap'') ''icap''),
       (lc_enable lc ''tls'', ''tls'', b (lc_host lc ''tls'') ''tls''),
       (lc_enable lc ''tls'' \<and> lc_tcp6_listen lc, ''tls'', b (lc_ipv6 lc ''tls'') ''tls''),
       (lc_enable lc ''passthrough'', ''passthrough'', b (lc_host lc ''passthrough'') ''passthrough''),
       (lc_enable lc ''web'', ''web'', (lc_host lc ''web'', lc_port lc ''web'', 10, 10))])"

fun listen_all :: "('e, 'c, 'p) supervisor_conf \<Rightarrow> (bool \<times> string \<times> binding) list \<Rightarrow> ('c, 'm, 'p) reactor \<Rightarrow> (bool \<times> ('c, 'm, 'p) reactor) res" where
  "listen_all sc [] r = Inr (True, r)"
| "listen_all sc ((wanted, source, b) # rest) r =
     (if wanted then
        seq (Server_listen (po_addRead (xc_poller (sc_reactor sc))) (sc_made sc source) b ((rx_server r source)\<lparr>sv_poller := rx_poller r\<rparr>)) (\<lambda>(s, sv).
        let r1 = r\<lparr>rx_server := (rx_server r)(source := sv), rx_poller := sv_poller sv\<rparr> in
        if s = None then Inr (False, r1) else listen_all sc rest r1)
      else listen_all sc rest r)"

definition supervisor_initialise :: "('e, 'c, 'p) supervisor_conf \<Rightarrow> listen_conf \<Rightarrow> ('c, 'm, 'p) reactor \<Rightarrow> (bool \<times> ('c, 'm, 'p) reactor) res" where
  "supervisor_initialise sc lc0 r =
     (let lc = effective_listen lc0;
          out = (lc_tcp4_out lc \<or> lc_tcp6_out lc);
          listen = (lc_tcp4_listen lc \<or> lc_tcp6_listen lc \<or> lc_host lc ''icap'' \<noteq> [] \<or> lc_ipv6 lc ''icap'' \<noteq> []
            \<or> lc_host lc ''passthrough'' \<noteq> [] \<or> lc_ipv6 lc ''passthrough'' \<noteq> [])
      in if out \<and> listen then listen_all sc (wanted_listens lc) r else Inr (False, r))"

definition supervisor_init :: "bool \<Rightarrow> (bool \<times> string) list \<Rightarrow> supervisor" where
  "supervisor_init shutdown found =
     read_interfaces found \<lparr>su_monitor = monitor_init, su_shutdown = shutdown, su_softstop = False, su_reload = False, su_refork = False,
       su_toggle_debug = False, su_pdb = False, su_listen = None, su_decrease = 0, su_increase = 0, su_local = {}, su_ok = None,
       su_second = 0, su_minute = 0, su_saturation = 0, su_interface = 0, su_sent = []\<rparr>"

text \<open>The end of \<open>__init__\<close>: the first statistics, when there is no reason to stop.\<close>

definition supervisor_first_stats :: "supervisor_env \<Rightarrow> ('c, 'm, 'p) reactor \<Rightarrow> supervisor \<Rightarrow> supervisor" where
  "supervisor_first_stats se r su =
     (if su_shutdown su then su
      else
        let su1 = send_command ''STATS'' [] su; (command, data) = se_response se;
            stats = monitor_statistics (se_pid se) (if command = Some ''STATS'' then data else None) r;
            (ok, mo) = monitor_zero stats (su_monitor su1); su2 = su1\<lparr>su_monitor := mo\<rparr>
        in if ok then send_command ''STATS'' [] su2 else su2\<lparr>su_shutdown := True\<rparr>)"

text \<open>An exception of a turn: the operating system's makes the proxy stop at the next turn, any other ends it.\<close>

definition supervisor_caught :: "py_error \<Rightarrow> supervisor \<Rightarrow> supervisor res" where
  "supervisor_caught e su = (if e = OSFailure then Inr (su\<lparr>su_shutdown := True\<rparr>) else Inl e)"

section \<open>The account over the turns\<close>

lemma supervised_expired_dict: "expired_loop expire maximum c = (k, maximum', c') \<Longrightarrow> tc_dict c' = tc_dict c"
proof (induction expire maximum c arbitrary: k maximum' c' rule: expired_loop.induct)
  case (1 expire maximum c)
  show ?case
  proof (cases "tc_time c")
    case Nil
    with "1.prems" show ?thesis by (simp add: expired_loop.simps)
  next
    case (Cons x rest)
    obtain i t where x: "x = (i, t)" by (cases x)
    show ?thesis
    proof (cases "maximum = 0 \<or> t > expire \<or> tc_dict c i \<noteq> None")
      case True
      with "1.prems" Cons x show ?thesis by (auto simp: expired_loop.simps [of expire maximum c] Let_def split: if_splits)
    next
      case False
      with "1.prems" Cons x have "expired_loop expire maximum (c\<lparr>tc_time := rest\<rparr>) = (k, maximum', c')"
        by (simp add: expired_loop.simps [of expire maximum c])
      from "1.IH" [OF Cons x [symmetric] _ refl _ _ this] False show ?thesis by simp
    qed
  qed
qed

text \<open>What has been expired but not yet counted out.\<close>

definition owed :: "(string \<Rightarrow> int) \<Rightarrow> (string \<rightharpoonup> nat) \<Rightarrow> string \<Rightarrow> int" where
  "owed k expired source = k source - int (dict_get expired source 0)"

lemma owed_upd: "owed k (expired(source \<mapsto> dict_get expired source 0 + 1)) = (owed k expired)(source := owed k expired source - 1)"
  by (auto simp: owed_def fun_eq_iff dict_get_def)

lemma expire_client_account:
  assumes "expire_client po s expired m = Inr (expired', m')" "tabled m" "account S (owed k expired) (client_source m)"
  shows "tabled m' \<and> account S (owed k expired') (client_source m')"
proof (cases "tc_dict (cm_norequest m) s")
  case None
  with assms show ?thesis by (simp add: expire_client_def)
next
  case (Some x)
  obtain client source where x: "x = (client, source)" by (cases x)
  have "cm_bysock m s = None" using assms(2) Some x by (auto simp: tabled_def dest: tables_apartD)
  then have src: "client_source m s = Some source" using Some x by (simp add: client_source_at)
  from assms(1) Some x have c: "cm_cleanup po s (cn_name client) m = Inr m'" "expired' = expired(source \<mapsto> dict_get expired source 0 + 1)"
    by (auto simp: expire_client_def seq_eq_Inr_iff)
  show ?thesis
    using cm_cleanup_source [OF c(1)] assms(2) account_drop [OF assms(3) src] unfolding c(2) owed_upd by simp
qed

lemma client_source_times [simp]:
  "tc_dict c = tc_dict (cm_norequest m) \<Longrightarrow> client_source (m\<lparr>cm_norequest := c\<rparr>) = client_source m"
  "tc_dict c = tc_dict (cm_norequest m) \<Longrightarrow> tabled (m\<lparr>cm_norequest := c\<rparr>) = tabled m"
  by (simp_all add: client_source_def tabled_def)

lemma expire_run_account:
  assumes "expire_run po expire maximum expired m = Inr (expired', m')" "tabled m" "account S (owed k expired) (client_source m)"
  shows "tabled m' \<and> account S (owed k expired') (client_source m')"
  using assms
proof (induction po expire maximum expired m rule: expire_run.induct)
  case (1 po expire maximum expired m)
  obtain found maximum' c where l: "expired_loop expire maximum (cm_norequest m) = (found, maximum', c)" by (cases "expired_loop expire maximum (cm_norequest m)") auto
  note d = supervised_expired_dict [OF l]
  show ?case
  proof (cases found)
    case None
    with "1.prems" l d show ?thesis by (auto simp: expire_run.simps [of po expire maximum expired m])
  next
    case (Some s)
    with "1.prems"(1) l obtain expired1 m1 where e: "expire_client po s expired (m\<lparr>cm_norequest := c\<rparr>) = Inr (expired1, m1)"
      "expire_run po expire maximum' expired1 m1 = Inr (expired', m')"
      by (auto simp: expire_run.simps [of po expire maximum expired m] split: sum.splits)
    have "tabled m1 \<and> account S (owed k expired1) (client_source m1)"
      by (rule expire_client_account [OF e(1)]) (use "1.prems"(2,3) d in simp_all)
    from "1.IH" [OF l [symmetric] Some refl e(1) refl e(2)] this show ?thesis by blast
  qed
qed

lemma cm_expire_account:
  assumes "cm_expire po now number m = Inr (expired, m')" "tabled m" "account S k (client_source m)"
  shows "tabled m' \<and> account S (owed k expired) (client_source m')"
proof -
  have start: "owed k Map.empty = k" by (simp add: owed_def dict_get_def fun_eq_iff)
  show ?thesis
  proof (cases "expired_first (now - tc_timeout (cm_norequest m)) (cm_norequest m)")
    case Ends
    with assms start show ?thesis by (simp add: cm_expire_def)
  next
    case (Yields_last s)
    with assms(1) obtain expired1 m1 where e: "expire_client po s Map.empty m = Inr (expired1, m1)"
      "expire_run po (now - tc_timeout (cm_norequest m)) (number - 1) expired1 (m1\<lparr>cm_norequest := (cm_norequest m1)\<lparr>tc_last := None\<rparr>\<rparr>) = Inr (expired, m')"
      by (auto simp: cm_expire_def Let_def seq_eq_Inr_iff)
    from expire_client_account [OF e(1) assms(2), of S k] assms(3) have "tabled m1 \<and> account S (owed k expired1) (client_source m1)"
      unfolding start by simp
    then show ?thesis by (intro expire_run_account [OF e(2)]) simp_all
  next
    case Goes_on
    with assms(1) have e: "expire_run po (now - tc_timeout (cm_norequest m)) number Map.empty (m\<lparr>cm_norequest := (cm_norequest m)\<lparr>tc_last := None\<rparr>\<rparr>) = Inr (expired, m')"
      by (simp add: cm_expire_def)
    show ?thesis by (rule expire_run_account [OF e]) (use assms(2,3) start in simp_all)
  qed
qed

lemma count_expired_counts:
  assumes "count_expired xc expired source r = Inr r'"
  shows "rx_client r' = rx_client r \<and> counts r' = (counts r)(source := owed (counts r) expired source) \<and> rx_resolver r' = rx_resolver r"
proof (cases "expired source")
  case None
  with assms show ?thesis by (simp add: count_expired_def owed_def dict_get_def)
next
  case (Some n)
  with assms have o: "on_server source (Server_notifyClose (po_addRead (xc_poller xc)) (int n)) r = Inr r'" by (simp add: count_expired_def)
  have "counts r' = (counts r)(source := counts r source + (- int n)) \<and> rx_client r' = rx_client r"
    by (rule on_server_count [OF o]) (auto dest: notifyClose_count)
  moreover have "rx_resolver r' = rx_resolver r" using o by (auto simp: on_server_def seq_eq_Inr_iff)
  ultimately show ?thesis using Some by (simp add: owed_def dict_get_def)
qed

lemma count_all_expired:
  assumes "for_each (count_expired xc expired) xs r = Inr r'" "distinct xs"
  shows "rx_client r' = rx_client r \<and> rx_resolver r' = rx_resolver r
    \<and> (\<forall>s. counts r' s = (if s \<in> set xs then owed (counts r) expired s else counts r s))"
  using assms
proof (induction xs arbitrary: r)
  case (Cons x xs)
  then obtain r1 where r1: "count_expired xc expired x r = Inr r1" "for_each (count_expired xc expired) xs r1 = Inr r'"
    by (auto simp: seq_eq_Inr_iff)
  with count_expired_counts [OF r1(1)] Cons.IH [OF r1(2)] Cons.prems(2) show ?case by (auto simp: owed_def)
qed simp

lemma expire_idle_counted:
  assumes "expire_idle xc now r = Inr r'" "counted S r" "S \<subseteq> sources"
  shows "counted S r' \<and> rx_resolver r' = rx_resolver r"
proof -
  from assms(1) obtain expired c where e: "cm_expire (xc_poller xc) now 100 ((rx_client r)\<lparr>cm_poller := rx_poller r\<rparr>) = Inr (expired, c)"
    "for_each (count_expired xc expired) source_list (r\<lparr>rx_client := c, rx_poller := cm_poller c\<rparr>) = Inr r'"
    by (auto simp: expire_idle_def on_client_def seq_eq_Inr_iff)
  have k: "counts (r\<lparr>rx_client := c, rx_poller := cm_poller c\<rparr>) = counts r" by (simp add: counts_def [abs_def])
  have c: "tabled c \<and> account S (owed (counts r) expired) (client_source c)"
    by (rule cm_expire_account [OF e(1)]) (use assms(2) in \<open>simp_all add: counted_def\<close>)
  have "distinct source_list" by (simp add: source_list_def)
  from count_all_expired [OF e(2) this] have n: "rx_client r' = c" "rx_resolver r' = rx_resolver r"
    "\<And>s. s \<in> sources \<Longrightarrow> counts r' s = owed (counts r) expired s"
    unfolding k by (auto simp: source_list_def sources_def owed_def)
  have "account S (counts r') (client_source c)"
    using c n(3) assms(3) unfolding account_def by (auto simp: subset_iff)
  with c n(1,2) show ?thesis by (simp add: counted_def)
qed

lemma same_account_servers:
  assumes "rx_client r' = rx_client r" "\<And>s. sv_client_count (rx_server r' s) = sv_client_count (rx_server r s)"
  shows "same_account r r'"
  using assms by (simp add: same_account_def counts_def [abs_def])

lemma relisten_count: "relisten add made bs sv = Inr (ok, sv') \<Longrightarrow> sv_client_count sv' = sv_client_count sv"
proof (induction bs arbitrary: sv)
  case (Cons b bs)
  then show ?case
    by (auto simp: Server_listen_def Let_def seq_eq_Inr_iff split: sum.splits py_error.splits option.splits if_splits dest!: Cons.IH)
qed auto

lemma proxy_listening_same: "proxy_listening sc accepting r = Inr (ok, r') \<Longrightarrow> same_account r r' \<and> rx_resolver r' = rx_resolver r"
  by (auto simp: proxy_listening_def Let_def seq_eq_Inr_iff Server_accepting_def Server_rejecting_def
      split: if_splits intro!: same_account_servers dest!: relisten_count on_listening_count)

lemma report_saturation_same: "same_account r (report_saturation r)"
  by (rule same_account_servers) (auto simp: report_saturation_def Server_saturation_def)

lemma change_listening_same:
  assumes "change_listening sc (su, r) = Inr (su', r')"
  shows "same_account r r' \<and> rx_resolver r' = rx_resolver r"
  using assms
  by (auto simp: change_listening_def seq_eq_Inr_iff split: if_splits option.splits dest!: proxy_listening_same)

lemma supervisor_upkeep_counted:
  assumes "supervisor_upkeep sc se (su, r) = Inr (su', r')" "counted S r" "S \<subseteq> sources"
  shows "counted S r' \<and> rx_resolver r' = rx_resolver r"
proof -
  from assms(1) obtain su1 r1 r2 where r1: "change_listening sc (send_command ''STATS'' [] su, r) = Inr (su1, r1)"
    and r2: "expire_idle (sc_reactor sc) (se_now se) r1 = Inr r2" and r': "r' = r2 \<or> r' = report_saturation r2"
    by (auto simp: supervisor_upkeep_def Let_def seq_eq_Inr_iff)
  from change_listening_same [OF r1] assms(2) have "counted S r1" "rx_resolver r1 = rx_resolver r"
    using same_account_counted by blast+
  with expire_idle_counted [OF r2 _ assms(3)] have "counted S r2" "rx_resolver r2 = rx_resolver r" by auto
  then show ?thesis using r' same_account_counted [OF report_saturation_same [of r2], of S]
    by (auto simp: report_saturation_def)
qed

lemma supervisor_turn_counted:
  assumes "supervisor_turn sc se status events (su, r) = Inr (True, su', r')" "counted S r" "S \<subseteq> sources"
  shows "counted S r' \<and> rx_resolver r' = rx_resolver r"
proof -
  from assms(1) have "r' = r \<or> (\<exists>su4. supervisor_upkeep sc se (su4, r) = Inr (su', r'))"
    by (auto simp: supervisor_turn_def Let_def seq_eq_Inr_iff split: if_splits)
  with supervisor_upkeep_counted [OF _ assms(2,3)] assms(2) show ?thesis by blast
qed

text \<open>The states of the proxy: between the runs of the reactor come the turns, and signals at any time.\<close>

inductive supervised :: "('e, 'c, 'p) supervisor_conf \<Rightarrow> supervisor \<times> ('c, 'm, 'p) reactor \<Rightarrow> supervisor \<times> ('c, 'm, 'p) reactor \<Rightarrow> bool" for sc x0 where
  begun: "supervised sc x0 x0"
| ran: "supervised sc x0 (su, r) \<Longrightarrow> reactor_reachable (sc_reactor sc) r r' \<Longrightarrow> supervised sc x0 (su, r')"
| signalled: "supervised sc x0 (su, r) \<Longrightarrow> supervised sc x0 (on_signal pdb sig su, r)"
| turned: "supervised sc x0 (su, r) \<Longrightarrow> supervisor_turn sc se status events (su, r) = Inr (True, su', r') \<Longrightarrow> supervised sc x0 (su', r')"

text \<open>C3: For a proxy whose web and ICAP servers accept no one and whose redirector sends only decisions that are enacted (a known command with its number of arguments), from a state that is counted: whatever the signals, the expiries of idle connections, the turns of the supervisor and the events handled in the runs of the reactor between them, the proxy, TLS and passthrough servers have counted exactly the connections that the client manager holds for them.\<close>

theorem supervised_counted:
  assumes "supervised sc (su0, r0) (su, r)" "xc_client (sc_reactor sc) = any_ops"
    and "counted counted_sources r0" "queries_ok (rx_resolver r0)"
  shows "ran (client_source (rx_client r)) \<subseteq> {''proxy'', ''tls'', ''passthrough''}
    \<and> (\<forall>source \<in> {''proxy'', ''tls'', ''passthrough''}.
         sv_client_count (rx_server r source) = int (card {s. client_source (rx_client r) s = Some source}))"
proof -
  have conf: "(sc_reactor sc)\<lparr>xc_client := any_ops\<rparr> = sc_reactor sc" using assms(2) by simp
  have sub: "counted_sources \<subseteq> sources" by (auto simp: counted_sources_def sources_def)
  have "counted counted_sources (snd y) \<and> queries_ok (rx_resolver (snd y))" if "supervised sc (su0, r0) y" for y
    using that
  proof (induction rule: supervised.induct)
    case (ran su r r')
    from any_reactor.reachable_counted [of "sc_reactor sc", unfolded conf, OF ran.hyps(2)] ran.IH show ?case by simp
  next
    case (turned su r se status events su' r')
    then show ?case using supervisor_turn_counted [OF turned.hyps(2) _ sub] by simp
  qed (use assms(3,4) in simp_all)
  from this [OF assms(1)] show ?thesis by (simp add: counted_def account_def counts_def counted_sources_def)
qed

definition example_supervisor_conf :: "(http_env, any_client, epoller) supervisor_conf" where
  "example_supervisor_conf = \<lparr>sc_reactor = example_reactor_conf, sc_made = (\<lambda>_ _. Inr None), sc_clearRead = (\<lambda>_ p. Inr p),
     sc_clearWrite = (\<lambda>_ p. Inr p), sc_poll_interfaces = True\<rparr>"

theorem supervised_counted_witness:
  "\<exists>r. supervised example_supervisor_conf (supervisor_init False [], example_reactor) (on_signal False SIGUSR1 (supervisor_init False []), r)
     \<and> handle_one example_reactor_conf ''read_proxy'' (1, example_accept) example_reactor = Some (Inr r)
     \<and> sv_client_count (rx_server r ''proxy'') = int (card {s. client_source (rx_client r) s = Some ''proxy''})"
proof -
  from example_accepts obtain r where r: "handle_one example_reactor_conf ''read_proxy'' (1, example_accept) example_reactor = Some (Inr r)"
    "reactor_reachable (sc_reactor example_supervisor_conf) example_reactor r" by (auto simp: example_supervisor_conf_def)
  note reached = supervised.signalled [OF supervised.ran [OF supervised.begun r(2)], of "supervisor_init False []" False SIGUSR1]
  from supervised_counted [OF reached] example_reactor_counted reached r(1) show ?thesis
    by (auto simp: example_supervisor_conf_def)
qed

section \<open>The history of the statistics\<close>

text \<open>
  A round: the reactor's run is interrupted first by the answer with the statistics, then by the alarm.
\<close>

definition alternate :: "('e, 'c, 'p) supervisor_conf \<Rightarrow> supervisor_env \<Rightarrow> supervisor \<times> ('c, 'm, 'p) reactor \<Rightarrow>
    (bool \<times> supervisor \<times> ('c, 'm, 'p) reactor) res" where
  "alternate sc se x =
     seq (supervisor_turn sc se True {''read_control''} x) (\<lambda>(_, x1). supervisor_turn sc se True {''read_interrupt''} x1)"

definition same_history :: "supervisor \<Rightarrow> supervisor \<Rightarrow> bool" where
  "same_history su su' \<longleftrightarrow> su_monitor su' = su_monitor su \<and> su_second su' = su_second su \<and> su_minute su' = su_minute su"

lemma same_history_trans: "same_history su su1 \<Longrightarrow> same_history su1 su2 \<Longrightarrow> same_history su su2"
  by (simp add: same_history_def)

lemma same_history_simps [simp]:
  "same_history su (send_command c xs su)" "same_history su (change_spawning su)" "same_history su (read_interfaces found su)"
  "same_history su (su\<lparr>su_toggle_debug := b\<rparr>)" "same_history su su"
  by (simp_all add: same_history_def send_command_def change_spawning_def read_interfaces_def Let_def)

lemma listening_history: "change_listening sc (su, r) = Inr (su', r') \<Longrightarrow> same_history su su'"
  by (auto simp: change_listening_def same_history_def seq_eq_Inr_iff split: if_splits option.splits)

lemma upkeep_history:
  assumes "supervisor_upkeep sc se (su, r) = Inr (su', r')"
  shows "same_history su su'"
proof -
  from assms obtain su1 r1 where l: "change_listening sc (send_command ''STATS'' [] su, r) = Inr (su1, r1)"
    and "su' = change_spawning (su1\<lparr>su_toggle_debug := False\<rparr>)
      \<or> su' = read_interfaces (se_interfaces se) (change_spawning (su1\<lparr>su_toggle_debug := False\<rparr>))"
    unfolding supervisor_upkeep_def prod.case Let_def by (auto simp: seq_eq_Inr_iff)
  then have "same_history su1 su'"
    using same_history_trans [OF same_history_simps(4) same_history_simps(2)] same_history_trans [OF _ same_history_simps(3)] by metis
  then show ?thesis
    using same_history_trans [OF same_history_simps(1) listening_history [OF l]] same_history_trans by blast
qed

lemma shutdown_history:
  assumes "supervisor_shutdown sc se (su, r) = Inr (su', r')"
  shows "same_history su su'"
  using assms by (auto simp: supervisor_shutdown_def seq_eq_Inr_iff)

lemma even_mod: "even m \<Longrightarrow> even (n mod m) = even (n :: nat)"
  by (metis dvd_mod_iff)

lemma control_turn:
  assumes "supervisor_turn sc se True {''read_control''} (su, r) = Inr (go, su', r')" "even (su_second su)" "even (su_minute su)"
  shows "su_monitor su' = su_monitor su \<and> odd (su_second su') \<and> odd (su_minute su')"
proof -
  have odd: "odd (Suc (su_second su) mod 10)" "odd (Suc (su_minute su) mod 600)" using assms(2,3) by (simp_all add: even_mod)
  then have "Suc (su_second su) mod 10 \<noteq> 0" "Suc (su_minute su) mod 600 \<noteq> 0" by (metis even_zero)+
  with assms(1) odd show ?thesis
    by (auto simp: supervisor_turn_def read_control_def doStats_def tick_def Let_def seq_eq_Inr_iff split: if_splits prod.splits)
qed

lemma interrupt_turn:
  assumes "supervisor_turn sc se True {''read_interrupt''} (su, r) = Inr (go, su', r')" "odd (su_second su)" "odd (su_minute su)"
  shows "su_monitor su' = su_monitor su \<and> even (su_second su') \<and> even (su_minute su')"
proof -
  have even: "even (Suc (su_second su) mod 10)" "even (Suc (su_minute su) mod 600)" using assms(2,3) by (simp_all add: even_mod)
  let ?su = "(tick su)\<lparr>su_pdb := False\<rparr>"
  have "same_history ?su su'"
  proof (cases "su_shutdown ?su")
    case True
    with assms(1) have "supervisor_shutdown sc se (?su\<lparr>su_shutdown := False\<rparr>, r) = Inr (su', r')"
      by (auto simp: supervisor_turn_def Let_def seq_eq_Inr_iff)
    from shutdown_history [OF this] show ?thesis by (simp add: same_history_def)
  next
    case False
    let ?su4 = "if su_reload ?su then send_command ''RESPAWN'' [] (?su\<lparr>su_reload := False\<rparr>)
      else if su_refork ?su then ?su\<lparr>su_refork := False\<rparr> else ?su"
    have "same_history ?su ?su4" by (simp add: same_history_def send_command_def)
    moreover have "supervisor_upkeep sc se (?su4, r) = Inr (su', r')"
      using assms(1) False by (auto simp: supervisor_turn_def Let_def seq_eq_Inr_iff)
    ultimately show ?thesis using upkeep_history same_history_trans by blast
  qed
  with even show ?thesis by (simp add: same_history_def tick_def)
qed

text \<open>C40: When the answers with the statistics and the alarms take turns, as they do from the start, the history is never recorded: the statistics are looked at in the odd turns of the loop, and the counters that say when to record are zero in even turns only.\<close>

theorem history_starved:
  assumes "for_each (\<lambda>se x. seq (alternate sc se x) (\<lambda>(_, x'). Inr x')) ses (su, r) = Inr (su', r')"
    and "su_second su = 0" "su_minute su = 0"
  shows "su_monitor su' = su_monitor su"
proof -
  have "su_monitor su' = su_monitor su" if "even (su_second su)" "even (su_minute su)"
    using assms(1) that
  proof (induction ses arbitrary: su r)
    case (Cons se ses)
    from Cons.prems(1) obtain go su1 r1 where a: "alternate sc se (su, r) = Inr (go, su1, r1)"
      "for_each (\<lambda>se x. seq (alternate sc se x) (\<lambda>(_, x'). Inr x')) ses (su1, r1) = Inr (su', r')"
      by (auto simp: seq_eq_Inr_iff)
    from a(1) obtain b su2 r2 where t: "supervisor_turn sc se True {''read_control''} (su, r) = Inr (b, su2, r2)"
      "supervisor_turn sc se True {''read_interrupt''} (su2, r2) = Inr (go, su1, r1)"
      by (auto simp: alternate_def seq_eq_Inr_iff)
    from control_turn [OF t(1) Cons.prems(2,3)] have m: "su_monitor su2 = su_monitor su" "odd (su_second su2)" "odd (su_minute su2)" by simp_all
    from interrupt_turn [OF t(2) m(2,3)] m(1) Cons.IH [OF a(2)] show ?case by simp
  qed simp
  with assms(2,3) show ?thesis by simp
qed

definition quiet_env :: supervisor_env where
  "quiet_env = \<lparr>se_response = (Some ''STATS'', Some (2, 1, 4, 0)), se_now = 0, se_pid = None, se_interfaces = [], se_stopped = Inr True\<rparr>"

theorem history_starved_witness:
  "\<exists>x. for_each (\<lambda>se x. seq (alternate example_supervisor_conf se x) (\<lambda>(_, x'). Inr x')) [quiet_env]
      (supervisor_init False [], example_reactor) = Inr x \<and> su_monitor (fst x) = monitor_init"
proof -
  have "\<exists>x. for_each (\<lambda>se x. seq (alternate example_supervisor_conf se x) (\<lambda>(_, x'). Inr x')) [quiet_env]
      (supervisor_init False [], example_reactor) = Inr x"
    by (simp add: alternate_def supervisor_turn_def read_control_def quiet_env_def doStats_def tick_def supervisor_init_def read_interfaces_def
        supervisor_upkeep_def change_listening_def change_spawning_def send_command_def expire_idle_def on_client_def cm_expire_def expired_first_def
        expire_run.simps expired_loop.simps example_supervisor_conf_def example_reactor_def ClientManager_init_def TimeCache_init_def source_list_def
        count_expired_def Let_def)
  then obtain su r where x: "for_each (\<lambda>se x. seq (alternate example_supervisor_conf se x) (\<lambda>(_, x'). Inr x')) [quiet_env]
      (supervisor_init False [], example_reactor) = Inr (su, r)" by auto
  from history_starved [OF x] x show ?thesis by (auto simp: supervisor_init_def read_interfaces_def)
qed

lemma record_last_suffix: "length xs \<le> nb_recorded \<Longrightarrow> record_last x xs = drop (length (xs @ [x]) - nb_recorded) (xs @ [x])"
  by (cases "length xs = nb_recorded") (auto simp: record_last_def nb_recorded_def drop_Suc tl_append split: list.splits)

lemma drop_drop_suffix: "drop (length (drop (length old - k) old @ new) - k) (drop (length old - k) old @ new) = drop (length (old @ new) - k) (old @ new)"
proof (cases "length old \<le> k")
  case False
  then show ?thesis by (simp add: add.commute)
qed simp

text \<open>The history holds the last sixty of what was recorded, in order, and never more.\<close>

theorem history_bounded:
  assumes "length (mo_seconds mo) \<le> nb_recorded"
  shows "mo_seconds (fold (\<lambda>stats mo. snd (monitor_second stats mo)) new mo)
      = drop (length (mo_seconds mo @ new) - nb_recorded) (mo_seconds mo @ new)
    \<and> length (mo_seconds (fold (\<lambda>stats mo. snd (monitor_second stats mo)) new mo)) \<le> nb_recorded"
  using assms
proof (induction new arbitrary: mo)
  case (Cons stats new)
  let ?mo = "snd (monitor_second stats mo)" and ?old = "mo_seconds mo @ [stats]"
  have r: "mo_seconds ?mo = drop (length ?old - nb_recorded) ?old"
    using record_last_suffix [OF Cons.prems] by (simp add: monitor_second_def)
  then have l: "length (mo_seconds ?mo) \<le> nb_recorded" by simp
  have "drop (length (mo_seconds ?mo @ new) - nb_recorded) (mo_seconds ?mo @ new) = drop (length (?old @ new) - nb_recorded) (?old @ new)"
    unfolding r by (rule drop_drop_suffix)
  with Cons.IH [OF l] show ?case by simp
qed (simp add: nb_recorded_def)

theorem history_bounded_witness:
  "length (mo_seconds (fold (\<lambda>stats mo. snd (monitor_second stats mo)) (replicate 100 Map.empty) monitor_init)) \<le> nb_recorded"
  using history_bounded [of monitor_init "replicate 100 Map.empty"] by (simp add: monitor_init_def)

section \<open>The end\<close>

text \<open>C39: A shutdown that ends has stopped the web and proxy servers and let go of every download and every client; the ICAP, TLS and passthrough servers are left listening.\<close>

theorem shutdown_leaves:
  assumes "supervisor_shutdown sc se (su, r) = Inr (su', r')"
  shows "cm_bysock (rx_client r') = Map.empty \<and> tc_dict (cm_norequest (rx_client r')) = Map.empty
    \<and> ct_opening (rx_content r') = Map.empty \<and> ct_established (rx_content r') = Map.empty
    \<and> sv_socks (rx_server r' ''web'') = [] \<and> sv_socks (rx_server r' ''proxy'') = []
    \<and> (\<forall>source \<in> {''icap'', ''tls'', ''passthrough''}. rx_server r' source = rx_server r source)"
proof -
  from assms obtain r1 r2 r3 r4 ok where
    r1: "on_server ''web'' (Server_stop (sc_clearRead sc)) r = Inr r1" and r2: "on_server ''proxy'' (Server_stop (sc_clearRead sc)) r1 = Inr r2"
    and r3: "on_content (silent (ct_stop (sc_clearRead sc) (sc_clearWrite sc))) r2 = Inr ((), r3)"
    and r4: "on_client (silent (cm_stop (sc_clearRead sc) (sc_clearWrite sc))) r3 = Inr ((), r4)" and r': "r' = r4"
    by (auto simp: supervisor_shutdown_def seq_eq_Inr_iff)
  from r1 r2 have s: "sv_socks (rx_server r2 ''web'') = []" "sv_socks (rx_server r2 ''proxy'') = []"
    "\<And>source. source \<noteq> ''web'' \<Longrightarrow> source \<noteq> ''proxy'' \<Longrightarrow> rx_server r2 source = rx_server r source"
    by (auto simp: on_server_def Server_stop_def seq_eq_Inr_iff)
  from r3 have "rx_server r3 = rx_server r2" "ct_opening (rx_content r3) = Map.empty" "ct_established (rx_content r3) = Map.empty"
    by (auto simp: on_content_def silent_def ct_stop_def ct_on_poller_def Let_def seq_eq_Inr_iff)
  moreover from r4 have "rx_server r4 = rx_server r3" "rx_content r4 = rx_content r3" "cm_bysock (rx_client r4) = Map.empty"
    "tc_dict (cm_norequest (rx_client r4)) = Map.empty"
    by (auto simp: on_client_def silent_def cm_stop_def on_poller_def seq_eq_Inr_iff)
  ultimately show ?thesis using s r' by simp
qed

theorem shutdown_leaves_witness:
  "\<exists>su r. supervisor_shutdown example_supervisor_conf quiet_env (supervisor_init False [], web_reactor) = Inr (su, r)
     \<and> cm_bysock (rx_client r) = Map.empty \<and> ct_established (rx_content r) = Map.empty"
proof -
  have "\<exists>su r. supervisor_shutdown example_supervisor_conf quiet_env (supervisor_init False [], web_reactor) = Inr (su, r)"
    by (simp add: supervisor_shutdown_def on_server_def Server_stop_def example_supervisor_conf_def quiet_env_def on_content_def silent_def ct_stop_def
        ct_on_poller_def on_client_def cm_stop_def on_poller_def Let_def)
  then obtain su r where x: "supervisor_shutdown example_supervisor_conf quiet_env (supervisor_init False [], web_reactor) = Inr (su, r)" by blast
  with shutdown_leaves [OF x] show ?thesis by auto
qed

text \<open>When an answer of the process of the redirectors is still on the control pipe, as every turn asks for one, the shutdown raises while it waits for that process: the downloads and the clients are not closed and the file of the pid stays.\<close>

theorem shutdown_with_answer_pending:
  assumes "loads (dumps m) = Some m"
    and "map_option (\<lambda>w. seq w (\<lambda>(ok, _). Inr ok)) (ControlBox_wait_stop loads (MessageBox_put dumps m [])) = Some (se_stopped se)"
    and "on_server ''web'' (Server_stop (sc_clearRead sc)) r = Inr r1" "on_server ''proxy'' (Server_stop (sc_clearRead sc)) r1 = Inr r2"
  shows "supervisor_shutdown sc se (su, r) = Inl RuntimeError"
proof -
  have "MessageBox_get loads (MessageBox_put dumps m []) = Some (Some m, [])"
    using message_read_back [of "dumps m" "[]"] assms(1) by (simp add: MessageBox_get_def MessageBox_put_def)
  then have "se_stopped se = Inl RuntimeError" using assms(2) by (simp add: ControlBox_wait_stop_def)
  with assms(3,4) show ?thesis by (simp add: supervisor_shutdown_def)
qed

theorem shutdown_with_answer_pending_witness:
  "supervisor_shutdown example_supervisor_conf (quiet_env\<lparr>se_stopped := Inl RuntimeError\<rparr>) (supervisor_init False [], web_reactor) = Inl RuntimeError"
proof -
  let ?dumps = "\<lambda>m :: unit control. ''x''" and ?loads = "\<lambda>s. Some (3, ''STATS'', [()]) :: unit control option"
  have "MessageBox_get ?loads (MessageBox_put ?dumps (3, ''STATS'', [()]) []) = Some (Some (3, ''STATS'', [()]), [])"
    using message_read_back [of "''x''" "[]"] by (simp add: MessageBox_get_def MessageBox_put_def)
  then have w: "ControlBox_wait_stop ?loads (MessageBox_put ?dumps (3, ''STATS'', [()]) []) = Some (Inl RuntimeError)"
    by (simp add: ControlBox_wait_stop_def)
  obtain r1 r2 where "on_server ''web'' (Server_stop (sc_clearRead example_supervisor_conf)) web_reactor = Inr r1"
    "on_server ''proxy'' (Server_stop (sc_clearRead example_supervisor_conf)) r1 = Inr r2"
    by (simp add: on_server_def Server_stop_def example_supervisor_conf_def)
  from shutdown_with_answer_pending [of ?loads ?dumps "(3, ''STATS'', [()])", OF _ _ this] w show ?thesis by simp
qed

end
