(* ===== verification/IcapRedirector.thy ===== *)
theory IcapRedirector
  imports RedirectorWorker RedirectorProcess
begin

text \<open>
  \<open>lib/exaproxy/reactor/redirector/icap.py\<close>, the redirector that asks an ICAP server through its child,
  with \<open>serialize/\<close>, the requests it writes, and \<open>redirector.py\<close>, the choice of the redirector by the protocol.
\<close>

section \<open>Requests to the child\<close>

definition icap_host :: "string \<Rightarrow> string" where
  "icap_host protocol = hd (split_on (CHR ''/'') (drop 7 protocol))"

definition opt_line :: "string \<Rightarrow> string \<Rightarrow> string list" where
  "opt_line name v = (if v = [] then [] else [name @ '': '' @ v])"

text \<open>\<open>icap_message.headers.get(key, '').strip() if icap_message else None\<close>; both ways nothing is written when it is empty.\<close>

definition icap_value :: "string \<Rightarrow> icap_request option \<Rightarrow> string" where
  "icap_value key q = (case q of None \<Rightarrow> [] | Some r \<Rightarrow> py_strip (single key (ir_headers r)))"

definition createOptionsRequest :: "string \<Rightarrow> int \<Rightarrow> string \<Rightarrow> string \<Rightarrow> string" where
  "createOptionsRequest accept_addr accept_port peer path =
     py_join [LF]
       [''OPTIONS '' @ path @ '' ICAP/1.0'', ''Pragma: transport='', ''Pragma: proxy=test'', ''Pragma: scheme='',
        ''Pragma: accept='' @ accept_addr, ''Pragma: accept-port='' @ show_int accept_port, ''Pragma: client='' @ peer,
        ''Pragma: host='', ''Pragma: path='', ''Pragma: method='', ''Encapsulated: req-hdr=0, null-body=0'', [], [], []]"

definition request_lines :: "string \<Rightarrow> int \<Rightarrow> string \<Rightarrow> string \<Rightarrow> string \<Rightarrow> request \<Rightarrow> string \<Rightarrow> icap_request option \<Rightarrow> nat \<Rightarrow> string list" where
  "request_lines accept_addr accept_port peer path host r message_host q len =
     [''REQMOD '' @ path @ '' ICAP/1.0'', ''Host: '' @ host, ''Pragma: transport='' @ req_protocol r, ''Pragma: proxy=test'',
      ''Pragma: scheme=http'', ''Pragma: accept='' @ accept_addr, ''Pragma: accept-port='' @ show_int accept_port,
      ''Pragma: client='' @ peer, ''Pragma: host='' @ message_host, ''Pragma: path='' @ req_path r, ''Pragma: method='' @ req_method r]
     @ opt_line ''X-Client-IP'' (icap_value ''x-client-ip'' q)
     @ opt_line ''X-Authenticated-User'' (icap_value ''x-authenticated-user'' q)
     @ opt_line ''X-Authenticated-Groups'' (icap_value ''x-authenticated-groups'' q)
     @ opt_line ''X-Customer-Name'' (icap_value ''x-customer-name'' q)
     @ opt_line ''Allow'' (icap_value ''allow'' q)
     @ [''Encapsulated: req-hdr=0, null-body='' @ show_nat len, []]"

definition createRequest :: "string \<Rightarrow> int \<Rightarrow> string \<Rightarrow> string \<Rightarrow> http_message option \<Rightarrow> icap_request option \<Rightarrow> string \<Rightarrow> string res" where
  "createRequest accept_addr accept_port peer path message q http_header =
     seq (or_raise AttributeError message) (\<lambda>m.
     seq (or_raise AttributeError (msg_request m)) (\<lambda>r.
     seq (or_raise AttributeError (msg_host m)) (\<lambda>host.
     Inr (py_join [LF] (request_lines accept_addr accept_port peer path (icap_host path) r host q (length http_header) @ [http_header])))))"

definition serialize_icap :: "string \<Rightarrow> int \<Rightarrow> string \<Rightarrow> string \<Rightarrow> http_message option \<Rightarrow> icap_request option \<Rightarrow> string \<Rightarrow> string res" where
  "serialize_icap accept_addr accept_port peer path message q http_header =
     (case q of
        Some r \<Rightarrow>
          if ir_method r = ''OPTIONS'' then Inr (createOptionsRequest accept_addr accept_port peer path)
          else createRequest accept_addr accept_port peer path message q http_header
      | None \<Rightarrow> createRequest accept_addr accept_port peer path message q http_header)"

definition serialize_tls :: "string \<Rightarrow> int \<Rightarrow> string \<Rightarrow> string \<Rightarrow> string option \<Rightarrow> string \<Rightarrow> string" where
  "serialize_tls accept_addr accept_port peer path hello tls_header =
     py_join [LF]
       [''REQMOD '' @ path @ '' ICAP/1.0'', ''Host: '' @ icap_host path, ''Pragma: transport=tls'', ''Pragma: proxy=test'',
        ''Pragma: scheme=http'', ''Pragma: accept='' @ accept_addr, ''Pragma: accept-port='' @ show_int accept_port,
        ''Pragma: client='' @ peer, ''Pragma: host='' @ (case hello of None \<Rightarrow> [] | Some h \<Rightarrow> h), ''Pragma: path='', ''Pragma: method=TLS'',
        ''Encapsulated: req-hdr=0, null-body='' @ show_nat (length tls_header), [], tls_header]"

definition serialize_passthrough :: "string \<Rightarrow> int \<Rightarrow> string \<Rightarrow> string \<Rightarrow> string" where
  "serialize_passthrough accept_addr accept_port peer path =
     py_join [LF]
       [''REQMOD '' @ path @ '' ICAP/1.0'', ''Host: '' @ icap_host path, ''Pragma: transport=tcp'', ''Pragma: accept='' @ accept_addr,
        ''Pragma: accept-port='' @ show_int accept_port, ''Pragma: client='' @ peer, ''Pragma: method=TCP'',
        ''Encapsulated: req-hdr=0, null-body=0'', [], []]"

section \<open>The answer of the child\<close>

text \<open>Python 2's \<open>int(s, 16)\<close>: white space around, a sign, a prefix \<open>0x\<close>, hexadecimal digits.\<close>

definition py_int16 :: "string \<Rightarrow> int res" where
  "py_int16 s =
     (let t = py_strip s;
          (neg, u) = (case t of [] \<Rightarrow> (False, t) | c # cs \<Rightarrow>
            if c = CHR ''-'' then (True, py_lstrip cs) else if c = CHR ''+'' then (False, py_lstrip cs) else (False, t));
          v = (if prefix ''0x'' (py_lower u) then drop 2 u else u)
      in if v \<noteq> [] \<and> set v \<subseteq> set hexdigits then Inr (if neg then - int (nat_of_hex v) else int (nat_of_hex v)) else Inl ValueError)"

text \<open>
  The output of the child (\<open>'o\<close>: what is still to come): \<open>readline()\<close>, \<open>read(n)\<close>, which give the empty
  string at its end, and what there is on its other output. \<open>SocketFailure\<close> is the \<open>IOError\<close> of both.
\<close>

record 'o child_io =
  io_readline :: "'o \<Rightarrow> (string \<times> 'o) res"
  io_read :: "nat \<Rightarrow> 'o \<Rightarrow> (string \<times> 'o) res"
  io_stderr :: "string res"

text \<open>The header up to an empty line: Python's \<open>None\<close> at the end of the output. A loop that does not end is \<open>None\<close>.\<close>

partial_function (option) read_block :: "'o child_io \<Rightarrow> string \<Rightarrow> 'o \<Rightarrow> (string option \<times> 'o) res option" where
  "read_block io header_string out =
     (case io_readline io out of
        Inl e \<Rightarrow> Some (Inl e)
      | Inr (line, out') \<Rightarrow>
          if line = [] then Some (Inr (None, out'))
          else if py_rstrip line = [] then Some (Inr (Some (header_string @ line), out'))
          else read_block io (header_string @ line) out')"

text \<open>\<open>n\<close> bytes: \<open>read\<close> is asked for those that are missing, again and again.\<close>

partial_function (option) read_exactly :: "'o child_io \<Rightarrow> nat \<Rightarrow> string \<Rightarrow> 'o \<Rightarrow> (string \<times> 'o) res option" where
  "read_exactly io n content out =
     (if n = 0 then Some (Inr (content, out))
      else case io_read io n out of
        Inl e \<Rightarrow> Some (Inl e)
      | Inr (s, out') \<Rightarrow> read_exactly io (n - length s) (content @ s) out')"

text \<open>The loop over the header of the message and the chunks of its body: \<open>n\<close> is \<open>bytes_to_read\<close>.\<close>

partial_function (option) read_blocks :: "'o child_io \<Rightarrow> bool \<Rightarrow> bool \<Rightarrow> int \<Rightarrow> string \<Rightarrow> 'o \<Rightarrow> (int \<times> string \<times> 'o) res option" where
  "read_blocks io complete chunked n content out =
     (if n \<le> 0 then Some (Inr (n, content, out))
      else case read_exactly io (nat n) content out of
        None \<Rightarrow> None
      | Some (Inl e) \<Rightarrow> Some (Inl e)
      | Some (Inr (content', out1)) \<Rightarrow>
          if complete then Some (Inr (0, content', out1))
          else (case (if chunked then io_readline io out1 else Inr ([], out1)) of
            Inl e \<Rightarrow> Some (Inl e)
          | Inr (_, out2) \<Rightarrow>
              (case io_readline io out2 of
                 Inl e \<Rightarrow> Some (Inl e)
               | Inr (line, out3) \<Rightarrow>
                   (case py_int16 (py_strip line) of
                      Inl e \<Rightarrow> Some (Inl e)
                    | Inr k \<Rightarrow> read_blocks io complete True k content' out3))))"

text \<open>The body of the \<open>try\<close>: the header and the content when the response is good.\<close>

definition read_response :: "'o child_io \<Rightarrow> 'o \<Rightarrow> ((response_header \<times> string) option \<times> 'o) res option" where
  "read_response io out =
     oseq (Some (io_readline io out)) (\<lambda>(first, out1).
     oseq (read_block io first out1) (\<lambda>(header_string, out2).
     oseq (Some (parseResponseHeader header_string)) (\<lambda>rh.
     oseq (read_blocks io (rh_body_complete rh) False (int (rh_content_length rh)) [] out2) (\<lambda>(n, content, out3).
     Some (Inr (if n \<noteq> 0 \<or> rh_info rh = None then None else Some (rh, content), out3))))))"

text \<open>\<open>readChildResponse\<close>: the response, and the output that is left (unknown after an \<open>IOError\<close>).\<close>

definition icap_readChildResponse :: "child \<Rightarrow> 'o child_io \<Rightarrow> 'o \<Rightarrow> (icap_response option \<times> 'o option) res option" where
  "icap_readChildResponse ch io out =
     (if \<not> ch_process ch then Some (Inl AttributeError)
      else case read_response io out of
        None \<Rightarrow> None
      | Some (Inl e) \<Rightarrow> Some (if e = SocketFailure then Inr (None, None) else Inl e)
      | Some (Inr (found, out')) \<Rightarrow>
          Some (Inr (case found of
              None \<Rightarrow> None
            | Some (rh, content) \<Rightarrow> if (case io_stderr io of Inr s \<Rightarrow> s = [] | Inl _ \<Rightarrow> True) then Some (continueResponse rh content) else None,
            Some out')))"

section \<open>Decisions\<close>

text \<open>\<open>self.http_parser.parseRequest(peer, text)\<close>.\<close>

definition parse_request :: "redirector_config \<Rightarrow> string \<Rightarrow> string \<Rightarrow> http_message" where
  "parse_request cfg peer request_string = parseHTTP (cfg\<lparr>rc_transparent := True\<rparr>) peer request_string"

definition decideICAP :: "string \<Rightarrow> string \<Rightarrow> icap_request \<Rightarrow> answer option" where
  "decideICAP client_id icap_string q =
     (let len = (if ir_complete q then show_nat (ir_content_length q - length (ir_http_header q)) else ''chunked'') in
      if icap_string = [] then None else Some (respond_icap client_id icap_string len))"

definition intercept_for :: "redirector_config \<Rightarrow> string \<Rightarrow> string \<Rightarrow> string \<Rightarrow> string \<Rightarrow> answer res" where
  "intercept_for cfg client_id peer intercepted header =
     (let ir = parse_request cfg peer intercepted in
      seq (or_raise AttributeError (msg_headerhost ir)) (\<lambda>host.
      seq (or_raise AttributeError (msg_port ir)) (\<lambda>port.
      Inr (respond_intercept client_id host (show_nat port) header))))"

definition decideTLS :: "redirector_config \<Rightarrow> string \<Rightarrow> icap_response \<Rightarrow> string option \<Rightarrow> string \<Rightarrow> string \<Rightarrow> answer res" where
  "decideTLS cfg client_id rs hello tls_header peer =
     (case (is_intercept rs, intercept_header rs) of
        (True, Some intercepted) \<Rightarrow> intercept_for cfg client_id peer intercepted tls_header
      | _ \<Rightarrow>
          Inr (case hello of
              Some hostname \<Rightarrow>
                if is_permit rs then respond_intercept client_id hostname (show_nat 443) tls_header else respond_close client_id
            | None \<Rightarrow> respond_close client_id))"

text \<open>\<open>Response\<close>, in the last line, is a name that does not exist.\<close>

definition decidePassthrough :: "redirector_config \<Rightarrow> string \<Rightarrow> icap_response \<Rightarrow> string \<Rightarrow> string \<Rightarrow> answer res" where
  "decidePassthrough cfg client_id rs header peer =
     (case (is_intercept rs, intercept_header rs) of
        (True, Some intercepted) \<Rightarrow> intercept_for cfg client_id peer intercepted header
      | _ \<Rightarrow> Inl NameError)"

text \<open>A classification by its name.\<close>

definition named_class :: "string \<Rightarrow> string \<Rightarrow> string \<Rightarrow> classification" where
  "named_class classification data comment =
     (if classification = ''permit'' then Permit
      else if classification = ''rewrite'' then Rewrite data
      else if classification = ''file'' then ServeFile data comment
      else if classification = ''redirect'' then Redirect data
      else if classification = ''intercept'' then Intercept data
      else if classification = ''http'' then Http data
      else OtherClass)"

text \<open>
  What a modified request that is not valid becomes: \<open>validateHTTP\<close> gives a whole response, the identifier
  of the client, \<open>http\<close> and the page, which is taken for a classification, its data and its comment.
\<close>

definition refused_class :: "redirector_config \<Rightarrow> string \<Rightarrow> http_message \<Rightarrow> classification" where
  "refused_class cfg client_id m =
     (case validateHTTP cfg client_id m of
        Some (c, Some command, Text page) \<Rightarrow> named_class c command page
      | _ \<Rightarrow> OtherClass)"

definition decideHTTP :: "redirector_config \<Rightarrow> string \<Rightarrow> icap_response \<Rightarrow> http_message \<Rightarrow> string \<Rightarrow> answer option res" where
  "decideHTTP cfg client_id rs m peer =
     seq (if is_permit rs then Inr (Permit, m)
          else if is_modify rs then
            (let m1 = parseHTTP cfg peer (http_response rs) in
             Inr (if msg_validated m1 then Permit else refused_class cfg client_id m1, m1))
          else if is_content rs then Inr (Http (http_response rs), m)
          else (case (is_intercept rs, intercept_header rs) of
            (True, Some intercepted) \<Rightarrow>
              let ir = parse_request cfg peer intercepted in
              seq (or_raise AttributeError (msg_host ir)) (\<lambda>host.
              seq (or_raise AttributeError (msg_port ir)) (\<lambda>port.
              Inr (Intercept (host @ '':'' @ show_nat port), m)))
          | _ \<Rightarrow> Inr (Permit, m)))
       (\<lambda>(c, m'). decision_for client_id m' c)"

section \<open>Requests of the clients\<close>

definition ask_icap :: "child \<Rightarrow> string \<Rightarrow> string res \<Rightarrow> kept \<Rightarrow> answer option res" where
  "ask_icap ch client_id request_string kept = seq request_string (\<lambda>s. ask_child ch client_id s kept)"

definition doICAP :: "redirector_config \<Rightarrow> string \<Rightarrow> child \<Rightarrow> request_args \<Rightarrow> answer option res" where
  "doICAP cfg protocol ch args =
     (let http_header = ra_subheader args in
      seq (parseRequest (ra_header args) http_header) (\<lambda>icap_request.
      let http_request = (if http_header \<noteq> [] then Some (parse_request cfg (ra_peer args) http_header) else None) in
      case icap_request of
        None \<Rightarrow> Inr None
      | Some q \<Rightarrow>
          ask_icap ch (ra_client_id args)
            (serialize_icap (ra_accept_addr args) (ra_accept_port args) (ra_peer args) protocol http_request (Some q) http_header) (KeptICAP q)))"

definition doPassthrough :: "string \<Rightarrow> child \<Rightarrow> request_args \<Rightarrow> answer option res" where
  "doPassthrough protocol ch args =
     ask_icap ch (ra_client_id args) (Inr (serialize_passthrough (ra_accept_addr args) (ra_accept_port args) (ra_peer args) protocol))
       (KeptHeader (ra_header args))"

definition icap_doTLS :: "string \<Rightarrow> child \<Rightarrow> request_args \<Rightarrow> answer option res" where
  "icap_doTLS protocol ch args =
     seq (parseClientHello (ra_header args)) (\<lambda>hello.
     ask_icap ch (ra_client_id args)
       (Inr (serialize_tls (ra_accept_addr args) (ra_accept_port args) (ra_peer args) protocol hello (ra_header args))) (KeptHello hello))"

text \<open>The \<open>createChildRequest\<close> of this class.\<close>

definition icap_child_request :: "string \<Rightarrow> request_args \<Rightarrow> http_message \<Rightarrow> string res" where
  "icap_child_request protocol args m =
     serialize_icap (ra_accept_addr args) (ra_accept_port args) (ra_peer args) protocol (Some m) None (ra_header args)"

definition ICAPRedirector_decide :: "redirector_config \<Rightarrow> string \<Rightarrow> child \<Rightarrow> request_args \<Rightarrow> answer option res" where
  "ICAPRedirector_decide cfg protocol ch args =
     (let client_id = ra_client_id args; peer = ra_peer args; source = ra_source args in
      if checkChild cfg ch then
        if source = ''icap'' then doICAP cfg protocol ch args
        else if source = ''proxy'' then doHTTP cfg ch (icap_child_request protocol args) client_id peer (ra_header args)
        else if source = ''web'' then doMonitor cfg client_id peer (ra_header args)
        else if source = ''tls'' then icap_doTLS protocol ch args
        else if source = ''passthrough'' then doPassthrough protocol ch args
        else Inr (Some (respond_hangup client_id))
      else Inr (Some (respond_error client_id)))"

text \<open>A response and what was kept; what is kept for a source is what its request deferred.\<close>

definition icap_verdict :: "redirector_config \<Rightarrow> request_args \<Rightarrow> icap_response \<Rightarrow> kept \<Rightarrow> answer option res" where
  "icap_verdict cfg args rs kept =
     (let client_id = ra_client_id args; peer = ra_peer args; source = ra_source args in
      if source = ''icap'' then
        (case kept of KeptICAP q \<Rightarrow> Inr (decideICAP client_id (response_string rs) q) | _ \<Rightarrow> Inl AttributeError)
      else if source = ''proxy'' then
        (case kept of KeptMessage m \<Rightarrow> decideHTTP cfg client_id rs m peer | _ \<Rightarrow> Inl AttributeError)
      else if source = ''tls'' then
        (case kept of
           KeptHello hello \<Rightarrow> seq (decideTLS cfg client_id rs hello (ra_header args) peer) (\<lambda>a. Inr (Some a))
         | _ \<Rightarrow> Inl AttributeError)
      else if source = ''passthrough'' then
        seq (decidePassthrough cfg client_id rs (ra_header args) peer) (\<lambda>a. Inr (Some a))
      else Inr (Some (respond_hangup client_id)))"

definition ICAPRedirector_progress :: "redirector_config \<Rightarrow> child \<Rightarrow> 'o child_io \<Rightarrow> 'o \<Rightarrow> request_args \<Rightarrow> kept \<Rightarrow>
    (answer option \<times> 'o option) res option" where
  "ICAPRedirector_progress cfg ch io out args kept =
     oseq (if checkChild cfg ch then icap_readChildResponse ch io out else Some (Inr (None, Some out))) (\<lambda>(icap_response, out').
     case icap_response of
       None \<Rightarrow> Some (Inr (Some (respond_error (ra_client_id args)), out'))
     | Some rs \<Rightarrow> Some (seq (icap_verdict cfg args rs kept) (\<lambda>a. Inr (a, out'))))"

section \<open>The choice of the redirector\<close>

datatype redirector_class = Url_redirector | Icap_redirector

definition redirector_create :: "string \<Rightarrow> redirector_class option" where
  "redirector_create protocol =
     (if protocol = ''url'' then Some Url_redirector
      else if prefix ''icap://'' protocol then Some Icap_redirector
      else None)"

text \<open>What the pool is given: an exception, or something that is no triple, is no command.\<close>

definition verdict_for :: "answer option res \<Rightarrow> kept verdict_of" where
  "verdict_for r = (case r of Inr (Some (_, command, decision)) \<Rightarrow> Some (command, decision) | _ \<Rightarrow> None)"

definition class_decide :: "redirector_config \<Rightarrow> string \<Rightarrow> (worker \<Rightarrow> child) \<Rightarrow> worker \<Rightarrow> request_args \<Rightarrow> kept verdict_of" where
  "class_decide cfg protocol ch w args =
     (case redirector_create protocol of
        Some Url_redirector \<Rightarrow> verdict_for (Redirector_decide cfg (ch w) (ra_client_id args) (ra_peer args) (ra_header args) (ra_source args))
      | Some Icap_redirector \<Rightarrow> verdict_for (ICAPRedirector_decide cfg protocol (ch w) args)
      | None \<Rightarrow> None)"

end
