(* ===== verification/IcapFacts.thy ===== *)
theory IcapFacts
  imports IcapRedirector
begin

text \<open>
  What the ICAP redirector does: its requests are framed, the responses of its child are read to their last
  byte, and what becomes of the malformed ones.
\<close>

section \<open>Reading what the child writes\<close>

text \<open>The output of a child as the bytes that are still to come before its end.\<close>

definition bytes_readline :: "string \<Rightarrow> (string \<times> string) res" where
  "bytes_readline s =
     (case py_find [LF] s of None \<Rightarrow> Inr (s, []) | Some k \<Rightarrow> Inr (take (Suc k) s, drop (Suc k) s))"

definition bytes_read :: "nat \<Rightarrow> string \<Rightarrow> (string \<times> string) res" where
  "bytes_read n s = Inr (take n s, drop n s)"

definition bytes_io :: "string child_io" where
  "bytes_io = \<lparr>io_readline = bytes_readline, io_read = bytes_read, io_stderr = Inr []\<rparr>"

lemma bytes_io_simps [simp]:
  "io_readline bytes_io = bytes_readline" "io_read bytes_io = bytes_read" "io_stderr bytes_io = Inr []"
  by (simp_all add: bytes_io_def)

lemma bytes_readline_line [simp]: "LF \<notin> set l \<Longrightarrow> bytes_readline (l @ LF # rest) = Inr (l @ [LF], rest)"
  by (simp add: bytes_readline_def py_find_char_skip)

lemma bytes_readline_CRLF [simp]: "LF \<notin> set l \<Longrightarrow> bytes_readline (l @ CR # LF # rest) = Inr (l @ CRLF, rest)"
  using bytes_readline_line [of "l @ [CR]" rest] by simp

lemma bytes_readline_end [simp]: "bytes_readline [] = Inr ([], [])"
  by (simp add: bytes_readline_def)

text \<open>The lines of a header after the first: none is blank.\<close>

definition unbroken :: "string list \<Rightarrow> bool" where
  "unbroken ls \<longleftrightarrow> (\<forall>l \<in> set ls. LF \<notin> set l \<and> py_rstrip (l @ [LF]) \<noteq> [])"

definition ended :: "string list \<Rightarrow> string" where
  "ended ls = concat (map (\<lambda>l. l @ [LF]) ls)"

lemma ended_simps [simp]: "ended [] = []" "ended (l # ls) = l @ LF # ended ls"
  by (simp_all add: ended_def)

lemma read_block_lines:
  assumes "unbroken ls"
  shows "read_block bytes_io h (ended ls @ s) = read_block bytes_io (h @ ended ls) s"
  using assms
proof (induction ls arbitrary: h)
  case (Cons l ls)
  then have l: "LF \<notin> set l" "py_rstrip (l @ [LF]) \<noteq> []" and ls: "unbroken ls" by (auto simp: unbroken_def)
  have "read_block bytes_io h (ended (l # ls) @ s) = read_block bytes_io (h @ l @ [LF]) (ended ls @ s)"
    by (subst read_block.simps) (use l in simp)
  also have "\<dots> = read_block bytes_io ((h @ l @ [LF]) @ ended ls) s" by (rule Cons.IH [OF ls])
  finally show ?case by simp
qed simp

definition blank_line :: "string \<Rightarrow> bool" where
  "blank_line l \<longleftrightarrow> l = [LF] \<or> l = CRLF"

lemma read_block_blank: "blank_line e \<Longrightarrow> read_block bytes_io h (e @ s) = Some (Inr (Some (h @ e), s))"
  using bytes_readline_line [of "[]" s] bytes_readline_CRLF [of "[]" s]
  by (subst read_block.simps) (auto simp: blank_line_def py_rstrip_def is_space_def)

lemma read_block_end: "read_block bytes_io h [] = Some (Inr (None, []))"
  by (subst read_block.simps) simp

lemma read_exactly_bytes: "read_exactly bytes_io (length s) content (s @ rest) = Some (Inr (content @ s, rest))"
proof (cases "s = []")
  case True
  then show ?thesis by (subst read_exactly.simps) simp
next
  case False
  then show ?thesis by (subst read_exactly.simps) (simp add: bytes_read_def read_exactly.simps [of _ 0])
qed

text \<open>When bytes are missing at the end of the output, the loop asks for them for ever.\<close>

lemma read_exactly_short:
  assumes "read_exactly io n content out = Some r" "\<And>k. io_read io k out = Inr ([], out)"
  shows "n = 0"
proof -
  have "(\<And>k. io_read io k out = Inr ([], out)) \<Longrightarrow> n = 0" if "read_exactly io n content out = Some r" for io :: "'a child_io" and n content out r
    using that
    by (induction rule: read_exactly.raw_induct [OF _ that, consumes 0]) (auto split: if_splits sum.splits)
  from this [OF assms] show ?thesis .
qed

lemma read_exactly_forever: "n > length out \<Longrightarrow> read_exactly bytes_io n content out = None"
proof -
  assume n: "n > length out"
  have none: "read_exactly bytes_io k c [] = None" if "k > 0" for k c
    using read_exactly_short [of bytes_io k c "[]"] that by (cases "read_exactly bytes_io k c []") (auto simp: bytes_read_def)
  show ?thesis
    by (subst read_exactly.simps) (use n none in \<open>simp add: bytes_read_def\<close>)
qed

text \<open>
  A framing of the body that the loop reads to its last byte (a specification, it is nowhere in the code): chunks as
  in HTTP, each followed by \<open>CRLF\<close>, and the line of the last size. The blank line with which HTTP then ends the
  body is not part of it.
\<close>

definition body_chunk :: "string \<Rightarrow> string" where
  "body_chunk c = show_hex (length c) @ CRLF @ c @ CRLF"

definition body_chunks :: "string list \<Rightarrow> string" where
  "body_chunks cs = concat (map body_chunk cs) @ ''0'' @ CRLF"

lemma hexdigit_kinds: "c \<in> set hexdigits \<Longrightarrow> \<not> is_space c \<and> c \<noteq> CHR ''-'' \<and> c \<noteq> CHR ''+'' \<and> to_lower c \<noteq> CHR ''x'' \<and> c \<noteq> LF"
proof -
  have "list_all (\<lambda>c. \<not> is_space c \<and> c \<noteq> CHR ''-'' \<and> c \<noteq> CHR ''+'' \<and> to_lower c \<noteq> CHR ''x'' \<and> c \<noteq> LF) hexdigits" by code_simp
  then show "c \<in> set hexdigits \<Longrightarrow> ?thesis" by (auto simp: list_all_iff)
qed

lemma hex_size_no_LF: "LF \<notin> set (show_hex n)"
  using show_hex_digits [of n] hexdigit_kinds by blast

lemma py_strip_word:
  assumes "w \<noteq> []" "\<forall>c \<in> set w. \<not> is_space c"
  shows "py_strip (w @ CRLF) = w"
proof -
  have "py_lstrip (w @ CRLF) = w @ CRLF" using assms by (intro py_lstrip_id) (cases w, auto)
  moreover have "py_rstrip (w @ CRLF) = py_rstrip w" by (simp add: py_rstrip_def is_space_def)
  moreover have "py_rstrip w = w" using assms by (intro py_rstrip_id) auto
  ultimately show ?thesis by (simp add: py_strip_def)
qed

lemma py_int16_digits:
  assumes "w \<noteq> []" "set w \<subseteq> set hexdigits"
  shows "py_int16 w = Inr (int (nat_of_hex w))"
proof -
  have plain: "\<forall>c \<in> set w. \<not> is_space c \<and> c \<noteq> CHR ''-'' \<and> c \<noteq> CHR ''+'' \<and> to_lower c \<noteq> CHR ''x''"
    using assms(2) hexdigit_kinds by blast
  then have "\<not> is_space (hd w)" "\<not> is_space (last w)" using assms(1) by simp_all
  then have strip: "py_strip w = w" by (intro py_strip_id) simp
  obtain c cs where w: "w = c # cs" using assms(1) by (cases w) auto
  then have c: "(c = CHR ''-'') = False" "(c = CHR ''+'') = False" using plain by (metis list.set_intros(1))+
  have "\<not> prefix ''0x'' (py_lower w)"
  proof
    assume "prefix ''0x'' (py_lower w)"
    then have "CHR ''x'' \<in> set (py_lower w)" by (auto simp: prefix_def)
    then have "CHR ''x'' \<in> to_lower ` set w" unfolding py_lower_def set_map .
    then obtain d where "d \<in> set w" "to_lower d = CHR ''x''" by (metis imageE)
    with plain show False by blast
  qed
  moreover have "(case w of [] \<Rightarrow> (False, w) | c # cs \<Rightarrow>
      if c = CHR ''-'' then (True, py_lstrip cs) else if c = CHR ''+'' then (False, py_lstrip cs) else (False, w)) = (False, w)"
    unfolding w list.case by (simp only: c if_False)
  ultimately show ?thesis using assms unfolding py_int16_def Let_def strip by simp
qed

lemma py_int16_size: "py_int16 (py_strip (show_hex n @ CRLF)) = Inr (int n)"
proof -
  have "\<forall>c \<in> set (show_hex n). \<not> is_space c" using show_hex_digits [of n] hexdigit_kinds by blast
  then show ?thesis using show_hex_digits [of n] py_strip_word [of "show_hex n"] py_int16_digits [of "show_hex n"]
    by simp
qed

lemma show_hex_zero: "show_hex 0 = ''0''"
  by (simp add: show_hex.simps hex_char_def)

lemma read_size_line:
  "bytes_readline (show_hex n @ CRLF @ rest) = Inr (show_hex n @ CRLF, rest)"
  using bytes_readline_CRLF [OF hex_size_no_LF] by simp

lemma read_CRLF: "bytes_readline (CRLF @ rest) = Inr (CRLF, rest)"
  using bytes_readline_CRLF [of "[]" rest] by simp

lemma body_chunks_simps:
  "body_chunks [] @ rest = show_hex 0 @ CRLF @ rest"
  "body_chunks (c # cs) @ rest = show_hex (length c) @ CRLF @ c @ CRLF @ body_chunks cs @ rest"
  by (simp_all add: body_chunks_def body_chunk_def show_hex_zero)

lemma read_blocks_chunks:
  assumes "c \<noteq> []" "[] \<notin> set cs"
  shows "read_blocks bytes_io False chunked (int (length c)) content (c @ (if chunked then CRLF else []) @ body_chunks cs @ rest)
    = Some (Inr (0, content @ c @ concat cs, rest))"
  using assms
proof (induction cs arbitrary: c content chunked)
  case Nil
  have e: "read_blocks bytes_io False True 0 (content @ c) rest = Some (Inr (0, content @ c, rest))"
    by (subst read_blocks.simps) simp
  show ?case
    by (subst read_blocks.simps)
      (use Nil py_int16_size [of 0] e in \<open>simp add: body_chunks_simps read_exactly_bytes read_size_line read_CRLF del: append_Cons\<close>)
next
  case (Cons d ds)
  then have d: "d \<noteq> []" "[] \<notin> set ds" by auto
  have IH: "read_blocks bytes_io False True (int (length d)) (content @ c) (d @ CRLF @ body_chunks ds @ rest)
      = Some (Inr (0, (content @ c) @ d @ concat ds, rest))"
    using Cons.IH [OF d, of True "content @ c"] by simp
  show ?case
    by (subst read_blocks.simps)
      (use Cons.prems py_int16_size [of "length d"] IH in
        \<open>simp add: body_chunks_simps read_exactly_bytes read_size_line read_CRLF del: append_Cons\<close>)
qed

lemma read_blocks_complete:
  "read_blocks bytes_io True False (int (length c)) content (c @ rest) = Some (Inr (0, content @ c, rest))"
  by (subst read_blocks.simps) (simp add: read_exactly_bytes)

lemma icap_response_reads:
  assumes "ch_process ch" "LF \<notin> set first_line" "unbroken ls" "blank_line e"
    and "parseResponseHeader (Some (ended (first_line # ls) @ e)) = Inr rh" "rh_info rh \<noteq> None"
    and "length message = rh_content_length rh" "rh_body_complete rh \<or> message \<noteq> [] \<and> [] \<notin> set cs"
  shows "icap_readChildResponse ch bytes_io (ended (first_line # ls) @ e @ message @ (if rh_body_complete rh then [] else body_chunks cs) @ rest)
    = Some (Inr (Some (continueResponse rh (message @ (if rh_body_complete rh then [] else concat cs))), Some rest))"
proof -
  let ?body = "message @ (if rh_body_complete rh then [] else body_chunks cs) @ rest"
  have first: "bytes_readline (ended (first_line # ls) @ e @ ?body) = Inr (first_line @ [LF], ended ls @ e @ ?body)"
    using assms(2) by simp
  have block: "read_block bytes_io (first_line @ [LF]) (ended ls @ e @ ?body) = Some (Inr (Some (ended (first_line # ls) @ e), ?body))"
    by (simp add: read_block_lines [OF assms(3)] read_block_blank [OF assms(4)])
  have blocks: "read_blocks bytes_io (rh_body_complete rh) False (int (rh_content_length rh)) [] ?body
      = Some (Inr (0, message @ (if rh_body_complete rh then [] else concat cs), rest))"
  proof (cases "rh_body_complete rh")
    case True
    then show ?thesis using read_blocks_complete [of message "[]" rest] by (simp add: assms(7))
  next
    case False
    then show ?thesis using read_blocks_chunks [of message cs False "[]" rest] assms(8) by (simp add: assms(7))
  qed
  have "read_response bytes_io (ended (first_line # ls) @ e @ ?body)
      = Some (Inr (Some (rh, message @ (if rh_body_complete rh then [] else concat cs)), rest))"
    unfolding read_response_def bytes_io_simps first oseq_simps prod.case block assms(5) blocks using assms(6) by simp
  then show ?thesis using assms(1) by (simp add: icap_readChildResponse_def)
qed

text \<open>A response of the child is read to its last byte, and no further: the header up to the blank line, the HTTP header of the announced length, and the chunks of the body up to their last size. What is given to the proxy is the response with the chunks joined.\<close>

theorem icap_response_read:
  assumes "ch_process ch" "LF \<notin> set first_line" "unbroken ls" "blank_line e"
    and "parseResponseHeader (Some (ended (first_line # ls) @ e)) = Inr rh" "rh_info rh \<noteq> None"
    and "length message = rh_content_length rh" "rh_body_complete rh \<or> message \<noteq> [] \<and> [] \<notin> set cs"
  shows "icap_readChildResponse ch bytes_io (ended (first_line # ls) @ e @ message @ (if rh_body_complete rh then [] else body_chunks cs) @ rest)
    = Some (Inr (Some (continueResponse rh (message @ (if rh_body_complete rh then [] else concat cs))), Some rest))"
  using assms by (rule icap_response_reads)

section \<open>Headers that name two parts\<close>

lemma readHeaders_line:
  "CHR '':'' \<notin> set k \<Longrightarrow> readHeaders ((k @ CHR '':'' # v) # rest) h = readHeaders rest (read_header (py_strip (py_lower k)) (py_strip v) h)"
  by simp

lemma encapsulated_key: "py_strip (py_lower ''Encapsulated'') = ''encapsulated''"
  by code_simp

definition part_name :: "string \<Rightarrow> bool" where
  "part_name a \<longleftrightarrow> a \<noteq> [] \<and> (\<forall>c \<in> set a. c \<noteq> CHR '','' \<and> c \<noteq> CHR ''='' \<and> \<not> is_space c)"

lemma digits_plain: "c \<in> set (show_nat n) \<Longrightarrow> c \<noteq> CHR '','' \<and> c \<noteq> CHR ''='' \<and> c \<noteq> CHR '':'' \<and> \<not> is_space c \<and> c \<noteq> CR \<and> c \<noteq> LF"
proof -
  assume "c \<in> set (show_nat n)"
  then have "is_digit c" using show_nat_digits [of n] by (auto simp: list_all_iff)
  then show ?thesis by (auto simp: is_digit_def is_space_def)
qed

lemma offset_of_pair:
  assumes "part_name a" "py_isdigit d"
  shows "offset_of (a @ CHR ''='' # d) = Some (a, nat_of_dec d)"
proof -
  have "CHR ''='' \<notin> set a" using assms(1) by (auto simp: part_name_def)
  then show ?thesis using assms(2) by (simp add: offset_of_def)
qed

lemma py_strip_pair:
  assumes "part_name a"
  shows "py_strip ('' '' @ a @ CHR ''='' # show_nat n) = a @ CHR ''='' # show_nat n" "py_strip (a @ ''=0'') = a @ ''=0''"
proof -
  have h: "\<not> is_space (hd a)" "a \<noteq> []" using assms by (auto simp: part_name_def)
  have l: "\<not> is_space (last (show_nat n))" "show_nat n \<noteq> []" using show_nat_digits [of n] digits_plain [of "last (show_nat n)" n] by auto
  have "py_strip (a @ CHR ''='' # show_nat n) = a @ CHR ''='' # show_nat n" using h l by (intro py_strip_id) simp
  moreover have "py_lstrip ('' '' @ s) = py_lstrip s" for s by (simp add: py_lstrip_def is_space_def)
  ultimately show "py_strip ('' '' @ a @ CHR ''='' # show_nat n) = a @ CHR ''='' # show_nat n" by (simp add: py_strip_def)
  show "py_strip (a @ ''=0'') = a @ ''=0''" using h by (intro py_strip_id) (simp add: is_space_def)
qed

lemma getOffsets_pair:
  assumes "single ''encapsulated'' h = a @ ''=0, '' @ b @ CHR ''='' # show_nat n" "part_name a" "part_name b"
  shows "getOffsets h = [(a, 0), (b, n)]"
proof -
  have comma: "CHR '','' \<notin> set (a @ ''=0'')" "CHR '','' \<notin> set ('' '' @ b @ CHR ''='' # show_nat n)"
    using assms(2,3) digits_plain [of "CHR '',''" n] by (auto simp: part_name_def)
  have "a @ ''=0, '' @ b @ CHR ''='' # show_nat n = (a @ ''=0'') @ CHR '','' # ('' '' @ b @ CHR ''='' # show_nat n)" by simp
  then have split: "split_on CHR '','' (single ''encapsulated'' h) = [a @ ''=0'', '' '' @ b @ CHR ''='' # show_nat n]"
    unfolding assms(1) using split_on_append [OF comma(1)] split_on_id [OF comma(2)] by simp
  have "offset_of (a @ ''=0'') = Some (a, 0)"
    using offset_of_pair [OF assms(2), of "''0''"] by (simp add: py_isdigit_def is_digit_def nat_of_dec_def digit_val_def)
  moreover have "offset_of (b @ CHR ''='' # show_nat n) = Some (b, n)"
    using offset_of_pair [OF assms(3), of "show_nat n"] by simp
  ultimately show ?thesis
    unfolding getOffsets_def split using py_strip_pair [OF assms(2)] py_strip_pair [OF assms(3)]
    by (simp add: map_filter_simps)
qed

text \<open>A response with two parts, as the children that come with the proxy write it.\<close>

definition two_parts :: "string \<Rightarrow> string \<Rightarrow> nat \<Rightarrow> string" where
  "two_parts a b n = ''Encapsulated: '' @ a @ ''=0, '' @ b @ CHR ''='' # show_nat n"

definition response_with :: "string \<Rightarrow> nat \<Rightarrow> string \<Rightarrow> string \<Rightarrow> string \<Rightarrow> nat \<Rightarrow> string \<Rightarrow> string" where
  "response_with info code status a b n rest =
     ended [info @ '' '' @ show_nat code @ '' '' @ status, two_parts a b n] @ [LF] @ rest"

lemma part_name_one_line: "part_name a \<Longrightarrow> one_line a"
  by (auto simp: part_name_def one_line_def is_space_def)

lemma two_parts_line:
  assumes "part_name a" "part_name b"
  shows "one_line (two_parts a b n)" "py_rstrip (two_parts a b n @ [LF]) \<noteq> []"
proof -
  show "one_line (two_parts a b n)"
    using part_name_one_line [OF assms(1)] part_name_one_line [OF assms(2)] digits_plain [of CR n] digits_plain [of LF n]
    by (auto simp: two_parts_def one_line_def)
  have "CHR ''E'' \<in> set (two_parts a b n @ [LF])" "\<not> is_space (CHR ''E'')" by (simp_all add: two_parts_def is_space_def)
  then have "dropWhile is_space (rev (two_parts a b n @ [LF])) \<noteq> []" unfolding dropWhile_eq_Nil_conv by (metis set_rev)
  then show "py_rstrip (two_parts a b n @ [LF]) \<noteq> []" by (simp add: py_rstrip_def)
qed

lemma two_parts_headers:
  assumes "part_name a" "part_name b"
  shows "readHeaders (two_parts a b n # [] # rest) h = Some (h(''encapsulated'' \<mapsto> Single (a @ ''=0, '' @ b @ CHR ''='' # show_nat n)))"
proof -
  let ?v = "a @ ''=0, '' @ b @ CHR ''='' # show_nat n"
  have f: "\<not> is_space (hd ?v)" using assms(1) by (cases a) (auto simp: part_name_def)
  have l: "\<not> is_space (last ?v)" using show_nat_digits [of n] digits_plain [of "last (show_nat n)" n] by auto
  have "py_strip ('' '' @ ?v) = py_strip ?v" by (simp add: py_strip_def py_lstrip_def is_space_def)
  also have "\<dots> = ?v" using f l by (intro py_strip_id) simp
  finally have v: "py_strip ('' '' @ ?v) = ?v" .
  have "two_parts a b n = ''Encapsulated'' @ CHR '':'' # ('' '' @ ?v)" by (simp add: two_parts_def)
  moreover have "CHR '':'' \<notin> set ''Encapsulated''" by simp
  ultimately have "readHeaders (two_parts a b n # [] # rest) h = readHeaders ([] # rest) (read_header ''encapsulated'' ?v h)"
    using readHeaders_line [of "''Encapsulated''" "'' '' @ ?v" "[] # rest" h] unfolding encapsulated_key v by metis
  then show ?thesis by (simp add: read_header_def icap_known_def)
qed

lemma response_line:
  assumes "CHR '' '' \<notin> set info"
  shows "parseResponseLine (info @ '' '' @ show_nat code @ '' '' @ status) = Some (info, code, status)"
proof -
  have "CHR '' '' \<notin> set (show_nat code)" using digits_plain [of "CHR '' ''" code] by (auto simp: is_space_def)
  then show ?thesis using assms by (simp add: parseResponseLine_def)
qed

lemma two_parts_parsed:
  assumes "one_line status" "part_name a" "part_name b"
  shows "parseResponseHeader (Some (response_with ''ICAP/1.0'' code status a b n [])) = Inr
    \<lparr>rh_info = Some (''ICAP/1.0'', code, status),
     rh_headers = [''encapsulated'' \<mapsto> Single (a @ ''=0, '' @ b @ CHR ''='' # show_nat n), ''server'' \<mapsto> Single ''EXA Proxy 1.0''],
     rh_header_string = response_with ''ICAP/1.0'' code status a b n [], rh_offsets = [(a, 0), (b, n)], rh_content_length = n,
     rh_body_complete = (b = ''null-body'')\<rparr>"
proof -
  let ?first = "''ICAP/1.0'' @ '' '' @ show_nat code @ '' '' @ status"
  have f: "one_line ?first" using assms(1) digits_plain [of CR code] digits_plain [of LF code] by (auto simp: one_line_def)
  have e: "one_line []" by (simp add: one_line_def)
  have lines: "text_lines (response_with ''ICAP/1.0'' code status a b n []) = [?first, two_parts a b n, [], []]"
    using text_lines_LF [OF f] text_lines_LF [OF two_parts_line(1) [OF assms(2,3), of n]] text_lines_LF [OF e, of "[]"] text_lines_one [OF e]
    by (simp add: response_with_def)
  have line: "parseResponseLine ?first = Some (''ICAP/1.0'', code, status)" by (rule response_line) simp
  let ?h = "[''encapsulated'' \<mapsto> Single (a @ ''=0, '' @ b @ CHR ''='' # show_nat n), ''server'' \<mapsto> Single ''EXA Proxy 1.0'']"
  have "getOffsets ?h = [(a, 0), (b, n)]" by (rule getOffsets_pair [OF _ assms(2,3)]) (simp add: single_def)
  then show ?thesis
    unfolding parseResponseHeader_def or_raise_simps seq_simps lines list.sel line Let_def two_parts_headers [OF assms(2,3)]
    by (simp add: icap_versions_def getBodyLength_def)
qed

abbreviation header_of :: "nat \<Rightarrow> string \<Rightarrow> string \<Rightarrow> string \<Rightarrow> nat \<Rightarrow> response_header" where
  "header_of code status a b n \<equiv>
    \<lparr>rh_info = Some (''ICAP/1.0'', code, status),
     rh_headers = [''encapsulated'' \<mapsto> Single (a @ ''=0, '' @ b @ CHR ''='' # show_nat n), ''server'' \<mapsto> Single ''EXA Proxy 1.0''],
     rh_header_string = response_with ''ICAP/1.0'' code status a b n [], rh_offsets = [(a, 0), (b, n)], rh_content_length = n,
     rh_body_complete = (b = ''null-body'')\<rparr>"

lemma two_parts_read:
  assumes "ch_process ch" "one_line status" "part_name a" "part_name b" "length message = n"
    and "b = ''null-body'' \<or> message \<noteq> [] \<and> [] \<notin> set cs"
  shows "icap_readChildResponse ch bytes_io
      (response_with ''ICAP/1.0'' code status a b n (message @ (if b = ''null-body'' then [] else body_chunks cs) @ rest))
    = Some (Inr (Some (continueResponse (header_of code status a b n) (message @ (if b = ''null-body'' then [] else concat cs))), Some rest))"
proof -
  let ?first = "''ICAP/1.0'' @ '' '' @ show_nat code @ '' '' @ status"
  have first: "LF \<notin> set ?first" using assms(2) digits_plain [of LF code] by (auto simp: one_line_def)
  have line: "unbroken [two_parts a b n]" using two_parts_line [OF assms(3,4), of n] by (simp add: unbroken_def one_line_def)
  have e: "blank_line [LF]" by (simp add: blank_line_def)
  have shape: "response_with ''ICAP/1.0'' code status a b n s = ended [?first, two_parts a b n] @ [LF] @ s" for s by (simp add: response_with_def)
  have parsed: "parseResponseHeader (Some (ended [?first, two_parts a b n] @ [LF])) = Inr (header_of code status a b n)"
    using two_parts_parsed [OF assms(2-4), of code n] unfolding shape append_Nil2 .
  show ?thesis
    using icap_response_reads [OF assms(1) first line e parsed, of message cs rest] assms(5,6) unfolding shape by simp
qed

lemma continue_content:
  assumes "message \<noteq> []" "length message = n"
  shows "continueResponse (header_of code status ''res-hdr'' ''res-body'' n) (message @ body)
    = ICAPResponse_init (Some (''ICAP/1.0'', code, status)) (rh_headers (header_of code status ''res-hdr'' ''res-body'' n))
        (response_with ''ICAP/1.0'' code status ''res-hdr'' ''res-body'' n []) message (Some body) Response_modification"
proof -
  have "splitResponseParts [(''res-hdr'', 0), (''res-body'', n)] (message @ body) = [''res-hdr'' \<mapsto> message, ''res-body'' \<mapsto> body]"
    using assms(2) by (auto simp: splitResponseParts_def py_dict_def py_slice_def fun_eq_iff)
  then show ?thesis using assms(1) by (simp add: continueResponse_def create_response_def)
qed

lemma continue_request:
  assumes "rh_offsets rh = [(''req-hdr'', 0), (''null-body'', length message)]"
  obtains intercepted request where
    "continueResponse rh message
      = ICAPResponse_init (rh_info rh) (rh_headers rh) (rh_header_string rh) request None (Request_modification intercepted)"
    "\<not> prefix ''CONNECT'' message \<Longrightarrow> intercepted = None \<and> request = message"
proof -
  have parts: "splitResponseParts [(''req-hdr'', 0), (''null-body'', length message)] message = [''req-hdr'' \<mapsto> message]"
    by (auto simp: splitResponseParts_def py_dict_def py_slice_def fun_eq_iff)
  obtain i r where ir: "(if prefix ''CONNECT'' message then
        case splitResponse message of (first, rest) \<Rightarrow>
        if single ''x-intercept'' (rh_headers rh) \<noteq> ''active'' \<and> rest = [] then (None, message) else (Some first, rest)
      else (None, message)) = (i, r)" by fastforce
  have get: "dict_get [''req-hdr'' \<mapsto> message] ''res-hdr'' [] = []" "dict_get [''req-hdr'' \<mapsto> message] ''req-hdr'' [] = message"
    "[''req-hdr'' \<mapsto> message] ''req-body'' = None" by (simp_all add: dict_get_def)
  have "continueResponse rh message = ICAPResponse_init (rh_info rh) (rh_headers rh) (rh_header_string rh) r None (Request_modification i)"
    unfolding continueResponse_def assms parts Let_def get ir prod.case by (simp add: create_response_def)
  then show thesis by (rule that) (use ir in simp)
qed

section \<open>Decisions on the requests of the proxy\<close>

lemma progress_proxy:
  assumes "ra_source args = ''proxy''" "checkChild cfg ch" "icap_readChildResponse ch io out = Some (Inr (Some rs, out'))"
  shows "ICAPRedirector_progress cfg ch io out args (KeptMessage m)
    = Some (seq (decideHTTP cfg (ra_client_id args) rs m (ra_peer args)) (\<lambda>a. Inr (a, out')))"
  using assms by (simp add: ICAPRedirector_progress_def icap_verdict_def)

lemma plain_parts: "part_name ''res-hdr''" "part_name ''res-body''" "part_name ''req-hdr''" "part_name ''null-body''"
  by (simp_all add: part_name_def is_space_def)

text \<open>
  The child \<open>etc/exaproxy/redirector/icap-serve\<close> that comes with the proxy writes its page as a single chunk without a line end
  after it: its last line, \<open>0\<close>, is skipped as that line end, and the size of the next chunk is asked for. So its page is never
  served: reading waits as long as the child writes nothing more, and \<open>ValueError\<close> is raised when it ends or writes its next response.
\<close>

theorem icap_serve_unserved:
  assumes "ch_process ch" "one_line status" "message \<noteq> []" "body \<noteq> []"
    and "bytes_readline rest = Inr (line, rest')" "py_int16 (py_strip line) = Inl ValueError"
  shows "icap_readChildResponse ch bytes_io
      (response_with ''ICAP/1.0'' 200 status ''res-hdr'' ''res-body'' (length message)
        (message @ show_hex (length body) @ LF # body @ ''0'' @ LF # rest)) = Some (Inl ValueError)"
proof -
  let ?first = "''ICAP/1.0'' @ '' '' @ show_nat 200 @ '' '' @ status" and ?n = "length message"
  let ?body = "message @ show_hex (length body) @ LF # body @ ''0'' @ LF # rest"
  have first: "LF \<notin> set ?first" using assms(2) digits_plain [of LF 200] by (auto simp: one_line_def)
  have line: "unbroken [two_parts ''res-hdr'' ''res-body'' ?n]"
    using two_parts_line [OF plain_parts(1,2), of ?n] by (simp add: unbroken_def one_line_def)
  have shape: "response_with ''ICAP/1.0'' 200 status ''res-hdr'' ''res-body'' ?n s = ended [?first, two_parts ''res-hdr'' ''res-body'' ?n] @ [LF] @ s" for s
    by (simp add: response_with_def)
  have parsed: "parseResponseHeader (Some (ended [?first, two_parts ''res-hdr'' ''res-body'' ?n] @ [LF]))
      = Inr (header_of 200 status ''res-hdr'' ''res-body'' ?n)"
    using two_parts_parsed [OF assms(2) plain_parts(1,2), of 200 ?n] unfolding shape append_Nil2 .
  have size: "py_int16 (py_strip (show_hex (length body) @ [LF])) = Inr (int (length body))"
  proof -
    have "py_strip (show_hex (length body) @ [LF]) = py_strip (show_hex (length body) @ CRLF)"
      using show_hex_digits [of "length body"] hexdigit_kinds
      by (cases "show_hex (length body)") (auto simp: py_strip_def py_lstrip_def py_rstrip_def is_space_def)
    then show ?thesis using py_int16_size by simp
  qed
  have zero: "bytes_readline (''0'' @ LF # rest) = Inr (''0'' @ [LF], rest)" by (rule bytes_readline_line) simp
  have second: "read_blocks bytes_io False True (int (length body)) message (body @ ''0'' @ LF # rest) = Some (Inl ValueError)"
    by (subst read_blocks.simps) (use assms(4) zero in \<open>simp add: read_exactly_bytes assms(5,6) del: append_Cons\<close>)
  have "read_blocks bytes_io False False (int ?n) [] ?body = Some (Inl ValueError)"
    by (subst read_blocks.simps)
       (use assms(3) size second bytes_readline_line [OF hex_size_no_LF] in \<open>simp add: read_exactly_bytes del: append_Cons\<close>)
  then have blocks: "read_blocks bytes_io (rh_body_complete (header_of 200 status ''res-hdr'' ''res-body'' ?n)) False
      (int (rh_content_length (header_of 200 status ''res-hdr'' ''res-body'' ?n))) [] ?body = Some (Inl ValueError)" by simp
  have head: "bytes_readline (ended [?first, two_parts ''res-hdr'' ''res-body'' ?n] @ [LF] @ ?body)
      = Inr (?first @ [LF], ended [two_parts ''res-hdr'' ''res-body'' ?n] @ [LF] @ ?body)"
    using bytes_readline_line [OF first, of "ended [two_parts ''res-hdr'' ''res-body'' ?n] @ [LF] @ ?body"] by simp
  have block: "read_block bytes_io (?first @ [LF]) (ended [two_parts ''res-hdr'' ''res-body'' ?n] @ [LF] @ ?body)
      = Some (Inr (Some (ended [?first, two_parts ''res-hdr'' ''res-body'' ?n] @ [LF]), ?body))"
    using read_block_blank [of "[LF]" "(?first @ [LF]) @ ended [two_parts ''res-hdr'' ''res-body'' ?n]" ?body]
    unfolding read_block_lines [OF line] by (simp add: blank_line_def)
  have "read_response bytes_io (ended [?first, two_parts ''res-hdr'' ''res-body'' ?n] @ [LF] @ ?body) = Some (Inl ValueError)"
    unfolding read_response_def bytes_io_simps head oseq_simps prod.case block parsed blocks by (rule refl)
  then show ?thesis using assms(1) unfolding shape by (simp add: icap_readChildResponse_def)
qed

text \<open>A blank line before a response: it is taken for the line of the status.\<close>

lemma blank_line_before:
  assumes "ch_process ch" "one_line status" "part_name a" "part_name b"
  shows "icap_readChildResponse ch bytes_io (CRLF @ response_with ''ICAP/1.0'' code status a b n next') = Some (Inr (None, Some next'))"
proof -
  let ?first = "''ICAP/1.0'' @ '' '' @ show_nat code @ '' '' @ status"
  have "LF \<notin> set ?first" using assms(2) digits_plain [of LF code] by (auto simp: one_line_def)
  moreover have "py_rstrip (?first @ [LF]) \<noteq> []"
  proof -
    have "CHR ''I'' \<in> set (?first @ [LF])" "\<not> is_space (CHR ''I'')" by (simp_all add: is_space_def)
    then have "dropWhile is_space (rev (?first @ [LF])) \<noteq> []" unfolding dropWhile_eq_Nil_conv by (metis set_rev)
    then show ?thesis by (simp add: py_rstrip_def)
  qed
  ultimately have ls: "unbroken [?first, two_parts a b n]"
    using two_parts_line [OF assms(3,4), of n] by (simp add: unbroken_def one_line_def)
  let ?header = "CRLF @ ended [?first, two_parts a b n] @ [LF]"
  have shape: "CRLF @ response_with ''ICAP/1.0'' code status a b n next' = CRLF @ ended [?first, two_parts a b n] @ [LF] @ next'"
    by (simp add: response_with_def)
  have block: "read_block bytes_io CRLF (ended [?first, two_parts a b n] @ [LF] @ next') = Some (Inr (Some ?header, next'))"
    unfolding read_block_lines [OF ls] using read_block_blank [of "[LF]"] by (simp add: blank_line_def)
  have "hd (text_lines ?header) = []" using text_lines_CRLF [of "[]"] by (simp add: one_line_def)
  moreover have "parseResponseLine [] = None" by (simp add: parseResponseLine_def py_split1_def)
  moreover have "getOffsets Map.empty = []" by (simp add: getOffsets_def single_def)
  ultimately obtain rh where rh: "parseResponseHeader (Some ?header) = Inr rh" "rh_info rh = None" "rh_content_length rh = 0"
    unfolding parseResponseHeader_def by (simp add: getBodyLength_def Let_def)
  have none: "read_blocks bytes_io c False 0 [] s = Some (Inr (0, [], s))" for c s by (subst read_blocks.simps) simp
  have "read_response bytes_io (CRLF @ response_with ''ICAP/1.0'' code status a b n next') = Some (Inr (None, next'))"
    unfolding shape read_response_def bytes_io_simps read_CRLF oseq_simps prod.case block rh(1)
    by (simp add: none rh(2,3))
  then show ?thesis using assms(1) by (simp add: icap_readChildResponse_def)
qed

text \<open>C20: For a request of the HTTP proxy by CONNECT or a method with content: a page that the ICAP server gives with status 200, a header that is not empty and chunks that are not empty, each followed by \<open>CRLF\<close>, is what the client is sent, joined, with its header and nothing else; everything after the line of the last size is left in the output. So when the body ends as HTTP ends it, with a blank line after that, the blank line is left too, and the next response of the child (of the form its children write, whatever its status, parts and source) is lost: its client is answered with an error, and its message is left in the output in its turn.\<close>

theorem icap_content_served:
  assumes "ra_source args = ''proxy''" "checkChild cfg ch" "ch_process ch" "one_line status"
    and "message \<noteq> []" "[] \<notin> set cs" "msg_request m = Some r" "req_method r \<in> insert ''CONNECT'' (set content_methods)"
    and "one_line status'" "part_name a" "part_name b"
  shows "ICAPRedirector_progress cfg ch bytes_io
      (response_with ''ICAP/1.0'' 200 status ''res-hdr'' ''res-body'' (length message) (message @ body_chunks cs @ rest)) args (KeptMessage m)
    = Some (Inr (Some (respond_http (ra_client_id args) (message @ concat cs)), Some rest))
    \<and> (rest = CRLF @ response_with ''ICAP/1.0'' code status' a b n next' \<longrightarrow>
        ICAPRedirector_progress cfg ch bytes_io rest args' kept'
        = Some (Inr (Some (respond_error (ra_client_id args')), Some next')))"
proof -
  let ?n = "length message"
  let ?rs = "continueResponse (header_of 200 status ''res-hdr'' ''res-body'' ?n) (message @ concat cs)"
  note rs = continue_content [OF assms(5) refl, of 200 status "concat cs"]
  have read: "icap_readChildResponse ch bytes_io
      (response_with ''ICAP/1.0'' 200 status ''res-hdr'' ''res-body'' ?n (message @ body_chunks cs @ rest)) = Some (Inr (Some ?rs, Some rest))"
    using two_parts_read [OF assms(3,4) plain_parts(1,2) refl, of message cs 200 rest] assms(5,6) by simp
  have "\<not> is_permit ?rs" "\<not> is_modify ?rs" "is_content ?rs" "http_response ?rs = message @ concat cs"
    unfolding rs response_parts using assms(5)
    by (simp_all add: is_permit_def is_modify_def is_content_def irs_code_def ICAPResponse_init_def Let_def)
  then have "decideHTTP cfg (ra_client_id args) ?rs m (ra_peer args) = Inr (Some (respond_http (ra_client_id args) (message @ concat cs)))"
    using assms(7,8) by (auto simp: decideHTTP_def decision_for_def contentResponse_def connectResponse_def)
  then have served: "ICAPRedirector_progress cfg ch bytes_io
      (response_with ''ICAP/1.0'' 200 status ''res-hdr'' ''res-body'' ?n (message @ body_chunks cs @ rest)) args (KeptMessage m)
    = Some (Inr (Some (respond_http (ra_client_id args) (message @ concat cs)), Some rest))"
    using progress_proxy [OF assms(1,2) read, of m] by simp
  show ?thesis
    by (rule conjI [OF served])
       (use blank_line_before [OF assms(3,9-11)] assms(2) in \<open>auto simp: ICAPRedirector_progress_def\<close>)
qed

text \<open>A message that is not valid has no \<open>upgrade\<close>: it is the last attribute that is assigned.\<close>

lemma run_steps_failed:
  assumes "run_steps (fs @ [g]) m = (Some e, m')" "P m" "\<And>f m m'. f \<in> set fs \<Longrightarrow> f m = Inr m' \<Longrightarrow> P m \<Longrightarrow> P m'"
  shows "P m'"
  using assms
proof (induction fs arbitrary: m)
  case Nil
  from Nil.prems(1,2) show ?case by (cases "g m") auto
next
  case (Cons f fs)
  show ?case
  proof (cases "f m")
    case (Inl x)
    with Cons.prems show ?thesis by simp
  next
    case (Inr x)
    have "P x" using Cons.prems(3) [of f m x] Cons.prems(2) Inr by simp
    moreover have "run_steps (fs @ [g]) x = (Some e, m')" using Cons.prems(1) Inr by simp
    moreover have "P n'" if "h \<in> set fs" "h n = Inr n'" "P n" for h n n' using Cons.prems(3) [of h n n'] that by simp
    ultimately show ?thesis using Cons.IH [of x] by blast
  qed
qed

definition keeps_upgrade :: "step \<Rightarrow> bool" where
  "keeps_upgrade f \<longleftrightarrow> (\<forall>m m'. f m = Inr m' \<longrightarrow> msg_upgrade m' = msg_upgrade m)"

lemma keeps_upgrade_steps:
  "keeps_upgrade step_separator" "keeps_upgrade step_request" "keeps_upgrade (step_headers t)"
  "keeps_upgrade step_headerhost" "keeps_upgrade step_host" "keeps_upgrade step_port"
  "keeps_upgrade step_check_host" "keeps_upgrade step_announce" "keeps_upgrade step_client"
  "keeps_upgrade step_mask" "keeps_upgrade step_framing" "keeps_upgrade step_url"
  by (auto simp: keeps_upgrade_def step_separator_def step_request_def step_headers_def step_headerhost_def
        step_port_def step_check_host_def step_announce_def Let_def seq_eq_Inr_iff
        split: if_splits dest!: step_shapes)

lemma invalid_message_upgrade:
  assumes "\<not> msg_validated (parseHTTP cfg peer s)"
  shows "msg_upgrade (parseHTTP cfg peer s) = None"
proof -
  let ?m = "HTTP_init (rc_version cfg) (rc_forward cfg) (rc_mask cfg) (rc_expect cfg) s peer" and ?t = "rc_transparent cfg"
  let ?fs = "[step_separator, step_request, step_headers ?t, step_headerhost, step_host, step_port,
      step_check_host, step_announce, step_client, step_mask, step_framing, step_url]"
  have steps: "HTTP_steps ?t = ?fs @ [step_upgrade]" by (simp add: HTTP_steps_def)
  obtain r m' where run: "run_steps (HTTP_steps ?t) ?m = (r, m')" by fastforce
  show ?thesis
  proof (cases r)
    case None
    with run assms show ?thesis by (simp add: parseHTTP_def HTTP_parse_def)
  next
    case (Some e)
    have keep: "\<forall>f \<in> set ?fs. keeps_upgrade f" by (simp add: keeps_upgrade_steps)
    have "msg_upgrade m' = None"
    proof (rule run_steps_failed [where fs = ?fs and P = "\<lambda>m. msg_upgrade m = None"])
      show "run_steps (?fs @ [step_upgrade]) ?m = (Some e, m')" using run unfolding steps Some .
      show "msg_upgrade ?m = None" by (simp add: HTTP_init_def)
      show "msg_upgrade x' = None" if "f \<in> set ?fs" "f x = Inr x'" "msg_upgrade x = None" for f x x'
        using keep that unfolding keeps_upgrade_def by metis
    qed
    with run Some show ?thesis
      by (simp add: parseHTTP_def HTTP_parse_def HTTP_refuse_def split: http_error.split py_error.split)
  qed
qed

definition class_names :: "string set" where
  "class_names = {''permit'', ''rewrite'', ''file'', ''redirect'', ''intercept'', ''http''}"

lemma refused_other: "client_id \<notin> class_names \<Longrightarrow> refused_class cfg client_id m = OtherClass"
  by (auto simp: refused_class_def validateHTTP_def Let_def respond_http_def named_class_def class_names_def)

lemma unready_download: "msg_upgrade m = None \<Longrightarrow> (permit_download client_id m :: kept verdict res) = Inl AttributeError"
  by (cases "msg_host m"; cases "msg_port m") (simp_all add: permit_download_def)

definition icap_config :: redirector_config where
  "icap_config = example_config\<lparr>rc_enabled := True\<rparr>"

definition icap_args :: "string \<Rightarrow> string \<Rightarrow> string \<Rightarrow> request_args" where
  "icap_args source header subheader = \<lparr>ra_client_id = ''7'', ra_accept_addr = ''127.0.0.1'', ra_accept_port = 3128, ra_peer = ''10.0.0.1'',
     ra_header = header, ra_subheader = subheader, ra_source = source\<rparr>"

definition page_header :: string where
  "page_header = ''HTTP/1.1 200 OK'' @ CRLF @ CRLF"

lemma example_servable: "\<exists>m r. servable m \<and> msg_request m = Some r \<and> req_method r = ''GET''"
proof -
  let ?text = "request_line ''GET'' (''http://'' @ ''exa.net'' @ port_text None @ ''/'' @ []) (''HTTP/'' @ ''1.1'') @ LF # header_text CRLF []"
  have "token ''GET''" "token ''exa.net''" "plain_host ''exa.net''" "list_all (\<lambda>c. \<not> is_space c) []" "''1.1'' \<in> {''1.0'', ''1.1''}"
    "py_upper ''GET'' \<noteq> ''CONNECT''"
    by (simp_all add: token_def plain_host_def is_space_def py_upper_def to_upper_def)
  from Request_open_absolute [OF this, of None "header_text CRLF []"] obtain r where
    r: "Request_open ?text = Inr r" "req_host r = ''exa.net''" "req_remaining r = header_text CRLF []" "req_method r = ''GET''"
    by (auto simp: py_upper_def to_upper_def)
  have cr: "CR \<in> set ?text" by (simp add: request_line_def)
  from HTTP_parse_plain [OF r(1) cr r(3), of "''1.2''" False False "''10.0.0.1''"] r(2) obtain m where
    m: "HTTP_parse True (HTTP_init ''1.2'' [] False False ?text ''10.0.0.1'') = (True, m)" "msg_request m = Some r" by auto
  then have "servable m" using HTTP_steps_servable by (auto simp: HTTP_parse_def split: prod.splits option.splits)
  with m(2) r(4) show ?thesis by blast
qed

lemma icap_child_ready: "ch_process silent_child" "checkChild icap_config silent_child"
  by (simp_all add: silent_child_def checkChild_def icap_config_def example_config_def)

lemma ok_line: "one_line ''OK''"
  by (simp add: one_line_def)

theorem icap_response_read_witness:
  "\<exists>rs. icap_readChildResponse silent_child bytes_io
      (ended [''ICAP/1.0'' @ '' '' @ show_nat 200 @ '' '' @ ''OK'', two_parts ''res-hdr'' ''res-body'' (length page_header)] @ [LF]
        @ page_header @ body_chunks [''hello''] @ ''next'') = Some (Inr (Some rs, Some ''next''))"
proof -
  let ?first = "''ICAP/1.0'' @ '' '' @ show_nat 200 @ '' '' @ ''OK''" and ?two = "two_parts ''res-hdr'' ''res-body'' (length page_header)"
  have first: "LF \<notin> set ?first" using digits_plain [of LF 200] by auto
  have line: "unbroken [?two]" using two_parts_line [OF plain_parts(1,2), of "length page_header"] by (simp add: unbroken_def one_line_def)
  have e: "blank_line [LF]" by (simp add: blank_line_def)
  have parsed: "parseResponseHeader (Some (ended [?first, ?two] @ [LF])) = Inr (header_of 200 ''OK'' ''res-hdr'' ''res-body'' (length page_header))"
    using two_parts_parsed [OF ok_line plain_parts(1,2), of 200 "length page_header"] by (simp add: response_with_def)
  show ?thesis
    using icap_response_read [OF icap_child_ready(1) first line e parsed, of page_header "[''hello'']" "''next''"]
    by (simp add: page_header_def del: append_Cons)
qed

definition next_response :: string where
  "next_response = CRLF @ response_with ''ICAP/1.0'' 204 ''OK'' ''req-hdr'' ''null-body'' 4 ''next''"

theorem icap_content_served_witness:
  "\<exists>m. ICAPRedirector_progress icap_config silent_child bytes_io
      (response_with ''ICAP/1.0'' 200 ''OK'' ''res-hdr'' ''res-body'' (length page_header)
        (page_header @ body_chunks [''hello'', '' you''] @ next_response)) (icap_args ''proxy'' [] []) (KeptMessage m)
    = Some (Inr (Some (respond_http ''7'' (page_header @ concat [''hello'', '' you''])), Some next_response))
    \<and> ICAPRedirector_progress icap_config silent_child bytes_io next_response (icap_args ''proxy'' [] []) (KeptMessage m)
    = Some (Inr (Some (respond_error ''7''), Some ''next''))"
proof -
  from example_servable obtain m r where m: "servable m" "msg_request m = Some r" "req_method r = ''GET''" by blast
  have a: "ra_source (icap_args ''proxy'' [] []) = ''proxy''" "ra_client_id (icap_args ''proxy'' [] []) = ''7''" "page_header \<noteq> []"
    "[] \<notin> set [''hello'', '' you'']" "req_method r \<in> insert ''CONNECT'' (set content_methods)"
    using m(3) by (simp_all add: icap_args_def page_header_def content_methods_def)
  note served = icap_content_served [OF a(1) icap_child_ready(2,1) ok_line a(3,4) m(2) a(5) ok_line plain_parts(3,4),
      of next_response 204 4 "''next''" "icap_args ''proxy'' [] []" "KeptMessage m", unfolded a(2)]
  show ?thesis by (rule exI, rule conjI, rule conjunct1 [OF served], rule mp [OF conjunct2 [OF served]], rule next_response_def)
qed

text \<open>When the ICAP server permits a request with 204, the request is downloaded from its own host as it was read, whatever HTTP message the response repeats.\<close>

theorem icap_permit:
  assumes "ra_source args = ''proxy''" "checkChild cfg ch" "ch_process ch" "one_line status"
    and "servable m" "msg_request m = Some r" "req_method r \<in> set content_methods"
  shows "\<exists>host port upgrade len body. msg_host m = Some host \<and> msg_port m = Some port
    \<and> ICAPRedirector_progress cfg ch bytes_io
        (response_with ''ICAP/1.0'' 204 status ''req-hdr'' ''null-body'' (length message) (message @ rest)) args (KeptMessage m)
      = Some (Inr (Some (respond_download (ra_client_id args) host (show_nat port) upgrade len body), Some rest))"
proof -
  let ?rh = "header_of 204 status ''req-hdr'' ''null-body'' (length message)"
  obtain intercepted request where rs: "continueResponse ?rh message
      = ICAPResponse_init (rh_info ?rh) (rh_headers ?rh) (rh_header_string ?rh) request None (Request_modification intercepted)"
    by (rule continue_request [of ?rh message]) simp
  have read: "icap_readChildResponse ch bytes_io
      (response_with ''ICAP/1.0'' 204 status ''req-hdr'' ''null-body'' (length message) (message @ rest))
    = Some (Inr (Some (continueResponse ?rh message), Some rest))"
    using two_parts_read [OF assms(3,4) plain_parts(3,4) refl, of message "[]" 204 rest] by simp
  have "is_permit (continueResponse ?rh message)"
    unfolding rs by (simp add: is_permit_def irs_code_def ICAPResponse_init_def Let_def split: prod.split)
  then have d: "decideHTTP cfg (ra_client_id args) (continueResponse ?rh message) m (ra_peer args) = decision_for (ra_client_id args) m Permit"
    by (simp add: decideHTTP_def)
  obtain host port upgrade len body where "permit_download (ra_client_id args) m
      = Inr ((''PERMIT'', host), respond_download (ra_client_id args) host (show_nat port) upgrade len body :: answer)"
    "msg_host m = Some host" "msg_port m = Some port"
    by (rule permit_download_ok [OF assms(5)])
  moreover from this(1) have "decision_for (ra_client_id args) m Permit
      = Inr (Some (respond_download (ra_client_id args) host (show_nat port) upgrade len body))"
    using assms(6,7) by (simp add: decision_for_def contentResponse_def)
  ultimately show ?thesis unfolding progress_proxy [OF assms(1,2) read, of m] d by auto
qed

theorem icap_permit_witness:
  "\<exists>m host port upgrade len body. msg_host m = Some host
     \<and> ICAPRedirector_progress icap_config silent_child bytes_io
        (response_with ''ICAP/1.0'' 204 ''OK'' ''req-hdr'' ''null-body'' (length page_header) (page_header @ ''next''))
        (icap_args ''proxy'' [] []) (KeptMessage m)
      = Some (Inr (Some (respond_download ''7'' host (show_nat port) upgrade len body), Some ''next''))"
proof -
  from example_servable obtain m r where m: "servable m" "msg_request m = Some r" "req_method r = ''GET''" by blast
  have "ra_source (icap_args ''proxy'' [] []) = ''proxy''" "req_method r \<in> set content_methods" "ra_client_id (icap_args ''proxy'' [] []) = ''7''"
    using m(3) by (simp_all add: icap_args_def content_methods_def)
  from icap_permit [OF this(1) icap_child_ready(2,1) ok_line m(1,2) this(2), of page_header "''next''"] this(3) show ?thesis by metis
qed

text \<open>When the ICAP server modifies a request into one that is not valid, the client is never sent the page that refuses it: \<open>AttributeError\<close> is raised or nothing is decided.\<close>

theorem icap_invalid_modification:
  assumes "ra_source args = ''proxy''" "checkChild cfg ch" "ch_process ch" "one_line status" "ra_client_id args \<notin> class_names"
    and "message \<noteq> []" "\<not> prefix ''CONNECT'' message" "\<not> msg_validated (parseHTTP cfg (ra_peer args) message)"
    and "\<And>r. msg_request (parseHTTP cfg (ra_peer args) message) = Some r \<Longrightarrow> req_method r \<noteq> ''CONNECT''"
  shows "ICAPRedirector_progress cfg ch bytes_io
      (response_with ''ICAP/1.0'' 200 status ''req-hdr'' ''null-body'' (length message) (message @ rest)) args (KeptMessage m)
    \<in> {Some (Inl AttributeError), Some (Inr (None, Some rest))}"
proof -
  let ?rh = "header_of 200 status ''req-hdr'' ''null-body'' (length message)" and ?m = "parseHTTP cfg (ra_peer args) message"
  obtain intercepted request where rs: "continueResponse ?rh message
      = ICAPResponse_init (rh_info ?rh) (rh_headers ?rh) (rh_header_string ?rh) request None (Request_modification intercepted)"
    and i: "intercepted = None \<and> request = message"
    by (rule continue_request [of ?rh message]) (use assms(7) in simp_all)
  have read: "icap_readChildResponse ch bytes_io
      (response_with ''ICAP/1.0'' 200 status ''req-hdr'' ''null-body'' (length message) (message @ rest))
    = Some (Inr (Some (continueResponse ?rh message), Some rest))"
    using two_parts_read [OF assms(3,4) plain_parts(3,4) refl, of message "[]" 200 rest] by simp
  have "http_response (continueResponse ?rh message) = message" unfolding rs response_parts using i by simp
  moreover have "\<not> is_permit (continueResponse ?rh message)" "is_modify (continueResponse ?rh message)"
    unfolding rs using i by (simp_all add: is_permit_def is_modify_def irs_code_def ICAPResponse_init_def Let_def split: prod.split)
  ultimately have d: "decideHTTP cfg (ra_client_id args) (continueResponse ?rh message) m (ra_peer args)
      = decision_for (ra_client_id args) ?m OtherClass"
    using assms(8) refused_other [OF assms(5)] by (simp add: decideHTTP_def Let_def)
  have "decision_for (ra_client_id args) ?m OtherClass \<in> {Inl AttributeError, Inr None}"
    using assms(9) unready_download [OF invalid_message_upgrade [OF assms(8)]]
    by (cases "msg_request ?m") (auto simp: decision_for_def contentResponse_def)
  then show ?thesis unfolding progress_proxy [OF assms(1,2) read, of m] d by auto
qed

theorem icap_invalid_modification_witness:
  "ICAPRedirector_progress icap_config silent_child bytes_io
      (response_with ''ICAP/1.0'' 200 ''OK'' ''req-hdr'' ''null-body'' (length ''junk'') (''junk'' @ ''next'')) (icap_args ''proxy'' [] []) (KeptMessage (HTTP_init ''1.2'' [] False False [] ''10.0.0.1''))
    \<in> {Some (Inl AttributeError), Some (Inr (None, Some ''next''))}"
proof -
  have r: "Request_open ''junk'' = Inl ValueError" by code_simp
  have e: "parseHTTP icap_config ''10.0.0.1'' ''junk'' = HTTP_refuse (Py ValueError)
      (HTTP_init ''1.2'' ''x-forwarded-for'' False False ''junk'' ''10.0.0.1''\<lparr>msg_separator := [LF]\<rparr>)"
    using r by (simp add: parseHTTP_def HTTP_parse_def HTTP_steps_def step_separator_def step_request_def icap_config_def example_config_def HTTP_init_def)
  then have "\<not> msg_validated (parseHTTP icap_config ''10.0.0.1'' ''junk'')" "msg_request (parseHTTP icap_config ''10.0.0.1'' ''junk'') = None"
    by (simp_all add: HTTP_refuse_def HTTP_init_def)
  with icap_invalid_modification [of "icap_args ''proxy'' [] []" icap_config silent_child "''OK''" "''junk''" "''next''" "HTTP_init ''1.2'' [] False False [] ''10.0.0.1''", OF _ icap_child_ready(2,1) ok_line]
  show ?thesis by (simp add: icap_args_def class_names_def)
qed

section \<open>What raises\<close>

text \<open>Lines of headers that are good.\<close>

definition good_header :: "string \<Rightarrow> bool" where
  "good_header l \<longleftrightarrow> one_line l \<and> l \<noteq> [] \<and> CHR '':'' \<in> set l"

lemma readHeaders_good:
  assumes "\<forall>l \<in> set ls. good_header l"
  shows "\<exists>h'. readHeaders (ls @ rest) h = readHeaders rest h'"
  using assms
proof (induction ls arbitrary: h)
  case (Cons l ls)
  then obtain k v where "py_split1 '':'' l = Some (k, v)" "l \<noteq> []"
    by (cases "py_split1 '':'' l") (auto simp: good_header_def py_split1_None py_in_char)
  with Cons show ?case by simp
qed auto

lemma text_lines_ended: "\<forall>l \<in> set ls. one_line l \<Longrightarrow> text_lines (ended ls @ s) = ls @ text_lines s"
  by (induction ls) (simp_all add: text_lines_LF)

text \<open>A line without a colon among the headers of an ICAP request raises \<open>TypeError\<close>, whatever follows.\<close>

theorem icap_malformed_raises:
  assumes "ra_source args = ''icap''" "checkChild cfg ch"
    and "ra_header args = ended (request # ls @ [bad]) @ rest" "one_line request" "\<forall>l \<in> set ls. good_header l"
    and "one_line bad" "bad \<noteq> []" "CHR '':'' \<notin> set bad"
    and "parseRequestLine request = Some (method, url, version)" "method \<in> set icap_methods" "version \<in> set icap_versions"
  shows "ICAPRedirector_decide cfg protocol ch args = Inl TypeError"
proof -
  have "\<forall>l \<in> set (request # ls @ [bad]). one_line l" using assms(4-6) by (auto simp: good_header_def)
  from text_lines_ended [OF this, of rest] have lines: "text_lines (ra_header args) = request # ls @ bad # text_lines rest"
    unfolding assms(3) by simp
  obtain h where "readHeaders (ls @ bad # text_lines rest) Map.empty = readHeaders (bad # text_lines rest) h"
    using readHeaders_good [OF assms(5), of "bad # text_lines rest" Map.empty] by blast
  then have "readHeaders (ls @ bad # text_lines rest) Map.empty = None" using assms(7,8) by simp
  then have "parseRequest (ra_header args) (ra_subheader args) = Inl TypeError"
    using assms(9-11) by (simp add: parseRequest_def lines Let_def)
  then show ?thesis using assms(1,2) by (simp add: ICAPRedirector_decide_def doICAP_def)
qed

theorem icap_malformed_raises_witness:
  "ICAPRedirector_decide icap_config ''icap://localhost/reqmod'' silent_child
     (icap_args ''icap'' (ended [''REQMOD icap://localhost/x ICAP/1.0'', ''Host: localhost'', ''no colon''] @ ''rest'') []) = Inl TypeError"
proof -
  have p: "parseRequestLine ''REQMOD icap://localhost/x ICAP/1.0'' = Some (''REQMOD'', ''icap://localhost/x'', ''ICAP/1.0'')" by code_simp
  show ?thesis
    by (rule icap_malformed_raises [of _ _ _ "''REQMOD icap://localhost/x ICAP/1.0''" "[''Host: localhost'']" "''no colon''" "''rest''"
          "''REQMOD''" "''icap://localhost/x''" "''ICAP/1.0''"])
      (use icap_child_ready p in \<open>simp_all add: icap_args_def one_line_def good_header_def icap_methods_def icap_versions_def\<close>)
qed

text \<open>A child whose output ends before the blank line of a header is no failed response but an exception: \<open>AttributeError\<close> is raised.\<close>

theorem icap_child_ends_raises:
  assumes "ch_process ch" "LF \<notin> set first_line" "unbroken ls"
  shows "icap_readChildResponse ch bytes_io (ended (first_line # ls)) = Some (Inl AttributeError)"
proof -
  have "read_block bytes_io (first_line @ [LF]) (ended ls) = Some (Inr (None, []))"
    using read_block_lines [OF assms(3), of "first_line @ [LF]" "[]"] by (simp add: read_block_end)
  then have "read_response bytes_io (ended (first_line # ls)) = Some (Inl AttributeError)"
    using assms(2) by (simp add: read_response_def parseResponseHeader_def)
  then show ?thesis using assms(1) by (simp add: icap_readChildResponse_def)
qed

theorem icap_child_ends_raises_witness:
  "icap_readChildResponse silent_child bytes_io (ended [''ICAP/1.0 200 OK'', ''Encapsulated: null-body=0'']) = Some (Inl AttributeError)"
  by (rule icap_child_ends_raises) (simp_all add: silent_child_def unbroken_def py_rstrip_def is_space_def)

text \<open>A response whose message is cut short by the end of the output is never answered: the loop reads for ever.\<close>

theorem icap_cut_forever:
  assumes "one_line status" "part_name a" "part_name b" "length message < n" "ch_process ch"
  shows "icap_readChildResponse ch bytes_io (response_with ''ICAP/1.0'' code status a b n message) = None"
proof -
  let ?first = "''ICAP/1.0'' @ '' '' @ show_nat code @ '' '' @ status"
  have first: "LF \<notin> set ?first" using assms(1) digits_plain [of LF code] by (auto simp: one_line_def)
  have line: "unbroken [two_parts a b n]" using two_parts_line [OF assms(2,3), of n] by (simp add: unbroken_def one_line_def)
  have e: "blank_line [LF]" by (simp add: blank_line_def)
  have shape: "response_with ''ICAP/1.0'' code status a b n s = ?first @ LF # ended [two_parts a b n] @ [LF] @ s" for s by (simp add: response_with_def)
  have block: "read_block bytes_io (?first @ [LF]) (ended [two_parts a b n] @ [LF] @ message)
      = Some (Inr (Some (response_with ''ICAP/1.0'' code status a b n []), message))"
    unfolding read_block_lines [OF line] read_block_blank [OF e] by (simp add: response_with_def)
  have "read_blocks bytes_io c False (int n) [] message = None" for c
    by (subst read_blocks.simps) (use assms(4) read_exactly_forever [of message n "[]"] in simp)
  then have r: "read_response bytes_io (?first @ LF # ended [two_parts a b n] @ [LF] @ message) = None"
    unfolding read_response_def bytes_io_simps bytes_readline_line [OF first] oseq_simps prod.case block
      two_parts_parsed [OF assms(1-3)] by simp
  show ?thesis unfolding icap_readChildResponse_def shape r using assms(5) by simp
qed

theorem icap_cut_forever_witness:
  "icap_readChildResponse silent_child bytes_io (response_with ''ICAP/1.0'' 200 ''OK'' ''req-hdr'' ''null-body'' 5 ''GET'') = None"
  using icap_cut_forever [OF ok_line plain_parts(3,4), of "''GET''" 5 silent_child 200] by (simp add: silent_child_def)

text \<open>The answer of an ICAP server to a connection of the passthrough server raises unless it intercepts it: no connection is ever closed for it.\<close>

theorem icap_passthrough_raises:
  assumes "\<not> is_intercept rs" "ra_source args = ''passthrough''"
  shows "icap_verdict cfg args rs kept = Inl NameError"
  using assms by (simp add: icap_verdict_def decidePassthrough_def)

theorem icap_passthrough_raises_witness:
  "icap_verdict icap_config (icap_args ''passthrough'' [] [])
     (ICAPResponse_init (Some (''ICAP/1.0'', 204, ''OK'')) Map.empty [] [] None (Request_modification None)) (KeptHeader []) = Inl NameError"
  by (rule icap_passthrough_raises) (simp_all add: is_intercept_def ICAPResponse_init_def icap_args_def)

section \<open>A request is read back\<close>

lemma py_join_ended: "py_join [LF] (ls @ [x]) = ended ls @ x"
  by (induction ls) (simp_all add: py_join_Cons)

lemma show_int_one_line: "one_line (show_int i)"
  using digits_plain [of CR "nat i"] digits_plain [of LF "nat i"] digits_plain [of CR "nat (- i)"] digits_plain [of LF "nat (- i)"]
  by (auto simp: show_int_def one_line_def)

definition request_keys :: "string list" where
  "request_keys = [''x-client-ip'', ''x-authenticated-user'', ''x-authenticated-groups'', ''x-customer-name'', ''allow'']"

lemma opt_line_good: "one_line v \<Longrightarrow> l \<in> set (opt_line ''X-Client-IP'' v) \<union> set (opt_line ''X-Authenticated-User'' v)
    \<union> set (opt_line ''X-Authenticated-Groups'' v) \<union> set (opt_line ''X-Customer-Name'' v) \<union> set (opt_line ''Allow'' v) \<Longrightarrow> good_header l"
  by (auto simp: opt_line_def good_header_def one_line_def split: if_splits)

lemma request_lines_shape:
  assumes "token path" "one_line accept_addr" "one_line peer" "one_line host" "one_line (req_protocol r)" "one_line (req_path r)"
    "one_line (req_method r)" "\<forall>k \<in> set request_keys. one_line (icap_value k q)"
  shows "\<exists>ls. request_lines accept_addr accept_port peer path (icap_host path) r host q len
      = (''REQMOD '' @ path @ '' ICAP/1.0'') # ls @ [two_parts ''req-hdr'' ''null-body'' len, []]
    \<and> (\<forall>l \<in> set ls. good_header l) \<and> one_line (''REQMOD '' @ path @ '' ICAP/1.0'')"
proof (intro exI conjI)
  let ?opts = "opt_line ''X-Client-IP'' (icap_value ''x-client-ip'' q) @ opt_line ''X-Authenticated-User'' (icap_value ''x-authenticated-user'' q)
    @ opt_line ''X-Authenticated-Groups'' (icap_value ''x-authenticated-groups'' q) @ opt_line ''X-Customer-Name'' (icap_value ''x-customer-name'' q)
    @ opt_line ''Allow'' (icap_value ''allow'' q)"
  let ?ls = "[''Host: '' @ icap_host path, ''Pragma: transport='' @ req_protocol r, ''Pragma: proxy=test'',
      ''Pragma: scheme=http'', ''Pragma: accept='' @ accept_addr, ''Pragma: accept-port='' @ show_int accept_port,
      ''Pragma: client='' @ peer, ''Pragma: host='' @ host, ''Pragma: path='' @ req_path r, ''Pragma: method='' @ req_method r] @ ?opts"
  show "request_lines accept_addr accept_port peer path (icap_host path) r host q len
      = (''REQMOD '' @ path @ '' ICAP/1.0'') # ?ls @ [two_parts ''req-hdr'' ''null-body'' len, []]"
    by (simp add: request_lines_def two_parts_def)
  have path: "one_line path" using assms(1) by (auto simp: token_def one_line_def list_all_iff is_space_def)
  then show "one_line (''REQMOD '' @ path @ '' ICAP/1.0'')" by (simp add: one_line_def)
  have "hd (split_on (CHR ''/'') (drop 7 path)) \<in> set (split_on (CHR ''/'') (drop 7 path))" by (rule hd_in_set) simp
  then have "set (icap_host path) \<subseteq> set path" unfolding icap_host_def using set_split_on set_drop_subset by (metis subset_trans)
  with path have host: "one_line (icap_host path)" by (auto simp: one_line_def)
  have "\<forall>l \<in> set ?opts. good_header l"
    using assms(8) opt_line_good by (auto simp: request_keys_def)
  moreover have "good_header (''Host: '' @ icap_host path)" "good_header (''Pragma: transport='' @ req_protocol r)" "good_header ''Pragma: proxy=test''"
    "good_header ''Pragma: scheme=http''" "good_header (''Pragma: accept='' @ accept_addr)" "good_header (''Pragma: accept-port='' @ show_int accept_port)"
    "good_header (''Pragma: client='' @ peer)" "good_header (''Pragma: host='' @ host)" "good_header (''Pragma: path='' @ req_path r)"
    "good_header (''Pragma: method='' @ req_method r)"
    using assms host show_int_one_line by (simp_all add: good_header_def one_line_def)
  ultimately show "\<forall>l \<in> set ?ls. good_header l" by simp
qed

lemma request_first_line:
  assumes "token path"
  shows "parseRequestLine (''REQMOD '' @ path @ '' ICAP/1.0'') = Some (''REQMOD'', path, ''ICAP/1.0'')"
proof -
  have "py_words (''REQMOD'' @ '' '' @ path @ '' ICAP/1.0'') = ''REQMOD'' # py_words ('' '' @ path @ '' ICAP/1.0'')"
    by (rule py_words_word) (simp_all add: is_space_def)
  moreover have "py_words ('' '' @ path @ '' ICAP/1.0'') = py_words (path @ '' ICAP/1.0'')" by (simp add: is_space_def)
  moreover have "py_words (path @ '' ICAP/1.0'') = path # py_words '' ICAP/1.0''"
    by (rule py_words_word) (use assms in \<open>simp_all add: token_def is_space_def\<close>)
  moreover have "py_words '' ICAP/1.0'' = [''ICAP/1.0'']" by code_simp
  moreover have "py_upper ''REQMOD'' = ''REQMOD''" "py_upper ''ICAP/1.0'' = ''ICAP/1.0''" by code_simp+
  ultimately show ?thesis by (simp add: parseRequestLine_def)
qed

lemma parseRequest_of:
  assumes "text_lines t = first # rest" "parseRequestLine first = Some (method, url, version)"
    and "method \<in> set icap_methods" "version \<in> set icap_versions" "readHeaders rest Map.empty = Some h"
    and "getOffsets (h(''x-customer-name'' \<mapsto> Single (site_name url))) = offsets" "getBodyLength offsets = (len, complete)"
    and "fst ` set offsets \<inter> {''res-hdr'', ''res-body''} = {}"
  shows "parseRequest t http_string = Inr (Some \<lparr>ir_method = method, ir_url = url, ir_version = version,
      ir_headers = h(''x-customer-name'' \<mapsto> Single (site_name url)), ir_icap_header = t, ir_http_header = http_string,
      ir_offsets = py_dict offsets, ir_content_length = len, ir_complete = complete\<rparr>)"
  using assms by (simp add: parseRequest_def)

text \<open>C21: What the ICAP redirector writes for a request is an ICAP header that its own parser reads, followed by the HTTP header, at the offsets that the ICAP header announces.\<close>

theorem icap_request_read_back:
  assumes "createRequest accept_addr accept_port peer path (Some m) q http_header = Inr s"
    and "token path" "one_line accept_addr" "one_line peer" "\<And>h. msg_host m = Some h \<Longrightarrow> one_line h"
    and "\<And>r. msg_request m = Some r \<Longrightarrow> one_line (req_protocol r) \<and> one_line (req_path r) \<and> one_line (req_method r)"
    and "\<forall>k \<in> set request_keys. one_line (icap_value k q)"
  shows "\<exists>icap_header r. s = icap_header @ http_header \<and> parseRequest icap_header http_header = Inr (Some r)
    \<and> ir_method r = ''REQMOD'' \<and> ir_url r = path \<and> ir_http_header r = http_header
    \<and> ir_offsets r = [''req-hdr'' \<mapsto> 0, ''null-body'' \<mapsto> length http_header] \<and> ir_content_length r = length http_header \<and> ir_complete r"
proof -
  let ?n = "length http_header" and ?first = "''REQMOD '' @ path @ '' ICAP/1.0''"
  let ?v = "''req-hdr'' @ ''=0, '' @ ''null-body'' @ CHR ''='' # show_nat ?n"
  from assms(1) obtain r host where r: "msg_request m = Some r" "msg_host m = Some host"
    and s: "s = py_join [LF] (request_lines accept_addr accept_port peer path (icap_host path) r host q ?n @ [http_header])"
    by (auto simp: createRequest_def seq_eq_Inr_iff)
  obtain ls where ls: "request_lines accept_addr accept_port peer path (icap_host path) r host q ?n
      = ?first # ls @ [two_parts ''req-hdr'' ''null-body'' ?n, []]" "\<forall>l \<in> set ls. good_header l" "one_line ?first"
    using request_lines_shape [OF assms(2-4) assms(5) [OF r(2)], of r q accept_port ?n] assms(6) [OF r(1)] assms(7) by blast
  let ?lines = "?first # ls @ [two_parts ''req-hdr'' ''null-body'' ?n, []]"
  have "\<forall>l \<in> set ?lines. one_line l"
    using ls(2,3) two_parts_line(1) [OF plain_parts(3,4), of ?n] by (auto simp: good_header_def one_line_def)
  from text_lines_ended [OF this, of "[]"] have lines: "text_lines (ended ?lines) = ?lines @ [[]]"
    by (simp add: text_lines_one one_line_def)
  obtain h where "readHeaders (ls @ two_parts ''req-hdr'' ''null-body'' ?n # [] # [[]]) Map.empty
      = readHeaders (two_parts ''req-hdr'' ''null-body'' ?n # [] # [[]]) h"
    using readHeaders_good [OF ls(2)] by blast
  then have headers: "readHeaders (tl (?lines @ [[]])) Map.empty = Some (h(''encapsulated'' \<mapsto> Single ?v))"
    unfolding two_parts_headers [OF plain_parts(3,4)] by simp
  let ?h = "h(''encapsulated'' \<mapsto> Single ?v, ''x-customer-name'' \<mapsto> Single (site_name path))"
  have offsets: "getOffsets ?h = [(''req-hdr'', 0), (''null-body'', ?n)]"
    by (rule getOffsets_pair [OF _ plain_parts(3,4)]) (simp add: single_def)
  have "text_lines (ended ?lines) = ?first # ls @ [two_parts ''req-hdr'' ''null-body'' ?n, [], []]" unfolding lines by simp
  moreover have "readHeaders (ls @ [two_parts ''req-hdr'' ''null-body'' ?n, [], []]) Map.empty = Some (h(''encapsulated'' \<mapsto> Single ?v))"
    using headers by simp
  moreover have "getBodyLength [(''req-hdr'', 0), (''null-body'', ?n)] = (?n, True)" by (simp add: getBodyLength_def)
  moreover have "''REQMOD'' \<in> set icap_methods" "''ICAP/1.0'' \<in> set icap_versions"
    "fst ` set [(''req-hdr'', 0 :: nat), (''null-body'', ?n)] \<inter> {''res-hdr'', ''res-body''} = {}"
    by (simp_all add: icap_methods_def icap_versions_def)
  ultimately obtain r' where "parseRequest (ended ?lines) http_header = Inr (Some r')" "ir_method r' = ''REQMOD''" "ir_url r' = path"
    "ir_http_header r' = http_header" "ir_offsets r' = py_dict [(''req-hdr'', 0), (''null-body'', ?n)]" "ir_content_length r' = ?n" "ir_complete r'"
    using parseRequest_of [OF _ request_first_line [OF assms(2)] _ _ _ offsets, of "ended ?lines" _ ?n True http_header] by simp
  moreover have "py_dict [(''req-hdr'', 0), (''null-body'', ?n)] = [''req-hdr'' \<mapsto> 0, ''null-body'' \<mapsto> ?n]" by (simp add: py_dict_def)
  moreover have "s = ended ?lines @ http_header" unfolding s ls(1) by (rule py_join_ended)
  ultimately show ?thesis by metis
qed

definition example_request :: request where
  "example_request = \<lparr>req_raw = [], req_uri = ''/'', req_use_raw = False, req_remaining = [], req_method = ''GET'', req_version = ''1.1'',
     req_protocol = ''http'', req_host = ''exa.net'', req_path = ''/'', req_port = 80\<rparr>"

theorem icap_request_read_back_witness:
  "\<exists>s icap_header r. createRequest ''127.0.0.1'' 3128 ''10.0.0.1'' ''icap://localhost/reqmod''
        (Some (HTTP_init ''1.2'' [] False False [] ''10.0.0.1''\<lparr>msg_request := Some example_request, msg_host := Some ''exa.net''\<rparr>))
        None ''GET / HTTP/1.1'' = Inr s
     \<and> s = icap_header @ ''GET / HTTP/1.1'' \<and> parseRequest icap_header ''GET / HTTP/1.1'' = Inr (Some r) \<and> ir_complete r"
proof -
  let ?m = "HTTP_init ''1.2'' [] False False [] ''10.0.0.1''\<lparr>msg_request := Some example_request, msg_host := Some ''exa.net''\<rparr>"
  obtain s where s: "createRequest ''127.0.0.1'' 3128 ''10.0.0.1'' ''icap://localhost/reqmod'' (Some ?m) None ''GET / HTTP/1.1'' = Inr s"
    by (simp add: createRequest_def)
  have plain: "token ''icap://localhost/reqmod''" "one_line ''127.0.0.1''" "one_line ''10.0.0.1''"
    "\<And>h. msg_host ?m = Some h \<Longrightarrow> one_line h"
    "\<And>r. msg_request ?m = Some r \<Longrightarrow> one_line (req_protocol r) \<and> one_line (req_path r) \<and> one_line (req_method r)"
    "\<forall>k \<in> set request_keys. one_line (icap_value k None)"
    by (simp_all add: token_def is_space_def one_line_def icap_value_def) (auto simp: example_request_def)
  from icap_request_read_back [OF s plain] s show ?thesis by blast
qed

end
