(* ===== verification/Daemon.thy ===== *)
theory Daemon
  imports PyStr
begin

text \<open>
  \<open>lib/exaproxy/util/daemon.py\<close> and \<open>pid.py\<close>: the limits and the privileges of the process, and the file in
  which its number is saved. What the system answers is a parameter; the forks of \<open>daemonise\<close> are not
  modelled.
\<close>

section \<open>Descriptors\<close>

record daemon_conf =
  dc_user :: string
  dc_reactor :: string
  dc_platform :: string
  dc_http_connections :: int
  dc_web_connections :: int
  dc_redirector_maximum :: int
  dc_dns_retries :: int

definition nb_descriptors :: "daemon_conf \<Rightarrow> int" where
  "nb_descriptors dc =
     40 + dc_http_connections dc * 2 + dc_web_connections dc + dc_redirector_maximum dc * 2 + dc_dns_retries dc * 10"

text \<open>The reactor can be had on this platform.\<close>

definition reactor_supported :: "daemon_conf \<Rightarrow> bool" where
  "reactor_supported dc \<longleftrightarrow>
     \<not> (dc_reactor dc = ''epoll'' \<and> \<not> prefix ''linux'' (dc_platform dc))
     \<and> \<not> (dc_reactor dc = ''kqueue'' \<and> \<not> prefix ''freebsd'' (dc_platform dc) \<and> \<not> prefix ''darwin'' (dc_platform dc))"

text \<open>
  \<open>__init__\<close>: \<open>filemax\<close> and the limits, or \<open>None\<close> when the program exits. \<open>setrlimit\<close> gives the limits that
  are then in force, or \<open>None\<close> when it raises (\<open>resource.error\<close> and \<open>ValueError\<close> are caught).
\<close>

definition Daemon_init :: "(int \<times> int \<Rightarrow> int \<times> int \<Rightarrow> (int \<times> int) option) \<Rightarrow> daemon_conf \<Rightarrow> int \<times> int \<Rightarrow>
    (int \<times> int \<times> int) option" where
  "Daemon_init setrlimit dc limits =
     (if \<not> reactor_supported dc then None
      else if dc_reactor dc = ''select'' \<and> nb_descriptors dc > 1024 then None
      else
        let n = nb_descriptors dc; (soft, hard) = limits;
            limits' =
              (if soft < n then
                 (case setrlimit (min n (if hard > 0 then hard else n), hard) limits of None \<Rightarrow> limits | Some l \<Rightarrow> l)
               else limits)
        in Some (if fst limits' < n then 0 else n, limits'))"

section \<open>Privileges\<close>

record credentials =
  cr_uid :: int
  cr_gid :: int

text \<open>
  \<open>drop_privileges\<close>: whether the privileges are insecure, and the credentials. \<open>getpwnam\<close> gives the
  identifiers of the user and of its group; the code takes the first for both.
\<close>

definition drop_privileges :: "(int \<Rightarrow> credentials \<Rightarrow> credentials res) \<Rightarrow> (int \<Rightarrow> credentials \<Rightarrow> credentials res) \<Rightarrow>
    (string \<Rightarrow> (int \<times> int) option) \<Rightarrow> string \<Rightarrow> string \<Rightarrow> credentials \<Rightarrow> bool \<times> credentials" where
  "drop_privileges setgid setuid getpwnam os_name user c =
     (if os_name \<noteq> ''posix'' then (False, c)
      else if cr_uid c \<noteq> 0 \<and> cr_gid c \<noteq> 0 then (False, c)
      else case getpwnam user of
        None \<Rightarrow> (True, c)
      | Some (pw_uid, _) \<Rightarrow>
          let nuid = pw_uid; ngid = pw_uid in
          (case (if cr_gid c = 0 then setgid ngid c else Inr c) of
             Inl _ \<Rightarrow> (True, c)
           | Inr c1 \<Rightarrow>
               (case (if cr_uid c = 0 then setuid nuid c1 else Inr c1) of
                  Inl _ \<Rightarrow> (True, c1)
                | Inr c2 \<Rightarrow> (False, c2))))"

section \<open>The file of the pid\<close>

text \<open>
  What reading the file gives (its content, or the number of the error), what \<open>kill(pid, 0)\<close> gives (\<open>None\<close>:
  there is such a process), and whether the file can be created, which with \<open>O_EXCL\<close> needs that it is not
  there, and written.
\<close>

datatype pid_reading = Pid_read string | Pid_error nat

record pid_env =
  pe_reading :: pid_reading
  pe_kill :: "int \<Rightarrow> nat option"
  pe_create :: bool
  pe_write :: bool
  pe_pid :: nat

definition ENOENT :: nat where "ENOENT = 2"

definition EPERM :: nat where "EPERM = 1"

definition EACCES :: nat where "EACCES = 13"

definition ESRCH :: nat where "ESRCH = 3"

text \<open>
  \<open>save\<close>: whether it was saved, and what was written. The \<open>raise\<close> that ends the handler of \<open>IOError\<close> is
  reached when the file does not exist; \<open>running_pid\<close> has no value after a \<open>ValueError\<close>.
\<close>

definition PID_save :: "string \<Rightarrow> pid_env \<Rightarrow> (bool \<times> string option) res" where
  "PID_save pid_file pe =
     (if pid_file = [] then Inr (False, None)
      else
        let create = (if \<not> pe_create pe then Inr (False, None)
                      else if pe_write pe then Inr (True, Some (show_nat (pe_pid pe) @ [LF]))
                      else Inr (False, None))
        in case pe_reading pe of
          Pid_error e \<Rightarrow> if e \<in> {EPERM, EACCES} then Inr (False, None) else Inl SocketFailure
        | Pid_read s \<Rightarrow>
            (case (if s = [] then Inr 0 else py_int s) of
               Inl _ \<Rightarrow> Inl UnboundLocalError
             | Inr running_pid \<Rightarrow>
                 if running_pid \<le> 0 then Inr (False, None)
                 else case pe_kill pe running_pid of
                   Some e \<Rightarrow> if e \<noteq> ESRCH then Inr (False, None) else create
                 | None \<Rightarrow> create))"

definition PID_remove :: "string \<Rightarrow> bool \<Rightarrow> (string \<Rightarrow> bool) \<Rightarrow> (string \<Rightarrow> bool)" where
  "PID_remove pid_file saved present = (if pid_file = [] \<or> \<not> saved then present else present(pid_file := False))"

section \<open>What they give\<close>

text \<open>When the proxy starts with a \<open>filemax\<close>, the system lets it open as many descriptors as its connections, pipes and queries need, and the select reactor is used for at most 1024 of them.\<close>

theorem descriptors_available:
  assumes "Daemon_init setrlimit dc limits = Some (filemax, soft, hard)" "filemax \<noteq> 0"
  shows "filemax = nb_descriptors dc \<and> soft \<ge> filemax \<and> (dc_reactor dc = ''select'' \<longrightarrow> filemax \<le> 1024)"
  using assms by (auto simp: Daemon_init_def Let_def split: if_splits option.splits prod.splits)

definition grant :: "int \<times> int \<Rightarrow> int \<times> int \<Rightarrow> (int \<times> int) option" where
  "grant wanted now = (if snd now > 0 \<and> fst wanted > snd now then None else Some wanted)"

definition example_daemon_conf :: daemon_conf where
  "example_daemon_conf = \<lparr>dc_user = ''nobody'', dc_reactor = ''epoll'', dc_platform = ''linux2'', dc_http_connections = 32768,
     dc_web_connections = 100, dc_redirector_maximum = 25, dc_dns_retries = 10\<rparr>"

theorem descriptors_available_witness:
  "Daemon_init grant example_daemon_conf (1024, 100000) = Some (65826, 65826, 100000) \<and> (65826 :: int) \<ge> 65826"
proof -
  have s: "Daemon_init grant example_daemon_conf (1024, 100000) = Some (65826, 65826, 100000)"
    by (simp add: Daemon_init_def reactor_supported_def nb_descriptors_def example_daemon_conf_def grant_def Let_def)
  from descriptors_available [OF s] s show ?thesis by simp
qed

text \<open>When the privileges are said to be dropped and the user is not root, the process has neither the user nor the group of root.\<close>

theorem privileges_dropped:
  assumes "drop_privileges setgid setuid getpwnam ''posix'' user c = (False, c')"
    and "\<And>n c c'. setgid n c = Inr c' \<Longrightarrow> c' = c\<lparr>cr_gid := n\<rparr>" "\<And>n c c'. setuid n c = Inr c' \<Longrightarrow> c' = c\<lparr>cr_uid := n\<rparr>"
    and "\<And>u g. getpwnam user = Some (u, g) \<Longrightarrow> u \<noteq> 0"
  shows "cr_uid c' \<noteq> 0 \<and> cr_gid c' \<noteq> 0"
proof (cases "cr_uid c \<noteq> 0 \<and> cr_gid c \<noteq> 0")
  case True
  with assms(1) show ?thesis by (simp add: drop_privileges_def)
next
  case False
  with assms(1) obtain u g where u: "getpwnam user = Some (u, g)" by (cases "getpwnam user") (auto simp: drop_privileges_def)
  from assms(4) [OF u] have "u \<noteq> 0" .
  moreover from assms(1) False u obtain c1 where c1: "(if cr_gid c = 0 then setgid u c else Inr c) = Inr c1"
    and c2: "(if cr_uid c = 0 then setuid u c1 else Inr c1) = Inr c'"
    by (auto simp: drop_privileges_def Let_def split: sum.splits if_splits)
  ultimately show ?thesis using assms(2) [of u c c1] assms(3) [of u c1 c'] False by (auto split: if_splits)
qed

theorem privileges_dropped_witness:
  "drop_privileges (\<lambda>n c. Inr (c\<lparr>cr_gid := n\<rparr>)) (\<lambda>n c. Inr (c\<lparr>cr_uid := n\<rparr>)) [''nobody'' \<mapsto> (65534, 65533)] ''posix'' ''nobody''
     \<lparr>cr_uid = 0, cr_gid = 0\<rparr> = (False, \<lparr>cr_uid = 65534, cr_gid = 65534\<rparr>) \<and> (65534 :: int) \<noteq> 0"
proof -
  have d: "drop_privileges (\<lambda>n c. Inr (c\<lparr>cr_gid := n\<rparr>)) (\<lambda>n c. Inr (c\<lparr>cr_uid := n\<rparr>)) [''nobody'' \<mapsto> (65534, 65533)] ''posix'' ''nobody''
     \<lparr>cr_uid = 0, cr_gid = 0\<rparr> = (False, \<lparr>cr_uid = 65534, cr_gid = 65534\<rparr>)"
    by (simp add: drop_privileges_def)
  from privileges_dropped [OF d] d show ?thesis by auto
qed

text \<open>The file of the pid is never written: it can only be created when it is not there, and then the attempt to read it first has raised \<open>IOError\<close>.\<close>

theorem pid_never_saved:
  assumes "\<And>s. pe_reading pe = Pid_read s \<Longrightarrow> \<not> pe_create pe"
  shows "PID_save pid_file pe \<in> {Inr (False, None), Inl SocketFailure, Inl UnboundLocalError}"
  using assms by (cases "pe_reading pe") (auto simp: PID_save_def Let_def split: sum.splits option.splits)

theorem pid_never_saved_witness:
  "PID_save ''/var/run/exaproxy.pid'' \<lparr>pe_reading = Pid_error ENOENT, pe_kill = (\<lambda>_. Some ESRCH), pe_create = True, pe_write = True, pe_pid = 4711\<rparr>
     = Inl SocketFailure"
proof -
  let ?pe = "\<lparr>pe_reading = Pid_error ENOENT, pe_kill = (\<lambda>_ :: int. Some ESRCH), pe_create = True, pe_write = True, pe_pid = 4711\<rparr>"
  have "PID_save ''/var/run/exaproxy.pid'' ?pe \<in> {Inr (False, None), Inl SocketFailure, Inl UnboundLocalError}"
    by (rule pid_never_saved) simp
  moreover have "PID_save ''/var/run/exaproxy.pid'' ?pe = Inl SocketFailure"
    by (simp add: PID_save_def ENOENT_def EPERM_def EACCES_def)
  ultimately show ?thesis by simp
qed

end
