(* ===== verification/Configuration.thy ===== *)
theory Configuration
  imports PyPath ContentManager DnsConvert
begin

text \<open>
  \<open>lib/exaproxy/configuration.py\<close>: the conversions of the options, where an option is looked for, the
  dictionary of the configuration and what \<open>--ini\<close> prints of it. The table of the options is that of
  \<open>application.py\<close>. The files of the system, the environment variables and the users are a parameter.
\<close>

section \<open>The environment\<close>

text \<open>
  \<open>cfe_ini\<close> is what reading a configuration file gives (the options of its sections, interpolated by
  \<open>ConfigParser\<close>), \<open>cfe_float_end\<close> the end of a range whose netmask is too long, which is computed with floats
  (rounded down), \<open>cfe_log2\<close> the \<open>int(math.log(n,2))\<close>,
  \<open>cfe_user\<close> whether \<open>getpwnam\<close> finds the user, \<open>cfe_executable\<close> what \<open>access\<close> answers.
\<close>

record config_env =
  cfe_argv0 :: string
  cfe_cwd :: string
  cfe_exists :: "string \<Rightarrow> bool"
  cfe_isfile :: "string \<Rightarrow> bool"
  cfe_executable :: "string \<Rightarrow> bool"
  cfe_lines :: "string \<Rightarrow> string list res"
  cfe_expanduser :: "string \<Rightarrow> string"
  cfe_user :: "string \<Rightarrow> bool"
  cfe_environ :: "string \<Rightarrow> string option"
  cfe_ini :: "string \<Rightarrow> string \<Rightarrow> string \<Rightarrow> string option"
  cfe_float_end :: "int \<Rightarrow> int \<Rightarrow> int res"
  cfe_log2 :: "int \<Rightarrow> int res"
  cfe_application :: string

definition config_home :: "config_env \<Rightarrow> string" where
  "config_home env =
     (if prefix ''/'' (cfe_argv0 env) then normpath (cfe_argv0 env)
      else normpath (path_join (cfe_cwd env) (cfe_argv0 env)))"

section \<open>Conversions\<close>

datatype conf_value =
    Text_value string
  | Number int
  | Flag bool
  | Word_list "string list"
  | Port_list "int list"
  | Service_list "(string \<times> int) list"
  | Range_list "(nat \<times> int \<times> int) list"

datatype converter =
    Nop
  | Syslog
  | Integer
  | Lowunquote
  | Unquote
  | Boolean
  | Word_of
  | Ports
  | Methods
  | User
  | Folder
  | Conf
  | Resolver_conf
  | Exe
  | Services
  | Ranges
  | Redirector_protocol

text \<open>\<open>os.path.join(*parts)\<close>, which needs one argument, and \<open>os.path.split\<close>.\<close>

definition path_join_all :: "string list \<Rightarrow> string res" where
  "path_join_all ps = (case ps of [] \<Rightarrow> Inl TypeError | p # rest \<Rightarrow> Inr (foldl path_join p rest))"

definition path_split :: "string \<Rightarrow> string \<times> string" where
  "path_split p =
     (let tail = rev (takeWhile (\<lambda>c. c \<noteq> SEP) (rev p));
          head = take (length p - length tail) p
      in (if head \<noteq> [] \<and> set head \<noteq> {SEP} then rstrip_in ''/'' head else head, tail))"

definition conf_unquote :: "string \<Rightarrow> string" where
  "conf_unquote s = strip_in [CHR 0x27, DQUOTE] (py_strip s)"

text \<open>The loop of \<open>value.root\<close> over the components of the path of the program, from the last.\<close>

fun root_location :: "nat \<Rightarrow> string list \<Rightarrow> string list" where
  "root_location 0 roots = []"
| "root_location (Suc index) roots =
     (if roots ! index \<in> {''lib'', ''bin''} then (if index \<noteq> 0 then take index roots else [])
      else root_location index roots)"

definition conf_root :: "config_env \<Rightarrow> string \<Rightarrow> string list res" where
  "conf_root env path =
     (let roots = split_on SEP (config_home env) in
      seq (path_join_all (root_location (length roots) roots)) (\<lambda>root.
      Inr [normpath (path_join (path_join ''/'' root) path),
           normpath (cfe_expanduser env (conf_unquote path)),
           normpath (path_join ''/'' path),
           normpath (path_join (path_join ''/'' ''usr'') path)]))"

definition conf_folder :: "config_env \<Rightarrow> string \<Rightarrow> string res" where
  "conf_folder env path =
     seq (conf_root env path) (\<lambda>paths.
       case filter (cfe_exists env) paths of
         [] \<Rightarrow> Inl TypeError
       | first # _ \<Rightarrow> if first = [] then Inl TypeError else Inr first)"

definition conf_conf :: "config_env \<Rightarrow> string \<Rightarrow> string res" where
  "conf_conf env path =
     seq (conf_folder env path) (\<lambda>first. if \<not> cfe_isfile env first then Inl TypeError else Inr first)"

text \<open>A line of \<open>resolv.conf\<close> names a server; the argument of \<open>value.resolver\<close> is not used.\<close>

definition nameserver_line :: "string \<Rightarrow> bool" where
  "nameserver_line line \<longleftrightarrow> py_strip line \<noteq> [] \<and> py_lower (hd (py_words (py_strip line))) = ''nameserver''"

fun first_resolver :: "config_env \<Rightarrow> string list \<Rightarrow> string res" where
  "first_resolver env [] = Inl TypeError"
| "first_resolver env (p # ps) =
     (if cfe_exists env p then
        seq (cfe_lines env p) (\<lambda>ls. if \<exists>l \<in> set ls. nameserver_line l then Inr p else first_resolver env ps)
      else first_resolver env ps)"

definition conf_resolver :: "config_env \<Rightarrow> string \<Rightarrow> string res" where
  "conf_resolver env path =
     seq (conf_root env (''etc/'' @ cfe_application env @ ''/dns/resolv.conf'')) (\<lambda>paths.
       first_resolver env (paths @ [normpath ''/etc/resolv.conf'', normpath ''/var/run/resolv.conf'']))"

definition conf_exe :: "config_env \<Rightarrow> string \<Rightarrow> string res" where
  "conf_exe env path =
     (let (name, args) = (case py_split1 '' '' path of None \<Rightarrow> (path, None) | Some (a, b) \<Rightarrow> (a, Some b)) in
      seq (conf_conf env name) (\<lambda>program.
        if \<not> cfe_executable env program then Inl TypeError
        else Inr (case args of None \<Rightarrow> program | Some a \<Rightarrow> program @ CHR '' '' # a)))"

text \<open>The handlers \<open>except ValueError\<close>, and the assignment of the two parts of a split.\<close>

definition value_error_is_type_error :: "'a res \<Rightarrow> 'a res" where
  "value_error_is_type_error r = (case r of Inl e \<Rightarrow> Inl (if e = ValueError then TypeError else e) | Inr x \<Rightarrow> Inr x)"

definition two_parts :: "char \<Rightarrow> string \<Rightarrow> (string \<times> string) res" where
  "two_parts c s = (case split_on c s of [a, b] \<Rightarrow> Inr (a, b) | _ \<Rightarrow> Inl ValueError)"

definition conf_service :: "string \<Rightarrow> (string \<times> int) res" where
  "conf_service service = seq (two_parts CHR '':'' service) (\<lambda>(host, port). seq (py_int port) (\<lambda>n. Inr (host, n)))"

text \<open>One range: \<open>pow(2, k)\<close> is an integer for \<open>k \<ge> 0\<close> and a float otherwise.\<close>

definition range_end :: "config_env \<Rightarrow> int \<Rightarrow> int \<Rightarrow> int res" where
  "range_end env start k = (if k \<ge> 0 then Inr (start + 2 ^ nat k - 1) else cfe_float_end env start k)"

definition conf_range :: "config_env \<Rightarrow> string \<Rightarrow> (nat \<times> int \<times> int) res" where
  "conf_range env service =
     seq (two_parts SEP service) (\<lambda>(network, netmask).
       if CHR '':'' \<in> set network then
         seq (or_raise SocketFailure (inet_pton6 network)) (\<lambda>bs.
           let start = int (number_of_bytes (take 8 bs) * 2 ^ 64 + number_of_bytes (drop 8 bs)) in
           seq (py_int netmask) (\<lambda>n. seq (range_end env start (128 - n)) (\<lambda>end. Inr (6, start, end))))
       else
         seq (or_raise SocketFailure (inet_pton4 network)) (\<lambda>bs.
           let start = int (number_of_bytes bs) in
           seq (py_int netmask) (\<lambda>n. seq (range_end env start (32 - n)) (\<lambda>end. Inr (4, start, end)))))"

text \<open>The levels of \<open>logging\<close>.\<close>

definition syslog_levels :: "(string \<times> int) list" where
  "syslog_levels = [(''CRITICAL'', 50), (''ERROR'', 40), (''WARNING'', 30), (''INFO'', 20), (''DEBUG'', 10)]"

fun convert :: "config_env \<Rightarrow> converter \<Rightarrow> string \<Rightarrow> conf_value res" where
  "convert env Nop s = Inr (Text_value s)"
| "convert env Syslog s = (case map_of syslog_levels s of None \<Rightarrow> Inl TypeError | Some n \<Rightarrow> Inr (Number n))"
| "convert env Integer s = seq (py_int s) (\<lambda>n. if n \<le> 0 then Inl TypeError else Inr (Number n))"
| "convert env Lowunquote s = Inr (Text_value (py_lower (conf_unquote s)))"
| "convert env Unquote s = Inr (Text_value (conf_unquote s))"
| "convert env Boolean s = Inr (Flag (py_lower s \<in> {''1'', ''yes'', ''on'', ''enable'', ''true''}))"
| "convert env Word_of s = Inr (Word_list (py_words s))"
| "convert env Ports s = seq (value_error_is_type_error (map_res py_int (py_words s))) (\<lambda>ns. Inr (Port_list ns))"
| "convert env Methods s = Inr (Word_list (py_words (py_upper s)))"
| "convert env User s = (if cfe_user env s then Inr (Text_value s) else Inl TypeError)"
| "convert env Folder s = seq (conf_folder env s) (\<lambda>p. Inr (Text_value p))"
| "convert env Conf s = seq (conf_conf env s) (\<lambda>p. Inr (Text_value p))"
| "convert env Resolver_conf s = seq (conf_resolver env s) (\<lambda>p. Inr (Text_value p))"
| "convert env Exe s = seq (conf_exe env s) (\<lambda>p. Inr (Text_value p))"
| "convert env Services s =
     seq (value_error_is_type_error (map_res conf_service (py_words (conf_unquote s)))) (\<lambda>l. Inr (Service_list l))"
| "convert env Ranges s =
     seq (value_error_is_type_error (map_res (conf_range env) (py_words (conf_unquote s)))) (\<lambda>l. Inr (Range_list l))"
| "convert env Redirector_protocol s =
     (if s = ''url'' \<or> prefix ''icap://'' s then Inr (Text_value s) else Inl TypeError)"

section \<open>Printing\<close>

datatype formatter = Fmt_nop | Fmt_syslog | Fmt_quote | Fmt_lower | Fmt_path | Fmt_list | Fmt_services | Fmt_ranges

definition quoted :: "string \<Rightarrow> string" where
  "quoted s = CHR 0x27 # s @ [CHR 0x27]"

text \<open>\<open>str(v)\<close> of the values the formatters are given.\<close>

fun str_of :: "conf_value \<Rightarrow> string option" where
  "str_of (Text_value s) = Some s"
| "str_of (Number n) = Some (show_int n)"
| "str_of (Flag b) = Some (if b then ''True'' else ''False'')"
| "str_of _ = None"

text \<open>The bytes of a number, as \<open>struct.pack\<close> writes it in network order.\<close>

definition pack_be :: "nat \<Rightarrow> int \<Rightarrow> string res" where
  "pack_be k n =
     (if n < 0 \<or> n \<ge> 256 ^ k then Inl StructError
      else Inr (bytes_of (map (\<lambda>i. nat n div 256 ^ (k - 1 - i) mod 256) [0..<k])))"

definition format_range :: "config_env \<Rightarrow> nat \<times> int \<times> int \<Rightarrow> string res" where
  "format_range env r =
     (case r of (proto, start, end) \<Rightarrow>
       seq (cfe_log2 env (end - start + 1)) (\<lambda>bits.
       if proto = 4 then
         seq (pack_be 4 start) (\<lambda>b. seq (dns_to_ipv4 b) (\<lambda>network. Inr (network @ ''/'' @ show_int (32 - bits))))
       else
         seq (pack_be 8 (start div 2 ^ 64)) (\<lambda>high. seq (pack_be 8 (start mod 2 ^ 32)) (\<lambda>low.
         seq (dns_to_ipv6 (high @ low)) (\<lambda>network. Inr (network @ ''/'' @ show_int (128 - bits)))))))"

definition format_path :: "config_env \<Rightarrow> string \<Rightarrow> string" where
  "format_path env path =
     (let rest = (case py_split1 (''lib/'' @ cfe_application env) (cfe_argv0 env) of
                    Some (before, _) \<Rightarrow> if before \<noteq> [] \<and> prefix before path then drop (length before) path else path
                  | None \<Rightarrow> path);
          home = cfe_expanduser env ''~''
      in if prefix home rest then quoted (CHR ''~'' # drop (length home) rest) else quoted rest)"

text \<open>\<open>None\<close> is a formatter given a value of another kind, which the table never does.\<close>

fun format_value :: "config_env \<Rightarrow> formatter \<Rightarrow> conf_value \<Rightarrow> string res option" where
  "format_value env Fmt_nop v = map_option Inr (str_of v)"
| "format_value env Fmt_syslog (Number n) =
     Some (case map_of (map prod.swap syslog_levels) n of None \<Rightarrow> Inl TypeError | Some l \<Rightarrow> Inr l)"
| "format_value env Fmt_quote v = map_option (Inr \<circ> quoted) (str_of v)"
| "format_value env Fmt_lower v = map_option (Inr \<circ> py_lower) (str_of v)"
| "format_value env Fmt_path (Text_value s) = Some (Inr (format_path env s))"
| "format_value env Fmt_list (Word_list ws) = Some (Inr (quoted (py_join '' '' ws)))"
| "format_value env Fmt_list (Port_list ns) = Some (Inr (quoted (py_join '' '' (map show_int ns))))"
| "format_value env Fmt_services (Service_list l) =
     Some (Inr (quoted (py_join '' '' (map (\<lambda>(host, port). host @ CHR '':'' # show_int port) l))))"
| "format_value env Fmt_ranges (Range_list l) =
     Some (seq (map_res (format_range env) l) (\<lambda>ws. Inr (quoted (py_join '' '' ws))))"
| "format_value env _ _ = None"

section \<open>The configuration\<close>

type_synonym option_default = "string \<times> converter \<times> formatter \<times> string"

text \<open>\<open>Store\<close>: the keys have dashes for underscores, set and read through items or attributes.\<close>

type_synonym conf_store = "string \<Rightarrow> conf_value option"

definition store_key :: "string \<Rightarrow> string" where
  "store_key key = replace_char CHR ''_'' ''-'' key"

definition store_get :: "conf_store \<Rightarrow> string \<Rightarrow> conf_value res" where
  "store_get st key = or_raise KeyError (st (store_key key))"

definition store_set :: "conf_store \<Rightarrow> string \<Rightarrow> conf_value \<Rightarrow> conf_store" where
  "store_set st key v = st(store_key key \<mapsto> v)"

text \<open>Above which directory the program is: \<open>None\<close> is a loop that does not end.\<close>

partial_function (option) conf_location :: "string \<Rightarrow> string option" where
  "conf_location location =
     (if location \<noteq> [] \<and> location \<noteq> ''/'' then
        (case path_split location of (location', directory) \<Rightarrow>
           if directory = ''lib'' \<or> directory = ''bin'' then Some location' else conf_location location')
      else Some location)"

declare conf_location.simps [code]

definition conf_file :: "config_env \<Rightarrow> string" where
  "conf_file env = cfe_application env @ ''.conf''"

definition conf_paths :: "config_env \<Rightarrow> string \<Rightarrow> string list option" where
  "conf_paths env conf =
     map_option (\<lambda>location.
       (if conf \<noteq> [] then
          [(let p = normpath conf in normpath (if prefix ''/'' p then p else path_join (cfe_cwd env) p))]
        else []) @
       (if location \<noteq> [] then
          [normpath (path_join (path_join (path_join location ''etc'') (cfe_application env)) (conf_file env))]
        else []) @
       [normpath (path_join (path_join ''/etc'' (cfe_application env)) (conf_file env)),
        normpath (path_join (path_join ''/usr/etc'' (cfe_application env)) (conf_file env))])
     (conf_location (foldl path_join ''/'' (split_on SEP (config_home env))))"

definition conf_ini :: "config_env \<Rightarrow> string list \<Rightarrow> string \<Rightarrow> string \<Rightarrow> string option" where
  "conf_ini env paths =
     (case filter (cfe_exists env) paths of [] \<Rightarrow> (\<lambda>_ _. None) | p # _ \<Rightarrow> cfe_ini env p)"

text \<open>Where the value of an option is found.\<close>

definition option_text :: "config_env \<Rightarrow> (string \<Rightarrow> string \<Rightarrow> string option) \<Rightarrow> string \<Rightarrow> string \<Rightarrow> string \<Rightarrow> string" where
  "option_text env ini section option dflt =
     (let proxy_section = cfe_application env @ ''.'' @ section;
          env_name = proxy_section @ ''.'' @ option;
          rep_name = replace_char CHR ''.'' ''_'' env_name
      in case cfe_environ env env_name of
           Some s \<Rightarrow> s
         | None \<Rightarrow>
             (case cfe_environ env rep_name of
                Some s \<Rightarrow> s
              | None \<Rightarrow>
                  (case ini section option of
                     Some s \<Rightarrow> conf_unquote s
                   | None \<Rightarrow>
                       (case ini proxy_section option of Some s \<Rightarrow> conf_unquote s | None \<Rightarrow> dflt))))"

text \<open>The same, as the first of a list of places: the environment under two names, the file under two sections, the default.\<close>

lemma conf_ini_find:
  "conf_ini env paths = (case find (cfe_exists env) paths of None \<Rightarrow> (\<lambda>_ _. None) | Some p \<Rightarrow> cfe_ini env p)"
  by (induction paths) (auto simp: conf_ini_def)

lemma option_text_find:
  "find (\<lambda>found. found \<noteq> None)
     [cfe_environ env (cfe_application env @ ''.'' @ section @ ''.'' @ option),
      cfe_environ env (replace_char CHR ''.'' ''_'' (cfe_application env @ ''.'' @ section @ ''.'' @ option)),
      map_option conf_unquote (ini section option),
      map_option conf_unquote (ini (cfe_application env @ ''.'' @ section) option),
      Some dflt]
   = Some (Some (option_text env ini section option dflt))"
  by (auto simp: option_text_def Let_def split: option.split)

datatype load_error = Invalid_option string string | Escapes py_error | Not_initialised

type_synonym configuration = "string \<Rightarrow> conf_store option"

definition set_option :: "string \<Rightarrow> string \<Rightarrow> conf_value \<Rightarrow> configuration \<Rightarrow> configuration" where
  "set_option section option v cfg =
     cfg(section \<mapsto> store_set (case cfg section of Some st \<Rightarrow> st | None \<Rightarrow> Map.empty) option v)"

definition load_option :: "config_env \<Rightarrow> (string \<Rightarrow> string \<Rightarrow> string option) \<Rightarrow> string \<Rightarrow> option_default \<Rightarrow>
    configuration \<Rightarrow> load_error + configuration" where
  "load_option env ini section od cfg =
     (case od of (option, conv, _, dflt) \<Rightarrow>
       (case convert env conv (option_text env ini section option dflt) of
          Inl e \<Rightarrow> Inl (if e = TypeError then Invalid_option section option else Escapes e)
        | Inr v \<Rightarrow> Inr (set_option section option v cfg)))"

definition load_options :: "config_env \<Rightarrow> (string \<Rightarrow> string \<Rightarrow> string option) \<Rightarrow> (string \<times> option_default list) list \<Rightarrow>
    load_error + configuration" where
  "load_options env ini table =
     for_each (\<lambda>(section, ods). for_each (load_option env ini section) ods) table Map.empty"

text \<open>
  \<open>_configuration\<close>, for the options in the order in which the dictionary gives them, and \<open>load\<close>, which keeps
  what was loaded.
\<close>

definition the_configuration :: "config_env \<Rightarrow> (string \<times> option_default list) list \<Rightarrow> string \<Rightarrow>
    (load_error + configuration) option" where
  "the_configuration env table conf =
     map_option (\<lambda>paths. load_options env (conf_ini env paths) table) (conf_paths env conf)"

definition load_configuration :: "config_env \<Rightarrow> configuration option \<Rightarrow> (string \<times> option_default list) list \<Rightarrow> string option \<Rightarrow>
    (load_error + configuration) option" where
  "load_configuration env config table conf =
     (case config of
        Some cfg \<Rightarrow> Some (Inr cfg)
      | None \<Rightarrow> (case conf of None \<Rightarrow> Some (Inl Not_initialised) | Some c \<Rightarrow> the_configuration env table c))"

text \<open>\<open>ini(diff)\<close>: what is printed of one option, \<open>None\<close> being nothing. \<open>env\<close> prints the same options otherwise.\<close>

definition option_differs :: "config_env \<Rightarrow> option_default \<Rightarrow> conf_value \<Rightarrow> bool res" where
  "option_differs env od v = (case od of (_, conv, _, dflt) \<Rightarrow> seq (convert env conv dflt) (\<lambda>d. Inr (d \<noteq> v)))"

definition ini_line :: "config_env \<Rightarrow> option_default \<Rightarrow> conf_value \<Rightarrow> string res option" where
  "ini_line env od v =
     (case od of (option, _, fmt, _) \<Rightarrow>
       map_option (\<lambda>r. seq r (\<lambda>s. Inr (option @ '' = '' @ s))) (format_value env fmt v))"

definition env_line :: "config_env \<Rightarrow> string \<Rightarrow> option_default \<Rightarrow> conf_value \<Rightarrow> string res option" where
  "env_line env section od v =
     (case od of (option, _, fmt, _) \<Rightarrow>
       map_option (\<lambda>r. seq r (\<lambda>s. Inr (cfe_application env @ ''.'' @ section @ ''.'' @ option @ ''='' @ s)))
         (if fmt = Fmt_quote then map_option (Inr \<circ> quoted) (str_of v) else format_value env fmt v))"

section \<open>What is loaded\<close>

text \<open>The option is in the configuration, and is the conversion of the text that was chosen for it.\<close>

definition option_loaded :: "config_env \<Rightarrow> (string \<Rightarrow> string \<Rightarrow> string option) \<Rightarrow> string \<Rightarrow> option_default \<Rightarrow> configuration \<Rightarrow> bool" where
  "option_loaded env ini section od cfg \<longleftrightarrow>
     (\<exists>st v. cfg section = Some st \<and> store_get st (fst od) = Inr v
       \<and> convert env (fst (snd od)) (option_text env ini section (fst od) (snd (snd (snd od)))) = Inr v)"

lemma load_option_loaded:
  assumes "load_option env ini section od cfg = Inr cfg'"
  shows "option_loaded env ini section od cfg'"
  using assms
  by (cases od) (auto simp: load_option_def option_loaded_def set_option_def store_get_def store_set_def split: sum.splits)

lemma load_option_keeps:
  assumes "load_option env ini section od cfg = Inr cfg'" "option_loaded env ini section' od' cfg"
    and "section' \<noteq> section \<or> store_key (fst od') \<noteq> store_key (fst od)"
  shows "option_loaded env ini section' od' cfg'"
  using assms
  by (cases od) (auto simp: load_option_def option_loaded_def set_option_def store_get_def store_set_def split: sum.splits)

lemma load_section_keeps:
  assumes "for_each (load_option env ini section) ods cfg = Inr cfg'" "option_loaded env ini section' od' cfg"
    and "\<And>od. od \<in> set ods \<Longrightarrow> section' \<noteq> section \<or> store_key (fst od') \<noteq> store_key (fst od)"
  shows "option_loaded env ini section' od' cfg'"
proof (rule for_each_invariant [OF assms(1), of "option_loaded env ini section' od'"])
  show "option_loaded env ini section' od' cfg" by (rule assms(2))
next
  fix od a b
  assume "od \<in> set ods" "option_loaded env ini section' od' a" "load_option env ini section od a = Inr b"
  with load_option_keeps assms(3) show "option_loaded env ini section' od' b" by blast
qed

lemma load_section_loaded:
  assumes "for_each (load_option env ini section) ods cfg = Inr cfg'" "distinct (map (store_key \<circ> fst) ods)" "od \<in> set ods"
  shows "option_loaded env ini section od cfg'"
  using assms
proof (induction ods arbitrary: cfg)
  case (Cons o1 ods)
  from Cons.prems(1) obtain c where c: "load_option env ini section o1 cfg = Inr c"
    "for_each (load_option env ini section) ods c = Inr cfg'" by (auto simp: seq_eq_Inr_iff)
  show ?case
  proof (cases "od \<in> set ods")
    case True
    with Cons.IH [OF c(2)] Cons.prems(2) show ?thesis by simp
  next
    case False
    then have o: "od = o1" using Cons.prems(3) by simp
    from Cons.prems(2) have "store_key (fst o1) \<noteq> store_key (fst o2)" if "o2 \<in> set ods" for o2 using that by force
    with load_section_keeps [OF c(2) load_option_loaded [OF c(1)]] o show ?thesis by blast
  qed
qed simp

text \<open>The names of a table: no section twice, and in a section no two options with the same key.\<close>

definition distinct_options :: "(string \<times> option_default list) list \<Rightarrow> bool" where
  "distinct_options table \<longleftrightarrow>
     distinct (map fst table) \<and> list_all (\<lambda>(_, ods). distinct (map (store_key \<circ> fst) ods)) table"

lemma load_options_loaded:
  assumes "for_each (\<lambda>(section, ods). for_each (load_option env ini section) ods) table cfg = Inr cfg'"
    and "distinct_options table" "(section, ods) \<in> set table" "od \<in> set ods"
  shows "option_loaded env ini section od cfg'"
  using assms
proof (induction table arbitrary: cfg)
  case (Cons t table)
  obtain s1 ods1 where t: "t = (s1, ods1)" by (cases t)
  from Cons.prems(1) t obtain c where c: "for_each (load_option env ini s1) ods1 cfg = Inr c"
    "for_each (\<lambda>(section, ods). for_each (load_option env ini section) ods) table c = Inr cfg'" by (auto simp: seq_eq_Inr_iff)
  from Cons.prems(2) t have d: "distinct (map (store_key \<circ> fst) ods1)" "distinct_options table" "s1 \<notin> fst ` set table"
    by (auto simp: distinct_options_def)
  show ?case
  proof (cases "(section, ods) \<in> set table")
    case True
    from Cons.IH [OF c(2) d(2) True Cons.prems(4)] show ?thesis .
  next
    case False
    with Cons.prems(3) t have s: "section = s1" "ods = ods1" by auto
    have l: "option_loaded env ini section od c" using load_section_loaded [OF c(1) d(1)] Cons.prems(4) s by simp
    show ?thesis
    proof (rule for_each_invariant [OF c(2), of "option_loaded env ini section od"])
      show "option_loaded env ini section od c" by (rule l)
    next
      fix u b b'
      assume u: "u \<in> set table" and b: "option_loaded env ini section od b"
        and f: "(case u of (section, ods) \<Rightarrow> for_each (load_option env ini section) ods) b = Inr b'"
      obtain s2 ods2 where u2: "u = (s2, ods2)" by (cases u)
      with u d(3) s have n: "section \<noteq> s2" by (metis fst_conv image_eqI)
      from f u2 have f2: "for_each (load_option env ini s2) ods2 b = Inr b'" by simp
      show "option_loaded env ini section od b'" by (rule load_section_keeps [OF f2 b]) (use n in blast)
    qed
  qed
qed simp

text \<open>When every option can be converted, the table can be loaded.\<close>

definition convertible :: "config_env \<Rightarrow> (string \<Rightarrow> string \<Rightarrow> string option) \<Rightarrow> string \<Rightarrow> option_default \<Rightarrow> bool" where
  "convertible env ini section od \<longleftrightarrow>
     (case od of (option, conv, _, dflt) \<Rightarrow> \<not> isl (convert env conv (option_text env ini section option dflt)))"

lemma load_section_ok:
  "(\<And>od. od \<in> set ods \<Longrightarrow> convertible env ini section od) \<Longrightarrow>
    \<exists>cfg'. for_each (load_option env ini section) ods cfg = Inr cfg'"
proof (induction ods arbitrary: cfg)
  case (Cons od ods)
  from Cons.prems [of od] obtain c where "load_option env ini section od cfg = Inr c"
    by (cases od; cases "convert env (fst (snd od)) (option_text env ini section (fst od) (snd (snd (snd od))))")
      (auto simp: convertible_def load_option_def)
  with Cons show ?case by simp
qed simp

lemma load_table_ok:
  "(\<And>section ods od. (section, ods) \<in> set table \<Longrightarrow> od \<in> set ods \<Longrightarrow> convertible env ini section od) \<Longrightarrow>
    \<exists>cfg'. for_each (\<lambda>(section, ods). for_each (load_option env ini section) ods) table cfg = Inr cfg'"
proof (induction table arbitrary: cfg)
  case (Cons t table)
  obtain s ods where t: "t = (s, ods)" by (cases t)
  from load_section_ok [of ods env ini s cfg] Cons.prems [of s ods] t
  obtain c where "for_each (load_option env ini s) ods cfg = Inr c" by auto
  moreover have "\<exists>cfg'. for_each (\<lambda>(section, ods). for_each (load_option env ini section) ods) table c = Inr cfg'"
    by (rule Cons.IH) (rule Cons.prems, simp_all)
  ultimately show ?case using t by simp
qed simp

section \<open>Looking for the files ends\<close>

text \<open>An absolute path with one slash in front.\<close>

definition one_slash :: "string \<Rightarrow> bool" where
  "one_slash p \<longleftrightarrow> prefix ''/'' p \<and> \<not> prefix ''//'' p"

lemma one_slash_iff: "one_slash p \<longleftrightarrow> (\<exists>r. p = SEP # r \<and> (r = [] \<or> hd r \<noteq> SEP))"
  by (cases p; cases "tl p") (auto simp: one_slash_def)

lemma path_join_one_slash: "one_slash a \<Longrightarrow> SEP \<notin> set b \<Longrightarrow> one_slash (path_join a b)"
proof -
  assume a: "one_slash a" and b: "SEP \<notin> set b"
  obtain r where r: "a = SEP # r" "r = [] \<or> hd r \<noteq> SEP" using a by (auto simp: one_slash_iff)
  show ?thesis
  proof (cases r)
    case Nil
    with r b show ?thesis by (cases b) (auto simp: one_slash_iff path_join_def)
  next
    case (Cons c cs)
    with r show ?thesis using b by (cases b) (auto simp: one_slash_iff path_join_def)
  qed
qed

lemma foldl_path_join_one_slash:
  "one_slash a \<Longrightarrow> (\<And>b. b \<in> set bs \<Longrightarrow> SEP \<notin> set b) \<Longrightarrow> one_slash (foldl path_join a bs)"
  by (induction bs arbitrary: a) (auto intro: path_join_one_slash)

lemma path_split_one_slash:
  assumes "one_slash p" "p \<noteq> ''/''"
  shows "one_slash (fst (path_split p)) \<and> length (fst (path_split p)) < length p"
proof -
  let ?tail = "rev (takeWhile (\<lambda>c. c \<noteq> SEP) (rev p))"
  let ?rest = "dropWhile (\<lambda>c. c \<noteq> SEP) (rev p)"
  have p: "p = rev ?rest @ ?tail" by (metis rev_append rev_rev_ident takeWhile_dropWhile_id)
  have head: "take (length p - length ?tail) p = rev ?rest" by (subst (2) p, subst p) simp
  have fs: "fst (path_split p) =
      (if rev ?rest \<noteq> [] \<and> set (rev ?rest) \<noteq> {SEP} then rstrip_in ''/'' (rev ?rest) else rev ?rest)"
    unfolding path_split_def Let_def fst_conv head ..
  have "SEP \<in> set (rev p)" using assms(1) by (auto simp: one_slash_def prefix_def)
  then have ne: "?rest \<noteq> []" by (auto simp: dropWhile_eq_Nil_conv)
  then have "hd ?rest = SEP" using hd_dropWhile by blast
  with ne obtain q where q: "?rest = SEP # q" by (cases ?rest) auto
  have pq: "p = rev q @ SEP # ?tail" using p q by simp
  show ?thesis
  proof (cases "q = []")
    case True
    then have h: "fst (path_split p) = ''/''" using head q by (simp add: path_split_def Let_def)
    have "?tail \<noteq> []" using pq True assms(2) by auto
    then have "length p > 1" using pq True by (metis append_Nil length_Cons length_greater_0_conv less_Suc_eq list.size(3) not_less_eq rev.simps(1) One_nat_def)
    with h show ?thesis by (simp add: one_slash_def)
  next
    case False
    obtain d r where d: "rev q = d # r" using False by (cases "rev q") auto
    have pd: "p = d # r @ SEP # ?tail" using pq d by simp
    obtain t where t: "p = SEP # t" "t = [] \<or> hd t \<noteq> SEP" using assms(1) by (auto simp: one_slash_iff)
    have dS: "d = SEP" and tr: "t = r @ SEP # ?tail" using pd t(1) by (metis list.inject)+
    have rne: "r \<noteq> []" using tr t(2) by auto
    then have r1: "hd r \<noteq> SEP" using tr t(2) by auto
    obtain e r' where r: "r = e # r'" "e \<noteq> SEP" using r1 rne by (cases r) auto
    have hd: "rev ?rest = d # r @ [SEP]" using q d by simp
    have nS: "set (d # r @ [SEP]) \<noteq> {SEP}" using r by auto
    have f: "fst (path_split p) = rstrip_in ''/'' (d # r @ [SEP])"
      unfolding fs hd using nS by simp
    define w where "w = rev (dropWhile (\<lambda>c. c = SEP) (rev (SEP # e # r')))"
    have w: "fst (path_split p) = w" using f d dS r by (simp add: rstrip_in_def w_def)
    have "w = SEP # e # rev (dropWhile (\<lambda>c. c = SEP) (rev r'))" unfolding w_def
      using r(2) by (auto simp: dropWhile_append)
    then have "\<exists>u. w = SEP # e # u" by blast
    moreover have "length w \<le> length (SEP # e # r')"
      unfolding w_def length_rev using length_dropWhile_le [of "\<lambda>c. c = SEP" "rev (SEP # e # r')"] by (simp only: length_rev)
    moreover have "length p > length (SEP # e # r')"
      using arg_cong [OF pq, of length] d r(1) by (simp only: length_append list.size)
    ultimately show ?thesis using w r(2) by (auto simp: one_slash_iff)
  qed
qed

lemma conf_location_ends: "one_slash p \<Longrightarrow> \<exists>l. conf_location p = Some l"
proof (induction p rule: length_induct)
  case (1 p)
  show ?case
  proof (cases "p = ''/''")
    case True
    then show ?thesis by (subst conf_location.simps) simp
  next
    case False
    with path_split_one_slash [of p] 1 obtain l where "conf_location (fst (path_split p)) = Some l" by blast
    then show ?thesis by (subst conf_location.simps) (auto split: prod.splits)
  qed
qed

lemma conf_paths_ends: "\<exists>paths. conf_paths env conf = Some paths"
proof -
  have "one_slash (foldl path_join ''/'' (split_on SEP (config_home env)))"
    by (rule foldl_path_join_one_slash) (auto simp: one_slash_def dest: split_on_notin)
  from conf_location_ends [OF this] show ?thesis by (auto simp: conf_paths_def)
qed

end
