(* ===== verification/Application.thy ===== *)
theory Application
  imports Configuration
begin

text \<open>
  \<open>lib/exaproxy/application.py\<close>: the table of the options with their defaults, and the command line.
\<close>

section \<open>The options of the proxy\<close>

definition tcp4_defaults :: "option_default list" where
  "tcp4_defaults =
    [(''host'', Unquote, Fmt_quote, ''127.0.0.1''),
     (''port'', Integer, Fmt_nop, ''3128''),
     (''timeout'', Integer, Fmt_nop, ''5''),
     (''backlog'', Integer, Fmt_nop, ''200''),
     (''listen'', Boolean, Fmt_lower, ''true''),
     (''out'', Boolean, Fmt_lower, ''true''),
     (''bind'', Unquote, Fmt_quote, ''0.0.0.0'')]"

definition tcp6_defaults :: "option_default list" where
  "tcp6_defaults =
    [(''host'', Unquote, Fmt_quote, ''::1''),
     (''port'', Integer, Fmt_nop, ''3128''),
     (''timeout'', Integer, Fmt_nop, ''5''),
     (''backlog'', Integer, Fmt_nop, ''200''),
     (''listen'', Boolean, Fmt_lower, ''false''),
     (''out'', Boolean, Fmt_lower, ''true''),
     (''bind'', Unquote, Fmt_quote, ''::'')]"

definition redirector_defaults :: "option_default list" where
  "redirector_defaults =
    [(''enable'', Boolean, Fmt_lower, ''false''),
     (''program'', Exe, Fmt_path, ''etc/exaproxy/redirector/url-allow''),
     (''minimum'', Integer, Fmt_nop, ''5''),
     (''maximum'', Integer, Fmt_nop, ''25''),
     (''protocol'', Redirector_protocol, Fmt_quote, ''url'')]"

definition http_defaults :: "option_default list" where
  "http_defaults =
    [(''enable'', Boolean, Fmt_lower, ''true''),
     (''idle-connect'', Integer, Fmt_nop, ''300''),
     (''connections'', Integer, Fmt_nop, ''32768''),
     (''transparent'', Boolean, Fmt_lower, ''false''),
     (''forward'', Lowunquote, Fmt_quote, []),
     (''mask'', Boolean, Fmt_lower, ''false''),
     (''connect'', Boolean, Fmt_lower, ''true''),
     (''expect'', Boolean, Fmt_lower, ''false''),
     (''extensions'', Methods, Fmt_list, []),
     (''proxied'', Boolean, Fmt_lower, ''false''),
     (''header-size'', Integer, Fmt_nop, ''65536'')]"

definition passthrough_defaults :: "option_default list" where
  "passthrough_defaults =
    [(''enable'', Boolean, Fmt_lower, ''false''),
     (''host'', Unquote, Fmt_quote, ''127.0.0.1''),
     (''ipv6'', Unquote, Fmt_quote, ''::''),
     (''port'', Integer, Fmt_nop, ''8000''),
     (''idle-connect'', Integer, Fmt_nop, ''300''),
     (''connections'', Integer, Fmt_nop, ''32768''),
     (''proxied'', Boolean, Fmt_lower, ''false'')]"

definition icap_defaults :: "option_default list" where
  "icap_defaults =
    [(''enable'', Boolean, Fmt_lower, ''false''),
     (''host'', Unquote, Fmt_quote, ''127.0.0.1''),
     (''ipv6'', Unquote, Fmt_quote, ''::''),
     (''port'', Integer, Fmt_nop, ''1344''),
     (''idle-connect'', Integer, Fmt_nop, ''300''),
     (''connections'', Integer, Fmt_nop, ''32768''),
     (''proxied'', Boolean, Fmt_lower, ''false''),
     (''header-size'', Integer, Fmt_nop, ''65536'')]"

definition tls_defaults :: "option_default list" where
  "tls_defaults =
    [(''enable'', Boolean, Fmt_lower, ''false''),
     (''host'', Unquote, Fmt_quote, ''127.0.0.1''),
     (''ipv6'', Unquote, Fmt_quote, ''::''),
     (''port'', Integer, Fmt_nop, ''443''),
     (''idle-connect'', Integer, Fmt_nop, ''300''),
     (''connections'', Integer, Fmt_nop, ''32768''),
     (''proxied'', Boolean, Fmt_lower, ''false''),
     (''header-size'', Integer, Fmt_nop, ''65536'')]"

definition web_defaults :: "option_default list" where
  "web_defaults =
    [(''enable'', Boolean, Fmt_lower, ''true''),
     (''host'', Unquote, Fmt_quote, ''127.0.0.1''),
     (''port'', Integer, Fmt_nop, ''8080''),
     (''html'', Folder, Fmt_path, ''etc/exaproxy/html''),
     (''connections'', Integer, Fmt_nop, ''100''),
     (''debug'', Boolean, Fmt_lower, ''false'')]"

definition daemon_defaults :: "option_default list" where
  "daemon_defaults =
    [(''identifier'', Unquote, Fmt_nop, ''ExaProxy''),
     (''pidfile'', Unquote, Fmt_quote, []),
     (''user'', User, Fmt_quote, ''nobody''),
     (''daemonize'', Boolean, Fmt_lower, ''false''),
     (''reactor'', Unquote, Fmt_quote, ''best''),
     (''speed'', Integer, Fmt_nop, ''2''),
     (''poll-interfaces'', Boolean, Fmt_lower, ''true'')]"

definition security_defaults :: "option_default list" where
  "security_defaults =
    [(''local'', Services, Fmt_services, []),
     (''connect'', Ports, Fmt_list, ''443 981 7000''),
     (''deny'', Ranges, Fmt_ranges, [])]"

definition dns_defaults :: "option_default list" where
  "dns_defaults =
    [(''resolver'', Resolver_conf, Fmt_path, ''/etc/resolv.conf''),
     (''timeout'', Integer, Fmt_nop, ''2''),
     (''retries'', Integer, Fmt_nop, ''10''),
     (''ttl'', Integer, Fmt_nop, ''900''),
     (''fqdn'', Boolean, Fmt_lower, ''true''),
     (''definitions'', Folder, Fmt_path, ''etc/exaproxy/dns/types'')]"

definition log_defaults :: "option_default list" where
  "log_defaults =
    [(''enable'', Boolean, Fmt_lower, ''true''),
     (''level'', Syslog, Fmt_syslog, ''ERROR''),
     (''destination'', Unquote, Fmt_quote, ''stdout''),
     (''signal'', Boolean, Fmt_lower, ''true''),
     (''configuration'', Boolean, Fmt_lower, ''true''),
     (''supervisor'', Boolean, Fmt_lower, ''true''),
     (''daemon'', Boolean, Fmt_lower, ''true''),
     (''server'', Boolean, Fmt_lower, ''true''),
     (''client'', Boolean, Fmt_lower, ''true''),
     (''manager'', Boolean, Fmt_lower, ''true''),
     (''worker'', Boolean, Fmt_lower, ''true''),
     (''download'', Boolean, Fmt_lower, ''true''),
     (''http'', Boolean, Fmt_lower, ''true''),
     (''header'', Boolean, Fmt_lower, ''true''),
     (''resolver'', Boolean, Fmt_lower, ''true''),
     (''web'', Boolean, Fmt_lower, ''true'')]"

definition usage_defaults :: "option_default list" where
  "usage_defaults =
    [(''enable'', Boolean, Fmt_lower, ''false''),
     (''destination'', Unquote, Fmt_quote, ''stdout'')]"

definition profile_defaults :: "option_default list" where
  "profile_defaults =
    [(''enable'', Boolean, Fmt_lower, ''false''),
     (''destination'', Unquote, Fmt_quote, ''stdout'')]"

definition proxy_defaults :: "option_default list" where
  "proxy_defaults =
    [(''version'', Nop, Fmt_nop, ''1.2.1'')]"

definition debug_defaults :: "option_default list" where
  "debug_defaults =
    [(''memory'', Boolean, Fmt_lower, ''false''),
     (''pdb'', Boolean, Fmt_lower, ''false''),
     (''log'', Boolean, Fmt_lower, ''false'')]"

definition application_defaults :: "(string \<times> option_default list) list" where
  "application_defaults =
    [(''tcp4'', tcp4_defaults),
     (''tcp6'', tcp6_defaults),
     (''redirector'', redirector_defaults),
     (''http'', http_defaults),
     (''passthrough'', passthrough_defaults),
     (''icap'', icap_defaults),
     (''tls'', tls_defaults),
     (''web'', web_defaults),
     (''daemon'', daemon_defaults),
     (''security'', security_defaults),
     (''dns'', dns_defaults),
     (''log'', log_defaults),
     (''usage'', usage_defaults),
     (''profile'', profile_defaults),
     (''proxy'', proxy_defaults),
     (''debug'', debug_defaults)]"

lemmas section_defaults = tcp4_defaults_def tcp6_defaults_def redirector_defaults_def http_defaults_def
  passthrough_defaults_def icap_defaults_def tls_defaults_def web_defaults_def daemon_defaults_def
  security_defaults_def dns_defaults_def log_defaults_def usage_defaults_def profile_defaults_def
  proxy_defaults_def debug_defaults_def

section \<open>The command line\<close>

text \<open>The argument that follows \<open>-c\<close>, whatever it is; the last one counts.\<close>

fun conf_argument :: "bool \<Rightarrow> string \<Rightarrow> string list \<Rightarrow> string" where
  "conf_argument followup conf [] = conf"
| "conf_argument followup conf (arg # args) =
     (if followup then conf_argument False arg args
      else conf_argument (arg \<in> {''-c'', ''--conf-file''}) conf args)"

datatype command_action = Show_usage | Show_ini bool | Show_env bool | Show_version | Run_supervisor

text \<open>The loop over the arguments: what is to be done, the configuration and whether \<open>PDB\<close> is set in the environment.\<close>

fun command_line :: "string list \<Rightarrow> configuration \<times> bool \<Rightarrow> command_action \<times> configuration \<times> bool" where
  "command_line [] (cfg, pdb) = (Run_supervisor, cfg, pdb)"
| "command_line (arg # args) (cfg, pdb) =
     (if arg = ''--'' then (Run_supervisor, cfg, pdb)
      else if arg \<in> {''-h'', ''--help''} then (Show_usage, cfg, pdb)
      else if arg \<in> {''-i'', ''-fi'', ''--ini''} then (Show_ini False, cfg, pdb)
      else if arg \<in> {''-e'', ''-fe'', ''--env''} then (Show_env False, cfg, pdb)
      else if arg \<in> {''-di'', ''--diff-ini''} then (Show_ini True, cfg, pdb)
      else if arg \<in> {''-de'', ''--diff-env''} then (Show_env True, cfg, pdb)
      else if arg \<in> {''-v'', ''--version''} then (Show_version, cfg, pdb)
      else
        let cfg1 = (if arg \<in> {''-d'', ''--debug''}
              then set_option ''web'' ''debug'' (Flag True) (set_option ''debug'' ''log'' (Flag True) cfg) else cfg);
            (cfg2, pdb2) = (if arg \<in> {''-p'', ''--pdb''} then (set_option ''debug'' ''pdb'' (Flag True) cfg1, True) else (cfg1, pdb));
            cfg3 = (if arg \<in> {''-m'', ''--memory''} then set_option ''debug'' ''memory'' (Flag True) cfg2 else cfg2)
        in command_line args (cfg3, pdb2))"

text \<open>
  \<open>main\<close> up to the start of the supervisor: a \<open>ConfigurationError\<close> ends the program with a message, any
  other exception with a trace.
\<close>

datatype application_start = Configuration_issue string string | Start_raises py_error | Started command_action configuration bool

definition application_main :: "config_env \<Rightarrow> string list \<Rightarrow> application_start option" where
  "application_main env args =
     map_option (\<lambda>r. case r of
         Inl (Invalid_option section option) \<Rightarrow> Configuration_issue section option
       | Inl (Escapes e) \<Rightarrow> Start_raises e
       | Inl Not_initialised \<Rightarrow> Start_raises RuntimeError
       | Inr cfg \<Rightarrow>
           (case command_line args (set_option ''proxy'' ''version'' (Text_value ''1.2.1'') cfg, False) of
              (action, cfg', pdb) \<Rightarrow> Started action cfg' pdb))
     (load_configuration env None application_defaults (Some (conf_argument False [] args)))"

section \<open>The table\<close>

lemma application_distinct: "distinct_options application_defaults"
  by code_simp

text \<open>The kind of value a conversion gives.\<close>

fun kind_of :: "converter \<Rightarrow> conf_value \<Rightarrow> bool" where
  "kind_of Integer v \<longleftrightarrow> (case v of Number n \<Rightarrow> n > 0 | _ \<Rightarrow> False)"
| "kind_of Syslog v \<longleftrightarrow> (case v of Number n \<Rightarrow> n \<in> snd ` set syslog_levels | _ \<Rightarrow> False)"
| "kind_of Boolean v \<longleftrightarrow> (case v of Flag _ \<Rightarrow> True | _ \<Rightarrow> False)"
| "kind_of Word_of v \<longleftrightarrow> (case v of Word_list _ \<Rightarrow> True | _ \<Rightarrow> False)"
| "kind_of Methods v \<longleftrightarrow> (case v of Word_list ws \<Rightarrow> \<forall>w \<in> set ws. w \<noteq> [] | _ \<Rightarrow> False)"
| "kind_of Ports v \<longleftrightarrow> (case v of Port_list _ \<Rightarrow> True | _ \<Rightarrow> False)"
| "kind_of Services v \<longleftrightarrow> (case v of Service_list l \<Rightarrow> \<forall>(host, _) \<in> set l. CHR '':'' \<notin> set host | _ \<Rightarrow> False)"
| "kind_of Ranges v \<longleftrightarrow> (case v of Range_list l \<Rightarrow> \<forall>(proto, _, _) \<in> set l. proto = 4 \<or> proto = 6 | _ \<Rightarrow> False)"
| "kind_of _ v \<longleftrightarrow> (case v of Text_value _ \<Rightarrow> True | _ \<Rightarrow> False)"

lemma py_words_no_space: "w \<in> set (py_words s) \<Longrightarrow> w \<noteq> [] \<and> list_all (\<lambda>c. \<not> is_space c) w"
proof (induction s rule: py_words.induct)
  case (1 s)
  define r where "r = py_lstrip s"
  show ?case
  proof (cases "r = []")
    case True
    with 1 show ?thesis by (simp add: py_words.simps [of s] r_def)
  next
    case False
    then have h: "\<not> is_space (hd r)" using hd_dropWhile [of is_space s] by (simp add: r_def py_lstrip_def)
    have w: "w = takeWhile (\<lambda>c. \<not> is_space c) r \<or> w \<in> set (py_words (dropWhile (\<lambda>c. \<not> is_space c) r))"
      using 1(2) False by (simp add: py_words.simps [of s] r_def [symmetric] Let_def)
    show ?thesis
    proof (cases "w = takeWhile (\<lambda>c. \<not> is_space c) r")
      case True
      with h False show ?thesis by (cases r) (auto simp: list_all_iff dest: set_takeWhileD)
    next
      case False
      with w 1(1) [OF r_def \<open>r \<noteq> []\<close>] show ?thesis by blast
    qed
  qed
qed

lemma map_res_member: "map_res f xs = Inr ys \<Longrightarrow> y \<in> set ys \<Longrightarrow> \<exists>x \<in> set xs. f x = Inr y"
  by (induction xs arbitrary: ys) (auto simp: seq_eq_Inr_iff)

lemma value_error_Inr [simp]: "value_error_is_type_error r = Inr x \<longleftrightarrow> r = Inr x"
  by (cases r) (simp_all add: value_error_is_type_error_def)

lemma value_error_of_Inr [simp]: "value_error_is_type_error (Inr x) = Inr x"
  by simp

lemma conf_service_kind: "conf_service s = Inr (host, port) \<Longrightarrow> CHR '':'' \<notin> set host"
proof -
  assume "conf_service s = Inr (host, port)"
  then obtain p where "split_on CHR '':'' s = [host, p]"
    by (auto simp: conf_service_def two_parts_def seq_eq_Inr_iff split: list.splits)
  then show ?thesis using split_on_notin [of host "CHR '':''" s] by simp
qed

lemma conf_range_kind: "conf_range env s = Inr (proto, start, end) \<Longrightarrow> proto = 4 \<or> proto = 6"
  by (auto simp: conf_range_def seq_eq_Inr_iff Let_def split: prod.splits if_splits)

lemma convert_kind: "convert env conv s = Inr v \<Longrightarrow> kind_of conv v"
proof (cases conv)
  case Services
  assume "convert env conv s = Inr v"
  with Services show ?thesis by (fastforce simp: seq_eq_Inr_iff dest: map_res_member conf_service_kind)
next
  case Ranges
  assume "convert env conv s = Inr v"
  with Ranges show ?thesis by (fastforce simp: seq_eq_Inr_iff dest: map_res_member conf_range_kind)
next
  case Syslog
  assume "convert env conv s = Inr v"
  with Syslog show ?thesis by (force split: option.splits dest: map_of_SomeD)
next
  case Methods
  assume "convert env conv s = Inr v"
  with Methods show ?thesis by (auto dest: py_words_no_space)
qed (auto simp: seq_eq_Inr_iff split: if_splits option.splits)

section \<open>What the proxy is configured with\<close>

text \<open>A system on which everything is found, and nothing is configured but one option in the environment.\<close>

definition example_config_env :: config_env where
  "example_config_env = \<lparr>cfe_argv0 = ''/opt/exaproxy/lib/exaproxy/application.py'', cfe_cwd = ''/root'', cfe_exists = (\<lambda>_. True),
     cfe_isfile = (\<lambda>_. True), cfe_executable = (\<lambda>_. True), cfe_lines = (\<lambda>_. Inr [''nameserver 127.0.0.1'']),
     cfe_expanduser = (\<lambda>p. p), cfe_user = (\<lambda>u. u = ''nobody''), cfe_environ = Map.empty,
     cfe_ini = (\<lambda>_ _ _. None), cfe_float_end = (\<lambda>start _. Inr (start - 1)), cfe_log2 = (\<lambda>_. Inl ValueError),
     cfe_application = ''exaproxy''\<rparr>"


lemma example_environment [simp]:
  "cfe_environ example_config_env = Map.empty" "cfe_ini example_config_env = (\<lambda>_ _ _. None)"
  "cfe_application example_config_env = ''exaproxy''" "cfe_user example_config_env = (\<lambda>u. u = ''nobody'')"
  by (simp_all add: example_config_env_def)

text \<open>The defaults that depend on the system.\<close>

definition system_defaults :: "(converter \<times> string) list" where
  "system_defaults = [(Exe, ''etc/exaproxy/redirector/url-allow''), (Folder, ''etc/exaproxy/html''), (User, ''nobody''),
     (Resolver_conf, ''/etc/resolv.conf''), (Folder, ''etc/exaproxy/dns/types'')]"

definition default_ok :: "option_default \<Rightarrow> bool" where
  "default_ok od \<longleftrightarrow>
     (case od of (_, conv, _, dflt) \<Rightarrow>
       (conv, dflt) \<in> set system_defaults \<or> (conv = Ranges \<and> dflt = [])
       \<or> (conv = Integer \<and> py_isdigit dflt \<and> hd dflt \<noteq> CHR ''0'')
       \<or> conv \<notin> {User, Folder, Conf, Exe, Resolver_conf, Ranges, Integer} \<and> \<not> isl (convert example_config_env conv dflt))"

lemma tcp4_ok: "list_all default_ok tcp4_defaults"
  by code_simp

lemma tcp6_ok: "list_all default_ok tcp6_defaults"
  by code_simp

lemma redirector_ok: "list_all default_ok redirector_defaults"
  by code_simp

lemma http_ok: "list_all default_ok http_defaults"
  by code_simp

lemma passthrough_ok: "list_all default_ok passthrough_defaults"
  by code_simp

lemma icap_ok: "list_all default_ok icap_defaults"
  by code_simp

lemma tls_ok: "list_all default_ok tls_defaults"
  by code_simp

lemma web_ok: "list_all default_ok web_defaults"
  by code_simp

lemma daemon_ok: "list_all default_ok daemon_defaults"
  by code_simp

lemma security_ok: "list_all default_ok security_defaults"
  by code_simp

lemma dns_ok: "list_all default_ok dns_defaults"
  by code_simp

lemma log_ok: "list_all default_ok log_defaults"
  by code_simp

lemma usage_ok: "list_all default_ok usage_defaults"
  by code_simp

lemma profile_ok: "list_all default_ok profile_defaults"
  by code_simp

lemma proxy_ok: "list_all default_ok proxy_defaults"
  by code_simp

lemma debug_ok: "list_all default_ok debug_defaults"
  by code_simp

lemma application_defaults_ok: "list_all (\<lambda>(_, ods). list_all default_ok ods) application_defaults"
  by (simp add: application_defaults_def tcp4_ok tcp6_ok redirector_ok http_ok passthrough_ok icap_ok tls_ok web_ok daemon_ok security_ok dns_ok log_ok usage_ok profile_ok proxy_ok debug_ok)

lemma convert_system_free:
  "conv \<notin> {User, Folder, Conf, Exe, Resolver_conf, Ranges} \<Longrightarrow> convert env conv s = convert env' conv s"
  by (cases conv) auto

lemma nat_of_dec_positive:
  assumes "py_isdigit s" "hd s \<noteq> CHR ''0''"
  shows "nat_of_dec s > 0"
proof -
  obtain c cs where s: "s = c # cs" using assms(1) by (cases s) (auto simp: py_isdigit_def)
  have c: "is_digit c" "c \<noteq> CHR ''0''" using assms s by (auto simp: py_isdigit_def)
  have "of_char c \<noteq> (48 :: nat)"
  proof
    assume "of_char c = (48 :: nat)"
    then have "char_of (of_char c :: nat) = (char_of (48 :: nat) :: char)" by simp
    moreover have "(char_of (48 :: nat) :: char) = CHR ''0''" by code_simp
    ultimately show False using c(2) by simp
  qed
  with c(1) have "digit_val c > 0" by (simp add: is_digit_def digit_val_def Let_def)
  moreover have "0 < n \<Longrightarrow> 0 < foldl (\<lambda>n c. 10 * n + digit_val c) n cs" for n by (induction cs arbitrary: n) simp_all
  ultimately show ?thesis using s by (simp add: nat_of_dec_def)
qed

lemma default_convertible:
  assumes "default_ok od" "cfe_environ env = Map.empty" "\<And>s o'. ini s o' = None"
    and "\<And>conv d. (conv, d) \<in> set system_defaults \<Longrightarrow> \<not> isl (convert env conv d)"
  shows "convertible env ini section od"
proof -
  obtain o1 conv fmt d where od: "od = (o1, conv, fmt, d)" by (cases od)
  have t: "option_text env ini section o1 d = d" using assms(2,3) by (simp add: option_text_def Let_def)
  consider "(conv, d) \<in> set system_defaults" | "conv = Ranges" "d = []"
    | "conv = Integer" "py_isdigit d" "hd d \<noteq> CHR ''0''"
    | "conv \<notin> {User, Folder, Conf, Exe, Resolver_conf, Ranges}" "\<not> isl (convert example_config_env conv d)"
    using assms(1) od by (auto simp: default_ok_def)
  then show ?thesis
  proof cases
    case 1
    with assms(4) t od show ?thesis by (simp add: convertible_def)
  next
    case 2
    with t od show ?thesis by (simp add: convertible_def conf_unquote_def strip_in_def rstrip_in_def lstrip_in_def py_strip_def py_rstrip_def py_lstrip_def value_error_is_type_error_def)
  next
    case 3
    with nat_of_dec_positive [of d] t od show ?thesis by (simp add: convertible_def py_int_digits)
  next
    case 4
    with convert_system_free [of conv env d example_config_env] t od show ?thesis by (simp add: convertible_def)
  qed
qed

text \<open>With neither a variable nor a configuration file, on a system that has the folders, the program and the user of the defaults, the configuration loads: every default is a value its conversion accepts.\<close>

theorem defaults_load:
  assumes "cfe_environ env = Map.empty" "\<And>p s o'. cfe_ini env p s o' = None"
    and "\<And>conv d. (conv, d) \<in> set system_defaults \<Longrightarrow> \<not> isl (convert env conv d)"
  shows "\<exists>cfg. the_configuration env application_defaults conf = Some (Inr cfg)"
proof -
  obtain paths where p: "conf_paths env conf = Some paths" using conf_paths_ends by blast
  have i: "conf_ini env paths s o' = None" for s o' using assms(2) by (simp add: conf_ini_def split: list.splits)
  have "convertible env (conf_ini env paths) sec od" if "(sec, ods) \<in> set application_defaults" "od \<in> set ods" for sec ods od
  proof (rule default_convertible [OF _ assms(1) i assms(3)])
    show "default_ok od" using application_defaults_ok that by (fastforce simp: list_all_iff)
  qed
  from load_table_ok [of application_defaults env "conf_ini env paths" Map.empty, OF this] p
  show ?thesis by (auto simp: the_configuration_def load_options_def)
qed

lemma example_system_defaults: "(conv, d) \<in> set system_defaults \<Longrightarrow> \<not> isl (convert example_config_env conv d)"
proof -
  have "list_all (\<lambda>(conv, d). \<not> isl (convert example_config_env conv d)) system_defaults" by code_simp
  then show "(conv, d) \<in> set system_defaults \<Longrightarrow> ?thesis" by (auto simp: list_all_iff)
qed

theorem defaults_load_witness:
  "\<exists>cfg. the_configuration example_config_env application_defaults [] = Some (Inr cfg)"
  by (rule defaults_load) (simp_all add: example_system_defaults)

text \<open>C24: Every option of the table is in a configuration that loads, as the conversion of the text found first: the environment under the name of the option, the environment under that name with underscores for dots, the section of the first configuration file that exists, the section of that file with the name of the program before it, the default; what comes from the file loses its quotes. The value has the kind of the conversion: a positive number for every number.\<close>

theorem option_chosen:
  assumes "the_configuration env application_defaults conf = Some (Inr cfg)"
    and "(section, ods) \<in> set application_defaults" "(option, conv, fmt, dflt) \<in> set ods"
  shows "\<exists>paths ini st t v. conf_paths env conf = Some paths
    \<and> ini = (case find (cfe_exists env) paths of None \<Rightarrow> (\<lambda>_ _. None) | Some p \<Rightarrow> cfe_ini env p)
    \<and> find (\<lambda>found. found \<noteq> None)
        [cfe_environ env (cfe_application env @ ''.'' @ section @ ''.'' @ option),
         cfe_environ env (replace_char CHR ''.'' ''_'' (cfe_application env @ ''.'' @ section @ ''.'' @ option)),
         map_option conf_unquote (ini section option),
         map_option conf_unquote (ini (cfe_application env @ ''.'' @ section) option),
         Some dflt] = Some (Some t)
    \<and> cfg section = Some st \<and> store_get st option = Inr v \<and> convert env conv t = Inr v \<and> kind_of conv v"
proof -
  obtain paths where p: "conf_paths env conf = Some paths" using conf_paths_ends by blast
  with assms(1) have "for_each (\<lambda>(section, ods). for_each (load_option env (conf_ini env paths) section) ods)
      application_defaults Map.empty = Inr cfg"
    by (simp add: the_configuration_def load_options_def)
  from load_options_loaded [OF this application_distinct assms(2,3)]
  obtain st v where v: "cfg section = Some st" "store_get st option = Inr v"
    "convert env conv (option_text env (conf_ini env paths) section option dflt) = Inr v"
    by (auto simp: option_loaded_def)
  show ?thesis
    by (rule exI [of _ paths], rule exI [of _ "conf_ini env paths"], rule exI [of _ st], rule exI, rule exI [of _ v], intro conjI)
       (rule p conf_ini_find option_text_find v convert_kind [OF v(3)])+
qed

theorem option_chosen_witness:
  "\<exists>cfg st n. the_configuration example_config_env application_defaults [] = Some (Inr cfg) \<and> cfg ''http'' = Some st
     \<and> store_get st ''connections'' = Inr (Number n) \<and> n > 0"
proof -
  obtain cfg where c: "the_configuration example_config_env application_defaults [] = Some (Inr cfg)"
  proof -
    have "\<exists>cfg'. for_each (\<lambda>(section, ods). for_each (load_option example_config_env (\<lambda>_ _. None) section) ods)
        application_defaults Map.empty = Inr cfg'"
      by (rule load_table_ok, rule default_convertible)
        (use application_defaults_ok in \<open>fastforce simp: list_all_iff\<close>, simp_all add: example_system_defaults)
    moreover obtain paths where "conf_paths example_config_env [] = Some paths" using conf_paths_ends by blast
    moreover have "conf_ini example_config_env paths = (\<lambda>_ _. None)" for paths by (simp add: conf_ini_def split: list.splits)
    ultimately show ?thesis using that by (auto simp: the_configuration_def load_options_def)
  qed
  have m: "(''http'', http_defaults) \<in> set application_defaults" by (simp add: application_defaults_def)
  have o: "(''connections'', Integer, Fmt_nop, ''32768'') \<in> set http_defaults" by (simp add: http_defaults_def)
  from option_chosen [OF c m o] obtain st v where v: "cfg ''http'' = Some st" "store_get st ''connections'' = Inr v" "kind_of Integer v"
    by blast
  then obtain n where "v = Number n" "n > 0" by (cases v) auto
  with c v show ?thesis by blast
qed

text \<open>The program finds its configuration files, and then runs, shows what was asked, or ends with the error: starting always ends.\<close>

theorem application_starts: "\<exists>r. application_main env args = Some r"
  using conf_paths_ends [of env "conf_argument False [] args"]
  by (auto simp: application_main_def load_configuration_def the_configuration_def)

section \<open>What is denied\<close>

text \<open>The specification: a network is a family, a number of leading bits and an address without bits after them.\<close>

definition address_bits :: "nat \<Rightarrow> nat" where
  "address_bits family = (if family = 6 then 128 else 32)"

definition cidr :: "string \<Rightarrow> (nat \<times> nat \<times> nat) option" where
  "cidr w =
     (case split_on SEP w of
        [network, netmask] \<Rightarrow>
          (case host_number network of
             Inl _ \<Rightarrow> None
           | Inr (f, a) \<Rightarrow>
               (case py_int netmask of
                  Inl _ \<Rightarrow> None
                | Inr m \<Rightarrow>
                    if 0 \<le> m \<and> m \<le> int (address_bits f) \<and> a mod 2 ^ (address_bits f - nat m) = 0 then Some (f, nat m, a)
                    else None))
      | _ \<Rightarrow> None)"

definition in_network :: "nat \<times> nat \<times> nat \<Rightarrow> nat \<times> nat \<Rightarrow> bool" where
  "in_network n host =
     (case (n, host) of ((f, m, a), (g, h)) \<Rightarrow>
        g = f \<and> h div 2 ^ (address_bits f - m) = a div 2 ^ (address_bits f - m))"

text \<open>The ranges of the configuration as the content manager keeps them.\<close>

definition deny_list :: "(nat \<times> int \<times> int) list \<Rightarrow> (nat \<times> nat \<times> nat) list" where
  "deny_list rs = map (\<lambda>(proto, start, end). (proto, nat start, nat end)) rs"

lemma conf_range_cidr:
  assumes "cidr w = Some (f, m, a)"
  shows "conf_range env w = Inr (f, int a, int a + 2 ^ (address_bits f - m) - 1)"
proof -
  obtain network netmask k where w: "split_on SEP w = [network, netmask]" "host_number network = Inr (f, a)"
    "py_int netmask = Inr k" "0 \<le> k" "k \<le> int (address_bits f)" "m = nat k"
    using assms by (auto simp: cidr_def split: list.splits sum.splits if_splits)
  have f: "f = (if CHR '':'' \<in> set network then 6 else 4)"
    using w(2) by (auto simp: host_number_def seq_eq_Inr_iff split: if_splits)
  have e: "nat (int (address_bits f) - k) = address_bits f - m" using w(4,6) by (simp add: nat_diff_distrib)
  show ?thesis
  proof (cases "CHR '':'' \<in> set network")
    case True
    with w f e show ?thesis
      by (auto simp: conf_range_def two_parts_def host_number_def seq_eq_Inr_iff or_raise_def range_end_def Let_def address_bits_def
          split: option.splits)
  next
    case False
    with w f e show ?thesis
      by (auto simp: conf_range_def two_parts_def host_number_def seq_eq_Inr_iff or_raise_def range_end_def Let_def address_bits_def
          split: option.splits)
  qed
qed

lemma deny_list_member:
  "(\<exists>(p, a, b) \<in> set (deny_list (map g ws)). f = p \<and> a \<le> h \<and> h \<le> b) \<longleftrightarrow>
    (\<exists>w \<in> set ws. case g w of (p, a, b) \<Rightarrow> p = f \<and> nat a \<le> h \<and> h \<le> nat b)"
  by (induction ws) (auto simp: deny_list_def split: prod.splits)

lemma aligned_range:
  fixes a h p :: nat
  assumes "a mod p = 0" "0 < p"
  shows "a \<le> h \<and> h \<le> nat (int a + int p - 1) \<longleftrightarrow> h div p = a div p"
proof -
  obtain q where q: "a = p * q" using assms(1) by auto
  have n: "nat (int a + int p - 1) = a + p - 1" using assms(2) by simp
  have "h div p = q" if ge: "a \<le> h" and lt: "h < a + p"
  proof -
    obtain r where r: "h = a + r" using le_Suc_ex [OF ge] by blast
    with lt have "r < p" by simp
    with q r show ?thesis by simp
  qed
  moreover have "a \<le> h \<and> h < a + p" if "h div p = q"
  proof -
    have "a + h mod p = h" using mult_div_mod_eq [of p h] that q by simp
    moreover have "h mod p < p" using assms(2) by simp
    ultimately show ?thesis by (metis le_add1 nat_add_left_cancel_less)
  qed
  moreover have "a div p = q" using q assms(2) by simp
  moreover have "h \<le> a + p - 1 \<longleftrightarrow> h < a + p" using assms(2) by arith
  ultimately show ?thesis unfolding n by metis
qed

text \<open>C8: When every word of \<open>security.deny\<close> is a network, a host is denied exactly when its address has the leading bits of one of them.\<close>

theorem configured_deny:
  assumes "\<forall>w \<in> set (py_words (conf_unquote s)). cidr w \<noteq> None" "host_number host = Inr (f, h)"
  shows "\<exists>rs. convert env Ranges s = Inr (Range_list rs)
    \<and> denied (deny_list rs) host = Inr (\<exists>w \<in> set (py_words (conf_unquote s)). in_network (the (cidr w)) (f, h))"
proof -
  let ?ws = "py_words (conf_unquote s)"
  let ?g = "\<lambda>w. case the (cidr w) of (f, m, a) \<Rightarrow> (f, int a, int a + 2 ^ (address_bits f - m) - 1)"
  have "map_res (conf_range env) ?ws = Inr (map ?g ?ws)"
    by (rule map_res_Inr) (use assms(1) conf_range_cidr in fastforce)
  then have c: "convert env Ranges s = Inr (Range_list (map ?g ?ws))" by simp
  have d: "(case ?g w of (p, a, b) \<Rightarrow> p = f \<and> nat a \<le> h \<and> h \<le> nat b) \<longleftrightarrow> in_network (the (cidr w)) (f, h)" if wm: "w \<in> set ?ws" for w
  proof -
    obtain n where "cidr w = Some n" using assms(1) wm by auto
    then obtain g m a where w: "cidr w = Some (g, m, a)" by (cases n) auto
    then have "a mod 2 ^ (address_bits g - m) = 0"
      by (auto simp: cidr_def split: list.splits sum.splits if_splits)
    from aligned_range [OF this, of h]
    have r: "a \<le> h \<and> h \<le> nat (int a + 2 ^ (address_bits g - m) - 1) \<longleftrightarrow>
        h div 2 ^ (address_bits g - m) = a div 2 ^ (address_bits g - m)" by simp
    have g: "?g w = (g, int a, int a + 2 ^ (address_bits g - m) - 1)" by (simp add: w)
    show ?thesis unfolding g w option.sel in_network_def prod.case nat_int using r by blast
  qed
  have "denied (deny_list (map ?g ?ws)) host = Inr (\<exists>w \<in> set ?ws. in_network (the (cidr w)) (f, h))"
  proof (cases "?ws = []")
    case True
    then show ?thesis by (simp add: denied_def deny_list_def)
  next
    case False
    then have "deny_list (map ?g ?ws) \<noteq> []" by (simp add: deny_list_def)
    then have "denied (deny_list (map ?g ?ws)) host =
        Inr (\<exists>w \<in> set ?ws. case ?g w of (p, a, b) \<Rightarrow> p = f \<and> nat a \<le> h \<and> h \<le> nat b)"
      unfolding denied_def deny_list_member [symmetric] using assms(2) by simp
    moreover have "(\<exists>w \<in> set ?ws. case ?g w of (p, a, b) \<Rightarrow> p = f \<and> nat a \<le> h \<and> h \<le> nat b) \<longleftrightarrow>
        (\<exists>w \<in> set ?ws. in_network (the (cidr w)) (f, h))"
      by (rule bex_cong [OF refl]) (rule d)
    ultimately show ?thesis by (simp only:)
  qed
  with c show ?thesis by blast
qed

theorem configured_deny_witness:
  "\<exists>rs. convert example_config_env Ranges ''10.0.0.0/8'' = Inr (Range_list rs) \<and> denied (deny_list rs) ''10.1.2.3'' = Inr True"
proof -
  have w: "py_words (conf_unquote ''10.0.0.0/8'') = [''10.0.0.0/8'']" by code_simp
  have n: "inet_pton4 ''10.0.0.0'' = Some [10, 0, 0, 0]" "inet_pton4 ''10.1.2.3'' = Some [10, 1, 2, 3]" by code_simp+
  have h: "host_number ''10.0.0.0'' = Inr (4, 167772160)" "host_number ''10.1.2.3'' = Inr (4, 167838211)"
    by (simp_all add: host_number_def n number_of_bytes_def)
  have s: "split_on SEP ''10.0.0.0/8'' = [''10.0.0.0'', ''8'']" "py_int ''8'' = Inr 8" by code_simp+
  have c: "cidr ''10.0.0.0/8'' = Some (4, 8, 167772160)" by (simp add: cidr_def s h address_bits_def)
  have "\<exists>rs. convert example_config_env Ranges ''10.0.0.0/8'' = Inr (Range_list rs) \<and>
      denied (deny_list rs) ''10.1.2.3'' = Inr (\<exists>w \<in> set (py_words (conf_unquote ''10.0.0.0/8'')). in_network (the (cidr w)) (4, 167838211))"
    by (rule configured_deny) (simp_all add: w c h)
  then show ?thesis by (simp add: w c in_network_def address_bits_def)
qed

section \<open>What is printed is read back\<close>

definition quotes_free :: "string \<Rightarrow> bool" where
  "quotes_free s \<longleftrightarrow> CHR 0x27 \<notin> set s \<and> DQUOTE \<notin> set s"

lemma unquote_quoted: "quotes_free s \<Longrightarrow> conf_unquote (quoted s) = s"
proof -
  assume s: "quotes_free s"
  have q: "py_strip (quoted s) = quoted s" by (rule py_strip_id) (simp add: quoted_def is_space_def)
  show ?thesis
  proof (cases s)
    case Nil
    show ?thesis unfolding conf_unquote_def q
      by (simp add: quoted_def Nil strip_in_def rstrip_in_def lstrip_in_def)
  next
    case (Cons c cs)
    have l: "lstrip_in [CHR 0x27, DQUOTE] (quoted s) = s @ [CHR 0x27]"
      using s Cons by (auto simp: quoted_def lstrip_in_def quotes_free_def)
    have r: "dropWhile (\<lambda>c. c \<in> set [CHR 0x27, DQUOTE]) (rev s) = rev s"
    proof -
      have "last s \<in> set s" using Cons by (intro last_in_set) simp
      then have "last s \<noteq> CHR 0x27" "last s \<noteq> DQUOTE" using s by (metis quotes_free_def)+
      then show ?thesis by (simp add: dropWhile_eq_self_iff hd_rev)
    qed
    show ?thesis unfolding conf_unquote_def q strip_in_def l using r by (simp add: rstrip_in_def)
  qed
qed

lemma unquote_id: "quotes_free s \<Longrightarrow> conf_unquote s = py_strip s"
proof -
  assume "quotes_free s"
  then have q: "CHR 0x27 \<notin> set (py_strip s)" "DQUOTE \<notin> set (py_strip s)" using set_py_strip [of s] by (auto simp: quotes_free_def)
  then have l: "lstrip_in [CHR 0x27, DQUOTE] (py_strip s) = py_strip s"
    by (intro lstrip_in_id) (cases "py_strip s"; auto)
  have "dropWhile (\<lambda>c. c \<in> set [CHR 0x27, DQUOTE]) (rev (py_strip s)) = rev (py_strip s)"
    using q by (cases "rev (py_strip s)" rule: list.exhaust) (auto simp: dropWhile_eq_self_iff dest: arg_cong [of "rev (py_strip s)" _ set])
  then show ?thesis by (simp add: conf_unquote_def strip_in_def l rstrip_in_def)
qed

lemma py_rstrip_last: "py_rstrip s = [] \<or> \<not> is_space (last (py_rstrip s))"
proof (cases "dropWhile is_space (rev s)")
  case (Cons c cs)
  then have "\<not> is_space c" using hd_dropWhile [of is_space "rev s"] by simp
  with Cons show ?thesis by (simp add: py_rstrip_def)
qed (simp add: py_rstrip_def)

lemma py_strip_idem: "py_strip (py_strip s) = py_strip s"
proof (cases "py_strip s = []")
  case False
  define l where "l = py_lstrip s"
  have l: "l \<noteq> []" using False by (auto simp: py_strip_def l_def py_rstrip_def)
  then have h: "\<not> is_space (hd l)" using hd_dropWhile [of is_space s] by (simp add: l_def py_lstrip_def)
  have "l = py_rstrip l @ rev (takeWhile is_space (rev l))"
    by (metis py_rstrip_def rev_append rev_rev_ident takeWhile_dropWhile_id)
  then have "hd (py_strip s) = hd l" using False by (metis hd_append2 l_def py_strip_def)
  with h False py_rstrip_last [of l] show ?thesis by (intro py_strip_id) (simp add: py_strip_def l_def)
qed (simp add: py_strip_id)

lemma py_words_join:
  assumes "\<And>w. w \<in> set ws \<Longrightarrow> w \<noteq> [] \<and> list_all (\<lambda>c. \<not> is_space c) w"
  shows "py_words (py_join '' '' ws) = ws"
  using assms
proof (induction ws)
  case (Cons w ws)
  then have w: "w \<noteq> []" "list_all (\<lambda>c. \<not> is_space c) w" by auto
  have sp: "is_space CHR '' ''" by (simp add: is_space_def)
  show ?case
  proof (cases ws)
    case Nil
    with py_words_word [OF w, of "[]"] show ?thesis by simp
  next
    case (Cons v vs)
    have "py_join '' '' (w # ws) = w @ CHR '' '' # py_join '' '' ws" using Cons by simp
    with py_words_word [OF w, of "CHR '' '' # py_join '' '' ws"] sp Cons.IH Cons.prems show ?thesis by simp
  qed
qed simp

lemma quotes_free_join: "(\<And>w. w \<in> set ws \<Longrightarrow> quotes_free w) \<Longrightarrow> quotes_free (py_join '' '' ws)"
proof (induction ws)
  case (Cons w ws)
  then show ?case by (cases ws) (auto simp: quotes_free_def)
qed (simp add: quotes_free_def)

lemma quotes_free_subset: "quotes_free s \<Longrightarrow> set t \<subseteq> set s \<Longrightarrow> quotes_free t"
  by (auto simp: quotes_free_def)

lemma show_int_chars: "c \<in> set (show_int i) \<Longrightarrow> is_digit c \<or> c = CHR ''-''"
  using show_nat_digits by (auto simp: show_int_def list_all_iff split: if_splits)

lemma quotes_free_show_int: "quotes_free (show_int i)"
  using show_int_chars [of "CHR 0x27" i] show_int_chars [of DQUOTE i] by (auto simp: quotes_free_def is_digit_def)

lemma show_int_word: "show_int i \<noteq> [] \<and> list_all (\<lambda>c. \<not> is_space c) (show_int i)"
proof
  show "show_int i \<noteq> []" using show_nat_digits by (simp add: show_int_def)
  have "\<not> is_space CHR ''-''" by (simp add: is_space_def)
  then show "list_all (\<lambda>c. \<not> is_space c) (show_int i)"
    using show_int_chars [of _ i] is_digit_not_space by (auto simp: list_all_iff)
qed

lemma py_int_show_int [simp]: "py_int (show_int i) = Inr i"
proof (cases "i < 0")
  case True
  define n where "n = nat (- i)"
  have "list_all is_digit (show_nat n)" "show_nat n \<noteq> []" using show_nat_digits by auto
  then have l: "\<not> is_space (hd (show_nat n))" "\<not> is_space (last (show_nat n))"
    using is_digit_not_space by (auto simp: list_all_iff)
  have s: "py_strip (CHR ''-'' # show_nat n) = CHR ''-'' # show_nat n"
    by (rule py_strip_id) (use l \<open>show_nat n \<noteq> []\<close> in \<open>simp add: is_space_def\<close>)
  have "py_lstrip (show_nat n) = show_nat n" using l by (intro py_lstrip_id) simp
  then have "py_int (CHR ''-'' # show_nat n) = Inr (- int n)" by (simp add: py_int_def s)
  with True show ?thesis by (simp add: show_int_def n_def)
qed (simp add: show_int_def)

text \<open>The options that are printed as they are read: all but the paths, the ranges and the version.\<close>

definition read_back_pairs :: "(converter \<times> formatter) list" where
  "read_back_pairs = [(Unquote, Fmt_quote), (Unquote, Fmt_nop), (Lowunquote, Fmt_quote), (Integer, Fmt_nop), (Boolean, Fmt_lower),
     (Syslog, Fmt_syslog), (Methods, Fmt_list), (Ports, Fmt_list), (Services, Fmt_services), (User, Fmt_quote),
     (Redirector_protocol, Fmt_quote)]"

lemma to_lower_idem [simp]: "to_lower (to_lower c) = to_lower c"
proof (cases "65 \<le> (of_char c :: nat) \<and> (of_char c :: nat) \<le> 90")
  case True
  then have "to_lower c = char_of (of_char c + 32 :: nat)" by (simp add: to_lower_def Let_def)
  moreover have "of_char (char_of (of_char c + 32 :: nat) :: char) = (of_char c + 32 :: nat)" using True by simp
  ultimately show ?thesis using True by (simp add: to_lower_def Let_def)
qed (auto simp: to_lower_def Let_def)

lemma to_upper_idem [simp]: "to_upper (to_upper c) = to_upper c"
proof (cases "97 \<le> (of_char c :: nat) \<and> (of_char c :: nat) \<le> 122")
  case True
  then have "to_upper c = char_of (of_char c - 32 :: nat)" by (simp add: to_upper_def Let_def)
  moreover have "of_char c - 32 < (256 :: nat)" using True by arith
  then have "of_char (char_of (of_char c - 32 :: nat) :: char) = (of_char c - 32 :: nat)" by simp
  moreover have "\<not> 97 \<le> (of_char c - 32 :: nat)" using True by arith
  ultimately show ?thesis using True by (simp add: to_upper_def Let_def)
qed (auto simp: to_upper_def Let_def)

lemma to_lower_quote: "to_lower c = q \<Longrightarrow> q \<in> {CHR 0x27, DQUOTE} \<Longrightarrow> c = q"
proof -
  assume l: "to_lower c = q" and q: "q \<in> {CHR 0x27, DQUOTE}"
  have n: "of_char q = (39 :: nat) \<or> of_char q = (34 :: nat)" using q by auto
  show ?thesis
  proof (rule ccontr)
    assume "c \<noteq> q"
    with l have r: "65 \<le> (of_char c :: nat)" "(of_char c :: nat) \<le> 90" "q = char_of (of_char c + 32 :: nat)"
      by (auto simp: to_lower_def Let_def split: if_splits)
    then have "of_char q = (of_char c + 32 :: nat)" by simp
    with n r show False by simp
  qed
qed

lemma to_upper_quote: "to_upper c = q \<Longrightarrow> q \<in> {CHR 0x27, DQUOTE} \<Longrightarrow> c = q"
proof -
  assume l: "to_upper c = q" and q: "q \<in> {CHR 0x27, DQUOTE}"
  have n: "of_char q = (39 :: nat) \<or> of_char q = (34 :: nat)" using q by auto
  show ?thesis
  proof (rule ccontr)
    assume "c \<noteq> q"
    with l have r: "97 \<le> (of_char c :: nat)" "(of_char c :: nat) \<le> 122" "q = char_of (of_char c - 32 :: nat)"
      by (auto simp: to_upper_def Let_def split: if_splits)
    moreover have "of_char c - 32 < (256 :: nat)" using r(2) by arith
    ultimately have "of_char q = (of_char c - 32 :: nat)" by simp
    with n r(1,2) show False by arith
  qed
qed

lemma quotes_free_lower: "quotes_free s \<Longrightarrow> quotes_free (py_lower s)"
  using to_lower_quote by (fastforce simp: quotes_free_def py_lower_def)

lemma quotes_free_upper: "quotes_free s \<Longrightarrow> quotes_free (py_upper s)"
  using to_upper_quote by (fastforce simp: quotes_free_def py_upper_def)

text \<open>A word of an upper case text is in upper case.\<close>

lemma py_upper_word: "w \<in> set (py_words (py_upper s)) \<Longrightarrow> py_upper w = w"
proof -
  assume "w \<in> set (py_words (py_upper s))"
  then have "set w \<subseteq> to_upper ` set s" using set_py_words by (fastforce simp: py_upper_def)
  then show ?thesis unfolding py_upper_def by (intro map_idI) auto
qed

lemma py_upper_join:
  "(\<And>w. w \<in> set ws \<Longrightarrow> py_upper w = w) \<Longrightarrow> py_upper (py_join '' '' ws) = py_join '' '' ws"
proof (induction ws)
  case (Cons w ws)
  have sp: "to_upper CHR '' '' = CHR '' ''" by code_simp
  from Cons show ?case by (cases ws) (auto simp: py_upper_def sp)
qed (simp add: py_upper_def)

lemma conf_service_read_back:
  assumes "conf_service w = Inr (host, port)" "w \<noteq> []" "list_all (\<lambda>c. \<not> is_space c) w"
  shows "conf_service (host @ CHR '':'' # show_int port) = Inr (host, port)
    \<and> list_all (\<lambda>c. \<not> is_space c) (host @ CHR '':'' # show_int port)"
proof -
  obtain p where s: "split_on CHR '':'' w = [host, p]"
    using assms(1) by (auto simp: conf_service_def two_parts_def seq_eq_Inr_iff split: list.splits)
  have h: "CHR '':'' \<notin> set host" using s split_on_notin [of host "CHR '':''" w] by simp
  have "CHR '':'' \<notin> set (show_int port)" using show_int_chars [of "CHR '':''" port] by (auto simp: is_digit_def)
  then have "split_on CHR '':'' (host @ CHR '':'' # show_int port) = [host, show_int port]" using h by (simp add: split_on_id)
  then have c: "conf_service (host @ CHR '':'' # show_int port) = Inr (host, port)" by (simp add: conf_service_def two_parts_def)
  have "set host \<subseteq> set w" using set_split_on [of host "CHR '':''" w] s by simp
  then have "list_all (\<lambda>c. \<not> is_space c) host" using assms(3) by (auto simp: list_all_iff)
  moreover have "\<not> is_space CHR '':''" by (simp add: is_space_def)
  ultimately show ?thesis using c show_int_word [of port] by (auto simp: list_all_iff)
qed

lemma join_ends:
  assumes "ws \<noteq> []" "\<And>w. w \<in> set ws \<Longrightarrow> w \<noteq> []"
  shows "py_join '' '' ws \<noteq> [] \<and> hd (py_join '' '' ws) = hd (hd ws) \<and> last (py_join '' '' ws) = last (last ws)"
  using assms
proof (induction ws)
  case (Cons w ws)
  then show ?case by (cases ws) auto
qed simp

lemma printed_words:
  assumes "\<And>w. w \<in> set ws \<Longrightarrow> w \<noteq> [] \<and> list_all (\<lambda>c. \<not> is_space c) w \<and> quotes_free w"
  shows "py_words (py_join '' '' ws) = ws" "conf_unquote (quoted (py_join '' '' ws)) = py_join '' '' ws"
    "conf_unquote (py_join '' '' ws) = py_join '' '' ws"
proof -
  have q: "quotes_free (py_join '' '' ws)" by (rule quotes_free_join) (use assms in blast)
  then show "conf_unquote (quoted (py_join '' '' ws)) = py_join '' '' ws" by (rule unquote_quoted)
  show "py_words (py_join '' '' ws) = ws" by (rule py_words_join) (use assms in blast)
  have "py_strip (py_join '' '' ws) = py_join '' '' ws"
  proof (rule py_strip_id, cases "ws = []")
    case False
    then have "hd ws \<in> set ws" "last ws \<in> set ws" by simp_all
    with assms [of "hd ws"] assms [of "last ws"] have "\<not> is_space (hd (hd ws))" "\<not> is_space (last (last ws))"
      by (auto simp: list_all_iff)
    with join_ends [of ws] assms False
    show "py_join '' '' ws = [] \<or> \<not> is_space (hd (py_join '' '' ws)) \<and> \<not> is_space (last (py_join '' '' ws))" by simp
  qed simp
  with unquote_id [OF q] show "conf_unquote (py_join '' '' ws) = py_join '' '' ws" by simp
qed

lemma read_back_words:
  assumes "convert env Methods s = Inr v" "quotes_free s"
  shows "\<exists>p. format_value env Fmt_list v = Some (Inr p) \<and> convert env Methods (conf_unquote p) = Inr v"
proof -
  let ?ws = "py_words (py_upper s)"
  have q: "w \<noteq> [] \<and> list_all (\<lambda>c. \<not> is_space c) w \<and> quotes_free w" if "w \<in> set ?ws" for w
    using py_words_no_space [OF that] quotes_free_subset [OF quotes_free_upper [OF assms(2)] set_py_words [OF that]] by simp
  have u: "py_upper (py_join '' '' ?ws) = py_join '' '' ?ws" by (rule py_upper_join) (rule py_upper_word)
  from assms(1) have v: "v = Word_list ?ws" by simp
  show ?thesis using printed_words [of ?ws, OF q] u by (simp add: v)
qed

lemma read_back_ports:
  assumes "convert env Ports s = Inr v"
  shows "\<exists>p. format_value env Fmt_list v = Some (Inr p) \<and> convert env Ports (conf_unquote p) = Inr v"
proof -
  from assms obtain ns where v: "v = Port_list ns" by (auto simp: seq_eq_Inr_iff)
  have q: "w \<noteq> [] \<and> list_all (\<lambda>c. \<not> is_space c) w \<and> quotes_free w" if "w \<in> set (map show_int ns)" for w
    using that show_int_word quotes_free_show_int by auto
  have "map_res py_int (map show_int ns) = Inr ns" by (induction ns) simp_all
  with printed_words [of "map show_int ns", OF q] show ?thesis by (simp add: v)
qed

lemma read_back_services:
  assumes "convert env Services s = Inr v" "quotes_free s"
  shows "\<exists>p. format_value env Fmt_services v = Some (Inr p) \<and> convert env Services (conf_unquote p) = Inr v"
proof -
  from assms obtain l where l: "map_res conf_service (py_words (conf_unquote s)) = Inr l" and v: "v = Service_list l"
    by (auto simp: seq_eq_Inr_iff)
  let ?f = "\<lambda>(host, port). host @ CHR '':'' # show_int port"
  have qs: "quotes_free (conf_unquote s)"
    by (rule quotes_free_subset [OF assms(2)]) (simp add: unquote_id [OF assms(2)] set_py_strip)
  have e: "conf_service (?f x) = Inr x \<and> ?f x \<noteq> [] \<and> list_all (\<lambda>c. \<not> is_space c) (?f x) \<and> quotes_free (?f x)" if xm: "x \<in> set l" for x
  proof -
    obtain host port where x: "x = (host, port)" by (cases x)
    obtain w where w: "w \<in> set (py_words (conf_unquote s))" "conf_service w = Inr (host, port)"
      using map_res_member [OF l xm] x by auto
    have "quotes_free w" by (rule quotes_free_subset [OF qs set_py_words [OF w(1)]])
    moreover have "set host \<subseteq> set w"
      using w(2) set_split_on [of host "CHR '':''" w] by (auto simp: conf_service_def two_parts_def seq_eq_Inr_iff split: list.splits)
    ultimately have "quotes_free host" by (rule quotes_free_subset)
    then have "quotes_free (?f x)" using quotes_free_show_int [of port] x by (auto simp: quotes_free_def)
    with conf_service_read_back [OF w(2)] py_words_no_space [OF w(1)] x show ?thesis by simp
  qed
  have "map_res conf_service (map ?f l) = Inr l" using e by (induction l) auto
  moreover have "\<And>w. w \<in> set (map ?f l) \<Longrightarrow> w \<noteq> [] \<and> list_all (\<lambda>c. \<not> is_space c) w \<and> quotes_free w" using e by auto
  ultimately show ?thesis using printed_words [of "map ?f l"] by (simp add: v)
qed

lemma quoted_text: "quotes_free t \<Longrightarrow> format_value env Fmt_quote (Text_value t) = Some (Inr (quoted t)) \<and> conf_unquote (quoted t) = t"
  by (simp add: unquote_quoted)

lemma quotes_free_strip: "quotes_free s \<Longrightarrow> quotes_free (py_strip s)"
  by (rule quotes_free_subset [OF _ set_py_strip])

lemma is_space_lower: "is_space (to_lower c) = is_space c"
proof (cases "65 \<le> (of_char c :: nat) \<and> (of_char c :: nat) \<le> 90")
  case True
  then have "to_lower c = char_of (of_char c + 32 :: nat)" by (simp add: to_lower_def Let_def)
  moreover have "of_char (char_of (of_char c + 32 :: nat) :: char) = (of_char c + 32 :: nat)" using True by simp
  ultimately have n: "of_char (to_lower c) = (of_char c + 32 :: nat)" by simp
  have "\<not> is_space d" if "of_char d \<ge> (65 :: nat)" for d using that by (auto simp: is_space_def)
  with n True show ?thesis by simp
qed (auto simp: to_lower_def Let_def)

lemma py_strip_lower: "py_strip (py_lower s) = py_lower (py_strip s)"
  by (simp add: py_strip_def py_rstrip_def py_lstrip_def py_lower_def dropWhile_map rev_map comp_def is_space_lower)

lemma boolean_read_back:
  "conf_unquote (py_lower ''True'') = ''true'' \<and> conf_unquote (py_lower ''False'') = ''false''
    \<and> py_lower ''true'' = ''true'' \<and> py_lower ''false'' = ''false''"
  by code_simp

lemma syslog_read_back:
  "list_all (\<lambda>(l, n). map_of (map prod.swap syslog_levels) n = Some l \<and> conf_unquote l = l \<and> map_of syslog_levels l = Some n) syslog_levels"
  by code_simp

lemma read_back_options:
  "\<forall>(section, ods) \<in> set application_defaults. \<forall>(option, conv, fmt, dflt) \<in> set ods.
     (conv, fmt) \<in> set read_back_pairs \<or> fmt = Fmt_path \<or> fmt = Fmt_ranges \<or> section = ''proxy''"
  by (simp add: application_defaults_def read_back_pairs_def daemon_defaults_def debug_defaults_def dns_defaults_def http_defaults_def icap_defaults_def log_defaults_def passthrough_defaults_def profile_defaults_def proxy_defaults_def redirector_defaults_def security_defaults_def tcp4_defaults_def tcp6_defaults_def tls_defaults_def usage_defaults_def web_defaults_def)



end
