(* ===== verification/LogMessages.thy ===== *)
theory LogMessages
  imports PyStr
begin

text \<open>
  \<open>lib/exaproxy/util/log/\<close>: the loggers, the store of messages between them and the writers, the history that
  the web page shows, and where a writer writes. Times are numbers; how they are shown is a parameter.
\<close>

section \<open>Messages\<close>

type_synonym log_message = "string \<times> int \<times> nat \<times> string"

text \<open>\<open>MessageStore\<close>: what is read is taken away.\<close>

definition addMessage :: "log_message \<Rightarrow> log_message list \<Rightarrow> log_message list" where
  "addMessage m queue = queue @ [m]"

definition readMessages :: "log_message list \<Rightarrow> log_message list \<times> log_message list" where
  "readMessages queue = (queue, [])"

text \<open>\<open>_History\<close>.\<close>

definition history_record :: "nat \<Rightarrow> log_message \<Rightarrow> log_message list \<Rightarrow> log_message list" where
  "history_record n m messages =
     (let ms = messages @ [m] in if length ms > n then tl ms else ms)"

definition history_limit :: nat where "history_limit = 1000"

section \<open>Loggers\<close>

record logger =
  lg_name :: string
  lg_active :: bool
  lg_loglevel :: int

record log_state =
  lo_mailbox :: "log_message list"
  lo_history :: "log_message list"

definition logger_log :: "logger \<Rightarrow> nat \<Rightarrow> string \<Rightarrow> int \<Rightarrow> log_state \<Rightarrow> bool option \<times> log_state" where
  "logger_log lg now msg loglevel st =
     (let m = (lg_name lg, loglevel, now, msg);
          st1 = st\<lparr>lo_history := history_record history_limit m (lo_history st)\<rparr>
      in if lg_active lg \<and> loglevel \<ge> lg_loglevel lg
         then (Some True, st1\<lparr>lo_mailbox := addMessage m (lo_mailbox st1)\<rparr>)
         else (None, st1))"

text \<open>The operations of a logger, and the level each uses.\<close>

datatype severity = Sev_debug | Sev_info | Sev_notice | Sev_warning | Sev_error | Sev_critical | Sev_alert | Sev_emergency

fun severity_level :: "severity \<Rightarrow> int" where
  "severity_level Sev_debug = 10"
| "severity_level Sev_info = 20"
| "severity_level Sev_notice = 20"
| "severity_level Sev_warning = 30"
| "severity_level Sev_error = 40"
| "severity_level Sev_critical = 50"
| "severity_level Sev_alert = 30"
| "severity_level Sev_emergency = 50"

definition logger_call :: "logger \<Rightarrow> nat \<Rightarrow> severity \<Rightarrow> string \<Rightarrow> log_state \<Rightarrow> log_state" where
  "logger_call lg now sev msg st = snd (logger_log lg now msg (severity_level sev) st)"

text \<open>\<open>Level.name\<close>.\<close>

definition level_name :: "int \<Rightarrow> string" where
  "level_name level =
     (if level = 10 then ''debug'' else if level = 20 then ''info'' else if level = 30 then ''warning''
      else if level = 40 then ''error'' else if level = 50 then ''critical'' else ''UNKNOWN'')"

text \<open>\<open>UsageLogger.logRequest\<close>: \<open>stamp\<close> is the date and the seconds.\<close>

record usage =
  us_client_id :: string
  us_accept_ip :: string
  us_client_ip :: string
  us_command :: string
  us_url :: string
  us_status :: string
  us_destination :: string

definition usage_line :: "(nat \<Rightarrow> string) \<Rightarrow> nat \<Rightarrow> usage \<Rightarrow> string" where
  "usage_line stamp now u =
     stamp now @ '' '' @ py_join '' '' [us_client_id u, us_accept_ip u, us_client_ip u, us_command u, us_url u,
       us_status u @ ''/'' @ us_destination u]"

definition logRequest :: "(nat \<Rightarrow> string) \<Rightarrow> logger \<Rightarrow> nat \<Rightarrow> usage \<Rightarrow> log_state \<Rightarrow> bool option \<times> log_state" where
  "logRequest stamp lg now u st = (if lg_active lg then logger_log lg now (usage_line stamp now u) 20 st else (None, st))"

section \<open>Writers\<close>

text \<open>
  \<open>lw_syslog\<close> is the level of the logger of the module \<open>logging\<close> that a \<open>SysLogWriter\<close> writes to, set when it is made and
  never again; a \<open>DebugLogWriter\<close> writes to a file and has none.
\<close>

record log_writer =
  lw_active :: bool
  lw_level :: int
  lw_backup :: "(bool \<times> int) option"
  lw_pid :: nat
  lw_syslog :: "int option"

definition SysLogWriter_init :: "nat \<Rightarrow> bool \<Rightarrow> int \<Rightarrow> log_writer" where
  "SysLogWriter_init pid active level =
     \<lparr>lw_active = active, lw_level = level, lw_backup = None, lw_pid = pid, lw_syslog = Some level\<rparr>"

definition DebugLogWriter_init :: "nat \<Rightarrow> bool \<Rightarrow> int \<Rightarrow> log_writer" where
  "DebugLogWriter_init pid active level =
     \<lparr>lw_active = active, lw_level = level, lw_backup = None, lw_pid = pid, lw_syslog = None\<rparr>"

text \<open>The identifier all writers share.\<close>

definition setIdentifier :: "string \<Rightarrow> string list \<Rightarrow> string list" where
  "setIdentifier identifier gidentifier = tl (gidentifier @ [identifier])"

definition getIdentifier :: "string list \<Rightarrow> string res" where
  "getIdentifier gidentifier = py_first gidentifier"

definition toggleDebug :: "log_writer \<Rightarrow> log_writer" where
  "toggleDebug w =
     (case lw_backup w of
        Some (active, level) \<Rightarrow> w\<lparr>lw_backup := None, lw_active := active, lw_level := level\<rparr>
      | None \<Rightarrow> w\<lparr>lw_backup := Some (lw_active w, lw_level w), lw_active := True, lw_level := 10\<rparr>)"

definition ljust :: "nat \<Rightarrow> string \<Rightarrow> string" where
  "ljust n s = s @ replicate (n - length s) CHR '' ''"

text \<open>
  \<open>formatMessage\<close> of the two writers. A template in which the date, the identifier or the name has a \<open>%\<close> is
  formatted by \<open>percent\<close>.
\<close>

definition syslog_format :: "string \<Rightarrow> log_writer \<Rightarrow> log_message \<Rightarrow> string res" where
  "syslog_format identifier w m =
     (case m of (name, level, now, msg) \<Rightarrow>
       Inr (py_join '' '' [identifier, ljust 6 (show_nat (lw_pid w)), ljust 13 name, msg]))"

definition debug_format :: "(string \<Rightarrow> string \<Rightarrow> string res) \<Rightarrow> (nat \<Rightarrow> string) \<Rightarrow> string \<Rightarrow> log_writer \<Rightarrow> log_message \<Rightarrow> string res" where
  "debug_format percent date identifier w m =
     (case m of (name, level, now, msg) \<Rightarrow>
       let template = py_join '' '' [date now, identifier, ljust 6 (show_nat (lw_pid w)), ljust 10 (level_name level), ljust 13 name, []]
       in seq (map_res (\<lambda>line. if CHR ''%'' \<in> set template then percent template line else Inr (template @ line)) (split_on LF msg))
            (\<lambda>ls. Inr (py_join [LF] ls)))"

text \<open>
  \<open>writeMessage\<close>: what comes out, with its level. The logger of a \<open>SysLogWriter\<close> drops what is below its own level.
\<close>

definition writeMessage :: "log_writer \<Rightarrow> int \<Rightarrow> string \<Rightarrow> (int \<times> string) list" where
  "writeMessage w level text' =
     (case lw_syslog w of
        None \<Rightarrow> [(level, text')]
      | Some syslog_level \<Rightarrow> if level \<ge> syslog_level then [(level, text')] else [])"

text \<open>
  \<open>writeMessages\<close>: what comes out, the exception that ends the loop, if any, and the store, from which all the
  messages are taken before the first is formatted.
\<close>

fun write_each :: "(log_message \<Rightarrow> string res) \<Rightarrow> log_writer \<Rightarrow> log_message list \<Rightarrow> (int \<times> string) list \<times> py_error option" where
  "write_each formatMessage w [] = ([], None)"
| "write_each formatMessage w (m # ms) =
     (case formatMessage m of
        Inl err \<Rightarrow> ([], Some err)
      | Inr s \<Rightarrow>
          let (out, err) = write_each formatMessage w ms in (writeMessage w (fst (snd m)) s @ out, err))"

definition writeMessages :: "(log_message \<Rightarrow> string res) \<Rightarrow> log_writer \<Rightarrow> log_state \<Rightarrow>
    ((int \<times> string) list \<times> py_error option) \<times> log_state" where
  "writeMessages formatMessage w st =
     (let (messages, rest) = readMessages (lo_mailbox st);
          ms = (if lw_active w then filter (\<lambda>(n, l, t, m). l \<ge> lw_level w) messages else [])
      in (write_each formatMessage w ms, st\<lparr>lo_mailbox := rest\<rparr>))"

section \<open>Where the logs go\<close>

datatype log_handler = Stream_handler | Syslog_path string | Syslog_host string int | Rotating_file string

text \<open>\<open>getHandler\<close>; \<open>address\<close> has no value when the port of \<open>host:\<close> is no number.\<close>

definition getHandler :: "string \<Rightarrow> (string \<Rightarrow> bool) \<Rightarrow> string \<Rightarrow> log_handler res" where
  "getHandler platform exists dest =
     (if dest \<in> {''stdout'', ''stderr''} then Inr Stream_handler
      else if dest = [] then
        let address = (if platform = ''darwin'' then ''/var/run/syslog'' else ''/dev/log'') in
        Inr (if \<not> exists address then Syslog_host ''localhost'' 514 else Syslog_path address)
      else if prefix ''host:'' (py_lower dest) then
        (if CHR '':'' \<in> set (drop 5 dest) then
           (case py_split1 '':'' (py_strip dest) of
              None \<Rightarrow> Inl ValueError
            | Some (host, port) \<Rightarrow>
                if py_isdigit (py_strip port)
                then seq (py_int (py_strip port)) (\<lambda>n. Inr (Syslog_host (py_rstrip host) n))
                else Inl UnboundLocalError)
         else Inr (Syslog_host (py_strip (drop 5 dest)) 514))
      else Inr (Rotating_file dest))"

section \<open>Runs\<close>

text \<open>
  Loggers log, and from time to time the writer of the supervisor, a \<open>SysLogWriter\<close>, writes or has its debugging
  toggled (by a signal). What comes out, the exception of the last write, the writer and the state.
\<close>

datatype log_event = Logs logger nat severity string | Writes | Toggles

fun log_run :: "string \<Rightarrow> log_event list \<Rightarrow> log_writer \<Rightarrow> log_state \<Rightarrow>
    (int \<times> string) list \<times> py_error option \<times> log_writer \<times> log_state" where
  "log_run identifier [] w st = ([], None, w, st)"
| "log_run identifier (Logs lg now sev msg # es) w st = log_run identifier es w (logger_call lg now sev msg st)"
| "log_run identifier (Toggles # es) w st = log_run identifier es (toggleDebug w) st"
| "log_run identifier (Writes # es) w st =
     (let ((out, err), st1) = writeMessages (syslog_format identifier w) w st in
      if err \<noteq> None then (out, err, w, st1)
      else let (outs, r) = log_run identifier es w st1 in (out @ outs, r))"

text \<open>What was said, and what of it the loggers accept.\<close>

fun said :: "log_event list \<Rightarrow> log_message list" where
  "said [] = []"
| "said (Logs lg now sev msg # es) = (lg_name lg, severity_level sev, now, msg) # said es"
| "said (_ # es) = said es"

fun accepted :: "log_event list \<Rightarrow> log_message list" where
  "accepted [] = []"
| "accepted (Logs lg now sev msg # es) =
     (if lg_active lg \<and> severity_level sev \<ge> lg_loglevel lg then [(lg_name lg, severity_level sev, now, msg)] else []) @ accepted es"
| "accepted (_ # es) = accepted es"

text \<open>The line of a message in the log, and the lines of those at a level or above.\<close>

definition syslog_line :: "string \<Rightarrow> nat \<Rightarrow> log_message \<Rightarrow> int \<times> string" where
  "syslog_line identifier pid m =
     (case m of (name, level, now, msg) \<Rightarrow> (level, py_join '' '' [identifier, ljust 6 (show_nat pid), ljust 13 name, msg]))"

definition lines_from :: "string \<Rightarrow> nat \<Rightarrow> int \<Rightarrow> log_message list \<Rightarrow> (int \<times> string) list" where
  "lines_from identifier pid level ms = map (syslog_line identifier pid) (filter (\<lambda>(_, l, _, _). l \<ge> level) ms)"

lemma lines_from_append [simp]: "lines_from i p n (xs @ ys) = lines_from i p n xs @ lines_from i p n ys"
  by (simp add: lines_from_def)

lemma lines_from_Nil [simp]: "lines_from i p n [] = []"
  by (simp add: lines_from_def)

text \<open>The writer of the supervisor, its debugging toggled or not. Its logger decides what comes out.\<close>

definition syslog_writer :: "nat \<Rightarrow> int \<Rightarrow> log_writer \<Rightarrow> bool" where
  "syslog_writer pid level w \<longleftrightarrow>
     w = SysLogWriter_init pid True level
     \<or> w = (SysLogWriter_init pid True level)\<lparr>lw_backup := Some (True, level), lw_level := 10\<rparr>"

lemma syslog_writer_toggle: "syslog_writer pid level w \<Longrightarrow> syslog_writer pid level (toggleDebug w)"
  by (auto simp: syslog_writer_def toggleDebug_def SysLogWriter_init_def)

lemma write_each_lines:
  assumes "lw_syslog w = Some level" "lw_pid w = pid"
  shows "write_each (syslog_format identifier w) w ms = (lines_from identifier pid level ms, None)"
  using assms
  by (induction ms) (auto simp: syslog_format_def writeMessage_def lines_from_def syslog_line_def)

lemma writeMessages_lines:
  assumes "syslog_writer pid level w" "level \<ge> 10"
  shows "writeMessages (syslog_format identifier w) w st = ((lines_from identifier pid level (lo_mailbox st), None), st\<lparr>lo_mailbox := []\<rparr>)"
proof -
  have w: "lw_syslog w = Some level" "lw_pid w = pid" "lw_active w" "lw_level w \<le> level"
    using assms by (auto simp: syslog_writer_def SysLogWriter_init_def)
  have "lines_from identifier pid level (filter (\<lambda>(n, l, t, m). lw_level w \<le> l) ms) = lines_from identifier pid level ms" for ms
    using w(4) by (induction ms) (auto simp: lines_from_def)
  then show ?thesis using w(3) by (simp add: writeMessages_def readMessages_def write_each_lines [OF w(1,2)])
qed

lemma log_run_lines:
  assumes "level \<ge> 10"
  shows "syslog_writer pid level w \<Longrightarrow>
    \<exists>w' st'. log_run ident (es @ [Writes]) w st
        = (lines_from ident pid level (lo_mailbox st @ accepted es), None, w', st') \<and> lo_mailbox st' = []"
proof (induction es arbitrary: w st)
  case Nil
  then show ?case using writeMessages_lines [OF Nil assms] by simp
next
  case (Cons e es)
  show ?case
  proof (cases e)
    case (Logs lg now sev msg)
    with Cons.IH [OF Cons.prems, of "logger_call lg now sev msg st"] show ?thesis
      by (auto simp: logger_call_def logger_log_def addMessage_def Let_def)
  next
    case Writes
    with Cons.IH [OF Cons.prems, of "st\<lparr>lo_mailbox := []\<rparr>"] show ?thesis
      by (auto simp: writeMessages_lines [OF Cons.prems assms])
  next
    case Toggles
    with Cons.IH [OF syslog_writer_toggle [OF Cons.prems], of st] show ?thesis by simp
  qed
qed

text \<open>C33: The writer of the supervisor, made enabled with a level of the configuration: every message that its logger accepts and whose level is at least that level comes out exactly once, in the order in which it was said, by the next write, and nothing else ever does; after a write nothing is left and no write raises. Toggling the debugging of the writer, however often and whenever, changes nothing of it: the logger of the module logging keeps the level it was given.\<close>

theorem messages_written:
  assumes "level \<ge> 10"
  shows "\<exists>w' st'. log_run ident (es @ [Writes]) (SysLogWriter_init pid True level) \<lparr>lo_mailbox = [], lo_history = h\<rparr>
        = (lines_from ident pid level (accepted es), None, w', st') \<and> lo_mailbox st' = []"
  using log_run_lines [OF assms, where pid = pid and w = "SysLogWriter_init pid True level" and ident = ident and es = es
      and st = "\<lparr>lo_mailbox = [], lo_history = h\<rparr>"]
  by (simp add: syslog_writer_def)

definition example_log :: "log_event list" where
  "example_log =
     [Logs \<lparr>lg_name = ''web'', lg_active = True, lg_loglevel = 10\<rparr> 1 Sev_debug ''one'', Toggles,
      Logs \<lparr>lg_name = ''dns'', lg_active = False, lg_loglevel = 10\<rparr> 2 Sev_error ''two'', Writes,
      Logs \<lparr>lg_name = ''web'', lg_active = True, lg_loglevel = 10\<rparr> 3 Sev_info ''three'',
      Logs \<lparr>lg_name = ''web'', lg_active = True, lg_loglevel = 10\<rparr> 4 Sev_critical ''four'']"

theorem messages_written_witness:
  "\<exists>w' st'. log_run ''ExaProxy'' (example_log @ [Writes]) (SysLogWriter_init 7 True 40) \<lparr>lo_mailbox = [], lo_history = []\<rparr>
     = ([(50, ''ExaProxy 7      web           four'')], None, w', st')"
proof -
  have "lines_from ''ExaProxy'' 7 40 (accepted example_log) = [(50, ''ExaProxy 7      web           four'')]" by code_simp
  with messages_written [of 40 "''ExaProxy''" example_log 7 "[]"] show ?thesis by auto
qed

text \<open>The history holds the last thousand messages said, whoever accepts them, in order.\<close>

theorem log_history_bounded:
  "lo_history (snd (snd (snd (log_run identifier es w \<lparr>lo_mailbox = q, lo_history = []\<rparr>)))) = drop (length (said es) - history_limit) (said es)"
proof -
  have r: "history_record n m (drop (length old - n) old) = drop (length (old @ [m]) - n) (old @ [m])" for n m and old :: "log_message list"
  proof (cases "length old < n")
    case True
    then show ?thesis by (simp add: history_record_def Let_def)
  next
    case False
    then have e: "drop (length old - n) old @ [m] = drop (length old - n) (old @ [m])" by simp
    have k: "length (old @ [m]) - n = Suc (length old - n)" using False by simp
    have "history_record n m (drop (length old - n) old) = tl (drop (length old - n) (old @ [m]))"
      unfolding history_record_def Let_def e [symmetric] using False by simp
    then show ?thesis unfolding k by (simp only: drop_Suc tl_drop)
  qed
  have "lo_history (snd (snd (snd (log_run identifier es w st)))) = drop (length (old @ said es) - history_limit) (old @ said es)"
    if "lo_history st = drop (length old - history_limit) old" for w st old
    using that
  proof (induction es arbitrary: w st old)
    case (Cons e es)
    show ?case
    proof (cases e)
      case (Logs lg now sev msg)
      let ?m = "(lg_name lg, severity_level sev, now, msg)"
      have "lo_history (logger_call lg now sev msg st) = drop (length (old @ [?m]) - history_limit) (old @ [?m])"
        using Cons.prems r [of history_limit ?m old] by (simp add: logger_call_def logger_log_def Let_def)
      from Cons.IH [OF this] Logs show ?thesis by simp
    next
      case Writes
      have "snd (write_each (syslog_format identifier w) w ms) = None" for ms
        by (induction ms) (auto simp: syslog_format_def split: prod.split)
      then obtain out where w: "writeMessages (syslog_format identifier w) w st = ((out, None), st\<lparr>lo_mailbox := []\<rparr>)"
        by (simp add: writeMessages_def readMessages_def Let_def) (metis prod.collapse)
      have "lo_history (st\<lparr>lo_mailbox := []\<rparr>) = drop (length old - history_limit) old" using Cons.prems by simp
      from Cons.IH [OF this, of w] Writes w show ?thesis
        by (cases "log_run identifier es w (st\<lparr>lo_mailbox := []\<rparr>)") simp
    next
      case Toggles
      with Cons.IH [OF Cons.prems, of "toggleDebug w"] show ?thesis by simp
    qed
  qed simp
  from this [of "\<lparr>lo_mailbox = q, lo_history = []\<rparr>" "[]" w] show ?thesis by simp
qed

text \<open>Toggling twice restores the writer.\<close>

lemma toggleDebug_twice: "lw_backup w = None \<Longrightarrow> toggleDebug (toggleDebug w) = w"
  by (simp add: toggleDebug_def)

lemma py_rstrip_past: "\<not> is_space c \<Longrightarrow> py_rstrip (a @ c # b) = a @ c # py_rstrip b"
  by (auto simp: py_rstrip_def dropWhile_append)

lemma py_strip_keeps: "\<not> is_space c \<Longrightarrow> c \<in> set s \<Longrightarrow> c \<in> set (py_strip s)"
proof -
  assume c: "\<not> is_space c" and "c \<in> set s"
  then obtain a b where s: "s = a @ c # b" using split_list by fast
  have "\<exists>a'. py_lstrip s = a' @ c # b" using c unfolding s py_lstrip_def
    by (cases "\<forall>x \<in> set a. is_space x") (auto simp: dropWhile_append)
  with py_rstrip_past [OF c] show ?thesis by (auto simp: py_strip_def)
qed

text \<open>A host with a port can never be given for the destination of the logs: the part after the first colon, which is the host and the port, is read as the port, and the address has no value.\<close>

theorem log_host_port_raises:
  assumes "CHR '':'' \<in> set rest"
  shows "getHandler platform exists (''host:'' @ rest) = Inl UnboundLocalError"
proof -
  let ?d = "''host:'' @ rest"
  have sp: "\<not> is_space CHR '':''" by (simp add: is_space_def)
  obtain u v where uv: "rest = u @ CHR '':'' # v" using assms split_list by fastforce
  have "py_lstrip ?d = ?d" by (rule py_lstrip_id) (simp add: is_space_def)
  moreover have "?d = (''host:'' @ u) @ CHR '':'' # v" by (simp add: uv)
  ultimately have s: "py_strip ?d = ''host'' @ CHR '':'' # u @ CHR '':'' # py_rstrip v"
    unfolding py_strip_def using py_rstrip_past [OF sp, of "''host:'' @ u" v] by simp
  have p: "py_split1 '':'' (py_strip ?d) = Some (''host'', u @ CHR '':'' # py_rstrip v)"
    unfolding s by (intro py_split1_char) simp
  have "CHR '':'' \<in> set (py_strip (u @ CHR '':'' # py_rstrip v))" by (rule py_strip_keeps [OF sp]) simp
  moreover have "\<not> is_digit CHR '':''" by (simp add: is_digit_def)
  ultimately have "\<not> py_isdigit (py_strip (u @ CHR '':'' # py_rstrip v))" unfolding py_isdigit_def list_all_iff by blast
  moreover have "prefix ''host:'' (py_lower ?d)" "?d \<notin> {''stdout'', ''stderr''}" "?d \<noteq> []" "drop 5 ?d = rest"
    by (simp_all add: py_lower_def to_lower_def)
  ultimately show ?thesis using assms p by (simp add: getHandler_def del: append_Cons)
qed

theorem log_host_port_raises_witness: "getHandler ''linux2'' (\<lambda>_. True) ''host:syslog:514'' = Inl UnboundLocalError"
  using log_host_port_raises [of "''syslog:514''" "''linux2''" "\<lambda>_. True"] by simp

end
