(* ===== verification/WebPage.thy ===== *)
theory WebPage
  imports Supervisor "HOL-Library.Multiset"
begin

text \<open>
  \<open>lib/exaproxy/html/page.py\<close>, \<open>graph.py\<close> and \<open>mail.py\<close>: what the web page of the proxy answers to a path, the
  rows of its graphs, the sources of the connections and the message of its form. The text around them (menus,
  styles, images) is not modelled; sending the message and the introspection of Python objects are parameters.
\<close>

section \<open>Queries\<close>

text \<open>\<open>urllib.unquote\<close>: two hexadecimal digits after a \<open>%\<close>.\<close>

definition unquote_item :: "string \<Rightarrow> string" where
  "unquote_item s =
     (case s of
        a # b # rest \<Rightarrow>
          if a \<in> set hexdigits \<and> b \<in> set hexdigits then char_of (nat_of_hex [a, b]) # rest else CHR ''%'' # s
      | _ \<Rightarrow> CHR ''%'' # s)"

definition py_unquote :: "string \<Rightarrow> string" where
  "py_unquote s = (case split_on CHR ''%'' s of [] \<Rightarrow> [] | w # ws \<Rightarrow> w @ concat (map unquote_item ws))"

definition unquote_plus :: "string \<Rightarrow> string" where
  "unquote_plus s = py_unquote (replace_char CHR ''+'' '' '' s)"

text \<open>\<open>urlparse.parse_qs\<close>: the values of every name, those that are empty left out.\<close>

definition parse_qs :: "string \<Rightarrow> (string \<times> string) list" where
  "parse_qs qs =
     concat (map (\<lambda>nv. case py_split1 ''='' nv of
         Some (n, v) \<Rightarrow> if v = [] then [] else [(unquote_plus n, unquote_plus v)]
       | None \<Rightarrow> [])
       (concat (map (split_on CHR '';'') (split_on CHR ''&'' qs))))"

definition qs_values :: "(string \<times> string) list \<Rightarrow> string \<Rightarrow> string list" where
  "qs_values qs name = map snd (filter (\<lambda>(n, _). n = name) qs)"

section \<open>The message\<close>

definition py_capitalize :: "string \<Rightarrow> string" where
  "py_capitalize s = (case s of [] \<Rightarrow> [] | c # cs \<Rightarrow> to_upper c # py_lower cs)"

text \<open>\<open>formated.pop(name, dflt)\<close>; every name is popped once.\<close>

definition qs_pop :: "(string \<times> string) list \<Rightarrow> string \<Rightarrow> string \<Rightarrow> string" where
  "qs_pop qs name dflt = (let vs = qs_values qs name in if vs = [] then dflt else py_join '','' vs)"

definition mail_message :: "(string \<times> string) list \<Rightarrow> string" where
  "mail_message qs =
     (let employer = qs_pop qs ''employer'' [] in
      py_join '' '' [qs_pop qs ''title'' [], py_capitalize (qs_pop qs ''firstname'' []), py_upper (qs_pop qs ''lastname'' ''-'')]
      @ (if employer \<noteq> [] then '' from '' @ employer else [])
      @ '' said'' @ [LF, LF] @ qs_pop qs ''message'' ''<unset>'' @ [LF])"

datatype mail_reply = Address_needed | Address_invalid | Mail_sent | Mail_failed py_error

text \<open>\<open>mail.send\<close>: \<open>smtp\<close> is the sending of a message from an address.\<close>

definition mail_send :: "(string \<Rightarrow> string \<Rightarrow> unit res) \<Rightarrow> string \<Rightarrow> bool \<times> mail_reply" where
  "mail_send smtp args =
     (let qs = parse_qs args in
      case qs_values qs ''email'' of
        [] \<Rightarrow> (False, Address_needed)
      | from # _ \<Rightarrow>
          if from = [] then (False, Address_needed)
          else if CHR ''@'' \<notin> set from then (False, Address_invalid)
          else (case smtp from (mail_message qs) of Inr _ \<Rightarrow> (True, Mail_sent) | Inl e \<Rightarrow> (False, Mail_failed e)))"

section \<open>Graphs\<close>

record graph_spec =
  gs_title :: string
  gs_keys :: "string list"
  gs_cumulative :: bool
  gs_bits :: bool

text \<open>The graphs of the page: \<open>gs_bits\<close> are those adapted from bytes to bits.\<close>

definition page_graphs :: "(string \<times> graph_spec) list" where
  "page_graphs =
     [(''processes'', \<lparr>gs_title = ''Forked processes'', gs_keys = [''processes.forked'', ''processes.min'', ''processes.max''],
         gs_cumulative = False, gs_bits = False\<rparr>),
      (''connections'', \<lparr>gs_title = ''Connections'',
         gs_keys = [''clients.silent'', ''clients.speaking'', ''servers.opening'', ''servers.established''],
         gs_cumulative = False, gs_bits = False\<rparr>),
      (''servers'', \<lparr>gs_title = ''Bits/seconds received from servers'', gs_keys = [''transfer.content4'', ''transfer.content6''],
         gs_cumulative = True, gs_bits = True\<rparr>),
      (''clients'', \<lparr>gs_title = ''Bits/seconds received from clients'', gs_keys = [''transfer.client4'', ''transfer.client6''],
         gs_cumulative = True, gs_bits = True\<rparr>),
      (''transfered'', \<lparr>gs_title = ''Bits/seconds received'', gs_keys = [''transfer.client'', ''transfer.content''],
         gs_cumulative = True, gs_bits = True\<rparr>),
      (''requests'', \<lparr>gs_title = ''Requests/seconds received from clients'', gs_keys = [''clients.requests''],
         gs_cumulative = True, gs_bits = False\<rparr>),
      (''loops'', \<lparr>gs_title = ''Reactor loops'', gs_keys = [''load.loops''], gs_cumulative = True, gs_bits = False\<rparr>),
      (''events'', \<lparr>gs_title = ''Sockets which became readeable'', gs_keys = [''load.events''],
         gs_cumulative = True, gs_bits = False\<rparr>),
      (''queue'', \<lparr>gs_title = ''Queued URL for classification'', gs_keys = [''queue.size''],
         gs_cumulative = True, gs_bits = False\<rparr>)]"

definition Bpstobps :: "int \<Rightarrow> int" where
  "Bpstobps nbbytes = nbbytes * 8"

definition adapt :: "graph_spec \<Rightarrow> int \<Rightarrow> int" where
  "adapt g n = (if gs_bits g then Bpstobps n else n)"

text \<open>The values of a record; no key of a graph is that of \<open>pid.saved\<close>, whose value may be \<open>None\<close>.\<close>

definition stat_value :: "statistics \<Rightarrow> string \<Rightarrow> int res" where
  "stat_value stats k = (case stats k of None \<Rightarrow> Inl KeyError | Some None \<Rightarrow> Inl TypeError | Some (Some n) \<Rightarrow> Inr n)"

text \<open>The loop over the records: the rows, each an index and a value for each key.\<close>

fun chart_rows :: "graph_spec \<Rightarrow> int \<Rightarrow> statistics list \<Rightarrow> nat \<Rightarrow> int list \<Rightarrow> (nat \<times> int list) list res" where
  "chart_rows g ratio [] index before = Inr []"
| "chart_rows g ratio (stats # datasource) index before =
     seq (map_res (stat_value stats) (gs_keys g)) (\<lambda>new.
       let row = (if gs_cumulative g then map (\<lambda>(n, l). max 0 (adapt g (n - l) div ratio)) (zip new before) else map (adapt g) new) in
       seq (chart_rows g ratio datasource (index + 1) (if gs_cumulative g then new else before)) (\<lambda>rows. Inr ((index, row) # rows)))"

definition graph_rows :: "graph_spec \<Rightarrow> int \<Rightarrow> statistics list \<Rightarrow> (nat \<times> int list) list res" where
  "graph_rows g ratio datasource =
     (let top = nb_recorded - length datasource in
      seq (chart_rows g ratio datasource top (replicate (length (gs_keys g)) 0)) (\<lambda>chart.
      Inr (map (\<lambda>i. (i, replicate (length (gs_keys g)) 0)) [0..<top] @ (if gs_cumulative g \<and> chart \<noteq> [] then tl chart else chart))))"

text \<open>A page has the rows of the seconds and of the minutes.\<close>

definition graph_page :: "graph_spec \<Rightarrow> monitor \<Rightarrow> ((nat \<times> int list) list \<times> (nat \<times> int list) list) res" where
  "graph_page g mo =
     seq (graph_rows g 1 (mo_seconds mo)) (\<lambda>s. seq (graph_rows g 60 (mo_minutes mo)) (\<lambda>m. Inr (s, m)))"

section \<open>The sources of connections\<close>

text \<open>
  \<open>_source\<close>: the hosts (\<open>None\<close> when \<open>getpeername\<close> raises) with the number of their connections, the largest
  first; \<open>hosts\<close> is the order in which the dictionary of the hosts gives its keys.
\<close>

definition source_lines :: "string option list \<Rightarrow> string option list \<Rightarrow> (string option \<times> nat) list" where
  "source_lines hosts peers =
     concat (map (\<lambda>number. map (\<lambda>host. (host, number)) (filter (\<lambda>host. count_list peers host = number) hosts))
       (rev (sort (remdups (map (count_list peers) hosts)))))"

section \<open>Paths\<close>

datatype fragment =
    Index
  | Introspection "string list"
  | Configuration_page
  | Statistics_page
  | Graph_of string
  | Servers_source
  | Clients_source
  | Workers_form int int string
  | Debug_form
  | Not_enabled
  | Email_form
  | Email_reply mail_reply
  | Email_once
  | Licence
  | Humans_html
  | Path_too_long
  | Invalid_url

datatype web_reply =
    In_menu fragment
  | Json_running
  | Json_configuration
  | Json_error
  | Logs_text
  | Errs_text
  | Humans_txt
  | Exec_python string
  | Eval_python string

text \<open>
  The page: whether Python may be run, whether a message was sent, and the limits of \<open>supervisor.manager\<close>, if
  the supervisor has such an attribute.
\<close>

record web_page =
  wp_debug :: bool
  wp_email_sent :: bool
  wp_manager :: "(int \<times> int) option"

definition page_sections :: "string \<Rightarrow> string list" where
  "page_sections path = split_on SEP path @ [[]]"

definition other_paths :: "string list" where
  "other_paths = [''/json'', ''/json/running'', ''/json/configuration'', ''/control/workers/commit'', ''/control/debug/eval'',
     ''/control/debug/exec'']"

definition workers :: "web_page \<Rightarrow> string \<Rightarrow> (web_reply \<times> web_page) res" where
  "workers wp note = seq (or_raise AttributeError (wp_manager wp)) (\<lambda>(low, high). Inr (In_menu (Workers_form low high note), wp))"

definition workers_commit :: "string \<Rightarrow> web_page \<Rightarrow> (web_reply \<times> web_page) res" where
  "workers_commit args wp =
     (case py_split1 ''='' args of
        None \<Rightarrow> workers wp ''invalid request''
      | Some (key, v) \<Rightarrow>
          if key = ''exaproxy.redirector.minimum'' \<and> py_isdigit v then
            seq (py_int v) (\<lambda>setting. seq (or_raise AttributeError (wp_manager wp)) (\<lambda>(low, high).
              if setting > high then workers wp ''value is higher than exaproxy.redirector.maximum''
              else workers (wp\<lparr>wp_manager := Some (setting, high)\<rparr>) ''changed successfully''))
          else if key = ''exaproxy.redirector.maximum'' \<and> py_isdigit v then
            seq (py_int v) (\<lambda>setting. seq (or_raise AttributeError (wp_manager wp)) (\<lambda>(low, high).
              if setting < low then workers wp ''value is lower than exaproxy.redirector.minimum''
              else workers (wp\<lparr>wp_manager := Some (low, setting)\<rparr>) ''changed successfully''))
          else workers wp ''invalid request'')"

text \<open>The code in the query: \<open>None\<close> when there is no \<open>=\<close>.\<close>

definition python_command :: "string \<Rightarrow> string option" where
  "python_command args = map_option (\<lambda>(_, v). unquote_plus v) (py_split1 ''='' args)"

definition page_control :: "string option \<Rightarrow> string \<Rightarrow> string \<Rightarrow> web_page \<Rightarrow> (web_reply \<times> web_page) res" where
  "page_control action subsection args wp =
     (if subsection = ''debug'' then
        Inr (if \<not> wp_debug wp then In_menu Not_enabled
             else case (action, python_command args) of
               (Some a, Some c) \<Rightarrow>
                 if a = ''exec'' then Exec_python c else if a = ''eval'' then Eval_python c else In_menu Debug_form
             | _ \<Rightarrow> In_menu Debug_form, wp)
      else if subsection = ''workers'' then
        (if action = Some ''commit'' then workers_commit args wp else workers wp [])
      else Inr (In_menu Index, wp))"

definition page_information :: "string \<Rightarrow> string list \<Rightarrow> web_reply" where
  "page_information subsection sections =
     (if subsection = ''introspection'' then In_menu (Introspection (butlast (drop 2 sections)))
      else if subsection = ''configuration'' then In_menu Configuration_page
      else if subsection = ''statistics'' then In_menu Statistics_page
      else if subsection = ''logs'' then Logs_text
      else if subsection = ''errs'' then Errs_text
      else In_menu Index)"

definition page_about :: "(string \<Rightarrow> bool \<times> mail_reply) \<Rightarrow> string \<Rightarrow> string \<Rightarrow> web_page \<Rightarrow> web_reply \<times> web_page" where
  "page_about send subsection args wp =
     (if subsection = ''email'' then
        (if args \<noteq> [] then
           (if wp_email_sent wp then (In_menu Email_once, wp)
            else case send args of (sent, reply) \<Rightarrow> (In_menu (Email_reply reply), wp\<lparr>wp_email_sent := sent\<rparr>))
         else (In_menu Email_form, wp))
      else if subsection = ''licence'' then (In_menu Licence, wp)
      else (In_menu Index, wp))"

definition page_section :: "(string \<Rightarrow> bool \<times> mail_reply) \<Rightarrow> string list \<Rightarrow> string \<Rightarrow> web_page \<Rightarrow> (web_reply \<times> web_page) res" where
  "page_section send sections args wp =
     (let section' = sections ! 0; subsection = sections ! 1 in
      if section' = [] then Inr (In_menu Index, wp)
      else if section' = ''json'' then
        Inr (if subsection = ''running'' then Json_running
             else if subsection = ''configuration'' then Json_configuration else Json_error, wp)
      else if section' = ''index'' then Inr (In_menu Index, wp)
      else if section' = ''information'' then Inr (page_information subsection sections, wp)
      else if section' = ''graph'' then
        Inr (if subsection \<in> set (map fst page_graphs) then In_menu (Graph_of subsection) else In_menu Index, wp)
      else if section' = ''end-point'' then
        Inr (if subsection = ''servers'' then In_menu Servers_source
             else if subsection = ''clients'' then In_menu Clients_source else In_menu Index, wp)
      else if section' = ''control'' then
        page_control (if length sections > 2 then Some (sections ! 2) else None) subsection args wp
      else if section' = ''about'' then Inr (page_about send subsection args wp)
      else if section' = ''humans'' then Inr (In_menu Humans_html, wp)
      else Inr (In_menu Index, wp))"

text \<open>\<open>html(path)\<close>; \<open>send\<close> is \<open>mail.send\<close>.\<close>

definition page_html :: "(string \<Rightarrow> bool \<times> mail_reply) \<Rightarrow> string \<Rightarrow> web_page \<Rightarrow> (web_reply \<times> web_page) res" where
  "page_html send path wp =
     (if length path > 5000 then Inr (In_menu Path_too_long, wp)
      else
        let (p, args) =
          (if path = ''/'' then (''/index.html'', [])
           else case py_split1 ''?'' path of Some (a, b) \<Rightarrow> (a, b) | None \<Rightarrow> (path, []))
        in
        if \<not> prefix ''/'' p then Inr (In_menu Invalid_url, wp)
        else if \<not> suffix ''.html'' p then
          (if p = ''/humans.txt'' then Inr (Humans_txt, wp)
           else if p \<notin> set other_paths then Inr (In_menu Invalid_url, wp)
           else page_section send (page_sections (tl p)) args wp)
        else page_section send (page_sections (tl (take (length p - 5) p))) args wp)"

section \<open>Who may run Python\<close>

text \<open>The path whose first two sections are known begins with them.\<close>

lemma sections_prefix:
  assumes "page_sections s ! 0 = a" "page_sections s ! 1 = b" "b \<noteq> []"
  shows "prefix (a @ SEP # b) s"
proof -
  obtain w ws where w: "split_on SEP s = w # ws" by (cases "split_on SEP s") auto
  with assms have "w = a" by (simp add: page_sections_def)
  moreover obtain vs where "ws = b # vs" using assms w by (cases ws) (auto simp: page_sections_def)
  ultimately have "split_on SEP s = a # b # vs" using w by simp
  then have "s = py_join [SEP] (a # b # vs)" by (metis py_join_split_on)
  then show ?thesis by (cases vs) auto
qed

text \<open>What \<open>html\<close> does with a path: an answer of its own, or the sections of a prefix of the path.\<close>

lemma page_html_cases:
  obtains (own) r where "page_html send path wp = Inr (r, wp)" "\<And>c. r \<noteq> Exec_python c" "\<And>c. r \<noteq> Eval_python c"
      "\<And>m. r \<noteq> In_menu (Email_reply m)"
  | (sections) s args where "page_html send path wp = page_section send (page_sections s) args wp"
      "prefix (SEP # s) path" "args = [] \<or> (\<exists>p. path = p @ CHR ''?'' # args \<and> prefix (SEP # s) p)" "path \<noteq> ''/''"
  | (root) "path = ''/''" "page_html send path wp = page_section send (page_sections ''index'') [] wp"
proof -
  show ?thesis
  proof (cases "length path > 5000")
    case True
    show ?thesis by (rule own [of "In_menu Path_too_long"]) (simp_all add: page_html_def True)
  next
    case short: False
    show ?thesis
    proof (cases "path = ''/''")
      case True
      have "page_html send ''/'' wp = page_section send (page_sections ''index'') [] wp"
        by (simp add: page_html_def suffix_def)
      with root True show ?thesis by blast
    next
      case False
      obtain p args where pa: "(case py_split1 ''?'' path of Some (a, b) \<Rightarrow> (a, b) | None \<Rightarrow> (path, [])) = (p, args)"
        by (cases "case py_split1 ''?'' path of Some (a, b) \<Rightarrow> (a, b) | None \<Rightarrow> (path, [])")
      have form: "(path = p \<and> args = []) \<or> path = p @ CHR ''?'' # args"
        using pa by (auto split: option.splits dest: py_split1_Some)
      have h: "page_html send path wp =
          (if \<not> prefix ''/'' p then Inr (In_menu Invalid_url, wp)
           else if \<not> suffix ''.html'' p then
             (if p = ''/humans.txt'' then Inr (Humans_txt, wp)
              else if p \<notin> set other_paths then Inr (In_menu Invalid_url, wp)
              else page_section send (page_sections (tl p)) args wp)
           else page_section send (page_sections (tl (take (length p - 5) p))) args wp)"
        using short False pa by (simp add: page_html_def)
      show ?thesis
      proof (cases "prefix ''/'' p \<and> (suffix ''.html'' p \<or> p \<noteq> ''/humans.txt'' \<and> p \<in> set other_paths)")
        case no: False
        show ?thesis
          by (rule own [of "if prefix ''/'' p \<and> p = ''/humans.txt'' \<and> \<not> suffix ''.html'' p then Humans_txt else In_menu Invalid_url"])
            (use no h in \<open>auto split: if_splits\<close>)
      next
        case yes: True
        define s where "s = (if suffix ''.html'' p then tl (take (length p - 5) p) else tl p)"
        have e: "page_html send path wp = page_section send (page_sections s) args wp" using h yes by (auto simp: s_def)
        obtain q where q: "p = SEP # q" using yes by (auto simp: prefix_def)
        have "prefix (SEP # s) p"
        proof (cases "suffix ''.html'' p")
          case True
          then obtain u where u: "p = u @ ''.html''" by (auto simp: suffix_def)
          with q obtain v where "u = SEP # v" by (cases u) auto
          with u True show ?thesis by (simp add: s_def)
        next
          case False
          with q show ?thesis by (simp add: s_def)
        qed
        with e form False show ?thesis using sections by (metis prefix_prefix)
      qed
    qed
  qed
qed

text \<open>C11: The web page runs Python code, and then the code of the query, only for a path under \<open>/control/debug\<close> and when the configuration enables it.\<close>

theorem python_needs_debug:
  assumes "page_html send path wp = Inr (r, wp')" "r = Exec_python code \<or> r = Eval_python code"
  shows "wp_debug wp \<and> (\<exists>p args. path = p @ CHR ''?'' # args \<and> prefix ''/control/debug'' p \<and> python_command args = Some code)"
proof (cases rule: page_html_cases [of send path wp])
  case (own r')
  with assms show ?thesis by auto
next
  case root
  with assms show ?thesis by (auto simp: page_sections_def page_section_def)
next
  case (sections s args)
  let ?ss = "page_sections s"
  from assms sections(1) have r: "page_section send ?ss args wp = Inr (r, wp')" by simp
  then have c: "?ss ! 0 = ''control''"
    using assms(2) by (auto simp: page_section_def page_information_def page_about_def Let_def split: if_splits prod.splits)
  from r c have pc: "page_control (if length ?ss > 2 then Some (?ss ! 2) else None) (?ss ! 1) args wp = Inr (r, wp')"
    by (simp add: page_section_def Let_def)
  have w: "workers wp'' msg \<noteq> Inr (r, wp')" for wp'' msg
    using assms(2) by (auto simp: workers_def seq_eq_Inr_iff)
  have "workers_commit args wp \<noteq> Inr (r, wp')"
    using w by (auto simp: workers_commit_def seq_eq_Inr_iff split: option.splits prod.splits if_splits)
  with pc w have d: "?ss ! 1 = ''debug''" using assms(2) by (auto simp: page_control_def split: if_splits)
  from pc d assms(2) have g: "wp_debug wp" "python_command args = Some code"
    by (auto simp: page_control_def split: if_splits option.splits)
  then have "args \<noteq> []" by (auto simp: python_command_def)
  then obtain p where p: "path = p @ CHR ''?'' # args" "prefix (SEP # s) p" using sections(3) by auto
  have "prefix (''control'' @ SEP # ''debug'') s" by (rule sections_prefix [OF c d]) simp
  then have "prefix ''/control/debug'' (SEP # s)" by simp
  then have "prefix ''/control/debug'' p" using p(2) by (rule prefix_order.trans)
  with g p(1) show ?thesis by blast
qed

theorem python_needs_debug_witness:
  "\<exists>p args. ''/control/debug/eval?python=1%2B1'' = p @ CHR ''?'' # args \<and> prefix ''/control/debug'' p \<and> python_command args = Some ''1+1''"
proof -
  let ?wp = "\<lparr>wp_debug = True, wp_email_sent = False, wp_manager = None\<rparr>"
  have "page_html (\<lambda>_. (False, Address_needed)) ''/control/debug/eval?python=1%2B1'' ?wp = Inr (Eval_python ''1+1'', ?wp)"
    by code_simp
  from python_needs_debug [OF this] show ?thesis by blast
qed

section \<open>What raises\<close>

text \<open>Only the pages of the workers raise: the supervisor has no \<open>manager\<close> to read the limits from.\<close>

theorem page_error:
  assumes "page_html send path wp = Inl e"
  shows "e = AttributeError \<and> wp_manager wp = None \<and> prefix ''/control/workers'' path"
proof (cases rule: page_html_cases [of send path wp])
  case (own r')
  with assms show ?thesis by simp
next
  case root
  with assms show ?thesis by (auto simp: page_sections_def page_section_def)
next
  case (sections s args)
  let ?ss = "page_sections s"
  from assms sections(1) have r: "page_section send ?ss args wp = Inl e" by simp
  then have c: "?ss ! 0 = ''control''" by (auto simp: page_section_def Let_def split: if_splits)
  from r c have pc: "page_control (if length ?ss > 2 then Some (?ss ! 2) else None) (?ss ! 1) args wp = Inl e"
    by (simp add: page_section_def Let_def)
  then have d: "?ss ! 1 = ''workers''" by (auto simp: page_control_def split: if_splits)
  have w: "e = AttributeError \<and> wp_manager wp'' = None" if "workers wp'' msg = Inl e" for wp'' msg
    using that by (auto simp: workers_def seq_eq_Inl_iff or_raise_def split: option.splits)
  have "e = AttributeError \<and> wp_manager wp = None" if "workers_commit args wp = Inl e"
    using that by (auto simp: workers_commit_def seq_eq_Inl_iff or_raise_def py_int_digits dest!: w split: option.splits prod.splits if_splits)
  with pc d w have e: "e = AttributeError \<and> wp_manager wp = None" by (auto simp: page_control_def split: if_splits)
  have "prefix (''control'' @ SEP # ''workers'') s" by (rule sections_prefix [OF c d]) simp
  then have "prefix ''/control/workers'' (SEP # s)" by simp
  then have "prefix ''/control/workers'' path" using sections(2) by (rule prefix_order.trans)
  with e show ?thesis by blast
qed

theorem page_error_witness:
  "page_html (\<lambda>_. (False, Address_needed)) ''/control/workers.html'' \<lparr>wp_debug = False, wp_email_sent = False, wp_manager = None\<rparr> = Inl AttributeError
    \<and> prefix ''/control/workers'' ''/control/workers.html''"
proof -
  have h: "page_html (\<lambda>_. (False, Address_needed)) ''/control/workers.html'' \<lparr>wp_debug = False, wp_email_sent = False, wp_manager = None\<rparr>
      = Inl AttributeError" by code_simp
  from page_error [OF h] h show ?thesis by blast
qed

section \<open>Requests of the page in sequence\<close>

fun page_run :: "(string \<Rightarrow> bool \<times> mail_reply) \<Rightarrow> string list \<Rightarrow> web_page \<Rightarrow> web_reply list \<times> web_page" where
  "page_run send [] wp = ([], wp)"
| "page_run send (path # paths) wp =
     (case page_html send path wp of
        Inl _ \<Rightarrow> page_run send paths wp
      | Inr (r, wp1) \<Rightarrow> (let (rs, wp2) = page_run send paths wp1 in (r # rs, wp2)))"

lemma page_sends:
  assumes "page_html (mail_send smtp) path wp = Inr (r, wp')"
  shows "(wp_email_sent wp \<longrightarrow> wp_email_sent wp' \<and> r \<noteq> In_menu (Email_reply Mail_sent))
    \<and> (r = In_menu (Email_reply Mail_sent) \<longrightarrow> wp_email_sent wp')"
proof -
  have ms: "fst (mail_send smtp args) \<longleftrightarrow> snd (mail_send smtp args) = Mail_sent" for args
    by (auto simp: mail_send_def Let_def split: list.splits sum.splits)
  have w: "wp_email_sent wp2 = wp_email_sent wp1 \<and> r2 \<noteq> In_menu (Email_reply Mail_sent)" if "workers wp1 msg = Inr (r2, wp2)" for wp1 wp2 r2 msg
    using that by (auto simp: workers_def seq_eq_Inr_iff)
  have wc: "wp_email_sent wp2 = wp_email_sent wp1 \<and> r2 \<noteq> In_menu (Email_reply Mail_sent)" if "workers_commit args wp1 = Inr (r2, wp2)" for args wp1 wp2 r2
    using that by (auto simp: workers_commit_def seq_eq_Inr_iff dest!: w split: option.splits prod.splits if_splits)
  have pc: "wp_email_sent wp2 = wp_email_sent wp1 \<and> r2 \<noteq> In_menu (Email_reply Mail_sent)" if "page_control a sub args wp1 = Inr (r2, wp2)" for a sub args wp1 wp2 r2
    using that by (auto simp: page_control_def dest: w wc split: if_splits option.splits)
  have ab: "(wp_email_sent wp \<longrightarrow> wp_email_sent wp' \<and> r \<noteq> In_menu (Email_reply Mail_sent))
      \<and> (r = In_menu (Email_reply Mail_sent) \<longrightarrow> wp_email_sent wp')"
    if "page_about (mail_send smtp) sub args wp = (r, wp')" for sub args
    using that ms [of args] by (auto simp: page_about_def split: if_splits prod.splits)
  have ps: "(wp_email_sent wp \<longrightarrow> wp_email_sent wp' \<and> r \<noteq> In_menu (Email_reply Mail_sent))
      \<and> (r = In_menu (Email_reply Mail_sent) \<longrightarrow> wp_email_sent wp')"
    if "page_section (mail_send smtp) ss args wp = Inr (r, wp')" for ss args
    using that pc [of _ _ args wp r wp'] ab [of "ss ! 1" args]
    by (auto simp: page_section_def page_information_def Let_def split: if_splits)
  show ?thesis
    by (cases rule: page_html_cases [of "mail_send smtp" path wp]) (use assms ps in auto)
qed

text \<open>However many requests the page gets, at most one message is sent.\<close>

theorem one_email:
  "count_list (fst (page_run (mail_send smtp) paths wp)) (In_menu (Email_reply Mail_sent)) \<le> 1"
proof -
  have "count_list (fst (page_run (mail_send smtp) paths wp)) (In_menu (Email_reply Mail_sent)) \<le> (if wp_email_sent wp then 0 else 1)"
  proof (induction paths arbitrary: wp)
    case (Cons path paths)
    show ?case
    proof (cases "page_html (mail_send smtp) path wp")
      case (Inl e)
      with Cons show ?thesis by simp
    next
      case (Inr x)
      obtain r wp1 where x: "x = (r, wp1)" by (cases x)
      with Inr have h: "page_html (mail_send smtp) path wp = Inr (r, wp1)" by simp
      obtain rs wp2 where rs: "page_run (mail_send smtp) paths wp1 = (rs, wp2)" by (cases "page_run (mail_send smtp) paths wp1")
      from page_sends [OF h] Cons.IH [of wp1] h rs show ?thesis by (auto split: if_splits)
    qed
  qed simp
  then show ?thesis by (simp split: if_splits)
qed

section \<open>The graphs\<close>

text \<open>What is recorded: statistics of the proxy.\<close>

lemma statistics_keys:
  assumes "(name, g) \<in> set page_graphs" "k \<in> set (gs_keys g)"
  shows "\<exists>n. stat_value (monitor_statistics pid stats r) k = Inr n"
proof -
  have "k \<in> {''processes.forked'', ''processes.min'', ''processes.max'', ''clients.silent'', ''clients.speaking'', ''servers.opening'',
      ''servers.established'', ''transfer.content4'', ''transfer.content6'', ''transfer.client4'', ''transfer.client6'',
      ''transfer.client'', ''transfer.content'', ''clients.requests'', ''load.loops'', ''load.events'', ''queue.size''}"
    using assms by (auto simp: page_graphs_def)
  then show ?thesis
    by (elim insertE emptyE; simp add: stat_value_def monitor_statistics_def Let_def split: option.splits prod.splits)
qed

lemma stat_values:
  assumes "(name, g) \<in> set page_graphs" "stats = monitor_statistics pid st r"
  shows "\<exists>ns. map_res (stat_value stats) (gs_keys g) = Inr ns"
proof -
  have "map_res (stat_value stats) (gs_keys g) = Inr (map (\<lambda>k. projr (stat_value stats k)) (gs_keys g))"
    by (rule map_res_Inr) (use statistics_keys [OF assms(1)] assms(2) in \<open>metis sum.sel(2)\<close>)
  then show ?thesis by blast
qed

lemma chart_rows_index:
  assumes "(name, g) \<in> set page_graphs"
    and "\<And>stats. stats \<in> set ds \<Longrightarrow> \<exists>pid st r. stats = monitor_statistics pid st (r :: ('c, 'm, 'p) reactor)"
  shows "\<exists>rows. chart_rows g ratio ds index before = Inr rows \<and> map fst rows = [index..<index + length ds]"
  using assms(2)
proof (induction ds arbitrary: index before)
  case (Cons stats ds)
  obtain pid st and r :: "('c, 'm, 'p) reactor" where "stats = monitor_statistics pid st r" using Cons.prems [of stats] by auto
  from stat_values [OF assms(1) this] obtain ns where ns: "map_res (stat_value stats) (gs_keys g) = Inr ns" by blast
  have u: "[index..<index + length (stats # ds)] = index # [index + 1..<index + 1 + length ds]"
    using upt_rec [of index "index + length (stats # ds)"] by simp
  have "\<exists>rows. chart_rows g ratio ds (index + 1) b = Inr rows \<and> map fst rows = [index + 1..<index + 1 + length ds]" for b
    by (rule Cons.IH) (rule Cons.prems, simp)
  from this [of "if gs_cumulative g then ns else before"] ns u show ?case by (auto simp: Let_def)
qed simp

text \<open>Every graph of the page can be drawn from what the monitor recorded: the rows are numbered from 0 to 59, without the first record when the graph shows differences.\<close>

theorem graphs_drawn:
  assumes "(name, g) \<in> set page_graphs" "length ds \<le> nb_recorded"
    and "\<And>stats. stats \<in> set ds \<Longrightarrow> \<exists>pid st r. stats = monitor_statistics pid st (r :: ('c, 'm, 'p) reactor)"
  shows "\<exists>rows. graph_rows g ratio ds = Inr rows
    \<and> map fst rows = filter (\<lambda>i. \<not> (gs_cumulative g \<and> ds \<noteq> [] \<and> i = nb_recorded - length ds)) [0..<nb_recorded]"
proof -
  let ?top = "nb_recorded - length ds"
  from chart_rows_index [OF assms(1) assms(3)] obtain rows
    where r: "chart_rows g ratio ds ?top (replicate (length (gs_keys g)) 0) = Inr rows" "map fst rows = [?top..<?top + length ds]"
    by blast
  have u: "[0..<nb_recorded] = [0..<?top] @ [?top..<?top + length ds]" using assms(2) by (metis le0 le_add_diff_inverse2 upt_add_eq_append)
  have low: "filter (\<lambda>i. \<not> (P \<and> i = ?top)) [0..<?top] = [0..<?top]" for P by (rule filter_True) simp
  show ?thesis
  proof (cases "gs_cumulative g \<and> ds \<noteq> []")
    case True
    then have p: "[?top..<?top + length ds] = ?top # [Suc ?top..<?top + length ds]" by (simp add: upt_conv_Cons)
    have "filter (\<lambda>i. i \<noteq> ?top) [Suc ?top..<?top + length ds] = [Suc ?top..<?top + length ds]" by (rule filter_True) auto
    moreover have "rows \<noteq> []" using r(2) p by auto
    moreover have "map fst (tl rows) = [Suc ?top..<?top + length ds]" using r(2) p by (simp add: map_tl)
    ultimately show ?thesis using r(1) True low [of True] by (simp add: graph_rows_def u p comp_def)
  next
    case False
    then have f: "filter (\<lambda>i. \<not> (gs_cumulative g \<and> ds \<noteq> [] \<and> i = ?top)) [0..<nb_recorded] = [0..<nb_recorded]"
      by (intro filter_True) auto
    have "rows = []" if "ds = []" using r(2) that by simp
    with False have "\<not> (gs_cumulative g \<and> rows \<noteq> [])" by blast
    then show ?thesis unfolding f using r u by (auto simp: graph_rows_def comp_def)
  qed
qed

definition example_graph :: graph_spec where
  "example_graph = \<lparr>gs_title = ''Reactor loops'', gs_keys = [''load.loops''], gs_cumulative = True, gs_bits = False\<rparr>"

theorem graphs_drawn_witness:
  "\<exists>rows. graph_rows example_graph 1 [monitor_statistics None None example_reactor] = Inr rows \<and> length rows = 59"
proof -
  have m: "(''loops'', example_graph) \<in> set page_graphs" by (simp add: page_graphs_def example_graph_def)
  have "\<exists>rows. graph_rows example_graph 1 [monitor_statistics None None example_reactor] = Inr rows
      \<and> map fst rows = filter (\<lambda>i. \<not> (gs_cumulative example_graph \<and> [monitor_statistics None None example_reactor] \<noteq> []
          \<and> i = nb_recorded - length [monitor_statistics None None example_reactor])) [0..<nb_recorded]"
    by (rule graphs_drawn [OF m]) (auto simp: nb_recorded_def)
  then obtain rows where r: "graph_rows example_graph 1 [monitor_statistics None None example_reactor] = Inr rows"
    "map fst rows = filter (\<lambda>i. i \<noteq> 59) [0..<60]" by (auto simp: example_graph_def nb_recorded_def)
  have "length (filter (\<lambda>i. i \<noteq> 59) [0..<60 :: nat]) = 59" by code_simp
  with r show ?thesis by (metis length_map)
qed

section \<open>The sources\<close>

lemma sum_filter_values:
  assumes "distinct ns" "\<And>h. h \<in> set hosts \<Longrightarrow> f h \<in> set ns"
  shows "mset (concat (map (\<lambda>n. map (\<lambda>h. (h, n)) (filter (\<lambda>h. f h = n) hosts)) ns)) = mset (map (\<lambda>h. (h, f h)) hosts)"
  using assms(2)
proof (induction hosts)
  case (Cons h hosts)
  have "mset (concat (map (\<lambda>n. map (\<lambda>h. (h, n)) (filter (\<lambda>h. f h = n) (h # hosts))) ms))
      = mset (concat (map (\<lambda>n. map (\<lambda>h. (h, n)) (filter (\<lambda>h. f h = n) hosts)) ms)) + (if f h \<in> set ms then {#(h, f h)#} else {#})"
    if "distinct ms" for ms
    using that by (induction ms) auto
  from this [OF assms(1)] Cons show ?case by simp
qed simp

lemma sorted_map_const: "sorted (map (\<lambda>_. a) xs)"
  by (induction xs) auto

text \<open>The page of the sources names every host once with the number of its connections, the largest numbers first, and the numbers add up to the connections.\<close>

theorem sources_counted:
  assumes "distinct hosts" "set hosts = set peers"
  shows "mset (source_lines hosts peers) = mset (map (\<lambda>h. (h, count_list peers h)) hosts)
    \<and> sorted (rev (map snd (source_lines hosts peers))) \<and> sum_list (map snd (source_lines hosts peers)) = length peers"
proof -
  let ?ns = "rev (sort (remdups (map (count_list peers) hosts)))"
  have m: "mset (source_lines hosts peers) = mset (map (\<lambda>h. (h, count_list peers h)) hosts)"
    unfolding source_lines_def by (rule sum_filter_values) auto
  have s: "sorted (rev (map snd (concat (map (\<lambda>n. map (\<lambda>h. (h, n)) (filter (\<lambda>h. count_list peers h = n) hosts)) ns))))"
    if "sorted (rev ns)" for ns
    using that by (induction ns) (auto simp: sorted_append rev_map comp_def sorted_map_const)
  have "mset (map snd (source_lines hosts peers)) = mset (map (count_list peers) hosts)"
    using arg_cong [OF m, of "image_mset snd"] by (simp add: image_mset.compositionality comp_def)
  then have "sum_list (map snd (source_lines hosts peers)) = sum_list (map (count_list peers) hosts)"
    by (metis sum_mset_sum_list)
  also have "\<dots> = sum (count_list peers) (set hosts)" using assms(1) by (simp add: sum_list_distinct_conv_sum_set)
  also have "\<dots> = length peers" using assms(2) by (simp add: sum_count_set)
  finally show ?thesis using m s [of ?ns] by (simp add: source_lines_def)
qed

theorem sources_counted_witness:
  "sum_list (map snd (source_lines [Some ''a'', None] [Some ''a'', None, Some ''a''])) = 3"
  using sources_counted [of "[Some ''a'', None]" "[Some ''a'', None, Some ''a'']"] by (simp add: insert_commute)

end
