(* ===== verification/Threads.thy ===== *)
theory Threads
  imports MessageBox Complex_Main
begin

text \<open>
  \<open>lib/exaproxy/util/messagequeue.py\<close>, \<open>util/alarm.py\<close> and \<open>reactor/redirector/dispatch.py\<close>: the queue between
  two threads, the thread that sends the requests to the process of the redirectors and the thread of the alarm.
  A thread is a state and what it does next; the interleavings are the steps of a relation. The message boxes of
  \<open>reactor/redirector/messagebox.py\<close> are here too; pickling is a parameter.
\<close>

section \<open>The queue\<close>

definition queue_put :: "'a \<Rightarrow> 'a list \<Rightarrow> 'a list" where
  "queue_put message queue = queue @ [message]"

definition queue_size :: "'a list \<Rightarrow> nat" where
  "queue_size queue = length queue"

definition queue_isempty :: "'a list \<Rightarrow> bool" where
  "queue_isempty queue \<longleftrightarrow> queue_size queue = 0"

text \<open>
  \<open>get\<close>: the first message, or the loop that sleeps and looks again. What it observes is a list: the time when
  it looks at its timeout and the queue after it slept. \<open>Still_waiting\<close> is the delay of the next sleep.
\<close>

datatype 'a queue_result = Got 'a "'a list" | Raises_empty | Still_waiting rat

fun queue_wait :: "rat option \<Rightarrow> rat \<Rightarrow> rat \<Rightarrow> (rat \<times> 'a list) list \<Rightarrow> 'a queue_result" where
  "queue_wait timeout start delay [] = Still_waiting delay"
| "queue_wait timeout start delay ((now, queue) # seen) =
     (if (case timeout of Some t \<Rightarrow> t \<noteq> 0 \<and> now > start + t | None \<Rightarrow> False) then Raises_empty
      else case queue of
        m # rest \<Rightarrow> Got m rest
      | [] \<Rightarrow> queue_wait timeout start (min (1 / 20) (2 * delay)) seen)"

definition queue_get :: "rat option \<Rightarrow> rat \<Rightarrow> 'a list \<Rightarrow> (rat \<times> 'a list) list \<Rightarrow> 'a queue_result" where
  "queue_get timeout start queue seen =
     (case queue of m # rest \<Rightarrow> Got m rest | [] \<Rightarrow> queue_wait timeout start (min (1 / 20) (2 * (5 / 10000))) seen)"

lemma queue_wait_delay: "delay \<le> 1 / 20 \<Longrightarrow> queue_wait timeout start delay seen = Still_waiting d \<Longrightarrow> d \<le> 1 / 20"
  by (induction timeout start delay seen rule: queue_wait.induct) (auto split: if_splits list.splits)

text \<open>A message that is there is taken, the first one; without a timeout nothing is raised.\<close>

lemma queue_get_first: "queue_get timeout start (m # rest) seen = Got m rest"
  by (simp add: queue_get_def)

lemma queue_wait_no_timeout: "queue_wait None start delay seen \<noteq> Raises_empty"
  by (induction "None :: rat option" start delay seen rule: queue_wait.induct) (auto split: list.splits)

section \<open>The message boxes of the redirectors\<close>

text \<open>A box: the bytes to be read, the bytes written and, for the control channel, the next identifier.\<close>

definition proxy_sendRequest :: "('r \<Rightarrow> string) \<Rightarrow> 'r \<Rightarrow> string \<Rightarrow> string" where
  "proxy_sendRequest dumps message pipe = MessageBox_put dumps message pipe"

text \<open>\<open>getDecision\<close>: three parts, each \<open>None\<close> when there is no message.\<close>

definition proxy_getDecision :: "(string \<Rightarrow> ('i \<times> 'c \<times> 'd) option) \<Rightarrow> string \<Rightarrow> (('i option \<times> 'c option \<times> 'd option) \<times> string) option" where
  "proxy_getDecision loads pipe =
     map_option (\<lambda>(message, rest).
       (case message of Some (client_id, command, decision) \<Rightarrow> (Some client_id, Some command, Some decision) | None \<Rightarrow> (None, None, None), rest))
       (MessageBox_get loads pipe)"

definition redirector_getRequest :: "(string \<Rightarrow> 'r option) \<Rightarrow> string \<Rightarrow> ('r option \<times> string) option" where
  "redirector_getRequest = MessageBox_get"

definition redirector_sendResponse :: "(('i \<times> 'c \<times> 'd) \<Rightarrow> string) \<Rightarrow> 'i \<times> 'c \<times> 'd \<Rightarrow> string \<Rightarrow> string" where
  "redirector_sendResponse dumps message pipe = MessageBox_put dumps message pipe"

datatype redirector_command = Stop_redirectors | Respawn | Decrease int | Increase int | Request_stats

text \<open>What is sent on the control channel: \<open>stop\<close>, \<open>respawn\<close>, the limits and the request for statistics.\<close>

fun command_message :: "redirector_command \<Rightarrow> string \<times> int list" where
  "command_message Stop_redirectors = (''STOP'', [])"
| "command_message Respawn = (''RESPAWN'', [])"
| "command_message (Decrease n) = (''DECREASE'', [n])"
| "command_message (Increase n) = (''INCREASE'', [n])"
| "command_message Request_stats = (''STATS'', [])"

definition send_control :: "(int control \<Rightarrow> string) \<Rightarrow> redirector_command \<Rightarrow> nat \<times> string \<Rightarrow> nat \<times> (nat \<times> string)" where
  "send_control dumps c s = (case command_message c of (command, args) \<Rightarrow> ControlBox_send dumps command args s)"

text \<open>\<open>RedirectorDispatcher.readResponse\<close>: the data is one object.\<close>

definition dispatcher_readResponse :: "(string \<Rightarrow> 'd control option) \<Rightarrow> string \<Rightarrow> ((string option \<times> 'd option) res \<times> string) option" where
  "dispatcher_readResponse loads pipe =
     map_option (\<lambda>((command, data), rest).
       (case data of
          None \<Rightarrow> Inl TypeError
        | Some ds \<Rightarrow> (case ds of [d] \<Rightarrow> Inr (command, d) | _ \<Rightarrow> Inl ValueError), rest))
       (ControlBox_receive loads None pipe)"

section \<open>The thread that sends the requests\<close>

datatype 'r dispatch_command = Dispatch_request 'r | Dispatch_stop

record 'r dispatch =
  di_queue :: "'r dispatch_command list"
  di_pipe :: string
  di_running :: bool

definition dispatch_start :: "'r dispatch" where
  "dispatch_start = \<lparr>di_queue = [], di_pipe = [], di_running = True\<rparr>"

text \<open>\<open>sendRequest\<close> and the first line of \<open>stop\<close> put on the queue.\<close>

definition dispatcher_sendRequest :: "'r \<Rightarrow> 'r dispatch \<Rightarrow> 'r dispatch" where
  "dispatcher_sendRequest r d = d\<lparr>di_queue := queue_put (Dispatch_request r) (di_queue d)\<rparr>"

definition dispatcher_stop :: "'r dispatch \<Rightarrow> 'r dispatch" where
  "dispatcher_stop d = d\<lparr>di_queue := queue_put Dispatch_stop (di_queue d)\<rparr>"

text \<open>One iteration of \<open>run\<close>: \<open>None\<close> while the thread waits for the queue, or after it ended.\<close>

definition dispatch_iteration :: "('r \<Rightarrow> string) \<Rightarrow> 'r dispatch \<Rightarrow> 'r dispatch option" where
  "dispatch_iteration dumps d =
     (if \<not> di_running d then None
      else case di_queue d of
        [] \<Rightarrow> None
      | Dispatch_request r # rest \<Rightarrow> Some (d\<lparr>di_queue := rest, di_pipe := MessageBox_put dumps r (di_pipe d)\<rparr>)
      | Dispatch_stop # rest \<Rightarrow> Some (d\<lparr>di_queue := rest, di_running := False\<rparr>))"

text \<open>
  The proxy, the thread and the process of the redirectors in any order; the process reads a message when there
  is one. What was sent before the stop and what was received are kept aside.
\<close>

inductive dispatch_step :: "('r \<Rightarrow> string) \<Rightarrow> (string \<Rightarrow> 'r option) \<Rightarrow> 'r dispatch \<times> bool \<times> 'r list \<times> 'r option list \<Rightarrow>
    'r dispatch \<times> bool \<times> 'r list \<times> 'r option list \<Rightarrow> bool"
  for dumps :: "'r \<Rightarrow> string" and loads :: "string \<Rightarrow> 'r option" where
  sends: "dispatch_step dumps loads (d, stopped, sent, got)
      (dispatcher_sendRequest r d, stopped, if stopped then sent else sent @ [r], got)"
| stops: "dispatch_step dumps loads (d, stopped, sent, got) (dispatcher_stop d, True, sent, got)"
| works: "dispatch_iteration dumps d = Some d' \<Longrightarrow> dispatch_step dumps loads (d, stopped, sent, got) (d', stopped, sent, got)"
| reads: "di_pipe d \<noteq> [] \<Longrightarrow> redirector_getRequest loads (di_pipe d) = Some (m, rest) \<Longrightarrow>
    dispatch_step dumps loads (d, stopped, sent, got) (d\<lparr>di_pipe := rest\<rparr>, stopped, sent, got @ [m])"

inductive_cases dispatch_stepE: "dispatch_step dumps loads (d, stopped, sent, got) s'"

inductive dispatch_reach :: "('r \<Rightarrow> string) \<Rightarrow> (string \<Rightarrow> 'r option) \<Rightarrow> 'r dispatch \<times> bool \<times> 'r list \<times> 'r option list \<Rightarrow> bool"
  for dumps :: "'r \<Rightarrow> string" and loads :: "string \<Rightarrow> 'r option" where
  start: "dispatch_reach dumps loads (dispatch_start, False, [], [])"
| step: "dispatch_reach dumps loads s \<Longrightarrow> dispatch_step dumps loads s s' \<Longrightarrow> dispatch_reach dumps loads s'"

text \<open>The requests on the queue that are before a stop.\<close>

fun before_stop :: "'r dispatch_command list \<Rightarrow> 'r list" where
  "before_stop [] = []"
| "before_stop (Dispatch_request r # q) = r # before_stop q"
| "before_stop (Dispatch_stop # q) = []"

lemma before_stop_request: "before_stop (q @ [Dispatch_request r]) = (if Dispatch_stop \<in> set q then before_stop q else before_stop q @ [r])"
  by (induction q rule: before_stop.induct) auto

lemma before_stop_stop: "before_stop (q @ [Dispatch_stop]) = before_stop q"
  by (induction q rule: before_stop.induct) auto

text \<open>
  The requests are, in order: received, on the pipe, on the queue before a stop. The stop is on the queue or
  was taken from it as soon as it was asked for.
\<close>

definition in_order :: "('r \<Rightarrow> string) \<Rightarrow> 'r dispatch \<times> bool \<times> 'r list \<times> 'r option list \<Rightarrow> bool" where
  "in_order dumps s =
     (case s of (d, stopped, sent, got) \<Rightarrow>
       (\<exists>taken piped. got = map Some taken \<and> di_pipe d = concat (map (put_bytes \<circ> dumps) piped)
         \<and> sent = taken @ piped @ (if di_running d then before_stop (di_queue d) else []))
       \<and> (stopped \<longleftrightarrow> \<not> di_running d \<or> Dispatch_stop \<in> set (di_queue d)))"

lemma in_order_sends: "in_order dumps (d, stopped, sent, got) \<Longrightarrow>
    in_order dumps (dispatcher_sendRequest r d, stopped, if stopped then sent else sent @ [r], got)"
  by (auto simp: in_order_def dispatcher_sendRequest_def queue_put_def before_stop_request)

lemma in_order_stops: "in_order dumps (d, stopped, sent, got) \<Longrightarrow> in_order dumps (dispatcher_stop d, True, sent, got)"
  by (auto simp: in_order_def dispatcher_stop_def queue_put_def before_stop_stop)

lemma in_order_works:
  assumes "in_order dumps (d, stopped, sent, got)" "dispatch_iteration dumps d = Some d'"
  shows "in_order dumps (d', stopped, sent, got)"
proof -
  from assms(1) obtain taken piped where t: "got = map Some taken" "di_pipe d = concat (map (put_bytes \<circ> dumps) piped)"
    "sent = taken @ piped @ (if di_running d then before_stop (di_queue d) else [])"
    and st: "stopped \<longleftrightarrow> \<not> di_running d \<or> Dispatch_stop \<in> set (di_queue d)" by (auto simp: in_order_def)
  from assms(2) have r: "di_running d" by (auto simp: dispatch_iteration_def split: if_splits)
  show ?thesis
  proof (cases "di_queue d")
    case Nil
    with assms(2) show ?thesis by (simp add: dispatch_iteration_def split: if_splits)
  next
    case (Cons c rest)
    show ?thesis
    proof (cases c)
      case (Dispatch_request q)
      with Cons r assms(2) have d': "d' = d\<lparr>di_queue := rest, di_pipe := MessageBox_put dumps q (di_pipe d)\<rparr>"
        by (simp add: dispatch_iteration_def)
      have "di_pipe d' = concat (map (put_bytes \<circ> dumps) (piped @ [q]))" by (simp add: d' MessageBox_put_def t(2))
      moreover have "sent = taken @ (piped @ [q]) @ (if di_running d' then before_stop (di_queue d') else [])"
        using t(3) r Cons Dispatch_request by (simp add: d')
      ultimately show ?thesis unfolding in_order_def prod.case using t(1) st r Cons Dispatch_request d' by (auto simp del: map_append)
    next
      case Dispatch_stop
      with Cons r assms(2) have d': "d' = d\<lparr>di_queue := rest, di_running := False\<rparr>" by (simp add: dispatch_iteration_def)
      show ?thesis unfolding in_order_def prod.case using t st r Cons Dispatch_stop d' by auto
    qed
  qed
qed

lemma in_order_reads:
  assumes "in_order dumps (d, stopped, sent, got)" "\<And>r. loads (dumps r) = Some r"
    and "di_pipe d \<noteq> []" "redirector_getRequest loads (di_pipe d) = Some (m, rest)"
  shows "in_order dumps (d\<lparr>di_pipe := rest\<rparr>, stopped, sent, got @ [m])"
proof -
  from assms(1) obtain taken piped where t: "got = map Some taken" "di_pipe d = concat (map (put_bytes \<circ> dumps) piped)"
    "sent = taken @ piped @ (if di_running d then before_stop (di_queue d) else [])"
    and st: "stopped \<longleftrightarrow> \<not> di_running d \<or> Dispatch_stop \<in> set (di_queue d)" by (auto simp: in_order_def)
  obtain p ps where p: "piped = p # ps" using t(2) assms(3) by (cases piped) auto
  have "MessageReader_read (put_bytes (dumps p) @ concat (map (put_bytes \<circ> dumps) ps)) = Some (Some (dumps p), concat (map (put_bytes \<circ> dumps) ps))"
    by (rule message_read_back)
  with t(2) p assms(2,4) have mr: "m = Some p" "rest = concat (map (put_bytes \<circ> dumps) ps)"
    by (simp_all add: redirector_getRequest_def MessageBox_get_def)
  show ?thesis unfolding in_order_def prod.case
  proof (intro conjI exI)
    show "got @ [m] = map Some (taken @ [p])" using t(1) mr by simp
    show "di_pipe (d\<lparr>di_pipe := rest\<rparr>) = concat (map (put_bytes \<circ> dumps) ps)" using mr by simp
    show "sent = (taken @ [p]) @ ps @ (if di_running (d\<lparr>di_pipe := rest\<rparr>) then before_stop (di_queue (d\<lparr>di_pipe := rest\<rparr>)) else [])"
      using t(3) p by simp
    show "stopped = (\<not> di_running (d\<lparr>di_pipe := rest\<rparr>) \<or> Dispatch_stop \<in> set (di_queue (d\<lparr>di_pipe := rest\<rparr>)))" using st by simp
  qed
qed

lemma in_order_step:
  assumes "dispatch_step dumps loads s s'" "in_order dumps s" "\<And>r. loads (dumps r) = Some r"
  shows "in_order dumps s'"
  using assms(1,2)
proof (induction rule: dispatch_step.induct)
  case (sends d stopped sent got r)
  then show ?case by (rule in_order_sends)
next
  case (stops d stopped sent got)
  then show ?case by (rule in_order_stops)
next
  case (works d d' stopped sent got)
  from in_order_works [OF works(2,1)] show ?case .
next
  case (reads d m rest stopped sent got)
  from in_order_reads [OF reads(3) assms(3) reads(1,2)] show ?case .
qed

lemma in_order_reach:
  assumes "dispatch_reach dumps loads s" "\<And>r. loads (dumps r) = Some r"
  shows "in_order dumps s"
  using assms(1)
proof (induction rule: dispatch_reach.induct)
  case start
  show ?case by (simp add: in_order_def dispatch_start_def)
next
  case (step s s')
  from in_order_step [OF step(2,3) assms(2)] show ?case .
qed

text \<open>C32: Whatever the order in which the proxy, the thread and the process of the redirectors go on, the process receives the requests sent before the stop in order, without loss, repetition or change; when the thread has ended and the pipe is empty it has received all of them.\<close>

theorem dispatcher_delivers:
  assumes "dispatch_reach dumps loads (d, stopped, sent, got)" "\<And>r. loads (dumps r) = Some r"
  shows "prefix got (map Some sent) \<and> (\<not> di_running d \<and> di_pipe d = [] \<longrightarrow> got = map Some sent)"
proof -
  from in_order_reach [OF assms] have "in_order dumps (d, stopped, sent, got)" .
  then obtain taken piped where t: "got = map Some taken" "di_pipe d = concat (map (put_bytes \<circ> dumps) piped)"
    "sent = taken @ piped @ (if di_running d then before_stop (di_queue d) else [])" by (auto simp: in_order_def)
  have "piped = []" if "di_pipe d = []" using t(2) that by (cases piped) (auto simp: put_bytes_def)
  then have all: "got = map Some sent" if "\<not> di_running d" "di_pipe d = []" using t(1,3) that by simp
  have "map Some sent = got @ map Some (piped @ (if di_running d then before_stop (di_queue d) else []))"
    unfolding t(1,3) by simp
  then have "prefix got (map Some sent)" by (rule prefixI)
  with all show ?thesis by blast
qed

theorem dispatcher_delivers_witness:
  "\<exists>d. dispatch_reach (\<lambda>r. r) Some (d, True, [''one''], [Some ''one'']) \<and> \<not> di_running d \<and> di_pipe d = [] \<and> [Some ''one''] = map Some [''one'']"
proof -
  let ?D = "\<lambda>q p r. \<lparr>di_queue = q, di_pipe = p, di_running = r\<rparr>"
  let ?step = "dispatch_step (\<lambda>r :: string. r) Some"
  have s: "dispatch_reach (\<lambda>r. r) Some (?D [] [] True, False, [], [])"
    using dispatch_reach.start [of "\<lambda>r. r" Some] by (simp add: dispatch_start_def)
  have "?step (?D [] [] True, False, [], []) (?D [Dispatch_request ''one''] [] True, False, [''one''], [])"
    using dispatch_step.sends [of "\<lambda>r. r" Some "?D [] [] True" False "[]" "[]" "''one''"]
    by (simp add: dispatcher_sendRequest_def queue_put_def)
  with s have s: "dispatch_reach (\<lambda>r. r) Some (?D [Dispatch_request ''one''] [] True, False, [''one''], [])" by (rule dispatch_reach.step)
  have "?step (?D [Dispatch_request ''one''] [] True, False, [''one''], [])
      (?D [Dispatch_request ''one'', Dispatch_stop] [] True, True, [''one''], [])"
    using dispatch_step.stops [of "\<lambda>r. r" Some "?D [Dispatch_request ''one''] [] True" False "[''one'']" "[]"]
    by (simp add: dispatcher_stop_def queue_put_def)
  with s have s: "dispatch_reach (\<lambda>r. r) Some (?D [Dispatch_request ''one'', Dispatch_stop] [] True, True, [''one''], [])"
    by (rule dispatch_reach.step)
  have "?step (?D [Dispatch_request ''one'', Dispatch_stop] [] True, True, [''one''], [])
      (?D [Dispatch_stop] (put_bytes ''one'') True, True, [''one''], [])"
    by (rule dispatch_step.works) (simp add: dispatch_iteration_def MessageBox_put_def)
  with s have s: "dispatch_reach (\<lambda>r. r) Some (?D [Dispatch_stop] (put_bytes ''one'') True, True, [''one''], [])" by (rule dispatch_reach.step)
  have "?step (?D [Dispatch_stop] (put_bytes ''one'') True, True, [''one''], []) (?D [] (put_bytes ''one'') False, True, [''one''], [])"
    by (rule dispatch_step.works) (simp add: dispatch_iteration_def)
  with s have s: "dispatch_reach (\<lambda>r. r) Some (?D [] (put_bytes ''one'') False, True, [''one''], [])" by (rule dispatch_reach.step)
  have "?step (?D [] (put_bytes ''one'') False, True, [''one''], []) (?D [] (put_bytes ''one'') False\<lparr>di_pipe := []\<rparr>, True, [''one''], [] @ [Some ''one''])"
  proof (rule dispatch_step.reads)
    show "di_pipe (?D [] (put_bytes ''one'') False) \<noteq> []" by (simp add: put_bytes_def)
    show "redirector_getRequest Some (di_pipe (?D [] (put_bytes ''one'') False)) = Some (Some ''one'', [])"
      using message_read_back [of "''one''" "[]"] by (simp add: redirector_getRequest_def MessageBox_get_def)
  qed
  with s have s: "dispatch_reach (\<lambda>r. r) Some (?D [] [] False, True, [''one''], [Some ''one''])"
    using dispatch_reach.step by fastforce
  from dispatcher_delivers [OF s] s show ?thesis by auto
qed

section \<open>The thread of the alarm\<close>

text \<open>
  \<open>Alarm_waits\<close> is the outer \<open>get\<close>, \<open>Alarm_armed t\<close> the inner one, which began to wait at \<open>t\<close>. A command
  that is neither is looked at for ever. An event is a command taken from the queue, or the timeout.
\<close>

datatype alarm_state = Alarm_waits | Alarm_armed rat | Alarm_ended | Alarm_spins

datatype alarm_event = Takes string | Times_out

definition alarm_command :: "rat \<Rightarrow> string \<Rightarrow> alarm_state" where
  "alarm_command now command =
     (if command = ''STOP'' then Alarm_ended else if command = ''ALARM'' then Alarm_armed now else Alarm_spins)"

text \<open>The new state, and whether a message is put; \<open>None\<close> is an event that cannot happen.\<close>

fun alarm_step :: "rat \<Rightarrow> rat \<Rightarrow> alarm_event \<Rightarrow> alarm_state \<Rightarrow> (alarm_state \<times> bool) option" where
  "alarm_step period now (Takes c) Alarm_waits = Some (alarm_command now c, False)"
| "alarm_step period now (Takes c) (Alarm_armed since) = Some (alarm_command now c, False)"
| "alarm_step period now Times_out (Alarm_armed since) = (if now > since + period then Some (Alarm_armed now, True) else None)"
| "alarm_step period now _ _ = None"

fun alarm_run :: "rat \<Rightarrow> (rat \<times> alarm_event) list \<Rightarrow> alarm_state \<Rightarrow> (rat list \<times> alarm_state) option" where
  "alarm_run period [] st = Some ([], st)"
| "alarm_run period ((now, e) # es) st =
     (case alarm_step period now e st of
        None \<Rightarrow> None
      | Some (st1, alarm) \<Rightarrow> map_option (\<lambda>(ts, st2). ((if alarm then [now] else []) @ ts, st2)) (alarm_run period es st1))"

lemma alarm_gaps_from:
  assumes "alarm_run period es st = Some (ts, st')" "sorted (map fst es)" "\<forall>e \<in> set es. since \<le> fst e" "0 \<le> period"
    and "\<And>t. st = Alarm_armed t \<Longrightarrow> since \<le> t"
  shows "(\<forall>t \<in> set ts. t > since + period) \<and> sorted_wrt (\<lambda>a b. b > a + period) ts"
  using assms
proof (induction es arbitrary: st ts since)
  case (Cons x es)
  obtain now e where x: "x = (now, e)" by (cases x)
  with Cons.prems(1) obtain st1 alarm ts1 where s: "alarm_step period now e st = Some (st1, alarm)"
    "alarm_run period es st1 = Some (ts1, st')" "ts = (if alarm then [now] else []) @ ts1"
    by (auto split: option.splits prod.splits)
  have armed: "now \<le> t" if "st1 = Alarm_armed t" for t
    using s(1) that by (cases "(period, now, e, st)" rule: alarm_step.cases) (auto simp: alarm_command_def split: if_splits)
  have "(\<forall>t \<in> set ts1. t > now + period) \<and> sorted_wrt (\<lambda>a b. b > a + period) ts1"
    by (rule Cons.IH [OF s(2)]) (use Cons.prems x armed in auto)
  moreover have "since \<le> now" using Cons.prems(3) x by simp
  moreover have "now > since + period" if "alarm"
  proof -
    from s(1) that obtain t where t: "st = Alarm_armed t" "now > t + period" by (cases e; cases st) (auto split: if_splits)
    with Cons.prems(5) [OF t(1)] show ?thesis by linarith
  qed
  ultimately show ?case using s(3) by fastforce
qed simp

text \<open>Two alarms are more than a period apart, whatever the commands the thread is given; none comes before the first command.\<close>

theorem alarm_periods:
  assumes "alarm_run period es Alarm_waits = Some (ts, st)" "sorted (map fst es)" "0 \<le> period"
  shows "sorted_wrt (\<lambda>a b. b > a + period) ts \<and> (ts \<noteq> [] \<longrightarrow> (\<exists>t \<in> fst ` set es. hd ts > t + period))"
proof (cases es)
  case Nil
  with assms(1) show ?thesis by simp
next
  case (Cons x xs)
  have "(\<forall>t \<in> set ts. t > fst x + period) \<and> sorted_wrt (\<lambda>a b. b > a + period) ts"
    by (rule alarm_gaps_from [OF assms(1,2)]) (use Cons assms(2,3) in auto)
  then show ?thesis using Cons by (auto dest: hd_in_set)
qed

theorem alarm_periods_witness:
  "sorted_wrt (\<lambda>a b. b > a + (1 :: rat)) [3, 5]"
proof -
  have "alarm_run 1 [(1, Takes ''ALARM''), (3, Times_out), (5, Times_out), (6, Takes ''STOP'')] Alarm_waits = Some ([3, 5], Alarm_ended)"
    by (simp add: alarm_command_def)
  from alarm_periods [OF this] show ?thesis by simp
qed

end
