(* ===== verification/Startup.thy ===== *)
theory Startup
  imports Daemon Application
begin

text \<open>
  \<open>lib/exaproxy/network/async/__init__.py\<close>, the choice of the poller, and \<open>DNSResolver\<close> of
  \<open>reactor/resolver/worker.py\<close>, which reads the servers from the file that the configuration found.
\<close>

section \<open>The choice of the poller\<close>

datatype poller_kind = EPoll_kind | KQueue_kind | Select_kind

definition best_reactor :: "string \<Rightarrow> string" where
  "best_reactor platform =
     (if prefix ''linux'' platform then ''epoll''
      else if prefix ''freebsd'' platform then ''kqueue''
      else if prefix ''darwin'' platform then ''kqueue''
      else ''select'')"

text \<open>\<open>Poller\<close>: the poller and what the configuration then says; \<open>has\<close> is \<open>hasattr(select, name)\<close>, \<open>None\<close> an exit.\<close>

definition choose_poller :: "string \<Rightarrow> (string \<Rightarrow> bool) \<Rightarrow> string \<Rightarrow> (poller_kind \<times> string) option" where
  "choose_poller platform has configured =
     (let r = (if configured = ''best'' then best_reactor platform else configured) in
      if r \<notin> {''epoll'', ''kqueue'', ''select''} then None
      else if r = ''epoll'' \<and> has ''epoll'' then Some (EPoll_kind, r)
      else if r = ''kqueue'' \<and> has ''kqueue'' then Some (KQueue_kind, r)
      else if has ''select'' then Some (Select_kind, r)
      else None)"

text \<open>The reactor that is chosen is one of the platform, when the daemon accepted the configuration.\<close>

theorem poller_supported:
  assumes "Daemon_init setrlimit dc limits = Some res" "choose_poller (dc_platform dc) has (dc_reactor dc) = Some (k, r)"
  shows "reactor_supported (dc\<lparr>dc_reactor := r\<rparr>)"
  using assms
  by (auto simp: Daemon_init_def reactor_supported_def choose_poller_def best_reactor_def Let_def split: if_splits)

theorem poller_supported_witness: "reactor_supported (example_daemon_conf\<lparr>dc_reactor := ''epoll''\<rparr>)"
proof -
  have d: "Daemon_init grant example_daemon_conf (1024, 100000) = Some (65826, 65826, 100000)"
    by (simp add: Daemon_init_def reactor_supported_def nb_descriptors_def example_daemon_conf_def grant_def Let_def)
  have c: "choose_poller (dc_platform example_daemon_conf) (\<lambda>_. True) (dc_reactor example_daemon_conf) = Some (EPoll_kind, ''epoll'')"
    by (simp add: choose_poller_def example_daemon_conf_def)
  show ?thesis by (rule poller_supported [OF d c])
qed

text \<open>The limit of 1024 descriptors of the select poller is not looked at when select is chosen for \<open>best\<close>: the daemon looks at the configuration before the choice.\<close>

theorem best_select_unchecked:
  assumes "\<not> prefix ''linux'' (dc_platform dc)" "\<not> prefix ''freebsd'' (dc_platform dc)" "\<not> prefix ''darwin'' (dc_platform dc)"
    and "dc_reactor dc = ''best''" "has ''select''" "soft \<ge> nb_descriptors dc"
  shows "choose_poller (dc_platform dc) has (dc_reactor dc) = Some (Select_kind, ''select'')
    \<and> Daemon_init setrlimit dc (soft, hard) = Some (nb_descriptors dc, soft, hard)"
  using assms by (simp add: choose_poller_def best_reactor_def Daemon_init_def reactor_supported_def Let_def)

theorem best_select_unchecked_witness:
  "Daemon_init grant (example_daemon_conf\<lparr>dc_platform := ''openbsd5'', dc_reactor := ''best''\<rparr>) (100000, 100000) = Some (65826, 100000, 100000)"
proof -
  let ?dc = "example_daemon_conf\<lparr>dc_platform := ''openbsd5'', dc_reactor := ''best''\<rparr>"
  have n: "nb_descriptors ?dc = 65826" by (simp add: nb_descriptors_def example_daemon_conf_def)
  have "choose_poller (dc_platform ?dc) (\<lambda>_. True) (dc_reactor ?dc) = Some (Select_kind, ''select'')
      \<and> Daemon_init grant ?dc (100000, 100000) = Some (nb_descriptors ?dc, 100000, 100000)"
    by (rule best_select_unchecked) (simp_all add: nb_descriptors_def example_daemon_conf_def)
  with n show ?thesis by simp
qed

section \<open>The servers of the resolver\<close>

text \<open>\<open>line.split(None, 1)\<close>.\<close>

definition split_first_word :: "string \<Rightarrow> string list" where
  "split_first_word line =
     (let l = py_lstrip line; rest = py_lstrip (dropWhile (\<lambda>c. \<not> is_space c) l)
      in if l = [] then [] else takeWhile (\<lambda>c. \<not> is_space c) l # (if rest = [] then [] else [rest]))"

definition resolver_line :: "string \<Rightarrow> string list" where
  "resolver_line line =
     (let l = py_strip line in
      if prefix ''#'' l then []
      else
        let parts = take 2 (split_first_word l @ [[], []])
        in if parts ! 0 = ''nameserver'' then py_words (parts ! 1) else [])"

text \<open>\<open>parseConfig\<close>: \<open>None\<close> when the file cannot be read; then \<open>config['nameserver']\<close> raises \<open>TypeError\<close>.\<close>

definition parseConfig :: "string list res \<Rightarrow> string list option" where
  "parseConfig contents = (case contents of Inl _ \<Rightarrow> None | Inr ls \<Rightarrow> Some (concat (map resolver_line ls)))"

definition resolver_servers :: "string list res \<Rightarrow> string list res" where
  "resolver_servers contents = or_raise TypeError (parseConfig contents)"

text \<open>\<open>random.choice\<close> of the servers: \<open>pick\<close> picks an index.\<close>

definition resolver_server :: "(nat \<Rightarrow> nat) \<Rightarrow> string list \<Rightarrow> string res" where
  "resolver_server pick servers = (if servers = [] then Inl IndexError else Inr (servers ! (pick (length servers) mod length servers)))"

lemma first_resolver_line:
  "first_resolver env ps = Inr p \<Longrightarrow> cfe_lines env p = Inr ls \<Longrightarrow> \<exists>l \<in> set ls. nameserver_line l"
  by (induction ps) (auto simp: seq_eq_Inr_iff split: if_splits)

lemma words_of_line:
  assumes "py_words (py_strip l) = ''nameserver'' # v # vs"
  shows "resolver_line l = v # vs"
proof -
  let ?l = "py_strip l"
  let ?r = "py_lstrip ?l"
  let ?d = "dropWhile (\<lambda>c. \<not> is_space c) ?r"
  have r: "?r \<noteq> []" using assms by (auto simp: py_words.simps [of ?l])
  have w: "takeWhile (\<lambda>c. \<not> is_space c) ?r = ''nameserver''" "py_words ?d = v # vs"
    using assms r by (simp_all add: py_words.simps [of ?l] Let_def)
  have dd: "py_words (py_lstrip s) = py_words s" for s
    by (induction s) (auto simp: py_lstrip_def)
  then have rest: "py_words (py_lstrip ?d) = v # vs" using w(2) by simp
  then have ne: "py_lstrip ?d \<noteq> []" by auto
  have "\<not> prefix ''#'' ?l"
  proof
    assume "prefix ''#'' ?l"
    then obtain t where "?l = CHR ''#'' # t" by (auto simp: prefix_def)
    moreover have "\<not> is_space CHR ''#''" by (simp add: is_space_def)
    ultimately have "hd (takeWhile (\<lambda>c. \<not> is_space c) ?r) = CHR ''#''" by (simp add: py_lstrip_def)
    with w(1) show False by simp
  qed
  then show ?thesis using r w(1) ne rest by (simp add: resolver_line_def split_first_word_def Let_def numeral_2_eq_2)
qed

text \<open>When every line that names a server in the file of the configuration does so in lower case and with an address, the resolver finds the file's servers, and has one to ask.\<close>

theorem configured_servers:
  assumes "conf_resolver env s = Inr p" "cfe_lines env p = Inr ls"
    and "\<And>l. l \<in> set ls \<Longrightarrow> nameserver_line l \<Longrightarrow> \<exists>v vs. py_words (py_strip l) = ''nameserver'' # v # vs"
  shows "\<exists>servers server. resolver_servers (cfe_lines env p) = Inr servers \<and> resolver_server pick servers = Inr server
    \<and> server \<in> set servers"
proof -
  from assms(1) obtain ps where "first_resolver env ps = Inr p" by (auto simp: conf_resolver_def seq_eq_Inr_iff)
  from first_resolver_line [OF this assms(2)] obtain l where l: "l \<in> set ls" "nameserver_line l" by blast
  with assms(3) obtain v vs where "py_words (py_strip l) = ''nameserver'' # v # vs" by blast
  from words_of_line [OF this] l(1) have ne: "concat (map resolver_line ls) \<noteq> []" by (auto intro!: bexI [of _ l])
  let ?ss = "concat (map resolver_line ls)"
  have "resolver_servers (cfe_lines env p) = Inr ?ss" using assms(2) by (simp add: resolver_servers_def parseConfig_def)
  moreover have "resolver_server pick ?ss = Inr (?ss ! (pick (length ?ss) mod length ?ss))" using ne by (simp add: resolver_server_def)
  moreover have "?ss ! (pick (length ?ss) mod length ?ss) \<in> set ?ss" using ne by (intro nth_mem) simp
  ultimately show ?thesis by blast
qed

theorem configured_servers_witness:
  "\<exists>p server. conf_resolver example_config_env ''/etc/resolv.conf'' = Inr p \<and> resolver_servers (cfe_lines example_config_env p) = Inr [server]"
proof -
  have "\<not> isl (convert example_config_env Resolver_conf ''/etc/resolv.conf'')"
    by (rule example_system_defaults) (simp add: system_defaults_def)
  then obtain p where p: "conf_resolver example_config_env ''/etc/resolv.conf'' = Inr p"
    by (cases "conf_resolver example_config_env ''/etc/resolv.conf''") auto
  have w: "py_words (py_strip ''nameserver 127.0.0.1'') = [''nameserver'', ''127.0.0.1'']" by code_simp
  have l: "cfe_lines example_config_env p = Inr [''nameserver 127.0.0.1'']" by (simp add: example_config_env_def)
  obtain servers where s: "resolver_servers (cfe_lines example_config_env p) = Inr servers"
    using configured_servers [OF p l, of "\<lambda>n. n"] w by auto
  have "resolver_line ''nameserver 127.0.0.1'' = [''127.0.0.1'']" by (rule words_of_line [OF w])
  with s l have "servers = [''127.0.0.1'']" by (simp add: resolver_servers_def parseConfig_def)
  with s p show ?thesis by blast
qed

text \<open>The keyword is looked for in any case by the configuration, and in lower case by the resolver.\<close>

lemma upper_case_nameserver: "nameserver_line ''Nameserver 10.0.0.1'' \<and> resolver_line ''Nameserver 10.0.0.1'' = []"
  by code_simp

end
