(* ===== verification/Spec2Isabelle.thy ===== *)
theory Spec2Isabelle
  imports Message HTTPClient DnsAnswer Server HttpResponse RedirectorWorker RedirectorPool StreamClient ICAPClient ClientManager ContentManager Resolver MessageBox ReactorFacts RedirectorProcess Supervisor IcapFacts Daemon Application LogMessages WebPage Threads Startup
begin

text \<open>
  A verification library for ExaProxy, a forward HTTP proxy in Python 2 (\<open>lib/exaproxy/\<close>). Every path below is
  relative to that directory. This theory imports all the others and holds this description.

  \<^bold>\<open>The program.\<close> One process accepts connections of clients (HTTP, TLS, passthrough, ICAP and the web page of
  the proxy), reads a request from each, and hands it to a second process, that of the redirectors, through a
  pipe. There a pool of workers decides on the request, with an external program (a line of text for each
  request, or an ICAP server spoken to through a child). The decision comes back on the pipe; the first process
  resolves the name of the web server if it has to, connects, and relays bytes between client and server until
  one of them ends. Everything in a process is driven by one poller and one loop, the reactor; around it the
  supervisor acts on signals and alarms, keeps statistics and stops and starts listening.

  \<^bold>\<open>The theories and the files they model.\<close>

  \<^item> Shared: \<^verbatim>\<open>Prelude\<close> (exceptions as values, sequencing, loops that may raise), \<^verbatim>\<open>PyStr\<close> and \<^verbatim>\<open>PyPath\<close> (what is
    used of Python's strings, of \<open>os.path\<close> and of formatting), \<^verbatim>\<open>NetAddr\<close> (\<open>network/functions.py\<close>, the tests of
    addresses).
  \<^item> HTTP: \<^verbatim>\<open>Headers\<close>, \<^verbatim>\<open>Request\<close>, \<^verbatim>\<open>Message\<close> (\<open>http/headers.py\<close>, \<open>request.py\<close>, \<open>message.py\<close>), \<^verbatim>\<open>HttpResponse\<close>
    (\<open>http/response.py\<close>).
  \<^item> Client connections: \<^verbatim>\<open>ProxyProtocol\<close> (\<open>util/proxy.py\<close>), \<^verbatim>\<open>HTTPClient\<close>, \<^verbatim>\<open>StreamClient\<close> and \<^verbatim>\<open>ICAPClient\<close>
    (\<open>reactor/client/http.py\<close>, \<open>tls.py\<close>, \<open>passthrough.py\<close>, \<open>icap.py\<close>), \<^verbatim>\<open>TLSHello\<close> (\<open>tls/\<close>), \<^verbatim>\<open>Connections\<close> (the
    classes as objects), \<^verbatim>\<open>ClientManager\<close> (\<open>util/cache.py\<close>, \<open>reactor/client/manager.py\<close>).
  \<^item> Web servers: \<^verbatim>\<open>Content\<close>, \<^verbatim>\<open>ContentManager\<close> (\<open>reactor/content/worker.py\<close>, \<open>manager.py\<close>).
  \<^item> Names: \<^verbatim>\<open>DnsConvert\<close>, \<^verbatim>\<open>DnsCodec\<close>, \<^verbatim>\<open>DnsAnswer\<close> (\<open>dns/\<close>), \<^verbatim>\<open>Resolver\<close> (\<open>reactor/resolver/\<close>).
  \<^item> Descriptors: \<^verbatim>\<open>Poller\<close>, \<^verbatim>\<open>SteadyPoller\<close> (\<open>network/async/\<close>), \<^verbatim>\<open>Server\<close> (\<open>network/server.py\<close> and the sockets of
    \<open>network/functions.py\<close>).
  \<^item> Redirectors: \<^verbatim>\<open>RedirectorResponse\<close>, \<^verbatim>\<open>RedirectorWorker\<close>, \<^verbatim>\<open>RedirectorPool\<close>, \<^verbatim>\<open>RedirectorProcess\<close>
    (\<open>reactor/redirector/response.py\<close>, \<open>worker.py\<close>, \<open>manager.py\<close>, \<open>reactor.py\<close> and \<open>supervisor.py\<close>), \<^verbatim>\<open>IcapParser\<close>
    (\<open>icap/\<close>), \<^verbatim>\<open>IcapRedirector\<close> and \<^verbatim>\<open>IcapFacts\<close> (\<open>reactor/redirector/icap.py\<close> and its serializers).
  \<^item> Between processes and threads: \<^verbatim>\<open>MessageBox\<close> (\<open>util/messagebox.py\<close>, \<open>util/control.py\<close>), \<^verbatim>\<open>Threads\<close>
    (\<open>util/messagequeue.py\<close>, \<open>util/alarm.py\<close>, \<open>reactor/redirector/dispatch.py\<close>, \<open>messagebox.py\<close>).
  \<^item> The loops: \<^verbatim>\<open>Reactor\<close>, \<^verbatim>\<open>ReactorCount\<close>, \<^verbatim>\<open>ReactorFacts\<close> (\<open>reactor/reactor.py\<close>), \<^verbatim>\<open>Supervisor\<close> (\<open>supervisor.py\<close>,
    \<open>monitor.py\<close>).
  \<^item> Starting: \<^verbatim>\<open>Configuration\<close>, \<^verbatim>\<open>Application\<close> (\<open>configuration.py\<close>, \<open>application.py\<close>), \<^verbatim>\<open>Daemon\<close> (\<open>util/daemon.py\<close>,
    \<open>util/pid.py\<close>), \<^verbatim>\<open>Startup\<close> (the choice of the poller, the servers of the resolver).
  \<^item> Seen from outside: \<^verbatim>\<open>LogMessages\<close> (\<open>util/log/\<close>), \<^verbatim>\<open>WebPage\<close> (\<open>html/page.py\<close>, \<open>graph.py\<close>, \<open>mail.py\<close>).

  \<^bold>\<open>How the code is translated.\<close> A class is a record of its attributes and each of its operations a function that
  takes the record and returns it updated, under the name it has in the class. Code that can raise returns \<open>py_error + 'a\<close>; the
  exceptions the code catches are the branches of its handlers. An exception ends an operation, and the state it
  leaves is not part of the value: where the code goes on after catching one, the model has the state at the
  catch. A value that can be \<open>None\<close> is an \<open>option\<close>. Strings are lists of bytes; Python's integers are \<open>int\<close>
  or \<open>nat\<close>, and the fixed widths of DNS and TLS are written with their bytes and bounds. A coroutine is the state it waits in
  and the function that a value sent to it runs to the next wait; a generator whose yields are acted upon
  before it goes on (the clean-up of the resolver, the expired clients) takes that action as an argument or is
  split at its yields. Connection objects that are shared live in a store, addressed by their socket. The
  dictionaries are maps, and the order in which one is walked is an argument where it matters.

  \<^bold>\<open>Parameters.\<close> What the kernel answers to \<open>recv\<close>, \<open>send\<close>, \<open>connect\<close> and the poller, the time, files, the
  environment, the users, pickling, random choices and the external programs are arguments: records of answers
  (\<open>..._env\<close>, \<open>..._io\<close>) or functions. No theorem restricts them but by named hypotheses, each met in its
  witness. The pipe between the processes is the bytes still to be read from it.

  \<^bold>\<open>Loops.\<close> A loop that consumes its input is recursive on it. Loops that may not end are partial functions into
  \<open>option\<close>, \<open>None\<close> being no return: the pointers of DNS names, the chain of CNAMEs, the lines of a child, the
  blocks of an ICAP response, the size of a message, the queue of the redirectors, the clean-up of the resolver
  and of the reactor, and the search for the directory of the program. That they return is proved where it holds
  (the pointers of a name, the search for the directory, the clean-up of the resolver), and that they do not
  where it does not (a message that is cut, an ICAP response that is cut). There is no fuel: the runs of the reactor, of the supervisor and of
  the process of the redirectors are over a list of what happens, of any length.

  \<^bold>\<open>Interfaces.\<close> The locale \<open>poller\<close> is the contract of one event of a poller, with its interpretations on the
  three pollers; \<open>steady_poller\<close> is what the managers rely on (the operations do not raise and change one set),
  interpreted on \<open>EPoller\<close>. The managers' invariants are proved in \<open>client_manager\<close> and \<open>content_manager\<close>, which
  extend it, and interpreted on \<open>EPoller\<close> and the HTTP connection. \<open>closing_connection\<close> is what the count of
  connections needs of a client class, interpreted on the HTTP, TLS and passthrough classes and their sum;
  \<open>counted_reactor\<close> extends it with the reactor, interpreted on that sum.

  \<^bold>\<open>What the lemmas show.\<close>

  \<^item> Messages: every outcome of the parsers, what is printed is read back (headers, DNS, ICAP, pipes, and the options but
    for paths and ranges), bodies are framed, and no byte that is relayed is lost or repeated; which bodies in chunks of an ICAP
    server are read to their end, and which are not.
  \<^item> Tables: the client, content and resolver managers and the pool keep their invariants over every
    operation, and what an operation of the first two raises is given exactly (\<open>op_raise\<close>: what the coroutine of its connection
    raises; \<open>content_fault\<close>: what the decision, the site and the local files make it raise); the client manager implements a plain map of connections.
  \<^item> Policy: what is denied is not connected to, and the configured networks are exactly those denied;
    CONNECT only to allowed ports; local files only below their directory; Python only when enabled.
  \<^item> Accounts: every request given to the redirectors is answered or waiting; over every interleaving of runs,
    turns and signals the proxy, TLS and passthrough servers have counted the connections that are there, while the web and ICAP
    servers take none and the decisions are well formed; what the log writer lets out; the thread that sends requests
    neither loses nor reorders them.
  \<^item> Errors: what raises, and where an account is lost; several of these are faults of the code, and each is
    stated as a theorem on the code as it is.

  \<^bold>\<open>Not modelled.\<close> The bodies of the answers in HTML and the images; \<open>html/menu.py\<close> formats them. Forking, the
  pipes and threads as system calls, \<open>subprocess\<close> (\<open>reactor/redirector/child.py\<close>), the closing of sockets, and
  the addresses of the interfaces and \<open>splice\<close>, which are calls through \<open>ctypes\<close>: nothing of them is computed by
  the program. \<open>leak/\<close>, \<open>util/debug.py\<close> and the introspection of the monitor look into the Python interpreter.
  The printing of DNS packets and the help of the command line are text. \<open>ConfigParser\<close>, \<open>logging\<close>, \<open>pickle\<close>
  and \<open>smtplib\<close> are used through what they give. Profiling, the tests and the tools under \<open>QA/\<close> are not part of
  the proxy.
\<close>

end
